(* ===== verification/LS_Prelude.thy ===== *)
theory LS_Prelude
  imports Main "HOL-Library.Word" "HOL-Library.Monad_Syntax"
begin

text \<open>
  Shared vocabulary of the development: the machine types of libspectrum, the convention
  for C functions whose execution may be undefined, checked array accesses, and the
  generic lemmas on bytes, bit lists and \<open>option\<close> that the components share.
\<close>

unbundle bit_operations_syntax

named_theorems c_simps \<open>unfolding of the C-level accessors and of \<open>option\<close> binds\<close>

section \<open>Machine types\<close>

text \<open>
  \<open>libspectrum_byte\<close>, \<open>libspectrum_word\<close> and \<open>libspectrum_dword\<close> are unsigned types of
  8, 16 and 32 bits; \<open>size_t\<close> is taken at 64 bits. All of them wrap around.
\<close>

type_synonym byte = "8 word"
type_synonym lword = "16 word"
type_synonym dword = "32 word"
type_synonym size_t = "64 word"

section \<open>Undefined behaviour and error codes\<close>

text \<open>
  The error codes of \<open>libspectrum.h.in\<close>. A C function that returns \<open>libspectrum_error\<close>
  and works on a state is modelled as a function to \<open>'s c_result\<close>: \<open>None\<close> is an execution
  without defined behaviour (a read or write outside an object, a use of a dangling
  pointer, a division by zero), \<open>Some (e, s)\<close> a return of the code \<open>e\<close> with the state
  left as \<open>s\<close>, whether \<open>e\<close> is an error or not.
\<close>

datatype libspectrum_error =
    ERROR_NONE | ERROR_WARNING | ERROR_MEMORY | ERROR_UNKNOWN | ERROR_CORRUPT
  | ERROR_SIGNATURE | ERROR_SLT | ERROR_INVALID | ERROR_LOGIC

type_synonym 's c_result = "(libspectrum_error \<times> 's) option"

text \<open>\<open>if( error ) return error;\<close>\<close>

definition on_ok :: "'s c_result \<Rightarrow> ('s \<Rightarrow> 's c_result) \<Rightarrow> 's c_result" where
  "on_ok r f = r \<bind> (\<lambda>(e, s). if e = ERROR_NONE then f s else Some (e, s))"

lemma on_ok_simps [simp, c_simps]:
  "on_ok (Some (ERROR_NONE, s)) f = f s"
  "on_ok None f = None"
  "e \<noteq> ERROR_NONE \<Longrightarrow> on_ok (Some (e, s)) f = Some (e, s)"
  by (simp_all add: on_ok_def)

lemma bind_then: "x \<bind> f = Some b \<Longrightarrow> x \<bind> (\<lambda>y. f y \<bind> g) = g b"
  by (cases x) auto

section \<open>Checked array accesses\<close>

definition aget :: "'a list \<Rightarrow> 'b::len word \<Rightarrow> 'a option" where
  "aget xs i = (if unat i < length xs then Some (xs ! unat i) else None)"

definition aset :: "'a list \<Rightarrow> 'b::len word \<Rightarrow> 'a \<Rightarrow> 'a list option" where
  "aset xs i v = (if unat i < length xs then Some (xs[unat i := v]) else None)"

text \<open>The same with an index that is known to be a natural number.\<close>

definition nget :: "'a list \<Rightarrow> nat \<Rightarrow> 'a option" where
  "nget xs i = (if i < length xs then Some (xs ! i) else None)"

definition nset :: "'a list \<Rightarrow> nat \<Rightarrow> 'a \<Rightarrow> 'a list option" where
  "nset xs i v = (if i < length xs then Some (xs[i := v]) else None)"

lemma aget_Some [c_simps]: "unat i < length xs \<Longrightarrow> aget xs i = Some (xs ! unat i)"
  by (simp add: aget_def)

lemma aget_None: "\<not> unat i < length xs \<Longrightarrow> aget xs i = None"
  by (simp add: aget_def)

lemma aset_Some [c_simps]: "unat i < length xs \<Longrightarrow> aset xs i v = Some (xs[unat i := v])"
  by (simp add: aset_def)

lemma nget_Some [c_simps]: "i < length xs \<Longrightarrow> nget xs i = Some (xs ! i)"
  by (simp add: nget_def)

lemma nget_None: "\<not> i < length xs \<Longrightarrow> nget xs i = None"
  by (simp add: nget_def)

lemma nget_nth_drop: "nget xs i = Some x \<longleftrightarrow> (\<exists>ys. drop i xs = x # ys)"
proof (cases "i < length xs")
  case True
  then show ?thesis by (simp add: nget_def Cons_nth_drop_Suc [symmetric])
next
  case False
  then show ?thesis by (simp add: nget_def)
qed

lemma nget_app: "length pre \<le> i \<Longrightarrow> nget (pre @ ys) i = nget ys (i - length pre)"
  by (auto simp: nget_def nth_append)

lemma nset_app: "length pre \<le> i \<Longrightarrow> nset (pre @ ys) i v = map_option ((@) pre) (nset ys (i - length pre) v)"
  by (auto simp: nset_def list_update_append)

lemma nget_Cons: "nget (x # xs) i = (if i = 0 then Some x else nget xs (i - 1))"
  by (auto simp: nget_def nth_Cons split: nat.splits)

lemma nset_Cons: "nset (x # xs) i v = (if i = 0 then Some (v # xs) else map_option ((#) x) (nset xs (i - 1) v))"
  by (cases i) (auto simp: nset_def)

lemma split_at:
  assumes "p + n \<le> length xs"
  obtains pre mid post where "xs = pre @ mid @ post" "length pre = p" "length mid = n"
    "take p xs = pre" "drop (p + n) xs = post"
proof
  show "xs = take p xs @ take n (drop p xs) @ drop (p + n) xs"
    by (metis append_take_drop_id drop_drop add.commute)
qed (use assms in auto)

lemma set_insert_at: "set (take k xs @ y # drop k xs) = insert y (set xs)"
  by (metis append_take_drop_id list.simps(15) set_append sup_commute Un_insert_left)

lemma distinct_insert_at: "distinct (take k xs @ y # drop k xs) \<longleftrightarrow> distinct xs \<and> y \<notin> set xs"
proof -
  have "distinct (as @ y # bs) \<longleftrightarrow> distinct (as @ bs) \<and> y \<notin> set (as @ bs)" for as bs :: "'a list"
    by auto
  from this [of "take k xs" "drop k xs"] show ?thesis by simp
qed

lemma length_4E:
  assumes "length xs = 4" obtains a b c d where "xs = [a, b, c, d]"
  using assms by (auto simp: numeral_eq_Suc length_Suc_conv)

lemma length_2E:
  assumes "length xs = 2" obtains a b where "xs = [a, b]"
  using assms by (auto simp: numeral_eq_Suc length_Suc_conv)

lemma aset_length: "aset xs i v = Some ys \<Longrightarrow> length ys = length xs"
  by (auto simp: aset_def split: if_splits)

lemma nset_length: "nset xs i v = Some ys \<Longrightarrow> length ys = length xs"
  by (auto simp: nset_def split: if_splits)

text \<open>\<open>memcpy( dest + i, src, n )\<close> and \<open>memset\<close>, with both objects checked.\<close>

definition memcpy_at :: "'a list \<Rightarrow> nat \<Rightarrow> 'a list \<Rightarrow> nat \<Rightarrow> 'a list option" where
  "memcpy_at dest i src n =
     (if i + n \<le> length dest \<and> n \<le> length src
      then Some (take i dest @ take n src @ drop (i + n) dest) else None)"

definition memset_at :: "'a list \<Rightarrow> nat \<Rightarrow> 'a \<Rightarrow> nat \<Rightarrow> 'a list option" where
  "memset_at dest i v n = memcpy_at dest i (replicate n v) n"

lemma memcpy_at_length: "memcpy_at d i s n = Some d' \<Longrightarrow> length d' = length d"
  by (auto simp: memcpy_at_def split: if_splits)

lemma memset_at_length: "memset_at d i v n = Some d' \<Longrightarrow> length d' = length d"
  unfolding memset_at_def by (rule memcpy_at_length)

text \<open>The same into an object of exactly \<open>n\<close> bytes: the bytes it then has.\<close>

definition copy_out :: "'a list \<Rightarrow> nat \<Rightarrow> nat \<Rightarrow> 'a list option" where
  "copy_out src d n = (if d + n \<le> length src then Some (take n (drop d src)) else None)"

lemma copy_out_insert:
  "length pre = d \<Longrightarrow> length mid = n \<Longrightarrow> copy_out (pre @ mid @ post) d n = Some mid"
  by (auto simp: copy_out_def)

lemma memcpy_at_insert:
  "length pre = i \<Longrightarrow> length mid = n \<Longrightarrow> n \<le> length src \<Longrightarrow>
     memcpy_at (pre @ mid @ post) i src n = Some (pre @ take n src @ post)"
  by (auto simp: memcpy_at_def)

section \<open>Bits of a byte, most significant first\<close>

text \<open>The bit that \<open>b & 0x80\<close> tests.\<close>

definition msb8 :: "byte \<Rightarrow> bool" where
  "msb8 b \<longleftrightarrow> bit b 7"

lemma and_0x80 [c_simps]: "b AND 0x80 \<noteq> (0 :: byte) \<longleftrightarrow> msb8 b"
proof -
  have "(0x80 :: byte) = 2 ^ 7" by simp
  then show ?thesis
    by (simp only: msb8_def and_exp_eq_0_iff_not_bit) simp
qed

text \<open>The first \<open>n\<close> bits of a byte, most significant first.\<close>

fun top_bits :: "nat \<Rightarrow> byte \<Rightarrow> bool list" where
  "top_bits 0 b = []"
| "top_bits (Suc n) b = msb8 b # top_bits n (push_bit 1 b)"

lemma length_top_bits [simp]: "length (top_bits n b) = n"
  by (induction n arbitrary: b) auto

lemma top_bits_Nil_iff [simp]: "top_bits n b = [] \<longleftrightarrow> n = 0"
  by (cases n) auto

lemma top_bits_pos: "0 < n \<Longrightarrow> top_bits n b = msb8 b # top_bits (n - 1) (push_bit 1 b)"
  by (cases n) auto

section \<open>Pasting and cutting words\<close>

lemma paste2: "(ucast (a :: byte) :: lword) + ucast (b :: byte) * 0x100 = ucast a OR push_bit 8 (ucast b)"
proof -
  have "(ucast b :: lword) * 0x100 = push_bit 8 (ucast b)"
    by (simp add: push_bit_eq_mult)
  moreover have "(ucast a :: lword) AND push_bit 8 (ucast b) = 0"
    by (rule bit_word_eqI) (auto simp: bit_simps dest: bit_imp_le_length)
  ultimately show ?thesis
    by (simp add: disjunctive_add_eq_or)
qed

text \<open>Four bytes, least significant first, as the C code adds them up.\<close>

definition paste4 :: "byte \<Rightarrow> byte \<Rightarrow> byte \<Rightarrow> byte \<Rightarrow> dword" where
  "paste4 a b c d = ucast a + ucast b * 0x100 + ucast c * 0x10000 + ucast d * 0x1000000"

lemma paste4_or:
  "paste4 a b c d =
     ucast a OR push_bit 8 (ucast b) OR push_bit 16 (ucast c) OR push_bit 24 (ucast d)"
proof -
  have shifts: "(ucast b :: dword) * 0x100 = push_bit 8 (ucast b)"
    "(ucast c :: dword) * 0x10000 = push_bit 16 (ucast c)"
    "(ucast d :: dword) * 0x1000000 = push_bit 24 (ucast d)"
    by (simp_all add: push_bit_eq_mult)
  have "(ucast a :: dword) AND push_bit 8 (ucast b) = 0"
    by (rule bit_word_eqI) (auto simp: bit_simps dest: bit_imp_le_length)
  moreover have "((ucast a :: dword) OR push_bit 8 (ucast b)) AND push_bit 16 (ucast c) = 0"
    by (rule bit_word_eqI) (auto simp: bit_simps dest: bit_imp_le_length)
  moreover have "((ucast a :: dword) OR push_bit 8 (ucast b) OR push_bit 16 (ucast c))
      AND push_bit 24 (ucast d) = 0"
    by (rule bit_word_eqI) (auto simp: bit_simps dest: bit_imp_le_length)
  ultimately show ?thesis
    by (simp add: paste4_def shifts disjunctive_add_eq_or or.assoc)
qed

lemma paste2_split: "(ucast (ucast (w AND 0xff) :: byte) :: lword) + ucast (ucast (drop_bit 8 w) :: byte) * 0x100 = w"
proof -
  have m: "(0xff :: lword) = mask 8" by (simp add: mask_eq_exp_minus_1)
  show ?thesis
    unfolding paste2 m by (rule bit_word_eqI) (auto simp: bit_simps)
qed

lemma cut4:
  "(ucast (w AND 0x000000ff) :: byte) = ucast (w :: dword)"
  "(ucast (drop_bit 8 (w AND 0x0000ff00)) :: byte) = ucast (drop_bit 8 w)"
  "(ucast (drop_bit 16 (w AND 0x00ff0000)) :: byte) = ucast (drop_bit 16 w)"
  "(ucast (drop_bit 24 (w AND 0xff000000)) :: byte) = ucast (drop_bit 24 w)"
proof -
  have m: "(0x000000ff :: dword) = mask 8" "(0x0000ff00 :: dword) = push_bit 8 (mask 8)"
    "(0x00ff0000 :: dword) = push_bit 16 (mask 8)" "(0xff000000 :: dword) = push_bit 24 (mask 8)"
    by (simp_all add: mask_eq_exp_minus_1 push_bit_eq_mult)
  show "(ucast (w AND 0x000000ff) :: byte) = ucast w"
    unfolding m by (rule bit_word_eqI) (auto simp: bit_simps)
  show "(ucast (drop_bit 8 (w AND 0x0000ff00)) :: byte) = ucast (drop_bit 8 w)"
    unfolding m by (rule bit_word_eqI) (auto simp: bit_simps)
  show "(ucast (drop_bit 16 (w AND 0x00ff0000)) :: byte) = ucast (drop_bit 16 w)"
    unfolding m by (rule bit_word_eqI) (auto simp: bit_simps)
  show "(ucast (drop_bit 24 (w AND 0xff000000)) :: byte) = ucast (drop_bit 24 w)"
    unfolding m by (rule bit_word_eqI) (auto simp: bit_simps)
qed

lemma paste4_cut:
  "paste4 (ucast w) (ucast (drop_bit 8 w)) (ucast (drop_bit 16 w)) (ucast (drop_bit 24 w)) = w"
  unfolding paste4_or
proof (rule bit_word_eqI)
  fix n assume "n < LENGTH(32)"
  then consider "n < 8" | "8 \<le> n \<and> n < 16" | "16 \<le> n \<and> n < 24" | "24 \<le> n \<and> n < 32"
    by fastforce
  then show "bit (ucast (ucast w :: byte) OR push_bit 8 (ucast (ucast (drop_bit 8 w) :: byte)) OR
      push_bit 16 (ucast (ucast (drop_bit 16 w) :: byte)) OR
      push_bit 24 (ucast (ucast (drop_bit 24 w) :: byte)) :: dword) n = bit w n"
    by cases (simp_all add: bit_simps, (force dest: bit_imp_le_length)+)
qed

lemma paste4_split:
  "paste4 (ucast (w AND 0x000000ff)) (ucast (drop_bit 8 (w AND 0x0000ff00)))
      (ucast (drop_bit 16 (w AND 0x00ff0000))) (ucast (drop_bit 24 (w AND 0xff000000))) = w"
  by (simp only: cut4 paste4_cut)

section \<open>Arithmetic on \<open>size_t\<close> cut to 32 bits\<close>

lemma ucast_low: "(ucast (word_of_int i :: size_t) :: dword) = word_of_int i"
  by transfer simp

lemma ucast_low_simps:
  "(ucast (a + b :: size_t) :: dword) = ucast a + ucast b"
  "(ucast (a - b :: size_t) :: dword) = ucast a - ucast b"
  "(ucast (a * b :: size_t) :: dword) = ucast a * ucast b"
  "(ucast (ucast (d :: dword) :: size_t) :: dword) = d"
proof -
  have c: "(ucast c :: dword) = word_of_int (uint c)" for c :: size_t
    by (metis ucast_low word_of_int_uint)
  have "a + b = word_of_int (uint a + uint b)" "a - b = word_of_int (uint a - uint b)"
    "a * b = word_of_int (uint a * uint b)" by simp_all
  note w = this [THEN arg_cong, of "ucast :: size_t \<Rightarrow> dword"]
  show "(ucast (a + b :: size_t) :: dword) = ucast a + ucast b"
    unfolding w ucast_low c [of a] c [of b] by (rule of_int_add)
  show "(ucast (a - b :: size_t) :: dword) = ucast a - ucast b"
    unfolding w ucast_low c [of a] c [of b] by (rule of_int_diff)
  show "(ucast (a * b :: size_t) :: dword) = ucast a * ucast b"
    unfolding w ucast_low c [of a] c [of b] by (rule of_int_mult)
  show "(ucast (ucast d :: size_t) :: dword) = d"
    by (rule bit_word_eqI) (auto simp: bit_simps)
qed

end
