(* ===== verification/LS_Core.thy ===== *)
theory LS_Core
  imports LS_Prelude
begin

text \<open>
  \<open>libspectrum.c\<close>: reading and writing little-endian words, growing a byte array,
  the file types and classes and the guess of a file's type, the machine types and their
  capabilities; and the unit conversions of \<open>utilities.c\<close>.
\<close>

section \<open>Little-endian words\<close>

text \<open>
  A \<open>libspectrum_byte **buffer\<close> is an object (a list of bytes) and an offset in it. The
  functions return the value and the advanced offset. The sums are computed in \<open>int\<close> and
  truncated on assignment; modulo \<open>2 ^ 32\<close> that is the sum of words below.
\<close>

definition libspectrum_read_word :: "byte list \<Rightarrow> nat \<Rightarrow> (lword \<times> nat) option" where
  "libspectrum_read_word buf p = do {
     b0 \<leftarrow> nget buf p; b1 \<leftarrow> nget buf (p + 1);
     Some (ucast b0 + ucast b1 * 0x100, p + 2) }"

definition libspectrum_read_dword :: "byte list \<Rightarrow> nat \<Rightarrow> (dword \<times> nat) option" where
  "libspectrum_read_dword buf p = do {
     b0 \<leftarrow> nget buf p; b1 \<leftarrow> nget buf (p + 1); b2 \<leftarrow> nget buf (p + 2); b3 \<leftarrow> nget buf (p + 3);
     Some (paste4 b0 b1 b2 b3, p + 4) }"

definition libspectrum_write_word :: "byte list \<Rightarrow> nat \<Rightarrow> lword \<Rightarrow> (byte list \<times> nat) option" where
  "libspectrum_write_word buf p w = do {
     buf \<leftarrow> nset buf p (ucast (w AND 0xff));
     buf \<leftarrow> nset buf (p + 1) (ucast (drop_bit 8 w));
     Some (buf, p + 2) }"

definition libspectrum_write_dword :: "byte list \<Rightarrow> nat \<Rightarrow> dword \<Rightarrow> (byte list \<times> nat) option" where
  "libspectrum_write_dword buf p d = do {
     buf \<leftarrow> nset buf p (ucast (d AND 0x000000ff));
     buf \<leftarrow> nset buf (p + 1) (ucast (drop_bit 8 (d AND 0x0000ff00)));
     buf \<leftarrow> nset buf (p + 2) (ucast (drop_bit 16 (d AND 0x00ff0000)));
     buf \<leftarrow> nset buf (p + 3) (ucast (drop_bit 24 (d AND 0xff000000)));
     Some (buf, p + 4) }"

text \<open>The bytes the two writers put down, in order.\<close>

definition word_bytes :: "lword \<Rightarrow> byte list" where
  "word_bytes w = [ucast (w AND 0xff), ucast (drop_bit 8 w)]"

definition dword_bytes :: "dword \<Rightarrow> byte list" where
  "dword_bytes d = [ucast (d AND 0x000000ff), ucast (drop_bit 8 (d AND 0x0000ff00)),
     ucast (drop_bit 16 (d AND 0x00ff0000)), ucast (drop_bit 24 (d AND 0xff000000))]"

lemma length_word_bytes [simp]: "length (word_bytes w) = 2"
  by (simp add: word_bytes_def)

lemma length_dword_bytes [simp]: "length (dword_bytes d) = 4"
  by (simp add: dword_bytes_def)

lemmas cell_simps = nget_app nset_app nget_Cons nset_Cons

lemma write_word_bytes:
  assumes "p + 2 \<le> length buf"
  shows "libspectrum_write_word buf p w = Some (take p buf @ word_bytes w @ drop (p + 2) buf, p + 2)"
proof -
  obtain pre mid post where b: "buf = pre @ mid @ post" "length pre = p" "length mid = 2"
    "take p buf = pre" "drop (p + 2) buf = post"
    using assms by (rule split_at)
  obtain x y where "mid = [x, y]" using b(3) by (rule length_2E)
  then show ?thesis
    unfolding b(4,5) using b(1,2) by (simp add: libspectrum_write_word_def cell_simps word_bytes_def)
qed

lemma write_dword_bytes:
  assumes "p + 4 \<le> length buf"
  shows "libspectrum_write_dword buf p d = Some (take p buf @ dword_bytes d @ drop (p + 4) buf, p + 4)"
proof -
  obtain pre mid post where b: "buf = pre @ mid @ post" "length pre = p" "length mid = 4"
    "take p buf = pre" "drop (p + 4) buf = post"
    using assms by (rule split_at)
  obtain x y u v where "mid = [x, y, u, v]" using b(3) by (rule length_4E)
  then show ?thesis
    unfolding b(4,5) using b(1,2) by (simp add: libspectrum_write_dword_def cell_simps dword_bytes_def)
qed

lemma read_word_at: "libspectrum_read_word (pre @ word_bytes w @ post) (length pre) = Some (w, length pre + 2)"
  by (simp add: libspectrum_read_word_def word_bytes_def cell_simps paste2_split)

lemma read_dword_at: "libspectrum_read_dword (pre @ dword_bytes d @ post) (length pre) = Some (d, length pre + 4)"
  by (simp only: libspectrum_read_dword_def dword_bytes_def)
    (simp add: cell_simps paste4_split del: drop_bit_and)

text \<open>A word written anywhere in a buffer is read back, and nothing else is touched.\<close>

theorem word_roundtrip:
  assumes "p + 2 \<le> length buf"
  shows "\<exists>buf'. libspectrum_write_word buf p w = Some (buf', p + 2) \<and>
           libspectrum_read_word buf' p = Some (w, p + 2) \<and>
           take p buf' = take p buf \<and> drop (p + 2) buf' = drop (p + 2) buf"
  using assms read_word_at [of "take p buf" w "drop (p + 2) buf"]
  by (simp add: write_word_bytes)

theorem word_roundtrip_witness:
  "\<exists>buf'. libspectrum_write_word [1, 2, 3, 4, 5] 2 0xabcd = Some (buf', 4) \<and>
     libspectrum_read_word buf' 2 = Some (0xabcd, 4) \<and>
     take 2 buf' = take 2 [1, 2, 3, 4, 5] \<and> drop 4 buf' = drop 4 [1, 2, 3, 4, 5]"
  using word_roundtrip [where p = 2 and buf = "[1, 2, 3, 4, 5]" and w = "0xabcd"] by simp

text \<open>The same for a 32-bit value.\<close>

theorem dword_roundtrip:
  assumes "p + 4 \<le> length buf"
  shows "\<exists>buf'. libspectrum_write_dword buf p d = Some (buf', p + 4) \<and>
           libspectrum_read_dword buf' p = Some (d, p + 4) \<and>
           take p buf' = take p buf \<and> drop (p + 4) buf' = drop (p + 4) buf"
  using assms read_dword_at [of "take p buf" d "drop (p + 4) buf"]
  by (simp add: write_dword_bytes)

theorem dword_roundtrip_witness:
  "\<exists>buf'. libspectrum_write_dword [1, 2, 3, 4, 5, 6] 2 0xdeadbeef = Some (buf', 6) \<and>
     libspectrum_read_dword buf' 2 = Some (0xdeadbeef, 6) \<and>
     take 2 buf' = take 2 [1, 2, 3, 4, 5, 6] \<and> drop 6 buf' = drop 6 [1, 2, 3, 4, 5, 6]"
  using dword_roundtrip [where p = 2 and buf = "[1, 2, 3, 4, 5, 6]" and d = "0xdeadbeef"] by simp

section \<open>Growing a byte array\<close>

text \<open>
  The arguments of \<open>libspectrum_make_room\<close>: the array \<open>*dest\<close> (an object of \<open>*allocated\<close>
  bytes), the write position \<open>*ptr\<close> as an offset in it, and \<open>*allocated\<close>. The bytes that
  \<open>malloc\<close> and \<open>realloc\<close> hand out are indeterminate: the functions take them from an
  arbitrary \<open>junk\<close>, and every theorem holds for each. Allocation itself never fails, since
  \<open>libspectrum_malloc\<close> and \<open>libspectrum_realloc\<close> abort the program instead of returning.
\<close>

record room =
  dest :: "byte list"
  ptr :: nat
  allocated :: size_t

definition renew :: "(nat \<Rightarrow> byte) \<Rightarrow> byte list \<Rightarrow> nat \<Rightarrow> byte list" where
  "renew junk old n = take n old @ map junk [length old..<n]"

lemma length_renew [simp]: "length (renew junk old n) = n"
  by (auto simp: renew_def)

lemma take_renew: "k \<le> n \<Longrightarrow> k \<le> length old \<Longrightarrow> take k (renew junk old n) = take k old"
  by (simp add: renew_def min_def)

definition libspectrum_make_room :: "(nat \<Rightarrow> byte) \<Rightarrow> size_t \<Rightarrow> room \<Rightarrow> room" where
  "libspectrum_make_room junk requested r =
     (if allocated r = 0 then
        r\<lparr>allocated := requested, dest := renew junk [] (unat requested), ptr := 0\<rparr>
      else
        let current_length = of_nat (ptr r)
        in if current_length + requested \<le> allocated r then r
           else
             let a = (if current_length + requested > 2 * allocated r
                      then current_length + requested else 2 * allocated r)
             in r\<lparr>allocated := a, dest := renew junk (dest r) (unat a)\<rparr>)"

section \<open>File types and classes\<close>

lemma remdups_single:
  assumes "x \<in> set xs" and "\<forall>y \<in> set xs. y = x"
  shows "remdups xs = [x]"
  using assms
proof (induction xs)
  case (Cons y ys)
  then show ?case by (cases ys) auto
qed simp


datatype libspectrum_id_t =
    ID_UNKNOWN | ID_RECORDING_RZX | ID_SNAPSHOT_SNA | ID_SNAPSHOT_Z80 | ID_TAPE_TAP
  | ID_TAPE_TZX | ID_DISK_DSK | ID_DISK_SCL | ID_DISK_TRD | ID_CARTRIDGE_DCK
  | ID_TAPE_WARAJEVO | ID_SNAPSHOT_PLUSD | ID_SNAPSHOT_SP | ID_SNAPSHOT_SNP
  | ID_SNAPSHOT_ZXS | ID_SNAPSHOT_SZX | ID_COMPRESSED_BZ2 | ID_COMPRESSED_GZ
  | ID_HARDDISK_HDF | ID_CARTRIDGE_IF2 | ID_MICRODRIVE_MDR | ID_TAPE_CSW | ID_TAPE_Z80EM
  | ID_TAPE_WAV | ID_TAPE_SPC | ID_TAPE_STA | ID_TAPE_LTP | ID_COMPRESSED_XFD
  | ID_DISK_IMG | ID_DISK_MGT | ID_DISK_UDI | ID_DISK_FDI | ID_DISK_CPC | ID_DISK_ECPC
  | ID_DISK_SAD | ID_DISK_TD0 | ID_DISK_OPD | ID_TAPE_PZX | ID_AUX_POK | ID_DISK_D80
  | ID_COMPRESSED_ZIP | ID_SCREEN_SCR | ID_SCREEN_MLT

datatype libspectrum_class_t =
    CLASS_UNKNOWN | CLASS_CARTRIDGE_TIMEX | CLASS_DISK_PLUS3 | CLASS_DISK_TRDOS
  | CLASS_DISK_OPUS | CLASS_RECORDING | CLASS_SNAPSHOT | CLASS_TAPE | CLASS_COMPRESSED
  | CLASS_HARDDISK | CLASS_CARTRIDGE_IF2 | CLASS_MICRODRIVE | CLASS_DISK_PLUSD
  | CLASS_DISK_GENERIC | CLASS_AUXILIARY | CLASS_DISK_DIDAKTIK | CLASS_SCREENSHOT

text \<open>
  \<open>libspectrum_identify_class\<close> covers every value of the enumeration, so its error branch
  for an unknown type is never taken on a value of \<open>libspectrum_id_t\<close>.
\<close>

fun libspectrum_identify_class :: "libspectrum_id_t \<Rightarrow> libspectrum_class_t" where
  "libspectrum_identify_class ID_UNKNOWN = CLASS_UNKNOWN"
| "libspectrum_identify_class ID_CARTRIDGE_DCK = CLASS_CARTRIDGE_TIMEX"
| "libspectrum_identify_class ID_COMPRESSED_BZ2 = CLASS_COMPRESSED"
| "libspectrum_identify_class ID_COMPRESSED_GZ = CLASS_COMPRESSED"
| "libspectrum_identify_class ID_COMPRESSED_XFD = CLASS_COMPRESSED"
| "libspectrum_identify_class ID_COMPRESSED_ZIP = CLASS_COMPRESSED"
| "libspectrum_identify_class ID_DISK_DSK = CLASS_DISK_PLUS3"
| "libspectrum_identify_class ID_DISK_CPC = CLASS_DISK_PLUS3"
| "libspectrum_identify_class ID_DISK_ECPC = CLASS_DISK_PLUS3"
| "libspectrum_identify_class ID_DISK_IMG = CLASS_DISK_PLUSD"
| "libspectrum_identify_class ID_DISK_MGT = CLASS_DISK_PLUSD"
| "libspectrum_identify_class ID_DISK_OPD = CLASS_DISK_OPUS"
| "libspectrum_identify_class ID_DISK_D80 = CLASS_DISK_DIDAKTIK"
| "libspectrum_identify_class ID_DISK_SCL = CLASS_DISK_TRDOS"
| "libspectrum_identify_class ID_DISK_TRD = CLASS_DISK_TRDOS"
| "libspectrum_identify_class ID_HARDDISK_HDF = CLASS_HARDDISK"
| "libspectrum_identify_class ID_MICRODRIVE_MDR = CLASS_MICRODRIVE"
| "libspectrum_identify_class ID_RECORDING_RZX = CLASS_RECORDING"
| "libspectrum_identify_class ID_SNAPSHOT_PLUSD = CLASS_SNAPSHOT"
| "libspectrum_identify_class ID_SNAPSHOT_SNA = CLASS_SNAPSHOT"
| "libspectrum_identify_class ID_SNAPSHOT_SNP = CLASS_SNAPSHOT"
| "libspectrum_identify_class ID_SNAPSHOT_SP = CLASS_SNAPSHOT"
| "libspectrum_identify_class ID_SNAPSHOT_SZX = CLASS_SNAPSHOT"
| "libspectrum_identify_class ID_SNAPSHOT_Z80 = CLASS_SNAPSHOT"
| "libspectrum_identify_class ID_SNAPSHOT_ZXS = CLASS_SNAPSHOT"
| "libspectrum_identify_class ID_TAPE_TAP = CLASS_TAPE"
| "libspectrum_identify_class ID_TAPE_SPC = CLASS_TAPE"
| "libspectrum_identify_class ID_TAPE_STA = CLASS_TAPE"
| "libspectrum_identify_class ID_TAPE_LTP = CLASS_TAPE"
| "libspectrum_identify_class ID_TAPE_TZX = CLASS_TAPE"
| "libspectrum_identify_class ID_TAPE_WARAJEVO = CLASS_TAPE"
| "libspectrum_identify_class ID_TAPE_Z80EM = CLASS_TAPE"
| "libspectrum_identify_class ID_TAPE_CSW = CLASS_TAPE"
| "libspectrum_identify_class ID_TAPE_WAV = CLASS_TAPE"
| "libspectrum_identify_class ID_TAPE_PZX = CLASS_TAPE"
| "libspectrum_identify_class ID_CARTRIDGE_IF2 = CLASS_CARTRIDGE_IF2"
| "libspectrum_identify_class ID_DISK_UDI = CLASS_DISK_GENERIC"
| "libspectrum_identify_class ID_DISK_FDI = CLASS_DISK_GENERIC"
| "libspectrum_identify_class ID_DISK_SAD = CLASS_DISK_GENERIC"
| "libspectrum_identify_class ID_DISK_TD0 = CLASS_DISK_GENERIC"
| "libspectrum_identify_class ID_AUX_POK = CLASS_AUXILIARY"
| "libspectrum_identify_class ID_SCREEN_MLT = CLASS_SCREENSHOT"
| "libspectrum_identify_class ID_SCREEN_SCR = CLASS_SCREENSHOT"

text \<open>
  The table of \<open>libspectrum_identify_file_raw\<close>: type, extension and its score, signature
  (if any), its offset, and its score. The end marker is the end of the list.
\<close>

record file_type =
  ft_type :: libspectrum_id_t
  extension :: string
  extension_score :: int
  signature :: "byte list option"
  offset :: nat
  sig_score :: int

definition ft :: "libspectrum_id_t \<times> string \<times> int \<times> byte list option \<times> nat \<times> int \<Rightarrow> file_type" where
  "ft = (\<lambda>(t, e, es, s, off, ss). \<lparr>ft_type = t, extension = e, extension_score = es,
     signature = s, offset = off, sig_score = ss\<rparr>)"

definition types :: "file_type list" where
  "types = map ft [
    (ID_RECORDING_RZX, ''rzx'', 3, Some [82, 90, 88, 33], 0, 4),
    (ID_SNAPSHOT_SNA, ''sna'', 3, None, 0, 0),
    (ID_SNAPSHOT_SNA, ''snapshot'', 3, None, 0, 0),
    (ID_SNAPSHOT_SNP, ''snp'', 3, None, 0, 0),
    (ID_SNAPSHOT_SP, ''sp'', 3, Some [83, 80, 0], 0, 1),
    (ID_SNAPSHOT_SZX, ''szx'', 3, Some [90, 88, 83, 84], 0, 4),
    (ID_SNAPSHOT_Z80, ''z80'', 3, Some [0, 0], 6, 1),
    (ID_SNAPSHOT_Z80, ''slt'', 3, Some [0, 0], 6, 1),
    (ID_SNAPSHOT_ZXS, ''zxs'', 3, Some [83, 78, 65, 80], 8, 4),
    (ID_SNAPSHOT_PLUSD, ''mgtsnp'', 3, None, 0, 0),
    (ID_CARTRIDGE_DCK, ''dck'', 3, None, 0, 0),
    (ID_CARTRIDGE_IF2, ''rom'', 3, None, 0, 0),
    (ID_MICRODRIVE_MDR, ''mdr'', 3, None, 0, 0),
    (ID_TAPE_TAP, ''tap'', 3, Some [19, 0, 0], 0, 1),
    (ID_TAPE_SPC, ''spc'', 3, Some [17, 0, 0], 0, 1),
    (ID_TAPE_STA, ''sta'', 3, Some [17, 0, 0], 0, 1),
    (ID_TAPE_LTP, ''ltp'', 3, Some [17, 0, 0], 0, 1),
    (ID_TAPE_TZX, ''tzx'', 3, Some [90, 88, 84, 97, 112, 101, 33], 0, 4),
    (ID_TAPE_WARAJEVO, ''tap'', 2, Some [255, 255, 255, 255], 8, 2),
    (ID_TAPE_PZX, ''pzx'', 3, Some [80, 90, 88, 84], 0, 4),
    (ID_DISK_SCL, ''scl'', 3, Some [83, 73, 78, 67, 76, 65, 73, 82], 0, 4),
    (ID_DISK_TRD, ''trd'', 3, None, 0, 0),
    (ID_HARDDISK_HDF, ''hdf'', 3, Some [82, 83, 45, 73, 68, 69, 26], 0, 4),
    (ID_COMPRESSED_BZ2, ''bz2'', 3, Some [66, 90, 104], 0, 4),
    (ID_COMPRESSED_GZ, ''gz'', 3, Some [31, 139], 0, 4),
    (ID_COMPRESSED_ZIP, ''zip'', 3, Some [80, 75, 3, 4], 0, 4),
    (ID_TAPE_Z80EM, ''raw'', 1, Some (replicate 48 0 @ [82, 97, 119, 32, 116, 97, 112, 101, 32, 115, 97, 109, 112, 108, 101, 0]), 0, 0),
    (ID_TAPE_CSW, ''csw'', 2, Some [67, 111, 109, 112, 114, 101, 115, 115, 101, 100, 32, 83, 113, 117, 97, 114, 101, 32, 87, 97, 118, 101, 26], 0, 4),
    (ID_TAPE_WAV, ''wav'', 3, None, 0, 0),
    (ID_DISK_MGT, ''mgt'', 3, None, 0, 0),
    (ID_DISK_IMG, ''img'', 3, None, 0, 0),
    (ID_DISK_UDI, ''udi'', 3, Some [85, 68, 73, 33], 0, 4),
    (ID_DISK_ECPC, ''dsk'', 3, Some [69, 88, 84, 69, 78, 68, 69, 68], 0, 4),
    (ID_DISK_CPC, ''dsk'', 3, Some [77, 86, 32, 45, 32, 67, 80, 67], 0, 4),
    (ID_DISK_FDI, ''fdi'', 3, Some [70, 68, 73], 0, 4),
    (ID_DISK_SAD, ''sad'', 3, Some [65, 108, 101, 121, 39, 115, 32, 100, 105, 115, 107, 32, 98, 97, 99, 107, 117, 112], 0, 4),
    (ID_DISK_TD0, ''td0'', 3, Some [84, 68], 0, 4),
    (ID_DISK_TD0, ''td0'', 3, Some [116, 100], 0, 4),
    (ID_DISK_OPD, ''opd'', 3, None, 0, 0),
    (ID_DISK_OPD, ''opu'', 3, None, 0, 0),
    (ID_DISK_D80, ''d80'', 3, None, 0, 0),
    (ID_DISK_D80, ''d40'', 3, None, 0, 0),
    (ID_AUX_POK, ''pok'', 3, None, 0, 0),
    (ID_SCREEN_SCR, ''scr'', 3, None, 0, 0),
    (ID_SCREEN_MLT, ''mlt'', 3, None, 0, 0)]"

text \<open>\<open>strcasecmp\<close> in the C locale, and the part of a name after its last dot.\<close>

definition tolower :: "char \<Rightarrow> char" where
  "tolower c = (if 65 \<le> (of_char c :: nat) \<and> (of_char c :: nat) \<le> 90 then char_of (of_char c + 32 :: nat) else c)"

definition strcaseeq :: "string \<Rightarrow> string \<Rightarrow> bool" where
  "strcaseeq a b \<longleftrightarrow> map tolower a = map tolower b"

fun after_last_dot :: "string \<Rightarrow> string option" where
  "after_last_dot [] = None"
| "after_last_dot (c # cs) =
     (case after_last_dot cs of Some e \<Rightarrow> Some e
      | None \<Rightarrow> (if c = CHR ''.'' then Some cs else None))"

definition file_score :: "string option \<Rightarrow> byte list \<Rightarrow> file_type \<Rightarrow> int" where
  "file_score ext buffer t =
     (case ext of Some e \<Rightarrow> if strcaseeq e (extension t) then extension_score t else 0 | None \<Rightarrow> 0) +
     (case signature t of
        Some sig \<Rightarrow> (if offset t + length sig \<le> length buffer \<and>
                       take (length sig) (drop (offset t) buffer) = sig
                    then sig_score t else 0)
      | None \<Rightarrow> 0)"

text \<open>The loop, over \<open>(best_guess, best_score, duplicate_best)\<close>.\<close>

fun identify_step :: "string option \<Rightarrow> byte list \<Rightarrow> file_type \<Rightarrow>
    libspectrum_id_t \<times> int \<times> bool \<Rightarrow> libspectrum_id_t \<times> int \<times> bool" where
  "identify_step ext buffer t (best_guess, best_score, duplicate_best) =
     (let score = file_score ext buffer t in
      if score > best_score then (ft_type t, score, False)
      else if score = best_score \<and> ft_type t \<noteq> best_guess then (best_guess, best_score, True)
      else (best_guess, best_score, duplicate_best))"

definition libspectrum_identify_file_raw :: "string option \<Rightarrow> byte list \<Rightarrow> libspectrum_id_t" where
  "libspectrum_identify_file_raw filename buffer =
     (let ext = Option.bind filename after_last_dot;
          (best_guess, best_score, duplicate_best) =
            fold (identify_step ext buffer) types (ID_UNKNOWN, 0, False)
      in if duplicate_best then ID_UNKNOWN else best_guess)"

text \<open>
  What the loop computes: the best score, and the types that reach it. The guess is given
  only when a single type does.
\<close>

definition best_score_of :: "string option \<Rightarrow> byte list \<Rightarrow> file_type list \<Rightarrow> int" where
  "best_score_of ext buffer ts = fold max (map (file_score ext buffer) ts) 0"

definition winners :: "string option \<Rightarrow> byte list \<Rightarrow> file_type list \<Rightarrow> libspectrum_id_t list" where
  "winners ext buffer ts =
     map ft_type (filter (\<lambda>t. file_score ext buffer t = best_score_of ext buffer ts) ts)"

lemma best_score_of_snoc:
  "best_score_of ext buffer (ts @ [t]) = max (file_score ext buffer t) (best_score_of ext buffer ts)"
  by (simp add: best_score_of_def)

lemma best_score_of_upper: "t \<in> set ts \<Longrightarrow> file_score ext buffer t \<le> best_score_of ext buffer ts"
proof (induction ts rule: rev_induct)
  case (snoc x xs)
  then show ?case by (fastforce simp: best_score_of_snoc max_def)
qed simp

lemma best_score_of_nonneg: "0 \<le> best_score_of ext buffer ts"
  by (induction ts rule: rev_induct) (auto simp: best_score_of_snoc best_score_of_def [of _ _ "[]"])

lemma fold_identify_step:
  "fold (identify_step ext buffer) ts (ID_UNKNOWN, 0, False) = (g, b, d) \<Longrightarrow>
     b = best_score_of ext buffer ts \<and> (0 < b \<longrightarrow> g \<in> set (winners ext buffer ts)) \<and>
     (b = 0 \<longrightarrow> g = ID_UNKNOWN) \<and> (d \<longleftrightarrow> (\<exists>t \<in> set (winners ext buffer ts). t \<noteq> g))"
proof (induction ts arbitrary: g b d rule: rev_induct)
  case Nil
  then show ?case by (simp add: best_score_of_def winners_def)
next
  case (snoc t ts)
  obtain g' b' d' where f: "fold (identify_step ext buffer) ts (ID_UNKNOWN, 0, False) = (g', b', d')"
    by (metis prod_cases3)
  note IH = snoc.IH [OF f]
  let ?s = "file_score ext buffer t"
  have step: "(g, b, d) = identify_step ext buffer t (g', b', d')"
    using snoc.prems f by simp
  have b': "b' = best_score_of ext buffer ts" using IH by simp
  have w: "winners ext buffer (ts @ [t]) =
      (if ?s > b' then [ft_type t]
       else if ?s = b' then winners ext buffer ts @ [ft_type t] else winners ext buffer ts)"
  proof -
    have ub: "\<forall>x \<in> set ts. file_score ext buffer x \<le> b'"
      by (simp add: b' best_score_of_upper)
    have "filter (\<lambda>x. file_score ext buffer x = ?s) ts = []" if "?s > b'"
      using ub that by (fastforce simp: filter_empty_conv)
    then show ?thesis by (auto simp: winners_def best_score_of_snoc b' [symmetric] max_def)
  qed
  show ?case
    using step IH best_score_of_nonneg [of ext buffer ts]
    by (auto simp: best_score_of_snoc w Let_def split: if_splits)
qed

text \<open>
  C38: the guessed type is the one type that reaches the best score, and "unknown" when no
  entry scores or two different types tie.
\<close>

theorem identify_file_raw_spec:
  "libspectrum_identify_file_raw filename buffer =
     (let ext = Option.bind filename after_last_dot; w = remdups (winners ext buffer types)
      in if best_score_of ext buffer types = 0 then ID_UNKNOWN
         else case w of [t] \<Rightarrow> t | _ \<Rightarrow> ID_UNKNOWN)"
proof -
  define ext where "ext = Option.bind filename after_last_dot"
  obtain g b d where f: "fold (identify_step ext buffer) types (ID_UNKNOWN, 0, False) = (g, b, d)"
    by (metis prod_cases3)
  note inv = fold_identify_step [OF f]
  have r: "libspectrum_identify_file_raw filename buffer = (if d then ID_UNKNOWN else g)"
    by (simp add: libspectrum_identify_file_raw_def f ext_def [symmetric])
  show ?thesis
  proof (cases "b = 0")
    case True
    then show ?thesis using inv r by (simp add: ext_def [symmetric])
  next
    case False
    with inv have pos: "0 < b" using best_score_of_nonneg [of ext buffer types] by auto
    have "remdups (winners ext buffer types) = [g]" if "\<not> d"
      using that inv pos by (intro remdups_single) auto
    moreover have "remdups (winners ext buffer types) \<noteq> [t]" if d for t
    proof
      assume "remdups (winners ext buffer types) = [t]"
      then have "set (winners ext buffer types) = {t}" by (metis empty_set list.simps(15) set_remdups)
      with inv pos that show False by auto
    qed
    ultimately show ?thesis
      using r inv False by (auto simp: ext_def [symmetric] split: list.splits)
  qed
qed

section \<open>Machines and their capabilities\<close>

datatype libspectrum_machine =
    MACHINE_48 | MACHINE_TC2048 | MACHINE_128 | MACHINE_PLUS2 | MACHINE_PENT
  | MACHINE_PLUS2A | MACHINE_PLUS3 | MACHINE_UNKNOWN | MACHINE_16 | MACHINE_TC2068
  | MACHINE_SCORP | MACHINE_PLUS3E | MACHINE_SE | MACHINE_TS2068 | MACHINE_PENT512
  | MACHINE_PENT1024 | MACHINE_48_NTSC | MACHINE_128E

abbreviation MACHINE_CAPABILITY_AY :: dword where "MACHINE_CAPABILITY_AY \<equiv> push_bit 0 1"
abbreviation MACHINE_CAPABILITY_128_MEMORY :: dword where "MACHINE_CAPABILITY_128_MEMORY \<equiv> push_bit 1 1"
abbreviation MACHINE_CAPABILITY_PLUS3_MEMORY :: dword where "MACHINE_CAPABILITY_PLUS3_MEMORY \<equiv> push_bit 2 1"
abbreviation MACHINE_CAPABILITY_PLUS3_DISK :: dword where "MACHINE_CAPABILITY_PLUS3_DISK \<equiv> push_bit 3 1"
abbreviation MACHINE_CAPABILITY_TIMEX_MEMORY :: dword where "MACHINE_CAPABILITY_TIMEX_MEMORY \<equiv> push_bit 4 1"
abbreviation MACHINE_CAPABILITY_TIMEX_VIDEO :: dword where "MACHINE_CAPABILITY_TIMEX_VIDEO \<equiv> push_bit 5 1"
abbreviation MACHINE_CAPABILITY_TRDOS_DISK :: dword where "MACHINE_CAPABILITY_TRDOS_DISK \<equiv> push_bit 6 1"
abbreviation MACHINE_CAPABILITY_TIMEX_DOCK :: dword where "MACHINE_CAPABILITY_TIMEX_DOCK \<equiv> push_bit 7 1"
abbreviation MACHINE_CAPABILITY_SINCLAIR_JOYSTICK :: dword where "MACHINE_CAPABILITY_SINCLAIR_JOYSTICK \<equiv> push_bit 8 1"
abbreviation MACHINE_CAPABILITY_KEMPSTON_JOYSTICK :: dword where "MACHINE_CAPABILITY_KEMPSTON_JOYSTICK \<equiv> push_bit 9 1"
abbreviation MACHINE_CAPABILITY_SCORP_MEMORY :: dword where "MACHINE_CAPABILITY_SCORP_MEMORY \<equiv> push_bit 10 1"
abbreviation MACHINE_CAPABILITY_EVEN_M1 :: dword where "MACHINE_CAPABILITY_EVEN_M1 \<equiv> push_bit 11 1"
abbreviation MACHINE_CAPABILITY_SE_MEMORY :: dword where "MACHINE_CAPABILITY_SE_MEMORY \<equiv> push_bit 12 1"
abbreviation MACHINE_CAPABILITY_NTSC :: dword where "MACHINE_CAPABILITY_NTSC \<equiv> push_bit 13 1"
abbreviation MACHINE_CAPABILITY_PENT512_MEMORY :: dword where "MACHINE_CAPABILITY_PENT512_MEMORY \<equiv> push_bit 14 1"
abbreviation MACHINE_CAPABILITY_PENT1024_MEMORY :: dword where "MACHINE_CAPABILITY_PENT1024_MEMORY \<equiv> push_bit 15 1"

definition libspectrum_machine_capabilities :: "libspectrum_machine \<Rightarrow> dword" where
  "libspectrum_machine_capabilities type =
     (if type \<in> set [MACHINE_128, MACHINE_PLUS2, MACHINE_PLUS2A, MACHINE_PLUS3, MACHINE_PLUS3E, MACHINE_128E, MACHINE_TC2068, MACHINE_TS2068, MACHINE_PENT, MACHINE_PENT512, MACHINE_PENT1024, MACHINE_SCORP, MACHINE_SE]
      then MACHINE_CAPABILITY_AY else 0) OR
     (if type \<in> set [MACHINE_128, MACHINE_PLUS2, MACHINE_PLUS2A, MACHINE_PLUS3, MACHINE_PLUS3E, MACHINE_128E, MACHINE_PENT, MACHINE_PENT512, MACHINE_PENT1024, MACHINE_SCORP, MACHINE_SE]
      then MACHINE_CAPABILITY_128_MEMORY else 0) OR
     (if type \<in> set [MACHINE_PLUS2A, MACHINE_PLUS3, MACHINE_PLUS3E, MACHINE_128E]
      then MACHINE_CAPABILITY_PLUS3_MEMORY else 0) OR
     (if type \<in> set [MACHINE_PLUS3, MACHINE_PLUS3E]
      then MACHINE_CAPABILITY_PLUS3_DISK else 0) OR
     (if type \<in> set [MACHINE_TC2048, MACHINE_TC2068, MACHINE_TS2068]
      then MACHINE_CAPABILITY_TIMEX_MEMORY else 0) OR
     (if type \<in> set [MACHINE_TC2048, MACHINE_TC2068, MACHINE_TS2068, MACHINE_SE]
      then MACHINE_CAPABILITY_TIMEX_VIDEO else 0) OR
     (if type \<in> set [MACHINE_PENT, MACHINE_PENT512, MACHINE_PENT1024, MACHINE_SCORP]
      then MACHINE_CAPABILITY_TRDOS_DISK else 0) OR
     (if type \<in> set [MACHINE_TC2068, MACHINE_TS2068]
      then MACHINE_CAPABILITY_TIMEX_DOCK else 0) OR
     (if type \<in> set [MACHINE_PLUS2, MACHINE_PLUS2A, MACHINE_PLUS3, MACHINE_PLUS3E, MACHINE_128E]
      then MACHINE_CAPABILITY_SINCLAIR_JOYSTICK else 0) OR
     (if type \<in> set [MACHINE_TC2048, MACHINE_SE]
      then MACHINE_CAPABILITY_KEMPSTON_JOYSTICK else 0) OR
     (if type \<in> set [MACHINE_SCORP]
      then MACHINE_CAPABILITY_SCORP_MEMORY else 0) OR
     (if type \<in> set [MACHINE_SCORP]
      then MACHINE_CAPABILITY_EVEN_M1 else 0) OR
     (if type \<in> set [MACHINE_SE]
      then MACHINE_CAPABILITY_SE_MEMORY else 0) OR
     (if type \<in> set [MACHINE_48_NTSC, MACHINE_TS2068]
      then MACHINE_CAPABILITY_NTSC else 0) OR
     (if type \<in> set [MACHINE_PENT512, MACHINE_PENT1024]
      then MACHINE_CAPABILITY_PENT512_MEMORY else 0) OR
     (if type \<in> set [MACHINE_PENT1024]
      then MACHINE_CAPABILITY_PENT1024_MEMORY else 0)"

section \<open>Unit conversions of utilities.c\<close>

definition tstates_per_ms :: dword where
  "tstates_per_ms = 3500000 div 1000"

definition libspectrum_ms_to_tstates :: "dword \<Rightarrow> dword" where
  "libspectrum_ms_to_tstates ms = ms * tstates_per_ms"

definition libspectrum_tstates_to_ms :: "dword \<Rightarrow> dword" where
  "libspectrum_tstates_to_ms tstates = tstates div tstates_per_ms"

definition libspectrum_bits_to_bytes :: "size_t \<Rightarrow> size_t" where
  "libspectrum_bits_to_bytes bits = (bits + 8 - 1) div 8"

end
