(* ===== verification/GSList.thy ===== *)
theory GSList
  imports LS_Prelude
begin

text \<open>
  \<open>myglib/gslist.c\<close>: the singly linked lists used when the system has no GLib. A
  \<open>GSList *\<close> is the chain of nodes that starts at the node it points to, each node given
  by its address and its data; \<open>NULL\<close> is the empty chain. The address of a new node is an
  argument: the code takes it from a pool of free nodes (\<open>allocate_free\<close>, \<open>g_slist_free\<close>),
  of which the model keeps only that the node is not in use.

  The interface the tape code relies on is the locale \<open>slist_api\<close>; it is interpreted on
  the functions of this theory at the end.
\<close>

type_synonym 'a gslist = "(nat \<times> 'a) list"

definition first_function :: "'a \<Rightarrow> 'a \<Rightarrow> int" where
  "first_function a b = - 1"

definition last_function :: "'a \<Rightarrow> 'a \<Rightarrow> int" where
  "last_function a b = 1"

text \<open>The loop that walks while there is a next node and the comparison is positive.\<close>

fun insert_sorted_walk :: "nat \<Rightarrow> 'a \<Rightarrow> ('a \<Rightarrow> 'a \<Rightarrow> int) \<Rightarrow> 'a gslist \<Rightarrow> 'a gslist" where
  "insert_sorted_walk n data func [] = [(n, data)]"
| "insert_sorted_walk n data func [x] =
     (if func data (snd x) > 0 then [x, (n, data)] else [(n, data), x])"
| "insert_sorted_walk n data func (x # y # zs) =
     (if func data (snd x) > 0 then x # insert_sorted_walk n data func (y # zs)
      else (n, data) # x # y # zs)"

definition g_slist_insert_sorted ::
    "nat \<Rightarrow> 'a gslist \<Rightarrow> 'a \<Rightarrow> ('a \<Rightarrow> 'a \<Rightarrow> int) option \<Rightarrow> 'a gslist" where
  "g_slist_insert_sorted n list data func =
     (case func of None \<Rightarrow> list | Some f \<Rightarrow> insert_sorted_walk n data f list)"

definition g_slist_append :: "nat \<Rightarrow> 'a gslist \<Rightarrow> 'a \<Rightarrow> 'a gslist" where
  "g_slist_append n list data = g_slist_insert_sorted n list data (Some last_function)"

definition g_slist_prepend :: "nat \<Rightarrow> 'a gslist \<Rightarrow> 'a \<Rightarrow> 'a gslist" where
  "g_slist_prepend n list data = g_slist_insert_sorted n list data (Some first_function)"

fun insert_walk :: "nat \<times> 'a \<Rightarrow> int \<Rightarrow> 'a gslist \<Rightarrow> 'a gslist" where
  "insert_walk new position [] = [new]"
| "insert_walk new position (x # xs) =
     (if position > 0 then x # insert_walk new (position - 1) xs else new # x # xs)"

definition g_slist_insert :: "nat \<Rightarrow> 'a gslist \<Rightarrow> 'a \<Rightarrow> int \<Rightarrow> 'a gslist" where
  "g_slist_insert n list data position =
     (if position < 0 then g_slist_append n list data
      else if position = 0 then g_slist_prepend n list data
      else if list = [] then [(n, data)]
      else insert_walk (n, data) position list)"

text \<open>Both removals drop the first match only.\<close>

fun g_slist_remove :: "'a gslist \<Rightarrow> 'a \<Rightarrow> 'a gslist" where
  "g_slist_remove [] data = []"
| "g_slist_remove (x # xs) data = (if snd x = data then xs else x # g_slist_remove xs data)"

fun g_slist_delete_link :: "'a gslist \<Rightarrow> nat \<Rightarrow> 'a gslist" where
  "g_slist_delete_link [] link = []"
| "g_slist_delete_link (x # xs) link =
     (if fst x = link then xs else x # g_slist_delete_link xs link)"

fun g_slist_last :: "'a gslist \<Rightarrow> 'a gslist" where
  "g_slist_last [] = []"
| "g_slist_last [x] = [x]"
| "g_slist_last (x # y # zs) = g_slist_last (y # zs)"

fun g_slist_length :: "'a gslist \<Rightarrow> dword" where
  "g_slist_length [] = 0"
| "g_slist_length (x # xs) = 1 + g_slist_length xs"

fun g_slist_foreach :: "('a \<Rightarrow> 's \<Rightarrow> 's) \<Rightarrow> 'a gslist \<Rightarrow> 's \<Rightarrow> 's" where
  "g_slist_foreach func [] s = s"
| "g_slist_foreach func (x # xs) s = g_slist_foreach func xs (func (snd x) s)"

fun reverse_loop :: "'a gslist \<Rightarrow> 'a gslist \<Rightarrow> 'a gslist" where
  "reverse_loop prev [] = prev"
| "reverse_loop prev (x # xs) = reverse_loop (x # prev) xs"

definition g_slist_reverse :: "'a gslist \<Rightarrow> 'a gslist" where
  "g_slist_reverse list = reverse_loop [] list"

fun g_slist_nth :: "'a gslist \<Rightarrow> nat \<Rightarrow> 'a gslist" where
  "g_slist_nth [] n = []"
| "g_slist_nth (x # xs) n = (if n = 0 then x # xs else g_slist_nth xs (n - 1))"

fun g_slist_find_custom :: "'a gslist \<Rightarrow> 'b \<Rightarrow> ('a \<Rightarrow> 'b \<Rightarrow> int) \<Rightarrow> 'a gslist" where
  "g_slist_find_custom [] data func = []"
| "g_slist_find_custom (x # xs) data func =
     (if func (snd x) data = 0 then x # xs else g_slist_find_custom xs data func)"

text \<open>The position of the node at an address, \<open>- 1\<close> if it is not in the chain.\<close>

fun position_loop :: "int \<Rightarrow> 'a gslist \<Rightarrow> nat option \<Rightarrow> int" where
  "position_loop n [] llink = - 1"
| "position_loop n (x # xs) llink =
     (if Some (fst x) = llink then n else position_loop (n + 1) xs llink)"

definition g_slist_position :: "'a gslist \<Rightarrow> nat option \<Rightarrow> int" where
  "g_slist_position list llink = position_loop 0 list llink"

text \<open>The chain from the node at an address; the data and next node of that node.\<close>

definition chain_at :: "'a gslist \<Rightarrow> nat \<Rightarrow> 'a gslist" where
  "chain_at l a = dropWhile (\<lambda>x. fst x \<noteq> a) l"

definition head_address :: "'a gslist \<Rightarrow> nat option" where
  "head_address l = (case l of [] \<Rightarrow> None | x # _ \<Rightarrow> Some (fst x))"

definition node_data :: "'a gslist \<Rightarrow> nat \<Rightarrow> 'a option" where
  "node_data l a = (case chain_at l a of [] \<Rightarrow> None | x # _ \<Rightarrow> Some (snd x))"

definition node_next :: "'a gslist \<Rightarrow> nat \<Rightarrow> nat option option" where
  "node_next l a = (case chain_at l a of [] \<Rightarrow> None | _ # xs \<Rightarrow> Some (head_address xs))"

section \<open>What the operations compute\<close>

lemma append_eq [simp]: "g_slist_append n list data = list @ [(n, data)]"
proof -
  have "insert_sorted_walk n data last_function list = list @ [(n, data)]"
    by (induction n data "last_function :: 'a \<Rightarrow> 'a \<Rightarrow> int" list rule: insert_sorted_walk.induct)
      (simp_all add: last_function_def)
  then show ?thesis by (simp add: g_slist_append_def g_slist_insert_sorted_def)
qed

lemma prepend_eq [simp]: "g_slist_prepend n list data = (n, data) # list"
  by (cases "(n, data, first_function :: 'a \<Rightarrow> 'a \<Rightarrow> int, list)" rule: insert_sorted_walk.cases)
    (simp_all add: g_slist_prepend_def g_slist_insert_sorted_def first_function_def)

lemma insert_walk_eq: "0 \<le> position \<Longrightarrow> insert_walk new position list =
    take (nat position) list @ new # drop (nat position) list"
proof (induction list arbitrary: position)
  case (Cons x xs)
  show ?case
  proof (cases "position > 0")
    case True
    then have "nat position = Suc (nat (position - 1))" by simp
    with True Cons.IH [of "position - 1"] show ?thesis by simp
  next
    case False
    with Cons.prems show ?thesis by simp
  qed
qed simp

lemma insert_eq: "g_slist_insert n list data position =
    (let k = (if position < 0 then length list else nat position)
     in take k list @ (n, data) # drop k list)"
  by (simp add: g_slist_insert_def insert_walk_eq Let_def)

lemma reverse_eq: "g_slist_reverse list = rev list"
proof -
  have "reverse_loop prev list = rev list @ prev" for prev
    by (induction list arbitrary: prev) simp_all
  then show ?thesis by (simp add: g_slist_reverse_def)
qed

lemma last_eq: "g_slist_last list = (if list = [] then [] else [last list])"
  by (induction list rule: g_slist_last.induct) simp_all

lemma nth_eq: "g_slist_nth list n = drop n list"
  by (induction list n rule: g_slist_nth.induct) (auto simp: drop_Cons' )

lemma length_eq: "g_slist_length list = of_nat (length list)"
  by (induction list) simp_all

lemma foreach_eq: "g_slist_foreach func list s = fold func (map snd list) s"
  by (induction list arbitrary: s) simp_all

lemma remove_eq: "map snd (g_slist_remove list data) = remove1 data (map snd list)"
  by (induction list) auto

lemma delete_link_eq: "distinct (map fst list) \<Longrightarrow>
    g_slist_delete_link list link = filter (\<lambda>x. fst x \<noteq> link) list"
proof (induction list)
  case (Cons x xs)
  then have "link \<notin> fst ` set xs \<Longrightarrow> filter (\<lambda>x. fst x \<noteq> link) xs = xs"
    by (auto simp: filter_id_conv)
  with Cons show ?case by auto
qed simp

lemma position_loop_shift: "position_loop n list llink =
    (if llink \<in> Some ` set (map fst list) then n + position_loop 0 list llink else - 1)"
proof (induction list arbitrary: n)
  case (Cons x xs)
  show ?case using Cons.IH [of "n + 1"] Cons.IH [of 1] by auto
qed simp

lemma position_Nil [simp]: "g_slist_position [] llink = - 1"
  by (simp add: g_slist_position_def)

lemma position_Cons: "g_slist_position (x # xs) llink =
    (if Some (fst x) = llink then 0
     else if llink \<in> Some ` set (map fst xs) then 1 + g_slist_position xs llink else - 1)"
  using position_loop_shift [of 1 xs llink] by (simp add: g_slist_position_def)

lemma position_eq_nth:
  "distinct (map fst list) \<Longrightarrow> k < length list \<Longrightarrow> g_slist_position list (Some (fst (list ! k))) = int k"
proof (induction list arbitrary: k)
  case (Cons x xs)
  then show ?case by (cases k) (auto simp: position_Cons)
qed simp

lemma position_minus1: "g_slist_position list llink = - 1 \<longleftrightarrow> llink \<notin> Some ` set (map fst list)"
proof -
  have nonneg: "llink \<in> Some ` set (map fst list) \<Longrightarrow> 0 \<le> g_slist_position list llink"
    by (induction list) (auto simp: position_Cons)
  have "llink \<notin> Some ` set (map fst list) \<Longrightarrow> g_slist_position list llink = - 1"
    unfolding g_slist_position_def by (subst position_loop_shift) simp
  with nonneg show ?thesis by fastforce
qed

text \<open>
  Insertion with a comparison function keeps a list sorted and adds exactly the new
  item, wherever the function is a three-way comparison by a key.
\<close>

theorem insert_sorted_sorted:
  fixes key :: "'a \<Rightarrow> int"
  assumes "sorted (map (key \<circ> snd) list)"
  shows "sorted (map (key \<circ> snd) (g_slist_insert_sorted n list data (Some (\<lambda>a b. key a - key b)))) \<and>
    set (g_slist_insert_sorted n list data (Some (\<lambda>a b. key a - key b))) = insert (n, data) (set list) \<and>
    length (g_slist_insert_sorted n list data (Some (\<lambda>a b. key a - key b))) = Suc (length list)"
proof -
  let ?f = "\<lambda>a b. key a - key b"
  have s: "set (insert_sorted_walk n data ?f list) = insert (n, data) (set list)"
    by (induction n data ?f list rule: insert_sorted_walk.induct) auto
  have "set (insert_sorted_walk n data ?f xs) = insert (n, data) (set xs)" for xs
    by (induction n data ?f xs rule: insert_sorted_walk.induct) auto
  then have "sorted (map (key \<circ> snd) (insert_sorted_walk n data ?f list))"
    using assms by (induction n data ?f list rule: insert_sorted_walk.induct) auto
  moreover have "length (insert_sorted_walk n data ?f list) = Suc (length list)"
    by (induction n data ?f list rule: insert_sorted_walk.induct) auto
  ultimately show ?thesis using s by (simp add: g_slist_insert_sorted_def)
qed

theorem insert_sorted_sorted_witness:
  "sorted (map (id \<circ> snd) (g_slist_insert_sorted 9 [(1, 2), (2, 5 :: int)] 4 (Some (\<lambda>a b. id a - id b)))) \<and>
   set (g_slist_insert_sorted 9 [(1, 2), (2, 5 :: int)] 4 (Some (\<lambda>a b. id a - id b)))
     = insert (9, 4) (set [(1, 2), (2, 5)]) \<and>
   length (g_slist_insert_sorted 9 [(1, 2), (2, 5 :: int)] 4 (Some (\<lambda>a b. id a - id b)))
     = Suc (length [(1 :: nat, 2 :: int), (2, 5)])"
  by (rule insert_sorted_sorted) simp

section \<open>The interface of the tape code\<close>

text \<open>
  A list of nodes with distinct addresses: what the client sees of each operation is the
  sequence of data and the addresses that stay valid.
\<close>

locale slist_api =
  fixes append :: "nat \<Rightarrow> 'l \<Rightarrow> 'a \<Rightarrow> 'l"
    and insert_at :: "nat \<Rightarrow> 'l \<Rightarrow> 'a \<Rightarrow> int \<Rightarrow> 'l"
    and delete_link :: "'l \<Rightarrow> nat \<Rightarrow> 'l"
    and position :: "'l \<Rightarrow> nat option \<Rightarrow> int"
    and chain :: "'l \<Rightarrow> (nat \<times> 'a) list"
  assumes append_chain: "chain (append n l d) = chain l @ [(n, d)]"
    and insert_chain: "0 \<le> p \<Longrightarrow> chain (insert_at n l d p) =
      take (nat p) (chain l) @ (n, d) # drop (nat p) (chain l)"
    and delete_chain: "distinct (map fst (chain l)) \<Longrightarrow>
      chain (delete_link l a) = filter (\<lambda>x. fst x \<noteq> a) (chain l)"
    and position_nth: "distinct (map fst (chain l)) \<Longrightarrow> k < length (chain l) \<Longrightarrow>
      position l (Some (fst (chain l ! k))) = int k"
    and position_absent: "position l q = - 1 \<longleftrightarrow> q \<notin> Some ` set (map fst (chain l))"
begin

definition addresses :: "'l \<Rightarrow> nat set" where
  "addresses l = set (map fst (chain l))"

lemma addresses_append: "addresses (append n l d) = insert n (addresses l)"
  by (auto simp: addresses_def append_chain)

lemma addresses_insert: "0 \<le> p \<Longrightarrow> addresses (insert_at n l d p) = insert n (addresses l)"
  using set_insert_at [of "nat p" "map fst (chain l)" n]
  by (simp add: addresses_def insert_chain take_map drop_map)

lemma addresses_delete: "distinct (map fst (chain l)) \<Longrightarrow> addresses (delete_link l a) = addresses l - {a}"
  by (auto simp: addresses_def delete_chain image_iff)

lemma distinct_append:
  "distinct (map fst (chain l)) \<Longrightarrow> n \<notin> addresses l \<Longrightarrow> distinct (map fst (chain (append n l d)))"
  by (auto simp: addresses_def append_chain)

lemma distinct_insert:
  assumes "distinct (map fst (chain l))" "n \<notin> addresses l" "0 \<le> p"
  shows "distinct (map fst (chain (insert_at n l d p)))"
  using assms distinct_insert_at [of "nat p" "map fst (chain l)" n]
  by (simp add: addresses_def insert_chain take_map drop_map)

lemma distinct_delete:
  "distinct (map fst (chain l)) \<Longrightarrow> distinct (map fst (chain (delete_link l a)))"
  by (simp add: delete_chain distinct_map_filter)

lemma position_cases:
  assumes "distinct (map fst (chain l))" "q \<noteq> None"
  shows "(position l q = - 1 \<and> the q \<notin> addresses l) \<or>
    (\<exists>k < length (chain l). position l q = int k \<and> q = Some (fst (chain l ! k)))"
proof (cases "the q \<in> addresses l")
  case True
  then obtain k where "k < length (chain l)" "the q = fst (chain l ! k)"
    by (auto simp: addresses_def in_set_conv_nth)
  with assms show ?thesis by (metis position_nth option.collapse)
next
  case False
  then have "q \<notin> Some ` set (map fst (chain l))" using assms(2) by (force simp: addresses_def)
  then have "position l q = - 1" by (simp only: position_absent not_False_eq_True)
  with False show ?thesis by simp
qed

end

interpretation sl: slist_api g_slist_append g_slist_insert g_slist_delete_link g_slist_position
    "\<lambda>l. l"
  by unfold_locales (auto simp: insert_eq delete_link_eq position_eq_nth position_minus1 Let_def)

text \<open>
  In a chain with distinct nodes, the position of a node and the node at a position
  are inverse, and \<open>- 1\<close> is the position of exactly the nodes that are not there.
\<close>

theorem position_nth_inverse:
  assumes "distinct (map fst list)" and "q \<noteq> None"
  shows "(g_slist_position list q = - 1 \<and> the q \<notin> set (map fst list)) \<or>
    (\<exists>k < length list. g_slist_position list q = int k \<and>
       q = Some (fst (hd (g_slist_nth list k))))"
  using sl.position_cases [OF assms]
  by (auto simp: sl.addresses_def nth_eq hd_drop_conv_nth)

theorem position_nth_inverse_witness:
  "(g_slist_position [(7 :: nat, True), (9, False)] (Some 9) = - 1 \<and> the (Some 9) \<notin> set (map fst [(7 :: nat, True), (9, False)])) \<or>
    (\<exists>k < length [(7 :: nat, True), (9, False)]. g_slist_position [(7 :: nat, True), (9, False)] (Some 9) = int k \<and>
       Some 9 = Some (fst (hd (g_slist_nth [(7 :: nat, True), (9, False)] k))))"
  by (rule position_nth_inverse) simp_all

end
