(* ===== verification/GHash.thy ===== *)
theory GHash
  imports LS_Prelude
begin

text \<open>
  \<open>myglib/ghash.c\<close>: the chained hash table with 241 buckets that holds the sectors
  written to a hard disk image. A bucket is the chain of its nodes, each a key and a value.
  The nodes come from a pool that is not modelled, and the destroy functions are, as in
  every use inside libspectrum (\<open>g_hash_table_new\<close>), \<open>NULL\<close>.

  What the disk code needs from the table is the locale \<open>map_api\<close>, interpreted at the end
  on the table with \<open>g_int_hash\<close> and \<open>g_int_equal\<close>.
\<close>

definition HASH_TABLE_SIZE :: nat where
  "HASH_TABLE_SIZE = 241"

record ('k, 'v) ghash =
  nnodes :: int
  nodes :: "('k \<times> 'v) list list"
  hash_func :: "'k \<Rightarrow> dword"
  key_equal_func :: "('k \<Rightarrow> 'k \<Rightarrow> bool) option"

definition g_hash_table_new ::
    "('k \<Rightarrow> dword) \<Rightarrow> ('k \<Rightarrow> 'k \<Rightarrow> bool) option \<Rightarrow> ('k, 'v) ghash" where
  "g_hash_table_new hash eq =
     \<lparr>nnodes = 0, nodes = replicate HASH_TABLE_SIZE [], hash_func = hash, key_equal_func = eq\<rparr>"

definition bucket :: "('k, 'v) ghash \<Rightarrow> 'k \<Rightarrow> nat" where
  "bucket h key = unat (hash_func h key) mod HASH_TABLE_SIZE"

definition keys_equal :: "('k, 'v) ghash \<Rightarrow> 'k \<Rightarrow> 'k \<Rightarrow> bool" where
  "keys_equal h a b = (case key_equal_func h of Some eq \<Rightarrow> eq a b | None \<Rightarrow> a = b)"

text \<open>
  The walk of \<open>g_hash_table_lookup_node\<close>: it ends on the link to the matching node, or on
  the \<open>NULL\<close> link at the end of the chain. The lookup reads the value there; the insertion
  replaces it, or hangs a new node on the \<open>NULL\<close> link.
\<close>

fun lookup_node :: "('k \<Rightarrow> bool) \<Rightarrow> ('k \<times> 'v) list \<Rightarrow> 'v option" where
  "lookup_node match [] = None"
| "lookup_node match ((k, v) # ns) = (if match k then Some v else lookup_node match ns)"

fun set_node :: "('k \<Rightarrow> bool) \<Rightarrow> 'k \<Rightarrow> 'v \<Rightarrow> ('k \<times> 'v) list \<Rightarrow> ('k \<times> 'v) list" where
  "set_node match key value [] = [(key, value)]"
| "set_node match key value ((k, v) # ns) =
     (if match k then (k, value) # ns else (k, v) # set_node match key value ns)"

definition g_hash_table_lookup :: "('k, 'v) ghash \<Rightarrow> 'k \<Rightarrow> 'v option" where
  "g_hash_table_lookup h key =
     lookup_node (\<lambda>k. keys_equal h k key) (nodes h ! bucket h key)"

definition g_hash_table_insert :: "('k, 'v) ghash \<Rightarrow> 'k \<Rightarrow> 'v \<Rightarrow> ('k, 'v) ghash" where
  "g_hash_table_insert h key value =
     (let i = bucket h key; match = (\<lambda>k. keys_equal h k key); chain = nodes h ! i in
      h\<lparr>nodes := (nodes h)[i := set_node match key value chain],
        nnodes := (if lookup_node match chain = None then nnodes h + 1 else nnodes h)\<rparr>)"

text \<open>
  \<open>g_hash_table_foreach_remove\<close>: the function is called once on every node, in order, and
  the nodes it answers \<open>TRUE\<close> for are unlinked. When the head of a chain goes, the loop
  restarts at the new head: no earlier node is left, so no node is seen twice. The user
  data is threaded through as a state. The results are the remaining chain, the number of
  nodes removed and the state.
\<close>

fun chain_remove :: "('k \<Rightarrow> 'v \<Rightarrow> 's \<Rightarrow> bool \<times> 's) \<Rightarrow> ('k \<times> 'v) list \<Rightarrow> 's \<Rightarrow>
    ('k \<times> 'v) list \<times> nat \<times> 's" where
  "chain_remove func [] s = ([], 0, s)"
| "chain_remove func ((k, v) # ns) s =
     (let (remove, s) = func k v s; (rest, n, s) = chain_remove func ns s
      in if remove then (rest, n + 1, s) else ((k, v) # rest, n, s))"

fun buckets_remove :: "('k \<Rightarrow> 'v \<Rightarrow> 's \<Rightarrow> bool \<times> 's) \<Rightarrow> ('k \<times> 'v) list list \<Rightarrow> 's \<Rightarrow>
    ('k \<times> 'v) list list \<times> nat \<times> 's" where
  "buckets_remove func [] s = ([], 0, s)"
| "buckets_remove func (c # cs) s =
     (let (c, n, s) = chain_remove func c s; (cs, m, s) = buckets_remove func cs s
      in (c # cs, n + m, s))"

definition g_hash_table_foreach_remove :: "('k, 'v) ghash \<Rightarrow> ('k \<Rightarrow> 'v \<Rightarrow> 's \<Rightarrow> bool \<times> 's) \<Rightarrow>
    's \<Rightarrow> ('k, 'v) ghash \<times> nat \<times> 's" where
  "g_hash_table_foreach_remove h func s =
     (let (cs, deleted, s) = buckets_remove func (nodes h) s
      in (h\<lparr>nodes := cs, nnodes := nnodes h - int deleted\<rparr>, deleted, s))"

definition g_hash_table_foreach :: "('k, 'v) ghash \<Rightarrow> ('k \<Rightarrow> 'v \<Rightarrow> 's \<Rightarrow> 's) \<Rightarrow> 's \<Rightarrow> 's" where
  "g_hash_table_foreach h func s = fold (\<lambda>(k, v). func k v) (concat (nodes h)) s"

definition g_hash_table_size :: "('k, 'v) ghash \<Rightarrow> dword" where
  "g_hash_table_size h = of_int (nnodes h)"

definition g_int_hash :: "dword \<Rightarrow> dword" where
  "g_int_hash v = v"

definition g_int_equal :: "dword \<Rightarrow> dword \<Rightarrow> bool" where
  "g_int_equal v1 v2 \<longleftrightarrow> v1 = v2"

text \<open>
  \<open>g_str_hash\<close>: \<open>signed char\<close>s are sign-extended before they are added. The walk stops at
  the terminating zero, so the string is given without it.
\<close>

fun str_hash_loop :: "dword \<Rightarrow> byte list \<Rightarrow> dword" where
  "str_hash_loop h [] = h"
| "str_hash_loop h (p # ps) = str_hash_loop (push_bit 5 h - h + scast p) ps"

definition g_str_hash :: "byte list \<Rightarrow> dword" where
  "g_str_hash v = (case v of [] \<Rightarrow> 0 | p # ps \<Rightarrow> str_hash_loop (scast p) ps)"

section \<open>Well-formed tables\<close>

text \<open>
  The buckets are all there, every key sits in its own bucket, no key occurs twice, and
  \<open>nnodes\<close> counts the nodes.
\<close>

definition ghash_ok :: "('k, 'v) ghash \<Rightarrow> bool" where
  "ghash_ok h \<longleftrightarrow>
     length (nodes h) = HASH_TABLE_SIZE \<and>
     (\<forall>i < HASH_TABLE_SIZE. \<forall>(k, v) \<in> set (nodes h ! i). bucket h k = i) \<and>
     (\<forall>i < HASH_TABLE_SIZE. distinct (map fst (nodes h ! i))) \<and>
     nnodes h = int (length (concat (nodes h))) \<and>
     (\<forall>a b. keys_equal h a b \<longleftrightarrow> a = b)"

lemma HASH_TABLE_SIZE_pos [simp]: "0 < HASH_TABLE_SIZE"
  by (simp add: HASH_TABLE_SIZE_def)

lemma bucket_less [simp]: "bucket h k < HASH_TABLE_SIZE"
  by (simp add: bucket_def)

lemma bucket_update [simp]:
  "bucket (h\<lparr>nodes := n, nnodes := c\<rparr>) k = bucket h k"
  "keys_equal (h\<lparr>nodes := n, nnodes := c\<rparr>) a b = keys_equal h a b"
  by (simp_all add: bucket_def keys_equal_def)

lemma lookup_node_map_of: "lookup_node (\<lambda>k. k = key) ns = map_of ns key"
  by (induction ns) auto

lemma set_node_map_of: "map_of (set_node (\<lambda>k. k = key) key value ns) = (map_of ns)(key \<mapsto> value)"
  by (induction ns) auto

lemma set_node_keys:
  "map fst (set_node (\<lambda>k. k = key) key value ns) =
     (if key \<in> fst ` set ns then map fst ns else map fst ns @ [key])"
proof (induction ns)
  case (Cons x ns)
  then show ?case by (cases x; cases "key \<in> fst ` set ns") simp_all
qed simp

lemma length_set_node:
  "length (set_node (\<lambda>k. k = key) key value ns) =
     (if map_of ns key = None then Suc (length ns) else length ns)"
  by (induction ns) auto

lemma length_concat_update:
  "i < length xss \<Longrightarrow>
     int (length (concat (xss[i := ys]))) =
       int (length (concat xss)) + int (length ys) - int (length (xss ! i))"
proof (induction xss arbitrary: i)
  case (Cons xs xss)
  then show ?case by (cases i) auto
qed simp

lemma ghash_okD:
  assumes "ghash_ok h"
  shows "length (nodes h) = HASH_TABLE_SIZE" "keys_equal h a b \<longleftrightarrow> a = b"
    "(\<lambda>k. keys_equal h k key) = (\<lambda>k. k = key)"
  using assms by (auto simp: ghash_ok_def)

lemma lookup_insert:
  assumes "ghash_ok h"
  shows "g_hash_table_lookup (g_hash_table_insert h key value) k =
    (if k = key then Some value else g_hash_table_lookup h k)"
  using ghash_okD [OF assms]
  by (auto simp: g_hash_table_lookup_def g_hash_table_insert_def Let_def lookup_node_map_of
      set_node_map_of nth_list_update)

lemma ghash_ok_insert:
  assumes ok: "ghash_ok h"
  shows "ghash_ok (g_hash_table_insert h key value)"
proof -
  define i where "i = bucket h key"
  define new where "new = set_node (\<lambda>k. k = key) key value (nodes h ! i)"
  have ins: "g_hash_table_insert h key value =
      h\<lparr>nodes := (nodes h)[i := new],
        nnodes := (if map_of (nodes h ! i) key = None then nnodes h + 1 else nnodes h)\<rparr>"
    using ghash_okD [OF ok]
    by (simp add: g_hash_table_insert_def Let_def i_def new_def lookup_node_map_of)
  have i: "i < HASH_TABLE_SIZE" by (simp add: i_def)
  have new_keys: "fst ` set new = insert key (fst ` set (nodes h ! i))"
    using arg_cong [OF set_node_keys [where key = key and ns = "nodes h ! i"], where f = set]
    by (auto simp: new_def split: if_splits)
  have "bucket h k = i" if "(k, v) \<in> set new" for k v
  proof -
    from that have "k \<in> fst ` set new" by force
    then have "k = key \<or> (\<exists>v. (k, v) \<in> set (nodes h ! i))" unfolding new_keys by force
    then show ?thesis using ok i by (fastforce simp: ghash_ok_def i_def [symmetric])
  qed
  then have "\<forall>(k, v) \<in> set new. bucket h k = i" by blast
  moreover have "distinct (map fst new)"
    using ok i by (auto simp: new_def set_node_keys ghash_ok_def)
  moreover have "length new = (if map_of (nodes h ! i) key = None
      then Suc (length (nodes h ! i)) else length (nodes h ! i))"
    by (simp add: new_def length_set_node)
  ultimately show ?thesis
    using ok i unfolding ins
    by (cases "map_of (nodes h ! i) key = None")
      (simp_all add: ghash_ok_def nth_list_update length_concat_update
        del: length_concat map_of_eq_None_iff)
qed

lemma ghash_ok_new:
  "(\<And>a b. eq a b \<longleftrightarrow> a = b) \<Longrightarrow> ghash_ok (g_hash_table_new hash (Some eq))"
  by (auto simp: ghash_ok_def g_hash_table_new_def keys_equal_def simp del: length_concat)

lemma lookup_new: "g_hash_table_lookup (g_hash_table_new hash eq) k = None"
  by (simp add: g_hash_table_lookup_def g_hash_table_new_def bucket_def)

section \<open>Removal\<close>

lemma buckets_remove_length: "buckets_remove f cs s = (cs', n, s') \<Longrightarrow> length cs' = length cs"
  by (induction cs arbitrary: cs' n s s') (auto simp: Let_def split: prod.splits)

lemma chain_remove_all:
  assumes "\<And>k v s. (k, v) \<in> set ns \<Longrightarrow> fst (func k v s)"
  shows "\<exists>s'. chain_remove func ns s = ([], length ns, s')"
  using assms
proof (induction ns arbitrary: s)
  case (Cons x ns)
  obtain k v where x: "x = (k, v)" by (cases x)
  obtain r s1 where f: "func k v s = (r, s1)" by (cases "func k v s")
  have r using Cons.prems [of k v s] x f by simp
  moreover obtain s2 where "chain_remove func ns s1 = ([], length ns, s2)"
    using Cons.IH [of s1] Cons.prems by auto
  ultimately show ?case by (simp add: x f)
qed simp

lemma buckets_remove_all:
  assumes "\<And>k v s. fst (func k v s)"
  shows "\<exists>s'. buckets_remove func cs s = (replicate (length cs) [], length (concat cs), s')"
proof (induction cs arbitrary: s)
  case (Cons c cs)
  obtain s1 where "chain_remove func c s = ([], length c, s1)"
    using chain_remove_all [of c func s] assms by blast
  moreover obtain s2 where
    "buckets_remove func cs s1 = (replicate (length cs) [], length (concat cs), s2)"
    using Cons.IH by blast
  ultimately show ?case by (simp del: length_concat)
qed simp

lemma chain_remove_steps:
  assumes "\<And>k v s. (k, v) \<in> set ns \<Longrightarrow> I s \<Longrightarrow> func k v s = (True, step (k, v) s) \<and> I (step (k, v) s)"
    and "I s"
  shows "chain_remove func ns s = ([], length ns, fold step ns s) \<and> I (fold step ns s)"
  using assms
proof (induction ns arbitrary: s)
  case (Cons x ns)
  obtain k v where x: "x = (k, v)" by (cases x)
  have f: "func k v s = (True, step (k, v) s)" "I (step (k, v) s)"
    using Cons.prems(1) [of k v s] Cons.prems(2) by (simp_all add: x)
  have "chain_remove func ns (step x s) = ([], length ns, fold step ns (step x s)) \<and>
      I (fold step ns (step x s))"
    by (rule Cons.IH) (use Cons.prems(1) f x in auto)
  then show ?case by (simp add: x f)
qed simp

lemma buckets_remove_steps:
  assumes "\<And>k v s. (k, v) \<in> set (concat cs) \<Longrightarrow> I s \<Longrightarrow>
      func k v s = (True, step (k, v) s) \<and> I (step (k, v) s)"
    and "I s"
  shows "buckets_remove func cs s =
      (replicate (length cs) [], length (concat cs), fold step (concat cs) s) \<and>
    I (fold step (concat cs) s)"
  using assms
proof (induction cs arbitrary: s)
  case (Cons c cs)
  have c: "chain_remove func c s = ([], length c, fold step c s) \<and> I (fold step c s)"
    by (rule chain_remove_steps) (use Cons.prems in auto)
  have "buckets_remove func cs (fold step c s) =
      (replicate (length cs) [], length (concat cs), fold step (concat cs) (fold step c s)) \<and>
    I (fold step (concat cs) (fold step c s))"
    by (rule Cons.IH) (use Cons.prems(1) c in auto)
  with c show ?case by (simp del: length_concat)
qed simp

definition empty_table :: "('k, 'v) ghash \<Rightarrow> bool" where
  "empty_table h \<longleftrightarrow> ghash_ok h \<and> nnodes h = 0 \<and> (\<forall>k. g_hash_table_lookup h k = None)"

lemma foreach_remove_steps:
  assumes ok: "ghash_ok h"
    and step: "\<And>k v s. (k, v) \<in> set (concat (nodes h)) \<Longrightarrow> I s \<Longrightarrow>
      func k v s = (True, step (k, v) s) \<and> I (step (k, v) s)"
    and s: "I s"
  shows "\<exists>h' n. g_hash_table_foreach_remove h func s = (h', n, fold step (concat (nodes h)) s) \<and>
    empty_table h' \<and> I (fold step (concat (nodes h)) s)"
proof -
  let ?h = "h\<lparr>nodes := replicate HASH_TABLE_SIZE [], nnodes := 0\<rparr>"
  have "empty_table ?h"
    using ok by (simp add: empty_table_def ghash_ok_def g_hash_table_lookup_def del: length_concat)
  moreover have "g_hash_table_foreach_remove h func s =
      (?h, length (concat (nodes h)), fold step (concat (nodes h)) s)"
    using buckets_remove_steps [of "nodes h" I func step s] step s ok
    by (simp add: g_hash_table_foreach_remove_def ghash_ok_def del: length_concat)
  ultimately show ?thesis
    using buckets_remove_steps [of "nodes h" I func step s] step s by blast
qed

text \<open>What holds of a removal whatever the function answers.\<close>

lemma chain_remove_sub:
  assumes "chain_remove func ns s = (ns', n, s')"
    and "\<And>k v s. (k, v) \<in> set ns \<Longrightarrow> I s \<Longrightarrow> I (snd (func k v s))" and "I s"
  shows "set ns' \<subseteq> set ns \<and> length ns = n + length ns' \<and> I s' \<and>
    (distinct (map fst ns) \<longrightarrow> distinct (map fst ns'))"
  using assms
proof (induction ns arbitrary: ns' n s s')
  case (Cons x ns)
  obtain k v where x: "x = (k, v)" by (cases x)
  obtain r s1 where f: "func k v s = (r, s1)" by (cases "func k v s")
  obtain ns1 n1 s2 where c: "chain_remove func ns s1 = (ns1, n1, s2)"
    by (cases "chain_remove func ns s1") auto
  have "I s1" using Cons.prems(2) [of k v s] Cons.prems(3) f x by simp
  then have "set ns1 \<subseteq> set ns \<and> length ns = n1 + length ns1 \<and> I s2 \<and>
      (distinct (map fst ns) \<longrightarrow> distinct (map fst ns1))"
    using Cons.IH [OF c] Cons.prems(2) by simp
  moreover from this have "fst ` set ns1 \<subseteq> fst ` set ns" by blast
  ultimately show ?case
    using Cons.prems(1) by (cases r) (auto simp: x f c)
qed simp

lemma buckets_remove_sub:
  assumes "buckets_remove func cs s = (cs', n, s')"
    and "\<And>k v s. (k, v) \<in> set (concat cs) \<Longrightarrow> I s \<Longrightarrow> I (snd (func k v s))" and "I s"
  shows "length cs' = length cs \<and> length (concat cs) = n + length (concat cs') \<and> I s' \<and>
    (\<forall>i < length cs. set (cs' ! i) \<subseteq> set (cs ! i) \<and>
       (distinct (map fst (cs ! i)) \<longrightarrow> distinct (map fst (cs' ! i))))"
  using assms
proof (induction cs arbitrary: cs' n s s')
  case (Cons c cs)
  obtain c1 n1 s1 where c: "chain_remove func c s = (c1, n1, s1)"
    by (cases "chain_remove func c s") auto
  obtain cs2 n2 s2 where b: "buckets_remove func cs s1 = (cs2, n2, s2)"
    by (cases "buckets_remove func cs s1") auto
  have 1: "set c1 \<subseteq> set c \<and> length c = n1 + length c1 \<and> I s1 \<and>
      (distinct (map fst c) \<longrightarrow> distinct (map fst c1))"
    using chain_remove_sub [OF c, of I] Cons.prems(2,3) by simp
  have 2: "length cs2 = length cs \<and> length (concat cs) = n2 + length (concat cs2) \<and> I s2 \<and>
      (\<forall>i < length cs. set (cs2 ! i) \<subseteq> set (cs ! i) \<and>
       (distinct (map fst (cs ! i)) \<longrightarrow> distinct (map fst (cs2 ! i))))"
    using Cons.IH [OF b] Cons.prems(2) 1 by (simp del: length_concat)
  have r: "cs' = c1 # cs2" "n = n1 + n2" "s' = s2" using Cons.prems(1) by (simp_all add: c b)
  show ?case
    using 1 2 by (auto simp: r nth_Cons less_Suc_eq_0_disj simp del: length_concat split: nat.splits)
qed simp

lemma foreach_remove_sub:
  assumes ok: "ghash_ok h" and r: "g_hash_table_foreach_remove h func s = (h', n, s')"
    and I: "\<And>k v s. (k, v) \<in> set (concat (nodes h)) \<Longrightarrow> I s \<Longrightarrow> I (snd (func k v s))" "I s"
  shows "ghash_ok h' \<and> I s' \<and>
    (\<forall>k v. g_hash_table_lookup h' k = Some v \<longrightarrow> g_hash_table_lookup h k = Some v)"
proof -
  obtain cs' where b: "buckets_remove func (nodes h) s = (cs', n, s')"
      and h': "h' = h\<lparr>nodes := cs', nnodes := nnodes h - int n\<rparr>"
    using r by (auto simp: g_hash_table_foreach_remove_def split: prod.splits)
  have l: "length (nodes h) = HASH_TABLE_SIZE" by (rule ghash_okD [OF ok])
  have sub: "length cs' = HASH_TABLE_SIZE" "length (concat (nodes h)) = n + length (concat cs')" "I s'"
      "\<And>i. i < HASH_TABLE_SIZE \<Longrightarrow> set (cs' ! i) \<subseteq> set (nodes h ! i)"
      "\<And>i. i < HASH_TABLE_SIZE \<Longrightarrow> distinct (map fst (nodes h ! i)) \<Longrightarrow> distinct (map fst (cs' ! i))"
    using buckets_remove_sub [OF b, of I] I l by (simp_all del: length_concat)
  have ok': "ghash_ok h'"
    unfolding ghash_ok_def
  proof (intro conjI allI impI)
    show "\<forall>(k, v) \<in> set (nodes h' ! i). bucket h' k = i" if "i < HASH_TABLE_SIZE" for i
      using ok sub(4) [OF that] that by (fastforce simp: h' ghash_ok_def)
    show "distinct (map fst (nodes h' ! i))" if "i < HASH_TABLE_SIZE" for i
      using ok sub(5) [OF that] that by (auto simp: h' ghash_ok_def)
  qed (use ok sub in \<open>auto simp: h' ghash_ok_def simp del: length_concat\<close>)
  have "g_hash_table_lookup h k = Some v" if "g_hash_table_lookup h' k = Some v" for k v
  proof -
    have "(k, v) \<in> set (cs' ! bucket h k)"
      using that ghash_okD(3) [OF ok'] ghash_okD(3) [OF ok]
      by (simp add: g_hash_table_lookup_def h' lookup_node_map_of map_of_SomeD)
    then have "(k, v) \<in> set (nodes h ! bucket h k)" using sub(4) [of "bucket h k"] by auto
    moreover have "distinct (map fst (nodes h ! bucket h k))" using ok by (simp add: ghash_ok_def)
    ultimately show ?thesis
      using ghash_okD(3) [OF ok] by (simp add: g_hash_table_lookup_def lookup_node_map_of)
  qed
  then show ?thesis using ok' sub(3) by blast
qed

text \<open>The entries of a well-formed table in the order of the walk, against the lookups.\<close>

lemma in_concat_bucket:
  assumes "k \<in> fst ` set (concat css)"
  shows "\<exists>j v. j < length css \<and> (k, v) \<in> set (css ! j)"
proof -
  obtain c v where "c \<in> set css" "(k, v) \<in> set c" using assms by auto
  then show ?thesis by (metis in_set_conv_nth)
qed

lemma map_of_concat:
  assumes "i < length css"
    and "\<And>j k v. j < length css \<Longrightarrow> (k, v) \<in> set (css ! j) \<Longrightarrow> b k = j"
    and "b key = i"
  shows "map_of (concat css) key = map_of (css ! i) key"
  using assms
proof (induction css arbitrary: i b)
  case (Cons c css)
  show ?case
  proof (cases i)
    case 0
    have "key \<notin> fst ` set (concat css)"
    proof
      assume "key \<in> fst ` set (concat css)"
      then have "\<exists>j v. j < length css \<and> (key, v) \<in> set (css ! j)"
        by (rule in_concat_bucket)
      then obtain j v where "j < length css" "(key, v) \<in> set (css ! j)" by (elim exE conjE)
      then show False using Cons.prems(2) [of "Suc j" key v] Cons.prems(3) 0 by simp
    qed
    then have "map_of (concat css) key = None" unfolding map_of_eq_None_iff .
    then show ?thesis using 0 by (simp add: map_add_def split: option.splits)
  next
    case (Suc j)
    have "key \<notin> fst ` set c"
      using Cons.prems(2) [of 0 key] Cons.prems(3) Suc by fastforce
    then have "map_of c key = None" unfolding map_of_eq_None_iff .
    moreover have "map_of (concat css) key = map_of (css ! j) key"
    proof (rule Cons.IH [where b = "\<lambda>k. b k - 1"])
      show "b k - 1 = j" if "j < length css" "(k, v) \<in> set (css ! j)" for j k v
        using Cons.prems(2) [of "Suc j" k v] that by simp
    qed (use Cons.prems Suc in auto)
    ultimately show ?thesis using Suc by (simp add: map_add_def split: option.splits)
  qed
qed simp

lemma lookup_entries:
  assumes "ghash_ok h"
  shows "g_hash_table_lookup h key = map_of (concat (nodes h)) key"
  using assms ghash_okD [OF assms]
    map_of_concat [where css = "nodes h" and b = "bucket h" and i = "bucket h key" and key = key]
  by (fastforce simp: g_hash_table_lookup_def lookup_node_map_of ghash_ok_def)

lemma distinct_concat_buckets:
  assumes "\<And>j. j < length css \<Longrightarrow> distinct (map fst (css ! j))"
    and "\<And>j k v. j < length css \<Longrightarrow> (k, v) \<in> set (css ! j) \<Longrightarrow> b k = j"
  shows "distinct (map fst (concat css))"
  using assms
proof (induction css arbitrary: b)
  case (Cons c css)
  have "distinct (map fst (concat css))"
  proof (rule Cons.IH [where b = "\<lambda>k. b k - 1"])
    show "distinct (map fst (css ! j))" if "j < length css" for j
      using Cons.prems(1) [of "Suc j"] that by simp
    show "b k - 1 = j" if "j < length css" "(k, v) \<in> set (css ! j)" for j k v
      using Cons.prems(2) [of "Suc j" k v] that by simp
  qed
  moreover have "distinct (map fst c)" using Cons.prems(1) [of 0] by simp
  moreover have "fst ` set c \<inter> fst ` set (concat css) = {}"
  proof -
    have "b k = 0" if "k \<in> fst ` set c" for k
      using that Cons.prems(2) [of 0 k] by fastforce
    moreover have "b k \<noteq> 0" if "k \<in> fst ` set (concat css)" for k
    proof -
      from that have "\<exists>j v. j < length css \<and> (k, v) \<in> set (css ! j)"
        by (rule in_concat_bucket)
      then obtain j v where "j < length css" "(k, v) \<in> set (css ! j)" by (elim exE conjE)
      then show ?thesis using Cons.prems(2) [of "Suc j" k v] by simp
    qed
    ultimately show ?thesis by blast
  qed
  ultimately show ?case by (simp only: concat.simps map_append distinct_append set_map)
qed simp

lemma distinct_entries: "ghash_ok h \<Longrightarrow> distinct (map fst (concat (nodes h)))"
  by (rule distinct_concat_buckets [where b = "bucket h"]) (fastforce simp: ghash_ok_def)+

section \<open>The interface of the disk code\<close>

locale map_api =
  fixes empty :: "'h"
    and lookup :: "'h \<Rightarrow> 'k \<Rightarrow> 'v option"
    and insert :: "'h \<Rightarrow> 'k \<Rightarrow> 'v \<Rightarrow> 'h"
    and ok :: "'h \<Rightarrow> bool"
  assumes ok_empty: "ok empty"
    and lookup_empty: "lookup empty k = None"
    and ok_insert: "ok h \<Longrightarrow> ok (insert h k v)"
    and lookup_insert: "ok h \<Longrightarrow> lookup (insert h k v) k' = (if k' = k then Some v else lookup h k')"
begin

definition insert_all :: "('k \<times> 'v) list \<Rightarrow> 'h \<Rightarrow> 'h" where
  "insert_all kvs h = fold (\<lambda>(k, v) h. insert h k v) kvs h"

lemma insert_all_simps [simp]:
  "insert_all [] h = h" "insert_all ((k, v) # kvs) h = insert_all kvs (insert h k v)"
  by (simp_all add: insert_all_def)

lemma ok_insert_all: "ok h \<Longrightarrow> ok (insert_all kvs h)"
  by (induction kvs arbitrary: h) (auto simp: ok_insert)

lemma lookup_insert_all:
  "ok h \<Longrightarrow> lookup (insert_all kvs h) k =
     (case map_of (rev kvs) k of Some v \<Rightarrow> Some v | None \<Rightarrow> lookup h k)"
proof (induction kvs arbitrary: h)
  case (Cons x kvs)
  then show ?case
    by (cases x) (auto simp: ok_insert lookup_insert map_add_def split: option.splits)
qed simp

lemma lookup_insert_same: "ok h \<Longrightarrow> lookup (insert h k v) k = Some v"
  by (simp add: lookup_insert)

lemma lookup_insert_other: "ok h \<Longrightarrow> k' \<noteq> k \<Longrightarrow> lookup (insert h k v) k' = lookup h k'"
  by (simp add: lookup_insert)

end

type_synonym 'v int_table = "(dword, 'v) ghash"

definition int_table_new :: "'v int_table" where
  "int_table_new = g_hash_table_new g_int_hash (Some g_int_equal)"

interpretation it: map_api int_table_new g_hash_table_lookup g_hash_table_insert ghash_ok
  by unfold_locales
    (simp_all add: int_table_new_def ghash_ok_new g_int_equal_def lookup_new ghash_ok_insert
      lookup_insert)

text \<open>
  C39: after any sequence of insertions into a new table, a key is bound to the value last
  inserted for it, and to none if there was none.
\<close>

theorem hash_table_is_map:
  "g_hash_table_lookup (fold (\<lambda>(k, v) h. g_hash_table_insert h k v) kvs int_table_new) k =
     map_of (rev kvs) k"
  using it.lookup_insert_all [OF it.ok_empty, of kvs k]
  by (simp add: it.insert_all_def it.lookup_empty split: option.splits)

text \<open>
  The table counts its nodes: \<open>g_hash_table_size\<close> is the number of different keys
  that were inserted.
\<close>

lemma nnodes_insert_all:
  "ghash_ok h \<Longrightarrow> nnodes (fold (\<lambda>(k, v) h. g_hash_table_insert h k v) kvs h) =
     nnodes h + int (card {k \<in> fst ` set kvs. g_hash_table_lookup h k = None})"
proof (induction kvs arbitrary: h)
  case (Cons x kvs)
  obtain k v where x: "x = (k, v)" by (cases x)
  let ?h = "g_hash_table_insert h k v"
  have n: "nnodes ?h = (if g_hash_table_lookup h k = None then nnodes h + 1 else nnodes h)"
    using ghash_okD [OF Cons.prems]
    by (simp add: g_hash_table_insert_def g_hash_table_lookup_def Let_def)
  have s: "{k' \<in> fst ` set kvs. g_hash_table_lookup ?h k' = None} =
      {k' \<in> fst ` set kvs. g_hash_table_lookup h k' = None} - {k}"
    using lookup_insert [OF Cons.prems, of k v] by (auto split: if_splits)
  have t: "{k' \<in> fst ` set (x # kvs). g_hash_table_lookup h k' = None} =
      (if g_hash_table_lookup h k = None
       then Set.insert k ({k' \<in> fst ` set kvs. g_hash_table_lookup h k' = None} - {k})
       else {k' \<in> fst ` set kvs. g_hash_table_lookup h k' = None} - {k})"
    by (auto simp: x)
  show ?case
    unfolding t using Cons.IH [OF ghash_ok_insert [OF Cons.prems, of k v]]
    by (cases "g_hash_table_lookup h k") (simp_all add: x n s card.insert_remove)
qed simp

theorem hash_table_size_counts:
  "g_hash_table_size (fold (\<lambda>(k, v) h. g_hash_table_insert h k v) kvs int_table_new) =
     of_nat (card (fst ` set kvs))"
  using nnodes_insert_all [OF it.ok_empty, of kvs]
  by (simp add: g_hash_table_size_def it.lookup_empty)
    (simp add: int_table_new_def g_hash_table_new_def)

end
