(* ===== verification/LS_Buffer.thy ===== *)
theory LS_Buffer
  imports LS_Core
begin

text \<open>
  \<open>buffer.c\<close>: the growable output buffer every writer appends to. The state is the
  allocated object, its size and the number of bytes used. As in \<open>LS_Core\<close>, fresh memory
  holds arbitrary bytes (\<open>junk\<close>) and allocation does not fail. The abstract view is the
  list of bytes written so far, \<open>contents\<close>; the interface the writers use is the locale
  \<open>byte_sink\<close>.
\<close>

record lbuffer =
  buffer :: "byte list"
  buffer_size :: size_t
  bytes_used :: size_t

definition libspectrum_buffer_reallocate :: "(nat \<Rightarrow> byte) \<Rightarrow> lbuffer \<Rightarrow> size_t \<Rightarrow> lbuffer" where
  "libspectrum_buffer_reallocate junk b new_size =
     b\<lparr>buffer := renew junk (buffer b) (unat new_size), buffer_size := new_size\<rparr>"

definition libspectrum_buffer_alloc :: "(nat \<Rightarrow> byte) \<Rightarrow> lbuffer" where
  "libspectrum_buffer_alloc junk =
     libspectrum_buffer_reallocate junk \<lparr>buffer = [], buffer_size = 0, bytes_used = 0\<rparr> 65536"

definition libspectrum_buffer_is_empty :: "lbuffer \<Rightarrow> bool" where
  "libspectrum_buffer_is_empty b \<longleftrightarrow> bytes_used b = 0"

definition libspectrum_buffer_is_not_empty :: "lbuffer \<Rightarrow> bool" where
  "libspectrum_buffer_is_not_empty b \<longleftrightarrow> bytes_used b > 0"

text \<open>The doubling loop; \<open>None\<close> if it never ends.\<close>

partial_function (option) reallocate_to_new_size ::
    "(nat \<Rightarrow> byte) \<Rightarrow> lbuffer \<Rightarrow> size_t \<Rightarrow> lbuffer option" where
  "reallocate_to_new_size junk b sz =
     (if sz > buffer_size b - bytes_used b
      then reallocate_to_new_size junk (libspectrum_buffer_reallocate junk b (2 * buffer_size b)) sz
      else Some b)"

definition libspectrum_buffer_write ::
    "(nat \<Rightarrow> byte) \<Rightarrow> lbuffer \<Rightarrow> byte list \<Rightarrow> size_t \<Rightarrow> lbuffer option" where
  "libspectrum_buffer_write junk b data sz = do {
     b \<leftarrow> reallocate_to_new_size junk b sz;
     mem \<leftarrow> memcpy_at (buffer b) (unat (bytes_used b)) data (unat sz);
     Some (b\<lparr>buffer := mem, bytes_used := bytes_used b + sz\<rparr>) }"

definition libspectrum_buffer_set ::
    "(nat \<Rightarrow> byte) \<Rightarrow> lbuffer \<Rightarrow> byte \<Rightarrow> size_t \<Rightarrow> lbuffer option" where
  "libspectrum_buffer_set junk b v sz = do {
     b \<leftarrow> reallocate_to_new_size junk b sz;
     mem \<leftarrow> memset_at (buffer b) (unat (bytes_used b)) v (unat sz);
     Some (b\<lparr>buffer := mem, bytes_used := bytes_used b + sz\<rparr>) }"

definition libspectrum_buffer_write_byte :: "(nat \<Rightarrow> byte) \<Rightarrow> lbuffer \<Rightarrow> byte \<Rightarrow> lbuffer option" where
  "libspectrum_buffer_write_byte junk b data = libspectrum_buffer_write junk b [data] 1"

definition libspectrum_buffer_write_word :: "(nat \<Rightarrow> byte) \<Rightarrow> lbuffer \<Rightarrow> lword \<Rightarrow> lbuffer option" where
  "libspectrum_buffer_write_word junk b data = do {
     (lsb_data, _) \<leftarrow> libspectrum_write_word (map junk [0..<2]) 0 data;
     libspectrum_buffer_write junk b lsb_data 2 }"

definition libspectrum_buffer_write_dword :: "(nat \<Rightarrow> byte) \<Rightarrow> lbuffer \<Rightarrow> dword \<Rightarrow> lbuffer option" where
  "libspectrum_buffer_write_dword junk b data = do {
     (lsb_data, _) \<leftarrow> libspectrum_write_dword (map junk [0..<4]) 0 data;
     libspectrum_buffer_write junk b lsb_data 4 }"

definition libspectrum_buffer_write_buffer ::
    "(nat \<Rightarrow> byte) \<Rightarrow> lbuffer \<Rightarrow> lbuffer option \<Rightarrow> lbuffer option" where
  "libspectrum_buffer_write_buffer junk dst src =
     (case src of None \<Rightarrow> Some dst
      | Some s \<Rightarrow> libspectrum_buffer_write junk dst (buffer s) (bytes_used s))"

definition libspectrum_buffer_get_data_size :: "lbuffer option \<Rightarrow> size_t" where
  "libspectrum_buffer_get_data_size b = (case b of None \<Rightarrow> 0 | Some b \<Rightarrow> bytes_used b)"

definition libspectrum_buffer_get_data :: "lbuffer option \<Rightarrow> byte list option" where
  "libspectrum_buffer_get_data b = map_option buffer b"

definition libspectrum_buffer_clear :: "lbuffer option \<Rightarrow> lbuffer option" where
  "libspectrum_buffer_clear b = map_option (\<lambda>b. b\<lparr>bytes_used := 0\<rparr>) b"

text \<open>\<open>*buffer\<close>, \<open>*ptr\<close> and \<open>*length\<close> are the room of \<open>libspectrum_make_room\<close>.\<close>

definition libspectrum_buffer_append :: "(nat \<Rightarrow> byte) \<Rightarrow> room \<Rightarrow> lbuffer \<Rightarrow> room option" where
  "libspectrum_buffer_append junk r src =
     (if bytes_used src = 0 then Some r
      else do {
        let r = libspectrum_make_room junk (bytes_used src) r;
        mem \<leftarrow> memcpy_at (dest r) (ptr r) (buffer src) (unat (bytes_used src));
        Some (r\<lparr>dest := mem, ptr := ptr r + unat (bytes_used src)\<rparr>) })"

section \<open>What the buffer holds\<close>

definition buffer_ok :: "lbuffer \<Rightarrow> bool" where
  "buffer_ok b \<longleftrightarrow> 0 < buffer_size b \<and> length (buffer b) = unat (buffer_size b) \<and>
     bytes_used b \<le> buffer_size b"

definition contents :: "lbuffer \<Rightarrow> byte list" where
  "contents b = take (unat (bytes_used b)) (buffer b)"

text \<open>\<open>b\<close> has room for \<open>n\<close> more bytes before its sizes leave 63 bits.\<close>

definition has_room :: "lbuffer \<Rightarrow> nat \<Rightarrow> bool" where
  "has_room b n \<longleftrightarrow> buffer_ok b \<and> unat (bytes_used b) + n < 2 ^ 63"

lemma length_contents: "buffer_ok b \<Longrightarrow> length (contents b) = unat (bytes_used b)"
  by (simp add: contents_def buffer_ok_def word_le_nat_alt)

lemma reallocate_double:
  assumes ok: "buffer_ok b" and small: "unat (buffer_size b) < 2 ^ 63"
  shows "buffer_ok (libspectrum_buffer_reallocate junk b (2 * buffer_size b))"
    "contents (libspectrum_buffer_reallocate junk b (2 * buffer_size b)) = contents b"
    "unat (2 * buffer_size b) = 2 * unat (buffer_size b)"
proof -
  show dbl: "unat (2 * buffer_size b) = 2 * unat (buffer_size b)"
    using small by (simp add: unat_word_ariths)
  show "buffer_ok (libspectrum_buffer_reallocate junk b (2 * buffer_size b))"
    using ok dbl
    by (simp add: buffer_ok_def libspectrum_buffer_reallocate_def word_le_nat_alt word_less_nat_alt)
  show "contents (libspectrum_buffer_reallocate junk b (2 * buffer_size b)) = contents b"
    using ok dbl
    by (simp add: buffer_ok_def libspectrum_buffer_reallocate_def contents_def take_renew
        word_le_nat_alt)
qed

lemma reallocate_ends:
  assumes "buffer_ok b" and "unat (bytes_used b) + unat sz < 2 ^ 63"
  shows "\<exists>b'. reallocate_to_new_size junk b sz = Some b' \<and> buffer_ok b' \<and>
    contents b' = contents b \<and> bytes_used b' = bytes_used b \<and>
    unat (bytes_used b) + unat sz \<le> unat (buffer_size b')"
  using assms
proof (induction "unat (bytes_used b) + unat sz - unat (buffer_size b)" arbitrary: b rule: less_induct)
  case less
  have used: "bytes_used b \<le> buffer_size b" using less.prems by (simp add: buffer_ok_def)
  then have free: "unat (buffer_size b - bytes_used b) = unat (buffer_size b) - unat (bytes_used b)"
    by (simp add: unat_sub)
  let ?b = "libspectrum_buffer_reallocate junk b (2 * buffer_size b)"
  have used': "bytes_used ?b = bytes_used b" and sz': "buffer_size ?b = 2 * buffer_size b"
    by (simp_all add: libspectrum_buffer_reallocate_def)
  show ?case
  proof (cases "sz > buffer_size b - bytes_used b")
    case True
    then have big: "unat (buffer_size b) < unat (bytes_used b) + unat sz"
      using used free by (simp add: word_less_nat_alt word_le_nat_alt)
    then have small: "unat (buffer_size b) < 2 ^ 63" using less.prems by simp
    have pos: "0 < unat (buffer_size b)"
      using less.prems by (simp add: buffer_ok_def word_less_nat_alt)
    note d = reallocate_double(1,2) [OF less.prems(1) small, of junk]
      reallocate_double(3) [OF less.prems(1) small]
    have "\<exists>b'. reallocate_to_new_size junk ?b sz = Some b' \<and> buffer_ok b' \<and>
        contents b' = contents ?b \<and> bytes_used b' = bytes_used ?b \<and>
        unat (bytes_used ?b) + unat sz \<le> unat (buffer_size b')"
      by (rule less.hyps) (use d pos big less.prems used' sz' in auto)
    with True d used' show ?thesis
      by (subst reallocate_to_new_size.simps) simp
  next
    case False
    with free less.prems used show ?thesis
      by (subst reallocate_to_new_size.simps) (auto simp: word_less_nat_alt word_le_nat_alt)
  qed
qed

lemma write_contents:
  assumes "has_room b (length data)"
  shows "\<exists>b'. libspectrum_buffer_write junk b data (of_nat (length data)) = Some b' \<and>
    buffer_ok b' \<and> contents b' = contents b @ data \<and>
    unat (bytes_used b') = unat (bytes_used b) + length data"
proof -
  have ok: "buffer_ok b" and lim: "unat (bytes_used b) + length data < 2 ^ 63"
    using assms by (auto simp: has_room_def)
  have sz: "unat (of_nat (length data) :: size_t) = length data"
    using lim by (simp add: unat_of_nat)
  obtain b' where b': "reallocate_to_new_size junk b (of_nat (length data)) = Some b'"
    "buffer_ok b'" "contents b' = contents b" "bytes_used b' = bytes_used b"
    "unat (bytes_used b) + length data \<le> unat (buffer_size b')"
    using reallocate_ends [OF ok, of "of_nat (length data)" junk] lim sz by auto
  have len: "length (buffer b') = unat (buffer_size b')" using b'(2) by (simp add: buffer_ok_def)
  have used: "unat (bytes_used b + of_nat (length data)) = unat (bytes_used b) + length data"
    using lim sz by (simp add: unat_word_ariths)
  let ?mem = "take (unat (bytes_used b)) (buffer b') @ data @
    drop (unat (bytes_used b) + length data) (buffer b')"
  let ?b = "b'\<lparr>buffer := ?mem, bytes_used := bytes_used b + of_nat (length data)\<rparr>"
  have "libspectrum_buffer_write junk b data (of_nat (length data)) = Some ?b"
    using b' len sz by (simp add: libspectrum_buffer_write_def memcpy_at_def)
  moreover have "buffer_ok ?b"
    using b' len used by (simp add: buffer_ok_def word_le_nat_alt)
  moreover have "contents ?b = contents b @ data"
    using b' len used by (simp add: contents_def [of ?b]) (simp add: contents_def)
  ultimately show ?thesis using used by auto
qed

lemma alloc_has_room: "n < 2 ^ 62 \<Longrightarrow> has_room (libspectrum_buffer_alloc junk) n"
  by (simp add: has_room_def buffer_ok_def libspectrum_buffer_alloc_def
      libspectrum_buffer_reallocate_def)

lemma alloc_contents: "contents (libspectrum_buffer_alloc junk) = []"
  by (simp add: contents_def libspectrum_buffer_alloc_def libspectrum_buffer_reallocate_def)

section \<open>The interface of the writers\<close>

text \<open>
  A sink with a budget: while the budget lasts a write returns, adds its bytes at the end
  and uses up as much of the budget.
\<close>

locale byte_sink =
  fixes emit :: "'b \<Rightarrow> byte list \<Rightarrow> 'b option"
    and written :: "'b \<Rightarrow> byte list"
    and budget :: "'b \<Rightarrow> nat \<Rightarrow> bool"
  assumes emit_law: "budget b n \<Longrightarrow> length data \<le> n \<Longrightarrow>
    \<exists>b'. emit b data = Some b' \<and> written b' = written b @ data \<and> budget b' (n - length data)"
begin

fun emit_all :: "'b \<Rightarrow> byte list list \<Rightarrow> 'b option" where
  "emit_all b [] = Some b"
| "emit_all b (d # ds) = emit b d \<bind> (\<lambda>b. emit_all b ds)"

lemma emit_all_law:
  "budget b n \<Longrightarrow> length (concat ds) \<le> n \<Longrightarrow>
     \<exists>b'. emit_all b ds = Some b' \<and> written b' = written b @ concat ds \<and>
       budget b' (n - length (concat ds))"
proof (induction ds arbitrary: b n)
  case (Cons d ds)
  then have le: "length d \<le> n" "length (concat ds) \<le> n - length d" by auto
  obtain b1 where b1: "emit b d = Some b1" "written b1 = written b @ d" "budget b1 (n - length d)"
    using emit_law [OF Cons.prems(1) le(1)] by blast
  then show ?case using Cons.IH [OF b1(3) le(2)] by auto
qed auto

text \<open>\<open>f\<close> writes exactly \<open>d\<close>, whatever was written before.\<close>

definition puts :: "('b \<Rightarrow> 'b option) \<Rightarrow> byte list \<Rightarrow> bool" where
  "puts f d \<longleftrightarrow> (\<forall>b n. budget b n \<longrightarrow> length d \<le> n \<longrightarrow>
     (\<exists>b'. f b = Some b' \<and> written b' = written b @ d \<and> budget b' (n - length d)))"

lemma puts_emit: "puts (\<lambda>b. emit b d) d"
  using emit_law by (simp add: puts_def)

lemma puts_nothing: "puts Some []"
  by (simp add: puts_def)

lemma puts_seq:
  assumes f: "puts f d" and g: "puts g e"
  shows "puts (\<lambda>b. f b \<bind> g) (d @ e)"
  unfolding puts_def
proof (intro allI impI)
  fix b n assume b: "budget b n" "length (d @ e) \<le> n"
  then have "length d \<le> n" by simp
  then obtain b1 where b1: "f b = Some b1" "written b1 = written b @ d" "budget b1 (n - length d)"
    using f b(1) unfolding puts_def by blast
  have "length e \<le> n - length d" using b(2) by simp
  then obtain b2 where "g b1 = Some b2" "written b2 = written b1 @ e" "budget b2 (n - length d - length e)"
    using g b1(3) unfolding puts_def by blast
  then show "\<exists>b'. f b \<bind> g = Some b' \<and> written b' = written b @ d @ e \<and> budget b' (n - length (d @ e))"
    using b1 by (simp add: diff_diff_add)
qed

text \<open>A loop that counts \<open>i\<close> up.\<close>

lemma puts_loop:
  assumes "\<And>b i. loop b i 0 = Some b" "\<And>b i n. loop b i (Suc n) = step i b \<bind> (\<lambda>b. loop b (i + 1) n)"
    and step: "\<And>i. i < m \<Longrightarrow> puts (step i) (d i)"
  shows "i + n \<le> m \<Longrightarrow> puts (\<lambda>b. loop b i n) (concat (map d [i..<i + n]))"
proof (induction n arbitrary: i)
  case 0
  then show ?case using puts_nothing assms(1) by simp
next
  case (Suc n)
  then have "puts (\<lambda>b. step i b \<bind> (\<lambda>b. loop b (i + 1) n)) (d i @ concat (map d [i + 1..<i + 1 + n]))"
    by (intro puts_seq step Suc.IH) auto
  moreover have "[i..<i + Suc n] = i # [i + 1..<i + 1 + n]" by (simp add: upt_rec)
  ultimately show ?case using assms(2) by simp
qed

lemma puts_result:
  "puts f d \<Longrightarrow> budget b n \<Longrightarrow> length d \<le> n \<Longrightarrow>
     \<exists>b'. f b = Some b' \<and> written b' = written b @ d \<and> budget b' (n - length d)"
  unfolding puts_def by blast

end

interpretation buf: byte_sink "\<lambda>b data. libspectrum_buffer_write junk b data (of_nat (length data))"
    contents has_room
proof unfold_locales
  fix b n and data :: "byte list"
  assume room: "has_room b n" and le: "length data \<le> n"
  then have "has_room b (length data)" by (simp add: has_room_def)
  then obtain b' where "libspectrum_buffer_write junk b data (of_nat (length data)) = Some b'"
    "buffer_ok b'" "contents b' = contents b @ data"
    "unat (bytes_used b') = unat (bytes_used b) + length data"
    using write_contents by blast
  then show "\<exists>b'. libspectrum_buffer_write junk b data (of_nat (length data)) = Some b' \<and>
      contents b' = contents b @ data \<and> has_room b' (n - length data)"
    using room le by (auto simp: has_room_def)
qed

text \<open>
  C40: a write always ends, keeps what was there and appends exactly its bytes, as long as
  the total stays below \<open>2 ^ 63\<close>; the doubling never loses data.
\<close>

theorem buffer_write_appends:
  assumes "has_room b (length data)"
  shows "\<exists>b'. libspectrum_buffer_write junk b data (of_nat (length data)) = Some b' \<and>
    contents b' = contents b @ data \<and> has_room b' 0"
  using buf.emit_law [OF assms order_refl, of junk] by simp

theorem buffer_write_appends_witness:
  "\<exists>b'. libspectrum_buffer_write (\<lambda>i. 7) (libspectrum_buffer_alloc (\<lambda>i. 9)) [1, 2, 3] (of_nat (length [1 :: byte, 2, 3])) = Some b' \<and>
    contents b' = contents (libspectrum_buffer_alloc (\<lambda>i. 9)) @ [1, 2, 3] \<and> has_room b' 0"
  by (rule buffer_write_appends, rule alloc_has_room) simp

text \<open>The typed writers.\<close>

lemma write_byte_as_write:
  "libspectrum_buffer_write_byte junk b x = libspectrum_buffer_write junk b [x] (of_nat (length [x]))"
  by (simp add: libspectrum_buffer_write_byte_def)

lemma write_word_as_write:
  "libspectrum_buffer_write_word junk b w =
     libspectrum_buffer_write junk b (word_bytes w) (of_nat (length (word_bytes w)))"
  by (simp add: libspectrum_buffer_write_word_def write_word_bytes)

lemma write_dword_as_write:
  "libspectrum_buffer_write_dword junk b d =
     libspectrum_buffer_write junk b (dword_bytes d) (of_nat (length (dword_bytes d)))"
  by (simp add: libspectrum_buffer_write_dword_def write_dword_bytes)

lemma puts_byte: "buf.puts (\<lambda>b. libspectrum_buffer_write_byte junk b x) [x]"
  unfolding write_byte_as_write by (rule buf.puts_emit)

lemma puts_word: "buf.puts (\<lambda>b. libspectrum_buffer_write_word junk b w) (word_bytes w)"
  unfolding write_word_as_write by (rule buf.puts_emit)

lemma puts_dword: "buf.puts (\<lambda>b. libspectrum_buffer_write_dword junk b d) (dword_bytes d)"
  unfolding write_dword_as_write by (rule buf.puts_emit)

lemma puts_data:
  assumes "unat n \<le> length data"
  shows "buf.puts (\<lambda>b. libspectrum_buffer_write junk b data n) (take (unat n) data)"
proof -
  have len: "length (take (unat n) data) = unat n" using assms by simp
  have "libspectrum_buffer_write junk b data n =
      libspectrum_buffer_write junk b (take (unat n) data) (of_nat (length (take (unat n) data)))" for b
    using assms
    by (simp only: len libspectrum_buffer_write_def memcpy_at_def take_take min.idem order_refl
        of_nat_unat ucast_id simp_thms)
  then show ?thesis using buf.puts_emit [of junk "take (unat n) data"] by simp
qed

lemma puts_fill: "buf.puts (\<lambda>b. libspectrum_buffer_set junk b v n) (replicate (unat n) v)"
proof -
  have "libspectrum_buffer_set junk b v n = libspectrum_buffer_write junk b (replicate (unat n) v) n" for b
    by (simp add: libspectrum_buffer_set_def libspectrum_buffer_write_def memset_at_def)
  then show ?thesis using puts_data [of n "replicate (unat n) v" junk] by simp
qed

lemma puts_buffer:
  assumes "contents m = d" "buffer_ok m"
  shows "buf.puts (\<lambda>b. libspectrum_buffer_write_buffer junk b (Some m)) d"
  using assms puts_data [of "bytes_used m" "buffer m" junk]
  by (simp add: libspectrum_buffer_write_buffer_def contents_def buffer_ok_def word_le_nat_alt)

lemmas puts_steps = buf.puts_seq puts_byte puts_word puts_dword puts_data buf.puts_nothing

end
