(* ===== verification/Tape_Block.thy ===== *)
theory Tape_Block
  imports LS_Core
begin

text \<open>
  \<open>tape_block.h\<close>, the initialisation half of \<open>tape_block.c\<close>, \<open>symbol_table.c\<close>, and the
  functions of \<open>tape.c\<close> that step to the next bit: the tape block types, the state kept
  while a block plays, and how that state is set up when the block starts.

  An array member is the list of its elements, so a read past the end of the list is a
  read past the end of the object and makes the result \<open>None\<close>. Sizes keep their own
  fields, as in the code. The \<open>union\<close> of block states is a record with all its members:
  each is accessed only for the block type it belongs to, and what a member holds before
  its initialisation is arbitrary.
\<close>

section \<open>States of a playing block\<close>

datatype libspectrum_tape_state_type =
    STATE_INVALID | STATE_PILOT | STATE_SYNC1 | STATE_SYNC2 | STATE_DATA1 | STATE_DATA2
  | STATE_PAUSE | STATE_TAIL

section \<open>Block types\<close>

record rom_block =
  rom_length :: size_t
  rom_data :: "byte list"
  rom_pause :: dword
  rom_pause_tstates :: dword

record rom_block_state =
  rs_state :: libspectrum_tape_state_type
  rs_edge_count :: size_t
  rs_bytes_through_block :: size_t
  rs_bits_through_byte :: size_t
  rs_current_byte :: byte
  rs_bit_tstates :: dword

record turbo_block =
  turbo_length :: size_t
  turbo_bits_in_last_byte :: size_t
  turbo_data :: "byte list"
  turbo_pause :: dword
  turbo_pause_tstates :: dword
  turbo_pilot_length :: dword
  turbo_pilot_pulses :: size_t
  turbo_sync1_length :: dword
  turbo_sync2_length :: dword
  turbo_bit0_length :: dword
  turbo_bit1_length :: dword

record turbo_block_state =
  tbs_state :: libspectrum_tape_state_type
  tbs_edge_count :: size_t
  tbs_bytes_through_block :: size_t
  tbs_bits_through_byte :: size_t
  tbs_current_byte :: byte
  tbs_bit_tstates :: dword

record pure_tone_block =
  tone_length :: dword
  tone_pulses :: size_t

record pure_tone_block_state =
  tone_edge_count :: size_t

record pulses_block =
  pulses_count :: size_t
  pulses_lengths :: "dword list"

record pulses_block_state =
  pulses_edge_count :: size_t

record pure_data_block =
  pd_length :: size_t
  pd_bits_in_last_byte :: size_t
  pd_data :: "byte list"
  pd_pause :: dword
  pd_pause_tstates :: dword
  pd_bit0_length :: dword
  pd_bit1_length :: dword

record pure_data_block_state =
  pds_state :: libspectrum_tape_state_type
  pds_bytes_through_block :: size_t
  pds_bits_through_byte :: size_t
  pds_current_byte :: byte
  pds_bit_tstates :: dword

text \<open>Only the raw data block tests its data pointer, so only here \<open>NULL\<close> is told apart.\<close>

record raw_data_block =
  rd_length :: size_t
  rd_bits_in_last_byte :: size_t
  rd_data :: "byte list option"
  rd_pause :: dword
  rd_pause_tstates :: dword
  rd_bit_length :: dword

record raw_data_block_state =
  rds_state :: libspectrum_tape_state_type
  rds_bytes_through_block :: size_t
  rds_bits_through_byte :: size_t
  rds_last_bit :: byte
  rds_bit_tstates :: dword

record generalised_data_symbol =
  edge_type :: byte
  sym_lengths :: "lword list"

record symbol_table =
  symbols_in_block :: dword
  max_pulses :: byte
  symbols_in_table :: lword
  symbols :: "generalised_data_symbol list"

record generalised_data_block =
  gd_pause :: dword
  gd_pause_tstates :: dword
  pilot_table :: symbol_table
  data_table :: symbol_table
  pilot_symbols :: "byte list"
  pilot_repeats :: "lword list"
  bits_per_data_symbol :: size_t
  gd_data :: "byte list"

record generalised_data_block_state =
  gs_state :: libspectrum_tape_state_type
  gs_run :: dword
  symbols_through_run :: lword
  edges_through_symbol :: byte
  current_symbol :: byte
  symbols_through_stream :: size_t
  gs_current_byte :: byte
  gs_bits_through_byte :: size_t
  bytes_through_stream :: size_t

record pause_block =
  pause_length :: dword
  pause_length_tstates :: dword
  pause_level :: int

record select_block =
  select_count :: size_t
  select_offsets :: "int list"
  select_descriptions :: "byte list list"

record message_block =
  message_time :: int
  message_time_tstates :: int
  message_text :: "byte list"

record archive_info_block =
  ai_count :: size_t
  ai_ids :: "int list"
  ai_strings :: "byte list list"

record hardware_block =
  hw_count :: size_t
  hw_types :: "int list"
  hw_ids :: "int list"
  hw_values :: "int list"

record custom_block =
  custom_description :: "byte list"
  custom_length :: size_t
  custom_data :: "byte list"

record rle_pulse_block =
  rle_length :: size_t
  rle_data :: "byte list"
  rle_scale :: int

record rle_pulse_block_state =
  rle_index :: size_t

record pulse_sequence_block =
  ps_count :: size_t
  ps_lengths :: "dword list"
  ps_pulse_repeats :: "size_t list"

record pulse_sequence_block_state =
  pss_index :: size_t
  pss_pulse_count :: size_t
  pss_level :: int

record data_block =
  db_count :: size_t
  db_initial_level :: int
  db_data :: "byte list"
  db_tail_length :: dword
  db_bit0_pulse_count :: size_t
  db_bit1_pulse_count :: size_t
  db_bit0_pulses :: "lword list"
  db_bit1_pulses :: "lword list"
  db_length :: size_t
  db_bits_in_last_byte :: size_t

record data_block_state =
  dbs_state :: libspectrum_tape_state_type
  dbs_bit0_flags :: dword
  dbs_bit1_flags :: dword
  dbs_bytes_through_block :: size_t
  dbs_bits_through_byte :: size_t
  dbs_current_byte :: byte
  dbs_pulse_count :: size_t
  dbs_bit_pulses :: "lword list"
  dbs_bit_flags :: dword
  dbs_level :: int
  dbs_index :: size_t

text \<open>The block with its type tag; the tag of a block is the constructor.\<close>

datatype libspectrum_tape_block =
    ROM rom_block
  | TURBO turbo_block
  | PURE_TONE pure_tone_block
  | PULSES pulses_block
  | PURE_DATA pure_data_block
  | RAW_DATA raw_data_block
  | GENERALISED_DATA generalised_data_block
  | PAUSE pause_block
  | GROUP_START (group_name: "byte list")
  | GROUP_END
  | JUMP (jump_offset: int)
  | LOOP_START (loop_count_of: int)
  | LOOP_END
  | SELECT select_block
  | STOP48
  | SET_SIGNAL_LEVEL (signal_level: int)
  | COMMENT (comment_text: "byte list")
  | MESSAGE message_block
  | ARCHIVE_INFO archive_info_block
  | HARDWARE hardware_block
  | CUSTOM custom_block
  | CONCAT
  | RLE_PULSE rle_pulse_block
  | PULSE_SEQUENCE pulse_sequence_block
  | DATA_BLOCK data_block

record block_states =
  st_rom :: rom_block_state
  st_turbo :: turbo_block_state
  st_pure_tone :: pure_tone_block_state
  st_pulses :: pulses_block_state
  st_pure_data :: pure_data_block_state
  st_raw_data :: raw_data_block_state
  st_generalised_data :: generalised_data_block_state
  st_rle_pulse :: rle_pulse_block_state
  st_pulse_sequence :: pulse_sequence_block_state
  st_data_block :: data_block_state

text \<open>\<open>libspectrum_tape_block_metadata\<close>\<close>

fun libspectrum_tape_block_metadata :: "libspectrum_tape_block \<Rightarrow> int" where
  "libspectrum_tape_block_metadata (GROUP_START x) = 1"
| "libspectrum_tape_block_metadata GROUP_END = 1"
| "libspectrum_tape_block_metadata (LOOP_START x) = 1"
| "libspectrum_tape_block_metadata (COMMENT x) = 1"
| "libspectrum_tape_block_metadata (MESSAGE x) = 1"
| "libspectrum_tape_block_metadata (ARCHIVE_INFO x) = 1"
| "libspectrum_tape_block_metadata (HARDWARE x) = 1"
| "libspectrum_tape_block_metadata (CUSTOM x) = 1"
| "libspectrum_tape_block_metadata CONCAT = 1"
| "libspectrum_tape_block_metadata _ = 0"

end
