(* ===== verification/Tape_Edge.thy ===== *)
theory Tape_Edge
  imports Tape_Block
begin

text \<open>
  The edge generators of \<open>tape.c\<close>: for each playable block type the function that gives
  the length of the next pulse, and the functions that step to the next data bit.

  The in/out parameters \<open>tstates\<close>, \<open>end_of_block\<close> and \<open>flags\<close> are the record \<open>edge_io\<close>;
  \<open>flags\<close>, an \<open>int\<close> that is only used bitwise, is a 32-bit word. A generator returns the
  error code, the state of the block and these parameters. A read outside an array makes
  the result \<open>None\<close>, as does a loop that never ends.
\<close>

record edge_io =
  tstates :: dword
  end_of_block :: bool
  flags :: dword

type_synonym 's edge_result = "(libspectrum_error \<times> 's \<times> edge_io) option"

section \<open>Constants\<close>

abbreviation TIMING_PILOT :: dword where "TIMING_PILOT \<equiv> 2168"
abbreviation TIMING_SYNC1 :: dword where "TIMING_SYNC1 \<equiv> 667"
abbreviation TIMING_SYNC2 :: dword where "TIMING_SYNC2 \<equiv> 735"
abbreviation TIMING_DATA0 :: dword where "TIMING_DATA0 \<equiv> 855"
abbreviation TIMING_DATA1 :: dword where "TIMING_DATA1 \<equiv> 1710"

abbreviation FLAGS_BLOCK :: dword where "FLAGS_BLOCK \<equiv> 1"
abbreviation FLAGS_STOP :: dword where "FLAGS_STOP \<equiv> 2"
abbreviation FLAGS_STOP48 :: dword where "FLAGS_STOP48 \<equiv> 4"
abbreviation FLAGS_NO_EDGE :: dword where "FLAGS_NO_EDGE \<equiv> 8"
abbreviation FLAGS_LEVEL_LOW :: dword where "FLAGS_LEVEL_LOW \<equiv> 16"
abbreviation FLAGS_LEVEL_HIGH :: dword where "FLAGS_LEVEL_HIGH \<equiv> 32"
abbreviation FLAGS_LENGTH_SHORT :: dword where "FLAGS_LENGTH_SHORT \<equiv> 64"
abbreviation FLAGS_LENGTH_LONG :: dword where "FLAGS_LENGTH_LONG \<equiv> 128"
abbreviation FLAGS_TAPE :: dword where "FLAGS_TAPE \<equiv> 256"

text \<open>\<open>*flags |= f\<close>\<close>

definition set_flag :: "dword \<Rightarrow> edge_io \<Rightarrow> edge_io" where
  "set_flag f io = io\<lparr>flags := flags io OR f\<rparr>"

lemma set_flag_sel [simp]:
  "tstates (set_flag f io) = tstates io"
  "end_of_block (set_flag f io) = end_of_block io"
  "flags (set_flag f io) = flags io OR f"
  by (simp_all add: set_flag_def)

definition do_tail_pause :: "edge_io \<Rightarrow> edge_io" where
  "do_tail_pause io =
     (let io = io\<lparr>end_of_block := True\<rparr>
      in if tstates io = 0 then set_flag FLAGS_NO_EDGE io else io)"

text \<open>The end of a branch: the data of the block moved on, the pulse stays as given.\<close>

definition edge_after :: "'s c_result \<Rightarrow> edge_io \<Rightarrow> 's edge_result" where
  "edge_after r io = map_option (\<lambda>(e, s). (e, s, io)) r"

section \<open>ROM blocks\<close>

definition rom_shift_bit :: "rom_block_state \<Rightarrow> rom_block_state" where
  "rom_shift_bit state =
     (let next_bit = rs_current_byte state AND 0x80;
          state = state\<lparr>rs_current_byte := push_bit 1 (rs_current_byte state)\<rparr>
      in state\<lparr>rs_bit_tstates := (if next_bit \<noteq> 0 then TIMING_DATA1 else TIMING_DATA0),
               rs_state := STATE_DATA1\<rparr>)"

definition rom_next_bit :: "rom_block \<Rightarrow> rom_block_state \<Rightarrow> rom_block_state c_result" where
  "rom_next_bit block state =
     (let state = state\<lparr>rs_bits_through_byte := rs_bits_through_byte state + 1\<rparr>
      in if rs_bits_through_byte state = 8 then
           (let state = state\<lparr>rs_bytes_through_block := rs_bytes_through_block state + 1\<rparr>
            in if rs_bytes_through_block state = rom_length block
               then Some (ERROR_NONE, state\<lparr>rs_state := STATE_PAUSE\<rparr>)
               else do {
                 b \<leftarrow> aget (rom_data block) (rs_bytes_through_block state);
                 Some (ERROR_NONE, rom_shift_bit
                   (state\<lparr>rs_current_byte := b, rs_bits_through_byte := 0\<rparr>)) })
         else Some (ERROR_NONE, rom_shift_bit state))"

definition rom_edge :: "rom_block \<Rightarrow> rom_block_state \<Rightarrow> edge_io \<Rightarrow> rom_block_state edge_result" where
  "rom_edge block state io =
     (case rs_state state of
        STATE_PILOT \<Rightarrow>
          (let state = state\<lparr>rs_edge_count := rs_edge_count state - 1\<rparr>
           in Some (ERROR_NONE,
                if rs_edge_count state = 0 then state\<lparr>rs_state := STATE_SYNC1\<rparr> else state,
                io\<lparr>tstates := TIMING_PILOT\<rparr>))
      | STATE_SYNC1 \<Rightarrow>
          Some (ERROR_NONE, state\<lparr>rs_state := STATE_SYNC2\<rparr>, io\<lparr>tstates := TIMING_SYNC1\<rparr>)
      | STATE_SYNC2 \<Rightarrow>
          edge_after (rom_next_bit block state) (io\<lparr>tstates := TIMING_SYNC2\<rparr>)
      | STATE_DATA1 \<Rightarrow>
          Some (ERROR_NONE, state\<lparr>rs_state := STATE_DATA2\<rparr>,
            set_flag (if rs_bit_tstates state = TIMING_DATA0 then FLAGS_LENGTH_SHORT
                      else FLAGS_LENGTH_LONG) (io\<lparr>tstates := rs_bit_tstates state\<rparr>))
      | STATE_DATA2 \<Rightarrow>
          edge_after (rom_next_bit block state)
            (set_flag (if rs_bit_tstates state = TIMING_DATA0 then FLAGS_LENGTH_SHORT
                       else FLAGS_LENGTH_LONG) (io\<lparr>tstates := rs_bit_tstates state\<rparr>))
      | STATE_PAUSE \<Rightarrow>
          Some (ERROR_NONE, state, do_tail_pause (io\<lparr>tstates := rom_pause_tstates block\<rparr>))
      | _ \<Rightarrow> Some (ERROR_LOGIC, state, io))"

section \<open>Turbo blocks\<close>

definition turbo_shift_bit :: "turbo_block \<Rightarrow> turbo_block_state \<Rightarrow> turbo_block_state" where
  "turbo_shift_bit block state =
     (let next_bit = tbs_current_byte state AND 0x80;
          state = state\<lparr>tbs_current_byte := push_bit 1 (tbs_current_byte state)\<rparr>
      in state\<lparr>tbs_bit_tstates :=
                 (if next_bit \<noteq> 0 then turbo_bit1_length block else turbo_bit0_length block),
               tbs_state := STATE_DATA1\<rparr>)"

definition turbo_next_bit :: "turbo_block \<Rightarrow> turbo_block_state \<Rightarrow> turbo_block_state c_result" where
  "turbo_next_bit block state =
     (let state = state\<lparr>tbs_bits_through_byte := tbs_bits_through_byte state + 1\<rparr>
      in if tbs_bits_through_byte state = 8 then
           (let state = state\<lparr>tbs_bytes_through_block := tbs_bytes_through_block state + 1\<rparr>
            in if tbs_bytes_through_block state = turbo_length block
               then Some (ERROR_NONE, state\<lparr>tbs_state := STATE_PAUSE\<rparr>)
               else do {
                 b \<leftarrow> aget (turbo_data block) (tbs_bytes_through_block state);
                 let bits = (if tbs_bytes_through_block state = turbo_length block - 1
                             then 8 - turbo_bits_in_last_byte block else 0);
                 Some (ERROR_NONE, turbo_shift_bit block
                   (state\<lparr>tbs_current_byte := b, tbs_bits_through_byte := bits\<rparr>)) })
         else Some (ERROR_NONE, turbo_shift_bit block state))"

definition turbo_sync1 :: "turbo_block \<Rightarrow> turbo_block_state \<Rightarrow> edge_io \<Rightarrow> turbo_block_state edge_result" where
  "turbo_sync1 block state io =
     Some (ERROR_NONE, state\<lparr>tbs_state := STATE_SYNC2\<rparr>, io\<lparr>tstates := turbo_sync1_length block\<rparr>)"

text \<open>A pilot with no pulse left falls through to the first sync pulse.\<close>

definition turbo_edge :: "turbo_block \<Rightarrow> turbo_block_state \<Rightarrow> edge_io \<Rightarrow> turbo_block_state edge_result" where
  "turbo_edge block state io =
     (case tbs_state state of
        STATE_PILOT \<Rightarrow>
          (let count = tbs_edge_count state;
               state = state\<lparr>tbs_edge_count := count - 1\<rparr>
           in if count \<noteq> 0
              then Some (ERROR_NONE, state, io\<lparr>tstates := turbo_pilot_length block\<rparr>)
              else turbo_sync1 block state io)
      | STATE_SYNC1 \<Rightarrow> turbo_sync1 block state io
      | STATE_SYNC2 \<Rightarrow>
          edge_after (turbo_next_bit block state) (io\<lparr>tstates := turbo_sync2_length block\<rparr>)
      | STATE_DATA1 \<Rightarrow>
          Some (ERROR_NONE, state\<lparr>tbs_state := STATE_DATA2\<rparr>,
            set_flag (if tbs_bit_tstates state = turbo_bit0_length block then FLAGS_LENGTH_SHORT
                      else FLAGS_LENGTH_LONG) (io\<lparr>tstates := tbs_bit_tstates state\<rparr>))
      | STATE_DATA2 \<Rightarrow>
          edge_after (turbo_next_bit block state)
            (set_flag (if tbs_bit_tstates state = turbo_bit0_length block then FLAGS_LENGTH_SHORT
                       else FLAGS_LENGTH_LONG) (io\<lparr>tstates := tbs_bit_tstates state\<rparr>))
      | STATE_PAUSE \<Rightarrow>
          Some (ERROR_NONE, state, do_tail_pause (io\<lparr>tstates := turbo_pause_tstates block\<rparr>))
      | _ \<Rightarrow> Some (ERROR_LOGIC, state, io))"

section \<open>Tones and pulse lists\<close>

definition tone_edge ::
    "pure_tone_block \<Rightarrow> pure_tone_block_state \<Rightarrow> edge_io \<Rightarrow> pure_tone_block_state edge_result" where
  "tone_edge block state io =
     (let io = io\<lparr>tstates := tone_length block\<rparr>;
          state = state\<lparr>tone_edge_count := tone_edge_count state - 1\<rparr>
      in Some (ERROR_NONE, state,
               if tone_edge_count state = 0 then io\<lparr>end_of_block := True\<rparr> else io))"

definition pulses_edge ::
    "pulses_block \<Rightarrow> pulses_block_state \<Rightarrow> edge_io \<Rightarrow> pulses_block_state edge_result" where
  "pulses_edge block state io = do {
     t \<leftarrow> aget (pulses_lengths block) (pulses_edge_count state);
     let io = io\<lparr>tstates := t\<rparr>;
     let state = state\<lparr>pulses_edge_count := pulses_edge_count state + 1\<rparr>;
     Some (ERROR_NONE, state,
           if pulses_edge_count state = pulses_count block then io\<lparr>end_of_block := True\<rparr> else io) }"

section \<open>Pure data blocks\<close>

definition pure_data_shift_bit :: "pure_data_block \<Rightarrow> pure_data_block_state \<Rightarrow> pure_data_block_state" where
  "pure_data_shift_bit block state =
     (let next_bit = pds_current_byte state AND 0x80;
          state = state\<lparr>pds_current_byte := push_bit 1 (pds_current_byte state)\<rparr>
      in state\<lparr>pds_bit_tstates :=
                 (if next_bit \<noteq> 0 then pd_bit1_length block else pd_bit0_length block),
               pds_state := STATE_DATA1\<rparr>)"

definition libspectrum_tape_pure_data_next_bit ::
    "pure_data_block \<Rightarrow> pure_data_block_state \<Rightarrow> pure_data_block_state c_result" where
  "libspectrum_tape_pure_data_next_bit block state =
     (let state = state\<lparr>pds_bits_through_byte := pds_bits_through_byte state + 1\<rparr>
      in if pds_bits_through_byte state = 8 then
           (let state = state\<lparr>pds_bytes_through_block := pds_bytes_through_block state + 1\<rparr>
            in if pds_bytes_through_block state = pd_length block
               then Some (ERROR_NONE, state\<lparr>pds_state := STATE_PAUSE\<rparr>)
               else do {
                 b \<leftarrow> aget (pd_data block) (pds_bytes_through_block state);
                 let bits = (if pds_bytes_through_block state = pd_length block - 1
                             then 8 - pd_bits_in_last_byte block else 0);
                 Some (ERROR_NONE, pure_data_shift_bit block
                   (state\<lparr>pds_current_byte := b, pds_bits_through_byte := bits\<rparr>)) })
         else Some (ERROR_NONE, pure_data_shift_bit block state))"

definition pure_data_edge ::
    "pure_data_block \<Rightarrow> pure_data_block_state \<Rightarrow> edge_io \<Rightarrow> pure_data_block_state edge_result" where
  "pure_data_edge block state io =
     (case pds_state state of
        STATE_DATA1 \<Rightarrow>
          Some (ERROR_NONE, state\<lparr>pds_state := STATE_DATA2\<rparr>,
            set_flag (if pds_bit_tstates state = pd_bit0_length block then FLAGS_LENGTH_SHORT
                      else FLAGS_LENGTH_LONG) (io\<lparr>tstates := pds_bit_tstates state\<rparr>))
      | STATE_DATA2 \<Rightarrow>
          edge_after (libspectrum_tape_pure_data_next_bit block state)
            (set_flag (if pds_bit_tstates state = pd_bit0_length block then FLAGS_LENGTH_SHORT
                       else FLAGS_LENGTH_LONG) (io\<lparr>tstates := pds_bit_tstates state\<rparr>))
      | STATE_PAUSE \<Rightarrow>
          Some (ERROR_NONE, state, do_tail_pause (io\<lparr>tstates := pd_pause_tstates block\<rparr>))
      | _ \<Rightarrow> Some (ERROR_LOGIC, state, io))"

section \<open>Raw data blocks\<close>

text \<open>
  The body of the loop of \<open>libspectrum_tape_raw_data_next_bit\<close> that moves to the next
  sample (and tells whether the data ended), and its condition. A shift by the width of
  \<open>int\<close> or more is undefined.
\<close>

definition raw_data_next_sample :: "raw_data_block \<Rightarrow> raw_data_block_state \<Rightarrow> bool \<times> raw_data_block_state" where
  "raw_data_next_sample block state =
     (let state = state\<lparr>rds_bits_through_byte := rds_bits_through_byte state + 1\<rparr>
      in if rds_bits_through_byte state = 8 then
           (let state = state\<lparr>rds_bytes_through_block := rds_bytes_through_block state + 1\<rparr>;
                bits = (if rds_bytes_through_block state = rd_length block - 1
                        then 8 - rd_bits_in_last_byte block else 0);
                state = state\<lparr>rds_bits_through_byte := bits\<rparr>
            in (rds_bytes_through_block state = rd_length block, state))
         else (False, state))"

definition raw_data_level_differs :: "raw_data_block \<Rightarrow> raw_data_block_state \<Rightarrow> bool option" where
  "raw_data_level_differs block state = do {
     data \<leftarrow> rd_data block;
     b \<leftarrow> aget data (rds_bytes_through_block state);
     (if unat (rds_bits_through_byte state) < 32
      then Some (push_bit (unat (rds_bits_through_byte state)) (ucast b :: dword) AND 0x80
                   \<noteq> ucast (rds_last_bit state))
      else None) }"

partial_function (option) raw_data_run ::
    "raw_data_block \<Rightarrow> dword \<Rightarrow> raw_data_block_state \<Rightarrow> (dword \<times> raw_data_block_state) option" where
  "raw_data_run block len state =
     (let len = len + 1; (finished, state) = raw_data_next_sample block state
      in if finished then Some (len, state)
         else do {
           differs \<leftarrow> raw_data_level_differs block state;
           (if differs then raw_data_run block len state else Some (len, state)) })"

definition libspectrum_tape_raw_data_next_bit ::
    "raw_data_block \<Rightarrow> raw_data_block_state \<Rightarrow> raw_data_block_state option" where
  "libspectrum_tape_raw_data_next_bit block state =
     (if rds_bytes_through_block state = rd_length block
      then Some (state\<lparr>rds_state := STATE_PAUSE\<rparr>)
      else do {
        (len, state) \<leftarrow> raw_data_run block 0 (state\<lparr>rds_state := STATE_DATA1\<rparr>);
        Some (state\<lparr>rds_bit_tstates := len * rd_bit_length block,
                    rds_last_bit := rds_last_bit state XOR 0x80\<rparr>) })"

definition raw_data_edge ::
    "raw_data_block \<Rightarrow> raw_data_block_state \<Rightarrow> edge_io \<Rightarrow> raw_data_block_state edge_result" where
  "raw_data_edge block state io =
     (case rds_state state of
        STATE_DATA1 \<Rightarrow> do {
          let io = io\<lparr>tstates := rds_bit_tstates state\<rparr>;
          state \<leftarrow> libspectrum_tape_raw_data_next_bit block state;
          Some (ERROR_NONE, state,
            set_flag (if rds_last_bit state \<noteq> 0 then FLAGS_LEVEL_LOW else FLAGS_LEVEL_HIGH) io) }
      | STATE_PAUSE \<Rightarrow>
          Some (ERROR_NONE, state, do_tail_pause (io\<lparr>tstates := rd_pause_tstates block\<rparr>))
      | _ \<Rightarrow> Some (ERROR_LOGIC, state, io))"

section \<open>Generalised data blocks\<close>

definition get_generalised_data_bit ::
    "generalised_data_block \<Rightarrow> generalised_data_block_state \<Rightarrow> (byte \<times> generalised_data_block_state) option" where
  "get_generalised_data_bit block state =
     (let r = (if gs_current_byte state AND 0x80 \<noteq> 0 then 1 else 0);
          state = state\<lparr>gs_current_byte := push_bit 1 (gs_current_byte state)\<rparr>;
          state = state\<lparr>gs_bits_through_byte := gs_bits_through_byte state + 1\<rparr>
      in if gs_bits_through_byte state = 8 then
           (let state = state\<lparr>gs_bits_through_byte := 0,
                              bytes_through_stream := bytes_through_stream state + 1\<rparr>
            in do {
              b \<leftarrow> aget (gd_data block) (bytes_through_stream state);
              Some (r, state\<lparr>gs_current_byte := b\<rparr>) })
         else Some (r, state))"

primrec generalised_data_symbol_bits ::
    "generalised_data_block \<Rightarrow> nat \<Rightarrow> byte \<Rightarrow> generalised_data_block_state
       \<Rightarrow> (byte \<times> generalised_data_block_state) option" where
  "generalised_data_symbol_bits block 0 symbol state = Some (symbol, state)"
| "generalised_data_symbol_bits block (Suc n) symbol state = do {
     (r, state) \<leftarrow> get_generalised_data_bit block state;
     generalised_data_symbol_bits block n (push_bit 1 symbol OR r) state }"

definition get_generalised_data_symbol ::
    "generalised_data_block \<Rightarrow> generalised_data_block_state \<Rightarrow> (byte \<times> generalised_data_block_state) option" where
  "get_generalised_data_symbol block state =
     generalised_data_symbol_bits block (unat (bits_per_data_symbol block)) 0 state"

text \<open>The symbol types \<open>EDGE\<close>, \<open>NO_EDGE\<close>, \<open>LOW\<close> and \<open>HIGH\<close> are 0 to 3.\<close>

definition set_tstates_and_flags :: "generalised_data_symbol \<Rightarrow> byte \<Rightarrow> edge_io \<Rightarrow> edge_io option" where
  "set_tstates_and_flags symbol edge io = do {
     t \<leftarrow> aget (sym_lengths symbol) edge;
     let io = io\<lparr>tstates := ucast t\<rparr>;
     Some (if edge = 0 then
             (if edge_type symbol = 1 then set_flag FLAGS_NO_EDGE io
              else if edge_type symbol = 2 then set_flag FLAGS_LEVEL_LOW io
              else if edge_type symbol = 3 then set_flag FLAGS_LEVEL_HIGH io
              else io)
           else io) }"

text \<open>Has the symbol ended after its last edge?\<close>

definition symbol_done :: "symbol_table \<Rightarrow> generalised_data_symbol \<Rightarrow> byte \<Rightarrow> bool option" where
  "symbol_done table symbol edges =
     (if edges = max_pulses table then Some True
      else map_option (\<lambda>l. l = 0) (aget (sym_lengths symbol) edges))"

definition generalised_next_symbol ::
    "generalised_data_block \<Rightarrow> generalised_data_block_state \<Rightarrow> generalised_data_block_state option" where
  "generalised_next_symbol block state = do {
     (symbol, state) \<leftarrow> get_generalised_data_symbol block state;
     Some (state\<lparr>current_symbol := symbol\<rparr>) }"

text \<open>The pilot: the end of a symbol, of its repeats and of the whole pilot.\<close>

definition generalised_pilot_advance ::
    "generalised_data_block \<Rightarrow> generalised_data_block_state \<Rightarrow> generalised_data_block_state option" where
  "generalised_pilot_advance block state = do {
     let state = state\<lparr>edges_through_symbol := 0, symbols_through_run := symbols_through_run state + 1\<rparr>;
     repeats \<leftarrow> aget (pilot_repeats block) (gs_run state);
     (if symbols_through_run state = repeats then
        (let state = state\<lparr>symbols_through_run := 0, gs_run := gs_run state + 1\<rparr>
         in if gs_run state = symbols_in_block (pilot_table block) then do {
              let state = state\<lparr>gs_state := STATE_DATA1, gs_bits_through_byte := 0,
                                bytes_through_stream := 0, symbols_through_stream := 0\<rparr>;
              b \<leftarrow> nget (gd_data block) 0;
              generalised_next_symbol block (state\<lparr>gs_current_byte := b\<rparr>) }
            else Some state)
      else Some state) }"

definition generalised_data_advance ::
    "generalised_data_block \<Rightarrow> generalised_data_block_state \<Rightarrow> generalised_data_block_state option" where
  "generalised_data_advance block state =
     (let state = state\<lparr>symbols_through_stream := symbols_through_stream state + 1\<rparr>
      in if symbols_through_stream state = ucast (symbols_in_block (data_table block))
         then Some (state\<lparr>gs_state := STATE_PAUSE\<rparr>)
         else generalised_next_symbol block (state\<lparr>edges_through_symbol := 0\<rparr>))"

definition generalised_data_edge ::
    "generalised_data_block \<Rightarrow> generalised_data_block_state \<Rightarrow> edge_io
       \<Rightarrow> generalised_data_block_state edge_result" where
  "generalised_data_edge block state io =
     (case gs_state state of
        STATE_PILOT \<Rightarrow> do {
          let table = pilot_table block;
          symbol_number \<leftarrow> aget (pilot_symbols block) (gs_run state);
          symbol \<leftarrow> aget (symbols table) symbol_number;
          io \<leftarrow> set_tstates_and_flags symbol (edges_through_symbol state) io;
          let state = state\<lparr>edges_through_symbol := edges_through_symbol state + 1\<rparr>;
          finished \<leftarrow> symbol_done table symbol (edges_through_symbol state);
          state \<leftarrow> (if finished then generalised_pilot_advance block state else Some state);
          Some (ERROR_NONE, state, io) }
      | STATE_DATA1 \<Rightarrow> do {
          let table = data_table block;
          symbol \<leftarrow> aget (symbols table) (current_symbol state);
          io \<leftarrow> set_tstates_and_flags symbol (edges_through_symbol state) io;
          let state = state\<lparr>edges_through_symbol := edges_through_symbol state + 1\<rparr>;
          finished \<leftarrow> symbol_done table symbol (edges_through_symbol state);
          state \<leftarrow> (if finished then generalised_data_advance block state else Some state);
          Some (ERROR_NONE, state, io) }
      | STATE_PAUSE \<Rightarrow>
          Some (ERROR_NONE, state, do_tail_pause (io\<lparr>tstates := gd_pause_tstates block\<rparr>))
      | _ \<Rightarrow> Some (ERROR_LOGIC, state, io))"

section \<open>Run-length encoded pulses\<close>

text \<open>\<open>scale\<close> is a \<open>long\<close>; the product is cut to a \<open>libspectrum_dword\<close>.\<close>

definition rle_pulse_edge ::
    "rle_pulse_block \<Rightarrow> rle_pulse_block_state \<Rightarrow> edge_io \<Rightarrow> rle_pulse_block_state edge_result" where
  "rle_pulse_edge block state io = do {
     let index = rle_index state;
     b \<leftarrow> aget (rle_data block) index;
     (if b \<noteq> 0 then
        (let io = io\<lparr>tstates := word_of_int (rle_scale block) * ucast b\<rparr>;
             state = state\<lparr>rle_index := index + 1\<rparr>
         in Some (ERROR_NONE, state,
              if rle_index state = rle_length block then io\<lparr>end_of_block := True\<rparr> else io))
      else if index + 5 > rle_length block then Some (ERROR_LOGIC, state, io)
      else do {
        b1 \<leftarrow> aget (rle_data block) (index + 1);
        b2 \<leftarrow> aget (rle_data block) (index + 2);
        b3 \<leftarrow> aget (rle_data block) (index + 3);
        b4 \<leftarrow> aget (rle_data block) (index + 4);
        let t = word_of_int (rle_scale block) *
                  (ucast b1 OR push_bit 8 (ucast b2) OR push_bit 16 (ucast b3) OR push_bit 24 (ucast b4));
        let io = io\<lparr>tstates := t\<rparr>;
        let state = state\<lparr>rle_index := index + 5\<rparr>;
        Some (ERROR_NONE, state,
          if rle_index state = rle_length block then io\<lparr>end_of_block := True\<rparr> else io) }) }"

section \<open>Pulse sequences\<close>

text \<open>\<open>!level\<close> on an \<open>int\<close>.\<close>

definition lnot :: "int \<Rightarrow> int" where
  "lnot x = (if x = 0 then 1 else 0)"

definition pulse_sequence_next ::
    "pulse_sequence_block \<Rightarrow> pulse_sequence_block_state \<Rightarrow> edge_io
       \<Rightarrow> (pulse_sequence_block_state \<times> edge_io) option" where
  "pulse_sequence_next block state io = do {
     t \<leftarrow> aget (ps_lengths block) (pss_index state);
     let io = io\<lparr>tstates := t\<rparr>;
     let state = state\<lparr>pss_pulse_count := pss_pulse_count state + 1\<rparr>;
     repeats \<leftarrow> aget (ps_pulse_repeats block) (pss_index state);
     Some (if pss_pulse_count state = repeats then
             (let state = state\<lparr>pss_index := pss_index state + 1\<rparr>
              in if pss_index state \<ge> ps_count block
                 then (state, io\<lparr>end_of_block := True\<rparr>)
                 else (state\<lparr>pss_pulse_count := 0\<rparr>, io))
           else (state, io)) }"

partial_function (option) pulse_sequence_skip ::
    "pulse_sequence_block \<Rightarrow> int \<Rightarrow> pulse_sequence_block_state \<Rightarrow> edge_io
       \<Rightarrow> (int \<times> pulse_sequence_block_state \<times> edge_io) option" where
  "pulse_sequence_skip block new_level state io =
     (if \<not> (tstates io \<noteq> 0 \<or> end_of_block io) then do {
        (state, io) \<leftarrow> pulse_sequence_next block state io;
        pulse_sequence_skip block (lnot new_level) state io }
      else Some (new_level, state, io))"

definition pulse_sequence_edge ::
    "pulse_sequence_block \<Rightarrow> pulse_sequence_block_state \<Rightarrow> edge_io
       \<Rightarrow> pulse_sequence_block_state edge_result" where
  "pulse_sequence_edge block state io = do {
     (new_level, state, io) \<leftarrow>
       pulse_sequence_skip block (pss_level state) state (io\<lparr>tstates := 0\<rparr>);
     Some (if new_level \<noteq> pss_level state then
             (ERROR_NONE, state\<lparr>pss_level := new_level\<rparr>,
              set_flag (if new_level \<noteq> 0 then FLAGS_LEVEL_HIGH else FLAGS_LEVEL_LOW) io)
           else if tstates io = 0 then (ERROR_NONE, state, set_flag FLAGS_NO_EDGE io)
           else (ERROR_NONE, state, io)) }"

section \<open>PZX data blocks\<close>

definition data_block_shift_bit :: "data_block \<Rightarrow> data_block_state \<Rightarrow> data_block_state" where
  "data_block_shift_bit block state =
     (let next_bit = dbs_current_byte state AND 0x80;
          state = state\<lparr>dbs_current_byte := push_bit 1 (dbs_current_byte state)\<rparr>
      in state\<lparr>
           dbs_bit_pulses := (if next_bit \<noteq> 0 then db_bit1_pulses block else db_bit0_pulses block),
           dbs_pulse_count := (if next_bit \<noteq> 0 then db_bit1_pulse_count block else db_bit0_pulse_count block),
           dbs_bit_flags := (if next_bit \<noteq> 0 then dbs_bit1_flags state else dbs_bit0_flags state),
           dbs_index := 0, dbs_state := STATE_DATA1\<rparr>)"

definition libspectrum_tape_data_block_next_bit ::
    "data_block \<Rightarrow> data_block_state \<Rightarrow> data_block_state c_result" where
  "libspectrum_tape_data_block_next_bit block state =
     (let state = state\<lparr>dbs_bits_through_byte := dbs_bits_through_byte state + 1\<rparr>
      in if dbs_bits_through_byte state = 8 then
           (let state = state\<lparr>dbs_bytes_through_block := dbs_bytes_through_block state + 1\<rparr>
            in if dbs_bytes_through_block state = db_length block
               then Some (ERROR_NONE, state\<lparr>dbs_state := STATE_TAIL\<rparr>)
               else do {
                 b \<leftarrow> aget (db_data block) (dbs_bytes_through_block state);
                 let bits = (if dbs_bytes_through_block state = db_length block - 1
                             then 8 - db_bits_in_last_byte block else 0);
                 Some (ERROR_NONE, data_block_shift_bit block
                   (state\<lparr>dbs_current_byte := b, dbs_bits_through_byte := bits\<rparr>)) })
         else Some (ERROR_NONE, data_block_shift_bit block state))"

text \<open>The level handling after the switch.\<close>

definition data_block_level :: "data_block_state edge_result \<Rightarrow> data_block_state edge_result" where
  "data_block_level r = map_option (\<lambda>(e, state, io).
     if e \<noteq> ERROR_NONE then (e, state, io)
     else if flags io AND FLAGS_NO_EDGE = 0 then
       (e, state\<lparr>dbs_level := lnot (dbs_level state)\<rparr>,
        set_flag (if dbs_level state \<noteq> 0 then FLAGS_LEVEL_HIGH else FLAGS_LEVEL_LOW) io)
     else (e, state, io)) r"

definition data_block_edge ::
    "data_block \<Rightarrow> data_block_state \<Rightarrow> edge_io \<Rightarrow> data_block_state edge_result" where
  "data_block_edge block state io =
     data_block_level
       (case dbs_state state of
          STATE_DATA1 \<Rightarrow> do {
            t \<leftarrow> aget (dbs_bit_pulses state) (dbs_index state);
            let io = set_flag (dbs_bit_flags state) (io\<lparr>tstates := ucast t\<rparr>);
            let state = state\<lparr>dbs_index := dbs_index state + 1\<rparr>;
            (if dbs_index state = dbs_pulse_count state
             then edge_after (libspectrum_tape_data_block_next_bit block state) io
             else Some (ERROR_NONE, state, io)) }
        | STATE_TAIL \<Rightarrow>
            Some (ERROR_NONE, state, do_tail_pause (io\<lparr>tstates := db_tail_length block\<rparr>))
        | _ \<Rightarrow> Some (ERROR_LOGIC, state, io))"

section \<open>The generator of a block\<close>

text \<open>
  The cases of the switch of \<open>libspectrum_tape_get_next_edge_internal\<close> that call a
  generator on the member of the block state that belongs to the block type.
\<close>

definition put_edge :: "('a \<Rightarrow> block_states \<Rightarrow> block_states) \<Rightarrow> 'a edge_result \<Rightarrow> block_states
    \<Rightarrow> block_states edge_result" where
  "put_edge put r sts = map_option (\<lambda>(e, s, io). (e, put s sts, io)) r"

fun signal_edge :: "libspectrum_tape_block \<Rightarrow> block_states \<Rightarrow> edge_io \<Rightarrow> block_states edge_result" where
  "signal_edge (ROM b) sts io =
     put_edge (\<lambda>s. st_rom_update (\<lambda>_. s)) (rom_edge b (st_rom sts) io) sts"
| "signal_edge (TURBO b) sts io =
     put_edge (\<lambda>s. st_turbo_update (\<lambda>_. s)) (turbo_edge b (st_turbo sts) io) sts"
| "signal_edge (PURE_TONE b) sts io =
     put_edge (\<lambda>s. st_pure_tone_update (\<lambda>_. s)) (tone_edge b (st_pure_tone sts) io) sts"
| "signal_edge (PULSES b) sts io =
     put_edge (\<lambda>s. st_pulses_update (\<lambda>_. s)) (pulses_edge b (st_pulses sts) io) sts"
| "signal_edge (PURE_DATA b) sts io =
     put_edge (\<lambda>s. st_pure_data_update (\<lambda>_. s)) (pure_data_edge b (st_pure_data sts) io) sts"
| "signal_edge (RAW_DATA b) sts io =
     put_edge (\<lambda>s. st_raw_data_update (\<lambda>_. s)) (raw_data_edge b (st_raw_data sts) io) sts"
| "signal_edge (GENERALISED_DATA b) sts io =
     put_edge (\<lambda>s. st_generalised_data_update (\<lambda>_. s))
       (generalised_data_edge b (st_generalised_data sts) io) sts"
| "signal_edge (RLE_PULSE b) sts io =
     put_edge (\<lambda>s. st_rle_pulse_update (\<lambda>_. s)) (rle_pulse_edge b (st_rle_pulse sts) io) sts"
| "signal_edge (PULSE_SEQUENCE b) sts io =
     put_edge (\<lambda>s. st_pulse_sequence_update (\<lambda>_. s))
       (pulse_sequence_edge b (st_pulse_sequence sts) io) sts"
| "signal_edge (DATA_BLOCK b) sts io =
     put_edge (\<lambda>s. st_data_block_update (\<lambda>_. s)) (data_block_edge b (st_data_block sts) io) sts"
| "signal_edge _ sts io = Some (ERROR_LOGIC, sts, io)"

end
