(* ===== verification/Tape_Init.thy ===== *)
theory Tape_Init
  imports Tape_Edge
begin

text \<open>
  The rest of \<open>tape_block.c\<close>: the state a block starts to play with, the total length of
  a block, and the symbol tables of generalised data blocks (with \<open>symbol_table.c\<close>).

  The table \<open>bits_set\<close> is filled by \<open>libspectrum_init_bits_set\<close> when the library starts;
  the length functions read it after that, so it is a constant here.
\<close>

section \<open>Starting a block\<close>

abbreviation TAPE_PILOTS_HEADER :: size_t where "TAPE_PILOTS_HEADER \<equiv> 0x1f7f"
abbreviation TAPE_PILOTS_DATA :: size_t where "TAPE_PILOTS_DATA \<equiv> 0x0c97"

text \<open>\<open>block->length && block->data[0] & 0x80 ? ... : ...\<close>\<close>

definition rom_pilots :: "rom_block \<Rightarrow> size_t option" where
  "rom_pilots block =
     (if rom_length block \<noteq> 0 then do {
        b \<leftarrow> nget (rom_data block) 0;
        Some (if b AND 0x80 \<noteq> 0 then TAPE_PILOTS_DATA else TAPE_PILOTS_HEADER) }
      else Some TAPE_PILOTS_HEADER)"

definition rom_init :: "rom_block \<Rightarrow> rom_block_state \<Rightarrow> rom_block_state c_result" where
  "rom_init block state = do {
     count \<leftarrow> rom_pilots block;
     Some (ERROR_NONE, state\<lparr>rs_edge_count := count, rs_bytes_through_block := -1,
                             rs_bits_through_byte := 7, rs_state := STATE_PILOT\<rparr>) }"

definition turbo_init :: "turbo_block \<Rightarrow> turbo_block_state \<Rightarrow> turbo_block_state c_result" where
  "turbo_init block state =
     Some (ERROR_NONE, state\<lparr>tbs_edge_count := turbo_pilot_pulses block,
       tbs_bytes_through_block := -1, tbs_bits_through_byte := 7, tbs_state := STATE_PILOT\<rparr>)"

definition pure_data_init :: "pure_data_block \<Rightarrow> pure_data_block_state \<Rightarrow> pure_data_block_state c_result" where
  "pure_data_init block state =
     libspectrum_tape_pure_data_next_bit block
       (state\<lparr>pds_bytes_through_block := -1, pds_bits_through_byte := 7\<rparr>)"

definition raw_data_init :: "raw_data_block \<Rightarrow> raw_data_block_state \<Rightarrow> raw_data_block_state option" where
  "raw_data_init block state =
     (case rd_data block of
        Some data \<Rightarrow> do {
          b \<leftarrow> nget data 0;
          libspectrum_tape_raw_data_next_bit block
            (state\<lparr>rds_state := STATE_DATA1, rds_bytes_through_block := -1,
                   rds_bits_through_byte := 7, rds_last_bit := 0x80 AND b\<rparr>) }
      | None \<Rightarrow> Some (state\<lparr>rds_state := STATE_PAUSE\<rparr>))"

definition generalised_data_init ::
    "generalised_data_block \<Rightarrow> generalised_data_block_state \<Rightarrow> generalised_data_block_state c_result" where
  "generalised_data_init block state =
     (let state = state\<lparr>gs_run := 0, symbols_through_run := 0, edges_through_symbol := 0,
                        current_symbol := 0, symbols_through_stream := 0, gs_current_byte := 0,
                        gs_bits_through_byte := 0, bytes_through_stream := 0\<rparr>
      in if symbols_in_block (pilot_table block) \<noteq> 0
         then Some (ERROR_NONE, state\<lparr>gs_state := STATE_PILOT\<rparr>)
         else if symbols_in_block (data_table block) \<noteq> 0 then do {
           b \<leftarrow> nget (gd_data block) 0;
           state \<leftarrow> generalised_next_symbol block
             (state\<lparr>gs_state := STATE_DATA1, gs_current_byte := b\<rparr>);
           Some (ERROR_NONE, state) }
         else Some (ERROR_NONE, state\<lparr>gs_state := STATE_PAUSE\<rparr>))"

text \<open>
  The flags of the two bit values of a PZX block; the tests are evaluated left to right, so
  the pulses are only read when both counts are two.
\<close>

definition data_block_bit_flags :: "data_block \<Rightarrow> (dword \<times> dword) option" where
  "data_block_bit_flags block =
     (if db_bit0_pulse_count block = 2 \<and> db_bit1_pulse_count block = 2 then do {
        a0 \<leftarrow> nget (db_bit0_pulses block) 0;
        a1 \<leftarrow> nget (db_bit0_pulses block) 1;
        (if a0 \<noteq> a1 then Some (0, 0) else do {
           b0 \<leftarrow> nget (db_bit1_pulses block) 0;
           b1 \<leftarrow> nget (db_bit1_pulses block) 1;
           Some (if b0 = b1 \<and> a0 > 0 \<and> b0 > 0 then
                   (if a0 < b0 then (FLAGS_LENGTH_SHORT, FLAGS_LENGTH_LONG)
                    else if a0 > b0 then (FLAGS_LENGTH_LONG, FLAGS_LENGTH_SHORT)
                    else (0, 0))
                 else (0, 0)) }) }
      else Some (0, 0))"

definition data_block_init :: "data_block \<Rightarrow> data_block_state \<Rightarrow> data_block_state c_result" where
  "data_block_init block state = do {
     (flags0, flags1) \<leftarrow> data_block_bit_flags block;
     let state = state\<lparr>dbs_bit0_flags := flags0, dbs_bit1_flags := flags1\<rparr>;
     let state = (if db_initial_level block \<noteq> -1
                  then state\<lparr>dbs_level := db_initial_level block\<rparr> else state);
     libspectrum_tape_data_block_next_bit block
       (state\<lparr>dbs_bytes_through_block := -1, dbs_bits_through_byte := 7\<rparr>) }"

text \<open>The result of an initialiser put back into the states of the iterator.\<close>

definition put_state :: "('a \<Rightarrow> block_states \<Rightarrow> block_states) \<Rightarrow> 'a c_result \<Rightarrow> block_states
    \<Rightarrow> block_states c_result" where
  "put_state put r sts = map_option (\<lambda>(e, s). (e, put s sts)) r"

fun libspectrum_tape_block_init ::
    "libspectrum_tape_block option \<Rightarrow> block_states \<Rightarrow> block_states c_result" where
  "libspectrum_tape_block_init None sts = Some (ERROR_NONE, sts)"
| "libspectrum_tape_block_init (Some (ROM b)) sts =
     put_state (\<lambda>s. st_rom_update (\<lambda>_. s)) (rom_init b (st_rom sts)) sts"
| "libspectrum_tape_block_init (Some (TURBO b)) sts =
     put_state (\<lambda>s. st_turbo_update (\<lambda>_. s)) (turbo_init b (st_turbo sts)) sts"
| "libspectrum_tape_block_init (Some (PURE_TONE b)) sts =
     Some (ERROR_NONE, sts\<lparr>st_pure_tone := (st_pure_tone sts)\<lparr>tone_edge_count := tone_pulses b\<rparr>\<rparr>)"
| "libspectrum_tape_block_init (Some (PULSES b)) sts =
     Some (ERROR_NONE, sts\<lparr>st_pulses := (st_pulses sts)\<lparr>pulses_edge_count := 0\<rparr>\<rparr>)"
| "libspectrum_tape_block_init (Some (PURE_DATA b)) sts =
     put_state (\<lambda>s. st_pure_data_update (\<lambda>_. s)) (pure_data_init b (st_pure_data sts)) sts"
| "libspectrum_tape_block_init (Some (RAW_DATA b)) sts =
     put_state (\<lambda>s. st_raw_data_update (\<lambda>_. s))
       (map_option (Pair ERROR_NONE) (raw_data_init b (st_raw_data sts))) sts"
| "libspectrum_tape_block_init (Some (GENERALISED_DATA b)) sts =
     put_state (\<lambda>s. st_generalised_data_update (\<lambda>_. s))
       (generalised_data_init b (st_generalised_data sts)) sts"
| "libspectrum_tape_block_init (Some (RLE_PULSE b)) sts =
     Some (ERROR_NONE, sts\<lparr>st_rle_pulse := (st_rle_pulse sts)\<lparr>rle_index := 0\<rparr>\<rparr>)"
| "libspectrum_tape_block_init (Some (PULSE_SEQUENCE b)) sts =
     Some (ERROR_NONE, sts\<lparr>st_pulse_sequence := (st_pulse_sequence sts)
       \<lparr>pss_index := 0, pss_pulse_count := 0, pss_level := -1\<rparr>\<rparr>)"
| "libspectrum_tape_block_init (Some (DATA_BLOCK b)) sts =
     put_state (\<lambda>s. st_data_block_update (\<lambda>_. s)) (data_block_init b (st_data_block sts)) sts"
| "libspectrum_tape_block_init (Some CONCAT) sts = Some (ERROR_LOGIC, sts)"
| "libspectrum_tape_block_init (Some _) sts = Some (ERROR_NONE, sts)"

section \<open>Block lengths\<close>

primrec count_top_bits :: "nat \<Rightarrow> byte \<Rightarrow> int \<Rightarrow> int" where
  "count_top_bits 0 b retval = retval"
| "count_top_bits (Suc n) b retval =
     count_top_bits n (push_bit 1 b) (if b AND 0x80 \<noteq> 0 then retval + 1 else retval)"

definition libspectrum_bits_set_n_bits :: "byte \<Rightarrow> byte \<Rightarrow> int" where
  "libspectrum_bits_set_n_bits b bits =
     (let bits = (if bits > 8 then 8 else bits) in count_top_bits (unat bits) b 0)"

text \<open>The array that \<open>libspectrum_init_bits_set\<close> fills.\<close>

definition bits_set :: "int list" where
  "bits_set = map (\<lambda>i. libspectrum_bits_set_n_bits (word_of_nat i) 8) [0..<256]"

definition convert_pulses_to_tstates :: "dword \<Rightarrow> dword \<Rightarrow> int \<Rightarrow> int \<Rightarrow> dword" where
  "convert_pulses_to_tstates set_bit_length unset_bit_length bits_set_in_block bit_block_size =
     (2 * set_bit_length) * word_of_int bits_set_in_block +
     (2 * unset_bit_length) * word_of_int (bit_block_size - bits_set_in_block)"

text \<open>\<open>for( i = start; i < start + n; i++ ) length += f(i);\<close> with checked reads in \<open>f\<close>\<close>

fun sum_loop :: "(nat \<Rightarrow> dword option) \<Rightarrow> nat \<Rightarrow> nat \<Rightarrow> dword \<Rightarrow> dword option" where
  "sum_loop f i 0 len = Some len"
| "sum_loop f i (Suc n) len = do { t \<leftarrow> f i; sum_loop f (i + 1) n (len + t) }"

definition byte_tstates :: "dword \<Rightarrow> dword \<Rightarrow> byte list \<Rightarrow> nat \<Rightarrow> dword option" where
  "byte_tstates bit1 bit0 data i = do {
     b \<leftarrow> nget data i;
     Some (convert_pulses_to_tstates bit1 bit0 (bits_set ! unat b) 8) }"

definition rom_block_length :: "rom_block \<Rightarrow> dword option" where
  "rom_block_length rom = do {
     edge_count \<leftarrow> rom_pilots rom;
     let len = rom_pause_tstates rom;
     let len = len + ucast (ucast TIMING_PILOT * edge_count);
     let len = len + TIMING_SYNC1;
     let len = len + TIMING_SYNC2;
     sum_loop (byte_tstates TIMING_DATA1 TIMING_DATA0 (rom_data rom)) 0 (unat (rom_length rom)) len }"

text \<open>The data part that turbo, pure data and PZX blocks share: whole bytes, then the last.\<close>

definition data_bits_length ::
    "dword \<Rightarrow> dword \<Rightarrow> byte list \<Rightarrow> size_t \<Rightarrow> size_t \<Rightarrow> dword \<Rightarrow> dword option" where
  "data_bits_length bit1 bit0 data n bits_in_last_byte len = do {
     b \<leftarrow> aget data (n - 1);
     let bits_set_in_last_byte = libspectrum_bits_set_n_bits b (ucast bits_in_last_byte);
     len \<leftarrow> sum_loop (byte_tstates bit1 bit0 data) 0 (unat (n - 1)) len;
     Some (len + convert_pulses_to_tstates bit1 bit0 bits_set_in_last_byte
                   (sint (ucast bits_in_last_byte :: dword))) }"

definition turbo_block_length :: "turbo_block \<Rightarrow> dword option" where
  "turbo_block_length turbo =
     (let len = ucast (turbo_pilot_pulses turbo * ucast (turbo_pilot_length turbo)
                + ucast (turbo_sync1_length turbo) + ucast (turbo_sync2_length turbo)
                + ucast (turbo_pause_tstates turbo))
      in if turbo_length turbo \<noteq> 0
         then data_bits_length (turbo_bit1_length turbo) (turbo_bit0_length turbo) (turbo_data turbo)
                (turbo_length turbo) (turbo_bits_in_last_byte turbo) len
         else Some len)"

definition pulses_block_length :: "pulses_block \<Rightarrow> dword option" where
  "pulses_block_length pulses = sum_loop (nget (pulses_lengths pulses)) 0 (unat (pulses_count pulses)) 0"

definition pure_data_block_length :: "pure_data_block \<Rightarrow> dword option" where
  "pure_data_block_length pd =
     (if pd_length pd \<noteq> 0
      then data_bits_length (pd_bit1_length pd) (pd_bit0_length pd) (pd_data pd)
             (pd_length pd) (pd_bits_in_last_byte pd) (pd_pause_tstates pd)
      else Some (pd_pause_tstates pd))"

definition raw_data_block_length :: "raw_data_block \<Rightarrow> dword" where
  "raw_data_block_length raw =
     rd_pause_tstates raw +
     ucast ((8 * rd_length raw - (8 - rd_bits_in_last_byte raw)) * ucast (rd_bit_length raw))"

definition rle_pulse_block_length :: "rle_pulse_block \<Rightarrow> dword option" where
  "rle_pulse_block_length rle =
     sum_loop (\<lambda>i. do { b \<leftarrow> nget (rle_data rle) i; Some (ucast b * word_of_int (rle_scale rle)) })
       0 (unat (rle_length rle)) 0"

text \<open>
  The length of a generalised data block is found by playing it on a local state, whose
  members are all written by \<open>generalised_data_init\<close>. The flags are never cleared between
  edges, and an error gives \<open>-1\<close>.
\<close>

definition gs_blank :: generalised_data_block_state where
  "gs_blank = \<lparr>gs_state = STATE_INVALID, gs_run = 0, symbols_through_run = 0, edges_through_symbol = 0,
     current_symbol = 0, symbols_through_stream = 0, gs_current_byte = 0, gs_bits_through_byte = 0,
     bytes_through_stream = 0\<rparr>"

partial_function (option) generalised_length_loop ::
    "generalised_data_block \<Rightarrow> generalised_data_block_state \<Rightarrow> edge_io \<Rightarrow> dword \<Rightarrow> dword option" where
  "generalised_length_loop block state io len =
     (if end_of_block io then Some len
      else do {
        (e, state, io) \<leftarrow> generalised_data_edge block state io;
        (if e \<noteq> ERROR_NONE then Some (-1)
         else generalised_length_loop block state io (len + tstates io)) })"

definition generalised_data_block_length :: "generalised_data_block \<Rightarrow> dword option" where
  "generalised_data_block_length block = do {
     (e, state) \<leftarrow> generalised_data_init block gs_blank;
     (if e \<noteq> ERROR_NONE then Some (-1)
      else generalised_length_loop block state
             \<lparr>tstates = 0, end_of_block = False, flags = 0\<rparr> 0) }"

definition pulse_sequence_block_length :: "pulse_sequence_block \<Rightarrow> dword option" where
  "pulse_sequence_block_length ps =
     sum_loop (\<lambda>i. do {
         l \<leftarrow> nget (ps_lengths ps) i; r \<leftarrow> nget (ps_pulse_repeats ps) i;
         Some (ucast (ucast l * r)) })
       0 (unat (ps_count ps)) 0"

text \<open>The average length of the pulses of a bit of a PZX block, in \<open>size_t\<close> arithmetic.\<close>

fun word_sum_loop :: "lword list \<Rightarrow> nat \<Rightarrow> nat \<Rightarrow> size_t \<Rightarrow> size_t option" where
  "word_sum_loop ls i 0 len = Some len"
| "word_sum_loop ls i (Suc n) len = do { l \<leftarrow> nget ls i; word_sum_loop ls (i + 1) n (len + ucast l) }"

definition average_pulse :: "lword list \<Rightarrow> size_t \<Rightarrow> size_t option" where
  "average_pulse ls count = do {
     s \<leftarrow> word_sum_loop ls 0 (unat count) 0;
     Some (s div (if count \<noteq> 0 then count else 1)) }"

definition data_block_length :: "data_block \<Rightarrow> dword option" where
  "data_block_length db =
     (if db_count db \<noteq> 0 then do {
        bit0_length \<leftarrow> average_pulse (db_bit0_pulses db) (db_bit0_pulse_count db);
        bit1_length \<leftarrow> average_pulse (db_bit1_pulses db) (db_bit1_pulse_count db);
        data_bits_length (ucast bit1_length) (ucast bit0_length) (db_data db)
          (db_length db) (db_bits_in_last_byte db) 0 }
      else Some 0)"

fun libspectrum_tape_block_length :: "libspectrum_tape_block \<Rightarrow> dword option" where
  "libspectrum_tape_block_length (ROM b) = rom_block_length b"
| "libspectrum_tape_block_length (TURBO b) = turbo_block_length b"
| "libspectrum_tape_block_length (PURE_TONE b) =
     Some (ucast (tone_pulses b * ucast (tone_length b)))"
| "libspectrum_tape_block_length (PULSES b) = pulses_block_length b"
| "libspectrum_tape_block_length (PURE_DATA b) = pure_data_block_length b"
| "libspectrum_tape_block_length (PAUSE b) = Some (pause_length_tstates b)"
| "libspectrum_tape_block_length (RAW_DATA b) = Some (raw_data_block_length b)"
| "libspectrum_tape_block_length (RLE_PULSE b) = rle_pulse_block_length b"
| "libspectrum_tape_block_length (GENERALISED_DATA b) = generalised_data_block_length b"
| "libspectrum_tape_block_length (PULSE_SEQUENCE b) = pulse_sequence_block_length b"
| "libspectrum_tape_block_length (DATA_BLOCK b) = data_block_length b"
| "libspectrum_tape_block_length _ = Some 0"

section \<open>Symbol tables\<close>

text \<open>
  The parameters of a symbol table, read from the file buffer at \<open>p\<close>; the result is the
  table with its fields set and the new position.
\<close>

definition libspectrum_tape_block_read_symbol_table_parameters ::
    "generalised_data_block \<Rightarrow> bool \<Rightarrow> byte list \<Rightarrow> nat \<Rightarrow> (generalised_data_block \<times> nat) c_result" where
  "libspectrum_tape_block_read_symbol_table_parameters block pilot buf p = do {
     let table = (if pilot then pilot_table block else data_table block);
     (n, p) \<leftarrow> libspectrum_read_dword buf p;
     m \<leftarrow> nget buf p;
     t \<leftarrow> nget buf (p + 1);
     let table = table\<lparr>symbols_in_block := n, max_pulses := m, symbols_in_table := ucast t\<rparr>;
     let table = (if symbols_in_table table = 0 \<and> symbols_in_block table \<noteq> 0
                  then table\<lparr>symbols_in_table := 256\<rparr> else table);
     Some (ERROR_NONE,
       if pilot then block\<lparr>pilot_table := table\<rparr> else block\<lparr>data_table := table\<rparr>, p + 2) }"

fun read_pulse_lengths :: "byte list \<Rightarrow> nat \<Rightarrow> nat \<Rightarrow> (lword list \<times> nat) option" where
  "read_pulse_lengths buf p 0 = Some ([], p)"
| "read_pulse_lengths buf p (Suc n) = do {
     a \<leftarrow> nget buf p; b \<leftarrow> nget buf (p + 1);
     (ls, p) \<leftarrow> read_pulse_lengths buf (p + 2) n;
     Some ((ucast a + ucast b * 0x100) # ls, p) }"

fun read_symbols :: "nat \<Rightarrow> byte list \<Rightarrow> nat \<Rightarrow> nat \<Rightarrow> (generalised_data_symbol list \<times> nat) option" where
  "read_symbols pulses buf p 0 = Some ([], p)"
| "read_symbols pulses buf p (Suc n) = do {
     t \<leftarrow> nget buf p;
     (ls, p) \<leftarrow> read_pulse_lengths buf (p + 1) pulses;
     (ss, p) \<leftarrow> read_symbols pulses buf p n;
     Some (\<lparr>edge_type = t, sym_lengths = ls\<rparr> # ss, p) }"

definition libspectrum_tape_block_read_symbol_table ::
    "symbol_table \<Rightarrow> byte list \<Rightarrow> nat \<Rightarrow> nat \<Rightarrow> (symbol_table \<times> nat) c_result" where
  "libspectrum_tape_block_read_symbol_table table buf p len =
     (if symbols_in_block table \<noteq> 0 then
        (if len < (2 * unat (max_pulses table) + 1) * unat (symbols_in_table table)
         then Some (ERROR_CORRUPT, table, p)
         else do {
           (ss, p) \<leftarrow> read_symbols (unat (max_pulses table)) buf p (unat (symbols_in_table table));
           Some (ERROR_NONE, table\<lparr>symbols := ss\<rparr>, p) })
      else Some (ERROR_NONE, table, p))"

definition libspectrum_tape_generalised_data_symbol_table_symbol ::
    "symbol_table \<Rightarrow> nat \<Rightarrow> generalised_data_symbol option" where
  "libspectrum_tape_generalised_data_symbol_table_symbol table which = nget (symbols table) which"

definition libspectrum_tape_generalised_data_symbol_pulse ::
    "generalised_data_symbol \<Rightarrow> nat \<Rightarrow> lword option" where
  "libspectrum_tape_generalised_data_symbol_pulse symbol which = nget (sym_lengths symbol) which"

end
