(* ===== verification/Tape_Play.thy ===== *)
theory Tape_Play
  imports Tape_Init
begin

text \<open>
  What a playing block sends to the tape socket. \<open>play\<close> asks an edge generator for pulses
  until one ends the block, as the caller of \<open>libspectrum_tape_get_next_edge\<close> does within
  a block. The locale \<open>edge_source\<close> is the contract of an edge generator: it has a list of
  pulses to come, each call delivers the first and the last one ends the block. It is
  interpreted on the generators of the code.
\<close>

section \<open>Playing a block\<close>

abbreviation fresh_io :: edge_io where
  "fresh_io \<equiv> \<lparr>tstates = 0, end_of_block = False, flags = 0\<rparr>"

text \<open>The pulses up to the end of the block, if it comes within \<open>n\<close> edges and without error.\<close>

primrec play :: "('s \<Rightarrow> edge_io \<Rightarrow> 's edge_result) \<Rightarrow> nat \<Rightarrow> 's \<Rightarrow> (dword \<times> dword) list option" where
  "play edge 0 s = None"
| "play edge (Suc n) s =
     (case edge s fresh_io of
        None \<Rightarrow> None
      | Some (e, s', io) \<Rightarrow>
          if e \<noteq> ERROR_NONE then None
          else if end_of_block io then Some [(tstates io, flags io)]
          else map_option ((#) (tstates io, flags io)) (play edge n s'))"

definition started :: "'s c_result \<Rightarrow> ('s \<Rightarrow> (dword \<times> dword) list option) \<Rightarrow> (dword \<times> dword) list option" where
  "started init p = init \<bind> (\<lambda>(e, s). if e = ERROR_NONE then p s else None)"

definition deliver :: "dword \<times> dword \<Rightarrow> bool \<Rightarrow> edge_io \<Rightarrow> edge_io" where
  "deliver p final io =
     \<lparr>tstates = fst p, end_of_block = (end_of_block io \<or> final), flags = flags io OR snd p\<rparr>"

locale edge_source =
  fixes edge :: "'s \<Rightarrow> edge_io \<Rightarrow> 's edge_result"
    and ready :: "'s \<Rightarrow> bool"
    and pulses :: "'s \<Rightarrow> (dword \<times> dword) list"
  assumes some_pulse: "ready s \<Longrightarrow> pulses s \<noteq> []"
    and last_edge: "ready s \<Longrightarrow> pulses s = [p] \<Longrightarrow>
      \<exists>s'. edge s io = Some (ERROR_NONE, s', deliver p True io)"
    and next_edge: "ready s \<Longrightarrow> pulses s = p # rest \<Longrightarrow> rest \<noteq> [] \<Longrightarrow>
      \<exists>s'. edge s io = Some (ERROR_NONE, s', deliver p False io) \<and> ready s' \<and> pulses s' = rest"
begin

lemma play_pulses: "ready s \<Longrightarrow> length (pulses s) \<le> n \<Longrightarrow> play edge n s = Some (pulses s)"
proof (induction n arbitrary: s)
  case 0
  then show ?case using some_pulse by force
next
  case (Suc n)
  then obtain p rest where p: "pulses s = p # rest" using some_pulse by (meson neq_Nil_conv)
  show ?case
  proof (cases "rest = []")
    case True
    then show ?thesis using p last_edge [OF Suc.prems(1), of p fresh_io] by (auto simp: deliver_def)
  next
    case False
    then obtain s' where "edge s fresh_io = Some (ERROR_NONE, s', deliver p False fresh_io)"
      "ready s'" "pulses s' = rest"
      using next_edge [OF Suc.prems(1) p] by blast
    then show ?thesis using Suc p by (auto simp: deliver_def)
  qed
qed

lemma started_pulses:
  "init = Some (ERROR_NONE, s) \<Longrightarrow> ready s \<Longrightarrow> pulses s = ps \<Longrightarrow> length ps \<le> n \<Longrightarrow>
     started init (play edge n) = Some ps"
  by (simp add: started_def play_pulses)

end

text \<open>Playing a block through the states of the iterator is playing it on its own state.\<close>

lemma play_member:
  assumes "\<And>s io. edge' s io = put_edge put (edge (get s) io) s" "\<And>x s. get (put x s) = x"
  shows "play edge' n s = play edge n (get s)"
  by (induction n arbitrary: s)
    (auto simp: assms put_edge_def split: option.splits)

section \<open>The bits of a data block\<close>

text \<open>All the bits of a block whose last byte has \<open>n\<close> used bits.\<close>

fun data_bits :: "nat \<Rightarrow> byte list \<Rightarrow> bool list" where
  "data_bits n [] = []"
| "data_bits n [b] = top_bits n b"
| "data_bits n (b # c # bs) = top_bits 8 b @ data_bits n (c # bs)"

lemma data_bits_Cons: "data_bits n (b # bs) = top_bits (if bs = [] then n else 8) b @ data_bits n bs"
  by (cases bs) auto

text \<open>
  The position in a data block: bytes, bits, the current byte. \<open>advance\<close> is what the
  \<open>next_bit\<close> functions have in common: the next position and the bit found, if any is left.
\<close>

type_synonym cursor = "size_t \<times> size_t \<times> byte"

definition advance :: "byte list \<Rightarrow> size_t \<Rightarrow> size_t \<Rightarrow> cursor \<Rightarrow> (cursor \<times> bool option) option" where
  "advance data len used = (\<lambda>(bytes, bits, cur).
     (let bits = bits + 1
      in if bits = 8 then
           (let bytes = bytes + 1
            in if bytes = len then Some ((bytes, bits, cur), None)
               else do {
                 b \<leftarrow> aget data bytes;
                 Some ((bytes, if bytes = len - 1 then 8 - used else 0, push_bit 1 b), Some (msb8 b)) })
         else Some ((bytes, bits, push_bit 1 cur), Some (msb8 cur))))"

definition cursor_ok :: "byte list \<Rightarrow> size_t \<Rightarrow> size_t \<Rightarrow> cursor \<Rightarrow> bool" where
  "cursor_ok data len used = (\<lambda>(bytes, bits, cur).
     unat len = length data \<and> unat bits \<le> 7 \<and> unat (bytes + 1) \<le> length data \<and>
     (data \<noteq> [] \<longrightarrow> 1 \<le> unat used \<and> unat used \<le> 8))"

text \<open>The bits that are still to come at a position.\<close>

definition pending :: "byte list \<Rightarrow> size_t \<Rightarrow> cursor \<Rightarrow> bool list" where
  "pending data used = (\<lambda>(bytes, bits, cur).
     top_bits (7 - unat bits) cur @ data_bits (unat used) (drop (unat (bytes + 1)) data))"

lemma unat_plus_1: "unat w + 1 < 2 ^ LENGTH('a) \<Longrightarrow> unat (w + 1) = unat w + 1" for w :: "'a::len word"
  by (simp add: unat_word_ariths)

lemma advance_pops:
  assumes ok: "cursor_ok data len used c"
  shows "case pending data used c of
      [] \<Rightarrow> \<exists>c'. advance data len used c = Some (c', None)
    | b # bs \<Rightarrow> \<exists>c'. advance data len used c = Some (c', Some b) \<and>
        cursor_ok data len used c' \<and> pending data used c' = bs"
proof -
  obtain bytes bits cur where c: "c = (bytes, bits, cur)" by (cases c)
  have len: "unat len = length data" and bits: "unat bits \<le> 7"
    and bytes: "unat (bytes + 1) \<le> length data"
    and used: "data \<noteq> [] \<Longrightarrow> 1 \<le> unat used \<and> unat used \<le> 8"
    using ok by (auto simp: cursor_ok_def c)
  have bits': "unat (bits + 1) = unat bits + 1"
    using bits by (intro unat_plus_1) simp
  have eq8: "bits + 1 = 8 \<longleftrightarrow> unat bits = 7"
    using bits' word_unat_eq_iff [of "bits + 1" 8] by simp
  show ?thesis
  proof (cases "unat bits = 7")
    case False
    then have less: "0 < 7 - unat bits" using bits by simp
    then have sub: "7 - unat bits - 1 = 7 - unat (bits + 1)" using bits' by simp
    have "pending data used c = msb8 cur # pending data used (bytes, bits + 1, push_bit 1 cur)"
      unfolding pending_def c by (simp only: split_conv top_bits_pos [OF less] sub append_Cons)
    then show ?thesis using False len bits bytes used bits' eq8
      by (simp add: advance_def c cursor_ok_def)
  next
    case True
    let ?k = "unat (bytes + 1)"
    show ?thesis
    proof (cases "bytes + 1 = len")
      case True
      then show ?thesis using \<open>unat bits = 7\<close> eq8 len
        by (simp add: pending_def advance_def c)
    next
      case False
      then have k: "?k < length data" using bytes len word_unat_eq_iff [of "bytes + 1" len] by simp
      then have drop: "drop ?k data = data ! ?k # drop (?k + 1) data"
        by (simp add: Cons_nth_drop_Suc)
      have "unat len < 2 ^ LENGTH(64)" by (rule unsigned_less)
      then have "length data < 2 ^ 64" using len by simp
      then have k1: "unat (bytes + 1 + 1) = ?k + 1" using k by (intro unat_plus_1) simp
      have "data \<noteq> []" using k by auto
      then have u: "1 \<le> unat used" "unat used \<le> 8" using used by auto
      then have sub: "unat (8 - used) = 8 - unat used"
        using unat_sub [of used 8] by (simp add: word_le_nat_alt)
      have lastb: "bytes + 1 = len - 1 \<longleftrightarrow> drop (?k + 1) data = []"
      proof -
        have "unat (len - 1) = length data - 1"
          using len k by (subst unat_sub) (auto simp: word_le_nat_alt)
        then show ?thesis using k word_unat_eq_iff [of "bytes + 1" "len - 1"] by auto
      qed
      let ?n = "if drop (?k + 1) data = [] then unat used else 8"
      have pend: "pending data used c = msb8 (data ! ?k) #
          top_bits (?n - 1) (push_bit 1 (data ! ?k)) @ data_bits (unat used) (drop (?k + 1) data)"
        using u \<open>unat bits = 7\<close>
        by (simp only: pending_def c split_conv drop data_bits_Cons) (simp add: top_bits_pos)
      have n: "7 - unat (if bytes + 1 = len - 1 then 8 - used else 0) = ?n - 1"
        using u by (auto simp: lastb sub)
      let ?c = "(bytes + 1, if bytes + 1 = len - 1 then 8 - used else 0, push_bit 1 (data ! ?k))"
      have adv: "advance data len used c = Some (?c, Some (msb8 (data ! ?k)))"
        using False \<open>unat bits = 7\<close> eq8 k by (simp add: advance_def c aget_Some Let_def)
      have "cursor_ok data len used ?c"
        using k k1 u len by (auto simp: cursor_ok_def sub)
      moreover have "pending data used ?c =
          top_bits (?n - 1) (push_bit 1 (data ! ?k)) @ data_bits (unat used) (drop (?k + 1) data)"
        by (simp only: pending_def split_conv n k1)
      ultimately show ?thesis unfolding pend adv by simp
    qed
  qed
qed

text \<open>A block about to be read from its start.\<close>

lemma pending_start: "pending data used (-1, 7, cur) = data_bits (unat used) data"
  by (simp add: pending_def)

lemma cursor_start:
  "unat len = length data \<Longrightarrow> (data \<noteq> [] \<Longrightarrow> 1 \<le> unat used \<and> unat used \<le> 8) \<Longrightarrow>
     cursor_ok data len used (-1, 7, cur)"
  by (simp add: cursor_ok_def)

lemma advance_end:
  "cursor_ok data len used c \<Longrightarrow> pending data used c = [] \<Longrightarrow>
     \<exists>c'. advance data len used c = Some (c', None)"
  using advance_pops [of data len used c] by simp

lemma advance_bit:
  "cursor_ok data len used c \<Longrightarrow> pending data used c = b # bs \<Longrightarrow>
     \<exists>c'. advance data len used c = Some (c', Some b) \<and>
       cursor_ok data len used c' \<and> pending data used c' = bs"
  using advance_pops [of data len used c] by simp

section \<open>ROM blocks\<close>

text \<open>Two pulses for a bit, and the pause with its flag.\<close>

definition bit_pulses :: "dword \<Rightarrow> dword \<Rightarrow> bool \<Rightarrow> (dword \<times> dword) list" where
  "bit_pulses t0 t1 b =
     (let t = (if b then t1 else t0); f = (if t = t0 then FLAGS_LENGTH_SHORT else FLAGS_LENGTH_LONG)
      in [(t, f), (t, f)])"

definition pause_pulse :: "dword \<Rightarrow> dword \<times> dword" where
  "pause_pulse t = (t, if t = 0 then FLAGS_NO_EDGE else 0)"

lemma fst_pause_pulse [simp]: "fst (pause_pulse t) = t"
  by (simp add: pause_pulse_def)

text \<open>The updates of the in/out parameters, as deliveries of a pulse.\<close>

lemma deliver_plain: "io\<lparr>tstates := t\<rparr> = deliver (t, 0) False io"
  by (simp add: deliver_def)

lemma deliver_pause: "do_tail_pause (deliver (t, 0) False io) = deliver (pause_pulse t) True io"
  by (simp add: do_tail_pause_def deliver_def pause_pulse_def set_flag_def)

lemma deliver_flag: "set_flag f (deliver (t, g) False io) = deliver (t, g OR f) False io"
  by (simp add: deliver_def set_flag_def or.assoc)

lemma deliver_end: "deliver (t, 0) False io\<lparr>end_of_block := True\<rparr> = deliver (t, 0) True io"
  by (simp add: deliver_def)

lemmas deliver_simps = deliver_plain deliver_pause deliver_flag deliver_end

text \<open>The pulses of a data stream and the pause that follows.\<close>

definition data_pulses :: "dword \<Rightarrow> dword \<Rightarrow> dword \<Rightarrow> bool list \<Rightarrow> (dword \<times> dword) list" where
  "data_pulses t0 t1 pause bs = concat (map (bit_pulses t0 t1) bs) @ [pause_pulse pause]"

lemma data_pulses_simps [simp]:
  "data_pulses t0 t1 pause [] = [pause_pulse pause]"
  "data_pulses t0 t1 pause (b # bs) = bit_pulses t0 t1 b @ data_pulses t0 t1 pause bs"
  "data_pulses t0 t1 pause bs \<noteq> []"
  by (simp_all add: data_pulses_def)

lemma length_data_pulses [simp]: "length (data_pulses t0 t1 pause bs) = 2 * length bs + 1"
  by (induction bs) (auto simp: bit_pulses_def Let_def)

definition rom_cursor :: "rom_block_state \<Rightarrow> cursor" where
  "rom_cursor s = (rs_bytes_through_block s, rs_bits_through_byte s, rs_current_byte s)"

lemma rom_next_bit_advance:
  "rom_next_bit b s =
     (case advance (rom_data b) (rom_length b) 8 (rom_cursor s) of
        None \<Rightarrow> None
      | Some ((bytes, bits, cur), next) \<Rightarrow>
          Some (ERROR_NONE,
            let s = s\<lparr>rs_bytes_through_block := bytes, rs_bits_through_byte := bits, rs_current_byte := cur\<rparr>
            in case next of None \<Rightarrow> s\<lparr>rs_state := STATE_PAUSE\<rparr>
               | Some v \<Rightarrow> s\<lparr>rs_bit_tstates := (if v then TIMING_DATA1 else TIMING_DATA0),
                              rs_state := STATE_DATA1\<rparr>))"
  by (auto simp: rom_next_bit_def advance_def rom_cursor_def rom_shift_bit_def Let_def and_0x80
      split: option.splits bind_splits)

definition rom_to_come :: "rom_block \<Rightarrow> rom_block_state \<Rightarrow> (dword \<times> dword) list" where
  "rom_to_come b s =
     (let bits = data_pulses TIMING_DATA0 TIMING_DATA1 (rom_pause_tstates b)
                   (pending (rom_data b) 8 (rom_cursor s));
          half = (rs_bit_tstates s,
            if rs_bit_tstates s = TIMING_DATA0 then FLAGS_LENGTH_SHORT else FLAGS_LENGTH_LONG)
      in case rs_state s of
           STATE_PILOT \<Rightarrow> replicate (unat (rs_edge_count s)) (TIMING_PILOT, 0)
                            @ (TIMING_SYNC1, 0) # (TIMING_SYNC2, 0) # bits
         | STATE_SYNC1 \<Rightarrow> (TIMING_SYNC1, 0) # (TIMING_SYNC2, 0) # bits
         | STATE_SYNC2 \<Rightarrow> (TIMING_SYNC2, 0) # bits
         | STATE_DATA1 \<Rightarrow> half # half # bits
         | STATE_DATA2 \<Rightarrow> half # bits
         | STATE_PAUSE \<Rightarrow> [pause_pulse (rom_pause_tstates b)]
         | _ \<Rightarrow> [])"

lemma rom_to_come_at:
  "rs_state s = STATE_PILOT \<Longrightarrow> rom_to_come b s = replicate (unat (rs_edge_count s)) (TIMING_PILOT, 0)
     @ rom_to_come b (s\<lparr>rs_state := STATE_SYNC1\<rparr>)"
  "rs_state s = STATE_SYNC1 \<Longrightarrow> rom_to_come b s =
     (TIMING_SYNC1, 0) # rom_to_come b (s\<lparr>rs_state := STATE_SYNC2\<rparr>)"
  "rs_state s = STATE_SYNC2 \<Longrightarrow> rom_to_come b s = (TIMING_SYNC2, 0) #
     data_pulses TIMING_DATA0 TIMING_DATA1 (rom_pause_tstates b)
       (pending (rom_data b) 8 (rom_cursor s))"
  "rs_state s = STATE_DATA1 \<Longrightarrow> rom_to_come b s =
     (rs_bit_tstates s, if rs_bit_tstates s = TIMING_DATA0 then FLAGS_LENGTH_SHORT else FLAGS_LENGTH_LONG)
       # rom_to_come b (s\<lparr>rs_state := STATE_DATA2\<rparr>)"
  "rs_state s = STATE_DATA2 \<Longrightarrow> rom_to_come b s =
     (rs_bit_tstates s, if rs_bit_tstates s = TIMING_DATA0 then FLAGS_LENGTH_SHORT else FLAGS_LENGTH_LONG)
       # data_pulses TIMING_DATA0 TIMING_DATA1 (rom_pause_tstates b)
           (pending (rom_data b) 8 (rom_cursor s))"
  "rs_state s = STATE_PAUSE \<Longrightarrow> rom_to_come b s = [pause_pulse (rom_pause_tstates b)]"
  by (simp_all add: rom_to_come_def Let_def rom_cursor_def)

definition rom_ready :: "rom_block \<Rightarrow> rom_block_state \<Rightarrow> bool" where
  "rom_ready b s \<longleftrightarrow>
     rs_state s \<noteq> STATE_INVALID \<and> rs_state s \<noteq> STATE_TAIL \<and>
     (rs_state s = STATE_PILOT \<longrightarrow> rs_edge_count s \<noteq> 0) \<and>
     (rs_state s \<noteq> STATE_PAUSE \<longrightarrow> cursor_ok (rom_data b) (rom_length b) 8 (rom_cursor s))"

lemma rom_next_bit_ready:
  assumes "cursor_ok (rom_data b) (rom_length b) 8 (rom_cursor s)"
  shows "\<exists>s'. rom_next_bit b s = Some (ERROR_NONE, s') \<and> rom_ready b s' \<and>
     rom_to_come b s' = data_pulses TIMING_DATA0 TIMING_DATA1 (rom_pause_tstates b)
       (pending (rom_data b) 8 (rom_cursor s))"
proof (cases "pending (rom_data b) 8 (rom_cursor s)")
  case Nil
  then show ?thesis using advance_end [OF assms]
    by (auto simp: rom_next_bit_advance rom_ready_def rom_to_come_def Let_def)
next
  case (Cons v vs)
  then obtain c' where "advance (rom_data b) (rom_length b) 8 (rom_cursor s) = Some (c', Some v)"
    "cursor_ok (rom_data b) (rom_length b) 8 c'" "pending (rom_data b) 8 c' = vs"
    using advance_bit [OF assms] by blast
  then show ?thesis using Cons
    by (cases c') (auto simp: rom_next_bit_advance rom_ready_def rom_to_come_def Let_def
        rom_cursor_def bit_pulses_def)
qed

lemma unat_pos: "w \<noteq> 0 \<Longrightarrow> 0 < unat w" for w :: "'a::len word"
  by (simp add: unat_gt_0)

lemma replicate_unat: "w \<noteq> 0 \<Longrightarrow> replicate (unat w) x = x # replicate (unat (w - 1)) x" for w :: "'a::len word"
  by (metis Suc_pred unat_minus_one unat_pos replicate_Suc One_nat_def)

lemma rom_cursor_update [simp]:
  "rom_cursor (s\<lparr>rs_state := x\<rparr>) = rom_cursor s"
  "rom_cursor (s\<lparr>rs_edge_count := n\<rparr>) = rom_cursor s"
  "rom_cursor (s\<lparr>rs_edge_count := n, rs_state := x\<rparr>) = rom_cursor s"
  by (simp_all add: rom_cursor_def)

lemma rom_ready_cases:
  assumes "rom_ready b s"
  obtains "rs_state s = STATE_PILOT" "rs_edge_count s \<noteq> 0" "cursor_ok (rom_data b) (rom_length b) 8 (rom_cursor s)"
  | "rs_state s = STATE_SYNC1" "cursor_ok (rom_data b) (rom_length b) 8 (rom_cursor s)"
  | "rs_state s = STATE_SYNC2" "cursor_ok (rom_data b) (rom_length b) 8 (rom_cursor s)"
  | "rs_state s = STATE_DATA1" "cursor_ok (rom_data b) (rom_length b) 8 (rom_cursor s)"
  | "rs_state s = STATE_DATA2" "cursor_ok (rom_data b) (rom_length b) 8 (rom_cursor s)"
  | "rs_state s = STATE_PAUSE"
  using assms by (cases "rs_state s") (auto simp: rom_ready_def)

interpretation rom: edge_source "rom_edge b" "rom_ready b" "rom_to_come b"
proof unfold_locales
  fix s p and rest :: "(dword \<times> dword) list" and io
  assume ready: "rom_ready b s"
  then show "rom_to_come b s \<noteq> []"
    by (cases rule: rom_ready_cases) (simp_all add: rom_to_come_at)
  show "\<exists>s'. rom_edge b s io = Some (ERROR_NONE, s', deliver p True io)"
    if "rom_to_come b s = [p]"
    using ready that
    by (cases rule: rom_ready_cases) (auto simp: rom_to_come_at rom_edge_def deliver_simps replicate_unat)
  show "\<exists>s'. rom_edge b s io = Some (ERROR_NONE, s', deliver p False io) \<and> rom_ready b s' \<and>
      rom_to_come b s' = rest"
    if "rom_to_come b s = p # rest" "rest \<noteq> []"
    using ready
  proof (cases rule: rom_ready_cases)
    case 6
    then show ?thesis using that by (simp add: rom_to_come_at)
  qed (use that rom_next_bit_ready [of b s] in
      \<open>auto simp: rom_to_come_at rom_edge_def deliver_simps replicate_unat edge_after_def Let_def
        rom_ready_def [of b "rs_state_update f x" for f x] rom_ready_def [of b "rs_edge_count_update f s" for f]\<close>)
qed

lemma data_bits_whole: "data_bits 8 data = concat (map (top_bits 8) data)"
  by (induction data) (auto simp: data_bits_Cons)

text \<open>
  What a ROM block should sound like: the pilot (short for data blocks, whose flag byte has
  bit 7 set), the two sync pulses, two pulses for each bit of each byte, most significant
  bit first, and the pause.
\<close>

definition rom_signal :: "rom_block \<Rightarrow> (dword \<times> dword) list" where
  "rom_signal b =
     replicate (case rom_data b of [] \<Rightarrow> 8063 | flag # _ \<Rightarrow> if bit flag 7 then 3223 else 8063)
       (TIMING_PILOT, 0)
     @ (TIMING_SYNC1, 0) # (TIMING_SYNC2, 0)
     # data_pulses TIMING_DATA0 TIMING_DATA1 (rom_pause_tstates b)
         (concat (map (top_bits 8) (rom_data b)))"

definition rom_block_ok :: "rom_block \<Rightarrow> bool" where
  "rom_block_ok b \<longleftrightarrow> unat (rom_length b) = length (rom_data b)"

lemma rom_pilots_count:
  "rom_block_ok b \<Longrightarrow> rom_pilots b = Some (word_of_nat (case rom_data b of
     [] \<Rightarrow> 8063 | flag # _ \<Rightarrow> if bit flag 7 then 3223 else 8063))"
  by (cases "rom_data b")
    (auto simp: rom_pilots_def rom_block_ok_def nget_def and_0x80 msb8_def unat_eq_0)

lemma rom_started:
  assumes "rom_block_ok b"
  shows "\<exists>s'. rom_init b s = Some (ERROR_NONE, s') \<and> rom_ready b s' \<and> rom_to_come b s' = rom_signal b"
  using assms rom_pilots_count [OF assms]
  by (auto simp: rom_init_def rom_ready_def rom_to_come_at rom_cursor_def cursor_start
      rom_block_ok_def pending_start rom_signal_def data_bits_whole split: list.splits)


lemma length_rom_signal: "length (rom_signal b) \<le> 8066 + 16 * length (rom_data b)"
proof -
  have "length (concat (map (top_bits 8) bs)) = 8 * length bs" for bs
    by (induction bs) auto
  then show ?thesis by (auto simp: rom_signal_def split: list.splits)
qed


section \<open>The length of data\<close>

lemma count_top_bits: "count_top_bits n b r = r + int (length (filter id (top_bits n b)))"
  by (induction n arbitrary: b r) (auto simp: and_0x80)

lemma bits_set_n_bits:
  "unat n \<le> 8 \<Longrightarrow> libspectrum_bits_set_n_bits b n = int (length (filter id (top_bits (unat n) b)))"
  by (auto simp: libspectrum_bits_set_n_bits_def count_top_bits Let_def word_less_nat_alt)

lemma bits_set_nth: "bits_set ! unat b = int (length (filter id (top_bits 8 b)))"
proof -
  have "unat b < 2 ^ LENGTH(8)" by (rule unsigned_less)
  then show ?thesis by (simp add: bits_set_def bits_set_n_bits)
qed

text \<open>The total duration of a list of pulses.\<close>

definition duration :: "(dword \<times> dword) list \<Rightarrow> dword" where
  "duration ps = sum_list (map fst ps)"

lemma duration_simps [simp]:
  "duration [] = 0" "duration (p # ps) = fst p + duration ps"
  "duration (ps @ qs) = duration ps + duration qs"
  "duration (replicate n p) = of_nat n * fst p"
  by (simp_all add: duration_def sum_list_replicate)

lemma convert_pulses:
  "convert_pulses_to_tstates t1 t0 (int (length (filter id bs))) (int (length bs)) =
     duration (concat (map (bit_pulses t0 t1) bs))"
proof (induction bs)
  case (Cons v bs)
  have "length (filter id bs) \<le> length bs" by simp
  then show ?case using Cons
    by (auto simp: convert_pulses_to_tstates_def bit_pulses_def Let_def algebra_simps)
qed (simp add: convert_pulses_to_tstates_def)

lemma byte_tstates_eq:
  "i < length data \<Longrightarrow> byte_tstates t1 t0 data i =
     Some (duration (concat (map (bit_pulses t0 t1) (top_bits 8 (data ! i)))))"
  using convert_pulses [of t1 t0 "top_bits 8 (data ! i)"]
  by (simp add: byte_tstates_def nget_def bits_set_nth)

lemma sum_loop_eq:
  "(\<And>k. i \<le> k \<Longrightarrow> k < i + n \<Longrightarrow> f k = Some (g k)) \<Longrightarrow>
     sum_loop f i n len = Some (len + sum_list (map g [i..<i + n]))"
proof (induction n arbitrary: i len)
  case (Suc n)
  have "[i..<i + Suc n] = i # [Suc i..<Suc i + n]" by (simp add: upt_rec)
  then show ?case using Suc.prems [of i] Suc.IH [of "Suc i" "len + g i"] Suc.prems
    by (simp add: add.assoc)
qed simp

lemma sum_loop_map:
  assumes "n \<le> length xs" "\<And>k. k < n \<Longrightarrow> f k = Some (g (xs ! k))"
  shows "sum_loop f 0 n len = Some (len + sum_list (map g (take n xs)))"
proof -
  have "map (\<lambda>k. g (xs ! k)) [0..<n] = map g (take n xs)"
    using assms(1) by (simp add: list_eq_iff_nth_eq)
  then show ?thesis using sum_loop_eq [of 0 n f "\<lambda>k. g (xs ! k)" len] assms(2) by simp
qed

lemma duration_bytes:
  "sum_list (map (\<lambda>b. duration (concat (map (bit_pulses t0 t1) (top_bits 8 b)))) bs)
     = duration (concat (map (bit_pulses t0 t1) (concat (map (top_bits 8) bs))))"
  by (induction bs) auto

lemma bytes_loop:
  "n \<le> length data \<Longrightarrow> sum_loop (byte_tstates t1 t0 data) 0 n len =
     Some (len + duration (concat (map (bit_pulses t0 t1) (concat (map (top_bits 8) (take n data))))))"
  by (subst sum_loop_map [where xs = data and g = "\<lambda>b. duration (concat (map (bit_pulses t0 t1) (top_bits 8 b)))"])
    (auto simp: byte_tstates_eq duration_bytes)

lemma duration_data_pulses [simp]:
  "duration (data_pulses t0 t1 pause bs) = duration (concat (map (bit_pulses t0 t1) bs)) + pause"
  by (simp add: data_pulses_def pause_pulse_def)

lemma rom_block_length_signal:
  assumes "rom_block_ok b"
  shows "rom_block_length b = Some (duration (rom_signal b))"
  using assms rom_pilots_count [OF assms]
  by (auto simp: rom_block_length_def bytes_loop rom_block_ok_def rom_signal_def Let_def
      split: list.splits)

lemma data_bits_last:
  "data \<noteq> [] \<Longrightarrow> data_bits n data = concat (map (top_bits 8) (butlast data)) @ top_bits n (List.last data)"
  by (induction data) (auto simp: data_bits_Cons)

lemma data_bits_length_duration:
  assumes len: "unat n = length data" and data: "data \<noteq> []" and used: "unat used \<le> 8"
  shows "data_bits_length t1 t0 data n used len =
     Some (len + duration (concat (map (bit_pulses t0 t1) (data_bits (unat used) data))))"
proof -
  have n1: "unat (n - 1) = length data - 1"
    using len data by (metis length_0_conv unat_eq_zero unat_minus_one One_nat_def)
  have last_byte: "aget data (n - 1) = Some (List.last data)"
    using data by (simp add: aget_def n1 last_conv_nth)
  have u: "unat (ucast used :: byte) = unat used"
    using used by (simp add: unsigned_ucast_eq take_bit_nat_eq_self)
  have u32: "unat (ucast used :: dword) = unat used"
    using used by (simp add: unsigned_ucast_eq take_bit_nat_eq_self)
  then have "uint (ucast used :: dword) = int (unat used)"
    by (metis uint_nat)
  then have "sint (ucast used :: dword) = int (unat used)"
    using used by (simp add: sint_uint uint_nat signed_take_bit_int_eq_self del: of_nat_unat)
  then show ?thesis
    using data used convert_pulses [of t1 t0 "top_bits (unat used) (List.last data)"]
    by (simp add: data_bits_length_def last_byte n1 bytes_loop bits_set_n_bits u data_bits_last
        butlast_conv_take add.assoc)
qed

end
