(* ===== verification/Tape_Signals.thy ===== *)
theory Tape_Signals
  imports Tape_Play
begin

text \<open>
  The signals of the other block types: turbo and pure data blocks, tones and pulse lists,
  each as an interpretation of \<open>edge_source\<close>, and the length functions as durations of
  these signals.
\<close>

section \<open>Turbo blocks\<close>

definition turbo_cursor :: "turbo_block_state \<Rightarrow> cursor" where
  "turbo_cursor s = (tbs_bytes_through_block s, tbs_bits_through_byte s, tbs_current_byte s)"

lemma turbo_cursor_update [simp]:
  "turbo_cursor (s\<lparr>tbs_state := x\<rparr>) = turbo_cursor s"
  "turbo_cursor (s\<lparr>tbs_edge_count := n\<rparr>) = turbo_cursor s"
  "turbo_cursor (s\<lparr>tbs_edge_count := n, tbs_state := x\<rparr>) = turbo_cursor s"
  by (simp_all add: turbo_cursor_def)

lemma turbo_next_bit_advance:
  "turbo_next_bit b s =
     (case advance (turbo_data b) (turbo_length b) (turbo_bits_in_last_byte b) (turbo_cursor s) of
        None \<Rightarrow> None
      | Some ((bytes, bits, cur), next) \<Rightarrow>
          Some (ERROR_NONE,
            let s = s\<lparr>tbs_bytes_through_block := bytes, tbs_bits_through_byte := bits, tbs_current_byte := cur\<rparr>
            in case next of None \<Rightarrow> s\<lparr>tbs_state := STATE_PAUSE\<rparr>
               | Some v \<Rightarrow> s\<lparr>tbs_bit_tstates := (if v then turbo_bit1_length b else turbo_bit0_length b),
                              tbs_state := STATE_DATA1\<rparr>))"
  by (auto simp: turbo_next_bit_def advance_def turbo_cursor_def turbo_shift_bit_def Let_def and_0x80
      split: option.splits bind_splits)

abbreviation turbo_rest :: "turbo_block \<Rightarrow> cursor \<Rightarrow> (dword \<times> dword) list" where
  "turbo_rest b c \<equiv> data_pulses (turbo_bit0_length b) (turbo_bit1_length b) (turbo_pause_tstates b)
     (pending (turbo_data b) (turbo_bits_in_last_byte b) c)"

abbreviation turbo_cursor_ok :: "turbo_block \<Rightarrow> turbo_block_state \<Rightarrow> bool" where
  "turbo_cursor_ok b s \<equiv>
     cursor_ok (turbo_data b) (turbo_length b) (turbo_bits_in_last_byte b) (turbo_cursor s)"

definition turbo_to_come :: "turbo_block \<Rightarrow> turbo_block_state \<Rightarrow> (dword \<times> dword) list" where
  "turbo_to_come b s =
     (let bits = turbo_rest b (turbo_cursor s);
          half = (tbs_bit_tstates s,
            if tbs_bit_tstates s = turbo_bit0_length b then FLAGS_LENGTH_SHORT else FLAGS_LENGTH_LONG)
      in case tbs_state s of
           STATE_PILOT \<Rightarrow> replicate (unat (tbs_edge_count s)) (turbo_pilot_length b, 0)
                            @ (turbo_sync1_length b, 0) # (turbo_sync2_length b, 0) # bits
         | STATE_SYNC1 \<Rightarrow> (turbo_sync1_length b, 0) # (turbo_sync2_length b, 0) # bits
         | STATE_SYNC2 \<Rightarrow> (turbo_sync2_length b, 0) # bits
         | STATE_DATA1 \<Rightarrow> half # half # bits
         | STATE_DATA2 \<Rightarrow> half # bits
         | STATE_PAUSE \<Rightarrow> [pause_pulse (turbo_pause_tstates b)]
         | _ \<Rightarrow> [])"

lemma turbo_to_come_at:
  "tbs_state s = STATE_PILOT \<Longrightarrow> turbo_to_come b s =
     replicate (unat (tbs_edge_count s)) (turbo_pilot_length b, 0)
       @ turbo_to_come b (s\<lparr>tbs_state := STATE_SYNC1\<rparr>)"
  "tbs_state s = STATE_SYNC1 \<Longrightarrow> turbo_to_come b s =
     (turbo_sync1_length b, 0) # turbo_to_come b (s\<lparr>tbs_state := STATE_SYNC2\<rparr>)"
  "tbs_state s = STATE_SYNC2 \<Longrightarrow> turbo_to_come b s =
     (turbo_sync2_length b, 0) # turbo_rest b (turbo_cursor s)"
  "tbs_state s = STATE_DATA1 \<Longrightarrow> turbo_to_come b s =
     (tbs_bit_tstates s, if tbs_bit_tstates s = turbo_bit0_length b then FLAGS_LENGTH_SHORT
        else FLAGS_LENGTH_LONG) # turbo_to_come b (s\<lparr>tbs_state := STATE_DATA2\<rparr>)"
  "tbs_state s = STATE_DATA2 \<Longrightarrow> turbo_to_come b s =
     (tbs_bit_tstates s, if tbs_bit_tstates s = turbo_bit0_length b then FLAGS_LENGTH_SHORT
        else FLAGS_LENGTH_LONG) # turbo_rest b (turbo_cursor s)"
  "tbs_state s = STATE_PAUSE \<Longrightarrow> turbo_to_come b s = [pause_pulse (turbo_pause_tstates b)]"
  by (simp_all add: turbo_to_come_def Let_def)

definition turbo_ready :: "turbo_block \<Rightarrow> turbo_block_state \<Rightarrow> bool" where
  "turbo_ready b s \<longleftrightarrow>
     tbs_state s \<noteq> STATE_INVALID \<and> tbs_state s \<noteq> STATE_TAIL \<and>
     (tbs_state s \<noteq> STATE_PAUSE \<longrightarrow> turbo_cursor_ok b s)"

lemma turbo_next_bit_ready:
  assumes "turbo_cursor_ok b s"
  shows "\<exists>s'. turbo_next_bit b s = Some (ERROR_NONE, s') \<and> turbo_ready b s' \<and>
     turbo_to_come b s' = turbo_rest b (turbo_cursor s)"
proof (cases "pending (turbo_data b) (turbo_bits_in_last_byte b) (turbo_cursor s)")
  case Nil
  then show ?thesis using advance_end [OF assms]
    by (auto simp: turbo_next_bit_advance turbo_ready_def turbo_to_come_def Let_def)
next
  case (Cons v vs)
  then show ?thesis using advance_bit [OF assms Cons]
    by (auto simp: turbo_next_bit_advance turbo_ready_def turbo_to_come_def Let_def
        turbo_cursor_def bit_pulses_def)
qed

lemma turbo_ready_cases:
  assumes "turbo_ready b s"
  obtains "tbs_state s = STATE_PILOT" "turbo_cursor_ok b s"
  | "tbs_state s = STATE_SYNC1" "turbo_cursor_ok b s"
  | "tbs_state s = STATE_SYNC2" "turbo_cursor_ok b s"
  | "tbs_state s = STATE_DATA1" "turbo_cursor_ok b s"
  | "tbs_state s = STATE_DATA2" "turbo_cursor_ok b s"
  | "tbs_state s = STATE_PAUSE"
  using assms by (cases "tbs_state s") (auto simp: turbo_ready_def)

interpretation turbo: edge_source "turbo_edge b" "turbo_ready b" "turbo_to_come b"
proof unfold_locales
  fix s p and rest :: "(dword \<times> dword) list" and io
  assume ready: "turbo_ready b s"
  then show "turbo_to_come b s \<noteq> []"
    by (cases rule: turbo_ready_cases) (simp_all add: turbo_to_come_at)
  show "\<exists>s'. turbo_edge b s io = Some (ERROR_NONE, s', deliver p True io)"
    if "turbo_to_come b s = [p]"
    using ready that
    by (cases rule: turbo_ready_cases) (auto simp: turbo_to_come_at turbo_edge_def deliver_simps)
  show "\<exists>s'. turbo_edge b s io = Some (ERROR_NONE, s', deliver p False io) \<and> turbo_ready b s' \<and>
      turbo_to_come b s' = rest"
    if "turbo_to_come b s = p # rest" "rest \<noteq> []"
    using ready
  proof (cases rule: turbo_ready_cases)
    case 6
    then show ?thesis using that by (simp add: turbo_to_come_at)
  qed (use that turbo_next_bit_ready [of b s] in
      \<open>auto simp: turbo_to_come_at turbo_edge_def turbo_sync1_def deliver_simps replicate_unat
        edge_after_def Let_def turbo_ready_def [of b "tbs_state_update f x" for f x]
        turbo_ready_def [of b "tbs_edge_count_update f s" for f]\<close>)
qed

text \<open>What a turbo block should sound like, and when it is well formed.\<close>

definition turbo_signal :: "turbo_block \<Rightarrow> (dword \<times> dword) list" where
  "turbo_signal b =
     replicate (unat (turbo_pilot_pulses b)) (turbo_pilot_length b, 0)
     @ (turbo_sync1_length b, 0) # (turbo_sync2_length b, 0)
     # data_pulses (turbo_bit0_length b) (turbo_bit1_length b) (turbo_pause_tstates b)
         (data_bits (unat (turbo_bits_in_last_byte b)) (turbo_data b))"

definition turbo_block_ok :: "turbo_block \<Rightarrow> bool" where
  "turbo_block_ok b \<longleftrightarrow> unat (turbo_length b) = length (turbo_data b) \<and>
     (turbo_data b \<noteq> [] \<longrightarrow> 1 \<le> unat (turbo_bits_in_last_byte b) \<and> unat (turbo_bits_in_last_byte b) \<le> 8)"

lemma turbo_started:
  "turbo_block_ok b \<Longrightarrow>
     \<exists>s'. turbo_init b s = Some (ERROR_NONE, s') \<and> turbo_ready b s' \<and> turbo_to_come b s' = turbo_signal b"
  by (auto simp: turbo_init_def turbo_ready_def turbo_to_come_at turbo_cursor_def cursor_start
      turbo_block_ok_def pending_start turbo_signal_def)


abbreviation turbo_example :: turbo_block where
  "turbo_example \<equiv> \<lparr>turbo_length = 2, turbo_bits_in_last_byte = 3, turbo_data = [0xa5, 0x40],
     turbo_pause = 0, turbo_pause_tstates = 0, turbo_pilot_length = 1000, turbo_pilot_pulses = 2,
     turbo_sync1_length = 600, turbo_sync2_length = 700, turbo_bit0_length = 400,
     turbo_bit1_length = 800\<rparr>"


lemma turbo_block_length_signal:
  assumes "turbo_block_ok b"
  shows "turbo_block_length b = Some (duration (turbo_signal b))"
proof (cases "turbo_data b = []")
  case True
  then show ?thesis using assms
    by (auto simp: turbo_block_length_def turbo_block_ok_def turbo_signal_def Let_def unat_eq_0
        ucast_low_simps algebra_simps)
next
  case False
  then have "turbo_length b \<noteq> 0" using assms by (auto simp: turbo_block_ok_def)
  then show ?thesis using assms False
    by (simp add: turbo_block_length_def turbo_block_ok_def turbo_signal_def data_bits_length_duration
        ucast_low_simps algebra_simps)
qed

section \<open>Pure data blocks\<close>

definition pd_cursor :: "pure_data_block_state \<Rightarrow> cursor" where
  "pd_cursor s = (pds_bytes_through_block s, pds_bits_through_byte s, pds_current_byte s)"

lemma pd_cursor_update [simp]: "pd_cursor (s\<lparr>pds_state := x\<rparr>) = pd_cursor s"
  by (simp add: pd_cursor_def)

lemma pure_data_next_bit_advance:
  "libspectrum_tape_pure_data_next_bit b s =
     (case advance (pd_data b) (pd_length b) (pd_bits_in_last_byte b) (pd_cursor s) of
        None \<Rightarrow> None
      | Some ((bytes, bits, cur), next) \<Rightarrow>
          Some (ERROR_NONE,
            let s = s\<lparr>pds_bytes_through_block := bytes, pds_bits_through_byte := bits, pds_current_byte := cur\<rparr>
            in case next of None \<Rightarrow> s\<lparr>pds_state := STATE_PAUSE\<rparr>
               | Some v \<Rightarrow> s\<lparr>pds_bit_tstates := (if v then pd_bit1_length b else pd_bit0_length b),
                              pds_state := STATE_DATA1\<rparr>))"
  by (auto simp: libspectrum_tape_pure_data_next_bit_def advance_def pd_cursor_def
      pure_data_shift_bit_def Let_def and_0x80 split: option.splits bind_splits)

abbreviation pd_rest :: "pure_data_block \<Rightarrow> cursor \<Rightarrow> (dword \<times> dword) list" where
  "pd_rest b c \<equiv> data_pulses (pd_bit0_length b) (pd_bit1_length b) (pd_pause_tstates b)
     (pending (pd_data b) (pd_bits_in_last_byte b) c)"

abbreviation pd_cursor_ok :: "pure_data_block \<Rightarrow> pure_data_block_state \<Rightarrow> bool" where
  "pd_cursor_ok b s \<equiv> cursor_ok (pd_data b) (pd_length b) (pd_bits_in_last_byte b) (pd_cursor s)"

definition pd_to_come :: "pure_data_block \<Rightarrow> pure_data_block_state \<Rightarrow> (dword \<times> dword) list" where
  "pd_to_come b s =
     (let bits = pd_rest b (pd_cursor s);
          half = (pds_bit_tstates s,
            if pds_bit_tstates s = pd_bit0_length b then FLAGS_LENGTH_SHORT else FLAGS_LENGTH_LONG)
      in case pds_state s of
           STATE_DATA1 \<Rightarrow> half # half # bits
         | STATE_DATA2 \<Rightarrow> half # bits
         | STATE_PAUSE \<Rightarrow> [pause_pulse (pd_pause_tstates b)]
         | _ \<Rightarrow> [])"

lemma pd_to_come_at:
  "pds_state s = STATE_DATA1 \<Longrightarrow> pd_to_come b s =
     (pds_bit_tstates s, if pds_bit_tstates s = pd_bit0_length b then FLAGS_LENGTH_SHORT
        else FLAGS_LENGTH_LONG) # pd_to_come b (s\<lparr>pds_state := STATE_DATA2\<rparr>)"
  "pds_state s = STATE_DATA2 \<Longrightarrow> pd_to_come b s =
     (pds_bit_tstates s, if pds_bit_tstates s = pd_bit0_length b then FLAGS_LENGTH_SHORT
        else FLAGS_LENGTH_LONG) # pd_rest b (pd_cursor s)"
  "pds_state s = STATE_PAUSE \<Longrightarrow> pd_to_come b s = [pause_pulse (pd_pause_tstates b)]"
  by (simp_all add: pd_to_come_def Let_def)

definition pd_ready :: "pure_data_block \<Rightarrow> pure_data_block_state \<Rightarrow> bool" where
  "pd_ready b s \<longleftrightarrow>
     (pds_state s = STATE_DATA1 \<or> pds_state s = STATE_DATA2) \<and> pd_cursor_ok b s \<or>
     pds_state s = STATE_PAUSE"

lemma pd_next_bit_ready:
  assumes "pd_cursor_ok b s"
  shows "\<exists>s'. libspectrum_tape_pure_data_next_bit b s = Some (ERROR_NONE, s') \<and> pd_ready b s' \<and>
     pd_to_come b s' = pd_rest b (pd_cursor s)"
proof (cases "pending (pd_data b) (pd_bits_in_last_byte b) (pd_cursor s)")
  case Nil
  then show ?thesis using advance_end [OF assms]
    by (auto simp: pure_data_next_bit_advance pd_ready_def pd_to_come_def Let_def)
next
  case (Cons v vs)
  then show ?thesis using advance_bit [OF assms Cons]
    by (auto simp: pure_data_next_bit_advance pd_ready_def pd_to_come_def Let_def
        pd_cursor_def bit_pulses_def)
qed

lemma pd_ready_cases:
  assumes "pd_ready b s"
  obtains "pds_state s = STATE_DATA1" "pd_cursor_ok b s"
  | "pds_state s = STATE_DATA2" "pd_cursor_ok b s"
  | "pds_state s = STATE_PAUSE"
  using assms by (auto simp: pd_ready_def)

interpretation pd: edge_source "pure_data_edge b" "pd_ready b" "pd_to_come b"
proof unfold_locales
  fix s p and rest :: "(dword \<times> dword) list" and io
  assume ready: "pd_ready b s"
  then show "pd_to_come b s \<noteq> []"
    by (cases rule: pd_ready_cases) (simp_all add: pd_to_come_at)
  show "\<exists>s'. pure_data_edge b s io = Some (ERROR_NONE, s', deliver p True io)"
    if "pd_to_come b s = [p]"
    using ready that
    by (cases rule: pd_ready_cases) (auto simp: pd_to_come_at pure_data_edge_def deliver_simps)
  show "\<exists>s'. pure_data_edge b s io = Some (ERROR_NONE, s', deliver p False io) \<and> pd_ready b s' \<and>
      pd_to_come b s' = rest"
    if "pd_to_come b s = p # rest" "rest \<noteq> []"
    using ready
  proof (cases rule: pd_ready_cases)
    case 3
    then show ?thesis using that by (simp add: pd_to_come_at)
  qed (use that pd_next_bit_ready [of b s] in
      \<open>auto simp: pd_to_come_at pure_data_edge_def deliver_simps edge_after_def Let_def
        pd_ready_def [of b "pds_state_update f x" for f x]\<close>)
qed

definition pd_signal :: "pure_data_block \<Rightarrow> (dword \<times> dword) list" where
  "pd_signal b = data_pulses (pd_bit0_length b) (pd_bit1_length b) (pd_pause_tstates b)
     (data_bits (unat (pd_bits_in_last_byte b)) (pd_data b))"

definition pd_block_ok :: "pure_data_block \<Rightarrow> bool" where
  "pd_block_ok b \<longleftrightarrow> unat (pd_length b) = length (pd_data b) \<and>
     (pd_data b \<noteq> [] \<longrightarrow> 1 \<le> unat (pd_bits_in_last_byte b) \<and> unat (pd_bits_in_last_byte b) \<le> 8)"

lemma pd_started:
  assumes "pd_block_ok b"
  shows "\<exists>s'. pure_data_init b s = Some (ERROR_NONE, s') \<and> pd_ready b s' \<and> pd_to_come b s' = pd_signal b"
proof -
  let ?s = "s\<lparr>pds_bytes_through_block := -1, pds_bits_through_byte := 7\<rparr>"
  have "pd_cursor_ok b ?s" using assms by (auto simp: pd_block_ok_def pd_cursor_def cursor_start)
  moreover have "pd_rest b (pd_cursor ?s) = pd_signal b"
    by (simp add: pd_cursor_def pending_start pd_signal_def)
  ultimately show ?thesis using pd_next_bit_ready [of b ?s] by (simp add: pure_data_init_def)
qed


abbreviation pd_example :: pure_data_block where
  "pd_example \<equiv> \<lparr>pd_length = 2, pd_bits_in_last_byte = 4, pd_data = [0x0f, 0x90], pd_pause = 0,
     pd_pause_tstates = 100, pd_bit0_length = 500, pd_bit1_length = 1000\<rparr>"


lemma pure_data_block_length_signal:
  assumes "pd_block_ok b"
  shows "pure_data_block_length b = Some (duration (pd_signal b))"
proof (cases "pd_data b = []")
  case True
  then show ?thesis using assms
    by (auto simp: pure_data_block_length_def pd_block_ok_def pd_signal_def unat_eq_0 pause_pulse_def)
next
  case False
  then have "pd_length b \<noteq> 0" using assms by (auto simp: pd_block_ok_def)
  then show ?thesis using assms False
    by (simp add: pure_data_block_length_def pd_block_ok_def pd_signal_def data_bits_length_duration
        add.commute)
qed

section \<open>Tones and pulse lists\<close>

definition tone_signal :: "pure_tone_block \<Rightarrow> (dword \<times> dword) list" where
  "tone_signal b = replicate (unat (tone_pulses b)) (tone_length b, 0)"

interpretation tone: edge_source "tone_edge b" "\<lambda>s. tone_edge_count s \<noteq> 0"
    "\<lambda>s. replicate (unat (tone_edge_count s)) (tone_length b, 0)"
  by unfold_locales
    (auto simp: tone_edge_def deliver_simps Let_def replicate_unat unat_eq_0)

definition pulses_signal :: "pulses_block \<Rightarrow> (dword \<times> dword) list" where
  "pulses_signal b = map (\<lambda>t. (t, 0)) (pulses_lengths b)"

definition pulses_block_ok :: "pulses_block \<Rightarrow> bool" where
  "pulses_block_ok b \<longleftrightarrow> pulses_lengths b \<noteq> [] \<and> unat (pulses_count b) = length (pulses_lengths b)"

interpretation pulses: edge_source "pulses_edge b"
    "\<lambda>s :: pulses_block_state. pulses_block_ok b \<and> unat (pulses_edge_count s) < length (pulses_lengths b)"
    "\<lambda>s. map (\<lambda>t. (t, 0)) (drop (unat (pulses_edge_count s)) (pulses_lengths b))"
proof unfold_locales
  fix s :: pulses_block_state and p and rest :: "(dword \<times> dword) list" and io
  let ?n = "unat (pulses_edge_count s)" and ?ls = "pulses_lengths b"
  assume ready: "pulses_block_ok b \<and> ?n < length ?ls"
  then have drop: "drop ?n ?ls = ?ls ! ?n # drop (?n + 1) ?ls"
    by (simp add: Cons_nth_drop_Suc)
  then show "map (\<lambda>t. (t, 0 :: dword)) (drop ?n ?ls) \<noteq> []" by simp
  have count: "unat (pulses_count b) = length ?ls" using ready by (simp add: pulses_block_ok_def)
  then have "length ?ls < 2 ^ LENGTH(64)" by (metis unsigned_less)
  then have next_count: "unat (pulses_edge_count s + 1) = ?n + 1"
    using ready by (intro unat_plus_1) simp
  then have at_end: "pulses_edge_count s + 1 = pulses_count b \<longleftrightarrow> drop (?n + 1) ?ls = []"
    using ready count word_unat_eq_iff [of "pulses_edge_count s + 1" "pulses_count b"] by auto
  have step: "pulses_edge b s io = Some (ERROR_NONE, s\<lparr>pulses_edge_count := pulses_edge_count s + 1\<rparr>,
      deliver (?ls ! ?n, 0) (drop (?n + 1) ?ls = []) io)"
    using ready at_end by (simp add: pulses_edge_def aget_Some Let_def deliver_simps)
  show "\<exists>s'. pulses_edge b s io = Some (ERROR_NONE, s', deliver p True io)"
    if "map (\<lambda>t. (t, 0)) (drop ?n ?ls) = [p]"
    using that by (auto simp: drop step)
  show "\<exists>s'. pulses_edge b s io = Some (ERROR_NONE, s', deliver p False io) \<and>
      (pulses_block_ok b \<and> unat (pulses_edge_count s') < length ?ls) \<and>
      map (\<lambda>t. (t, 0)) (drop (unat (pulses_edge_count s')) ?ls) = rest"
    if "map (\<lambda>t. (t, 0)) (drop ?n ?ls) = p # rest" "rest \<noteq> []"
    using that ready by (auto simp: drop step next_count)
qed

lemma pulses_block_length_signal:
  assumes "pulses_block_ok b"
  shows "pulses_block_length b = Some (duration (pulses_signal b))"
  using assms unfolding pulses_block_length_def
  by (subst sum_loop_map [where xs = "pulses_lengths b" and g = id])
    (auto simp: pulses_block_ok_def nget_def pulses_signal_def duration_def comp_def)

text \<open>The signal of a block, and the blocks that have one.\<close>

fun block_signal :: "libspectrum_tape_block \<Rightarrow> (dword \<times> dword) list" where
  "block_signal (ROM b) = rom_signal b"
| "block_signal (TURBO b) = turbo_signal b"
| "block_signal (PURE_DATA b) = pd_signal b"
| "block_signal (PURE_TONE b) = tone_signal b"
| "block_signal (PULSES b) = pulses_signal b"
| "block_signal _ = []"

fun signal_block_ok :: "libspectrum_tape_block \<Rightarrow> bool" where
  "signal_block_ok (ROM b) = rom_block_ok b"
| "signal_block_ok (TURBO b) = turbo_block_ok b"
| "signal_block_ok (PURE_DATA b) = pd_block_ok b"
| "signal_block_ok (PURE_TONE b) = (tone_pulses b \<noteq> 0)"
| "signal_block_ok (PULSES b) = pulses_block_ok b"
| "signal_block_ok _ = False"

lemma play_signal_edge [simp]:
  "play (signal_edge (ROM b1)) n sts = play (rom_edge b1) n (st_rom sts)"
  "play (signal_edge (TURBO b2)) n sts = play (turbo_edge b2) n (st_turbo sts)"
  "play (signal_edge (PURE_DATA b3)) n sts = play (pure_data_edge b3) n (st_pure_data sts)"
  "play (signal_edge (PURE_TONE b4)) n sts = play (tone_edge b4) n (st_pure_tone sts)"
  "play (signal_edge (PULSES b5)) n sts = play (pulses_edge b5) n (st_pulses sts)"
proof -
  show "play (signal_edge (ROM b1)) n sts = play (rom_edge b1) n (st_rom sts)"
    by (rule play_member [where get = st_rom and edge = "rom_edge b1" and put = "\<lambda>s. st_rom_update (\<lambda>_. s)"]) simp_all
  show "play (signal_edge (TURBO b2)) n sts = play (turbo_edge b2) n (st_turbo sts)"
    by (rule play_member [where get = st_turbo and edge = "turbo_edge b2" and put = "\<lambda>s. st_turbo_update (\<lambda>_. s)"]) simp_all
  show "play (signal_edge (PURE_DATA b3)) n sts = play (pure_data_edge b3) n (st_pure_data sts)"
    by (rule play_member [where get = st_pure_data and edge = "pure_data_edge b3" and put = "\<lambda>s. st_pure_data_update (\<lambda>_. s)"]) simp_all
  show "play (signal_edge (PURE_TONE b4)) n sts = play (tone_edge b4) n (st_pure_tone sts)"
    by (rule play_member [where get = st_pure_tone and edge = "tone_edge b4" and put = "\<lambda>s. st_pure_tone_update (\<lambda>_. s)"]) simp_all
  show "play (signal_edge (PULSES b5)) n sts = play (pulses_edge b5) n (st_pulses sts)"
    by (rule play_member [where get = st_pulses and edge = "pulses_edge b5" and put = "\<lambda>s. st_pulses_update (\<lambda>_. s)"]) simp_all
qed

lemma started_put [simp]:
  "started (put_state put r sts) p = started r (\<lambda>s. p (put s sts))"
  by (cases r) (auto simp: started_def put_state_def)

text \<open>
  C34: for every well-formed ROM, turbo, pure data, tone and pulse block, starting it and
  taking its edges until one ends the block gives its signal, and
  \<open>libspectrum_tape_block_length\<close> is the total duration of these edges, modulo \<open>2 ^ 32\<close>.
\<close>

theorem block_plays_its_length:
  assumes "signal_block_ok b" "length (block_signal b) \<le> n"
  shows "started (libspectrum_tape_block_init (Some b) sts) (play (signal_edge b) n) = Some (block_signal b) \<and>
    libspectrum_tape_block_length b = Some (duration (block_signal b))"
proof (cases b)
  case (ROM r)
  obtain s' where "rom_init r (st_rom sts) = Some (ERROR_NONE, s')" "rom_ready r s'"
    "rom_to_come r s' = rom_signal r"
    using rom_started assms(1) ROM by fastforce
  then show ?thesis using assms ROM
    by (simp add: rom.started_pulses rom_block_length_signal)
next
  case (TURBO t)
  obtain s' where "turbo_init t (st_turbo sts) = Some (ERROR_NONE, s')" "turbo_ready t s'"
    "turbo_to_come t s' = turbo_signal t"
    using turbo_started assms(1) TURBO by fastforce
  then show ?thesis using assms TURBO
    by (simp add: turbo.started_pulses turbo_block_length_signal)
next
  case (PURE_DATA d)
  obtain s' where "pure_data_init d (st_pure_data sts) = Some (ERROR_NONE, s')" "pd_ready d s'"
    "pd_to_come d s' = pd_signal d"
    using pd_started assms(1) PURE_DATA by fastforce
  then show ?thesis using assms PURE_DATA
    by (simp add: pd.started_pulses pure_data_block_length_signal)
next
  case (PURE_TONE t)
  then show ?thesis using assms
    by (simp add: started_def tone.play_pulses tone_signal_def ucast_low_simps)
next
  case (PULSES p)
  then show ?thesis using assms
    by (simp add: started_def pulses.play_pulses pulses_signal_def pulses_block_length_signal
        pulses_block_ok_def)
qed (use assms in auto)

theorem block_plays_its_length_witness:
  "\<forall>sts. started (libspectrum_tape_block_init (Some (TURBO turbo_example)) sts)
      (play (signal_edge (TURBO turbo_example)) 40) = Some (block_signal (TURBO turbo_example)) \<and>
    libspectrum_tape_block_length (TURBO turbo_example) =
      Some (duration (block_signal (TURBO turbo_example)))"
  by (intro allI, rule block_plays_its_length) (simp_all add: turbo_block_ok_def turbo_signal_def)

end
