(* ===== verification/Tape.thy ===== *)
theory Tape
  imports Tape_Signals GSList
begin

text \<open>
  The tape object of \<open>tape.c\<close>: the list of blocks, the iterators into it and the state of
  the block that is playing.

  A \<open>GSList *\<close> kept in the tape (an iterator, the loop and last block) is the address of a
  node; following one that is not in the chain of blocks is a use of freed memory, \<open>None\<close>.
  \<open>libspectrum_tape_get_next_edge_internal\<close> works either on the state inside the tape (when
  called by \<open>libspectrum_tape_get_next_edge\<close>, which passes its address) or on a state of the
  caller: the model's argument \<open>it\<close> is \<open>None\<close> for the former and the caller's state for the
  latter, so that writes to the tape's own state are seen through the alias.
\<close>

record tape_block_state =
  current_block :: "nat option"
  loop_block :: "nat option"
  loop_count :: size_t
  block_state :: block_states

record libspectrum_tape =
  tape_blocks :: "libspectrum_tape_block gslist"
  last_block :: "nat option"
  tape_state :: tape_block_state

section \<open>Nodes and iterators\<close>

definition libspectrum_tape_iterator_current ::
    "libspectrum_tape \<Rightarrow> nat option \<Rightarrow> libspectrum_tape_block option option" where
  "libspectrum_tape_iterator_current tape iterator =
     (case iterator of None \<Rightarrow> Some None | Some a \<Rightarrow> map_option Some (node_data (tape_blocks tape) a))"

text \<open>The iterator functions return the new iterator and the block there.\<close>

definition libspectrum_tape_iterator_init ::
    "libspectrum_tape \<Rightarrow> (nat option \<times> libspectrum_tape_block option) option" where
  "libspectrum_tape_iterator_init tape = do {
     let iterator = head_address (tape_blocks tape);
     block \<leftarrow> libspectrum_tape_iterator_current tape iterator;
     Some (iterator, block) }"

definition libspectrum_tape_iterator_next ::
    "libspectrum_tape \<Rightarrow> nat option \<Rightarrow> (nat option \<times> libspectrum_tape_block option) option" where
  "libspectrum_tape_iterator_next tape iterator =
     (case iterator of
        Some a \<Rightarrow> do {
          iterator \<leftarrow> node_next (tape_blocks tape) a;
          block \<leftarrow> libspectrum_tape_iterator_current tape iterator;
          Some (iterator, block) }
      | None \<Rightarrow> Some (None, None))"

definition libspectrum_tape_iterator_peek_next ::
    "libspectrum_tape \<Rightarrow> nat option \<Rightarrow> libspectrum_tape_block option option" where
  "libspectrum_tape_iterator_peek_next tape iterator =
     (case iterator of
        Some a \<Rightarrow> do {
          iterator \<leftarrow> node_next (tape_blocks tape) a;
          libspectrum_tape_iterator_current tape iterator }
      | None \<Rightarrow> Some None)"

section \<open>The list of blocks\<close>

text \<open>\<open>sts\<close> is what the uninitialised union of the new tape holds.\<close>

definition libspectrum_tape_alloc :: "size_t \<Rightarrow> block_states \<Rightarrow> libspectrum_tape" where
  "libspectrum_tape_alloc count sts =
     \<lparr>tape_blocks = [], last_block = None,
      tape_state = \<lparr>current_block = None, loop_block = None, loop_count = count, block_state = sts\<rparr>\<rparr>"

definition libspectrum_tape_clear :: "libspectrum_tape \<Rightarrow> libspectrum_tape" where
  "libspectrum_tape_clear tape =
     (let tape = tape\<lparr>tape_blocks := []\<rparr>
      in tape\<lparr>tape_state := (tape_state tape)\<lparr>current_block := None\<rparr>\<rparr>)"

definition libspectrum_tape_present :: "libspectrum_tape \<Rightarrow> bool" where
  "libspectrum_tape_present tape \<longleftrightarrow> tape_blocks tape \<noteq> []"

text \<open>
  \<open>g_slist_append( tape->last_block, block )->next\<close>: the new node is appended to the chain
  that starts at the last block.
\<close>

definition append_to_last :: "nat \<Rightarrow> libspectrum_tape \<Rightarrow> libspectrum_tape_block \<Rightarrow> libspectrum_tape option" where
  "append_to_last n tape block =
     (case last_block tape of
        None \<Rightarrow> Some tape
      | Some a \<Rightarrow>
          (case chain_at (tape_blocks tape) a of
             [] \<Rightarrow> None
           | x # xs \<Rightarrow>
               (let rest = g_slist_append n (x # xs) block
                in Some (tape\<lparr>tape_blocks := takeWhile (\<lambda>x. fst x \<noteq> a) (tape_blocks tape) @ rest,
                              last_block := head_address (tl rest)\<rparr>))))"

definition libspectrum_tape_append_block ::
    "nat \<Rightarrow> libspectrum_tape \<Rightarrow> libspectrum_tape_block \<Rightarrow> libspectrum_tape option" where
  "libspectrum_tape_append_block n tape block = do {
     tape \<leftarrow> (if tape_blocks tape = [] then
               (let blocks = g_slist_append n (tape_blocks tape) block
                in Some (tape\<lparr>tape_blocks := blocks, last_block := head_address blocks\<rparr>))
             else append_to_last n tape block);
     (if current_block (tape_state tape) = None then do {
        let state = (tape_state tape)\<lparr>current_block := head_address (tape_blocks tape)\<rparr>;
        (_, sts) \<leftarrow> libspectrum_tape_block_init (Some (snd (hd (tape_blocks tape)))) (block_state state);
        Some (tape\<lparr>tape_state := state\<lparr>block_state := sts\<rparr>\<rparr>) }
      else Some tape) }"

definition libspectrum_tape_remove_block :: "libspectrum_tape \<Rightarrow> nat \<Rightarrow> libspectrum_tape option" where
  "libspectrum_tape_remove_block tape it = do {
     _ \<leftarrow> node_data (tape_blocks tape) it;
     let blocks = g_slist_delete_link (tape_blocks tape) it;
     Some (tape\<lparr>tape_blocks := blocks, last_block := head_address (g_slist_last blocks)\<rparr>) }"

text \<open>The position, a \<open>size_t\<close>, is passed as a \<open>gint\<close>.\<close>

definition libspectrum_tape_insert_block ::
    "nat \<Rightarrow> libspectrum_tape \<Rightarrow> libspectrum_tape_block \<Rightarrow> size_t \<Rightarrow> libspectrum_tape" where
  "libspectrum_tape_insert_block n tape block position =
     (let blocks = g_slist_insert n (tape_blocks tape) block (sint (ucast position :: dword))
      in tape\<lparr>tape_blocks := blocks, last_block := head_address (g_slist_last blocks)\<rparr>)"

section \<open>Moving in the tape\<close>

definition libspectrum_tape_current_block :: "libspectrum_tape \<Rightarrow> libspectrum_tape_block option option" where
  "libspectrum_tape_current_block tape =
     libspectrum_tape_iterator_current tape (current_block (tape_state tape))"

definition libspectrum_tape_peek_next_block :: "libspectrum_tape \<Rightarrow> libspectrum_tape_block option option" where
  "libspectrum_tape_peek_next_block tape =
     (case current_block (tape_state tape) of
        None \<Rightarrow> Some None
      | Some a \<Rightarrow> do {
          next \<leftarrow> node_next (tape_blocks tape) a;
          block \<leftarrow> libspectrum_tape_iterator_current tape next;
          (if block \<noteq> None then Some block
           else (case tape_blocks tape of [] \<Rightarrow> None | x # _ \<Rightarrow> Some (Some (snd x)))) })"

definition libspectrum_tape_peek_last_block :: "libspectrum_tape \<Rightarrow> libspectrum_tape_block option option" where
  "libspectrum_tape_peek_last_block tape =
     (case last_block tape of None \<Rightarrow> Some None
      | Some a \<Rightarrow> map_option Some (node_data (tape_blocks tape) a))"

text \<open>Start the block at the tape's own iterator.\<close>

definition start_block :: "libspectrum_tape \<Rightarrow> libspectrum_tape_block option \<Rightarrow> libspectrum_tape c_result" where
  "start_block tape block = do {
     (e, sts) \<leftarrow> libspectrum_tape_block_init block (block_state (tape_state tape));
     Some (e, tape\<lparr>tape_state := (tape_state tape)\<lparr>block_state := sts\<rparr>\<rparr>) }"

abbreviation set_current :: "nat option \<Rightarrow> libspectrum_tape \<Rightarrow> libspectrum_tape" where
  "set_current c tape \<equiv> tape\<lparr>tape_state := (tape_state tape)\<lparr>current_block := c\<rparr>\<rparr>"

definition libspectrum_tape_select_next_block ::
    "libspectrum_tape \<Rightarrow> (libspectrum_tape_block option \<times> libspectrum_tape) option" where
  "libspectrum_tape_select_next_block tape =
     (if current_block (tape_state tape) = None then Some (None, tape)
      else do {
        (c, block) \<leftarrow> libspectrum_tape_iterator_next tape (current_block (tape_state tape));
        (c, block) \<leftarrow> (if block = None then libspectrum_tape_iterator_init tape else Some (c, block));
        (e, tape) \<leftarrow> start_block (set_current c tape) block;
        Some (if e \<noteq> ERROR_NONE then None else block, tape) })"

definition libspectrum_tape_position :: "libspectrum_tape \<Rightarrow> libspectrum_error \<times> int" where
  "libspectrum_tape_position tape =
     (let n = g_slist_position (tape_blocks tape) (current_block (tape_state tape))
      in (if n = - 1 then ERROR_LOGIC else ERROR_NONE, n))"

text \<open>An \<open>int\<close> position is converted to the \<open>guint\<close> of \<open>g_slist_nth\<close>.\<close>

definition nth_node :: "libspectrum_tape \<Rightarrow> int \<Rightarrow> libspectrum_tape_block gslist" where
  "nth_node tape n = g_slist_nth (tape_blocks tape) (unat (word_of_int n :: dword))"

definition libspectrum_tape_nth_block :: "libspectrum_tape \<Rightarrow> int \<Rightarrow> libspectrum_tape c_result" where
  "libspectrum_tape_nth_block tape n =
     (case nth_node tape n of
        [] \<Rightarrow> Some (ERROR_CORRUPT, tape)
      | x # _ \<Rightarrow> start_block (set_current (Some (fst x)) tape) (Some (snd x)))"

definition jump_blocks :: "libspectrum_tape \<Rightarrow> int \<Rightarrow> libspectrum_error \<times> libspectrum_tape" where
  "jump_blocks tape jump =
     (let current_position = g_slist_position (tape_blocks tape) (current_block (tape_state tape))
      in if current_position = - 1 then (ERROR_LOGIC, tape)
         else (case nth_node tape (current_position + jump) of
                 [] \<Rightarrow> (ERROR_CORRUPT, tape)
               | x # _ \<Rightarrow> (ERROR_NONE, set_current (Some (fst x)) tape)))"

text \<open>Set up a state of the caller at the start of the tape.\<close>

definition libspectrum_tape_block_internal_init ::
    "tape_block_state \<Rightarrow> libspectrum_tape option
       \<Rightarrow> (libspectrum_tape_block option \<times> tape_block_state) option" where
  "libspectrum_tape_block_internal_init it tape =
     (case tape of
        None \<Rightarrow> Some (None, it)
      | Some tape \<Rightarrow>
          (case tape_blocks tape of
             [] \<Rightarrow> Some (None, it)
           | x # _ \<Rightarrow> do {
               let it = it\<lparr>current_block := Some (fst x)\<rparr>;
               (e, sts) \<leftarrow> libspectrum_tape_block_init (Some (snd x)) (block_state it);
               let it = it\<lparr>block_state := sts\<rparr>;
               (if e \<noteq> ERROR_NONE then Some (None, it)
                else do {
                  block \<leftarrow> libspectrum_tape_iterator_current tape (current_block it);
                  Some (block, it) }) }))"

section \<open>The next edge\<close>

text \<open>The state that \<open>it\<close> points to, and a write through it.\<close>

definition it_state :: "libspectrum_tape \<Rightarrow> tape_block_state option \<Rightarrow> tape_block_state" where
  "it_state tape it = (case it of None \<Rightarrow> tape_state tape | Some s \<Rightarrow> s)"

definition set_it :: "tape_block_state \<Rightarrow> libspectrum_tape \<Rightarrow> tape_block_state option
    \<Rightarrow> libspectrum_tape \<times> tape_block_state option" where
  "set_it s tape it = (case it of None \<Rightarrow> (tape\<lparr>tape_state := s\<rparr>, None) | Some _ \<Rightarrow> (tape, Some s))"

text \<open>
  The switch of \<open>libspectrum_tape_get_next_edge_internal\<close>; the result has the flag
  \<open>no_advance\<close> after the error.
\<close>

type_synonym step_result =
  "(libspectrum_error \<times> bool \<times> libspectrum_tape \<times> tape_block_state option \<times> edge_io) option"

text \<open>\<open>*tstates = 0; *flags |= f; end_of_block = 1;\<close>\<close>

definition end_with :: "dword \<Rightarrow> edge_io \<Rightarrow> edge_io" where
  "end_with f io = (set_flag f (io\<lparr>tstates := 0\<rparr>))\<lparr>end_of_block := True\<rparr>"

definition loop_start_step :: "libspectrum_tape \<Rightarrow> tape_block_state option \<Rightarrow> int \<Rightarrow> edge_io \<Rightarrow> step_result" where
  "loop_start_step tape it count io = do {
     let s = it_state tape it;
     c \<leftarrow> current_block s;
     next \<leftarrow> node_next (tape_blocks tape) c;
     let s = (if next \<noteq> None \<and> count \<noteq> 0
              then s\<lparr>loop_block := next, loop_count := word_of_int count\<rparr> else s);
     let (tape, it) = set_it s tape it;
     Some (ERROR_NONE, False, tape, it, end_with FLAGS_NO_EDGE io) }"

definition loop_end_step :: "libspectrum_tape \<Rightarrow> tape_block_state option \<Rightarrow> edge_io \<Rightarrow> step_result" where
  "loop_end_step tape it io =
     (let s = it_state tape it;
          (no_advance, s) =
            (if loop_block s \<noteq> None then
               (let s = s\<lparr>loop_count := loop_count s - 1\<rparr>
                in if loop_count s \<noteq> 0 then (True, s\<lparr>current_block := loop_block s\<rparr>)
                   else (False, s\<lparr>loop_block := None\<rparr>))
             else (False, s));
          (tape, it) = set_it s tape it
      in Some (ERROR_NONE, no_advance, tape, it, end_with FLAGS_NO_EDGE io))"

definition pause_step :: "pause_block \<Rightarrow> edge_io \<Rightarrow> edge_io" where
  "pause_step b io =
     (let io = io\<lparr>tstates := pause_length_tstates b, end_of_block := True\<rparr>;
          io = (if pause_level b \<noteq> -1 \<and> pause_length_tstates b \<noteq> 0
                then set_flag (if pause_level b \<noteq> 0 then FLAGS_LEVEL_HIGH else FLAGS_LEVEL_LOW) io
                else io)
      in if tstates io = 0 then set_flag FLAGS_STOP io else io)"

definition generator_step ::
    "libspectrum_tape_block \<Rightarrow> libspectrum_tape \<Rightarrow> tape_block_state option \<Rightarrow> edge_io \<Rightarrow> step_result" where
  "generator_step block tape it io = do {
     let s = it_state tape it;
     (e, sts, io) \<leftarrow> signal_edge block (block_state s) io;
     let (tape, it) = set_it (s\<lparr>block_state := sts\<rparr>) tape it;
     Some (e, False, tape, it, io) }"

definition block_step ::
    "libspectrum_tape_block \<Rightarrow> libspectrum_tape \<Rightarrow> tape_block_state option \<Rightarrow> edge_io \<Rightarrow> step_result" where
  "block_step block tape it io =
     (case block of
        PAUSE b \<Rightarrow> Some (ERROR_NONE, False, tape, it, pause_step b io)
      | JUMP jump \<Rightarrow>
          (let (e, tape) = jump_blocks tape jump
           in if e \<noteq> ERROR_NONE then Some (e, False, tape, it, io)
              else Some (ERROR_NONE, True, tape, it, end_with FLAGS_NO_EDGE io))
      | LOOP_START count \<Rightarrow> loop_start_step tape it count io
      | LOOP_END \<Rightarrow> loop_end_step tape it io
      | STOP48 \<Rightarrow> Some (ERROR_NONE, False, tape, it, end_with FLAGS_STOP48 io)
      | SET_SIGNAL_LEVEL level \<Rightarrow>
          Some (ERROR_NONE, False, tape, it,
            end_with (if level \<noteq> 0 then FLAGS_LEVEL_LOW else FLAGS_LEVEL_HIGH) io)
      | CONCAT \<Rightarrow> Some (ERROR_LOGIC, False, tape, it, io\<lparr>tstates := 0\<rparr>)
      | GROUP_START _ \<Rightarrow> Some (ERROR_NONE, False, tape, it, end_with FLAGS_NO_EDGE io)
      | GROUP_END \<Rightarrow> Some (ERROR_NONE, False, tape, it, end_with FLAGS_NO_EDGE io)
      | SELECT _ \<Rightarrow> Some (ERROR_NONE, False, tape, it, end_with FLAGS_NO_EDGE io)
      | COMMENT _ \<Rightarrow> Some (ERROR_NONE, False, tape, it, end_with FLAGS_NO_EDGE io)
      | MESSAGE _ \<Rightarrow> Some (ERROR_NONE, False, tape, it, end_with FLAGS_NO_EDGE io)
      | ARCHIVE_INFO _ \<Rightarrow> Some (ERROR_NONE, False, tape, it, end_with FLAGS_NO_EDGE io)
      | HARDWARE _ \<Rightarrow> Some (ERROR_NONE, False, tape, it, end_with FLAGS_NO_EDGE io)
      | CUSTOM _ \<Rightarrow> Some (ERROR_NONE, False, tape, it, end_with FLAGS_NO_EDGE io)
      | _ \<Rightarrow> generator_step block tape it io)"

text \<open>\<open>*flags &= ~f\<close>\<close>

definition clear_flag :: "dword \<Rightarrow> edge_io \<Rightarrow> edge_io" where
  "clear_flag f io = io\<lparr>flags := flags io AND NOT f\<rparr>"

text \<open>The end of a block: move to the next block, back to the start after the last.\<close>

definition next_block_step ::
    "libspectrum_tape \<Rightarrow> tape_block_state option \<Rightarrow> edge_io
       \<Rightarrow> (libspectrum_tape \<times> tape_block_state option \<times> edge_io) option" where
  "next_block_step tape it io = do {
     let s = it_state tape it;
     (c, block) \<leftarrow> libspectrum_tape_iterator_next tape (current_block s);
     (if block = None then do {
        let io = clear_flag FLAGS_NO_EDGE (set_flag FLAGS_TAPE (set_flag FLAGS_STOP io));
        (c, _) \<leftarrow> libspectrum_tape_iterator_init tape;
        let (tape, it) = set_it (s\<lparr>current_block := c\<rparr>) tape it;
        Some (tape, it, io) }
      else
        (let (tape, it) = set_it (s\<lparr>current_block := c\<rparr>) tape it in Some (tape, it, io))) }"

definition init_block_step ::
    "libspectrum_tape \<Rightarrow> tape_block_state option
       \<Rightarrow> (libspectrum_error \<times> libspectrum_tape \<times> tape_block_state option) option" where
  "init_block_step tape it = do {
     let s = it_state tape it;
     block \<leftarrow> libspectrum_tape_iterator_current tape (current_block s);
     (e, sts) \<leftarrow> libspectrum_tape_block_init block (block_state s);
     let (tape, it) = set_it (s\<lparr>block_state := sts\<rparr>) tape it;
     Some (e, tape, it) }"

definition libspectrum_tape_get_next_edge_internal ::
    "dword \<Rightarrow> libspectrum_tape \<Rightarrow> tape_block_state option
       \<Rightarrow> (libspectrum_error \<times> libspectrum_tape \<times> tape_block_state option \<times> edge_io) option" where
  "libspectrum_tape_get_next_edge_internal t0 tape it = do {
     block \<leftarrow> libspectrum_tape_iterator_current tape (current_block (it_state tape it));
     let io = \<lparr>tstates = t0, end_of_block = False, flags = 0\<rparr>;
     (e, no_advance, tape, it, io) \<leftarrow>
       (case block of
          Some b \<Rightarrow> block_step b tape it io
        | None \<Rightarrow> Some (ERROR_NONE, False, tape, it, io\<lparr>tstates := 0, end_of_block := True\<rparr>));
     (if e \<noteq> ERROR_NONE \<or> \<not> end_of_block io then Some (e, tape, it, io)
      else do {
        let io = set_flag FLAGS_BLOCK io;
        (tape, it, io) \<leftarrow> (if no_advance then Some (tape, it, io) else next_block_step tape it io);
        (e, tape, it) \<leftarrow> init_block_step tape it;
        Some (e, tape, it, io) }) }"

text \<open>\<open>t0\<close> is what \<open>*tstates\<close> holds before the call.\<close>

definition libspectrum_tape_get_next_edge ::
    "dword \<Rightarrow> libspectrum_tape \<Rightarrow> (libspectrum_error \<times> libspectrum_tape \<times> edge_io) option" where
  "libspectrum_tape_get_next_edge t0 tape =
     map_option (\<lambda>(e, tape, _, io). (e, tape, io)) (libspectrum_tape_get_next_edge_internal t0 tape None)"

section \<open>State of the current block\<close>

definition libspectrum_tape_state :: "libspectrum_tape \<Rightarrow> libspectrum_tape_state_type option" where
  "libspectrum_tape_state tape = do {
     block \<leftarrow> libspectrum_tape_current_block tape;
     block \<leftarrow> block;
     let sts = block_state (tape_state tape);
     Some (case block of
         PURE_DATA _ \<Rightarrow> pds_state (st_pure_data sts)
       | RAW_DATA _ \<Rightarrow> rds_state (st_raw_data sts)
       | ROM _ \<Rightarrow> rs_state (st_rom sts)
       | TURBO _ \<Rightarrow> tbs_state (st_turbo sts)
       | _ \<Rightarrow> STATE_INVALID) }"

definition libspectrum_tape_set_state ::
    "libspectrum_tape \<Rightarrow> libspectrum_tape_state_type \<Rightarrow> libspectrum_tape c_result" where
  "libspectrum_tape_set_state tape x = do {
     block \<leftarrow> libspectrum_tape_current_block tape;
     block \<leftarrow> block;
     let sts = block_state (tape_state tape);
     let put = (\<lambda>sts. tape\<lparr>tape_state := (tape_state tape)\<lparr>block_state := sts\<rparr>\<rparr>);
     Some (case block of
         PURE_DATA _ \<Rightarrow> (ERROR_NONE, put (sts\<lparr>st_pure_data := (st_pure_data sts)\<lparr>pds_state := x\<rparr>\<rparr>))
       | RAW_DATA _ \<Rightarrow> (ERROR_NONE, put (sts\<lparr>st_raw_data := (st_raw_data sts)\<lparr>rds_state := x\<rparr>\<rparr>))
       | ROM _ \<Rightarrow> (ERROR_NONE, put (sts\<lparr>st_rom := (st_rom sts)\<lparr>rs_state := x\<rparr>\<rparr>))
       | TURBO _ \<Rightarrow> (ERROR_NONE, put (sts\<lparr>st_turbo := (st_turbo sts)\<lparr>tbs_state := x\<rparr>\<rparr>))
       | _ \<Rightarrow> (ERROR_INVALID, tape)) }"

section \<open>Descriptions and hardware\<close>

fun description_text :: "libspectrum_tape_block \<Rightarrow> string option" where
  "description_text (ROM _) = Some ''Standard Speed Data''"
| "description_text (TURBO _) = Some ''Turbo Speed Data''"
| "description_text (PURE_TONE _) = Some ''Pure Tone''"
| "description_text (PULSES _) = Some ''List of Pulses''"
| "description_text (PURE_DATA _) = Some ''Pure Data''"
| "description_text (RAW_DATA _) = Some ''Raw Data''"
| "description_text (GENERALISED_DATA _) = Some ''Generalised Data''"
| "description_text (PAUSE _) = Some ''Pause''"
| "description_text (GROUP_START _) = Some ''Group Start''"
| "description_text GROUP_END = Some ''Group End''"
| "description_text (JUMP _) = Some ''Jump''"
| "description_text (LOOP_START _) = Some ''Loop Start Block''"
| "description_text LOOP_END = Some ''Loop End''"
| "description_text (SELECT _) = Some ''Select''"
| "description_text STOP48 = Some ''Stop Tape If In 48K Mode''"
| "description_text (SET_SIGNAL_LEVEL _) = Some ''Set Signal Level''"
| "description_text (COMMENT _) = Some ''Comment''"
| "description_text (MESSAGE _) = Some ''Message''"
| "description_text (ARCHIVE_INFO _) = Some ''Archive Info''"
| "description_text (HARDWARE _) = Some ''Hardware Information''"
| "description_text (CUSTOM _) = Some ''Custom Info''"
| "description_text (RLE_PULSE _) = Some ''RLE Pulse''"
| "description_text (PULSE_SEQUENCE _) = Some ''Pulse Sequence''"
| "description_text (DATA_BLOCK _) = Some ''Data Block''"
| "description_text CONCAT = None"

text \<open>\<open>strncpy( buffer, text, n )\<close>: cut to \<open>n\<close> characters or filled up with NULs.\<close>

definition strncpy :: "string \<Rightarrow> string \<Rightarrow> nat \<Rightarrow> string option" where
  "strncpy buf src n = memcpy_at buf 0 (take n (src @ replicate n (CHR 0x00))) n"

definition libspectrum_tape_block_description ::
    "string \<Rightarrow> nat \<Rightarrow> libspectrum_tape_block \<Rightarrow> string c_result" where
  "libspectrum_tape_block_description buf n block =
     (case description_text block of
        None \<Rightarrow> Some (ERROR_LOGIC, buf)
      | Some t \<Rightarrow> do {
          buf \<leftarrow> strncpy buf t n;
          buf \<leftarrow> (if n = 0 then None else nset buf (n - 1) (CHR 0x00));
          Some (ERROR_NONE, buf) })"

text \<open>The machine of a hardware id; other ids leave the guess and its score alone.\<close>

definition hardware_machine :: "int \<Rightarrow> libspectrum_machine option" where
  "hardware_machine i =
     (if i = 0 then Some MACHINE_16
      else if i = 1 \<or> i = 2 then Some MACHINE_48
      else if i = 3 then Some MACHINE_128
      else if i = 4 then Some MACHINE_PLUS2
      else if i = 5 then Some MACHINE_PLUS3
      else if i = 6 then Some MACHINE_TC2048
      else None)"

fun guess_entries :: "hardware_block \<Rightarrow> nat \<Rightarrow> nat \<Rightarrow> libspectrum_machine \<times> int
    \<Rightarrow> (libspectrum_machine \<times> int) option" where
  "guess_entries hw i 0 g = Some g"
| "guess_entries hw i (Suc n) (machine, current_score) = do {
     t \<leftarrow> nget (hw_types hw) i;
     (if t \<noteq> 0 then guess_entries hw (i + 1) n (machine, current_score)
      else do {
        v \<leftarrow> nget (hw_values hw) i;
        (if v = 3 then guess_entries hw (i + 1) n (machine, current_score)
         else do {
           let score = (if v = 1 then 2 else 1);
           (if score \<le> current_score then guess_entries hw (i + 1) n (machine, current_score)
            else do {
              ident \<leftarrow> nget (hw_ids hw) i;
              guess_entries hw (i + 1) n
                (case hardware_machine ident of
                   Some m \<Rightarrow> (m, score) | None \<Rightarrow> (machine, current_score)) }) }) }) }"

fun guess_blocks :: "libspectrum_tape_block list \<Rightarrow> libspectrum_machine \<times> int
    \<Rightarrow> (libspectrum_machine \<times> int) option" where
  "guess_blocks [] g = Some g"
| "guess_blocks (b # bs) g =
     (case b of
        HARDWARE hw \<Rightarrow> guess_entries hw 0 (unat (hw_count hw)) g \<bind> guess_blocks bs
      | _ \<Rightarrow> guess_blocks bs g)"

definition libspectrum_tape_guess_hardware :: "libspectrum_tape \<Rightarrow> libspectrum_machine option" where
  "libspectrum_tape_guess_hardware tape =
     (if \<not> libspectrum_tape_present tape then Some MACHINE_UNKNOWN
      else map_option fst (guess_blocks (map snd (tape_blocks tape)) (MACHINE_UNKNOWN, 0)))"

end
