(* ===== verification/Tape_Ready.thy ===== *)
theory Tape_Ready
  imports Tape_Init
begin

text \<open>
  The generators of raw data, pulse sequence and PZX data blocks: when a block is well-formed,
  its initialiser leaves a state its generator can go on from, and every edge either ends the
  block or leaves such a state. In particular the loops that look for the next edge end.
\<close>

section \<open>Raw data\<close>

text \<open>Samples are read from a data object at least as long as the length in the block.\<close>

definition raw_block_ok :: "raw_data_block \<Rightarrow> bool" where
  "raw_block_ok b \<longleftrightarrow>
     (case rd_data b of
        None \<Rightarrow> True
      | Some d \<Rightarrow> d \<noteq> [] \<and> unat (rd_length b) \<le> length d \<and>
          (rd_length b \<noteq> 0 \<longrightarrow> 1 \<le> unat (rd_bits_in_last_byte b) \<and> unat (rd_bits_in_last_byte b) \<le> 8))"

definition raw_inside :: "raw_data_block \<Rightarrow> raw_data_block_state \<Rightarrow> bool" where
  "raw_inside b s \<longleftrightarrow> unat (rds_bytes_through_block s) < unat (rd_length b) \<and>
     unat (rds_bits_through_byte s) < 8"

definition raw_ready :: "raw_data_block \<Rightarrow> raw_data_block_state \<Rightarrow> bool" where
  "raw_ready b s \<longleftrightarrow> rds_state s = STATE_PAUSE \<or>
     rds_state s = STATE_DATA1 \<and> rd_data b \<noteq> None \<and>
       (rds_bytes_through_block s = rd_length b \<or> raw_inside b s)"

definition raw_left :: "raw_data_block \<Rightarrow> raw_data_block_state \<Rightarrow> nat" where
  "raw_left b s = (unat (rd_length b) - unat (rds_bytes_through_block s)) * 8
     - unat (rds_bits_through_byte s)"

lemma unat_Suc_below:
  assumes "unat (i :: size_t) < unat (n :: size_t)"
  shows "unat (i + 1) = unat i + 1"
proof -
  have "unat n < 2 ^ LENGTH(64)" by (rule unsigned_less)
  then have "unat i + unat (1 :: size_t) < 2 ^ LENGTH(64)" using assms by simp
  then show ?thesis by (simp only: unat_plus_if' if_True) simp
qed

lemma last_byte_bits: "1 \<le> unat n \<Longrightarrow> unat n \<le> 8 \<Longrightarrow> unat (8 - n :: size_t) < 8"
  by (subst unat_sub) (auto simp: word_le_nat_alt)

lemma raw_next_sample_cases:
  assumes "raw_inside b s" "1 \<le> unat (rd_bits_in_last_byte b)" "unat (rd_bits_in_last_byte b) \<le> 8"
    and "raw_data_next_sample b s = (finished, s')"
  shows "rds_state s' = rds_state s \<and>
    (if finished then rds_bytes_through_block s' = rd_length b
     else raw_inside b s' \<and> raw_left b s' < raw_left b s)"
proof -
  let ?i = "rds_bytes_through_block s" and ?k = "rds_bits_through_byte s"
  have i: "unat ?i < unat (rd_length b)" and k: "unat ?k < 8"
    using assms(1) by (auto simp: raw_inside_def)
  have i1: "unat (?i + 1) = unat ?i + 1" by (rule unat_Suc_below [OF i])
  have k1: "unat (?k + 1) = unat ?k + 1" using k by (subst unat_plus_if') auto
  show ?thesis
  proof (cases "?k + 1 = 8")
    case False
    then have "unat ?k + 1 \<noteq> 8" using k1 by (auto simp: word_unat_eq_iff)
    then have "unat (?k + 1) < 8" using k1 k by simp
    then show ?thesis using assms(4) False i k1
      by (auto simp: raw_data_next_sample_def raw_inside_def raw_left_def Let_def)
  next
    case True
    then have k7: "unat ?k = 7" using k1 by simp
    have more: "unat (?i + 1) < unat (rd_length b)" if "?i + 1 \<noteq> rd_length b"
      using that i i1 by (simp add: word_unat_eq_iff)
    have bits: "unat (if ?i + 1 = rd_length b - 1 then 8 - rd_bits_in_last_byte b else 0) < 8"
      using last_byte_bits [OF assms(2,3)] by simp
    show ?thesis using assms(4) True more bits i i1 k7
      by (auto simp: raw_data_next_sample_def raw_inside_def raw_left_def Let_def split: if_splits)
  qed
qed

lemma raw_differs_defined:
  assumes "raw_inside b s" "rd_data b = Some d" "unat (rd_length b) \<le> length d"
  shows "\<exists>x. raw_data_level_differs b s = Some x"
  using assms by (auto simp: raw_data_level_differs_def raw_inside_def aget_def)

lemma raw_run_ends:
  assumes "raw_inside b s" "rd_data b = Some d" "unat (rd_length b) \<le> length d"
    "1 \<le> unat (rd_bits_in_last_byte b)" "unat (rd_bits_in_last_byte b) \<le> 8"
  shows "\<exists>len' s'. raw_data_run b len s = Some (len', s') \<and> rds_state s' = rds_state s \<and>
    (rds_bytes_through_block s' = rd_length b \<or> raw_inside b s')"
  using assms(1)
proof (induction "raw_left b s" arbitrary: len s rule: less_induct)
  case less
  obtain finished s1 where next_sample: "raw_data_next_sample b s = (finished, s1)" by force
  note cases = raw_next_sample_cases [OF less.prems assms(4,5) next_sample]
  show ?case
  proof (cases finished)
    case True
    then show ?thesis using cases next_sample by (subst raw_data_run.simps) simp
  next
    case False
    then obtain x where "raw_data_level_differs b s1 = Some x"
      using raw_differs_defined [OF _ assms(2,3), of s1] cases by auto
    then show ?thesis
      using False cases next_sample less.hyps [of s1 "len + 1"]
      by (subst raw_data_run.simps) (cases x; auto simp: Let_def)
  qed
qed

lemma raw_next_bit_ready:
  assumes ok: "raw_block_ok b" "rd_data b \<noteq> None"
    and s: "rds_bytes_through_block s = rd_length b \<or> raw_inside b s"
  shows "\<exists>s'. libspectrum_tape_raw_data_next_bit b s = Some s' \<and> raw_ready b s'"
proof (cases "rds_bytes_through_block s = rd_length b")
  case True
  then show ?thesis by (simp add: libspectrum_tape_raw_data_next_bit_def raw_ready_def)
next
  case False
  obtain d where d: "rd_data b = Some d" "unat (rd_length b) \<le> length d" "rd_length b \<noteq> 0 \<longrightarrow>
      1 \<le> unat (rd_bits_in_last_byte b) \<and> unat (rd_bits_in_last_byte b) \<le> 8"
    using ok by (auto simp: raw_block_ok_def)
  have "rd_length b \<noteq> 0" using s False by (auto simp: raw_inside_def)
  then have bits: "1 \<le> unat (rd_bits_in_last_byte b)" "unat (rd_bits_in_last_byte b) \<le> 8"
    using d(3) by auto
  have "raw_inside b (s\<lparr>rds_state := STATE_DATA1\<rparr>)" using s False by (simp add: raw_inside_def)
  from raw_run_ends [OF this d(1,2) bits, of 0] show ?thesis using False d(1)
    by (auto simp: libspectrum_tape_raw_data_next_bit_def raw_ready_def raw_inside_def)
qed

lemma raw_started:
  assumes ok: "raw_block_ok b"
  shows "\<exists>s'. raw_data_init b s = Some s' \<and> raw_ready b s'"
proof (cases "rd_data b")
  case None
  then show ?thesis by (simp add: raw_data_init_def raw_ready_def)
next
  case (Some d)
  then have d: "d \<noteq> []" "unat (rd_length b) \<le> length d" "rd_length b \<noteq> 0 \<longrightarrow>
      1 \<le> unat (rd_bits_in_last_byte b) \<and> unat (rd_bits_in_last_byte b) \<le> 8"
    using ok by (auto simp: raw_block_ok_def)
  define s0 where "s0 = s\<lparr>rds_state := STATE_DATA1, rds_bytes_through_block := -1,
    rds_bits_through_byte := 7, rds_last_bit := 0x80 AND hd d\<rparr>"
  have s0: "s0\<lparr>rds_state := STATE_DATA1\<rparr> = s0" "rds_state s0 = STATE_DATA1"
    "rds_bytes_through_block s0 = -1" by (simp_all add: s0_def)
  have init: "raw_data_init b s = libspectrum_tape_raw_data_next_bit b s0"
    using Some d(1) by (simp add: raw_data_init_def nget_def hd_conv_nth s0_def)
  show ?thesis
  proof (cases "rd_length b = -1")
    case True
    then show ?thesis unfolding init
      by (simp add: libspectrum_tape_raw_data_next_bit_def raw_ready_def s0)
  next
    case False
    let ?s1 = "s0\<lparr>rds_bytes_through_block := 0, rds_bits_through_byte :=
      (if 0 = rd_length b - 1 then 8 - rd_bits_in_last_byte b else 0)\<rparr>"
    have next_bit: "libspectrum_tape_raw_data_next_bit b s0 = do {
        (len, state) \<leftarrow> raw_data_run b 0 s0;
        Some (state\<lparr>rds_bit_tstates := len * rd_bit_length b, rds_last_bit := rds_last_bit state XOR 0x80\<rparr>) }"
      using False by (simp add: libspectrum_tape_raw_data_next_bit_def s0)
    have sample: "raw_data_next_sample b s0 = (rd_length b = 0, ?s1)"
      by (auto simp: raw_data_next_sample_def Let_def s0_def)
    show ?thesis
    proof (cases "rd_length b = 0")
      case True
      then show ?thesis unfolding init next_bit using sample Some
        by (subst raw_data_run.simps) (simp add: raw_ready_def Let_def s0)
    next
      case nonempty: False
      then have bits: "1 \<le> unat (rd_bits_in_last_byte b)" "unat (rd_bits_in_last_byte b) \<le> 8"
        using d(3) by auto
      have inside: "raw_inside b ?s1"
        using nonempty last_byte_bits [OF bits] by (simp add: raw_inside_def unat_gt_0)
      obtain x where x: "raw_data_level_differs b ?s1 = Some x"
        using raw_differs_defined [OF inside Some d(2)] by blast
      show ?thesis unfolding init next_bit
        using raw_run_ends [OF inside Some d(2) bits, of 1] inside x sample Some nonempty s0(2)
        by (subst raw_data_run.simps) (cases x; auto simp: raw_ready_def raw_inside_def Let_def)
    qed
  qed
qed

lemma raw_edge_ok:
  assumes "raw_block_ok b" "raw_ready b s"
  shows "\<exists>s' io'. raw_data_edge b s io = Some (ERROR_NONE, s', io') \<and> (end_of_block io' \<or> raw_ready b s')"
proof (cases "rds_state s = STATE_PAUSE")
  case True
  then show ?thesis by (simp add: raw_data_edge_def raw_ready_def)
next
  case False
  then have "rds_state s = STATE_DATA1" "rd_data b \<noteq> None"
    "rds_bytes_through_block s = rd_length b \<or> raw_inside b s"
    using assms(2) by (auto simp: raw_ready_def)
  then show ?thesis using raw_next_bit_ready [OF assms(1), of s] by (auto simp: raw_data_edge_def)
qed

section \<open>PZX data\<close>

text \<open>Both bit values have pulses, and the arrays hold as many as are counted.\<close>

definition db_block_ok :: "data_block \<Rightarrow> bool" where
  "db_block_ok b \<longleftrightarrow> unat (db_length b) \<le> length (db_data b) \<and>
     (db_length b \<noteq> 0 \<longrightarrow> 1 \<le> unat (db_bits_in_last_byte b) \<and> unat (db_bits_in_last_byte b) \<le> 8) \<and>
     db_bit0_pulse_count b \<noteq> 0 \<and> unat (db_bit0_pulse_count b) \<le> length (db_bit0_pulses b) \<and>
     db_bit1_pulse_count b \<noteq> 0 \<and> unat (db_bit1_pulse_count b) \<le> length (db_bit1_pulses b)"

definition db_ready :: "data_block \<Rightarrow> data_block_state \<Rightarrow> bool" where
  "db_ready b s \<longleftrightarrow> dbs_state s = STATE_TAIL \<or>
     dbs_state s = STATE_DATA1 \<and>
       unat (dbs_bytes_through_block s) < unat (db_length b) \<and> unat (dbs_bits_through_byte s) < 8 \<and>
       unat (dbs_index s) < unat (dbs_pulse_count s) \<and>
       unat (dbs_pulse_count s) \<le> length (dbs_bit_pulses s)"

lemma db_shift_ready:
  assumes "db_block_ok b" "unat (dbs_bytes_through_block s) < unat (db_length b)"
    "unat (dbs_bits_through_byte s) < 8"
  shows "db_ready b (data_block_shift_bit b s)"
  using assms by (auto simp: data_block_shift_bit_def db_block_ok_def db_ready_def Let_def unat_gt_0)

lemma db_next_bit_ready:
  assumes ok: "db_block_ok b"
    and s: "dbs_bytes_through_block s = -1 \<and> dbs_bits_through_byte s = 7 \<or>
      unat (dbs_bytes_through_block s) < unat (db_length b) \<and> unat (dbs_bits_through_byte s) < 8"
  shows "\<exists>s'. libspectrum_tape_data_block_next_bit b s = Some (ERROR_NONE, s') \<and> db_ready b s'"
proof -
  let ?i = "dbs_bytes_through_block s" and ?k = "dbs_bits_through_byte s"
  have bits: "unat (if ?i + 1 = db_length b - 1 then 8 - db_bits_in_last_byte b else 0) < 8"
    if "db_length b \<noteq> 0"
    using that ok last_byte_bits [of "db_bits_in_last_byte b"] by (auto simp: db_block_ok_def)
  have next_byte: "unat (?i + 1) < unat (db_length b)" "db_length b \<noteq> 0" if "?i + 1 \<noteq> db_length b"
    using that s unat_Suc_below [of ?i "db_length b"] word_unat_eq_iff [of "?i + 1" "db_length b"]
    by (auto simp: unat_gt_0)
  show ?thesis
  proof (cases "?k + 1 = 8")
    case True
    show ?thesis
    proof (cases "?i + 1 = db_length b")
      case False
      have "aget (db_data b) (?i + 1) = Some (db_data b ! unat (?i + 1))"
        using next_byte(1) [OF False] ok by (auto simp: aget_def db_block_ok_def)
      then show ?thesis using True False db_shift_ready [OF ok] next_byte [OF False] bits
        by (simp add: libspectrum_tape_data_block_next_bit_def Let_def)
    qed (use True in \<open>simp add: libspectrum_tape_data_block_next_bit_def db_ready_def Let_def\<close>)
  next
    case False
    then have in_byte: "unat ?i < unat (db_length b)" "unat ?k < 8" using s by auto
    then have "unat (?k + 1) = unat ?k + 1" by (subst unat_plus_if') auto
    then have "unat (?k + 1) < 8" using False in_byte word_unat_eq_iff [of "?k + 1" 8] by auto
    then show ?thesis using False in_byte db_shift_ready [OF ok]
      by (simp add: libspectrum_tape_data_block_next_bit_def Let_def)
  qed
qed

lemma db_started:
  assumes ok: "db_block_ok b"
  shows "\<exists>s'. data_block_init b s = Some (ERROR_NONE, s') \<and> db_ready b s'"
proof -
  have "1 < length (db_bit0_pulses b)" if "db_bit0_pulse_count b = 2"
    using that ok by (auto simp: db_block_ok_def)
  moreover have "1 < length (db_bit1_pulses b)" if "db_bit1_pulse_count b = 2"
    using that ok by (auto simp: db_block_ok_def)
  ultimately have "\<exists>f. data_block_bit_flags b = Some f"
    by (auto simp: data_block_bit_flags_def nget_def)
  then show ?thesis using db_next_bit_ready [OF ok] by (auto simp: data_block_init_def Let_def)
qed

lemma db_edge_ok:
  assumes ok: "db_block_ok b" and ready: "db_ready b s"
  shows "\<exists>s' io'. data_block_edge b s io = Some (ERROR_NONE, s', io') \<and> (end_of_block io' \<or> db_ready b s')"
proof (cases "dbs_state s = STATE_TAIL")
  case True
  then show ?thesis
    by (simp add: data_block_edge_def data_block_level_def do_tail_pause_def db_ready_def Let_def)
next
  case False
  then have s: "dbs_state s = STATE_DATA1" "unat (dbs_bytes_through_block s) < unat (db_length b)"
    "unat (dbs_bits_through_byte s) < 8" "unat (dbs_index s) < unat (dbs_pulse_count s)"
    "unat (dbs_pulse_count s) \<le> length (dbs_bit_pulses s)"
    using ready by (auto simp: db_ready_def)
  have t: "aget (dbs_bit_pulses s) (dbs_index s) = Some (dbs_bit_pulses s ! unat (dbs_index s))"
    using s by (simp add: aget_def)
  have level: "\<exists>s2 io2. data_block_level (Some (ERROR_NONE, s1, io1)) = Some (ERROR_NONE, s2, io2) \<and>
      (end_of_block io2 \<or> db_ready b s2)" if "db_ready b s1" for s1 io1
    using that by (auto simp: data_block_level_def db_ready_def)
  show ?thesis
  proof (cases "dbs_index s + 1 = dbs_pulse_count s")
    case True
    obtain s1 where "libspectrum_tape_data_block_next_bit b (s\<lparr>dbs_index := dbs_index s + 1\<rparr>) =
        Some (ERROR_NONE, s1)" "db_ready b s1"
      using db_next_bit_ready [OF ok, of "s\<lparr>dbs_index := dbs_index s + 1\<rparr>"] s by auto
    then show ?thesis using True s(1) t level by (simp add: data_block_edge_def edge_after_def Let_def)
  next
    case False
    then have "unat (dbs_index s + 1) < unat (dbs_pulse_count s)"
      using s(4) unat_Suc_below [OF s(4)] word_unat_eq_iff [of "dbs_index s + 1" "dbs_pulse_count s"]
      by auto
    then have "db_ready b (s\<lparr>dbs_index := dbs_index s + 1\<rparr>)" using s by (simp add: db_ready_def)
    then show ?thesis using False s(1) t level by (simp add: data_block_edge_def Let_def)
  qed
qed

section \<open>Pulse sequences\<close>

definition ps_block_ok :: "pulse_sequence_block \<Rightarrow> bool" where
  "ps_block_ok b \<longleftrightarrow> ps_count b \<noteq> 0 \<and> unat (ps_count b) \<le> length (ps_lengths b) \<and>
     unat (ps_count b) \<le> length (ps_pulse_repeats b) \<and>
     (\<forall>i < unat (ps_count b). ps_pulse_repeats b ! i \<noteq> 0)"

definition ps_ready :: "pulse_sequence_block \<Rightarrow> pulse_sequence_block_state \<Rightarrow> bool" where
  "ps_ready b s \<longleftrightarrow> unat (pss_index s) < unat (ps_count b) \<and>
     unat (pss_pulse_count s) < unat (ps_pulse_repeats b ! unat (pss_index s))"

text \<open>What is left: entries first, then pulses of the entry.\<close>

definition ps_left :: "pulse_sequence_block \<Rightarrow> pulse_sequence_block_state \<Rightarrow> nat \<times> nat" where
  "ps_left b s = (unat (ps_count b) - unat (pss_index s),
     unat (ps_pulse_repeats b ! unat (pss_index s)) - unat (pss_pulse_count s))"

lemma ps_next_ready:
  assumes ok: "ps_block_ok b" and ready: "ps_ready b s" and io: "\<not> end_of_block io"
  shows "\<exists>s' io'. pulse_sequence_next b s io = Some (s', io') \<and>
    (end_of_block io' \<or> ps_ready b s' \<and> (ps_left b s', ps_left b s) \<in> less_than <*lex*> less_than)"
proof -
  let ?i = "pss_index s" and ?k = "pss_pulse_count s"
  have i: "unat ?i < unat (ps_count b)" using ready by (simp add: ps_ready_def)
  have reads: "aget (ps_lengths b) ?i = Some (ps_lengths b ! unat ?i)"
    "aget (ps_pulse_repeats b) ?i = Some (ps_pulse_repeats b ! unat ?i)"
    using i ok by (auto simp: aget_def ps_block_ok_def)
  have k: "unat ?k < unat (ps_pulse_repeats b ! unat ?i)" using ready by (simp add: ps_ready_def)
  note i1 = unat_Suc_below [OF i] and k1 = unat_Suc_below [OF k]
  show ?thesis
  proof (cases "?k + 1 = ps_pulse_repeats b ! unat ?i")
    case False
    then have "unat (?k + 1) < unat (ps_pulse_repeats b ! unat ?i)"
      using k k1 word_unat_eq_iff [of "?k + 1" "ps_pulse_repeats b ! unat ?i"] by auto
    then show ?thesis using False i k k1 reads
      by (auto simp: pulse_sequence_next_def ps_ready_def ps_left_def Let_def)
  next
    case True
    show ?thesis
    proof (cases "ps_count b \<le> ?i + 1")
      case False
      then have next_i: "unat ?i + 1 < unat (ps_count b)" using i1 by (simp add: word_le_nat_alt)
      then have "0 < unat (ps_pulse_repeats b ! (unat ?i + 1))"
        using ok by (auto simp: ps_block_ok_def unat_gt_0)
      then show ?thesis using True False next_i i1 reads
        by (auto simp: pulse_sequence_next_def ps_ready_def ps_left_def Let_def)
    qed (use True reads in \<open>simp add: pulse_sequence_next_def Let_def\<close>)
  qed
qed

lemma ps_skip_ends:
  assumes ok: "ps_block_ok b" and ready: "\<not> end_of_block io \<Longrightarrow> ps_ready b s"
  shows "\<exists>l s' io'. pulse_sequence_skip b level s io = Some (l, s', io') \<and>
    (end_of_block io' \<or> ps_ready b s')"
  using ready
proof (induction "ps_left b s" arbitrary: level s io
    rule: wf_induct_rule [OF wf_lex_prod [OF wf_less_than wf_less_than]])
  case 1
  show ?case
  proof (cases "tstates io \<noteq> 0 \<or> end_of_block io")
    case True
    then show ?thesis using 1(2) by (subst pulse_sequence_skip.simps) auto
  next
    case False
    then obtain s1 io1 where n: "pulse_sequence_next b s io = Some (s1, io1)"
      "end_of_block io1 \<or> ps_ready b s1 \<and> (ps_left b s1, ps_left b s) \<in> less_than <*lex*> less_than"
      using ps_next_ready [OF ok 1(2)] by blast
    show ?thesis
    proof (cases "end_of_block io1")
      case True
      then show ?thesis using False n(1)
        by (subst pulse_sequence_skip.simps) (simp, subst pulse_sequence_skip.simps, simp)
    next
      case running: False
      then show ?thesis using False n 1(1) [of s1 io1 "lnot level"]
        by (subst pulse_sequence_skip.simps) simp
    qed
  qed
qed

lemma ps_started:
  "ps_block_ok b \<Longrightarrow> ps_ready b (s\<lparr>pss_index := 0, pss_pulse_count := 0, pss_level := l\<rparr>)"
  by (auto simp: ps_block_ok_def ps_ready_def unat_gt_0)

lemma ps_edge_ok:
  assumes ok: "ps_block_ok b" and ready: "ps_ready b s" and io: "\<not> end_of_block io"
  shows "\<exists>s' io'. pulse_sequence_edge b s io = Some (ERROR_NONE, s', io') \<and> (end_of_block io' \<or> ps_ready b s')"
proof -
  obtain l s1 io1 where "pulse_sequence_skip b (pss_level s) s (io\<lparr>tstates := 0\<rparr>) = Some (l, s1, io1)"
    "end_of_block io1 \<or> ps_ready b s1"
    using ps_skip_ends [OF ok, of "io\<lparr>tstates := 0\<rparr>" s "pss_level s"] ready by blast
  then show ?thesis by (auto simp: pulse_sequence_edge_def ps_ready_def)
qed

end
