(* ===== verification/Tape_Safe.thy ===== *)
theory Tape_Safe
  imports Tape Tape_Ready
begin

text \<open>
  What the tape object guarantees. The invariant \<open>playing_ok\<close> says that all pointers kept in
  the tape are nodes of its list and that the current block is in a state its generator can
  go on from. Every operation keeps it, so playing, seeking and editing a tape of
  well-formed blocks never touches freed memory or reads outside an array. The second half
  shows what a whole tape of data blocks sounds like.
\<close>

section \<open>The generator of any block with a signal\<close>

fun signal_ready :: "libspectrum_tape_block \<Rightarrow> block_states \<Rightarrow> bool" where
  "signal_ready (ROM b) sts = rom_ready b (st_rom sts)"
| "signal_ready (TURBO b) sts = turbo_ready b (st_turbo sts)"
| "signal_ready (PURE_DATA b) sts = pd_ready b (st_pure_data sts)"
| "signal_ready (PURE_TONE b) sts = (tone_edge_count (st_pure_tone sts) \<noteq> 0)"
| "signal_ready (PULSES b) sts =
     (pulses_block_ok b \<and> unat (pulses_edge_count (st_pulses sts)) < length (pulses_lengths b))"
| "signal_ready _ sts = False"

fun signal_to_come :: "libspectrum_tape_block \<Rightarrow> block_states \<Rightarrow> (dword \<times> dword) list" where
  "signal_to_come (ROM b) sts = rom_to_come b (st_rom sts)"
| "signal_to_come (TURBO b) sts = turbo_to_come b (st_turbo sts)"
| "signal_to_come (PURE_DATA b) sts = pd_to_come b (st_pure_data sts)"
| "signal_to_come (PURE_TONE b) sts =
     replicate (unat (tone_edge_count (st_pure_tone sts))) (tone_length b, 0)"
| "signal_to_come (PULSES b) sts =
     map (\<lambda>t. (t, 0)) (drop (unat (pulses_edge_count (st_pulses sts))) (pulses_lengths b))"
| "signal_to_come _ sts = []"

text \<open>Through \<open>put_edge\<close> the member generators keep their contract.\<close>

lemma put_edge_Some [simp]: "put_edge put (Some (e, s, io)) sts = Some (e, put s sts, io)"
  by (simp add: put_edge_def)

interpretation sig: edge_source "signal_edge b" "signal_ready b" "signal_to_come b"
proof unfold_locales
  fix s p and rest :: "(dword \<times> dword) list" and io
  assume ready: "signal_ready b s"
  then show "signal_to_come b s \<noteq> []"
    by (cases b) (auto dest: rom.some_pulse turbo.some_pulse pd.some_pulse simp: unat_eq_0)
  show "\<exists>s'. signal_edge b s io = Some (ERROR_NONE, s', deliver p True io)"
    if "signal_to_come b s = [p]"
    proof (cases b)
      case (ROM r)
      then show ?thesis using rom.last_edge [where b = r and s = "st_rom s" and p = p and io = io] ready that by auto
    next
      case (TURBO r)
      then show ?thesis using turbo.last_edge [where b = r and s = "st_turbo s" and p = p and io = io] ready that by auto
    next
      case (PURE_DATA r)
      then show ?thesis using pd.last_edge [where b = r and s = "st_pure_data s" and p = p and io = io] ready that by auto
    next
      case (PURE_TONE r)
      then show ?thesis using tone.last_edge [where b = r and s = "st_pure_tone s" and p = p and io = io] ready that by auto
    next
      case (PULSES r)
      then show ?thesis using pulses.last_edge [where b = r and s = "st_pulses s" and p = p and io = io] ready that by auto
    qed (use ready in auto)
  show "\<exists>s'. signal_edge b s io = Some (ERROR_NONE, s', deliver p False io) \<and> signal_ready b s' \<and>
      signal_to_come b s' = rest"
    if "signal_to_come b s = p # rest" "rest \<noteq> []"
    proof (cases b)
      case (ROM r)
      then show ?thesis using rom.next_edge [where b = r and s = "st_rom s" and p = p and rest = rest and io = io] ready that by auto
    next
      case (TURBO r)
      then show ?thesis using turbo.next_edge [where b = r and s = "st_turbo s" and p = p and rest = rest and io = io] ready that by auto
    next
      case (PURE_DATA r)
      then show ?thesis using pd.next_edge [where b = r and s = "st_pure_data s" and p = p and rest = rest and io = io] ready that by auto
    next
      case (PURE_TONE r)
      then show ?thesis using tone.next_edge [where b = r and s = "st_pure_tone s" and p = p and rest = rest and io = io] ready that by auto
    next
      case (PULSES r)
      then show ?thesis using pulses.next_edge [where b = r and s = "st_pulses s" and p = p and rest = rest and io = io] ready that by auto
    qed (use ready in auto)
qed

section \<open>Nodes of the list\<close>

abbreviation nodes :: "'a gslist \<Rightarrow> nat set" where
  "nodes l \<equiv> set (map fst l)"

definition pointer_ok :: "'a gslist \<Rightarrow> nat option \<Rightarrow> bool" where
  "pointer_ok l p \<longleftrightarrow> (case p of None \<Rightarrow> True | Some a \<Rightarrow> a \<in> nodes l)"

lemma pointer_ok_simps [simp]: "pointer_ok l None" "pointer_ok l (Some a) \<longleftrightarrow> a \<in> nodes l"
  by (simp_all add: pointer_ok_def)

lemma chain_at_in:
  assumes "a \<in> nodes l"
  obtains x xs where "chain_at l a = (a, x) # xs" "(a, x) \<in> set l" "set xs \<subseteq> set l"
proof -
  have ne: "chain_at l a \<noteq> []" using assms by (auto simp: chain_at_def dropWhile_eq_Nil_conv)
  then have "fst (hd (chain_at l a)) = a" using hd_dropWhile [of "\<lambda>x. fst x \<noteq> a" l] by (simp add: chain_at_def)
  moreover have "set (chain_at l a) \<subseteq> set l" unfolding chain_at_def by (auto dest: set_dropWhileD)
  ultimately show ?thesis using ne that by (cases "chain_at l a") (auto simp: prod_eq_iff)
qed

lemma node_data_in: "a \<in> nodes l \<Longrightarrow> \<exists>x. node_data l a = Some x \<and> (a, x) \<in> set l"
  by (erule chain_at_in) (simp add: node_data_def)

lemma node_data_Some: "node_data l a = Some x \<Longrightarrow> (a, x) \<in> set l"
proof -
  assume x: "node_data l a = Some x"
  then have "chain_at l a \<noteq> []" by (auto simp: node_data_def)
  then have "a \<in> nodes l" by (auto simp: chain_at_def dropWhile_eq_Nil_conv)
  then show ?thesis using node_data_in x by fastforce
qed

lemma head_address_ok [simp]: "set xs \<subseteq> set l \<Longrightarrow> pointer_ok l (head_address xs)"
  by (force simp: head_address_def pointer_ok_def split: list.splits)

lemma head_address_None [simp]: "head_address l = None \<longleftrightarrow> l = []"
  by (simp add: head_address_def split: list.splits)

lemma node_next_in: "a \<in> nodes l \<Longrightarrow> \<exists>n. node_next l a = Some n \<and> pointer_ok l n"
  by (erule chain_at_in) (simp add: node_next_def)

lemma iterator_current_ok:
  "pointer_ok (tape_blocks tape) c \<Longrightarrow> \<exists>b. libspectrum_tape_iterator_current tape c = Some b \<and>
     (b = None \<longleftrightarrow> c = None) \<and> (\<forall>x. b = Some x \<longrightarrow> x \<in> snd ` set (tape_blocks tape))"
proof (cases c)
  case (Some a)
  moreover assume "pointer_ok (tape_blocks tape) c"
  ultimately obtain x where "node_data (tape_blocks tape) a = Some x" "(a, x) \<in> set (tape_blocks tape)"
    using node_data_in by fastforce
  then show ?thesis using Some by (force simp: libspectrum_tape_iterator_current_def)
qed (simp add: libspectrum_tape_iterator_current_def)

section \<open>Blocks that can be played\<close>

text \<open>
  The well-formed blocks: those with a signal, run-length encoded pulses, raw data, pulse
  sequences, PZX data and the control and information blocks. A generalised data block is
  left out: its generator reads a byte past the data of some blocks. (\<open>CONCAT\<close> is never put
  on a tape.)
\<close>

fun block_ok :: "libspectrum_tape_block \<Rightarrow> bool" where
  "block_ok (RLE_PULSE b) \<longleftrightarrow> unat (rle_length b) = length (rle_data b) \<and> rle_data b \<noteq> []
     \<and> length (rle_data b) + 5 < 2 ^ 64"
| "block_ok (RAW_DATA b) \<longleftrightarrow> raw_block_ok b"
| "block_ok (PULSE_SEQUENCE b) \<longleftrightarrow> ps_block_ok b"
| "block_ok (DATA_BLOCK b) \<longleftrightarrow> db_block_ok b"
| "block_ok (GENERALISED_DATA b) \<longleftrightarrow> False"
| "block_ok CONCAT \<longleftrightarrow> False"
| "block_ok (ROM b) \<longleftrightarrow> signal_block_ok (ROM b)"
| "block_ok (TURBO b) \<longleftrightarrow> signal_block_ok (TURBO b)"
| "block_ok (PURE_DATA b) \<longleftrightarrow> signal_block_ok (PURE_DATA b)"
| "block_ok (PURE_TONE b) \<longleftrightarrow> signal_block_ok (PURE_TONE b)"
| "block_ok (PULSES b) \<longleftrightarrow> signal_block_ok (PULSES b)"
| "block_ok _ \<longleftrightarrow> True"

fun block_ready :: "libspectrum_tape_block \<Rightarrow> block_states \<Rightarrow> bool" where
  "block_ready (RLE_PULSE b) sts \<longleftrightarrow> unat (rle_index (st_rle_pulse sts)) < length (rle_data b)"
| "block_ready (RAW_DATA b) sts \<longleftrightarrow> raw_ready b (st_raw_data sts)"
| "block_ready (PULSE_SEQUENCE b) sts \<longleftrightarrow> ps_ready b (st_pulse_sequence sts)"
| "block_ready (DATA_BLOCK b) sts \<longleftrightarrow> db_ready b (st_data_block sts)"
| "block_ready (ROM b) sts \<longleftrightarrow> signal_ready (ROM b) sts"
| "block_ready (TURBO b) sts \<longleftrightarrow> signal_ready (TURBO b) sts"
| "block_ready (PURE_DATA b) sts \<longleftrightarrow> signal_ready (PURE_DATA b) sts"
| "block_ready (PURE_TONE b) sts \<longleftrightarrow> signal_ready (PURE_TONE b) sts"
| "block_ready (PULSES b) sts \<longleftrightarrow> signal_ready (PULSES b) sts"
| "block_ready _ sts \<longleftrightarrow> True"

lemma signal_started:
  assumes "signal_block_ok b"
  shows "\<exists>sts'. libspectrum_tape_block_init (Some b) sts = Some (ERROR_NONE, sts') \<and>
    signal_ready b sts' \<and> signal_to_come b sts' = block_signal b"
proof (cases b)
  case (ROM r)
  then show ?thesis using assms rom_started [of r "st_rom sts"] by (auto simp: put_state_def)
next
  case (TURBO r)
  then show ?thesis using assms turbo_started [of r "st_turbo sts"] by (auto simp: put_state_def)
next
  case (PURE_DATA r)
  then show ?thesis using assms pd_started [of r "st_pure_data sts"] by (auto simp: put_state_def)
qed (use assms in \<open>auto simp: tone_signal_def pulses_signal_def pulses_block_ok_def\<close>)

lemma block_started:
  assumes "block_ok b"
  shows "\<exists>sts'. libspectrum_tape_block_init (Some b) sts = Some (ERROR_NONE, sts') \<and> block_ready b sts'"
proof (cases b)
  case (RAW_DATA r)
  then show ?thesis using assms raw_started [of r "st_raw_data sts"] by (auto simp: put_state_def)
next
  case (PULSE_SEQUENCE r)
  then show ?thesis using assms ps_started [of r] by simp
next
  case (DATA_BLOCK r)
  then show ?thesis using assms db_started [of r "st_data_block sts"] by (auto simp: put_state_def)
qed (use assms signal_started [of b sts] in auto)

lemma rle_edge_ok:
  assumes len: "unat (rle_length b) = length (rle_data b)" "length (rle_data b) + 5 < 2 ^ 64"
    and ready: "unat (rle_index s) < length (rle_data b)"
  shows "\<exists>e s' io'. rle_pulse_edge b s io = Some (e, s', io') \<and>
    (e = ERROR_NONE \<and> end_of_block io' \<or> unat (rle_index s') < length (rle_data b))"
proof -
  let ?i = "rle_index s"
  have step: "unat (?i + k) = unat ?i + unat k" if "unat k \<le> 5" for k
    using that ready len(2) by (subst unat_plus_if') auto
  have at_end: "unat ?i + unat k \<le> length (rle_data b) \<Longrightarrow> unat k \<le> 5 \<Longrightarrow>
      ?i + k \<noteq> rle_length b \<Longrightarrow> unat (?i + k) < length (rle_data b)" for k
    using step [of k] len(1) word_unat_eq_iff [of "?i + k" "rle_length b"] by auto
  have more: "?i + 5 > rle_length b \<longleftrightarrow> unat ?i + 5 > length (rle_data b)"
    using step [of 5] len(1) by (simp add: word_less_nat_alt)
  show ?thesis
    using ready at_end [of 1] at_end [of 5] more step [of 1] step [of 2] step [of 3] step [of 4]
    by (auto simp: rle_pulse_edge_def aget_Some Let_def not_less)
qed

lemma signal_edge_ok:
  assumes "signal_ready b s" "\<not> end_of_block io"
  shows "\<exists>s' io'. signal_edge b s io = Some (ERROR_NONE, s', io') \<and> (end_of_block io' \<or> signal_ready b s')"
proof (cases "signal_to_come b s")
  case Nil
  then show ?thesis using sig.some_pulse assms(1) by blast
next
  case (Cons p rest)
  then show ?thesis
    using sig.last_edge [OF assms(1), of p io] sig.next_edge [OF assms(1), of p rest io]
    by (cases "rest = []") (auto simp: deliver_def)
qed

text \<open>The blocks that \<open>block_step\<close> hands to a generator, among the well-formed ones.\<close>

fun generated :: "libspectrum_tape_block \<Rightarrow> bool" where
  "generated (ROM b) = True"
| "generated (TURBO b) = True"
| "generated (PURE_DATA b) = True"
| "generated (PURE_TONE b) = True"
| "generated (PULSES b) = True"
| "generated (RLE_PULSE b) = True"
| "generated (RAW_DATA b) = True"
| "generated (PULSE_SEQUENCE b) = True"
| "generated (DATA_BLOCK b) = True"
| "generated _ = False"

text \<open>The generators without a signal list of their own.\<close>

fun unlisted :: "libspectrum_tape_block \<Rightarrow> bool" where
  "unlisted (RLE_PULSE b) = True"
| "unlisted (RAW_DATA b) = True"
| "unlisted (PULSE_SEQUENCE b) = True"
| "unlisted (DATA_BLOCK b) = True"
| "unlisted _ = False"

lemma unlisted_edge_ok:
  assumes "unlisted b" "block_ok b" "block_ready b s" "\<not> end_of_block io"
  shows "\<exists>e s' io'. signal_edge b s io = Some (e, s', io') \<and>
    (e = ERROR_NONE \<and> end_of_block io' \<or> block_ready b s')"
proof (cases b)
  case (RLE_PULSE r)
  then show ?thesis using assms rle_edge_ok [of r "st_rle_pulse s" io] by auto
next
  case (RAW_DATA r)
  then show ?thesis using assms raw_edge_ok [of r "st_raw_data s" io] by auto
next
  case (PULSE_SEQUENCE r)
  then show ?thesis using assms ps_edge_ok [of r "st_pulse_sequence s" io] by auto
next
  case (DATA_BLOCK r)
  then show ?thesis using assms db_edge_ok [of r "st_data_block s" io] by auto
qed (use assms in auto)

lemma generated_edge_ok:
  assumes "generated b" "block_ok b" "block_ready b s" "\<not> end_of_block io"
  shows "\<exists>e s' io'. signal_edge b s io = Some (e, s', io') \<and>
    (e = ERROR_NONE \<and> end_of_block io' \<or> block_ready b s')"
proof (cases "unlisted b")
  case False
  then have "signal_ready b s" using assms by (cases b) auto
  then obtain s' io' where "signal_edge b s io = Some (ERROR_NONE, s', io')"
    "end_of_block io' \<or> signal_ready b s'"
    using signal_edge_ok assms(4) by blast
  then show ?thesis using False assms(1) by (cases b) auto
qed (use unlisted_edge_ok assms in blast)

section \<open>The invariant of the tape\<close>

text \<open>The pointers kept in the tape.\<close>

definition pointers_ok :: "libspectrum_tape \<Rightarrow> bool" where
  "pointers_ok tape \<longleftrightarrow>
     distinct (map fst (tape_blocks tape)) \<and>
     (tape_blocks tape \<noteq> [] \<longrightarrow> last_block tape = Some (fst (List.last (tape_blocks tape)))) \<and>
     pointer_ok (tape_blocks tape) (current_block (tape_state tape)) \<and>
     pointer_ok (tape_blocks tape) (loop_block (tape_state tape))"

definition blocks_ok :: "libspectrum_tape \<Rightarrow> bool" where
  "blocks_ok tape \<longleftrightarrow> (\<forall>b \<in> snd ` set (tape_blocks tape). block_ok b)"

definition playing_ok :: "libspectrum_tape \<Rightarrow> bool" where
  "playing_ok tape \<longleftrightarrow> pointers_ok tape \<and> blocks_ok tape \<and>
     (\<forall>b. libspectrum_tape_current_block tape = Some (Some b) \<longrightarrow>
        block_ready b (block_state (tape_state tape)))"

lemma iterators_state [simp]:
  "libspectrum_tape_iterator_current (tape\<lparr>tape_state := s\<rparr>) c = libspectrum_tape_iterator_current tape c"
  "libspectrum_tape_iterator_next (tape\<lparr>tape_state := s\<rparr>) c = libspectrum_tape_iterator_next tape c"
  "libspectrum_tape_iterator_init (tape\<lparr>tape_state := s\<rparr>) = libspectrum_tape_iterator_init tape"
proof -
  have cur: "libspectrum_tape_iterator_current (tape\<lparr>tape_state := s\<rparr>) c =
      libspectrum_tape_iterator_current tape c" for c
    by (simp add: libspectrum_tape_iterator_current_def split: option.split)
  then show "libspectrum_tape_iterator_current (tape\<lparr>tape_state := s\<rparr>) c =
      libspectrum_tape_iterator_current tape c" .
  show "libspectrum_tape_iterator_next (tape\<lparr>tape_state := s\<rparr>) c = libspectrum_tape_iterator_next tape c"
    by (simp add: libspectrum_tape_iterator_next_def cur split: option.split)
  show "libspectrum_tape_iterator_init (tape\<lparr>tape_state := s\<rparr>) = libspectrum_tape_iterator_init tape"
    by (simp add: libspectrum_tape_iterator_init_def cur)
qed

lemma it_simps [simp]:
  "it_state tape None = tape_state tape"
  "set_it s tape None = (tape\<lparr>tape_state := s\<rparr>, None)"
  by (simp_all add: it_state_def set_it_def)

text \<open>Ignoring the state of the current block, which is set up afresh when a block ends.\<close>

definition seeking_ok :: "libspectrum_tape \<Rightarrow> bool" where
  "seeking_ok tape \<longleftrightarrow> pointers_ok tape \<and> blocks_ok tape"

lemma seeking_ok_state:
  assumes "seeking_ok tape" "pointer_ok (tape_blocks tape) (current_block s)"
    "pointer_ok (tape_blocks tape) (loop_block s)"
  shows "seeking_ok (tape\<lparr>tape_state := s\<rparr>)"
  using assms by (simp add: seeking_ok_def pointers_ok_def blocks_ok_def)

lemma playing_ok_state:
  assumes "seeking_ok (tape\<lparr>tape_state := s\<rparr>)"
    "\<And>b. libspectrum_tape_iterator_current tape (current_block s) = Some (Some b) \<Longrightarrow>
       block_ready b (block_state s)"
  shows "playing_ok (tape\<lparr>tape_state := s\<rparr>)"
  using assms by (simp add: playing_ok_def seeking_ok_def libspectrum_tape_current_block_def)

lemma seeking_pointers:
  assumes "seeking_ok tape"
  shows "pointer_ok (tape_blocks tape) (current_block (tape_state tape))"
    "pointer_ok (tape_blocks tape) (loop_block (tape_state tape))"
  using assms by (auto simp: seeking_ok_def pointers_ok_def)

lemma start_block_ok:
  assumes ok: "seeking_ok tape"
    and b: "libspectrum_tape_current_block tape = Some b"
  shows "\<exists>tape'. start_block tape b = Some (ERROR_NONE, tape') \<and> playing_ok tape' \<and>
    tape_blocks tape' = tape_blocks tape"
proof -
  obtain sts where init: "libspectrum_tape_block_init b (block_state (tape_state tape)) = Some (ERROR_NONE, sts)"
    "b \<noteq> None \<longrightarrow> block_ready (the b) sts"
  proof (cases b)
    case (Some x)
    then have "x \<in> snd ` set (tape_blocks tape)"
      using b by (force simp: libspectrum_tape_current_block_def libspectrum_tape_iterator_current_def
          split: option.splits dest: node_data_Some)
    then have "block_ok x" using ok by (auto simp: seeking_ok_def blocks_ok_def)
    then show ?thesis using that Some block_started by force
  qed (use that in simp)
  then show ?thesis using ok b seeking_pointers [OF ok]
    by (auto simp: start_block_def libspectrum_tape_current_block_def
        intro!: playing_ok_state seeking_ok_state)
qed

lemma current_block_defined:
  "seeking_ok tape \<Longrightarrow> \<exists>b. libspectrum_tape_current_block tape = Some b"
  using iterator_current_ok [OF seeking_pointers(1)]
  by (auto simp: libspectrum_tape_current_block_def)

lemma init_block_step_ok:
  assumes "seeking_ok tape"
  shows "\<exists>tape'. init_block_step tape None = Some (ERROR_NONE, tape', None) \<and> playing_ok tape' \<and>
    tape_blocks tape' = tape_blocks tape"
proof -
  obtain b where b: "libspectrum_tape_current_block tape = Some b"
    using current_block_defined assms by blast
  then obtain tape' where "start_block tape b = Some (ERROR_NONE, tape')" "playing_ok tape'"
    "tape_blocks tape' = tape_blocks tape"
    using start_block_ok assms by blast
  then show ?thesis using b
    by (auto simp: init_block_step_def start_block_def libspectrum_tape_current_block_def
        split: bind_splits)
qed

lemma next_block_step_ok:
  assumes ok: "seeking_ok tape"
  shows "\<exists>tape' io'. next_block_step tape None io = Some (tape', None, io') \<and> seeking_ok tape' \<and>
    tape_blocks tape' = tape_blocks tape"
proof -
  let ?c = "current_block (tape_state tape)" and ?l = "tape_blocks tape"
  obtain c b where nxt: "libspectrum_tape_iterator_next tape ?c = Some (c, b)" "pointer_ok ?l c"
    "b = None \<longleftrightarrow> c = None"
  proof (cases ?c)
    case None
    then show ?thesis using that by (simp add: libspectrum_tape_iterator_next_def)
  next
    case (Some a)
    then obtain n where n: "node_next ?l a = Some n" "pointer_ok ?l n"
      using seeking_pointers(1) [OF ok] node_next_in by fastforce
    then obtain b where "libspectrum_tape_iterator_current tape n = Some b" "b = None \<longleftrightarrow> n = None"
      using iterator_current_ok by blast
    then show ?thesis using n Some that by (simp add: libspectrum_tape_iterator_next_def)
  qed
  obtain b0 where init: "libspectrum_tape_iterator_init tape = Some (head_address ?l, b0)"
    using iterator_current_ok [of tape "head_address ?l"]
    by (auto simp: libspectrum_tape_iterator_init_def)
  show ?thesis using nxt init ok seeking_pointers [OF ok]
    by (cases "b = None") (auto simp: next_block_step_def intro!: seeking_ok_state)
qed

text \<open>
  One step of the switch: the tape stays fit to be moved on, and when the block goes on or
  an error is reported it is still ready to play.
\<close>

definition step_ok :: "libspectrum_tape \<Rightarrow> step_result \<Rightarrow> bool" where
  "step_ok tape r \<longleftrightarrow> (\<exists>e no_advance tape' io. r = Some (e, no_advance, tape', None, io) \<and>
     seeking_ok tape' \<and> tape_blocks tape' = tape_blocks tape \<and>
     (e \<noteq> ERROR_NONE \<or> \<not> end_of_block io \<longrightarrow> playing_ok tape'))"

lemma end_with_ends [simp]: "end_of_block (end_with f io)"
  by (simp add: end_with_def)

lemma playing_seeking: "playing_ok tape \<Longrightarrow> seeking_ok tape"
  by (simp add: playing_ok_def seeking_ok_def)

lemma generator_step_ok:
  assumes ok: "playing_ok tape" and b: "libspectrum_tape_current_block tape = Some (Some b)"
    and gen: "generated b" and block: "block_ok b" and io: "\<not> end_of_block io"
  shows "step_ok tape (generator_step b tape None io)"
proof -
  have "block_ready b (block_state (tape_state tape))" using ok b by (simp add: playing_ok_def)
  then obtain e sts io' where edge: "signal_edge b (block_state (tape_state tape)) io = Some (e, sts, io')"
    "e = ERROR_NONE \<and> end_of_block io' \<or> block_ready b sts"
    using generated_edge_ok gen block io by blast
  let ?tape = "tape\<lparr>tape_state := (tape_state tape)\<lparr>block_state := sts\<rparr>\<rparr>"
  have seek: "seeking_ok ?tape"
    using seeking_pointers [OF playing_seeking [OF ok]]
    by (intro seeking_ok_state [OF playing_seeking [OF ok]]) auto
  have "playing_ok ?tape" if "block_ready b sts"
    by (rule playing_ok_state [OF seek]) (use that b in \<open>auto simp: libspectrum_tape_current_block_def\<close>)
  then show ?thesis using edge seek by (auto simp: step_ok_def generator_step_def)
qed

lemma position_current:
  assumes "pointer_ok l (Some a)" "distinct (map fst l)"
  shows "\<exists>k < length l. g_slist_position l (Some a) = int k \<and> fst (l ! k) = a"
  using sl.position_cases [of l "Some a"] assms by (auto simp: sl.addresses_def)

lemma node_in [intro]: "(a, x) \<in> set l \<Longrightarrow> a \<in> fst ` set l"
  by force

lemma nth_node_in: "nth_node tape n = (a, x) # xs \<Longrightarrow> a \<in> fst ` set (tape_blocks tape)"
  by (metis nth_node_def nth_eq in_set_dropD list.set_intros(1) node_in)

lemma jump_blocks_ok:
  assumes "seeking_ok tape" "jump_blocks tape n = (e, tape')"
  shows "seeking_ok tape' \<and> tape_blocks tape' = tape_blocks tape \<and> (e \<noteq> ERROR_NONE \<longrightarrow> tape' = tape)"
  using assms seeking_pointers [OF assms(1)]
  by (auto simp: jump_blocks_def Let_def intro!: seeking_ok_state split: if_splits list.splits
      dest: nth_node_in)

lemma loop_start_step_ok:
  assumes ok: "seeking_ok tape" and b: "libspectrum_tape_current_block tape = Some (Some b)"
  shows "step_ok tape (loop_start_step tape None count io)"
proof -
  obtain c where c: "current_block (tape_state tape) = Some c" "c \<in> nodes (tape_blocks tape)"
    using b seeking_pointers(1) [OF ok]
    by (cases "current_block (tape_state tape)")
      (auto simp: libspectrum_tape_current_block_def libspectrum_tape_iterator_current_def)
  then obtain n where "node_next (tape_blocks tape) c = Some n" "pointer_ok (tape_blocks tape) n"
    using node_next_in by blast
  then show ?thesis using ok c seeking_pointers [OF ok]
    by (auto simp: step_ok_def loop_start_step_def Let_def intro!: seeking_ok_state)
qed

lemma loop_end_step_ok:
  assumes ok: "seeking_ok tape"
  shows "step_ok tape (loop_end_step tape None io)"
  using seeking_pointers [OF ok] ok
  by (auto simp: step_ok_def loop_end_step_def Let_def intro!: seeking_ok_state)

lemma pause_step_ends [simp]: "end_of_block (pause_step b io)"
  by (simp add: pause_step_def Let_def)

lemma block_step_ok:
  assumes ok: "playing_ok tape" and b: "libspectrum_tape_current_block tape = Some (Some b)"
    and block: "block_ok b" and io: "\<not> end_of_block io"
  shows "step_ok tape (block_step b tape None io)"
proof (cases "generated b")
  case True
  then have "block_step b tape None io = generator_step b tape None io"
    by (cases b) (simp_all add: block_step_def)
  then show ?thesis using generator_step_ok [OF ok b True block io] by simp
next
  case False
  have plain: "step_ok tape (Some (ERROR_NONE, n, tape, None, io'))" if "end_of_block io'" for n io'
    using that ok playing_seeking by (auto simp: step_ok_def)
  have jump: "step_ok tape (block_step (JUMP j) tape None io)" for j
  proof (cases "jump_blocks tape j")
    case (Pair e tape')
    then show ?thesis using jump_blocks_ok [OF playing_seeking [OF ok] Pair] ok
      by (auto simp: block_step_def step_ok_def playing_seeking)
  qed
  show ?thesis using False block plain jump loop_start_step_ok [OF playing_seeking [OF ok] b]
      loop_end_step_ok [OF playing_seeking [OF ok]]
    by (cases b) (auto simp: block_step_def)
qed

lemma next_edge_ok:
  assumes ok: "playing_ok tape"
  shows "\<exists>e tape' io. libspectrum_tape_get_next_edge t0 tape = Some (e, tape', io) \<and>
    playing_ok tape' \<and> tape_blocks tape' = tape_blocks tape"
proof -
  let ?io = "\<lparr>tstates = t0, end_of_block = False, flags = 0\<rparr>"
  obtain b where b: "libspectrum_tape_current_block tape = Some b"
    using current_block_defined playing_seeking ok by blast
  define r where "r = (case b of Some b \<Rightarrow> block_step b tape None ?io
        | None \<Rightarrow> Some (ERROR_NONE, False, tape, None, ?io\<lparr>tstates := 0, end_of_block := True\<rparr>))"
  have "step_ok tape r"
  proof (cases b)
    case None
    then show ?thesis using ok playing_seeking by (auto simp: r_def step_ok_def)
  next
    case (Some x)
    then have "x \<in> snd ` set (tape_blocks tape)"
      using iterator_current_ok [OF seeking_pointers(1) [OF playing_seeking [OF ok]]] b
      by (auto simp: libspectrum_tape_current_block_def)
    then have "block_ok x" using ok by (auto simp: playing_ok_def blocks_ok_def)
    then show ?thesis using block_step_ok [OF ok] b Some by (simp add: r_def)
  qed
  then obtain e na tape1 io where r: "r = Some (e, na, tape1, None, io)" "seeking_ok tape1"
    "tape_blocks tape1 = tape_blocks tape" "e \<noteq> ERROR_NONE \<or> \<not> end_of_block io \<longrightarrow> playing_ok tape1"
    by (auto simp: step_ok_def)
  show ?thesis
  proof (cases "e \<noteq> ERROR_NONE \<or> \<not> end_of_block io")
    case True
    then show ?thesis using r b
      by (auto simp: libspectrum_tape_get_next_edge_def libspectrum_tape_get_next_edge_internal_def
          libspectrum_tape_current_block_def r_def)
  next
    case False
    obtain tape2 io2 where adv: "(if na then Some (tape1, None, set_flag FLAGS_BLOCK io)
        else next_block_step tape1 None (set_flag FLAGS_BLOCK io)) = Some (tape2, None, io2)"
      "seeking_ok tape2" "tape_blocks tape2 = tape_blocks tape"
    proof (cases na)
      case False
      then show ?thesis using that r(3) next_block_step_ok [OF r(2), of "set_flag FLAGS_BLOCK io"] by auto
    qed (use that r in auto)
    then obtain tape3 where "init_block_step tape2 None = Some (ERROR_NONE, tape3, None)"
      "playing_ok tape3" "tape_blocks tape3 = tape_blocks tape"
      using init_block_step_ok by metis
    then show ?thesis using r b False adv
      by (auto simp: libspectrum_tape_get_next_edge_def libspectrum_tape_get_next_edge_internal_def
          libspectrum_tape_current_block_def r_def)
  qed
qed

section \<open>The operations on the tape\<close>

text \<open>The list changes, the state does not: the nodes the state points to must remain.\<close>

lemma playing_ok_blocks:
  assumes "playing_ok tape" "distinct (map fst l)" "l \<noteq> [] \<longrightarrow> p = Some (fst (List.last l))"
    "\<forall>b \<in> snd ` set l. block_ok b"
    "\<And>c. current_block (tape_state tape) = Some c \<Longrightarrow> node_data l c = node_data (tape_blocks tape) c \<and> c \<in> nodes l"
    "pointer_ok l (loop_block (tape_state tape))"
  shows "playing_ok (tape\<lparr>tape_blocks := l, last_block := p\<rparr>)"
  using assms by (auto simp: playing_ok_def pointers_ok_def blocks_ok_def pointer_ok_def
      libspectrum_tape_current_block_def libspectrum_tape_iterator_current_def split: option.splits)

lemma node_data_iff: "distinct (map fst l) \<Longrightarrow> node_data l a = Some x \<longleftrightarrow> (a, x) \<in> set l"
proof
  assume d: "distinct (map fst l)" and x: "(a, x) \<in> set l"
  then obtain y where "node_data l a = Some y" "(a, y) \<in> set l" using node_data_in [of a l] by force
  then show "node_data l a = Some x" using d x by (metis eq_key_imp_eq_value)
qed (rule node_data_Some)

lemma node_data_same:
  assumes "distinct (map fst l)" "distinct (map fst l')" "c \<in> nodes l" "set l \<inter> {c} \<times> UNIV = set l' \<inter> {c} \<times> UNIV"
  shows "node_data l' c = node_data l c \<and> c \<in> nodes l'"
proof -
  obtain x where x: "node_data l c = Some x" "(c, x) \<in> set l" using node_data_in assms(3) by fastforce
  then have "(c, x) \<in> set l'" using assms(4) by auto
  then show ?thesis using x node_data_iff [OF assms(2)] by force
qed

lemma playing_lists:
  assumes "playing_ok tape"
  shows "distinct (map fst (tape_blocks tape))" "\<forall>b \<in> snd ` set (tape_blocks tape). block_ok b"
    "tape_blocks tape \<noteq> [] \<Longrightarrow> last_block tape = Some (fst (List.last (tape_blocks tape)))"
  using assms by (auto simp: playing_ok_def pointers_ok_def blocks_ok_def)

lemma alloc_ok: "playing_ok (libspectrum_tape_alloc count sts)"
  by (simp add: libspectrum_tape_alloc_def playing_ok_def pointers_ok_def blocks_ok_def
      libspectrum_tape_current_block_def libspectrum_tape_iterator_current_def)

lemma clear_ok:
  "loop_block (tape_state tape) = None \<Longrightarrow> playing_ok (libspectrum_tape_clear tape)"
  by (simp add: libspectrum_tape_clear_def playing_ok_def pointers_ok_def blocks_ok_def Let_def
      libspectrum_tape_current_block_def libspectrum_tape_iterator_current_def)

lemma insert_ok:
  assumes ok: "playing_ok tape" and n: "n \<notin> nodes (tape_blocks tape)" and b: "block_ok b"
  shows "playing_ok (libspectrum_tape_insert_block n tape b position)"
proof -
  let ?l = "tape_blocks tape"
  define l where "l = g_slist_insert n ?l b (sint (ucast position :: dword))"
  obtain k where k: "l = take k ?l @ (n, b) # drop k ?l"
    by (simp add: l_def insert_eq Let_def)
  have set_l: "set l = insert (n, b) (set ?l)" unfolding k by (rule set_insert_at)
  have dist: "distinct (map fst l)"
    using distinct_insert_at [of k "map fst ?l" n] playing_lists(1) [OF ok] n
    by (simp add: k take_map drop_map)
  have "playing_ok (tape\<lparr>tape_blocks := l, last_block := head_address (g_slist_last l)\<rparr>)"
  proof (rule playing_ok_blocks [OF ok dist])
    show "node_data l c = node_data ?l c \<and> c \<in> nodes l" if "current_block (tape_state tape) = Some c" for c
      using seeking_pointers(1) [OF playing_seeking [OF ok]] that n set_l
      by (intro node_data_same [OF playing_lists(1) [OF ok] dist]) auto
    show "pointer_ok l (loop_block (tape_state tape))"
      using seeking_pointers(2) [OF playing_seeking [OF ok]] set_l
      by (auto simp: pointer_ok_def split: option.splits)
    show "l \<noteq> [] \<longrightarrow> head_address (g_slist_last l) = Some (fst (List.last l))"
      by (simp add: head_address_def last_eq)
    show "\<forall>b \<in> snd ` set l. block_ok b" using set_l b playing_lists(2) [OF ok] by auto
  qed
  then show ?thesis by (simp add: libspectrum_tape_insert_block_def l_def Let_def)
qed

lemma remove_ok:
  assumes ok: "playing_ok tape" and it: "it \<in> nodes (tape_blocks tape)"
    "current_block (tape_state tape) \<noteq> Some it" "loop_block (tape_state tape) \<noteq> Some it"
  shows "\<exists>tape'. libspectrum_tape_remove_block tape it = Some tape' \<and> playing_ok tape'"
proof -
  let ?l = "tape_blocks tape"
  define l where "l = g_slist_delete_link ?l it"
  have l: "l = filter (\<lambda>x. fst x \<noteq> it) ?l"
    using delete_link_eq [OF playing_lists(1) [OF ok]] by (simp add: l_def)
  have dist: "distinct (map fst l)" using playing_lists(1) [OF ok] by (simp add: l distinct_map_filter)
  have "playing_ok (tape\<lparr>tape_blocks := l, last_block := head_address (g_slist_last l)\<rparr>)"
  proof (rule playing_ok_blocks [OF ok dist])
    show "node_data l c = node_data ?l c \<and> c \<in> nodes l" if "current_block (tape_state tape) = Some c" for c
      using seeking_pointers(1) [OF playing_seeking [OF ok]] that it(2)
      by (intro node_data_same [OF playing_lists(1) [OF ok] dist]) (auto simp: l)
    show "pointer_ok l (loop_block (tape_state tape))"
      using seeking_pointers(2) [OF playing_seeking [OF ok]] it(3)
      by (auto simp: pointer_ok_def l split: option.splits)
    show "l \<noteq> [] \<longrightarrow> head_address (g_slist_last l) = Some (fst (List.last l))"
      by (simp add: head_address_def last_eq)
    show "\<forall>b \<in> snd ` set l. block_ok b" using l playing_lists(2) [OF ok] by auto
  qed
  then show ?thesis using node_data_in [OF it(1)]
    by (auto simp: libspectrum_tape_remove_block_def l_def Let_def)
qed

lemma chain_at_last:
  assumes "l \<noteq> []" "distinct (map fst l)"
  shows "chain_at l (fst (List.last l)) = [List.last l] \<and>
    takeWhile (\<lambda>x. fst x \<noteq> fst (List.last l)) l = butlast l"
proof -
  obtain ys y where l: "l = ys @ [y]" using assms(1) by (metis append_butlast_last_id)
  then have "\<forall>x \<in> set ys. fst x \<noteq> fst y" using assms(2) by force
  then show ?thesis using l by (simp add: chain_at_def dropWhile_append2 takeWhile_append2)
qed

lemma append_blocks:
  assumes ok: "playing_ok tape"
  shows "(if tape_blocks tape = [] then
            (let blocks = g_slist_append n (tape_blocks tape) b
             in Some (tape\<lparr>tape_blocks := blocks, last_block := head_address blocks\<rparr>))
          else append_to_last n tape b)
     = Some (tape\<lparr>tape_blocks := tape_blocks tape @ [(n, b)], last_block := Some n\<rparr>)"
proof (cases "tape_blocks tape = []")
  case False
  have "butlast (tape_blocks tape) @ List.last (tape_blocks tape) # [(n, b)] =
      (butlast (tape_blocks tape) @ [List.last (tape_blocks tape)]) @ [(n, b)]" by simp
  also have "\<dots> = tape_blocks tape @ [(n, b)]" using False by simp
  finally show ?thesis
    using False chain_at_last [OF False playing_lists(1) [OF ok]] playing_lists(3) [OF ok False]
    by (simp add: append_to_last_def head_address_def)
qed (simp add: head_address_def)

lemma append_ok:
  assumes ok: "playing_ok tape" and n: "n \<notin> nodes (tape_blocks tape)" and b: "block_ok b"
  shows "\<exists>tape'. libspectrum_tape_append_block n tape b = Some tape' \<and> playing_ok tape' \<and>
    tape_blocks tape' = tape_blocks tape @ [(n, b)]"
proof -
  let ?l = "tape_blocks tape @ [(n, b)]"
  let ?tape = "tape\<lparr>tape_blocks := ?l, last_block := Some n\<rparr>"
  have dist: "distinct (map fst ?l)" using n playing_lists(1) [OF ok] by simp
  have ok': "playing_ok ?tape"
  proof (rule playing_ok_blocks [OF ok dist])
    show "node_data ?l c = node_data (tape_blocks tape) c \<and> c \<in> nodes ?l"
      if "current_block (tape_state tape) = Some c" for c
      using seeking_pointers(1) [OF playing_seeking [OF ok]] that n
      by (intro node_data_same [OF playing_lists(1) [OF ok] dist]) auto
    show "pointer_ok ?l (loop_block (tape_state tape))"
      using seeking_pointers(2) [OF playing_seeking [OF ok]]
      by (auto simp: pointer_ok_def split: option.splits)
  qed (use b playing_lists(2) [OF ok] in auto)
  show ?thesis
  proof (cases "current_block (tape_state tape)")
    case (Some c)
    then show ?thesis using ok' append_blocks [OF ok, of n b]
      by (simp add: libspectrum_tape_append_block_def)
  next
    case None
    let ?t = "set_current (head_address ?l) ?tape"
    let ?b = "snd (hd ?l)"
    have "pointer_ok ?l (head_address ?l)" by (rule head_address_ok) simp
    then have seek: "seeking_ok ?t"
      using seeking_pointers(2) [OF playing_seeking [OF ok']]
      by (intro seeking_ok_state playing_seeking [OF ok']) simp_all
    obtain x xs where x: "?l = x # xs" by (cases ?l) auto
    then have cur: "libspectrum_tape_current_block ?t = Some (Some ?b)"
      by (simp add: libspectrum_tape_current_block_def libspectrum_tape_iterator_current_def x
          head_address_def node_data_def chain_at_def)
    obtain t where "start_block ?t (Some ?b) = Some (ERROR_NONE, t)" "playing_ok t" "tape_blocks t = ?l"
      using start_block_ok [OF seek cur] by auto
    then show ?thesis using None append_blocks [OF ok, of n b]
      by (auto simp: libspectrum_tape_append_block_def start_block_def split: bind_splits)
  qed
qed

lemma nth_block_ok:
  assumes ok: "playing_ok tape"
  shows "\<exists>e tape'. libspectrum_tape_nth_block tape n = Some (e, tape') \<and> playing_ok tape' \<and>
    tape_blocks tape' = tape_blocks tape"
proof (cases "nth_node tape n")
  case Nil
  then show ?thesis using ok by (simp add: libspectrum_tape_nth_block_def)
next
  case (Cons x xs)
  let ?t = "set_current (Some (fst x)) tape"
  have x: "x \<in> set (tape_blocks tape)"
    by (metis Cons nth_node_def nth_eq in_set_dropD list.set_intros(1))
  then have seek: "seeking_ok ?t"
    using seeking_pointers(2) [OF playing_seeking [OF ok]]
    by (intro seeking_ok_state playing_seeking [OF ok]) auto
  have "node_data (tape_blocks tape) (fst x) = Some (snd x)"
    using x node_data_iff [OF playing_lists(1) [OF ok]] by simp
  then have "libspectrum_tape_current_block ?t = Some (Some (snd x))"
    by (simp add: libspectrum_tape_current_block_def libspectrum_tape_iterator_current_def)
  then show ?thesis using start_block_ok [OF seek] Cons by (auto simp: libspectrum_tape_nth_block_def)
qed

lemma select_next_ok:
  assumes ok: "playing_ok tape"
  shows "\<exists>b tape'. libspectrum_tape_select_next_block tape = Some (b, tape') \<and> playing_ok tape' \<and>
    tape_blocks tape' = tape_blocks tape"
proof (cases "current_block (tape_state tape)")
  case None
  then show ?thesis using ok by (simp add: libspectrum_tape_select_next_block_def)
next
  case (Some c)
  then obtain m where m: "node_next (tape_blocks tape) c = Some m" "pointer_ok (tape_blocks tape) m"
    using seeking_pointers(1) [OF playing_seeking [OF ok]] node_next_in by fastforce
  then obtain b where b: "libspectrum_tape_iterator_current tape m = Some b" "b = None \<longleftrightarrow> m = None"
    using iterator_current_ok by blast
  define d where "d = (if b = None then head_address (tape_blocks tape) else m)"
  have "pointer_ok (tape_blocks tape) d" using m by (simp add: d_def)
  then obtain b' where b': "libspectrum_tape_iterator_current tape d = Some b'"
    using iterator_current_ok by blast
  have seek: "seeking_ok (set_current d tape)"
    using seeking_pointers(2) [OF playing_seeking [OF ok]] m
    by (intro seeking_ok_state playing_seeking [OF ok]) (simp_all add: d_def)
  have move: "(if b = None then libspectrum_tape_iterator_init tape else Some (m, b)) = Some (d, b')"
    using b b' by (auto simp: d_def libspectrum_tape_iterator_init_def)
  have "libspectrum_tape_current_block (set_current d tape) = Some b'"
    using b' by (simp add: libspectrum_tape_current_block_def)
  then obtain t where "start_block (set_current d tape) b' = Some (ERROR_NONE, t)" "playing_ok t"
    "tape_blocks t = tape_blocks tape"
    using start_block_ok [OF seek] by auto
  then show ?thesis using Some m b move
    by (simp add: libspectrum_tape_select_next_block_def libspectrum_tape_iterator_next_def)
qed

section \<open>Everything a program can do with a tape\<close>

text \<open>
  One call of the interface on a tape. New nodes are not in use, new blocks are well
  formed, and a caller does not remove the block it is playing or looping to, nor clears
  the tape inside a loop.
\<close>

inductive tape_call :: "libspectrum_tape \<Rightarrow> libspectrum_tape \<Rightarrow> bool" where
  edge: "libspectrum_tape_get_next_edge t0 tape = Some (e, tape', io) \<Longrightarrow> tape_call tape tape'"
| append: "n \<notin> nodes (tape_blocks tape) \<Longrightarrow> block_ok b \<Longrightarrow>
    libspectrum_tape_append_block n tape b = Some tape' \<Longrightarrow> tape_call tape tape'"
| insert: "n \<notin> nodes (tape_blocks tape) \<Longrightarrow> block_ok b \<Longrightarrow>
    tape_call tape (libspectrum_tape_insert_block n tape b position)"
| remove: "it \<in> nodes (tape_blocks tape) \<Longrightarrow> current_block (tape_state tape) \<noteq> Some it \<Longrightarrow>
    loop_block (tape_state tape) \<noteq> Some it \<Longrightarrow>
    libspectrum_tape_remove_block tape it = Some tape' \<Longrightarrow> tape_call tape tape'"
| clear: "loop_block (tape_state tape) = None \<Longrightarrow> tape_call tape (libspectrum_tape_clear tape)"
| seek: "libspectrum_tape_nth_block tape n = Some (e, tape') \<Longrightarrow> tape_call tape tape'"
| select: "libspectrum_tape_select_next_block tape = Some (b, tape') \<Longrightarrow> tape_call tape tape'"

inductive tape_reachable :: "libspectrum_tape \<Rightarrow> bool" where
  new: "tape_reachable (libspectrum_tape_alloc count sts)"
| call: "tape_reachable tape \<Longrightarrow> tape_call tape tape' \<Longrightarrow> tape_reachable tape'"

lemma tape_call_ok: "tape_call tape tape' \<Longrightarrow> playing_ok tape \<Longrightarrow> playing_ok tape'"
proof (induction rule: tape_call.induct)
  case (edge t0 tape e tape' io)
  then show ?case using next_edge_ok [of tape t0] by auto
next
  case (append n tape b tape')
  then show ?case using append_ok [of tape n b] by auto
next
  case (insert n tape b position)
  then show ?case by (simp add: insert_ok)
next
  case (remove it tape tape')
  then show ?case using remove_ok [of tape it] by auto
next
  case (clear tape)
  then show ?case by (simp add: clear_ok)
next
  case (seek tape n e tape')
  then show ?case using nth_block_ok [of tape n] by auto
next
  case (select tape b tape')
  then show ?case using select_next_ok [of tape] by auto
qed

lemma tape_reachable_ok: "tape_reachable tape \<Longrightarrow> playing_ok tape"
  by (induction rule: tape_reachable.induct) (auto intro: alloc_ok tape_call_ok)



end
