(* ===== verification/Tape_Sound.thy ===== *)
theory Tape_Sound
  imports Tape_Safe
begin

text \<open>
  What a whole tape sounds like: playing a tape of data blocks from its start gives the
  signals of its blocks one after the other, with the end of each block and of the tape
  marked in the flags, and leaves the tape rewound, ready to play the same again.
\<close>

section \<open>Playing a tape\<close>

text \<open>The edges up to the one that ends the tape, if it comes within \<open>n\<close> and without error.\<close>

primrec tape_play :: "nat \<Rightarrow> libspectrum_tape \<Rightarrow> ((dword \<times> dword) list \<times> libspectrum_tape) option" where
  "tape_play 0 tape = None"
| "tape_play (Suc n) tape =
     (case libspectrum_tape_get_next_edge 0 tape of
        None \<Rightarrow> None
      | Some (e, tape, io) \<Rightarrow>
          if e \<noteq> ERROR_NONE then None
          else if flags io AND FLAGS_TAPE \<noteq> 0 then Some ([(tstates io, flags io)], tape)
          else map_option (\<lambda>(ps, tape). ((tstates io, flags io) # ps, tape)) (tape_play n tape))"

definition end_mark :: "bool \<Rightarrow> dword \<times> dword \<Rightarrow> dword \<times> dword" where
  "end_mark final p =
     (fst p, if final then (((snd p OR FLAGS_BLOCK) OR FLAGS_STOP) OR FLAGS_TAPE) AND NOT FLAGS_NO_EDGE
             else snd p OR FLAGS_BLOCK)"

definition mark :: "bool \<Rightarrow> (dword \<times> dword) list \<Rightarrow> (dword \<times> dword) list" where
  "mark final ps = butlast ps @ [end_mark final (List.last ps)]"

fun tape_signal :: "libspectrum_tape_block list \<Rightarrow> (dword \<times> dword) list" where
  "tape_signal [] = []"
| "tape_signal (b # bs) = mark (bs = []) (block_signal b) @ tape_signal bs"

text \<open>The state after the start of a block: its node is current and its signal is to come.\<close>

definition playing :: "libspectrum_tape \<Rightarrow> nat \<Rightarrow> libspectrum_tape_block \<Rightarrow> (dword \<times> dword) list \<Rightarrow> bool" where
  "playing tape c b ps \<longleftrightarrow> current_block (tape_state tape) = Some c \<and>
     libspectrum_tape_iterator_current tape (Some c) = Some (Some b) \<and>
     signal_ready b (block_state (tape_state tape)) \<and>
     signal_to_come b (block_state (tape_state tape)) = ps"

definition at_start :: "libspectrum_tape \<Rightarrow> bool" where
  "at_start tape \<longleftrightarrow> tape_blocks tape \<noteq> [] \<and>
     (let x = hd (tape_blocks tape) in playing tape (fst x) (snd x) (block_signal (snd x)))"

lemma chain_at_next:
  assumes "distinct (map fst l)" "chain_at l c = (c, b) # (c', b') # ys"
  shows "chain_at l c' = (c', b') # ys"
proof -
  obtain pre where "l = pre @ chain_at l c"
    by (metis chain_at_def takeWhile_dropWhile_id)
  then have l: "l = pre @ (c, b) # (c', b') # ys" using assms(2) by simp
  then have "\<forall>x \<in> set (pre @ [(c, b)]). fst x \<noteq> c'" using assms(1) by force
  then show ?thesis by (simp add: chain_at_def l dropWhile_append2)
qed

lemma chain_at_head: "chain_at (x # xs) (fst x) = x # xs"
  by (simp add: chain_at_def)

lemma signal_step:
  assumes "signal_ready b sts"
  shows "block_step b tape None io = generator_step b tape None io"
  using assms by (cases b) (simp_all add: block_step_def)

text \<open>Within a block.\<close>

lemma edge_within:
  assumes "playing tape c b (p # rest)" "rest \<noteq> []"
  shows "\<exists>tape'. libspectrum_tape_get_next_edge t0 tape =
      Some (ERROR_NONE, tape', \<lparr>tstates = fst p, end_of_block = False, flags = snd p\<rparr>) \<and>
    playing tape' c b rest \<and> tape_blocks tape' = tape_blocks tape"
proof -
  let ?io = "\<lparr>tstates = t0, end_of_block = False, flags = 0\<rparr>"
  obtain sts where "signal_edge b (block_state (tape_state tape)) ?io = Some (ERROR_NONE, sts, deliver p False ?io)"
    "signal_ready b sts" "signal_to_come b sts = rest"
    using assms sig.next_edge [of b "block_state (tape_state tape)" p rest ?io]
    by (auto simp: playing_def)
  then show ?thesis using assms
    by (auto simp: playing_def libspectrum_tape_get_next_edge_def deliver_def
        libspectrum_tape_get_next_edge_internal_def signal_step generator_step_def)
qed

text \<open>The last edge of a block that is not the last, and of the last block.\<close>

lemma edge_last:
  assumes play: "playing tape c b [p]" and chain: "chain_at (tape_blocks tape) c = (c, b) # xs"
    and ok: "\<forall>x \<in> set (tape_blocks tape). signal_block_ok (snd x)"
    and x: "x = (if xs = [] then hd (tape_blocks tape) else hd xs)"
    and at: "chain_at (tape_blocks tape) (fst x) = x # ys" "x \<in> set (tape_blocks tape)"
  shows "\<exists>tape'. libspectrum_tape_get_next_edge t0 tape =
      Some (ERROR_NONE, tape', \<lparr>tstates = fst p, end_of_block = True, flags = snd (end_mark (xs = []) p)\<rparr>) \<and>
    playing tape' (fst x) (snd x) (block_signal (snd x)) \<and> tape_blocks tape' = tape_blocks tape"
proof -
  let ?io = "\<lparr>tstates = t0, end_of_block = False, flags = 0\<rparr>"
  let ?sts = "block_state (tape_state tape)"
  obtain sts where edge: "signal_edge b ?sts ?io = Some (ERROR_NONE, sts, deliver p True ?io)"
    using play sig.last_edge [of b ?sts p ?io] by (auto simp: playing_def)
  obtain sts' where init: "libspectrum_tape_block_init (Some (snd x)) sts = Some (ERROR_NONE, sts')"
    "signal_ready (snd x) sts'" "signal_to_come (snd x) sts' = block_signal (snd x)"
    using signal_started ok at(2) by blast
  have cur: "libspectrum_tape_iterator_current tape (Some (fst x)) = Some (Some (snd x))"
    using at(1) by (simp add: libspectrum_tape_iterator_current_def node_data_def)
  have nxt: "libspectrum_tape_iterator_next tape (Some c) =
      (if xs = [] then Some (None, None) else Some (Some (fst x), Some (snd x)))"
    using chain x cur by (cases xs) (auto simp: libspectrum_tape_iterator_next_def node_next_def
        head_address_def libspectrum_tape_iterator_current_def)
  have first: "libspectrum_tape_iterator_init tape = Some (Some (fst x), Some (snd x))" if "xs = []"
    using that x cur at(2)
    by (cases "tape_blocks tape") (auto simp: libspectrum_tape_iterator_init_def head_address_def)
  show ?thesis using play edge init cur nxt first
    by (auto simp: playing_def libspectrum_tape_get_next_edge_def deliver_def end_mark_def
        libspectrum_tape_get_next_edge_internal_def signal_step generator_step_def
        next_block_step_def init_block_step_def clear_flag_def set_flag_def)
qed

text \<open>No pulse of a signal has the flag that ends a tape.\<close>

definition quiet :: "(dword \<times> dword) list \<Rightarrow> bool" where
  "quiet ps \<longleftrightarrow> (\<forall>p \<in> set ps. snd p AND FLAGS_TAPE = 0)"

lemma quiet_simps [simp]:
  "quiet []" "quiet (p # ps) \<longleftrightarrow> snd p AND FLAGS_TAPE = 0 \<and> quiet ps"
  "quiet (ps @ qs) \<longleftrightarrow> quiet ps \<and> quiet qs"
  "quiet (replicate n (t, 0))"
  "quiet (map (\<lambda>t. (t, 0)) ts)"
  by (auto simp: quiet_def)

lemma quiet_data [simp]: "quiet (data_pulses t0 t1 pause bs)"
  by (induction bs) (auto simp: bit_pulses_def pause_pulse_def Let_def)

lemma quiet_block_signal: "quiet (block_signal b)"
  by (cases b) (auto simp: rom_signal_def turbo_signal_def pd_signal_def tone_signal_def
      pulses_signal_def)

lemma end_mark_tape: "snd p AND FLAGS_TAPE = 0 \<Longrightarrow> snd (end_mark final p) AND FLAGS_TAPE \<noteq> 0 \<longleftrightarrow> final"
proof -
  assume p: "snd p AND FLAGS_TAPE = 0"
  have n: "FLAGS_TAPE = 2 ^ 8" by simp
  have "\<not> bit (snd p) 8" using p unfolding n and_exp_eq_0_iff_not_bit .
  moreover have "bit FLAGS_TAPE 8" "\<not> bit FLAGS_BLOCK 8" "\<not> bit FLAGS_STOP 8" "\<not> bit FLAGS_NO_EDGE 8"
    by (simp_all add: bit_iff_odd)
  ultimately have "bit (snd (end_mark final p)) 8 \<longleftrightarrow> final"
    by (auto simp: end_mark_def bit_or_iff bit_and_iff bit_not_iff)
  then show ?thesis using and_exp_eq_0_iff_not_bit [of "snd (end_mark final p)" 8] unfolding n by simp
qed

lemma mark_simps:
  "mark final [p] = [end_mark final p]"
  "rest \<noteq> [] \<Longrightarrow> mark final (p # rest) = p # mark final rest"
  by (simp_all add: mark_def)

lemma length_mark [simp]: "ps \<noteq> [] \<Longrightarrow> length (mark final ps) = length ps"
  by (simp add: mark_def)

lemma chain_at_subset: "set (chain_at l a) \<subseteq> set l"
  by (auto simp: chain_at_def dest: set_dropWhileD)

lemma tape_play_from:
  assumes "playing tape c b ps" "chain_at (tape_blocks tape) c = (c, b) # xs" "quiet ps"
    "distinct (map fst (tape_blocks tape))"
    "\<forall>x \<in> set (tape_blocks tape). signal_block_ok (snd x)"
    "length (mark (xs = []) ps @ tape_signal (map snd xs)) \<le> n"
  shows "\<exists>tape'. tape_play n tape = Some (mark (xs = []) ps @ tape_signal (map snd xs), tape') \<and>
    tape_blocks tape' = tape_blocks tape \<and> at_start tape'"
  using assms
proof (induction n arbitrary: tape c b ps xs)
  case 0
  then show ?case by (simp add: mark_def)
next
  case (Suc n)
  let ?l = "tape_blocks tape"
  obtain p rest where ps: "ps = p # rest"
    using Suc.prems(1) sig.some_pulse by (metis playing_def neq_Nil_conv)
  show ?case
  proof (cases "rest = []")
    case False
    then obtain tape1 where 1: "libspectrum_tape_get_next_edge 0 tape =
        Some (ERROR_NONE, tape1, \<lparr>tstates = fst p, end_of_block = False, flags = snd p\<rparr>)"
      "playing tape1 c b rest" "tape_blocks tape1 = ?l"
      using edge_within Suc.prems(1) ps by blast
    then show ?thesis using Suc.IH [of tape1 c b rest xs] Suc.prems False ps
      by (auto simp: mark_simps)
  next
    case True
    define x where "x = (if xs = [] then hd ?l else hd xs)"
    define ys where "ys = (if xs = [] then tl ?l else tl xs)"
    have ne: "?l \<noteq> []" using Suc.prems(2) by (auto simp: chain_at_def)
    have at: "chain_at ?l (fst x) = x # ys" "x \<in> set ?l"
    proof -
      show "chain_at ?l (fst x) = x # ys"
      proof (cases xs)
        case Nil
        then show ?thesis using ne chain_at_head [of "hd ?l" "tl ?l"] by (simp add: x_def ys_def)
      next
        case (Cons y zs)
        then show ?thesis using chain_at_next [OF Suc.prems(4), of c b "fst y" "snd y" zs] Suc.prems(2)
          by (simp add: x_def ys_def)
      qed
      then show "x \<in> set ?l" using chain_at_subset [of ?l "fst x"] by simp
    qed
    obtain tape1 where 1: "libspectrum_tape_get_next_edge 0 tape =
        Some (ERROR_NONE, tape1, \<lparr>tstates = fst p, end_of_block = True, flags = snd (end_mark (xs = []) p)\<rparr>)"
      "playing tape1 (fst x) (snd x) (block_signal (snd x))" "tape_blocks tape1 = ?l"
      using edge_last [OF _ Suc.prems(2,5) x_def at, of p 0] Suc.prems(1) ps True by blast
    have p0: "snd p AND FLAGS_TAPE = 0" using Suc.prems(3) ps by simp
    show ?thesis
    proof (cases "xs = []")
      case True
      then show ?thesis using 1 ne ps \<open>rest = []\<close> end_mark_tape [OF p0, of True]
        by (simp add: mark_simps at_start_def x_def) (simp add: end_mark_def)
    next
      case False
      then have xs: "tape_signal (map snd xs) = mark (ys = []) (block_signal (snd x)) @ tape_signal (map snd ys)"
        by (cases xs) (simp_all add: x_def ys_def)
      have "\<exists>tape'. tape_play n tape1 = Some (tape_signal (map snd xs), tape') \<and>
          tape_blocks tape' = tape_blocks tape1 \<and> at_start tape'"
        unfolding xs
      proof (rule Suc.IH [OF 1(2)])
        show "chain_at (tape_blocks tape1) (fst x) = (fst x, snd x) # ys" using at(1) 1(3) by simp
        show "length (mark (ys = []) (block_signal (snd x)) @ tape_signal (map snd ys)) \<le> n"
          using Suc.prems(6) xs False ps \<open>rest = []\<close> by (simp add: mark_simps)
      qed (use quiet_block_signal Suc.prems(4,5) 1(3) in simp_all)
      then obtain tape' where "tape_play n tape1 = Some (tape_signal (map snd xs), tape')"
        "tape_blocks tape' = ?l" "at_start tape'"
        using 1(3) by auto
      moreover have "snd (end_mark False p) AND FLAGS_TAPE = 0"
        using end_mark_tape [OF p0, of False] by simp
      ultimately show ?thesis using 1(1) False ps \<open>rest = []\<close>
        by (simp add: mark_simps) (simp add: end_mark_def)
    qed
  qed
qed

lemma tape_plays_signal:
  assumes "at_start tape" "distinct (map fst (tape_blocks tape))"
    "\<forall>x \<in> set (tape_blocks tape). signal_block_ok (snd x)"
    "length (tape_signal (map snd (tape_blocks tape))) \<le> n"
  shows "\<exists>tape'. tape_play n tape = Some (tape_signal (map snd (tape_blocks tape)), tape') \<and>
    tape_blocks tape' = tape_blocks tape \<and> at_start tape'"
proof -
  obtain x xs where l: "tape_blocks tape = x # xs"
    using assms(1) by (auto simp: at_start_def neq_Nil_conv)
  then show ?thesis
    using tape_play_from [of tape "fst x" "snd x" "block_signal (snd x)" xs n] assms chain_at_head [of x xs]
      quiet_block_signal [of "snd x"]
    by (auto simp: at_start_def)
qed

section \<open>Building a tape\<close>

text \<open>A tape made as the file readers make it, by appending its blocks one by one.\<close>

fun append_all :: "nat \<Rightarrow> libspectrum_tape \<Rightarrow> libspectrum_tape_block list \<Rightarrow> libspectrum_tape option" where
  "append_all n tape [] = Some tape"
| "append_all n tape (b # bs) = do {
     tape \<leftarrow> libspectrum_tape_append_block n tape b;
     append_all (n + 1) tape bs }"

definition built :: "nat \<Rightarrow> libspectrum_tape \<Rightarrow> bool" where
  "built n tape \<longleftrightarrow> playing_ok tape \<and> (\<forall>a \<in> nodes (tape_blocks tape). a < n) \<and>
     (tape_blocks tape \<noteq> [] \<longrightarrow> at_start tape) \<and>
     (\<forall>x \<in> set (tape_blocks tape). signal_block_ok (snd x))"

lemma signal_block_playable: "signal_block_ok b \<Longrightarrow> block_ok b"
  by (cases b) simp_all

lemma at_start_current: "at_start tape \<Longrightarrow> current_block (tape_state tape) = Some (fst (hd (tape_blocks tape)))"
  by (simp add: at_start_def playing_def Let_def)

lemma append_built:
  assumes built: "built n tape" and b: "signal_block_ok b"
  shows "\<exists>tape'. libspectrum_tape_append_block n tape b = Some tape' \<and> built (n + 1) tape' \<and>
    tape_blocks tape' = tape_blocks tape @ [(n, b)]"
proof -
  have ok: "playing_ok tape" and n: "n \<notin> nodes (tape_blocks tape)"
    using built by (auto simp: built_def)
  obtain tape' where t: "libspectrum_tape_append_block n tape b = Some tape'" "playing_ok tape'"
    "tape_blocks tape' = tape_blocks tape @ [(n, b)]"
    using append_ok [OF ok n signal_block_playable [OF b]] by blast
  have "at_start tape'"
  proof (cases "tape_blocks tape = []")
    case True
    then have "current_block (tape_state tape) = None"
      using seeking_pointers(1) [OF playing_seeking [OF ok]]
      by (cases "current_block (tape_state tape)") auto
    moreover obtain sts where "libspectrum_tape_block_init (Some b) (block_state (tape_state tape)) =
        Some (ERROR_NONE, sts)" "signal_ready b sts" "signal_to_come b sts = block_signal b"
      using signal_started [OF b] by blast
    ultimately show ?thesis using t(1) True
      by (auto simp: libspectrum_tape_append_block_def at_start_def playing_def head_address_def
          libspectrum_tape_iterator_current_def node_data_def chain_at_def)
  next
    case False
    then have start: "at_start tape" using built by (simp add: built_def)
    have "tape_state tape' = tape_state tape"
      using t(1) append_blocks [OF ok, of n b] at_start_current [OF start]
      by (auto simp: libspectrum_tape_append_block_def)
    then show ?thesis using start t(3) False
      by (cases "tape_blocks tape") (auto simp: at_start_def playing_def
          libspectrum_tape_iterator_current_def node_data_def chain_at_def)
  qed
  then show ?thesis using t built b by (auto simp: built_def)
qed

lemma append_all_built:
  "built n tape \<Longrightarrow> \<forall>b \<in> set bs. signal_block_ok b \<Longrightarrow>
     \<exists>tape'. append_all n tape bs = Some tape' \<and> built (n + length bs) tape' \<and>
       map snd (tape_blocks tape') = map snd (tape_blocks tape) @ bs"
proof (induction bs arbitrary: n tape)
  case (Cons b bs)
  then obtain tape1 where "libspectrum_tape_append_block n tape b = Some tape1" "built (n + 1) tape1"
    "tape_blocks tape1 = tape_blocks tape @ [(n, b)]"
    using append_built [of n tape b] by auto
  then show ?case using Cons.IH [of "n + 1" tape1] Cons.prems(2) by auto
qed simp

lemma alloc_built: "built n (libspectrum_tape_alloc count sts)"
  by (simp add: built_def alloc_ok) (simp add: libspectrum_tape_alloc_def)

text \<open>
  C1: a tape made by appending data blocks to a new tape plays the signals of its blocks
  in order, each ended by the end-of-block flag and the last by the stop and end-of-tape
  flags; it is then rewound and plays the same again.
\<close>

theorem built_tape_plays:
  assumes "bs \<noteq> []" "\<forall>b \<in> set bs. signal_block_ok b" "length (tape_signal bs) \<le> n"
  shows "\<exists>tape tape' tape''. append_all 0 (libspectrum_tape_alloc count sts) bs = Some tape \<and>
    tape_play n tape = Some (tape_signal bs, tape') \<and>
    tape_play n tape' = Some (tape_signal bs, tape'')"
proof -
  obtain tape where tape: "append_all 0 (libspectrum_tape_alloc count sts) bs = Some tape"
    "built (length bs) tape" "map snd (tape_blocks tape) = bs"
    using append_all_built [OF alloc_built assms(2), of 0 count sts]
    by (auto simp: libspectrum_tape_alloc_def)
  have ok: "playing_ok tape" and ne: "tape_blocks tape \<noteq> []"
    using tape(2,3) assms(1) by (auto simp: built_def)
  have start: "at_start tape" and wf: "\<forall>x \<in> set (tape_blocks tape). signal_block_ok (snd x)"
    using tape(2) ne by (auto simp: built_def)
  obtain tape1 where 1: "tape_play n tape = Some (tape_signal bs, tape1)"
    "tape_blocks tape1 = tape_blocks tape" "at_start tape1"
    using tape_plays_signal [OF start playing_lists(1) [OF ok] wf, of n] assms(3) tape(3) by auto
  then show ?thesis
    using tape_plays_signal [OF 1(3), of n] wf playing_lists(1) [OF ok] assms(3) tape(1,3) by auto
qed

theorem built_tape_plays_witness:
  "\<forall>count sts. \<exists>tape tape' tape''.
     append_all 0 (libspectrum_tape_alloc count sts) [TURBO turbo_example, PURE_DATA pd_example] = Some tape \<and>
     tape_play 100 tape = Some (tape_signal [TURBO turbo_example, PURE_DATA pd_example], tape') \<and>
     tape_play 100 tape' = Some (tape_signal [TURBO turbo_example, PURE_DATA pd_example], tape'')"
  by (intro allI, rule built_tape_plays)
    (simp_all add: turbo_block_ok_def pd_block_ok_def mark_def turbo_signal_def pd_signal_def)

end
