(* ===== verification/Tape_Access.thy ===== *)
theory Tape_Access
  imports Tape_Block
begin

text \<open>
  The accessors of tape blocks that the readers and writers use, as
  \<open>tape_accessors.pl\<close> and \<open>tape_set.pl\<close> generate them from \<open>tape_accessors.txt\<close>, and the
  pause setters of \<open>utilities.c\<close>. On a block type without the member a getter returns its
  default and a setter \<open>ERROR_INVALID\<close>.
\<close>

fun libspectrum_tape_block_data :: "libspectrum_tape_block \<Rightarrow> byte list option" where
  "libspectrum_tape_block_data (CUSTOM b) = Some (custom_data b)"
| "libspectrum_tape_block_data (DATA_BLOCK b) = Some (db_data b)"
| "libspectrum_tape_block_data (GENERALISED_DATA b) = Some (gd_data b)"
| "libspectrum_tape_block_data (PURE_DATA b) = Some (pd_data b)"
| "libspectrum_tape_block_data (RAW_DATA b) = rd_data b"
| "libspectrum_tape_block_data (RLE_PULSE b) = Some (rle_data b)"
| "libspectrum_tape_block_data (ROM b) = Some (rom_data b)"
| "libspectrum_tape_block_data (TURBO b) = Some (turbo_data b)"
| "libspectrum_tape_block_data _ = None"

fun libspectrum_tape_block_data_length :: "libspectrum_tape_block \<Rightarrow> size_t" where
  "libspectrum_tape_block_data_length (CUSTOM b) = custom_length b"
| "libspectrum_tape_block_data_length (DATA_BLOCK b) = db_length b"
| "libspectrum_tape_block_data_length (PURE_DATA b) = pd_length b"
| "libspectrum_tape_block_data_length (RAW_DATA b) = rd_length b"
| "libspectrum_tape_block_data_length (RLE_PULSE b) = rle_length b"
| "libspectrum_tape_block_data_length (ROM b) = rom_length b"
| "libspectrum_tape_block_data_length (TURBO b) = turbo_length b"
| "libspectrum_tape_block_data_length _ = -1"

fun libspectrum_tape_block_pause :: "libspectrum_tape_block \<Rightarrow> dword" where
  "libspectrum_tape_block_pause (GENERALISED_DATA b) = gd_pause b"
| "libspectrum_tape_block_pause (MESSAGE b) = word_of_int (message_time b)"
| "libspectrum_tape_block_pause (PAUSE b) = pause_length b"
| "libspectrum_tape_block_pause (PURE_DATA b) = pd_pause b"
| "libspectrum_tape_block_pause (RAW_DATA b) = rd_pause b"
| "libspectrum_tape_block_pause (ROM b) = rom_pause b"
| "libspectrum_tape_block_pause (TURBO b) = turbo_pause b"
| "libspectrum_tape_block_pause _ = -1"

fun libspectrum_tape_block_pause_tstates :: "libspectrum_tape_block \<Rightarrow> dword" where
  "libspectrum_tape_block_pause_tstates (GENERALISED_DATA b) = gd_pause_tstates b"
| "libspectrum_tape_block_pause_tstates (MESSAGE b) = word_of_int (message_time_tstates b)"
| "libspectrum_tape_block_pause_tstates (PAUSE b) = pause_length_tstates b"
| "libspectrum_tape_block_pause_tstates (PURE_DATA b) = pd_pause_tstates b"
| "libspectrum_tape_block_pause_tstates (RAW_DATA b) = rd_pause_tstates b"
| "libspectrum_tape_block_pause_tstates (ROM b) = rom_pause_tstates b"
| "libspectrum_tape_block_pause_tstates (TURBO b) = turbo_pause_tstates b"
| "libspectrum_tape_block_pause_tstates _ = -1"

text \<open>The members of a message block are \<open>int\<close>s, so the value set is read as signed.\<close>

fun libspectrum_tape_block_set_pause ::
    "libspectrum_tape_block \<Rightarrow> dword \<Rightarrow> libspectrum_error \<times> libspectrum_tape_block" where
  "libspectrum_tape_block_set_pause (GENERALISED_DATA b) x = (ERROR_NONE, GENERALISED_DATA (b\<lparr>gd_pause := x\<rparr>))"
| "libspectrum_tape_block_set_pause (MESSAGE b) x = (ERROR_NONE, MESSAGE (b\<lparr>message_time := sint x\<rparr>))"
| "libspectrum_tape_block_set_pause (PAUSE b) x = (ERROR_NONE, PAUSE (b\<lparr>pause_length := x\<rparr>))"
| "libspectrum_tape_block_set_pause (PURE_DATA b) x = (ERROR_NONE, PURE_DATA (b\<lparr>pd_pause := x\<rparr>))"
| "libspectrum_tape_block_set_pause (RAW_DATA b) x = (ERROR_NONE, RAW_DATA (b\<lparr>rd_pause := x\<rparr>))"
| "libspectrum_tape_block_set_pause (ROM b) x = (ERROR_NONE, ROM (b\<lparr>rom_pause := x\<rparr>))"
| "libspectrum_tape_block_set_pause (TURBO b) x = (ERROR_NONE, TURBO (b\<lparr>turbo_pause := x\<rparr>))"
| "libspectrum_tape_block_set_pause b x = (ERROR_INVALID, b)"

fun libspectrum_tape_block_set_pause_tstates ::
    "libspectrum_tape_block \<Rightarrow> dword \<Rightarrow> libspectrum_error \<times> libspectrum_tape_block" where
  "libspectrum_tape_block_set_pause_tstates (GENERALISED_DATA b) x =
     (ERROR_NONE, GENERALISED_DATA (b\<lparr>gd_pause_tstates := x\<rparr>))"
| "libspectrum_tape_block_set_pause_tstates (MESSAGE b) x =
     (ERROR_NONE, MESSAGE (b\<lparr>message_time_tstates := sint x\<rparr>))"
| "libspectrum_tape_block_set_pause_tstates (PAUSE b) x = (ERROR_NONE, PAUSE (b\<lparr>pause_length_tstates := x\<rparr>))"
| "libspectrum_tape_block_set_pause_tstates (PURE_DATA b) x = (ERROR_NONE, PURE_DATA (b\<lparr>pd_pause_tstates := x\<rparr>))"
| "libspectrum_tape_block_set_pause_tstates (RAW_DATA b) x = (ERROR_NONE, RAW_DATA (b\<lparr>rd_pause_tstates := x\<rparr>))"
| "libspectrum_tape_block_set_pause_tstates (ROM b) x = (ERROR_NONE, ROM (b\<lparr>rom_pause_tstates := x\<rparr>))"
| "libspectrum_tape_block_set_pause_tstates (TURBO b) x = (ERROR_NONE, TURBO (b\<lparr>turbo_pause_tstates := x\<rparr>))"
| "libspectrum_tape_block_set_pause_tstates b x = (ERROR_INVALID, b)"

definition libspectrum_set_pause_ms :: "libspectrum_tape_block \<Rightarrow> dword \<Rightarrow> libspectrum_tape_block" where
  "libspectrum_set_pause_ms block pause_ms =
     (let (_, block) = libspectrum_tape_block_set_pause block pause_ms;
          (_, block) = libspectrum_tape_block_set_pause_tstates block (libspectrum_ms_to_tstates pause_ms)
      in block)"

definition libspectrum_set_pause_tstates :: "libspectrum_tape_block \<Rightarrow> dword \<Rightarrow> libspectrum_tape_block" where
  "libspectrum_set_pause_tstates block pause_tstates =
     (let (_, block) = libspectrum_tape_block_set_pause_tstates block pause_tstates;
          (_, block) = libspectrum_tape_block_set_pause block (libspectrum_tstates_to_ms pause_tstates)
      in block)"

section \<open>Milliseconds and T-states\<close>

lemma tstates_per_ms_nat [simp]: "unat tstates_per_ms = 3500"
  by (simp add: tstates_per_ms_def)

lemma ms_tstates_ms:
  assumes "unat ms * 3500 < 2 ^ 32"
  shows "libspectrum_tstates_to_ms (libspectrum_ms_to_tstates ms) = ms"
proof -
  have "unat (ms * tstates_per_ms) = unat ms * 3500"
    using assms by (simp add: unat_word_ariths)
  then show ?thesis
    by (simp add: libspectrum_tstates_to_ms_def libspectrum_ms_to_tstates_def word_unat_eq_iff
        unat_div_distrib)
qed

text \<open>The two pauses of a block agree: one is the other in whole milliseconds.\<close>

definition pauses_agree :: "libspectrum_tape_block \<Rightarrow> bool" where
  "pauses_agree b \<longleftrightarrow>
     libspectrum_tape_block_pause b = libspectrum_tstates_to_ms (libspectrum_tape_block_pause_tstates b)"

fun has_pause :: "libspectrum_tape_block \<Rightarrow> bool" where
  "has_pause (GENERALISED_DATA _) = True"
| "has_pause (MESSAGE _) = True"
| "has_pause (PAUSE _) = True"
| "has_pause (PURE_DATA _) = True"
| "has_pause (RAW_DATA _) = True"
| "has_pause (ROM _) = True"
| "has_pause (TURBO _) = True"
| "has_pause _ = False"

text \<open>
  C33: setting the pause of a block in either unit sets both, and they agree: in T-states
  always, in milliseconds as long as their number of T-states fits in 32 bits.
\<close>

theorem set_pause_agrees:
  assumes "has_pause b" "unat ms * 3500 < 2 ^ 32"
  shows "pauses_agree (libspectrum_set_pause_ms b ms) \<and>
    libspectrum_tape_block_pause (libspectrum_set_pause_ms b ms) = ms \<and>
    pauses_agree (libspectrum_set_pause_tstates b t) \<and>
    libspectrum_tape_block_pause_tstates (libspectrum_set_pause_tstates b t) = t"
  using assms ms_tstates_ms [OF assms(2)]
  by (cases b) (simp_all add: libspectrum_set_pause_ms_def libspectrum_set_pause_tstates_def
      pauses_agree_def)

theorem set_pause_agrees_witness:
  "pauses_agree (libspectrum_set_pause_ms (PAUSE \<lparr>pause_length = 0, pause_length_tstates = 0, pause_level = 1\<rparr>) 1000) \<and>
   libspectrum_tape_block_pause (libspectrum_set_pause_ms (PAUSE \<lparr>pause_length = 0, pause_length_tstates = 0, pause_level = 1\<rparr>) 1000) = 1000 \<and>
   pauses_agree (libspectrum_set_pause_tstates (PAUSE \<lparr>pause_length = 0, pause_length_tstates = 0, pause_level = 1\<rparr>) 69888) \<and>
   libspectrum_tape_block_pause_tstates (libspectrum_set_pause_tstates (PAUSE \<lparr>pause_length = 0, pause_length_tstates = 0, pause_level = 1\<rparr>) 69888) = 69888"
  by (rule set_pause_agrees) simp_all

end
