(* ===== verification/Tap.thy ===== *)
theory Tap
  imports Tape_Sound Tape_Access LS_Buffer
begin

text \<open>
  \<open>tap.c\<close>: reading and writing tapes in the \<open>.tap\<close>, \<open>.spc\<close>, \<open>.sta\<close> and \<open>.ltp\<close> formats, a
  sequence of blocks each with a 16-bit length. The reader works on the bytes that are left
  between \<open>ptr\<close> and \<open>end\<close>; the nodes it appends get the addresses \<open>n, n + 1, \<dots>\<close>.
\<close>

section \<open>Reading\<close>

definition is_offset_type :: "libspectrum_id_t \<Rightarrow> bool" where
  "is_offset_type type \<longleftrightarrow> type = ID_TAPE_SPC \<or> type = ID_TAPE_STA \<or> type = ID_TAPE_LTP"

text \<open>The loop that computes the parity of the first \<open>n\<close> bytes.\<close>

fun parity_loop :: "byte list \<Rightarrow> nat \<Rightarrow> nat \<Rightarrow> byte \<Rightarrow> byte option" where
  "parity_loop data i 0 parity = Some parity"
| "parity_loop data i (Suc n) parity = do {
     b \<leftarrow> nget data i;
     parity_loop data (i + 1) n (parity XOR b) }"

definition fix_parity :: "libspectrum_id_t \<Rightarrow> byte list \<Rightarrow> size_t \<Rightarrow> byte list option" where
  "fix_parity type data data_length =
     (if type = ID_TAPE_SPC then do {
        p \<leftarrow> aget data (data_length - 1);
        b \<leftarrow> nget data 0;
        aset data (data_length - 1) (p XOR b) }
      else if type = ID_TAPE_STA then do {
        parity \<leftarrow> parity_loop data 0 (unat (data_length - 1)) 0;
        aset data (data_length - 1) parity }
      else Some data)"

function (sequential) tap_read_loop ::
    "(nat \<Rightarrow> byte) \<Rightarrow> libspectrum_id_t \<Rightarrow> nat \<Rightarrow> libspectrum_tape \<Rightarrow> byte list \<Rightarrow> libspectrum_tape c_result" where
  "tap_read_loop junk type n tape [] = Some (ERROR_NONE, tape)"
| "tap_read_loop junk type n tape [a] = Some (ERROR_CORRUPT, libspectrum_tape_clear tape)"
| "tap_read_loop junk type n tape (a # b # rest) =
     (let data_length = ucast a + ucast b * 0x100 + (if is_offset_type type then 2 else 0);
          buf_length = (if type = ID_TAPE_STA then data_length - 1 else data_length)
      in if int (length rest) < sint (buf_length :: size_t)
         then Some (ERROR_CORRUPT, libspectrum_tape_clear tape)
         else do {
           let data = renew junk [] (unat data_length);
           data \<leftarrow> memcpy_at data 0 rest (unat buf_length);
           data \<leftarrow> fix_parity type data data_length;
           let block = libspectrum_set_pause_ms
             (ROM \<lparr>rom_length = data_length, rom_data = data, rom_pause = 0, rom_pause_tstates = 0\<rparr>) 1000;
           tape \<leftarrow> libspectrum_tape_append_block n tape block;
           tap_read_loop junk type (n + 1) tape (drop (unat buf_length) rest) })"
  by pat_completeness auto
termination
  by (relation "measure (\<lambda>(junk, type, n, tape, rest). length rest)") auto

definition internal_tap_read ::
    "(nat \<Rightarrow> byte) \<Rightarrow> nat \<Rightarrow> libspectrum_tape \<Rightarrow> byte list \<Rightarrow> libspectrum_id_t \<Rightarrow> libspectrum_tape c_result" where
  "internal_tap_read junk n tape input type = tap_read_loop junk type n tape input"

section \<open>Writing\<close>

definition write_tap_block ::
    "(nat \<Rightarrow> byte) \<Rightarrow> lbuffer \<Rightarrow> byte list \<Rightarrow> size_t \<Rightarrow> libspectrum_id_t \<Rightarrow> lbuffer c_result" where
  "write_tap_block junk b data data_length type =
     (let buf_length = (if type = ID_TAPE_STA then data_length - 1 else data_length)
      in if is_offset_type type \<and> data_length < 2 then Some (ERROR_INVALID, b)
         else do {
           let data_length = (if is_offset_type type then data_length - 2 else data_length);
           b \<leftarrow> libspectrum_buffer_write_byte junk b (ucast (data_length AND 0x00ff));
           b \<leftarrow> libspectrum_buffer_write_byte junk b (ucast (drop_bit 8 (data_length AND 0xff00)));
           b \<leftarrow> libspectrum_buffer_write junk b data (buf_length - 1);
           parity \<leftarrow> aget data (buf_length - 1);
           parity \<leftarrow> (if type = ID_TAPE_SPC then map_option ((XOR) parity) (nget data 0) else Some parity);
           b \<leftarrow> libspectrum_buffer_write_byte junk b parity;
           Some (ERROR_NONE, b) })"

definition write_data_of ::
    "(nat \<Rightarrow> byte) \<Rightarrow> libspectrum_tape_block \<Rightarrow> lbuffer \<Rightarrow> libspectrum_id_t \<Rightarrow> lbuffer c_result" where
  "write_data_of junk block b type = do {
     data \<leftarrow> libspectrum_tape_block_data block;
     write_tap_block junk b data (libspectrum_tape_block_data_length block) type }"

text \<open>The block is only described in a message; 256 is the size of the local text.\<close>

definition skip_block :: "libspectrum_tape_block \<Rightarrow> libspectrum_error option" where
  "skip_block block =
     map_option fst (libspectrum_tape_block_description (replicate 256 (CHR 0x00)) 256 block)"

text \<open>\<open>return 1\<close> is the value of \<open>ERROR_WARNING\<close>.\<close>

definition skip_step :: "libspectrum_tape_block \<Rightarrow> lbuffer \<Rightarrow> lbuffer c_result" where
  "skip_step block b = do {
     e \<leftarrow> skip_block block;
     Some (if e \<noteq> ERROR_NONE then ERROR_WARNING else ERROR_NONE, b) }"

definition tap_write_step ::
    "(nat \<Rightarrow> byte) \<Rightarrow> libspectrum_tape_block \<Rightarrow> lbuffer \<Rightarrow> libspectrum_id_t \<Rightarrow> lbuffer c_result" where
  "tap_write_step junk block b type =
     (case block of
        ROM _ \<Rightarrow> write_data_of junk block b type
      | TURBO _ \<Rightarrow> write_data_of junk block b type
      | PURE_DATA _ \<Rightarrow> write_data_of junk block b type
      | _ \<Rightarrow> skip_step block b)"

text \<open>The iteration over the tape visits the blocks of the list in order.\<close>

fun tap_write_loop ::
    "(nat \<Rightarrow> byte) \<Rightarrow> libspectrum_tape_block list \<Rightarrow> lbuffer \<Rightarrow> libspectrum_id_t \<Rightarrow> lbuffer c_result" where
  "tap_write_loop junk [] b type = Some (ERROR_NONE, b)"
| "tap_write_loop junk (block # blocks) b type =
     on_ok (tap_write_step junk block b type) (\<lambda>b. tap_write_loop junk blocks b type)"

definition internal_tap_write ::
    "(nat \<Rightarrow> byte) \<Rightarrow> lbuffer \<Rightarrow> libspectrum_tape \<Rightarrow> libspectrum_id_t \<Rightarrow> lbuffer c_result" where
  "internal_tap_write junk b tape type = tap_write_loop junk (map snd (tape_blocks tape)) b type"

section \<open>The format\<close>

text \<open>
  A block as it stands in a file: the length, 16 bits, least significant byte first (less
  two for the formats that do not count the flag and parity bytes), and the data, with the
  parity byte left out in \<open>.sta\<close> files and mixed with the flag byte in \<open>.spc\<close> files.
\<close>

definition tap_payload :: "libspectrum_id_t \<Rightarrow> byte list \<Rightarrow> byte list" where
  "tap_payload type d =
     (if type = ID_TAPE_STA then butlast d
      else if type = ID_TAPE_SPC then butlast d @ [List.last d XOR hd d]
      else d)"

definition tap_stored_length :: "libspectrum_id_t \<Rightarrow> byte list \<Rightarrow> nat" where
  "tap_stored_length type d = length d - (if is_offset_type type then 2 else 0)"

definition tap_block :: "libspectrum_id_t \<Rightarrow> byte list \<Rightarrow> byte list" where
  "tap_block type d =
     [word_of_nat (tap_stored_length type d mod 256), word_of_nat (tap_stored_length type d div 256)]
       @ tap_payload type d"

definition parity_of :: "byte list \<Rightarrow> byte" where
  "parity_of bs = fold (\<lambda>b p. p XOR b) bs 0"

text \<open>The data a format can hold. An \<open>.sta\<close> file does not store a wrong parity byte.\<close>

definition tap_data_ok :: "libspectrum_id_t \<Rightarrow> byte list \<Rightarrow> bool" where
  "tap_data_ok type d \<longleftrightarrow>
     (if is_offset_type type then 2 \<le> length d \<and> length d < 65536 + 2
      else 1 \<le> length d \<and> length d < 65536) \<and>
     (type = ID_TAPE_STA \<longrightarrow> List.last d = parity_of (butlast d))"

lemma tap_stored_length_less: "tap_data_ok type d \<Longrightarrow> tap_stored_length type d < 65536"
  by (auto simp: tap_data_ok_def tap_stored_length_def split: if_splits)

lemma tap_data_ok_length: "tap_data_ok type d \<Longrightarrow> 1 \<le> length d \<and> length d < 65538"
  by (auto simp: tap_data_ok_def split: if_splits)

section \<open>The writer\<close>

lemma low_byte: "(ucast ((word_of_nat n :: size_t) AND 0x00ff) :: byte) = word_of_nat (n mod 256)"
proof -
  have m: "(0x00ff :: size_t) = mask 8" by (simp add: mask_eq_exp_minus_1)
  have "(ucast ((word_of_nat n :: size_t) AND mask 8) :: byte) = word_of_nat n"
    by (rule bit_word_eqI) (auto simp: bit_simps)
  also have "\<dots> = word_of_nat (n mod 256)"
    using word_of_nat_eq_iff [of n "n mod 256", where 'a = 8] by (simp add: take_bit_eq_mod)
  finally show ?thesis unfolding m .
qed

lemma high_byte:
  assumes "n < 65536"
  shows "(ucast (drop_bit 8 ((word_of_nat n :: size_t) AND 0xff00)) :: byte) = word_of_nat (n div 256)"
proof -
  have m: "(0xff00 :: size_t) = push_bit 8 (mask 8)" by (simp add: mask_eq_exp_minus_1 push_bit_eq_mult)
  have "(ucast (drop_bit 8 ((word_of_nat n :: size_t) AND push_bit 8 (mask 8))) :: byte) = word_of_nat (drop_bit 8 n)"
    by (rule bit_word_eqI) (auto simp: bit_simps)
  then show ?thesis unfolding m by (simp add: drop_bit_eq_div)
qed

lemma unat_size_t: "n < 2 ^ 64 \<Longrightarrow> unat (word_of_nat n :: size_t) = n"
  by (simp add: unat_of_nat)

lemma map_option_bind': "map_option f (m \<bind> g) = m \<bind> (\<lambda>x. map_option f (g x))"
  by (cases m) simp_all

lemma bind_pair: "m \<bind> (\<lambda>b. Some (e, b)) = map_option (Pair e) m"
  by (cases m) simp_all

lemma write_prefix:
  assumes "n \<le> length data" "n < 2 ^ 64"
  shows "libspectrum_buffer_write junk b data (word_of_nat n) =
    libspectrum_buffer_write junk b (take n data) (word_of_nat (length (take n data)))"
proof -
  have len: "length (take n data) = n" using assms(1) by simp
  show ?thesis using assms
    by (simp only: len libspectrum_buffer_write_def memcpy_at_def unat_size_t take_take min.idem order_refl)
qed

lemma of_nat_minus_1: "0 < n \<Longrightarrow> (word_of_nat n :: size_t) - 1 = word_of_nat (n - 1)"
  by (simp add: of_nat_diff)

lemma write_tap_block_contents:
  assumes ok: "tap_data_ok type d" and room: "has_room b n" "length (tap_block type d) \<le> n"
  shows "\<exists>b'. write_tap_block junk b d (word_of_nat (length d)) type = Some (ERROR_NONE, b') \<and>
    contents b' = contents b @ tap_block type d \<and> has_room b' (n - length (tap_block type d))"
proof -
  let ?len = "word_of_nat (length d) :: size_t"
  let ?L = "tap_stored_length type d"
  define k where "k = (if type = ID_TAPE_STA then length d - 1 else length d)"
  define x where "x = (if type = ID_TAPE_SPC then d ! (k - 1) XOR d ! 0 else d ! (k - 1))"
  have d: "1 \<le> length d" "length d < 65538" using tap_data_ok_length [OF ok] by auto
  have two: "is_offset_type type \<Longrightarrow> 2 \<le> length d" using ok by (simp add: tap_data_ok_def)
  have k: "1 \<le> k" "k \<le> length d" using d two by (auto simp: k_def is_offset_type_def)
  have kw: "(if type = ID_TAPE_STA then ?len - 1 else ?len) = word_of_nat k"
    unfolding k_def using d of_nat_minus_1 [of "length d"] by (simp only: if_distrib [of word_of_nat])
  have k1: "word_of_nat k - (1 :: size_t) = word_of_nat (k - 1)" using k by (intro of_nat_minus_1) simp
  have L: "(if is_offset_type type then ?len - 2 else ?len) = word_of_nat ?L"
    using two of_nat_diff [of 2 "length d"] by (simp only: tap_stored_length_def) simp
  have long: "\<not> (is_offset_type type \<and> ?len < 2)"
    using two d by (auto simp: word_less_nat_alt unat_size_t)
  have last: "aget d (word_of_nat (k - 1) :: size_t) = Some (d ! (k - 1))"
  proof -
    have u: "unat (word_of_nat (k - 1) :: size_t) = k - 1" using k d by (intro unat_size_t) simp
    show ?thesis unfolding aget_def u using k by simp
  qed
  have first: "nget d 0 = Some (d ! 0)" using d by (cases d) (simp_all add: nget_def)
  let ?ws = "[[word_of_nat (?L mod 256)], [word_of_nat (?L div 256)], take (k - 1) d, [x]]"
  have payload: "take (k - 1) d @ [x] = tap_payload type d"
  proof (cases "type = ID_TAPE_STA")
    case True
    then have ne: "butlast d \<noteq> []" using two d by (cases d rule: rev_cases) (auto simp: is_offset_type_def)
    moreover have "d ! (k - 1) = List.last (butlast d)"
      using True k last_conv_nth [OF ne] by (simp add: k_def nth_butlast)
    moreover have "take (k - 1) d = butlast (butlast d)"
      using True by (simp add: k_def butlast_conv_take)
    ultimately show ?thesis using True by (simp add: x_def tap_payload_def)
  next
    case False
    have ne: "d \<noteq> []" using d by (cases d) auto
    then have "take (length d - 1) d = butlast d" "d ! (length d - 1) = List.last d" "d ! 0 = hd d"
      by (simp_all add: butlast_conv_take last_conv_nth hd_conv_nth)
    then show ?thesis using False ne by (simp add: x_def k_def tap_payload_def)
  qed
  then have ws: "concat ?ws = tap_block type d" by (simp add: tap_block_def)
  obtain b' where "buf.emit_all junk b ?ws = Some b'" "contents b' = contents b @ tap_block type d"
    "has_room b' (n - length (tap_block type d))"
    using buf.emit_all_law [OF room(1), of ?ws junk] room(2) unfolding ws by blast
  moreover have "write_tap_block junk b d ?len type = map_option (Pair ERROR_NONE) (buf.emit_all junk b ?ws)"
  proof -
    have "k - 1 \<le> length d" "k - 1 < 2 ^ 64" using k d by auto
    note prefix = write_prefix [OF this]
    show ?thesis
      unfolding write_tap_block_def Let_def kw L k1 write_byte_as_write low_byte
        high_byte [OF tap_stored_length_less [OF ok]] prefix last first
        if_not_P [OF long]
      by (simp add: x_def map_option_bind' bind_pair del: of_nat_diff)
  qed
  ultimately show ?thesis by auto
qed

section \<open>The reader\<close>

lemma parity_loop_eq:
  "i + n \<le> length data \<Longrightarrow> parity_loop data i n p = Some (fold (\<lambda>b p. p XOR b) (take n (drop i data)) p)"
proof (induction n arbitrary: i p)
  case (Suc n)
  then have "take (Suc n) (drop i data) = data ! i # take n (drop (i + 1) data)"
    by (simp add: Cons_nth_drop_Suc [symmetric])
  then show ?case using Suc by (simp add: nget_def)
qed simp

text \<open>The block the reader makes of data.\<close>

definition rom_with :: "byte list \<Rightarrow> libspectrum_tape_block" where
  "rom_with d = ROM \<lparr>rom_length = word_of_nat (length d), rom_data = d, rom_pause = 1000,
     rom_pause_tstates = 3500000\<rparr>"

lemma set_pause_rom:
  "libspectrum_set_pause_ms (ROM \<lparr>rom_length = word_of_nat (length d), rom_data = d, rom_pause = p,
     rom_pause_tstates = q\<rparr>) 1000 = rom_with d"
  by (simp add: libspectrum_set_pause_ms_def rom_with_def libspectrum_ms_to_tstates_def tstates_per_ms_def)

lemma length_bytes:
  assumes "n < 65536"
  shows "ucast (word_of_nat (n mod 256) :: byte) + ucast (word_of_nat (n div 256) :: byte) * 0x100
    = (word_of_nat n :: size_t)"
proof -
  have u: "m < 256 \<Longrightarrow> ucast (word_of_nat m :: byte) = (word_of_nat m :: size_t)" for m
    by (simp add: word_unat_eq_iff unsigned_ucast_eq unat_of_nat take_bit_nat_eq_self)
  have "n div 256 < 256" using assms by (simp add: less_mult_imp_div_less)
  then have "ucast (word_of_nat (n mod 256) :: byte) + ucast (word_of_nat (n div 256) :: byte) * 0x100
    = (word_of_nat (n mod 256 + n div 256 * 256) :: size_t)"
    unfolding u [OF \<open>n div 256 < 256\<close>] u [OF mod_less_divisor [OF zero_less_numeral]]
    by (simp only: of_nat_add of_nat_mult of_nat_numeral)
  then show ?thesis by (simp only: mod_div_mult_eq)
qed

lemma fix_parity_payload:
  assumes ok: "tap_data_ok type d"
    and data: "data = tap_payload type d @ drop (length (tap_payload type d)) (map junk [0..<length d])"
  shows "fix_parity type data (word_of_nat (length d)) = Some d"
proof -
  have d: "1 \<le> length d" "length d < 65538" using tap_data_ok_length [OF ok] by auto
  have two: "is_offset_type type \<Longrightarrow> 2 \<le> length d" using ok by (simp add: tap_data_ok_def)
  obtain ys y where dy: "d = ys @ [y]" using d by (cases d rule: rev_cases) auto
  define w where "w = (word_of_nat (length d) :: size_t) - 1"
  have w: "unat w = length ys"
    using d of_nat_minus_1 [of "length d"] unat_size_t [of "length d - 1"] by (simp add: w_def dy)
  show ?thesis
  proof (cases "type = ID_TAPE_SPC \<or> type = ID_TAPE_STA")
    case True
    then obtain z zs where ys: "ys = z # zs" using two dy by (cases ys) (auto simp: is_offset_type_def)
    have "(y XOR z) XOR z = y" by (simp add: xor.assoc)
    moreover have "type = ID_TAPE_STA \<Longrightarrow> y = parity_of ys" using ok dy by (auto simp: tap_data_ok_def)
    ultimately show ?thesis unfolding fix_parity_def w_def [symmetric] using True data w dy ys
      by (auto simp: aget_def aset_def nget_def tap_payload_def parity_loop_eq
          parity_of_def nth_append list_update_append)
  next
    case False
    then show ?thesis using data by (simp add: fix_parity_def tap_payload_def)
  qed
qed

lemma read_tap_block:
  assumes ok: "tap_data_ok type d"
  shows "tap_read_loop junk type n tape (tap_block type d @ rest) =
    libspectrum_tape_append_block n tape (rom_with d) \<bind>
      (\<lambda>tape. tap_read_loop junk type (n + 1) tape rest)"
proof -
  let ?L = "tap_stored_length type d"
  define k where "k = length (tap_payload type d)"
  have d: "1 \<le> length d" "length d < 65538" using tap_data_ok_length [OF ok] by auto
  have two: "is_offset_type type \<Longrightarrow> 2 \<le> length d" using ok by (simp add: tap_data_ok_def)
  have len: "ucast (word_of_nat (?L mod 256) :: byte) + ucast (word_of_nat (?L div 256) :: byte) * 0x100
      + (if is_offset_type type then 2 else 0) = (word_of_nat (length d) :: size_t)"
    unfolding length_bytes [OF tap_stored_length_less [OF ok]]
    using two of_nat_diff [of 2 "length d", where 'a = size_t]
    by (simp only: tap_stored_length_def split: if_split) simp
  have k: "k \<le> length d" "k = (if type = ID_TAPE_STA then length d - 1 else length d)"
    using d by (auto simp: k_def tap_payload_def)
  have kw: "(if type = ID_TAPE_STA then word_of_nat (length d) - (1 :: size_t) else word_of_nat (length d)) = word_of_nat k"
    unfolding k(2) using d of_nat_minus_1 [of "length d"] by (simp only: if_distrib [of word_of_nat])
  have ku: "unat (word_of_nat k :: size_t) = k" using k(1) d by (intro unat_size_t) simp
  have ks: "sint (word_of_nat k :: size_t) = int k"
    using k(1) d by (simp add: sint_uint uint_nat ku signed_take_bit_int_eq_self del: of_nat_unat)
  have lu: "unat (word_of_nat (length d) :: size_t) = length d" using d by (intro unat_size_t) simp
  have mem: "memcpy_at (map junk [0..<length d]) 0 (tap_payload type d @ rest) k =
      Some (tap_payload type d @ drop k (map junk [0..<length d]))"
    using k(1) by (simp add: memcpy_at_def k_def)
  have fixed: "fix_parity type (tap_payload type d @ drop k (map junk [0..<length d])) (word_of_nat (length d)) = Some d"
    using fix_parity_payload [OF ok] by (simp add: k_def)
  have enough: "int (length (tap_payload type d @ rest)) < int k \<longleftrightarrow> False" by (simp add: k_def)
  have rest: "drop k (tap_payload type d @ rest) = rest" by (simp add: k_def)
  show ?thesis
    unfolding tap_block_def append.simps tap_read_loop.simps Let_def len kw ku ks lu enough rest
      renew_def set_pause_rom
    by (simp add: mem fixed set_pause_rom [simplified])
qed

section \<open>Round trip\<close>

definition tap_file :: "libspectrum_id_t \<Rightarrow> byte list list \<Rightarrow> byte list" where
  "tap_file type ds = concat (map (tap_block type) ds)"

text \<open>The block has a data member that the writer stores, with its length.\<close>

fun holds_data :: "libspectrum_tape_block \<Rightarrow> byte list \<Rightarrow> bool" where
  "holds_data (ROM b) d \<longleftrightarrow> rom_data b = d \<and> rom_length b = word_of_nat (length d)"
| "holds_data (TURBO b) d \<longleftrightarrow> turbo_data b = d \<and> turbo_length b = word_of_nat (length d)"
| "holds_data (PURE_DATA b) d \<longleftrightarrow> pd_data b = d \<and> pd_length b = word_of_nat (length d)"
| "holds_data _ d \<longleftrightarrow> False"

lemma tap_write_step_data:
  "holds_data block d \<Longrightarrow> tap_write_step junk block b type =
     write_tap_block junk b d (word_of_nat (length d)) type"
  by (cases block) (auto simp: tap_write_step_def write_data_of_def)

lemma tap_write_all:
  "list_all2 holds_data bs ds \<Longrightarrow> \<forall>d \<in> set ds. tap_data_ok type d \<Longrightarrow>
     has_room b n \<Longrightarrow> length (tap_file type ds) \<le> n \<Longrightarrow>
     \<exists>b'. tap_write_loop junk bs b type = Some (ERROR_NONE, b') \<and>
       contents b' = contents b @ tap_file type ds"
proof (induction bs ds arbitrary: b n rule: list_all2_induct)
  case Nil
  then show ?case by (simp add: tap_file_def)
next
  case (Cons block bs d ds)
  have "length (tap_block type d) \<le> n" using Cons.prems(3) by (simp add: tap_file_def)
  then obtain b1 where b1: "write_tap_block junk b d (word_of_nat (length d)) type = Some (ERROR_NONE, b1)"
    "contents b1 = contents b @ tap_block type d" "has_room b1 (n - length (tap_block type d))"
    using write_tap_block_contents [of type d b n junk] Cons.prems by auto
  moreover have "length (tap_file type ds) \<le> n - length (tap_block type d)"
    using Cons.prems(3) by (simp add: tap_file_def)
  ultimately show ?case using Cons.IH [OF _ b1(3)] Cons.prems(1) Cons.hyps(1)
    by (auto simp: tap_write_step_data tap_file_def)
qed

lemma rom_with_ok: "length d < 2 ^ 64 \<Longrightarrow> signal_block_ok (rom_with d)"
  by (simp add: rom_with_def rom_block_ok_def unat_size_t)

lemma tap_read_all:
  "\<forall>d \<in> set ds. tap_data_ok type d \<Longrightarrow> built n tape \<Longrightarrow>
     \<exists>tape'. tap_read_loop junk type n tape (tap_file type ds) = Some (ERROR_NONE, tape') \<and>
       map snd (tape_blocks tape') = map snd (tape_blocks tape) @ map rom_with ds \<and>
       built (n + length ds) tape'"
proof (induction ds arbitrary: n tape)
  case Nil
  then show ?case by (simp add: tap_file_def)
next
  case (Cons d ds)
  then have "signal_block_ok (rom_with d)"
    using tap_data_ok_length [of type d] by (intro rom_with_ok) simp
  then obtain tape1 where "libspectrum_tape_append_block n tape (rom_with d) = Some tape1"
    "built (n + 1) tape1" "tape_blocks tape1 = tape_blocks tape @ [(n, rom_with d)]"
    using append_built [OF Cons.prems(2)] by blast
  then show ?case using Cons.IH [of "n + 1" tape1] Cons.prems(1)
    by (auto simp: tap_file_def read_tap_block)
qed

text \<open>
  C3: writing a tape of data blocks in any of the four formats and reading the file back
  gives a tape with the same data, as ROM blocks with a pause of one second.
\<close>

theorem tap_roundtrip:
  assumes "list_all2 holds_data (map snd (tape_blocks tape)) ds"
    and "\<forall>d \<in> set ds. tap_data_ok type d"
    and "has_room b (length (tap_file type ds))"
  shows "\<exists>b' tape'. internal_tap_write junk b tape type = Some (ERROR_NONE, b') \<and>
    contents b' = contents b @ tap_file type ds \<and>
    internal_tap_read junk' n (libspectrum_tape_alloc count sts) (tap_file type ds) type
      = Some (ERROR_NONE, tape') \<and>
    map snd (tape_blocks tape') = map rom_with ds"
  using tap_write_all [OF assms(1,2,3) order_refl, of junk]
    tap_read_all [OF assms(2) alloc_built, of junk' n count sts]
  by (auto simp: internal_tap_write_def internal_tap_read_def) (simp add: libspectrum_tape_alloc_def)

theorem tap_roundtrip_witness:
  "\<forall>count sts. \<exists>b' tape'.
    internal_tap_write (\<lambda>_. 0) (libspectrum_buffer_alloc (\<lambda>_. 0))
      (libspectrum_tape_insert_block 5 (libspectrum_tape_alloc count sts) (TURBO turbo_example) 0) ID_TAPE_SPC
      = Some (ERROR_NONE, b') \<and>
    contents b' = contents (libspectrum_buffer_alloc (\<lambda>_. 0)) @ tap_file ID_TAPE_SPC [[0xa5, 0x40]] \<and>
    internal_tap_read (\<lambda>_. 9) 1 (libspectrum_tape_alloc count sts) (tap_file ID_TAPE_SPC [[0xa5, 0x40]]) ID_TAPE_SPC
      = Some (ERROR_NONE, tape') \<and>
    map snd (tape_blocks tape') = map rom_with [[0xa5, 0x40]]"
  by (intro allI, rule tap_roundtrip)
    (simp_all add: libspectrum_tape_insert_block_def libspectrum_tape_alloc_def tap_data_ok_def insert_eq Let_def
      is_offset_type_def alloc_has_room tap_file_def tap_block_def tap_payload_def)

section \<open>Any input\<close>

lemma length_fix_parity:
  assumes "length data = unat n" "is_offset_type type \<Longrightarrow> 2 \<le> length data"
  shows "\<exists>d. fix_parity type data n = Some d \<and> length d = length data"
proof (cases "type = ID_TAPE_SPC \<or> type = ID_TAPE_STA")
  case True
  then have two: "2 \<le> length data" using assms(2) by (auto simp: is_offset_type_def)
  then have "unat (n - 1) = length data - 1"
    using assms(1) by (subst unat_minus_one) auto
  then show ?thesis using True two
    by (auto simp: fix_parity_def aget_def aset_def nget_def parity_loop_eq)
next
  case False
  then show ?thesis by (simp add: fix_parity_def)
qed

lemma built_seeking:
  assumes "built n tape" "loop_block (tape_state tape) = None"
  shows "playing_ok (libspectrum_tape_clear tape) \<and> tape_blocks (libspectrum_tape_clear tape) = []"
  using clear_ok [OF assms(2)] by (simp add: libspectrum_tape_clear_def Let_def)

lemma append_keeps_loop:
  "libspectrum_tape_append_block n tape b = Some tape' \<Longrightarrow>
     loop_block (tape_state tape') = loop_block (tape_state tape)"
  by (auto simp: libspectrum_tape_append_block_def append_to_last_def Let_def
      split: bind_splits if_splits option.splits list.splits)

lemma tap_read_any:
  "built n tape \<Longrightarrow> loop_block (tape_state tape) = None \<Longrightarrow>
     \<exists>e tape'. tap_read_loop junk type n tape input = Some (e, tape') \<and>
       (e = ERROR_NONE \<and> (\<exists>m. built m tape') \<or>
        e = ERROR_CORRUPT \<and> playing_ok tape' \<and> tape_blocks tape' = [])"
proof (induction junk type n tape input rule: tap_read_loop.induct)
  case (1 junk type n tape)
  then show ?case by auto
next
  case (2 junk type n tape a)
  then show ?case using built_seeking by simp
next
  case (3 junk type n tape a b rest)
  define len where "len = ucast a + ucast b * 0x100 + (if is_offset_type type then 2 else 0 :: size_t)"
  define k where "k = (if type = ID_TAPE_STA then len - 1 else len)"
  have a: "unat (ucast a :: size_t) < 256" "unat (ucast b :: size_t) < 256"
    using unsigned_less [of a, where 'a = nat] unsigned_less [of b, where 'a = nat]
    by (simp_all add: unsigned_ucast_eq take_bit_nat_eq_self)
  then have len: "unat len < 65538" "is_offset_type type \<Longrightarrow> 2 \<le> unat len"
    by (auto simp: len_def unat_word_ariths)
  have k: "unat k = (if type = ID_TAPE_STA then unat len - 1 else unat len)"
  proof (cases "type = ID_TAPE_STA")
    case True
    then have "len \<noteq> 0" using len(2) by (auto simp: is_offset_type_def)
    then show ?thesis using True unat_minus_one [of len] by (simp add: k_def)
  qed (simp add: k_def)
  then have ks: "sint k = int (unat k)"
    using len(1) by (simp add: sint_uint uint_nat signed_take_bit_int_eq_self del: of_nat_unat)
  show ?case
  proof (cases "int (length rest) < sint k")
    case True
    then show ?thesis using built_seeking [OF 3(2,3)]
      by (simp add: len_def [symmetric] k_def [symmetric] Let_def)
  next
    case False
    then have short: "unat k \<le> length rest" using ks by (simp del: of_nat_unat)
    have kl: "unat k \<le> unat len" using k by simp
    let ?data = "take (unat k) rest @ drop (unat k) (renew junk [] (unat len))"
    have mem: "memcpy_at (renew junk [] (unat len)) 0 rest (unat k) = Some ?data"
      using short kl by (simp add: memcpy_at_def)
    have dlen: "length ?data = unat len" using short kl by simp
    then obtain d where d: "fix_parity type ?data len = Some d" "length d = unat len"
      using length_fix_parity [of ?data len type] len(2) by auto
    then have dw: "word_of_nat (length d) = len" by simp
    then have block: "libspectrum_set_pause_ms
        (ROM \<lparr>rom_length = len, rom_data = d, rom_pause = 0, rom_pause_tstates = 0\<rparr>) 1000 = rom_with d"
      using set_pause_rom [of d 0 0] by simp
    have "signal_block_ok (rom_with d)" using d(2) len(1) by (intro rom_with_ok) simp
    then obtain tape1 where tape1: "libspectrum_tape_append_block n tape (rom_with d) = Some tape1"
      "built (n + 1) tape1"
      using append_built [OF 3(2)] by blast
    have "loop_block (tape_state tape1) = None" using append_keeps_loop [OF tape1(1)] 3(3) by simp
    then show ?thesis
      using 3(1) [OF len_def k_def, of _ _ _ _ tape1] tape1 False mem d(1) block
      by (simp add: len_def [symmetric] k_def [symmetric] Let_def)
  qed
qed

text \<open>
  C10: the reader takes any bytes: it reads within its input, ends, and either accepts the
  file with a tape of well-formed blocks or reports it corrupt with the tape emptied.
\<close>

theorem tap_read_safe:
  "\<exists>e tape. internal_tap_read junk n (libspectrum_tape_alloc count sts) input type = Some (e, tape) \<and>
     playing_ok tape \<and> (e \<noteq> ERROR_NONE \<longleftrightarrow> e = ERROR_CORRUPT) \<and>
     (if e = ERROR_NONE then list_all signal_block_ok (map snd (tape_blocks tape))
      else tape_blocks tape = [])"
proof -
  have "loop_block (tape_state (libspectrum_tape_alloc count sts)) = None"
    by (simp add: libspectrum_tape_alloc_def)
  then show ?thesis using tap_read_any [OF alloc_built, of count sts junk type n input]
    by (auto simp: internal_tap_read_def built_def list_all_iff)
qed

end
