(* ===== verification/Tzx_Read.thy ===== *)
theory Tzx_Read
  imports Tape_Sound Tape_Access
begin

text \<open>
  \<open>tzx_read.c\<close>: reading \<open>.tzx\<close> tape files. The position \<open>*ptr\<close> is \<open>rest\<close>, the list of bytes from it
  to \<open>end\<close>, so \<open>end - *ptr\<close> is its length and a read past \<open>end\<close> has no result. Each reader is
  given the address \<open>n\<close> of the node it may append to the tape and returns the tape and the new
  position. A block that is freed on an error path is just not appended.
\<close>

section \<open>Bytes, data and strings\<close>

type_synonym tzx_result = "(libspectrum_tape \<times> byte list) c_result"

text \<open>\<open>**ptr; (*ptr)++;\<close> and \<open>(*ptr)[0] + (*ptr)[1] * 0x100; (*ptr) += 2;\<close>\<close>

fun tzx_byte :: "byte list \<Rightarrow> (dword \<times> byte list) option" where
  "tzx_byte (a # rest) = Some (ucast a, rest)"
| "tzx_byte [] = None"

fun tzx_word :: "byte list \<Rightarrow> (dword \<times> byte list) option" where
  "tzx_word (a # b # rest) = Some (ucast a + ucast b * 0x100, rest)"
| "tzx_word _ = None"

text \<open>The loop of \<open>tzx_read_data\<close> over the length bytes.\<close>

fun tzx_data_length :: "nat \<Rightarrow> dword \<Rightarrow> size_t \<Rightarrow> byte list \<Rightarrow> (size_t \<times> byte list) option" where
  "tzx_data_length 0 multiplier len rest = Some (len, rest)"
| "tzx_data_length (Suc n) multiplier len rest = do {
     (b, rest) \<leftarrow> tzx_byte rest;
     tzx_data_length n (multiplier * 0x100) (len + ucast (b * multiplier)) rest }"

text \<open>
  The result is the length, the new object (\<open>None\<close> for \<open>NULL\<close>) and the position. The padding
  byte is not initialised here; \<open>tzx_read_string\<close>, which asks for it, sets it.
\<close>

definition tzx_read_data ::
    "byte list \<Rightarrow> int \<Rightarrow> (size_t \<times> byte list option \<times> byte list) c_result" where
  "tzx_read_data rest bytes = do {
     let padding = (if bytes < 0 then 1 else 0);
     (len, rest) \<leftarrow> tzx_data_length (nat \<bar>bytes\<bar>) 1 0 rest;
     (if int (length rest) < sint len then Some (ERROR_CORRUPT, len, None, rest)
      else if len \<noteq> 0 \<or> padding \<noteq> 0 then do {
        data \<leftarrow> memcpy_at (replicate (unat len + padding) 0) 0 rest (unat len);
        Some (ERROR_NONE, len, Some data, drop (unat len) rest) }
      else Some (ERROR_NONE, len, None, rest)) }"

fun translate_line_endings :: "byte list \<Rightarrow> byte list option" where
  "translate_line_endings [] = None"
| "translate_line_endings (c # s) =
     (if c = 0 then Some (c # s)
      else map_option ((#) (if c = 0x0d then 0x0a else c)) (translate_line_endings s))"

definition tzx_read_string :: "byte list \<Rightarrow> (byte list \<times> byte list) c_result" where
  "tzx_read_string rest = do {
     (error, len, dest, rest) \<leftarrow> tzx_read_data rest (-1);
     (if error \<noteq> ERROR_NONE then Some (error, [], rest)
      else do {
        dest \<leftarrow> dest;
        dest \<leftarrow> nset dest (unat len) 0;
        dest \<leftarrow> translate_line_endings dest;
        Some (ERROR_NONE, dest, rest) }) }"

text \<open>\<open>if( error ) { \<dots>; return error; }\<close> after one of the two, and the end of every reader.\<close>

definition tzx_then ::
    "'a c_result \<Rightarrow> libspectrum_tape \<times> byte list \<Rightarrow> ('a \<Rightarrow> tzx_result) \<Rightarrow> tzx_result" where
  "tzx_then r s f = r \<bind> (\<lambda>(e, x). if e = ERROR_NONE then f x else Some (e, s))"

definition tzx_append ::
    "nat \<Rightarrow> libspectrum_tape \<Rightarrow> libspectrum_tape_block \<Rightarrow> byte list \<Rightarrow> tzx_result" where
  "tzx_append n tape block rest = do {
     tape \<leftarrow> libspectrum_tape_append_block n tape block;
     Some (ERROR_NONE, tape, rest) }"

text \<open>Data that is \<open>NULL\<close> has no bytes.\<close>

definition data_of :: "byte list option \<Rightarrow> byte list" where
  "data_of d = (case d of None \<Rightarrow> [] | Some d \<Rightarrow> d)"

section \<open>Data blocks\<close>

definition tzx_read_rom_block :: "nat \<Rightarrow> libspectrum_tape \<Rightarrow> byte list \<Rightarrow> tzx_result" where
  "tzx_read_rom_block n tape rest =
     (if length rest < 4 then Some (ERROR_CORRUPT, tape, rest)
      else do {
        (pause, rest) \<leftarrow> tzx_word rest;
        tzx_then (tzx_read_data rest 2) (tape, rest) (\<lambda>(len, data, rest).
          let block = libspectrum_set_pause_ms (ROM
            \<lparr>rom_length = len, rom_data = data_of data, rom_pause = 0, rom_pause_tstates = 0\<rparr>) pause
          in tzx_append n tape block rest) })"

text \<open>
  \<open>bits_in_last_byte\<close> of the three blocks of bits; \<open>shortest\<close> is the least length from which
  zero bits used in the last byte mean that the byte is dropped.
\<close>

definition tzx_bits :: "size_t \<Rightarrow> dword \<Rightarrow> size_t \<Rightarrow> dword \<times> size_t" where
  "tzx_bits shortest bits_in_last_byte len =
     (let (bits_in_last_byte, len) =
        (if bits_in_last_byte = 0 \<and> shortest \<le> len then (8, len - 1) else (bits_in_last_byte, len))
      in (if 8 < bits_in_last_byte then 8 else bits_in_last_byte, len))"

definition tzx_read_turbo_block :: "nat \<Rightarrow> libspectrum_tape \<Rightarrow> byte list \<Rightarrow> tzx_result" where
  "tzx_read_turbo_block n tape rest =
     (if length rest < 18 then Some (ERROR_CORRUPT, tape, rest)
      else do {
        (pilot_length, rest) \<leftarrow> tzx_word rest;
        (sync1_length, rest) \<leftarrow> tzx_word rest;
        (sync2_length, rest) \<leftarrow> tzx_word rest;
        (bit0_length, rest) \<leftarrow> tzx_word rest;
        (bit1_length, rest) \<leftarrow> tzx_word rest;
        (pilot_pulses, rest) \<leftarrow> tzx_word rest;
        (bits_in_last_byte, rest) \<leftarrow> tzx_byte rest;
        (pause, rest) \<leftarrow> tzx_word rest;
        tzx_then (tzx_read_data rest 3) (tape, rest) (\<lambda>(len, data, rest).
          let (bits_in_last_byte, len) = tzx_bits 1 bits_in_last_byte len;
              block = libspectrum_set_pause_ms (TURBO
                \<lparr>turbo_length = len, turbo_bits_in_last_byte = ucast bits_in_last_byte,
                 turbo_data = data_of data, turbo_pause = 0, turbo_pause_tstates = 0,
                 turbo_pilot_length = pilot_length, turbo_pilot_pulses = ucast pilot_pulses,
                 turbo_sync1_length = sync1_length, turbo_sync2_length = sync2_length,
                 turbo_bit0_length = bit0_length, turbo_bit1_length = bit1_length\<rparr>) pause
          in tzx_append n tape block rest) })"

definition tzx_read_pure_tone :: "nat \<Rightarrow> libspectrum_tape \<Rightarrow> byte list \<Rightarrow> tzx_result" where
  "tzx_read_pure_tone n tape rest =
     (if length rest < 4 then Some (ERROR_CORRUPT, tape, rest)
      else do {
        (pulse_length, rest) \<leftarrow> tzx_word rest;
        (count, rest) \<leftarrow> tzx_word rest;
        tzx_append n tape (PURE_TONE \<lparr>tone_length = pulse_length, tone_pulses = ucast count\<rparr>) rest })"

fun tzx_words :: "nat \<Rightarrow> byte list \<Rightarrow> (dword list \<times> byte list) option" where
  "tzx_words 0 rest = Some ([], rest)"
| "tzx_words (Suc k) rest = do {
     (w, rest) \<leftarrow> tzx_word rest;
     (ws, rest) \<leftarrow> tzx_words k rest;
     Some (w # ws, rest) }"

definition tzx_read_pulses_block :: "nat \<Rightarrow> libspectrum_tape \<Rightarrow> byte list \<Rightarrow> tzx_result" where
  "tzx_read_pulses_block n tape rest =
     (if rest = [] then Some (ERROR_CORRUPT, tape, rest)
      else do {
        (count, rest) \<leftarrow> tzx_byte rest;
        (if length rest < 2 * unat count then Some (ERROR_CORRUPT, tape, rest)
         else do {
           (lengths, rest) \<leftarrow> tzx_words (unat count) rest;
           tzx_append n tape (PULSES \<lparr>pulses_count = ucast count, pulses_lengths = lengths\<rparr>) rest }) })"

definition tzx_read_pure_data :: "nat \<Rightarrow> libspectrum_tape \<Rightarrow> byte list \<Rightarrow> tzx_result" where
  "tzx_read_pure_data n tape rest =
     (if length rest < 10 then Some (ERROR_CORRUPT, tape, rest)
      else do {
        (bit0_length, rest) \<leftarrow> tzx_word rest;
        (bit1_length, rest) \<leftarrow> tzx_word rest;
        (bits_in_last_byte, rest) \<leftarrow> tzx_byte rest;
        (pause, rest) \<leftarrow> tzx_word rest;
        tzx_then (tzx_read_data rest 3) (tape, rest) (\<lambda>(len, data, rest).
          let (bits_in_last_byte, len) = tzx_bits 2 bits_in_last_byte len;
              block = libspectrum_set_pause_ms (PURE_DATA
                \<lparr>pd_length = len, pd_bits_in_last_byte = ucast bits_in_last_byte,
                 pd_data = data_of data, pd_pause = 0, pd_pause_tstates = 0,
                 pd_bit0_length = bit0_length, pd_bit1_length = bit1_length\<rparr>) pause
          in tzx_append n tape block rest) })"

definition tzx_read_raw_data :: "nat \<Rightarrow> libspectrum_tape \<Rightarrow> byte list \<Rightarrow> tzx_result" where
  "tzx_read_raw_data n tape rest =
     (if length rest < 8 then Some (ERROR_CORRUPT, tape, rest)
      else do {
        (bit_length, rest) \<leftarrow> tzx_word rest;
        (pause, rest) \<leftarrow> tzx_word rest;
        (bits_in_last_byte, rest) \<leftarrow> tzx_byte rest;
        tzx_then (tzx_read_data rest 3) (tape, rest) (\<lambda>(len, data, rest).
          let (bits_in_last_byte, len) = tzx_bits 1 bits_in_last_byte len;
              block = libspectrum_set_pause_ms (RAW_DATA
                \<lparr>rd_length = len, rd_bits_in_last_byte = ucast bits_in_last_byte,
                 rd_data = data, rd_pause = 0, rd_pause_tstates = 0,
                 rd_bit_length = bit_length\<rparr>) pause
          in tzx_append n tape block rest) })"

section \<open>Generalised data\<close>

text \<open>
  \<open>ceil( log( n ) / M_LN2 )\<close>: the least \<open>k\<close> with \<open>n \<le> 2 ^ k\<close>. In IEEE double precision the
  expression has this value for every \<open>n\<close> from 1 to 256, the sizes a table can have. For 0
  it is the conversion of minus infinity to \<open>int\<close>, which has no defined result.
\<close>

definition tzx_bits_per_symbol :: "lword \<Rightarrow> nat option" where
  "tzx_bits_per_symbol n =
     (if n = 0 then None else Some (length (takeWhile (\<lambda>k. 2 ^ k < unat n) [0..<16])))"

fun tzx_pilot_symbols :: "nat \<Rightarrow> byte list \<Rightarrow> (byte list \<times> lword list \<times> byte list) option" where
  "tzx_pilot_symbols 0 rest = Some ([], [], rest)"
| "tzx_pilot_symbols (Suc k) rest = do {
     (symbol, rest) \<leftarrow> tzx_byte rest;
     (rep, rest) \<leftarrow> tzx_word rest;
     (symbols, repeats, rest) \<leftarrow> tzx_pilot_symbols k rest;
     Some (ucast symbol # symbols, ucast rep # repeats, rest) }"

text \<open>The positions in the symbol table functions are offsets from \<open>*ptr\<close>.\<close>

definition tzx_read_symbol_table ::
    "symbol_table \<Rightarrow> byte list \<Rightarrow> dword \<Rightarrow> (symbol_table \<times> byte list) c_result" where
  "tzx_read_symbol_table table rest len = do {
     (error, table, p) \<leftarrow> libspectrum_tape_block_read_symbol_table table rest 0 (unat len);
     Some (error, table, drop p rest) }"

definition no_table :: symbol_table where
  "no_table = \<lparr>symbols_in_block = 0, max_pulses = 0, symbols_in_table = 0, symbols = []\<rparr>"

text \<open>A new block with its pointers cleared; the other fields are set before they are read.\<close>

definition empty_generalised :: generalised_data_block where
  "empty_generalised = \<lparr>gd_pause = 0, gd_pause_tstates = 0, pilot_table = no_table,
     data_table = no_table, pilot_symbols = [], pilot_repeats = [], bits_per_data_symbol = 0,
     gd_data = []\<rparr>"

text \<open>
  The last part of the reader: the data, after both tables. \<open>after\<close> is the number of bytes
  from \<open>blockend\<close> to \<open>end\<close>.
\<close>

definition tzx_read_generalised_bits ::
    "nat \<Rightarrow> libspectrum_tape \<Rightarrow> generalised_data_block \<Rightarrow> byte list \<Rightarrow> nat \<Rightarrow> tzx_result" where
  "tzx_read_generalised_bits n tape block rest after = do {
     bits_per_symbol \<leftarrow> tzx_bits_per_symbol (symbols_in_table (data_table block));
     let symbol_count = symbols_in_block (data_table block);
     let data_count = (word_of_nat bits_per_symbol * symbol_count + 7) div 8;
     (if length rest < unat data_count then Some (ERROR_CORRUPT, tape, rest)
      else do {
        data \<leftarrow> memcpy_at (replicate (unat data_count) 0) 0 rest (unat data_count);
        let rest = drop (unat data_count) rest;
        let block = block\<lparr>bits_per_data_symbol := word_of_nat bits_per_symbol, gd_data := data\<rparr>;
        (if length rest \<noteq> after then Some (ERROR_CORRUPT, tape, rest)
         else tzx_append n tape (GENERALISED_DATA block) rest) }) }"

text \<open>
  The pilot symbols and the second table. \<open>len\<close> is \<open>length\<close> before \<open>symbol_count\<close> is checked;
  the error of the second table is not looked at.
\<close>

definition tzx_read_generalised_symbols ::
    "nat \<Rightarrow> libspectrum_tape \<Rightarrow> generalised_data_block \<Rightarrow> byte list \<Rightarrow> dword \<Rightarrow> nat \<Rightarrow> tzx_result" where
  "tzx_read_generalised_symbols n tape block rest len after =
     (if len < 3 * symbols_in_block (pilot_table block) then Some (ERROR_CORRUPT, tape, rest)
      else do {
        (ss, rs, rest) \<leftarrow> tzx_pilot_symbols (unat (symbols_in_block (pilot_table block))) rest;
        let block = block\<lparr>pilot_symbols := ss, pilot_repeats := rs\<rparr>;
        (_, table, rest) \<leftarrow> tzx_read_symbol_table (data_table block) rest
           (len - 3 * symbols_in_block (pilot_table block));
        tzx_read_generalised_bits n tape (block\<lparr>data_table := table\<rparr>) rest after })"

text \<open>
  \<open>length -= ptr2 - *ptr\<close> after the first table subtracts a negative number: \<open>ptr2\<close> is the
  position before the table.
\<close>

definition tzx_read_generalised_data :: "nat \<Rightarrow> libspectrum_tape \<Rightarrow> byte list \<Rightarrow> tzx_result" where
  "tzx_read_generalised_data n tape rest =
     (if length rest < 4 then Some (ERROR_CORRUPT, tape, rest)
      else do {
        (len, p) \<leftarrow> libspectrum_read_dword rest 0;
        let rest = drop p rest;
        (if len < 14 then Some (ERROR_CORRUPT, tape, rest)
         else if length rest < unat len then Some (ERROR_CORRUPT, tape, rest)
         else do {
           let after = length rest - unat len;
           (pause, rest) \<leftarrow> tzx_word rest;
           let block = empty_generalised
             \<lparr>gd_pause := pause, gd_pause_tstates := libspectrum_ms_to_tstates pause\<rparr>;
           (_, block, p) \<leftarrow> libspectrum_tape_block_read_symbol_table_parameters block True rest 0;
           (_, block, p) \<leftarrow> libspectrum_tape_block_read_symbol_table_parameters block False rest p;
           let before = drop p rest;
           let len = len - 14;
           tzx_then (tzx_read_symbol_table (pilot_table block) before len) (tape, rest) (\<lambda>(table, rest).
             tzx_read_generalised_symbols n tape (block\<lparr>pilot_table := table\<rparr>) rest
               (len - word_of_int (int (length rest) - int (length before))) after) }) })"

section \<open>Control blocks\<close>

definition tzx_read_pause :: "nat \<Rightarrow> libspectrum_tape \<Rightarrow> byte list \<Rightarrow> tzx_result" where
  "tzx_read_pause n tape rest =
     (if length rest < 2 then Some (ERROR_CORRUPT, tape, rest)
      else do {
        (pause, rest) \<leftarrow> tzx_word rest;
        tzx_append n tape (libspectrum_set_pause_ms
          (PAUSE \<lparr>pause_length = 0, pause_length_tstates = 0, pause_level = 0\<rparr>) pause) rest })"

definition tzx_read_group_start :: "nat \<Rightarrow> libspectrum_tape \<Rightarrow> byte list \<Rightarrow> tzx_result" where
  "tzx_read_group_start n tape rest =
     (if rest = [] then Some (ERROR_CORRUPT, tape, rest)
      else tzx_then (tzx_read_string rest) (tape, rest) (\<lambda>(name, rest).
        tzx_append n tape (GROUP_START name) rest))"

definition tzx_read_jump :: "nat \<Rightarrow> libspectrum_tape \<Rightarrow> byte list \<Rightarrow> tzx_result" where
  "tzx_read_jump n tape rest =
     (if length rest < 2 then Some (ERROR_CORRUPT, tape, rest)
      else do {
        (offset, rest) \<leftarrow> tzx_word rest;
        let offset = int (unat offset);
        tzx_append n tape (JUMP (if 32768 \<le> offset then offset - 65536 else offset)) rest })"

definition tzx_read_loop_start :: "nat \<Rightarrow> libspectrum_tape \<Rightarrow> byte list \<Rightarrow> tzx_result" where
  "tzx_read_loop_start n tape rest =
     (if length rest < 2 then Some (ERROR_CORRUPT, tape, rest)
      else do {
        (count, rest) \<leftarrow> tzx_word rest;
        tzx_append n tape (LOOP_START (int (unat count))) rest })"

text \<open>The loop of \<open>tzx_read_select\<close>; the offsets are not taken as signed.\<close>

fun tzx_selections :: "nat \<Rightarrow> byte list \<Rightarrow> (int list \<times> byte list list \<times> byte list) c_result" where
  "tzx_selections 0 rest = Some (ERROR_NONE, [], [], rest)"
| "tzx_selections (Suc k) rest =
     (if length rest < 3 then Some (ERROR_CORRUPT, [], [], rest)
      else do {
        (offset, rest) \<leftarrow> tzx_word rest;
        (error, description, rest) \<leftarrow> tzx_read_string rest;
        (if error \<noteq> ERROR_NONE then Some (error, [], [], rest)
         else do {
           (error, offsets, descriptions, rest) \<leftarrow> tzx_selections k rest;
           Some (error, int (unat offset) # offsets, description # descriptions, rest) }) })"

definition tzx_read_select :: "nat \<Rightarrow> libspectrum_tape \<Rightarrow> byte list \<Rightarrow> tzx_result" where
  "tzx_read_select n tape rest =
     (if length rest < 3 then Some (ERROR_CORRUPT, tape, rest)
      else do {
        (len, rest) \<leftarrow> tzx_word rest;
        (if length rest < unat len then Some (ERROR_CORRUPT, tape, rest)
         else do {
           (count, rest) \<leftarrow> tzx_byte rest;
           tzx_then (tzx_selections (unat count) rest) (tape, rest)
             (\<lambda>(offsets, descriptions, rest). tzx_append n tape
               (SELECT \<lparr>select_count = ucast count, select_offsets = offsets,
                        select_descriptions = descriptions\<rparr>) rest) }) })"

definition tzx_read_stop :: "nat \<Rightarrow> libspectrum_tape \<Rightarrow> byte list \<Rightarrow> tzx_result" where
  "tzx_read_stop n tape rest =
     (if length rest < 4 then Some (ERROR_CORRUPT, tape, rest)
      else tzx_append n tape STOP48 (drop 4 rest))"

definition tzx_read_set_signal_level :: "nat \<Rightarrow> libspectrum_tape \<Rightarrow> byte list \<Rightarrow> tzx_result" where
  "tzx_read_set_signal_level n tape rest =
     (if length rest < 5 then Some (ERROR_CORRUPT, tape, rest)
      else do {
        (level, rest) \<leftarrow> tzx_byte (drop 4 rest);
        tzx_append n tape (SET_SIGNAL_LEVEL (if level \<noteq> 0 then 1 else 0)) rest })"

section \<open>Information blocks\<close>

definition tzx_read_comment :: "nat \<Rightarrow> libspectrum_tape \<Rightarrow> byte list \<Rightarrow> tzx_result" where
  "tzx_read_comment n tape rest =
     (if rest = [] then Some (ERROR_CORRUPT, tape, rest)
      else tzx_then (tzx_read_string rest) (tape, rest) (\<lambda>(text, rest).
        tzx_append n tape (COMMENT text) rest))"

definition tzx_read_message :: "nat \<Rightarrow> libspectrum_tape \<Rightarrow> byte list \<Rightarrow> tzx_result" where
  "tzx_read_message n tape rest =
     (if length rest < 2 then Some (ERROR_CORRUPT, tape, rest)
      else do {
        (time, rest) \<leftarrow> tzx_byte rest;
        tzx_then (tzx_read_string rest) (tape, rest) (\<lambda>(text, rest).
          tzx_append n tape (libspectrum_set_pause_ms
            (MESSAGE \<lparr>message_time = 0, message_time_tstates = 0, message_text = text\<rparr>)
            (time * 1000)) rest) })"

text \<open>The loop of \<open>tzx_read_archive_info\<close>.\<close>

fun tzx_strings :: "nat \<Rightarrow> byte list \<Rightarrow> (int list \<times> byte list list \<times> byte list) c_result" where
  "tzx_strings 0 rest = Some (ERROR_NONE, [], [], rest)"
| "tzx_strings (Suc k) rest =
     (if length rest < 2 then Some (ERROR_CORRUPT, [], [], rest)
      else do {
        (id, rest) \<leftarrow> tzx_byte rest;
        (error, string, rest) \<leftarrow> tzx_read_string rest;
        (if error \<noteq> ERROR_NONE then Some (error, [], [], rest)
         else do {
           (error, ids, strings, rest) \<leftarrow> tzx_strings k rest;
           Some (error, int (unat id) # ids, string # strings, rest) }) })"

definition tzx_read_archive_info :: "nat \<Rightarrow> libspectrum_tape \<Rightarrow> byte list \<Rightarrow> tzx_result" where
  "tzx_read_archive_info n tape rest =
     (if length rest < 3 then Some (ERROR_CORRUPT, tape, rest)
      else do {
        (count, rest) \<leftarrow> tzx_byte (drop 2 rest);
        tzx_then (tzx_strings (unat count) rest) (tape, rest)
          (\<lambda>(ids, strings, rest). tzx_append n tape
            (ARCHIVE_INFO \<lparr>ai_count = ucast count, ai_ids = ids, ai_strings = strings\<rparr>) rest) })"

fun tzx_hardware_entries :: "nat \<Rightarrow> byte list \<Rightarrow> (int list \<times> int list \<times> int list \<times> byte list) option" where
  "tzx_hardware_entries 0 rest = Some ([], [], [], rest)"
| "tzx_hardware_entries (Suc k) rest = do {
     (type, rest) \<leftarrow> tzx_byte rest;
     (id, rest) \<leftarrow> tzx_byte rest;
     (val, rest) \<leftarrow> tzx_byte rest;
     (types, ids, vals, rest) \<leftarrow> tzx_hardware_entries k rest;
     Some (int (unat type) # types, int (unat id) # ids, int (unat val) # vals, rest) }"

definition tzx_read_hardware :: "nat \<Rightarrow> libspectrum_tape \<Rightarrow> byte list \<Rightarrow> tzx_result" where
  "tzx_read_hardware n tape rest =
     (if rest = [] then Some (ERROR_CORRUPT, tape, rest)
      else do {
        (count, rest) \<leftarrow> tzx_byte rest;
        (if length rest < 3 * unat count then Some (ERROR_CORRUPT, tape, rest)
         else do {
           (types, ids, vals, rest) \<leftarrow> tzx_hardware_entries (unat count) rest;
           tzx_append n tape (HARDWARE \<lparr>hw_count = ucast count, hw_types = types, hw_ids = ids,
             hw_values = vals\<rparr>) rest }) })"

definition tzx_read_custom :: "nat \<Rightarrow> libspectrum_tape \<Rightarrow> byte list \<Rightarrow> tzx_result" where
  "tzx_read_custom n tape rest =
     (if length rest < 20 then Some (ERROR_CORRUPT, tape, rest)
      else do {
        description \<leftarrow> memcpy_at (replicate 17 0) 0 rest 16;
        let rest = drop 16 rest;
        description \<leftarrow> nset description 16 0;
        tzx_then (tzx_read_data rest 4) (tape, rest) (\<lambda>(len, data, rest).
          tzx_append n tape (CUSTOM \<lparr>custom_description = description, custom_length = len,
            custom_data = data_of data\<rparr>) rest) })"

section \<open>The file\<close>

definition libspectrum_tzx_signature :: "byte list" where
  "libspectrum_tzx_signature = [0x5a, 0x58, 0x54, 0x61, 0x70, 0x65, 0x21, 0x1a]"

definition tzx_read_concat :: "libspectrum_tape \<Rightarrow> byte list \<Rightarrow> tzx_result" where
  "tzx_read_concat tape rest =
     (if length rest < length libspectrum_tzx_signature + 2 - 1 then Some (ERROR_CORRUPT, tape, rest)
      else Some (ERROR_NONE, tape, drop (length libspectrum_tzx_signature + 2 - 1) rest))"

definition tzx_read_empty_block ::
    "nat \<Rightarrow> libspectrum_tape \<Rightarrow> libspectrum_tape_block \<Rightarrow> byte list \<Rightarrow> tzx_result" where
  "tzx_read_empty_block n tape block rest = tzx_append n tape block rest"

text \<open>The \<open>switch\<close> on the identifier of a block (\<open>libspectrum_tape_type\<close>).\<close>

definition tzx_read_block :: "nat \<Rightarrow> libspectrum_tape \<Rightarrow> byte \<Rightarrow> byte list \<Rightarrow> tzx_result" where
  "tzx_read_block n tape type rest =
     (if type = 0x10 then tzx_read_rom_block n tape rest
      else if type = 0x11 then tzx_read_turbo_block n tape rest
      else if type = 0x12 then tzx_read_pure_tone n tape rest
      else if type = 0x13 then tzx_read_pulses_block n tape rest
      else if type = 0x14 then tzx_read_pure_data n tape rest
      else if type = 0x15 then tzx_read_raw_data n tape rest
      else if type = 0x19 then tzx_read_generalised_data n tape rest
      else if type = 0x20 then tzx_read_pause n tape rest
      else if type = 0x21 then tzx_read_group_start n tape rest
      else if type = 0x22 then tzx_read_empty_block n tape GROUP_END rest
      else if type = 0x23 then tzx_read_jump n tape rest
      else if type = 0x24 then tzx_read_loop_start n tape rest
      else if type = 0x25 then tzx_read_empty_block n tape LOOP_END rest
      else if type = 0x28 then tzx_read_select n tape rest
      else if type = 0x2a then tzx_read_stop n tape rest
      else if type = 0x2b then tzx_read_set_signal_level n tape rest
      else if type = 0x30 then tzx_read_comment n tape rest
      else if type = 0x31 then tzx_read_message n tape rest
      else if type = 0x32 then tzx_read_archive_info n tape rest
      else if type = 0x33 then tzx_read_hardware n tape rest
      else if type = 0x35 then tzx_read_custom n tape rest
      else if type = 0x5a then tzx_read_concat tape rest
      else Some (ERROR_UNKNOWN, tape, rest))"

text \<open>
  The loop over the blocks. Every reader moves forward, so \<open>k\<close>, the number of bytes left at the
  start, bounds the number of blocks (\<open>tzx_read_block_forward\<close>).
\<close>

fun tzx_read_loop :: "nat \<Rightarrow> nat \<Rightarrow> libspectrum_tape \<Rightarrow> byte list \<Rightarrow> libspectrum_tape c_result" where
  "tzx_read_loop k n tape [] = Some (ERROR_NONE, tape)"
| "tzx_read_loop 0 n tape (type # rest) = None"
| "tzx_read_loop (Suc k) n tape (type # rest) = do {
     (error, tape, rest) \<leftarrow> tzx_read_block n tape type rest;
     (if error \<noteq> ERROR_NONE then Some (error, libspectrum_tape_clear tape)
      else tzx_read_loop k (n + 1) tape rest) }"

definition internal_tzx_read :: "nat \<Rightarrow> libspectrum_tape \<Rightarrow> byte list \<Rightarrow> libspectrum_tape c_result" where
  "internal_tzx_read n tape input =
     (let signature_length = length libspectrum_tzx_signature
      in if length input < signature_length + 2 then Some (ERROR_CORRUPT, tape)
         else if take signature_length input \<noteq> libspectrum_tzx_signature
         then Some (ERROR_SIGNATURE, tape)
         else (let rest = drop (signature_length + 2) input
               in tzx_read_loop (length rest) n tape rest))"

section \<open>Appending to a tape that is being loaded\<close>

text \<open>
  What loading needs of the tape, whatever its blocks: the last block is the end of the list
  and, once there is a block, one is current.
\<close>

definition loading :: "nat \<Rightarrow> libspectrum_tape \<Rightarrow> bool" where
  "loading n tape \<longleftrightarrow> distinct (map fst (tape_blocks tape)) \<and>
     (\<forall>a \<in> nodes (tape_blocks tape). a < n) \<and>
     (tape_blocks tape \<noteq> [] \<longrightarrow> last_block tape = Some (fst (List.last (tape_blocks tape))) \<and>
        current_block (tape_state tape) \<noteq> None)"

definition starts :: "libspectrum_tape_block \<Rightarrow> bool" where
  "starts b \<longleftrightarrow> (\<forall>sts. libspectrum_tape_block_init (Some b) sts \<noteq> None)"

lemma append_loading:
  assumes load: "loading n tape"
  shows "starts b \<or> tape_blocks tape \<noteq> [] \<Longrightarrow> libspectrum_tape_append_block n tape b \<noteq> None"
    and "libspectrum_tape_append_block n tape b = Some tape' \<Longrightarrow>
      loading (n + 1) tape' \<and> tape_blocks tape' = tape_blocks tape @ [(n, b)]"
proof -
  let ?l = "tape_blocks tape @ [(n, b)]"
  have added: "(if tape_blocks tape = [] then
            (let blocks = g_slist_append n (tape_blocks tape) b
             in Some (tape\<lparr>tape_blocks := blocks, last_block := head_address blocks\<rparr>))
          else append_to_last n tape b)
     = Some (tape\<lparr>tape_blocks := ?l, last_block := Some n\<rparr>)"
  proof (cases "tape_blocks tape = []")
    case False
    then have last: "last_block tape = Some (fst (List.last (tape_blocks tape)))"
      and dist: "distinct (map fst (tape_blocks tape))" using load by (auto simp: loading_def)
    have "butlast (tape_blocks tape) @ List.last (tape_blocks tape) # [(n, b)] =
        (butlast (tape_blocks tape) @ [List.last (tape_blocks tape)]) @ [(n, b)]" by simp
    also have "\<dots> = ?l" using False by simp
    finally show ?thesis
      using False chain_at_last [OF False dist] last by (simp add: append_to_last_def head_address_def)
  qed (simp add: head_address_def)
  have new: "loading (n + 1) (tape\<lparr>tape_blocks := ?l, last_block := Some n, tape_state := s\<rparr>)"
    if "current_block s \<noteq> None" for s
    using load that by (auto simp: loading_def)
  have cur: "current_block (tape_state tape) = None \<Longrightarrow> tape_blocks tape = []"
    using load by (auto simp: loading_def)
  show "libspectrum_tape_append_block n tape b \<noteq> None" if b: "starts b \<or> tape_blocks tape \<noteq> []"
  proof (cases "current_block (tape_state tape) = None")
    case True
    then obtain r where "libspectrum_tape_block_init (Some b) (block_state (tape_state tape)) = Some r"
      using b cur True unfolding starts_def by blast
    then show ?thesis using added cur True
      by (auto simp: libspectrum_tape_append_block_def split: prod.splits)
  qed (use added in \<open>auto simp: libspectrum_tape_append_block_def\<close>)
  show "loading (n + 1) tape' \<and> tape_blocks tape' = ?l"
    if "libspectrum_tape_append_block n tape b = Some tape'"
    using that added cur new [of "tape_state tape"] new
    by (auto simp: libspectrum_tape_append_block_def head_address_def split: bind_splits if_splits
        list.splits)
qed

lemma block_ok_starts: "block_ok b \<Longrightarrow> starts b"
  using block_started by (fastforce simp: starts_def)

section \<open>The blocks that are read\<close>

text \<open>
  The sizes kept in a block agree with its arrays, texts are terminated and the small numbers
  are in their range.
\<close>

definition terminated :: "byte list \<Rightarrow> bool" where
  "terminated s \<longleftrightarrow> 0 \<in> set s"

fun tzx_block_ok :: "libspectrum_tape_block \<Rightarrow> bool" where
  "tzx_block_ok (ROM b) \<longleftrightarrow> unat (rom_length b) = length (rom_data b)"
| "tzx_block_ok (TURBO b) \<longleftrightarrow> unat (turbo_length b) \<le> length (turbo_data b) \<and>
     unat (turbo_bits_in_last_byte b) \<le> 8"
| "tzx_block_ok (PURE_TONE b) \<longleftrightarrow> unat (tone_pulses b) < 65536"
| "tzx_block_ok (PULSES b) \<longleftrightarrow> unat (pulses_count b) = length (pulses_lengths b)"
| "tzx_block_ok (PURE_DATA b) \<longleftrightarrow> unat (pd_length b) \<le> length (pd_data b) \<and>
     unat (pd_bits_in_last_byte b) \<le> 8"
| "tzx_block_ok (RAW_DATA b) \<longleftrightarrow> raw_block_ok b \<and> (rd_data b = None \<longrightarrow> rd_length b = 0)"
| "tzx_block_ok (GENERALISED_DATA b) \<longleftrightarrow>
     length (pilot_symbols b) = unat (symbols_in_block (pilot_table b)) \<and>
     length (pilot_repeats b) = unat (symbols_in_block (pilot_table b)) \<and>
     length (gd_data b) =
       unat ((ucast (bits_per_data_symbol b) * symbols_in_block (data_table b) + 7) div 8 :: dword)"
| "tzx_block_ok (PAUSE b) \<longleftrightarrow> pause_level b = 0"
| "tzx_block_ok (GROUP_START s) \<longleftrightarrow> terminated s"
| "tzx_block_ok GROUP_END \<longleftrightarrow> True"
| "tzx_block_ok (JUMP i) \<longleftrightarrow> -32768 \<le> i \<and> i < 32768"
| "tzx_block_ok (LOOP_START i) \<longleftrightarrow> 0 \<le> i \<and> i < 65536"
| "tzx_block_ok LOOP_END \<longleftrightarrow> True"
| "tzx_block_ok (SELECT b) \<longleftrightarrow> length (select_offsets b) = unat (select_count b) \<and>
     length (select_descriptions b) = unat (select_count b) \<and> list_all terminated (select_descriptions b)"
| "tzx_block_ok STOP48 \<longleftrightarrow> True"
| "tzx_block_ok (SET_SIGNAL_LEVEL l) \<longleftrightarrow> l = 0 \<or> l = 1"
| "tzx_block_ok (COMMENT s) \<longleftrightarrow> terminated s"
| "tzx_block_ok (MESSAGE b) \<longleftrightarrow> terminated (message_text b)"
| "tzx_block_ok (ARCHIVE_INFO b) \<longleftrightarrow> length (ai_ids b) = unat (ai_count b) \<and>
     length (ai_strings b) = unat (ai_count b) \<and> list_all terminated (ai_strings b)"
| "tzx_block_ok (HARDWARE b) \<longleftrightarrow> length (hw_types b) = unat (hw_count b) \<and>
     length (hw_ids b) = unat (hw_count b) \<and> length (hw_values b) = unat (hw_count b)"
| "tzx_block_ok (CUSTOM b) \<longleftrightarrow> terminated (custom_description b) \<and>
     unat (custom_length b) = length (custom_data b)"
| "tzx_block_ok _ \<longleftrightarrow> False"

fun is_generalised :: "libspectrum_tape_block \<Rightarrow> bool" where
  "is_generalised (GENERALISED_DATA _) = True"
| "is_generalised _ = False"

lemma rom_starts: "unat (rom_length b) = length (rom_data b) \<Longrightarrow> rom_init b s \<noteq> None"
  by (auto simp: rom_init_def rom_pilots_def nget_def unat_eq_0 split: if_splits)

lemma pd_starts:
  assumes "unat (pd_length b) \<le> length (pd_data b)"
  shows "pure_data_init b s \<noteq> None"
  using assms by (auto simp: pure_data_init_def libspectrum_tape_pure_data_next_bit_def Let_def aget_def
      unat_eq_0 split: if_splits)

lemma tzx_block_starts: "tzx_block_ok b \<Longrightarrow> \<not> is_generalised b \<Longrightarrow> starts b"
  using raw_started
  by (cases b) (fastforce simp: starts_def put_state_def turbo_init_def rom_starts pd_starts)+

text \<open>
  A read in order: it goes forward and puts well-formed blocks at the end of the tape, or
  reports the file corrupt and leaves the tape.
\<close>

definition good_read :: "nat \<Rightarrow> libspectrum_tape \<Rightarrow> byte list \<Rightarrow> tzx_result \<Rightarrow> bool" where
  "good_read n tape rest r \<longleftrightarrow> (\<exists>e tape' rest'. r = Some (e, tape', rest') \<and>
     (if e = ERROR_NONE
      then loading (n + 1) tape' \<and> length rest' \<le> length rest \<and>
        (\<exists>bs. tape_blocks tape' = tape_blocks tape @ bs \<and> (\<forall>b \<in> snd ` set bs. tzx_block_ok b))
      else (e = ERROR_CORRUPT \<or> e = ERROR_UNKNOWN) \<and> tape' = tape))"

lemma good_corrupt [simp]:
  "good_read n tape rest (Some (ERROR_CORRUPT, tape, rest'))"
  "good_read n tape rest (Some (ERROR_UNKNOWN, tape, rest'))"
  by (simp_all add: good_read_def)

lemma good_appended:
  assumes "loading n tape" "tzx_block_ok b" "length rest' \<le> length rest"
    "libspectrum_tape_append_block n tape b = Some tape'"
  shows "good_read n tape rest (tzx_append n tape b rest')"
  using append_loading(2) [OF assms(1,4)] assms by (auto simp: tzx_append_def good_read_def)

lemma good_append:
  assumes "loading n tape" "tzx_block_ok b" "\<not> is_generalised b" "length rest' \<le> length rest"
  shows "good_read n tape rest (tzx_append n tape b rest')"
proof -
  obtain tape' where "libspectrum_tape_append_block n tape b = Some tape'"
    using append_loading(1) [OF assms(1)] tzx_block_starts [OF assms(2,3)] by blast
  then show ?thesis using good_appended assms by blast
qed

lemma good_then:
  assumes "r = Some (e, x)" "e = ERROR_NONE \<Longrightarrow> good_read n tape rest (f x)"
    "e \<noteq> ERROR_NONE \<Longrightarrow> e = ERROR_CORRUPT"
  shows "good_read n tape rest (tzx_then r (tape, rest') f)"
  using assms by (auto simp: tzx_then_def)

section \<open>Reads in order\<close>

text \<open>When the bytes are there the small readers return them.\<close>

lemma tzx_byte_there [simp]:
  "1 \<le> length rest \<Longrightarrow> tzx_byte rest = Some (ucast (rest ! 0), drop 1 rest)"
  by (cases rest) auto

lemma tzx_word_there [simp]:
  "2 \<le> length rest \<Longrightarrow>
     tzx_word rest = Some (ucast (rest ! 0) + ucast (rest ! 1) * 0x100, drop 2 rest)"
  by (cases rest rule: tzx_word.cases) auto

lemma unat_byte_dword [simp]: "unat (ucast (b :: byte) :: dword) = unat b"
proof -
  have "unat b < 2 ^ LENGTH(8)" by (rule unsigned_less)
  then show ?thesis by (simp add: unsigned_ucast_eq take_bit_nat_eq_self)
qed

lemma unat_byte: "unat (b :: byte) < 256"
  using unsigned_less [of b, where 'a = nat] by simp

lemma unat_word: "unat (ucast (a :: byte) + ucast (b :: byte) * 0x100 :: dword) < 65536"
  using unat_byte [of a] unat_byte [of b] by (simp add: unat_word_ariths)

lemma unat_to_size [simp]: "unat (ucast (w :: dword) :: size_t) = unat w"
proof -
  have "unat w < 2 ^ LENGTH(32)" by (rule unsigned_less)
  then show ?thesis by (simp add: unsigned_ucast_eq take_bit_nat_eq_self)
qed

lemma data_length_there:
  "k \<le> length rest \<Longrightarrow> unat len + k * 2 ^ 32 < 2 ^ 63 \<Longrightarrow>
     \<exists>len'. tzx_data_length k m len rest = Some (len', drop k rest) \<and> unat len' < 2 ^ 63"
proof (induction k arbitrary: m len rest)
  case 0
  then show ?case by simp
next
  case (Suc k)
  let ?len = "len + ucast (ucast (rest ! 0) * m :: dword)"
  have "unat (ucast (ucast (rest ! 0) * m :: dword) :: size_t) < 2 ^ 32"
    using unsigned_less [of "ucast (rest ! 0) * m :: dword", where 'a = nat] by simp
  then have "unat ?len < unat len + 2 ^ 32"
    using Suc.prems(2) by (subst unat_plus_if') auto
  then have "unat ?len + k * 2 ^ 32 < 2 ^ 63" using Suc.prems(2) by simp
  then show ?case using Suc.IH [of "drop 1 rest" ?len "m * 0x100"] Suc.prems(1) by auto
qed

lemma read_data_there:
  assumes "nat \<bar>bytes\<bar> \<le> length rest" "\<bar>bytes\<bar> \<le> 4"
  shows "\<exists>e len data rest'. tzx_read_data rest bytes = Some (e, len, data, rest') \<and>
    (e = ERROR_CORRUPT \<or> e = ERROR_NONE \<and> length rest' \<le> length rest \<and>
       length (data_of data) = unat len + (if bytes < 0 then 1 else 0) \<and>
       (data = None \<longleftrightarrow> len = 0 \<and> 0 \<le> bytes) \<and> unat len < 2 ^ 63)"
proof -
  have "nat \<bar>bytes\<bar> \<le> 4" using assms(2) by linarith
  then have "unat (0 :: size_t) + nat \<bar>bytes\<bar> * 2 ^ 32 < 2 ^ 63" by simp
  then obtain len where len: "tzx_data_length (nat \<bar>bytes\<bar>) 1 0 rest = Some (len, drop (nat \<bar>bytes\<bar>) rest)"
    "unat len < 2 ^ 63"
    using data_length_there [OF assms(1)] by blast
  then have "sint len = int (unat len)"
    by (simp add: sint_uint uint_nat signed_take_bit_int_eq_self del: of_nat_unat)
  then show ?thesis using len
    by (auto simp: tzx_read_data_def memcpy_at_def data_of_def Let_def unat_eq_0 simp del: of_nat_unat)
qed

lemma translate_line_endings_there:
  "0 \<in> set s \<Longrightarrow> \<exists>t. translate_line_endings s = Some t \<and> 0 \<in> set t"
  by (induction s) auto

lemma read_string_there:
  assumes "rest \<noteq> []"
  shows "\<exists>e s rest'. tzx_read_string rest = Some (e, s, rest') \<and>
    (e = ERROR_CORRUPT \<or> e = ERROR_NONE \<and> length rest' \<le> length rest \<and> terminated s)"
proof -
  have "nat \<bar>-1\<bar> \<le> length rest" using assms by (simp add: Suc_le_eq)
  from read_data_there [OF this] obtain e len data rest' where
    d: "tzx_read_data rest (-1) = Some (e, len, data, rest')"
    "e = ERROR_CORRUPT \<or> e = ERROR_NONE \<and> length rest' \<le> length rest \<and>
       length (data_of data) = unat len + 1 \<and> data \<noteq> None" by auto
  show ?thesis
  proof (cases "e = ERROR_NONE")
    case True
    then obtain s where s: "data = Some s" "length s = unat len + 1" "length rest' \<le> length rest"
      using d(2) by (auto simp: data_of_def)
    then have "0 \<in> set (s[unat len := 0])" by (simp add: set_update_memI)
    then obtain t where "translate_line_endings (s[unat len := 0]) = Some t" "0 \<in> set t"
      using translate_line_endings_there by blast
    then show ?thesis using d(1) s True
      by (auto simp: tzx_read_string_def nset_def terminated_def)
  qed (use d in \<open>auto simp: tzx_read_string_def\<close>)
qed

lemma data_then_good:
  assumes "nat \<bar>bytes\<bar> \<le> length rest1" "0 \<le> bytes" "bytes \<le> 4" "length rest1 \<le> length rest"
    and f: "\<And>len data rest'. length (data_of data) = unat len \<Longrightarrow> data = None \<longleftrightarrow> len = 0 \<Longrightarrow>
      unat len < 2 ^ 63 \<Longrightarrow> length rest' \<le> length rest \<Longrightarrow> good_read n tape rest (f (len, data, rest'))"
  shows "good_read n tape rest (tzx_then (tzx_read_data rest1 bytes) (tape, rest2) f)"
proof -
  have "\<bar>bytes\<bar> \<le> 4" "\<not> bytes < 0" using assms(2,3) by auto
  then obtain e len data rest' where "tzx_read_data rest1 bytes = Some (e, len, data, rest')"
    "e = ERROR_CORRUPT \<or> e = ERROR_NONE \<and> length rest' \<le> length rest1 \<and>
       length (data_of data) = unat len \<and> (data = None \<longleftrightarrow> len = 0) \<and> unat len < 2 ^ 63"
    using read_data_there [OF assms(1)] by auto
  then show ?thesis using f [of data len rest'] assms(4)
    by (intro good_then [where e = e and x = "(len, data, rest')"]) auto
qed

lemma string_then_good:
  assumes "rest1 \<noteq> []" "length rest1 \<le> length rest"
    and f: "\<And>s rest'. terminated s \<Longrightarrow> length rest' \<le> length rest \<Longrightarrow> good_read n tape rest (f (s, rest'))"
  shows "good_read n tape rest (tzx_then (tzx_read_string rest1) (tape, rest2) f)"
proof -
  obtain e s rest' where "tzx_read_string rest1 = Some (e, s, rest')"
    "e = ERROR_CORRUPT \<or> e = ERROR_NONE \<and> length rest' \<le> length rest1 \<and> terminated s"
    using read_string_there [OF assms(1)] by blast
  then show ?thesis using f [of s rest'] assms(2)
    by (intro good_then [where e = e and x = "(s, rest')"]) auto
qed

lemma tzx_bits_ok:
  assumes "tzx_bits k bits len = (bits', len')" "k \<noteq> 0"
  shows "unat bits' \<le> 8 \<and> unat len' \<le> unat len \<and> (k = 1 \<and> len' \<noteq> 0 \<longrightarrow> 1 \<le> unat bits')"
proof -
  have le: "unat (len - 1) \<le> unat len" if "k \<le> len"
    using that assms(2) by (subst unat_minus_one) auto
  show ?thesis
    using assms le
    by (auto simp: tzx_bits_def Let_def word_less_nat_alt word_le_nat_alt unat_gt_0 Suc_le_eq
        split: if_splits)
qed

lemmas tzx_bits_1 = tzx_bits_ok [of 1, simplified]
lemmas tzx_bits_2 = tzx_bits_ok [of 2, simplified]

lemma set_pause_ok [simp]:
  "tzx_block_ok (libspectrum_set_pause_ms b p) = tzx_block_ok b"
  "is_generalised (libspectrum_set_pause_ms b p) = is_generalised b"
proof -
  show "is_generalised (libspectrum_set_pause_ms b p) = is_generalised b"
    by (cases b) (simp_all add: libspectrum_set_pause_ms_def)
  show "tzx_block_ok (libspectrum_set_pause_ms b p) = tzx_block_ok b"
    by (cases b) (simp_all add: libspectrum_set_pause_ms_def raw_block_ok_def split: option.split)
qed

lemma rom_good:
  "loading n tape \<Longrightarrow> good_read n tape rest (tzx_read_rom_block n tape rest)"
  by (auto simp: tzx_read_rom_block_def Let_def intro!: data_then_good good_append)

lemma turbo_good:
  "loading n tape \<Longrightarrow> good_read n tape rest (tzx_read_turbo_block n tape rest)"
  by (auto simp: tzx_read_turbo_block_def Let_def intro!: data_then_good good_append
      dest!: tzx_bits_1 tzx_bits_2 split: prod.split)

lemma tone_good:
  "loading n tape \<Longrightarrow> good_read n tape rest (tzx_read_pure_tone n tape rest)"
  by (auto simp: tzx_read_pure_tone_def unat_word intro!: good_append)

lemma words_there:
  "2 * k \<le> length rest \<Longrightarrow>
     \<exists>ws. tzx_words k rest = Some (ws, drop (2 * k) rest) \<and> length ws = k"
proof (induction k arbitrary: rest)
  case (Suc k)
  then have "2 * k \<le> length (drop 2 rest)" by simp
  from Suc.IH [OF this] obtain ws where
    "tzx_words k (drop 2 rest) = Some (ws, drop (2 * k) (drop 2 rest))" "length ws = k" by blast
  then show ?case using Suc.prems by (auto simp: add.commute)
qed simp

lemma pulses_good:
  "loading n tape \<Longrightarrow> good_read n tape rest (tzx_read_pulses_block n tape rest)"
  using words_there [of "unat (rest ! 0)" "drop 1 rest"]
  by (auto simp: tzx_read_pulses_block_def Suc_le_eq intro!: good_append)

lemma pure_data_good:
  "loading n tape \<Longrightarrow> good_read n tape rest (tzx_read_pure_data n tape rest)"
  by (auto simp: tzx_read_pure_data_def Let_def intro!: data_then_good good_append
      dest!: tzx_bits_1 tzx_bits_2 split: prod.split)

lemma raw_data_good:
  "loading n tape \<Longrightarrow> good_read n tape rest (tzx_read_raw_data n tape rest)"
  by (auto simp: tzx_read_raw_data_def raw_block_ok_def data_of_def Let_def unat_eq_0
      intro!: data_then_good good_append dest!: tzx_bits_1 tzx_bits_2 split: prod.split option.split)

lemma pause_good:
  "loading n tape \<Longrightarrow> good_read n tape rest (tzx_read_pause n tape rest)"
  by (auto simp: tzx_read_pause_def intro!: good_append)

lemma group_start_good:
  "loading n tape \<Longrightarrow> good_read n tape rest (tzx_read_group_start n tape rest)"
  by (auto simp: tzx_read_group_start_def intro!: string_then_good good_append)

lemma jump_good:
  "loading n tape \<Longrightarrow> good_read n tape rest (tzx_read_jump n tape rest)"
  using unat_word [of "rest ! 0" "rest ! 1"]
  by (auto simp: tzx_read_jump_def Let_def simp del: of_nat_unat intro!: good_append)

lemma loop_start_good:
  "loading n tape \<Longrightarrow> good_read n tape rest (tzx_read_loop_start n tape rest)"
  using unat_word [of "rest ! 0" "rest ! 1"]
  by (auto simp: tzx_read_loop_start_def simp del: of_nat_unat intro!: good_append)

text \<open>The loops over entries with a text.\<close>

definition good_entries :: "nat \<Rightarrow> byte list \<Rightarrow> (int list \<times> byte list list \<times> byte list) c_result \<Rightarrow> bool" where
  "good_entries k rest r \<longleftrightarrow> (\<exists>e is ss rest'. r = Some (e, is, ss, rest') \<and>
     (e = ERROR_CORRUPT \<or> e = ERROR_NONE \<and> length is = k \<and> length ss = k \<and>
        list_all terminated ss \<and> length rest' \<le> length rest))"

lemma good_entry:
  assumes "rest1 \<noteq> []" "length rest1 \<le> length rest"
    and g: "\<And>rest'. length rest' \<le> length rest \<Longrightarrow> good_entries k rest (g rest')"
  shows "good_entries (Suc k) rest (do {
    (error, s, rest) \<leftarrow> tzx_read_string rest1;
    (if error \<noteq> ERROR_NONE then Some (error, [], [], rest)
     else do {
       (error, is, ss, rest) \<leftarrow> g rest;
       Some (error, i # is, s # ss, rest) }) })"
proof -
  obtain e s rest' where s: "tzx_read_string rest1 = Some (e, s, rest')"
    "e = ERROR_CORRUPT \<or> e = ERROR_NONE \<and> length rest' \<le> length rest1 \<and> terminated s"
    using read_string_there [OF assms(1)] by blast
  show ?thesis
  proof (cases "e = ERROR_NONE")
    case True
    then obtain e1 "is" ss rest2 where "g rest' = Some (e1, is, ss, rest2)"
      "e1 = ERROR_CORRUPT \<or> e1 = ERROR_NONE \<and> length is = k \<and> length ss = k \<and>
        list_all terminated ss \<and> length rest2 \<le> length rest"
      using s(2) assms(2) g [of rest'] by (auto simp: good_entries_def)
    then show ?thesis using s True by (auto simp: good_entries_def)
  qed (use s in \<open>auto simp: good_entries_def\<close>)
qed

lemma good_entries_mono: "good_entries k rest1 r \<Longrightarrow> length rest1 \<le> length rest \<Longrightarrow> good_entries k rest r"
  by (fastforce simp: good_entries_def)

lemma selections_good: "good_entries k rest (tzx_selections k rest)"
proof (induction k arbitrary: rest)
  case (Suc k)
  show ?case
  proof (cases "length rest < 3")
    case False
    then show ?thesis
      using good_entry [of "drop 2 rest" rest k "tzx_selections k"] good_entries_mono [OF Suc.IH]
      by auto
  qed (simp add: good_entries_def)
qed (simp add: good_entries_def)

lemma strings_good: "good_entries k rest (tzx_strings k rest)"
proof (induction k arbitrary: rest)
  case (Suc k)
  show ?case
  proof (cases "length rest < 2")
    case False
    then show ?thesis
      using good_entry [of "drop 1 rest" rest k "tzx_strings k"] good_entries_mono [OF Suc.IH]
      by auto
  qed (simp add: good_entries_def)
qed (simp add: good_entries_def)

lemma entries_then_good:
  assumes "good_entries k rest1 r" "length rest1 \<le> length rest"
    and f: "\<And>is ss rest'. length is = k \<Longrightarrow> length ss = k \<Longrightarrow> list_all terminated ss \<Longrightarrow>
      length rest' \<le> length rest \<Longrightarrow> good_read n tape rest (f (is, ss, rest'))"
  shows "good_read n tape rest (tzx_then r (tape, rest2) f)"
proof -
  obtain e "is" ss rest' where "r = Some (e, is, ss, rest')"
    "e = ERROR_CORRUPT \<or> e = ERROR_NONE \<and> length is = k \<and> length ss = k \<and>
        list_all terminated ss \<and> length rest' \<le> length rest1"
    using assms(1) by (auto simp: good_entries_def)
  then show ?thesis using f [of "is" ss rest'] assms(2)
    by (intro good_then [where e = e and x = "(is, ss, rest')"]) auto
qed

lemma select_good:
  "loading n tape \<Longrightarrow> good_read n tape rest (tzx_read_select n tape rest)"
  by (auto simp: tzx_read_select_def intro!: entries_then_good [OF selections_good] good_append)

lemma stop_good:
  "loading n tape \<Longrightarrow> good_read n tape rest (tzx_read_stop n tape rest)"
  by (auto simp: tzx_read_stop_def intro!: good_append)

lemma set_signal_level_good:
  "loading n tape \<Longrightarrow> good_read n tape rest (tzx_read_set_signal_level n tape rest)"
  by (auto simp: tzx_read_set_signal_level_def intro!: good_append)

lemma comment_good:
  "loading n tape \<Longrightarrow> good_read n tape rest (tzx_read_comment n tape rest)"
  by (auto simp: tzx_read_comment_def intro!: string_then_good good_append)

lemma message_good:
  "loading n tape \<Longrightarrow> good_read n tape rest (tzx_read_message n tape rest)"
  by (auto simp: tzx_read_message_def intro!: string_then_good good_append)

lemma archive_info_good:
  "loading n tape \<Longrightarrow> good_read n tape rest (tzx_read_archive_info n tape rest)"
  by (auto simp: tzx_read_archive_info_def intro!: entries_then_good [OF strings_good] good_append)

lemma hardware_entries_there:
  "3 * k \<le> length rest \<Longrightarrow> \<exists>ts is vs. tzx_hardware_entries k rest = Some (ts, is, vs, drop (3 * k) rest) \<and>
     length ts = k \<and> length is = k \<and> length vs = k"
proof (induction k arbitrary: rest)
  case (Suc k)
  then have "3 * k \<le> length (drop 3 rest)" by simp
  from Suc.IH [OF this] obtain ts "is" vs where
    "tzx_hardware_entries k (drop 3 rest) = Some (ts, is, vs, drop (3 * k) (drop 3 rest))"
    "length ts = k" "length is = k" "length vs = k" by blast
  then show ?case using Suc.prems by (auto simp: add.commute numeral_3_eq_3)
qed simp

lemma hardware_good:
  "loading n tape \<Longrightarrow> good_read n tape rest (tzx_read_hardware n tape rest)"
  using hardware_entries_there [of "unat (rest ! 0)" "drop 1 rest"]
  by (auto simp: tzx_read_hardware_def Suc_le_eq intro!: good_append)

lemma custom_good:
  "loading n tape \<Longrightarrow> good_read n tape rest (tzx_read_custom n tape rest)"
  by (auto simp: tzx_read_custom_def memcpy_at_def nset_def terminated_def set_update_memI
      Let_def intro!: data_then_good good_append)

lemma concat_good:
  "loading n tape \<Longrightarrow> good_read n tape rest (tzx_read_concat tape rest)"
  by (auto simp: tzx_read_concat_def good_read_def loading_def)

lemma empty_block_good:
  "loading n tape \<Longrightarrow> tzx_block_ok b \<Longrightarrow> \<not> is_generalised b \<Longrightarrow>
     good_read n tape rest (tzx_read_empty_block n tape b rest)"
  by (auto simp: tzx_read_empty_block_def intro!: good_append)

text \<open>A generalised data block is read in order unless the read has no result.\<close>

lemma pilot_symbols_length:
  "tzx_pilot_symbols k rest = Some (ss, rs, rest') \<Longrightarrow>
     length ss = k \<and> length rs = k \<and> length rest' \<le> length rest"
proof (induction k arbitrary: rest ss rs)
  case (Suc k)
  have word: "tzx_word xs = Some (w, ys) \<Longrightarrow> length ys \<le> length xs" for xs w ys
    by (cases xs rule: tzx_word.cases) auto
  show ?case using Suc.prems Suc.IH word
    by (cases rest) (fastforce split: bind_splits)+
qed simp

lemma symbol_table_read:
  "tzx_read_symbol_table table rest len = Some (e, table', rest') \<Longrightarrow>
     (e = ERROR_NONE \<or> e = ERROR_CORRUPT) \<and> length rest' \<le> length rest \<and>
     symbols_in_block table' = symbols_in_block table \<and>
     symbols_in_table table' = symbols_in_table table"
  by (auto simp: tzx_read_symbol_table_def libspectrum_tape_block_read_symbol_table_def
      split: bind_splits if_splits)

lemma generalised_bits_good:
  assumes load: "loading n tape"
    and sizes: "length (pilot_symbols block) = unat (symbols_in_block (pilot_table block))"
      "length (pilot_repeats block) = unat (symbols_in_block (pilot_table block))"
    and le: "length rest1 \<le> length rest"
    and some: "tzx_read_generalised_bits n tape block rest1 after \<noteq> None"
  shows "good_read n tape rest (tzx_read_generalised_bits n tape block rest1 after)"
proof -
  obtain bits where bits: "tzx_bits_per_symbol (symbols_in_table (data_table block)) = Some bits"
    using some by (cases "tzx_bits_per_symbol (symbols_in_table (data_table block))")
      (auto simp: tzx_read_generalised_bits_def)
  then have "bits \<le> 16"
    using length_takeWhile_le [of _ "[0..<16]"] by (auto simp: tzx_bits_per_symbol_def split: if_splits)
  then have same: "(ucast (word_of_nat bits :: size_t) :: dword) = word_of_nat bits"
    by (simp add: word_unat_eq_iff unsigned_ucast_eq unat_of_nat take_bit_nat_eq_self)
  define count where "count = (word_of_nat bits * symbols_in_block (data_table block) + 7) div (8 :: dword)"
  let ?block = "block\<lparr>bits_per_data_symbol := word_of_nat bits, gd_data := take (unat count) rest1\<rparr>"
  show ?thesis
  proof (cases "length rest1 < unat count \<or> length (drop (unat count) rest1) \<noteq> after")
    case True
    then show ?thesis using bits
      by (auto simp: tzx_read_generalised_bits_def count_def [symmetric] Let_def memcpy_at_def)
  next
    case False
    then have eq: "tzx_read_generalised_bits n tape block rest1 after =
        tzx_append n tape (GENERALISED_DATA ?block) (drop (unat count) rest1)"
      using bits by (auto simp: tzx_read_generalised_bits_def count_def [symmetric] Let_def memcpy_at_def)
    then obtain tape' where "libspectrum_tape_append_block n tape (GENERALISED_DATA ?block) = Some tape'"
      using some by (auto simp: tzx_append_def split: bind_splits)
    moreover have "tzx_block_ok (GENERALISED_DATA ?block)"
      using sizes False by (simp add: same count_def)
    ultimately show ?thesis unfolding eq using load le by (intro good_appended) auto
  qed
qed

lemma generalised_symbols_good:
  assumes load: "loading n tape" and le: "length rest1 \<le> length rest"
    and some: "tzx_read_generalised_symbols n tape block rest1 len after \<noteq> None"
  shows "good_read n tape rest (tzx_read_generalised_symbols n tape block rest1 len after)"
proof (cases "len < 3 * symbols_in_block (pilot_table block)")
  case False
  then obtain ss rs rest2 e table rest3 where
    read: "tzx_pilot_symbols (unat (symbols_in_block (pilot_table block))) rest1 = Some (ss, rs, rest2)"
      "tzx_read_symbol_table (data_table block) rest2
         (len - 3 * symbols_in_block (pilot_table block)) = Some (e, table, rest3)"
    and bits: "tzx_read_generalised_bits n tape
        (block\<lparr>pilot_symbols := ss, pilot_repeats := rs, data_table := table\<rparr>) rest3 after \<noteq> None"
    using some by (auto simp: tzx_read_generalised_symbols_def Let_def split: bind_splits)
  have "length rest3 \<le> length rest"
    using pilot_symbols_length [OF read(1)] symbol_table_read [OF read(2)] le by auto
  then have "good_read n tape rest (tzx_read_generalised_bits n tape
      (block\<lparr>pilot_symbols := ss, pilot_repeats := rs, data_table := table\<rparr>) rest3 after)"
    using pilot_symbols_length [OF read(1)] by (intro generalised_bits_good load bits) auto
  then show ?thesis using read False by (simp add: tzx_read_generalised_symbols_def Let_def)
qed (simp add: tzx_read_generalised_symbols_def)

lemma parameters_read:
  "libspectrum_tape_block_read_symbol_table_parameters block pilot buf p = Some (e, block', q) \<Longrightarrow> q = p + 6"
  by (auto simp: libspectrum_tape_block_read_symbol_table_parameters_def libspectrum_read_dword_def Let_def
      split: bind_splits)

lemma generalised_good:
  assumes load: "loading n tape" and some: "tzx_read_generalised_data n tape rest \<noteq> None"
  shows "good_read n tape rest (tzx_read_generalised_data n tape rest)"
proof (cases "length rest < 4")
  case False
  obtain len p where len: "libspectrum_read_dword rest 0 = Some (len, p)"
    using some False by (auto simp: tzx_read_generalised_data_def split: bind_splits)
  show ?thesis
  proof (cases "len < 14 \<or> length rest - p < unat len")
    case True
    then show ?thesis using len False by (auto simp: tzx_read_generalised_data_def Let_def)
  next
    case enough: False
    let ?rest1 = "drop p rest"
    let ?after = "length ?rest1 - unat len"
    obtain pause rest2 where pause: "tzx_word ?rest1 = Some (pause, rest2)"
      using some False enough len by (auto simp: tzx_read_generalised_data_def Let_def split: bind_splits)
    let ?new = "empty_generalised\<lparr>gd_pause := pause, gd_pause_tstates := libspectrum_ms_to_tstates pause\<rparr>"
    obtain e1 b1 p1 where first: "libspectrum_tape_block_read_symbol_table_parameters ?new True rest2 0 =
        Some (e1, b1, p1)"
      using some False enough len pause
      by (auto simp: tzx_read_generalised_data_def Let_def split: bind_splits)
    obtain e2 b2 p2 where second: "libspectrum_tape_block_read_symbol_table_parameters b1 False rest2 p1 =
        Some (e2, b2, p2)"
      using some False enough len pause first
      by (auto simp: tzx_read_generalised_data_def Let_def split: bind_splits)
    let ?before = "drop p2 rest2"
    have eq: "tzx_read_generalised_data n tape rest =
        tzx_then (tzx_read_symbol_table (pilot_table b2) ?before (len - 14)) (tape, rest2) (\<lambda>(table, rest).
             tzx_read_generalised_symbols n tape (b2\<lparr>pilot_table := table\<rparr>) rest
               (len - 14 - word_of_int (int (length rest) - int (length ?before))) ?after)"
      using False enough len pause first second
      by (simp add: tzx_read_generalised_data_def Let_def)
    obtain e3 table rest3 where third: "tzx_read_symbol_table (pilot_table b2) ?before (len - 14) =
        Some (e3, table, rest3)"
      using some eq by (auto simp: tzx_then_def split: bind_splits)
    have "length rest2 \<le> length ?rest1" using pause by (cases ?rest1 rule: tzx_word.cases) auto
    moreover have "length rest3 \<le> length ?before" using symbol_table_read [OF third] by simp
    ultimately have le: "length rest3 \<le> length rest" unfolding length_drop by arith
    show ?thesis unfolding eq third
    proof (rule good_then [OF refl])
      assume "e3 = ERROR_NONE"
      then show "good_read n tape rest (case (table, rest3) of (table, rest) \<Rightarrow>
          tzx_read_generalised_symbols n tape (b2\<lparr>pilot_table := table\<rparr>) rest
            (len - 14 - word_of_int (int (length rest) - int (length ?before))) ?after)"
        using some eq third load le by (auto simp: tzx_then_def intro!: generalised_symbols_good)
    qed (use symbol_table_read [OF third] in auto)
  qed
qed (simp add: tzx_read_generalised_data_def)

section \<open>The whole file\<close>

lemma read_block_good:
  assumes "loading n tape" "type = 0x19 \<longrightarrow> tzx_read_generalised_data n tape rest \<noteq> None"
  shows "good_read n tape rest (tzx_read_block n tape type rest)"
  using assms
  by (simp add: tzx_read_block_def rom_good turbo_good tone_good pulses_good pure_data_good
      raw_data_good generalised_good pause_good group_start_good jump_good loop_start_good select_good
      stop_good set_signal_level_good comment_good message_good archive_info_good hardware_good
      custom_good concat_good empty_block_good)

text \<open>The blocks before a position of the file: \<open>rest'\<close> is read at node \<open>n'\<close> on \<open>tape'\<close>.\<close>

inductive tzx_reaches ::
    "nat \<Rightarrow> libspectrum_tape \<Rightarrow> byte list \<Rightarrow> nat \<Rightarrow> libspectrum_tape \<Rightarrow> byte list \<Rightarrow> bool" where
  start: "tzx_reaches n tape rest n tape rest"
| block: "tzx_read_block n tape type rest = Some (ERROR_NONE, tape1, rest1) \<Longrightarrow>
    tzx_reaches (n + 1) tape1 rest1 n' tape' rest' \<Longrightarrow>
    tzx_reaches n tape (type # rest) n' tape' rest'"

lemma read_loop_result:
  "loading n tape \<Longrightarrow> length rest \<le> k \<Longrightarrow>
     (case tzx_read_loop k n tape rest of
        None \<Rightarrow> \<exists>n' tape' rest'. tzx_reaches n tape rest n' tape' (0x19 # rest') \<and>
          tzx_read_generalised_data n' tape' rest' = None
      | Some (e, tape') \<Rightarrow>
          if e = ERROR_NONE then loading (length (tape_blocks tape') + n + k) tape' \<and>
            (\<exists>bs. tape_blocks tape' = tape_blocks tape @ bs \<and> (\<forall>b \<in> snd ` set bs. tzx_block_ok b))
          else (e = ERROR_CORRUPT \<or> e = ERROR_UNKNOWN) \<and> tape_blocks tape' = [] \<and>
            current_block (tape_state tape') = None)"
proof (induction k n tape rest rule: tzx_read_loop.induct)
  case (1 k n tape)
  then show ?case by (fastforce simp: loading_def)
next
  case (3 k n tape type rest)
  show ?case
  proof (cases "type = 0x19 \<and> tzx_read_generalised_data n tape rest = None")
    case True
    then show ?thesis using tzx_reaches.start by (fastforce simp: tzx_read_block_def)
  next
    case False
    then have "good_read n tape rest (tzx_read_block n tape type rest)"
      using read_block_good [OF 3(2)] by blast
    then obtain e tape1 rest1 where r: "tzx_read_block n tape type rest = Some (e, tape1, rest1)"
      and good: "if e = ERROR_NONE
        then loading (n + 1) tape1 \<and> length rest1 \<le> length rest \<and>
          (\<exists>bs. tape_blocks tape1 = tape_blocks tape @ bs \<and> (\<forall>b \<in> snd ` set bs. tzx_block_ok b))
        else (e = ERROR_CORRUPT \<or> e = ERROR_UNKNOWN) \<and> tape1 = tape"
      by (auto simp: good_read_def)
    show ?thesis
    proof (cases "e = ERROR_NONE")
      case True
      then have ih: "case tzx_read_loop k (n + 1) tape1 rest1 of
          None \<Rightarrow> \<exists>n' tape' rest'. tzx_reaches (n + 1) tape1 rest1 n' tape' (0x19 # rest') \<and>
            tzx_read_generalised_data n' tape' rest' = None
        | Some (e, tape') \<Rightarrow>
            if e = ERROR_NONE then loading (length (tape_blocks tape') + (n + 1) + k) tape' \<and>
              (\<exists>bs. tape_blocks tape' = tape_blocks tape1 @ bs \<and> (\<forall>b \<in> snd ` set bs. tzx_block_ok b))
            else (e = ERROR_CORRUPT \<or> e = ERROR_UNKNOWN) \<and> tape_blocks tape' = [] \<and>
              current_block (tape_state tape') = None"
        using 3(1) [OF r] good 3(3) by auto
      show ?thesis
      proof (cases "tzx_read_loop k (n + 1) tape1 rest1")
        case None
        then obtain n' tape' rest' where "tzx_reaches (n + 1) tape1 rest1 n' tape' (0x19 # rest')"
          "tzx_read_generalised_data n' tape' rest' = None" using ih by auto
        then show ?thesis using None r True tzx_reaches.block by fastforce
      qed (use ih good True r in \<open>auto split: if_splits\<close>)
    qed (use r good in \<open>auto simp: libspectrum_tape_clear_def Let_def\<close>)
  qed
qed simp

text \<open>
  C19: the reader takes any bytes. It ends, and either accepts the file, with blocks on the tape
  whose sizes agree with their arrays and whose texts are terminated, or reports an error with
  the tape left empty; the only read that can leave its input is one of a generalised data block
  that the file leads to.
\<close>

theorem tzx_read_any:
  "case internal_tzx_read n (libspectrum_tape_alloc count sts) input of
     None \<Rightarrow> \<exists>n' tape' rest'. tzx_reaches n (libspectrum_tape_alloc count sts) (drop 10 input)
         n' tape' (0x19 # rest') \<and> tzx_read_generalised_data n' tape' rest' = None
   | Some (e, tape) \<Rightarrow>
       if e = ERROR_NONE then \<exists>m. loading m tape \<and> list_all (tzx_block_ok \<circ> snd) (tape_blocks tape)
       else e \<in> {ERROR_CORRUPT, ERROR_UNKNOWN, ERROR_SIGNATURE} \<and> \<not> libspectrum_tape_present tape"
proof -
  let ?tape = "libspectrum_tape_alloc count sts"
  have "loading n ?tape" by (simp add: loading_def libspectrum_tape_alloc_def)
  note result = read_loop_result [OF this order_refl, of "drop 10 input"]
  have len: "length libspectrum_tzx_signature + 2 = 10" by (simp add: libspectrum_tzx_signature_def)
  have empty: "tape_blocks ?tape = []" by (simp add: libspectrum_tape_alloc_def)
  show ?thesis
  proof (cases "length input < 10 \<or>
      take (length libspectrum_tzx_signature) input \<noteq> libspectrum_tzx_signature")
    case True
    then show ?thesis
      by (auto simp only: internal_tzx_read_def Let_def len empty libspectrum_tape_present_def
          option.case prod.case) (auto simp: libspectrum_tape_alloc_def)
  next
    case False
    then have "internal_tzx_read n ?tape input =
        tzx_read_loop (length (drop 10 input)) n ?tape (drop 10 input)"
      by (simp only: internal_tzx_read_def Let_def len) simp
    then show ?thesis using result empty
      by (auto simp: libspectrum_tape_present_def list_all_iff split: option.splits if_splits)
  qed
qed

definition short_generalised :: "byte list" where
  "short_generalised = libspectrum_tzx_signature @ [1, 20,
     0x19, 17, 0, 0, 0, 0, 0, 1, 0, 0, 0, 1, 1, 0, 0, 0, 0, 0, 0, 0, 0, 0]"


end
