(* ===== verification/Tzx_Write.thy ===== *)
theory Tzx_Write
  imports Tzx_Read LS_Buffer
begin

text \<open>
  \<open>tzx_write.c\<close>: writing a tape as a \<open>.tzx\<close> file. A function for one block type takes the
  record of that type, as the \<open>switch\<close> of \<open>internal_tzx_write\<close> has looked at the type; a value
  passed to a narrower parameter is cut by \<open>ucast\<close>.
\<close>

section \<open>Bytes and strings\<close>

text \<open>\<open>strlen\<close> reads up to the first zero byte.\<close>

definition strlen :: "byte list \<Rightarrow> nat option" where
  "strlen s = (if 0 \<in> set s then Some (length (takeWhile (\<lambda>c. c \<noteq> 0) s)) else None)"

fun tzx_write_length ::
    "(nat \<Rightarrow> byte) \<Rightarrow> lbuffer \<Rightarrow> nat \<Rightarrow> size_t \<Rightarrow> lbuffer option" where
  "tzx_write_length junk b 0 shifter = Some b"
| "tzx_write_length junk b (Suc n) shifter = do {
     b \<leftarrow> libspectrum_buffer_write_byte junk b (ucast (shifter AND 0xff));
     tzx_write_length junk b n (drop_bit 8 shifter) }"

definition tzx_write_bytes ::
    "(nat \<Rightarrow> byte) \<Rightarrow> lbuffer \<Rightarrow> size_t \<Rightarrow> nat \<Rightarrow> byte list \<Rightarrow> lbuffer option" where
  "tzx_write_bytes junk b len length_bytes data = do {
     b \<leftarrow> tzx_write_length junk b length_bytes len;
     libspectrum_buffer_write junk b data len }"

fun tzx_write_chars :: "(nat \<Rightarrow> byte) \<Rightarrow> lbuffer \<Rightarrow> byte list \<Rightarrow> nat \<Rightarrow> nat \<Rightarrow> lbuffer option" where
  "tzx_write_chars junk b string i 0 = Some b"
| "tzx_write_chars junk b string i (Suc n) = do {
     c \<leftarrow> nget string i;
     b \<leftarrow> libspectrum_buffer_write_byte junk b (if c = 0x0a then 0x0d else c);
     tzx_write_chars junk b string (i + 1) n }"

definition tzx_write_string :: "(nat \<Rightarrow> byte) \<Rightarrow> lbuffer \<Rightarrow> byte list \<Rightarrow> lbuffer option" where
  "tzx_write_string junk b string = do {
     len \<leftarrow> strlen string;
     let len = len mod 256;
     b \<leftarrow> libspectrum_buffer_write_byte junk b (word_of_nat len);
     tzx_write_chars junk b string 0 len }"

section \<open>Data blocks\<close>

definition tzx_write_rom :: "(nat \<Rightarrow> byte) \<Rightarrow> rom_block \<Rightarrow> lbuffer \<Rightarrow> lbuffer option" where
  "tzx_write_rom junk block b = do {
     b \<leftarrow> libspectrum_buffer_write_byte junk b 0x10;
     b \<leftarrow> libspectrum_buffer_write_word junk b (ucast (rom_pause block));
     tzx_write_bytes junk b (rom_length block) 2 (rom_data block) }"

definition tzx_write_turbo :: "(nat \<Rightarrow> byte) \<Rightarrow> turbo_block \<Rightarrow> lbuffer \<Rightarrow> lbuffer option" where
  "tzx_write_turbo junk block b = do {
     b \<leftarrow> libspectrum_buffer_write_byte junk b 0x11;
     b \<leftarrow> libspectrum_buffer_write_word junk b (ucast (turbo_pilot_length block));
     b \<leftarrow> libspectrum_buffer_write_word junk b (ucast (turbo_sync1_length block));
     b \<leftarrow> libspectrum_buffer_write_word junk b (ucast (turbo_sync2_length block));
     b \<leftarrow> libspectrum_buffer_write_word junk b (ucast (turbo_bit0_length block));
     b \<leftarrow> libspectrum_buffer_write_word junk b (ucast (turbo_bit1_length block));
     b \<leftarrow> libspectrum_buffer_write_word junk b (ucast (turbo_pilot_pulses block));
     b \<leftarrow> libspectrum_buffer_write_byte junk b (ucast (turbo_bits_in_last_byte block));
     b \<leftarrow> libspectrum_buffer_write_word junk b (ucast (turbo_pause block));
     tzx_write_bytes junk b (turbo_length block) 3 (turbo_data block) }"

definition add_pure_tone_block :: "(nat \<Rightarrow> byte) \<Rightarrow> lbuffer \<Rightarrow> dword \<Rightarrow> size_t \<Rightarrow> lbuffer option" where
  "add_pure_tone_block junk b pulse_length count = do {
     b \<leftarrow> libspectrum_buffer_write_byte junk b 0x12;
     b \<leftarrow> libspectrum_buffer_write_word junk b (ucast pulse_length);
     libspectrum_buffer_write_word junk b (ucast count) }"

definition tzx_write_pure_tone :: "(nat \<Rightarrow> byte) \<Rightarrow> pure_tone_block \<Rightarrow> lbuffer \<Rightarrow> lbuffer option" where
  "tzx_write_pure_tone junk block b =
     add_pure_tone_block junk b (tone_length block) (tone_pulses block)"

fun tzx_write_words :: "(nat \<Rightarrow> byte) \<Rightarrow> lbuffer \<Rightarrow> dword list \<Rightarrow> nat \<Rightarrow> nat \<Rightarrow> lbuffer option" where
  "tzx_write_words junk b lengths i 0 = Some b"
| "tzx_write_words junk b lengths i (Suc n) = do {
     w \<leftarrow> nget lengths i;
     b \<leftarrow> libspectrum_buffer_write_word junk b (ucast w);
     tzx_write_words junk b lengths (i + 1) n }"

definition tzx_write_pulses :: "(nat \<Rightarrow> byte) \<Rightarrow> pulses_block \<Rightarrow> lbuffer \<Rightarrow> lbuffer option" where
  "tzx_write_pulses junk block b = do {
     let count = pulses_count block;
     b \<leftarrow> libspectrum_buffer_write_byte junk b 0x13;
     b \<leftarrow> libspectrum_buffer_write_byte junk b (ucast count);
     tzx_write_words junk b (pulses_lengths block) 0 (unat count) }"

definition tzx_write_data :: "(nat \<Rightarrow> byte) \<Rightarrow> pure_data_block \<Rightarrow> lbuffer \<Rightarrow> lbuffer option" where
  "tzx_write_data junk block b = do {
     b \<leftarrow> libspectrum_buffer_write_byte junk b 0x14;
     b \<leftarrow> libspectrum_buffer_write_word junk b (ucast (pd_bit0_length block));
     b \<leftarrow> libspectrum_buffer_write_word junk b (ucast (pd_bit1_length block));
     b \<leftarrow> libspectrum_buffer_write_byte junk b (ucast (pd_bits_in_last_byte block));
     b \<leftarrow> libspectrum_buffer_write_word junk b (ucast (pd_pause block));
     tzx_write_bytes junk b (pd_length block) 3 (pd_data block) }"

definition tzx_write_raw_data :: "(nat \<Rightarrow> byte) \<Rightarrow> raw_data_block \<Rightarrow> lbuffer \<Rightarrow> lbuffer option" where
  "tzx_write_raw_data junk block b = do {
     b \<leftarrow> libspectrum_buffer_write_byte junk b 0x15;
     b \<leftarrow> libspectrum_buffer_write_word junk b (ucast (rd_bit_length block));
     b \<leftarrow> libspectrum_buffer_write_word junk b (ucast (rd_pause block));
     b \<leftarrow> libspectrum_buffer_write_byte junk b (ucast (rd_bits_in_last_byte block));
     tzx_write_bytes junk b (rd_length block) 3 (data_of (rd_data block)) }"

section \<open>Generalised data\<close>

text \<open>
  The products of bytes and words are \<open>int\<close>s; \<open>3 * symbols_in_block\<close> wraps at 32 bits, the
  number of data bits is a \<open>size_t\<close>.
\<close>

definition generalised_data_length :: "symbol_table \<Rightarrow> symbol_table \<Rightarrow> size_t \<Rightarrow> size_t" where
  "generalised_data_length pilot data data_bits_per_symbol =
     (let data_length = 14;
          data_length = (if symbols_in_block pilot \<noteq> 0
            then data_length + (2 * ucast (max_pulses pilot) + 1) * ucast (symbols_in_table pilot)
                   + ucast (3 * symbols_in_block pilot)
            else data_length)
      in if symbols_in_block data \<noteq> 0
         then data_length + (2 * ucast (max_pulses data) + 1) * ucast (symbols_in_table data)
                + libspectrum_bits_to_bytes (data_bits_per_symbol * ucast (symbols_in_block data))
         else data_length)"

definition serialise_generalised_data_table ::
    "(nat \<Rightarrow> byte) \<Rightarrow> lbuffer \<Rightarrow> symbol_table \<Rightarrow> lbuffer c_result" where
  "serialise_generalised_data_table junk b table = do {
     b \<leftarrow> libspectrum_buffer_write_dword junk b (symbols_in_block table);
     b \<leftarrow> libspectrum_buffer_write_byte junk b (max_pulses table);
     let symbols_in_table = symbols_in_table table;
     (if symbols_in_block table \<noteq> 0 \<and> (symbols_in_table = 0 \<or> symbols_in_table > 256)
      then Some (ERROR_INVALID, b)
      else do {
        b \<leftarrow> libspectrum_buffer_write_byte junk b
               (ucast (if symbols_in_table = 256 then 0 else symbols_in_table));
        Some (ERROR_NONE, b) }) }"

fun serialise_pulses :: "(nat \<Rightarrow> byte) \<Rightarrow> lbuffer \<Rightarrow> generalised_data_symbol \<Rightarrow> nat \<Rightarrow> nat \<Rightarrow> lbuffer option" where
  "serialise_pulses junk b symbol j 0 = Some b"
| "serialise_pulses junk b symbol j (Suc n) = do {
     w \<leftarrow> libspectrum_tape_generalised_data_symbol_pulse symbol j;
     b \<leftarrow> libspectrum_buffer_write_word junk b w;
     serialise_pulses junk b symbol (j + 1) n }"

fun serialise_symbols :: "(nat \<Rightarrow> byte) \<Rightarrow> lbuffer \<Rightarrow> symbol_table \<Rightarrow> nat \<Rightarrow> nat \<Rightarrow> lbuffer option" where
  "serialise_symbols junk b table i 0 = Some b"
| "serialise_symbols junk b table i (Suc n) = do {
     symbol \<leftarrow> libspectrum_tape_generalised_data_symbol_table_symbol table i;
     b \<leftarrow> libspectrum_buffer_write_byte junk b (edge_type symbol);
     b \<leftarrow> serialise_pulses junk b symbol 0 (unat (max_pulses table));
     serialise_symbols junk b table (i + 1) n }"

definition serialise_generalised_data_symbols ::
    "(nat \<Rightarrow> byte) \<Rightarrow> lbuffer \<Rightarrow> symbol_table \<Rightarrow> lbuffer option" where
  "serialise_generalised_data_symbols junk b table =
     (if symbols_in_block table = 0 then Some b
      else serialise_symbols junk b table 0 (unat (symbols_in_table table)))"

fun write_pilot_symbols ::
    "(nat \<Rightarrow> byte) \<Rightarrow> lbuffer \<Rightarrow> byte list \<Rightarrow> lword list \<Rightarrow> nat \<Rightarrow> nat \<Rightarrow> lbuffer option" where
  "write_pilot_symbols junk b ss rs i 0 = Some b"
| "write_pilot_symbols junk b ss rs i (Suc n) = do {
     s \<leftarrow> nget ss i;
     b \<leftarrow> libspectrum_buffer_write_byte junk b s;
     r \<leftarrow> nget rs i;
     b \<leftarrow> libspectrum_buffer_write_word junk b r;
     write_pilot_symbols junk b ss rs (i + 1) n }"

text \<open>
  \<open>ss\<close>, \<open>rs\<close> and \<open>data\<close> are what the accessors of the pilot symbols and repeats and of the data
  give for the block.
\<close>

definition write_generalised_data_block ::
    "(nat \<Rightarrow> byte) \<Rightarrow> byte list \<times> lword list \<times> byte list \<Rightarrow> lbuffer \<Rightarrow> size_t \<Rightarrow> symbol_table
       \<Rightarrow> symbol_table \<Rightarrow> lword \<Rightarrow> lbuffer c_result" where
  "write_generalised_data_block junk block b bits_per_symbol pilot table pause_ms = do {
     let (ss, rs, data) = block;
     let data_length = generalised_data_length pilot table bits_per_symbol;
     b \<leftarrow> libspectrum_buffer_write_byte junk b 0x19;
     b \<leftarrow> libspectrum_buffer_write_dword junk b (ucast data_length);
     b \<leftarrow> libspectrum_buffer_write_word junk b pause_ms;
     on_ok (serialise_generalised_data_table junk b pilot) (\<lambda>b.
     on_ok (serialise_generalised_data_table junk b table) (\<lambda>b. do {
       b \<leftarrow> serialise_generalised_data_symbols junk b pilot;
       b \<leftarrow> write_pilot_symbols junk b ss rs 0 (unat (symbols_in_block pilot));
       b \<leftarrow> serialise_generalised_data_symbols junk b table;
       let data_length = libspectrum_bits_to_bytes
             (bits_per_symbol * ucast (symbols_in_block table));
       b \<leftarrow> libspectrum_buffer_write junk b data data_length;
       Some (ERROR_NONE, b) })) }"

definition tzx_write_generalised_data ::
    "(nat \<Rightarrow> byte) \<Rightarrow> generalised_data_block \<Rightarrow> lbuffer \<Rightarrow> lbuffer c_result" where
  "tzx_write_generalised_data junk block b =
     write_generalised_data_block junk (pilot_symbols block, pilot_repeats block, gd_data block) b
       (bits_per_data_symbol block) (pilot_table block) (data_table block) (ucast (gd_pause block))"

section \<open>Control and information blocks\<close>

definition add_set_signal_level_block :: "(nat \<Rightarrow> byte) \<Rightarrow> lbuffer \<Rightarrow> int \<Rightarrow> lbuffer option" where
  "add_set_signal_level_block junk b level = do {
     b \<leftarrow> libspectrum_buffer_write_byte junk b 0x2b;
     b \<leftarrow> libspectrum_buffer_write_dword junk b 1;
     libspectrum_buffer_write_byte junk b (word_of_int level) }"

definition tzx_write_set_signal_level :: "(nat \<Rightarrow> byte) \<Rightarrow> int \<Rightarrow> lbuffer \<Rightarrow> lbuffer option" where
  "tzx_write_set_signal_level junk level b = add_set_signal_level_block junk b level"

definition tzx_write_pause :: "(nat \<Rightarrow> byte) \<Rightarrow> pause_block \<Rightarrow> lbuffer \<Rightarrow> lbuffer option" where
  "tzx_write_pause junk block b =
     (if pause_level block \<noteq> 0 then do {
        b \<leftarrow> (if pause_level block = 1 then add_set_signal_level_block junk b 1 else Some b);
        add_pure_tone_block junk b (pause_length_tstates block) 1 }
      else do {
        b \<leftarrow> libspectrum_buffer_write_byte junk b 0x20;
        libspectrum_buffer_write_word junk b (ucast (pause_length block)) })"

definition tzx_write_group_start :: "(nat \<Rightarrow> byte) \<Rightarrow> byte list \<Rightarrow> lbuffer \<Rightarrow> lbuffer option" where
  "tzx_write_group_start junk name b = do {
     b \<leftarrow> libspectrum_buffer_write_byte junk b 0x21;
     tzx_write_string junk b name }"

definition tzx_write_jump :: "(nat \<Rightarrow> byte) \<Rightarrow> int \<Rightarrow> lbuffer \<Rightarrow> lbuffer option" where
  "tzx_write_jump junk jump b = do {
     b \<leftarrow> libspectrum_buffer_write_byte junk b 0x23;
     libspectrum_buffer_write_word junk b (word_of_int (if jump < 0 then jump + 65536 else jump)) }"

definition tzx_write_loop_start :: "(nat \<Rightarrow> byte) \<Rightarrow> int \<Rightarrow> lbuffer \<Rightarrow> lbuffer option" where
  "tzx_write_loop_start junk count b = do {
     b \<leftarrow> libspectrum_buffer_write_byte junk b 0x24;
     libspectrum_buffer_write_word junk b (word_of_int count) }"

text \<open>\<open>for( i = 0; i < count; i++ ) total_length += strlen( \<dots> )\<close>\<close>

fun add_lengths :: "byte list list \<Rightarrow> nat \<Rightarrow> nat \<Rightarrow> size_t \<Rightarrow> size_t option" where
  "add_lengths texts i 0 total_length = Some total_length"
| "add_lengths texts i (Suc n) total_length = do {
     s \<leftarrow> nget texts i;
     len \<leftarrow> strlen s;
     add_lengths texts (i + 1) n (total_length + word_of_nat len) }"

fun write_selections ::
    "(nat \<Rightarrow> byte) \<Rightarrow> lbuffer \<Rightarrow> int list \<Rightarrow> byte list list \<Rightarrow> nat \<Rightarrow> nat \<Rightarrow> lbuffer option" where
  "write_selections junk b offsets texts i 0 = Some b"
| "write_selections junk b offsets texts i (Suc n) = do {
     offset \<leftarrow> nget offsets i;
     b \<leftarrow> libspectrum_buffer_write_word junk b (word_of_int offset);
     s \<leftarrow> nget texts i;
     b \<leftarrow> tzx_write_string junk b s;
     write_selections junk b offsets texts (i + 1) n }"

definition tzx_write_select :: "(nat \<Rightarrow> byte) \<Rightarrow> select_block \<Rightarrow> lbuffer \<Rightarrow> lbuffer option" where
  "tzx_write_select junk block b = do {
     let count = select_count block;
     total_length \<leftarrow> add_lengths (select_descriptions block) 0 (unat count) (4 + 3 * count);
     b \<leftarrow> libspectrum_buffer_write_byte junk b 0x28;
     b \<leftarrow> libspectrum_buffer_write_word junk b (ucast total_length);
     b \<leftarrow> libspectrum_buffer_write_byte junk b (ucast count);
     write_selections junk b (select_offsets block) (select_descriptions block) 0 (unat count) }"

definition tzx_write_stop :: "(nat \<Rightarrow> byte) \<Rightarrow> lbuffer \<Rightarrow> lbuffer option" where
  "tzx_write_stop junk b = do {
     b \<leftarrow> libspectrum_buffer_write_byte junk b 0x2a;
     libspectrum_buffer_write_dword junk b 0 }"

definition tzx_write_comment :: "(nat \<Rightarrow> byte) \<Rightarrow> byte list \<Rightarrow> lbuffer \<Rightarrow> lbuffer option" where
  "tzx_write_comment junk s b = do {
     b \<leftarrow> libspectrum_buffer_write_byte junk b 0x30;
     tzx_write_string junk b s }"

definition tzx_write_message :: "(nat \<Rightarrow> byte) \<Rightarrow> message_block \<Rightarrow> lbuffer \<Rightarrow> lbuffer option" where
  "tzx_write_message junk block b = do {
     b \<leftarrow> libspectrum_buffer_write_byte junk b 0x31;
     b \<leftarrow> libspectrum_buffer_write_byte junk b (word_of_int (message_time block));
     tzx_write_string junk b (message_text block) }"

fun write_info_strings ::
    "(nat \<Rightarrow> byte) \<Rightarrow> lbuffer \<Rightarrow> int list \<Rightarrow> byte list list \<Rightarrow> nat \<Rightarrow> nat \<Rightarrow> lbuffer option" where
  "write_info_strings junk b ids texts i 0 = Some b"
| "write_info_strings junk b ids texts i (Suc n) = do {
     k \<leftarrow> nget ids i;
     b \<leftarrow> libspectrum_buffer_write_byte junk b (word_of_int k);
     s \<leftarrow> nget texts i;
     b \<leftarrow> tzx_write_string junk b s;
     write_info_strings junk b ids texts (i + 1) n }"

definition tzx_write_archive_info :: "(nat \<Rightarrow> byte) \<Rightarrow> archive_info_block \<Rightarrow> lbuffer \<Rightarrow> lbuffer option" where
  "tzx_write_archive_info junk block b = do {
     let count = ai_count block;
     total_length \<leftarrow> add_lengths (ai_strings block) 0 (unat count) (1 + 2 * count);
     b \<leftarrow> libspectrum_buffer_write_byte junk b 0x32;
     b \<leftarrow> libspectrum_buffer_write_word junk b (ucast total_length);
     b \<leftarrow> libspectrum_buffer_write_byte junk b (ucast count);
     write_info_strings junk b (ai_ids block) (ai_strings block) 0 (unat count) }"

fun write_hardware_entries :: "(nat \<Rightarrow> byte) \<Rightarrow> lbuffer \<Rightarrow> hardware_block \<Rightarrow> nat \<Rightarrow> nat \<Rightarrow> lbuffer option" where
  "write_hardware_entries junk b block i 0 = Some b"
| "write_hardware_entries junk b block i (Suc n) = do {
     t \<leftarrow> nget (hw_types block) i;
     b \<leftarrow> libspectrum_buffer_write_byte junk b (word_of_int t);
     k \<leftarrow> nget (hw_ids block) i;
     b \<leftarrow> libspectrum_buffer_write_byte junk b (word_of_int k);
     v \<leftarrow> nget (hw_values block) i;
     b \<leftarrow> libspectrum_buffer_write_byte junk b (word_of_int v);
     write_hardware_entries junk b block (i + 1) n }"

definition tzx_write_hardware :: "(nat \<Rightarrow> byte) \<Rightarrow> hardware_block \<Rightarrow> lbuffer \<Rightarrow> lbuffer option" where
  "tzx_write_hardware junk block b = do {
     let count = hw_count block;
     b \<leftarrow> libspectrum_buffer_write_byte junk b 0x33;
     b \<leftarrow> libspectrum_buffer_write_byte junk b (ucast count);
     write_hardware_entries junk b block 0 (unat count) }"

definition tzx_write_custom :: "(nat \<Rightarrow> byte) \<Rightarrow> custom_block \<Rightarrow> lbuffer \<Rightarrow> lbuffer option" where
  "tzx_write_custom junk block b = do {
     b \<leftarrow> libspectrum_buffer_write_byte junk b 0x35;
     b \<leftarrow> libspectrum_buffer_write junk b (custom_description block) 16;
     tzx_write_bytes junk b (custom_length block) 4 (custom_data block) }"

definition tzx_write_empty_block :: "(nat \<Rightarrow> byte) \<Rightarrow> lbuffer \<Rightarrow> byte \<Rightarrow> lbuffer option" where
  "tzx_write_empty_block junk b type = libspectrum_buffer_write_byte junk b type"

section \<open>Run-length encoded pulses\<close>

text \<open>The static state of the conversion to samples; \<open>bits_used\<close> and \<open>level\<close> are \<open>short\<close>s.\<close>

record rle_write_state =
  bits_used :: nat
  rle_level :: bool
  tape_buffer :: "byte list"
  rle_tape_length :: size_t
  rle_used :: size_t

text \<open>One sample of the loop of \<open>write_pulse\<close>.\<close>

definition write_sample :: "rle_write_state \<Rightarrow> rle_write_state option" where
  "write_sample r = do {
     r \<leftarrow> (if rle_level r then do {
             c \<leftarrow> aget (tape_buffer r) (rle_used r);
             mem \<leftarrow> aset (tape_buffer r) (rle_used r) (c OR push_bit (7 - bits_used r) 1);
             Some (r\<lparr>tape_buffer := mem\<rparr>) }
           else Some r);
     let r = r\<lparr>bits_used := bits_used r + 1\<rparr>;
     (if bits_used r = 8 then do {
        let r = r\<lparr>rle_used := rle_used r + 1\<rparr>;
        mem \<leftarrow> aset (tape_buffer r) (rle_used r) 0;
        Some (r\<lparr>tape_buffer := mem, bits_used := 0\<rparr>) }
      else Some r) }"

primrec write_samples :: "nat \<Rightarrow> rle_write_state \<Rightarrow> rle_write_state option" where
  "write_samples 0 r = Some r"
| "write_samples (Suc n) r = write_sample r \<bind> write_samples n"

text \<open>The counter \<open>i\<close> of the loop is an \<open>int\<close>.\<close>

definition write_pulse :: "(nat \<Rightarrow> byte) \<Rightarrow> dword \<Rightarrow> rle_write_state \<Rightarrow> rle_write_state option" where
  "write_pulse junk pulse_length r = do {
     let target_size = rle_used r + ucast (pulse_length div 8);
     let r = (if rle_tape_length r \<le> target_size
              then r\<lparr>rle_tape_length := target_size * 2,
                     tape_buffer := renew junk (tape_buffer r) (unat (target_size * 2))\<rparr>
              else r);
     r \<leftarrow> write_samples (nat (sint pulse_length)) r;
     Some (r\<lparr>rle_level := \<not> rle_level r\<rparr>) }"

text \<open>
  The loop that takes edges until the end of the block; \<open>flags\<close> is what the last edge set. A
  division by a zero scale has no result.
\<close>

partial_function (option) rle_edges ::
    "(nat \<Rightarrow> byte) \<Rightarrow> dword \<Rightarrow> dword \<Rightarrow> dword \<Rightarrow> libspectrum_tape \<Rightarrow> tape_block_state \<Rightarrow> rle_write_state
       \<Rightarrow> (libspectrum_error \<times> rle_write_state) option" where
  "rle_edges junk scale pulse_tstates balance_tstates tape it r = do {
     (e, tape, it, io) \<leftarrow> libspectrum_tape_get_next_edge_internal pulse_tstates tape (Some it);
     (if e \<noteq> ERROR_NONE then Some (e, r)
      else if scale = 0 then None
      else do {
        let balance = balance_tstates + tstates io;
        r \<leftarrow> write_pulse junk (balance div scale) r;
        it \<leftarrow> it;
        (if flags io AND FLAGS_BLOCK \<noteq> 0 then Some (ERROR_NONE, r)
         else rle_edges junk scale (tstates io) (balance mod scale) tape it r) }) }"

text \<open>\<open>it\<close> is the state of the caller, not initialised before; \<open>n\<close> the node of the block.\<close>

definition tzx_write_rle ::
    "(nat \<Rightarrow> byte) \<Rightarrow> rle_pulse_block \<Rightarrow> lbuffer \<Rightarrow> libspectrum_tape \<Rightarrow> nat \<Rightarrow> tape_block_state
       \<Rightarrow> lbuffer c_result" where
  "tzx_write_rle junk block b tape n it = do {
     let scale = word_of_int (rle_scale block);
     let r = \<lparr>bits_used = 0, rle_level = False, tape_buffer = (renew junk [] 8192)[0 := 0],
              rle_tape_length = 8192, rle_used = 0\<rparr>;
     let it = it\<lparr>current_block := Some n\<rparr>;
     (e, sts) \<leftarrow> libspectrum_tape_block_init (Some (RLE_PULSE block)) (block_state it);
     (if e \<noteq> ERROR_NONE then Some (e, b)
      else do {
        (e, r) \<leftarrow> rle_edges junk scale 0 0 tape (it\<lparr>block_state := sts\<rparr>) r;
        (if e \<noteq> ERROR_NONE then Some (e, b)
         else if rle_used r \<noteq> 0 \<or> bits_used r \<noteq> 0 then do {
           let (used, bits) = (if bits_used r \<noteq> 0 then (rle_used r + 1, bits_used r) else (rle_used r, 8));
           b \<leftarrow> tzx_write_raw_data junk \<lparr>rd_length = used, rd_bits_in_last_byte = word_of_nat bits,
                  rd_data = Some (tape_buffer r), rd_pause = 0, rd_pause_tstates = 0, rd_bit_length = scale\<rparr> b;
           Some (ERROR_NONE, b) }
         else Some (ERROR_NONE, b)) }) }"

section \<open>Pulse sequences and PZX data\<close>

definition add_pulses_block :: "(nat \<Rightarrow> byte) \<Rightarrow> size_t \<Rightarrow> dword list \<Rightarrow> lbuffer \<Rightarrow> lbuffer option" where
  "add_pulses_block junk pulse_count lengths b =
     tzx_write_pulses junk \<lparr>pulses_count = pulse_count, pulses_lengths = lengths\<rparr> b"

text \<open>
  The loop over the entries; \<open>queue\<close> holds the uncommitted pulses. The array for them grows in
  steps of 64, which has no effect on what is written.
\<close>

definition close_pulses :: "(nat \<Rightarrow> byte) \<Rightarrow> dword list \<Rightarrow> lbuffer \<Rightarrow> lbuffer option" where
  "close_pulses junk queue b =
     (if queue \<noteq> [] then add_pulses_block junk (word_of_nat (length queue)) queue b else Some b)"

fun sequence_pulses ::
    "(nat \<Rightarrow> byte) \<Rightarrow> pulse_sequence_block \<Rightarrow> nat \<Rightarrow> nat \<Rightarrow> dword list \<Rightarrow> lbuffer \<Rightarrow> lbuffer option" where
  "sequence_pulses junk block i 0 queue b = close_pulses junk queue b"
| "sequence_pulses junk block i (Suc n) queue b = do {
     pulse_repeats \<leftarrow> nget (ps_pulse_repeats block) i;
     len \<leftarrow> nget (ps_lengths block) i;
     (if pulse_repeats > 1 then do {
        b \<leftarrow> close_pulses junk queue b;
        b \<leftarrow> add_pure_tone_block junk b len pulse_repeats;
        sequence_pulses junk block (i + 1) n [] b }
      else sequence_pulses junk block (i + 1) n (queue @ [len]) b) }"

definition tzx_write_pulse_sequence ::
    "(nat \<Rightarrow> byte) \<Rightarrow> pulse_sequence_block \<Rightarrow> lbuffer \<Rightarrow> lbuffer option" where
  "tzx_write_pulse_sequence junk block b = do {
     b \<leftarrow> add_set_signal_level_block junk b 0;
     sequence_pulses junk block 0 (unat (ps_count block)) [] b }"

text \<open>Has a bit value other than two equal pulses? Evaluated from left to right.\<close>

definition not_two_pulses :: "size_t \<Rightarrow> lword list \<Rightarrow> bool option" where
  "not_two_pulses count pulses =
     (if count \<noteq> 2 then Some True
      else do { p0 \<leftarrow> nget pulses 0; p1 \<leftarrow> nget pulses 1; Some (p0 \<noteq> p1) })"

definition copy_pulses :: "size_t \<Rightarrow> lword list \<Rightarrow> lword list option" where
  "copy_pulses count pulses = (if unat count \<le> length pulses then Some (take (unat count) pulses) else None)"

definition data_block_tables :: "data_block \<Rightarrow> (symbol_table \<times> symbol_table) option" where
  "data_block_tables block = do {
     pulses0 \<leftarrow> copy_pulses (db_bit0_pulse_count block) (db_bit0_pulses block);
     pulses1 \<leftarrow> copy_pulses (db_bit1_pulse_count block) (db_bit1_pulses block);
     Some (no_table,
       \<lparr>symbols_in_block = ucast (db_count block),
        max_pulses = ucast (max (db_bit0_pulse_count block) (db_bit1_pulse_count block)),
        symbols_in_table = 2,
        symbols = [\<lparr>edge_type = 0, sym_lengths = pulses0\<rparr>, \<lparr>edge_type = 0, sym_lengths = pulses1\<rparr>]\<rparr>) }"

definition tzx_write_data_block :: "(nat \<Rightarrow> byte) \<Rightarrow> data_block \<Rightarrow> lbuffer \<Rightarrow> lbuffer c_result" where
  "tzx_write_data_block junk block b = do {
     b \<leftarrow> tzx_write_set_signal_level junk (db_initial_level block) b;
     not_two0 \<leftarrow> not_two_pulses (db_bit0_pulse_count block) (db_bit0_pulses block);
     not_two \<leftarrow> (if not_two0 then Some True
                else not_two_pulses (db_bit1_pulse_count block) (db_bit1_pulses block));
     on_ok
       (if not_two then do {
          (pilot, table) \<leftarrow> data_block_tables block;
          write_generalised_data_block junk ([], [], db_data block) b 1 pilot table 0 }
        else do {
          bit0 \<leftarrow> nget (db_bit0_pulses block) 0;
          bit1 \<leftarrow> nget (db_bit1_pulses block) 0;
          data \<leftarrow> memcpy_at (renew junk [] (unat (db_length block))) 0 (db_data block) (unat (db_length block));
          b \<leftarrow> tzx_write_data junk
            \<lparr>pd_length = db_length block, pd_bits_in_last_byte = db_bits_in_last_byte block,
             pd_data = data, pd_pause = 0, pd_pause_tstates = 0,
             pd_bit0_length = ucast bit0, pd_bit1_length = ucast bit1\<rparr> b;
          Some (ERROR_NONE, b) })
       (\<lambda>b. if db_tail_length block \<noteq> 0 then do {
          b \<leftarrow> add_pure_tone_block junk b (db_tail_length block) 1;
          Some (ERROR_NONE, b) }
        else Some (ERROR_NONE, b)) }"

section \<open>The file\<close>

definition written_ok :: "lbuffer option \<Rightarrow> lbuffer c_result" where
  "written_ok = map_option (Pair ERROR_NONE)"

definition tzx_write_block ::
    "(nat \<Rightarrow> byte) \<Rightarrow> libspectrum_tape \<Rightarrow> tape_block_state \<Rightarrow> nat \<times> libspectrum_tape_block \<Rightarrow> lbuffer
       \<Rightarrow> lbuffer c_result" where
  "tzx_write_block junk tape it node b =
     (case snd node of
        ROM block \<Rightarrow> written_ok (tzx_write_rom junk block b)
      | TURBO block \<Rightarrow> written_ok (tzx_write_turbo junk block b)
      | PURE_TONE block \<Rightarrow> written_ok (tzx_write_pure_tone junk block b)
      | PULSES block \<Rightarrow> written_ok (tzx_write_pulses junk block b)
      | PURE_DATA block \<Rightarrow> written_ok (tzx_write_data junk block b)
      | RAW_DATA block \<Rightarrow> written_ok (tzx_write_raw_data junk block b)
      | GENERALISED_DATA block \<Rightarrow> tzx_write_generalised_data junk block b
      | PAUSE block \<Rightarrow> written_ok (tzx_write_pause junk block b)
      | GROUP_START name \<Rightarrow> written_ok (tzx_write_group_start junk name b)
      | GROUP_END \<Rightarrow> written_ok (tzx_write_empty_block junk b 0x22)
      | JUMP jump \<Rightarrow> written_ok (tzx_write_jump junk jump b)
      | LOOP_START count \<Rightarrow> written_ok (tzx_write_loop_start junk count b)
      | LOOP_END \<Rightarrow> written_ok (tzx_write_empty_block junk b 0x25)
      | SELECT block \<Rightarrow> written_ok (tzx_write_select junk block b)
      | STOP48 \<Rightarrow> written_ok (tzx_write_stop junk b)
      | SET_SIGNAL_LEVEL level \<Rightarrow> written_ok (tzx_write_set_signal_level junk level b)
      | COMMENT text \<Rightarrow> written_ok (tzx_write_comment junk text b)
      | MESSAGE block \<Rightarrow> written_ok (tzx_write_message junk block b)
      | ARCHIVE_INFO block \<Rightarrow> written_ok (tzx_write_archive_info junk block b)
      | HARDWARE block \<Rightarrow> written_ok (tzx_write_hardware junk block b)
      | CUSTOM block \<Rightarrow> written_ok (tzx_write_custom junk block b)
      | RLE_PULSE block \<Rightarrow> tzx_write_rle junk block b tape (fst node) it
      | PULSE_SEQUENCE block \<Rightarrow> written_ok (tzx_write_pulse_sequence junk block b)
      | DATA_BLOCK block \<Rightarrow> tzx_write_data_block junk block b
      | CONCAT \<Rightarrow> Some (ERROR_LOGIC, b))"

text \<open>The iteration over the tape visits the nodes of the list in order.\<close>

fun tzx_write_loop ::
    "(nat \<Rightarrow> byte) \<Rightarrow> libspectrum_tape \<Rightarrow> tape_block_state \<Rightarrow> libspectrum_tape_block gslist \<Rightarrow> lbuffer
       \<Rightarrow> lbuffer c_result" where
  "tzx_write_loop junk tape it [] b = Some (ERROR_NONE, b)"
| "tzx_write_loop junk tape it (node # rest) b =
     on_ok (tzx_write_block junk tape it node b) (\<lambda>b. tzx_write_loop junk tape it rest b)"

definition internal_tzx_write ::
    "(nat \<Rightarrow> byte) \<Rightarrow> tape_block_state \<Rightarrow> lbuffer \<Rightarrow> libspectrum_tape \<Rightarrow> lbuffer c_result" where
  "internal_tzx_write junk it b tape = do {
     b \<leftarrow> libspectrum_buffer_write junk b libspectrum_tzx_signature
            (word_of_nat (length libspectrum_tzx_signature));
     b \<leftarrow> libspectrum_buffer_write_byte junk b 1;
     b \<leftarrow> libspectrum_buffer_write_byte junk b 20;
     tzx_write_loop junk tape it (tape_blocks tape) b }"

end
