(* ===== verification/Tzx_Format.thy ===== *)
theory Tzx_Format
  imports Tzx_Write
begin

text \<open>
  The \<open>.tzx\<close> format: the bytes of each block, which blocks the format can hold, and the reader on
  these bytes.
\<close>

section \<open>Numbers\<close>

fun size_bytes :: "nat \<Rightarrow> size_t \<Rightarrow> byte list" where
  "size_bytes 0 n = []"
| "size_bytes (Suc k) n = ucast (n AND 0xff) # size_bytes k (drop_bit 8 n)"

lemma length_size_bytes [simp]: "length (size_bytes k n) = k"
  by (induction k arbitrary: n) simp_all

lemma puts_length: "buf.puts (\<lambda>b. tzx_write_length junk b k n) (size_bytes k n)"
proof (induction k arbitrary: n)
  case 0
  show ?case using buf.puts_nothing by simp
next
  case (Suc k)
  show ?case using buf.puts_seq [OF puts_byte Suc.IH] by simp
qed

lemma puts_bytes:
  assumes "unat len \<le> length data"
  shows "buf.puts (\<lambda>b. tzx_write_bytes junk b len k data) (size_bytes k len @ take (unat len) data)"
  unfolding tzx_write_bytes_def by (intro buf.puts_seq puts_length puts_data assms)

lemma unat_ucast_small:
  "unat (w :: 'a::len word) < 2 ^ LENGTH('b::len) \<Longrightarrow> unat (ucast w :: 'b word) = unat w"
  by (simp add: unsigned_ucast_eq unsigned_take_bit_eq take_bit_nat_eq_self)

lemma low_byte_nat: "unat (ucast ((n :: size_t) AND 0xff) :: byte) = unat n mod 256"
proof -
  have m: "(0xff :: size_t) = mask 8" by (simp add: mask_eq_exp_minus_1)
  have "(ucast (n AND 0xff) :: byte) = ucast n"
    unfolding m by (rule bit_word_eqI) (auto simp: bit_simps)
  then show ?thesis by (simp add: unsigned_ucast_eq unsigned_take_bit_eq take_bit_eq_mod)
qed

lemma drop_byte_nat: "unat (drop_bit 8 (n :: size_t)) = unat n div 256"
  by (simp add: drop_bit_eq_div unat_div_distrib)

lemma data_length_bytes:
  assumes "j + k \<le> 4"
  shows "tzx_data_length k (2 ^ (8 * j)) acc (size_bytes k n @ rest) =
    Some (acc + word_of_nat (256 ^ j * (unat n mod 256 ^ k)), rest)"
  using assms
proof (induction k arbitrary: j acc n)
  case (Suc k)
  let ?b = "ucast (n AND 0xff) :: byte"
  have j: "j \<le> 3" using Suc.prems by simp
  have pow: "(2 :: nat) ^ (8 * j) = 256 ^ j" by (simp add: power_mult)
  have "256 ^ j \<le> (256 :: nat) ^ 3" using j by (intro power_increasing) auto
  moreover have "unat ?b \<le> 255" using unat_byte [of ?b] by simp
  ultimately have "unat ?b * 256 ^ j \<le> 255 * 256 ^ 3" by (intro mult_mono) auto
  then have small: "unat ?b * 256 ^ j < 2 ^ 32" by simp
  have size: "K < 2 ^ 32 \<Longrightarrow> unat (word_of_nat K :: size_t) = K" for K
    by (simp add: unat_of_nat)
  have m: "unat (2 ^ (8 * j) :: dword) = 256 ^ j"
  proof -
    have "j = 0 \<or> j = 1 \<or> j = 2 \<or> j = 3" using j by linarith
    then show ?thesis by auto
  qed
  have "unat (ucast ?b * 2 ^ (8 * j) :: dword) = unat ?b * 256 ^ j"
    using small m by (subst unat_mult_lem [THEN iffD1]) auto
  then have digit: "(ucast (ucast ?b * 2 ^ (8 * j) :: dword) :: size_t) = word_of_nat (256 ^ j * (unat n mod 256))"
    using size [OF small] by (simp only: word_unat_eq_iff unat_to_size low_byte_nat mult.commute)
  have next_m: "2 ^ (8 * j) * 0x100 = (2 ^ (8 * (j + 1)) :: dword)" by (simp add: power_add)
  have "256 ^ j * (unat n mod 256 ^ Suc k) =
      256 ^ j * (unat n mod 256) + 256 ^ (j + 1) * ((unat n div 256) mod 256 ^ k)"
    by (simp add: mod_mult2_eq algebra_simps)
  then have split: "word_of_nat (256 ^ j * (unat n mod 256 ^ Suc k)) =
      word_of_nat (256 ^ j * (unat n mod 256)) +
      (word_of_nat (256 ^ (j + 1) * ((unat n div 256) mod 256 ^ k)) :: size_t)"
    by (simp only: of_nat_add)
  have "tzx_data_length k (2 ^ (8 * j) * 0x100) acc1 (size_bytes k (drop_bit 8 n) @ rest) =
      Some (acc1 + word_of_nat (256 ^ (j + 1) * ((unat n div 256) mod 256 ^ k)), rest)" for acc1
    unfolding next_m drop_byte_nat [symmetric] by (rule Suc.IH) (use Suc.prems in simp)
  then show ?case unfolding split
    by (simp only: tzx_data_length.simps size_bytes.simps append_Cons tzx_byte.simps bind.bind_lunit
        prod.case digit add.assoc)
qed simp

lemma read_length_bytes:
  assumes "k \<le> 4" "unat n < 256 ^ k"
  shows "tzx_data_length k 1 0 (size_bytes k n @ rest) = Some (n, rest)"
  using data_length_bytes [of 0 k 0 n rest] assms by simp

lemma data_of_take [simp]: "data_of (if d = [] then None else Some d) = d"
  by (simp add: data_of_def)

lemma read_data_bytes:
  assumes "k \<le> 4" "length d = unat n" "unat n < 256 ^ k"
  shows "tzx_read_data (size_bytes k n @ d @ rest) (int k) =
    Some (ERROR_NONE, n, (if d = [] then None else Some d), rest)"
proof -
  have "256 ^ k \<le> (256 :: nat) ^ 4" using assms(1) by (intro power_increasing) auto
  then have "unat n < 2 ^ 63" using assms(3) by simp
  then have "sint n = int (unat n)"
    by (simp add: sint_uint uint_nat signed_take_bit_int_eq_self del: of_nat_unat)
  moreover have "d = [] \<longleftrightarrow> n = 0" using assms(2) by (metis length_0_conv unat_eq_0)
  ultimately show ?thesis using read_length_bytes [OF assms(1,3), of "d @ rest"] assms(2)
    by (auto simp: tzx_read_data_def memcpy_at_def Let_def simp del: of_nat_unat)
qed

section \<open>Words\<close>

definition w16 :: "dword \<Rightarrow> byte list" where
  "w16 w = word_bytes (ucast w)"

lemma length_w16 [simp]: "length (w16 w) = 2"
  by (simp add: w16_def)

lemma read_word_bytes: "tzx_word (word_bytes v @ rest) = Some (ucast v, rest)"
proof -
  let ?a = "ucast (v AND 0xff) :: byte" and ?b = "ucast (drop_bit 8 v) :: byte"
  have "unat (ucast ?a + ucast ?b * 0x100 :: lword) = unat ?a + unat ?b * 256"
    using unat_byte [of ?a] unat_byte [of ?b] unat_ucast_small [of ?a, where 'b = 16]
      unat_ucast_small [of ?b, where 'b = 16]
    by (simp add: unat_word_ariths)
  moreover have "unat (ucast ?a + ucast ?b * 0x100 :: dword) = unat ?a + unat ?b * 256"
    using unat_byte [of ?a] unat_byte [of ?b] by (simp add: unat_word_ariths)
  ultimately have "unat (ucast ?a + ucast ?b * 0x100 :: dword) = unat v"
    by (simp only: paste2_split)
  moreover have "unat (ucast v :: dword) = unat v"
    using unsigned_less [of v, where 'a = nat] by (intro unat_ucast_small) simp
  ultimately have "ucast ?a + ucast ?b * 0x100 = (ucast v :: dword)"
    by (simp only: word_unat_eq_iff)
  then show ?thesis by (simp add: word_bytes_def)
qed

lemma ucast_16_32: "unat w < 65536 \<Longrightarrow> (ucast (ucast (w :: dword) :: lword) :: dword) = w"
  by (simp add: word_unat_eq_iff unat_ucast_small)

lemma read_w16 [simp]: "unat w < 65536 \<Longrightarrow> tzx_word (w16 w @ rest) = Some (w, rest)"
  by (simp add: w16_def read_word_bytes ucast_16_32)

lemma ucast_64_16_32:
  "unat n < 65536 \<Longrightarrow> (ucast (ucast (ucast (n :: size_t) :: lword) :: dword) :: size_t) = n"
  by (simp add: word_unat_eq_iff unat_ucast_small)

lemma ucast_64_8_32:
  "unat n < 256 \<Longrightarrow> (ucast (ucast (ucast (n :: size_t) :: byte) :: dword) :: size_t) = n"
  by (simp add: word_unat_eq_iff unat_ucast_small)

section \<open>Strings\<close>

text \<open>A terminated text without carriage returns that fits a length byte.\<close>

definition text_ok :: "byte list \<Rightarrow> bool" where
  "text_ok s \<longleftrightarrow> s \<noteq> [] \<and> List.last s = 0 \<and> 0 \<notin> set (butlast s) \<and> 0x0d \<notin> set (butlast s) \<and>
     length s \<le> 256"

definition stored_char :: "byte \<Rightarrow> byte" where
  "stored_char c = (if c = 0x0a then 0x0d else c)"

definition string_bytes :: "byte list \<Rightarrow> byte list" where
  "string_bytes s = word_of_nat (length s - 1) # map stored_char (butlast s)"

lemma text_okE:
  assumes "text_ok s"
  obtains t where "s = t @ [0]" "0 \<notin> set t" "0x0d \<notin> set t" "length t < 256"
  using assms by (cases s rule: rev_cases) (auto simp: text_ok_def)

lemma strlen_text: "0 \<notin> set t \<Longrightarrow> strlen (t @ [0]) = Some (length t)"
  by (auto simp: strlen_def takeWhile_append)

lemma puts_chars:
  "buf.puts (\<lambda>b. tzx_write_chars junk b (t @ [0]) 0 (length t)) (map stored_char t)"
proof -
  have step: "buf.puts (\<lambda>b. nget (t @ [0]) i \<bind> (\<lambda>c.
      libspectrum_buffer_write_byte junk b (if c = 0x0a then 0x0d else c))) [stored_char (t ! i)]"
    if "i < length t" for i
    using that puts_byte by (simp add: nget_def nth_append stored_char_def)
  have "buf.puts (\<lambda>b. tzx_write_chars junk b (t @ [0]) 0 (length t))
      (concat (map (\<lambda>i. [stored_char (t ! i)]) [0..<0 + length t]))"
    by (rule buf.puts_loop [where step = "\<lambda>i b. nget (t @ [0]) i \<bind> (\<lambda>c.
        libspectrum_buffer_write_byte junk b (if c = 0x0a then 0x0d else c))" and m = "length t"])
      (use step in simp_all)
  moreover have "concat (map (\<lambda>i. [stored_char (t ! i)]) [0..<0 + length t]) = map stored_char t"
    by (simp add: concat_map_singleton) (rule nth_equalityI, simp_all)
  ultimately show ?thesis by simp
qed

lemma puts_string:
  assumes "text_ok s"
  shows "buf.puts (\<lambda>b. tzx_write_string junk b s) (string_bytes s)"
proof -
  obtain t where t: "s = t @ [0]" "0 \<notin> set t" "length t < 256" using assms by (rule text_okE)
  then have "string_bytes s = [word_of_nat (length t)] @ map stored_char t"
    by (simp add: string_bytes_def)
  then show ?thesis using t strlen_text [OF t(2)] buf.puts_seq [OF puts_byte puts_chars]
    by (simp add: tzx_write_string_def Let_def)
qed

lemma translate_stored:
  "0 \<notin> set t \<Longrightarrow> 0x0d \<notin> set t \<Longrightarrow> translate_line_endings (map stored_char t @ [0]) = Some (t @ [0])"
  by (induction t) (auto simp: stored_char_def)

lemma read_string_bytes:
  assumes "text_ok s"
  shows "tzx_read_string (string_bytes s @ rest) = Some (ERROR_NONE, s, rest)"
proof -
  obtain t where t: "s = t @ [0]" "0 \<notin> set t" "0x0d \<notin> set t" "length t < 256"
    using assms by (rule text_okE)
  let ?n = "ucast (ucast (word_of_nat (length t) :: byte) :: dword) :: size_t"
  have n: "unat ?n = length t" using t(4) by (simp add: unat_of_nat)
  then have "sint ?n = int (length t)"
    using t(4) by (simp add: sint_uint uint_nat signed_take_bit_int_eq_self del: of_nat_unat)
  moreover have "drop (length t) (0 # replicate (length t) 0) = [0 :: byte]"
    using drop_replicate [of "length t" "Suc (length t)" "0 :: byte"] by simp
  ultimately have "tzx_read_data (string_bytes s @ rest) (-1) =
      Some (ERROR_NONE, ?n, Some (map stored_char t @ [0]), rest)"
    using n t by (simp add: tzx_read_data_def string_bytes_def memcpy_at_def Let_def del: of_nat_unat)
  then show ?thesis using t n translate_stored [OF t(2,3)]
    by (simp add: tzx_read_string_def nset_def list_update_append)
qed

section \<open>The bytes of a block\<close>

declare tzx_byte_there [simp del] tzx_word_there [simp del]

text \<open>A symbol table: its parameters, and its symbols when it has any in the block.\<close>

definition table_bytes :: "symbol_table \<Rightarrow> byte list" where
  "table_bytes t = dword_bytes (symbols_in_block t) @
     [max_pulses t, if symbols_in_table t = 256 then 0 else ucast (symbols_in_table t)]"

definition symbol_bytes :: "generalised_data_symbol \<Rightarrow> byte list" where
  "symbol_bytes s = edge_type s # concat (map word_bytes (sym_lengths s))"

definition symbols_bytes :: "symbol_table \<Rightarrow> byte list" where
  "symbols_bytes t = (if symbols_in_block t = 0 then [] else concat (map symbol_bytes (symbols t)))"

definition pilot_bytes :: "byte list \<Rightarrow> lword list \<Rightarrow> byte list" where
  "pilot_bytes ss rs = concat (map (\<lambda>(s, r). s # word_bytes r) (zip ss rs))"

definition generalised_payload :: "generalised_data_block \<Rightarrow> byte list" where
  "generalised_payload b = w16 (gd_pause b) @ table_bytes (pilot_table b) @ table_bytes (data_table b) @
     symbols_bytes (pilot_table b) @ pilot_bytes (pilot_symbols b) (pilot_repeats b) @
     symbols_bytes (data_table b) @ gd_data b"

definition info_bytes :: "int list \<Rightarrow> byte list list \<Rightarrow> byte list" where
  "info_bytes is ss = concat (map (\<lambda>(i, s). word_of_int i # string_bytes s) (zip is ss))"

definition hardware_bytes :: "int list \<Rightarrow> int list \<Rightarrow> int list \<Rightarrow> byte list" where
  "hardware_bytes ts is vs =
     concat (map (\<lambda>(t, i, v). [word_of_int t, word_of_int i, word_of_int v]) (zip ts (zip is vs)))"

definition texts_length :: "byte list list \<Rightarrow> nat" where
  "texts_length ss = (\<Sum>s\<leftarrow>ss. length s - 1)"

fun tzx_id :: "libspectrum_tape_block \<Rightarrow> byte" where
  "tzx_id (ROM _) = 0x10"
| "tzx_id (TURBO _) = 0x11"
| "tzx_id (PURE_TONE _) = 0x12"
| "tzx_id (PULSES _) = 0x13"
| "tzx_id (PURE_DATA _) = 0x14"
| "tzx_id (RAW_DATA _) = 0x15"
| "tzx_id (GENERALISED_DATA _) = 0x19"
| "tzx_id (PAUSE _) = 0x20"
| "tzx_id (GROUP_START _) = 0x21"
| "tzx_id GROUP_END = 0x22"
| "tzx_id (JUMP _) = 0x23"
| "tzx_id (LOOP_START _) = 0x24"
| "tzx_id LOOP_END = 0x25"
| "tzx_id (SELECT _) = 0x28"
| "tzx_id STOP48 = 0x2a"
| "tzx_id (SET_SIGNAL_LEVEL _) = 0x2b"
| "tzx_id (COMMENT _) = 0x30"
| "tzx_id (MESSAGE _) = 0x31"
| "tzx_id (ARCHIVE_INFO _) = 0x32"
| "tzx_id (HARDWARE _) = 0x33"
| "tzx_id (CUSTOM _) = 0x35"
| "tzx_id _ = 0x5a"

fun tzx_payload :: "libspectrum_tape_block \<Rightarrow> byte list" where
  "tzx_payload (ROM b) = w16 (rom_pause b) @ size_bytes 2 (rom_length b) @ rom_data b"
| "tzx_payload (TURBO b) = w16 (turbo_pilot_length b) @ w16 (turbo_sync1_length b) @
     w16 (turbo_sync2_length b) @ w16 (turbo_bit0_length b) @ w16 (turbo_bit1_length b) @
     word_bytes (ucast (turbo_pilot_pulses b)) @ [ucast (turbo_bits_in_last_byte b)] @
     w16 (turbo_pause b) @ size_bytes 3 (turbo_length b) @ turbo_data b"
| "tzx_payload (PURE_TONE b) = w16 (tone_length b) @ word_bytes (ucast (tone_pulses b))"
| "tzx_payload (PULSES b) = [ucast (pulses_count b)] @ concat (map w16 (pulses_lengths b))"
| "tzx_payload (PURE_DATA b) = w16 (pd_bit0_length b) @ w16 (pd_bit1_length b) @
     [ucast (pd_bits_in_last_byte b)] @ w16 (pd_pause b) @ size_bytes 3 (pd_length b) @ pd_data b"
| "tzx_payload (RAW_DATA b) = w16 (rd_bit_length b) @ w16 (rd_pause b) @
     [ucast (rd_bits_in_last_byte b)] @ size_bytes 3 (rd_length b) @ data_of (rd_data b)"
| "tzx_payload (GENERALISED_DATA b) =
     dword_bytes (word_of_nat (length (generalised_payload b))) @ generalised_payload b"
| "tzx_payload (PAUSE b) = w16 (pause_length b)"
| "tzx_payload (GROUP_START s) = string_bytes s"
| "tzx_payload (JUMP j) = word_bytes (word_of_int (if j < 0 then j + 65536 else j))"
| "tzx_payload (LOOP_START c) = word_bytes (word_of_int c)"
| "tzx_payload STOP48 = dword_bytes 0"
| "tzx_payload (SET_SIGNAL_LEVEL l) = dword_bytes 1 @ [word_of_int l]"
| "tzx_payload (COMMENT s) = string_bytes s"
| "tzx_payload (MESSAGE b) = [word_of_int (message_time b)] @ string_bytes (message_text b)"
| "tzx_payload (ARCHIVE_INFO b) =
     word_bytes (ucast (1 + 2 * ai_count b + word_of_nat (texts_length (ai_strings b)))) @
     [ucast (ai_count b)] @ info_bytes (ai_ids b) (ai_strings b)"
| "tzx_payload (HARDWARE b) = [ucast (hw_count b)] @ hardware_bytes (hw_types b) (hw_ids b) (hw_values b)"
| "tzx_payload (CUSTOM b) = take 16 (custom_description b) @ size_bytes 4 (custom_length b) @ custom_data b"
| "tzx_payload _ = []"

text \<open>The pause of a block fits 16 bits and is the same in T-states.\<close>

definition pause_ok :: "dword \<Rightarrow> dword \<Rightarrow> bool" where
  "pause_ok p t \<longleftrightarrow> unat p < 65536 \<and> t = libspectrum_ms_to_tstates p"

definition table_ok :: "symbol_table \<Rightarrow> bool" where
  "table_ok t \<longleftrightarrow>
     (if symbols_in_block t = 0 then unat (symbols_in_table t) < 256 \<and> symbols t = []
      else 0 < unat (symbols_in_table t) \<and> unat (symbols_in_table t) \<le> 256 \<and>
        length (symbols t) = unat (symbols_in_table t) \<and>
        list_all (\<lambda>s. length (sym_lengths s) = unat (max_pulses t)) (symbols t))"

text \<open>
  The blocks the format can hold and the reader gives back unchanged. Left out are pauses that
  are not low (written as other blocks), selections (the writer stores a wrong length), messages
  with a time (stored in milliseconds but read as seconds) and the blocks of other formats.
\<close>

fun tzx_exact :: "libspectrum_tape_block \<Rightarrow> bool" where
  "tzx_exact (ROM b) \<longleftrightarrow> pause_ok (rom_pause b) (rom_pause_tstates b) \<and>
     length (rom_data b) = unat (rom_length b) \<and> length (rom_data b) < 65536"
| "tzx_exact (TURBO b) \<longleftrightarrow> pause_ok (turbo_pause b) (turbo_pause_tstates b) \<and>
     length (turbo_data b) = unat (turbo_length b) \<and> length (turbo_data b) < 2 ^ 24 \<and>
     unat (turbo_bits_in_last_byte b) \<le> 8 \<and>
     (turbo_bits_in_last_byte b = 0 \<longrightarrow> turbo_data b = []) \<and>
     unat (turbo_pilot_length b) < 65536 \<and> unat (turbo_sync1_length b) < 65536 \<and>
     unat (turbo_sync2_length b) < 65536 \<and> unat (turbo_bit0_length b) < 65536 \<and>
     unat (turbo_bit1_length b) < 65536 \<and> unat (turbo_pilot_pulses b) < 65536"
| "tzx_exact (PURE_TONE b) \<longleftrightarrow> unat (tone_length b) < 65536 \<and> unat (tone_pulses b) < 65536"
| "tzx_exact (PULSES b) \<longleftrightarrow> length (pulses_lengths b) = unat (pulses_count b) \<and>
     length (pulses_lengths b) < 256 \<and> list_all (\<lambda>w. unat w < 65536) (pulses_lengths b)"
| "tzx_exact (PURE_DATA b) \<longleftrightarrow> pause_ok (pd_pause b) (pd_pause_tstates b) \<and>
     length (pd_data b) = unat (pd_length b) \<and> length (pd_data b) < 2 ^ 24 \<and>
     unat (pd_bits_in_last_byte b) \<le> 8 \<and>
     (pd_bits_in_last_byte b = 0 \<longrightarrow> length (pd_data b) \<le> 1) \<and>
     unat (pd_bit0_length b) < 65536 \<and> unat (pd_bit1_length b) < 65536"
| "tzx_exact (RAW_DATA b) \<longleftrightarrow> pause_ok (rd_pause b) (rd_pause_tstates b) \<and>
     length (data_of (rd_data b)) = unat (rd_length b) \<and> length (data_of (rd_data b)) < 2 ^ 24 \<and>
     rd_data b \<noteq> Some [] \<and> unat (rd_bits_in_last_byte b) \<le> 8 \<and>
     (rd_bits_in_last_byte b = 0 \<longrightarrow> rd_data b = None) \<and> unat (rd_bit_length b) < 65536"
| "tzx_exact (GENERALISED_DATA b) \<longleftrightarrow> pause_ok (gd_pause b) (gd_pause_tstates b) \<and>
     table_ok (pilot_table b) \<and> table_ok (data_table b) \<and>
     length (pilot_symbols b) = unat (symbols_in_block (pilot_table b)) \<and>
     length (pilot_repeats b) = unat (symbols_in_block (pilot_table b)) \<and>
     0 < unat (symbols_in_block (pilot_table b)) \<and> 0 < unat (symbols_in_table (data_table b)) \<and>
     tzx_bits_per_symbol (symbols_in_table (data_table b)) = Some (unat (bits_per_data_symbol b)) \<and>
     length (gd_data b) =
       (unat (bits_per_data_symbol b) * unat (symbols_in_block (data_table b)) + 7) div 8 \<and>
     length (generalised_payload b) < 2 ^ 28"
| "tzx_exact (PAUSE b) \<longleftrightarrow> pause_level b = 0 \<and> pause_ok (pause_length b) (pause_length_tstates b)"
| "tzx_exact (GROUP_START s) \<longleftrightarrow> text_ok s"
| "tzx_exact GROUP_END \<longleftrightarrow> True"
| "tzx_exact (JUMP j) \<longleftrightarrow> -32768 \<le> j \<and> j < 32768"
| "tzx_exact (LOOP_START c) \<longleftrightarrow> 0 \<le> c \<and> c < 65536"
| "tzx_exact LOOP_END \<longleftrightarrow> True"
| "tzx_exact STOP48 \<longleftrightarrow> True"
| "tzx_exact (SET_SIGNAL_LEVEL l) \<longleftrightarrow> l = 0 \<or> l = 1"
| "tzx_exact (COMMENT s) \<longleftrightarrow> text_ok s"
| "tzx_exact (MESSAGE b) \<longleftrightarrow> message_time b = 0 \<and> message_time_tstates b = 0 \<and> text_ok (message_text b)"
| "tzx_exact (ARCHIVE_INFO b) \<longleftrightarrow> length (ai_ids b) = unat (ai_count b) \<and>
     length (ai_strings b) = unat (ai_count b) \<and> unat (ai_count b) < 256 \<and>
     list_all (\<lambda>i. 0 \<le> i \<and> i < 256) (ai_ids b) \<and> list_all text_ok (ai_strings b)"
| "tzx_exact (HARDWARE b) \<longleftrightarrow> length (hw_types b) = unat (hw_count b) \<and>
     length (hw_ids b) = unat (hw_count b) \<and> length (hw_values b) = unat (hw_count b) \<and>
     unat (hw_count b) < 256 \<and> list_all (\<lambda>i. 0 \<le> i \<and> i < 256) (hw_types b) \<and>
     list_all (\<lambda>i. 0 \<le> i \<and> i < 256) (hw_ids b) \<and> list_all (\<lambda>i. 0 \<le> i \<and> i < 256) (hw_values b)"
| "tzx_exact (CUSTOM b) \<longleftrightarrow> length (custom_description b) = 17 \<and> List.last (custom_description b) = 0 \<and>
     length (custom_data b) = unat (custom_length b) \<and> length (custom_data b) < 2 ^ 32"
| "tzx_exact _ \<longleftrightarrow> False"

section \<open>Reading the bytes of a block\<close>

lemma int_2_4: "int 2 = 2" "int 3 = 3" "int 4 = 4" by simp_all

lemmas read_data_2 = read_data_bytes [of 2, unfolded int_2_4, simplified]
lemmas read_data_3 = read_data_bytes [of 3, unfolded int_2_4, simplified]
lemmas read_data_4 = read_data_bytes [of 4, unfolded int_2_4, simplified]

lemma then_ok [simp]: "tzx_then (Some (ERROR_NONE, x)) s f = f x"
  by (simp add: tzx_then_def)

lemma read_rom:
  "tzx_exact (ROM b) \<Longrightarrow>
     tzx_read_rom_block n tape (tzx_payload (ROM b) @ rest) = tzx_append n tape (ROM b) rest"
  by (cases b) (simp add: tzx_read_rom_block_def pause_ok_def read_data_2 Let_def
      libspectrum_set_pause_ms_def)

lemma bits_kept:
  assumes "unat (bits :: size_t) \<le> 8" "bits = 0 \<Longrightarrow> unat len < unat k"
  shows "tzx_bits k (ucast (ucast bits :: byte)) len = (ucast (ucast bits :: byte), len)"
    "ucast (ucast (ucast bits :: byte) :: dword) = bits"
proof -
  let ?bits = "ucast (ucast bits :: byte) :: dword"
  have u: "unat ?bits = unat bits" "(ucast ?bits :: size_t) = bits"
    using assms(1) by (simp_all add: unat_ucast_small word_unat_eq_iff)
  then show "ucast ?bits = bits" by simp
  have "\<not> 8 < ?bits" using u(1) assms(1) by (simp add: word_less_nat_alt)
  moreover have "\<not> k \<le> len" if "?bits = 0"
    using that u(1) assms(2) by (auto simp: word_unat_eq_iff word_le_nat_alt)
  ultimately show "tzx_bits k ?bits len = (?bits, len)"
    by (auto simp: tzx_bits_def)
qed

lemma read_turbo:
  assumes "tzx_exact (TURBO b)"
  shows "tzx_read_turbo_block n tape (tzx_payload (TURBO b) @ rest) = tzx_append n tape (TURBO b) rest"
proof -
  have "unat (turbo_bits_in_last_byte b) \<le> 8" "turbo_bits_in_last_byte b = 0 \<Longrightarrow> unat (turbo_length b) < unat (1 :: size_t)"
    using assms by auto
  note bits = bits_kept [OF this]
  show ?thesis using assms bits
    by (cases b) (simp add: tzx_read_turbo_block_def pause_ok_def read_data_3 Let_def
      libspectrum_set_pause_ms_def read_word_bytes ucast_64_16_32)
qed

lemma read_pure_tone:
  "tzx_exact (PURE_TONE b) \<Longrightarrow>
     tzx_read_pure_tone n tape (tzx_payload (PURE_TONE b) @ rest) = tzx_append n tape (PURE_TONE b) rest"
  by (cases b) (simp add: tzx_read_pure_tone_def read_word_bytes ucast_64_16_32)

lemma read_w16s:
  "list_all (\<lambda>w. unat w < 65536) ws \<Longrightarrow> tzx_words (length ws) (concat (map w16 ws) @ rest) = Some (ws, rest)"
  by (induction ws) simp_all

lemma length_w16s [simp]: "length (concat (map w16 ws)) = 2 * length ws"
  by (induction ws) simp_all

lemma count_byte:
  assumes "unat (count :: size_t) < 256"
  shows "unat (ucast count :: byte) = unat count" "ucast (ucast (ucast count :: byte) :: dword) = count"
  using assms by (simp_all add: unat_ucast_small ucast_64_8_32)

lemma read_pulses:
  assumes "tzx_exact (PULSES b)"
  shows "tzx_read_pulses_block n tape (tzx_payload (PULSES b) @ rest) = tzx_append n tape (PULSES b) rest"
proof -
  have "unat (pulses_count b) < 256" using assms by simp
  note count = count_byte [OF this]
  have "tzx_words (unat (pulses_count b)) (concat (map w16 (pulses_lengths b)) @ rest) =
      Some (pulses_lengths b, rest)"
    using read_w16s [of "pulses_lengths b" rest] assms by simp
  then show ?thesis using assms count by (cases b) (simp add: tzx_read_pulses_block_def)
qed

lemma read_pure_data:
  assumes "tzx_exact (PURE_DATA b)"
  shows "tzx_read_pure_data n tape (tzx_payload (PURE_DATA b) @ rest) = tzx_append n tape (PURE_DATA b) rest"
proof -
  have "unat (pd_bits_in_last_byte b) \<le> 8" "pd_bits_in_last_byte b = 0 \<Longrightarrow> unat (pd_length b) < unat (2 :: size_t)"
    using assms by auto
  note bits = bits_kept [OF this]
  show ?thesis using assms bits
    by (cases b) (simp add: tzx_read_pure_data_def pause_ok_def read_data_3 Let_def
      libspectrum_set_pause_ms_def)
qed

lemma read_raw_data:
  assumes "tzx_exact (RAW_DATA b)"
  shows "tzx_read_raw_data n tape (tzx_payload (RAW_DATA b) @ rest) = tzx_append n tape (RAW_DATA b) rest"
proof -
  have "rd_data b = None \<Longrightarrow> rd_length b = 0"
    using assms by (auto simp: data_of_def word_unat_eq_iff)
  then have "unat (rd_bits_in_last_byte b) \<le> 8" "rd_bits_in_last_byte b = 0 \<Longrightarrow> unat (rd_length b) < unat (1 :: size_t)"
    using assms by auto
  note bits = bits_kept [OF this]
  have "data_of (rd_data b) = [] \<and> rd_data b = None \<or>
      data_of (rd_data b) \<noteq> [] \<and> rd_data b = Some (data_of (rd_data b))"
    using assms by (auto simp: data_of_def split: option.splits)
  then show ?thesis using assms bits
    by (cases b) (elim disjE; simp add: tzx_read_raw_data_def pause_ok_def read_data_3 Let_def
      libspectrum_set_pause_ms_def)
qed

lemma read_pause:
  "tzx_exact (PAUSE b) \<Longrightarrow>
     tzx_read_pause n tape (tzx_payload (PAUSE b) @ rest) = tzx_append n tape (PAUSE b) rest"
  by (cases b) (simp add: tzx_read_pause_def pause_ok_def libspectrum_set_pause_ms_def)

lemma string_bytes_Cons [simp]: "string_bytes s \<noteq> []"
  by (simp add: string_bytes_def)

lemma read_group_start:
  "tzx_exact (GROUP_START s) \<Longrightarrow>
     tzx_read_group_start n tape (tzx_payload (GROUP_START s) @ rest) = tzx_append n tape (GROUP_START s) rest"
  by (simp add: tzx_read_group_start_def read_string_bytes)

lemma unat_small_int: "0 \<le> i \<Longrightarrow> i < 65536 \<Longrightarrow> int (unat (ucast (word_of_int i :: lword) :: dword)) = i"
  by (simp add: unat_ucast_small unsigned_of_int take_bit_int_eq_self)

lemma read_jump:
  assumes "tzx_exact (JUMP j)"
  shows "tzx_read_jump n tape (tzx_payload (JUMP j) @ rest) = tzx_append n tape (JUMP j) rest"
proof -
  define u where "u = (if j < 0 then j + 65536 else j)"
  have u: "0 \<le> u" "u < 65536" "(if 32768 \<le> u then u - 65536 else u) = j"
    using assms by (auto simp: u_def)
  have small: "unat (ucast (word_of_int u :: lword) :: dword) = nat u"
    using u by (simp add: unat_ucast_small unsigned_of_int take_bit_int_eq_self)
  have "tzx_read_jump n tape (word_bytes (word_of_int u) @ rest) =
      tzx_append n tape (JUMP (if 32768 \<le> u then u - 65536 else u)) rest"
    using small u(1)
    by (simp add: tzx_read_jump_def read_word_bytes le_nat_iff Let_def del: of_nat_unat)
  then show ?thesis by (simp only: tzx_payload.simps u_def [symmetric] u(3))
qed

lemma read_loop_start:
  "tzx_exact (LOOP_START c) \<Longrightarrow>
     tzx_read_loop_start n tape (tzx_payload (LOOP_START c) @ rest) = tzx_append n tape (LOOP_START c) rest"
  by (simp add: tzx_read_loop_start_def read_word_bytes unat_small_int del: of_nat_unat)

lemma read_stop:
  "tzx_read_stop n tape (tzx_payload STOP48 @ rest) = tzx_append n tape STOP48 rest"
  by (simp add: tzx_read_stop_def)

lemma read_set_signal_level:
  "tzx_exact (SET_SIGNAL_LEVEL l) \<Longrightarrow>
     tzx_read_set_signal_level n tape (tzx_payload (SET_SIGNAL_LEVEL l) @ rest) =
       tzx_append n tape (SET_SIGNAL_LEVEL l) rest"
  by (auto simp: tzx_read_set_signal_level_def)

lemma read_comment:
  "tzx_exact (COMMENT s) \<Longrightarrow>
     tzx_read_comment n tape (tzx_payload (COMMENT s) @ rest) = tzx_append n tape (COMMENT s) rest"
  by (simp add: tzx_read_comment_def read_string_bytes)

lemma length_string_bytes: "1 \<le> length (string_bytes s)"
  by (simp add: string_bytes_def)

lemma read_message:
  assumes "tzx_exact (MESSAGE b)"
  shows "tzx_read_message n tape (tzx_payload (MESSAGE b) @ rest) = tzx_append n tape (MESSAGE b) rest"
proof -
  have "\<not> length (0 # string_bytes (message_text b) @ rest) < 2"
    using length_string_bytes [of "message_text b"] by (simp add: not_less)
  then show ?thesis using assms
    by (cases b) (simp add: tzx_read_message_def read_string_bytes libspectrum_set_pause_ms_def
        libspectrum_ms_to_tstates_def)
qed

lemma byte_int: "0 \<le> i \<Longrightarrow> i < 256 \<Longrightarrow> int (unat (word_of_int i :: byte)) = i"
  by (simp add: unsigned_of_int take_bit_int_eq_self)

lemma read_info:
  "length is = length ss \<Longrightarrow> list_all (\<lambda>i. 0 \<le> i \<and> i < 256) is \<Longrightarrow> list_all text_ok ss \<Longrightarrow>
     tzx_strings (length ss) (info_bytes is ss @ rest) = Some (ERROR_NONE, is, ss, rest)"
proof (induction "is" ss rule: list_induct2)
  case (Cons i "is" s ss)
  have "\<not> length (word_of_int i # string_bytes s @ info_bytes is ss @ rest) < 2"
    using length_string_bytes [of s] by (simp add: not_less)
  then show ?case using Cons
    by (simp add: info_bytes_def read_string_bytes byte_int del: of_nat_unat)
qed (simp add: info_bytes_def)

lemma read_archive_info:
  assumes "tzx_exact (ARCHIVE_INFO b)"
  shows "tzx_read_archive_info n tape (tzx_payload (ARCHIVE_INFO b) @ rest) = tzx_append n tape (ARCHIVE_INFO b) rest"
proof -
  have "unat (ai_count b) < 256" using assms by simp
  note count = count_byte [OF this]
  have "tzx_strings (unat (ai_count b)) (info_bytes (ai_ids b) (ai_strings b) @ rest) =
      Some (ERROR_NONE, ai_ids b, ai_strings b, rest)"
    using read_info [of "ai_ids b" "ai_strings b" rest] assms by simp
  then show ?thesis using assms count
    by (cases b) (simp add: tzx_read_archive_info_def numeral_2_eq_2 word_bytes_def)
qed

lemma read_hardware_bytes:
  "length ts = k \<Longrightarrow> length is = k \<Longrightarrow> length vs = k \<Longrightarrow> list_all (\<lambda>i. 0 \<le> i \<and> i < 256) ts \<Longrightarrow>
     list_all (\<lambda>i. 0 \<le> i \<and> i < 256) is \<Longrightarrow> list_all (\<lambda>i. 0 \<le> i \<and> i < 256) vs \<Longrightarrow>
     tzx_hardware_entries k (hardware_bytes ts is vs @ rest) = Some (ts, is, vs, rest) \<and>
     length (hardware_bytes ts is vs) = 3 * k"
proof (induction k arbitrary: ts "is" vs)
  case (Suc k)
  then show ?case
    by (auto simp: length_Suc_conv hardware_bytes_def byte_int simp del: of_nat_unat)
qed (simp add: hardware_bytes_def)

lemma read_hardware:
  assumes "tzx_exact (HARDWARE b)"
  shows "tzx_read_hardware n tape (tzx_payload (HARDWARE b) @ rest) = tzx_append n tape (HARDWARE b) rest"
proof -
  have "unat (hw_count b) < 256" using assms by simp
  note count = count_byte [OF this]
  show ?thesis using assms count
      read_hardware_bytes [of "hw_types b" "unat (hw_count b)" "hw_ids b" "hw_values b" rest]
    by (cases b) (simp add: tzx_read_hardware_def)
qed

lemma read_custom:
  assumes "tzx_exact (CUSTOM b)"
  shows "tzx_read_custom n tape (tzx_payload (CUSTOM b) @ rest) = tzx_append n tape (CUSTOM b) rest"
proof -
  let ?d = "custom_description b"
  have d: "length ?d = 17" "List.last ?d = 0" using assms by auto
  then have "?d = take 16 ?d @ [0]" by (cases ?d rule: rev_cases) auto
  then obtain t where t: "?d = t @ [0]" "length t = 16" using d(1) by (metis length_append_singleton
      add_right_cancel eval_nat_numeral(3) Suc_inject)
  have "drop 16 (replicate 17 0) = [0 :: byte]" by simp
  then show ?thesis using t assms
    by (cases b) (simp add: tzx_read_custom_def memcpy_at_def nset_def list_update_append read_data_4 Let_def)
qed

section \<open>Reading a generalised data block\<close>

text \<open>A table of which only the parameters are known.\<close>

definition bare :: "symbol_table \<Rightarrow> symbol_table" where
  "bare t = t\<lparr>symbols := []\<rparr>"

lemma bare_sel [simp]:
  "symbols_in_block (bare t) = symbols_in_block t" "max_pulses (bare t) = max_pulses t"
  "symbols_in_table (bare t) = symbols_in_table t" "symbols (bare t) = []"
  by (simp_all add: bare_def)

lemma length_table_bytes [simp]: "length (table_bytes t) = 6"
  by (simp add: table_bytes_def)

lemma read_parameters:
  assumes t: "table_ok t" and old: "(if pilot then pilot_table b else data_table b) = no_table"
  shows "libspectrum_tape_block_read_symbol_table_parameters b pilot (pre @ table_bytes t @ post) (length pre) =
    Some (ERROR_NONE, if pilot then b\<lparr>pilot_table := bare t\<rparr> else b\<lparr>data_table := bare t\<rparr>, length pre + 6)"
proof -
  define c where "c = (if symbols_in_table t = 256 then 0 else ucast (symbols_in_table t) :: byte)"
  have d: "libspectrum_read_dword (pre @ table_bytes t @ post) (length pre) =
      Some (symbols_in_block t, length pre + 4)"
    unfolding table_bytes_def append_assoc by (rule read_dword_at)
  have cells: "nget (pre @ table_bytes t @ post) (length pre + 4) = Some (max_pulses t)"
    "nget (pre @ table_bytes t @ post) (length pre + 4 + 1) = Some c"
    by (simp_all add: nget_app table_bytes_def dword_bytes_def nget_Cons c_def)
  have small: "(ucast c :: lword) = symbols_in_table t" if "symbols_in_table t \<noteq> 256"
  proof -
    have "unat (symbols_in_table t) \<noteq> 256" using that by (simp add: word_unat_eq_iff)
    then have "unat (symbols_in_table t) < 256" using t by (auto simp: table_ok_def split: if_splits)
    then show ?thesis using that by (simp add: word_unat_eq_iff unat_ucast_small c_def)
  qed
  have block: "symbols_in_block t \<noteq> 0" "c = 0" if "symbols_in_table t = 256"
    using t that by (auto simp: table_ok_def c_def split: if_splits)
  have nonzero: "symbols_in_table t \<noteq> 0" if "symbols_in_block t \<noteq> 0"
    using t that by (auto simp: table_ok_def)
  define tbl where "tbl = no_table\<lparr>symbols_in_block := symbols_in_block t, max_pulses := max_pulses t,
    symbols_in_table := ucast c\<rparr>"
  have "(if symbols_in_table tbl = 0 \<and> symbols_in_block tbl \<noteq> 0 then tbl\<lparr>symbols_in_table := 256\<rparr> else tbl) = bare t"
  proof (cases "symbols_in_table t = 256")
    case True
    then show ?thesis using block by (cases t) (simp add: tbl_def no_table_def bare_def)
  next
    case False
    then show ?thesis using small nonzero by (cases t) (auto simp: tbl_def no_table_def bare_def)
  qed
  then show ?thesis
    unfolding libspectrum_tape_block_read_symbol_table_parameters_def d bind.bind_lunit prod.case Let_def
      cells old tbl_def [symmetric]
    by (simp only: add.assoc) simp
qed

lemma read_pulse_bytes:
  "read_pulse_lengths (pre @ concat (map word_bytes ws) @ post) (length pre) (length ws) =
     Some (ws, length pre + 2 * length ws)"
proof (induction ws arbitrary: pre)
  case (Cons w ws)
  have "nget (pre @ word_bytes w @ xs) (length pre) = Some (ucast (w AND 0xff))"
    "nget (pre @ word_bytes w @ xs) (Suc (length pre)) = Some (ucast (drop_bit 8 w))" for xs
    by (simp_all add: nget_app word_bytes_def nget_Cons)
  then show ?case using Cons.IH [of "pre @ word_bytes w"] by (simp add: paste2_split)
qed simp

lemma length_symbol_bytes [simp]: "length (symbol_bytes s) = 2 * length (sym_lengths s) + 1"
proof -
  have "length (concat (map word_bytes ws)) = 2 * length ws" for ws by (induction ws) simp_all
  then show ?thesis by (simp add: symbol_bytes_def)
qed

lemma read_symbol_bytes:
  "list_all (\<lambda>s. length (sym_lengths s) = k) ss \<Longrightarrow>
     read_symbols k (pre @ concat (map symbol_bytes ss) @ post) (length pre) (length ss) =
       Some (ss, length pre + length (concat (map symbol_bytes ss)))"
proof (induction ss arbitrary: pre)
  case (Cons s ss)
  let ?more = "concat (map symbol_bytes ss) @ post"
  have "nget (pre @ symbol_bytes s @ ?more) (length pre) = Some (edge_type s)"
    by (simp add: nget_app symbol_bytes_def nget_Cons)
  moreover have "read_pulse_lengths (pre @ symbol_bytes s @ ?more) (Suc (length pre)) k =
      Some (sym_lengths s, Suc (length pre) + 2 * k)"
    using read_pulse_bytes [of "pre @ [edge_type s]" "sym_lengths s" ?more] Cons.prems
    by (simp add: symbol_bytes_def)
  moreover have "read_symbols k (pre @ symbol_bytes s @ ?more) (Suc (length pre) + 2 * k) (length ss) =
      Some (ss, Suc (length pre) + 2 * k + length (concat (map symbol_bytes ss)))"
    using Cons.IH [of "pre @ symbol_bytes s"] Cons.prems by simp
  ultimately show ?case using Cons.prems by simp
qed simp

lemma length_symbols_bytes:
  assumes "table_ok t"
  shows "length (symbols_bytes t) =
    (if symbols_in_block t = 0 then 0 else (2 * unat (max_pulses t) + 1) * unat (symbols_in_table t))"
proof -
  have "list_all (\<lambda>s. length (sym_lengths s) = k) ss \<Longrightarrow>
      length (concat (map symbol_bytes ss)) = (2 * k + 1) * length ss" for k ss
    by (induction ss) auto
  then show ?thesis using assms by (auto simp: symbols_bytes_def table_ok_def)
qed

lemma read_table:
  assumes t: "table_ok t" and len: "length (symbols_bytes t) \<le> unat len"
  shows "tzx_read_symbol_table (bare t) (symbols_bytes t @ post) len = Some (ERROR_NONE, t, post)"
proof (cases "symbols_in_block t = 0")
  case True
  then have "symbols t = []" using t by (simp add: table_ok_def)
  then have "bare t = t" by (simp add: bare_def)
  then show ?thesis using True
    by (simp add: tzx_read_symbol_table_def libspectrum_tape_block_read_symbol_table_def symbols_bytes_def)
next
  case False
  have "read_symbols (unat (max_pulses t)) (symbols_bytes t @ post) 0 (unat (symbols_in_table t)) =
      Some (symbols t, length (symbols_bytes t))"
    using read_symbol_bytes [of "unat (max_pulses t)" "symbols t" "[]" post] t False
    by (simp add: table_ok_def symbols_bytes_def)
  moreover have "(bare t)\<lparr>symbols := symbols t\<rparr> = t" by (simp add: bare_def)
  ultimately show ?thesis using False len length_symbols_bytes [OF t]
    by (simp add: tzx_read_symbol_table_def libspectrum_tape_block_read_symbol_table_def)
qed

lemma read_pilot_bytes:
  "length ss = length rs \<Longrightarrow>
     tzx_pilot_symbols (length ss) (pilot_bytes ss rs @ rest) = Some (ss, rs, rest)"
proof (induction ss rs rule: list_induct2)
  case (Cons s ss r rs)
  have "(ucast (ucast s :: dword) :: byte) = s" "(ucast (ucast r :: dword) :: lword) = r"
    using unsigned_less [of s, where 'a = nat] unsigned_less [of r, where 'a = nat]
    by (simp_all add: word_unat_eq_iff unat_ucast_small)
  then show ?case using Cons by (simp add: pilot_bytes_def read_word_bytes)
qed (simp add: pilot_bytes_def)

lemma length_pilot_bytes: "length ss = length rs \<Longrightarrow> length (pilot_bytes ss rs) = 3 * length ss"
  by (induction ss rs rule: list_induct2) (simp_all add: pilot_bytes_def)

lemma read_generalised_data_bits:
  assumes b: "tzx_exact (GENERALISED_DATA b)"
  shows "tzx_read_generalised_bits n tape (b\<lparr>bits_per_data_symbol := x, gd_data := y\<rparr>)
      (gd_data b @ rest) (length rest) = tzx_append n tape (GENERALISED_DATA b) rest"
proof -
  define k where "k = unat (bits_per_data_symbol b)"
  define c where "c = unat (symbols_in_block (data_table b))"
  have bits: "tzx_bits_per_symbol (symbols_in_table (data_table b)) = Some k"
    using b by (simp add: k_def)
  have len: "length (gd_data b) = (k * c + 7) div 8" and small: "length (gd_data b) < 2 ^ 28"
    using b by (auto simp: k_def c_def generalised_payload_def)
  then have "(k * c + 7) div 8 < 2 ^ 28" by simp
  then have "k * c + 7 < 2 ^ 28 * 8" by (simp only: div_less_iff_less_mult zero_less_numeral)
  then have kc: "k * c + 7 < 2 ^ 32" by simp
  have "k < 2 ^ 32"
  proof -
    have "k \<le> 16" using bits length_takeWhile_le [of _ "[0..<16]"]
      by (auto simp: tzx_bits_per_symbol_def split: if_splits)
    then show ?thesis by simp
  qed
  then have "unat (word_of_nat k :: dword) = k" by (simp add: unat_of_nat)
  then have "unat (word_of_nat k * symbols_in_block (data_table b) :: dword) = k * c"
    using kc by (simp add: unat_word_ariths c_def)
  then have "unat (word_of_nat k * symbols_in_block (data_table b) + 7 :: dword) = k * c + 7"
    using kc by (simp add: unat_word_ariths)
  then have count: "unat ((word_of_nat k * symbols_in_block (data_table b) + 7) div 8 :: dword) = length (gd_data b)"
    using len by (simp add: unat_div_distrib)
  have "b\<lparr>bits_per_data_symbol := word_of_nat k, gd_data := gd_data b\<rparr> = b"
    by (simp add: k_def)
  then show ?thesis using bits count
    by (simp add: tzx_read_generalised_bits_def memcpy_at_def Let_def)
qed

lemma length_generalised_payload:
  assumes "tzx_exact (GENERALISED_DATA b)"
  shows "length (generalised_payload b) = 14 + length (symbols_bytes (pilot_table b)) +
    3 * unat (symbols_in_block (pilot_table b)) + length (symbols_bytes (data_table b)) + length (gd_data b)"
  using assms by (simp add: generalised_payload_def length_pilot_bytes)

lemma read_generalised:
  assumes b: "tzx_exact (GENERALISED_DATA b)"
  shows "tzx_read_generalised_data n tape (tzx_payload (GENERALISED_DATA b) @ rest) =
    tzx_append n tape (GENERALISED_DATA b) rest"
proof -
  let ?pilot = "pilot_table b" and ?data = "data_table b"
  let ?L = "length (generalised_payload b)"
  let ?c = "unat (symbols_in_block ?pilot)"
  define tail2 where "tail2 = symbols_bytes ?data @ gd_data b @ rest"
  define tail1 where "tail1 = pilot_bytes (pilot_symbols b) (pilot_repeats b) @ tail2"
  define before where "before = symbols_bytes ?pilot @ tail1"
  have L: "?L < 2 ^ 28" and tables: "table_ok ?pilot" "table_ok ?data" using b by auto
  note sizes = length_generalised_payload [OF b]
  define len where "len = (word_of_nat ?L :: dword)"
  have len: "unat len = ?L" using L by (simp add: len_def unat_of_nat)
  have enough: "\<not> len < 14" using len sizes by (simp add: word_less_nat_alt)
  have whole: "tzx_payload (GENERALISED_DATA b) @ rest =
      dword_bytes len @ w16 (gd_pause b) @ table_bytes ?pilot @ table_bytes ?data @ before"
    by (simp add: generalised_payload_def before_def tail1_def tail2_def len_def)
  have dword: "libspectrum_read_dword (dword_bytes len @ xs) 0 = Some (len, 4)" for xs
    using read_dword_at [of "[]" len xs] by simp
  have pause: "unat (gd_pause b) < 65536" "gd_pause_tstates b = libspectrum_ms_to_tstates (gd_pause b)"
    using b by (auto simp: pause_ok_def)
  define new where "new = empty_generalised\<lparr>gd_pause := gd_pause b,
    gd_pause_tstates := libspectrum_ms_to_tstates (gd_pause b)\<rparr>"
  have first: "libspectrum_tape_block_read_symbol_table_parameters new True
      (table_bytes ?pilot @ table_bytes ?data @ before) 0 =
      Some (ERROR_NONE, new\<lparr>pilot_table := bare ?pilot\<rparr>, 6)"
    using read_parameters [OF tables(1), of True new "[]" "table_bytes ?data @ before"]
    by (simp add: new_def empty_generalised_def)
  have second: "libspectrum_tape_block_read_symbol_table_parameters (new\<lparr>pilot_table := bare ?pilot\<rparr>) False
      (table_bytes ?pilot @ table_bytes ?data @ before) 6 =
      Some (ERROR_NONE, new\<lparr>pilot_table := bare ?pilot, data_table := bare ?data\<rparr>, 12)"
    using read_parameters [OF tables(2), of False "new\<lparr>pilot_table := bare ?pilot\<rparr>" "table_bytes ?pilot" before]
    by (simp add: new_def empty_generalised_def)
  have len14: "unat (len - 14) = ?L - 14" using enough len
    by (subst unat_sub) (auto simp: not_less)
  have lenw: "len - 14 = word_of_nat (?L - 14)"
    unfolding len14 [symmetric] by (simp only: of_nat_unat ucast_id)
  have third: "tzx_read_symbol_table (bare ?pilot) before (len - 14) = Some (ERROR_NONE, ?pilot, tail1)"
    unfolding before_def by (rule read_table [OF tables(1)]) (use len14 sizes in simp)
  have "int (length tail1) - int (length before) = - int (length (symbols_bytes ?pilot))"
    by (simp add: before_def)
  then have len_after: "len - 14 - word_of_int (int (length tail1) - int (length before)) =
      word_of_nat (?L - 14 + length (symbols_bytes ?pilot))"
    using lenw by simp
  have small32: "K < 2 ^ 32 \<Longrightarrow> unat (word_of_nat K :: dword) = K" for K
    by (simp add: unat_of_nat)
  define len2 where "len2 = (word_of_nat (?L - 14 + length (symbols_bytes ?pilot)) :: dword)"
  have len2: "unat len2 = ?L - 14 + length (symbols_bytes ?pilot)"
    unfolding len2_def by (rule small32) (use L sizes in simp)
  have len2_sum: "word_of_nat (?L - 14) + word_of_nat (length (symbols_bytes ?pilot)) = len2"
    by (simp add: len2_def)
  have c3: "unat (3 * symbols_in_block ?pilot) = 3 * ?c"
    using L sizes by (simp add: unat_word_ariths)
  have fits: "\<not> len2 < 3 * symbols_in_block ?pilot"
    using len2 c3 sizes by (simp add: word_less_nat_alt)
  have symbols: "tzx_pilot_symbols ?c tail1 = Some (pilot_symbols b, pilot_repeats b, tail2)"
    unfolding tail1_def using read_pilot_bytes [of "pilot_symbols b" "pilot_repeats b" tail2] b by simp
  have fourth: "tzx_read_symbol_table (bare ?data) tail2 (len2 - 3 * symbols_in_block ?pilot) =
      Some (ERROR_NONE, ?data, gd_data b @ rest)"
    unfolding tail2_def
    by (rule read_table [OF tables(2)])
      (use fits len2 c3 sizes in \<open>simp add: unat_sub not_less\<close>)
  have block: "new\<lparr>pilot_table := ?pilot, pilot_symbols := pilot_symbols b,
      pilot_repeats := pilot_repeats b, data_table := ?data\<rparr> = b\<lparr>bits_per_data_symbol := 0, gd_data := []\<rparr>"
    using pause(2) by (cases b) (simp add: new_def empty_generalised_def)
  have total: "length (tzx_payload (GENERALISED_DATA b) @ rest) = ?L + 4 + length rest" by simp
  have rest_len: "length (w16 (gd_pause b) @ table_bytes ?pilot @ table_bytes ?data @ before) = ?L + length rest"
    using total unfolding whole by simp
  have symbols_read: "tzx_read_generalised_symbols n tape (new\<lparr>data_table := bare ?data, pilot_table := ?pilot\<rparr>)
      tail1 len2 (length rest) = tzx_append n tape (GENERALISED_DATA b) rest"
    using fits symbols fourth block
      read_generalised_data_bits [OF b, where n = n and tape = tape and x = 0 and y = "[]" and rest = rest]
    by (simp add: tzx_read_generalised_symbols_def Let_def)
  have not_short: "\<not> length (dword_bytes len @ w16 (gd_pause b) @ table_bytes ?pilot @ table_bytes ?data @ before) < 4"
    by simp
  show ?thesis
    unfolding whole tzx_read_generalised_data_def if_not_P [OF not_short] dword bind.bind_lunit prod.case Let_def
    using enough len rest_len pause(1) first second third len_after symbols_read
    by (simp add: new_def [symmetric] len2_sum)
qed

section \<open>Reading the bytes of a tape\<close>

definition block_bytes :: "libspectrum_tape_block \<Rightarrow> byte list" where
  "block_bytes b = [tzx_id b] @ tzx_payload b"

lemma read_block_bytes:
  "tzx_exact b \<Longrightarrow> tzx_read_block n tape (tzx_id b) (tzx_payload b @ rest) = tzx_append n tape b rest"
proof (cases b)
  case GROUP_END
  then show ?thesis by (simp add: tzx_read_block_def tzx_read_empty_block_def)
next
  case LOOP_END
  then show ?thesis by (simp add: tzx_read_block_def tzx_read_empty_block_def)
qed (simp_all del: tzx_exact.simps tzx_payload.simps
    add: tzx_read_block_def read_rom read_turbo read_pure_tone read_pulses read_pure_data
    read_raw_data read_generalised read_pause read_group_start read_jump read_loop_start read_stop
    read_set_signal_level read_comment read_message read_archive_info read_hardware read_custom,
  simp_all)

lemma text_terminated: "text_ok s \<Longrightarrow> terminated s"
  by (metis last_in_set terminated_def text_ok_def)

lemma exact_block_ok: "tzx_exact b \<Longrightarrow> \<not> is_generalised b \<Longrightarrow> tzx_block_ok b"
proof (cases b)
  case (RAW_DATA r)
  assume "tzx_exact b"
  then show ?thesis using RAW_DATA
    by (cases "rd_data r") (auto simp: raw_block_ok_def data_of_def unat_eq_0 Suc_le_eq unat_gt_0)
next
  case (CUSTOM r)
  assume "tzx_exact b"
  then show ?thesis using CUSTOM last_in_set [of "custom_description r"]
    by (cases "custom_description r = []") (auto simp: terminated_def)
qed (auto simp: text_terminated list_all_iff)

lemma exact_starts: "tzx_exact b \<Longrightarrow> starts b"
proof (cases "is_generalised b")
  case True
  assume "tzx_exact b"
  then show ?thesis using True
    by (cases b) (auto simp: starts_def put_state_def generalised_data_init_def Let_def)
qed (use exact_block_ok tzx_block_starts in blast)

lemma read_all_bytes:
  "loading n tape \<Longrightarrow> list_all tzx_exact bs \<Longrightarrow> length (concat (map block_bytes bs)) \<le> k \<Longrightarrow>
     \<exists>tape'. tzx_read_loop k n tape (concat (map block_bytes bs)) = Some (ERROR_NONE, tape') \<and>
       loading (n + length bs) tape' \<and> map snd (tape_blocks tape') = map snd (tape_blocks tape) @ bs"
proof (induction bs arbitrary: k n tape)
  case (Cons b bs)
  have "1 \<le> length (block_bytes b)" by (simp add: block_bytes_def)
  then obtain k' where k: "k = Suc k'" "length (concat (map block_bytes bs)) \<le> k'"
    using Cons.prems(3) by (cases k) auto
  have b: "tzx_exact b" using Cons.prems by simp
  obtain tape1 where tape1: "libspectrum_tape_append_block n tape b = Some tape1"
    using append_loading(1) [OF Cons.prems(1)] exact_starts [OF b] by blast
  note appended = append_loading(2) [OF Cons.prems(1) tape1]
  obtain tape' where "tzx_read_loop k' (n + 1) tape1 (concat (map block_bytes bs)) = Some (ERROR_NONE, tape')"
    "loading (n + 1 + length bs) tape'" "map snd (tape_blocks tape') = map snd (tape_blocks tape1) @ bs"
    using Cons.IH [of "n + 1" tape1 k'] appended Cons.prems(2) k(2) by auto
  moreover have "concat (map block_bytes (b # bs)) = tzx_id b # tzx_payload b @ concat (map block_bytes bs)"
    by (simp add: block_bytes_def [of b])
  ultimately show ?case using appended tape1 k(1) read_block_bytes [OF b, of n tape "concat (map block_bytes bs)"]
    by (simp add: tzx_append_def)
qed auto

end
