(* ===== verification/Tzx_Roundtrip.thy ===== *)
theory Tzx_Roundtrip
  imports Tzx_Format
begin

text \<open>
  The writer of \<open>.tzx\<close> files: it puts down exactly the bytes of the format, so that a tape is
  written and read back unchanged; and the blocks for which this fails.
\<close>

section \<open>Writing the bytes of a block\<close>

lemma written_bind [simp]:
  "on_ok (written_ok m) f = m \<bind> f"
  "m \<bind> (\<lambda>b. Some (ERROR_NONE, b)) = written_ok m"
  "m \<bind> (\<lambda>b. written_ok (g b)) = written_ok (m \<bind> g)"
  by (cases m; simp add: written_ok_def)+

lemma puts_w16: "buf.puts (\<lambda>b. libspectrum_buffer_write_word junk b (ucast w)) (w16 w)"
  unfolding w16_def by (rule puts_word)

lemma puts_last:
  assumes "buf.puts f d" shows "buf.puts f (d @ [])"
  using assms by simp

lemma puts_all_bytes:
  assumes "length data = unat len"
  shows "buf.puts (\<lambda>b. tzx_write_bytes junk b len k data) (size_bytes k len @ data)"
  using puts_bytes [of len data junk k] assms by simp

lemma concat_nth: "concat (map (\<lambda>i. f (xs ! i)) [0..<length xs]) = concat (map f xs)"
  by (rule arg_cong [of _ _ concat]) (rule nth_equalityI, simp_all)

lemma puts_words:
  assumes "length ws = n"
  shows "buf.puts (\<lambda>b. tzx_write_words junk b ws 0 n) (concat (map w16 ws))"
proof -
  have "buf.puts (\<lambda>b. tzx_write_words junk b ws 0 n) (concat (map (\<lambda>i. w16 (ws ! i)) [0..<0 + n]))"
    by (rule buf.puts_loop [where step = "\<lambda>i b. nget ws i \<bind> (\<lambda>w.
        libspectrum_buffer_write_word junk b (ucast w))" and m = n])
      (use assms puts_w16 in \<open>simp_all add: nget_def\<close>)
  then show ?thesis using concat_nth [of w16 ws] assms by simp
qed

lemma puts_data_blocks:
  "tzx_exact (ROM b1) \<Longrightarrow> buf.puts (tzx_write_rom junk b1) (block_bytes (ROM b1))"
  "tzx_exact (TURBO b2) \<Longrightarrow> buf.puts (tzx_write_turbo junk b2) (block_bytes (TURBO b2))"
  "buf.puts (tzx_write_pure_tone junk b3) (block_bytes (PURE_TONE b3))"
  "tzx_exact (PULSES b4) \<Longrightarrow> buf.puts (tzx_write_pulses junk b4) (block_bytes (PULSES b4))"
  "tzx_exact (PURE_DATA b5) \<Longrightarrow> buf.puts (tzx_write_data junk b5) (block_bytes (PURE_DATA b5))"
  "tzx_exact (RAW_DATA b6) \<Longrightarrow> buf.puts (tzx_write_raw_data junk b6) (block_bytes (RAW_DATA b6))"
proof -
  note steps = buf.puts_seq puts_byte puts_w16 puts_word puts_all_bytes puts_words
  show "buf.puts (tzx_write_rom junk b1) (block_bytes (ROM b1))" if "tzx_exact (ROM b1)"
    using that unfolding tzx_write_rom_def [abs_def] block_bytes_def tzx_id.simps tzx_payload.simps
    by (intro steps) simp_all
  show "buf.puts (tzx_write_turbo junk b2) (block_bytes (TURBO b2))" if "tzx_exact (TURBO b2)"
    using that unfolding tzx_write_turbo_def [abs_def] block_bytes_def tzx_id.simps tzx_payload.simps
    by (intro steps) simp_all
  show "buf.puts (tzx_write_pure_tone junk b3) (block_bytes (PURE_TONE b3))"
    unfolding tzx_write_pure_tone_def [abs_def] add_pure_tone_block_def block_bytes_def tzx_id.simps
      tzx_payload.simps
    by (intro steps)
  show "buf.puts (tzx_write_pulses junk b4) (block_bytes (PULSES b4))" if "tzx_exact (PULSES b4)"
    using that unfolding tzx_write_pulses_def [abs_def] Let_def block_bytes_def tzx_id.simps
      tzx_payload.simps
    by (intro steps) simp_all
  show "buf.puts (tzx_write_data junk b5) (block_bytes (PURE_DATA b5))" if "tzx_exact (PURE_DATA b5)"
    using that unfolding tzx_write_data_def [abs_def] block_bytes_def tzx_id.simps tzx_payload.simps
    by (intro steps) simp_all
  show "buf.puts (tzx_write_raw_data junk b6) (block_bytes (RAW_DATA b6))" if "tzx_exact (RAW_DATA b6)"
    using that unfolding tzx_write_raw_data_def [abs_def] block_bytes_def tzx_id.simps tzx_payload.simps
    by (intro steps) simp_all
qed

lemma puts_control_blocks:
  "tzx_exact (PAUSE b1) \<Longrightarrow> buf.puts (tzx_write_pause junk b1) (block_bytes (PAUSE b1))"
  "tzx_exact (GROUP_START s2) \<Longrightarrow> buf.puts (tzx_write_group_start junk s2) (block_bytes (GROUP_START s2))"
  "buf.puts (tzx_write_jump junk j3) (block_bytes (JUMP j3))"
  "buf.puts (tzx_write_loop_start junk c4) (block_bytes (LOOP_START c4))"
  "buf.puts (tzx_write_stop junk) (block_bytes STOP48)"
  "buf.puts (tzx_write_set_signal_level junk l6) (block_bytes (SET_SIGNAL_LEVEL l6))"
  "tzx_exact (COMMENT s7) \<Longrightarrow> buf.puts (tzx_write_comment junk s7) (block_bytes (COMMENT s7))"
  "tzx_exact (MESSAGE b8) \<Longrightarrow> buf.puts (tzx_write_message junk b8) (block_bytes (MESSAGE b8))"
  "buf.puts (\<lambda>b. tzx_write_empty_block junk b 0x22) (block_bytes GROUP_END)"
  "buf.puts (\<lambda>b. tzx_write_empty_block junk b 0x25) (block_bytes LOOP_END)"
  "tzx_exact (CUSTOM b9) \<Longrightarrow> buf.puts (tzx_write_custom junk b9) (block_bytes (CUSTOM b9))"
proof -
  note steps = buf.puts_seq puts_byte puts_w16 puts_word puts_dword puts_all_bytes puts_string
  show "buf.puts (tzx_write_pause junk b1) (block_bytes (PAUSE b1))" if "tzx_exact (PAUSE b1)"
  proof -
    have "buf.puts (\<lambda>b. libspectrum_buffer_write_byte junk b 0x20 \<bind>
        (\<lambda>b. libspectrum_buffer_write_word junk b (ucast (pause_length b1)))) ([0x20] @ w16 (pause_length b1))"
      by (intro steps)
    then show ?thesis using that unfolding tzx_write_pause_def [abs_def] block_bytes_def by simp
  qed
  show "buf.puts (tzx_write_group_start junk s2) (block_bytes (GROUP_START s2))" if "tzx_exact (GROUP_START s2)"
    using that unfolding tzx_write_group_start_def [abs_def] block_bytes_def tzx_id.simps tzx_payload.simps
    by (intro steps) simp_all
  show "buf.puts (tzx_write_jump junk j3) (block_bytes (JUMP j3))"
    unfolding tzx_write_jump_def [abs_def] block_bytes_def tzx_id.simps tzx_payload.simps by (intro steps)
  show "buf.puts (tzx_write_loop_start junk c4) (block_bytes (LOOP_START c4))"
    unfolding tzx_write_loop_start_def [abs_def] block_bytes_def tzx_id.simps tzx_payload.simps by (intro steps)
  show "buf.puts (tzx_write_stop junk) (block_bytes STOP48)"
    unfolding tzx_write_stop_def [abs_def] block_bytes_def tzx_id.simps tzx_payload.simps by (intro steps)
  show "buf.puts (tzx_write_set_signal_level junk l6) (block_bytes (SET_SIGNAL_LEVEL l6))"
    unfolding tzx_write_set_signal_level_def [abs_def] add_set_signal_level_block_def block_bytes_def
      tzx_id.simps tzx_payload.simps by (intro steps)
  show "buf.puts (tzx_write_comment junk s7) (block_bytes (COMMENT s7))" if "tzx_exact (COMMENT s7)"
    using that unfolding tzx_write_comment_def [abs_def] block_bytes_def tzx_id.simps tzx_payload.simps
    by (intro steps) simp_all
  show "buf.puts (tzx_write_message junk b8) (block_bytes (MESSAGE b8))" if "tzx_exact (MESSAGE b8)"
    using that unfolding tzx_write_message_def [abs_def] block_bytes_def tzx_id.simps tzx_payload.simps
    by (intro steps) simp_all
  show "buf.puts (\<lambda>b. tzx_write_empty_block junk b 0x22) (block_bytes GROUP_END)"
    "buf.puts (\<lambda>b. tzx_write_empty_block junk b 0x25) (block_bytes LOOP_END)"
    unfolding tzx_write_empty_block_def block_bytes_def by (simp_all add: puts_byte)
  show "buf.puts (tzx_write_custom junk b9) (block_bytes (CUSTOM b9))" if "tzx_exact (CUSTOM b9)"
    using that puts_data [of 16 "custom_description b9" junk]
    unfolding tzx_write_custom_def [abs_def] block_bytes_def tzx_id.simps tzx_payload.simps
    by (intro steps) simp_all
qed

text \<open>The blocks with entries.\<close>

lemma add_lengths_texts:
  "list_all text_ok ss \<Longrightarrow>
     add_lengths (pre @ ss) (length pre) (length ss) t = Some (t + word_of_nat (texts_length ss))"
proof (induction ss arbitrary: pre t)
  case (Cons s ss)
  obtain u where u: "s = u @ [0]" "0 \<notin> set u" using Cons.prems by (auto elim: text_okE)
  then have "strlen s = Some (length s - 1)" by (simp add: strlen_text)
  then show ?case using Cons.IH [of "pre @ [s]"] Cons.prems
    by (simp add: nget_app nget_Cons texts_length_def add.assoc)
qed (simp add: texts_length_def)

lemma info_bytes_nth:
  assumes "length is = n" "length ss = n"
  shows "concat (map (\<lambda>i. [word_of_int (is ! i)] @ string_bytes (ss ! i)) [0..<n]) = info_bytes is ss"
  unfolding info_bytes_def
  by (rule arg_cong [of _ _ concat]) (rule nth_equalityI, use assms in simp_all)

lemma puts_info:
  assumes "length is = n" "length ss = n" "list_all text_ok ss"
  shows "buf.puts (\<lambda>b. write_info_strings junk b is ss 0 n) (info_bytes is ss)"
proof -
  have step: "buf.puts (\<lambda>b. nget is i \<bind> (\<lambda>k. libspectrum_buffer_write_byte junk b (word_of_int k) \<bind>
      (\<lambda>b. nget ss i \<bind> (\<lambda>s. tzx_write_string junk b s)))) ([word_of_int (is ! i)] @ string_bytes (ss ! i))"
    if "i < n" for i
    using that assms buf.puts_seq [OF puts_byte puts_string, of "ss ! i"]
    by (simp add: nget_def list_all_length)
  have "buf.puts (\<lambda>b. write_info_strings junk b is ss 0 n)
      (concat (map (\<lambda>i. [word_of_int (is ! i)] @ string_bytes (ss ! i)) [0..<0 + n]))"
    by (rule buf.puts_loop [where m = n, OF _ _ step]) simp_all
  then show ?thesis using info_bytes_nth [OF assms(1,2)] by simp
qed

lemma puts_archive_info:
  assumes "tzx_exact (ARCHIVE_INFO b)"
  shows "buf.puts (tzx_write_archive_info junk b) (block_bytes (ARCHIVE_INFO b))"
proof -
  have lens: "add_lengths (ai_strings b) 0 (unat (ai_count b)) (1 + 2 * ai_count b) =
      Some (1 + 2 * ai_count b + word_of_nat (texts_length (ai_strings b)))"
    using add_lengths_texts [of "ai_strings b" "[]"] assms by simp
  show ?thesis using assms
    unfolding tzx_write_archive_info_def [abs_def] Let_def lens bind.bind_lunit block_bytes_def tzx_id.simps
      tzx_payload.simps
    by (intro buf.puts_seq puts_byte puts_word puts_info) simp_all
qed

lemma hardware_bytes_nth:
  assumes "length ts = n" "length is = n" "length vs = n"
  shows "concat (map (\<lambda>i. [word_of_int (ts ! i)] @ [word_of_int (is ! i)] @ [word_of_int (vs ! i)]) [0..<n]) =
    hardware_bytes ts is vs"
  unfolding hardware_bytes_def
  by (rule arg_cong [of _ _ concat]) (rule nth_equalityI, use assms in simp_all)

lemma puts_hardware:
  assumes "tzx_exact (HARDWARE b)"
  shows "buf.puts (tzx_write_hardware junk b) (block_bytes (HARDWARE b))"
proof -
  let ?n = "unat (hw_count b)"
  have step: "buf.puts (\<lambda>c. nget (hw_types b) i \<bind> (\<lambda>t. libspectrum_buffer_write_byte junk c (word_of_int t) \<bind>
      (\<lambda>c. nget (hw_ids b) i \<bind> (\<lambda>k. libspectrum_buffer_write_byte junk c (word_of_int k) \<bind>
      (\<lambda>c. nget (hw_values b) i \<bind> (\<lambda>v. libspectrum_buffer_write_byte junk c (word_of_int v)))))))
      ([word_of_int (hw_types b ! i)] @ [word_of_int (hw_ids b ! i)] @ [word_of_int (hw_values b ! i)])"
    if "i < ?n" for i
  proof -
    have "buf.puts (\<lambda>c. libspectrum_buffer_write_byte junk c x \<bind>
        (\<lambda>c. libspectrum_buffer_write_byte junk c y \<bind> (\<lambda>c. libspectrum_buffer_write_byte junk c z)))
        ([x] @ [y] @ [z])" for x y z
      by (intro buf.puts_seq puts_byte)
    then show ?thesis using that assms by (simp add: nget_def)
  qed
  have "buf.puts (\<lambda>c. write_hardware_entries junk c b 0 ?n) (concat (map (\<lambda>i. [word_of_int (hw_types b ! i)] @
      [word_of_int (hw_ids b ! i)] @ [word_of_int (hw_values b ! i)]) [0..<0 + ?n]))"
    by (rule buf.puts_loop [where m = ?n, OF _ _ step]) simp_all
  then have entries: "buf.puts (\<lambda>c. write_hardware_entries junk c b 0 ?n)
      (hardware_bytes (hw_types b) (hw_ids b) (hw_values b))"
    using hardware_bytes_nth [of "hw_types b" ?n "hw_ids b" "hw_values b"] assms by simp
  show ?thesis
    unfolding tzx_write_hardware_def [abs_def] Let_def block_bytes_def tzx_id.simps tzx_payload.simps
    by (intro buf.puts_seq puts_byte entries)
qed

text \<open>The generalised data block.\<close>

lemma puts_table:
  assumes "table_ok t"
  shows "\<exists>f. (\<forall>b. serialise_generalised_data_table junk b t = written_ok (f b)) \<and> buf.puts f (table_bytes t)"
proof (intro exI conjI allI)
  let ?c = "ucast (if symbols_in_table t = 256 then 0 else symbols_in_table t) :: byte"
  let ?f = "\<lambda>b. libspectrum_buffer_write_dword junk b (symbols_in_block t) \<bind>
    (\<lambda>b. libspectrum_buffer_write_byte junk b (max_pulses t) \<bind>
    (\<lambda>b. libspectrum_buffer_write_byte junk b ?c))"
  have "\<not> (symbols_in_block t \<noteq> 0 \<and> (symbols_in_table t = 0 \<or> symbols_in_table t > 256))"
    using assms by (auto simp: table_ok_def word_less_nat_alt split: if_splits)
  then show "serialise_generalised_data_table junk b t = written_ok (?f b)" for b
    unfolding serialise_generalised_data_table_def Let_def by (simp only: if_False written_bind)
  have "buf.puts ?f (dword_bytes (symbols_in_block t) @ [max_pulses t] @ [?c])"
    by (intro buf.puts_seq puts_byte puts_dword)
  moreover have "table_bytes t = dword_bytes (symbols_in_block t) @ [max_pulses t] @ [?c]"
    by (simp add: table_bytes_def)
  ultimately show "buf.puts ?f (table_bytes t)" by (simp only:)
qed

lemma puts_pulses_of:
  assumes "length (sym_lengths s) = n"
  shows "buf.puts (\<lambda>b. serialise_pulses junk b s 0 n) (concat (map word_bytes (sym_lengths s)))"
proof -
  have "buf.puts (\<lambda>b. serialise_pulses junk b s 0 n) (concat (map (\<lambda>i. word_bytes (sym_lengths s ! i)) [0..<0 + n]))"
    by (rule buf.puts_loop [where step = "\<lambda>i b. libspectrum_tape_generalised_data_symbol_pulse s i \<bind>
        (\<lambda>w. libspectrum_buffer_write_word junk b w)" and m = n])
      (use assms puts_word in \<open>simp_all add: nget_def libspectrum_tape_generalised_data_symbol_pulse_def\<close>)
  then show ?thesis using concat_nth [of word_bytes "sym_lengths s"] assms by simp
qed

lemma puts_symbols:
  assumes "table_ok t"
  shows "buf.puts (\<lambda>b. serialise_generalised_data_symbols junk b t) (symbols_bytes t)"
proof (cases "symbols_in_block t = 0")
  case True
  then show ?thesis using buf.puts_nothing
    by (simp add: serialise_generalised_data_symbols_def symbols_bytes_def)
next
  case False
  let ?n = "unat (symbols_in_table t)"
  have n: "length (symbols t) = ?n" and
    widths: "list_all (\<lambda>s. length (sym_lengths s) = unat (max_pulses t)) (symbols t)"
    using assms False by (auto simp: table_ok_def)
  have step: "buf.puts (\<lambda>b. libspectrum_tape_generalised_data_symbol_table_symbol t i \<bind> (\<lambda>symbol.
      libspectrum_buffer_write_byte junk b (edge_type symbol) \<bind>
      (\<lambda>b. serialise_pulses junk b symbol 0 (unat (max_pulses t))))) (symbol_bytes (symbols t ! i))"
    if "i < ?n" for i
  proof -
    have "length (sym_lengths (symbols t ! i)) = unat (max_pulses t)"
      using widths that n by (simp add: list_all_length)
    from buf.puts_seq [OF puts_byte puts_pulses_of [OF this]] show ?thesis
      using that n by (simp add: libspectrum_tape_generalised_data_symbol_table_symbol_def nget_def symbol_bytes_def)
  qed
  have "buf.puts (\<lambda>b. serialise_symbols junk b t 0 ?n) (concat (map (\<lambda>i. symbol_bytes (symbols t ! i)) [0..<0 + ?n]))"
    by (rule buf.puts_loop [where m = ?n, OF _ _ step]) simp_all
  then show ?thesis using False concat_nth [of symbol_bytes "symbols t"] n
    by (simp add: serialise_generalised_data_symbols_def symbols_bytes_def)
qed

lemma puts_pilot:
  assumes "length ss = n" "length rs = n"
  shows "buf.puts (\<lambda>b. write_pilot_symbols junk b ss rs 0 n) (pilot_bytes ss rs)"
proof -
  have step: "buf.puts (\<lambda>b. nget ss i \<bind> (\<lambda>s. libspectrum_buffer_write_byte junk b s \<bind>
      (\<lambda>b. nget rs i \<bind> (\<lambda>r. libspectrum_buffer_write_word junk b r)))) ([ss ! i] @ word_bytes (rs ! i))"
    if "i < n" for i
    using that assms buf.puts_seq [OF puts_byte puts_word, of junk "ss ! i" junk "rs ! i"]
    by (simp add: nget_def)
  have "buf.puts (\<lambda>b. write_pilot_symbols junk b ss rs 0 n)
      (concat (map (\<lambda>i. [ss ! i] @ word_bytes (rs ! i)) [0..<0 + n]))"
    by (rule buf.puts_loop [where m = n, OF _ _ step]) simp_all
  moreover have "concat (map (\<lambda>i. [ss ! i] @ word_bytes (rs ! i)) [0..<0 + n]) = pilot_bytes ss rs"
    unfolding pilot_bytes_def
    by (rule arg_cong [of _ _ concat]) (rule nth_equalityI, use assms in simp_all)
  ultimately show ?thesis by simp
qed

lemma word_of_unat: "word_of_nat (unat w) = (ucast w :: 'b::len word)" for w :: "'a::len word"
  by (simp only: of_nat_unat)

lemma data_bytes_needed:
  assumes "tzx_exact (GENERALISED_DATA b)"
  shows "unat (libspectrum_bits_to_bytes (bits_per_data_symbol b * ucast (symbols_in_block (data_table b)))) =
    length (gd_data b)"
proof -
  define k where "k = unat (bits_per_data_symbol b)"
  define c where "c = unat (symbols_in_block (data_table b))"
  have len: "length (gd_data b) = (k * c + 7) div 8" "length (gd_data b) < 2 ^ 28"
    using assms by (auto simp: k_def c_def generalised_payload_def)
  then have "(k * c + 7) div 8 < 2 ^ 28" by simp
  then have kc: "k * c + 7 < 2 ^ 28 * 8" by (simp only: div_less_iff_less_mult zero_less_numeral)
  then have "unat (bits_per_data_symbol b * ucast (symbols_in_block (data_table b))) = k * c"
    by (subst unat_mult_lem [THEN iffD1]) (simp_all add: k_def c_def)
  then have "unat (bits_per_data_symbol b * ucast (symbols_in_block (data_table b)) + 7) = k * c + 7"
    using kc by (simp add: unat_word_ariths)
  moreover have "libspectrum_bits_to_bytes x = (x + 7) div 8" for x
    by (simp add: libspectrum_bits_to_bytes_def add.commute)
  ultimately show ?thesis using len by (simp only: unat_div_distrib) simp
qed

lemma generalised_length:
  assumes b: "tzx_exact (GENERALISED_DATA b)"
  shows "generalised_data_length (pilot_table b) (data_table b) (bits_per_data_symbol b) =
    word_of_nat (length (generalised_payload b))"
proof -
  let ?pilot = "pilot_table b" and ?data = "data_table b"
  have tables: "table_ok ?pilot" "table_ok ?data" using b by auto
  have small: "length (generalised_payload b) < 2 ^ 28" using b by simp
  note sizes = length_generalised_payload [OF b]
  have table: "(2 * ucast (max_pulses t) + 1) * ucast (symbols_in_table t) =
      (word_of_nat (length (symbols_bytes t)) :: size_t)" if "table_ok t" "symbols_in_block t \<noteq> 0" for t
    using length_symbols_bytes [OF that(1)] that(2)
    by (simp add: word_of_unat distrib_right del: of_nat_unat)
  have "unat (3 * symbols_in_block ?pilot) = 3 * unat (symbols_in_block ?pilot)"
    using small sizes by (simp add: unat_word_ariths)
  then have three: "(ucast (3 * symbols_in_block ?pilot) :: size_t) =
      word_of_nat (3 * unat (symbols_in_block ?pilot))"
    by (simp only: word_of_unat [symmetric])
  have data: "libspectrum_bits_to_bytes (bits_per_data_symbol b * ucast (symbols_in_block ?data)) =
      word_of_nat (length (gd_data b))"
    using data_bytes_needed [OF b] by (metis word_of_unat ucast_id)
  have "symbols_in_block ?pilot \<noteq> 0" using b by auto
  moreover have "gd_data b = []" "symbols_bytes ?data = []" if "symbols_in_block ?data = 0"
    using that b by (auto simp: symbols_bytes_def)
  ultimately show ?thesis unfolding sizes generalised_data_length_def Let_def
    using table [OF tables(1)] table [OF tables(2)] three data
    by (cases "symbols_in_block ?data = 0") (simp_all add: algebra_simps)
qed

lemma puts_generalised:
  assumes b: "tzx_exact (GENERALISED_DATA b)"
  shows "\<exists>f. tzx_write_generalised_data junk b = written_ok \<circ> f \<and>
    buf.puts f (block_bytes (GENERALISED_DATA b))"
proof -
  let ?pilot = "pilot_table b" and ?data = "data_table b"
  have tables: "table_ok ?pilot" "table_ok ?data" using b by auto
  obtain f where f: "\<And>c. serialise_generalised_data_table junk c ?pilot = written_ok (f c)"
    "buf.puts f (table_bytes ?pilot)" using puts_table [OF tables(1), of junk] by blast
  obtain g where g: "\<And>c. serialise_generalised_data_table junk c ?data = written_ok (g c)"
    "buf.puts g (table_bytes ?data)" using puts_table [OF tables(2), of junk] by blast
  let ?n = "libspectrum_bits_to_bytes (bits_per_data_symbol b * ucast (symbols_in_block ?data))"
  have data: "buf.puts (\<lambda>c. libspectrum_buffer_write junk c (gd_data b) ?n) (gd_data b)"
    using puts_data [of ?n "gd_data b" junk] data_bytes_needed [OF b] by simp
  have len: "ucast (word_of_nat (length (generalised_payload b)) :: size_t) =
      (word_of_nat (length (generalised_payload b)) :: dword)"
    using b by (simp add: word_unat_eq_iff unat_ucast_small unat_of_nat)
  let ?h = "\<lambda>c. libspectrum_buffer_write_byte junk c 0x19 \<bind>
    (\<lambda>c. libspectrum_buffer_write_dword junk c (word_of_nat (length (generalised_payload b))) \<bind>
    (\<lambda>c. libspectrum_buffer_write_word junk c (ucast (gd_pause b)) \<bind>
    (\<lambda>c. f c \<bind> (\<lambda>c. g c \<bind>
    (\<lambda>c. serialise_generalised_data_symbols junk c ?pilot \<bind>
    (\<lambda>c. write_pilot_symbols junk c (pilot_symbols b) (pilot_repeats b) 0 (unat (symbols_in_block ?pilot)) \<bind>
    (\<lambda>c. serialise_generalised_data_symbols junk c ?data \<bind>
    (\<lambda>c. libspectrum_buffer_write junk c (gd_data b) ?n))))))))"
  have eq: "tzx_write_generalised_data junk b = written_ok \<circ> ?h"
    unfolding tzx_write_generalised_data_def [abs_def] write_generalised_data_block_def
      generalised_length [OF b] len Let_def prod.case f(1) g(1) written_bind comp_def ..
  have bytes: "block_bytes (GENERALISED_DATA b) =
      [0x19] @ dword_bytes (word_of_nat (length (generalised_payload b))) @ w16 (gd_pause b) @
      table_bytes ?pilot @ table_bytes ?data @ symbols_bytes ?pilot @
      pilot_bytes (pilot_symbols b) (pilot_repeats b) @ symbols_bytes ?data @ gd_data b"
    by (simp add: block_bytes_def generalised_payload_def)
  have "buf.puts ?h (block_bytes (GENERALISED_DATA b))"
    unfolding bytes
    by (intro buf.puts_seq puts_byte puts_dword puts_w16 f(2) g(2) puts_symbols puts_pilot data tables,
       use b in simp_all)
  then show ?thesis using eq by blast
qed

section \<open>Writing and reading a tape\<close>

text \<open>What writes a block that cannot fail.\<close>

fun block_writer :: "(nat \<Rightarrow> byte) \<Rightarrow> libspectrum_tape_block \<Rightarrow> lbuffer \<Rightarrow> lbuffer option" where
  "block_writer junk (ROM b) = tzx_write_rom junk b"
| "block_writer junk (TURBO b) = tzx_write_turbo junk b"
| "block_writer junk (PURE_TONE b) = tzx_write_pure_tone junk b"
| "block_writer junk (PULSES b) = tzx_write_pulses junk b"
| "block_writer junk (PURE_DATA b) = tzx_write_data junk b"
| "block_writer junk (RAW_DATA b) = tzx_write_raw_data junk b"
| "block_writer junk (PAUSE b) = tzx_write_pause junk b"
| "block_writer junk (GROUP_START s) = tzx_write_group_start junk s"
| "block_writer junk GROUP_END = (\<lambda>b. tzx_write_empty_block junk b 0x22)"
| "block_writer junk (JUMP j) = tzx_write_jump junk j"
| "block_writer junk (LOOP_START c) = tzx_write_loop_start junk c"
| "block_writer junk LOOP_END = (\<lambda>b. tzx_write_empty_block junk b 0x25)"
| "block_writer junk STOP48 = tzx_write_stop junk"
| "block_writer junk (SET_SIGNAL_LEVEL l) = tzx_write_set_signal_level junk l"
| "block_writer junk (COMMENT s) = tzx_write_comment junk s"
| "block_writer junk (MESSAGE b) = tzx_write_message junk b"
| "block_writer junk (ARCHIVE_INFO b) = tzx_write_archive_info junk b"
| "block_writer junk (HARDWARE b) = tzx_write_hardware junk b"
| "block_writer junk (CUSTOM b) = tzx_write_custom junk b"
| "block_writer junk _ = Some"

lemma puts_block_writer:
  "tzx_exact b \<Longrightarrow> \<not> is_generalised b \<Longrightarrow> buf.puts (block_writer junk b) (block_bytes b)"
  by (cases b) (simp_all only: block_writer.simps puts_data_blocks puts_control_blocks
      puts_archive_info puts_hardware is_generalised.simps, simp_all)

lemma puts_block:
  assumes "tzx_exact (snd node)"
  shows "\<exists>f. tzx_write_block junk tape it node = written_ok \<circ> f \<and> buf.puts f (block_bytes (snd node))"
proof (cases "is_generalised (snd node)")
  case True
  then obtain b where "snd node = GENERALISED_DATA b" by (cases "snd node") auto
  then show ?thesis using puts_generalised [of b junk] assms
    by (simp add: tzx_write_block_def [abs_def])
next
  case False
  then have "tzx_write_block junk tape it node = written_ok \<circ> block_writer junk (snd node)"
    using assms by (cases "snd node") (simp_all add: tzx_write_block_def fun_eq_iff)
  then show ?thesis using puts_block_writer [OF assms False] by blast
qed

text \<open>The whole file: the signature, the version and the blocks.\<close>

definition tzx_file :: "libspectrum_tape_block list \<Rightarrow> byte list" where
  "tzx_file bs = libspectrum_tzx_signature @ [1] @ [20] @ concat (map block_bytes bs)"

lemma puts_blocks:
  "list_all (tzx_exact \<circ> snd) l \<Longrightarrow>
     \<exists>f. tzx_write_loop junk tape it l = written_ok \<circ> f \<and>
       buf.puts f (concat (map block_bytes (map snd l)))"
proof (induction l)
  case Nil
  show ?case using buf.puts_nothing
    by (intro exI [of _ Some]) (simp add: written_ok_def comp_def fun_eq_iff)
next
  case (Cons node l)
  have "list_all (tzx_exact \<circ> snd) l" using Cons.prems by (simp only: list.pred_inject simp_thms)
  then obtain f where f: "tzx_write_loop junk tape it l = written_ok \<circ> f"
    "buf.puts f (concat (map block_bytes (map snd l)))" using Cons.IH by blast
  have "tzx_exact (snd node)" using Cons.prems by simp
  then obtain g where g: "tzx_write_block junk tape it node = written_ok \<circ> g"
    "buf.puts g (block_bytes (snd node))" using puts_block by blast
  have "tzx_write_loop junk tape it (node # l) = written_ok \<circ> (\<lambda>b. g b \<bind> f)"
    by (rule ext) (simp only: tzx_write_loop.simps f(1) g(1) comp_def written_bind)
  moreover have "buf.puts (\<lambda>b. g b \<bind> f) (block_bytes (snd node) @ concat (map block_bytes (map snd l)))"
    by (rule buf.puts_seq [OF g(2) f(2)])
  ultimately show ?case
    by (intro exI [of _ "\<lambda>b. g b \<bind> f"] conjI) (simp_all only: list.map concat.simps)
qed

lemma write_tape:
  assumes "list_all (tzx_exact \<circ> snd) (tape_blocks tape)"
    "has_room b n" "length (tzx_file (map snd (tape_blocks tape))) \<le> n"
  shows "\<exists>b'. internal_tzx_write junk it b tape = Some (ERROR_NONE, b') \<and>
    contents b' = contents b @ tzx_file (map snd (tape_blocks tape))"
proof -
  obtain f where f: "tzx_write_loop junk tape it (tape_blocks tape) = written_ok \<circ> f"
    "buf.puts f (concat (map block_bytes (map snd (tape_blocks tape))))"
    using puts_blocks [OF assms(1)] by blast
  let ?g = "\<lambda>b. libspectrum_buffer_write junk b libspectrum_tzx_signature
      (word_of_nat (length libspectrum_tzx_signature)) \<bind>
    (\<lambda>b. libspectrum_buffer_write_byte junk b 1 \<bind> (\<lambda>b. libspectrum_buffer_write_byte junk b 20 \<bind> f))"
  have eq: "internal_tzx_write junk it b tape = written_ok (?g b)"
    unfolding internal_tzx_write_def f(1) comp_def by (simp only: written_bind)
  have "buf.puts ?g (tzx_file (map snd (tape_blocks tape)))"
    unfolding tzx_file_def by (intro buf.puts_seq puts_byte buf.puts_emit f(2))
  from buf.puts_result [OF this assms(2,3)] show ?thesis unfolding eq by (auto simp: written_ok_def)
qed


definition tzx_example :: "libspectrum_tape_block gslist" where
  "tzx_example =
     [(3, GROUP_START [0x48, 0x69, 0x0a, 0]),
      (7, ROM \<lparr>rom_length = 3, rom_data = [0xff, 1, 0xfe], rom_pause = 1000, rom_pause_tstates = 3500000\<rparr>),
      (4, PULSES \<lparr>pulses_count = 2, pulses_lengths = [667, 735]\<rparr>), (9, JUMP (- 2)), (5, GROUP_END)]"


section \<open>Blocks that do not survive\<close>

text \<open>Selections: the writer counts the identifier and the length bytes in the length.\<close>

definition selection_bytes :: "int list \<Rightarrow> byte list list \<Rightarrow> byte list" where
  "selection_bytes os ss = concat (map (\<lambda>(i, s). word_bytes (word_of_int i) @ string_bytes s) (zip os ss))"

definition select_bytes :: "select_block \<Rightarrow> byte list" where
  "select_bytes b = [0x28] @
     word_bytes (ucast (4 + 3 * select_count b + word_of_nat (texts_length (select_descriptions b)))) @
     [ucast (select_count b)] @ selection_bytes (select_offsets b) (select_descriptions b)"

lemma puts_selections:
  assumes "length os = n" "length ss = n" "list_all text_ok ss"
  shows "buf.puts (\<lambda>b. write_selections junk b os ss 0 n) (selection_bytes os ss)"
proof -
  have step: "buf.puts (\<lambda>b. nget os i \<bind> (\<lambda>k. libspectrum_buffer_write_word junk b (word_of_int k) \<bind>
      (\<lambda>b. nget ss i \<bind> (\<lambda>s. tzx_write_string junk b s)))) (word_bytes (word_of_int (os ! i)) @ string_bytes (ss ! i))"
    if "i < n" for i
    using that assms buf.puts_seq [OF puts_word puts_string, of "ss ! i"]
    by (simp add: nget_def list_all_length)
  have "buf.puts (\<lambda>b. write_selections junk b os ss 0 n)
      (concat (map (\<lambda>i. word_bytes (word_of_int (os ! i)) @ string_bytes (ss ! i)) [0..<0 + n]))"
    by (rule buf.puts_loop [where m = n, OF _ _ step]) simp_all
  moreover have "concat (map (\<lambda>i. word_bytes (word_of_int (os ! i)) @ string_bytes (ss ! i)) [0..<0 + n]) =
      selection_bytes os ss"
    unfolding selection_bytes_def
    by (rule arg_cong [of _ _ concat]) (rule nth_equalityI, use assms in simp_all)
  ultimately show ?thesis by simp
qed

lemma puts_select:
  assumes "length (select_offsets b) = unat (select_count b)"
    "length (select_descriptions b) = unat (select_count b)" "list_all text_ok (select_descriptions b)"
  shows "buf.puts (tzx_write_select junk b) (select_bytes b)"
proof -
  have lens: "add_lengths (select_descriptions b) 0 (unat (select_count b)) (4 + 3 * select_count b) =
      Some (4 + 3 * select_count b + word_of_nat (texts_length (select_descriptions b)))"
    using add_lengths_texts [of "select_descriptions b" "[]"] assms by simp
  show ?thesis using assms
    unfolding tzx_write_select_def [abs_def] Let_def lens bind.bind_lunit select_bytes_def
    by (intro buf.puts_seq puts_byte puts_word puts_selections) simp_all
qed

lemma length_selection_bytes:
  "length os = length ss \<Longrightarrow> list_all text_ok ss \<Longrightarrow>
     length (selection_bytes os ss) = 3 * length ss + texts_length ss"
proof (induction os ss rule: list_induct2)
  case (Cons i os s ss)
  then have "length (string_bytes s) = 1 + (length s - 1)" by (simp add: string_bytes_def)
  then show ?case using Cons by (simp add: selection_bytes_def texts_length_def)
qed (simp_all add: selection_bytes_def texts_length_def)

text \<open>
  C21: a selection block is written with a length three bytes too big, so when it is the last
  block of the file the reader rejects what the writer wrote.
\<close>

theorem written_select_rejected:
  assumes "length (select_offsets b) = unat (select_count b)"
    "length (select_descriptions b) = unat (select_count b)" "list_all text_ok (select_descriptions b)"
    and fits: "4 + 3 * unat (select_count b) + texts_length (select_descriptions b) < 65536"
    and room: "has_room out n" "length (select_bytes b) \<le> n"
  shows "\<exists>out'. tzx_write_select junk b out = Some out' \<and>
    contents out' = contents out @ select_bytes b \<and>
    (\<exists>rest. tzx_read_block m tape (hd (select_bytes b)) (tl (select_bytes b)) = Some (ERROR_CORRUPT, tape, rest))"
proof -
  let ?t = "texts_length (select_descriptions b)"
  let ?len = "4 + 3 * select_count b + word_of_nat ?t :: size_t"
  define body where "body = ucast (select_count b) # selection_bytes (select_offsets b) (select_descriptions b)"
  have "unat ?len = 4 + 3 * unat (select_count b) + ?t"
    using fits by (simp add: unat_word_ariths unat_of_nat)
  then have len: "unat (ucast (ucast ?len :: lword) :: dword) = 4 + 3 * unat (select_count b) + ?t"
    using fits by (simp add: unat_ucast_small)
  have body: "length body = 1 + 3 * unat (select_count b) + ?t"
    using length_selection_bytes [of "select_offsets b" "select_descriptions b"] assms(1-3)
    by (simp add: body_def)
  have bytes: "tl (select_bytes b) = word_bytes (ucast ?len) @ body" "hd (select_bytes b) = 0x28"
    by (simp_all add: select_bytes_def body_def)
  have "tzx_read_select m tape (word_bytes (ucast ?len) @ body) = Some (ERROR_CORRUPT, tape, body)"
    using body len by (simp add: tzx_read_select_def read_word_bytes)
  then show ?thesis
    using buf.puts_result [OF puts_select [OF assms(1-3)] room, of junk] bytes
    by (auto simp: tzx_read_block_def)
qed

theorem written_select_rejected_witness:
  "\<forall>junk m tape. \<exists>out'. tzx_write_select junk \<lparr>select_count = 1, select_offsets = [1],
      select_descriptions = [[0x41, 0]]\<rparr> (libspectrum_buffer_alloc junk) = Some out' \<and>
    contents out' = contents (libspectrum_buffer_alloc junk) @ select_bytes \<lparr>select_count = 1,
      select_offsets = [1], select_descriptions = [[0x41, 0]]\<rparr> \<and>
    (\<exists>rest. tzx_read_block m tape
      (hd (select_bytes \<lparr>select_count = 1, select_offsets = [1], select_descriptions = [[0x41, 0]]\<rparr>))
      (tl (select_bytes \<lparr>select_count = 1, select_offsets = [1], select_descriptions = [[0x41, 0]]\<rparr>)) =
      Some (ERROR_CORRUPT, tape, rest))"
  by (intro allI, rule written_select_rejected [where n = 100])
    (simp_all add: text_ok_def texts_length_def alloc_has_room select_bytes_def selection_bytes_def string_bytes_def)

text \<open>
  The conversion of run-length encoded pulses: the buffer is checked for the whole bytes of a
  pulse only, not for the samples that are already in the current byte.
\<close>

definition rle_start :: "(nat \<Rightarrow> byte) \<Rightarrow> rle_write_state" where
  "rle_start junk = \<lparr>bits_used = 0, rle_level = False, tape_buffer = (renew junk [] 8192)[0 := 0],
     rle_tape_length = 8192, rle_used = 0\<rparr>"

lemma samples_inside:
  "bits_used r < 8 \<Longrightarrow> length (tape_buffer r) = 8192 \<Longrightarrow>
     8 * unat (rle_used r) + bits_used r + n < 8 * 8192 \<Longrightarrow>
     \<exists>r'. write_samples n r = Some r' \<and> bits_used r' < 8 \<and>
       length (tape_buffer r') = 8192 \<and> rle_tape_length r' = rle_tape_length r \<and>
       8 * unat (rle_used r') + bits_used r' = 8 * unat (rle_used r) + bits_used r + n"
proof (induction n arbitrary: r)
  case (Suc n)
  define mem where "mem = (if rle_level r then (tape_buffer r)[unat (rle_used r) :=
    tape_buffer r ! unat (rle_used r) OR push_bit (7 - bits_used r) 1] else tape_buffer r)"
  have inside: "unat (rle_used r) < 8192" using Suc.prems by simp
  have mem: "length mem = 8192" using Suc.prems by (simp add: mem_def)
  show ?case
  proof (cases "bits_used r = 7")
    case True
    then have "unat (rle_used r) < 8191" using Suc.prems by simp
    then have u: "unat (rle_used r + 1) = unat (rle_used r) + 1" by (subst unat_plus_if') auto
    let ?r = "r\<lparr>rle_used := rle_used r + 1, tape_buffer := mem[unat (rle_used r) + 1 := 0], bits_used := 0\<rparr>"
    have "write_sample r = Some ?r"
      using True Suc.prems u inside by (simp add: write_sample_def aset_def aget_def mem_def)
    then show ?thesis using Suc.IH [of ?r] Suc.prems u True mem by auto
  next
    case False
    let ?r = "r\<lparr>tape_buffer := mem, bits_used := bits_used r + 1\<rparr>"
    have "write_sample r = Some ?r"
      using False Suc.prems inside by (simp add: write_sample_def aset_def aget_def mem_def)
    then show ?thesis using Suc.IH [of ?r] Suc.prems False mem by auto
  qed
qed auto

lemma write_samples_Suc: "write_samples (Suc n) r = write_samples n r \<bind> write_sample"
proof (induction n arbitrary: r)
  case 0
  have "write_samples 0 = Some" by (rule ext) simp
  then show ?case by simp
next
  case (Suc n)
  have "write_samples (Suc n) = (\<lambda>r. write_samples n r \<bind> write_sample)" by (rule ext) (rule Suc)
  then have "write_sample r \<bind> write_samples (Suc n) = (write_sample r \<bind> write_samples n) \<bind> write_sample"
    by (cases "write_sample r") simp_all
  then show ?case by simp
qed

text \<open>
  C22: after a low pulse of 65527 samples a pulse of nine samples is written past the end of the
  buffer.
\<close>

theorem rle_pulse_overflows:
  "\<exists>r. write_pulse junk 65527 (rle_start junk) = Some r \<and> write_pulse junk 9 r = None"
proof -
  obtain r where r: "write_samples 65527 (rle_start junk) = Some r" "bits_used r < 8"
    "length (tape_buffer r) = 8192" "rle_tape_length r = 8192" "8 * unat (rle_used r) + bits_used r = 65527"
    using samples_inside [of "rle_start junk" 65527] by (auto simp: rle_start_def)
  let ?r = "r\<lparr>rle_level := \<not> rle_level r\<rparr>"
  have s: "sint (65527 :: dword) = 65527" "sint (9 :: dword) = 9"
    by (simp_all add: sint_uint signed_take_bit_int_eq_self)
  have first: "write_pulse junk 65527 (rle_start junk) = Some ?r"
    using r(1) s by (simp add: write_pulse_def rle_start_def)
  obtain r8 where r8: "write_samples 8 ?r = Some r8" "bits_used r8 < 8"
    "length (tape_buffer r8) = 8192" "8 * unat (rle_used r8) + bits_used r8 = 65535"
    using samples_inside [of ?r 8] r by auto
  have "bits_used r8 = 7" "unat (rle_used r8) = 8191" using r8(2,4) by presburger+
  then have "write_sample r8 = None" using r8(3)
    by (simp add: write_sample_def aget_def aset_def unat_plus_if' Let_def)
  then have "write_samples 9 ?r = None"
    using r8(1) write_samples_Suc [of 8 ?r] by simp
  moreover have "unat (rle_used r) = 8190" using r(2,5) by presburger
  then have "rle_used r = 8190" by (simp add: word_unat_eq_iff)
  ultimately have "write_pulse junk 9 ?r = None"
    using r(4) s by (simp add: write_pulse_def)
  then show ?thesis using first by blast
qed

end
