(* ===== verification/Hdf.thy ===== *)
theory Hdf
  imports GHash
begin

text \<open>
  The disk image layer of \<open>ide.c\<close>, which the IDE channel and the SD / MMC card share: a drive
  with its HDF image file, the write cache of the drive, and the reading, writing and
  committing of sectors. What the machine sees of a drive is the function \<open>sector_view\<close>;
  the theorems state how the operations change it.

  A file is its bytes and the size the file system lets it grow to. \<open>fseek\<close> to a position
  that is not negative succeeds, \<open>fwrite\<close> behind the end pads the file with zeros and writes
  as many bytes as there is room for. A \<open>FILE\<close> that could not be opened is \<open>None\<close>.
\<close>

record hdf_file =
  file_bytes :: "byte list"
  file_limit :: nat

definition fread_at :: "hdf_file \<Rightarrow> nat \<Rightarrow> nat \<Rightarrow> byte list" where
  "fread_at f pos n = take n (drop pos (file_bytes f))"

definition overwrite :: "byte list \<Rightarrow> nat \<Rightarrow> byte list \<Rightarrow> byte list" where
  "overwrite old pos new =
     take pos old @ replicate (pos - length old) 0 @ new @ drop (pos + length new) old"

definition fwrite_at :: "hdf_file \<Rightarrow> nat \<Rightarrow> byte list \<Rightarrow> hdf_file \<times> nat" where
  "fwrite_at f pos new =
     (let n = min (length new) (max (length (file_bytes f)) (file_limit f) - pos) in
      if n = 0 then (f, 0) else (f\<lparr>file_bytes := overwrite (file_bytes f) pos (take n new)\<rparr>, n))"

section \<open>The drive\<close>

record libspectrum_hdf_header =
  signature :: "byte list"
  hdf_id :: byte
  revision :: byte
  flags :: byte
  datastart_low :: byte
  datastart_hi :: byte
  reserved :: "byte list"
  drive_identity :: "byte list"

record libspectrum_ide_drive =
  disk :: "hdf_file option"
  data_offset :: lword
  sector_size :: lword
  hdf :: libspectrum_hdf_header
  cylinders :: int
  heads :: int
  sectors :: int
  drive_error :: byte
  drive_status :: byte

text \<open>
  \<open>fread( &drv->hdf, 1, sizeof( libspectrum_hdf_header ), f )\<close>: the header is all bytes and
  has no padding. A short read leaves the rest of the old header.
\<close>

definition sizeof_hdf_header :: nat where
  "sizeof_hdf_header = 0x80"

definition hdf_header_bytes :: "libspectrum_hdf_header \<Rightarrow> byte list" where
  "hdf_header_bytes h =
     signature h @ [hdf_id h, revision h, flags h, datastart_low h, datastart_hi h] @
     reserved h @ drive_identity h"

definition hdf_header_of :: "byte list \<Rightarrow> libspectrum_hdf_header" where
  "hdf_header_of bs =
     \<lparr>signature = take 6 bs, hdf_id = bs ! 6, revision = bs ! 7, flags = bs ! 8,
      datastart_low = bs ! 9, datastart_hi = bs ! 10, reserved = take 0x0b (drop 11 bs),
      drive_identity = take 0x6a (drop 22 bs)\<rparr>"

definition fread_header :: "libspectrum_hdf_header \<Rightarrow> byte list \<Rightarrow> libspectrum_hdf_header" where
  "fread_header old got = hdf_header_of (got @ drop (length got) (hdf_header_bytes old))"

text \<open>\<open>GET_WORD\<close>: word \<open>index\<close> of a block of little-endian words.\<close>

definition GET_WORD :: "byte list \<Rightarrow> nat \<Rightarrow> int option" where
  "GET_WORD arr index =
     do { hi \<leftarrow> nget arr (2 * index + 1);
          lo \<leftarrow> nget arr (2 * index);
          Some (uint hi * 0x100 + uint lo) }"

definition IDENTITY_NUM_CYLINDERS :: nat where "IDENTITY_NUM_CYLINDERS = 1"
definition IDENTITY_NUM_HEADS :: nat where "IDENTITY_NUM_HEADS = 3"
definition IDENTITY_NUM_SECTORS :: nat where "IDENTITY_NUM_SECTORS = 6"

definition RS_IDE :: "byte list" where
  "RS_IDE = [0x52, 0x53, 0x2d, 0x49, 0x44, 0x45]"

definition libspectrum_ide_insert_into_drive ::
    "libspectrum_ide_drive \<Rightarrow> hdf_file option \<Rightarrow> libspectrum_ide_drive c_result" where
  "libspectrum_ide_insert_into_drive drv opened =
     (case opened of
        None \<Rightarrow> Some (ERROR_UNKNOWN, drv)
      | Some f \<Rightarrow>
          let got = fread_at f 0 sizeof_hdf_header; drv = drv\<lparr>hdf := fread_header (hdf drv) got\<rparr> in
          if length got \<noteq> sizeof_hdf_header then Some (ERROR_UNKNOWN, drv)
          else if signature (hdf drv) \<noteq> RS_IDE \<or> hdf_id (hdf drv) \<noteq> 0x1a then
            Some (ERROR_CORRUPT, drv)
          else
            do { c \<leftarrow> GET_WORD (drive_identity (hdf drv)) IDENTITY_NUM_CYLINDERS;
                 h \<leftarrow> GET_WORD (drive_identity (hdf drv)) IDENTITY_NUM_HEADS;
                 s \<leftarrow> GET_WORD (drive_identity (hdf drv)) IDENTITY_NUM_SECTORS;
                 Some (ERROR_NONE,
                   drv\<lparr>disk := Some f,
                       data_offset := push_bit 8 (ucast (datastart_hi (hdf drv))) OR
                         ucast (datastart_low (hdf drv)),
                       sector_size := (if flags (hdf drv) AND 0x01 \<noteq> 0 then 256 else 512),
                       cylinders := c, heads := h, sectors := s\<rparr>) })"

section \<open>Sectors and the write cache\<close>

text \<open>
  The cache holds, under the number of a sector, a buffer of \<open>sector_size\<close> bytes with what
  the sector is to hold. The sum is taken in 32 bits without sign, whatever the size of
  \<open>long\<close>.
\<close>

type_synonym sector_cache = "byte list int_table"

definition sector_position :: "libspectrum_ide_drive \<Rightarrow> dword \<Rightarrow> nat" where
  "sector_position drv sector_number =
     unat (ucast (data_offset drv) + ucast (sector_size drv) * sector_number :: dword)"

text \<open>
  \<open>write_to_disk\<close> runs as the callback of \<open>g_hash_table_foreach_remove\<close>. Its drive is
  \<open>None\<close> once a step has had no defined behaviour: a drive without a file, or a buffer
  shorter than a sector.
\<close>

definition write_to_disk :: "dword \<Rightarrow> byte list \<Rightarrow> libspectrum_ide_drive option \<Rightarrow>
    bool \<times> libspectrum_ide_drive option" where
  "write_to_disk key buf user_data =
     (case user_data of
        None \<Rightarrow> (False, None)
      | Some drv \<Rightarrow>
          (case disk drv of
             None \<Rightarrow> (False, None)
           | Some f \<Rightarrow>
               if length buf < unat (sector_size drv) then (False, None)
               else let (f, n) = fwrite_at f (sector_position drv key)
                                   (take (unat (sector_size drv)) buf)
                    in (n = unat (sector_size drv), Some (drv\<lparr>disk := Some f\<rparr>))))"

definition libspectrum_ide_commit_drive ::
    "libspectrum_ide_drive \<Rightarrow> sector_cache \<Rightarrow> (libspectrum_ide_drive \<times> sector_cache) option" where
  "libspectrum_ide_commit_drive drv cache =
     (if disk drv = None then Some (drv, cache)
      else let (cache, _, drv) = g_hash_table_foreach_remove cache write_to_disk (Some drv)
           in map_option (\<lambda>drv. (drv, cache)) drv)"

definition clear_cache :: "dword \<Rightarrow> byte list \<Rightarrow> unit \<Rightarrow> bool \<times> unit" where
  "clear_cache key buf user_data = (True, ())"

definition libspectrum_ide_eject_from_drive ::
    "libspectrum_ide_drive \<Rightarrow> sector_cache \<Rightarrow> libspectrum_ide_drive \<times> sector_cache" where
  "libspectrum_ide_eject_from_drive drv cache =
     (if disk drv = None then (drv, cache)
      else (drv\<lparr>disk := None\<rparr>, fst (g_hash_table_foreach_remove cache clear_cache ())))"

text \<open>The two copying loops: each byte of a packed sector is the low half of a word.\<close>

fun unpack_bytes :: "byte list \<Rightarrow> byte list" where
  "unpack_bytes [] = []"
| "unpack_bytes (b # bs) = b # 0xff # unpack_bytes bs"

fun pack_bytes :: "byte list \<Rightarrow> byte list" where
  "pack_bytes (b # _ # bs) = b # pack_bytes bs"
| "pack_bytes [b] = [b]"
| "pack_bytes [] = []"

definition unpack_sector :: "lword \<Rightarrow> byte list \<Rightarrow> byte list \<Rightarrow> byte list option" where
  "unpack_sector ss buf dest =
     (if ss = 256 then
        if length buf < 256 then None
        else memcpy_at dest 0 (unpack_bytes (take 256 buf)) 512
      else memcpy_at dest 0 buf 512)"

definition libspectrum_ide_read_sector_from_hdf ::
    "libspectrum_ide_drive \<Rightarrow> sector_cache \<Rightarrow> dword \<Rightarrow> byte list \<Rightarrow> (int \<times> byte list) option" where
  "libspectrum_ide_read_sector_from_hdf drv cache sector_number dest =
     (case g_hash_table_lookup cache sector_number of
        Some buf \<Rightarrow>
          map_option (Pair 0) (unpack_sector (sector_size drv) buf dest)
      | None \<Rightarrow>
          do { f \<leftarrow> disk drv;
               let packed_buf = fread_at f (sector_position drv sector_number)
                                  (unat (sector_size drv));
               if 512 < length packed_buf then None
               else if length packed_buf \<noteq> unat (sector_size drv) then Some (1, dest)
               else map_option (Pair 0) (unpack_sector (sector_size drv) packed_buf dest) })"

text \<open>
  The buffer of a new cache entry is not initialised (\<open>junk\<close>). An entry that is there is
  written in place, which for the table is the same as setting its value.
\<close>

definition libspectrum_ide_write_sector_to_hdf :: "(nat \<Rightarrow> byte) \<Rightarrow> libspectrum_ide_drive \<Rightarrow>
    sector_cache \<Rightarrow> dword \<Rightarrow> byte list \<Rightarrow> sector_cache option" where
  "libspectrum_ide_write_sector_to_hdf junk drv cache sector_number src =
     (let buf = (case g_hash_table_lookup cache sector_number of
                   Some buf \<Rightarrow> buf
                 | None \<Rightarrow> map junk [0..<unat (sector_size drv)]) in
      do { buf \<leftarrow> (if sector_size drv = 256
                   then if length src < 511 then None
                        else memcpy_at buf 0 (pack_bytes (take 512 src)) 256
                   else memcpy_at buf 0 src 512);
           Some (g_hash_table_insert cache sector_number buf) })"

section \<open>What the machine sees\<close>

text \<open>
  A drive with an image in it, and a cache that fits it. The packed contents of a sector
  are in the cache or else in the file.
\<close>

definition drive_ok :: "libspectrum_ide_drive \<Rightarrow> bool" where
  "drive_ok drv \<longleftrightarrow> disk drv \<noteq> None \<and> sector_size drv \<in> {256, 512}"

definition cache_ok :: "libspectrum_ide_drive \<Rightarrow> sector_cache \<Rightarrow> bool" where
  "cache_ok drv cache \<longleftrightarrow> ghash_ok cache \<and>
     (\<forall>n buf. g_hash_table_lookup cache n = Some buf \<longrightarrow> length buf = unat (sector_size drv))"

definition file_sector :: "libspectrum_ide_drive \<Rightarrow> dword \<Rightarrow> byte list option" where
  "file_sector drv n =
     (case disk drv of
        None \<Rightarrow> None
      | Some f \<Rightarrow>
          let got = fread_at f (sector_position drv n) (unat (sector_size drv))
          in if length got = unat (sector_size drv) then Some got else None)"

definition packed_view :: "libspectrum_ide_drive \<Rightarrow> sector_cache \<Rightarrow> dword \<Rightarrow> byte list option" where
  "packed_view drv cache n =
     (case g_hash_table_lookup cache n of Some buf \<Rightarrow> Some buf | None \<Rightarrow> file_sector drv n)"

definition unpacked :: "lword \<Rightarrow> byte list \<Rightarrow> byte list" where
  "unpacked ss buf = (if ss = 256 then unpack_bytes buf else buf)"

definition packed :: "lword \<Rightarrow> byte list \<Rightarrow> byte list" where
  "packed ss src = (if ss = 256 then pack_bytes src else src)"

text \<open>The 512 bytes of a sector, as the machine reads them; \<open>None\<close> when it cannot be read.\<close>

definition sector_view :: "libspectrum_ide_drive \<Rightarrow> sector_cache \<Rightarrow> dword \<Rightarrow> byte list option" where
  "sector_view drv cache n = map_option (unpacked (sector_size drv)) (packed_view drv cache n)"

lemma length_unpack_bytes [simp]: "length (unpack_bytes bs) = 2 * length bs"
  by (induction bs) auto

lemma length_pack_bytes [simp]: "length (pack_bytes bs) = (length bs + 1) div 2"
  by (induction bs rule: pack_bytes.induct) auto

lemma pack_unpack [simp]: "pack_bytes (unpack_bytes bs) = bs"
  by (induction bs) auto

lemma unpack_pack_nth:
  "i < length src \<Longrightarrow> even (length src) \<Longrightarrow>
     unpack_bytes (pack_bytes src) ! i = (if even i then src ! i else 0xff)"
proof (induction src arbitrary: i rule: pack_bytes.induct)
  case (1 b c bs)
  show ?case
  proof (cases i)
    case (Suc j)
    then show ?thesis using 1 by (cases j) auto
  qed simp
qed auto

lemma memcpy_at_whole: "length dest = n \<Longrightarrow> length src = n \<Longrightarrow> memcpy_at dest 0 src n = Some src"
  by (simp add: memcpy_at_def)

lemma unpack_sector_ok:
  assumes "ss \<in> {256, 512}" and "length buf = unat ss" and "length dest = 512"
  shows "unpack_sector ss buf dest = Some (unpacked ss buf)" "length (unpacked ss buf) = 512"
  using assms by (auto simp: unpack_sector_def unpacked_def memcpy_at_whole)

lemma drive_ok_size:
  assumes "drive_ok drv"
  shows "unat (sector_size drv) = 256 \<or> unat (sector_size drv) = 512"
    "unat (sector_size drv) \<le> 512" "0 < unat (sector_size drv)"
  using assms by (auto simp: drive_ok_def)

lemma file_sector_length: "file_sector drv n = Some buf \<Longrightarrow> length buf = unat (sector_size drv)"
  by (auto simp: file_sector_def Let_def split: option.splits if_splits)

lemma packed_view_length:
  "cache_ok drv cache \<Longrightarrow> packed_view drv cache n = Some buf \<Longrightarrow> length buf = unat (sector_size drv)"
  by (auto simp: packed_view_def cache_ok_def dest: file_sector_length split: option.splits)

lemma sector_view_length:
  "drive_ok drv \<Longrightarrow> cache_ok drv cache \<Longrightarrow> sector_view drv cache n = Some s \<Longrightarrow> length s = 512"
  using unpack_sector_ok(2) [of "sector_size drv" _ "replicate 512 0"]
  by (auto simp: sector_view_def drive_ok_def dest!: packed_view_length)

lemma read_sector_view:
  assumes ok: "drive_ok drv" and c: "cache_ok drv cache" and d: "length dest = 512"
  shows "libspectrum_ide_read_sector_from_hdf drv cache n dest =
    Some (case sector_view drv cache n of Some s \<Rightarrow> (0, s) | None \<Rightarrow> (1, dest))"
proof -
  obtain f where f: "disk drv = Some f" using ok by (auto simp: drive_ok_def)
  have u: "unpack_sector (sector_size drv) buf dest = Some (unpacked (sector_size drv) buf)"
    if "length buf = unat (sector_size drv)" for buf
    using that ok d by (intro unpack_sector_ok(1)) (simp_all add: drive_ok_def)
  show ?thesis
  proof (cases "g_hash_table_lookup cache n")
    case (Some buf)
    then have "length buf = unat (sector_size drv)" using c by (simp add: cache_ok_def)
    then show ?thesis
      using Some u by (simp add: libspectrum_ide_read_sector_from_hdf_def sector_view_def packed_view_def)
  next
    case None
    let ?got = "fread_at f (sector_position drv n) (unat (sector_size drv))"
    have "length ?got \<le> unat (sector_size drv)" by (simp add: fread_at_def)
    then have "length ?got \<le> 512" using drive_ok_size(2) [OF ok] by linarith
    then show ?thesis
      using None u [of ?got]
      by (auto simp: libspectrum_ide_read_sector_from_hdf_def sector_view_def packed_view_def
          file_sector_def f Let_def)
  qed
qed


lemma write_sector_cache:
  assumes ok: "drive_ok drv" and c: "cache_ok drv cache" and s: "length src = 512"
  shows "\<exists>cache'. libspectrum_ide_write_sector_to_hdf junk drv cache n src = Some cache' \<and>
    cache_ok drv cache' \<and>
    (\<forall>m. g_hash_table_lookup cache' m =
      (if m = n then Some (packed (sector_size drv) src) else g_hash_table_lookup cache m))"
proof -
  let ?buf = "case g_hash_table_lookup cache n of Some buf \<Rightarrow> buf
    | None \<Rightarrow> map junk [0..<unat (sector_size drv)]"
  let ?p = "packed (sector_size drv) src"
  have "length ?buf = unat (sector_size drv)"
    using c by (auto simp: cache_ok_def split: option.splits)
  then have w: "libspectrum_ide_write_sector_to_hdf junk drv cache n src =
      Some (g_hash_table_insert cache n ?p)"
    using ok s drive_ok_size(1) [OF ok]
    by (auto simp: libspectrum_ide_write_sector_to_hdf_def Let_def packed_def memcpy_at_whole
        drive_ok_def)
  moreover have "length ?p = unat (sector_size drv)"
    using ok s by (auto simp: drive_ok_def packed_def)
  ultimately show ?thesis
    using c it.lookup_insert [of cache n ?p] it.ok_insert [of cache n ?p]
    by (auto simp: cache_ok_def)
qed

text \<open>A sector written and read back: a packed image keeps the low byte of each word only.\<close>

definition kept :: "lword \<Rightarrow> byte list \<Rightarrow> byte list" where
  "kept ss src = (if ss = 256 then map (\<lambda>i. if even i then src ! i else 0xff) [0..<512] else src)"

lemma unpacked_packed: "length src = 512 \<Longrightarrow> unpacked ss (packed ss src) = kept ss src"
  by (rule nth_equalityI) (auto simp: unpacked_def packed_def kept_def unpack_pack_nth)

lemma sector_view_write:
  assumes "drive_ok drv" and "cache_ok drv cache" and "length src = 512"
  shows "\<exists>cache'. libspectrum_ide_write_sector_to_hdf junk drv cache n src = Some cache' \<and>
    cache_ok drv cache' \<and>
    (\<forall>m. sector_view drv cache' m =
      (if m = n then Some (kept (sector_size drv) src) else sector_view drv cache m))"
proof -
  obtain cache' where c: "libspectrum_ide_write_sector_to_hdf junk drv cache n src = Some cache'"
      "cache_ok drv cache'"
      "\<And>m. g_hash_table_lookup cache' m =
        (if m = n then Some (packed (sector_size drv) src) else g_hash_table_lookup cache m)"
    using write_sector_cache [OF assms, of junk n] by blast
  show ?thesis
    by (rule exI [of _ cache'])
      (simp add: c sector_view_def packed_view_def unpacked_packed [OF assms(3), symmetric])
qed

text \<open>
  Reading a sector after writing one gives the bytes just written if it is the same
  sector (of a packed image, those that it keeps), and otherwise what it would have given before
  the write.
\<close>

theorem sector_write_read:
  assumes ok: "drive_ok drv" and c: "cache_ok drv cache" and src: "length src = 512"
    and dest: "length dest = 512"
  shows "libspectrum_ide_write_sector_to_hdf junk drv cache n src \<bind>
      (\<lambda>cache'. libspectrum_ide_read_sector_from_hdf drv cache' m dest) =
    (if m = n then Some (0, kept (sector_size drv) src)
     else libspectrum_ide_read_sector_from_hdf drv cache m dest)"
  using sector_view_write [OF ok c src, of junk n] read_sector_view [OF ok _ dest] c
  by auto

definition blank_header :: libspectrum_hdf_header where
  "blank_header = hdf_header_of (replicate 128 0)"

definition demo_drive :: "hdf_file option \<Rightarrow> lword \<Rightarrow> libspectrum_ide_drive" where
  "demo_drive f ss =
     \<lparr>disk = f, data_offset = 0x80, sector_size = ss, hdf = blank_header,
      cylinders = 2, heads = 1, sectors = 2, drive_error = 0, drive_status = 0x40\<rparr>"

lemma cache_ok_new: "cache_ok drv int_table_new"
  by (simp add: cache_ok_def it.ok_empty it.lookup_empty)

theorem sector_write_read_witness:
  "libspectrum_ide_write_sector_to_hdf (\<lambda>_. 0) (demo_drive (Some \<lparr>file_bytes = [], file_limit = 9999\<rparr>) 512)
      int_table_new 3 (replicate 512 7) \<bind>
    (\<lambda>cache'. libspectrum_ide_read_sector_from_hdf
      (demo_drive (Some \<lparr>file_bytes = [], file_limit = 9999\<rparr>) 512) cache' 3 (replicate 512 0)) =
    Some (0, replicate 512 7)"
  by (subst sector_write_read)
    (simp_all add: drive_ok_def demo_drive_def cache_ok_new kept_def)

section \<open>Committing the cache\<close>

text \<open>
  A sector whose position does not wrap around at 4 GiB, and for which the file has room.
\<close>

definition sector_fits :: "libspectrum_ide_drive \<Rightarrow> dword \<Rightarrow> bool" where
  "sector_fits drv n \<longleftrightarrow> unat (data_offset drv) + unat (sector_size drv) * unat n < 2 ^ 32"

definition sector_has_room :: "libspectrum_ide_drive \<Rightarrow> dword \<Rightarrow> bool" where
  "sector_has_room drv n \<longleftrightarrow>
     (case disk drv of
        None \<Rightarrow> False
      | Some f \<Rightarrow> sector_position drv n + unat (sector_size drv) \<le> file_limit f)"

lemma sector_position_nat:
  assumes "sector_fits drv n"
  shows "sector_position drv n = unat (data_offset drv) + unat (sector_size drv) * unat n"
proof -
  let ?o = "ucast (data_offset drv) :: dword" and ?s = "ucast (sector_size drv) :: dword"
  have u: "unat ?o = unat (data_offset drv)" "unat ?s = unat (sector_size drv)"
    by (simp_all add: unsigned_ucast_eq take_bit_nat_eq_self unsigned_less [THEN less_le_trans])
  have "unat (?s * n) = unat (sector_size drv) * unat n"
    using assms by (simp add: unat_word_ariths u sector_fits_def)
  then show ?thesis
    using assms by (simp add: sector_position_def unat_word_ariths u sector_fits_def)
qed

lemma sector_positions_disjoint:
  assumes "sector_fits drv n" and "sector_fits drv m" and "m \<noteq> n"
  shows "sector_position drv n + unat (sector_size drv) \<le> sector_position drv m \<or>
    sector_position drv m + unat (sector_size drv) \<le> sector_position drv n"
proof -
  let ?s = "unat (sector_size drv)"
  have "unat m < unat n \<or> unat n < unat m"
    using assms(3) by (metis nat_neq_iff word_unat_eq_iff)
  then have "?s * unat m + ?s \<le> ?s * unat n \<or> ?s * unat n + ?s \<le> ?s * unat m"
    by (metis Suc_leI mult_Suc_right mult_le_mono2 add.commute)
  then show ?thesis
    using assms by (auto simp: sector_position_nat)
qed

lemma overwrite_same: "take (length new) (drop pos (overwrite old pos new)) = new"
  by (simp add: overwrite_def)

lemma nth_overwrite:
  assumes "i < length old" and "i < pos \<or> pos + length new \<le> i"
  shows "overwrite old pos new ! i = old ! i"
proof (cases "i < pos")
  case True
  then show ?thesis using assms by (simp add: overwrite_def nth_append_left)
next
  case False
  then have i: "pos + length new \<le> i" using assms by simp
  then have "pos - length old = 0" "length (take pos old) = pos" using assms by simp_all
  then show ?thesis using i assms(1) by (simp add: overwrite_def nth_append_right)
qed

lemma length_overwrite: "length (overwrite old pos new) = max (length old) (pos + length new)"
  by (auto simp: overwrite_def)

lemma overwrite_other:
  assumes "p + n \<le> length old" and "p + n \<le> pos \<or> pos + length new \<le> p"
  shows "take n (drop p (overwrite old pos new)) = take n (drop p old)"
proof (rule nth_equalityI)
  show "length (take n (drop p (overwrite old pos new))) = length (take n (drop p old))"
    using assms(1) by (simp add: length_overwrite)
  show "take n (drop p (overwrite old pos new)) ! i = take n (drop p old) ! i"
    if "i < length (take n (drop p (overwrite old pos new)))" for i
  proof -
    have i: "i < n" using that by simp
    then have "overwrite old pos new ! (p + i) = old ! (p + i)"
      using assms by (intro nth_overwrite) auto
    then show ?thesis using i assms(1) by (simp add: length_overwrite)
  qed
qed

definition put_sector :: "dword \<times> byte list \<Rightarrow> libspectrum_ide_drive \<Rightarrow> libspectrum_ide_drive" where
  "put_sector = (\<lambda>(k, buf) drv. drv\<lparr>disk := map_option (\<lambda>f.
     f\<lparr>file_bytes := overwrite (file_bytes f) (sector_position drv k) buf\<rparr>) (disk drv)\<rparr>)"

lemma put_sector_fields [simp]:
  "sector_size (put_sector e drv) = sector_size drv"
  "data_offset (put_sector e drv) = data_offset drv"
  "sector_position (put_sector e drv) = sector_position drv"
  "sector_fits (put_sector e drv) = sector_fits drv"
  "sector_has_room (put_sector e drv) = sector_has_room drv"
  "drive_ok (put_sector e drv) = drive_ok drv"
  by (simp_all add: put_sector_def sector_position_def sector_fits_def sector_has_room_def
      drive_ok_def fun_eq_iff split: prod.splits option.splits)

lemma file_sector_put:
  assumes ok: "drive_ok drv" and buf: "length buf = unat (sector_size drv)"
    and k: "sector_fits drv k" and n: "sector_fits drv n"
  shows "n = k \<Longrightarrow> file_sector (put_sector (k, buf) drv) n = Some buf"
    and "n \<noteq> k \<Longrightarrow> file_sector drv n = Some s \<Longrightarrow> file_sector (put_sector (k, buf) drv) n = Some s"
proof -
  obtain f where f: "disk drv = Some f" using ok by (auto simp: drive_ok_def)
  have d: "disk (put_sector (k, buf) drv) =
      Some (f\<lparr>file_bytes := overwrite (file_bytes f) (sector_position drv k) buf\<rparr>)"
    by (simp add: put_sector_def f)
  have put: "file_sector (put_sector (k, buf) drv) n =
      (let got = take (unat (sector_size drv)) (drop (sector_position drv n)
           (overwrite (file_bytes f) (sector_position drv k) buf))
       in if length got = unat (sector_size drv) then Some got else None)"
    by (simp add: file_sector_def fread_at_def d)
  show "file_sector (put_sector (k, buf) drv) n = Some buf" if "n = k"
    unfolding put using overwrite_same [of buf "sector_position drv k" "file_bytes f"] that buf
    by simp
  assume "n \<noteq> k" and s: "file_sector drv n = Some s"
  have got: "s = take (unat (sector_size drv)) (drop (sector_position drv n) (file_bytes f))"
      "length s = unat (sector_size drv)"
    using s f by (auto simp: file_sector_def fread_at_def Let_def split: if_splits)
  then have "sector_position drv n + unat (sector_size drv) \<le> length (file_bytes f)"
    using drive_ok_size(3) [OF ok] by simp
  then have same: "take (unat (sector_size drv)) (drop (sector_position drv n)
      (overwrite (file_bytes f) (sector_position drv k) buf)) = s"
    unfolding got(1) using sector_positions_disjoint [OF k n \<open>n \<noteq> k\<close>] buf
    by (intro overwrite_other) auto
  show "file_sector (put_sector (k, buf) drv) n = Some s"
    unfolding put same using got(2) by simp
qed

lemma file_sector_puts:
  assumes "drive_ok drv" and "distinct (map fst es)"
    and "\<And>k buf. (k, buf) \<in> set es \<Longrightarrow> length buf = unat (sector_size drv) \<and> sector_fits drv k"
    and "sector_fits drv n"
  shows "(case map_of es n of Some buf \<Rightarrow> Some buf | None \<Rightarrow> file_sector drv n) = Some s \<Longrightarrow>
    file_sector (fold put_sector es drv) n = Some s"
  using assms
proof (induction es arbitrary: drv)
  case (Cons e es)
  obtain k buf where e: "e = (k, buf)" by (cases e)
  have k: "length buf = unat (sector_size drv)" "sector_fits drv k"
    using Cons.prems(4) [of k buf] by (simp_all add: e)
  have "(case map_of es n of Some b \<Rightarrow> Some b | None \<Rightarrow> file_sector (put_sector e drv) n) = Some s"
  proof (cases "n = k")
    case True
    moreover have "map_of es k = None"
      using Cons.prems(3) by (simp add: e map_of_eq_None_iff)
    ultimately show ?thesis
      using Cons.prems(1) file_sector_put(1) [OF Cons.prems(2) k Cons.prems(5)] by (simp add: e)
  next
    case False
    then show ?thesis
      using Cons.prems(1) file_sector_put(2) [OF Cons.prems(2) k Cons.prems(5)]
      by (auto simp: e split: option.splits)
  qed
  then have "file_sector (fold put_sector es (put_sector e drv)) n = Some s"
    by (rule Cons.IH) (use Cons.prems in auto)
  then show ?case by simp
qed simp

lemma fold_put_sector_fields:
  "sector_size (fold put_sector es drv) = sector_size drv"
  "drive_ok (fold put_sector es drv) = drive_ok drv"
  by (induction es arbitrary: drv) simp_all

lemma write_to_disk_put:
  assumes ok: "drive_ok drv" and buf: "length buf = unat (sector_size drv)"
    and room: "sector_has_room drv k"
  shows "write_to_disk k buf (Some drv) = (True, Some (put_sector (k, buf) drv))"
proof -
  obtain f where f: "disk drv = Some f" using ok by (auto simp: drive_ok_def)
  have "min (unat (sector_size drv))
      (max (length (file_bytes f)) (file_limit f) - sector_position drv k) = unat (sector_size drv)"
    using room f by (auto simp: sector_has_room_def)
  then have "fwrite_at f (sector_position drv k) buf =
      (f\<lparr>file_bytes := overwrite (file_bytes f) (sector_position drv k) buf\<rparr>, unat (sector_size drv))"
    using buf drive_ok_size(3) [OF ok] by (simp add: fwrite_at_def Let_def)
  then show ?thesis
    using f buf by (simp add: write_to_disk_def put_sector_def)
qed

definition commit_ready :: "libspectrum_ide_drive \<Rightarrow> sector_cache \<Rightarrow> bool" where
  "commit_ready drv cache \<longleftrightarrow>
     (\<forall>k. g_hash_table_lookup cache k \<noteq> None \<longrightarrow> sector_fits drv k \<and> sector_has_room drv k)"

lemma cache_entry:
  assumes c: "cache_ok drv cache" and ready: "commit_ready drv cache"
    and e: "(k, buf) \<in> set (concat (nodes cache))"
  shows "length buf = unat (sector_size drv)" "sector_fits drv k" "sector_has_room drv k"
proof -
  have h: "ghash_ok cache" using c by (simp add: cache_ok_def)
  have "g_hash_table_lookup cache k = Some buf"
    unfolding lookup_entries [OF h] using e distinct_entries [OF h] by (rule map_of_is_SomeI [rotated])
  then show "length buf = unat (sector_size drv)" "sector_fits drv k" "sector_has_room drv k"
    using c ready by (auto simp: cache_ok_def commit_ready_def)
qed

lemma commit_puts:
  assumes ok: "drive_ok drv" and c: "cache_ok drv cache" and ready: "commit_ready drv cache"
  shows "\<exists>cache'. libspectrum_ide_commit_drive drv cache =
      Some (fold put_sector (concat (nodes cache)) drv, cache') \<and> empty_table cache'"
proof -
  let ?es = "concat (nodes cache)"
  define I where "I = (\<lambda>d. \<exists>drv'. d = Some drv' \<and> drive_ok drv' \<and> sector_size drv' = sector_size drv \<and>
      sector_has_room drv' = sector_has_room drv)"
  define step where "step = (\<lambda>e. map_option (put_sector e))"
  have "write_to_disk k buf d = (True, step (k, buf) d) \<and> I (step (k, buf) d)"
    if "(k, buf) \<in> set ?es" "I d" for k buf d
  proof -
    obtain drv' where "d = Some drv'" "drive_ok drv'" "sector_size drv' = sector_size drv"
        "sector_has_room drv' = sector_has_room drv"
      using \<open>I d\<close> by (auto simp: I_def)
    then show ?thesis
      using write_to_disk_put [of drv' buf k] cache_entry [OF c ready that(1)]
      by (auto simp: I_def step_def)
  qed
  moreover have "I (Some drv)" using ok by (simp add: I_def)
  moreover have "ghash_ok cache" using c by (simp add: cache_ok_def)
  ultimately obtain cache' n where rem: "g_hash_table_foreach_remove cache write_to_disk (Some drv) =
      (cache', n, fold step ?es (Some drv))" and empty: "empty_table cache'"
    using foreach_remove_steps [of cache I write_to_disk step "Some drv"] by blast
  have steps: "fold step es (Some d) = Some (fold put_sector es d)" for es d
    by (induction es arbitrary: d) (simp_all add: step_def)
  show ?thesis
    using ok rem empty by (auto simp: libspectrum_ide_commit_drive_def drive_ok_def steps)
qed

lemma view_after_puts:
  assumes ok: "drive_ok drv" and c: "cache_ok drv cache" and ready: "commit_ready drv cache"
    and empty: "empty_table cache'" and n: "sector_fits drv n"
    and s: "sector_view drv cache n = Some s"
  shows "sector_view (fold put_sector (concat (nodes cache)) drv) cache' n = Some s"
proof -
  have h: "ghash_ok cache" using c by (simp add: cache_ok_def)
  obtain p where p: "packed_view drv cache n = Some p" "s = unpacked (sector_size drv) p"
    using s by (auto simp: sector_view_def)
  have "file_sector (fold put_sector (concat (nodes cache)) drv) n = Some p"
  proof (rule file_sector_puts [OF ok distinct_entries [OF h] _ n])
    show "(case map_of (concat (nodes cache)) n of Some buf \<Rightarrow> Some buf | None \<Rightarrow> file_sector drv n) = Some p"
      using p(1) by (simp add: packed_view_def lookup_entries [OF h])
  qed (use cache_entry [OF c ready] in blast)
  then show ?thesis
    using empty p(2) by (simp add: sector_view_def packed_view_def empty_table_def fold_put_sector_fields)
qed



text \<open>Whatever room there is, a commit and an eject keep drive and cache in order.\<close>

lemma write_to_disk_keeps:
  assumes "drive_ok drv" and "unat (sector_size drv) \<le> length buf"
  shows "\<exists>r f. write_to_disk k buf (Some drv) = (r, Some (drv\<lparr>disk := Some f\<rparr>))"
proof -
  obtain f where "disk drv = Some f" using assms(1) by (auto simp: drive_ok_def)
  then show ?thesis using assms(2) by (auto simp: write_to_disk_def Let_def split: prod.splits)
qed

lemma commit_ok:
  assumes ok: "drive_ok drv" and c: "cache_ok drv c"
  shows "\<exists>f c'. libspectrum_ide_commit_drive drv c = Some (drv\<lparr>disk := Some f\<rparr>, c') \<and>
    cache_ok (drv\<lparr>disk := Some f\<rparr>) c' \<and> drive_ok (drv\<lparr>disk := Some f\<rparr>)"
proof -
  obtain f where f: "disk drv = Some f" using ok by (auto simp: drive_ok_def)
  have h: "ghash_ok c" using c by (simp add: cache_ok_def)
  obtain c' n s' where r: "g_hash_table_foreach_remove c write_to_disk (Some drv) = (c', n, s')"
    by (cases "g_hash_table_foreach_remove c write_to_disk (Some drv)") auto
  define I where "I = (\<lambda>s. \<exists>f. s = Some (drv\<lparr>disk := Some f\<rparr>))"
  have "I (snd (write_to_disk k buf s))" if e: "(k, buf) \<in> set (concat (nodes c))" and "I s" for k buf s
  proof -
    obtain f' where s: "s = Some (drv\<lparr>disk := Some f'\<rparr>)" using \<open>I s\<close> by (auto simp: I_def)
    have "g_hash_table_lookup c k = Some buf"
      unfolding lookup_entries [OF h] using e distinct_entries [OF h] by (rule map_of_is_SomeI [rotated])
    then have "length buf = unat (sector_size drv)" using c by (simp add: cache_ok_def)
    then show ?thesis
      using write_to_disk_keeps [of "drv\<lparr>disk := Some f'\<rparr>" buf k] ok
      by (auto simp: s I_def drive_ok_def)
  qed
  moreover have "I (Some drv)" unfolding I_def by (rule exI [of _ f]) (cases drv, use f in simp)
  ultimately have k: "ghash_ok c'" "I s'"
      "\<And>k v. g_hash_table_lookup c' k = Some v \<Longrightarrow> g_hash_table_lookup c k = Some v"
    using foreach_remove_sub [OF h r, of I] by blast+
  obtain f' where f': "s' = Some (drv\<lparr>disk := Some f'\<rparr>)" using k(2) by (auto simp: I_def)
  have "cache_ok (drv\<lparr>disk := Some f'\<rparr>) c'" using c k(1,3) by (auto simp: cache_ok_def)
  moreover have "libspectrum_ide_commit_drive drv c = Some (drv\<lparr>disk := Some f'\<rparr>, c')"
    using r f f' by (simp add: libspectrum_ide_commit_drive_def)
  ultimately show ?thesis using ok by (auto simp: drive_ok_def)
qed

lemma eject_ok:
  assumes "if disk drv = None then empty_table c else ghash_ok c"
  shows "\<exists>c'. libspectrum_ide_eject_from_drive drv c = (drv\<lparr>disk := None\<rparr>, c') \<and> empty_table c'"
proof (cases "disk drv")
  case None
  then have "drv\<lparr>disk := None\<rparr> = drv" by (cases drv) simp
  then show ?thesis using assms None by (simp add: libspectrum_ide_eject_from_drive_def)
next
  case (Some f)
  then have "ghash_ok c" using assms by simp
  then show ?thesis
    using foreach_remove_steps [of c "\<lambda>_. True" clear_cache "\<lambda>_. id" "()"] Some
    by (auto simp: libspectrum_ide_eject_from_drive_def clear_cache_def)
qed

section \<open>Inserting an image\<close>

definition le_word :: "byte list \<Rightarrow> nat \<Rightarrow> int" where
  "le_word bs i = uint (bs ! i) + 0x100 * uint (bs ! (i + 1))"

definition image_error :: "hdf_file \<Rightarrow> libspectrum_error" where
  "image_error f =
     (if length (file_bytes f) < 128 then ERROR_UNKNOWN
      else if take 6 (file_bytes f) = RS_IDE \<and> file_bytes f ! 6 = 0x1a then ERROR_NONE
      else ERROR_CORRUPT)"

lemma uint_le_word:
  "uint (push_bit 8 (ucast (b :: byte)) OR ucast (a :: byte) :: lword) = uint a + 0x100 * uint b"
proof -
  have "uint a < 256" "uint b < 256" "0 \<le> uint a" "0 \<le> uint b"
    using uint_lt2p [of a] uint_lt2p [of b] by simp_all
  moreover have "(push_bit 8 (ucast b) OR ucast a :: lword) = ucast a + ucast b * 0x100"
    unfolding paste2 by (rule or.commute)
  ultimately show ?thesis
    by (simp add: uint_word_ariths unsigned_ucast_eq take_bit_int_eq_self)
qed

lemma hdf_header_of_prefix:
  assumes "128 \<le> length bs"
  shows "hdf_header_of (take 128 bs @ xs) = hdf_header_of bs"
    "length (drive_identity (hdf_header_of bs)) = 106"
    "i < 106 \<Longrightarrow> drive_identity (hdf_header_of bs) ! i = bs ! (22 + i)"
  using assms by (simp_all add: hdf_header_of_def nth_append drop_take)

lemma insert_into_drive_spec_aux:
  "\<exists>drv'. libspectrum_ide_insert_into_drive drv (Some f) = Some (image_error f, drv') \<and>
     (if image_error f = ERROR_NONE
      then drive_ok drv' \<and> disk drv' = Some f \<and>
        uint (data_offset drv') = le_word (file_bytes f) 9 \<and>
        sector_size drv' = (if bit (file_bytes f ! 8) 0 then 256 else 512) \<and>
        cylinders drv' = le_word (file_bytes f) 24 \<and> heads drv' = le_word (file_bytes f) 28 \<and>
        sectors drv' = le_word (file_bytes f) 34
      else disk drv' = disk drv \<and> sector_size drv' = sector_size drv)"
proof (cases "length (file_bytes f) < 128")
  case True
  then show ?thesis
    by (simp add: libspectrum_ide_insert_into_drive_def image_error_def fread_at_def
        sizeof_hdf_header_def Let_def)
next
  case False
  let ?h = "hdf_header_of (file_bytes f)"
  have got: "length (fread_at f 0 sizeof_hdf_header) = sizeof_hdf_header"
      "fread_header (hdf drv) (fread_at f 0 sizeof_hdf_header) = ?h"
    using False hdf_header_of_prefix(1) [of "file_bytes f"]
    by (simp_all add: fread_at_def sizeof_hdf_header_def fread_header_def)
  have ident: "GET_WORD (drive_identity ?h) i = Some (le_word (file_bytes f) (22 + 2 * i))"
    if "i < 53" for i
    using that False hdf_header_of_prefix(2,3) [of "file_bytes f"]
    by (simp add: GET_WORD_def nget_def le_word_def add.commute)
  have fields: "signature ?h = take 6 (file_bytes f)" "hdf_id ?h = file_bytes f ! 6"
    "flags ?h = file_bytes f ! 8" "datastart_low ?h = file_bytes f ! 9"
    "datastart_hi ?h = file_bytes f ! 10"
    by (simp_all add: hdf_header_of_def)
  have offs: "uint (push_bit 8 (ucast (file_bytes f ! 10)) OR ucast (file_bytes f ! 9) :: lword) =
      le_word (file_bytes f) 9"
    using uint_le_word [of "file_bytes f ! 10" "file_bytes f ! 9"] by (simp add: le_word_def)
  have flag: "file_bytes f ! 8 AND 1 \<noteq> 0 \<longleftrightarrow> bit (file_bytes f ! 8) 0"
    by (simp add: and_one_eq odd_iff_mod_2_eq_one bit_0)
  show ?thesis
    using False got ident [of 1] ident [of 3] ident [of 6] fields offs flag
    by (simp add: libspectrum_ide_insert_into_drive_def image_error_def Let_def drive_ok_def
        IDENTITY_NUM_CYLINDERS_def IDENTITY_NUM_HEADS_def IDENTITY_NUM_SECTORS_def)
qed

text \<open>
  An image is accepted exactly when it has a whole header with the right signature and
  end-of-file mark; the drive then has the geometry that the header gives, and otherwise keeps
  the disk that it had.
\<close>

theorem insert_into_drive_spec:
  "\<exists>drv'. libspectrum_ide_insert_into_drive drv (Some f) = Some (image_error f, drv') \<and>
     (if image_error f = ERROR_NONE
      then drive_ok drv' \<and> disk drv' = Some f \<and>
        uint (data_offset drv') = le_word (file_bytes f) 9 \<and>
        sector_size drv' = (if bit (file_bytes f ! 8) 0 then 256 else 512) \<and>
        cylinders drv' = le_word (file_bytes f) 24 \<and> heads drv' = le_word (file_bytes f) 28 \<and>
        sectors drv' = le_word (file_bytes f) 34
      else disk drv' = disk drv \<and> sector_size drv' = sector_size drv)"
  by (rule insert_into_drive_spec_aux)

end
