(* ===== verification/Ide.thy ===== *)
theory Ide
  imports Hdf "HOL-Library.Signed_Division"
begin

text \<open>
  The IDE channel of \<open>ide.c\<close>: two drives, the task file registers and the state machine of
  commands and data transfers. The members of the C structure that \<open>libspectrum_ide_alloc\<close>
  does not set are those of an arbitrary channel \<open>junk\<close>. The arithmetic on the geometry of
  a drive is on \<open>int\<close>: a product that does not fit has no defined behaviour.
\<close>

datatype libspectrum_ide_databus =
    IDE_DATA8 | IDE_DATA16 | IDE_DATA16_BYTESWAP | IDE_DATA16_DATA2

datatype libspectrum_ide_unit = IDE_MASTER | IDE_SLAVE

datatype libspectrum_ide_register =
    REGISTER_DATA | REGISTER_ERROR_FEATURE | REGISTER_SECTOR_COUNT | REGISTER_SECTOR
  | REGISTER_CYLINDER_LOW | REGISTER_CYLINDER_HIGH | REGISTER_HEAD_DRIVE
  | REGISTER_COMMAND_STATUS | REGISTER_DATA2

datatype libspectrum_ide_phase = PHASE_READY | PHASE_PIO_OUT | PHASE_PIO_IN

definition STATUS_ERR :: byte where "STATUS_ERR = 0x01"
definition STATUS_DRQ :: byte where "STATUS_DRQ = 0x08"
definition STATUS_DRDY :: byte where "STATUS_DRDY = 0x40"
definition STATUS_BSY :: byte where "STATUS_BSY = 0x80"
definition HEAD_HEAD :: byte where "HEAD_HEAD = 0x0f"
definition HEAD_DEV :: byte where "HEAD_DEV = 0x10"
definition HEAD_LBA :: byte where "HEAD_LBA = 0x40"
definition IDE_ERROR_OK :: byte where "IDE_ERROR_OK = 0x00"
definition IDE_ERROR_ABRT :: byte where "IDE_ERROR_ABRT = 0x04"
definition IDE_ERROR_IDNF :: byte where "IDE_ERROR_IDNF = 0x10"
definition IDE_ERROR_UNC :: byte where "IDE_ERROR_UNC = 0x40"

lemmas ide_masks = STATUS_ERR_def STATUS_DRQ_def STATUS_DRDY_def STATUS_BSY_def HEAD_HEAD_def
  HEAD_DEV_def HEAD_LBA_def IDE_ERROR_OK_def IDE_ERROR_ABRT_def IDE_ERROR_IDNF_def
  IDE_ERROR_UNC_def

record libspectrum_ide_channel =
  databus :: libspectrum_ide_databus
  drive :: "libspectrum_ide_unit \<Rightarrow> libspectrum_ide_drive"
  selected :: libspectrum_ide_unit
  feature :: byte
  sector_count :: byte
  sector :: byte
  cylinder_low :: byte
  cylinder_high :: byte
  head :: byte
  data2 :: byte
  phase :: libspectrum_ide_phase
  datacounter :: int
  sector_buffer :: "byte list"
  sector_number :: int
  cache :: "libspectrum_ide_unit \<Rightarrow> sector_cache"

definition libspectrum_ide_alloc ::
    "libspectrum_ide_channel \<Rightarrow> libspectrum_ide_databus \<Rightarrow> libspectrum_ide_channel" where
  "libspectrum_ide_alloc junk bus =
     junk\<lparr>databus := bus, drive := (\<lambda>u. (drive junk u)\<lparr>disk := None\<rparr>), cache := (\<lambda>_. int_table_new)\<rparr>"

section \<open>Inserting, committing, ejecting, reset\<close>

definition libspectrum_ide_eject ::
    "libspectrum_ide_channel \<Rightarrow> libspectrum_ide_unit \<Rightarrow> libspectrum_ide_channel" where
  "libspectrum_ide_eject chn u =
     (let (drv, c) = libspectrum_ide_eject_from_drive (drive chn u) (cache chn u)
      in chn\<lparr>drive := (drive chn)(u := drv), cache := (cache chn)(u := c)\<rparr>)"

text \<open>
  The file name is \<open>NULL\<close> (\<open>None\<close>) or names a file, which is opened (\<open>Some (Some f)\<close>) or
  cannot be (\<open>Some None\<close>).
\<close>

definition libspectrum_ide_insert :: "libspectrum_ide_channel \<Rightarrow> libspectrum_ide_unit \<Rightarrow>
    hdf_file option option \<Rightarrow> libspectrum_ide_channel c_result" where
  "libspectrum_ide_insert chn u filename =
     (let chn = libspectrum_ide_eject chn u in
      case filename of
        None \<Rightarrow> Some (ERROR_NONE, chn)
      | Some opened \<Rightarrow>
          map_option (\<lambda>(e, drv). (e, chn\<lparr>drive := (drive chn)(u := drv)\<rparr>))
            (libspectrum_ide_insert_into_drive (drive chn u) opened))"

definition libspectrum_ide_commit :: "libspectrum_ide_channel \<Rightarrow> libspectrum_ide_unit \<Rightarrow>
    libspectrum_ide_channel c_result" where
  "libspectrum_ide_commit chn u =
     map_option (\<lambda>(drv, c). (ERROR_NONE,
         chn\<lparr>drive := (drive chn)(u := drv), cache := (cache chn)(u := c)\<rparr>))
       (libspectrum_ide_commit_drive (drive chn u) (cache chn u))"

definition libspectrum_ide_dirty :: "libspectrum_ide_channel \<Rightarrow> libspectrum_ide_unit \<Rightarrow> bool" where
  "libspectrum_ide_dirty chn u \<longleftrightarrow> g_hash_table_size (cache chn u) \<noteq> 0"

definition present :: "libspectrum_ide_channel \<Rightarrow> libspectrum_ide_unit \<Rightarrow> bool" where
  "present chn u \<longleftrightarrow> disk (drive chn u) \<noteq> None"

definition libspectrum_ide_reset :: "libspectrum_ide_channel \<Rightarrow> libspectrum_ide_channel" where
  "libspectrum_ide_reset chn =
     (let chn = chn\<lparr>selected := IDE_MASTER, phase := PHASE_READY\<rparr> in
      if present chn IDE_MASTER \<or> present chn IDE_SLAVE then
        chn\<lparr>sector_count := 0x01, sector := 0x01, cylinder_low := 0x00, cylinder_high := 0x00,
            head := 0x00, feature := 0xff,
            drive := (\<lambda>u. if present chn u
              then (drive chn u)\<lparr>drive_error := 0x01, drive_status := 0x40\<rparr>
              else (drive chn u)\<lparr>drive_error := 0xff, drive_status := 0xff\<rparr>)\<rparr>
      else
        chn\<lparr>sector_count := 0xff, sector := 0xff, cylinder_low := 0xff, cylinder_high := 0xff,
            head := 0xff, feature := 0xff,
            drive := (\<lambda>u. (drive chn u)\<lparr>drive_error := 0xff, drive_status := 0xff\<rparr>)\<rparr>)"

section \<open>Sector access of the selected drive\<close>

definition sel_drive :: "libspectrum_ide_channel \<Rightarrow> libspectrum_ide_drive" where
  "sel_drive chn = drive chn (selected chn)"

definition sel_cache :: "libspectrum_ide_channel \<Rightarrow> sector_cache" where
  "sel_cache chn = cache chn (selected chn)"

definition on_drive :: "(libspectrum_ide_drive \<Rightarrow> libspectrum_ide_drive) \<Rightarrow> libspectrum_ide_channel \<Rightarrow>
    libspectrum_ide_channel" where
  "on_drive f chn = chn\<lparr>drive := (drive chn)(selected chn := f (sel_drive chn))\<rparr>"

definition set_drive_error :: "byte \<Rightarrow> libspectrum_ide_channel \<Rightarrow> libspectrum_ide_channel" where
  "set_drive_error e =
     on_drive (\<lambda>drv. drv\<lparr>drive_status := drive_status drv OR STATUS_ERR, drive_error := e\<rparr>)"

definition set_drq :: "libspectrum_ide_channel \<Rightarrow> libspectrum_ide_channel" where
  "set_drq = on_drive (\<lambda>drv. drv\<lparr>drive_status := drive_status drv OR STATUS_DRQ\<rparr>)"

definition clear_drq :: "libspectrum_ide_channel \<Rightarrow> libspectrum_ide_channel" where
  "clear_drq = on_drive (\<lambda>drv. drv\<lparr>drive_status := drive_status drv AND NOT STATUS_DRQ\<rparr>)"

definition read_hdf :: "libspectrum_ide_channel \<Rightarrow> (int \<times> libspectrum_ide_channel) option" where
  "read_hdf chn =
     map_option (\<lambda>(r, dest). (r, chn\<lparr>sector_buffer := dest\<rparr>))
       (libspectrum_ide_read_sector_from_hdf (sel_drive chn) (sel_cache chn)
          (word_of_int (sector_number chn)) (sector_buffer chn))"

definition write_hdf :: "(nat \<Rightarrow> byte) \<Rightarrow> libspectrum_ide_channel \<Rightarrow>
    (int \<times> libspectrum_ide_channel) option" where
  "write_hdf junk chn =
     map_option (\<lambda>c. (0, chn\<lparr>cache := (cache chn)(selected chn := c)\<rparr>))
       (libspectrum_ide_write_sector_to_hdf junk (sel_drive chn) (sel_cache chn)
          (word_of_int (sector_number chn)) (sector_buffer chn))"

section \<open>Seek\<close>

text \<open>A product of \<open>int\<close>s.\<close>

definition int_mult :: "int \<Rightarrow> int \<Rightarrow> int option" where
  "int_mult a b = (if - (2 ^ 31) \<le> a * b \<and> a * b < 2 ^ 31 then Some (a * b) else None)"

definition drive_capacity :: "libspectrum_ide_drive \<Rightarrow> int option" where
  "drive_capacity drv = int_mult (cylinders drv) (heads drv) \<bind> (\<lambda>x. int_mult x (sectors drv))"

text \<open>
  \<open>chn->head & LIBSPECTRUM_IDE_HEAD_HEAD << 24\<close> is \<open>head & 0x0f000000\<close> in C.
\<close>

definition lba_sector :: "libspectrum_ide_channel \<Rightarrow> int" where
  "lba_sector chn =
     (uint (head chn) AND push_bit 24 (uint HEAD_HEAD)) + push_bit 16 (uint (cylinder_high chn)) +
     push_bit 8 (uint (cylinder_low chn)) + uint (sector chn)"

definition chs_sector :: "libspectrum_ide_drive \<Rightarrow> libspectrum_ide_channel \<Rightarrow> int option" where
  "chs_sector drv chn =
     (let cyl = push_bit 8 (uint (cylinder_high chn)) OR uint (cylinder_low chn);
          hd = uint (head chn AND HEAD_HEAD);
          sec = uint (sector chn) - 1 in
      if cyl \<ge> cylinders drv \<or> hd \<ge> heads drv \<or> sec < 0 \<or> sec \<ge> sectors drv then Some (- 1)
      else do { x \<leftarrow> int_mult cyl (heads drv);
                y \<leftarrow> int_mult (x + hd) (sectors drv);
                Some (y + sec) })"

definition next_head_reg :: "byte \<Rightarrow> int \<Rightarrow> byte" where
  "next_head_reg old n = (old AND NOT HEAD_HEAD) OR word_of_int n"

definition lba_advance :: "libspectrum_ide_channel \<Rightarrow> libspectrum_ide_channel" where
  "lba_advance chn =
     (let chn = chn\<lparr>sector := sector chn + 1\<rparr> in
      if sector chn \<noteq> 0 then chn
      else let chn = chn\<lparr>cylinder_low := cylinder_low chn + 1\<rparr> in
      if cylinder_low chn \<noteq> 0 then chn
      else let chn = chn\<lparr>cylinder_high := cylinder_high chn + 1\<rparr> in
      if cylinder_high chn \<noteq> 0 then chn
      else chn\<lparr>head := next_head_reg (head chn)
             ((uint (head chn AND HEAD_HEAD) + 1) AND uint HEAD_HEAD)\<rparr>)"

text \<open>A remainder by zero has no defined behaviour.\<close>

definition chs_advance ::
    "libspectrum_ide_drive \<Rightarrow> libspectrum_ide_channel \<Rightarrow> libspectrum_ide_channel option" where
  "chs_advance drv chn =
     (if sectors drv = 0 then None
      else let chn = chn\<lparr>sector := word_of_int (uint (sector chn) smod sectors drv + 1)\<rparr> in
      if sector chn \<noteq> 1 then Some chn
      else if heads drv = 0 then None
      else let nh = (uint (head chn AND HEAD_HEAD) + 1) smod heads drv;
               chn = chn\<lparr>head := next_head_reg (head chn) nh\<rparr> in
      if nh \<noteq> 0 then Some chn
      else let chn = chn\<lparr>cylinder_low := cylinder_low chn + 1\<rparr> in
      if cylinder_low chn \<noteq> 0 then Some chn
      else Some (chn\<lparr>cylinder_high := cylinder_high chn + 1\<rparr>))"

definition seek :: "libspectrum_ide_channel \<Rightarrow> libspectrum_ide_channel c_result" where
  "seek chn =
     (let drv = sel_drive chn in
      do { n \<leftarrow> (if head chn AND HEAD_LBA \<noteq> 0 then Some (lba_sector chn) else chs_sector drv chn);
           err \<leftarrow> (if n < 0 then Some True else map_option (\<lambda>cap. n \<ge> cap) (drive_capacity drv));
           if err then
             Some (ERROR_UNKNOWN, set_drive_error (IDE_ERROR_ABRT OR IDE_ERROR_IDNF) chn)
           else
             let chn = chn\<lparr>sector_number := n, sector_count := sector_count chn - 1\<rparr> in
             if sector_count chn = 0 then Some (ERROR_NONE, chn)
             else if head chn AND HEAD_LBA \<noteq> 0 then Some (ERROR_NONE, lba_advance chn)
             else map_option (Pair ERROR_NONE) (chs_advance drv chn) })"


section \<open>Commands\<close>

text \<open>\<open>SET_WORD\<close>; both halves are truncated to a byte.\<close>

definition SET_WORD :: "byte list \<Rightarrow> nat \<Rightarrow> int \<Rightarrow> byte list option" where
  "SET_WORD arr index val =
     nset arr (2 * index + 1) (word_of_int (drop_bit 8 val)) \<bind>
     (\<lambda>arr. nset arr (2 * index) (word_of_int (val AND 0xff)))"

fun set_words :: "(nat \<times> int) list \<Rightarrow> byte list \<Rightarrow> byte list option" where
  "set_words [] arr = Some arr"
| "set_words ((index, val) # ws) arr = SET_WORD arr index val \<bind> set_words ws"

definition identifydevice :: "libspectrum_ide_channel \<Rightarrow> libspectrum_ide_channel option" where
  "identifydevice chn =
     (let drv = sel_drive chn in
      do { count \<leftarrow> map_option (\<lambda>n. take_bit 64 n) (drive_capacity drv);
           buf \<leftarrow> memset_at (sector_buffer chn) 0 0 512;
           buf \<leftarrow> memcpy_at buf 0 (drive_identity (hdf drv)) 0x6a;
           buf \<leftarrow> set_words [(53, 0x01), (54, cylinders drv), (55, heads drv), (56, sectors drv),
                    (57, count AND 0x0000ffff), (58, drop_bit 16 (count AND 0xffff0000))] buf;
           caps \<leftarrow> GET_WORD buf 49;
           buf \<leftarrow> (if caps AND 0x0200 \<noteq> 0
                   then set_words [(60, count AND 0x0000ffff),
                          (61, drop_bit 16 (count AND 0xffff0000))] buf
                   else Some buf);
           Some ((set_drq (chn\<lparr>sector_buffer := buf, sector_count := 0, phase := PHASE_PIO_IN\<rparr>))
                 \<lparr>datacounter := 0\<rparr>) })"

definition readsector :: "libspectrum_ide_channel \<Rightarrow> libspectrum_ide_channel option" where
  "readsector chn =
     do { (e, chn) \<leftarrow> seek chn;
          if e \<noteq> ERROR_NONE then Some chn
          else do { (r, chn) \<leftarrow> read_hdf chn;
                    if r \<noteq> 0 then Some (set_drive_error (IDE_ERROR_ABRT OR IDE_ERROR_UNC) chn)
                    else Some ((set_drq (chn\<lparr>phase := PHASE_PIO_IN\<rparr>))\<lparr>datacounter := 0\<rparr>) } }"

definition writesector :: "libspectrum_ide_channel \<Rightarrow> libspectrum_ide_channel option" where
  "writesector chn =
     do { (e, chn) \<leftarrow> seek chn;
          if e \<noteq> ERROR_NONE then Some chn
          else Some ((set_drq (chn\<lparr>phase := PHASE_PIO_OUT\<rparr>))\<lparr>datacounter := 0\<rparr>) }"

definition init_device_params :: "libspectrum_ide_channel \<Rightarrow> libspectrum_ide_channel option" where
  "init_device_params chn =
     (let drv = sel_drive chn in
      if sector_count chn = 0 then Some (set_drive_error IDE_ERROR_ABRT chn)
      else
        do { x \<leftarrow> int_mult (heads drv) (sectors drv);
             sz \<leftarrow> int_mult x (cylinders drv);
             Some (let sz = (if sz > 16514064 then 16514064 else sz);
                 h = uint (head chn AND HEAD_HEAD) + 1;
                 s = uint (sector_count chn);
                 c = sz sdiv (h * s);
                 c = (if c > 65535 then 65535 else c);
                 st = drive_status drv AND NOT (STATUS_ERR OR STATUS_BSY OR STATUS_DRQ)
             in on_drive (\<lambda>drv. drv\<lparr>heads := h, sectors := s, cylinders := c,
                       drive_error := IDE_ERROR_OK, drive_status := st OR STATUS_DRDY\<rparr>)
                     (chn\<lparr>phase := PHASE_READY\<rparr>)) })"

definition execute_command :: "libspectrum_ide_channel \<Rightarrow> byte \<Rightarrow> libspectrum_ide_channel option" where
  "execute_command chn data =
     (if disk (sel_drive chn) = None then Some chn
      else
        let chn = on_drive (\<lambda>drv. drv\<lparr>drive_error := IDE_ERROR_OK,
                     drive_status := drive_status drv AND NOT (STATUS_ERR OR STATUS_BSY)
                       OR STATUS_DRDY\<rparr>) (chn\<lparr>phase := PHASE_READY\<rparr>) in
        if data = 0x20 \<or> data = 0x21 then readsector chn
        else if data = 0x30 \<or> data = 0x31 then writesector chn
        else if data = 0xec \<or> data = 0xa1 then identifydevice chn
        else if data = 0x91 then init_device_params chn
        else Some (set_drive_error IDE_ERROR_ABRT chn))"

section \<open>The data register\<close>

definition buf_get :: "libspectrum_ide_channel \<Rightarrow> int \<Rightarrow> byte option" where
  "buf_get chn i = (if i < 0 then None else nget (sector_buffer chn) (nat i))"

definition buf_set :: "libspectrum_ide_channel \<Rightarrow> int \<Rightarrow> byte \<Rightarrow> libspectrum_ide_channel option" where
  "buf_set chn i v =
     (if i < 0 then None
      else map_option (\<lambda>b. chn\<lparr>sector_buffer := b\<rparr>) (nset (sector_buffer chn) (nat i) v))"

definition bus_read :: "libspectrum_ide_channel \<Rightarrow> (byte \<times> libspectrum_ide_channel) option" where
  "bus_read chn =
     (let i = datacounter chn in
      case databus chn of
        IDE_DATA8 \<Rightarrow> map_option (\<lambda>d. (d, chn\<lparr>datacounter := i + 2\<rparr>)) (buf_get chn i)
      | IDE_DATA16 \<Rightarrow> map_option (\<lambda>d. (d, chn\<lparr>datacounter := i + 1\<rparr>)) (buf_get chn i)
      | IDE_DATA16_BYTESWAP \<Rightarrow>
          map_option (\<lambda>d. (d, chn\<lparr>datacounter := i + 1\<rparr>)) (buf_get chn (i XOR 1))
      | IDE_DATA16_DATA2 \<Rightarrow>
          do { d \<leftarrow> buf_get chn i;
               d2 \<leftarrow> buf_get chn (i + 1);
               Some (d, chn\<lparr>datacounter := i + 2, data2 := d2\<rparr>) })"

definition bus_write :: "libspectrum_ide_channel \<Rightarrow> byte \<Rightarrow> libspectrum_ide_channel option" where
  "bus_write chn data =
     (let i = datacounter chn in
      case databus chn of
        IDE_DATA8 \<Rightarrow> map_option (\<lambda>c. c\<lparr>datacounter := i + 2\<rparr>) (buf_set chn i data)
      | IDE_DATA16 \<Rightarrow> map_option (\<lambda>c. c\<lparr>datacounter := i + 1\<rparr>) (buf_set chn i data)
      | IDE_DATA16_BYTESWAP \<Rightarrow>
          map_option (\<lambda>c. c\<lparr>datacounter := i + 1\<rparr>) (buf_set chn (i XOR 1) data)
      | IDE_DATA16_DATA2 \<Rightarrow>
          map_option (\<lambda>c. c\<lparr>datacounter := i + 2\<rparr>)
            (buf_set chn i data \<bind> (\<lambda>c. buf_set c (i + 1) (data2 chn))))"

definition read_data :: "libspectrum_ide_channel \<Rightarrow> (byte \<times> libspectrum_ide_channel) option" where
  "read_data chn =
     (if phase chn \<noteq> PHASE_PIO_IN then Some (0xff, chn)
      else
        do { (d, chn) \<leftarrow> bus_read chn;
             if datacounter chn \<ge> 512 then
               if sector_count chn \<noteq> 0 then map_option (Pair d) (readsector chn)
               else Some (d, clear_drq (chn\<lparr>phase := PHASE_READY\<rparr>))
             else Some (d, chn) })"

definition write_data :: "(nat \<Rightarrow> byte) \<Rightarrow> libspectrum_ide_channel \<Rightarrow> byte \<Rightarrow>
    libspectrum_ide_channel option" where
  "write_data junk chn data =
     (if phase chn \<noteq> PHASE_PIO_OUT then Some chn
      else
        do { chn \<leftarrow> bus_write chn data;
             if datacounter chn \<ge> 512 then
               do { (r, chn) \<leftarrow> write_hdf junk chn;
                    chn \<leftarrow> Some (if r \<noteq> 0 then set_drive_error (IDE_ERROR_ABRT OR IDE_ERROR_UNC) chn
                                else chn);
                    if sector_count chn \<noteq> 0 then writesector chn
                    else Some (clear_drq (chn\<lparr>phase := PHASE_READY\<rparr>)) }
             else Some chn })"

section \<open>The interface\<close>

fun libspectrum_ide_read :: "libspectrum_ide_channel \<Rightarrow> libspectrum_ide_register \<Rightarrow>
    (byte \<times> libspectrum_ide_channel) option" where
  "libspectrum_ide_read chn REGISTER_DATA = read_data chn"
| "libspectrum_ide_read chn REGISTER_DATA2 = Some (data2 chn, chn)"
| "libspectrum_ide_read chn REGISTER_ERROR_FEATURE = Some (drive_error (sel_drive chn), chn)"
| "libspectrum_ide_read chn REGISTER_SECTOR_COUNT = Some (sector_count chn, chn)"
| "libspectrum_ide_read chn REGISTER_SECTOR = Some (sector chn, chn)"
| "libspectrum_ide_read chn REGISTER_CYLINDER_LOW = Some (cylinder_low chn, chn)"
| "libspectrum_ide_read chn REGISTER_CYLINDER_HIGH = Some (cylinder_high chn, chn)"
| "libspectrum_ide_read chn REGISTER_HEAD_DRIVE = Some (head chn, chn)"
| "libspectrum_ide_read chn REGISTER_COMMAND_STATUS =
     Some (if disk (sel_drive chn) = None then 0x00 else drive_status (sel_drive chn), chn)"

fun libspectrum_ide_write :: "(nat \<Rightarrow> byte) \<Rightarrow> libspectrum_ide_channel \<Rightarrow>
    libspectrum_ide_register \<Rightarrow> byte \<Rightarrow> libspectrum_ide_channel option" where
  "libspectrum_ide_write junk chn REGISTER_DATA data = write_data junk chn data"
| "libspectrum_ide_write junk chn REGISTER_DATA2 data = Some (chn\<lparr>data2 := data\<rparr>)"
| "libspectrum_ide_write junk chn REGISTER_ERROR_FEATURE data = Some (chn\<lparr>feature := data\<rparr>)"
| "libspectrum_ide_write junk chn REGISTER_SECTOR_COUNT data = Some (chn\<lparr>sector_count := data\<rparr>)"
| "libspectrum_ide_write junk chn REGISTER_SECTOR data = Some (chn\<lparr>sector := data\<rparr>)"
| "libspectrum_ide_write junk chn REGISTER_CYLINDER_LOW data = Some (chn\<lparr>cylinder_low := data\<rparr>)"
| "libspectrum_ide_write junk chn REGISTER_CYLINDER_HIGH data = Some (chn\<lparr>cylinder_high := data\<rparr>)"
| "libspectrum_ide_write junk chn REGISTER_HEAD_DRIVE data =
     Some (chn\<lparr>head := data,
               selected := (if data AND HEAD_DEV \<noteq> 0 then IDE_SLAVE else IDE_MASTER)\<rparr>)"
| "libspectrum_ide_write junk chn REGISTER_COMMAND_STATUS data = execute_command chn data"

section \<open>The invariant of a channel\<close>

text \<open>
  Geometries with which no product overflows, drives with a disk and a fitting cache or
  without a disk and with nothing to write, and transfers that are inside the sector buffer, or just past its end.
\<close>

definition geometry_ok :: "libspectrum_ide_drive \<Rightarrow> bool" where
  "geometry_ok drv \<longleftrightarrow>
     0 \<le> cylinders drv \<and> 0 \<le> heads drv \<and> 0 \<le> sectors drv \<and>
     cylinders drv * heads drv < 2 ^ 31 \<and> heads drv * sectors drv < 2 ^ 31 \<and>
     cylinders drv * heads drv * sectors drv < 2 ^ 31"

definition unit_ok :: "libspectrum_ide_drive \<Rightarrow> sector_cache \<Rightarrow> bool" where
  "unit_ok drv c \<longleftrightarrow>
     (if disk drv = None then empty_table c
      else drive_ok drv \<and> cache_ok drv c \<and> geometry_ok drv \<and>
        length (drive_identity (hdf drv)) = 0x6a)"

definition wide_bus :: "libspectrum_ide_databus \<Rightarrow> bool" where
  "wide_bus b \<longleftrightarrow> b = IDE_DATA8 \<or> b = IDE_DATA16_DATA2"

definition ide_inv :: "libspectrum_ide_channel \<Rightarrow> bool" where
  "ide_inv chn \<longleftrightarrow>
     length (sector_buffer chn) = 512 \<and> (\<forall>u. unit_ok (drive chn u) (cache chn u)) \<and>
     (phase chn \<noteq> PHASE_READY \<longrightarrow> present chn (selected chn) \<and>
        0 \<le> datacounter chn \<and> datacounter chn \<le> 512 \<and>
        (wide_bus (databus chn) \<longrightarrow> even (datacounter chn)))"

lemma on_drive_fields [simp]:
  "databus (on_drive f chn) = databus chn" "selected (on_drive f chn) = selected chn"
  "sector_count (on_drive f chn) = sector_count chn" "phase (on_drive f chn) = phase chn"
  "datacounter (on_drive f chn) = datacounter chn"
  "sector_buffer (on_drive f chn) = sector_buffer chn"
  "sector_number (on_drive f chn) = sector_number chn" "cache (on_drive f chn) = cache chn"
  "sector (on_drive f chn) = sector chn" "cylinder_low (on_drive f chn) = cylinder_low chn"
  "cylinder_high (on_drive f chn) = cylinder_high chn" "head (on_drive f chn) = head chn"
  "data2 (on_drive f chn) = data2 chn" "feature (on_drive f chn) = feature chn"
  "sel_drive (on_drive f chn) = f (sel_drive chn)" "sel_cache (on_drive f chn) = sel_cache chn"
  by (simp_all add: on_drive_def sel_drive_def sel_cache_def)

lemma drive_on_drive: "drive (on_drive f chn) = (drive chn)(selected chn := f (sel_drive chn))"
  by (simp add: on_drive_def)

lemma ide_inv_selected:
  assumes "ide_inv chn" and "disk (sel_drive chn) \<noteq> None"
  shows "drive_ok (sel_drive chn)" "cache_ok (sel_drive chn) (sel_cache chn)"
    "geometry_ok (sel_drive chn)" "length (drive_identity (hdf (sel_drive chn))) = 0x6a"
    "length (sector_buffer chn) = 512"
  using assms unfolding ide_inv_def unit_ok_def sel_drive_def sel_cache_def by auto

text \<open>Changes that keep the disk, its geometry and its sector size.\<close>

definition same_disk :: "libspectrum_ide_drive \<Rightarrow> libspectrum_ide_drive \<Rightarrow> bool" where
  "same_disk d d' \<longleftrightarrow> d = d'\<lparr>drive_error := drive_error d, drive_status := drive_status d\<rparr>"

lemma unit_ok_same: "same_disk d d' \<Longrightarrow> unit_ok d c = unit_ok d' c"
  by (cases d; cases d')
    (simp add: same_disk_def unit_ok_def drive_ok_def cache_ok_def geometry_ok_def)

lemma ide_inv_on_drive:
  assumes "ide_inv chn" and "same_disk (f (sel_drive chn)) (sel_drive chn)"
  shows "ide_inv (on_drive f chn)"
proof -
  have "disk (f (sel_drive chn)) = disk (sel_drive chn)"
    using arg_cong [OF assms(2) [unfolded same_disk_def], of disk] by simp
  moreover have "unit_ok (f (sel_drive chn)) (cache chn (selected chn))"
    using assms unit_ok_same [OF assms(2)] by (simp add: ide_inv_def sel_drive_def)
  ultimately show ?thesis
    using assms(1) by (auto simp: ide_inv_def drive_on_drive present_def sel_drive_def)
qed

lemma status_keeps_inv [simp]:
  "ide_inv chn \<Longrightarrow> ide_inv (set_drive_error e chn)"
  "ide_inv chn \<Longrightarrow> ide_inv (set_drq chn)"
  "ide_inv chn \<Longrightarrow> ide_inv (clear_drq chn)"
  by (simp_all add: set_drive_error_def set_drq_def clear_drq_def ide_inv_on_drive same_disk_def)

lemma status_fields [simp]:
  "sel_cache (set_drive_error e chn) = sel_cache chn" "sel_cache (set_drq chn) = sel_cache chn"
  "sel_cache (clear_drq chn) = sel_cache chn"
  "phase (set_drive_error e chn) = phase chn" "phase (set_drq chn) = phase chn"
  "phase (clear_drq chn) = phase chn"
  "disk (sel_drive (set_drive_error e chn)) = disk (sel_drive chn)"
  "disk (sel_drive (set_drq chn)) = disk (sel_drive chn)"
  "disk (sel_drive (clear_drq chn)) = disk (sel_drive chn)"
  by (simp_all add: set_drive_error_def set_drq_def clear_drq_def)

section \<open>Seeking is safe\<close>

lemma int_mult_Some: "0 \<le> a \<Longrightarrow> 0 \<le> b \<Longrightarrow> a * b < 2 ^ 31 \<Longrightarrow> int_mult a b = Some (a * b)"
  by (simp add: int_mult_def order_trans [of _ 0])

lemma drive_capacity_Some:
  "geometry_ok drv \<Longrightarrow> drive_capacity drv = Some (cylinders drv * heads drv * sectors drv)"
  by (simp add: drive_capacity_def geometry_ok_def int_mult_Some)

lemma chs_sector_Some:
  assumes ok: "geometry_ok drv"
  shows "\<exists>n. chs_sector drv chn = Some n \<and> (0 \<le> n \<longrightarrow> 0 < sectors drv \<and> 0 < heads drv)"
proof -
  define cyl where "cyl = (push_bit 8 (uint (cylinder_high chn)) OR uint (cylinder_low chn))"
  define hd where "hd = uint (head chn AND HEAD_HEAD)"
  define sec where "sec = uint (sector chn) - 1"
  have nn: "0 \<le> cyl" "0 \<le> hd" by (simp_all add: cyl_def hd_def)
  show ?thesis
  proof (cases "cyl \<ge> cylinders drv \<or> hd \<ge> heads drv \<or> sec < 0 \<or> sec \<ge> sectors drv")
    case True
    then show ?thesis
      unfolding chs_sector_def cyl_def [symmetric] hd_def [symmetric] sec_def [symmetric] Let_def by simp
  next
    case False
    then have b: "cyl < cylinders drv" "hd < heads drv" "0 \<le> sec" "sec < sectors drv" by auto
    have "cyl * heads drv \<le> (cylinders drv - 1) * heads drv"
      using b nn by (intro mult_right_mono) auto
    then have x: "cyl * heads drv + hd \<le> cylinders drv * heads drv - 1"
      using b by (simp add: left_diff_distrib)
    moreover have "0 \<le> cyl * heads drv" using b nn by simp
    ultimately have "0 \<le> cyl * heads drv + hd" "cyl * heads drv < 2 ^ 31"
      using ok nn unfolding geometry_ok_def by linarith+
    moreover have "(cyl * heads drv + hd) * sectors drv \<le> cylinders drv * heads drv * sectors drv"
      using x b by (intro mult_right_mono) auto
    ultimately have "int_mult (cyl * heads drv + hd) (sectors drv) = Some ((cyl * heads drv + hd) * sectors drv)"
        "int_mult cyl (heads drv) = Some (cyl * heads drv)"
      using ok b nn unfolding geometry_ok_def by (intro int_mult_Some; linarith)+
    then show ?thesis
      using False b nn
      unfolding chs_sector_def cyl_def [symmetric] hd_def [symmetric] sec_def [symmetric] Let_def
      by auto
  qed
qed

lemma chs_advance_Some:
  assumes "0 < sectors drv" and "0 < heads drv"
  shows "\<exists>chn'. chs_advance drv chn = Some chn'"
  using assms by (auto simp: chs_advance_def Let_def)

text \<open>What \<open>seek\<close> leaves alone.\<close>

definition regs_only :: "libspectrum_ide_channel \<Rightarrow> libspectrum_ide_channel \<Rightarrow> bool" where
  "regs_only c d \<longleftrightarrow> databus c = databus d \<and> selected c = selected d \<and> phase c = phase d \<and>
     datacounter c = datacounter d \<and> sector_buffer c = sector_buffer d \<and> cache c = cache d \<and>
     drive c = drive d"

lemma advance_regs_only:
  "regs_only (lba_advance chn) chn"
  "chs_advance drv chn = Some chn' \<Longrightarrow> regs_only chn' chn"
  by (auto simp: regs_only_def lba_advance_def chs_advance_def Let_def split: if_splits)

lemma regs_only_inv: "regs_only c d \<Longrightarrow> ide_inv d \<Longrightarrow> ide_inv c"
  by (simp add: regs_only_def ide_inv_def present_def)

lemma seek_ok:
  assumes inv: "ide_inv chn" and d: "disk (sel_drive chn) \<noteq> None"
  shows "\<exists>chn'. seek chn = Some (ERROR_UNKNOWN, set_drive_error (IDE_ERROR_ABRT OR IDE_ERROR_IDNF) chn) \<or>
    seek chn = Some (ERROR_NONE, chn') \<and> regs_only chn' chn"
proof -
  let ?drv = "sel_drive chn"
  have g: "geometry_ok ?drv" by (rule ide_inv_selected [OF inv d])
  obtain m where m: "chs_sector ?drv chn = Some m" "0 \<le> m \<longrightarrow> 0 < sectors ?drv \<and> 0 < heads ?drv"
    using chs_sector_Some [OF g] by blast
  have r: "regs_only (chn\<lparr>sector_number := n, sector_count := k\<rparr>) chn" for n k
    by (simp add: regs_only_def)
  have t: "regs_only a b \<Longrightarrow> regs_only b c \<Longrightarrow> regs_only a c" for a b c
    by (simp add: regs_only_def)
  show ?thesis
  proof (cases "head chn AND HEAD_LBA \<noteq> 0")
    case True
    then show ?thesis
      using r t [OF advance_regs_only(1) r] by (auto simp: seek_def drive_capacity_Some [OF g] Let_def)
  next
    case False
    have "\<exists>c. chs_advance ?drv (chn\<lparr>sector_number := m, sector_count := k\<rparr>) = Some c \<and> regs_only c chn"
      if "0 \<le> m" for k
      using chs_advance_Some [of ?drv] m(2) that t [OF advance_regs_only(2) r] by blast
    from this [of "sector_count chn - 1"] show ?thesis
      using False r m(1)
      by (cases "0 \<le> m") (auto simp: seek_def drive_capacity_Some [OF g] Let_def not_less)
  qed
qed

section \<open>Every access is safe up to the end of the buffer\<close>

lemma read_hdf_ok:
  assumes inv: "ide_inv chn" and d: "disk (sel_drive chn) \<noteq> None"
  shows "\<exists>r buf. read_hdf chn = Some (r, chn\<lparr>sector_buffer := buf\<rparr>) \<and> length buf = 512"
proof -
  let ?v = "sector_view (sel_drive chn) (sel_cache chn) (word_of_int (sector_number chn))"
  have "read_hdf chn = Some (if ?v = None then 1 else 0,
      chn\<lparr>sector_buffer := (case ?v of Some s \<Rightarrow> s | None \<Rightarrow> sector_buffer chn)\<rparr>)"
    using read_sector_view [OF ide_inv_selected(1,2,5) [OF inv d]]
    by (auto simp: read_hdf_def split: option.splits)
  moreover have "length (case ?v of Some s \<Rightarrow> s | None \<Rightarrow> sector_buffer chn) = 512"
    using sector_view_length [OF ide_inv_selected(1,2) [OF inv d]] ide_inv_selected(5) [OF inv d]
    by (auto split: option.splits)
  ultimately show ?thesis by blast
qed

lemma write_hdf_ok:
  assumes inv: "ide_inv chn" and d: "disk (sel_drive chn) \<noteq> None"
  shows "\<exists>c. write_hdf junk chn = Some (0, chn\<lparr>cache := (cache chn)(selected chn := c)\<rparr>) \<and>
    ide_inv (chn\<lparr>cache := (cache chn)(selected chn := c)\<rparr>)"
proof -
  obtain c where c: "libspectrum_ide_write_sector_to_hdf junk (sel_drive chn) (sel_cache chn)
      (word_of_int (sector_number chn)) (sector_buffer chn) = Some c" "cache_ok (sel_drive chn) c"
    using write_sector_cache [OF ide_inv_selected(1,2,5) [OF inv d]] by blast
  have "ide_inv (chn\<lparr>cache := (cache chn)(selected chn := c)\<rparr>)"
    using inv c(2) ide_inv_selected(1,3,4) [OF inv d] d
    by (auto simp: ide_inv_def unit_ok_def present_def sel_drive_def)
  then show ?thesis using c(1) by (auto simp: write_hdf_def)
qed

text \<open>A new transfer, or an error and the transfer as it was.\<close>

lemma start_transfer_inv:
  assumes "ide_inv c" and "disk (sel_drive c) \<noteq> None"
  shows "ide_inv ((set_drq (c\<lparr>phase := p\<rparr>))\<lparr>datacounter := 0\<rparr>)"
proof -
  let ?c = "c\<lparr>phase := p, datacounter := 0\<rparr>"
  have "ide_inv ?c"
    using assms by (auto simp: ide_inv_def present_def sel_drive_def)
  then have "ide_inv (set_drq ?c)" by simp
  moreover have "set_drq ?c = (set_drq (c\<lparr>phase := p\<rparr>))\<lparr>datacounter := 0\<rparr>"
    by (simp add: set_drq_def on_drive_def sel_drive_def)
  ultimately show ?thesis by simp
qed

lemma new_buffer_inv:
  assumes "ide_inv c" and "length buf = 512"
  shows "ide_inv (c\<lparr>sector_buffer := buf\<rparr>)" "ide_inv (c\<lparr>sector_buffer := buf, sector_count := k\<rparr>)"
    "sel_drive (c\<lparr>sector_buffer := buf\<rparr>) = sel_drive c"
    "sel_drive (c\<lparr>sector_buffer := buf, sector_count := k\<rparr>) = sel_drive c"
  using assms by (simp_all add: ide_inv_def present_def sel_drive_def)

lemma seek_cases:
  assumes "ide_inv chn" and "disk (sel_drive chn) \<noteq> None"
  obtains "seek chn = Some (ERROR_UNKNOWN, set_drive_error (IDE_ERROR_ABRT OR IDE_ERROR_IDNF) chn)"
  | c where "seek chn = Some (ERROR_NONE, c)" "ide_inv c" "disk (sel_drive c) \<noteq> None"
  using seek_ok [OF assms] assms regs_only_inv
  by (auto simp: regs_only_def sel_drive_def)

lemma readsector_ok:
  assumes inv: "ide_inv chn" and d: "disk (sel_drive chn) \<noteq> None"
  shows "\<exists>chn'. readsector chn = Some chn' \<and> ide_inv chn'"
proof (cases rule: seek_cases [OF assms])
  case 1
  then show ?thesis using inv by (simp add: readsector_def)
next
  case (2 c)
  obtain r buf where r: "read_hdf c = Some (r, c\<lparr>sector_buffer := buf\<rparr>)" "length buf = 512"
    using read_hdf_ok [OF 2(2,3)] by blast
  show ?thesis
    using 2 r new_buffer_inv [OF 2(2) r(2)] start_transfer_inv [of "c\<lparr>sector_buffer := buf\<rparr>" PHASE_PIO_IN]
    by (auto simp: readsector_def)
qed

lemma writesector_ok:
  assumes inv: "ide_inv chn" and d: "disk (sel_drive chn) \<noteq> None"
  shows "\<exists>chn'. writesector chn = Some chn' \<and> ide_inv chn'"
proof (cases rule: seek_cases [OF assms])
  case 1
  then show ?thesis using inv by (simp add: writesector_def)
next
  case (2 c)
  show ?thesis
    using 2(1) start_transfer_inv [OF 2(2,3)]
    by (simp add: writesector_def)
qed

lemma SET_WORD_length: "SET_WORD arr i v = Some arr' \<Longrightarrow> length arr' = length arr"
  by (auto simp: SET_WORD_def bind_eq_Some_conv dest!: nset_length)

lemma set_words_length:
  "set_words ws arr = Some arr' \<Longrightarrow> length arr' = length arr"
proof (induction ws arr rule: set_words.induct)
  case (2 i v ws arr)
  then obtain a where a: "SET_WORD arr i v = Some a" "set_words ws a = Some arr'"
    by (auto simp: bind_eq_Some_conv)
  show ?case using 2(1) [OF a] SET_WORD_length [OF a(1)] by simp
qed simp

lemma set_words_Some:
  "list_all (\<lambda>(i, v). 2 * i + 1 < length arr) ws \<Longrightarrow> \<exists>arr'. set_words ws arr = Some arr'"
proof (induction ws arr rule: set_words.induct)
  case (2 i v ws arr)
  then obtain arr' where a: "SET_WORD arr i v = Some arr'"
    by (auto simp: SET_WORD_def nset_def)
  show ?case using 2 a SET_WORD_length [OF a] by simp
qed simp

lemma identifydevice_ok:
  assumes inv: "ide_inv chn" and d: "disk (sel_drive chn) \<noteq> None"
  shows "\<exists>chn'. identifydevice chn = Some chn' \<and> ide_inv chn'"
proof -
  let ?drv = "sel_drive chn"
  note ok = ide_inv_selected [OF inv d]
  define count where "count = take_bit 64 (cylinders ?drv * heads ?drv * sectors ?drv)"
  define buf0 where "buf0 = take 0x6a (drive_identity (hdf ?drv)) @ replicate (512 - 0x6a) (0::byte)"
  define ws where "ws = [(53::nat, 1), (54, cylinders ?drv), (55, heads ?drv), (56, sectors ?drv),
    (57, count AND 0xffff), (58, drop_bit 16 (count AND 0xffff0000))]"
  define ws' where "ws' = [(60::nat, count AND 0xffff), (61, drop_bit 16 (count AND 0xffff0000))]"
  have b0: "length buf0 = 512" using ok(4) by (simp add: buf0_def)
  have m: "memset_at (sector_buffer chn) 0 0 512 = Some (replicate 512 0)"
    "memcpy_at (replicate 512 0) 0 (drive_identity (hdf ?drv)) 0x6a = Some buf0"
    using ok(4,5) by (simp_all add: memset_at_def memcpy_at_def buf0_def)
  have "list_all (\<lambda>(i, v). 2 * i + 1 < length buf0) ws" using b0 by (simp add: ws_def)
  then obtain buf1 where b1: "set_words ws buf0 = Some buf1" using set_words_Some by blast
  have l1: "length buf1 = 512" using set_words_length [OF b1] b0 by simp
  obtain caps where caps: "GET_WORD buf1 49 = Some caps"
    using l1 by (auto simp: GET_WORD_def nget_def)
  obtain buf2 where b2: "(if caps AND 0x0200 \<noteq> 0 then set_words ws' buf1 else Some buf1) = Some buf2"
  proof -
    have "list_all (\<lambda>(i, v). 2 * i + 1 < length buf1) ws'" using l1 by (simp add: ws'_def)
    then obtain b where "set_words ws' buf1 = Some b" using set_words_Some by blast
    then show thesis using that by (cases "caps AND 0x0200 \<noteq> 0") auto
  qed
  have l2: "length buf2 = 512" using b2 set_words_length [of ws' buf1] l1 by (auto split: if_splits)
  have "identifydevice chn =
      Some ((set_drq (chn\<lparr>sector_buffer := buf2, sector_count := 0, phase := PHASE_PIO_IN\<rparr>))\<lparr>datacounter := 0\<rparr>)"
    using m b1 caps b2
    unfolding identifydevice_def Let_def drive_capacity_Some [OF ok(3)] ws_def ws'_def count_def
    by (simp only: bind.simps option.simps)
  then show ?thesis
    using start_transfer_inv [OF new_buffer_inv(2) [OF inv l2]] d new_buffer_inv(4) [OF inv l2] by simp
qed

lemma unit_ok_geometry:
  assumes "unit_ok drv c" and "geometry_ok (drv\<lparr>heads := h, sectors := s, cylinders := cy\<rparr>)"
  shows "unit_ok (drv\<lparr>heads := h, sectors := s, cylinders := cy, drive_error := e, drive_status := st\<rparr>) c"
  using assms by (auto simp: unit_ok_def drive_ok_def cache_ok_def geometry_ok_def split: if_splits)

lemma new_geometry:
  assumes sz: "0 \<le> (sz :: int)" "sz \<le> 16514064" and h: "0 < h" "h \<le> 16" and s: "0 < s" "s \<le> 255"
    and c: "c = (let c = sz sdiv (h * s) in if c > 65535 then 65535 else c)"
  shows "0 \<le> c" "c * h < 2 ^ 31" "h * s < 2 ^ 31" "c * h * s < 2 ^ 31"
proof -
  have hs: "0 < h * s" using h s by simp
  have hs2: "h * s \<le> 16 * 255" using h s by (intro mult_mono) auto
  have sd: "sz sdiv (h * s) = sz div (h * s)"
    using sz hs by (simp add: signed_divide_int_def sgn_if)
  have c': "c = min (sz div (h * s)) 65535" using c by (simp add: sd Let_def min_def)
  show "0 \<le> c" using sz hs by (simp add: c' pos_imp_zdiv_nonneg_iff)
  have "c * (h * s) \<le> sz div (h * s) * (h * s)"
    using hs by (intro mult_right_mono) (auto simp: c')
  also have "\<dots> \<le> sz"
    using hs by (metis div_mult_mod_eq le_add_same_cancel1 pos_mod_sign)
  finally show "c * h * s < 2 ^ 31" using sz by (simp add: mult.assoc)
  have "c * h \<le> 65535 * 16" using h \<open>0 \<le> c\<close> c' by (intro mult_mono) auto
  then show "c * h < 2 ^ 31" by simp
  show "h * s < 2 ^ 31" using hs2 by simp
qed

lemma init_device_params_ok:
  assumes inv: "ide_inv chn" and d: "disk (sel_drive chn) \<noteq> None"
  shows "\<exists>chn'. init_device_params chn = Some chn' \<and> ide_inv chn'"
proof (cases "sector_count chn = 0")
  case True
  then show ?thesis using inv by (simp add: init_device_params_def)
next
  case False
  let ?drv = "sel_drive chn"
  note ok = ide_inv_selected [OF inv d]
  define h where "h = uint (head chn AND HEAD_HEAD) + 1"
  define s where "s = uint (sector_count chn)"
  define sz where "sz = (let sz = heads ?drv * sectors ?drv * cylinders ?drv in
    if sz > 16514064 then 16514064 else sz)"
  define c where "c = (let c = sz sdiv (h * s) in if c > 65535 then 65535 else c)"
  have m: "int_mult (heads ?drv) (sectors ?drv) = Some (heads ?drv * sectors ?drv)"
    "int_mult (heads ?drv * sectors ?drv) (cylinders ?drv) =
       Some (heads ?drv * sectors ?drv * cylinders ?drv)"
    using ok(3) by (auto simp: geometry_ok_def int_mult_Some mult.commute mult.left_commute)
  have hb: "0 < h" "h \<le> 16"
  proof -
    have "head chn AND HEAD_HEAD \<le> HEAD_HEAD" by (rule word_and_le1)
    then have "uint (head chn AND HEAD_HEAD) \<le> 15"
      by (simp add: word_le_def HEAD_HEAD_def)
    then show "0 < h" "h \<le> 16" by (simp_all add: h_def add_nonneg_pos)
  qed
  have sb: "0 < s" "s \<le> 255"
    using False uint_lt2p [of "sector_count chn"]
    by (simp_all add: s_def word_neq_0_conv [unfolded word_less_def, simplified] less_le)
  have szb: "0 \<le> sz" "sz \<le> 16514064"
    using ok(3) by (auto simp: sz_def Let_def geometry_ok_def)
  note geo = new_geometry [OF szb hb sb c_def]
  define st where "st = drive_status ?drv AND NOT (STATUS_ERR OR STATUS_BSY OR STATUS_DRQ) OR STATUS_DRDY"
  have r: "init_device_params chn =
      Some (on_drive (\<lambda>drv. drv\<lparr>heads := h, sectors := s, cylinders := c, drive_error := IDE_ERROR_OK,
        drive_status := st\<rparr>) (chn\<lparr>phase := PHASE_READY\<rparr>))"
    using False m unfolding init_device_params_def h_def s_def sz_def c_def st_def Let_def by simp
  have "unit_ok (?drv\<lparr>heads := h, sectors := s, cylinders := c, drive_error := IDE_ERROR_OK,
      drive_status := st\<rparr>) (cache chn (selected chn))"
    using inv geo hb sb by (intro unit_ok_geometry) (auto simp: ide_inv_def sel_drive_def geometry_ok_def)
  then have "ide_inv (on_drive (\<lambda>drv. drv\<lparr>heads := h, sectors := s, cylinders := c,
      drive_error := IDE_ERROR_OK, drive_status := st\<rparr>) (chn\<lparr>phase := PHASE_READY\<rparr>))"
    using inv by (simp add: ide_inv_def drive_on_drive) (simp add: sel_drive_def)
  then show ?thesis using r by simp
qed

lemma execute_command_ok:
  assumes inv: "ide_inv chn"
  shows "\<exists>chn'. execute_command chn data = Some chn' \<and> ide_inv chn'"
proof (cases "disk (sel_drive chn) = None")
  case True
  then show ?thesis using inv by (simp add: execute_command_def)
next
  case False
  define c where "c = on_drive (\<lambda>drv. drv\<lparr>drive_error := IDE_ERROR_OK,
    drive_status := drive_status drv AND NOT (STATUS_ERR OR STATUS_BSY) OR STATUS_DRDY\<rparr>)
    (chn\<lparr>phase := PHASE_READY\<rparr>)"
  have "ide_inv (chn\<lparr>phase := PHASE_READY\<rparr>)" using inv by (simp add: ide_inv_def)
  then have c: "ide_inv c" unfolding c_def by (rule ide_inv_on_drive) (simp add: same_disk_def)
  have d: "disk (sel_drive c) \<noteq> None" using False by (simp add: c_def) (simp add: sel_drive_def)
  have "execute_command chn data =
      (if data = 0x20 \<or> data = 0x21 then readsector c
       else if data = 0x30 \<or> data = 0x31 then writesector c
       else if data = 0xec \<or> data = 0xa1 then identifydevice c
       else if data = 0x91 then init_device_params c
       else Some (set_drive_error IDE_ERROR_ABRT c))"
    unfolding execute_command_def Let_def c_def if_not_P [OF False] by (rule refl)
  then show ?thesis
    using readsector_ok [OF c d] writesector_ok [OF c d] identifydevice_ok [OF c d]
      init_device_params_ok [OF c d] c by simp
qed

section \<open>The data register\<close>

lemma buf_set_Some:
  "0 \<le> i \<Longrightarrow> i < 512 \<Longrightarrow> length (sector_buffer chn) = 512 \<Longrightarrow>
     buf_set chn i v = Some (chn\<lparr>sector_buffer := (sector_buffer chn)[nat i := v]\<rparr>)"
  by (simp add: buf_set_def nset_def nat_less_iff)

lemma buf_get_Some:
  "0 \<le> i \<Longrightarrow> i < 512 \<Longrightarrow> length (sector_buffer chn) = 512 \<Longrightarrow>
     buf_get chn i = Some (sector_buffer chn ! nat i)"
  by (simp add: buf_get_def nget_def nat_less_iff)

lemma buf_past_end:
  "length (sector_buffer chn) = 512 \<Longrightarrow> 512 \<le> i \<Longrightarrow> buf_get chn i = None"
  "length (sector_buffer chn) = 512 \<Longrightarrow> 512 \<le> i \<Longrightarrow> buf_set chn i v = None"
  by (simp_all add: buf_get_def buf_set_def nget_def nset_def)

lemma xor_1_range:
  fixes i :: int
  assumes "0 \<le> i"
  shows "0 \<le> i XOR 1" "i XOR 1 < 512 \<longleftrightarrow> i < 512" "(i XOR 1) XOR 1 = i"
proof -
  have e: "i XOR 1 = (if even i then i + 1 else i - 1)" by (simp add: xor_one_eq)
  show "0 \<le> i XOR 1" using assms by (auto simp: e elim: oddE)
  show "i XOR 1 < 512 \<longleftrightarrow> i < 512" unfolding e by presburger
  show "(i XOR 1) XOR 1 = i" by (simp add: xor.assoc)
qed

text \<open>The cell of the sector buffer that a data access starts at, and how far it goes on.\<close>

definition bus_cell :: "libspectrum_ide_databus \<Rightarrow> int \<Rightarrow> int" where
  "bus_cell b i = (if b = IDE_DATA16_BYTESWAP then i XOR 1 else i)"

definition bus_width :: "libspectrum_ide_databus \<Rightarrow> int" where
  "bus_width b = (if wide_bus b then 2 else 1)"

lemma bus_read_Some:
  assumes "length (sector_buffer chn) = 512" and "0 \<le> datacounter chn" and "datacounter chn < 512"
    and "wide_bus (databus chn) \<longrightarrow> even (datacounter chn)"
  shows "\<exists>d2. bus_read chn = Some (sector_buffer chn ! nat (bus_cell (databus chn) (datacounter chn)),
    chn\<lparr>datacounter := datacounter chn + bus_width (databus chn), data2 := d2\<rparr>)"
proof -
  have "datacounter chn + 1 < 512" if "wide_bus (databus chn)"
  proof -
    have "even (datacounter chn)" using assms(4) that by simp
    then show ?thesis using assms(3) by presburger
  qed
  moreover have same: "chn\<lparr>datacounter := i, data2 := data2 chn\<rparr> = chn\<lparr>datacounter := i\<rparr>" for i
    by (cases chn) simp
  ultimately show ?thesis
  proof (cases "databus chn = IDE_DATA16_DATA2")
    case True
    then show ?thesis
      using assms \<open>wide_bus (databus chn) \<Longrightarrow> datacounter chn + 1 < 512\<close>
      by (auto simp: bus_read_def buf_get_Some bus_cell_def bus_width_def wide_bus_def Let_def)
  next
    case False
    then show ?thesis
      using assms xor_1_range [OF assms(2)]
      by (intro exI [of _ "data2 chn"], unfold same, cases "databus chn")
        (simp_all add: bus_read_def buf_get_Some bus_cell_def bus_width_def wide_bus_def Let_def)
  qed
qed

lemma bus_write_Some:
  assumes "length (sector_buffer chn) = 512" and "0 \<le> datacounter chn" and "datacounter chn < 512"
    and "wide_bus (databus chn) \<longrightarrow> even (datacounter chn)"
  shows "\<exists>buf. bus_write chn data =
      Some (chn\<lparr>sector_buffer := buf, datacounter := datacounter chn + bus_width (databus chn)\<rparr>) \<and>
    length buf = 512 \<and>
    (databus chn \<noteq> IDE_DATA16_DATA2 \<longrightarrow>
      buf = (sector_buffer chn)[nat (bus_cell (databus chn) (datacounter chn)) := data])"
proof -
  have "datacounter chn + 1 < 512" if "wide_bus (databus chn)"
  proof -
    have "even (datacounter chn)" using assms(4) that by simp
    then show ?thesis using assms(3) by presburger
  qed
  then show ?thesis
  proof (cases "databus chn = IDE_DATA16_DATA2")
    case True
    then show ?thesis
      using assms \<open>wide_bus (databus chn) \<Longrightarrow> datacounter chn + 1 < 512\<close>
      by (intro exI [of _ "(sector_buffer chn)[nat (datacounter chn) := data,
            nat (datacounter chn + 1) := data2 chn]"])
        (simp add: bus_write_def buf_set_Some bus_width_def wide_bus_def Let_def)
  next
    case False
    then show ?thesis
      using assms xor_1_range [OF assms(2)]
      by (intro exI [of _ "(sector_buffer chn)[nat (bus_cell (databus chn) (datacounter chn)) := data]"],
          cases "databus chn")
        (simp_all add: bus_write_def buf_set_Some bus_cell_def bus_width_def wide_bus_def Let_def)
  qed
qed

text \<open>What an access of the machine is, and the two that are unsafe.\<close>

datatype ide_access = IDE_READ libspectrum_ide_register | IDE_WRITE libspectrum_ide_register byte

fun ide_do :: "(nat \<Rightarrow> byte) \<Rightarrow> ide_access \<Rightarrow> libspectrum_ide_channel \<Rightarrow> libspectrum_ide_channel option" where
  "ide_do junk (IDE_READ reg) chn = map_option snd (libspectrum_ide_read chn reg)"
| "ide_do junk (IDE_WRITE reg data) chn = libspectrum_ide_write junk chn reg data"

fun data_access :: "libspectrum_ide_channel \<Rightarrow> ide_access \<Rightarrow> bool" where
  "data_access chn (IDE_READ reg) \<longleftrightarrow> reg = REGISTER_DATA \<and> phase chn = PHASE_PIO_IN"
| "data_access chn (IDE_WRITE reg data) \<longleftrightarrow> reg = REGISTER_DATA \<and> phase chn = PHASE_PIO_OUT"

definition overruns :: "libspectrum_ide_channel \<Rightarrow> ide_access \<Rightarrow> bool" where
  "overruns chn a \<longleftrightarrow> data_access chn a \<and> datacounter chn = 512"

fun keeps_disk :: "libspectrum_ide_channel \<Rightarrow> ide_access \<Rightarrow> bool" where
  "keeps_disk chn (IDE_WRITE REGISTER_HEAD_DRIVE data) \<longleftrightarrow>
     phase chn = PHASE_READY \<or> present chn (if data AND HEAD_DEV \<noteq> 0 then IDE_SLAVE else IDE_MASTER)"
| "keeps_disk chn a \<longleftrightarrow> True"

lemma other_fields_inv:
  assumes "ide_inv chn"
  shows "ide_inv (chn\<lparr>data2 := d\<rparr>)" "ide_inv (chn\<lparr>feature := d\<rparr>)" "ide_inv (chn\<lparr>sector_count := d\<rparr>)"
    "ide_inv (chn\<lparr>sector := d\<rparr>)" "ide_inv (chn\<lparr>cylinder_low := d\<rparr>)" "ide_inv (chn\<lparr>cylinder_high := d\<rparr>)"
    "ide_inv (clear_drq (chn\<lparr>phase := PHASE_READY\<rparr>))"
proof -
  have "ide_inv (chn\<lparr>phase := PHASE_READY\<rparr>)" using assms by (simp add: ide_inv_def)
  then show "ide_inv (clear_drq (chn\<lparr>phase := PHASE_READY\<rparr>))" by simp
qed (use assms in \<open>simp_all add: ide_inv_def present_def\<close>)

lemma moved_inv:
  assumes "ide_inv chn" and "datacounter chn < 512" and "phase chn \<noteq> PHASE_READY"
    and "length buf = 512"
  shows "ide_inv (chn\<lparr>sector_buffer := buf, datacounter := datacounter chn + bus_width (databus chn)\<rparr>)"
    "ide_inv (chn\<lparr>datacounter := datacounter chn + bus_width (databus chn), data2 := d2\<rparr>)"
proof -
  have "datacounter chn + 2 \<le> 512" if "wide_bus (databus chn)"
  proof -
    have "even (datacounter chn)" using assms(1,3) that by (simp add: ide_inv_def)
    then show ?thesis using assms(2) by presburger
  qed
  then show "ide_inv (chn\<lparr>sector_buffer := buf, datacounter := datacounter chn + bus_width (databus chn)\<rparr>)"
    "ide_inv (chn\<lparr>datacounter := datacounter chn + bus_width (databus chn), data2 := d2\<rparr>)"
    using assms by (auto simp: ide_inv_def present_def bus_width_def)
qed

lemma read_data_ok:
  assumes inv: "ide_inv chn"
  shows "if phase chn = PHASE_PIO_IN \<and> datacounter chn = 512 then read_data chn = None
    else \<exists>d chn'. read_data chn = Some (d, chn') \<and> ide_inv chn'"
proof (cases "phase chn = PHASE_PIO_IN")
  case True
  have in_range: "length (sector_buffer chn) = 512" "0 \<le> datacounter chn" "datacounter chn \<le> 512"
      "wide_bus (databus chn) \<longrightarrow> even (datacounter chn)" "disk (sel_drive chn) \<noteq> None"
    using inv True by (simp_all add: ide_inv_def present_def sel_drive_def)
  show ?thesis
  proof (cases "datacounter chn = 512")
    case True
    then show ?thesis
      using \<open>phase chn = PHASE_PIO_IN\<close> in_range buf_past_end(1) [OF in_range(1)] xor_1_range(2) [of 512]
      by (cases "databus chn") (auto simp: read_data_def bus_read_def buf_past_end)
  next
    case False
    obtain d c where r: "bus_read chn = Some (d, c)" "ide_inv c" "disk (sel_drive c) \<noteq> None"
      using bus_read_Some [OF in_range(1,2) _ in_range(4)] False in_range moved_inv(2) [OF inv _ _ in_range(1)] True
      by (fastforce simp: sel_drive_def)
    then show ?thesis
      using True False readsector_ok [OF r(2,3)] other_fields_inv(7) [OF r(2)]
      by (auto simp: read_data_def)
  qed
qed (use inv in \<open>simp add: read_data_def\<close>)

lemma write_data_ok:
  assumes inv: "ide_inv chn"
  shows "if phase chn = PHASE_PIO_OUT \<and> datacounter chn = 512 then write_data junk chn data = None
    else \<exists>chn'. write_data junk chn data = Some chn' \<and> ide_inv chn'"
proof (cases "phase chn = PHASE_PIO_OUT")
  case True
  have in_range: "length (sector_buffer chn) = 512" "0 \<le> datacounter chn" "datacounter chn \<le> 512"
      "wide_bus (databus chn) \<longrightarrow> even (datacounter chn)" "disk (sel_drive chn) \<noteq> None"
    using inv True by (simp_all add: ide_inv_def present_def sel_drive_def)
  show ?thesis
  proof (cases "datacounter chn = 512")
    case True
    then show ?thesis
      using \<open>phase chn = PHASE_PIO_OUT\<close> in_range xor_1_range(2) [of 512]
      by (cases "databus chn") (auto simp: write_data_def bus_write_def buf_past_end)
  next
    case False
    then have less: "datacounter chn < 512" using in_range by simp
    obtain buf where r: "bus_write chn data =
        Some (chn\<lparr>sector_buffer := buf, datacounter := datacounter chn + bus_width (databus chn)\<rparr>)"
        "length buf = 512"
      using bus_write_Some [OF in_range(1,2) less in_range(4)] by blast
    let ?c = "chn\<lparr>sector_buffer := buf, datacounter := datacounter chn + bus_width (databus chn)\<rparr>"
    have c: "ide_inv ?c" "disk (sel_drive ?c) \<noteq> None"
      using moved_inv(1) [OF inv less _ r(2)] True in_range(5) by (simp_all add: sel_drive_def)
    obtain t where w: "write_hdf junk ?c = Some (0, ?c\<lparr>cache := (cache ?c)(selected ?c := t)\<rparr>)"
        "ide_inv (?c\<lparr>cache := (cache ?c)(selected ?c := t)\<rparr>)"
      using write_hdf_ok [OF c] by blast
    have d: "disk (sel_drive (?c\<lparr>cache := (cache ?c)(selected ?c := t)\<rparr>)) \<noteq> None"
      using c(2) by (simp add: sel_drive_def)
    show ?thesis
      using True False r w c writesector_ok [OF w(2) d] other_fields_inv(7) [OF w(2)]
      by (auto simp: write_data_def)
  qed
qed (use inv in \<open>simp add: write_data_def\<close>)

lemma access_ok:
  assumes "ide_inv chn" and "keeps_disk chn a"
  shows "if overruns chn a then ide_do junk a chn = None
    else \<exists>chn'. ide_do junk a chn = Some chn' \<and> ide_inv chn'"
proof (cases a)
  case (IDE_READ reg)
  then show ?thesis
    using read_data_ok [OF assms(1)] assms(1) by (cases reg) (auto simp: overruns_def split: if_splits)
next
  case (IDE_WRITE reg data)
  then show ?thesis
    using write_data_ok [OF assms(1), of junk data] execute_command_ok [OF assms(1), of data] assms
      other_fields_inv [OF assms(1)]
    by (cases reg) (auto simp: overruns_def ide_inv_def present_def split: if_splits)
qed

section \<open>The life of a channel\<close>

lemma commit_unit_ok:
  assumes ok: "unit_ok drv c"
  shows "\<exists>drv' c'. libspectrum_ide_commit_drive drv c = Some (drv', c') \<and> unit_ok drv' c' \<and>
    (disk drv' = None \<longleftrightarrow> disk drv = None)"
proof (cases "disk drv")
  case None
  then show ?thesis using ok by (simp add: libspectrum_ide_commit_drive_def)
next
  case (Some f)
  then have "drive_ok drv" "cache_ok drv c" using ok by (simp_all add: unit_ok_def)
  from commit_ok [OF this] obtain f' c' where
    "libspectrum_ide_commit_drive drv c = Some (drv\<lparr>disk := Some f'\<rparr>, c')"
    "cache_ok (drv\<lparr>disk := Some f'\<rparr>) c'" "drive_ok (drv\<lparr>disk := Some f'\<rparr>)"
    by (elim exE conjE)
  then show ?thesis
    using ok Some by (simp add: unit_ok_def geometry_ok_def)
qed

lemma eject_unit_ok:
  assumes "unit_ok drv c"
  shows "\<exists>c'. libspectrum_ide_eject_from_drive drv c = (drv\<lparr>disk := None\<rparr>, c') \<and> empty_table c'"
  using assms by (intro eject_ok) (simp add: unit_ok_def cache_ok_def split: if_splits)

text \<open>An image whose geometry has less than \<open>2 ^ 31\<close> sectors, all products included.\<close>

definition image_geometry_ok :: "hdf_file \<Rightarrow> bool" where
  "image_geometry_ok f \<longleftrightarrow>
     le_word (file_bytes f) 24 * le_word (file_bytes f) 28 < 2 ^ 31 \<and>
     le_word (file_bytes f) 28 * le_word (file_bytes f) 34 < 2 ^ 31 \<and>
     le_word (file_bytes f) 24 * le_word (file_bytes f) 28 * le_word (file_bytes f) 34 < 2 ^ 31"

lemma insert_into_drive_identity:
  assumes "libspectrum_ide_insert_into_drive drv (Some f) = Some (ERROR_NONE, drv')"
  shows "length (drive_identity (hdf drv')) = 0x6a"
proof -
  have l: "length (fread_at f 0 sizeof_hdf_header) = sizeof_hdf_header"
    and h: "hdf drv' = fread_header (hdf drv) (fread_at f 0 sizeof_hdf_header)"
    using assms
    by (auto simp: libspectrum_ide_insert_into_drive_def Let_def bind_eq_Some_conv split: if_splits)
  then show ?thesis by (simp add: fread_header_def hdf_header_of_def sizeof_hdf_header_def)
qed

lemma insert_unit_ok:
  assumes d: "disk drv = None" and c: "empty_table c"
    and g: "\<And>f. opened = Some f \<Longrightarrow> image_geometry_ok f"
  shows "\<exists>e drv'. libspectrum_ide_insert_into_drive drv opened = Some (e, drv') \<and> unit_ok drv' c"
proof (cases opened)
  case None
  then show ?thesis using d c by (simp add: libspectrum_ide_insert_into_drive_def unit_ok_def)
next
  case (Some f)
  obtain drv' where r: "libspectrum_ide_insert_into_drive drv (Some f) = Some (image_error f, drv')"
    and s: "if image_error f = ERROR_NONE
      then drive_ok drv' \<and> disk drv' = Some f \<and>
        uint (data_offset drv') = le_word (file_bytes f) 9 \<and>
        sector_size drv' = (if bit (file_bytes f ! 8) 0 then 256 else 512) \<and>
        cylinders drv' = le_word (file_bytes f) 24 \<and> heads drv' = le_word (file_bytes f) 28 \<and>
        sectors drv' = le_word (file_bytes f) 34
      else disk drv' = disk drv \<and> sector_size drv' = sector_size drv"
    using insert_into_drive_spec_aux [of drv f] by blast
  have "0 \<le> le_word (file_bytes f) i" for i by (simp add: le_word_def)
  moreover have "cache_ok drv' c" using c by (simp add: cache_ok_def empty_table_def)
  ultimately have "unit_ok drv' c"
    using s d c g [OF Some] insert_into_drive_identity [of drv f drv'] r
    by (auto simp: unit_ok_def geometry_ok_def image_geometry_ok_def split: if_splits)
  then show ?thesis using r Some by blast
qed

definition idle :: "libspectrum_ide_channel \<Rightarrow> libspectrum_ide_unit \<Rightarrow> bool" where
  "idle chn u \<longleftrightarrow> phase chn = PHASE_READY \<or> selected chn \<noteq> u"

lemma set_unit_inv:
  assumes "ide_inv chn" and "unit_ok drv c" and "idle chn u \<or> disk drv \<noteq> None"
  shows "ide_inv (chn\<lparr>drive := (drive chn)(u := drv), cache := (cache chn)(u := c)\<rparr>)"
  using assms by (auto simp: ide_inv_def idle_def present_def)

lemma eject_inv:
  assumes "ide_inv chn" and "idle chn u"
  shows "ide_inv (libspectrum_ide_eject chn u)"
    "disk (drive (libspectrum_ide_eject chn u) u) = None"
    "empty_table (cache (libspectrum_ide_eject chn u) u)"
    "idle (libspectrum_ide_eject chn u) u"
proof -
  have "unit_ok (drive chn u) (cache chn u)" using assms by (simp add: ide_inv_def)
  then obtain c' where "libspectrum_ide_eject_from_drive (drive chn u) (cache chn u) =
      ((drive chn u)\<lparr>disk := None\<rparr>, c')" "empty_table c'"
    using eject_unit_ok by blast
  then show "ide_inv (libspectrum_ide_eject chn u)"
    "disk (drive (libspectrum_ide_eject chn u) u) = None"
    "empty_table (cache (libspectrum_ide_eject chn u) u)" "idle (libspectrum_ide_eject chn u) u"
    using set_unit_inv [OF assms(1), of "(drive chn u)\<lparr>disk := None\<rparr>" c' u] assms(2)
    by (simp_all add: libspectrum_ide_eject_def unit_ok_def idle_def)
qed

lemma insert_inv:
  assumes "ide_inv chn" and "idle chn u" and "\<And>f. filename = Some (Some f) \<Longrightarrow> image_geometry_ok f"
  shows "\<exists>e chn'. libspectrum_ide_insert chn u filename = Some (e, chn') \<and> ide_inv chn'"
proof (cases filename)
  case None
  then show ?thesis
    using eject_inv(1) [OF assms(1,2)] by (simp add: libspectrum_ide_insert_def Let_def)
next
  case (Some opened)
  let ?c = "libspectrum_ide_eject chn u"
  obtain e drv where d: "libspectrum_ide_insert_into_drive (drive ?c u) opened = Some (e, drv)"
      "unit_ok drv (cache ?c u)"
    using insert_unit_ok [OF eject_inv(2,3) [OF assms(1,2)], of opened] assms(3) Some by blast
  have "ide_inv (?c\<lparr>drive := (drive ?c)(u := drv), cache := (cache ?c)(u := cache ?c u)\<rparr>)"
    using set_unit_inv [OF eject_inv(1) [OF assms(1,2)] d(2)] eject_inv(4) [OF assms(1,2)] by blast
  then have "ide_inv (?c\<lparr>drive := (drive ?c)(u := drv)\<rparr>)" by simp
  then show ?thesis using d(1) Some by (simp add: libspectrum_ide_insert_def Let_def)
qed

lemma commit_inv:
  assumes "ide_inv chn"
  shows "\<exists>chn'. libspectrum_ide_commit chn u = Some (ERROR_NONE, chn') \<and> ide_inv chn'"
proof -
  have "unit_ok (drive chn u) (cache chn u)" using assms by (simp add: ide_inv_def)
  from commit_unit_ok [OF this]
  obtain drv c where r: "libspectrum_ide_commit_drive (drive chn u) (cache chn u) = Some (drv, c)"
      "unit_ok drv c" "disk drv = None \<longleftrightarrow> disk (drive chn u) = None"
    by (elim exE conjE)
  have "idle chn u \<or> disk drv \<noteq> None"
    using r(3) assms by (auto simp: ide_inv_def idle_def present_def)
  then show ?thesis
    using r(1) set_unit_inv [OF assms r(2)] by (simp add: libspectrum_ide_commit_def)
qed

lemma reset_inv:
  assumes "length (sector_buffer chn) = 512" and "\<And>u. unit_ok (drive chn u) (cache chn u)"
  shows "ide_inv (libspectrum_ide_reset chn)"
proof -
  have "unit_ok (drv\<lparr>drive_error := e, drive_status := s\<rparr>) c = unit_ok drv c" for drv e s c
    by (rule unit_ok_same) (simp add: same_disk_def)
  then show ?thesis
    using assms by (simp add: ide_inv_def libspectrum_ide_reset_def Let_def)
qed

text \<open>
  The channels a host can get to that allocates a channel and resets it, inserts images with a
  sound geometry, ejects and replaces disks only while no transfer with them is running,
  and lets the machine do any access that does not select an absent drive in a transfer.
\<close>

inductive ide_reachable :: "libspectrum_ide_channel \<Rightarrow> bool" where
  reach_alloc: "length (sector_buffer junk) = 512 \<Longrightarrow>
     ide_reachable (libspectrum_ide_reset (libspectrum_ide_alloc junk bus))"
| reach_reset: "ide_reachable chn \<Longrightarrow> ide_reachable (libspectrum_ide_reset chn)"
| reach_insert: "ide_reachable chn \<Longrightarrow> idle chn u \<Longrightarrow>
     (\<And>f. filename = Some (Some f) \<Longrightarrow> image_geometry_ok f) \<Longrightarrow>
     libspectrum_ide_insert chn u filename = Some (e, chn') \<Longrightarrow> ide_reachable chn'"
| reach_eject: "ide_reachable chn \<Longrightarrow> idle chn u \<Longrightarrow> ide_reachable (libspectrum_ide_eject chn u)"
| reach_commit: "ide_reachable chn \<Longrightarrow> libspectrum_ide_commit chn u = Some (e, chn') \<Longrightarrow>
     ide_reachable chn'"
| reach_access: "ide_reachable chn \<Longrightarrow> keeps_disk chn a \<Longrightarrow> ide_do junk' a chn = Some chn' \<Longrightarrow>
     ide_reachable chn'"

lemma alloc_inv:
  "length (sector_buffer junk) = 512 \<Longrightarrow>
     ide_inv (libspectrum_ide_reset (libspectrum_ide_alloc junk bus))"
  by (rule reset_inv)
    (simp_all add: libspectrum_ide_alloc_def unit_ok_def empty_table_def it.ok_empty it.lookup_empty,
      simp add: int_table_new_def g_hash_table_new_def)

lemma reachable_inv: "ide_reachable chn \<Longrightarrow> ide_inv chn"
proof (induction rule: ide_reachable.induct)
  case (reach_alloc junk bus)
  then show ?case by (rule alloc_inv)
next
  case (reach_reset chn)
  then show ?case by (intro reset_inv) (simp_all add: ide_inv_def)
next
  case (reach_insert chn u filename e chn')
  then show ?case using insert_inv [of chn u filename] by fastforce
next
  case (reach_eject chn u)
  then show ?case by (simp add: eject_inv)
next
  case (reach_commit chn u e chn')
  then show ?case using commit_inv [of chn u] by auto
next
  case (reach_access chn a junk' chn')
  then show ?case using access_ok [of chn a junk'] by (auto split: if_splits)
qed


section \<open>A sector through the registers\<close>

text \<open>The sector that the registers address, when the drive has it.\<close>

definition addresses :: "libspectrum_ide_channel \<Rightarrow> int \<Rightarrow> bool" where
  "addresses chn n \<longleftrightarrow>
     (if head chn AND HEAD_LBA \<noteq> 0 then Some (lba_sector chn) else chs_sector (sel_drive chn) chn) = Some n \<and>
     0 \<le> n \<and> (case drive_capacity (sel_drive chn) of Some cap \<Rightarrow> n < cap | None \<Rightarrow> False)"

lemma seek_last_sector:
  assumes "addresses chn n" and "sector_count chn = 1"
  shows "seek chn = Some (ERROR_NONE, chn\<lparr>sector_number := n, sector_count := 0\<rparr>)"
proof -
  obtain cap where "drive_capacity (sel_drive chn) = Some cap" "n < cap" "0 \<le> n"
    and t: "(if head chn AND HEAD_LBA \<noteq> 0 then Some (lba_sector chn)
      else chs_sector (sel_drive chn) chn) = Some n"
    using assms(1) by (auto simp: addresses_def split: option.splits)
  then show ?thesis
    using assms(2) unfolding seek_def Let_def t by simp
qed

definition same_address :: "libspectrum_ide_channel \<Rightarrow> libspectrum_ide_channel \<Rightarrow> bool" where
  "same_address a b \<longleftrightarrow> head a = head b \<and> sector a = sector b \<and> cylinder_low a = cylinder_low b \<and>
     cylinder_high a = cylinder_high b \<and> cylinders (sel_drive a) = cylinders (sel_drive b) \<and>
     heads (sel_drive a) = heads (sel_drive b) \<and> sectors (sel_drive a) = sectors (sel_drive b)"

lemma addresses_same: "same_address a b \<Longrightarrow> addresses a n = addresses b n"
  by (simp add: same_address_def addresses_def lba_sector_def chs_sector_def drive_capacity_def
      cong: if_cong)

definition plain_bus :: "libspectrum_ide_databus \<Rightarrow> bool" where
  "plain_bus b \<longleftrightarrow> b \<noteq> IDE_DATA16_DATA2"

definition cell :: "libspectrum_ide_databus \<Rightarrow> int \<Rightarrow> nat" where
  "cell b i = nat (bus_cell b i)"

lemma cell_less: "0 \<le> i \<Longrightarrow> i < 512 \<Longrightarrow> cell b i < 512"
  using xor_1_range [of i] by (auto simp: cell_def bus_cell_def nat_less_iff)

lemma cell_inj:
  assumes "0 \<le> i" and "0 \<le> j"
  shows "cell b i = cell b j \<longleftrightarrow> i = j"
proof -
  have "i XOR 1 = j XOR 1 \<Longrightarrow> i = j" using xor_1_range(3) assms by metis
  then have "nat (i XOR 1) = nat (j XOR 1) \<longleftrightarrow> i = j"
    using xor_1_range(1) [OF assms(1)] xor_1_range(1) [OF assms(2)] eq_nat_nat_iff by blast
  then show ?thesis
    using assms by (simp add: cell_def bus_cell_def eq_nat_nat_iff)
qed

fun fill :: "libspectrum_ide_databus \<Rightarrow> int \<Rightarrow> byte list \<Rightarrow> byte list \<Rightarrow> byte list" where
  "fill b i [] buf = buf"
| "fill b i (d # ds) buf = fill b (i + bus_width b) ds (buf[cell b i := d])"

lemma length_fill [simp]: "length (fill b i ds buf) = length buf"
  by (induction ds arbitrary: i buf) auto

lemma bus_width_pos [simp]: "0 < bus_width b"
  by (simp add: bus_width_def)

lemma bus_width_nonneg [simp]: "0 \<le> bus_width b * int n"
  by (simp add: bus_width_def)

lemma bus_width_step [simp]: "0 \<le> i \<Longrightarrow> 0 \<le> i + bus_width b"
  by (simp add: bus_width_def)

lemma fill_before: "0 \<le> j \<Longrightarrow> j < i \<Longrightarrow> fill b i ds buf ! cell b j = buf ! cell b j"
proof (induction ds arbitrary: i buf)
  case (Cons d ds)
  have "fill b (i + bus_width b) ds (buf[cell b i := d]) ! cell b j = buf[cell b i := d] ! cell b j"
    by (rule Cons.IH) (use Cons.prems bus_width_pos [of b] in linarith)+
  then show ?case
    using cell_inj [of i j b] Cons.prems by (simp add: nth_list_update_neq)
qed simp

lemma fill_nth:
  assumes "0 \<le> i" and "i + bus_width b * int (length ds) \<le> 512" and "length buf = 512"
    and "k < length ds"
  shows "fill b i ds buf ! cell b (i + bus_width b * int k) = ds ! k"
  using assms
proof (induction ds arbitrary: i buf k)
  case (Cons d ds)
  have w: "0 < bus_width b" by simp
  have fit: "i + bus_width b + bus_width b * int (length ds) \<le> 512"
    using Cons.prems(2) by (simp add: distrib_left)
  moreover have "0 \<le> bus_width b * int (length ds)" by simp
  ultimately have "i < 512" using w by linarith
  show ?case
  proof (cases k)
    case 0
    then show ?thesis
      using fill_before [of i "i + bus_width b" b ds "buf[cell b i := d]"] w Cons.prems(1,3)
        cell_less [OF Cons.prems(1) \<open>i < 512\<close>] by simp
  next
    case (Suc k')
    then show ?thesis
      using Cons.IH [of "i + bus_width b" "buf[cell b i := d]" k'] fit w Cons.prems
      by (simp add: distrib_left add.assoc)
  qed
qed simp

fun ide_writes :: "(nat \<Rightarrow> byte) \<Rightarrow> libspectrum_ide_channel \<Rightarrow> byte list \<Rightarrow>
    libspectrum_ide_channel option" where
  "ide_writes junk chn [] = Some chn"
| "ide_writes junk chn (d # ds) =
     libspectrum_ide_write junk chn REGISTER_DATA d \<bind> (\<lambda>chn. ide_writes junk chn ds)"

fun ide_reads :: "libspectrum_ide_channel \<Rightarrow> nat \<Rightarrow> (byte list \<times> libspectrum_ide_channel) option" where
  "ide_reads chn 0 = Some ([], chn)"
| "ide_reads chn (Suc n) =
     libspectrum_ide_read chn REGISTER_DATA \<bind> (\<lambda>(d, chn).
     map_option (\<lambda>(ds, chn). (d # ds, chn)) (ide_reads chn n))"

lemma ide_writes_append:
  "ide_writes junk chn (ds @ es) = ide_writes junk chn ds \<bind> (\<lambda>chn. ide_writes junk chn es)"
  by (induction ds arbitrary: chn) (auto simp: bind_assoc)

lemma bus_plain:
  assumes "length (sector_buffer chn) = 512" and "0 \<le> datacounter chn" and "datacounter chn < 512"
    and "plain_bus (databus chn)"
  shows "bus_write chn d = Some (chn\<lparr>
      sector_buffer := (sector_buffer chn)[cell (databus chn) (datacounter chn) := d],
      datacounter := datacounter chn + bus_width (databus chn)\<rparr>)"
    "bus_read chn = Some (sector_buffer chn ! cell (databus chn) (datacounter chn),
      chn\<lparr>datacounter := datacounter chn + bus_width (databus chn)\<rparr>)"
  using assms xor_1_range [OF assms(2)]
  by (cases "databus chn"; simp add: bus_write_def bus_read_def buf_set_Some buf_get_Some cell_def
      bus_cell_def bus_width_def wide_bus_def plain_bus_def Let_def)+

lemma ide_writes_fill:
  assumes "length (sector_buffer chn) = 512" and "0 \<le> datacounter chn" and "plain_bus (databus chn)"
    and "phase chn = PHASE_PIO_OUT"
    and "datacounter chn + bus_width (databus chn) * int (length ds) < 512"
  shows "ide_writes junk chn ds = Some (chn\<lparr>
      sector_buffer := fill (databus chn) (datacounter chn) ds (sector_buffer chn),
      datacounter := datacounter chn + bus_width (databus chn) * int (length ds)\<rparr>)"
  using assms
proof (induction ds arbitrary: chn)
  case (Cons d ds)
  let ?b = "databus chn"
  have w: "0 < bus_width ?b" by simp
  have fit: "datacounter chn + bus_width ?b + bus_width ?b * int (length ds) < 512"
    using Cons.prems(5) by (simp add: distrib_left)
  moreover have "0 \<le> bus_width ?b * int (length ds)" by simp
  ultimately have l: "datacounter chn < 512" "\<not> 512 \<le> datacounter chn + bus_width ?b"
    using w by linarith+
  let ?c = "chn\<lparr>sector_buffer := (sector_buffer chn)[cell ?b (datacounter chn) := d],
      datacounter := datacounter chn + bus_width ?b\<rparr>"
  have "libspectrum_ide_write junk chn REGISTER_DATA d = Some ?c"
    using bus_plain(1) [OF Cons.prems(1,2) l(1) Cons.prems(3)] Cons.prems(4) l(2)
    by (simp add: write_data_def)
  moreover have "ide_writes junk ?c ds = Some (?c\<lparr>
      sector_buffer := fill (databus ?c) (datacounter ?c) ds (sector_buffer ?c),
      datacounter := datacounter ?c + bus_width (databus ?c) * int (length ds)\<rparr>)"
    by (rule Cons.IH) (use Cons.prems fit w in auto)
  ultimately show ?case by (simp add: distrib_left add.assoc)
next
  case Nil
  show ?case by (cases chn) simp
qed

lemma ide_reads_cells:
  assumes "length (sector_buffer chn) = 512" and "0 \<le> datacounter chn" and "plain_bus (databus chn)"
    and "phase chn = PHASE_PIO_IN" and "sector_count chn = 0"
    and "datacounter chn + bus_width (databus chn) * int n \<le> 512"
  shows "map_option fst (ide_reads chn n) =
    Some (map (\<lambda>k. sector_buffer chn ! cell (databus chn) (datacounter chn + bus_width (databus chn) * int k)) [0..<n])"
  using assms
proof (induction n arbitrary: chn)
  case (Suc n)
  let ?b = "databus chn"
  let ?at = "\<lambda>k. sector_buffer chn ! cell ?b (datacounter chn + bus_width ?b * int k)"
  have w: "0 < bus_width ?b" by simp
  have fit: "datacounter chn + bus_width ?b + bus_width ?b * int n \<le> 512"
    using Suc.prems(6) by (simp add: distrib_left)
  have nn: "0 \<le> bus_width ?b * int n" by simp
  then have l: "datacounter chn < 512" using w fit by linarith
  let ?c = "chn\<lparr>datacounter := datacounter chn + bus_width ?b\<rparr>"
  note r = bus_plain(2) [OF Suc.prems(1,2) l Suc.prems(3)]
  have split: "map ?at [0..<Suc n] = ?at 0 # map (\<lambda>k. ?at (Suc k)) [0..<n]"
    by (simp add: upt_conv_Cons map_Suc_upt [symmetric] del: upt_Suc)
  show ?case
  proof (cases "512 \<le> datacounter chn + bus_width ?b")
    case True
    then have "bus_width ?b * int n = 0" using fit nn by linarith
    then have "n = 0" using w by simp
    then show ?thesis using r True Suc.prems(4,5) by (simp add: read_data_def)
  next
    case False
    then have "map_option fst (ide_reads chn (Suc n)) =
        map_option (\<lambda>ds. ?at 0 # ds) (map_option fst (ide_reads ?c n))"
      using r Suc.prems(4) by (simp add: read_data_def option.map_comp comp_def case_prod_beta)
    moreover have "map_option fst (ide_reads ?c n) =
        Some (map (\<lambda>k. sector_buffer ?c ! cell (databus ?c) (datacounter ?c + bus_width (databus ?c) * int k)) [0..<n])"
      by (rule Suc.IH) (use Suc.prems fit w in auto)
    ultimately show ?thesis
      unfolding split by (simp add: distrib_left add.assoc)
  qed
qed simp

lemma sector_view_status:
  "sector_view (drv\<lparr>drive_error := e, drive_status := st\<rparr>) c n = sector_view drv c n"
proof -
  have "file_sector (drv\<lparr>drive_error := e, drive_status := st\<rparr>) n = file_sector drv n"
    by (simp add: file_sector_def sector_position_def split: option.split)
  then show ?thesis by (simp add: sector_view_def packed_view_def split: option.split)
qed

lemma sector_command:
  assumes inv: "ide_inv chn" and p: "present chn (selected chn)" and a: "addresses chn n"
    and c: "sector_count chn = 1"
  defines "started \<equiv> on_drive (\<lambda>drv. drv\<lparr>drive_error := IDE_ERROR_OK,
    drive_status := drive_status drv AND NOT (STATUS_ERR OR STATUS_BSY) OR STATUS_DRDY\<rparr>)
    (chn\<lparr>phase := PHASE_READY\<rparr>)"
  shows "execute_command chn 0x30 = Some ((set_drq (started\<lparr>sector_number := n, sector_count := 0,
      phase := PHASE_PIO_OUT\<rparr>))\<lparr>datacounter := 0\<rparr>)"
    and "sector_view (sel_drive chn) (sel_cache chn) (word_of_int n) = Some s \<Longrightarrow>
      execute_command chn 0x20 = Some ((set_drq (started\<lparr>sector_number := n, sector_count := 0,
        sector_buffer := s, phase := PHASE_PIO_IN\<rparr>))\<lparr>datacounter := 0\<rparr>)"
proof -
  have d: "disk (sel_drive chn) \<noteq> None" using p by (simp add: present_def sel_drive_def)
  have sel: "sel_drive started = (sel_drive chn)\<lparr>drive_error := IDE_ERROR_OK,
      drive_status := drive_status (sel_drive chn) AND NOT (STATUS_ERR OR STATUS_BSY) OR STATUS_DRDY\<rparr>"
    "sel_cache started = sel_cache chn"
    unfolding started_def by simp_all (simp_all add: sel_drive_def sel_cache_def)
  have "addresses started n"
    using a addresses_same [of started chn n] by (simp add: same_address_def sel) (simp add: started_def)
  moreover have "sector_count started = 1" using c by (simp add: started_def)
  ultimately have seek: "seek started =
      Some (ERROR_NONE, started\<lparr>sector_number := n, sector_count := 0\<rparr>)"
    by (rule seek_last_sector)
  have e: "execute_command chn 0x30 = writesector started" "execute_command chn 0x20 = readsector started"
    unfolding execute_command_def Let_def if_not_P [OF d] started_def by simp_all
  show "execute_command chn 0x30 = Some ((set_drq (started\<lparr>sector_number := n, sector_count := 0,
      phase := PHASE_PIO_OUT\<rparr>))\<lparr>datacounter := 0\<rparr>)"
    unfolding e by (simp add: writesector_def seek)
  assume s: "sector_view (sel_drive chn) (sel_cache chn) (word_of_int n) = Some s"
  let ?c = "started\<lparr>sector_number := n, sector_count := 0\<rparr>"
  have sc: "sel_drive ?c = sel_drive started" "sel_cache ?c = sel_cache started"
    by (simp_all add: sel_drive_def sel_cache_def)
  have v: "sector_view (sel_drive started) (sel_cache started) (word_of_int n) = Some s"
    using s unfolding sel sector_view_status .
  have ok: "drive_ok (sel_drive started)" "cache_ok (sel_drive started) (sel_cache started)"
      "length (sector_buffer started) = 512"
    using ide_inv_selected [OF inv d] unfolding sel
    by (simp_all add: drive_ok_def cache_ok_def) (simp add: started_def)
  have "read_hdf ?c = Some (0, ?c\<lparr>sector_buffer := s\<rparr>)"
    using read_sector_view [OF ok, of "word_of_int n"] v by (simp add: read_hdf_def sc)
  then show "execute_command chn 0x20 = Some ((set_drq (started\<lparr>sector_number := n, sector_count := 0,
        sector_buffer := s, phase := PHASE_PIO_IN\<rparr>))\<lparr>datacounter := 0\<rparr>)"
    unfolding e by (simp add: readsector_def seek)
qed

lemma ide_writes_inv: "ide_inv c \<Longrightarrow> ide_writes junk c ds = Some c' \<Longrightarrow> ide_inv c'"
proof (induction ds arbitrary: c)
  case (Cons d ds)
  then show ?case
    using write_data_ok [OF Cons.prems(1), of junk d] by (auto split: if_splits bind_splits)
qed simp

lemma transfer_out:
  assumes inv: "ide_inv c" and c: "phase c = PHASE_PIO_OUT" "sector_count c = 0" "datacounter c = 0"
    and b: "plain_bus (databus c)" and len: "bus_width (databus c) * int (length data) = 512"
  shows "\<exists>c'. ide_writes junk c data = Some c' \<and> ide_inv c' \<and> same_address c' c \<and>
    selected c' = selected c \<and> present c' (selected c) \<and> databus c' = databus c \<and>
    sector_view (sel_drive c') (sel_cache c') (word_of_int (sector_number c)) =
      Some (kept (sector_size (sel_drive c)) (fill (databus c) 0 data (sector_buffer c)))"
proof -
  have d: "disk (sel_drive c) \<noteq> None"
    using inv c(1) by (simp add: ide_inv_def present_def sel_drive_def)
  note ok = ide_inv_selected [OF inv d]
  obtain ds x where data: "data = ds @ [x]" using len by (cases data rule: rev_cases) auto
  define i where "i = bus_width (databus c) * int (length ds)"
  have "0 \<le> i" "i + bus_width (databus c) = 512"
    using len by (simp_all add: i_def data distrib_left)
  then have i: "0 \<le> i" "i < 512" "i + bus_width (databus c) = 512"
    using bus_width_pos [of "databus c"] by linarith+
  let ?m = "c\<lparr>sector_buffer := fill (databus c) 0 ds (sector_buffer c), datacounter := i\<rparr>"
  have w1: "ide_writes junk c ds = Some ?m"
    using ide_writes_fill [of c ds junk] ok(5) b c i by (simp add: i_def)
  have fill_snoc: "fill (databus c) j (ds @ [x]) buf =
      (fill (databus c) j ds buf)[cell (databus c) (j + bus_width (databus c) * int (length ds)) := x]" for j buf
    by (induction ds arbitrary: j buf) (simp_all add: distrib_left add.assoc)
  let ?buf = "fill (databus c) 0 data (sector_buffer c)"
  let ?f = "c\<lparr>sector_buffer := ?buf, datacounter := 512\<rparr>"
  have "bus_write ?m x = Some ?f"
    using bus_plain(1) [of ?m x] ok(5) b i by (simp add: data fill_snoc i_def [symmetric])
  moreover have s: "sel_drive ?f = sel_drive c" "sel_cache ?f = sel_cache c"
    by (simp_all add: sel_drive_def sel_cache_def)
  moreover obtain t where t: "libspectrum_ide_write_sector_to_hdf junk (sel_drive c) (sel_cache c)
        (word_of_int (sector_number c)) ?buf = Some t"
      "sector_view (sel_drive c) t (word_of_int (sector_number c)) =
        Some (kept (sector_size (sel_drive c)) ?buf)"
    using sector_view_write [OF ok(1,2), of ?buf junk "word_of_int (sector_number c)"] ok(5) by auto
  moreover define e where "e = clear_drq (?f\<lparr>cache := (cache c)(selected c := t), phase := PHASE_READY\<rparr>)"
  ultimately have w: "ide_writes junk c data = Some e"
    using c by (simp add: data ide_writes_append w1 write_data_def write_hdf_def)
  have sel: "sel_drive (?f\<lparr>cache := (cache c)(selected c := t), phase := PHASE_READY\<rparr>) = sel_drive c"
    by (simp add: sel_drive_def)
  have drv: "sel_drive e = (sel_drive c)\<lparr>drive_status := drive_status (sel_drive c) AND NOT STATUS_DRQ\<rparr>"
    "sel_cache e = t"
    unfolding e_def clear_drq_def by (simp_all only: on_drive_fields sel) (simp add: sel_cache_def)
  have view: "sector_view (sel_drive e) t n = sector_view (sel_drive c) t n" for n
    unfolding drv using sector_view_status [where drv = "sel_drive c" and e = "drive_error (sel_drive c)"] by simp
  have "same_address e c" unfolding same_address_def drv by (simp add: e_def clear_drq_def)
  moreover have "selected e = selected c" "databus e = databus c" by (simp_all add: e_def clear_drq_def)
  moreover have "present e (selected c)"
    using drv(1) d \<open>selected e = selected c\<close> by (simp add: present_def sel_drive_def)
  ultimately show ?thesis
    using w ide_writes_inv [OF inv w] view t(2) drv(2) by auto
qed

lemma kept_fill_cells:
  assumes keep: "b = IDE_DATA8 \<or> ss = 512" and len: "bus_width b * int (length data) = 512"
    and buf: "length buf = 512"
  shows "map (\<lambda>k. kept ss (fill b 0 data buf) ! cell b (bus_width b * int k)) [0..<length data] = data"
proof (rule nth_equalityI)
  show "map (\<lambda>k. kept ss (fill b 0 data buf) ! cell b (bus_width b * int k)) [0..<length data] ! k = data ! k"
    if "k < length (map (\<lambda>k. kept ss (fill b 0 data buf) ! cell b (bus_width b * int k)) [0..<length data])" for k
  proof -
    have k: "k < length data" using that by simp
    then have "bus_width b * int k < 512"
      using len mult_strict_left_mono [of "int k" "int (length data)" "bus_width b"] by simp
    then have "kept ss (fill b 0 data buf) ! cell b (bus_width b * int k) =
        fill b 0 data buf ! cell b (bus_width b * int k)"
      using keep cell_less [of "bus_width b * int k" b]
      by (auto simp: kept_def cell_def bus_cell_def bus_width_def wide_bus_def nat_mult_distrib)
    then show ?thesis using fill_nth [of 0 b data buf k] len buf k by simp
  qed
qed simp


definition demo_channel :: libspectrum_ide_channel where
  "demo_channel =
     \<lparr>databus = IDE_DATA16, drive = (\<lambda>_. demo_drive (Some \<lparr>file_bytes = [], file_limit = 9999\<rparr>) 512),
      selected = IDE_MASTER, feature = 0, sector_count = 0, sector = 3, cylinder_low = 0,
      cylinder_high = 0, head = 0x40, data2 = 0, phase = PHASE_READY, datacounter = 0,
      sector_buffer = replicate 512 0, sector_number = 0, cache = (\<lambda>_. int_table_new)\<rparr>"

lemma demo_channel_inv: "ide_inv demo_channel" "present demo_channel IDE_MASTER"
  by (simp_all add: ide_inv_def demo_channel_def unit_ok_def demo_drive_def drive_ok_def cache_ok_new
      geometry_ok_def blank_header_def hdf_header_of_def present_def)



lemma write_data_past_end:
  "ide_inv c \<Longrightarrow> phase c = PHASE_PIO_OUT \<Longrightarrow> datacounter c = 512 \<Longrightarrow> write_data junk c d = None"
  using write_data_ok [of c junk d] by simp

text \<open>
  C32: when a transfer of several sectors comes to the end of the drive, the byte that completes the last
  sector is accepted and the next one is stored outside the sector buffer: the failed
  seek reports its error, but leaves the channel in the transfer.
\<close>

theorem failed_continuation_overruns:
  assumes inv: "ide_inv chn" and out: "phase chn = PHASE_PIO_OUT"
    and at_end: "datacounter chn + bus_width (databus chn) = 512"
    and more: "sector_count chn \<noteq> 0" and lba: "head chn AND HEAD_LBA \<noteq> 0"
    and past: "cylinders (sel_drive chn) * heads (sel_drive chn) * sectors (sel_drive chn) \<le> lba_sector chn"
  shows "ide_writes junk chn [d] \<noteq> None \<and> ide_writes junk chn [d, d'] = None"
proof -
  have disk: "disk (sel_drive chn) \<noteq> None"
    using inv out by (simp add: ide_inv_def present_def sel_drive_def)
  note ok = ide_inv_selected [OF inv disk]
  have "datacounter chn < 512" using at_end bus_width_pos [of "databus chn"] by linarith
  then have r: "0 \<le> datacounter chn" "datacounter chn < 512"
      "wide_bus (databus chn) \<longrightarrow> even (datacounter chn)"
    using inv out by (simp_all add: ide_inv_def)
  obtain buf where b: "bus_write chn d = Some (chn\<lparr>sector_buffer := buf, datacounter := 512\<rparr>)"
      "length buf = 512"
    using bus_write_Some [OF ok(5) r, of d] at_end by auto
  let ?c = "chn\<lparr>sector_buffer := buf, datacounter := 512\<rparr>"
  have c: "ide_inv ?c" "disk (sel_drive ?c) \<noteq> None"
    using moved_inv(1) [OF inv r(2) _ b(2)] out at_end disk by (simp_all add: sel_drive_def)
  obtain t where t: "write_hdf junk ?c = Some (0, ?c\<lparr>cache := (cache ?c)(selected ?c := t)\<rparr>)"
      "ide_inv (?c\<lparr>cache := (cache ?c)(selected ?c := t)\<rparr>)"
    using write_hdf_ok [OF c] by blast
  let ?e = "?c\<lparr>cache := (cache ?c)(selected ?c := t)\<rparr>"
  have "sel_drive ?e = sel_drive chn" "lba_sector ?e = lba_sector chn"
    by (simp_all add: sel_drive_def lba_sector_def)
  then have "seek ?e = Some (ERROR_UNKNOWN, set_drive_error (IDE_ERROR_ABRT OR IDE_ERROR_IDNF) ?e)"
    using lba past by (simp add: seek_def Let_def drive_capacity_Some [OF ok(3)])
  then have w: "write_data junk chn d = Some (set_drive_error (IDE_ERROR_ABRT OR IDE_ERROR_IDNF) ?e)"
    using out b t(1) more by (simp add: write_data_def writesector_def)
  moreover have "write_data junk (set_drive_error (IDE_ERROR_ABRT OR IDE_ERROR_IDNF) ?e) d' = None"
    by (rule write_data_past_end [OF status_keeps_inv(1) [OF t(2)]])
      (simp_all add: out, simp add: set_drive_error_def)
  ultimately show ?thesis by simp
qed

definition demo_transfer :: libspectrum_ide_channel where
  "demo_transfer = demo_channel\<lparr>phase := PHASE_PIO_OUT, datacounter := 511, sector_count := 1, sector := 4\<rparr>"

theorem failed_continuation_overruns_witness:
  "ide_writes (\<lambda>_. 0) demo_transfer [1] \<noteq> None \<and> ide_writes (\<lambda>_. 0) demo_transfer [1, 2] = None"
proof -
  have "ide_inv demo_transfer"
    using demo_channel_inv
    by (simp add: demo_transfer_def ide_inv_def present_def)
      (simp add: demo_channel_def wide_bus_def)
  then show ?thesis
    using failed_continuation_overruns [of demo_transfer "\<lambda>_. 0" 1 2]
    by (simp add: demo_transfer_def demo_channel_def sel_drive_def demo_drive_def bus_width_def
        wide_bus_def lba_sector_def ide_masks)
qed

end
