(* ===== verification/Mmc.thy ===== *)
theory Mmc
  imports Hdf
begin

text \<open>
  The SD / MMC card of \<open>mmc.c\<close>: a card in SPI mode that takes commands byte by byte, on the
  same disk image layer as the IDE channel. The two pointers into the response buffer are
  its indices. The members that \<open>libspectrum_mmc_alloc\<close> does not set are those of an
  arbitrary card \<open>junk\<close>.
\<close>

datatype command_state_t =
    WAITING_FOR_COMMAND | WAITING_FOR_DATA0 | WAITING_FOR_DATA1 | WAITING_FOR_DATA2
  | WAITING_FOR_DATA3 | WAITING_FOR_CRC | WAITING_FOR_DATA_TOKEN | WAITING_FOR_DATA
  | WAITING_FOR_DATA_CRC1 | WAITING_FOR_DATA_CRC2

datatype erase_sequence_t = SEQ_ERASE_NONE | SEQ_ERASE_WR_BLK_START | SEQ_ERASE_WR_BLK_END

definition IN_IDLE_STATE_MASK :: byte where "IN_IDLE_STATE_MASK = 0x01"
definition ERASE_RESET_MASK :: byte where "ERASE_RESET_MASK = 0x02"
definition ILLEGAL_COMMAND_MASK :: byte where "ILLEGAL_COMMAND_MASK = 0x04"
definition ERASE_SEQ_ERROR_MASK :: byte where "ERASE_SEQ_ERROR_MASK = 0x10"
definition PARAMETER_ERROR_MASK :: byte where "PARAMETER_ERROR_MASK = 0x40"

definition GO_IDLE_STATE :: byte where "GO_IDLE_STATE = 0"
definition SEND_IF_COND :: byte where "SEND_IF_COND = 8"
definition SEND_CSD :: byte where "SEND_CSD = 9"
definition SEND_CID :: byte where "SEND_CID = 10"
definition READ_SINGLE_BLOCK :: byte where "READ_SINGLE_BLOCK = 17"
definition WRITE_BLOCK :: byte where "WRITE_BLOCK = 24"
definition ERASE_WR_BLK_START :: byte where "ERASE_WR_BLK_START = 32"
definition ERASE_WR_BLK_END :: byte where "ERASE_WR_BLK_END = 33"
definition ERASE :: byte where "ERASE = 38"
definition APP_CMD :: byte where "APP_CMD = 55"
definition READ_OCR :: byte where "READ_OCR = 58"

definition SD_STATUS :: byte where "SD_STATUS = 13"
definition SEND_NUM_WR_BLOCKS :: byte where "SEND_NUM_WR_BLOCKS = 22"
definition SET_WR_BLK_ERASE_COUNT :: byte where "SET_WR_BLK_ERASE_COUNT = 23"
definition SD_SEND_OP_COND :: byte where "SD_SEND_OP_COND = 41"
definition SET_CLR_CARD_DETECT :: byte where "SET_CLR_CARD_DETECT = 42"
definition SEND_SCR :: byte where "SEND_SCR = 51"

lemmas mmc_commands = GO_IDLE_STATE_def SEND_IF_COND_def SEND_CSD_def SEND_CID_def
  READ_SINGLE_BLOCK_def WRITE_BLOCK_def ERASE_WR_BLK_START_def ERASE_WR_BLK_END_def ERASE_def
  APP_CMD_def READ_OCR_def SD_STATUS_def SEND_NUM_WR_BLOCKS_def SET_WR_BLK_ERASE_COUNT_def
  SD_SEND_OP_COND_def SET_CLR_CARD_DETECT_def SEND_SCR_def
lemmas mmc_masks = IN_IDLE_STATE_MASK_def ERASE_RESET_MASK_def ILLEGAL_COMMAND_MASK_def
  ERASE_SEQ_ERROR_MASK_def PARAMETER_ERROR_MASK_def

record libspectrum_mmc_card =
  card_drive :: libspectrum_ide_drive
  card_cache :: sector_cache
  c_size :: lword
  total_sectors :: dword
  r1_status :: byte
  command_state :: command_state_t
  current_command :: byte
  current_argument :: "byte list"
  data_count :: size_t
  send_buffer :: "byte list"
  response_buffer :: "byte list"
  response_buffer_end :: nat
  response_buffer_next :: nat
  cmd8_issued :: bool
  cmd55_issued :: bool
  erase_sequence :: erase_sequence_t
  erase_block_start :: dword
  erase_block_end :: dword

section \<open>Inserting, ejecting, reset\<close>

definition libspectrum_mmc_reset :: "libspectrum_mmc_card \<Rightarrow> libspectrum_mmc_card" where
  "libspectrum_mmc_reset mc =
     mc\<lparr>r1_status := IN_IDLE_STATE_MASK, command_state := WAITING_FOR_COMMAND,
          response_buffer_next := 0, response_buffer_end := 0, cmd8_issued := False,
          cmd55_issued := False, erase_sequence := SEQ_ERASE_NONE, erase_block_start := 0,
          erase_block_end := 0\<rparr>"

definition libspectrum_mmc_alloc :: "libspectrum_mmc_card \<Rightarrow> libspectrum_mmc_card" where
  "libspectrum_mmc_alloc junk =
     libspectrum_mmc_reset (junk\<lparr>card_drive := (card_drive junk)\<lparr>disk := None\<rparr>,
                                 card_cache := int_table_new\<rparr>)"

definition libspectrum_mmc_eject :: "libspectrum_mmc_card \<Rightarrow> libspectrum_mmc_card" where
  "libspectrum_mmc_eject mc =
     (let (drv, c) = libspectrum_ide_eject_from_drive (card_drive mc) (card_cache mc)
      in libspectrum_mmc_reset (mc\<lparr>card_drive := drv, card_cache := c\<rparr>))"

definition libspectrum_mmc_insert ::
    "libspectrum_mmc_card \<Rightarrow> hdf_file option option \<Rightarrow> libspectrum_mmc_card c_result" where
  "libspectrum_mmc_insert mc filename =
     (let mc = libspectrum_mmc_eject mc in
      case filename of
        None \<Rightarrow> Some (ERROR_NONE, mc)
      | Some opened \<Rightarrow>
          do { (e, drv) \<leftarrow> libspectrum_ide_insert_into_drive (card_drive mc) opened;
               let mc = mc\<lparr>card_drive := drv\<rparr>;
               if e \<noteq> ERROR_NONE then Some (e, mc)
               else Some
                 (let mc = mc\<lparr>total_sectors :=
                     word_of_int (cylinders drv) * word_of_int (heads drv) * word_of_int (sectors drv)\<rparr>;
                   size = drop_bit 10 (total_sectors mc) - 1 in
                  if sector_size drv \<noteq> 512 \<or> total_sectors mc mod 1024 \<noteq> 0 then
                    (ERROR_UNKNOWN, mc)
                  else if size \<ge> 65375 then (ERROR_UNKNOWN, mc)
                  else (ERROR_NONE, mc\<lparr>c_size := ucast size\<rparr>)) })"

definition libspectrum_mmc_dirty :: "libspectrum_mmc_card \<Rightarrow> bool" where
  "libspectrum_mmc_dirty mc \<longleftrightarrow> g_hash_table_size (card_cache mc) \<noteq> 0"

definition libspectrum_mmc_commit :: "libspectrum_mmc_card \<Rightarrow> libspectrum_mmc_card option" where
  "libspectrum_mmc_commit mc =
     map_option (\<lambda>(drv, c). mc\<lparr>card_drive := drv, card_cache := c\<rparr>)
       (libspectrum_ide_commit_drive (card_drive mc) (card_cache mc))"

section \<open>Responses\<close>

definition libspectrum_mmc_read :: "libspectrum_mmc_card \<Rightarrow> (byte \<times> libspectrum_mmc_card) option" where
  "libspectrum_mmc_read mc =
     (if response_buffer_next mc < response_buffer_end mc
      then map_option (\<lambda>r. (r, mc\<lparr>response_buffer_next := response_buffer_next mc + 1\<rparr>))
             (nget (response_buffer mc) (response_buffer_next mc))
      else Some (0xff, mc))"

text \<open>The response is stored at the start of its buffer and is the next to be read.\<close>

definition respond :: "byte list \<Rightarrow> libspectrum_mmc_card \<Rightarrow> libspectrum_mmc_card option" where
  "respond bs mc =
     map_option (\<lambda>b. mc\<lparr>response_buffer := b, response_buffer_next := 0,
         response_buffer_end := length bs\<rparr>)
       (memcpy_at (response_buffer mc) 0 bs (length bs))"

definition set_response_buffer_r1 :: "libspectrum_mmc_card \<Rightarrow> libspectrum_mmc_card option" where
  "set_response_buffer_r1 mc = respond [r1_status mc] mc"

definition set_response_buffer_r7 :: "libspectrum_mmc_card \<Rightarrow> dword \<Rightarrow> libspectrum_mmc_card option" where
  "set_response_buffer_r7 mc v =
     respond [r1_status mc, ucast (drop_bit 24 (v AND 0xff000000)), ucast (drop_bit 16 (v AND 0x00ff0000)),
       ucast (drop_bit 8 (v AND 0x0000ff00)), ucast (v AND 0x000000ff)] mc"

definition reject :: "byte \<Rightarrow> libspectrum_mmc_card \<Rightarrow> libspectrum_mmc_card option" where
  "reject m mc = set_response_buffer_r1 (mc\<lparr>r1_status := r1_status mc OR m\<rparr>)"

definition reset_erase_sequence :: "libspectrum_mmc_card \<Rightarrow> libspectrum_mmc_card" where
  "reset_erase_sequence mc =
     mc\<lparr>erase_sequence := SEQ_ERASE_NONE, erase_block_start := 0, erase_block_end := 0\<rparr>"

definition idle_card :: "libspectrum_mmc_card \<Rightarrow> bool" where
  "idle_card mc \<longleftrightarrow> r1_status mc AND IN_IDLE_STATE_MASK \<noteq> 0"

text \<open>The argument of the command, most significant byte first.\<close>

definition argument_dword :: "libspectrum_mmc_card \<Rightarrow> dword option" where
  "argument_dword mc =
     do { a3 \<leftarrow> nget (current_argument mc) 3;
          a2 \<leftarrow> nget (current_argument mc) 2;
          a1 \<leftarrow> nget (current_argument mc) 1;
          a0 \<leftarrow> nget (current_argument mc) 0;
          Some (ucast a3 + push_bit 8 (ucast a2) + push_bit 16 (ucast a1) + push_bit 24 (ucast a0)) }"

section \<open>Commands\<close>

definition erase_wr_blk_start :: "libspectrum_mmc_card \<Rightarrow> libspectrum_mmc_card option" where
  "erase_wr_blk_start mc =
     (if idle_card mc then reject ILLEGAL_COMMAND_MASK mc
      else if erase_sequence mc \<noteq> SEQ_ERASE_NONE then
        map_option reset_erase_sequence (reject ERASE_SEQ_ERROR_MASK mc)
      else
        do { n \<leftarrow> argument_dword mc;
             let mc = mc\<lparr>erase_block_start := n\<rparr>;
             if erase_block_start mc \<ge> total_sectors mc then
               map_option reset_erase_sequence (reject PARAMETER_ERROR_MASK mc)
             else map_option (\<lambda>mc. mc\<lparr>erase_sequence := SEQ_ERASE_WR_BLK_START\<rparr>)
                    (set_response_buffer_r1 mc) })"

definition erase_wr_blk_end :: "libspectrum_mmc_card \<Rightarrow> libspectrum_mmc_card option" where
  "erase_wr_blk_end mc =
     (if idle_card mc then reject ILLEGAL_COMMAND_MASK mc
      else if erase_sequence mc \<noteq> SEQ_ERASE_WR_BLK_START then
        map_option reset_erase_sequence (reject ERASE_SEQ_ERROR_MASK mc)
      else
        do { n \<leftarrow> argument_dword mc;
             let mc = mc\<lparr>erase_block_end := n\<rparr>;
             if erase_block_end mc \<ge> total_sectors mc then
               map_option reset_erase_sequence (reject PARAMETER_ERROR_MASK mc)
             else if erase_block_start mc > erase_block_end mc then
               map_option reset_erase_sequence (reject PARAMETER_ERROR_MASK mc)
             else map_option (\<lambda>mc. mc\<lparr>erase_sequence := SEQ_ERASE_WR_BLK_END\<rparr>)
                    (set_response_buffer_r1 mc) })"

text \<open>The loop of \<open>erase\<close>; it would not end if the last sector were \<open>2 ^ 32 - 1\<close>.\<close>

partial_function (option) erase_loop :: "(nat \<Rightarrow> byte) \<Rightarrow> libspectrum_ide_drive \<Rightarrow> dword \<Rightarrow> dword \<Rightarrow>
    byte list \<Rightarrow> sector_cache \<Rightarrow> sector_cache option" where
  "erase_loop junk drv i end_i src c =
     (if i \<le> end_i then
        libspectrum_ide_write_sector_to_hdf junk drv c i src \<bind>
        (\<lambda>c. erase_loop junk drv (i + 1) end_i src c)
      else Some c)"

definition erase :: "(nat \<Rightarrow> byte) \<Rightarrow> libspectrum_mmc_card \<Rightarrow> libspectrum_mmc_card option" where
  "erase junk mc =
     (if idle_card mc then reject ILLEGAL_COMMAND_MASK mc
      else if erase_sequence mc \<noteq> SEQ_ERASE_WR_BLK_END then
        map_option reset_erase_sequence (reject ERASE_SEQ_ERROR_MASK mc)
      else
        do { buf \<leftarrow> memset_at (send_buffer mc) 0 0x00 512;
             c \<leftarrow> erase_loop junk (card_drive mc) (erase_block_start mc) (erase_block_end mc)
                    buf (card_cache mc);
             mc \<leftarrow> respond [r1_status mc, 0x01] (mc\<lparr>send_buffer := buf, card_cache := c\<rparr>);
             Some (reset_erase_sequence mc) })"

definition read_single_block :: "libspectrum_mmc_card \<Rightarrow> libspectrum_mmc_card option" where
  "read_single_block mc =
     (if idle_card mc then reject ILLEGAL_COMMAND_MASK mc
      else
        do { n \<leftarrow> argument_dword mc;
             if n \<ge> total_sectors mc then reject PARAMETER_ERROR_MASK mc
             else
               do { (e, dest) \<leftarrow> libspectrum_ide_read_sector_from_hdf (card_drive mc)
                       (card_cache mc) n (take 512 (drop 2 (response_buffer mc)));
                    buf \<leftarrow> memcpy_at (response_buffer mc) 2 dest 512;
                    if e \<noteq> 0 then respond [r1_status mc, 0x01] (mc\<lparr>response_buffer := buf\<rparr>)
                    else
                      do { buf \<leftarrow> memcpy_at buf 0 [r1_status mc, 0xfe] 2;
                           buf \<leftarrow> memset_at buf 514 0x00 2;
                           Some (mc\<lparr>response_buffer := buf, response_buffer_next := 0,
                                      response_buffer_end := 516\<rparr>) } } })"

definition send_csd :: "libspectrum_mmc_card \<Rightarrow> libspectrum_mmc_card option" where
  "send_csd mc =
     (if idle_card mc then reject ILLEGAL_COMMAND_MASK mc
      else respond
        ([r1_status mc, 0xfe] @
         [0x40, 0, 0, 0, 0x5b, 0x05 OR 0x09, 0, 0,
          ucast (drop_bit 8 (c_size mc) AND 0xff), ucast (c_size mc AND 0xff),
          0x40 OR 0x3f, 0x80, 0x10, 0x01, 0, 0x01] @ [0, 0]) mc)"

definition send_cid :: "libspectrum_mmc_card \<Rightarrow> libspectrum_mmc_card option" where
  "send_cid mc =
     (if idle_card mc then reject ILLEGAL_COMMAND_MASK mc
      else respond
        ([r1_status mc, 0xfe] @
         [0, 0x20, 0x20, 0x46, 0x75, 0x73, 0x65, 0, 0, 0, 0, 0, 0, 0, 0, 0x01] @ [0, 0]) mc)"

definition do_application_command ::
    "libspectrum_mmc_card \<Rightarrow> (bool \<times> libspectrum_mmc_card) option" where
  "do_application_command mc =
     (if current_command mc \<in> {SD_STATUS, SEND_NUM_WR_BLOCKS, SET_WR_BLK_ERASE_COUNT,
           SET_CLR_CARD_DETECT, SEND_SCR} then
        map_option (Pair True) (reject ILLEGAL_COMMAND_MASK mc)
      else if current_command mc = SD_SEND_OP_COND then
        do { a0 \<leftarrow> nget (current_argument mc) 0;
             map_option (Pair True)
               (set_response_buffer_r1
                 (if cmd8_issued mc \<and> a0 AND 0x40 \<noteq> 0
                  then mc\<lparr>r1_status := r1_status mc AND NOT IN_IDLE_STATE_MASK\<rparr> else mc)) }
      else Some (False, mc))"

definition do_standard_command ::
    "(nat \<Rightarrow> byte) \<Rightarrow> libspectrum_mmc_card \<Rightarrow> libspectrum_mmc_card option" where
  "do_standard_command junk mc =
     (let c = current_command mc in
      if c = GO_IDLE_STATE then
        set_response_buffer_r1
          (mc\<lparr>r1_status := r1_status mc OR IN_IDLE_STATE_MASK, cmd8_issued := False\<rparr>)
      else if c = SEND_IF_COND then
        nget (current_argument mc) 3 \<bind>
        (\<lambda>a3. set_response_buffer_r7 (mc\<lparr>cmd8_issued := True\<rparr>) (0x00000100 OR ucast a3))
      else if c = SEND_CSD then send_csd mc
      else if c = SEND_CID then send_cid mc
      else if c = READ_SINGLE_BLOCK then read_single_block mc
      else if c = WRITE_BLOCK then set_response_buffer_r1 mc
      else if c = ERASE_WR_BLK_START then erase_wr_blk_start mc
      else if c = ERASE_WR_BLK_END then erase_wr_blk_end mc
      else if c = ERASE then erase junk mc
      else if c = APP_CMD then set_response_buffer_r1 (mc\<lparr>cmd55_issued := True\<rparr>)
      else if c = READ_OCR then set_response_buffer_r7 mc 0xc0000000
      else reject ILLEGAL_COMMAND_MASK mc)"

definition leave_erase_sequence :: "libspectrum_mmc_card \<Rightarrow> libspectrum_mmc_card" where
  "leave_erase_sequence mc =
     (if erase_sequence mc \<noteq> SEQ_ERASE_NONE \<and>
         current_command mc \<notin> {ERASE_WR_BLK_START, ERASE_WR_BLK_END, ERASE}
      then (reset_erase_sequence mc)\<lparr>r1_status := r1_status mc OR ERASE_RESET_MASK\<rparr>
      else mc)"

definition do_command :: "(nat \<Rightarrow> byte) \<Rightarrow> libspectrum_mmc_card \<Rightarrow> libspectrum_mmc_card option" where
  "do_command junk mc =
     do { (is_acmd, mc) \<leftarrow>
            (if cmd55_issued mc then do_application_command (mc\<lparr>cmd55_issued := False\<rparr>)
             else Some (False, mc));
          if is_acmd then Some mc
          else do_standard_command junk (leave_erase_sequence mc) }"

definition write_single_block ::
    "(nat \<Rightarrow> byte) \<Rightarrow> libspectrum_mmc_card \<Rightarrow> libspectrum_mmc_card option" where
  "write_single_block junk mc =
     (if idle_card mc then reject ILLEGAL_COMMAND_MASK mc
      else
        do { n \<leftarrow> argument_dword mc;
             if n \<ge> total_sectors mc then reject PARAMETER_ERROR_MASK mc
             else
               do { c \<leftarrow> libspectrum_ide_write_sector_to_hdf junk (card_drive mc)
                            (card_cache mc) n (send_buffer mc);
                    respond [0x05, 0x01] (mc\<lparr>card_cache := c\<rparr>) } })"

definition do_command_data ::
    "(nat \<Rightarrow> byte) \<Rightarrow> libspectrum_mmc_card \<Rightarrow> libspectrum_mmc_card option" where
  "do_command_data junk mc =
     (if current_command mc = WRITE_BLOCK then write_single_block junk mc else Some mc)"

section \<open>Bytes from the machine\<close>

definition parse_command ::
    "libspectrum_mmc_card \<Rightarrow> byte \<Rightarrow> bool \<times> libspectrum_mmc_card" where
  "parse_command mc b =
     (if b AND 0xc0 \<noteq> 0x40 then (False, mc)
      else (True, mc\<lparr>current_command := b AND 0x3f\<rparr>))"

definition take_argument :: "nat \<Rightarrow> command_state_t \<Rightarrow> byte \<Rightarrow> libspectrum_mmc_card \<Rightarrow>
    libspectrum_mmc_card option" where
  "take_argument i next_state data mc =
     map_option (\<lambda>a. mc\<lparr>current_argument := a, command_state := next_state\<rparr>)
       (nset (current_argument mc) i data)"

definition libspectrum_mmc_write ::
    "(nat \<Rightarrow> byte) \<Rightarrow> libspectrum_mmc_card \<Rightarrow> byte \<Rightarrow> libspectrum_mmc_card option" where
  "libspectrum_mmc_write junk mc data =
     (if disk (card_drive mc) = None then Some mc
      else case command_state mc of
        WAITING_FOR_COMMAND \<Rightarrow>
          (let (ok, mc) = parse_command mc data in
           Some (if ok then mc\<lparr>command_state := WAITING_FOR_DATA0\<rparr> else mc))
      | WAITING_FOR_DATA0 \<Rightarrow> take_argument 0 WAITING_FOR_DATA1 data mc
      | WAITING_FOR_DATA1 \<Rightarrow> take_argument 1 WAITING_FOR_DATA2 data mc
      | WAITING_FOR_DATA2 \<Rightarrow> take_argument 2 WAITING_FOR_DATA3 data mc
      | WAITING_FOR_DATA3 \<Rightarrow> take_argument 3 WAITING_FOR_CRC data mc
      | WAITING_FOR_CRC \<Rightarrow>
          map_option (\<lambda>mc. mc\<lparr>r1_status := r1_status mc AND IN_IDLE_STATE_MASK,
              command_state := (if current_command mc = WRITE_BLOCK
                then WAITING_FOR_DATA_TOKEN else WAITING_FOR_COMMAND)\<rparr>)
            (do_command junk mc)
      | WAITING_FOR_DATA_TOKEN \<Rightarrow>
          Some (if data = 0xfe then mc\<lparr>command_state := WAITING_FOR_DATA, data_count := 0\<rparr>
                else mc)
      | WAITING_FOR_DATA \<Rightarrow>
          map_option (\<lambda>b.
              (let mc = mc\<lparr>send_buffer := b, data_count := data_count mc + 1\<rparr> in
               if data_count mc = 512 then mc\<lparr>command_state := WAITING_FOR_DATA_CRC1\<rparr>
               else mc))
            (aset (send_buffer mc) (data_count mc) data)
      | WAITING_FOR_DATA_CRC1 \<Rightarrow> Some (mc\<lparr>command_state := WAITING_FOR_DATA_CRC2\<rparr>)
      | WAITING_FOR_DATA_CRC2 \<Rightarrow>
          map_option (\<lambda>mc. mc\<lparr>command_state := WAITING_FOR_COMMAND\<rparr>)
            (do_command_data junk mc))"

section \<open>The invariant of a card\<close>

definition mmc_inv :: "libspectrum_mmc_card \<Rightarrow> bool" where
  "mmc_inv mc \<longleftrightarrow>
     length (current_argument mc) = 4 \<and> length (send_buffer mc) = 512 \<and>
     length (response_buffer mc) = 516 \<and>
     response_buffer_next mc \<le> response_buffer_end mc \<and> response_buffer_end mc \<le> 516 \<and>
     (if disk (card_drive mc) = None then empty_table (card_cache mc)
      else drive_ok (card_drive mc) \<and> cache_ok (card_drive mc) (card_cache mc)) \<and>
     (command_state mc = WAITING_FOR_DATA \<longrightarrow> unat (data_count mc) < 512) \<and>
     (erase_sequence mc = SEQ_ERASE_WR_BLK_END \<longrightarrow> erase_block_end mc < total_sectors mc)"

lemma memcpy_at_Some:
  "i + n \<le> length dst \<Longrightarrow> n \<le> length src \<Longrightarrow>
     memcpy_at dst i src n = Some (take i dst @ take n src @ drop (i + n) dst)"
  by (simp add: memcpy_at_def)

lemma respond_inv:
  assumes "mmc_inv mc" and "length bs \<le> 516"
  shows "\<exists>b. respond bs mc = Some (mc\<lparr>response_buffer := b, response_buffer_next := 0,
      response_buffer_end := length bs\<rparr>) \<and> length b = 516 \<and> take (length bs) b = bs \<and>
    mmc_inv (mc\<lparr>response_buffer := b, response_buffer_next := 0, response_buffer_end := length bs\<rparr>)"
  using assms
  by (intro exI [of _ "bs @ drop (length bs) (response_buffer mc)"])
    (simp add: respond_def memcpy_at_Some mmc_inv_def)

lemma respond_ok:
  assumes "mmc_inv mc" and "length bs \<le> 516"
  shows "\<exists>mc'. respond bs mc = Some mc' \<and> mmc_inv mc' \<and> card_drive mc' = card_drive mc \<and>
    command_state mc' = command_state mc"
  using respond_inv [OF assms] by (elim exE conjE) simp

lemma r1_inv [simp]: "mmc_inv mc \<Longrightarrow> mmc_inv (mc\<lparr>r1_status := r\<rparr>)"
  by (simp add: mmc_inv_def)

lemma reset_erase_inv [simp]: "mmc_inv mc \<Longrightarrow> mmc_inv (reset_erase_sequence mc)"
  by (simp add: mmc_inv_def reset_erase_sequence_def)

definition keeps_inv :: "libspectrum_mmc_card \<Rightarrow> libspectrum_mmc_card option \<Rightarrow> bool" where
  "keeps_inv mc r \<longleftrightarrow> (\<exists>mc'. r = Some mc' \<and> mmc_inv mc' \<and> card_drive mc' = card_drive mc \<and>
     command_state mc' = command_state mc)"

lemma reject_keeps: "mmc_inv mc \<Longrightarrow> keeps_inv mc (reject m mc)"
  using respond_ok [of "mc\<lparr>r1_status := r1_status mc OR m\<rparr>"]
  by (simp add: keeps_inv_def reject_def set_response_buffer_r1_def)

lemma r1_keeps: "mmc_inv mc \<Longrightarrow> keeps_inv mc (set_response_buffer_r1 mc)"
  using respond_ok [of mc] by (simp add: keeps_inv_def set_response_buffer_r1_def)

lemma keeps_map:
  assumes "keeps_inv mc r"
    and "\<And>mc'. mmc_inv mc' \<Longrightarrow> mmc_inv (f mc') \<and> card_drive (f mc') = card_drive mc' \<and>
      command_state (f mc') = command_state mc'"
  shows "keeps_inv mc (map_option f r)"
  using assms by (auto simp: keeps_inv_def)

lemma keeps_reset_erase: "keeps_inv mc r \<Longrightarrow> keeps_inv mc (map_option reset_erase_sequence r)"
  by (rule keeps_map) (simp_all add: reset_erase_sequence_def [symmetric], simp add: reset_erase_sequence_def)

lemma argument_Some: "mmc_inv mc \<Longrightarrow> \<exists>n. argument_dword mc = Some n"
  by (simp add: mmc_inv_def argument_dword_def nget_def)

lemma keeps_change:
  "keeps_inv mc' r \<Longrightarrow> card_drive mc' = card_drive mc \<Longrightarrow> command_state mc' = command_state mc \<Longrightarrow>
     keeps_inv mc r"
  by (simp add: keeps_inv_def)

lemma erase_wr_blk_start_keeps:
  assumes "mmc_inv mc"
  shows "keeps_inv mc (erase_wr_blk_start mc)"
proof -
  obtain n where n: "argument_dword mc = Some n" using argument_Some [OF assms] by blast
  have i: "mmc_inv (mc\<lparr>erase_block_start := n\<rparr>)" using assms by (simp add: mmc_inv_def)
  have "keeps_inv mc (map_option (\<lambda>mc. mc\<lparr>erase_sequence := SEQ_ERASE_WR_BLK_START\<rparr>)
      (set_response_buffer_r1 (mc\<lparr>erase_block_start := n\<rparr>)))"
    by (rule keeps_map [OF keeps_change [OF r1_keeps [OF i]]]) (simp_all add: mmc_inv_def)
  moreover have "keeps_inv mc (map_option reset_erase_sequence
      (reject PARAMETER_ERROR_MASK (mc\<lparr>erase_block_start := n\<rparr>)))"
    by (rule keeps_change [OF keeps_reset_erase [OF reject_keeps [OF i]]]) simp_all
  ultimately show ?thesis
    using reject_keeps [OF assms] keeps_reset_erase [OF reject_keeps [OF assms]]
    by (simp add: erase_wr_blk_start_def n Let_def)
qed

lemma erase_wr_blk_end_keeps:
  assumes "mmc_inv mc"
  shows "keeps_inv mc (erase_wr_blk_end mc)"
proof (cases "idle_card mc \<or> erase_sequence mc \<noteq> SEQ_ERASE_WR_BLK_START")
  case True
  then show ?thesis
    using reject_keeps [OF assms] keeps_reset_erase [OF reject_keeps [OF assms]]
    by (auto simp: erase_wr_blk_end_def)
next
  case False
  obtain n where n: "argument_dword mc = Some n" using argument_Some [OF assms] by blast
  have i: "mmc_inv (mc\<lparr>erase_block_end := n\<rparr>)" using assms False by (simp add: mmc_inv_def)
  have "keeps_inv mc (map_option reset_erase_sequence
      (reject PARAMETER_ERROR_MASK (mc\<lparr>erase_block_end := n\<rparr>)))"
    by (rule keeps_change [OF keeps_reset_erase [OF reject_keeps [OF i]]]) simp_all
  moreover have "keeps_inv mc (map_option (\<lambda>mc. mc\<lparr>erase_sequence := SEQ_ERASE_WR_BLK_END\<rparr>)
      (set_response_buffer_r1 (mc\<lparr>erase_block_end := n\<rparr>)))" if "n < total_sectors mc"
  proof -
    obtain b where "respond [r1_status mc] (mc\<lparr>erase_block_end := n\<rparr>) =
        Some (mc\<lparr>erase_block_end := n, response_buffer := b, response_buffer_next := 0,
          response_buffer_end := 1\<rparr>)" "length b = 516"
      using respond_inv [OF i, of "[r1_status mc]"] by auto
    then show ?thesis
      using assms that by (simp add: keeps_inv_def set_response_buffer_r1_def mmc_inv_def)
  qed
  ultimately show ?thesis
    using False by (simp add: erase_wr_blk_end_def n Let_def not_le)
qed

section \<open>Erasing\<close>

lemma erase_loop_view:
  assumes "drive_ok drv" and "length src = 512" and "end_i < limit" and "cache_ok drv c"
  shows "\<exists>c'. erase_loop junk drv i end_i src c = Some c' \<and> cache_ok drv c' \<and>
    (\<forall>m. sector_view drv c' m =
      (if i \<le> m \<and> m \<le> end_i then Some (kept (sector_size drv) src) else sector_view drv c m))"
  using assms(4)
proof (induction "unat end_i + 1 - unat i" arbitrary: i c)
  case 0
  then have "\<not> i \<le> end_i" by (simp add: word_le_nat_alt)
  then have "\<not> (i \<le> m \<and> m \<le> end_i)" for m by auto
  moreover have "erase_loop junk drv i end_i src c = Some c"
    using \<open>\<not> i \<le> end_i\<close> by (simp add: erase_loop.simps)
  ultimately show ?case using 0(2) by (intro exI [of _ c]) auto
next
  case (Suc k)
  then have le: "i \<le> end_i" by (simp add: word_le_nat_alt)
  obtain c1 where c1: "libspectrum_ide_write_sector_to_hdf junk drv c i src = Some c1" "cache_ok drv c1"
      "\<And>m. sector_view drv c1 m = (if m = i then Some (kept (sector_size drv) src) else sector_view drv c m)"
    using sector_view_write [OF assms(1) Suc.prems assms(2), of junk i] by blast
  have "i < limit" using le assms(3) by simp
  then have "unat i + 1 < 2 ^ 32"
    using unsigned_less [of limit, where 'a = nat] by (simp add: word_less_nat_alt)
  then have s: "unat (i + 1) = unat i + 1" by (simp add: unat_plus_if')
  have m: "i \<le> m \<and> m \<le> end_i \<longleftrightarrow> m = i \<or> (i + 1 \<le> m \<and> m \<le> end_i)" for m
    using le s by (auto simp: word_le_nat_alt word_unat_eq_iff)
  have "k = unat end_i + 1 - unat (i + 1)" using Suc.hyps(2) s by simp
  from Suc.hyps(1) [OF this c1(2)] show ?case
    using le c1 by (subst erase_loop.simps) (auto simp: m)
qed

section \<open>Every byte is safe\<close>

lemma cache_inv:
  assumes "mmc_inv mc" and "disk (card_drive mc) \<noteq> None" and "cache_ok (card_drive mc) c"
  shows "mmc_inv (mc\<lparr>card_cache := c\<rparr>)"
  using assms by (auto simp: mmc_inv_def)

lemma mmc_inv_disk:
  assumes "mmc_inv mc" and "disk (card_drive mc) \<noteq> None"
  shows "drive_ok (card_drive mc)" "cache_ok (card_drive mc) (card_cache mc)"
  using assms by (simp_all add: mmc_inv_def)

lemma respond_keeps: "mmc_inv mc \<Longrightarrow> length bs \<le> 516 \<Longrightarrow> keeps_inv mc (respond bs mc)"
  using respond_ok [of mc bs] by (simp add: keeps_inv_def)

lemma erase_keeps:
  assumes inv: "mmc_inv mc" and d: "disk (card_drive mc) \<noteq> None"
  shows "keeps_inv mc (erase junk mc)"
proof (cases "idle_card mc \<or> erase_sequence mc \<noteq> SEQ_ERASE_WR_BLK_END")
  case True
  then show ?thesis
    using reject_keeps [OF inv] keeps_reset_erase [OF reject_keeps [OF inv]] by (auto simp: erase_def)
next
  case False
  then have "erase_block_end mc < total_sectors mc" using inv by (simp add: mmc_inv_def)
  then obtain c where c: "erase_loop junk (card_drive mc) (erase_block_start mc) (erase_block_end mc)
      (replicate 512 0) (card_cache mc) = Some c" "cache_ok (card_drive mc) c"
    using erase_loop_view [OF mmc_inv_disk(1) [OF inv d] _ _ mmc_inv_disk(2) [OF inv d],
        of "replicate 512 0" "erase_block_end mc" "total_sectors mc" junk "erase_block_start mc"] by auto
  have "mmc_inv (mc\<lparr>send_buffer := replicate 512 0\<rparr>)" using inv by (simp add: mmc_inv_def)
  then have "mmc_inv (mc\<lparr>send_buffer := replicate 512 0, card_cache := c\<rparr>)"
    by (rule cache_inv) (use d c(2) in simp_all)
  from keeps_reset_erase [OF respond_keeps [OF this, of "[r1_status mc, 0x01]"]]
  have "keeps_inv mc (map_option reset_erase_sequence
      (respond [r1_status mc, 0x01] (mc\<lparr>send_buffer := replicate 512 0, card_cache := c\<rparr>)))"
    by (rule keeps_change) simp_all
  moreover have "memset_at (send_buffer mc) 0 0 512 = Some (replicate 512 0)"
    using inv by (simp add: memset_at_def memcpy_at_Some mmc_inv_def)
  ultimately show ?thesis
    using False c(1) by (simp add: erase_def map_conv_bind_option comp_def)
qed

lemma memcpy_at_self:
  assumes "i + n \<le> length xs"
  shows "memcpy_at xs i (take n (drop i xs)) n = Some xs"
proof -
  have "take n (drop i xs) @ drop (i + n) xs = drop i xs"
    by (metis append_take_drop_id drop_drop add.commute)
  then show ?thesis using assms by (simp add: memcpy_at_def)
qed

lemma read_block_response:
  assumes inv: "mmc_inv mc" and d: "disk (card_drive mc) \<noteq> None" and idle: "\<not> idle_card mc"
    and n: "argument_dword mc = Some n" "n < total_sectors mc"
  shows "read_single_block mc =
    (case sector_view (card_drive mc) (card_cache mc) n of
       Some s \<Rightarrow> Some (mc\<lparr>response_buffer := [r1_status mc, 0xfe] @ s @ [0, 0],
                          response_buffer_next := 0, response_buffer_end := 516\<rparr>)
     | None \<Rightarrow> respond [r1_status mc, 0x01] mc)"
proof -
  let ?old = "take 512 (drop 2 (response_buffer mc))"
  have l: "length (response_buffer mc) = 516" using inv by (simp add: mmc_inv_def)
  have le: "\<not> total_sectors mc \<le> n" using n(2) by (simp add: not_le)
  have r: "libspectrum_ide_read_sector_from_hdf (card_drive mc) (card_cache mc) n ?old =
      Some (case sector_view (card_drive mc) (card_cache mc) n of Some s \<Rightarrow> (0, s) | None \<Rightarrow> (1, ?old))"
    by (rule read_sector_view [OF mmc_inv_disk [OF inv d]]) (simp add: l)
  show ?thesis
  proof (cases "sector_view (card_drive mc) (card_cache mc) n")
    case None
    have "memcpy_at (response_buffer mc) 2 ?old 512 = Some (response_buffer mc)"
      using l by (intro memcpy_at_self) simp
    then show ?thesis
      using idle n(1) le None r by (simp add: read_single_block_def respond_def)
  next
    case (Some s)
    then have s: "length s = 512" by (rule sector_view_length [OF mmc_inv_disk [OF inv d]])
    have "memcpy_at (response_buffer mc) 2 s 512 =
        Some (take 2 (response_buffer mc) @ s @ drop 514 (response_buffer mc))"
      using l s by (simp add: memcpy_at_Some)
    then show ?thesis
      using idle n(1) le Some r l s
      by (simp add: read_single_block_def memset_at_def memcpy_at_Some numeral_2_eq_2)
  qed
qed

lemma read_single_block_keeps:
  assumes inv: "mmc_inv mc" and d: "disk (card_drive mc) \<noteq> None"
  shows "keeps_inv mc (read_single_block mc)"
proof -
  obtain n where n: "argument_dword mc = Some n" using argument_Some [OF inv] by blast
  show ?thesis
  proof (cases "idle_card mc \<or> n \<ge> total_sectors mc")
    case True
    then show ?thesis using reject_keeps [OF inv] n by (auto simp: read_single_block_def)
  next
    case False
    then have r: "read_single_block mc =
        (case sector_view (card_drive mc) (card_cache mc) n of
           Some s \<Rightarrow> Some (mc\<lparr>response_buffer := [r1_status mc, 0xfe] @ s @ [0, 0],
                          response_buffer_next := 0, response_buffer_end := 516\<rparr>)
         | None \<Rightarrow> respond [r1_status mc, 0x01] mc)"
      using read_block_response [OF inv d _ n] by (simp add: not_le)
    show ?thesis
    proof (cases "sector_view (card_drive mc) (card_cache mc) n")
      case None
      then show ?thesis using r False respond_keeps [OF inv, of "[r1_status mc, 0x01]"] by simp
    next
      case (Some s)
      then have "length s = 512" by (rule sector_view_length [OF mmc_inv_disk [OF inv d]])
      then show ?thesis using r False Some inv by (simp add: keeps_inv_def mmc_inv_def)
    qed
  qed
qed

lemma write_single_block_keeps:
  assumes inv: "mmc_inv mc" and d: "disk (card_drive mc) \<noteq> None"
  shows "keeps_inv mc (write_single_block junk mc)"
proof -
  obtain n where n: "argument_dword mc = Some n" using argument_Some [OF inv] by blast
  have "length (send_buffer mc) = 512" using inv by (simp add: mmc_inv_def)
  then obtain c where c: "libspectrum_ide_write_sector_to_hdf junk (card_drive mc) (card_cache mc) n
      (send_buffer mc) = Some c" "cache_ok (card_drive mc) c"
    using write_sector_cache [OF mmc_inv_disk [OF inv d]] by blast
  have "keeps_inv mc (respond [0x05, 0x01] (mc\<lparr>card_cache := c\<rparr>))"
    by (rule keeps_change [OF respond_keeps [OF cache_inv [OF inv d c(2)]]]) simp_all
  then show ?thesis
    using reject_keeps [OF inv] n c(1) by (simp add: write_single_block_def)
qed

lemma argument_byte: "mmc_inv mc \<Longrightarrow> i < 4 \<Longrightarrow> \<exists>a. nget (current_argument mc) i = Some a"
  by (simp add: mmc_inv_def nget_def)

lemma do_command_keeps:
  assumes inv: "mmc_inv mc" and d: "disk (card_drive mc) \<noteq> None"
  shows "keeps_inv mc (do_command junk mc)"
proof -
  have standard: "keeps_inv mc' (do_standard_command junk mc')"
    if i: "mmc_inv mc'" and d': "disk (card_drive mc') \<noteq> None" for mc'
  proof -
    obtain a3 where a3: "nget (current_argument mc') 3 = Some a3"
      using argument_byte [OF i, of 3] by auto
    have f: "mmc_inv (mc'\<lparr>r1_status := r, cmd8_issued := b\<rparr>)" "mmc_inv (mc'\<lparr>cmd8_issued := b\<rparr>)"
      "mmc_inv (mc'\<lparr>cmd55_issued := b\<rparr>)" for r b
      using i by (simp_all add: mmc_inv_def)
    have r7: "keeps_inv m (set_response_buffer_r7 m v)" if "mmc_inv m" for m v
      using respond_keeps [OF that] by (simp add: set_response_buffer_r7_def)
    have csd: "keeps_inv mc' (send_csd mc')" "keeps_inv mc' (send_cid mc')"
      using reject_keeps [OF i] respond_keeps [OF i] by (simp_all add: send_csd_def send_cid_def)
    have "keeps_inv mc' (set_response_buffer_r1 (mc'\<lparr>r1_status := r, cmd8_issued := b\<rparr>))"
      "keeps_inv mc' (set_response_buffer_r7 (mc'\<lparr>cmd8_issued := b\<rparr>) v)"
      "keeps_inv mc' (set_response_buffer_r1 (mc'\<lparr>cmd55_issued := b\<rparr>))" for r b v
      using keeps_change [OF r1_keeps [OF f(1)]] keeps_change [OF r7 [OF f(2)]]
        keeps_change [OF r1_keeps [OF f(3)]] by simp_all
    then show ?thesis
      using r7 [OF i] csd reject_keeps [OF i] r1_keeps [OF i] erase_keeps [OF i d']
        read_single_block_keeps [OF i d'] erase_wr_blk_start_keeps [OF i] erase_wr_blk_end_keeps [OF i]
      by (simp add: do_standard_command_def Let_def a3)
  qed
  have leave: "mmc_inv (leave_erase_sequence mc')" "card_drive (leave_erase_sequence mc') = card_drive mc'"
    "command_state (leave_erase_sequence mc') = command_state mc'" if "mmc_inv mc'" for mc'
    using that reset_erase_inv [OF that]
    by (simp_all add: leave_erase_sequence_def) (simp_all add: reset_erase_sequence_def)
  have rest: "keeps_inv mc (do_standard_command junk (leave_erase_sequence mc'))"
    if "mmc_inv mc'" "card_drive mc' = card_drive mc" "command_state mc' = command_state mc" for mc'
    by (rule keeps_change [OF standard]) (use leave [OF that(1)] that d in simp_all)
  show ?thesis
  proof (cases "cmd55_issued mc")
    case False
    then show ?thesis using rest [OF inv] by (simp add: do_command_def)
  next
    case True
    let ?m = "mc\<lparr>cmd55_issued := False\<rparr>"
    have m: "mmc_inv ?m" using inv by (simp add: mmc_inv_def)
    obtain a0 where a0: "nget (current_argument mc) 0 = Some a0"
      using argument_byte [OF inv, of 0] by auto
    have k: "keeps_inv mc (reject ILLEGAL_COMMAND_MASK ?m)" "keeps_inv mc (set_response_buffer_r1 ?m)"
      "keeps_inv mc (set_response_buffer_r1 (?m\<lparr>r1_status := r1_status ?m AND NOT IN_IDLE_STATE_MASK\<rparr>))"
      using keeps_change [OF reject_keeps [OF m]] keeps_change [OF r1_keeps [OF m]]
        keeps_change [OF r1_keeps [OF r1_inv [OF m]]] by simp_all
    define g where "g = (if cmd8_issued ?m \<and> a0 AND 0x40 \<noteq> 0
        then ?m\<lparr>r1_status := r1_status ?m AND NOT IN_IDLE_STATE_MASK\<rparr> else ?m)"
    have g: "keeps_inv mc (set_response_buffer_r1 g)" using k by (simp add: g_def)
    obtain m1 where m1: "reject ILLEGAL_COMMAND_MASK ?m = Some m1" "mmc_inv m1"
        "card_drive m1 = card_drive mc" "command_state m1 = command_state mc"
      using k(1) by (auto simp: keeps_inv_def)
    obtain m2 where m2: "set_response_buffer_r1 g = Some m2" "mmc_inv m2"
        "card_drive m2 = card_drive mc" "command_state m2 = command_state mc"
      using g by (auto simp: keeps_inv_def)
    have eq: "do_application_command ?m =
        (if current_command ?m \<in> {SD_STATUS, SEND_NUM_WR_BLOCKS, SET_WR_BLK_ERASE_COUNT,
             SET_CLR_CARD_DETECT, SEND_SCR} then Some (True, m1)
         else if current_command ?m = SD_SEND_OP_COND then Some (True, m2)
         else Some (False, ?m))"
      using a0 m1(1) m2(1) by (simp add: do_application_command_def g_def)
    obtain b m' where "do_application_command ?m = Some (b, m')" "mmc_inv m'"
        "card_drive m' = card_drive mc" "command_state m' = command_state mc"
    proof (cases "current_command ?m \<in> {SD_STATUS, SEND_NUM_WR_BLOCKS, SET_WR_BLK_ERASE_COUNT,
             SET_CLR_CARD_DETECT, SEND_SCR}")
      case True
      then show thesis using that [of True m1] eq m1 by simp
    next
      case False
      then show thesis
        using that [of True m2] that [of False ?m] eq m2 m
        by (cases "current_command ?m = SD_SEND_OP_COND") simp_all
    qed
    then show ?thesis
      using True rest [of m'] by (simp add: do_command_def keeps_inv_def)
  qed
qed

lemma take_argument_ok:
  "mmc_inv mc \<Longrightarrow> i < 4 \<Longrightarrow> s \<noteq> WAITING_FOR_DATA \<Longrightarrow>
     \<exists>mc'. take_argument i s data mc = Some mc' \<and> mmc_inv mc' \<and> card_drive mc' = card_drive mc"
  by (simp add: take_argument_def mmc_inv_def nset_def)

lemma mmc_write_ok:
  assumes inv: "mmc_inv mc"
  shows "\<exists>mc'. libspectrum_mmc_write junk mc data = Some mc' \<and> mmc_inv mc'"
proof (cases "disk (card_drive mc) = None")
  case True
  then show ?thesis using inv by (simp add: libspectrum_mmc_write_def)
next
  case d: False
  then obtain f where f: "disk (card_drive mc) = Some f" by blast
  have state: "mmc_inv (mc\<lparr>command_state := s\<rparr>)" if "s \<noteq> WAITING_FOR_DATA" "mmc_inv mc" for s mc
    using that by (simp add: mmc_inv_def)
  show ?thesis
  proof (cases "command_state mc")
    case WAITING_FOR_COMMAND
    have "mmc_inv (mc\<lparr>current_command := c, command_state := WAITING_FOR_DATA0\<rparr>)" for c
      using inv by (simp add: mmc_inv_def)
    then show ?thesis
      using f WAITING_FOR_COMMAND inv by (simp add: libspectrum_mmc_write_def parse_command_def)
  next
    case WAITING_FOR_CRC
    obtain m where m: "do_command junk mc = Some m" "mmc_inv m"
      using do_command_keeps [OF inv d] by (auto simp: keeps_inv_def)
    have "mmc_inv (m\<lparr>r1_status := r1_status m AND IN_IDLE_STATE_MASK, command_state := s\<rparr>)"
      if "s \<noteq> WAITING_FOR_DATA" for s
      using state [OF that r1_inv [OF m(2)]] by simp
    then show ?thesis using f WAITING_FOR_CRC m by (simp add: libspectrum_mmc_write_def)
  next
    case WAITING_FOR_DATA_TOKEN
    have "mmc_inv (mc\<lparr>command_state := WAITING_FOR_DATA, data_count := 0\<rparr>)"
      using inv by (simp add: mmc_inv_def)
    then show ?thesis using f WAITING_FOR_DATA_TOKEN inv by (simp add: libspectrum_mmc_write_def)
  next
    case WAITING_FOR_DATA
    then have i: "unat (data_count mc) < 512" using inv by (simp add: mmc_inv_def)
    then have s: "unat (data_count mc + 1) = unat (data_count mc) + 1" by (simp add: unat_plus_if')
    have "aset (send_buffer mc) (data_count mc) data = Some ((send_buffer mc)[unat (data_count mc) := data])"
      using i inv by (simp add: aset_def mmc_inv_def)
    moreover have "unat (data_count mc + 1) < 512" if "data_count mc + 1 \<noteq> 512"
    proof -
      have "unat (data_count mc + 1) \<noteq> unat (512 :: size_t)" using that by (simp add: word_unat_eq_iff)
      then show ?thesis using i s by simp
    qed
    ultimately show ?thesis
      using f WAITING_FOR_DATA inv by (simp add: libspectrum_mmc_write_def Let_def mmc_inv_def)
  next
    case WAITING_FOR_DATA_CRC2
    obtain m where m: "do_command_data junk mc = Some m" "mmc_inv m"
      using write_single_block_keeps [OF inv d, of junk] inv
      by (cases "current_command mc = WRITE_BLOCK") (auto simp: keeps_inv_def do_command_data_def)
    then show ?thesis
      using f WAITING_FOR_DATA_CRC2 state [of WAITING_FOR_COMMAND m]
      by (simp add: libspectrum_mmc_write_def)
  next
    case WAITING_FOR_DATA_CRC1
    then show ?thesis
      using f state [of WAITING_FOR_DATA_CRC2 mc] inv by (simp add: libspectrum_mmc_write_def)
  next
    case WAITING_FOR_DATA0
    then show ?thesis
      using f take_argument_ok [OF inv, of 0 WAITING_FOR_DATA1 data]
      by (auto simp: libspectrum_mmc_write_def)
  next
    case WAITING_FOR_DATA1
    then show ?thesis
      using f take_argument_ok [OF inv, of 1 WAITING_FOR_DATA2 data]
      by (auto simp: libspectrum_mmc_write_def)
  next
    case WAITING_FOR_DATA2
    then show ?thesis
      using f take_argument_ok [OF inv, of 2 WAITING_FOR_DATA3 data]
      by (auto simp: libspectrum_mmc_write_def)
  next
    case WAITING_FOR_DATA3
    then show ?thesis
      using f take_argument_ok [OF inv, of 3 WAITING_FOR_CRC data]
      by (auto simp: libspectrum_mmc_write_def)
  qed
qed

section \<open>The life of a card\<close>

lemma mmc_reset_inv: "mmc_inv mc \<Longrightarrow> mmc_inv (libspectrum_mmc_reset mc)"
  by (simp add: mmc_inv_def libspectrum_mmc_reset_def)

lemma mmc_eject_inv:
  assumes "mmc_inv mc"
  shows "mmc_inv (libspectrum_mmc_eject mc)" "disk (card_drive (libspectrum_mmc_eject mc)) = None"
    "empty_table (card_cache (libspectrum_mmc_eject mc))"
proof -
  have "if disk (card_drive mc) = None then empty_table (card_cache mc) else ghash_ok (card_cache mc)"
    using assms by (simp add: mmc_inv_def cache_ok_def split: if_splits)
  from eject_ok [OF this] obtain c where
    c: "libspectrum_ide_eject_from_drive (card_drive mc) (card_cache mc) = ((card_drive mc)\<lparr>disk := None\<rparr>, c)"
      "empty_table c" by blast
  have "mmc_inv (mc\<lparr>card_drive := (card_drive mc)\<lparr>disk := None\<rparr>, card_cache := c\<rparr>)"
    using assms c(2) by (simp add: mmc_inv_def)
  then show "mmc_inv (libspectrum_mmc_eject mc)" "disk (card_drive (libspectrum_mmc_eject mc)) = None"
    "empty_table (card_cache (libspectrum_mmc_eject mc))"
    using mmc_reset_inv c by (simp_all add: libspectrum_mmc_eject_def) (simp_all add: libspectrum_mmc_reset_def)
qed

lemma insert_into_drive_ok:
  assumes "disk drv = None"
  shows "\<exists>e drv'. libspectrum_ide_insert_into_drive drv opened = Some (e, drv') \<and>
    (if e = ERROR_NONE then drive_ok drv' else disk drv' = None)"
proof (cases opened)
  case None
  then show ?thesis using assms by (simp add: libspectrum_ide_insert_into_drive_def)
next
  case (Some f)
  obtain drv' where d: "libspectrum_ide_insert_into_drive drv (Some f) = Some (image_error f, drv')"
      "image_error f = ERROR_NONE \<longrightarrow> drive_ok drv'" "image_error f \<noteq> ERROR_NONE \<longrightarrow> disk drv' = disk drv"
    using insert_into_drive_spec_aux [of drv f] by (auto split: if_splits)
  then show ?thesis using assms Some by auto
qed

lemma mmc_insert_inv:
  assumes "mmc_inv mc"
  shows "\<exists>e mc'. libspectrum_mmc_insert mc filename = Some (e, mc') \<and> mmc_inv mc'"
proof (cases filename)
  case None
  then show ?thesis using mmc_eject_inv(1) [OF assms] by (simp add: libspectrum_mmc_insert_def Let_def)
next
  case (Some opened)
  let ?m = "libspectrum_mmc_eject mc"
  note e = mmc_eject_inv [OF assms]
  obtain err drv where d: "libspectrum_ide_insert_into_drive (card_drive ?m) opened = Some (err, drv)"
      "if err = ERROR_NONE then drive_ok drv else disk drv = None"
    using insert_into_drive_ok [OF e(2)] by blast
  have "cache_ok drv (card_cache ?m)" using e(3) by (simp add: cache_ok_def empty_table_def)
  moreover have "erase_sequence ?m = SEQ_ERASE_NONE" "command_state ?m = WAITING_FOR_COMMAND"
    by (simp_all add: libspectrum_mmc_eject_def libspectrum_mmc_reset_def split: prod.splits)
  ultimately have inv: "mmc_inv (?m\<lparr>card_drive := drv, total_sectors := t, c_size := s\<rparr>)"
    "mmc_inv (?m\<lparr>card_drive := drv, total_sectors := t\<rparr>)" "mmc_inv (?m\<lparr>card_drive := drv\<rparr>)" for t s
    using e d(2) by (simp_all add: mmc_inv_def split: if_splits)
  show ?thesis
    using Some d(1) inv by (simp add: libspectrum_mmc_insert_def Let_def)
qed

lemma mmc_commit_inv:
  assumes "mmc_inv mc"
  shows "\<exists>mc'. libspectrum_mmc_commit mc = Some mc' \<and> mmc_inv mc'"
proof (cases "disk (card_drive mc)")
  case None
  then show ?thesis using assms by (simp add: libspectrum_mmc_commit_def libspectrum_ide_commit_drive_def)
next
  case (Some f)
  then have "drive_ok (card_drive mc)" "cache_ok (card_drive mc) (card_cache mc)"
    using mmc_inv_disk [OF assms] by simp_all
  from commit_ok [OF this] obtain f' c' where c:
    "libspectrum_ide_commit_drive (card_drive mc) (card_cache mc) = Some ((card_drive mc)\<lparr>disk := Some f'\<rparr>, c')"
    "cache_ok ((card_drive mc)\<lparr>disk := Some f'\<rparr>) c'" "drive_ok ((card_drive mc)\<lparr>disk := Some f'\<rparr>)"
    by (elim exE conjE)
  have "mmc_inv (mc\<lparr>card_drive := (card_drive mc)\<lparr>disk := Some f'\<rparr>, card_cache := c'\<rparr>)"
    using assms c(2,3) by (simp add: mmc_inv_def)
  then show ?thesis using c(1) by (simp add: libspectrum_mmc_commit_def)
qed

lemma mmc_read_inv:
  assumes "mmc_inv mc"
  shows "\<exists>r mc'. libspectrum_mmc_read mc = Some (r, mc') \<and> mmc_inv mc'"
  using assms by (simp add: libspectrum_mmc_read_def nget_def mmc_inv_def)

text \<open>Every card that a host can get to, with any images and any bytes.\<close>

inductive mmc_reachable :: "libspectrum_mmc_card \<Rightarrow> bool" where
  mmc_alloc: "length (current_argument junk) = 4 \<Longrightarrow> length (send_buffer junk) = 512 \<Longrightarrow>
     length (response_buffer junk) = 516 \<Longrightarrow> mmc_reachable (libspectrum_mmc_alloc junk)"
| mmc_insert: "mmc_reachable mc \<Longrightarrow> libspectrum_mmc_insert mc filename = Some (e, mc') \<Longrightarrow> mmc_reachable mc'"
| mmc_eject: "mmc_reachable mc \<Longrightarrow> mmc_reachable (libspectrum_mmc_eject mc)"
| mmc_reset: "mmc_reachable mc \<Longrightarrow> mmc_reachable (libspectrum_mmc_reset mc)"
| mmc_commit: "mmc_reachable mc \<Longrightarrow> libspectrum_mmc_commit mc = Some mc' \<Longrightarrow> mmc_reachable mc'"
| mmc_write: "mmc_reachable mc \<Longrightarrow> libspectrum_mmc_write junk' mc data = Some mc' \<Longrightarrow> mmc_reachable mc'"
| mmc_read: "mmc_reachable mc \<Longrightarrow> libspectrum_mmc_read mc = Some (r, mc') \<Longrightarrow> mmc_reachable mc'"

lemma mmc_reachable_inv: "mmc_reachable mc \<Longrightarrow> mmc_inv mc"
proof (induction rule: mmc_reachable.induct)
  case (mmc_alloc junk)
  have "mmc_inv (junk\<lparr>card_drive := (card_drive junk)\<lparr>disk := None\<rparr>, card_cache := int_table_new,
      command_state := WAITING_FOR_COMMAND, response_buffer_next := 0, response_buffer_end := 0,
      erase_sequence := SEQ_ERASE_NONE\<rparr>)"
    using mmc_alloc
    by (simp add: mmc_inv_def empty_table_def it.ok_empty it.lookup_empty)
      (simp add: int_table_new_def g_hash_table_new_def)
  from mmc_reset_inv [OF this] show ?case
    by (simp add: libspectrum_mmc_alloc_def libspectrum_mmc_reset_def)
next
  case (mmc_insert mc filename e mc')
  then show ?case using mmc_insert_inv [of mc filename] by auto
next
  case (mmc_commit mc mc')
  then show ?case using mmc_commit_inv [of mc] by auto
next
  case (mmc_write mc junk' data mc')
  then show ?case using mmc_write_ok [of mc junk' data] by auto
next
  case (mmc_read mc r mc')
  then show ?case using mmc_read_inv [of mc] by auto
qed (auto intro: mmc_eject_inv mmc_reset_inv)

text \<open>
  C26: whatever a host does with a card and whatever bytes the machine sends to it, the next
  call has defined behaviour: no buffer is overrun, no absent image is read, and the erase
  loop ends.
\<close>

theorem mmc_reachable_safe:
  assumes "mmc_reachable mc"
  shows "libspectrum_mmc_write junk mc data \<noteq> None \<and> libspectrum_mmc_read mc \<noteq> None \<and>
    libspectrum_mmc_insert mc filename \<noteq> None \<and> libspectrum_mmc_commit mc \<noteq> None"
  using mmc_write_ok [OF mmc_reachable_inv [OF assms], of junk data]
    mmc_read_inv [OF mmc_reachable_inv [OF assms]]
    mmc_insert_inv [OF mmc_reachable_inv [OF assms], of filename]
    mmc_commit_inv [OF mmc_reachable_inv [OF assms]] by auto

definition demo_card :: libspectrum_mmc_card where
  "demo_card = \<lparr>card_drive = demo_drive (Some \<lparr>file_bytes = [], file_limit = 9999\<rparr>) 512,
     card_cache = int_table_new, c_size = 0, total_sectors = 4, r1_status = 0,
     command_state = WAITING_FOR_COMMAND, current_command = 0, current_argument = [0, 0, 0, 0],
     data_count = 0, send_buffer = replicate 512 0, response_buffer = replicate 516 0,
     response_buffer_end = 0, response_buffer_next = 0, cmd8_issued = False, cmd55_issued = False,
     erase_sequence = SEQ_ERASE_NONE, erase_block_start = 0, erase_block_end = 0\<rparr>"

theorem mmc_reachable_safe_witness:
  "libspectrum_mmc_write (\<lambda>_. 0) (libspectrum_mmc_alloc demo_card) 0x40 \<noteq> None \<and>
   libspectrum_mmc_read (libspectrum_mmc_alloc demo_card) \<noteq> None \<and>
   libspectrum_mmc_insert (libspectrum_mmc_alloc demo_card) None \<noteq> None \<and>
   libspectrum_mmc_commit (libspectrum_mmc_alloc demo_card) \<noteq> None"
  by (rule mmc_reachable_safe [OF mmc_alloc]) (simp_all add: demo_card_def)

section \<open>Blocks through the SPI protocol\<close>

fun mmc_writes :: "(nat \<Rightarrow> byte) \<Rightarrow> libspectrum_mmc_card \<Rightarrow> byte list \<Rightarrow> libspectrum_mmc_card option" where
  "mmc_writes junk mc [] = Some mc"
| "mmc_writes junk mc (b # bs) = libspectrum_mmc_write junk mc b \<bind> (\<lambda>mc. mmc_writes junk mc bs)"

fun mmc_reads :: "libspectrum_mmc_card \<Rightarrow> nat \<Rightarrow> (byte list \<times> libspectrum_mmc_card) option" where
  "mmc_reads mc 0 = Some ([], mc)"
| "mmc_reads mc (Suc n) =
     libspectrum_mmc_read mc \<bind> (\<lambda>(b, mc).
     map_option (\<lambda>(bs, mc). (b # bs, mc)) (mmc_reads mc n))"

lemma mmc_writes_append:
  "mmc_writes junk mc (xs @ ys) = mmc_writes junk mc xs \<bind> (\<lambda>mc. mmc_writes junk mc ys)"
  by (induction xs arbitrary: mc) (auto simp: bind_assoc)

definition command_frame :: "byte \<Rightarrow> dword \<Rightarrow> byte \<Rightarrow> byte list" where
  "command_frame c n crc =
     [0x40 OR c, ucast (drop_bit 24 n), ucast (drop_bit 16 n), ucast (drop_bit 8 n), ucast n, crc]"

definition with_command :: "byte \<Rightarrow> dword \<Rightarrow> libspectrum_mmc_card \<Rightarrow> libspectrum_mmc_card" where
  "with_command c n mc = mc\<lparr>current_command := c,
     current_argument := [ucast (drop_bit 24 n), ucast (drop_bit 16 n), ucast (drop_bit 8 n), ucast n],
     command_state := WAITING_FOR_CRC\<rparr>"

lemma with_command_argument: "argument_dword (with_command c n mc) = Some n"
  using paste4_cut [of n]
  by (simp add: argument_dword_def with_command_def nget_def paste4_def push_bit_eq_mult)

lemma with_command_inv: "mmc_inv mc \<Longrightarrow> mmc_inv (with_command c n mc)"
  by (simp add: mmc_inv_def with_command_def)

lemma with_command_fields [simp]:
  "card_drive (with_command c n mc) = card_drive mc" "card_cache (with_command c n mc) = card_cache mc"
  "total_sectors (with_command c n mc) = total_sectors mc" "r1_status (with_command c n mc) = r1_status mc"
  "cmd55_issued (with_command c n mc) = cmd55_issued mc"
  "erase_sequence (with_command c n mc) = erase_sequence mc"
  "current_command (with_command c n mc) = c" "idle_card (with_command c n mc) = idle_card mc"
  "send_buffer (with_command c n mc) = send_buffer mc"
  by (simp_all add: with_command_def idle_card_def)

lemma write_frame:
  assumes inv: "mmc_inv mc" and d: "disk (card_drive mc) = Some f"
    and w: "command_state mc = WAITING_FOR_COMMAND" and c: "(0x40 OR c) AND 0xc0 = (0x40 :: byte)"
      "(0x40 OR c) AND 0x3f = c"
  shows "mmc_writes junk mc (command_frame c n crc) =
    map_option (\<lambda>mc. mc\<lparr>r1_status := r1_status mc AND IN_IDLE_STATE_MASK,
        command_state := (if current_command mc = WRITE_BLOCK
          then WAITING_FOR_DATA_TOKEN else WAITING_FOR_COMMAND)\<rparr>)
      (do_command junk (with_command c n mc))"
proof -
  obtain x0 x1 x2 x3 where a: "current_argument mc = [x0, x1, x2, x3]"
    using inv by (auto simp: mmc_inv_def elim: length_4E)
  have "mmc_writes junk mc (command_frame c n crc) =
      libspectrum_mmc_write junk (with_command c n mc) crc"
    using w c d
    by (simp add: command_frame_def libspectrum_mmc_write_def parse_command_def take_argument_def
        nset_def a with_command_def)
  also have "\<dots> = map_option (\<lambda>mc. mc\<lparr>r1_status := r1_status mc AND IN_IDLE_STATE_MASK,
        command_state := (if current_command mc = WRITE_BLOCK
          then WAITING_FOR_DATA_TOKEN else WAITING_FOR_COMMAND)\<rparr>)
      (do_command junk (with_command c n mc))"
    using d by (simp add: libspectrum_mmc_write_def) (simp add: with_command_def)
  finally show ?thesis .
qed

lemma write_data_bytes:
  assumes "disk (card_drive mc) = Some f" and "command_state mc = WAITING_FOR_DATA"
    and "length (send_buffer mc) = 512" and "data_count mc = of_nat k" and "k + length ds = 512"
    and "ds \<noteq> []"
  shows "mmc_writes junk mc ds = Some (mc\<lparr>send_buffer := take k (send_buffer mc) @ ds,
    data_count := 512, command_state := WAITING_FOR_DATA_CRC1\<rparr>)"
  using assms
proof (induction ds arbitrary: mc k)
  case (Cons d ds)
  have k: "k < 512" using Cons.prems by simp
  then have u: "unat (of_nat k :: size_t) = k" by (simp add: unat_of_nat take_bit_nat_eq_self)
  have a: "aset (send_buffer mc) (data_count mc) d = Some ((send_buffer mc)[k := d])"
    using Cons.prems k by (simp add: aset_def u)
  have t: "take (Suc k) ((send_buffer mc)[k := d]) = take k (send_buffer mc) @ [d]"
    using Cons.prems k by (simp add: take_Suc_conv_app_nth)
  have c: "data_count mc + 1 = of_nat (Suc k)" using Cons.prems by simp
  show ?case
  proof (cases ds)
    case Nil
    then have s: "Suc k = 512" using Cons.prems by simp
    have "(send_buffer mc)[k := d] = take k (send_buffer mc) @ [d]"
      using t Cons.prems(3) s by simp
    then show ?thesis
      using Cons.prems(1,2) a c s Nil by (simp add: libspectrum_mmc_write_def Let_def del: of_nat_Suc)
  next
    case (Cons e es)
    have "Suc k < 512" using Cons.prems(5) Cons by simp
    then have "(of_nat (Suc k) :: size_t) \<noteq> 512"
      using unat_of_nat [of "Suc k", where 'a = 64] by (auto simp: take_bit_nat_eq_self simp del: of_nat_Suc)
    then have "libspectrum_mmc_write junk mc d =
        Some (mc\<lparr>send_buffer := (send_buffer mc)[k := d], data_count := of_nat (Suc k)\<rparr>)"
      using Cons.prems(1,2) a c by (simp add: libspectrum_mmc_write_def Let_def del: of_nat_Suc)
    moreover have "mmc_writes junk (mc\<lparr>send_buffer := (send_buffer mc)[k := d], data_count := of_nat (Suc k)\<rparr>) ds =
        Some (mc\<lparr>send_buffer := take (Suc k) ((send_buffer mc)[k := d]) @ ds, data_count := 512,
          command_state := WAITING_FOR_DATA_CRC1\<rparr>)"
      using Cons.IH [of "mc\<lparr>send_buffer := (send_buffer mc)[k := d], data_count := of_nat (Suc k)\<rparr>" "Suc k"]
        Cons.prems Cons by (simp del: of_nat_Suc)
    ultimately show ?thesis by (simp add: t)
  qed
qed simp

lemma read_response:
  assumes "response_buffer_next mc = k" and "response_buffer_end mc = k + length bs"
    and "drop k (response_buffer mc) = bs @ ys"
  shows "map_option fst (mmc_reads mc (length bs)) = Some bs"
  using assms
proof (induction bs arbitrary: mc k)
  case (Cons b bs)
  have "nget (response_buffer mc) k = Some b" using Cons.prems(3) by (simp add: nget_nth_drop)
  then have r: "libspectrum_mmc_read mc = Some (b, mc\<lparr>response_buffer_next := k + 1\<rparr>)"
    using Cons.prems by (simp add: libspectrum_mmc_read_def)
  have "drop (Suc k) (response_buffer mc) = bs @ ys"
    using Cons.prems(3) by (metis append_Cons drop_Suc drop_drop drop_tl list.sel(3) plus_1_eq_Suc tl_drop)
  then have "map_option fst (mmc_reads (mc\<lparr>response_buffer_next := Suc k\<rparr>) (length bs)) = Some bs"
    by (intro Cons.IH [of _ "Suc k"]) (use Cons.prems in simp_all)
  then show ?case using r by auto
qed simp

text \<open>What the writing of a block leaves alone.\<close>

definition ready_card :: "libspectrum_mmc_card \<Rightarrow> bool" where
  "ready_card mc \<longleftrightarrow> mmc_inv mc \<and> disk (card_drive mc) \<noteq> None \<and>
     command_state mc = WAITING_FOR_COMMAND \<and> r1_status mc = 0 \<and> \<not> cmd55_issued mc \<and>
     erase_sequence mc = SEQ_ERASE_NONE"

lemma do_plain_command:
  "\<not> cmd55_issued mc \<Longrightarrow> erase_sequence mc = SEQ_ERASE_NONE \<Longrightarrow>
     do_command junk mc = do_standard_command junk mc"
  by (simp add: do_command_def leave_erase_sequence_def)

lemma write_block:
  assumes rdy: "ready_card mc" and n: "n < total_sectors mc" and data: "length data = 512"
  shows "\<exists>mc' c. mmc_writes junk mc (command_frame WRITE_BLOCK n crc @ [0xfe] @ data @ [c1, c2]) = Some mc' \<and>
    ready_card mc' \<and> total_sectors mc' = total_sectors mc \<and> card_drive mc' = card_drive mc \<and>
    card_cache mc' = c \<and> libspectrum_ide_write_sector_to_hdf junk (card_drive mc) (card_cache mc) n data = Some c"
proof -
  obtain f where f: "disk (card_drive mc) = Some f" and inv: "mmc_inv mc"
      and w: "command_state mc = WAITING_FOR_COMMAND" "r1_status mc = 0" "\<not> cmd55_issued mc"
        "erase_sequence mc = SEQ_ERASE_NONE"
    using rdy by (auto simp: ready_card_def)
  let ?m = "with_command WRITE_BLOCK n mc"
  obtain b where r: "respond [r1_status ?m] ?m = Some (?m\<lparr>response_buffer := b, response_buffer_next := 0,
      response_buffer_end := 1\<rparr>)" and b: "length b = 516"
    using respond_inv [OF with_command_inv [OF inv, of WRITE_BLOCK n], of "[r1_status ?m]"] by auto
  let ?t = "?m\<lparr>response_buffer := b, response_buffer_next := 0, response_buffer_end := 1,
    command_state := WAITING_FOR_DATA, data_count := 0\<rparr>"
  let ?s = "?m\<lparr>response_buffer := b, response_buffer_next := 0, response_buffer_end := 1, r1_status := 0,
    command_state := WAITING_FOR_DATA, data_count := 0\<rparr>"
  have frame: "mmc_writes junk mc (command_frame WRITE_BLOCK n crc @ [0xfe]) = Some ?s"
    using write_frame [OF inv f w(1), of WRITE_BLOCK junk n crc] r w f
    by (simp add: mmc_writes_append do_plain_command do_standard_command_def mmc_commands
        set_response_buffer_r1_def libspectrum_mmc_write_def)
  have sb: "length (send_buffer mc) = 512" using inv by (simp add: mmc_inv_def)
  let ?d = "?s\<lparr>send_buffer := data, data_count := 512, command_state := WAITING_FOR_DATA_CRC1\<rparr>"
  have "data \<noteq> []" using data by auto
  then have bytes: "mmc_writes junk ?s data = Some ?d"
    using write_data_bytes [of ?s f 0 data junk] f sb data by auto
  let ?e = "?d\<lparr>command_state := WAITING_FOR_DATA_CRC2\<rparr>"
  obtain c where c: "libspectrum_ide_write_sector_to_hdf junk (card_drive mc) (card_cache mc) n data = Some c"
      "cache_ok (card_drive mc) c"
    using write_sector_cache [OF mmc_inv_disk [OF inv]] f data by blast
  have arg: "argument_dword ?e = Some n"
    using with_command_argument [of WRITE_BLOCK n mc] by (simp add: argument_dword_def)
  have "write_single_block junk ?e = respond [0x05, 0x01] (?e\<lparr>card_cache := c\<rparr>)"
    using arg n c(1) by (simp add: write_single_block_def idle_card_def not_le [symmetric])
  then have wr: "mmc_writes junk ?d [c1, c2] = Some (?e\<lparr>card_cache := c,
      response_buffer := [0x05, 0x01] @ drop 2 b, response_buffer_end := 2, command_state := WAITING_FOR_COMMAND\<rparr>)"
    using f b by (simp add: libspectrum_mmc_write_def do_command_data_def respond_def memcpy_at_Some numeral_2_eq_2)
  let ?r = "?e\<lparr>card_cache := c, response_buffer := [0x05, 0x01] @ drop 2 b, response_buffer_end := 2,
    command_state := WAITING_FOR_COMMAND\<rparr>"
  have "mmc_inv ?r"
    using with_command_inv [OF inv, of WRITE_BLOCK n] c(2) b data f by (simp add: mmc_inv_def)
  then have "ready_card ?r" using f w by (simp add: ready_card_def)
  moreover have "mmc_writes junk mc (command_frame WRITE_BLOCK n crc @ [0xfe] @ data @ [c1, c2]) = Some ?r"
    using frame bytes wr mmc_writes_append [of junk mc "command_frame WRITE_BLOCK n crc @ [0xfe]" "data @ [c1, c2]"]
      mmc_writes_append [of junk ?s data "[c1, c2]"] by simp
  ultimately show ?thesis using c(1) by (intro exI [of _ ?r] exI [of _ c]) simp
qed

text \<open>
  C27: a block that the machine writes to an initialised card is what it reads when it reads
  the block: the status, the data token, the 512 bytes and two bytes of checksum.
\<close>

theorem mmc_block_roundtrip:
  assumes rdy: "ready_card mc" and ss: "sector_size (card_drive mc) = 512"
    and n: "n < total_sectors mc" and data: "length data = 512"
  shows "do { mc \<leftarrow> mmc_writes junk mc (command_frame WRITE_BLOCK n crc @ [0xfe] @ data @ [c1, c2]);
              mc \<leftarrow> mmc_writes junk mc (command_frame READ_SINGLE_BLOCK n crc');
              map_option fst (mmc_reads mc 516) } = Some ([0x00, 0xfe] @ data @ [0x00, 0x00])"
proof -
  obtain m c where m: "mmc_writes junk mc (command_frame WRITE_BLOCK n crc @ [0xfe] @ data @ [c1, c2]) = Some m"
      "ready_card m" "total_sectors m = total_sectors mc" "card_drive m = card_drive mc" "card_cache m = c"
    and c: "libspectrum_ide_write_sector_to_hdf junk (card_drive mc) (card_cache mc) n data = Some c"
    using write_block [OF rdy n data, of junk crc c1 c2] by blast
  obtain f where f: "disk (card_drive m) = Some f" "mmc_inv m" "command_state m = WAITING_FOR_COMMAND"
      "r1_status m = 0" "\<not> cmd55_issued m" "erase_sequence m = SEQ_ERASE_NONE"
    using m(2) by (auto simp: ready_card_def)
  have "mmc_inv mc" "disk (card_drive mc) \<noteq> None" using rdy by (simp_all add: ready_card_def)
  then have v: "sector_view (card_drive m) (card_cache m) n = Some data"
    using sector_view_write [OF mmc_inv_disk, of mc data junk n] data c m(4,5) ss by (auto simp: kept_def)
  let ?q = "with_command READ_SINGLE_BLOCK n m"
  let ?b = "[0x00, 0xfe] @ data @ [0x00, 0x00]"
  have "read_single_block ?q = Some (?q\<lparr>response_buffer := ?b, response_buffer_next := 0, response_buffer_end := 516\<rparr>)"
    using read_block_response [OF with_command_inv [OF f(2)] _ _ with_command_argument] f n m(3) v
    by (simp add: idle_card_def)
  then have "mmc_writes junk m (command_frame READ_SINGLE_BLOCK n crc') =
      Some (?q\<lparr>response_buffer := ?b, response_buffer_next := 0, response_buffer_end := 516, r1_status := 0,
        command_state := WAITING_FOR_COMMAND\<rparr>)"
    using write_frame [OF f(2,1,3), of READ_SINGLE_BLOCK junk n crc'] f
    by (simp add: do_plain_command do_standard_command_def mmc_commands)
  moreover have "map_option fst (mmc_reads (?q\<lparr>response_buffer := ?b, response_buffer_next := 0,
      response_buffer_end := 516, r1_status := 0, command_state := WAITING_FOR_COMMAND\<rparr>) (length ?b)) = Some ?b"
    by (rule read_response [where k = 0 and ys = "[]"]) (simp_all add: data)
  ultimately show ?thesis using m(1) data by simp
qed

lemma demo_card_ready: "ready_card demo_card"
  by (simp add: ready_card_def mmc_inv_def demo_card_def demo_drive_def drive_ok_def cache_ok_new)

theorem mmc_block_roundtrip_witness:
  "do { mc \<leftarrow> mmc_writes (\<lambda>_. 0) demo_card (command_frame WRITE_BLOCK 3 0xff @ [0xfe] @ replicate 512 7 @ [0, 0]);
        mc \<leftarrow> mmc_writes (\<lambda>_. 0) mc (command_frame READ_SINGLE_BLOCK 3 0xff);
        map_option fst (mmc_reads mc 516) } = Some ([0x00, 0xfe] @ replicate 512 7 @ [0x00, 0x00])"
  by (rule mmc_block_roundtrip [OF demo_card_ready])
    (simp_all add: demo_card_def demo_drive_def)

text \<open>
  C30: when both ends of a range have been set, the erase command makes exactly the blocks of
  the range read as zeros, ends the erase sequence and answers with the status and the
  end of the busy signal.
\<close>

theorem erase_clears_range:
  assumes inv: "mmc_inv mc" and d: "disk (card_drive mc) \<noteq> None" and idle: "\<not> idle_card mc"
    and seq: "erase_sequence mc = SEQ_ERASE_WR_BLK_END"
  shows "\<exists>mc'. erase junk mc = Some mc' \<and> erase_sequence mc' = SEQ_ERASE_NONE \<and>
    map_option fst (mmc_reads mc' 2) = Some [r1_status mc, 0x01] \<and>
    (\<forall>m. sector_view (card_drive mc') (card_cache mc') m =
      (if erase_block_start mc \<le> m \<and> m \<le> erase_block_end mc
       then Some (kept (sector_size (card_drive mc)) (replicate 512 0))
       else sector_view (card_drive mc) (card_cache mc) m))"
proof -
  have "erase_block_end mc < total_sectors mc" using inv seq by (simp add: mmc_inv_def)
  then obtain c where c: "erase_loop junk (card_drive mc) (erase_block_start mc) (erase_block_end mc)
      (replicate 512 0) (card_cache mc) = Some c"
    and v: "\<And>m. sector_view (card_drive mc) c m =
      (if erase_block_start mc \<le> m \<and> m \<le> erase_block_end mc
       then Some (kept (sector_size (card_drive mc)) (replicate 512 0))
       else sector_view (card_drive mc) (card_cache mc) m)"
    using erase_loop_view [OF mmc_inv_disk(1) [OF inv d] _ _ mmc_inv_disk(2) [OF inv d],
        of "replicate 512 0" "erase_block_end mc" "total_sectors mc" junk "erase_block_start mc"] by auto
  have l: "length (response_buffer mc) = 516" "length (send_buffer mc) = 512"
    using inv by (simp_all add: mmc_inv_def)
  have m: "memset_at (send_buffer mc) 0 0 512 = Some (replicate 512 0)"
    using l by (simp add: memset_at_def memcpy_at_Some)
  let ?b = "[r1_status mc, 0x01] @ drop 2 (response_buffer mc)"
  let ?r = "reset_erase_sequence (mc\<lparr>send_buffer := replicate 512 0, card_cache := c,
    response_buffer := ?b, response_buffer_next := 0, response_buffer_end := 2\<rparr>)"
  have "erase junk mc = Some ?r"
    using idle seq c m l by (simp add: erase_def respond_def memcpy_at_Some numeral_2_eq_2)
  moreover have "map_option fst (mmc_reads ?r (length [r1_status mc, 0x01])) = Some [r1_status mc, 0x01]"
    by (rule read_response [where k = 0]) (simp_all add: reset_erase_sequence_def)
  moreover have "erase_sequence ?r = SEQ_ERASE_NONE" "card_drive ?r = card_drive mc" "card_cache ?r = c"
    by (simp_all add: reset_erase_sequence_def)
  ultimately show ?thesis using v by (intro exI [of _ ?r]) (simp add: numeral_2_eq_2)
qed

theorem erase_clears_range_witness:
  "\<exists>mc'. erase (\<lambda>_. 0) (demo_card\<lparr>erase_sequence := SEQ_ERASE_WR_BLK_END, erase_block_end := 2\<rparr>) = Some mc' \<and>
    sector_view (card_drive mc') (card_cache mc') 1 = Some (replicate 512 0)"
proof -
  let ?m = "demo_card\<lparr>erase_sequence := SEQ_ERASE_WR_BLK_END, erase_block_end := 2\<rparr>"
  have "mmc_inv ?m"
    using demo_card_ready by (simp add: ready_card_def mmc_inv_def) (simp add: demo_card_def)
  from erase_clears_range [OF this, of "\<lambda>_. 0"] show ?thesis
    by (auto simp: demo_card_def demo_drive_def idle_card_def kept_def)
qed

end
