(* ===== verification/Microdrive.thy ===== *)
theory Microdrive
  imports LS_Buffer
begin

text \<open>
  Microdrive cartridges (\<open>microdrive.c\<close>): the raw image, its blocks, their checksums and the
  .mdr file format. A pointer into the image is an index of its bytes, and an access outside the
  array of the image is undefined.
\<close>

section \<open>The cartridge and its blocks\<close>

definition MICRODRIVE_BLOCK_MAX :: nat where "MICRODRIVE_BLOCK_MAX = 254"
definition MICRODRIVE_HEAD_LEN :: nat where "MICRODRIVE_HEAD_LEN = 15"
definition MICRODRIVE_DATA_LEN :: nat where "MICRODRIVE_DATA_LEN = 512"

definition MICRODRIVE_BLOCK_LEN :: nat where
  "MICRODRIVE_BLOCK_LEN = MICRODRIVE_HEAD_LEN + MICRODRIVE_HEAD_LEN + MICRODRIVE_DATA_LEN + 1"

definition MICRODRIVE_CARTRIDGE_LENGTH :: nat where
  "MICRODRIVE_CARTRIDGE_LENGTH = MICRODRIVE_BLOCK_MAX * MICRODRIVE_BLOCK_LEN"

definition MDR_LENGTH :: nat where "MDR_LENGTH = MICRODRIVE_CARTRIDGE_LENGTH + 1"

lemma microdrive_sizes [simp]:
  "MICRODRIVE_BLOCK_MAX = 254" "MICRODRIVE_HEAD_LEN = 15" "MICRODRIVE_DATA_LEN = 512"
  "MICRODRIVE_BLOCK_LEN = 543" "MICRODRIVE_CARTRIDGE_LENGTH = 137922" "MDR_LENGTH = 137923"
  by (simp_all add: MICRODRIVE_BLOCK_MAX_def MICRODRIVE_HEAD_LEN_def MICRODRIVE_DATA_LEN_def
      MICRODRIVE_BLOCK_LEN_def MICRODRIVE_CARTRIDGE_LENGTH_def MDR_LENGTH_def)

record libspectrum_microdrive =
  md_data :: "byte list"
  md_write_protect :: int
  md_cartridge_len :: byte

record libspectrum_microdrive_block =
  hdflag :: byte
  hdbnum :: byte
  hdblen :: lword
  hdbnam :: "byte list"
  hdchks :: byte
  recflg :: byte
  recnum :: byte
  reclen :: lword
  recnam :: "byte list"
  rechks :: byte
  mdb_data :: "byte list"
  datchk :: byte

definition libspectrum_microdrive_data :: "libspectrum_microdrive \<Rightarrow> size_t \<Rightarrow> byte option" where
  "libspectrum_microdrive_data microdrive which = aget (md_data microdrive) which"

definition libspectrum_microdrive_set_data ::
    "libspectrum_microdrive \<Rightarrow> size_t \<Rightarrow> byte \<Rightarrow> libspectrum_microdrive option" where
  "libspectrum_microdrive_set_data microdrive which data =
     map_option (\<lambda>d. microdrive\<lparr>md_data := d\<rparr>) (aset (md_data microdrive) which data)"

text \<open>One of the two 15-byte headers of a block: flag, number, length, name and checksum.\<close>

definition get_block_header ::
    "byte list \<Rightarrow> nat \<Rightarrow> (byte \<times> byte \<times> lword \<times> byte list \<times> byte) option" where
  "get_block_header data d = do {
     flag \<leftarrow> nget data d;
     num \<leftarrow> nget data (d + 1);
     lo \<leftarrow> nget data (d + 2);
     hi \<leftarrow> nget data (d + 3);
     nam \<leftarrow> copy_out data (d + 4) 10;
     chks \<leftarrow> nget data (d + 14);
     Some (flag, num, ucast lo + push_bit 8 (ucast hi), nam @ [0], chks) }"

definition libspectrum_microdrive_get_block ::
    "libspectrum_microdrive \<Rightarrow> byte \<Rightarrow> libspectrum_microdrive_block option" where
  "libspectrum_microdrive_get_block microdrive which = do {
     let d = unat which * MICRODRIVE_BLOCK_LEN;
     (hdflag, hdbnum, hdblen, hdbnam, hdchks) \<leftarrow> get_block_header (md_data microdrive) d;
     (recflg, recnum, reclen, recnam, rechks) \<leftarrow> get_block_header (md_data microdrive) (d + 15);
     data \<leftarrow> copy_out (md_data microdrive) (d + 30) 512;
     datchk \<leftarrow> nget (md_data microdrive) (d + 542);
     Some \<lparr>hdflag = hdflag, hdbnum = hdbnum, hdblen = hdblen, hdbnam = hdbnam, hdchks = hdchks,
       recflg = recflg, recnum = recnum, reclen = reclen, recnam = recnam, rechks = rechks,
       mdb_data = data, datchk = datchk\<rparr> }"

definition set_block_header ::
    "byte \<Rightarrow> byte \<Rightarrow> lword \<Rightarrow> byte list \<Rightarrow> byte \<Rightarrow> nat \<Rightarrow> byte list \<Rightarrow> byte list option" where
  "set_block_header flag num blen nam chks d data = do {
     data \<leftarrow> nset data d flag;
     data \<leftarrow> nset data (d + 1) num;
     data \<leftarrow> nset data (d + 2) (ucast (blen AND 0xff));
     data \<leftarrow> nset data (d + 3) (ucast (drop_bit 8 blen));
     data \<leftarrow> memcpy_at data (d + 4) nam 10;
     nset data (d + 14) chks }"

definition libspectrum_microdrive_set_block ::
    "libspectrum_microdrive \<Rightarrow> byte \<Rightarrow> libspectrum_microdrive_block \<Rightarrow> libspectrum_microdrive option" where
  "libspectrum_microdrive_set_block microdrive which block = do {
     let d = unat which * MICRODRIVE_BLOCK_LEN;
     data \<leftarrow> set_block_header (hdflag block) (hdbnum block) (hdblen block) (hdbnam block)
       (hdchks block) d (md_data microdrive);
     data \<leftarrow> set_block_header (recflg block) (recnum block) (reclen block) (recnam block)
       (rechks block) (d + 15) data;
     data \<leftarrow> memcpy_at data (d + 30) (mdb_data block) 512;
     data \<leftarrow> nset data (d + 542) (datchk block);
     Some (microdrive\<lparr>md_data := data\<rparr>) }"

section \<open>Checksums\<close>

text \<open>The macro \<open>DO_CHECK\<close> on the running sum, which follows the arithmetic of the Z80 ROM.\<close>

definition do_check :: "nat \<Rightarrow> byte \<Rightarrow> nat" where
  "do_check checksum b =
     (let checksum = checksum + unat b;
          (carry, checksum) = (if checksum > 255 then (1, checksum - 256) else (0, checksum));
          checksum = checksum + carry + 1
      in if checksum = 256 then 0 else checksum - 1)"

fun do_check_loop :: "byte list \<Rightarrow> nat \<Rightarrow> nat \<Rightarrow> nat \<Rightarrow> (nat \<times> nat) option" where
  "do_check_loop mem 0 data checksum = Some (checksum, data)"
| "do_check_loop mem (Suc i) data checksum = do {
     b \<leftarrow> nget mem data;
     do_check_loop mem i (data + 1) (do_check checksum b) }"

definition libspectrum_microdrive_checksum :: "libspectrum_microdrive \<Rightarrow> byte \<Rightarrow> int option" where
  "libspectrum_microdrive_checksum microdrive what = do {
     let mem = md_data microdrive;
     let data = unat what * MICRODRIVE_BLOCK_LEN;
     flag \<leftarrow> nget mem (data + 15);
     lo \<leftarrow> nget mem (data + 17);
     hi \<leftarrow> nget mem (data + 18);
     (if flag AND 2 \<noteq> 0 \<and> lo = 0 \<and> hi = 0 then Some (- 1)
      else do {
        (checksum, data) \<leftarrow> do_check_loop mem (MICRODRIVE_HEAD_LEN - 1) data 0;
        b \<leftarrow> nget mem data;
        (if unat b \<noteq> checksum then Some 1
         else do {
           (checksum, data) \<leftarrow> do_check_loop mem (MICRODRIVE_HEAD_LEN - 1) (data + 1) 0;
           b \<leftarrow> nget mem data;
           (if unat b \<noteq> checksum then Some 2
            else do {
              let data = data + 1;
              lo \<leftarrow> nget mem (data - 13);
              hi \<leftarrow> nget mem (data - 12);
              (if lo = 0 \<and> hi = 0 then Some 0
               else do {
                 (checksum, data) \<leftarrow> do_check_loop mem MICRODRIVE_DATA_LEN data 0;
                 b \<leftarrow> nget mem data;
                 Some (if unat b \<noteq> checksum then 3 else 0) }) }) }) }) }"

section \<open>The .mdr format\<close>

definition libspectrum_microdrive_mdr_read ::
    "libspectrum_microdrive \<Rightarrow> byte list \<Rightarrow> libspectrum_microdrive c_result" where
  "libspectrum_microdrive_mdr_read microdrive buf =
     (if length buf < MICRODRIVE_BLOCK_LEN * 10 \<or> length buf mod MICRODRIVE_BLOCK_LEN > 1 \<or>
         length buf > MDR_LENGTH then Some (ERROR_CORRUPT, microdrive)
      else do {
        let data_length = length buf - length buf mod MICRODRIVE_BLOCK_LEN;
        data \<leftarrow> memcpy_at (md_data microdrive) 0 buf data_length;
        protect \<leftarrow> (if length buf mod MICRODRIVE_BLOCK_LEN = 1 then map_option uint (nget buf data_length)
                    else Some 0);
        Some (ERROR_NONE, microdrive\<lparr>md_data := data, md_write_protect := protect,
          md_cartridge_len := of_nat (data_length div MICRODRIVE_BLOCK_LEN)\<rparr>) })"

definition libspectrum_microdrive_mdr_write :: "libspectrum_microdrive \<Rightarrow> byte list option" where
  "libspectrum_microdrive_mdr_write microdrive = do {
     let n = unat (md_cartridge_len microdrive) * MICRODRIVE_BLOCK_LEN;
     data \<leftarrow> copy_out (md_data microdrive) 0 n;
     Some (data @ [word_of_int (md_write_protect microdrive)]) }"

section \<open>What they do\<close>

text \<open>The sum of some bytes modulo 255, which the arithmetic of the checksum works out to.\<close>

definition sum255 :: "byte list \<Rightarrow> nat" where
  "sum255 bs = sum_list (map unat bs) mod 255"

lemma do_check_mod:
  assumes "c < 255"
  shows "do_check c b = (c + unat b) mod 255"
proof -
  have b: "unat b < 256" using unsigned_less [of b, where ?'a = nat] by simp
  consider "c + unat b < 255" | "c + unat b = 255" | "255 < c + unat b" by linarith
  then show ?thesis
  proof cases
    case 3
    define k where "k = c + unat b - 255"
    have "c + unat b = k + 255" "k < 255" using b assms 3 by (auto simp: k_def)
    then show ?thesis using 3 by (simp add: do_check_def Let_def)
  qed (simp_all add: do_check_def Let_def)
qed

lemma word_bytes_zero: "(ucast (lo :: byte) :: lword) + push_bit 8 (ucast (hi :: byte)) = 0 \<longleftrightarrow> lo = 0 \<and> hi = 0"
proof
  assume "(ucast lo :: lword) + push_bit 8 (ucast hi) = 0"
  then have "(ucast lo :: lword) OR push_bit 8 (ucast hi) = 0"
    using paste2 [of lo hi] by (simp add: push_bit_eq_mult)
  then have "bit ((ucast lo :: lword) OR push_bit 8 (ucast hi)) n = False" for n by simp
  note no_bit = this
  have "\<not> bit lo n \<and> \<not> bit hi n" if "n < 8" for n
    using that no_bit [of n] no_bit [of "n + 8"] by (simp add: bit_simps)
  then show "lo = 0 \<and> hi = 0" by (auto intro: bit_word_eqI)
qed simp

lemma do_check_loop_sum:
  assumes "d + n \<le> length mem" "c < 255"
  shows "do_check_loop mem n d c = Some ((c + sum_list (map unat (take n (drop d mem)))) mod 255, d + n)"
  using assms
proof (induction n arbitrary: d c)
  case (Suc n)
  have "take (Suc n) (drop d mem) = mem ! d # take n (drop (Suc d) mem)"
    using Suc.prems by (simp flip: Cons_nth_drop_Suc)
  then show ?case
    using Suc do_check_mod [OF Suc.prems(2), of "mem ! d"]
    by (simp add: nget_Some mod_add_left_eq add.assoc)
qed simp

lemmas do_check_sum = do_check_loop_sum [where c = 0, folded sum255_def, simplified]

text \<open>
  C28: the checksum that imitates the carry arithmetic of the Z80 ROM is the sum of the bytes
  modulo 255, and the check of a block compares the three checksums with those sums in order.
\<close>

theorem microdrive_checksum_spec:
  assumes "length (md_data md) = MICRODRIVE_CARTRIDGE_LENGTH" "what < 254"
  shows "libspectrum_microdrive_checksum md what = map_option (\<lambda>b.
     let start = drop (unat what * MICRODRIVE_BLOCK_LEN) (md_data md) in
     if recflg b AND 2 \<noteq> 0 \<and> reclen b = 0 then - 1
     else if unat (hdchks b) \<noteq> sum255 (take 14 start) then 1
     else if unat (rechks b) \<noteq> sum255 (take 14 (drop 15 start)) then 2
     else if reclen b = 0 then 0
     else if unat (datchk b) \<noteq> sum255 (mdb_data b) then 3 else 0)
    (libspectrum_microdrive_get_block md what)"
proof -
  let ?d = "unat what * 543"
  have "unat what < 254" using assms(2) by (simp add: word_less_nat_alt)
  then have room: "?d + 543 \<le> length (md_data md)" using assms(1) by simp
  show ?thesis
    using room
    by (simp add: libspectrum_microdrive_checksum_def libspectrum_microdrive_get_block_def Let_def
        get_block_header_def copy_out_def nget_Some do_check_loop_sum sum255_def add.commute word_bytes_zero)
qed


text \<open>A witness cartridge: empty blocks, each with its number in its header and right checksums.\<close>

definition blank_block :: "byte list" where
  "blank_block = [1, 7, 0, 0] @ replicate 10 0 @ [8] @ [0, 7, 0, 0] @ replicate 10 0 @ [7] @ replicate 513 0"

definition blank_cartridge :: libspectrum_microdrive where
  "blank_cartridge = \<lparr>md_data = concat (replicate 254 blank_block), md_write_protect = 0, md_cartridge_len = 254\<rparr>"

lemma length_blank: "length (md_data blank_cartridge) = MICRODRIVE_CARTRIDGE_LENGTH"
  by (simp add: blank_cartridge_def length_concat sum_list_replicate blank_block_def)

theorem microdrive_checksum_spec_witness:
  "libspectrum_microdrive_checksum blank_cartridge 3 = map_option (\<lambda>b.
     let start = drop (unat (3 :: byte) * MICRODRIVE_BLOCK_LEN) (md_data blank_cartridge) in
     if recflg b AND 2 \<noteq> 0 \<and> reclen b = 0 then - 1
     else if unat (hdchks b) \<noteq> sum255 (take 14 start) then 1
     else if unat (rechks b) \<noteq> sum255 (take 14 (drop 15 start)) then 2
     else if reclen b = 0 then 0
     else if unat (datchk b) \<noteq> sum255 (mdb_data b) then 3 else 0)
    (libspectrum_microdrive_get_block blank_cartridge 3)"
  by (rule microdrive_checksum_spec [OF length_blank]) simp

section \<open>Round trips\<close>

text \<open>The bytes of a header in the image.\<close>

definition header_bytes :: "byte \<Rightarrow> byte \<Rightarrow> lword \<Rightarrow> byte list \<Rightarrow> byte \<Rightarrow> byte list" where
  "header_bytes flag num blen nam chks = [flag, num] @ word_bytes blen @ take 10 nam @ [chks]"

lemma length_header_bytes: "10 \<le> length nam \<Longrightarrow> length (header_bytes flag num blen nam chks) = 15"
  by (simp add: header_bytes_def)

lemma set_block_header_bytes:
  assumes "length pre = d" "length old = 15" "10 \<le> length nam"
  shows "set_block_header flag num blen nam chks d (pre @ old @ post) =
    Some (pre @ header_bytes flag num blen nam chks @ post)"
proof -
  have "old = take 4 old @ drop 4 old" "drop 4 old = take 10 (drop 4 old) @ drop 14 old"
    using append_take_drop_id [of 10 "drop 4 old"] by simp_all
  moreover obtain a b c e where "take 4 old = [a, b, c, e]"
    by (rule length_4E [of "take 4 old"]) (use assms(2) in auto)
  moreover obtain f where "drop 14 old = [f]"
    using assms(2) length_Suc_conv [of "drop 14 old" 0] by auto
  ultimately have old: "old = [a, b, c, e] @ take 10 (drop 4 old) @ [f]" by metis
  define n where "n = take 10 (drop 4 old)"
  have n: "length n = 10" using assms(2) by (simp add: n_def)
  let ?four = "[flag, num, ucast (blen AND 0xff), ucast (drop_bit 8 blen)]"
  have set_at: "nset (pre @ ys) (d + i) v = map_option ((@) pre) (nset ys i v)" for ys i v
    using nset_app [of pre "d + i" ys] assms(1) by simp
  have set_0: "nset (pre @ ys) d v = map_option ((@) pre) (nset ys 0 v)" for ys v
    using set_at [of ys 0] by simp
  have name: "memcpy_at (pre @ flag # num # ucast (blen AND 0xff) # ucast (drop_bit 8 blen) # n @ f # post) (d + 4) nam 10 =
      Some (pre @ flag # num # ucast (blen AND 0xff) # ucast (drop_bit 8 blen) # take 10 nam @ f # post)"
    using memcpy_at_insert [of "pre @ ?four" "d + 4" n 10 nam "f # post"] assms n by simp
  have last: "nset (?four @ take 10 nam @ f # post) 14 chks = Some (?four @ take 10 nam @ chks # post)"
    using nset_app [of "?four @ take 10 nam" 14 "f # post" chks] assms(3) by (simp add: nset_Cons)
  show ?thesis
    unfolding old [folded n_def]
    using last by (simp add: set_block_header_def set_at set_0 nset_Cons name header_bytes_def word_bytes_def
        del: One_nat_def add_2_eq_Suc')
qed

lemma get_block_header_bytes:
  assumes "length pre = d" "10 \<le> length nam"
  shows "get_block_header (pre @ header_bytes flag num blen nam chks @ post) d =
    Some (flag, num, blen, take 10 nam @ [0], chks)"
proof -
  have hb: "header_bytes flag num blen nam chks =
      [flag, num, ucast (blen AND 0xff), ucast (drop_bit 8 blen)] @ take 10 nam @ [chks]"
    by (simp add: header_bytes_def word_bytes_def)
  have len: "length (take 10 nam) = 10" using assms(2) by simp
  have w: "(ucast (ucast (blen AND 0xff) :: byte) :: lword) + push_bit 8 (ucast (ucast (drop_bit 8 blen) :: byte)) = blen"
    using paste2_split [of blen] by (simp add: push_bit_eq_mult)
  have name: "copy_out (pre @ header_bytes flag num blen nam chks @ post) (d + 4) 10 = Some (take 10 nam)"
    using copy_out_insert [of "pre @ [flag, num, ucast (blen AND 0xff), ucast (drop_bit 8 blen)]"
      "d + 4" "take 10 nam" 10 "chks # post"] assms(1) len by (simp add: hb)
  have get: "nget (pre @ ys) (d + i) = nget ys i" for ys :: "byte list" and i
    using nget_app [of pre "d + i" ys] assms(1) by simp
  have "nget (pre @ header_bytes flag num blen nam chks @ post) d = Some flag"
    using get [of "header_bytes flag num blen nam chks @ post" 0] by (simp add: hb nget_Cons)
  moreover have "nget (header_bytes flag num blen nam chks @ post) 14 = Some chks"
    using nget_app [of "[flag, num, ucast (blen AND 0xff), ucast (drop_bit 8 blen)] @ take 10 nam" 14 "chks # post"] assms(2)
    by (simp add: hb nget_Cons)
  ultimately show ?thesis
    by (simp only: get_block_header_def name get) (simp add: hb nget_Cons w)
qed

lemma block_parts:
  fixes d :: "byte list"
  assumes "length d = MICRODRIVE_CARTRIDGE_LENGTH" "which < (254 :: byte)"
  obtains pre h1 h2 dt c post where "d = pre @ h1 @ h2 @ dt @ c # post"
    "length pre = unat which * MICRODRIVE_BLOCK_LEN" "length h1 = 15" "length h2 = 15" "length dt = 512"
proof -
  let ?p = "unat which * 543"
  have "unat which < 254" using assms(2) by (simp add: word_less_nat_alt)
  then have room: "?p + 543 \<le> length d" using assms(1) by simp
  have split: "xs = take n xs @ drop n xs" for n and xs :: "byte list" by simp
  have "d = take ?p d @ take 15 (drop ?p d) @ take 15 (drop (15 + ?p) d) @ take 512 (drop (30 + ?p) d) @ drop (542 + ?p) d"
    using split [of d ?p] split [of "drop ?p d" 15] split [of "drop (15 + ?p) d" 15] split [of "drop (30 + ?p) d" 512]
    by (simp only: drop_drop append_assoc) simp
  moreover have "drop (542 + ?p) d = d ! (542 + ?p) # drop (543 + ?p) d"
    using room Cons_nth_drop_Suc [of "542 + ?p" d] by simp
  ultimately show ?thesis
    using that [of "take ?p d" "take 15 (drop ?p d)" "take 15 (drop (15 + ?p) d)" "take 512 (drop (30 + ?p) d)"] room
    by simp
qed

text \<open>
  A block set is the block got back: its names are cut to ten characters and terminated.
\<close>

lemma get_set_block:
  assumes size: "length (md_data md) = MICRODRIVE_CARTRIDGE_LENGTH" "which < 254"
    and block: "10 \<le> length (hdbnam b)" "10 \<le> length (recnam b)" "length (mdb_data b) = 512"
  shows "\<exists>md'. libspectrum_microdrive_set_block md which b = Some md' \<and>
    length (md_data md') = length (md_data md) \<and>
    libspectrum_microdrive_get_block md' which =
      Some (b\<lparr>hdbnam := take 10 (hdbnam b) @ [0], recnam := take 10 (recnam b) @ [0]\<rparr>)"
proof -
  obtain pre h1 h2 dt c post where d: "md_data md = pre @ h1 @ h2 @ dt @ c # post"
    "length pre = unat which * 543" "length h1 = 15" "length h2 = 15" "length dt = 512"
    using block_parts [OF size] by (metis microdrive_sizes(4))
  let ?h1 = "header_bytes (hdflag b) (hdbnum b) (hdblen b) (hdbnam b) (hdchks b)"
  let ?h2 = "header_bytes (recflg b) (recnum b) (reclen b) (recnam b) (rechks b)"
  let ?d = "pre @ ?h1 @ ?h2 @ mdb_data b @ datchk b # post"
  note len = length_header_bytes [OF block(1)] length_header_bytes [OF block(2)]
  have "libspectrum_microdrive_set_block md which b = Some (md\<lparr>md_data := ?d\<rparr>)"
    using set_block_header_bytes [of pre "unat which * 543" h1 "hdbnam b" "hdflag b" "hdbnum b" "hdblen b" "hdchks b" "h2 @ dt @ c # post"]
      set_block_header_bytes [of "pre @ ?h1" "unat which * 543 + 15" h2 "recnam b" "recflg b" "recnum b" "reclen b" "rechks b" "dt @ c # post"]
      memcpy_at_insert [of "pre @ ?h1 @ ?h2" "unat which * 543 + 30" dt 512 "mdb_data b" "c # post"]
      nset_app [of "pre @ ?h1 @ ?h2 @ mdb_data b" "unat which * 543 + 542" "c # post" "datchk b"] d block len
    by (simp add: libspectrum_microdrive_set_block_def nset_Cons)
  moreover have "libspectrum_microdrive_get_block (md\<lparr>md_data := ?d\<rparr>) which =
      Some (b\<lparr>hdbnam := take 10 (hdbnam b) @ [0], recnam := take 10 (recnam b) @ [0]\<rparr>)"
    using get_block_header_bytes [of pre "unat which * 543" "hdbnam b" "hdflag b" "hdbnum b" "hdblen b" "hdchks b" "?h2 @ mdb_data b @ datchk b # post"]
      get_block_header_bytes [of "pre @ ?h1" "unat which * 543 + 15" "recnam b" "recflg b" "recnum b" "reclen b" "rechks b" "mdb_data b @ datchk b # post"]
      copy_out_insert [of "pre @ ?h1 @ ?h2" "unat which * 543 + 30" "mdb_data b" 512 "datchk b # post"]
      nget_app [of "pre @ ?h1 @ ?h2 @ mdb_data b" "unat which * 543 + 542" "datchk b # post"] d block len
    by (simp add: libspectrum_microdrive_get_block_def nget_Cons)
  ultimately show ?thesis using d len block by simp
qed

text \<open>
  C29: an .mdr file of ten to 254 whole blocks, with or without a byte for the write protection,
  is read and written back byte for byte; a file without that byte gets a zero.
\<close>

theorem mdr_roundtrip:
  assumes "MICRODRIVE_BLOCK_LEN * 10 \<le> length f" "length f mod MICRODRIVE_BLOCK_LEN \<le> 1" "length f \<le> MDR_LENGTH"
    and size: "length (md_data md) = MICRODRIVE_CARTRIDGE_LENGTH"
  shows "\<exists>md'. libspectrum_microdrive_mdr_read md f = Some (ERROR_NONE, md') \<and>
    libspectrum_microdrive_mdr_write md' = Some (if length f mod MICRODRIVE_BLOCK_LEN = 1 then f else f @ [0])"
proof -
  define k where "k = length f div 543"
  have k: "length f = 543 * k + length f mod 543" "k \<le> 254" using assms(3) by (simp_all add: k_def)
  have last: "length f mod 543 = 0 \<or> length f mod 543 = 1" using assms(2) by auto
  then have all: "f = take (543 * k) f @ (if length f mod 543 = 1 then [f ! (543 * k)] else [])"
    using k(1) by (auto simp: take_Suc_conv_app_nth [symmetric])
  have len: "unat (word_of_nat k :: byte) = k" using k(2) by (simp add: unat_of_nat)
  have "length f - length f mod 543 = 543 * k" using k(1) by simp
  with k last all len size assms show ?thesis
    by (auto simp: libspectrum_microdrive_mdr_read_def libspectrum_microdrive_mdr_write_def Let_def
        memcpy_at_def copy_out_def nget_def mult.commute split: if_splits)
qed

theorem mdr_roundtrip_witness:
  "let f = concat (replicate 12 blank_block) @ [1] in
     \<exists>md'. libspectrum_microdrive_mdr_read blank_cartridge f = Some (ERROR_NONE, md') \<and>
       libspectrum_microdrive_mdr_write md' = Some f"
  using mdr_roundtrip [OF _ _ _ length_blank, of "concat (replicate 12 blank_block) @ [1]"]
  by (simp add: length_concat sum_list_replicate blank_block_def)

end
