(* ===== verification/Timings.thy ===== *)
theory Timings
  imports LS_Core
begin

text \<open>
  The frame timings of the machines (\<open>timings.c\<close>). \<open>base_timings\<close> is an array indexed by the
  value of the machine in its enumeration.
\<close>

record timings_frame_t =
  left_border :: lword
  horizontal_screen :: lword
  right_border :: lword
  horizontal_retrace :: lword
  top_border :: lword
  vertical_screen :: lword
  bottom_border :: lword
  vertical_retrace :: lword
  interrupt_length :: lword
  top_left_pixel :: dword

definition frame_of :: "lword list \<Rightarrow> lword list \<Rightarrow> lword \<Rightarrow> dword \<Rightarrow> timings_frame_t" where
  "frame_of h v int_length pixel = \<lparr>left_border = h ! 0, horizontal_screen = h ! 1, right_border = h ! 2,
     horizontal_retrace = h ! 3, top_border = v ! 0, vertical_screen = v ! 1, bottom_border = v ! 2,
     vertical_retrace = v ! 3, interrupt_length = int_length, top_left_pixel = pixel\<rparr>"

definition timings_frame_ferranti_5c_6c :: timings_frame_t where
  "timings_frame_ferranti_5c_6c = frame_of [24, 128, 24, 48] [48, 192, 48, 24] 32 14336"

definition timings_frame_ferranti_60hz :: timings_frame_t where
  "timings_frame_ferranti_60hz = frame_of [24, 128, 24, 48] [24, 192, 25, 23] 32 8960"

definition timings_frame_ferranti_7c :: timings_frame_t where
  "timings_frame_ferranti_7c = frame_of [24, 128, 24, 52] [48, 192, 48, 23] 36 14362"

definition timings_frame_amstrad_asic :: timings_frame_t where
  "timings_frame_amstrad_asic = frame_of [24, 128, 24, 52] [48, 192, 48, 23] 32 14365"

definition timings_frame_timex_scld_50hz :: timings_frame_t where
  "timings_frame_timex_scld_50hz = frame_of [24, 128, 24, 48] [48, 192, 48, 24] 32 14321"

definition timings_frame_timex_scld_60hz :: timings_frame_t where
  "timings_frame_timex_scld_60hz = frame_of [24, 128, 24, 48] [24, 192, 25, 21] 32 9169"

definition timings_frame_se :: timings_frame_t where
  "timings_frame_se = frame_of [24, 128, 24, 48] [47, 192, 48, 25] 32 14336"

definition timings_frame_pentagon :: timings_frame_t where
  "timings_frame_pentagon = frame_of [36, 128, 28, 32] [64, 192, 48, 16] 36 17988"

definition timings_frame_scorpion :: timings_frame_t where
  "timings_frame_scorpion = frame_of [24, 128, 32, 40] [48, 192, 48, 24] 36 14336"

record timings_t =
  processor_speed :: dword
  ay_speed :: dword
  frame_timings :: "timings_frame_t option"

definition timings :: "dword \<Rightarrow> dword \<Rightarrow> timings_frame_t option \<Rightarrow> timings_t" where
  "timings cpu ay frame = \<lparr>processor_speed = cpu, ay_speed = ay, frame_timings = frame\<rparr>"

definition base_timings :: "timings_t list" where
  "base_timings = [
     timings 3500000 0 (Some timings_frame_ferranti_5c_6c),
     timings 3500000 0 (Some timings_frame_timex_scld_50hz),
     timings 3546900 1773400 (Some timings_frame_ferranti_7c),
     timings 3546900 1773400 (Some timings_frame_ferranti_7c),
     timings 3584000 1792000 (Some timings_frame_pentagon),
     timings 3546900 1773400 (Some timings_frame_amstrad_asic),
     timings 3546900 1773400 (Some timings_frame_amstrad_asic),
     timings 0 0 None,
     timings 3500000 0 (Some timings_frame_ferranti_5c_6c),
     timings 3500000 1750000 (Some timings_frame_timex_scld_50hz),
     timings 3500000 1750000 (Some timings_frame_scorpion),
     timings 3546900 1773400 (Some timings_frame_amstrad_asic),
     timings 3500000 1750000 (Some timings_frame_se),
     timings 3528000 1764000 (Some timings_frame_timex_scld_60hz),
     timings 3584000 1792000 (Some timings_frame_pentagon),
     timings 3584000 1792000 (Some timings_frame_pentagon),
     timings 3527500 0 (Some timings_frame_ferranti_60hz),
     timings 3546900 1773400 (Some timings_frame_amstrad_asic)]"

text \<open>The value of a machine in \<open>enum libspectrum_machine\<close>.\<close>

primrec machine_number :: "libspectrum_machine \<Rightarrow> nat" where
  "machine_number MACHINE_48 = 0"
| "machine_number MACHINE_TC2048 = 1"
| "machine_number MACHINE_128 = 2"
| "machine_number MACHINE_PLUS2 = 3"
| "machine_number MACHINE_PENT = 4"
| "machine_number MACHINE_PLUS2A = 5"
| "machine_number MACHINE_PLUS3 = 6"
| "machine_number MACHINE_UNKNOWN = 7"
| "machine_number MACHINE_16 = 8"
| "machine_number MACHINE_TC2068 = 9"
| "machine_number MACHINE_SCORP = 10"
| "machine_number MACHINE_PLUS3E = 11"
| "machine_number MACHINE_SE = 12"
| "machine_number MACHINE_TS2068 = 13"
| "machine_number MACHINE_PENT512 = 14"
| "machine_number MACHINE_PENT1024 = 15"
| "machine_number MACHINE_48_NTSC = 16"
| "machine_number MACHINE_128E = 17"

definition machine_timings :: "libspectrum_machine \<Rightarrow> timings_t" where
  "machine_timings machine = base_timings ! machine_number machine"

definition libspectrum_timings_processor_speed :: "libspectrum_machine \<Rightarrow> dword" where
  "libspectrum_timings_processor_speed machine = processor_speed (machine_timings machine)"

definition libspectrum_timings_ay_speed :: "libspectrum_machine \<Rightarrow> dword" where
  "libspectrum_timings_ay_speed machine = ay_speed (machine_timings machine)"

definition libspectrum_timings_left_border :: "libspectrum_machine \<Rightarrow> lword" where
  "libspectrum_timings_left_border machine =
     (case frame_timings (machine_timings machine) of None \<Rightarrow> 0 | Some f \<Rightarrow> left_border f)"

definition libspectrum_timings_horizontal_screen :: "libspectrum_machine \<Rightarrow> lword" where
  "libspectrum_timings_horizontal_screen machine =
     (case frame_timings (machine_timings machine) of None \<Rightarrow> 0 | Some f \<Rightarrow> horizontal_screen f)"

definition libspectrum_timings_right_border :: "libspectrum_machine \<Rightarrow> lword" where
  "libspectrum_timings_right_border machine =
     (case frame_timings (machine_timings machine) of None \<Rightarrow> 0 | Some f \<Rightarrow> right_border f)"

definition libspectrum_timings_horizontal_retrace :: "libspectrum_machine \<Rightarrow> lword" where
  "libspectrum_timings_horizontal_retrace machine =
     (case frame_timings (machine_timings machine) of None \<Rightarrow> 0 | Some f \<Rightarrow> horizontal_retrace f)"

definition libspectrum_timings_top_border :: "libspectrum_machine \<Rightarrow> lword" where
  "libspectrum_timings_top_border machine =
     (case frame_timings (machine_timings machine) of None \<Rightarrow> 0 | Some f \<Rightarrow> top_border f)"

definition libspectrum_timings_vertical_screen :: "libspectrum_machine \<Rightarrow> lword" where
  "libspectrum_timings_vertical_screen machine =
     (case frame_timings (machine_timings machine) of None \<Rightarrow> 0 | Some f \<Rightarrow> vertical_screen f)"

definition libspectrum_timings_bottom_border :: "libspectrum_machine \<Rightarrow> lword" where
  "libspectrum_timings_bottom_border machine =
     (case frame_timings (machine_timings machine) of None \<Rightarrow> 0 | Some f \<Rightarrow> bottom_border f)"

definition libspectrum_timings_vertical_retrace :: "libspectrum_machine \<Rightarrow> lword" where
  "libspectrum_timings_vertical_retrace machine =
     (case frame_timings (machine_timings machine) of None \<Rightarrow> 0 | Some f \<Rightarrow> vertical_retrace f)"

definition libspectrum_timings_interrupt_length :: "libspectrum_machine \<Rightarrow> lword" where
  "libspectrum_timings_interrupt_length machine =
     (case frame_timings (machine_timings machine) of None \<Rightarrow> 0 | Some f \<Rightarrow> interrupt_length f)"

definition libspectrum_timings_top_left_pixel :: "libspectrum_machine \<Rightarrow> lword" where
  "libspectrum_timings_top_left_pixel machine =
     (case frame_timings (machine_timings machine) of None \<Rightarrow> 0 | Some f \<Rightarrow> ucast (top_left_pixel f))"

definition libspectrum_timings_tstates_per_line :: "libspectrum_machine \<Rightarrow> lword" where
  "libspectrum_timings_tstates_per_line machine =
     (case frame_timings (machine_timings machine) of None \<Rightarrow> 0
      | Some f \<Rightarrow> left_border f + horizontal_screen f + right_border f + horizontal_retrace f)"

definition libspectrum_timings_lines_per_frame :: "libspectrum_machine \<Rightarrow> lword" where
  "libspectrum_timings_lines_per_frame machine =
     (case frame_timings (machine_timings machine) of None \<Rightarrow> 0
      | Some f \<Rightarrow> top_border f + vertical_screen f + bottom_border f + vertical_retrace f)"

definition libspectrum_timings_tstates_per_frame :: "libspectrum_machine \<Rightarrow> dword" where
  "libspectrum_timings_tstates_per_frame machine =
     (case frame_timings (machine_timings machine) of None \<Rightarrow> 0
      | Some f \<Rightarrow> ucast (libspectrum_timings_tstates_per_line machine) *
                 ucast (libspectrum_timings_lines_per_frame machine))"

lemmas timings_defs = machine_timings_def base_timings_def timings_def frame_of_def
  timings_frame_ferranti_5c_6c_def timings_frame_ferranti_60hz_def timings_frame_ferranti_7c_def
  timings_frame_amstrad_asic_def timings_frame_timex_scld_50hz_def timings_frame_timex_scld_60hz_def
  timings_frame_se_def timings_frame_pentagon_def timings_frame_scorpion_def

text \<open>The lengths of the frames. Each is a multiple of four that leaves room in 18 bits.\<close>

lemma tstates_per_frame:
  "libspectrum_timings_tstates_per_frame machine =
    (case machine of
       MACHINE_UNKNOWN \<Rightarrow> 0
     | MACHINE_48_NTSC \<Rightarrow> 59136
     | MACHINE_TS2068 \<Rightarrow> 58688
     | MACHINE_PENT \<Rightarrow> 71680 | MACHINE_PENT512 \<Rightarrow> 71680 | MACHINE_PENT1024 \<Rightarrow> 71680
     | MACHINE_128 \<Rightarrow> 70908 | MACHINE_PLUS2 \<Rightarrow> 70908 | MACHINE_PLUS2A \<Rightarrow> 70908 | MACHINE_PLUS3 \<Rightarrow> 70908
     | MACHINE_PLUS3E \<Rightarrow> 70908 | MACHINE_128E \<Rightarrow> 70908
     | _ \<Rightarrow> 69888)"
  by (cases machine) (simp_all add: libspectrum_timings_tstates_per_frame_def
      libspectrum_timings_tstates_per_line_def libspectrum_timings_lines_per_frame_def timings_defs)

end
