(* ===== verification/Snapshot.thy ===== *)
theory Snapshot
  imports LS_Core
begin

text \<open>
  The state of a machine that snapshots hold: \<open>libspectrum_snap\<close> with the fields of
  \<open>snap_accessors.txt\<close> (the structure itself is in \<open>accessor.pl\<close>, which generates one reader
  and one writer per field), its allocation and the distribution of a 48K memory dump over the
  pages, from \<open>snapshot.c\<close>. A field \<open>x\<close> of the C structure is the field \<open>snap_x\<close> of the
  record, \<open>libspectrum_snap_x( snap )\<close> is \<open>snap_x snap\<close> and \<open>libspectrum_snap_set_x( snap, v )\<close>
  is \<open>snap\<lparr>snap_x := v\<rparr>\<close>; the shadow registers have a prime. A pointer to memory is \<open>None\<close> or
  the bytes of the object it points to. Arrays of one element, which are only used at index 0,
  are that element.
\<close>

datatype libspectrum_joystick =
    JOYSTICK_NONE | JOYSTICK_CURSOR | JOYSTICK_KEMPSTON | JOYSTICK_SINCLAIR_1
  | JOYSTICK_SINCLAIR_2 | JOYSTICK_TIMEX_1 | JOYSTICK_TIMEX_2 | JOYSTICK_FULLER

abbreviation (input) JOYSTICK_INPUT_NONE :: int where "JOYSTICK_INPUT_NONE \<equiv> 0"
abbreviation (input) JOYSTICK_INPUT_KEYBOARD :: int where "JOYSTICK_INPUT_KEYBOARD \<equiv> 1"
abbreviation (input) JOYSTICK_INPUT_JOYSTICK_1 :: int where "JOYSTICK_INPUT_JOYSTICK_1 \<equiv> 2"
abbreviation (input) JOYSTICK_INPUT_JOYSTICK_2 :: int where "JOYSTICK_INPUT_JOYSTICK_2 \<equiv> 4"

record libspectrum_snap =
  snap_machine :: libspectrum_machine
  snap_a :: byte
  snap_f :: byte
  snap_bc :: lword
  snap_de :: lword
  snap_hl :: lword
  snap_a' :: byte
  snap_f' :: byte
  snap_bc' :: lword
  snap_de' :: lword
  snap_hl' :: lword
  snap_ix :: lword
  snap_iy :: lword
  snap_i :: byte
  snap_r :: byte
  snap_sp :: lword
  snap_pc :: lword
  snap_memptr :: lword
  snap_iff1 :: byte
  snap_iff2 :: byte
  snap_im :: byte
  snap_tstates :: dword
  snap_halted :: int
  snap_last_instruction_ei :: int
  snap_last_instruction_set_f :: int
  snap_out_ula :: byte
  snap_out_128_memoryport :: byte
  snap_out_plus3_memoryport :: byte
  snap_out_ay_registerport :: byte
  snap_ay_registers :: "byte list"
  snap_out_scld_hsr :: byte
  snap_out_scld_dec :: byte
  snap_interface1_active :: int
  snap_interface1_paged :: int
  snap_interface1_drive_count :: int
  snap_interface1_custom_rom :: int
  snap_interface1_rom :: "byte list option"
  snap_interface1_rom_length :: size_t
  snap_beta_active :: int
  snap_beta_paged :: int
  snap_beta_autoboot :: int
  snap_beta_drive_count :: int
  snap_beta_custom_rom :: int
  snap_beta_direction :: int
  snap_beta_system :: byte
  snap_beta_track :: byte
  snap_beta_sector :: byte
  snap_beta_data :: byte
  snap_beta_status :: byte
  snap_beta_rom :: "byte list option"
  snap_plusd_active :: int
  snap_plusd_paged :: int
  snap_plusd_drive_count :: int
  snap_plusd_custom_rom :: int
  snap_plusd_direction :: int
  snap_plusd_control :: byte
  snap_plusd_track :: byte
  snap_plusd_sector :: byte
  snap_plusd_data :: byte
  snap_plusd_status :: byte
  snap_plusd_rom :: "byte list option"
  snap_plusd_ram :: "byte list option"
  snap_opus_active :: int
  snap_opus_paged :: int
  snap_opus_drive_count :: int
  snap_opus_custom_rom :: int
  snap_opus_direction :: int
  snap_opus_track :: byte
  snap_opus_sector :: byte
  snap_opus_data :: byte
  snap_opus_status :: byte
  snap_opus_data_reg_a :: byte
  snap_opus_data_dir_a :: byte
  snap_opus_control_a :: byte
  snap_opus_data_reg_b :: byte
  snap_opus_data_dir_b :: byte
  snap_opus_control_b :: byte
  snap_opus_rom :: "byte list option"
  snap_opus_ram :: "byte list option"
  snap_custom_rom :: int
  snap_custom_rom_pages :: size_t
  snap_roms :: "byte list option list"
  snap_rom_length :: "size_t list"
  snap_pages :: "byte list option list"
  snap_slt :: "byte list option list"
  snap_slt_length :: "size_t list"
  snap_slt_screen :: "byte list option"
  snap_slt_screen_level :: int
  snap_zxatasp_active :: int
  snap_zxatasp_upload :: int
  snap_zxatasp_writeprotect :: int
  snap_zxatasp_port_a :: byte
  snap_zxatasp_port_b :: byte
  snap_zxatasp_port_c :: byte
  snap_zxatasp_control :: byte
  snap_zxatasp_pages :: size_t
  snap_zxatasp_current_page :: size_t
  snap_zxatasp_ram :: "byte list option list"
  snap_zxcf_active :: int
  snap_zxcf_upload :: int
  snap_zxcf_memctl :: byte
  snap_zxcf_pages :: size_t
  snap_zxcf_ram :: "byte list option list"
  snap_interface2_active :: int
  snap_interface2_rom :: "byte list option"
  snap_dock_active :: int
  snap_exrom_ram :: "byte list"
  snap_exrom_cart :: "byte list option list"
  snap_dock_ram :: "byte list"
  snap_dock_cart :: "byte list option list"
  snap_issue2 :: int
  snap_joystick_active_count :: size_t
  snap_joystick_list :: "libspectrum_joystick list"
  snap_joystick_inputs :: "int list"
  snap_kempston_mouse_active :: int
  snap_simpleide_active :: int
  snap_divide_active :: int
  snap_divide_eprom_writeprotect :: int
  snap_divide_paged :: int
  snap_divide_control :: byte
  snap_divide_pages :: size_t
  snap_divide_eprom :: "byte list option"
  snap_divide_ram :: "byte list option list"
  snap_divmmc_active :: int
  snap_divmmc_eprom_writeprotect :: int
  snap_divmmc_paged :: int
  snap_divmmc_control :: byte
  snap_divmmc_pages :: size_t
  snap_divmmc_eprom :: "byte list option"
  snap_divmmc_ram :: "byte list option list"
  snap_fuller_box_active :: int
  snap_melodik_active :: int
  snap_specdrum_active :: int
  snap_specdrum_dac :: byte
  snap_spectranet_active :: int
  snap_spectranet_paged :: int
  snap_spectranet_paged_via_io :: int
  snap_spectranet_nmi_flipflop :: int
  snap_spectranet_programmable_trap_active :: int
  snap_spectranet_programmable_trap_msb :: int
  snap_spectranet_all_traps_disabled :: int
  snap_spectranet_rst8_trap_disabled :: int
  snap_spectranet_deny_downstream_a15 :: int
  snap_spectranet_page_a :: int
  snap_spectranet_page_b :: int
  snap_spectranet_programmable_trap :: lword
  snap_spectranet_w5100 :: "byte list option"
  snap_spectranet_flash :: "byte list option"
  snap_spectranet_ram :: "byte list option"
  snap_late_timings :: int
  snap_zx_printer_active :: int
  snap_usource_active :: int
  snap_usource_paged :: int
  snap_usource_custom_rom :: int
  snap_usource_rom :: "byte list option"
  snap_usource_rom_length :: size_t
  snap_disciple_active :: int
  snap_disciple_paged :: int
  snap_disciple_inhibit_button :: int
  snap_disciple_drive_count :: int
  snap_disciple_custom_rom :: int
  snap_disciple_rom_length :: size_t
  snap_disciple_direction :: int
  snap_disciple_control :: byte
  snap_disciple_track :: byte
  snap_disciple_sector :: byte
  snap_disciple_data :: byte
  snap_disciple_status :: byte
  snap_disciple_rom :: "byte list option"
  snap_disciple_ram :: "byte list option"
  snap_didaktik80_active :: int
  snap_didaktik80_paged :: int
  snap_didaktik80_drive_count :: int
  snap_didaktik80_custom_rom :: int
  snap_didaktik80_rom_length :: size_t
  snap_didaktik80_direction :: int
  snap_didaktik80_aux :: byte
  snap_didaktik80_track :: byte
  snap_didaktik80_sector :: byte
  snap_didaktik80_data :: byte
  snap_didaktik80_status :: byte
  snap_didaktik80_rom :: "byte list option"
  snap_didaktik80_ram :: "byte list option"
  snap_covox_active :: int
  snap_covox_dac :: byte
  snap_ulaplus_active :: int
  snap_ulaplus_palette_enabled :: int
  snap_ulaplus_current_register :: byte
  snap_ulaplus_palette :: "byte list option"
  snap_ulaplus_ff_register :: byte
  snap_multiface_active :: int
  snap_multiface_paged :: int
  snap_multiface_model_one :: int
  snap_multiface_model_128 :: int
  snap_multiface_model_3 :: int
  snap_multiface_disabled :: int
  snap_multiface_software_lockout :: int
  snap_multiface_red_button_disabled :: int
  snap_multiface_ram :: "byte list option"
  snap_multiface_ram_length :: size_t
  snap_zxmmc_active :: int

text \<open>
  \<open>libspectrum_snap_alloc\<close> sets most fields of an object with indeterminate contents \<open>junk\<close>.
\<close>

definition libspectrum_snap_alloc :: "libspectrum_snap \<Rightarrow> libspectrum_snap" where
  "libspectrum_snap_alloc junk = junk\<lparr>
    snap_a := 0x00, snap_f := 0x00, snap_bc := 0x0000, snap_de := 0x0000, snap_hl := 0x0000,
    snap_a' := 0x00, snap_f' := 0x00, snap_bc' := 0x0000, snap_de' := 0x0000, snap_hl' := 0x0000,
    snap_ix := 0x0000, snap_iy := 0x0000, snap_i := 0x00, snap_r := 0x00, snap_sp := 0x0000,
    snap_pc := 0x0000, snap_memptr := 0x0000, snap_iff1 := 1, snap_iff2 := 1, snap_im := 1,
    snap_halted := 0, snap_last_instruction_ei := 0, snap_last_instruction_set_f := 0,
    snap_custom_rom := 0, snap_custom_rom_pages := 0, snap_roms := replicate 4 None,
    snap_rom_length := replicate 4 0, snap_pages := replicate 16 None,
    snap_slt := replicate 256 None, snap_slt_length := replicate 256 0, snap_slt_screen := None,
    snap_slt_screen_level := 0, snap_out_ula := 0x00, snap_tstates := 69664,
    snap_out_128_memoryport := 0x07, snap_out_ay_registerport := 0x0e,
    snap_ay_registers := replicate 16 0, snap_out_plus3_memoryport := 0x08,
    snap_out_scld_hsr := 0x00, snap_out_scld_dec := 0x00, snap_interface1_active := 0,
    snap_interface1_paged := 0, snap_interface1_drive_count := 0, snap_interface1_custom_rom := 0,
    snap_interface1_rom := None, snap_interface1_rom_length := 0, snap_beta_active := 0,
    snap_beta_paged := 0, snap_beta_autoboot := 0, snap_beta_drive_count := 0,
    snap_beta_custom_rom := 0, snap_beta_direction := 0, snap_beta_system := 0,
    snap_beta_track := 0, snap_beta_sector := 0, snap_beta_data := 0, snap_beta_status := 0,
    snap_beta_rom := None, snap_plusd_active := 0, snap_plusd_paged := 0,
    snap_plusd_drive_count := 0, snap_plusd_custom_rom := 0, snap_plusd_direction := 0,
    snap_plusd_control := 0, snap_plusd_track := 0, snap_plusd_sector := 0, snap_plusd_data := 0,
    snap_plusd_status := 0, snap_plusd_rom := None, snap_plusd_ram := None, snap_opus_active := 0,
    snap_opus_paged := 0, snap_opus_drive_count := 0, snap_opus_custom_rom := 0,
    snap_opus_direction := 0, snap_opus_track := 0, snap_opus_sector := 0, snap_opus_data := 0,
    snap_opus_status := 0, snap_opus_data_reg_a := 0, snap_opus_data_dir_a := 0,
    snap_opus_control_a := 0, snap_opus_data_reg_b := 0, snap_opus_data_dir_b := 0,
    snap_opus_control_b := 0, snap_opus_rom := None, snap_opus_ram := None,
    snap_zxatasp_active := 0, snap_zxatasp_upload := 0, snap_zxatasp_writeprotect := 0,
    snap_zxatasp_port_a := 0, snap_zxatasp_port_b := 0, snap_zxatasp_port_c := 0,
    snap_zxatasp_control := 0, snap_zxatasp_pages := 0, snap_zxatasp_current_page := 0,
    snap_zxatasp_ram := replicate 32 None, snap_zxcf_active := 0, snap_zxcf_upload := 0,
    snap_zxcf_memctl := 0x00, snap_zxcf_pages := 0, snap_zxcf_ram := replicate 64 None,
    snap_interface2_active := 0, snap_interface2_rom := None, snap_dock_active := 0,
    snap_exrom_ram := replicate 8 0, snap_exrom_cart := replicate 8 None,
    snap_dock_ram := replicate 8 0, snap_dock_cart := replicate 8 None, snap_issue2 := 0,
    snap_joystick_active_count := 0, snap_joystick_list := replicate 7 JOYSTICK_NONE,
    snap_joystick_inputs := replicate 7 0, snap_kempston_mouse_active := 0,
    snap_simpleide_active := 0, snap_specdrum_active := 0, snap_specdrum_dac := 0,
    snap_divide_active := 0, snap_divide_eprom_writeprotect := 0, snap_divide_paged := 0,
    snap_divide_control := 0, snap_divide_pages := 0, snap_divide_eprom := None,
    snap_divide_ram := replicate 4 None, snap_divmmc_active := 0,
    snap_divmmc_eprom_writeprotect := 0, snap_divmmc_paged := 0, snap_divmmc_control := 0,
    snap_divmmc_pages := 0, snap_divmmc_eprom := None, snap_divmmc_ram := replicate 64 None,
    snap_fuller_box_active := 0, snap_melodik_active := 0, snap_spectranet_active := 0,
    snap_spectranet_all_traps_disabled := 0, snap_spectranet_rst8_trap_disabled := 0,
    snap_spectranet_w5100 := None, snap_spectranet_flash := None, snap_spectranet_ram := None,
    snap_late_timings := 0, snap_zx_printer_active := 0, snap_usource_active := 0,
    snap_usource_paged := 0, snap_usource_custom_rom := 0, snap_usource_rom := None,
    snap_usource_rom_length := 0, snap_disciple_active := 0, snap_disciple_paged := 0,
    snap_disciple_inhibit_button := 0, snap_disciple_drive_count := 0,
    snap_disciple_custom_rom := 0, snap_disciple_direction := 0, snap_disciple_control := 0,
    snap_disciple_track := 0, snap_disciple_sector := 0, snap_disciple_data := 0,
    snap_disciple_status := 0, snap_disciple_rom := None, snap_disciple_rom_length := 0,
    snap_disciple_ram := None, snap_didaktik80_active := 0, snap_didaktik80_paged := 0,
    snap_didaktik80_drive_count := 0, snap_didaktik80_custom_rom := 0,
    snap_didaktik80_direction := 0, snap_didaktik80_aux := 0, snap_didaktik80_track := 0,
    snap_didaktik80_sector := 0, snap_didaktik80_data := 0, snap_didaktik80_status := 0,
    snap_didaktik80_rom := None, snap_didaktik80_rom_length := 0, snap_didaktik80_ram := None,
    snap_covox_active := 0, snap_covox_dac := 0, snap_ulaplus_active := 0,
    snap_ulaplus_palette_enabled := 0, snap_ulaplus_current_register := 0,
    snap_ulaplus_palette := None, snap_ulaplus_ff_register := 0, snap_multiface_active := 0,
    snap_multiface_paged := 0, snap_multiface_model_one := 0, snap_multiface_model_128 := 0,
    snap_multiface_model_3 := 0, snap_multiface_disabled := 0,
    snap_multiface_software_lockout := 0, snap_multiface_red_button_disabled := 0,
    snap_multiface_ram := None, snap_multiface_ram_length := 0, snap_zxmmc_active := 0\<rparr>"

section \<open>Pages\<close>

definition libspectrum_snap_pages :: "libspectrum_snap \<Rightarrow> nat \<Rightarrow> byte list option option" where
  "libspectrum_snap_pages snap idx = nget (snap_pages snap) idx"

definition libspectrum_snap_set_pages ::
    "libspectrum_snap \<Rightarrow> nat \<Rightarrow> byte list option \<Rightarrow> libspectrum_snap option" where
  "libspectrum_snap_set_pages snap idx v =
     map_option (\<lambda>p. snap\<lparr>snap_pages := p\<rparr>) (nset (snap_pages snap) idx v)"

definition libspectrum_split_to_48k_pages ::
    "libspectrum_snap \<Rightarrow> byte list \<Rightarrow> libspectrum_snap c_result" where
  "libspectrum_split_to_48k_pages snap data = do {
     p5 \<leftarrow> libspectrum_snap_pages snap 5;
     p2 \<leftarrow> libspectrum_snap_pages snap 2;
     p0 \<leftarrow> libspectrum_snap_pages snap 0;
     (if p5 \<noteq> None \<or> p2 \<noteq> None \<or> p0 \<noteq> None then Some (ERROR_LOGIC, snap)
      else do {
        b5 \<leftarrow> copy_out data 0x0000 0x4000;
        b2 \<leftarrow> copy_out data 0x4000 0x4000;
        b0 \<leftarrow> copy_out data 0x8000 0x4000;
        snap \<leftarrow> libspectrum_snap_set_pages snap 5 (Some b5);
        snap \<leftarrow> libspectrum_snap_set_pages snap 2 (Some b2);
        snap \<leftarrow> libspectrum_snap_set_pages snap 0 (Some b0);
        Some (ERROR_NONE, snap) }) }"

section \<open>What the snapshot formats share\<close>

definition FLAG_SNAPSHOT_NO_COMPRESSION :: int where "FLAG_SNAPSHOT_NO_COMPRESSION = 1"
definition FLAG_SNAPSHOT_ALWAYS_COMPRESS :: int where "FLAG_SNAPSHOT_ALWAYS_COMPRESS = 2"
definition FLAG_SNAPSHOT_MINOR_INFO_LOSS :: int where "FLAG_SNAPSHOT_MINOR_INFO_LOSS = 1"
definition FLAG_SNAPSHOT_MAJOR_INFO_LOSS :: int where "FLAG_SNAPSHOT_MAJOR_INFO_LOSS = 2"

text \<open>\<open>if( c ) *out_flags |= flag;\<close> for each of some conditions.\<close>

definition info_loss :: "int \<Rightarrow> bool list \<Rightarrow> int \<Rightarrow> int" where
  "info_loss flag cs out_flags = (if list_ex id cs then out_flags OR flag else out_flags)"

text \<open>\<open>buffer[i] + buffer[i + 1] * 0x100\<close>, for an index that has been checked.\<close>

definition le16 :: "byte list \<Rightarrow> nat \<Rightarrow> lword" where
  "le16 buf i = ucast (buf ! i) + ucast (buf ! (i + 1)) * 0x100"

lemma le16_word_bytes: "le16 (pre @ word_bytes w @ post) (length pre) = w"
  using paste2_split [of w] by (simp add: le16_def word_bytes_def nth_append)

end
