(* ===== verification/Sna.thy ===== *)
theory Sna
  imports Snapshot LS_Buffer
begin

text \<open>
  The .sna snapshot format (\<open>sna.c\<close>): the reader for 48K and 128K images and the writer. The
  functions the C file keeps static have the prefix \<open>sna_\<close> where another format has one of the
  same name. Flags are \<open>int\<close>, as in the C code.
\<close>

section \<open>Reading\<close>

definition SNA_HEADER_LENGTH :: nat where "SNA_HEADER_LENGTH = 27"
definition SNA_128_HEADER_LENGTH :: nat where "SNA_128_HEADER_LENGTH = 4"

definition identify_machine :: "nat \<Rightarrow> libspectrum_snap \<Rightarrow> libspectrum_error \<times> libspectrum_snap" where
  "identify_machine buffer_length snap =
     (if buffer_length = 49179 then (ERROR_NONE, snap\<lparr>snap_machine := MACHINE_48\<rparr>)
      else if buffer_length = 131103 \<or> buffer_length = 147487
      then (ERROR_NONE, snap\<lparr>snap_machine := MACHINE_PENT\<rparr>)
      else (ERROR_CORRUPT, snap))"

definition libspectrum_sna_read_header :: "byte list \<Rightarrow> libspectrum_snap \<Rightarrow> libspectrum_error \<times> libspectrum_snap" where
  "libspectrum_sna_read_header buf snap =
     (if length buf < SNA_HEADER_LENGTH then (ERROR_CORRUPT, snap)
      else
        let iff = (if buf ! 19 AND 0x04 \<noteq> 0 then 1 else 0)
        in (ERROR_NONE, snap\<lparr>snap_a := buf ! 22, snap_f := buf ! 21, snap_bc := le16 buf 13,
          snap_de := le16 buf 11, snap_hl := le16 buf 9, snap_a' := buf ! 8, snap_f' := buf ! 7,
          snap_bc' := le16 buf 5, snap_de' := le16 buf 3, snap_hl' := le16 buf 1,
          snap_ix := le16 buf 17, snap_iy := le16 buf 15, snap_i := buf ! 0, snap_r := buf ! 20,
          snap_pc := le16 buf 6, snap_sp := le16 buf 23, snap_iff1 := iff, snap_iff2 := iff,
          snap_im := buf ! 25 AND 0x03, snap_out_ula := buf ! 26 AND 0x07\<rparr>))"

definition libspectrum_sna_read_128_header :: "byte list \<Rightarrow> libspectrum_snap \<Rightarrow> libspectrum_error \<times> libspectrum_snap" where
  "libspectrum_sna_read_128_header buf snap =
     (if length buf < 4 then (ERROR_CORRUPT, snap)
      else (ERROR_NONE, snap\<lparr>snap_pc := le16 buf 0, snap_out_128_memoryport := buf ! 2\<rparr>))"

text \<open>The loop over the pages, without those at the start of the file.\<close>

definition have_page :: "nat \<Rightarrow> nat \<Rightarrow> bool" where
  "have_page page i \<longleftrightarrow> i = 2 \<or> i = 5 \<or> i = page"

fun sna_read_pages :: "nat \<Rightarrow> nat list \<Rightarrow> byte list \<Rightarrow> libspectrum_snap \<Rightarrow> libspectrum_snap c_result" where
  "sna_read_pages page [] buf snap = Some (ERROR_NONE, snap)"
| "sna_read_pages page (i # is) buf snap =
     (if have_page page i then sna_read_pages page is buf snap
      else if length buf < 0x4000 then Some (ERROR_CORRUPT, snap)
      else do {
        snap \<leftarrow> libspectrum_snap_set_pages snap i (Some (take 0x4000 buf));
        sna_read_pages page is (drop 0x4000 buf) snap })"

definition libspectrum_sna_read_128_data :: "byte list \<Rightarrow> libspectrum_snap \<Rightarrow> libspectrum_snap c_result" where
  "libspectrum_sna_read_128_data buf snap =
     sna_read_pages (unat (snap_out_128_memoryport snap AND 0x07)) [0..<8] buf snap"

fun sna_new_pages :: "byte list \<Rightarrow> nat list \<Rightarrow> libspectrum_snap \<Rightarrow> libspectrum_snap option" where
  "sna_new_pages ram [] snap = Some snap"
| "sna_new_pages ram (i # is) snap = libspectrum_snap_set_pages snap i (Some ram) \<bind> sna_new_pages ram is"

definition libspectrum_sna_read_data ::
    "(nat \<Rightarrow> byte) \<Rightarrow> byte list \<Rightarrow> libspectrum_snap \<Rightarrow> libspectrum_snap c_result" where
  "libspectrum_sna_read_data junk buf snap =
     (if length buf < 0xc000 then Some (ERROR_CORRUPT, snap)
      else if snap_machine snap = MACHINE_48 then
        let sp = snap_sp snap
        in if sp < 0x4000 \<or> sp = 0xffff then Some (ERROR_CORRUPT, snap)
           else do {
             let offset = unat (sp - 0x4000);
             lo \<leftarrow> nget buf offset;
             hi \<leftarrow> nget buf (offset + 1);
             let snap = snap\<lparr>snap_pc := ucast lo + 0x100 * ucast hi, snap_sp := sp + 2\<rparr>;
             libspectrum_split_to_48k_pages snap buf }
      else if snap_machine snap = MACHINE_PENT then do {
        snap \<leftarrow> sna_new_pages (renew junk [] 0x4000) [0..<8] snap;
        snap \<leftarrow> libspectrum_snap_set_pages snap 5 (copy_out buf 0x0000 0x4000);
        snap \<leftarrow> libspectrum_snap_set_pages snap 2 (copy_out buf 0x4000 0x4000);
        (let (e, snap) = libspectrum_sna_read_128_header (drop 0xc000 buf) snap
         in if e \<noteq> ERROR_NONE then Some (e, snap)
            else do {
              let page = unat (snap_out_128_memoryport snap AND 0x07);
              old \<leftarrow> libspectrum_snap_pages snap page;
              (if page = 5 \<or> page = 2 then
                 (if old \<noteq> copy_out buf 0x8000 0x4000 then Some (ERROR_CORRUPT, snap)
                  else libspectrum_sna_read_128_data (drop (0xc000 + SNA_128_HEADER_LENGTH) buf) snap)
               else do {
                 snap \<leftarrow> libspectrum_snap_set_pages snap page (copy_out buf 0x8000 0x4000);
                 libspectrum_sna_read_128_data (drop (0xc000 + SNA_128_HEADER_LENGTH) buf) snap }) }) }
      else Some (ERROR_LOGIC, snap))"

definition internal_sna_read :: "(nat \<Rightarrow> byte) \<Rightarrow> libspectrum_snap \<Rightarrow> byte list \<Rightarrow> libspectrum_snap c_result" where
  "internal_sna_read junk snap buf =
     on_ok (Some (identify_machine (length buf) snap)) (\<lambda>snap.
     on_ok (Some (libspectrum_sna_read_header buf snap)) (\<lambda>snap.
       libspectrum_sna_read_data junk (drop SNA_HEADER_LENGTH buf) snap))"

section \<open>Writing\<close>

definition sna_write_page :: "(nat \<Rightarrow> byte) \<Rightarrow> libspectrum_snap \<Rightarrow> nat \<Rightarrow> lbuffer \<Rightarrow> lbuffer option" where
  "sna_write_page junk snap page b =
     (case libspectrum_snap_pages snap page of
        None \<Rightarrow> None
      | Some (Some ram) \<Rightarrow> libspectrum_buffer_write junk b ram 0x4000
      | Some None \<Rightarrow> libspectrum_buffer_set junk b 0xff 0x4000)"

definition sna_write_header :: "(nat \<Rightarrow> byte) \<Rightarrow> libspectrum_snap \<Rightarrow> lword \<Rightarrow> lbuffer \<Rightarrow> lbuffer option" where
  "sna_write_header junk snap sp b = do {
     b \<leftarrow> libspectrum_buffer_write_byte junk b (snap_i snap);
     b \<leftarrow> libspectrum_buffer_write_word junk b (snap_hl' snap);
     b \<leftarrow> libspectrum_buffer_write_word junk b (snap_de' snap);
     b \<leftarrow> libspectrum_buffer_write_word junk b (snap_bc' snap);
     b \<leftarrow> libspectrum_buffer_write_byte junk b (snap_f' snap);
     b \<leftarrow> libspectrum_buffer_write_byte junk b (snap_a' snap);
     b \<leftarrow> libspectrum_buffer_write_word junk b (snap_hl snap);
     b \<leftarrow> libspectrum_buffer_write_word junk b (snap_de snap);
     b \<leftarrow> libspectrum_buffer_write_word junk b (snap_bc snap);
     b \<leftarrow> libspectrum_buffer_write_word junk b (snap_iy snap);
     b \<leftarrow> libspectrum_buffer_write_word junk b (snap_ix snap);
     b \<leftarrow> libspectrum_buffer_write_byte junk b (if snap_iff2 snap \<noteq> 0 then 0x04 else 0x00);
     b \<leftarrow> libspectrum_buffer_write_byte junk b (snap_r snap);
     b \<leftarrow> libspectrum_buffer_write_byte junk b (snap_f snap);
     b \<leftarrow> libspectrum_buffer_write_byte junk b (snap_a snap);
     b \<leftarrow> libspectrum_buffer_write_word junk b sp;
     b \<leftarrow> libspectrum_buffer_write_byte junk b (snap_im snap);
     libspectrum_buffer_write_byte junk b (snap_out_ula snap AND 0x07) }"

text \<open>The value is the error, the new stack pointer and the buffer.\<close>

definition write_48k_sna ::
    "(nat \<Rightarrow> byte) \<Rightarrow> libspectrum_snap \<Rightarrow> lword \<Rightarrow> lbuffer \<Rightarrow> (libspectrum_error \<times> lword \<times> lbuffer) option" where
  "write_48k_sna junk snap old_sp b =
     (if snap_sp snap < 0x4002 then Some (ERROR_INVALID, old_sp, b)
      else do {
        let offset = unat (libspectrum_buffer_get_data_size (Some b));
        b \<leftarrow> sna_write_page junk snap 5 b;
        b \<leftarrow> sna_write_page junk snap 2 b;
        b \<leftarrow> sna_write_page junk snap 0 b;
        let new_stack_address = snap_sp snap - 2;
        (mem, _) \<leftarrow> libspectrum_write_word (buffer b) (offset + unat (new_stack_address - 0x4000)) (snap_pc snap);
        Some (ERROR_NONE, new_stack_address, b\<lparr>buffer := mem\<rparr>) })"

fun sna_write_pages :: "(nat \<Rightarrow> byte) \<Rightarrow> libspectrum_snap \<Rightarrow> nat \<Rightarrow> nat list \<Rightarrow> lbuffer \<Rightarrow> lbuffer option" where
  "sna_write_pages junk snap page [] b = Some b"
| "sna_write_pages junk snap page (i # is) b =
     (if have_page page i then sna_write_pages junk snap page is b
      else sna_write_page junk snap i b \<bind> sna_write_pages junk snap page is)"

definition write_128k_sna :: "(nat \<Rightarrow> byte) \<Rightarrow> libspectrum_snap \<Rightarrow> lbuffer \<Rightarrow> lbuffer option" where
  "write_128k_sna junk snap b = do {
     let page = unat (snap_out_128_memoryport snap AND 0x07);
     b \<leftarrow> sna_write_page junk snap 5 b;
     b \<leftarrow> sna_write_page junk snap 2 b;
     b \<leftarrow> sna_write_page junk snap page b;
     b \<leftarrow> libspectrum_buffer_write_word junk b (snap_pc snap);
     b \<leftarrow> libspectrum_buffer_write_byte junk b (snap_out_128_memoryport snap);
     b \<leftarrow> libspectrum_buffer_write_byte junk b 0;
     sna_write_pages junk snap page [0..<8] b }"

definition sna_info_loss :: "libspectrum_snap \<Rightarrow> int" where
  "sna_info_loss snap = info_loss FLAG_SNAPSHOT_MAJOR_INFO_LOSS
     [snap_plusd_active snap \<noteq> 0, snap_beta_active snap \<noteq> 0, snap_opus_active snap \<noteq> 0,
      snap_zxatasp_active snap \<noteq> 0, snap_zxcf_active snap \<noteq> 0, snap_simpleide_active snap \<noteq> 0,
      snap_divide_active snap \<noteq> 0, snap_interface2_active snap \<noteq> 0, snap_dock_active snap \<noteq> 0,
      snap_custom_rom snap \<noteq> 0, snap_fuller_box_active snap \<noteq> 0 \<or> snap_melodik_active snap \<noteq> 0,
      snap_specdrum_active snap \<noteq> 0, snap_spectranet_active snap \<noteq> 0, snap_usource_active snap \<noteq> 0,
      snap_disciple_active snap \<noteq> 0, snap_didaktik80_active snap \<noteq> 0, snap_covox_active snap \<noteq> 0,
      snap_multiface_active snap \<noteq> 0, snap_divmmc_active snap \<noteq> 0, snap_zxmmc_active snap \<noteq> 0]
     FLAG_SNAPSHOT_MINOR_INFO_LOSS"

definition sna_48k_machines :: "libspectrum_machine list" where
  "sna_48k_machines = [MACHINE_48_NTSC, MACHINE_TC2048, MACHINE_TC2068, MACHINE_TS2068, MACHINE_16, MACHINE_48]"

text \<open>
  The result is the error, \<open>*out_flags\<close> and the buffer. The variable \<open>snap_sp\<close> of the C code has
  no value before one is stored in it; it is only used after that.
\<close>

definition libspectrum_sna_write ::
    "(nat \<Rightarrow> byte) \<Rightarrow> lbuffer \<Rightarrow> libspectrum_snap \<Rightarrow> (libspectrum_error \<times> int \<times> lbuffer) option" where
  "libspectrum_sna_write junk b snap =
     (let out_flags = sna_info_loss snap;
          buffer_mem = libspectrum_buffer_alloc junk
      in if snap_machine snap \<in> set sna_48k_machines then
           let out_flags = info_loss FLAG_SNAPSHOT_MAJOR_INFO_LOSS
                 [snap_machine snap \<notin> {MACHINE_16, MACHINE_48}] out_flags
           in do {
             (error, sp, mem) \<leftarrow> write_48k_sna junk snap 0 buffer_mem;
             (if error \<noteq> ERROR_NONE then Some (error, out_flags, b)
              else do {
                b \<leftarrow> sna_write_header junk snap sp b;
                b \<leftarrow> libspectrum_buffer_write_buffer junk b (Some mem);
                Some (ERROR_NONE, out_flags, b) }) }
         else if snap_machine snap = MACHINE_UNKNOWN then Some (ERROR_LOGIC, out_flags, b)
         else
           let out_flags = info_loss FLAG_SNAPSHOT_MAJOR_INFO_LOSS
                 [snap_machine snap \<noteq> MACHINE_PENT] out_flags
           in do {
             mem \<leftarrow> write_128k_sna junk snap buffer_mem;
             b \<leftarrow> sna_write_header junk snap (snap_sp snap) b;
             b \<leftarrow> libspectrum_buffer_write_buffer junk b (Some mem);
             Some (ERROR_NONE, out_flags, b) })"


section \<open>The bytes of a file\<close>

text \<open>The 16K of a page as they are written.\<close>

definition page_bytes :: "libspectrum_snap \<Rightarrow> nat \<Rightarrow> byte list" where
  "page_bytes snap i = (case snap_pages snap ! i of None \<Rightarrow> replicate 0x4000 0xff | Some ram \<Rightarrow> take 0x4000 ram)"

definition pages_ok :: "libspectrum_snap \<Rightarrow> bool" where
  "pages_ok snap \<longleftrightarrow> length (snap_pages snap) = 16 \<and>
     (\<forall>ram. Some ram \<in> set (snap_pages snap) \<longrightarrow> 0x4000 \<le> length ram)"

lemma pages_okD: "pages_ok snap \<Longrightarrow> i < 16 \<Longrightarrow> snap_pages snap ! i = Some ram \<Longrightarrow> 0x4000 \<le> length ram"
  unfolding pages_ok_def by (metis nth_mem)

lemma length_page_bytes:
  assumes "pages_ok snap" "i < 16"
  shows "length (page_bytes snap i) = 0x4000"
  using pages_okD [OF assms] by (cases "snap_pages snap ! i") (simp_all add: page_bytes_def)

lemma puts_page:
  assumes "pages_ok snap" "i < 16"
  shows "buf.puts (sna_write_page junk snap i) (page_bytes snap i)"
proof (cases "snap_pages snap ! i")
  case None
  then have "sna_write_page junk snap i = (\<lambda>b. libspectrum_buffer_set junk b 0xff 0x4000)"
    using assms by (simp add: sna_write_page_def libspectrum_snap_pages_def nget_def pages_ok_def fun_eq_iff)
  then show ?thesis using puts_fill [where v = "0xff" and n = "0x4000" and junk = junk] None
    by (simp add: page_bytes_def)
next
  case (Some ram)
  then have "sna_write_page junk snap i = (\<lambda>b. libspectrum_buffer_write junk b ram 0x4000)"
    using assms by (simp add: sna_write_page_def libspectrum_snap_pages_def nget_def pages_ok_def fun_eq_iff)
  then show ?thesis using puts_data [where n = "0x4000" and data = ram and junk = junk] Some pages_okD [OF assms Some]
    by (simp add: page_bytes_def)
qed

definition sna_header_bytes :: "libspectrum_snap \<Rightarrow> lword \<Rightarrow> byte list" where
  "sna_header_bytes snap sp =
     [snap_i snap] @ word_bytes (snap_hl' snap) @ word_bytes (snap_de' snap) @ word_bytes (snap_bc' snap) @
     [snap_f' snap] @ [snap_a' snap] @ word_bytes (snap_hl snap) @ word_bytes (snap_de snap) @
     word_bytes (snap_bc snap) @ word_bytes (snap_iy snap) @ word_bytes (snap_ix snap) @
     [if snap_iff2 snap \<noteq> 0 then 0x04 else 0x00] @ [snap_r snap] @ [snap_f snap] @ [snap_a snap] @
     word_bytes sp @ [snap_im snap] @ [snap_out_ula snap AND 0x07]"

lemma length_sna_header: "length (sna_header_bytes snap sp) = 27"
  by (simp add: sna_header_bytes_def)

lemma puts_sna_header: "buf.puts (sna_write_header junk snap sp) (sna_header_bytes snap sp)"
  unfolding sna_write_header_def sna_header_bytes_def by (intro puts_steps)

text \<open>The registers of \<open>t\<close> are those of \<open>s\<close> as far as the format holds them.\<close>

definition sna_same_registers :: "libspectrum_snap \<Rightarrow> libspectrum_snap \<Rightarrow> bool" where
  "sna_same_registers s t \<longleftrightarrow>
     snap_a t = snap_a s \<and> snap_f t = snap_f s \<and> snap_bc t = snap_bc s \<and> snap_de t = snap_de s \<and>
     snap_hl t = snap_hl s \<and> snap_a' t = snap_a' s \<and> snap_f' t = snap_f' s \<and> snap_bc' t = snap_bc' s \<and>
     snap_de' t = snap_de' s \<and> snap_hl' t = snap_hl' s \<and> snap_ix t = snap_ix s \<and> snap_iy t = snap_iy s \<and>
     snap_i t = snap_i s \<and> snap_r t = snap_r s \<and> snap_im t = snap_im s AND 0x03 \<and>
     snap_out_ula t = snap_out_ula s AND 0x07 \<and>
     snap_iff1 t = (if snap_iff2 s \<noteq> 0 then 1 else 0) \<and> snap_iff2 t = (if snap_iff2 s \<noteq> 0 then 1 else 0)"

lemma read_sna_header:
  "\<exists>t. libspectrum_sna_read_header (sna_header_bytes s sp @ rest) t0 = (ERROR_NONE, t) \<and>
     sna_same_registers s t \<and> snap_sp t = sp \<and> snap_machine t = snap_machine t0 \<and> snap_pages t = snap_pages t0"
proof -
  have "sna_header_bytes s sp @ rest = [snap_i s, ucast (snap_hl' s AND 0xff), ucast (drop_bit 8 (snap_hl' s)),
     ucast (snap_de' s AND 0xff), ucast (drop_bit 8 (snap_de' s)), ucast (snap_bc' s AND 0xff), ucast (drop_bit 8 (snap_bc' s)),
     snap_f' s, snap_a' s, ucast (snap_hl s AND 0xff), ucast (drop_bit 8 (snap_hl s)),
     ucast (snap_de s AND 0xff), ucast (drop_bit 8 (snap_de s)), ucast (snap_bc s AND 0xff), ucast (drop_bit 8 (snap_bc s)),
     ucast (snap_iy s AND 0xff), ucast (drop_bit 8 (snap_iy s)), ucast (snap_ix s AND 0xff), ucast (drop_bit 8 (snap_ix s)),
     if snap_iff2 s \<noteq> 0 then 0x04 else 0x00, snap_r s, snap_f s, snap_a s, ucast (sp AND 0xff), ucast (drop_bit 8 sp),
     snap_im s, snap_out_ula s AND 0x07] @ rest"
    by (simp add: sna_header_bytes_def word_bytes_def)
  then show ?thesis
    by (simp add: libspectrum_sna_read_header_def SNA_HEADER_LENGTH_def le16_def paste2_split sna_same_registers_def
        and.assoc)
qed


section \<open>Memory\<close>

lemma sna_read_pages_result:
  assumes "\<And>i. i \<in> set is \<Longrightarrow> length (f i) = 0x4000" "\<And>i. i \<in> set is \<Longrightarrow> i < 16" "length (snap_pages t) = 16"
  shows "\<exists>q. sna_read_pages page is (concat (map f (filter (\<lambda>i. \<not> have_page page i) is))) t =
      Some (ERROR_NONE, t\<lparr>snap_pages := q\<rparr>) \<and> length q = 16 \<and>
      (\<forall>i < 16. q ! i = (if i \<in> set is \<and> \<not> have_page page i then Some (f i) else snap_pages t ! i))"
  using assms
proof (induction "is" arbitrary: t)
  case Nil
  show ?case by (rule exI [of _ "snap_pages t"]) (use Nil in simp)
next
  case (Cons i "is")
  show ?case
  proof (cases "have_page page i")
    case True
    have "\<exists>q. sna_read_pages page is (concat (map f (filter (\<lambda>i. \<not> have_page page i) is))) t =
        Some (ERROR_NONE, t\<lparr>snap_pages := q\<rparr>) \<and> length q = 16 \<and>
        (\<forall>i < 16. q ! i = (if i \<in> set is \<and> \<not> have_page page i then Some (f i) else snap_pages t ! i))"
      by (rule Cons.IH) (use Cons.prems in auto)
    then show ?thesis using True by auto
  next
    case False
    define t' where "t' = t\<lparr>snap_pages := (snap_pages t)[i := Some (f i)]\<rparr>"
    have t: "libspectrum_snap_set_pages t i (Some (f i)) = Some t'"
      using Cons.prems by (simp add: libspectrum_snap_set_pages_def nset_def t'_def)
    have "\<exists>q. sna_read_pages page is (concat (map f (filter (\<lambda>i. \<not> have_page page i) is))) t' =
        Some (ERROR_NONE, t'\<lparr>snap_pages := q\<rparr>) \<and> length q = 16 \<and>
        (\<forall>j < 16. q ! j = (if j \<in> set is \<and> \<not> have_page page j then Some (f j) else snap_pages t' ! j))"
      by (rule Cons.IH) (use Cons.prems in \<open>auto simp: t'_def\<close>)
    then obtain q where q: "sna_read_pages page is (concat (map f (filter (\<lambda>i. \<not> have_page page i) is))) t' =
        Some (ERROR_NONE, t'\<lparr>snap_pages := q\<rparr>)" "length q = 16"
      "\<forall>j < 16. q ! j = (if j \<in> set is \<and> \<not> have_page page j then Some (f j) else snap_pages t' ! j)"
      by blast
    have "length (f i) = 0x4000" "i < 16" using Cons.prems by auto
    with q(1) t False have "sna_read_pages page (i # is) (concat (map f (filter (\<lambda>i. \<not> have_page page i) (i # is)))) t =
        Some (ERROR_NONE, t\<lparr>snap_pages := q\<rparr>)"
      by (simp add: t'_def)
    moreover have "\<forall>j < 16. q ! j = (if j \<in> set (i # is) \<and> \<not> have_page page j then Some (f j) else snap_pages t ! j)"
      using q(3) False \<open>i < 16\<close> Cons.prems(3) by (auto simp: t'_def nth_list_update)
    ultimately show ?thesis using q(2) by blast
  qed
qed

lemma sna_write_pages_puts:
  assumes "pages_ok s" "\<And>i. i \<in> set is \<Longrightarrow> i < 16"
  shows "buf.puts (sna_write_pages junk s page is)
    (concat (map (page_bytes s) (filter (\<lambda>i. \<not> have_page page i) is)))"
  using assms(2)
proof (induction "is")
  case Nil
  have "sna_write_pages junk s page [] = Some" by (rule ext) simp
  then show ?case using buf.puts_nothing by simp
next
  case (Cons i "is")
  have rest: "buf.puts (sna_write_pages junk s page is) (concat (map (page_bytes s) (filter (\<lambda>i. \<not> have_page page i) is)))"
    using Cons by simp
  show ?case
  proof (cases "have_page page i")
    case True
    then have "sna_write_pages junk s page (i # is) = sna_write_pages junk s page is"
      by (intro ext) simp
    with True rest show ?thesis by simp
  next
    case False
    then have "sna_write_pages junk s page (i # is) = (\<lambda>b. sna_write_page junk s i b \<bind> sna_write_pages junk s page is)"
      by (intro ext) simp
    moreover have "buf.puts (sna_write_page junk s i) (page_bytes s i)"
      using Cons.prems by (intro puts_page assms(1)) simp
    ultimately show ?thesis using False rest by (simp add: buf.puts_seq)
  qed
qed

section \<open>Writing and reading back\<close>

definition port_page :: "libspectrum_snap \<Rightarrow> nat" where
  "port_page s = unat (snap_out_128_memoryport s AND 0x07)"

lemma port_page: "port_page s < 8"
proof -
  have "snap_out_128_memoryport s AND 0x07 \<le> 0x07" by (rule word_and_le1)
  then show ?thesis by (simp add: port_page_def word_le_nat_alt)
qed

lemma port_pageE: "port_page s \<in> {0, 1, 2, 3, 4, 5, 6, 7}"
  using port_page [of s] by auto

definition sna_128_bytes :: "libspectrum_snap \<Rightarrow> byte list" where
  "sna_128_bytes s = page_bytes s 5 @ page_bytes s 2 @ page_bytes s (port_page s) @ word_bytes (snap_pc s) @
     [snap_out_128_memoryport s] @ [0] @
     concat (map (page_bytes s) (filter (\<lambda>i. \<not> have_page (port_page s) i) [0..<8]))"

lemma puts_sna_128: "pages_ok s \<Longrightarrow> buf.puts (write_128k_sna junk s) (sna_128_bytes s)"
  unfolding write_128k_sna_def sna_128_bytes_def Let_def port_page_def [symmetric]
  using port_page [of s] by (intro puts_steps puts_page sna_write_pages_puts) auto

lemma length_pages:
  assumes "pages_ok s" "\<And>i. i \<in> set is \<Longrightarrow> i < 16"
  shows "length (concat (map (page_bytes s) is)) = 0x4000 * length is"
  using assms(2) by (induction "is") (simp_all add: length_page_bytes [OF assms(1)])

lemma length_sna_128:
  assumes "pages_ok s"
  shows "length (sna_128_bytes s) \<in> {131076, 147460}"
proof -
  have "length (filter (\<lambda>i. \<not> have_page (port_page s) i) [0..<8]) \<in> {5, 6}"
    using port_pageE [of s] by (auto simp: have_page_def upt_rec)
  then show ?thesis
    using length_pages [OF assms, of "filter (\<lambda>i. \<not> have_page (port_page s) i) [0..<8]"] port_page [of s]
    by (auto simp: sna_128_bytes_def length_page_bytes [OF assms])
qed

lemma sna_new_pages_result:
  assumes "length (snap_pages t) = 16" "\<And>i. i \<in> set is \<Longrightarrow> i < 16"
  shows "\<exists>q. sna_new_pages ram is t = Some (t\<lparr>snap_pages := q\<rparr>) \<and> length q = 16"
  using assms
proof (induction "is" arbitrary: t)
  case Nil
  show ?case by (rule exI [of _ "snap_pages t"]) (use Nil in simp)
next
  case (Cons i "is")
  have "\<exists>q. sna_new_pages ram is (t\<lparr>snap_pages := (snap_pages t)[i := Some ram]\<rparr>) =
      Some (t\<lparr>snap_pages := (snap_pages t)[i := Some ram]\<rparr>\<lparr>snap_pages := q\<rparr>) \<and> length q = 16"
    by (rule Cons.IH) (use Cons.prems in auto)
  then show ?case using Cons.prems by (simp add: libspectrum_snap_set_pages_def nset_def)
qed

lemma read_sna_128:
  assumes s: "pages_ok s" and t: "length (snap_pages t) = 16" "snap_machine t = MACHINE_PENT"
  shows "\<exists>q. libspectrum_sna_read_data junk (sna_128_bytes s) t = Some (ERROR_NONE,
      t\<lparr>snap_pc := snap_pc s, snap_out_128_memoryport := snap_out_128_memoryport s, snap_pages := q\<rparr>) \<and>
    length q = 16 \<and> (\<forall>i < 8. q ! i = Some (page_bytes s i))"
proof -
  let ?page = "port_page s"
  let ?pages = "concat (map (page_bytes s) (filter (\<lambda>i. \<not> have_page ?page i) [0..<8]))"
  let ?buf = "sna_128_bytes s"
  note len = length_page_bytes [OF s] port_page [of s]
  obtain q0 where q0: "sna_new_pages (renew junk [] 0x4000) [0..<8] t = Some (t\<lparr>snap_pages := q0\<rparr>)" "length q0 = 16"
    using sna_new_pages_result [OF t(1), of "[0..<8]"] by auto
  have parts: "copy_out ?buf 0 0x4000 = Some (page_bytes s 5)" "copy_out ?buf 0x4000 0x4000 = Some (page_bytes s 2)"
    "copy_out ?buf 0x8000 0x4000 = Some (page_bytes s ?page)"
    using copy_out_insert [of "[]" 0 "page_bytes s 5" "0x4000"] copy_out_insert [of "page_bytes s 5" "0x4000" "page_bytes s 2" "0x4000"]
      copy_out_insert [of "page_bytes s 5 @ page_bytes s 2" "0x8000" "page_bytes s ?page" "0x4000"] len
    by (simp_all add: sna_128_bytes_def)
  have head: "drop 0xc000 ?buf = word_bytes (snap_pc s) @ [snap_out_128_memoryport s, 0] @ ?pages"
    "drop 0xc004 ?buf = ?pages" "\<not> length ?buf < 0xc000"
    using len by (simp_all add: sna_128_bytes_def)
  define t1 where "t1 = t\<lparr>snap_pc := snap_pc s, snap_out_128_memoryport := snap_out_128_memoryport s,
      snap_pages := q0[5 := Some (page_bytes s 5), 2 := Some (page_bytes s 2)]\<rparr>"
  have header: "libspectrum_sna_read_128_header (drop 0xc000 ?buf)
      (t\<lparr>snap_pages := q0[5 := Some (page_bytes s 5), 2 := Some (page_bytes s 2)]\<rparr>) = (ERROR_NONE, t1)"
    unfolding head(1) t1_def
    by (simp add: libspectrum_sna_read_128_header_def le16_def word_bytes_def paste2_split)
  define t2 where "t2 = t1\<lparr>snap_pages := (snap_pages t1)[?page := Some (page_bytes s ?page)]\<rparr>"
  have t1: "length (snap_pages t1) = 16" "unat (snap_out_128_memoryport t1 AND 0x07) = ?page"
    "snap_pages t1 ! 5 = Some (page_bytes s 5)" "snap_pages t1 ! 2 = Some (page_bytes s 2)"
    using q0(2) by (simp_all add: t1_def port_page_def)
  have "libspectrum_sna_read_data junk ?buf t = libspectrum_sna_read_128_data ?pages t2"
  proof (cases "?page = 5 \<or> ?page = 2")
    case True
    then have same: "snap_pages t1 ! ?page = Some (page_bytes s ?page)" using t1 by auto
    then have "t2 = t1" using t1 len by (simp add: t2_def list_update_same_conv)
    with True t1 show ?thesis
      using same q0 parts head header t len
      by (simp add: libspectrum_sna_read_data_def libspectrum_snap_set_pages_def libspectrum_snap_pages_def nset_def nget_def
          SNA_128_HEADER_LENGTH_def Let_def)
  next
    case False
    then show ?thesis
      using q0 parts head header t len t1
      by (simp add: libspectrum_sna_read_data_def libspectrum_snap_set_pages_def libspectrum_snap_pages_def nset_def nget_def
          SNA_128_HEADER_LENGTH_def Let_def t2_def)
  qed
  also have "\<dots> = sna_read_pages ?page [0..<8] ?pages t2"
    by (simp add: libspectrum_sna_read_128_data_def t2_def t1_def port_page_def)
  finally have eq: "libspectrum_sna_read_data junk ?buf t = sna_read_pages ?page [0..<8] ?pages t2" .
  have "\<exists>q. sna_read_pages ?page [0..<8] ?pages t2 = Some (ERROR_NONE, t2\<lparr>snap_pages := q\<rparr>) \<and> length q = 16 \<and>
      (\<forall>i < 16. q ! i = (if i \<in> set [0..<8] \<and> \<not> have_page ?page i then Some (page_bytes s i) else snap_pages t2 ! i))"
    by (rule sna_read_pages_result) (use len t1 in \<open>auto simp: t2_def\<close>)
  then obtain q where q: "sna_read_pages ?page [0..<8] ?pages t2 = Some (ERROR_NONE, t2\<lparr>snap_pages := q\<rparr>)" "length q = 16"
    "\<forall>i < 16. q ! i = (if i \<in> set [0..<8] \<and> \<not> have_page ?page i then Some (page_bytes s i) else snap_pages t2 ! i)"
    by blast
  have "q ! i = Some (page_bytes s i)" if "i < 8" for i
    using that q(3) t1 port_page [of s] by (auto simp: have_page_def t2_def nth_list_update)
  with q eq show ?thesis by (auto simp: t2_def t1_def)
qed

text \<open>The 48K of memory, with the program counter on the stack.\<close>

definition memory_48k :: "libspectrum_snap \<Rightarrow> byte list" where
  "memory_48k s = page_bytes s 5 @ page_bytes s 2 @ page_bytes s 0"

definition push_pc :: "libspectrum_snap \<Rightarrow> byte list \<Rightarrow> byte list" where
  "push_pc s m = (let p = unat (snap_sp s - 2 - 0x4000) in take p m @ word_bytes (snap_pc s) @ drop (p + 2) m)"

lemma length_memory_48k: "pages_ok s \<Longrightarrow> length (memory_48k s) = 0xc000"
  by (simp add: memory_48k_def length_page_bytes)

lemma stack_position:
  assumes "0x4002 \<le> (sp :: lword)"
  shows "unat (sp - 2 - 0x4000) + 0x4002 = unat sp" "unat (sp - 2 - 0x4000) + 2 \<le> 0xc000"
proof -
  have "0x4002 \<le> unat sp" "unat sp < 0x10000"
    using assms unsigned_less [of sp, where 'a = nat] by (simp_all add: word_le_nat_alt)
  moreover have "unat (sp - 0x4002) = unat sp - 0x4002"
    using assms by (simp add: unat_sub)
  moreover have "sp - 2 - 0x4000 = sp - 0x4002" by simp
  ultimately show "unat (sp - 2 - 0x4000) + 0x4002 = unat sp" "unat (sp - 2 - 0x4000) + 2 \<le> 0xc000"
    by simp_all
qed

lemma length_push_pc:
  "pages_ok s \<Longrightarrow> 0x4002 \<le> snap_sp s \<Longrightarrow> length (push_pc s (memory_48k s)) = 0xc000"
  using stack_position [of "snap_sp s"] by (simp add: push_pc_def length_memory_48k Let_def)

lemma write_48k:
  assumes s: "pages_ok s" "0x4002 \<le> snap_sp s"
  shows "\<exists>m. write_48k_sna junk s sp0 (libspectrum_buffer_alloc junk) = Some (ERROR_NONE, snap_sp s - 2, m) \<and>
    contents m = push_pc s (memory_48k s) \<and> buffer_ok m"
proof -
  let ?b = "libspectrum_buffer_alloc junk"
  let ?p = "unat (snap_sp s - 2 - 0x4000)"
  have "buf.puts (\<lambda>b. sna_write_page junk s 5 b \<bind> (\<lambda>b. sna_write_page junk s 2 b \<bind> sna_write_page junk s 0)) (memory_48k s)"
    unfolding memory_48k_def by (intro puts_steps puts_page s(1)) simp_all
  from buf.puts_result [OF this alloc_has_room [of "0xc000" junk]]
  obtain b where b: "sna_write_page junk s 5 ?b \<bind> (\<lambda>b. sna_write_page junk s 2 b \<bind> sna_write_page junk s 0) = Some b"
    "contents b = memory_48k s" "buffer_ok b"
    by (auto simp: length_memory_48k [OF s(1)] alloc_contents has_room_def)
  have len: "0xc000 = unat (bytes_used b)" "unat (bytes_used b) \<le> length (buffer b)"
    using length_contents [OF b(3)] b(2,3) by (simp_all add: length_memory_48k [OF s(1)] buffer_ok_def word_le_nat_alt)
  note p = stack_position [OF s(2)]
  let ?m = "b\<lparr>buffer := take ?p (buffer b) @ word_bytes (snap_pc s) @ drop (?p + 2) (buffer b)\<rparr>"
  have "write_48k_sna junk s sp0 ?b = Some (ERROR_NONE, snap_sp s - 2, ?m)"
    using b(1) s(2) p len
    by (auto simp: write_48k_sna_def libspectrum_buffer_get_data_size_def libspectrum_buffer_alloc_def
        libspectrum_buffer_reallocate_def write_word_bytes bind_eq_Some_conv)
  moreover have "contents ?m = push_pc s (contents b)"
    using p len by (simp add: contents_def push_pc_def Let_def take_drop min_def)
  moreover have "buffer_ok ?m" using b(3) p len by (simp add: buffer_ok_def)
  ultimately show ?thesis using b(2) by auto
qed

lemma split_48k:
  assumes "length m = 0xc000" "length (snap_pages t) = 16"
    "snap_pages t ! 0 = None" "snap_pages t ! 2 = None" "snap_pages t ! 5 = None"
  shows "libspectrum_split_to_48k_pages t m = Some (ERROR_NONE, t\<lparr>snap_pages := (snap_pages t)
    [5 := Some (take 0x4000 m), 2 := Some (take 0x4000 (drop 0x4000 m)), 0 := Some (drop 0x8000 m)]\<rparr>)"
  using assms list.size(3) [where 'a = "byte list option"]
  by (auto simp: libspectrum_split_to_48k_pages_def libspectrum_snap_pages_def libspectrum_snap_set_pages_def
      nget_def nset_def copy_out_def)

lemma read_sna_48:
  assumes s: "pages_ok s" "0x4002 \<le> snap_sp s"
    and t: "snap_pages t = replicate 16 None" "snap_machine t = MACHINE_48" "snap_sp t = snap_sp s - 2"
  shows "\<exists>q. libspectrum_sna_read_data junk (push_pc s (memory_48k s)) t =
      Some (ERROR_NONE, t\<lparr>snap_pc := snap_pc s, snap_sp := snap_sp s, snap_pages := q\<rparr>) \<and>
    memory_48k (t\<lparr>snap_pages := q\<rparr>) = push_pc s (memory_48k s)"
proof -
  let ?m = "push_pc s (memory_48k s)"
  let ?p = "unat (snap_sp s - 2 - 0x4000)"
  note p = stack_position [OF s(2)] and len = length_push_pc [OF s] length_memory_48k [OF s(1)]
  have sp: "\<not> (snap_sp s - 2 < 0x4000 \<or> snap_sp s - 2 = 0xffff)"
  proof -
    have "unat (snap_sp s - 2) = unat (snap_sp s) - 2"
      using s(2) by (simp add: unat_sub word_le_nat_alt)
    then show ?thesis using s(2) unsigned_less [of "snap_sp s", where 'a = nat]
      by (auto simp: word_le_nat_alt word_less_nat_alt dest: arg_cong [of _ _ unat])
  qed
  have get: "nget ?m ?p = Some (ucast (snap_pc s AND 0xff))" "nget ?m (?p + 1) = Some (ucast (drop_bit 8 (snap_pc s)))"
    using p len by (simp_all add: push_pc_def Let_def nget_app nget_Cons word_bytes_def)
  have pc: "(ucast (ucast (snap_pc s AND 0xff) :: byte) :: lword) + 0x100 * ucast (ucast (drop_bit 8 (snap_pc s)) :: byte) = snap_pc s"
    using paste2_split [of "snap_pc s"] by (simp only: mult.commute)
  define q where "q = (replicate 16 (None :: byte list option))[5 := Some (take 0x4000 ?m),
    2 := Some (take 0x4000 (drop 0x4000 ?m)), 0 := Some (drop 0x8000 ?m)]"
  have split: "libspectrum_split_to_48k_pages (t\<lparr>snap_pc := snap_pc s, snap_sp := snap_sp s\<rparr>) ?m =
      Some (ERROR_NONE, t\<lparr>snap_pc := snap_pc s, snap_sp := snap_sp s, snap_pages := q\<rparr>)"
    using split_48k [OF len(1), of "t\<lparr>snap_pc := snap_pc s, snap_sp := snap_sp s\<rparr>"] t(1) by (simp add: q_def)
  have "libspectrum_sna_read_data junk ?m t =
      Some (ERROR_NONE, t\<lparr>snap_pc := snap_pc s, snap_sp := snap_sp s, snap_pages := q\<rparr>)"
    using len sp t get pc split by (simp add: libspectrum_sna_read_data_def Let_def)
  moreover have "memory_48k (t\<lparr>snap_pages := q\<rparr>) = ?m"
    using len append_take_drop_id [of "0x4000" "drop 0x4000 ?m"]
    by (simp add: memory_48k_def page_bytes_def q_def numeral_eq_Suc [of "num.Bit0 (num.Bit0 num.One)"])
  ultimately show ?thesis by blast
qed

lemma write_sna:
  assumes m: "contents m = d" "buffer_ok m"
    and "length d < 2 ^ 61"
  shows "\<exists>b. sna_write_header junk s sp (libspectrum_buffer_alloc junk) \<bind>
      (\<lambda>b. libspectrum_buffer_write_buffer junk b (Some m)) = Some b \<and> contents b = sna_header_bytes s sp @ d"
  using buf.puts_result [OF buf.puts_seq [OF puts_sna_header [where junk = junk and snap = s and sp = sp]
      puts_buffer [OF m, where junk = junk]] alloc_has_room [of "2 ^ 61 + 27" junk]] assms(3)
  by (auto simp: length_sna_header alloc_contents)

lemma sna_read_file:
  assumes "libspectrum_sna_read_header (sna_header_bytes s sp @ d) (t\<lparr>snap_machine := m\<rparr>) = (ERROR_NONE, t1)"
    and "identify_machine (27 + length d) t = (ERROR_NONE, t\<lparr>snap_machine := m\<rparr>)"
  shows "internal_sna_read junk t (sna_header_bytes s sp @ d) = libspectrum_sna_read_data junk d t1"
  using assms by (simp add: internal_sna_read_def length_sna_header SNA_HEADER_LENGTH_def)

lemma same_registers_updates:
  "sna_same_registers s (t\<lparr>snap_pc := a\<rparr>) = sna_same_registers s t"
  "sna_same_registers s (t\<lparr>snap_sp := b\<rparr>) = sna_same_registers s t"
  "sna_same_registers s (t\<lparr>snap_out_128_memoryport := c\<rparr>) = sna_same_registers s t"
  "sna_same_registers s (t\<lparr>snap_pages := q\<rparr>) = sna_same_registers s t"
  "memory_48k (t\<lparr>snap_pc := a, snap_sp := b, snap_pages := q\<rparr>) = memory_48k (t\<lparr>snap_pages := q\<rparr>)"
  by (simp_all add: sna_same_registers_def memory_48k_def page_bytes_def)

text \<open>
  C11: a snapshot written as .sna is read back with the same registers, stack pointer and program
  counter. The memory of a 48K machine is the same but for the two bytes under the stack
  pointer, where the format keeps the program counter; a 128K machine is read as a Pentagon with
  the same paging and the same eight pages.
\<close>

theorem sna_roundtrip:
  assumes "pages_ok s" "snap_machine s \<noteq> MACHINE_UNKNOWN"
    "snap_machine s \<in> set sna_48k_machines \<Longrightarrow> 0x4002 \<le> snap_sp s" "snap_pages t = replicate 16 None"
  shows "\<exists>flags b t'. libspectrum_sna_write junk (libspectrum_buffer_alloc junk) s = Some (ERROR_NONE, flags, b) \<and>
    internal_sna_read junk t (contents b) = Some (ERROR_NONE, t') \<and>
    sna_same_registers s t' \<and> snap_sp t' = snap_sp s \<and> snap_pc t' = snap_pc s \<and>
    (if snap_machine s \<in> set sna_48k_machines
     then snap_machine t' = MACHINE_48 \<and> memory_48k t' = push_pc s (memory_48k s)
     else snap_machine t' = MACHINE_PENT \<and> snap_out_128_memoryport t' = snap_out_128_memoryport s \<and>
       (\<forall>i < 8. snap_pages t' ! i = Some (page_bytes s i)))"
proof (cases "snap_machine s \<in> set sna_48k_machines")
  case True
  note sp = assms(3) [OF this]
  obtain m where m: "write_48k_sna junk s 0 (libspectrum_buffer_alloc junk) = Some (ERROR_NONE, snap_sp s - 2, m)"
    "contents m = push_pc s (memory_48k s)" "buffer_ok m"
    using write_48k [OF assms(1) sp] by blast
  note len = length_push_pc [OF assms(1) sp]
  obtain b where b: "sna_write_header junk s (snap_sp s - 2) (libspectrum_buffer_alloc junk) \<bind>
      (\<lambda>b. libspectrum_buffer_write_buffer junk b (Some m)) = Some b"
    "contents b = sna_header_bytes s (snap_sp s - 2) @ push_pc s (memory_48k s)"
    using write_sna [OF m(2,3), of junk s "snap_sp s - 2"] len by (auto simp: len)
  obtain t1 where t1: "libspectrum_sna_read_header (contents b) (t\<lparr>snap_machine := MACHINE_48\<rparr>) = (ERROR_NONE, t1)"
    "sna_same_registers s t1" "snap_sp t1 = snap_sp s - 2" "snap_machine t1 = MACHINE_48" "snap_pages t1 = replicate 16 None"
    using read_sna_header [of s "snap_sp s - 2" "push_pc s (memory_48k s)" "t\<lparr>snap_machine := MACHINE_48\<rparr>"] assms(4)
    unfolding b(2) by auto
  obtain q where "libspectrum_sna_read_data junk (push_pc s (memory_48k s)) t1 =
      Some (ERROR_NONE, t1\<lparr>snap_pc := snap_pc s, snap_sp := snap_sp s, snap_pages := q\<rparr>)"
    "memory_48k (t1\<lparr>snap_pages := q\<rparr>) = push_pc s (memory_48k s)"
    using read_sna_48 [OF assms(1) sp t1(5,4,3)] by blast
  moreover have "internal_sna_read junk t (contents b) = libspectrum_sna_read_data junk (push_pc s (memory_48k s)) t1"
    unfolding b(2) by (rule sna_read_file [OF t1(1) [unfolded b(2)]]) (simp add: identify_machine_def len)
  ultimately show ?thesis
    using True m(1) b(1) t1 by (simp add: libspectrum_sna_write_def Let_def same_registers_updates bind_then [OF b(1)])
next
  case False
  obtain m where m: "write_128k_sna junk s (libspectrum_buffer_alloc junk) = Some m" "contents m = sna_128_bytes s" "buffer_ok m"
    using buf.puts_result [OF puts_sna_128 [OF assms(1), where junk = junk] alloc_has_room [of "147460" junk]] length_sna_128 [OF assms(1)]
    by (auto simp: alloc_contents has_room_def)
  note len = length_sna_128 [OF assms(1)]
  then have "length (sna_128_bytes s) < 2 ^ 61" by auto
  then obtain b where b: "sna_write_header junk s (snap_sp s) (libspectrum_buffer_alloc junk) \<bind>
      (\<lambda>b. libspectrum_buffer_write_buffer junk b (Some m)) = Some b"
    "contents b = sna_header_bytes s (snap_sp s) @ sna_128_bytes s"
    using write_sna [OF m(2,3)] by blast
  obtain t1 where t1: "libspectrum_sna_read_header (contents b) (t\<lparr>snap_machine := MACHINE_PENT\<rparr>) = (ERROR_NONE, t1)"
    "sna_same_registers s t1" "snap_sp t1 = snap_sp s" "snap_machine t1 = MACHINE_PENT" "length (snap_pages t1) = 16"
    using read_sna_header [of s "snap_sp s" "sna_128_bytes s" "t\<lparr>snap_machine := MACHINE_PENT\<rparr>"] assms(4)
    unfolding b(2) by auto
  obtain q where "libspectrum_sna_read_data junk (sna_128_bytes s) t1 = Some (ERROR_NONE,
      t1\<lparr>snap_pc := snap_pc s, snap_out_128_memoryport := snap_out_128_memoryport s, snap_pages := q\<rparr>)"
    "\<forall>i < 8. q ! i = Some (page_bytes s i)"
    using read_sna_128 [OF assms(1) t1(5,4)] by blast
  moreover have "internal_sna_read junk t (contents b) = libspectrum_sna_read_data junk (sna_128_bytes s) t1"
    unfolding b(2) by (rule sna_read_file [OF t1(1) [unfolded b(2)]]) (use len in \<open>auto simp: identify_machine_def\<close>)
  ultimately show ?thesis
    using False assms(2) m(1) b(1) t1 by (simp add: libspectrum_sna_write_def Let_def same_registers_updates bind_then [OF b(1)])
qed


theorem sna_roundtrip_witness:
  "\<forall>raw t. let s = (libspectrum_snap_alloc raw)\<lparr>snap_machine := MACHINE_48, snap_sp := 0x8000, snap_pc := 0x1234\<rparr> in
    \<exists>flags b t'. libspectrum_sna_write (\<lambda>i. 0) (libspectrum_buffer_alloc (\<lambda>i. 0)) s = Some (ERROR_NONE, flags, b) \<and>
    internal_sna_read (\<lambda>i. 0) (t\<lparr>snap_pages := replicate 16 None\<rparr>) (contents b) = Some (ERROR_NONE, t') \<and>
    sna_same_registers s t' \<and> snap_sp t' = snap_sp s \<and> snap_pc t' = snap_pc s \<and>
    snap_machine t' = MACHINE_48 \<and> memory_48k t' = push_pc s (memory_48k s)"
  unfolding Let_def
proof (intro allI, goal_cases)
  case (1 raw t)
  show ?case
    using sna_roundtrip [where junk = "\<lambda>i. 0" and t = "t\<lparr>snap_pages := replicate 16 None\<rparr>" and
      s = "(libspectrum_snap_alloc raw)\<lparr>snap_machine := MACHINE_48, snap_sp := 0x8000, snap_pc := 0x1234\<rparr>"]
    by (simp add: pages_ok_def sna_48k_machines_def libspectrum_snap_alloc_def)
qed

end
