(* ===== verification/Z80_Block.thy ===== *)
theory Z80_Block
  imports LS_Buffer
begin

text \<open>
  The run-length compression of memory blocks in .z80 files (\<open>compress_block\<close> and
  \<open>uncompress_block\<close> of \<open>z80.c\<close>). Both write through \<open>libspectrum_make_room\<close> to an array that
  grows; the array with its write position is a \<open>room\<close>, and writing to it is an instance of the
  interface \<open>byte_sink\<close>. The section at the end gives the lists of bytes they work out to.
\<close>

section \<open>Output through \<open>libspectrum_make_room\<close>\<close>

text \<open>
  \<open>libspectrum_make_room( dest, n, &out_ptr, dest_length )\<close> and then \<open>n\<close> stores
  \<open>*out_ptr++ = ...\<close>.
\<close>

definition put_bytes :: "(nat \<Rightarrow> byte) \<Rightarrow> room \<Rightarrow> byte list \<Rightarrow> room option" where
  "put_bytes junk r bs =
     (let r = libspectrum_make_room junk (of_nat (length bs)) r
      in map_option (\<lambda>mem. r\<lparr>dest := mem, ptr := ptr r + length bs\<rparr>)
           (memcpy_at (dest r) (ptr r) bs (length bs)))"

text \<open>The array when the caller passes a \<open>*dest_length\<close> of 0.\<close>

definition new_room :: "(nat \<Rightarrow> byte) \<Rightarrow> size_t \<Rightarrow> room" where
  "new_room junk n = \<lparr>dest = renew junk [] (unat n), ptr = 0, allocated = n\<rparr>"

definition room_bytes :: "room \<Rightarrow> byte list" where
  "room_bytes r = take (ptr r) (dest r)"

definition room_ok :: "room \<Rightarrow> nat \<Rightarrow> bool" where
  "room_ok r n \<longleftrightarrow> length (dest r) = unat (allocated r) \<and> ptr r \<le> length (dest r) \<and>
     ptr r + n < 2 ^ 62 \<and> unat (allocated r) < 2 ^ 63"

interpretation mem: byte_sink "put_bytes junk" room_bytes room_ok
proof unfold_locales
  fix b n and data :: "byte list"
  assume ok: "room_ok b n" and le: "length data \<le> n"
  show "\<exists>b'. put_bytes junk b data = Some b' \<and> room_bytes b' = room_bytes b @ data \<and> room_ok b' (n - length data)"
  proof -
    define r where "r = libspectrum_make_room junk (of_nat (length data)) b"
    have len: "unat (of_nat (length data) :: size_t) = length data" "unat (of_nat (ptr b) :: size_t) = ptr b"
      using ok le by (simp_all add: room_ok_def unat_of_nat)
    have sum: "unat (of_nat (ptr b) + of_nat (length data) :: size_t) = ptr b + length data"
      using ok le by (simp only: of_nat_add [symmetric] unat_of_nat) (simp add: room_ok_def take_bit_nat_eq_self)
    have dbl: "unat (2 * allocated b) = 2 * unat (allocated b)"
      using ok by (simp add: room_ok_def unat_word_ariths)
    have r: "ptr r = ptr b \<and> length (dest r) = unat (allocated r) \<and> take (ptr b) (dest r) = take (ptr b) (dest b) \<and>
        ptr b + length data \<le> length (dest r) \<and> unat (allocated r) < 2 ^ 63"
    proof (cases "allocated b = 0")
      case True
      then show ?thesis using ok le len by (auto simp: room_ok_def r_def libspectrum_make_room_def)
    next
      case False
      show ?thesis
      proof (cases "ptr b + length data \<le> unat (allocated b)")
        case True
        then show ?thesis using ok False sum
          by (simp add: room_ok_def r_def libspectrum_make_room_def Let_def word_le_nat_alt)
      next
        case grow: False
        define a where "a = (if of_nat (ptr b) + of_nat (length data) > 2 * allocated b
            then of_nat (ptr b) + of_nat (length data) else 2 * allocated b)"
        have a: "ptr b + length data \<le> unat a" "unat a < 2 ^ 63" "length (dest b) \<le> unat a"
          using ok le grow sum dbl by (auto simp: a_def room_ok_def word_less_nat_alt)
        have "r = b\<lparr>allocated := a, dest := renew junk (dest b) (unat a)\<rparr>"
          using False grow sum by (simp add: r_def libspectrum_make_room_def Let_def word_le_nat_alt a_def)
        then show ?thesis using a ok by (simp add: room_ok_def take_renew)
      qed
    qed
    then show ?thesis using ok le
      by (auto simp: put_bytes_def Let_def r_def [symmetric] memcpy_at_def room_bytes_def room_ok_def min_def)
  qed
qed

lemma new_room_ok: "n < 2 ^ 62 \<Longrightarrow> unat k < 2 ^ 63 \<Longrightarrow> room_ok (new_room junk k) n"
  by (simp add: new_room_def room_ok_def)

section \<open>Compression\<close>

text \<open>The end of a run of \<open>repeated\<close>, of which \<open>run_length\<close> bytes have been seen.\<close>

fun run_end :: "byte \<Rightarrow> nat \<Rightarrow> byte list \<Rightarrow> nat \<times> byte list" where
  "run_end repeated run_length (x # xs) =
     (if x = repeated \<and> run_length < 0xff then run_end repeated (run_length + 1) xs else (run_length, x # xs))"
| "run_end repeated run_length [] = (run_length, [])"

lemma run_end_shorter: "length (snd (run_end x n xs)) \<le> length xs"
  by (induction x n xs rule: run_end.induct) auto

function compress_loop :: "(nat \<Rightarrow> byte) \<Rightarrow> bool \<Rightarrow> byte list \<Rightarrow> room \<Rightarrow> room option" where
  "compress_loop junk last_char_ed [] out = Some out"
| "compress_loop junk last_char_ed [x] out = put_bytes junk out [x]"
| "compress_loop junk last_char_ed (x # y # rest) out =
     (if x = y \<and> \<not> last_char_ed then
        (case run_end x 2 rest of (run_length, rest) \<Rightarrow>
           (if run_length \<ge> 5 \<or> x = 0xed then put_bytes junk out [0xed, 0xed, of_nat run_length, x]
            else put_bytes junk out (replicate run_length x)) \<bind> compress_loop junk False rest)
      else put_bytes junk out [x] \<bind> compress_loop junk (x = 0xed) (y # rest))"
  by pat_completeness auto
termination
proof (relation "measure (\<lambda>(junk, ed, xs, out). length xs)", goal_cases)
  case (2 junk ed x y rest out p)
  then show ?case using run_end_shorter [of x 2 rest] by (auto dest: arg_cong [of _ _ snd])
qed auto

text \<open>
  \<open>uncompress_block\<close> reads from the memory \<open>mem\<close> that starts at \<open>src\<close>; \<open>n\<close> is
  \<open>src + src_length - in_ptr\<close>. A run marker in the last bytes makes it read past \<open>src_length\<close>.
\<close>

function uncompress_loop :: "(nat \<Rightarrow> byte) \<Rightarrow> nat \<Rightarrow> byte list \<Rightarrow> room \<Rightarrow> room option" where
  "uncompress_loop junk n mem out =
     (if n = 0 then Some out
      else do {
        b \<leftarrow> nget mem 0;
        (if n = 1 then put_bytes junk out [b]
         else do {
           b1 \<leftarrow> nget mem 1;
           (if b = 0xed \<and> b1 = 0xed then do {
              run_length \<leftarrow> nget mem 2;
              repeated \<leftarrow> nget mem 3;
              out \<leftarrow> put_bytes junk out (replicate (unat run_length) repeated);
              uncompress_loop junk (n - 4) (drop 4 mem) out }
            else do {
              out \<leftarrow> put_bytes junk out [b];
              uncompress_loop junk (n - 1) (drop 1 mem) out }) }) })"
  by pat_completeness auto
termination
  by (relation "measure (\<lambda>(junk, n, mem, out). n)") auto

declare uncompress_loop.simps [simp del]

text \<open>
  The two functions as they are called with a \<open>*dest_length\<close> of 0, for which they allocate the
  array; the value is the bytes of the result. A caller with a buffer of its own uses the
  loop.
\<close>

definition compress_block :: "(nat \<Rightarrow> byte) \<Rightarrow> byte list \<Rightarrow> nat \<Rightarrow> byte list option" where
  "compress_block junk src src_length =
     (if length src < src_length then None
      else map_option room_bytes
        (compress_loop junk False (take src_length src) (new_room junk (of_nat src_length div 2))))"

definition uncompress_block :: "(nat \<Rightarrow> byte) \<Rightarrow> byte list \<Rightarrow> nat \<Rightarrow> byte list option" where
  "uncompress_block junk src src_length =
     map_option room_bytes (uncompress_loop junk src_length src (new_room junk (of_nat src_length div 2)))"

section \<open>What they compute\<close>

function z80_compressed :: "bool \<Rightarrow> byte list \<Rightarrow> byte list" where
  "z80_compressed last_char_ed [] = []"
| "z80_compressed last_char_ed [x] = [x]"
| "z80_compressed last_char_ed (x # y # rest) =
     (if x = y \<and> \<not> last_char_ed then
        (case run_end x 2 rest of (run_length, rest) \<Rightarrow>
           (if run_length \<ge> 5 \<or> x = 0xed then [0xed, 0xed, of_nat run_length, x] else replicate run_length x) @
           z80_compressed False rest)
      else x # z80_compressed (x = 0xed) (y # rest))"
  by pat_completeness auto
termination
proof (relation "measure (\<lambda>(ed, xs). length xs)", goal_cases)
  case (2 ed x y rest p)
  then show ?case using run_end_shorter [of x 2 rest] by (auto dest: arg_cong [of _ _ snd])
qed auto

lemma compress_loop_puts: "mem.puts (compress_loop junk ed xs) (z80_compressed ed xs)"
proof (induction ed xs rule: z80_compressed.induct)
  case (1 ed)
  have "compress_loop junk ed [] = Some" by (rule ext) simp
  then show ?case using mem.puts_nothing by simp
next
  case (2 ed x)
  have "compress_loop junk ed [x] = (\<lambda>b. put_bytes junk b [x])" by (rule ext) simp
  then show ?case using mem.puts_emit by simp
next
  case (3 ed x y rest)
  show ?case
  proof (cases "x = y \<and> \<not> ed")
    case True
    obtain m rest' where m: "run_end x 2 rest = (m, rest')" by force
    let ?d = "if m \<ge> 5 \<or> x = 0xed then [0xed, 0xed, of_nat m, x] else replicate m x"
    have "compress_loop junk ed (x # y # rest) = (\<lambda>b. put_bytes junk b ?d \<bind> compress_loop junk False rest')"
      using True m by (intro ext) simp
    moreover have "z80_compressed ed (x # y # rest) = ?d @ z80_compressed False rest'" using True m by simp
    ultimately show ?thesis using 3(1) [OF True m [symmetric]] by (simp only:) (intro mem.puts_seq mem.puts_emit)
  next
    case False
    then have "compress_loop junk ed (x # y # rest) = (\<lambda>b. put_bytes junk b [x] \<bind> compress_loop junk (x = 0xed) (y # rest))"
      by (intro ext) (simp only: compress_loop.simps if_False)
    moreover have "z80_compressed ed (x # y # rest) = [x] @ z80_compressed (x = 0xed) (y # rest)"
      using False by (simp only: z80_compressed.simps if_False append.simps)
    ultimately show ?thesis using 3(2) [OF False] by (simp only:) (intro mem.puts_seq mem.puts_emit)
  qed
qed

text \<open>The bytes that some compressed data stands for, when no run marker is cut off.\<close>

fun z80_uncompressed :: "byte list \<Rightarrow> byte list option" where
  "z80_uncompressed [] = Some []"
| "z80_uncompressed [x] = Some [x]"
| "z80_uncompressed (x # y # rest) =
     (if x = 0xed \<and> y = 0xed then
        (case rest of m # v # rest' \<Rightarrow> map_option (\<lambda>us. replicate (unat m) v @ us) (z80_uncompressed rest')
         | _ \<Rightarrow> None)
      else map_option ((#) x) (z80_uncompressed (y # rest)))"

lemma uncompress_loop_puts:
  assumes "z80_uncompressed cs = Some us"
  shows "mem.puts (uncompress_loop junk (length cs) (cs @ after)) us"
  using assms
proof (induction cs arbitrary: us rule: z80_uncompressed.induct)
  case 1
  have "uncompress_loop junk 0 mem = Some" for mem by (rule ext) (simp add: uncompress_loop.simps)
  then show ?case using 1 mem.puts_nothing by simp
next
  case (2 x)
  have "uncompress_loop junk (length [x]) ([x] @ after) = (\<lambda>b. put_bytes junk b [x])"
    by (rule ext) (simp add: uncompress_loop.simps nget_def)
  moreover have "us = [x]" using 2 by simp
  ultimately show ?case using mem.puts_emit by (simp only:)
next
  case (3 x y rest)
  show ?case
  proof (cases "x = 0xed \<and> y = 0xed")
    case True
    then obtain m v rest' vs where r: "rest = m # v # rest'" "z80_uncompressed rest' = Some vs" "us = replicate (unat m) v @ vs"
      using 3(3) by (auto split: list.splits)
    have "uncompress_loop junk (length (x # y # rest)) ((x # y # rest) @ after) =
        (\<lambda>b. put_bytes junk b (replicate (unat m) v) \<bind> uncompress_loop junk (length rest') (rest' @ after))"
      using True r(1) by (intro ext) (subst uncompress_loop.simps, simp add: nget_def numeral_eq_Suc)
    then show ?thesis using 3(1) [OF True r(1) refl r(2)] r(3) by (simp only:) (intro mem.puts_seq mem.puts_emit)
  next
    case False
    then obtain vs where r: "z80_uncompressed (y # rest) = Some vs" "us = [x] @ vs" using 3(3) by auto
    have "uncompress_loop junk (length (x # y # rest)) ((x # y # rest) @ after) =
        (\<lambda>b. put_bytes junk b [x] \<bind> uncompress_loop junk (length (y # rest)) ((y # rest) @ after))"
      using False by (intro ext) (subst uncompress_loop.simps, auto simp: nget_def)
    then show ?thesis using 3(2) [OF False r(1)] r(2) by (simp only:) (intro mem.puts_seq mem.puts_emit)
  qed
qed

section \<open>Compression is undone\<close>

lemma run_end_spec:
  assumes "run_end x n xs = (m, rest)" "n \<le> 255"
  shows "replicate m x @ rest = replicate n x @ xs" "n \<le> m" "m \<le> 255"
proof -
  have "replicate m x @ rest = replicate n x @ xs \<and> n \<le> m \<and> m \<le> 255"
    using assms
  proof (induction x n xs rule: run_end.induct)
    case (1 x n y ys)
    then show ?case by (auto split: if_splits simp: replicate_app_Cons_same)
  qed auto
  then show "replicate m x @ rest = replicate n x @ xs" "n \<le> m" "m \<le> 255" by auto
qed

lemma uncompressed_copy: "x \<noteq> 0xed \<Longrightarrow> z80_uncompressed (x # cs) = map_option ((#) x) (z80_uncompressed cs)"
  by (cases cs) auto

lemma uncompressed_copies:
  "x \<noteq> 0xed \<Longrightarrow> z80_uncompressed (replicate m x @ cs) = map_option ((@) (replicate m x)) (z80_uncompressed cs)"
  by (cases "z80_uncompressed cs"; induction m) (simp_all add: uncompressed_copy)

text \<open>
  After a single 0xed the compressor never starts a run, so that the marker of a run is not
  taken to start one byte early.
\<close>

lemma uncompressed_compressed:
  "if last_char_ed then (xs = [] \<or> hd xs \<noteq> 0xed) \<longrightarrow> z80_uncompressed (0xed # z80_compressed True xs) = Some (0xed # xs)
   else z80_uncompressed (z80_compressed False xs) = Some xs"
proof (induction last_char_ed xs rule: z80_compressed.induct)
  case (3 ed x y rest)
  show ?case
  proof (cases "x = y \<and> \<not> ed")
    case True
    obtain m rest' where m: "run_end x 2 rest = (m, rest')" by force
    have IH: "z80_uncompressed (z80_compressed False rest') = Some rest'" using 3(1) [OF True m [symmetric]] by simp
    note spec = run_end_spec [OF m, simplified]
    have eq: "x # y # rest = replicate m x @ rest'" using spec True by (simp add: numeral_2_eq_2)
    have "z80_uncompressed (z80_compressed False (x # y # rest)) = Some (replicate m x @ rest')"
      using True m IH spec(3) uncompressed_copies [of x m "z80_compressed False rest'"]
      by (auto simp: unat_of_nat take_bit_nat_eq_self)
    moreover have "\<not> ed" using True by simp
    ultimately show ?thesis using eq by (simp only: if_False)
  next
    case run: False
    have eq: "z80_compressed ed (x # y # rest) = x # z80_compressed (x = 0xed) (y # rest)"
      using run by (simp only: z80_compressed.simps if_False)
    show ?thesis
    proof (cases "x = 0xed")
      case True
      then show ?thesis
      proof (cases ed)
        case False
        then have "y \<noteq> 0xed" using True run by auto
        then show ?thesis using 3(2) [OF run] True False eq by simp
      qed (use True in simp)
    next
      case False
      then have IH: "z80_uncompressed (z80_compressed False (y # rest)) = Some (y # rest)" using 3(2) [OF run] by simp
      have "z80_uncompressed (x # z80_compressed False (y # rest)) = Some (x # y # rest)"
        using IH uncompressed_copy [OF False] by simp
      then show ?thesis using False eq by auto
    qed
  qed
qed auto

lemma length_compressed: "length (z80_compressed ed xs) \<le> 2 * length xs"
proof (induction ed xs rule: z80_compressed.induct)
  case (3 ed x y rest)
  show ?case
  proof (cases "x = y \<and> \<not> ed")
    case True
    obtain m rest' where m: "run_end x 2 rest = (m, rest')" by force
    have "length (replicate m x @ rest') = length (replicate 2 x @ rest)" "2 \<le> m"
      using run_end_spec [OF m] by auto
    then show ?thesis using 3(1) [OF True m [symmetric]] True m by auto
  next
    case False
    then show ?thesis using 3(2) [OF False] by (simp only: z80_compressed.simps if_False) simp
  qed
qed auto

text \<open>The two functions on an array of their own.\<close>

lemma half_room: "n < 2 ^ 61 \<Longrightarrow> k < 2 ^ 62 \<Longrightarrow> room_ok (new_room junk (of_nat n div 2)) k"
  by (rule new_room_ok) (simp_all add: unat_div_distrib unat_of_nat take_bit_nat_eq_self)

lemma compress_block_result:
  assumes "length xs < 2 ^ 60"
  shows "compress_block junk (xs @ after) (length xs) = Some (z80_compressed False xs)"
proof -
  have room: "room_ok (new_room junk (of_nat (length xs) div 2)) (2 * length xs)"
    using assms by (intro half_room) auto
  show ?thesis
    using mem.puts_result [OF compress_loop_puts [of junk False xs] room length_compressed]
    by (auto simp: compress_block_def room_bytes_def new_room_def)
qed

lemma uncompress_block_result:
  assumes "z80_uncompressed cs = Some us" "length cs < 2 ^ 60" "length us < 2 ^ 60"
  shows "uncompress_block junk (cs @ after) (length cs) = Some us"
proof -
  have room: "room_ok (new_room junk (of_nat (length cs) div 2)) (length us)"
    using assms by (intro half_room) auto
  show ?thesis
    using mem.puts_result [OF uncompress_loop_puts [OF assms(1), of junk after] room order_refl]
    by (auto simp: uncompress_block_def room_bytes_def new_room_def)
qed

text \<open>
  C16: whatever a block of memory holds, what \<open>compress_block\<close> makes of it is expanded by
  \<open>uncompress_block\<close> to the same bytes, and the latter reads nothing behind the compressed data.
\<close>

theorem compress_roundtrip:
  assumes "length xs < 2 ^ 59"
  shows "\<exists>cs. compress_block junk (xs @ rest) (length xs) = Some cs \<and> length cs \<le> 2 * length xs \<and>
    uncompress_block junk' (cs @ after) (length cs) = Some xs"
proof -
  have "z80_uncompressed (z80_compressed False xs) = Some xs" using uncompressed_compressed [of False xs] by simp
  moreover have "length (z80_compressed False xs) < 2 ^ 60" using assms length_compressed [of False xs] by simp
  ultimately show ?thesis
    using compress_block_result [of xs junk rest] uncompress_block_result [of "z80_compressed False xs" xs junk' after]
      assms length_compressed [of False xs] by simp
qed

theorem compress_roundtrip_witness:
  "let xs = [0xed, 7, 7, 7, 7, 7, 7, 0xed, 0xed, 1] in \<exists>cs. compress_block (\<lambda>i. 0) (xs @ []) (length xs) = Some cs \<and>
    length cs \<le> 2 * length xs \<and> uncompress_block (\<lambda>i. 0) (cs @ [9]) (length cs) = Some xs"
  unfolding Let_def by (rule compress_roundtrip) simp

end
