(* ===== verification/Z80_Read.thy ===== *)
theory Z80_Read
  imports Z80_Block Snapshot Timings
begin

text \<open>
  Reading .z80 snapshots (\<open>z80.c\<close>): the headers of the three versions, the memory blocks and the
  level data of .slt files. The file is a list of bytes; the pointers \<open>data\<close> and \<open>*next_block\<close>
  are the rest of the file from there on.
\<close>

section \<open>Constants\<close>

definition Z80_HEADER_LENGTH :: nat where "Z80_HEADER_LENGTH = 30"
definition Z80_V2_LENGTH :: nat where "Z80_V2_LENGTH = 23"
definition Z80_V3_LENGTH :: nat where "Z80_V3_LENGTH = 54"
definition Z80_V3X_LENGTH :: nat where "Z80_V3X_LENGTH = 55"

abbreviation if2_left_map_l :: lword where "if2_left_map_l \<equiv> 0x0f03"
abbreviation if2_left_map_r :: lword where "if2_left_map_r \<equiv> 0x0803"
abbreviation if2_left_map_d :: lword where "if2_left_map_d \<equiv> 0x0403"
abbreviation if2_left_map_u :: lword where "if2_left_map_u \<equiv> 0x0203"
abbreviation if2_left_map_f :: lword where "if2_left_map_f \<equiv> 0x0103"

definition slt_signature :: "byte list" where "slt_signature = [0, 0, 0, 0x53, 0x4c, 0x54]"

definition fuller_box_flags :: byte where "fuller_box_flags = 0x44"
definition melodik_flags :: byte where "melodik_flags = 0x04"

section \<open>Machines and joysticks\<close>

definition get_machine_type_v2 :: "libspectrum_snap \<Rightarrow> byte \<Rightarrow> libspectrum_error \<times> libspectrum_snap" where
  "get_machine_type_v2 snap type =
     (if type = 0 \<or> type = 2 then (ERROR_NONE, snap\<lparr>snap_machine := MACHINE_48\<rparr>)
      else if type = 1 then (ERROR_NONE, snap\<lparr>snap_interface1_active := 1, snap_machine := MACHINE_48\<rparr>)
      else if type = 3 then (ERROR_NONE, snap\<lparr>snap_machine := MACHINE_128\<rparr>)
      else if type = 4 then (ERROR_NONE, snap\<lparr>snap_interface1_active := 1, snap_machine := MACHINE_128\<rparr>)
      else (ERROR_UNKNOWN, snap))"

definition get_mgt_type :: "libspectrum_snap \<Rightarrow> byte \<Rightarrow> libspectrum_error \<times> libspectrum_snap" where
  "get_mgt_type snap type =
     (if type = 0 \<or> type = 1 then (ERROR_NONE, snap)
      else if type = 16 then (ERROR_NONE, snap\<lparr>snap_plusd_active := 1\<rparr>)
      else (ERROR_UNKNOWN, snap))"

definition get_machine_type_v3 :: "libspectrum_snap \<Rightarrow> byte \<Rightarrow> byte \<Rightarrow> libspectrum_error \<times> libspectrum_snap" where
  "get_machine_type_v3 snap type mgt_type =
     (if type = 0 \<or> type = 2 then (ERROR_NONE, snap\<lparr>snap_machine := MACHINE_48\<rparr>)
      else if type = 1 then (ERROR_NONE, snap\<lparr>snap_interface1_active := 1, snap_machine := MACHINE_48\<rparr>)
      else if type = 3 then get_mgt_type (snap\<lparr>snap_machine := MACHINE_48\<rparr>) mgt_type
      else if type = 4 then (ERROR_NONE, snap\<lparr>snap_machine := MACHINE_128\<rparr>)
      else if type = 5 then (ERROR_NONE, snap\<lparr>snap_interface1_active := 1, snap_machine := MACHINE_128\<rparr>)
      else if type = 6 then get_mgt_type (snap\<lparr>snap_machine := MACHINE_128\<rparr>) mgt_type
      else (ERROR_UNKNOWN, snap))"

definition get_machine_type_extension :: "libspectrum_snap \<Rightarrow> byte \<Rightarrow> libspectrum_error \<times> libspectrum_snap" where
  "get_machine_type_extension snap type =
     (if type = 7 \<or> type = 8 then (ERROR_NONE, snap\<lparr>snap_machine := MACHINE_PLUS3\<rparr>)
      else if type = 9 then (ERROR_NONE, snap\<lparr>snap_machine := MACHINE_PENT\<rparr>)
      else if type = 10 then (ERROR_NONE, snap\<lparr>snap_machine := MACHINE_SCORP\<rparr>)
      else if type = 12 then (ERROR_NONE, snap\<lparr>snap_machine := MACHINE_PLUS2\<rparr>)
      else if type = 13 then (ERROR_NONE, snap\<lparr>snap_machine := MACHINE_PLUS2A\<rparr>)
      else if type = 14 then (ERROR_NONE, snap\<lparr>snap_machine := MACHINE_TC2048\<rparr>)
      else if type = 15 then (ERROR_NONE, snap\<lparr>snap_machine := MACHINE_TC2068\<rparr>)
      else if type = 128 then (ERROR_NONE, snap\<lparr>snap_machine := MACHINE_TS2068\<rparr>)
      else (ERROR_UNKNOWN, snap))"

definition get_machine_type :: "libspectrum_snap \<Rightarrow> byte \<Rightarrow> byte \<Rightarrow> nat \<Rightarrow> libspectrum_error \<times> libspectrum_snap" where
  "get_machine_type snap type mgt_type version =
     (if type < 7 then
        (if version = 2 then get_machine_type_v2 snap type
         else if version = 3 then get_machine_type_v3 snap type mgt_type
         else (ERROR_LOGIC, snap))
      else get_machine_type_extension snap type)"

text \<open>The joystick arrays have seven entries; only the first is set here.\<close>

definition set_joystick :: "libspectrum_snap \<Rightarrow> libspectrum_joystick \<Rightarrow> libspectrum_snap" where
  "set_joystick snap j = snap\<lparr>snap_joystick_list := (snap_joystick_list snap)[0 := j]\<rparr>"

definition get_joystick_type_v1 :: "libspectrum_snap \<Rightarrow> byte \<Rightarrow> libspectrum_error \<times> libspectrum_snap" where
  "get_joystick_type_v1 snap type =
     (if type = 0 then (ERROR_NONE, set_joystick snap JOYSTICK_CURSOR)
      else if type = 1 then (ERROR_NONE, set_joystick snap JOYSTICK_KEMPSTON)
      else if type = 2 then (ERROR_NONE, set_joystick snap JOYSTICK_SINCLAIR_2)
      else if type = 3 then (ERROR_NONE, set_joystick snap JOYSTICK_SINCLAIR_1)
      else (ERROR_UNKNOWN, snap))"

text \<open>\<open>base\<close> is the index of \<open>custom_keys_base\<close> in the file.\<close>

definition get_joystick_type_v3 ::
    "libspectrum_snap \<Rightarrow> byte list \<Rightarrow> nat \<Rightarrow> byte \<Rightarrow> libspectrum_error \<times> libspectrum_snap" where
  "get_joystick_type_v3 snap buf base type =
     (if type = 0 then (ERROR_NONE, set_joystick snap JOYSTICK_CURSOR)
      else if type = 1 then (ERROR_NONE, set_joystick snap JOYSTICK_KEMPSTON)
      else if type = 2 then
        (if le16 buf base = if2_left_map_l \<and> le16 buf (base + 2) = if2_left_map_r \<and>
            le16 buf (base + 4) = if2_left_map_d \<and> le16 buf (base + 6) = if2_left_map_u \<and>
            le16 buf (base + 8) = if2_left_map_f
         then (ERROR_NONE, set_joystick snap JOYSTICK_SINCLAIR_2)
         else (ERROR_NONE, snap\<lparr>snap_joystick_active_count := 0,
                snap_joystick_inputs := (snap_joystick_inputs snap)[0 := 0]\<rparr>))
      else if type = 3 then (ERROR_NONE, set_joystick snap JOYSTICK_SINCLAIR_1)
      else (ERROR_UNKNOWN, snap))"

definition get_joystick_type ::
    "libspectrum_snap \<Rightarrow> byte list \<Rightarrow> nat \<Rightarrow> byte \<Rightarrow> nat \<Rightarrow> libspectrum_error \<times> libspectrum_snap" where
  "get_joystick_type snap buf base type version =
     (let snap = snap\<lparr>snap_joystick_active_count := 1,
            snap_joystick_inputs := (snap_joystick_inputs snap)
              [0 := JOYSTICK_INPUT_KEYBOARD OR JOYSTICK_INPUT_JOYSTICK_1]\<rparr>
      in if version = 1 \<or> version = 2 then get_joystick_type_v1 snap type
         else if version = 3 then get_joystick_type_v3 snap buf base type
         else (ERROR_LOGIC, snap))"

section \<open>The header\<close>

definition read_base_header :: "byte list \<Rightarrow> libspectrum_snap \<Rightarrow> libspectrum_snap" where
  "read_base_header header snap =
     snap\<lparr>snap_a := header ! 0, snap_f := header ! 1, snap_bc := le16 header 2, snap_de := le16 header 13,
       snap_hl := le16 header 4, snap_a' := header ! 21, snap_f' := header ! 22,
       snap_bc' := le16 header 15, snap_de' := le16 header 17, snap_hl' := le16 header 19,
       snap_ix := le16 header 25, snap_iy := le16 header 23, snap_i := header ! 10,
       snap_r := (header ! 11 AND 0x7f) + push_bit 7 (header ! 12 AND 0x01),
       snap_pc := le16 header 6, snap_sp := le16 header 8,
       snap_iff1 := (if header ! 27 \<noteq> 0 then 1 else 0), snap_iff2 := (if header ! 28 \<noteq> 0 then 1 else 0),
       snap_im := header ! 29 AND 0x03, snap_issue2 := uint (header ! 29 AND 0x04),
       snap_out_ula := drop_bit 1 (header ! 12 AND 0x0e)\<rparr>"

text \<open>The position in the frame that bytes 55 to 57 of a version 3 header give.\<close>

definition read_tstates :: "byte list \<Rightarrow> libspectrum_snap \<Rightarrow> libspectrum_snap" where
  "read_tstates buf snap =
     (let quarter_tstates = libspectrum_timings_tstates_per_frame (snap_machine snap) div 4;
          tstates = (((ucast (buf ! 57) + 1) mod 4) + 1) * quarter_tstates -
            (ucast (buf ! 55) + ucast (buf ! 56) * 0x100 + 1);
          snap = snap\<lparr>snap_tstates := tstates\<rparr>
      in if snap_tstates snap \<ge> quarter_tstates * 4 then snap\<lparr>snap_tstates := 0\<rparr> else snap)"

definition modify_hardware :: "libspectrum_snap \<Rightarrow> libspectrum_snap" where
  "modify_hardware snap =
     (if snap_machine snap = MACHINE_48 then snap\<lparr>snap_machine := MACHINE_16\<rparr>
      else if snap_machine snap = MACHINE_128 then snap\<lparr>snap_machine := MACHINE_PLUS2\<rparr>
      else if snap_machine snap = MACHINE_PLUS3 then snap\<lparr>snap_machine := MACHINE_PLUS2A\<rparr>
      else snap)"

abbreviation has_capability :: "libspectrum_snap \<Rightarrow> dword \<Rightarrow> bool" where
  "has_capability snap c \<equiv> libspectrum_machine_capabilities (snap_machine snap) AND c \<noteq> 0"

text \<open>
  The flags and ports of the extended header, byte \<open>k\<close> of which is byte \<open>32 + k\<close> of the file. The
  last port is only there in the longest form of the header.
\<close>

definition read_hardware_flag :: "byte \<Rightarrow> libspectrum_snap \<Rightarrow> libspectrum_snap" where
  "read_hardware_flag flag snap =
     (let snap = (if flag AND 0x80 \<noteq> 0 then modify_hardware snap else snap)
      in if flag AND fuller_box_flags = fuller_box_flags then snap\<lparr>snap_fuller_box_active := 1\<rparr>
         else if flag AND melodik_flags = melodik_flags then snap\<lparr>snap_melodik_active := 1\<rparr>
         else snap)"

definition read_memory_port :: "byte \<Rightarrow> libspectrum_snap \<Rightarrow> libspectrum_snap" where
  "read_memory_port b snap =
     (if has_capability snap MACHINE_CAPABILITY_128_MEMORY then snap\<lparr>snap_out_128_memoryport := b\<rparr>
      else if has_capability snap MACHINE_CAPABILITY_TIMEX_MEMORY then snap\<lparr>snap_out_scld_hsr := b\<rparr>
      else snap)"

definition read_video_port :: "byte \<Rightarrow> libspectrum_snap \<Rightarrow> libspectrum_snap" where
  "read_video_port b snap =
     (if has_capability snap MACHINE_CAPABILITY_TIMEX_VIDEO then snap\<lparr>snap_out_scld_dec := b\<rparr> else snap)"

definition read_ay :: "byte \<Rightarrow> byte list \<Rightarrow> libspectrum_snap \<Rightarrow> libspectrum_snap" where
  "read_ay b registers snap =
     (if snap_fuller_box_active snap \<noteq> 0 \<or> snap_melodik_active snap \<noteq> 0 \<or> has_capability snap MACHINE_CAPABILITY_AY
      then snap\<lparr>snap_out_ay_registerport := b, snap_ay_registers := registers\<rparr> else snap)"

definition has_plus3_port :: "libspectrum_snap \<Rightarrow> bool" where
  "has_plus3_port snap \<longleftrightarrow>
     has_capability snap MACHINE_CAPABILITY_PLUS3_MEMORY \<or> has_capability snap MACHINE_CAPABILITY_SCORP_MEMORY"

definition read_extended_ports :: "byte list \<Rightarrow> nat \<Rightarrow> libspectrum_snap \<Rightarrow> libspectrum_snap option" where
  "read_extended_ports buf extra_length snap =
     (let snap = read_hardware_flag (buf ! 37) snap;
          snap = read_memory_port (buf ! 35) snap;
          snap = read_video_port (buf ! 36) snap;
          snap = read_ay (buf ! 38) (map (\<lambda>i. buf ! (39 + i)) [0..<16]) snap
      in if extra_length = Z80_V3X_LENGTH \<and> has_plus3_port snap
         then map_option (\<lambda>b. snap\<lparr>snap_out_plus3_memoryport := b\<rparr>) (nget buf 86)
         else Some snap)"

text \<open>
  The state of the result is the snapshot with \<open>*data\<close> (as an index), \<open>*version\<close> and
  \<open>*compressed\<close>; they have no value when there is an error. Every byte up to \<open>extra_header[51]\<close>
  is read without a check of the length of the file.
\<close>

definition z80_read_header ::
    "byte list \<Rightarrow> libspectrum_snap \<Rightarrow> (libspectrum_snap \<times> nat \<times> nat \<times> bool) c_result" where
  "z80_read_header buf snap =
     (if length buf < Z80_HEADER_LENGTH then None
      else
        let snap = read_base_header buf snap
        in if snap_pc snap = 0 then do {
             lo \<leftarrow> nget buf 30;
             hi \<leftarrow> nget buf 31;
             let extra_length = unat lo + unat hi * 0x100;
             (if extra_length \<noteq> Z80_V2_LENGTH \<and> extra_length \<noteq> Z80_V3_LENGTH \<and> extra_length \<noteq> Z80_V3X_LENGTH
              then Some (ERROR_UNKNOWN, snap, 0, 0, True)
              else if length buf < 84 then None
              else
                let version = (if extra_length = Z80_V2_LENGTH then 2 else 3);
                    (e, snap) = get_joystick_type snap buf 63 (drop_bit 6 (buf ! 29 AND 0xc0)) version
                in if e \<noteq> ERROR_NONE then Some (e, snap, 0, 0, True)
                   else
                     let snap = snap\<lparr>snap_pc := le16 buf 32\<rparr>;
                         (e, snap) = get_machine_type snap (buf ! 34) (buf ! 83) version
                     in if e \<noteq> ERROR_NONE then Some (e, snap, 0, 0, True)
                        else do {
                          let snap = (if buf ! 59 \<noteq> 0 \<and> snap_plusd_active snap \<noteq> 0
                            then snap\<lparr>snap_plusd_paged := 1\<rparr> else snap);
                          let snap = (if version \<ge> 3 then read_tstates buf snap else snap);
                          snap \<leftarrow> read_extended_ports buf extra_length snap;
                          Some (ERROR_NONE, snap, 32 + extra_length, version, True) }) }
           else
             let snap = snap\<lparr>snap_machine := MACHINE_48, snap_joystick_active_count := 1\<rparr>;
                 (e, snap) = get_joystick_type_v1 snap (drop_bit 6 (buf ! 29 AND 0xc0))
             in if e \<noteq> ERROR_NONE then Some (e, snap, 0, 0, True)
                else Some (ERROR_NONE, snap, 30, 1, buf ! 12 AND 0x20 \<noteq> 0))"

section \<open>Memory blocks\<close>

text \<open>
  The search for the end marker 00 ED ED 00: the value is the number of bytes up to and
  including the marker.
\<close>

fun find_end_marker :: "nat \<Rightarrow> byte list \<Rightarrow> nat option" where
  "find_end_marker state xs =
     (if state = 4 then Some 0
      else case xs of [] \<Rightarrow> None
      | x # xs \<Rightarrow>
          let state' =
            (if state = 0 then (if x = 0x00 then 1 else 0)
             else if state = 1 then (if x = 0x00 then 1 else if x = 0xed then 2 else 0)
             else if state = 2 then (if x = 0x00 then 1 else if x = 0xed then 3 else 0)
             else (if x = 0x00 then 4 else 0))
          in map_option Suc (find_end_marker state' xs))"

declare find_end_marker.simps [simp del]

text \<open>The value is the error, the 48K of memory and the rest of the file.\<close>

definition read_v1_block ::
    "(nat \<Rightarrow> byte) \<Rightarrow> byte list \<Rightarrow> bool \<Rightarrow> (byte list \<times> byte list) c_result" where
  "read_v1_block junk buf is_compressed =
     (if is_compressed then
        (case find_end_marker 0 buf of
           None \<Rightarrow> Some (ERROR_CORRUPT, [], buf)
         | Some n \<Rightarrow> do {
             uncompressed \<leftarrow> uncompress_block junk buf (n - 4);
             (if length uncompressed \<noteq> 0xc000 then Some (ERROR_CORRUPT, [], buf)
              else Some (ERROR_NONE, uncompressed, drop n buf)) })
      else if length buf < 0xc000 then Some (ERROR_CORRUPT, [], buf)
      else Some (ERROR_NONE, take 0xc000 buf, drop 0xc000 buf))"

text \<open>The value is the error, the page number, its bytes and the rest of the file.\<close>

definition read_v2_block ::
    "(nat \<Rightarrow> byte) \<Rightarrow> byte list \<Rightarrow> (nat \<times> byte list \<times> byte list) c_result" where
  "read_v2_block junk buf = do {
     lo \<leftarrow> nget buf 0;
     hi \<leftarrow> nget buf 1;
     page \<leftarrow> nget buf 2;
     let length2 = unat lo + unat hi * 0x100;
     (if length2 = 0 \<and> page = 0 \<and> 8 < length buf \<and> take 6 buf = slt_signature
      then Some (ERROR_SLT, unat page, [], drop 6 buf)
      else if length2 \<noteq> 0xffff then
        (if length buf < 3 + length2 then Some (ERROR_CORRUPT, unat page, [], buf)
         else do {
           block \<leftarrow> uncompress_block junk (drop 3 buf) length2;
           Some (ERROR_NONE, unat page, block, drop (3 + length2) buf) })
      else if length buf < 3 + 0x4000 then Some (ERROR_CORRUPT, unat page, [], buf)
      else Some (ERROR_NONE, unat page, take 0x4000 (drop 3 buf), drop (3 + 0x4000) buf)) }"

text \<open>Where a page that is not in a ROM or peripheral goes; \<open>None\<close> if it is thrown away.\<close>

definition ram_page :: "libspectrum_snap \<Rightarrow> nat \<Rightarrow> nat option" where
  "ram_page snap page =
     (if page < 3 then None
      else if page = 11 \<and> \<not> has_capability snap MACHINE_CAPABILITY_SCORP_MEMORY then None
      else if \<not> has_capability snap MACHINE_CAPABILITY_128_MEMORY then
        (if page = 3 then None else if page = 4 then Some (5 - 3) else if page = 5 then Some (3 - 3)
         else Some (page - 3))
      else Some (page - 3))"

definition read_block ::
    "(nat \<Rightarrow> byte) \<Rightarrow> byte list \<Rightarrow> libspectrum_snap \<Rightarrow> nat \<Rightarrow> bool \<Rightarrow> (libspectrum_snap \<times> byte list) c_result" where
  "read_block junk buf snap version compressed =
     (if version = 1 then do {
        (error, uncompressed, next) \<leftarrow> read_v1_block junk buf compressed;
        (if error \<noteq> ERROR_NONE then Some (error, snap, next)
         else do {
           (_, snap) \<leftarrow> libspectrum_split_to_48k_pages snap uncompressed;
           Some (ERROR_NONE, snap, next) }) }
      else do {
        (error, page, uncompressed, next) \<leftarrow> read_v2_block junk buf;
        (if error \<noteq> ERROR_NONE then Some (error, snap, next)
         else if page = 0 \<or> page > 18 then Some (ERROR_UNKNOWN, snap, next)
         else if page = 1 \<and> snap_interface1_active snap \<noteq> 0 then do {
           chunk \<leftarrow> copy_out uncompressed 0 0x4000;
           Some (ERROR_NONE, snap\<lparr>snap_interface1_custom_rom := 1, snap_interface1_rom := Some chunk,
             snap_interface1_rom_length := 0x4000\<rparr>, next) }
         else if page = 1 \<and> snap_plusd_active snap \<noteq> 0 then do {
           rom \<leftarrow> copy_out uncompressed 0 0x2000;
           ram \<leftarrow> copy_out uncompressed 0x2000 0x2000;
           Some (ERROR_NONE, snap\<lparr>snap_plusd_rom := Some rom, snap_plusd_ram := Some ram\<rparr>, next) }
         else case ram_page snap page of
             None \<Rightarrow> Some (ERROR_NONE, snap, next)
           | Some page \<Rightarrow> do {
               old \<leftarrow> libspectrum_snap_pages snap page;
               (if old = None then do {
                  snap \<leftarrow> libspectrum_snap_set_pages snap page (Some uncompressed);
                  Some (ERROR_NONE, snap, next) }
                else Some (ERROR_CORRUPT, snap, next)) }) })"

section \<open>Level data\<close>

text \<open>
  The arrays and counters of \<open>read_slt\<close>: the lengths and offsets of the levels, the length and
  offset of the loading screen and \<open>whence\<close>. The length of an entry is an \<open>int\<close>; it is stored in
  a \<open>size_t\<close>.
\<close>

record slt_directory =
  level_length :: "nat \<Rightarrow> size_t"
  level_offset :: "nat \<Rightarrow> size_t"
  screen_length :: size_t
  screen_offset :: size_t
  slt_whence :: size_t

definition slt_entry ::
    "nat \<Rightarrow> nat \<Rightarrow> size_t \<Rightarrow> slt_directory \<Rightarrow> libspectrum_snap \<Rightarrow> libspectrum_error \<times> slt_directory \<times> libspectrum_snap" where
  "slt_entry type level len d snap =
     (if type = 1 then
        (if level \<ge> 0x100 then (ERROR_CORRUPT, d, snap)
         else if level_length d level \<noteq> 0 then (ERROR_CORRUPT, d, snap)
         else (ERROR_NONE, d\<lparr>level_offset := (level_offset d)(level := slt_whence d),
                 level_length := (level_length d)(level := len), slt_whence := slt_whence d + len\<rparr>, snap))
      else if type = 3 then
        (if screen_length d \<noteq> 0 then (ERROR_CORRUPT, d, snap)
         else (ERROR_NONE, d\<lparr>screen_length := len, screen_offset := slt_whence d, slt_whence := slt_whence d + len\<rparr>,
                 snap\<lparr>snap_slt_screen_level := int level\<rparr>))
      else (ERROR_UNKNOWN, d, snap))"

function read_slt_directory ::
    "byte list \<Rightarrow> slt_directory \<Rightarrow> libspectrum_snap \<Rightarrow> (byte list \<times> slt_directory \<times> libspectrum_snap) c_result" where
  "read_slt_directory next d snap =
     (if length next < 8 then Some (ERROR_CORRUPT, next, d, snap)
      else do {
        let type = unat (le16 next 0);
        let level = unat (le16 next 2);
        (len, _) \<leftarrow> libspectrum_read_dword next 4;
        (if type = 0 then Some (ERROR_NONE, drop 8 next, d, snap)
         else case slt_entry type level (scast len) d snap of
             (e, d, snap) \<Rightarrow>
               if e \<noteq> ERROR_NONE then Some (e, next, d, snap)
               else read_slt_directory (drop 8 next) d snap) })"
  by pat_completeness auto
termination
  by (relation "measure (\<lambda>(next, d, snap). length next)") auto

declare read_slt_directory.simps [simp del]

text \<open>
  \<open>next + off + len > end\<close>. The sum of two sizes that are no length of any object leaves the
  address space.
\<close>

definition runs_past :: "byte list \<Rightarrow> size_t \<Rightarrow> size_t \<Rightarrow> bool option" where
  "runs_past next off len =
     (if unat off < 2 ^ 62 \<and> unat len < 2 ^ 62 then Some (length next < unat off + unat len) else None)"

fun read_slt_levels ::
    "(nat \<Rightarrow> byte) \<Rightarrow> byte list \<Rightarrow> slt_directory \<Rightarrow> nat list \<Rightarrow> libspectrum_snap \<Rightarrow> libspectrum_snap c_result" where
  "read_slt_levels junk next d [] snap = Some (ERROR_NONE, snap)"
| "read_slt_levels junk next d (i # is) snap =
     (if level_length d i \<noteq> 0 then do {
        past \<leftarrow> runs_past next (level_offset d i) (level_length d i);
        (if past then Some (ERROR_CORRUPT, snap)
         else do {
           buf \<leftarrow> uncompress_block junk (drop (unat (level_offset d i)) next) (unat (level_length d i));
           slt \<leftarrow> nset (snap_slt snap) i (Some buf);
           lens \<leftarrow> nset (snap_slt_length snap) i (of_nat (length buf));
           read_slt_levels junk next d is (snap\<lparr>snap_slt := slt, snap_slt_length := lens\<rparr>) }) }
      else read_slt_levels junk next d is snap)"

text \<open>
  The buffer of the loading screen has 6912 bytes, but \<open>uncompress_block\<close> is told that it has
  \<open>screen_length\<close>, the length of the compressed data, and nothing checks that this data is in the
  file.
\<close>

definition read_slt_screen ::
    "(nat \<Rightarrow> byte) \<Rightarrow> byte list \<Rightarrow> slt_directory \<Rightarrow> libspectrum_snap \<Rightarrow> libspectrum_snap c_result" where
  "read_slt_screen junk next d snap =
     (if screen_length d = 0 then Some (ERROR_NONE, snap)
      else
        let buf = renew junk [] 6912
        in if screen_length d = 6912 then do {
             mem \<leftarrow> copy_out next (unat (screen_offset d)) 6912;
             Some (ERROR_NONE, snap\<lparr>snap_slt_screen := Some mem\<rparr>) }
           else do {
             out \<leftarrow> uncompress_loop junk (unat (screen_length d)) (drop (unat (screen_offset d)) next)
               \<lparr>dest = buf, ptr = 0, allocated = screen_length d\<rparr>;
             (if ptr out \<noteq> 6912 then Some (ERROR_CORRUPT, snap)
              else Some (ERROR_NONE, snap\<lparr>snap_slt_screen := Some (dest out)\<rparr>)) })"

text \<open>The state of the result holds whether the data ends the file.\<close>

definition read_slt :: "(nat \<Rightarrow> byte) \<Rightarrow> libspectrum_snap \<Rightarrow> byte list \<Rightarrow> (libspectrum_snap \<times> bool) c_result" where
  "read_slt junk snap next = do {
     (e, next, d, snap) \<leftarrow> read_slt_directory next \<lparr>level_length = (\<lambda>i. 0), level_offset = (\<lambda>i. 0),
       screen_length = 0, screen_offset = 0, slt_whence = 0\<rparr> snap;
     (if e \<noteq> ERROR_NONE then Some (e, snap, False)
      else do {
        (e, snap) \<leftarrow> read_slt_levels junk next d [0..<256] snap;
        (if e \<noteq> ERROR_NONE then Some (e, snap, False)
         else do {
           (e, snap) \<leftarrow> read_slt_screen junk next d snap;
           (if e \<noteq> ERROR_NONE then Some (e, snap, False)
            else Some (ERROR_NONE, snap, unat (slt_whence d) = length next)) }) }) }"

section \<open>The file\<close>

text \<open>\<open>k\<close> bounds the number of blocks: a block takes at least three bytes.\<close>

fun read_blocks ::
    "(nat \<Rightarrow> byte) \<Rightarrow> nat \<Rightarrow> byte list \<Rightarrow> libspectrum_snap \<Rightarrow> nat \<Rightarrow> bool \<Rightarrow> libspectrum_snap c_result" where
  "read_blocks junk k [] snap version compressed = Some (ERROR_NONE, snap)"
| "read_blocks junk 0 (b # next) snap version compressed = None"
| "read_blocks junk (Suc k) (b # next) snap version compressed = do {
     (error, snap, next) \<leftarrow> read_block junk (b # next) snap version compressed;
     (if error = ERROR_SLT then do {
        (error, snap, at_end) \<leftarrow> read_slt junk snap next;
        Some (if error \<noteq> ERROR_NONE then (error, snap)
              else if \<not> at_end then (ERROR_CORRUPT, snap) else (ERROR_NONE, snap)) }
      else if error \<noteq> ERROR_NONE then Some (error, snap)
      else read_blocks junk k next snap version compressed) }"

definition internal_z80_read :: "(nat \<Rightarrow> byte) \<Rightarrow> libspectrum_snap \<Rightarrow> byte list \<Rightarrow> libspectrum_snap c_result" where
  "internal_z80_read junk snap buf = do {
     (error, snap, data, version, compressed) \<leftarrow> z80_read_header buf snap;
     (if error \<noteq> ERROR_NONE then Some (error, snap)
      else do {
        (error, snap) \<leftarrow> read_blocks junk (length buf) (drop data buf) snap version compressed;
        (if error \<noteq> ERROR_NONE then Some (error, snap)
         else
           let snap = snap\<lparr>snap_beta_paged := 0\<rparr>
           in Some (ERROR_NONE, if snap_interface1_active snap \<noteq> 0
                then snap\<lparr>snap_interface1_drive_count := 8\<rparr> else snap)) }) }"

end
