(* ===== verification/Z80_Write.thy ===== *)
theory Z80_Write
  imports Z80_Read
begin

text \<open>
  Writing .z80 snapshots (\<open>z80.c\<close>), always in version 3 of the format: the base header, the
  extended header, the pages of memory and the level data. Functions that add to \<open>*flags\<close> return
  it with the buffer.
\<close>

section \<open>Headers\<close>

text \<open>The joystick of the header and whether it stands for the one of the snapshot.\<close>

definition z80_joystick_flags :: "libspectrum_joystick \<Rightarrow> byte \<times> bool" where
  "z80_joystick_flags j =
     (if j = JOYSTICK_CURSOR then (0, True)
      else if j = JOYSTICK_KEMPSTON then (1, True)
      else if j = JOYSTICK_SINCLAIR_1 then (3, True)
      else if j = JOYSTICK_SINCLAIR_2 then (2, True)
      else (0, False))"

definition write_base_header ::
    "(nat \<Rightarrow> byte) \<Rightarrow> int \<Rightarrow> libspectrum_snap \<Rightarrow> lbuffer \<Rightarrow> (int \<times> lbuffer) option" where
  "write_base_header junk flags snap b = do {
     b \<leftarrow> libspectrum_buffer_write_byte junk b (snap_a snap);
     b \<leftarrow> libspectrum_buffer_write_byte junk b (snap_f snap);
     b \<leftarrow> libspectrum_buffer_write_word junk b (snap_bc snap);
     b \<leftarrow> libspectrum_buffer_write_word junk b (snap_hl snap);
     b \<leftarrow> libspectrum_buffer_write_word junk b 0;
     b \<leftarrow> libspectrum_buffer_write_word junk b (snap_sp snap);
     b \<leftarrow> libspectrum_buffer_write_byte junk b (snap_i snap);
     b \<leftarrow> libspectrum_buffer_write_byte junk b (snap_r snap AND 0x7f);
     b \<leftarrow> libspectrum_buffer_write_byte junk b
       (drop_bit 7 (snap_r snap) + push_bit 1 (snap_out_ula snap AND 0x07));
     b \<leftarrow> libspectrum_buffer_write_word junk b (snap_de snap);
     b \<leftarrow> libspectrum_buffer_write_word junk b (snap_bc' snap);
     b \<leftarrow> libspectrum_buffer_write_word junk b (snap_de' snap);
     b \<leftarrow> libspectrum_buffer_write_word junk b (snap_hl' snap);
     b \<leftarrow> libspectrum_buffer_write_byte junk b (snap_a' snap);
     b \<leftarrow> libspectrum_buffer_write_byte junk b (snap_f' snap);
     b \<leftarrow> libspectrum_buffer_write_word junk b (snap_iy snap);
     b \<leftarrow> libspectrum_buffer_write_word junk b (snap_ix snap);
     b \<leftarrow> libspectrum_buffer_write_byte junk b (if snap_iff1 snap \<noteq> 0 then 0xff else 0x00);
     b \<leftarrow> libspectrum_buffer_write_byte junk b (if snap_iff2 snap \<noteq> 0 then 0xff else 0x00);
     j \<leftarrow> nget (snap_joystick_list snap) 0;
     let flags = info_loss FLAG_SNAPSHOT_MINOR_INFO_LOSS
       [snap_joystick_active_count snap \<noteq> 1, \<not> snd (z80_joystick_flags j)] flags;
     b \<leftarrow> libspectrum_buffer_write_byte junk b ((snap_im snap AND 0x03) +
       (if snap_issue2 snap \<noteq> 0 then 0x04 else 0x00) + push_bit 6 (fst (z80_joystick_flags j)));
     Some (flags, b) }"

text \<open>
  The machine byte, whether there is a second memory port to write, and the loss of information
  that the machine means; \<open>None\<close> for a machine without a byte.
\<close>

definition z80_machine_byte :: "libspectrum_snap \<Rightarrow> (byte \<times> bool \<times> int) option" where
  "z80_machine_byte snap =
     (let m = snap_machine snap;
          interface1 = (if snap_interface1_active snap \<noteq> 0 then FLAG_SNAPSHOT_MINOR_INFO_LOSS else 0)
      in if m \<in> {MACHINE_48_NTSC, MACHINE_16, MACHINE_48} then
           Some (if snap_plusd_active snap \<noteq> 0 then 3 else if snap_interface1_active snap \<noteq> 0 then 1 else 0, False,
             if m = MACHINE_48_NTSC then FLAG_SNAPSHOT_MAJOR_INFO_LOSS else 0)
         else if m \<in> {MACHINE_SE, MACHINE_128E, MACHINE_128} then
           Some (if snap_plusd_active snap \<noteq> 0 then 6 else if snap_interface1_active snap \<noteq> 0 then 5 else 4, False,
             if m \<noteq> MACHINE_128 then FLAG_SNAPSHOT_MAJOR_INFO_LOSS else 0)
         else if m \<in> {MACHINE_PLUS3E, MACHINE_PLUS3} then
           Some (7, True, if m = MACHINE_PLUS3E then FLAG_SNAPSHOT_MINOR_INFO_LOSS else 0)
         else if m \<in> {MACHINE_PENT, MACHINE_PENT512, MACHINE_PENT1024} then Some (9, True, 0)
         else if m = MACHINE_SCORP then Some (10, True, 0)
         else if m = MACHINE_PLUS2 then Some (12, False, interface1)
         else if m = MACHINE_PLUS2A then Some (13, True, 0)
         else if m = MACHINE_TC2048 then Some (14, False, interface1)
         else if m = MACHINE_TC2068 then Some (15, False, 0)
         else if m = MACHINE_TS2068 then Some (128, False, 0)
         else None)"

fun write_bytes :: "(nat \<Rightarrow> byte) \<Rightarrow> byte list \<Rightarrow> lbuffer \<Rightarrow> lbuffer option" where
  "write_bytes junk [] b = Some b"
| "write_bytes junk (x # xs) b = libspectrum_buffer_write_byte junk b x \<bind> write_bytes junk xs"

fun write_word_list :: "(nat \<Rightarrow> byte) \<Rightarrow> lword list \<Rightarrow> lbuffer \<Rightarrow> lbuffer option" where
  "write_word_list junk [] b = Some b"
| "write_word_list junk (x # xs) b = libspectrum_buffer_write_word junk b x \<bind> write_word_list junk xs"

definition z80_hardware_flag :: "libspectrum_snap \<Rightarrow> byte" where
  "z80_hardware_flag snap =
     (if snap_machine snap = MACHINE_16 then 0x80 else 0) OR
     (if snap_fuller_box_active snap \<noteq> 0 then fuller_box_flags else 0) OR
     (if snap_melodik_active snap \<noteq> 0 then melodik_flags else 0)"

text \<open>Whether the first and the second 8K of memory are RAM.\<close>

definition z80_ram_8kb :: "libspectrum_snap \<Rightarrow> bool \<times> bool" where
  "z80_ram_8kb snap =
     (if has_capability snap MACHINE_CAPABILITY_PLUS3_MEMORY then
        (if snap_out_plus3_memoryport snap AND 0x01 \<noteq> 0 then (True, True) else (False, False))
      else if has_capability snap MACHINE_CAPABILITY_SCORP_MEMORY then
        (if snap_out_plus3_memoryport snap AND 0x01 \<noteq> 0 then (True, True) else (False, False))
      else if snap_plusd_active snap \<noteq> 0 \<and> snap_plusd_paged snap \<noteq> 0 then (False, True)
      else (False, False))"

text \<open>The bytes of the second and third port and what they lose.\<close>

definition z80_port_bytes :: "libspectrum_snap \<Rightarrow> byte \<times> byte \<times> int" where
  "z80_port_bytes snap =
     (let if1 = snap_interface1_active snap \<noteq> 0 \<and> snap_interface1_paged snap \<noteq> 0
      in (if has_capability snap MACHINE_CAPABILITY_128_MEMORY then snap_out_128_memoryport snap
          else if has_capability snap MACHINE_CAPABILITY_TIMEX_MEMORY then snap_out_scld_hsr snap else 0,
          if has_capability snap MACHINE_CAPABILITY_TIMEX_VIDEO then snap_out_scld_dec snap
          else if if1 then 0xff else 0,
          if has_capability snap MACHINE_CAPABILITY_TIMEX_VIDEO \<and> if1 then FLAG_SNAPSHOT_MAJOR_INFO_LOSS else 0))"

definition z80_joystick_keys :: "libspectrum_joystick \<Rightarrow> lword list" where
  "z80_joystick_keys j =
     (if j = JOYSTICK_SINCLAIR_2
      then [if2_left_map_l, if2_left_map_r, if2_left_map_d, if2_left_map_u, if2_left_map_f,
        0x31, 0x32, 0x33, 0x34, 0x35]
      else replicate 10 0)"

definition write_extended_header ::
    "(nat \<Rightarrow> byte) \<Rightarrow> int \<Rightarrow> libspectrum_snap \<Rightarrow> lbuffer \<Rightarrow> (libspectrum_error \<times> int \<times> lbuffer) option" where
  "write_extended_header junk flags snap b =
     (case z80_machine_byte snap of
        None \<Rightarrow> Some (ERROR_UNKNOWN, flags, b)
      | Some (machine_byte, second_memory_port, loss) \<Rightarrow> do {
          let flags = flags OR loss OR snd (snd (z80_port_bytes snap));
          b \<leftarrow> libspectrum_buffer_write_word junk b
            (of_nat (if second_memory_port then Z80_V3X_LENGTH else Z80_V3_LENGTH));
          b \<leftarrow> libspectrum_buffer_write_word junk b (snap_pc snap);
          b \<leftarrow> libspectrum_buffer_write_byte junk b machine_byte;
          b \<leftarrow> libspectrum_buffer_write_byte junk b (fst (z80_port_bytes snap));
          b \<leftarrow> libspectrum_buffer_write_byte junk b (fst (snd (z80_port_bytes snap)));
          b \<leftarrow> libspectrum_buffer_write_byte junk b (z80_hardware_flag snap);
          b \<leftarrow> libspectrum_buffer_write_byte junk b (snap_out_ay_registerport snap);
          b \<leftarrow> (if length (snap_ay_registers snap) < 16 then None
               else write_bytes junk (take 16 (snap_ay_registers snap)) b);
          let quarter_states = libspectrum_timings_tstates_per_frame (snap_machine snap) div 4;
          b \<leftarrow> libspectrum_buffer_write_word junk b
            (ucast (quarter_states - (snap_tstates snap mod quarter_states) - 1));
          b \<leftarrow> libspectrum_buffer_write_byte junk b (ucast (((snap_tstates snap div quarter_states) + 3) mod 4));
          b \<leftarrow> libspectrum_buffer_write_byte junk b 0;
          b \<leftarrow> libspectrum_buffer_write_byte junk b
            (if snap_plusd_active snap \<noteq> 0 \<and> snap_plusd_paged snap \<noteq> 0 then 0xff else 0x00);
          b \<leftarrow> libspectrum_buffer_write_byte junk b 0;
          b \<leftarrow> libspectrum_buffer_write_byte junk b (if fst (z80_ram_8kb snap) then 0x00 else 0xff);
          b \<leftarrow> libspectrum_buffer_write_byte junk b (if snd (z80_ram_8kb snap) then 0x00 else 0xff);
          j \<leftarrow> nget (snap_joystick_list snap) 1;
          b \<leftarrow> write_word_list junk (z80_joystick_keys j) b;
          b \<leftarrow> write_bytes junk (if snap_plusd_active snap \<noteq> 0 then [16, 0, 0] else [0, 0, 0]) b;
          b \<leftarrow> (if second_memory_port then libspectrum_buffer_write_byte junk b (snap_out_plus3_memoryport snap)
               else Some b);
          Some (ERROR_NONE, flags, b) })"

section \<open>Memory\<close>

definition z80_write_page ::
    "(nat \<Rightarrow> byte) \<Rightarrow> nat \<Rightarrow> byte list option \<Rightarrow> int \<Rightarrow> lbuffer \<Rightarrow> lbuffer option" where
  "z80_write_page junk page_num page compress b = do {
     page \<leftarrow> page;
     cs \<leftarrow> (if compress \<noteq> 0 then compress_block junk page 0x4000 else Some []);
     (if compress = 0 \<or> (compress AND FLAG_SNAPSHOT_ALWAYS_COMPRESS = 0 \<and> length cs \<ge> 0x4000) then do {
        b \<leftarrow> libspectrum_buffer_write_word junk b 0xffff;
        b \<leftarrow> libspectrum_buffer_write_byte junk b (of_nat page_num);
        libspectrum_buffer_write junk b page 0x4000 }
      else do {
        b \<leftarrow> libspectrum_buffer_write_word junk b (of_nat (length cs));
        b \<leftarrow> libspectrum_buffer_write_byte junk b (of_nat page_num);
        libspectrum_buffer_write junk b cs (of_nat (length cs)) }) }"

text \<open>The pages of a list that are there, with the numbers of the format.\<close>

fun z80_write_present ::
    "(nat \<Rightarrow> byte) \<Rightarrow> libspectrum_snap \<Rightarrow> int \<Rightarrow> nat list \<Rightarrow> lbuffer \<Rightarrow> lbuffer option" where
  "z80_write_present junk snap compress [] b = Some b"
| "z80_write_present junk snap compress (i # is) b = do {
     page \<leftarrow> libspectrum_snap_pages snap i;
     b \<leftarrow> (if page \<noteq> None then z80_write_page junk (i + 3) page compress b else Some b);
     z80_write_present junk snap compress is b }"

definition write_slt_entry :: "(nat \<Rightarrow> byte) \<Rightarrow> lword \<Rightarrow> lword \<Rightarrow> dword \<Rightarrow> lbuffer \<Rightarrow> lbuffer option" where
  "write_slt_entry junk type entry slt_length b = do {
     b \<leftarrow> libspectrum_buffer_write_word junk b type;
     b \<leftarrow> libspectrum_buffer_write_word junk b entry;
     b \<leftarrow> libspectrum_buffer_write_word junk b (ucast (slt_length AND 0xffff));
     libspectrum_buffer_write_word junk b (ucast (drop_bit 16 slt_length)) }"

text \<open>The directory of the levels: writes their entries and returns the compressed data of each.\<close>

fun write_slt_levels ::
    "(nat \<Rightarrow> byte) \<Rightarrow> libspectrum_snap \<Rightarrow> nat list \<Rightarrow> lbuffer \<Rightarrow> (byte list list \<times> lbuffer) option" where
  "write_slt_levels junk snap [] b = Some ([], b)"
| "write_slt_levels junk snap (i # is) b = do {
     len \<leftarrow> nget (snap_slt_length snap) i;
     (if len \<noteq> 0 then do {
        slt \<leftarrow> nget (snap_slt snap) i;
        data \<leftarrow> slt;
        cs \<leftarrow> compress_block junk data (unat len);
        b \<leftarrow> write_slt_entry junk 1 (of_nat i) (of_nat (length cs)) b;
        (css, b) \<leftarrow> write_slt_levels junk snap is b;
        Some (cs # css, b) }
      else write_slt_levels junk snap is b) }"

fun write_slt_data :: "(nat \<Rightarrow> byte) \<Rightarrow> byte list list \<Rightarrow> lbuffer \<Rightarrow> lbuffer option" where
  "write_slt_data junk [] b = Some b"
| "write_slt_data junk (cs # css) b =
     libspectrum_buffer_write junk b cs (of_nat (length cs)) \<bind> write_slt_data junk css"

definition write_slt :: "(nat \<Rightarrow> byte) \<Rightarrow> libspectrum_snap \<Rightarrow> lbuffer \<Rightarrow> lbuffer option" where
  "write_slt junk snap b = do {
     b \<leftarrow> libspectrum_buffer_write junk b slt_signature 6;
     b \<leftarrow> libspectrum_buffer_write_byte junk b 6;
     (css, b) \<leftarrow> write_slt_levels junk snap [0..<256] b;
     (screen, b) \<leftarrow> (case snap_slt_screen snap of
        None \<Rightarrow> Some ([], b)
      | Some data \<Rightarrow> do {
          cs \<leftarrow> compress_block junk data 6912;
          let cs = (if length cs \<ge> 6912 then take 6912 data else cs);
          b \<leftarrow> write_slt_entry junk 3 (word_of_int (snap_slt_screen_level snap)) (of_nat (length cs)) b;
          Some ([cs], b) });
     b \<leftarrow> write_slt_entry junk 0 0 0 b;
     b \<leftarrow> write_slt_data junk css b;
     write_slt_data junk screen b }"

definition z80_write_pages :: "(nat \<Rightarrow> byte) \<Rightarrow> libspectrum_snap \<Rightarrow> int \<Rightarrow> lbuffer \<Rightarrow> lbuffer option" where
  "z80_write_pages junk snap compress b = do {
     b \<leftarrow> (if snap_interface1_active snap \<noteq> 0 \<and> snap_interface1_custom_rom snap \<noteq> 0 then do {
            rom \<leftarrow> snap_interface1_rom snap;
            page \<leftarrow> memcpy_at (replicate 0x4000 0) 0 rom (unat (snap_interface1_rom_length snap));
            z80_write_page junk 1 (Some page) compress b }
          else Some b);
     b \<leftarrow> (if snap_plusd_active snap \<noteq> 0 \<and> snap_plusd_custom_rom snap \<noteq> 0 then do {
            rom \<leftarrow> snap_plusd_rom snap;
            ram \<leftarrow> snap_plusd_ram snap;
            rom \<leftarrow> copy_out rom 0 0x2000;
            ram \<leftarrow> copy_out ram 0 0x2000;
            z80_write_page junk 1 (Some (rom @ ram)) compress b }
          else Some b);
     b \<leftarrow> (if \<not> has_capability snap MACHINE_CAPABILITY_128_MEMORY then do {
            p2 \<leftarrow> libspectrum_snap_pages snap 2;
            b \<leftarrow> z80_write_page junk 4 p2 compress b;
            p0 \<leftarrow> libspectrum_snap_pages snap 0;
            b \<leftarrow> z80_write_page junk 5 p0 compress b;
            p5 \<leftarrow> libspectrum_snap_pages snap 5;
            z80_write_page junk 8 p5 compress b }
          else do {
            b \<leftarrow> z80_write_present junk snap compress [0..<8] b;
            (if has_capability snap MACHINE_CAPABILITY_SCORP_MEMORY
             then z80_write_present junk snap compress [8..<16] b else Some b) });
     (if snap_slt_screen snap \<noteq> None \<or> list_ex (\<lambda>n. n \<noteq> 0) (snap_slt_length snap)
      then write_slt junk snap b else Some b) }"

section \<open>The file\<close>

definition z80_info_loss :: "libspectrum_snap \<Rightarrow> int" where
  "z80_info_loss snap = info_loss FLAG_SNAPSHOT_MAJOR_INFO_LOSS
     [snap_beta_active snap \<noteq> 0, snap_opus_active snap \<noteq> 0, snap_zxatasp_active snap \<noteq> 0,
      snap_zxcf_active snap \<noteq> 0, snap_simpleide_active snap \<noteq> 0, snap_divide_active snap \<noteq> 0,
      snap_interface2_active snap \<noteq> 0, snap_dock_active snap \<noteq> 0, snap_custom_rom snap \<noteq> 0,
      snap_specdrum_active snap \<noteq> 0, snap_spectranet_active snap \<noteq> 0, snap_usource_active snap \<noteq> 0,
      snap_disciple_active snap \<noteq> 0, snap_didaktik80_active snap \<noteq> 0, snap_covox_active snap \<noteq> 0,
      snap_ulaplus_active snap \<noteq> 0, snap_multiface_active snap \<noteq> 0, snap_divmmc_active snap \<noteq> 0,
      snap_zxmmc_active snap \<noteq> 0]
     (info_loss FLAG_SNAPSHOT_MINOR_INFO_LOSS
       [snap_last_instruction_ei snap \<noteq> 0, snap_halted snap \<noteq> 0, snap_last_instruction_set_f snap \<noteq> 0,
        snap_late_timings snap \<noteq> 0, snap_plusd_active snap \<noteq> 0] 0)"

definition z80_write_header ::
    "(nat \<Rightarrow> byte) \<Rightarrow> int \<Rightarrow> libspectrum_snap \<Rightarrow> lbuffer \<Rightarrow> (libspectrum_error \<times> int \<times> lbuffer) option" where
  "z80_write_header junk flags snap b = do {
     (flags, b) \<leftarrow> write_base_header junk flags snap b;
     write_extended_header junk flags snap b }"

text \<open>\<open>!( in_flags & NO_COMPRESSION ) + ( in_flags & ALWAYS_COMPRESS )\<close>\<close>

definition z80_compress_mode :: "int \<Rightarrow> int" where
  "z80_compress_mode in_flags =
     (if in_flags AND FLAG_SNAPSHOT_NO_COMPRESSION = 0 then 1 else 0) +
     (in_flags AND FLAG_SNAPSHOT_ALWAYS_COMPRESS)"

definition libspectrum_z80_write2 ::
    "(nat \<Rightarrow> byte) \<Rightarrow> lbuffer \<Rightarrow> libspectrum_snap \<Rightarrow> int \<Rightarrow> (libspectrum_error \<times> int \<times> lbuffer) option" where
  "libspectrum_z80_write2 junk b snap in_flags = do {
     (error, flags, b) \<leftarrow> z80_write_header junk (z80_info_loss snap) snap b;
     (if error \<noteq> ERROR_NONE then Some (error, flags, b)
      else do {
        b \<leftarrow> z80_write_pages junk snap (z80_compress_mode in_flags) b;
        Some (ERROR_NONE, flags, b) }) }"

end
