(* ===== verification/Z80_Format.thy ===== *)
theory Z80_Format
  imports Z80_Write
begin

text \<open>
  What a .z80 file holds, byte by byte, and that reading a written file gives the snapshot back.
\<close>

section \<open>The bytes of the headers\<close>

definition z80_base_bytes :: "libspectrum_snap \<Rightarrow> byte list" where
  "z80_base_bytes s =
     [snap_a s] @ [snap_f s] @ word_bytes (snap_bc s) @ word_bytes (snap_hl s) @ word_bytes 0 @
     word_bytes (snap_sp s) @ [snap_i s] @ [snap_r s AND 0x7f] @
     [drop_bit 7 (snap_r s) + push_bit 1 (snap_out_ula s AND 0x07)] @ word_bytes (snap_de s) @
     word_bytes (snap_bc' s) @ word_bytes (snap_de' s) @ word_bytes (snap_hl' s) @ [snap_a' s] @ [snap_f' s] @
     word_bytes (snap_iy s) @ word_bytes (snap_ix s) @ [if snap_iff1 s \<noteq> 0 then 0xff else 0x00] @
     [if snap_iff2 s \<noteq> 0 then 0xff else 0x00] @
     [(snap_im s AND 0x03) + (if snap_issue2 s \<noteq> 0 then 0x04 else 0x00) +
       push_bit 6 (fst (z80_joystick_flags (hd (snap_joystick_list s))))]"

lemma length_base_bytes: "length (z80_base_bytes s) = 30"
  by (simp add: z80_base_bytes_def)

text \<open>A writer that returns more than the buffer.\<close>

lemma puts_value:
  assumes "\<And>b. f b = g b \<bind> (\<lambda>b. Some (h b))" "buf.puts g d" "has_room b n" "length d \<le> n"
  shows "\<exists>b'. f b = Some (h b') \<and> contents b' = contents b @ d \<and> has_room b' (n - length d)"
  using buf.puts_result [OF assms(2,3,4)] assms(1) by auto

lemma write_base:
  assumes "snap_joystick_list s \<noteq> []" "has_room b n" "30 \<le> n"
  shows "\<exists>b' flags'. write_base_header junk flags s b = Some (flags', b') \<and>
    contents b' = contents b @ z80_base_bytes s \<and> has_room b' (n - 30)"
proof -
  let ?j = "hd (snap_joystick_list s)"
  define g where "g = (\<lambda>b. do {
     b \<leftarrow> libspectrum_buffer_write_byte junk b (snap_a s);
     b \<leftarrow> libspectrum_buffer_write_byte junk b (snap_f s);
     b \<leftarrow> libspectrum_buffer_write_word junk b (snap_bc s);
     b \<leftarrow> libspectrum_buffer_write_word junk b (snap_hl s);
     b \<leftarrow> libspectrum_buffer_write_word junk b 0;
     b \<leftarrow> libspectrum_buffer_write_word junk b (snap_sp s);
     b \<leftarrow> libspectrum_buffer_write_byte junk b (snap_i s);
     b \<leftarrow> libspectrum_buffer_write_byte junk b (snap_r s AND 0x7f);
     b \<leftarrow> libspectrum_buffer_write_byte junk b (drop_bit 7 (snap_r s) + push_bit 1 (snap_out_ula s AND 0x07));
     b \<leftarrow> libspectrum_buffer_write_word junk b (snap_de s);
     b \<leftarrow> libspectrum_buffer_write_word junk b (snap_bc' s);
     b \<leftarrow> libspectrum_buffer_write_word junk b (snap_de' s);
     b \<leftarrow> libspectrum_buffer_write_word junk b (snap_hl' s);
     b \<leftarrow> libspectrum_buffer_write_byte junk b (snap_a' s);
     b \<leftarrow> libspectrum_buffer_write_byte junk b (snap_f' s);
     b \<leftarrow> libspectrum_buffer_write_word junk b (snap_iy s);
     b \<leftarrow> libspectrum_buffer_write_word junk b (snap_ix s);
     b \<leftarrow> libspectrum_buffer_write_byte junk b (if snap_iff1 s \<noteq> 0 then 0xff else 0x00);
     b \<leftarrow> libspectrum_buffer_write_byte junk b (if snap_iff2 s \<noteq> 0 then 0xff else 0x00);
     libspectrum_buffer_write_byte junk b ((snap_im s AND 0x03) +
       (if snap_issue2 s \<noteq> 0 then 0x04 else 0x00) + push_bit 6 (fst (z80_joystick_flags ?j))) })"
  have "buf.puts g (z80_base_bytes s)"
    unfolding g_def z80_base_bytes_def by (intro puts_steps)
  moreover have "write_base_header junk flags s b = g b \<bind> (\<lambda>b. Some (info_loss FLAG_SNAPSHOT_MINOR_INFO_LOSS
       [snap_joystick_active_count s \<noteq> 1, \<not> snd (z80_joystick_flags ?j)] flags, b))" for b
    using assms(1) by (simp add: write_base_header_def g_def nget_def hd_conv_nth bind_assoc)
  ultimately show ?thesis
    using puts_value [of "write_base_header junk flags s" g] assms(2,3) length_base_bytes [of s] by fastforce
qed

definition z80_machine_parts :: "libspectrum_snap \<Rightarrow> byte \<times> bool \<times> int" where
  "z80_machine_parts s = the (z80_machine_byte s)"

abbreviation second_port :: "libspectrum_snap \<Rightarrow> bool" where
  "second_port s \<equiv> fst (snd (z80_machine_parts s))"

definition quarter_states :: "libspectrum_snap \<Rightarrow> dword" where
  "quarter_states s = libspectrum_timings_tstates_per_frame (snap_machine s) div 4"

definition z80_extended_bytes :: "libspectrum_snap \<Rightarrow> byte list" where
  "z80_extended_bytes s =
     word_bytes (of_nat (if second_port s then Z80_V3X_LENGTH else Z80_V3_LENGTH)) @
     word_bytes (snap_pc s) @ [fst (z80_machine_parts s)] @ [fst (z80_port_bytes s)] @
     [fst (snd (z80_port_bytes s))] @ [z80_hardware_flag s] @ [snap_out_ay_registerport s] @
     take 16 (snap_ay_registers s) @
     word_bytes (ucast (quarter_states s - (snap_tstates s mod quarter_states s) - 1)) @
     [ucast (((snap_tstates s div quarter_states s) + 3) mod 4)] @ [0] @
     [if snap_plusd_active s \<noteq> 0 \<and> snap_plusd_paged s \<noteq> 0 then 0xff else 0x00] @ [0] @
     [if fst (z80_ram_8kb s) then 0x00 else 0xff] @ [if snd (z80_ram_8kb s) then 0x00 else 0xff] @
     concat (map word_bytes (z80_joystick_keys (snap_joystick_list s ! 1))) @
     (if snap_plusd_active s \<noteq> 0 then [16, 0, 0] else [0, 0, 0]) @
     (if second_port s then [snap_out_plus3_memoryport s] else [])"

lemma puts_byte_list: "buf.puts (write_bytes junk xs) xs"
proof (induction xs)
  case Nil
  have "write_bytes junk [] = Some" by (rule ext) simp
  then show ?case using buf.puts_nothing by simp
next
  case (Cons x xs)
  have "write_bytes junk (x # xs) = (\<lambda>b. libspectrum_buffer_write_byte junk b x \<bind> write_bytes junk xs)"
    by (rule ext) simp
  then show ?case using buf.puts_seq [OF puts_byte Cons, where junk1 = junk and x1 = x] by simp
qed

lemma puts_word_list: "buf.puts (write_word_list junk xs) (concat (map word_bytes xs))"
proof (induction xs)
  case Nil
  have "write_word_list junk [] = Some" by (rule ext) simp
  then show ?case using buf.puts_nothing by simp
next
  case (Cons x xs)
  have "write_word_list junk (x # xs) = (\<lambda>b. libspectrum_buffer_write_word junk b x \<bind> write_word_list junk xs)"
    by (rule ext) simp
  then show ?case using buf.puts_seq [OF puts_word Cons] by simp
qed

lemma length_keys: "length (concat (map word_bytes (z80_joystick_keys j))) = 20"
  by (simp add: z80_joystick_keys_def length_concat comp_def sum_list_replicate)

lemma length_extended_bytes:
  "length (snap_ay_registers s) = 16 \<Longrightarrow> length (z80_extended_bytes s) = (if second_port s then 57 else 56)"
  by (simp add: z80_extended_bytes_def length_keys)

lemma write_extended:
  assumes "snap_machine s \<noteq> MACHINE_UNKNOWN" "1 < length (snap_joystick_list s)" "length (snap_ay_registers s) = 16"
    and room: "has_room b n" "57 \<le> n"
  shows "\<exists>b' flags'. write_extended_header junk flags s b = Some (ERROR_NONE, flags', b') \<and>
    contents b' = contents b @ z80_extended_bytes s \<and> has_room b' (n - 57)"
proof -
  obtain mb port loss where m: "z80_machine_byte s = Some (mb, port, loss)"
    using assms(1) by (cases "snap_machine s") (auto simp: z80_machine_byte_def Let_def)
  then have parts: "z80_machine_parts s = (mb, port, loss)" by (simp add: z80_machine_parts_def)
  define g where "g = (\<lambda>b. do {
     b \<leftarrow> libspectrum_buffer_write_word junk b (of_nat (if port then Z80_V3X_LENGTH else Z80_V3_LENGTH));
     b \<leftarrow> libspectrum_buffer_write_word junk b (snap_pc s);
     b \<leftarrow> libspectrum_buffer_write_byte junk b mb;
     b \<leftarrow> libspectrum_buffer_write_byte junk b (fst (z80_port_bytes s));
     b \<leftarrow> libspectrum_buffer_write_byte junk b (fst (snd (z80_port_bytes s)));
     b \<leftarrow> libspectrum_buffer_write_byte junk b (z80_hardware_flag s);
     b \<leftarrow> libspectrum_buffer_write_byte junk b (snap_out_ay_registerport s);
     b \<leftarrow> write_bytes junk (take 16 (snap_ay_registers s)) b;
     b \<leftarrow> libspectrum_buffer_write_word junk b (ucast (quarter_states s - (snap_tstates s mod quarter_states s) - 1));
     b \<leftarrow> libspectrum_buffer_write_byte junk b (ucast (((snap_tstates s div quarter_states s) + 3) mod 4));
     b \<leftarrow> libspectrum_buffer_write_byte junk b 0;
     b \<leftarrow> libspectrum_buffer_write_byte junk b
       (if snap_plusd_active s \<noteq> 0 \<and> snap_plusd_paged s \<noteq> 0 then 0xff else 0x00);
     b \<leftarrow> libspectrum_buffer_write_byte junk b 0;
     b \<leftarrow> libspectrum_buffer_write_byte junk b (if fst (z80_ram_8kb s) then 0x00 else 0xff);
     b \<leftarrow> libspectrum_buffer_write_byte junk b (if snd (z80_ram_8kb s) then 0x00 else 0xff);
     b \<leftarrow> write_word_list junk (z80_joystick_keys (snap_joystick_list s ! 1)) b;
     b \<leftarrow> write_bytes junk (if snap_plusd_active s \<noteq> 0 then [16, 0, 0] else [0, 0, 0]) b;
     (if port then libspectrum_buffer_write_byte junk b (snap_out_plus3_memoryport s) else Some b) })"
  have last: "buf.puts (\<lambda>b. if port then libspectrum_buffer_write_byte junk b (snap_out_plus3_memoryport s) else Some b)
      (if port then [snap_out_plus3_memoryport s] else [])"
    using puts_byte [of junk "snap_out_plus3_memoryport s"] buf.puts_nothing by simp
  have "buf.puts g (z80_extended_bytes s)"
    unfolding g_def z80_extended_bytes_def parts fst_conv snd_conv by (intro puts_steps puts_byte_list puts_word_list last)
  moreover have "write_extended_header junk flags s b = g b \<bind>
      (\<lambda>b. Some (ERROR_NONE, flags OR loss OR snd (snd (z80_port_bytes s)), b))" for b
    using assms(2,3) m by (simp add: write_extended_header_def g_def nget_def Let_def bind_assoc quarter_states_def)
  moreover have "length (z80_extended_bytes s) \<le> 57" using length_extended_bytes [OF assms(3)] by simp
  ultimately show ?thesis
    using puts_value [of "write_extended_header junk flags s" g] room by (fastforce simp: has_room_def)
qed

section \<open>Reading the headers back\<close>

lemma small_byte:
  assumes "unat (w :: byte) < k"
  shows "w \<in> set (map of_nat [0..<k])"
proof -
  have "(of_nat (unat w) :: byte) \<in> of_nat ` {0..<k}" by (rule imageI) (use assms in simp)
  then show ?thesis by (simp only: of_nat_unat ucast_id set_map set_upt)
qed

lemma and_3: "(x AND 0x03 :: byte) \<in> {0, 1, 2, 3}"
  using small_byte [of "x AND 0x03" 4] word_and_le1 [of x "0x03"] by (simp add: word_le_nat_alt upt_rec)

lemma and_7: "(x AND 0x07 :: byte) \<in> {0, 1, 2, 3, 4, 5, 6, 7}"
  using small_byte [of "x AND 0x07" 8] word_and_le1 [of x "0x07"] by (simp add: word_le_nat_alt upt_rec)

lemma top_bit: "drop_bit 7 (r :: byte) \<in> {0, 1}"
proof -
  have "unat (drop_bit 7 r) < 2"
    using unsigned_less [of r, where ?'a = nat] by (simp add: drop_bit_eq_div unat_div_distrib)
  then show ?thesis using small_byte [of "drop_bit 7 r" 2] by (simp add: upt_rec)
qed

lemma split_top_bit: "(r AND 0x7f) + push_bit 7 (drop_bit 7 r) = (r :: byte)"
proof -
  have m: "(0x7f :: byte) = mask 7" by (simp add: mask_eq_exp_minus_1)
  have "(r AND 0x7f) AND push_bit 7 (drop_bit 7 r) = 0"
    unfolding m by (rule bit_word_eqI) (auto simp: bit_simps)
  moreover have "(r AND 0x7f) OR push_bit 7 (drop_bit 7 r) = r"
    unfolding m
  proof (rule bit_word_eqI)
    fix n assume "n < LENGTH(8)"
    then consider "n < 7" | "n = 7" by fastforce
    then show "bit ((r AND mask 7) OR push_bit 7 (drop_bit 7 r)) n \<longleftrightarrow> bit r n"
      by cases (auto simp: bit_simps)
  qed
  ultimately show ?thesis by (simp only: disjunctive_add_eq_or)
qed

text \<open>The byte of the top bit of R and the border, and that of the interrupt mode and the joystick.\<close>

definition flag_byte :: "byte \<Rightarrow> byte \<Rightarrow> byte" where
  "flag_byte r u = drop_bit 7 r + push_bit 1 (u AND 0x07)"

lemma flag_byte_parts:
  "flag_byte r u AND 0x01 = drop_bit 7 r" "drop_bit 1 (flag_byte r u AND 0x0e) = u AND 0x07"
  "drop_bit (Suc 0) (flag_byte r u) AND 0x07 = u AND 0x07"
proof -
  define h a where "h = drop_bit 7 r" and "a = u AND 0x07"
  have eq: "flag_byte r u = h + push_bit 1 a" by (simp only: flag_byte_def h_def a_def)
  have "h \<in> {0, 1}" "a \<in> {0, 1, 2, 3, 4, 5, 6, 7}" unfolding h_def a_def by (rule top_bit and_7)+
  then have "flag_byte r u AND 0x01 = h \<and> drop_bit 1 (flag_byte r u AND 0x0e) = a \<and>
      drop_bit (Suc 0) (flag_byte r u) AND 0x07 = a"
    unfolding eq by auto
  then show "flag_byte r u AND 0x01 = drop_bit 7 r" "drop_bit 1 (flag_byte r u AND 0x0e) = u AND 0x07"
    "drop_bit (Suc 0) (flag_byte r u) AND 0x07 = u AND 0x07"
    by (simp_all only: h_def a_def)
qed

definition mode_byte :: "byte \<Rightarrow> bool \<Rightarrow> byte \<Rightarrow> byte" where
  "mode_byte im issue2 j = (im AND 0x03) + (if issue2 then 0x04 else 0x00) + push_bit 6 j"

lemma mode_byte_parts:
  assumes "j \<in> {0, 1, 2, 3}"
  shows "mode_byte im issue2 j AND 0x03 = im AND 0x03" "mode_byte im issue2 j AND 0x04 = (if issue2 then 0x04 else 0)"
    "drop_bit 6 (mode_byte im issue2 j AND 0xc0) = j"
  using assms and_3 [of im] by (auto simp: mode_byte_def)

lemma joystick_flags_small: "fst (z80_joystick_flags j) \<in> {0, 1, 2, 3}"
  by (simp add: z80_joystick_flags_def)

text \<open>The registers of \<open>t\<close> are those of \<open>s\<close> as far as the base header holds them.\<close>

definition z80_same_registers :: "libspectrum_snap \<Rightarrow> libspectrum_snap \<Rightarrow> bool" where
  "z80_same_registers s t \<longleftrightarrow>
     snap_a t = snap_a s \<and> snap_f t = snap_f s \<and> snap_bc t = snap_bc s \<and> snap_de t = snap_de s \<and>
     snap_hl t = snap_hl s \<and> snap_a' t = snap_a' s \<and> snap_f' t = snap_f' s \<and> snap_bc' t = snap_bc' s \<and>
     snap_de' t = snap_de' s \<and> snap_hl' t = snap_hl' s \<and> snap_ix t = snap_ix s \<and> snap_iy t = snap_iy s \<and>
     snap_i t = snap_i s \<and> snap_r t = snap_r s \<and> snap_sp t = snap_sp s \<and>
     snap_iff1 t = (if snap_iff1 s \<noteq> 0 then 1 else 0) \<and> snap_iff2 t = (if snap_iff2 s \<noteq> 0 then 1 else 0) \<and>
     snap_im t = snap_im s AND 0x03 \<and> snap_issue2 t = (if snap_issue2 s \<noteq> 0 then 4 else 0) \<and>
     snap_out_ula t = snap_out_ula s AND 0x07"

text \<open>What the base header leaves alone.\<close>

definition z80_rest :: "libspectrum_snap \<Rightarrow> libspectrum_snap \<Rightarrow> bool" where
  "z80_rest t t' \<longleftrightarrow> snap_pages t' = snap_pages t \<and> snap_joystick_list t' = snap_joystick_list t \<and>
     snap_joystick_inputs t' = snap_joystick_inputs t \<and> snap_fuller_box_active t' = snap_fuller_box_active t \<and>
     snap_melodik_active t' = snap_melodik_active t"

lemma read_base:
  "\<exists>t'. read_base_header (z80_base_bytes s @ rest) t = t' \<and> z80_same_registers s t' \<and> snap_pc t' = 0 \<and> z80_rest t t'"
proof -
  have "z80_base_bytes s @ rest = [snap_a s, snap_f s, ucast (snap_bc s AND 0xff), ucast (drop_bit 8 (snap_bc s)),
     ucast (snap_hl s AND 0xff), ucast (drop_bit 8 (snap_hl s)), 0, 0, ucast (snap_sp s AND 0xff), ucast (drop_bit 8 (snap_sp s)),
     snap_i s, snap_r s AND 0x7f, flag_byte (snap_r s) (snap_out_ula s),
     ucast (snap_de s AND 0xff), ucast (drop_bit 8 (snap_de s)), ucast (snap_bc' s AND 0xff), ucast (drop_bit 8 (snap_bc' s)),
     ucast (snap_de' s AND 0xff), ucast (drop_bit 8 (snap_de' s)), ucast (snap_hl' s AND 0xff), ucast (drop_bit 8 (snap_hl' s)),
     snap_a' s, snap_f' s, ucast (snap_iy s AND 0xff), ucast (drop_bit 8 (snap_iy s)), ucast (snap_ix s AND 0xff), ucast (drop_bit 8 (snap_ix s)),
     if snap_iff1 s \<noteq> 0 then 0xff else 0x00, if snap_iff2 s \<noteq> 0 then 0xff else 0x00,
     mode_byte (snap_im s) (snap_issue2 s \<noteq> 0) (fst (z80_joystick_flags (hd (snap_joystick_list s))))] @ rest"
    by (simp add: z80_base_bytes_def word_bytes_def mode_byte_def flag_byte_def)
  then show ?thesis
    by (simp add: read_base_header_def le16_def paste2_split z80_same_registers_def z80_rest_def flag_byte_parts split_top_bit
        mode_byte_parts [OF joystick_flags_small])
qed

text \<open>The bytes of the extended header where the reader looks for them.\<close>

lemma extended_header_at:
  fixes s rest
  defines "buf \<equiv> z80_base_bytes s @ z80_extended_bytes s @ rest"
  assumes ay: "length (snap_ay_registers s) = 16"
  shows "nget buf 30 = Some (ucast ((of_nat (if second_port s then Z80_V3X_LENGTH else Z80_V3_LENGTH) :: lword) AND 0xff))"
    "nget buf 31 = Some (ucast (drop_bit 8 (of_nat (if second_port s then Z80_V3X_LENGTH else Z80_V3_LENGTH) :: lword)))"
    "le16 buf 32 = snap_pc s" "buf ! 34 = fst (z80_machine_parts s)" "buf ! 35 = fst (z80_port_bytes s)"
    "buf ! 36 = fst (snd (z80_port_bytes s))" "buf ! 37 = z80_hardware_flag s" "buf ! 38 = snap_out_ay_registerport s"
    "map (\<lambda>i. buf ! (39 + i)) [0..<16] = snap_ay_registers s"
    "buf ! 55 = ucast (ucast (quarter_states s - (snap_tstates s mod quarter_states s) - 1) AND (0xff :: lword))"
    "buf ! 56 = ucast (drop_bit 8 (ucast (quarter_states s - (snap_tstates s mod quarter_states s) - 1) :: lword))"
    "buf ! 57 = ucast (((snap_tstates s div quarter_states s) + 3) mod 4)"
    "buf ! 59 = (if snap_plusd_active s \<noteq> 0 \<and> snap_plusd_paged s \<noteq> 0 then 0xff else 0x00)"
    "buf ! 83 = (if snap_plusd_active s \<noteq> 0 then 16 else 0)"
    "second_port s \<Longrightarrow> nget buf 86 = Some (snap_out_plus3_memoryport s)"
    "buf ! 29 = mode_byte (snap_im s) (snap_issue2 s \<noteq> 0) (fst (z80_joystick_flags (hd (snap_joystick_list s))))"
    "86 \<le> length buf"
proof -
  note ext = buf_def z80_extended_bytes_def
  note at = nth_append length_base_bytes length_keys ay
  note len = length_base_bytes length_extended_bytes [OF ay]
  have b: "buf = z80_base_bytes s @ word_bytes (of_nat (if second_port s then Z80_V3X_LENGTH else Z80_V3_LENGTH)) @
      (drop 2 (z80_extended_bytes s) @ rest)"
    by (simp add: ext word_bytes_def)
  show "nget buf 30 = Some (ucast ((of_nat (if second_port s then Z80_V3X_LENGTH else Z80_V3_LENGTH) :: lword) AND 0xff))"
    "nget buf 31 = Some (ucast (drop_bit 8 (of_nat (if second_port s then Z80_V3X_LENGTH else Z80_V3_LENGTH) :: lword)))"
    unfolding b word_bytes_def by (simp_all add: nget_app length_base_bytes nget_Cons)
  show "le16 buf 32 = snap_pc s"
    using paste2_split [of "snap_pc s"] by (simp add: ext at le16_def word_bytes_def)
  show "buf ! 34 = fst (z80_machine_parts s)" "buf ! 35 = fst (z80_port_bytes s)"
    "buf ! 36 = fst (snd (z80_port_bytes s))" "buf ! 37 = z80_hardware_flag s" "buf ! 38 = snap_out_ay_registerport s"
    by (simp_all add: ext at word_bytes_def)
  have "map (\<lambda>i. buf ! (39 + i)) [0..<16] = map (\<lambda>i. snap_ay_registers s ! i) [0..<16]"
    by (rule map_cong) (simp_all add: ext at word_bytes_def)
  also have "\<dots> = snap_ay_registers s" using ay map_nth [of "snap_ay_registers s"] by simp
  finally show "map (\<lambda>i. buf ! (39 + i)) [0..<16] = snap_ay_registers s" .
  show "buf ! 55 = ucast (ucast (quarter_states s - (snap_tstates s mod quarter_states s) - 1) AND (0xff :: lword))"
    "buf ! 56 = ucast (drop_bit 8 (ucast (quarter_states s - (snap_tstates s mod quarter_states s) - 1) :: lword))"
    "buf ! 57 = ucast (((snap_tstates s div quarter_states s) + 3) mod 4)"
    "buf ! 59 = (if snap_plusd_active s \<noteq> 0 \<and> snap_plusd_paged s \<noteq> 0 then 0xff else 0x00)"
    by (simp_all add: ext at word_bytes_def)
  show "buf ! 83 = (if snap_plusd_active s \<noteq> 0 then 16 else 0)"
    by (simp add: ext at)
  show "nget buf 86 = Some (snap_out_plus3_memoryport s)" if "second_port s"
    using that by (simp add: ext nget_app length_base_bytes length_keys ay nget_Cons)
  show "buf ! 29 = mode_byte (snap_im s) (snap_issue2 s \<noteq> 0) (fst (z80_joystick_flags (hd (snap_joystick_list s))))"
    by (simp add: buf_def z80_base_bytes_def nth_append mode_byte_def)
  show "86 \<le> length buf" using len by (simp add: buf_def)
qed

section \<open>The position in the frame\<close>

lemma two_bytes_dword:
  "(ucast (ucast (w AND 0xff) :: byte) :: dword) + ucast (ucast (drop_bit 8 w) :: byte) * 0x100 = ucast (w :: lword)"
proof -
  have "paste4 (ucast (w AND 0xff)) (ucast (drop_bit 8 w)) 0 0 = ucast w"
    unfolding paste4_or
  proof (rule bit_word_eqI)
    have m: "(0xff :: lword) = mask 8" by (simp add: mask_eq_exp_minus_1)
    fix n assume "n < LENGTH(32)"
    then consider "n < 8" | "8 \<le> n \<and> n < 16" | "16 \<le> n" by fastforce
    then show "bit (ucast (ucast (w AND 0xff) :: byte) OR push_bit 8 (ucast (ucast (drop_bit 8 w) :: byte)) OR
        push_bit 16 (ucast (0 :: byte)) OR push_bit 24 (ucast (0 :: byte)) :: dword) n = bit (ucast w :: dword) n"
      unfolding m by cases (auto simp: bit_simps dest: bit_imp_le_length)
  qed
  then show ?thesis by (simp add: paste4_def)
qed

lemma quarter_bounds:
  assumes "snap_machine s \<noteq> MACHINE_UNKNOWN"
  shows "10000 < unat (quarter_states s)" "unat (quarter_states s) \<le> 17920"
  using assms by (cases "snap_machine s"; simp add: quarter_states_def tstates_per_frame)+

lemma read_tstates_result:
  assumes m: "snap_machine s \<noteq> MACHINE_UNKNOWN"
    and q: "libspectrum_timings_tstates_per_frame (snap_machine t) = libspectrum_timings_tstates_per_frame (snap_machine s)"
    and buf: "buf ! 55 = ucast (ucast (quarter_states s - (snap_tstates s mod quarter_states s) - 1) AND (0xff :: lword))"
    "buf ! 56 = ucast (drop_bit 8 (ucast (quarter_states s - (snap_tstates s mod quarter_states s) - 1) :: lword))"
    "buf ! 57 = ucast (((snap_tstates s div quarter_states s) + 3) mod 4)"
  shows "snap_tstates (read_tstates buf t) = snap_tstates s mod (4 * quarter_states s)"
proof -
  let ?q = "quarter_states s" and ?t = "snap_tstates s"
  let ?Q = "unat ?q" and ?T = "unat ?t"
  note Q = quarter_bounds [OF m]
  have rest: "?T mod ?Q < ?Q" "unat (?t mod ?q) = ?T mod ?Q" using Q by (simp_all add: unat_mod_distrib)
  have four: "unat (4 * ?q) = 4 * ?Q" using Q by (simp add: unat_word_ariths)
  have "?T div ?Q \<le> 2 ^ 32 div 10000"
    using Q unsigned_less [of ?t, where ?'a = nat] by (intro div_le_mono2 [THEN order_trans, OF _ _ div_le_mono]) auto
  then have "unat (?t div ?q + 3) = ?T div ?Q + 3"
    by (simp add: unat_word_ariths unat_div_distrib)
  then have "unat ((?t div ?q + 3) mod 4) = (?T div ?Q + 3) mod 4" by (simp add: unat_mod_distrib)
  moreover have "(?T div ?Q + 3) mod 4 < 4" by simp
  ultimately have b57: "unat (ucast (buf ! 57) :: dword) = (?T div ?Q + 3) mod 4"
    unfolding buf(3) by (simp add: unsigned_ucast_eq unsigned_take_bit_eq take_bit_nat_eq_self)
  have h: "((?T div ?Q + 3) mod 4 + 1) mod 4 = ?T div ?Q mod 4" by (simp add: mod_Suc_eq flip: Suc_eq_plus1)
  have "unat (?q - ?t mod ?q) = ?Q - ?T mod ?Q"
    using rest Q unat_sub [of "?t mod ?q" ?q] by (simp add: word_le_nat_alt)
  then have "unat (?q - ?t mod ?q - 1) = ?Q - ?T mod ?Q - 1"
    using rest(1) unat_sub [of 1 "?q - ?t mod ?q"] by (simp add: word_le_nat_alt)
  then have w: "unat (ucast (buf ! 55) + ucast (buf ! 56) * 0x100 :: dword) = ?Q - ?T mod ?Q - 1"
    unfolding buf(1,2) two_bytes_dword using Q by (simp add: unsigned_ucast_eq unsigned_take_bit_eq take_bit_nat_eq_self)
  have sum: "?T mod (4 * ?Q) = (?T div ?Q mod 4) * ?Q + ?T mod ?Q"
    using mod_mult2_eq [of ?T ?Q 4] by (simp add: mult.commute add.commute)
  have "unat (ucast (buf ! 57) + 1 :: dword) = (?T div ?Q + 3) mod 4 + 1"
    using b57 by (simp add: unat_word_ariths)
  then have "unat ((ucast (buf ! 57) + 1) mod 4 + 1 :: dword) = ?T div ?Q mod 4 + 1"
    using h by (simp add: unat_word_ariths unat_mod_distrib)
  moreover have "(?T div ?Q mod 4 + 1) * ?Q \<le> 4 * 17920"
    using Q by (intro mult_le_mono) auto
  ultimately have prod: "unat (((ucast (buf ! 57) + 1) mod 4 + 1) * ?q) = (?T div ?Q mod 4 + 1) * ?Q"
    by (simp add: unat_word_ariths)
  have off: "unat (ucast (buf ! 55) + ucast (buf ! 56) * 0x100 + 1 :: dword) = ?Q - ?T mod ?Q"
  proof -
    have "unat (v + 1) = unat v + 1" if "unat v < 20000" for v :: dword
      using that by (simp add: unat_word_ariths)
    then have "unat (ucast (buf ! 55) + ucast (buf ! 56) * 0x100 + 1 :: dword) = ?Q - ?T mod ?Q - 1 + 1"
      using w Q by simp
    then show ?thesis using rest(1) by linarith
  qed
  have "unat (((ucast (buf ! 57) + 1) mod 4 + 1) * ?q - (ucast (buf ! 55) + ucast (buf ! 56) * 0x100 + 1)) =
      (?T div ?Q mod 4 + 1) * ?Q - (?Q - ?T mod ?Q)"
    using prod off rest by (simp add: unat_sub word_le_nat_alt)
  also have "\<dots> = ?T mod (4 * ?Q)" using rest sum by simp
  finally have val: "((ucast (buf ! 57) + 1) mod 4 + 1) * ?q - (ucast (buf ! 55) + ucast (buf ! 56) * 0x100 + 1) = ?t mod (4 * ?q)"
    using four by (simp add: word_unat_eq_iff unat_mod_distrib)
  have "\<not> 4 * ?q \<le> ?t mod (4 * ?q)"
    using four Q by (simp add: word_le_nat_alt unat_mod_distrib not_le)
  then show ?thesis
    using val q by (simp add: read_tstates_def Let_def quarter_states_def mult.commute [of _ "4 :: dword"])
qed

section \<open>The state after the header\<close>

text \<open>The machine a written snapshot is read as.\<close>

definition z80_machine :: "libspectrum_machine \<Rightarrow> libspectrum_machine" where
  "z80_machine m =
     (if m = MACHINE_48_NTSC then MACHINE_48 else if m \<in> {MACHINE_SE, MACHINE_128E} then MACHINE_128
      else if m = MACHINE_PLUS3E then MACHINE_PLUS3 else if m \<in> {MACHINE_PENT512, MACHINE_PENT1024} then MACHINE_PENT
      else m)"

text \<open>What the format can hold: one of three joysticks, and arrays of their lengths.\<close>

definition z80_ok :: "libspectrum_snap \<Rightarrow> bool" where
  "z80_ok s \<longleftrightarrow> snap_machine s \<noteq> MACHINE_UNKNOWN \<and> length (snap_ay_registers s) = 16 \<and>
     length (snap_joystick_list s) = 7 \<and>
     hd (snap_joystick_list s) \<in> {JOYSTICK_CURSOR, JOYSTICK_KEMPSTON, JOYSTICK_SINCLAIR_1}"

lemma machine_type_result:
  fixes s t
  assumes "snap_machine s \<noteq> MACHINE_UNKNOWN"
  defines "r \<equiv> get_machine_type t (fst (z80_machine_parts s)) (if snap_plusd_active s \<noteq> 0 then 16 else 0) 3"
  shows "fst r = ERROR_NONE"
    "snap_machine (snd r) = (if snap_machine s = MACHINE_16 then MACHINE_48 else z80_machine (snap_machine s))"
  using assms(1) unfolding r_def
  by (cases "snap_machine s"; cases "snap_plusd_active s = 0"; cases "snap_interface1_active s = 0";
      simp add: z80_machine_parts_def z80_machine_byte_def Let_def get_machine_type_def get_machine_type_v3_def
      get_mgt_type_def get_machine_type_extension_def z80_machine_def)+

text \<open>A function of the state that does not look at the fields this sets keeps its value.\<close>

lemma machine_type_frame:
  assumes "\<And>t v. f (t\<lparr>snap_machine := v\<rparr>) = f t" "\<And>t v. f (t\<lparr>snap_interface1_active := v\<rparr>) = f t"
    "\<And>t v. f (t\<lparr>snap_plusd_active := v\<rparr>) = f t"
  shows "f (snd (get_machine_type t a b version)) = f t"
  by (simp add: get_machine_type_def get_machine_type_v2_def get_machine_type_v3_def get_mgt_type_def
      get_machine_type_extension_def assms)

lemma hardware_flag_bits:
  "z80_hardware_flag s AND 0x80 \<noteq> 0 \<longleftrightarrow> snap_machine s = MACHINE_16"
  by (simp add: z80_hardware_flag_def fuller_box_flags_def melodik_flags_def)

lemma second_port_iff:
  "snap_machine s \<noteq> MACHINE_UNKNOWN \<Longrightarrow> second_port s \<longleftrightarrow>
     snap_machine s \<in> {MACHINE_PLUS3E, MACHINE_PLUS3, MACHINE_PENT, MACHINE_PENT512, MACHINE_PENT1024, MACHINE_SCORP, MACHINE_PLUS2A}"
  by (cases "snap_machine s") (simp_all add: z80_machine_parts_def z80_machine_byte_def Let_def)

abbreviation capable :: "libspectrum_machine \<Rightarrow> dword \<Rightarrow> bool" where
  "capable m c \<equiv> libspectrum_machine_capabilities m AND c \<noteq> 0"

lemmas port_readers = read_memory_port_def read_video_port_def read_ay_def

lemma ports_result:
  assumes m: "snap_machine (read_hardware_flag (buf ! 37) t) = m"
    and port: "extra_length = Z80_V3X_LENGTH \<Longrightarrow> nget buf 86 = Some b"
  shows "\<exists>t'. read_extended_ports buf extra_length t = Some t' \<and> snap_machine t' = m \<and>
    (capable m MACHINE_CAPABILITY_128_MEMORY \<longrightarrow> snap_out_128_memoryport t' = buf ! 35) \<and>
    (\<not> capable m MACHINE_CAPABILITY_128_MEMORY \<and> capable m MACHINE_CAPABILITY_TIMEX_MEMORY \<longrightarrow> snap_out_scld_hsr t' = buf ! 35) \<and>
    (capable m MACHINE_CAPABILITY_TIMEX_VIDEO \<longrightarrow> snap_out_scld_dec t' = buf ! 36) \<and>
    (capable m MACHINE_CAPABILITY_AY \<longrightarrow> snap_out_ay_registerport t' = buf ! 38 \<and>
      snap_ay_registers t' = map (\<lambda>i. buf ! (39 + i)) [0..<16]) \<and>
    (extra_length = Z80_V3X_LENGTH \<and> (capable m MACHINE_CAPABILITY_PLUS3_MEMORY \<or> capable m MACHINE_CAPABILITY_SCORP_MEMORY) \<longrightarrow>
      snap_out_plus3_memoryport t' = b)"
proof -
  define t2 where "t2 = read_hardware_flag (buf ! 37) t"
  define t3 where "t3 = read_memory_port (buf ! 35) t2"
  define t4 where "t4 = read_video_port (buf ! 36) t3"
  define t5 where "t5 = read_ay (buf ! 38) (map (\<lambda>i. buf ! (39 + i)) [0..<16]) t4"
  define t6 where "t6 = (if extra_length = Z80_V3X_LENGTH \<and> has_plus3_port t5 then t5\<lparr>snap_out_plus3_memoryport := b\<rparr> else t5)"
  have ms: "snap_machine t2 = m" "snap_machine t3 = m" "snap_machine t4 = m" "snap_machine t5 = m"
    using m by (simp_all add: t2_def t3_def t4_def t5_def port_readers)
  have "read_extended_ports buf extra_length t = Some t6"
    using port unfolding read_extended_ports_def Let_def t2_def [symmetric] t3_def [symmetric]
      t4_def [symmetric] t5_def [symmetric] by (simp add: t6_def)
  moreover have "snap_machine t6 = m" by (simp add: t6_def ms)
  moreover have "snap_out_128_memoryport t6 = snap_out_128_memoryport t3" "snap_out_scld_hsr t6 = snap_out_scld_hsr t3"
    "snap_out_scld_dec t6 = snap_out_scld_dec t4" "snap_out_ay_registerport t6 = snap_out_ay_registerport t5"
    "snap_ay_registers t6 = snap_ay_registers t5"
    by (simp_all add: t6_def t5_def t4_def read_ay_def read_video_port_def)
  moreover have "capable m MACHINE_CAPABILITY_128_MEMORY \<Longrightarrow> snap_out_128_memoryport t3 = buf ! 35"
    "\<not> capable m MACHINE_CAPABILITY_128_MEMORY \<Longrightarrow> capable m MACHINE_CAPABILITY_TIMEX_MEMORY \<Longrightarrow> snap_out_scld_hsr t3 = buf ! 35"
    by (simp_all add: t3_def read_memory_port_def ms)
  moreover have "capable m MACHINE_CAPABILITY_TIMEX_VIDEO \<Longrightarrow> snap_out_scld_dec t4 = buf ! 36"
    by (simp add: t4_def read_video_port_def ms)
  moreover have "capable m MACHINE_CAPABILITY_AY \<Longrightarrow> snap_out_ay_registerport t5 = buf ! 38 \<and>
      snap_ay_registers t5 = map (\<lambda>i. buf ! (39 + i)) [0..<16]"
    by (simp add: t5_def read_ay_def ms)
  moreover have "extra_length = Z80_V3X_LENGTH \<Longrightarrow> has_plus3_port t5 \<Longrightarrow> snap_out_plus3_memoryport t6 = b"
    by (simp add: t6_def)
  moreover have "has_plus3_port t5 \<longleftrightarrow> capable m MACHINE_CAPABILITY_PLUS3_MEMORY \<or> capable m MACHINE_CAPABILITY_SCORP_MEMORY"
    by (simp only: has_plus3_port_def ms)
  ultimately show ?thesis by (intro exI [of _ t6]) simp
qed

lemma ports_frame:
  assumes f: "\<And>t v. f (t\<lparr>snap_machine := v\<rparr>) = f t" "\<And>t v. f (t\<lparr>snap_fuller_box_active := v\<rparr>) = f t"
    "\<And>t v. f (t\<lparr>snap_melodik_active := v\<rparr>) = f t" "\<And>t v. f (t\<lparr>snap_out_128_memoryport := v\<rparr>) = f t"
    "\<And>t v. f (t\<lparr>snap_out_scld_hsr := v\<rparr>) = f t" "\<And>t v. f (t\<lparr>snap_out_scld_dec := v\<rparr>) = f t"
    "\<And>t v. f (t\<lparr>snap_out_ay_registerport := v\<rparr>) = f t" "\<And>t v. f (t\<lparr>snap_ay_registers := v\<rparr>) = f t"
    "\<And>t v. f (t\<lparr>snap_out_plus3_memoryport := v\<rparr>) = f t"
    and r: "read_extended_ports buf extra_length t = Some t'"
  shows "f t' = f t"
proof -
  have ay: "f (t\<lparr>snap_out_ay_registerport := v, snap_ay_registers := w\<rparr>) = f t" for t v w
    using f(7) [where t = t and v = v] f(8) [where t = "t\<lparr>snap_out_ay_registerport := v\<rparr>" and v = w] by simp
  have m: "f (modify_hardware t) = f t" for t by (simp add: modify_hardware_def f(1))
  have "f (read_ay a b t) = f t" "f (read_video_port c t) = f t" "f (read_memory_port d t) = f t"
    "f (read_hardware_flag e t) = f t" for a b c d e t
    by (simp_all add: port_readers read_hardware_flag_def Let_def ay f m)
  then show ?thesis using r f(9) by (auto simp: read_extended_ports_def Let_def split: if_splits)
qed

lemma joystick_result:
  assumes "hd (snap_joystick_list s) \<in> {JOYSTICK_CURSOR, JOYSTICK_KEMPSTON, JOYSTICK_SINCLAIR_1}"
  shows "get_joystick_type t buf base (fst (z80_joystick_flags (hd (snap_joystick_list s)))) 3 = (ERROR_NONE,
    t\<lparr>snap_joystick_active_count := 1,
      snap_joystick_inputs := (snap_joystick_inputs t)[0 := JOYSTICK_INPUT_KEYBOARD OR JOYSTICK_INPUT_JOYSTICK_1],
      snap_joystick_list := (snap_joystick_list t)[0 := hd (snap_joystick_list s)]\<rparr>)"
  using assms by (auto simp: get_joystick_type_def get_joystick_type_v3_def z80_joystick_flags_def set_joystick_def)

lemma hardware_machine:
  "snap_machine t = (if snap_machine s = MACHINE_16 then MACHINE_48 else z80_machine (snap_machine s)) \<Longrightarrow>
     snap_machine (read_hardware_flag (z80_hardware_flag s) t) = z80_machine (snap_machine s)"
  using hardware_flag_bits [of s] by (auto simp: read_hardware_flag_def Let_def modify_hardware_def z80_machine_def)

text \<open>Ports that machine \<open>m\<close> has.\<close>

definition z80_same_ports :: "libspectrum_snap \<Rightarrow> libspectrum_snap \<Rightarrow> bool" where
  "z80_same_ports s t \<longleftrightarrow> (let m = snap_machine s in
     (capable m MACHINE_CAPABILITY_128_MEMORY \<longrightarrow> snap_out_128_memoryport t = snap_out_128_memoryport s) \<and>
     (\<not> capable m MACHINE_CAPABILITY_128_MEMORY \<and> capable m MACHINE_CAPABILITY_TIMEX_MEMORY \<longrightarrow>
       snap_out_scld_hsr t = snap_out_scld_hsr s) \<and>
     (capable m MACHINE_CAPABILITY_TIMEX_VIDEO \<longrightarrow> snap_out_scld_dec t = snap_out_scld_dec s) \<and>
     (capable m MACHINE_CAPABILITY_AY \<longrightarrow> snap_out_ay_registerport t = snap_out_ay_registerport s \<and>
       snap_ay_registers t = snap_ay_registers s) \<and>
     (capable m MACHINE_CAPABILITY_PLUS3_MEMORY \<or> capable m MACHINE_CAPABILITY_SCORP_MEMORY \<longrightarrow>
       snap_out_plus3_memoryport t = snap_out_plus3_memoryport s))"

lemma plus3_port_written:
  "z80_machine m = m \<Longrightarrow> capable m MACHINE_CAPABILITY_PLUS3_MEMORY \<or> capable m MACHINE_CAPABILITY_SCORP_MEMORY \<Longrightarrow>
     m \<in> {MACHINE_PLUS3E, MACHINE_PLUS3, MACHINE_PENT, MACHINE_PENT512, MACHINE_PENT1024, MACHINE_SCORP, MACHINE_PLUS2A}"
  by (cases m) (simp_all add: libspectrum_machine_capabilities_def z80_machine_def)

lemma registers_frame:
  "z80_same_registers s (t\<lparr>snap_machine := a\<rparr>) = z80_same_registers s t"
  "z80_same_registers s (t\<lparr>snap_interface1_active := b\<rparr>) = z80_same_registers s t"
  "z80_same_registers s (t\<lparr>snap_plusd_active := b\<rparr>) = z80_same_registers s t"
  "z80_same_registers s (t\<lparr>snap_plusd_paged := b\<rparr>) = z80_same_registers s t"
  "z80_same_registers s (t\<lparr>snap_tstates := c\<rparr>) = z80_same_registers s t"
  "z80_same_registers s (t\<lparr>snap_fuller_box_active := b\<rparr>) = z80_same_registers s t"
  "z80_same_registers s (t\<lparr>snap_melodik_active := b\<rparr>) = z80_same_registers s t"
  "z80_same_registers s (t\<lparr>snap_out_128_memoryport := e\<rparr>) = z80_same_registers s t"
  "z80_same_registers s (t\<lparr>snap_out_scld_hsr := e\<rparr>) = z80_same_registers s t"
  "z80_same_registers s (t\<lparr>snap_out_scld_dec := e\<rparr>) = z80_same_registers s t"
  "z80_same_registers s (t\<lparr>snap_out_ay_registerport := e\<rparr>) = z80_same_registers s t"
  "z80_same_registers s (t\<lparr>snap_ay_registers := g\<rparr>) = z80_same_registers s t"
  "z80_same_registers s (t\<lparr>snap_out_plus3_memoryport := e\<rparr>) = z80_same_registers s t"
  "z80_same_registers s (t\<lparr>snap_joystick_active_count := h\<rparr>) = z80_same_registers s t"
  "z80_same_registers s (t\<lparr>snap_joystick_inputs := i\<rparr>) = z80_same_registers s t"
  "z80_same_registers s (t\<lparr>snap_joystick_list := j\<rparr>) = z80_same_registers s t"
  "z80_same_registers s (t\<lparr>snap_pc := k\<rparr>) = z80_same_registers s t"
  "z80_same_registers s (t\<lparr>snap_pages := l\<rparr>) = z80_same_registers s t"
  "z80_same_registers s (t\<lparr>snap_beta_paged := b\<rparr>) = z80_same_registers s t"
  "z80_same_registers s (t\<lparr>snap_interface1_drive_count := b\<rparr>) = z80_same_registers s t"
  by (simp_all add: z80_same_registers_def)

lemma header_result:
  assumes s: "z80_ok s" and t: "snap_joystick_list t \<noteq> []"
  shows "\<exists>t'. z80_read_header (z80_base_bytes s @ z80_extended_bytes s @ rest) t =
      Some (ERROR_NONE, t', length (z80_base_bytes s @ z80_extended_bytes s), 3, True) \<and>
    z80_same_registers s t' \<and> snap_pc t' = snap_pc s \<and> snap_pages t' = snap_pages t \<and>
    snap_machine t' = z80_machine (snap_machine s) \<and> snap_joystick_active_count t' = 1 \<and>
    hd (snap_joystick_list t') = hd (snap_joystick_list s) \<and>
    (z80_machine (snap_machine s) = snap_machine s \<longrightarrow> z80_same_ports s t') \<and>
    (libspectrum_timings_tstates_per_frame (z80_machine (snap_machine s)) =
      libspectrum_timings_tstates_per_frame (snap_machine s) \<longrightarrow>
     snap_tstates t' = snap_tstates s mod libspectrum_timings_tstates_per_frame (snap_machine s))"
proof -
  let ?buf = "z80_base_bytes s @ z80_extended_bytes s @ rest"
  let ?el = "if second_port s then Z80_V3X_LENGTH else Z80_V3_LENGTH"
  let ?m = "snap_machine s"
  have ok: "?m \<noteq> MACHINE_UNKNOWN" "length (snap_ay_registers s) = 16"
    "hd (snap_joystick_list s) \<in> {JOYSTICK_CURSOR, JOYSTICK_KEMPSTON, JOYSTICK_SINCLAIR_1}"
    using s by (simp_all add: z80_ok_def)
  note at = extended_header_at [OF ok(2), of rest]
  obtain t0 where t0: "read_base_header ?buf t = t0" "z80_same_registers s t0" "snap_pc t0 = 0" "z80_rest t t0"
    using read_base [of s "z80_extended_bytes s @ rest" t] by auto
  have el: "unat (ucast ((of_nat ?el :: lword) AND 0xff) :: byte) + unat (ucast (drop_bit 8 (of_nat ?el :: lword)) :: byte) * 0x100 = ?el"
    by (simp add: Z80_V3X_LENGTH_def Z80_V3_LENGTH_def)
  define t1 where "t1 = t0\<lparr>snap_joystick_active_count := 1,
      snap_joystick_inputs := (snap_joystick_inputs t0)[0 := JOYSTICK_INPUT_KEYBOARD OR JOYSTICK_INPUT_JOYSTICK_1],
      snap_joystick_list := (snap_joystick_list t0)[0 := hd (snap_joystick_list s)]\<rparr>"
  define t2 where "t2 = t1\<lparr>snap_pc := snap_pc s\<rparr>"
  define t3 where "t3 = snd (get_machine_type t2 (fst (z80_machine_parts s)) (if snap_plusd_active s \<noteq> 0 then 16 else 0) 3)"
  have m3: "get_machine_type t2 (fst (z80_machine_parts s)) (if snap_plusd_active s \<noteq> 0 then 16 else 0) 3 = (ERROR_NONE, t3)"
    "snap_machine t3 = (if ?m = MACHINE_16 then MACHINE_48 else z80_machine ?m)"
    using machine_type_result [OF ok(1), of t2] by (simp_all add: t3_def prod_eq_iff)
  define t4 where "t4 = (if ?buf ! 59 \<noteq> 0 \<and> snap_plusd_active t3 \<noteq> 0 then t3\<lparr>snap_plusd_paged := 1\<rparr> else t3)"
  define t5 where "t5 = read_tstates ?buf t4"
  have m5: "snap_machine t5 = snap_machine t3" by (simp add: t5_def read_tstates_def Let_def t4_def)
  have "\<exists>t'. read_extended_ports ?buf ?el t5 = Some t' \<and> snap_machine t' = z80_machine ?m \<and>
    (capable (z80_machine ?m) MACHINE_CAPABILITY_128_MEMORY \<longrightarrow> snap_out_128_memoryport t' = ?buf ! 35) \<and>
    (\<not> capable (z80_machine ?m) MACHINE_CAPABILITY_128_MEMORY \<and> capable (z80_machine ?m) MACHINE_CAPABILITY_TIMEX_MEMORY \<longrightarrow> snap_out_scld_hsr t' = ?buf ! 35) \<and>
    (capable (z80_machine ?m) MACHINE_CAPABILITY_TIMEX_VIDEO \<longrightarrow> snap_out_scld_dec t' = ?buf ! 36) \<and>
    (capable (z80_machine ?m) MACHINE_CAPABILITY_AY \<longrightarrow> snap_out_ay_registerport t' = ?buf ! 38 \<and>
      snap_ay_registers t' = map (\<lambda>i. ?buf ! (39 + i)) [0..<16]) \<and>
    (?el = Z80_V3X_LENGTH \<and> (capable (z80_machine ?m) MACHINE_CAPABILITY_PLUS3_MEMORY \<or> capable (z80_machine ?m) MACHINE_CAPABILITY_SCORP_MEMORY) \<longrightarrow>
      snap_out_plus3_memoryport t' = snap_out_plus3_memoryport s)"
  proof (rule ports_result)
    show "snap_machine (read_hardware_flag (?buf ! 37) t5) = z80_machine ?m"
      unfolding at(7) by (rule hardware_machine) (simp add: m5 m3(2))
    show "nget ?buf 86 = Some (snap_out_plus3_memoryport s)" if "?el = Z80_V3X_LENGTH"
      using that at(15) by (simp add: Z80_V3X_LENGTH_def Z80_V3_LENGTH_def split: if_splits)
  qed
  then obtain t' where t': "read_extended_ports ?buf ?el t5 = Some t'" "snap_machine t' = z80_machine ?m"
    "capable (z80_machine ?m) MACHINE_CAPABILITY_128_MEMORY \<longrightarrow> snap_out_128_memoryport t' = fst (z80_port_bytes s)"
    "\<not> capable (z80_machine ?m) MACHINE_CAPABILITY_128_MEMORY \<and> capable (z80_machine ?m) MACHINE_CAPABILITY_TIMEX_MEMORY \<longrightarrow>
       snap_out_scld_hsr t' = fst (z80_port_bytes s)"
    "capable (z80_machine ?m) MACHINE_CAPABILITY_TIMEX_VIDEO \<longrightarrow> snap_out_scld_dec t' = fst (snd (z80_port_bytes s))"
    "capable (z80_machine ?m) MACHINE_CAPABILITY_AY \<longrightarrow> snap_out_ay_registerport t' = snap_out_ay_registerport s \<and>
      snap_ay_registers t' = snap_ay_registers s"
    "?el = Z80_V3X_LENGTH \<and> (capable (z80_machine ?m) MACHINE_CAPABILITY_PLUS3_MEMORY \<or> capable (z80_machine ?m) MACHINE_CAPABILITY_SCORP_MEMORY) \<longrightarrow>
      snap_out_plus3_memoryport t' = snap_out_plus3_memoryport s"
    unfolding at by blast
  have joy: "get_joystick_type t0 ?buf 63 (drop_bit 6 (?buf ! 29 AND 0xc0)) 3 = (ERROR_NONE, t1)"
    unfolding at(16) mode_byte_parts(3) [OF joystick_flags_small] joystick_result [OF ok(3)] t1_def ..
  have read: "z80_read_header ?buf t = Some (ERROR_NONE, t', 32 + ?el, 3, True)"
  proof -
    define buf where "buf = ?buf"
    note [simp] = Z80_HEADER_LENGTH_def
    have len: "\<not> length buf < 30" "\<not> length buf < 84" using at(17) by (simp_all add: buf_def)
    have el_cases: "\<not> (?el \<noteq> Z80_V2_LENGTH \<and> ?el \<noteq> Z80_V3_LENGTH \<and> ?el \<noteq> Z80_V3X_LENGTH)" "?el \<noteq> Z80_V2_LENGTH"
      by (simp_all add: Z80_V2_LENGTH_def Z80_V3_LENGTH_def Z80_V3X_LENGTH_def)
    show ?thesis
      unfolding buf_def [symmetric]
      using len el_cases at [folded buf_def] el joy [folded buf_def] t0 [folded buf_def] m3 t'(1) [folded buf_def]
      unfolding z80_read_header_def Let_def t5_def [folded buf_def] t4_def [folded buf_def] t2_def
      by simp
  qed
  have chain: "f t' = f t2" if "f t' = f t5" "\<And>t v. f (t\<lparr>snap_tstates := v\<rparr>) = f t" "\<And>t v. f (t\<lparr>snap_plusd_paged := v\<rparr>) = f t" "f t3 = f t2"
    for f :: "libspectrum_snap \<Rightarrow> 'a"
    using that by (simp add: t5_def t4_def read_tstates_def Let_def)
  have "z80_same_registers s t' = z80_same_registers s t2"
    by (rule chain) (simp_all add: ports_frame [OF _ _ _ _ _ _ _ _ _ t'(1)] machine_type_frame t3_def registers_frame)
  moreover have "z80_same_registers s t2" using t0(2) by (simp add: t2_def t1_def registers_frame)
  moreover have "snap_pc t' = snap_pc t2"
    by (rule chain) (simp_all add: ports_frame [where f = snap_pc, OF _ _ _ _ _ _ _ _ _ t'(1)] machine_type_frame [where f = snap_pc] t3_def)
  moreover have "snap_pages t' = snap_pages t2"
    by (rule chain) (simp_all add: ports_frame [where f = snap_pages, OF _ _ _ _ _ _ _ _ _ t'(1)] machine_type_frame [where f = snap_pages] t3_def)
  moreover have "snap_joystick_list t' = snap_joystick_list t2"
    by (rule chain) (simp_all add: ports_frame [where f = snap_joystick_list, OF _ _ _ _ _ _ _ _ _ t'(1)] machine_type_frame [where f = snap_joystick_list] t3_def)
  moreover have "snap_joystick_active_count t' = snap_joystick_active_count t2"
    by (rule chain) (simp_all add: ports_frame [where f = snap_joystick_active_count, OF _ _ _ _ _ _ _ _ _ t'(1)] machine_type_frame [where f = snap_joystick_active_count] t3_def)
  moreover have "snap_joystick_list t2 \<noteq> []" "hd (snap_joystick_list t2) = hd (snap_joystick_list s)"
    using t t0(4) by (cases "snap_joystick_list t"; simp add: t2_def t1_def z80_rest_def)+
  moreover have "snap_pages t2 = snap_pages t" "snap_joystick_active_count t2 = 1" "snap_pc t2 = snap_pc s"
    using t0(4) by (simp_all add: t2_def t1_def z80_rest_def)
  moreover have "z80_machine ?m = ?m \<Longrightarrow> z80_same_ports s t'"
  proof -
    assume m: "z80_machine ?m = ?m"
    have "?el = Z80_V3X_LENGTH" if "capable ?m MACHINE_CAPABILITY_PLUS3_MEMORY \<or> capable ?m MACHINE_CAPABILITY_SCORP_MEMORY"
      using plus3_port_written [OF m that] second_port_iff [OF ok(1)] by simp
    then show ?thesis using t'(3-7) unfolding m z80_same_ports_def Let_def
      by (auto simp: z80_port_bytes_def Let_def)
  qed
  moreover have "snap_tstates t' = snap_tstates s mod libspectrum_timings_tstates_per_frame ?m"
    if same: "libspectrum_timings_tstates_per_frame (z80_machine ?m) = libspectrum_timings_tstates_per_frame ?m"
  proof -
    have "libspectrum_timings_tstates_per_frame (snap_machine t4) = libspectrum_timings_tstates_per_frame ?m"
      using same m3(2) by (simp add: t4_def tstates_per_frame)
    from read_tstates_result [OF ok(1) this at(10-12)]
    have "snap_tstates t5 = snap_tstates s mod (4 * quarter_states s)" unfolding t5_def .
    moreover have "4 * quarter_states s = libspectrum_timings_tstates_per_frame ?m"
      by (cases ?m) (simp_all add: quarter_states_def tstates_per_frame)
    moreover have "snap_tstates t' = snap_tstates t5"
      by (rule ports_frame [OF _ _ _ _ _ _ _ _ _ t'(1)]) simp_all
    ultimately show ?thesis by simp
  qed
  moreover have "length (z80_base_bytes s @ z80_extended_bytes s) = 32 + ?el"
    using length_extended_bytes [OF ok(2)] by (simp add: length_base_bytes Z80_V3X_LENGTH_def Z80_V3_LENGTH_def)
  ultimately show ?thesis using read t'(2) by simp
qed

end
