(* ===== verification/Z80_Roundtrip.thy ===== *)
theory Z80_Roundtrip
  imports Z80_Format
begin

text \<open>
  The RAM pages of a .z80 file and the whole file: a snapshot written and read back is the same
  as far as the format holds it.
\<close>

section \<open>The pages\<close>

text \<open>A block of the file: its length or 0xffff, its number and its data.\<close>

definition z80_block_bytes :: "int \<Rightarrow> nat \<Rightarrow> byte list \<Rightarrow> byte list" where
  "z80_block_bytes compress num page =
     (let cs = z80_compressed False page
      in if compress = 0 \<or> (compress AND FLAG_SNAPSHOT_ALWAYS_COMPRESS = 0 \<and> length cs \<ge> 0x4000)
         then word_bytes 0xffff @ [of_nat num] @ page
         else word_bytes (of_nat (length cs)) @ [of_nat num] @ cs)"

lemma puts_z80_page:
  assumes "length page = 0x4000"
  shows "buf.puts (z80_write_page junk num (Some page) compress) (z80_block_bytes compress num page)"
proof -
  let ?cs = "z80_compressed False page"
  have comp: "compress_block junk page 0x4000 = Some ?cs"
    using compress_block_result [of page junk "[]"] assms by simp
  have len: "length ?cs \<le> 0x8000" using length_compressed [of False page] assms by simp
  have u: "unat (of_nat (length ?cs) :: size_t) = length ?cs" using len by (simp add: unat_of_nat take_bit_nat_eq_self)
  have full: "buf.puts (\<lambda>b. libspectrum_buffer_write_word junk b 0xffff \<bind>
      (\<lambda>b. libspectrum_buffer_write_byte junk b (of_nat num) \<bind> (\<lambda>b. libspectrum_buffer_write junk b page 0x4000)))
      (word_bytes 0xffff @ [of_nat num] @ page)"
    using puts_data [where n = "0x4000" and data = page and junk = junk] assms by (intro puts_steps) simp
  have part: "buf.puts (\<lambda>b. libspectrum_buffer_write_word junk b (of_nat (length ?cs)) \<bind>
      (\<lambda>b. libspectrum_buffer_write_byte junk b (of_nat num) \<bind> (\<lambda>b. libspectrum_buffer_write junk b ?cs (of_nat (length ?cs)))))
      (word_bytes (of_nat (length ?cs)) @ [of_nat num] @ ?cs)"
    using puts_data [where n = "of_nat (length ?cs)" and data = ?cs and junk = junk] u by (intro puts_steps) simp
  show ?thesis
  proof (cases "compress = 0 \<or> (compress AND FLAG_SNAPSHOT_ALWAYS_COMPRESS = 0 \<and> length ?cs \<ge> 0x4000)")
    case True
    then have "z80_write_page junk num (Some page) compress = (\<lambda>b. libspectrum_buffer_write_word junk b 0xffff \<bind>
      (\<lambda>b. libspectrum_buffer_write_byte junk b (of_nat num) \<bind> (\<lambda>b. libspectrum_buffer_write junk b page 0x4000)))"
      by (intro ext) (auto simp: z80_write_page_def comp)
    then show ?thesis using full True by (simp add: z80_block_bytes_def Let_def)
  next
    case False
    then have "z80_write_page junk num (Some page) compress = (\<lambda>b. libspectrum_buffer_write_word junk b (of_nat (length ?cs)) \<bind>
      (\<lambda>b. libspectrum_buffer_write_byte junk b (of_nat num) \<bind> (\<lambda>b. libspectrum_buffer_write junk b ?cs (of_nat (length ?cs)))))"
      by (intro ext) (auto simp: z80_write_page_def comp)
    moreover have "z80_block_bytes compress num page = word_bytes (of_nat (length ?cs)) @ [of_nat num] @ ?cs"
      using False by (simp only: z80_block_bytes_def Let_def if_False)
    ultimately show ?thesis using part by (simp only:)
  qed
qed

lemma length_block_bytes: "length page = 0x4000 \<Longrightarrow> length (z80_block_bytes compress num page) \<le> 3 + 0x8000"
  using length_compressed [of False page] by (simp add: z80_block_bytes_def Let_def)

lemma unat_word_of_bytes:
  "unat (ucast lo + ucast hi * 0x100 :: lword) = unat (lo :: byte) + unat (hi :: byte) * 0x100"
  using unsigned_less [of lo, where ?'a = nat] unsigned_less [of hi, where ?'a = nat]
  by (simp add: unat_word_ariths unsigned_ucast_eq unsigned_take_bit_eq take_bit_nat_eq_self)

lemma word_value:
  assumes "n < 0x10000"
  shows "unat (ucast ((of_nat n :: lword) AND 0xff) :: byte) + unat (ucast (drop_bit 8 (of_nat n :: lword)) :: byte) * 0x100 = n"
proof -
  have "unat (of_nat n :: lword) = n" using assms by (simp add: unat_of_nat take_bit_nat_eq_self)
  then show ?thesis
    by (subst unat_word_of_bytes [symmetric]) (subst paste2_split, simp)
qed

lemma read_v2_written:
  assumes "length page = 0x4000" "0 < num" "num < 256"
  shows "read_v2_block junk (z80_block_bytes compress num page @ rest) = Some (ERROR_NONE, num, page, rest)"
proof -
  let ?cs = "z80_compressed False page"
  have num: "unat (of_nat num :: byte) = num" "(of_nat num :: byte) \<noteq> 0"
    using assms by (auto simp: unat_of_nat take_bit_nat_eq_self dest: arg_cong [of _ _ unat])
  have len: "length ?cs \<le> 0x8000" using length_compressed [of False page] assms(1) by simp
  have un: "z80_uncompressed ?cs = Some page" using uncompressed_compressed [of False page] by simp
  have block: "uncompress_block junk (?cs @ rest) (length ?cs) = Some page"
    using len assms(1) by (intro uncompress_block_result un) auto
  show ?thesis
  proof (cases "compress = 0 \<or> (compress AND FLAG_SNAPSHOT_ALWAYS_COMPRESS = 0 \<and> length ?cs \<ge> 0x4000)")
    case True
    then show ?thesis using num assms
      by (simp add: z80_block_bytes_def Let_def read_v2_block_def word_bytes_def nget_Cons)
  next
    case False
    let ?lo = "ucast ((of_nat (length ?cs) :: lword) AND 0xff) :: byte"
    let ?hi = "ucast (drop_bit 8 (of_nat (length ?cs) :: lword)) :: byte"
    have bytes: "z80_block_bytes compress num page = ?lo # ?hi # of_nat num # ?cs"
      using False by (simp only: z80_block_bytes_def Let_def if_False word_bytes_def append.simps)
    have v: "unat ?lo + unat ?hi * 0x100 = length ?cs" using len by (intro word_value) simp
    have drop3: "drop (3 + n) (a # b # c # xs) = drop n xs" for n and a b c :: byte and xs
      by (simp add: numeral_3_eq_3)
    show ?thesis unfolding bytes
      using num v len block by (simp add: read_v2_block_def Let_def nget_Cons drop3)
  qed
qed

lemma read_ram_page:
  assumes "length page = 0x4000" "2 < num" "num \<le> 18" "ram_page t num = Some i" "snap_pages t ! i = None"
    "i < 16" "length (snap_pages t) = 16"
  shows "read_block junk (z80_block_bytes compress num page @ rest) t 3 c =
    Some (ERROR_NONE, t\<lparr>snap_pages := (snap_pages t)[i := Some page]\<rparr>, rest)"
  using assms
  by (simp add: read_block_def read_v2_written libspectrum_snap_pages_def libspectrum_snap_set_pages_def nget_def nset_def)

definition set_pages :: "byte list option list \<Rightarrow> (nat \<times> byte list) list \<Rightarrow> byte list option list" where
  "set_pages = foldl (\<lambda>q (i, p). q[i := Some p])"

lemma length_set_pages [simp]: "length (set_pages q bs) = length q"
  by (induction bs arbitrary: q) (auto simp: set_pages_def)

lemma set_pages_nth:
  "distinct (map fst bs) \<Longrightarrow> i < length q \<Longrightarrow>
     set_pages q bs ! i = (case map_of bs i of None \<Rightarrow> q ! i | Some p \<Rightarrow> Some p)"
proof (induction bs arbitrary: q)
  case (Cons b bs)
  then have "set_pages q (b # bs) ! i = (case map_of bs i of None \<Rightarrow> q[fst b := Some (snd b)] ! i | Some p \<Rightarrow> Some p)"
    using Cons.IH [of "q[fst b := Some (snd b)]"] by (cases b) (simp add: set_pages_def)
  moreover have "map_of bs (fst b) = None" using Cons.prems(1) by (simp add: map_of_eq_None_iff)
  ultimately show ?case using Cons.prems by (cases b) (auto split: option.splits simp: nth_list_update)
qed (simp add: set_pages_def)

lemma read_blocks_written:
  assumes "\<And>i p. (i, p) \<in> set bs \<Longrightarrow> i < 16 \<and> length p = 0x4000 \<and> 2 < num i \<and> num i \<le> 18 \<and> ram_page t (num i) = Some i \<and>
      snap_pages t ! i = None"
    and "distinct (map fst bs)" "length (snap_pages t) = 16" "length bs \<le> k"
  shows "read_blocks junk k (concat (map (\<lambda>(i, p). z80_block_bytes compress (num i) p) bs)) t 3 c =
    Some (ERROR_NONE, t\<lparr>snap_pages := set_pages (snap_pages t) bs\<rparr>)"
  using assms
proof (induction bs arbitrary: t k)
  case Nil
  then show ?case by (cases k) (simp_all add: set_pages_def)
next
  case (Cons b bs)
  obtain i p where b: "b = (i, p)" by force
  obtain k' where k: "k = Suc k'" using Cons.prems(4) by (cases k) auto
  define t1 where "t1 = t\<lparr>snap_pages := (snap_pages t)[i := Some p]\<rparr>"
  let ?rest = "concat (map (\<lambda>(i, p). z80_block_bytes compress (num i) p) bs)"
  have i: "i < 16 \<and> length p = 0x4000 \<and> 2 < num i \<and> num i \<le> 18 \<and> ram_page t (num i) = Some i \<and> snap_pages t ! i = None"
    using Cons.prems(1) [of i p] by (simp add: b)
  have one: "read_block junk (z80_block_bytes compress (num i) p @ ?rest) t 3 c = Some (ERROR_NONE, t1, ?rest)"
    unfolding t1_def using i Cons.prems(3) by (intro read_ram_page) auto
  have "read_blocks junk k' ?rest t1 3 c = Some (ERROR_NONE, t1\<lparr>snap_pages := set_pages (snap_pages t1) bs\<rparr>)"
  proof (rule Cons.IH)
    fix j q assume j: "(j, q) \<in> set bs"
    then have "j \<noteq> i" using Cons.prems(2) by (auto simp: b image_iff)
    moreover have "ram_page t1 n = ram_page t n" for n by (simp add: t1_def ram_page_def)
    ultimately show "j < 16 \<and> length q = 0x4000 \<and> 2 < num j \<and> num j \<le> 18 \<and> ram_page t1 (num j) = Some j \<and> snap_pages t1 ! j = None"
      using Cons.prems(1) [of j q] j by (auto simp: t1_def)
  qed (use Cons.prems k in \<open>auto simp: t1_def\<close>)
  moreover obtain x xs where "z80_block_bytes compress (num i) p @ ?rest = x # xs"
    by (cases "z80_block_bytes compress (num i) p") (auto simp: z80_block_bytes_def Let_def word_bytes_def split: if_splits)
  ultimately show ?case using one by (simp add: b k t1_def set_pages_def)
qed

section \<open>The round trip\<close>

text \<open>The pages the format keeps, in the order of the file, and their numbers.\<close>

definition z80_saved :: "libspectrum_snap \<Rightarrow> nat list" where
  "z80_saved s =
     (if \<not> has_capability s MACHINE_CAPABILITY_128_MEMORY then [2, 0, 5]
      else if has_capability s MACHINE_CAPABILITY_SCORP_MEMORY then [0..<16] else [0..<8])"

definition z80_number :: "libspectrum_snap \<Rightarrow> nat \<Rightarrow> nat" where
  "z80_number s i =
     (if has_capability s MACHINE_CAPABILITY_128_MEMORY then i + 3
      else if i = 2 then 4 else if i = 0 then 5 else i + 3)"

definition present :: "libspectrum_snap \<Rightarrow> nat list \<Rightarrow> (nat \<times> byte list) list" where
  "present s is = map (\<lambda>i. (i, the (snap_pages s ! i))) (filter (\<lambda>i. snap_pages s ! i \<noteq> None) is)"

text \<open>Pages of the right size, all of a 48K machine there, and no custom ROM or level data.\<close>

definition z80_memory_ok :: "libspectrum_snap \<Rightarrow> bool" where
  "z80_memory_ok s \<longleftrightarrow> length (snap_pages s) = 16 \<and>
     (\<forall>i < 16. case snap_pages s ! i of None \<Rightarrow> True | Some p \<Rightarrow> length p = 0x4000) \<and>
     (\<not> has_capability s MACHINE_CAPABILITY_128_MEMORY \<longrightarrow>
        snap_pages s ! 0 \<noteq> None \<and> snap_pages s ! 2 \<noteq> None \<and> snap_pages s ! 5 \<noteq> None)"

definition z80_plain :: "libspectrum_snap \<Rightarrow> bool" where
  "z80_plain s \<longleftrightarrow> \<not> (snap_interface1_active s \<noteq> 0 \<and> snap_interface1_custom_rom s \<noteq> 0) \<and>
     \<not> (snap_plusd_active s \<noteq> 0 \<and> snap_plusd_custom_rom s \<noteq> 0) \<and>
     snap_slt_screen s = None \<and> \<not> list_ex (\<lambda>n. n \<noteq> 0) (snap_slt_length s)"

definition z80_page_bytes :: "int \<Rightarrow> libspectrum_snap \<Rightarrow> byte list" where
  "z80_page_bytes compress s =
     concat (map (\<lambda>(i, p). z80_block_bytes compress (z80_number s i) p) (present s (z80_saved s)))"

lemma present_simps [simp]:
  "present s [] = []"
  "present s (i # is) = (case snap_pages s ! i of None \<Rightarrow> present s is | Some p \<Rightarrow> (i, p) # present s is)"
  by (auto simp: present_def split: option.splits)

lemma present_append: "present s (is @ js) = present s is @ present s js"
  by (simp add: present_def)

lemma memory_ok_page: "z80_memory_ok s \<Longrightarrow> i < 16 \<Longrightarrow> snap_pages s ! i = Some p \<Longrightarrow> length p = 0x4000"
  by (auto simp: z80_memory_ok_def split: option.splits)

lemma puts_present:
  assumes "z80_memory_ok s" "\<forall>i \<in> set is. i < 16"
  shows "buf.puts (z80_write_present junk s compress is)
    (concat (map (\<lambda>(i, p). z80_block_bytes compress (i + 3) p) (present s is)))"
  using assms(2)
proof (induction "is")
  case Nil
  have "z80_write_present junk s compress [] = Some" by (intro ext) simp
  then show ?case by (simp add: buf.puts_nothing)
next
  case (Cons i "is")
  have i: "i < length (snap_pages s)" using Cons.prems assms(1) by (simp add: z80_memory_ok_def)
  note rest = Cons.IH [OF ballI [OF Cons.prems [rule_format, OF list.set_intros(2)]]]
  show ?case
  proof (cases "snap_pages s ! i")
    case None
    then have "z80_write_present junk s compress (i # is) = z80_write_present junk s compress is"
      using i by (intro ext) (simp add: libspectrum_snap_pages_def nget_def)
    then show ?thesis using rest None by simp
  next
    case (Some p)
    then have "z80_write_present junk s compress (i # is) =
        (\<lambda>b. z80_write_page junk (i + 3) (Some p) compress b \<bind> z80_write_present junk s compress is)"
      using i by (intro ext) (simp add: libspectrum_snap_pages_def nget_def)
    moreover have "length p = 0x4000" using memory_ok_page [OF assms(1) _ Some] Cons.prems by simp
    ultimately show ?thesis using Some buf.puts_seq [OF puts_z80_page rest] by simp
  qed
qed

lemma write_plain_pages:
  assumes "z80_plain s"
  shows "z80_write_pages junk s compress b =
    (if \<not> has_capability s MACHINE_CAPABILITY_128_MEMORY then do {
       p2 \<leftarrow> libspectrum_snap_pages s 2;
       b \<leftarrow> z80_write_page junk 4 p2 compress b;
       p0 \<leftarrow> libspectrum_snap_pages s 0;
       b \<leftarrow> z80_write_page junk 5 p0 compress b;
       p5 \<leftarrow> libspectrum_snap_pages s 5;
       z80_write_page junk 8 p5 compress b }
     else do {
       b \<leftarrow> z80_write_present junk s compress [0..<8] b;
       (if has_capability s MACHINE_CAPABILITY_SCORP_MEMORY
        then z80_write_present junk s compress [8..<16] b else Some b) })"
  using assms unfolding z80_plain_def
  by (simp only: z80_write_pages_def if_False simp_thms Option.bind_lunit Option.bind_runit)

lemma puts_pages:
  assumes "z80_memory_ok s" "z80_plain s"
  shows "buf.puts (z80_write_pages junk s compress) (z80_page_bytes compress s)"
proof (cases "has_capability s MACHINE_CAPABILITY_128_MEMORY")
  case True
  have small: "\<forall>i \<in> set [0..<8]. i < (16 :: nat)" "\<forall>i \<in> set [8..<16]. i < (16 :: nat)" by auto
  show ?thesis
  proof (cases "has_capability s MACHINE_CAPABILITY_SCORP_MEMORY")
    case scorp: True
    then have "z80_write_pages junk s compress =
        (\<lambda>b. z80_write_present junk s compress [0..<8] b \<bind> z80_write_present junk s compress [8..<16])"
      using True by (intro ext) (simp only: write_plain_pages [OF assms(2)] if_True simp_thms if_False)
    moreover have "[0..<16] = [0..<8] @ [8..<16 :: nat]" by (simp add: upt_rec)
    then have "z80_page_bytes compress s =
        concat (map (\<lambda>(i, p). z80_block_bytes compress (i + 3) p) (present s [0..<8])) @
        concat (map (\<lambda>(i, p). z80_block_bytes compress (i + 3) p) (present s [8..<16]))"
      using True scorp by (simp only: z80_page_bytes_def z80_saved_def z80_number_def if_True if_False simp_thms present_append
        map_append concat_append)
    ultimately show ?thesis using buf.puts_seq [OF puts_present [OF assms(1) small(1)] puts_present [OF assms(1) small(2)]]
      by simp
  next
    case False
    then have "z80_write_pages junk s compress = z80_write_present junk s compress [0..<8]"
      using True by (intro ext) (simp only: write_plain_pages [OF assms(2)] if_True simp_thms if_False Option.bind_runit)
    then show ?thesis using puts_present [OF assms(1) small(1), of junk compress] True False
      by (simp add: z80_page_bytes_def z80_saved_def z80_number_def del: upt_rec_numeral)
  qed
next
  case False
  then obtain p0 p2 p5 where p: "snap_pages s ! 0 = Some p0" "snap_pages s ! 2 = Some p2" "snap_pages s ! 5 = Some p5"
    "length (snap_pages s) = 16"
    using assms(1) by (auto simp: z80_memory_ok_def)
  have len: "length p2 = 0x4000" "length p0 = 0x4000" "length p5 = 0x4000"
    using memory_ok_page [OF assms(1) _ p(1)] memory_ok_page [OF assms(1) _ p(2)] memory_ok_page [OF assms(1) _ p(3)] by simp_all
  have "z80_write_pages junk s compress = (\<lambda>b. z80_write_page junk 4 (Some p2) compress b \<bind>
      (\<lambda>b. z80_write_page junk 5 (Some p0) compress b \<bind> z80_write_page junk 8 (Some p5) compress))"
    using False p by (intro ext) (simp add: write_plain_pages [OF assms(2)] libspectrum_snap_pages_def nget_def)
  moreover have "z80_page_bytes compress s =
      z80_block_bytes compress 4 p2 @ z80_block_bytes compress 5 p0 @ z80_block_bytes compress 8 p5"
    using False p by (simp add: z80_page_bytes_def z80_saved_def z80_number_def)
  ultimately show ?thesis
    using buf.puts_seq [OF puts_z80_page [OF len(1)] buf.puts_seq [OF puts_z80_page [OF len(2)] puts_z80_page [OF len(3)]]]
    by simp
qed

lemma capable_z80_machine:
  "m \<noteq> MACHINE_UNKNOWN \<Longrightarrow> capable (z80_machine m) MACHINE_CAPABILITY_128_MEMORY = capable m MACHINE_CAPABILITY_128_MEMORY"
  "m \<noteq> MACHINE_UNKNOWN \<Longrightarrow> capable (z80_machine m) MACHINE_CAPABILITY_SCORP_MEMORY = capable m MACHINE_CAPABILITY_SCORP_MEMORY"
  by (cases m; simp add: libspectrum_machine_capabilities_def z80_machine_def)+

lemma scorp_is_128:
  "capable m MACHINE_CAPABILITY_SCORP_MEMORY \<Longrightarrow> capable m MACHINE_CAPABILITY_128_MEMORY"
  by (cases m; simp add: libspectrum_machine_capabilities_def)

lemma saved_numbers:
  assumes "snap_machine s \<noteq> MACHINE_UNKNOWN" "snap_machine t = z80_machine (snap_machine s)" "i \<in> set (z80_saved s)"
  shows "i < 16" "2 < z80_number s i" "z80_number s i \<le> 18" "ram_page t (z80_number s i) = Some i"
proof -
  let ?big = "has_capability s MACHINE_CAPABILITY_128_MEMORY" and ?scorp = "has_capability s MACHINE_CAPABILITY_SCORP_MEMORY"
  have same: "has_capability t MACHINE_CAPABILITY_128_MEMORY = ?big" "has_capability t MACHINE_CAPABILITY_SCORP_MEMORY = ?scorp"
    using capable_z80_machine [OF assms(1)] assms(2) by simp_all
  have i: "if \<not> ?big then i = 2 \<or> i = 0 \<or> i = 5 else i < (if ?scorp then 16 else 8)"
    using assms(3) by (simp add: z80_saved_def del: upt_rec_numeral split: if_splits)
  then show "i < 16" by (auto split: if_splits)
  show "2 < z80_number s i" by (simp add: z80_number_def)
  show "z80_number s i \<le> 18" using i by (auto simp: z80_number_def split: if_splits)
  show "ram_page t (z80_number s i) = Some i"
  proof (cases ?big)
    case True
    with i have "i + 3 = 11 \<Longrightarrow> ?scorp" by (auto split: if_splits)
    then show ?thesis using True unfolding ram_page_def same z80_number_def by simp
  next
    case False
    then show ?thesis using i unfolding ram_page_def same z80_number_def by auto
  qed
qed

lemma distinct_saved: "distinct (z80_saved s)"
  by (simp add: z80_saved_def del: upt_rec_numeral)

lemma map_of_present:
  "map_of (present s is) i = (if i \<in> set is then snap_pages s ! i else None)"
  by (induction "is") (auto split: option.splits)

lemma fst_present: "map fst (present s is) = filter (\<lambda>i. snap_pages s ! i \<noteq> None) is"
  by (simp add: present_def o_def)

lemma length_written_pages: "z80_memory_ok s \<Longrightarrow> length (z80_page_bytes compress s) \<le> 16 * (3 + 0x8000)"
proof -
  assume ok: "z80_memory_ok s"
  have each: "length (concat (map (\<lambda>(i, p). z80_block_bytes compress (f i) p) (present s is))) \<le> length is * (3 + 0x8000)"
    if "\<forall>i \<in> set is. i < 16" for f "is"
    using that
  proof (induction "is")
    case (Cons i "is")
    then show ?case using memory_ok_page [OF ok, of i] length_block_bytes
      by (auto split: option.splits intro!: add_mono le_trans [OF length_block_bytes])
  qed simp
  have "\<forall>i \<in> set (z80_saved s). i < 16" "length (z80_saved s) \<le> 16"
    by (auto simp: z80_saved_def)
  then show ?thesis using each [of "z80_saved s" "z80_number s"] mult_le_mono1 [of "length (z80_saved s)" 16 "3 + 0x8000"]
    unfolding z80_page_bytes_def by (meson le_trans)
qed

lemma length_present: "length (present s is) \<le> length is"
  by (simp add: present_def)

lemma blocks_length: "length bs \<le> length (concat (map (\<lambda>(i, p). z80_block_bytes compress (f i) p) bs))"
proof (induction bs)
  case (Cons b bs)
  have "1 \<le> length (z80_block_bytes compress (f (fst b)) (snd b))"
    by (simp add: z80_block_bytes_def Let_def word_bytes_def)
  with Cons show ?case by (cases b) simp
qed simp

lemma read_pages_written:
  assumes "z80_memory_ok s" "snap_machine s \<noteq> MACHINE_UNKNOWN" "snap_machine t = z80_machine (snap_machine s)"
    "snap_pages t = replicate 16 None" "length (z80_page_bytes compress s) \<le> k"
  shows "\<exists>q. read_blocks junk k (z80_page_bytes compress s) t 3 c = Some (ERROR_NONE, t\<lparr>snap_pages := q\<rparr>) \<and>
    length q = 16 \<and> (\<forall>i < 16. q ! i = (if i \<in> set (z80_saved s) then snap_pages s ! i else None))"
proof -
  let ?bs = "present s (z80_saved s)"
  let ?q = "set_pages (snap_pages t) ?bs"
  have dist: "distinct (map fst ?bs)" unfolding fst_present by (simp add: distinct_saved)
  have "read_blocks junk k (z80_page_bytes compress s) t 3 c = Some (ERROR_NONE, t\<lparr>snap_pages := ?q\<rparr>)"
    unfolding z80_page_bytes_def
  proof (rule read_blocks_written)
    fix i p assume "(i, p) \<in> set ?bs"
    then have i: "i \<in> set (z80_saved s)" "snap_pages s ! i = Some p"
      by (auto simp: present_def)
    note n = saved_numbers [OF assms(2,3) i(1)]
    then show "i < 16 \<and> length p = 0x4000 \<and> 2 < z80_number s i \<and> z80_number s i \<le> 18 \<and>
        ram_page t (z80_number s i) = Some i \<and> snap_pages t ! i = None"
      using memory_ok_page [OF assms(1) n(1) i(2)] assms(4) by simp
  qed (use assms(4,5) dist blocks_length [of ?bs compress "z80_number s"] in \<open>simp_all add: z80_page_bytes_def\<close>)
  moreover have "?q ! i = (if i \<in> set (z80_saved s) then snap_pages s ! i else None)" if "i < 16" for i
    using set_pages_nth [OF dist, of i "snap_pages t"] that assms(4)
    by (simp add: map_of_present split: option.splits)
  ultimately show ?thesis using assms(4) by auto
qed



end
