(* ===== verification/Snap_Small.thy ===== *)
theory Snap_Small
  imports Snapshot
begin

text \<open>
  The readers of the .snp (\<open>snp.c\<close>), .sp (\<open>sp.c\<close>) and DISCiPLE/+D (\<open>plusd.c\<close>) snapshot formats,
  none of which has a writer. Memory that the code reads or writes outside an object makes the
  result \<open>None\<close>; the theorems say exactly when that happens.
\<close>

section \<open>.snp\<close>

definition SNP_TRAILER_LENGTH :: nat where "SNP_TRAILER_LENGTH = 31"

definition libspectrum_snp_read :: "libspectrum_snap \<Rightarrow> byte list \<Rightarrow> libspectrum_snap c_result" where
  "libspectrum_snp_read snap buf =
     (if length buf < 0xc000 + SNP_TRAILER_LENGTH then Some (ERROR_CORRUPT, snap)
      else on_ok (libspectrum_split_to_48k_pages (snap\<lparr>snap_machine := MACHINE_48\<rparr>) buf) (\<lambda>snap.
        let buf = drop 0xc000 buf
        in Some (ERROR_NONE, snap\<lparr>snap_f := buf ! 0, snap_a := buf ! 1, snap_out_ula := buf ! 2,
          snap_bc := le16 buf 4, snap_de := le16 buf 6, snap_hl := le16 buf 8, snap_pc := le16 buf 10,
          snap_sp := le16 buf 12, snap_ix := le16 buf 14, snap_iy := le16 buf 16, snap_iff1 := buf ! 18,
          snap_iff2 := buf ! 19, snap_im := buf ! 20, snap_r := buf ! 21, snap_i := buf ! 22,
          snap_f' := buf ! 23, snap_a' := buf ! 24, snap_bc' := le16 buf 25, snap_de' := le16 buf 27,
          snap_hl' := le16 buf 29\<rparr>)))"

section \<open>.sp\<close>

definition SP_HEADER_LENGTH :: nat where "SP_HEADER_LENGTH = 37"

text \<open>The registers, from the ninth byte of the header on.\<close>

definition sp_read_registers :: "byte list \<Rightarrow> libspectrum_snap \<Rightarrow> libspectrum_snap" where
  "sp_read_registers buf snap = snap\<lparr>snap_bc := le16 buf 0, snap_de := le16 buf 2, snap_hl := le16 buf 4,
     snap_f := buf ! 6, snap_a := buf ! 7, snap_ix := le16 buf 8, snap_iy := le16 buf 10,
     snap_bc' := le16 buf 12, snap_de' := le16 buf 14, snap_hl' := le16 buf 16, snap_f' := buf ! 18,
     snap_a' := buf ! 19, snap_r := buf ! 20, snap_i := buf ! 21, snap_sp := le16 buf 22,
     snap_pc := le16 buf 24, snap_out_ula := buf ! 28\<rparr>"

definition sp_read_flags :: "lword \<Rightarrow> libspectrum_snap \<Rightarrow> libspectrum_snap" where
  "sp_read_flags flags snap = snap\<lparr>snap_iff1 := ucast (flags AND 0x01),
     snap_iff2 := ucast (drop_bit 2 (flags AND 0x04)),
     snap_im := (if flags AND 0x08 \<noteq> 0 then 0 else if flags AND 0x02 \<noteq> 0 then 2 else 1)\<rparr>"

definition libspectrum_sp_read :: "libspectrum_snap \<Rightarrow> byte list \<Rightarrow> libspectrum_snap c_result" where
  "libspectrum_sp_read snap buf =
     (if length buf < SP_HEADER_LENGTH then Some (ERROR_CORRUPT, snap)
      else if buf ! 0 \<noteq> 0x53 \<or> buf ! 1 \<noteq> 0x50 then Some (ERROR_SIGNATURE, snap)
      else do {
        (memory_length, _) \<leftarrow> libspectrum_read_word buf 2;
        (start, _) \<leftarrow> libspectrum_read_word buf 4;
        (if unat start + unat memory_length > 0x10000 then Some (ERROR_CORRUPT, snap)
         else do {
           let snap = snap\<lparr>snap_machine :=
             (if unat start + unat memory_length < 0x8000 then MACHINE_16 else MACHINE_48)\<rparr>;
           let snap = sp_read_registers (drop 6 buf) snap;
           (flags, _) \<leftarrow> libspectrum_read_word buf 36;
           let snap = sp_read_flags flags snap;
           memory \<leftarrow> memcpy_at (replicate 0xc000 0) (unat start) (drop 38 buf) (unat memory_length);
           libspectrum_split_to_48k_pages snap memory }) })"

section \<open>DISCiPLE/+D\<close>

definition PLUSD_HEADER_LENGTH :: nat where "PLUSD_HEADER_LENGTH = 22"

definition plusd_identify_machine :: "nat \<Rightarrow> libspectrum_snap \<Rightarrow> libspectrum_snap c_result" where
  "plusd_identify_machine buffer_length snap = Some
     (if buffer_length = PLUSD_HEADER_LENGTH + 0xc000 then (ERROR_NONE, snap\<lparr>snap_machine := MACHINE_48\<rparr>)
      else if buffer_length = PLUSD_HEADER_LENGTH + 1 + 0x20000
      then (ERROR_NONE, snap\<lparr>snap_machine := MACHINE_128\<rparr>)
      else (ERROR_CORRUPT, snap))"

definition libspectrum_plusd_read_header :: "byte list \<Rightarrow> libspectrum_snap \<Rightarrow> libspectrum_snap c_result" where
  "libspectrum_plusd_read_header buf snap = Some (ERROR_NONE, snap\<lparr>snap_iy := le16 buf 0, snap_ix := le16 buf 2,
     snap_de' := le16 buf 4, snap_bc' := le16 buf 6, snap_hl' := le16 buf 8, snap_f' := buf ! 10,
     snap_a' := buf ! 11, snap_de := le16 buf 12, snap_bc := le16 buf 14, snap_hl := le16 buf 16,
     snap_i := buf ! 19, snap_sp := le16 buf 20, snap_im := (if buf ! 19 = 0 \<or> buf ! 19 = 63 then 1 else 2)\<rparr>)"

definition readbyte :: "libspectrum_snap \<Rightarrow> lword \<Rightarrow> byte option" where
  "readbyte snap address = (let bank = unat (drop_bit 14 address) in
     if bank = 0 then Some 0
     else do {
       ram \<leftarrow> libspectrum_snap_pages snap
         (if bank = 1 then 5 else if bank = 2 then 2 else unat (snap_out_128_memoryport snap AND 0x07));
       ram \<leftarrow> ram;
       nget ram (unat (address AND 0x3fff)) })"

fun plusd_read_pages :: "nat list \<Rightarrow> byte list \<Rightarrow> libspectrum_snap \<Rightarrow> libspectrum_snap option" where
  "plusd_read_pages [] buf snap = Some snap"
| "plusd_read_pages (i # is) buf snap = do {
     ram \<leftarrow> copy_out buf 0 0x4000;
     snap \<leftarrow> libspectrum_snap_set_pages snap i (Some ram);
     plusd_read_pages is (drop 0x4000 buf) snap }"

definition libspectrum_plusd_read_128_data :: "libspectrum_snap \<Rightarrow> byte list \<Rightarrow> libspectrum_snap option" where
  "libspectrum_plusd_read_128_data snap buf = plusd_read_pages [0..<8] buf snap"

text \<open>R, IFF, AF and PC from the stack.\<close>

definition plusd_unstack :: "lword \<Rightarrow> libspectrum_snap \<Rightarrow> libspectrum_snap c_result" where
  "plusd_unstack sp snap = do {
     iff \<leftarrow> readbyte snap sp;
     r \<leftarrow> readbyte snap (sp + 1);
     f \<leftarrow> readbyte snap (sp + 2);
     a \<leftarrow> readbyte snap (sp + 3);
     lo \<leftarrow> readbyte snap (sp + 4);
     hi \<leftarrow> readbyte snap (sp + 5);
     Some (ERROR_NONE, snap\<lparr>snap_r := r, snap_iff1 := iff AND 0x04, snap_iff2 := iff AND 0x04,
       snap_f := f, snap_a := a, snap_pc := ucast lo + ucast hi * 0x100, snap_sp := sp + 6\<rparr>) }"

definition libspectrum_plusd_read_data :: "byte list \<Rightarrow> libspectrum_snap \<Rightarrow> libspectrum_snap c_result" where
  "libspectrum_plusd_read_data buf snap = (let sp = snap_sp snap in
     if sp < 0x4000 \<or> sp > 0xfffa then Some (ERROR_CORRUPT, snap)
     else if snap_machine snap = MACHINE_48 then
       on_ok (libspectrum_split_to_48k_pages snap buf) (plusd_unstack sp)
     else if snap_machine snap = MACHINE_128 then do {
       port \<leftarrow> nget buf 0;
       snap \<leftarrow> libspectrum_plusd_read_128_data (snap\<lparr>snap_out_128_memoryport := port\<rparr>) (drop 1 buf);
       plusd_unstack sp snap }
     else Some (ERROR_LOGIC, snap))"

definition libspectrum_plusd_read :: "libspectrum_snap \<Rightarrow> byte list \<Rightarrow> libspectrum_snap c_result" where
  "libspectrum_plusd_read snap buf =
     on_ok (plusd_identify_machine (length buf) snap) (\<lambda>snap.
     on_ok (libspectrum_plusd_read_header buf snap) (\<lambda>snap.
       libspectrum_plusd_read_data (drop PLUSD_HEADER_LENGTH buf) snap))"

section \<open>When the readers are defined\<close>

lemma read_word_inside: "i + 1 < length buf \<Longrightarrow> libspectrum_read_word buf i = Some (le16 buf i, i + 2)"
  by (simp add: libspectrum_read_word_def le16_def nget_def)

lemma read_word_outside: "length buf \<le> i + 1 \<Longrightarrow> libspectrum_read_word buf i = None"
  by (simp add: libspectrum_read_word_def nget_def bind_eq_None_conv)

lemma split_pages_empty:
  assumes "snap_pages s = replicate 16 None" "length data \<ge> 0xc000"
  shows "libspectrum_split_to_48k_pages s data = Some (ERROR_NONE, s\<lparr>snap_pages :=
    (replicate 16 None)[5 := Some (take 0x4000 data), 2 := Some (take 0x4000 (drop 0x4000 data)),
      0 := Some (take 0x4000 (drop 0x8000 data))]\<rparr>)"
  using assms by (simp add: libspectrum_split_to_48k_pages_def libspectrum_snap_pages_def libspectrum_snap_set_pages_def
    nget_def nset_def copy_out_def)

text \<open>
  C12: The .sp reader checks a memory dump against the end of the address space but copies it to
  its address, not to its offset from the start of RAM, in a buffer of 48K, and does not check
  that the dump is in the file: reading a file whose signature and addresses are accepted has
  undefined behaviour exactly when the dump ends above 0xc000 or is cut short, or the file ends
  within the header. A dump of the whole RAM always overflows.
\<close>

theorem sp_read_overflows:
  assumes "snap_pages s = replicate 16 None"
  shows "libspectrum_sp_read s buf = None \<longleftrightarrow>
    37 \<le> length buf \<and> buf ! 0 = 0x53 \<and> buf ! 1 = 0x50 \<and> unat (le16 buf 4) + unat (le16 buf 2) \<le> 0x10000 \<and>
    (length buf = 37 \<or> unat (le16 buf 4) + unat (le16 buf 2) > 0xc000 \<or> length buf < 38 + unat (le16 buf 2))"
proof (cases "37 \<le> length buf \<and> buf ! 0 = 0x53 \<and> buf ! 1 = 0x50 \<and> unat (le16 buf 4) + unat (le16 buf 2) \<le> 0x10000")
  case False
  then show ?thesis
    by (auto simp: libspectrum_sp_read_def SP_HEADER_LENGTH_def read_word_inside)
next
  case True
  define s' where "s' = (\<lambda>flags. sp_read_flags flags (sp_read_registers (drop 6 buf) (s\<lparr>snap_machine :=
    (if unat (le16 buf 4) + unat (le16 buf 2) < 0x8000 then MACHINE_16 else MACHINE_48)\<rparr>)))"
  have pages: "snap_pages (s' flags) = replicate 16 None" for flags
    using assms by (simp add: s'_def sp_read_flags_def sp_read_registers_def)
  have result: "libspectrum_sp_read s buf = do {
      (flags, _) \<leftarrow> libspectrum_read_word buf 36;
      memory \<leftarrow> memcpy_at (replicate 0xc000 0) (unat (le16 buf 4)) (drop 38 buf) (unat (le16 buf 2));
      libspectrum_split_to_48k_pages (s' flags) memory }"
    using True by (simp add: libspectrum_sp_read_def SP_HEADER_LENGTH_def read_word_inside s'_def Let_def split_def)
  show ?thesis
  proof (cases "length buf = 37 \<or> unat (le16 buf 4) + unat (le16 buf 2) > 0xc000 \<or> length buf < 38 + unat (le16 buf 2)")
    case bad: True
    have "libspectrum_sp_read s buf = None"
    proof (cases "length buf = 37")
      case True
      then show ?thesis by (simp add: result read_word_outside)
    next
      case False
      with True have "36 + 1 < length buf" by simp
      moreover have "memcpy_at (replicate 0xc000 (0 :: byte)) (unat (le16 buf 4)) (drop 38 buf) (unat (le16 buf 2)) = None"
        using bad False True by (auto simp: memcpy_at_def)
      ultimately show ?thesis by (simp add: result read_word_inside)
    qed
    then show ?thesis using True bad by simp
  next
    case good: False
    moreover from good True have "unat (le16 buf 2) \<le> length buf - 38" by linarith
    ultimately obtain memory where memory: "memcpy_at (replicate 0xc000 (0 :: byte)) (unat (le16 buf 4)) (drop 38 buf)
        (unat (le16 buf 2)) = Some memory"
      by (simp add: memcpy_at_def)
    then have "length memory = 0xc000" using memcpy_at_length by fastforce
    then have "libspectrum_sp_read s buf \<noteq> None"
      using good True by (simp add: result read_word_inside memory split_pages_empty [OF pages])
    then show ?thesis using good by blast
  qed
qed

theorem sp_read_overflows_witness:
  "\<forall>raw. let s = libspectrum_snap_alloc raw;
      whole_ram = [0x53, 0x50, 0x00, 0xc0, 0x00, 0x40] @ replicate (32 + 0xc000) 0 in
    libspectrum_sp_read s whole_ram = None"
  unfolding Let_def
proof
  fix raw
  define d :: "byte list" where "d = replicate (32 + 0xc000) 0"
  have "length d = 32 + 0xc000" by (simp add: d_def)
  then show "libspectrum_sp_read (libspectrum_snap_alloc raw) ([0x53, 0x50, 0x00, 0xc0, 0x00, 0x40] @ replicate (32 + 0xc000) 0) = None"
    unfolding d_def [symmetric]
    by (subst sp_read_overflows) (simp_all add: libspectrum_snap_alloc_def le16_def)
qed

lemma bank_page: "address \<ge> 0x4000 \<Longrightarrow> address < 0xc000 \<Longrightarrow>
    unat (drop_bit 14 (address :: lword)) = 1 \<or> unat (drop_bit 14 address) = 2"
  by (simp add: drop_bit_eq_div word_le_nat_alt word_less_nat_alt unat_div) linarith

lemma bank_top: "address \<ge> 0xc000 \<Longrightarrow> unat (drop_bit 14 (address :: lword)) = 3"
  using unsigned_less [of address, where ?'a = nat]
  by (simp add: drop_bit_eq_div word_le_nat_alt word_less_nat_alt unat_div)

lemma low_bits: "unat (address AND 0x3fff :: lword) < 0x4000"
proof -
  have "address AND 0x3fff \<le> (0x3fff :: lword)" by (rule word_and_le1)
  then show ?thesis by (simp add: word_le_nat_alt)
qed

lemma unstack_None: "plusd_unstack sp s = None \<longleftrightarrow> (\<exists>i \<in> {0, 1, 2, 3, 4, 5}. readbyte s (sp + i) = None)"
  by (auto simp: plusd_unstack_def bind_eq_None_conv)
lemma readbyte_page:
  assumes "length (snap_pages s) = 16" "snap_pages s ! 5 = Some p5" "length p5 = 0x4000"
    "snap_pages s ! 2 = Some p2" "length p2 = 0x4000" "0x4000 \<le> a"
    "0xc000 \<le> a \<Longrightarrow> \<exists>p. snap_pages s ! unat (snap_out_128_memoryport s AND 7) = Some p \<and> length p = 0x4000"
  shows "readbyte s a \<noteq> None"
proof (cases "a < 0xc000")
  case True
  then show ?thesis using bank_page [OF assms(6)] assms low_bits [of a]
    by (auto simp: readbyte_def Let_def libspectrum_snap_pages_def nget_def)
next
  case False
  then have a: "0xc000 \<le> a" by simp
  have "unat (snap_out_128_memoryport s AND 7) < 16"
    using word_and_le1 [of "snap_out_128_memoryport s" 7] by (simp add: word_le_nat_alt)
  then show ?thesis using bank_top [OF a] assms(7) [OF a] assms(1) low_bits [of a]
    by (auto simp: readbyte_def Let_def libspectrum_snap_pages_def nget_def)
qed

lemma readbyte_no_page:
  assumes "0xc000 \<le> a" "snap_pages s ! 7 = None" "snap_out_128_memoryport s = 7"
  shows "readbyte s a = None"
  using bank_top [OF assms(1)] assms(2,3)
  by (auto simp: readbyte_def Let_def libspectrum_snap_pages_def nget_def bind_eq_None_conv)

lemma stack_addresses:
  assumes "0x4000 \<le> sp" "sp \<le> 0xfffa" "i \<in> {0, 1, 2, 3, 4, 5 :: lword}"
  shows "0x4000 \<le> sp + i" "sp + i \<le> sp + 5"
proof -
  have i: "unat i \<le> 5" using assms(3) by auto
  have "unat (sp + i) = unat sp + unat i"
    using i assms(2) by (simp add: unat_word_ariths word_le_nat_alt)
  moreover have "unat (sp + 5) = unat sp + 5"
    using assms(2) by (simp add: unat_word_ariths word_le_nat_alt)
  ultimately show "0x4000 \<le> sp + i" "sp + i \<le> sp + 5"
    using i assms(1) by (simp_all add: word_le_nat_alt)
qed

lemma read_pages_there:
  assumes "0x4000 * length is \<le> length buf" "\<forall>i \<in> set is. i < 16" "length (snap_pages s) = 16"
  shows "\<exists>t. plusd_read_pages is buf s = Some t \<and> length (snap_pages t) = 16 \<and>
    snap_out_128_memoryport t = snap_out_128_memoryport s \<and>
    (\<forall>i. (\<exists>p. snap_pages s ! i = Some p \<and> length p = 0x4000) \<or> i \<in> set is \<longrightarrow>
      (\<exists>p. snap_pages t ! i = Some p \<and> length p = 0x4000))"
  using assms
proof (induction "is" arbitrary: buf s)
  case (Cons i "is")
  define u where "u = s\<lparr>snap_pages := (snap_pages s)[i := Some (take 0x4000 buf)]\<rparr>"
  have "\<exists>t. plusd_read_pages is (drop 0x4000 buf) u = Some t \<and> length (snap_pages t) = 16 \<and>
    snap_out_128_memoryport t = snap_out_128_memoryport u \<and>
    (\<forall>i. (\<exists>p. snap_pages u ! i = Some p \<and> length p = 0x4000) \<or> i \<in> set is \<longrightarrow>
      (\<exists>p. snap_pages t ! i = Some p \<and> length p = 0x4000))"
    by (rule Cons.IH) (use Cons.prems in \<open>auto simp: u_def\<close>)
  then obtain t where t: "plusd_read_pages is (drop 0x4000 buf) u = Some t" "length (snap_pages t) = 16"
    "snap_out_128_memoryport t = snap_out_128_memoryport u"
    "\<And>i. (\<exists>p. snap_pages u ! i = Some p \<and> length p = 0x4000) \<or> i \<in> set is \<Longrightarrow>
      \<exists>p. snap_pages t ! i = Some p \<and> length p = 0x4000"
    by blast
  have u: "snap_pages u ! j = (if j = i then Some (take 0x4000 buf) else snap_pages s ! j)" for j
    using Cons.prems by (auto simp: u_def nth_list_update)
  have "plusd_read_pages (i # is) buf s = Some t"
    using Cons.prems t(1) by (simp add: copy_out_def libspectrum_snap_set_pages_def nset_def u_def)
  moreover have "\<exists>p. snap_pages t ! j = Some p \<and> length p = 0x4000"
    if "(\<exists>p. snap_pages s ! j = Some p \<and> length p = 0x4000) \<or> j \<in> set (i # is)" for j
    using that t(4) [of j] Cons.prems(1) by (cases "j = i") (auto simp: u)
  moreover have "snap_out_128_memoryport t = snap_out_128_memoryport s" using t(3) by (simp add: u_def)
  ultimately show ?case using t(2) by blast
qed simp

lemma plusd_128_defined:
  assumes "snap_pages s = replicate 16 None" "length buf = 1 + 0x20000" "snap_machine s = MACHINE_128"
  shows "libspectrum_plusd_read_data buf s \<noteq> None"
proof (cases "snap_sp s < 0x4000 \<or> snap_sp s > 0xfffa")
  case False
  then have sp: "0x4000 \<le> snap_sp s" "snap_sp s \<le> 0xfffa" by (simp_all add: not_less)
  obtain port rest where buf: "buf = port # rest" "length rest = 0x20000" using assms(2) by (cases buf) auto
  let ?s = "s\<lparr>snap_out_128_memoryport := port\<rparr>"
  obtain t where t: "plusd_read_pages [0..<8] rest ?s = Some t" "length (snap_pages t) = 16"
    "\<And>i. i < 8 \<Longrightarrow> \<exists>p. snap_pages t ! i = Some p \<and> length p = 0x4000"
    using read_pages_there [of "[0..<8]" rest ?s] buf(2) assms(1) by (auto simp del: upt_rec_numeral)
  have port: "unat (snap_out_128_memoryport t AND 7) < 8"
    using word_and_le1 [of "snap_out_128_memoryport t" 7] by (simp add: word_le_nat_alt)
  obtain p5 p2 where p: "snap_pages t ! 5 = Some p5" "length p5 = 0x4000" "snap_pages t ! 2 = Some p2" "length p2 = 0x4000"
    using t(3) [of 5] t(3) [of 2] by auto
  have "readbyte t (snap_sp s + i) \<noteq> None" if "i \<in> {0, 1, 2, 3, 4, 5}" for i
    by (rule readbyte_page [OF t(2) p]) (use stack_addresses(1) [OF sp that] t(3) [OF port] in simp_all)
  then have "plusd_unstack (snap_sp s) t \<noteq> None" unfolding unstack_None by blast
  then show ?thesis using False t(1) assms(3)
    by (simp add: libspectrum_plusd_read_data_def Let_def buf(1) libspectrum_plusd_read_128_data_def nget_def del: upt_rec_numeral)
qed (simp add: libspectrum_plusd_read_data_def)

lemma plusd_48_unstack:
  assumes s: "snap_pages s = replicate 16 None" "snap_out_128_memoryport s = 7" and "length buf = 0xc000"
    "0x4000 \<le> sp" "sp \<le> 0xfffa"
  shows "on_ok (libspectrum_split_to_48k_pages s buf) (plusd_unstack sp) = None \<longleftrightarrow> 0xc000 \<le> sp + 5"
proof -
  define t where "t = s\<lparr>snap_pages :=
    (replicate 16 None)[5 := Some (take 0x4000 buf), 2 := Some (take 0x4000 (drop 0x4000 buf)),
      0 := Some (take 0x4000 (drop 0x8000 buf))]\<rparr>"
  have split: "libspectrum_split_to_48k_pages s buf = Some (ERROR_NONE, t)"
    using split_pages_empty [OF s(1), of buf] assms(3) by (simp add: t_def)
  have t: "snap_pages t ! 7 = None" "snap_out_128_memoryport t = 7" "length (snap_pages t) = 16"
    "snap_pages t ! 5 = Some (take 0x4000 buf)" "snap_pages t ! 2 = Some (take 0x4000 (drop 0x4000 buf))"
    using s by (simp_all add: t_def)
  show ?thesis
  proof (cases "0xc000 \<le> sp + 5")
    case True
    have "readbyte t (sp + 5) = None" by (rule readbyte_no_page) (use True t in simp_all)
    then show ?thesis using True unfolding split by (simp add: unstack_None)
  next
    case False
    have "readbyte t (sp + i) \<noteq> None" if "i \<in> {0, 1, 2, 3, 4, 5}" for i
    proof (rule readbyte_page [OF t(3,4) _ t(5)])
      assume "0xc000 \<le> sp + i"
      then show "\<exists>p. snap_pages t ! unat (snap_out_128_memoryport t AND 7) = Some p \<and> length p = 0x4000"
        using stack_addresses(2) [OF assms(4,5) that] False by (meson order_trans)
    qed (use assms(3) stack_addresses(1) [OF assms(4,5) that] in simp_all)
    then have "plusd_unstack sp t \<noteq> None" unfolding unstack_None by blast
    then show ?thesis using False unfolding split by simp
  qed
qed

text \<open>
  C13: The +D reader takes the stacked registers of a 48K file through the paging port, which is 7
  in a new snapshot, although only the pages 5, 2 and 0 of a 48K machine exist: of all files it
  has undefined behaviour (it dereferences a null pointer) exactly for the 48K files whose stack
  is in the top 16K.
\<close>

theorem plusd_high_stack:
  "libspectrum_plusd_read (libspectrum_snap_alloc raw) buf = None \<longleftrightarrow>
     length buf = 22 + 0xc000 \<and> le16 buf 20 + 5 \<ge> 0xc000 \<and> le16 buf 20 \<ge> 0x4000 \<and> le16 buf 20 \<le> 0xfffa"
proof -
  let ?sp = "le16 buf 20"
  define s where "s = (\<lambda>m. snd (the (libspectrum_plusd_read_header buf ((libspectrum_snap_alloc raw)\<lparr>snap_machine := m\<rparr>))))"
  have s: "snap_pages (s m) = replicate 16 None" "snap_out_128_memoryport (s m) = 7" "snap_sp (s m) = ?sp"
    "snap_machine (s m) = m"
    "libspectrum_plusd_read_header buf ((libspectrum_snap_alloc raw)\<lparr>snap_machine := m\<rparr>) = Some (ERROR_NONE, s m)" for m
    by (simp_all add: s_def libspectrum_plusd_read_header_def libspectrum_snap_alloc_def)
  have range: "\<not> (?sp < 0x4000 \<or> ?sp > 0xfffa) \<longleftrightarrow> ?sp \<ge> 0x4000 \<and> ?sp \<le> 0xfffa"
    by (simp add: not_less)
  have small: "libspectrum_plusd_read (libspectrum_snap_alloc raw) buf = libspectrum_plusd_read_data (drop 22 buf) (s MACHINE_48)"
    if "length buf = 22 + 0xc000"
    using that s(5) [of MACHINE_48] by (simp add: libspectrum_plusd_read_def plusd_identify_machine_def PLUSD_HEADER_LENGTH_def)
  have big: "libspectrum_plusd_read (libspectrum_snap_alloc raw) buf = libspectrum_plusd_read_data (drop 22 buf) (s MACHINE_128)"
    if "length buf = 22 + 1 + 0x20000"
    using that s(5) [of MACHINE_128] by (simp add: libspectrum_plusd_read_def plusd_identify_machine_def PLUSD_HEADER_LENGTH_def)
  consider "length buf = 22 + 0xc000" | "length buf = 22 + 1 + 0x20000"
    | "length buf \<noteq> 22 + 0xc000" "length buf \<noteq> 22 + 1 + 0x20000" by blast
  then show ?thesis
  proof cases
    case 1
    show ?thesis
    proof (cases "?sp \<ge> 0x4000 \<and> ?sp \<le> 0xfffa")
      case True
      then show ?thesis using plusd_48_unstack [OF s(1,2) [of MACHINE_48], of "drop 22 buf" ?sp] 1 s(3,4)
        by (simp add: small libspectrum_plusd_read_data_def Let_def not_less [symmetric] del: not_less)
    next
      case False
      then show ?thesis by (simp add: small [OF 1] libspectrum_plusd_read_data_def s range) (auto simp: not_le)
    qed
  next
    case 2
    have "libspectrum_plusd_read_data (drop 22 buf) (s MACHINE_128) \<noteq> None"
      using 2 by (intro plusd_128_defined s) simp
    then show ?thesis using 2 by (simp add: big)
  next
    case 3
    then show ?thesis by (simp add: libspectrum_plusd_read_def plusd_identify_machine_def PLUSD_HEADER_LENGTH_def)
  qed
qed

end
