(* ===== verification/Zlib.thy ===== *)
theory Zlib
  imports LS_Core
begin

text \<open>
  Compressed data: \<open>zlib.c\<close> and \<open>bzip2.c\<close>. The libraries zlib and libbz2 are parameters, given by
  the calls the code makes: the state of a stream is opaque, and a call that produces data gives
  the bytes it puts at \<open>next_out\<close>, of which there are at most \<open>avail_out\<close>. The source is the list
  of the bytes from the pointer to the end of its object; that the object holds as many bytes as
  \<open>avail_in\<close> says is what zlib requires of its callers, so anything else is undefined.
\<close>

section \<open>The libraries\<close>

datatype zlib_code =
    Z_OK | Z_STREAM_END | Z_NEED_DICT | Z_DATA_ERROR | Z_MEM_ERROR | Z_BUF_ERROR | Z_VERSION_ERROR | Z_OTHER

text \<open>
  \<open>inflate_init raw src\<close> is \<open>inflateInit\<close>, or \<open>inflateInit2\<close> with no zlib header, on a stream with
  the input \<open>src\<close>; \<open>zlib_inflate_call z stream finish n\<close> is a call with room for \<open>n\<close> bytes.
  \<open>compress2\<close> is called with \<open>(uLongf)( length * 1.001 ) + 12\<close> bytes of room for its result; as the
  product is one of doubles, this size is left to the parameter.
\<close>

record 's zlib =
  zlib_uncompress :: "byte list \<Rightarrow> nat \<Rightarrow> zlib_code \<times> byte list"
  zlib_compress2 :: "byte list \<Rightarrow> zlib_code \<times> byte list"
  zlib_crc32 :: "byte list \<Rightarrow> dword"
  zlib_inflate_init :: "bool \<Rightarrow> byte list \<Rightarrow> zlib_code \<times> 's"
  zlib_inflate_call :: "'s \<Rightarrow> bool \<Rightarrow> nat \<Rightarrow> zlib_code \<times> 's \<times> byte list"
  zlib_inflate_end :: "'s \<Rightarrow> zlib_code"

datatype bzip2_code = BZ_OK | BZ_STREAM_END | BZ_MEM_ERROR | BZ_OTHER

record 'b bzip2 =
  bz_buff_to_buff :: "byte list \<Rightarrow> nat \<Rightarrow> bzip2_code \<times> byte list"
  bz_init :: "byte list \<Rightarrow> bzip2_code \<times> 'b"
  bz_decompress :: "'b \<Rightarrow> nat \<Rightarrow> bzip2_code \<times> 'b \<times> byte list"
  bz_end :: "'b \<Rightarrow> bzip2_code"

section \<open>Inflating\<close>

text \<open>The loop for a length that is not known; \<open>None\<close> if it does not end.\<close>

partial_function (option) inflate_loop ::
    "'s zlib \<Rightarrow> 's \<Rightarrow> byte list \<Rightarrow> dword \<Rightarrow> (zlib_code \<times> 's \<times> byte list) option" where
  "inflate_loop z stream out avail_out =
     (let avail_out = avail_out + 16384;
          (error, stream, new) = zlib_inflate_call z stream False (unat avail_out)
      in if error = Z_OK then inflate_loop z stream (out @ new) (avail_out - of_nat (length new))
         else Some (error, stream, out @ new))"

definition inflate_error :: "zlib_code \<Rightarrow> libspectrum_error" where
  "inflate_error error =
     (case error of
        Z_NEED_DICT \<Rightarrow> ERROR_UNKNOWN
      | Z_DATA_ERROR \<Rightarrow> ERROR_CORRUPT
      | Z_MEM_ERROR \<Rightarrow> ERROR_MEMORY
      | Z_BUF_ERROR \<Rightarrow> ERROR_CORRUPT
      | _ \<Rightarrow> ERROR_LOGIC)"

text \<open>
  The result is the inflated data; \<open>outlength\<close> is what the caller put in \<open>*outlength\<close>, and the
  length of the data is what it has after the call. The data is not freed when an error of
  \<open>inflateInit\<close> is returned, where it was never set.
\<close>

definition zlib_inflate :: "'s zlib \<Rightarrow> byte list \<Rightarrow> size_t \<Rightarrow> size_t \<Rightarrow> bool \<Rightarrow> byte list c_result" where
  "zlib_inflate z src gzlength outlength gzip_hack = do {
     input \<leftarrow> copy_out src 0 (unat (ucast gzlength :: dword));
     let (error, stream) = zlib_inflate_init z gzip_hack input;
     (if error \<noteq> Z_OK then Some (ERROR_MEMORY, [])
      else do {
        (error, stream, out) \<leftarrow>
          (if outlength \<noteq> 0 then Some (zlib_inflate_call z stream True (unat (ucast outlength :: dword)))
           else inflate_loop z stream [] 0);
        Some (if error \<noteq> Z_STREAM_END then (inflate_error error, [])
              else if zlib_inflate_end z stream \<noteq> Z_OK then (ERROR_LOGIC, [])
              else (ERROR_NONE, out)) }) }"

definition libspectrum_zlib_inflate :: "'s zlib \<Rightarrow> byte list \<Rightarrow> size_t \<Rightarrow> size_t \<Rightarrow> byte list c_result" where
  "libspectrum_zlib_inflate z gzptr gzlength outlength = zlib_inflate z gzptr gzlength outlength False"

definition libspectrum_zip_inflate :: "'s zlib \<Rightarrow> byte list \<Rightarrow> size_t \<Rightarrow> size_t \<Rightarrow> byte list c_result" where
  "libspectrum_zip_inflate z zipptr ziplength outlength = zlib_inflate z zipptr ziplength outlength True"

section \<open>The header of gzip files\<close>

text \<open>What is left of the data: the length of the list is that of the object, \<open>len\<close> the number of bytes the code counts.\<close>

fun skip_null_terminated_string :: "byte list \<Rightarrow> nat \<Rightarrow> (byte list \<times> nat) c_result" where
  "skip_null_terminated_string [] len = None"
| "skip_null_terminated_string (b # p) len =
     (if b \<noteq> 0 \<and> len \<noteq> 0 then skip_null_terminated_string p (len - 1)
      else if len = 0 then Some (ERROR_CORRUPT, b # p, len)
      else Some (ERROR_NONE, p, len - 1))"

definition skip_gzip_header :: "byte list \<Rightarrow> nat \<Rightarrow> (byte list \<times> nat) c_result" where
  "skip_gzip_header gz len =
     (if len < 10 then Some (ERROR_CORRUPT, gz, len)
      else do {
        b0 \<leftarrow> nget gz 0; b1 \<leftarrow> nget gz 1; b2 \<leftarrow> nget gz 2; flags \<leftarrow> nget gz 3;
        (if b0 \<noteq> 0x1f \<or> b1 \<noteq> 0x8b then Some (ERROR_CORRUPT, gz, len)
         else if b2 \<noteq> 8 then Some (ERROR_UNKNOWN, gz, len)
         else on_ok
           (if flags AND 0x04 \<noteq> 0 then
              (if len - 10 < 2 then Some (ERROR_CORRUPT, drop 10 gz, len - 10)
               else do {
                 (extra, _) \<leftarrow> libspectrum_read_word gz 10;
                 (if len - 12 < unat extra then Some (ERROR_CORRUPT, drop 12 gz, len - 12)
                  else Some (ERROR_NONE, drop 12 gz, len - 12)) })
            else Some (ERROR_NONE, drop 10 gz, len - 10)) (\<lambda>(gz, len).
         on_ok
           (if flags AND 0x08 \<noteq> 0 then skip_null_terminated_string gz len else Some (ERROR_NONE, gz, len)) (\<lambda>(gz, len).
         on_ok
           (if flags AND 0x10 \<noteq> 0 then skip_null_terminated_string gz len else Some (ERROR_NONE, gz, len)) (\<lambda>(gz, len).
         if flags AND 0x02 \<noteq> 0 \<and> len < 2 then Some (ERROR_CORRUPT, gz, len)
         else Some (ERROR_NONE, gz, len))))) })"

definition libspectrum_gzip_inflate :: "'s zlib \<Rightarrow> byte list \<Rightarrow> size_t \<Rightarrow> byte list c_result" where
  "libspectrum_gzip_inflate z gzptr outlength = do {
     (error, rest, len) \<leftarrow> skip_gzip_header gzptr (length gzptr);
     (if error \<noteq> ERROR_NONE then Some (error, [])
      else zlib_inflate z rest (of_nat len) outlength True) }"

section \<open>Deflating\<close>

definition libspectrum_zlib_compress :: "'s zlib \<Rightarrow> byte list \<Rightarrow> libspectrum_error \<times> byte list" where
  "libspectrum_zlib_compress z data =
     (let (gzret, gz) = zlib_compress2 z data
      in case gzret of
           Z_OK \<Rightarrow> (ERROR_NONE, gz)
         | Z_MEM_ERROR \<Rightarrow> (ERROR_MEMORY, [])
         | Z_VERSION_ERROR \<Rightarrow> (ERROR_UNKNOWN, [])
         | _ \<Rightarrow> (ERROR_LOGIC, []))"

section \<open>bzip2\<close>

partial_function (option) bzip2_loop ::
    "'b bzip2 \<Rightarrow> 'b \<Rightarrow> nat \<Rightarrow> byte list \<Rightarrow> dword \<Rightarrow> byte list c_result" where
  "bzip2_loop bz stream bzlength out avail_out =
     (let (error, stream, new) = bz_decompress bz stream (unat avail_out)
      in case error of
           BZ_STREAM_END \<Rightarrow>
             Some (if bz_end bz stream \<noteq> BZ_OK then (ERROR_LOGIC, []) else (ERROR_NONE, out @ new))
         | BZ_OK \<Rightarrow> bzip2_loop bz stream bzlength (out @ new) (avail_out - of_nat (length new) + of_nat bzlength)
         | _ \<Rightarrow> Some (ERROR_LOGIC, []))"

definition libspectrum_bzip2_inflate :: "'b bzip2 \<Rightarrow> byte list \<Rightarrow> size_t \<Rightarrow> byte list c_result" where
  "libspectrum_bzip2_inflate bz bzptr outlength =
     (if outlength \<noteq> 0 then
        let (error, out) = bz_buff_to_buff bz bzptr (unat (ucast outlength :: dword))
        in Some (if error \<noteq> BZ_OK then (ERROR_LOGIC, []) else (ERROR_NONE, out))
      else
        let (error, stream) = bz_init bz bzptr
        in case error of
             BZ_OK \<Rightarrow> bzip2_loop bz stream (length bzptr) [] (of_nat (length bzptr))
           | BZ_MEM_ERROR \<Rightarrow> Some (ERROR_MEMORY, [])
           | _ \<Rightarrow> Some (ERROR_LOGIC, []))"

section \<open>What zlib promises\<close>

text \<open>
  Inflating undoes \<open>compress2\<close>: a stream that was opened on deflated data delivers the data, as much
  of it as there is room for, and says when all of it has been delivered; if the last call fills the
  room exactly, it can say so then or in the next call, unless it is asked to finish.
\<close>

definition zlib_delivers :: "'s zlib \<Rightarrow> ('s \<Rightarrow> byte list \<Rightarrow> bool) \<Rightarrow> bool" where
  "zlib_delivers z delivers \<longleftrightarrow>
     (\<forall>data gz. zlib_compress2 z data = (Z_OK, gz) \<longrightarrow> length gz < 2 ^ 31 \<and>
        (\<exists>st. zlib_inflate_init z False gz = (Z_OK, st) \<and> delivers st data)) \<and>
     (\<forall>st data finish n. delivers st data \<longrightarrow> (if finish then length data \<le> n else length data < n) \<longrightarrow>
        (\<exists>st'. zlib_inflate_call z st finish n = (Z_STREAM_END, st', data) \<and> zlib_inflate_end z st' = Z_OK)) \<and>
     (\<forall>st data n. delivers st data \<longrightarrow> n \<le> length data \<longrightarrow>
        (\<exists>st'. zlib_inflate_call z st False n = (Z_OK, st', take n data) \<and> delivers st' (drop n data)) \<or>
        (\<exists>st'. n = length data \<and> zlib_inflate_call z st False n = (Z_STREAM_END, st', data) \<and> zlib_inflate_end z st' = Z_OK))"

definition zlib_lossless :: "'s zlib \<Rightarrow> bool" where
  "zlib_lossless z \<longleftrightarrow> (\<exists>delivers. zlib_delivers z delivers)"

lemma zlib_delivers_laws:
  assumes "zlib_delivers z delivers"
  shows "zlib_compress2 z data = (Z_OK, gz) \<Longrightarrow> length gz < 2 ^ 31 \<and>
       (\<exists>st. zlib_inflate_init z False gz = (Z_OK, st) \<and> delivers st data)"
    "delivers st data \<Longrightarrow> (if finish then length data \<le> n else length data < n) \<Longrightarrow>
       \<exists>st'. zlib_inflate_call z st finish n = (Z_STREAM_END, st', data) \<and> zlib_inflate_end z st' = Z_OK"
    "delivers st data \<Longrightarrow> n \<le> length data \<Longrightarrow>
       (\<exists>st'. zlib_inflate_call z st False n = (Z_OK, st', take n data) \<and> delivers st' (drop n data)) \<or>
       (\<exists>st'. n = length data \<and> zlib_inflate_call z st False n = (Z_STREAM_END, st', data) \<and> zlib_inflate_end z st' = Z_OK)"
  using assms unfolding zlib_delivers_def by blast+

lemma compress_ok_iff: "libspectrum_zlib_compress z data = (ERROR_NONE, gz) \<longleftrightarrow> zlib_compress2 z data = (Z_OK, gz)"
  by (auto simp: libspectrum_zlib_compress_def split: prod.splits zlib_code.splits)

lemma inflate_loop_delivers:
  assumes "zlib_lossless z" "zlib_compress2 z data = (Z_OK, gz)" "zlib_inflate_init z False gz = (Z_OK, st)"
  shows "\<exists>st'. inflate_loop z st [] 0 = Some (Z_STREAM_END, st', data) \<and> zlib_inflate_end z st' = Z_OK"
proof -
  obtain delivers where "zlib_delivers z delivers" using assms(1) by (auto simp: zlib_lossless_def)
  note opened = zlib_delivers_laws(1) [OF this] and all_of = zlib_delivers_laws(2) [OF this] and part = zlib_delivers_laws(3) [OF this]
  have loop: "\<exists>st'. inflate_loop z st out 0 = Some (Z_STREAM_END, st', out @ rest) \<and> zlib_inflate_end z st' = Z_OK"
    if "delivers st rest" for st out rest
    using that
  proof (induction "length rest" arbitrary: st out rest rule: less_induct)
    case less
    show ?case
    proof (cases "length rest < 16384")
      case True
      then obtain st' where "zlib_inflate_call z st False 16384 = (Z_STREAM_END, st', rest)" "zlib_inflate_end z st' = Z_OK"
        using all_of [OF less.prems, of False 16384] by auto
      then show ?thesis by (subst inflate_loop.simps) (simp add: Let_def)
    next
      case False
      then consider st' where "zlib_inflate_call z st False 16384 = (Z_OK, st', take 16384 rest)" "delivers st' (drop 16384 rest)"
        | st' where "zlib_inflate_call z st False 16384 = (Z_STREAM_END, st', rest)" "zlib_inflate_end z st' = Z_OK"
        using part [OF less.prems, of 16384] by auto
      then show ?thesis
      proof cases
        case 1
        have "length (drop 16384 rest) < length rest" using False by auto
        from less.hyps [OF this 1(2), of "out @ take 16384 rest"] obtain st'' where
          "inflate_loop z st' (out @ take 16384 rest) 0 = Some (Z_STREAM_END, st'', out @ rest)" "zlib_inflate_end z st'' = Z_OK"
          by auto
        moreover have "length (take 16384 rest) = 16384" using False by simp
        ultimately show ?thesis using 1(1) by (subst inflate_loop.simps) (simp add: Let_def)
      next
        case 2
        then show ?thesis by (subst inflate_loop.simps) (simp add: Let_def)
      qed
    qed
  qed
  have "delivers st data" using opened [OF assms(2)] assms(3) by auto
  from loop [OF this, of "[]"] show ?thesis by simp
qed

text \<open>What was deflated is inflated again, with its length known or not, and whatever follows it.\<close>

lemma inflate_deflated:
  assumes z: "zlib_lossless z" and gz: "libspectrum_zlib_compress z data = (ERROR_NONE, gz)"
    and n: "n = 0 \<or> n = of_nat (length data)" "length data < 2 ^ 32"
  shows "libspectrum_zlib_inflate z (gz @ rest) (of_nat (length gz)) n = Some (ERROR_NONE, data)" "length gz < 2 ^ 31"
proof -
  note c = gz [unfolded compress_ok_iff]
  obtain delivers where "zlib_delivers z delivers" using z by (auto simp: zlib_lossless_def)
  note opened = zlib_delivers_laws(1) [OF this] and all_of = zlib_delivers_laws(2) [OF this]
  show small: "length gz < 2 ^ 31" using opened [OF c] by simp
  obtain st where st: "zlib_inflate_init z False gz = (Z_OK, st)" "delivers st data" using opened [OF c] by blast
  have "unat (ucast (of_nat (length gz) :: size_t) :: dword) = length gz"
    using ucast_low [of "int (length gz)"] small by (simp add: unat_of_nat take_bit_nat_eq_self)
  then have input: "copy_out (gz @ rest) 0 (unat (ucast (of_nat (length gz) :: size_t) :: dword)) = Some gz"
    by (simp add: copy_out_def)
  show "libspectrum_zlib_inflate z (gz @ rest) (of_nat (length gz)) n = Some (ERROR_NONE, data)"
  proof (cases "n = 0")
    case True
    then show ?thesis
      using inflate_loop_delivers [OF z c st(1)] input st(1) by (auto simp: libspectrum_zlib_inflate_def zlib_inflate_def)
  next
    case False
    then have len: "n = of_nat (length data)" using n(1) by simp
    have "unat (ucast n :: dword) = length data"
      using ucast_low [of "int (length data)"] n(2) by (simp add: len unat_of_nat take_bit_nat_eq_self)
    then show ?thesis
      using all_of [OF st(2), of True "length data"] input st(1) False
      by (auto simp: libspectrum_zlib_inflate_def zlib_inflate_def)
  qed
qed

end
