(* ===== verification/Zxs.thy ===== *)
theory Zxs
  imports Snapshot Zlib
begin

text \<open>
  The .zxs snapshot format (\<open>zxs.c\<close>), a RIFF file. What is left of the file is the list of its
  bytes. \<open>uncompress\<close> and \<open>crc32\<close> of zlib are parameters: \<open>zlib_uncompress src n\<close> is the return
  code and the bytes that the call puts in a buffer of \<open>n\<close> bytes. The variable \<open>compression\<close> of
  \<open>read_chunk\<close> is never initialised: the value it happens to have is the argument \<open>compression\<close>.
\<close>

type_synonym zxs_result = "(libspectrum_snap \<times> int \<times> byte list) c_result"

text \<open>The result is the error, the inflated data and what is left of the file.\<close>

definition inflate_block :: "'s zlib \<Rightarrow> byte list \<Rightarrow> size_t \<Rightarrow> (byte list \<times> byte list) c_result" where
  "inflate_block z compressed compressed_length = do {
     (header_length, _) \<leftarrow> libspectrum_read_dword compressed 0;
     (if header_length \<noteq> 12 then Some (ERROR_UNKNOWN, [], drop 4 compressed)
      else do {
        let compressed_length = unat (compressed_length - 12);
        (expected_crc32, _) \<leftarrow> libspectrum_read_dword compressed 4;
        (uncompressed_length, _) \<leftarrow> libspectrum_read_dword compressed 8;
        data \<leftarrow> copy_out compressed 12 compressed_length;
        let (code, out) = zlib_uncompress z ([0x78, 0xda] @ data) (unat uncompressed_length);
        let rest = drop (12 + compressed_length) compressed;
        Some (if code \<noteq> Z_DATA_ERROR \<and> code \<noteq> Z_OK then (ERROR_CORRUPT, [], rest)
              else if length out \<noteq> unat uncompressed_length then (ERROR_CORRUPT, [], rest)
              else if zlib_crc32 z out \<noteq> expected_crc32 then (ERROR_CORRUPT, [], rest)
              else (ERROR_NONE, out, rest)) }) }"

section \<open>Chunks\<close>

definition fmtz_machine :: "lword \<Rightarrow> libspectrum_machine option" where
  "fmtz_machine model =
     (if model = 0x0010 \<or> model = 0x0020 then Some MACHINE_48
      else if model = 0x0030 then Some MACHINE_128
      else if model = 0x0040 then Some MACHINE_PLUS2
      else if model = 0x0050 then Some MACHINE_PLUS2A
      else if model = 0x0060 then Some MACHINE_PLUS3
      else None)"

definition read_fmtz_chunk :: "libspectrum_snap \<Rightarrow> int \<Rightarrow> byte list \<Rightarrow> dword \<Rightarrow> zxs_result" where
  "read_fmtz_chunk snap compression buf data_length =
     (if data_length \<noteq> 8 then Some (ERROR_UNKNOWN, snap, compression, buf)
      else do {
        (model, _) \<leftarrow> libspectrum_read_word buf 2;
        (case fmtz_machine model of
           None \<Rightarrow> Some (ERROR_UNKNOWN, snap, compression, drop 4 buf)
         | Some machine \<Rightarrow> do {
             let snap = snap\<lparr>snap_machine := machine\<rparr>;
             (c, _) \<leftarrow> libspectrum_read_word buf 6;
             Some (if c = 0x0008 then (ERROR_NONE, snap, 1, drop 8 buf)
                   else if c = 0xffff then (ERROR_NONE, snap, 0, drop 8 buf)
                   else (ERROR_UNKNOWN, snap, uint c, drop 8 buf)) }) })"

text \<open>The chunk is in the file: \<open>read_chunk\<close> has checked its length.\<close>

definition read_rz80_chunk :: "libspectrum_snap \<Rightarrow> int \<Rightarrow> byte list \<Rightarrow> dword \<Rightarrow> zxs_result" where
  "read_rz80_chunk snap compression buf data_length =
     (if data_length \<noteq> 33 then Some (ERROR_UNKNOWN, snap, compression, buf)
      else Some (ERROR_NONE, snap\<lparr>snap_a := buf ! 0, snap_f := buf ! 1, snap_bc := le16 buf 2,
        snap_de := le16 buf 4, snap_hl := le16 buf 6, snap_a' := buf ! 8, snap_f' := buf ! 9,
        snap_bc' := le16 buf 10, snap_de' := le16 buf 12, snap_hl' := le16 buf 14, snap_ix := le16 buf 16,
        snap_iy := le16 buf 18, snap_pc := le16 buf 20, snap_sp := le16 buf 22, snap_i := buf ! 24,
        snap_r := buf ! 25, snap_iff1 := buf ! 26, snap_iff2 := buf ! 27, snap_im := buf ! 28,
        snap_tstates := paste4 (buf ! 29) (buf ! 30) (buf ! 31) (buf ! 32)\<rparr>, compression, drop 33 buf))"

definition read_r048_chunk :: "libspectrum_snap \<Rightarrow> int \<Rightarrow> byte list \<Rightarrow> dword \<Rightarrow> zxs_result" where
  "read_r048_chunk snap compression buf data_length =
     (if data_length \<noteq> 9 then Some (ERROR_UNKNOWN, snap, compression, buf)
      else Some (ERROR_NONE, snap\<lparr>snap_out_ula := buf ! 0\<rparr>, compression, drop 9 buf))"

definition read_r128_chunk :: "libspectrum_snap \<Rightarrow> int \<Rightarrow> byte list \<Rightarrow> dword \<Rightarrow> zxs_result" where
  "read_r128_chunk snap compression buf data_length =
     (if data_length \<noteq> 18 then Some (ERROR_UNKNOWN, snap, compression, buf)
      else Some (ERROR_NONE, snap\<lparr>snap_out_128_memoryport := buf ! 0, snap_out_ay_registerport := buf ! 1,
        snap_ay_registers := map (\<lambda>i. buf ! (2 + i)) [0..<16]\<rparr>, compression, drop 18 buf))"

definition read_rplus3_chunk :: "libspectrum_snap \<Rightarrow> int \<Rightarrow> byte list \<Rightarrow> dword \<Rightarrow> zxs_result" where
  "read_rplus3_chunk snap compression buf data_length =
     (if data_length \<noteq> 1 then Some (ERROR_UNKNOWN, snap, compression, buf)
      else Some (ERROR_NONE, snap\<lparr>snap_out_plus3_memoryport := buf ! 0\<rparr>, compression, drop 1 buf))"

text \<open>
  The uncompressed page is copied from \<open>buffer\<close>, the address of the pointer to the data, and not
  from the data: the copy leaves the pointer variable.
\<close>

definition read_ram_chunk :: "'s zlib \<Rightarrow> nat \<Rightarrow> libspectrum_snap \<Rightarrow> int \<Rightarrow> byte list \<Rightarrow> dword \<Rightarrow> zxs_result" where
  "read_ram_chunk z page snap compression buf data_length =
     (if compression \<noteq> 0 then do {
        (error, data, rest) \<leftarrow> inflate_block z buf (ucast data_length);
        (if error \<noteq> ERROR_NONE then Some (error, snap, compression, rest)
         else if length data \<noteq> 0x4000 then Some (ERROR_MEMORY, snap, compression, rest)
         else do {
           snap \<leftarrow> libspectrum_snap_set_pages snap page (Some data);
           Some (ERROR_NONE, snap, compression, rest) }) }
      else if data_length \<noteq> 0x4000 then Some (ERROR_UNKNOWN, snap, compression, buf)
      else None)"

definition skip_chunk :: "libspectrum_snap \<Rightarrow> int \<Rightarrow> byte list \<Rightarrow> dword \<Rightarrow> zxs_result" where
  "skip_chunk snap compression buf data_length =
     Some (ERROR_NONE, snap, compression, drop (unat data_length) buf)"

text \<open>The table \<open>read_chunks\<close>, without the entry for \<open>RIFF\<close>.\<close>

definition zxs_chunks :: "'s zlib \<Rightarrow> (byte list \<times> (libspectrum_snap \<Rightarrow> int \<Rightarrow> byte list \<Rightarrow> dword \<Rightarrow> zxs_result)) list" where
  "zxs_chunks z =
     [([0x66, 0x6d, 0x74, 0x7a], read_fmtz_chunk), ([0x72, 0x5a, 0x38, 0x30], read_rz80_chunk),
      ([0x72, 0x30, 0x34, 0x38], read_r048_chunk), ([0x72, 0x31, 0x32, 0x38], read_r128_chunk),
      ([0x72, 0x2b, 0x33, 0x20], read_rplus3_chunk),
      ([0x72, 0x61, 0x6d, 0x30], read_ram_chunk z 0), ([0x72, 0x61, 0x6d, 0x31], read_ram_chunk z 1),
      ([0x72, 0x61, 0x6d, 0x32], read_ram_chunk z 2), ([0x72, 0x61, 0x6d, 0x33], read_ram_chunk z 3),
      ([0x72, 0x61, 0x6d, 0x34], read_ram_chunk z 4), ([0x72, 0x61, 0x6d, 0x35], read_ram_chunk z 5),
      ([0x72, 0x61, 0x6d, 0x36], read_ram_chunk z 6), ([0x72, 0x61, 0x6d, 0x37], read_ram_chunk z 7),
      ([0x4c, 0x49, 0x53, 0x54], skip_chunk)]"

text \<open>
  \<open>read_chunk\<close>, given the loop over the chunks of a RIFF chunk. A chunk of odd length is followed
  by a byte that is skipped; the pointer may pass the end of the file, where nothing more is read.
\<close>

definition zxs_read_chunk ::
    "'s zlib \<Rightarrow> int \<Rightarrow> (libspectrum_snap \<Rightarrow> byte list \<Rightarrow> (libspectrum_snap \<times> byte list) c_result) \<Rightarrow>
     libspectrum_snap \<Rightarrow> byte list \<Rightarrow> (libspectrum_snap \<times> byte list) c_result" where
  "zxs_read_chunk z compression riff_loop snap buf =
     (if length buf < 8 then Some (ERROR_CORRUPT, snap, buf)
      else do {
        let id = take 4 buf;
        (data_length, _) \<leftarrow> libspectrum_read_dword buf 4;
        let buf = drop 8 buf;
        (if length buf < unat data_length then Some (ERROR_CORRUPT, snap, buf)
         else do {
           (error, snap, rest) \<leftarrow>
             (if id = [0x52, 0x49, 0x46, 0x46] then
                (if length buf < 4 then Some (ERROR_CORRUPT, snap, buf)
                 else if take 4 buf \<noteq> [0x53, 0x4e, 0x41, 0x50] then Some (ERROR_UNKNOWN, snap, drop 4 buf)
                 else riff_loop snap (drop 4 buf))
              else case map_of (zxs_chunks z) id of
                Some f \<Rightarrow> map_option (\<lambda>(error, snap, _, rest). (error, snap, rest)) (f snap compression buf data_length)
              | None \<Rightarrow> Some (ERROR_NONE, snap, drop (unat data_length) buf));
           (if error \<noteq> ERROR_NONE then Some (error, snap, rest)
            else Some (ERROR_NONE, snap, if odd (unat data_length) then drop 1 rest else rest)) }) })"

text \<open>\<open>k\<close> bounds the number of chunks, each of which takes at least eight bytes.\<close>

fun read_riff_loop ::
    "'s zlib \<Rightarrow> int \<Rightarrow> nat \<Rightarrow> libspectrum_snap \<Rightarrow> byte list \<Rightarrow> (libspectrum_snap \<times> byte list) c_result" where
  "read_riff_loop z compression k snap [] = Some (ERROR_NONE, snap, [])"
| "read_riff_loop z compression 0 snap (b # buf) = None"
| "read_riff_loop z compression (Suc k) snap (b # buf) = do {
     (error, snap, buf) \<leftarrow> zxs_read_chunk z compression (\<lambda>snap buf. read_riff_loop z compression k snap buf) snap (b # buf);
     (if error \<noteq> ERROR_NONE then Some (error, snap, buf)
      else read_riff_loop z compression k snap buf) }"

definition libspectrum_zxs_read :: "'s zlib \<Rightarrow> int \<Rightarrow> libspectrum_snap \<Rightarrow> byte list \<Rightarrow> libspectrum_snap c_result" where
  "libspectrum_zxs_read z compression snap buf = do {
     (error, snap, _) \<leftarrow> zxs_read_chunk z compression (read_riff_loop z compression (length buf)) (snap\<lparr>snap_machine := MACHINE_48\<rparr>) buf;
     (if error \<noteq> ERROR_NONE
      then Some (error, snap\<lparr>snap_pages := replicate 8 None @ drop 8 (snap_pages snap)\<rparr>)
      else Some (ERROR_NONE, snap)) }"

section \<open>Uncompressed files\<close>

text \<open>A snapshot of one page in an uncompressed file.\<close>

definition zxs_file :: "nat \<Rightarrow> byte list \<Rightarrow> byte list \<Rightarrow> byte list" where
  "zxs_file page data rest =
     [0x52, 0x49, 0x46, 0x46] @ dword_bytes (of_nat (0x4000 + 28 + length rest)) @ [0x53, 0x4e, 0x41, 0x50] @
     ([0x66, 0x6d, 0x74, 0x7a] @ dword_bytes 8 @ [0, 1] @ word_bytes 0x20 @ [0, 0] @ word_bytes 0xffff) @
     ([0x72, 0x61, 0x6d, 0x30 + of_nat page] @ dword_bytes 0x4000 @ data) @ rest"

lemma read_dword_first: "libspectrum_read_dword (a # b # c # d # xs) 0 = Some (paste4 a b c d, 4)"
  by (simp add: libspectrum_read_dword_def nget_Cons)

lemma chunk_header:
  assumes "length tag = 4" "unat n \<le> length body"
  shows "zxs_read_chunk z c loop s (tag @ dword_bytes n @ body) =
    (do {
       (error, snap, rest) \<leftarrow>
         (if tag = [0x52, 0x49, 0x46, 0x46] then
            (if length body < 4 then Some (ERROR_CORRUPT, s, body)
             else if take 4 body \<noteq> [0x53, 0x4e, 0x41, 0x50] then Some (ERROR_UNKNOWN, s, drop 4 body)
             else loop s (drop 4 body))
          else case map_of (zxs_chunks z) tag of
            Some f \<Rightarrow> map_option (\<lambda>(error, snap, _, rest). (error, snap, rest)) (f s c body n)
          | None \<Rightarrow> Some (ERROR_NONE, s, drop (unat n) body));
       (if error \<noteq> ERROR_NONE then Some (error, snap, rest)
        else Some (ERROR_NONE, snap, if odd (unat n) then drop 1 rest else rest)) })"
proof -
  have "libspectrum_read_dword (tag @ dword_bytes n @ body) 4 = Some (n, 8)"
    using read_dword_at [of tag n body] assms(1) by simp
  moreover have "drop 8 (tag @ dword_bytes n @ body) = body" "take 4 (tag @ dword_bytes n @ body) = tag"
    using assms(1) by (simp_all add: length_dword_bytes)
  ultimately show ?thesis
    using assms by (simp add: zxs_read_chunk_def Let_def length_dword_bytes)
qed



end
