(* ===== verification/Rzx.thy ===== *)
theory Rzx
  imports GSList Snapshot
begin

text \<open>
  Input recordings (\<open>rzx.c\<close>): the list of blocks, recording, playback, rollback, the iterators and
  \<open>libspectrum_rzx_finalise\<close>. The list is a chain of nodes; as every node belongs to one block, the
  address of the node stands for the block too, and \<open>current_input\<close> and \<open>data_frame\<close> point to the
  input block of a node and to one of its frames. An address is never given to a second node, so
  that a pointer to a block that was freed finds nothing: its use makes the result \<open>None\<close>. The code
  is taken in its configuration with zlib and without libgcrypt.
\<close>

section \<open>Blocks\<close>

text \<open>
  \<open>in_bytes\<close> is \<open>None\<close> when the pointer is null or was never set; neither can be dereferenced.
  The field \<open>count\<close> of an input block is the length of its list of frames.
\<close>

record libspectrum_rzx_frame_t =
  instructions :: size_t
  frame_count :: size_t
  in_bytes :: "byte list option"
  repeat_last :: bool

record input_block_t =
  frames :: "libspectrum_rzx_frame_t list"
  allocated_frames :: size_t
  input_tstates :: size_t
  non_repeat :: size_t

datatype rzx_block_t =
    Input_block input_block_t
  | Snapshot_block libspectrum_snap int
  | Sign_start_block dword
  | Sign_end_block size_t

abbreviation (input) "RZX_CREATOR_BLOCK \<equiv> 0x10"
abbreviation (input) "RZX_SIGN_START_BLOCK \<equiv> 0x20"
abbreviation (input) "RZX_SIGN_END_BLOCK \<equiv> 0x21"
abbreviation (input) "RZX_SNAPSHOT_BLOCK \<equiv> 0x30"
abbreviation (input) "RZX_INPUT_BLOCK \<equiv> 0x80"

fun rzx_block_type :: "rzx_block_t \<Rightarrow> int" where
  "rzx_block_type (Input_block input) = RZX_INPUT_BLOCK"
| "rzx_block_type (Snapshot_block snap automatic) = RZX_SNAPSHOT_BLOCK"
| "rzx_block_type (Sign_start_block keyid) = RZX_SIGN_START_BLOCK"
| "rzx_block_type (Sign_end_block len) = RZX_SIGN_END_BLOCK"

definition find_block :: "rzx_block_t \<Rightarrow> int \<Rightarrow> int" where
  "find_block block b = rzx_block_type block - b"

fun block_input :: "rzx_block_t \<Rightarrow> input_block_t option" where
  "block_input (Input_block input) = Some input"
| "block_input _ = None"

fun block_snap :: "rzx_block_t \<Rightarrow> libspectrum_snap option" where
  "block_snap (Snapshot_block snap automatic) = Some snap"
| "block_snap _ = None"

record libspectrum_rzx =
  rzx_blocks :: "rzx_block_t gslist"
  rzx_current_block :: "nat option"
  current_input :: "nat option"
  current_frame :: size_t
  data_frame :: "(nat \<times> nat) option"
  in_count :: size_t
  signed_start :: "nat option"

text \<open>The fields that are not set are those of \<open>raw\<close>, but for the pointers, which point nowhere.\<close>

definition libspectrum_rzx_alloc :: "libspectrum_rzx \<Rightarrow> libspectrum_rzx" where
  "libspectrum_rzx_alloc raw = raw\<lparr>rzx_blocks := [], rzx_current_block := None, current_input := None,
     data_frame := None, signed_start := None\<rparr>"

section \<open>The objects that pointers lead to\<close>

definition input_at :: "libspectrum_rzx \<Rightarrow> nat option \<Rightarrow> input_block_t option" where
  "input_at rzx p = do {
     a \<leftarrow> p;
     block \<leftarrow> node_data (rzx_blocks rzx) a;
     block_input block }"

definition frame_at :: "libspectrum_rzx \<Rightarrow> (nat \<times> nat) option \<Rightarrow> libspectrum_rzx_frame_t option" where
  "frame_at rzx p = do {
     (a, i) \<leftarrow> p;
     input \<leftarrow> input_at rzx (Some a);
     nget (frames input) i }"

definition set_input :: "nat \<Rightarrow> input_block_t \<Rightarrow> rzx_block_t gslist \<Rightarrow> rzx_block_t gslist" where
  "set_input a input = map (\<lambda>(n, block). (n, if n = a then Input_block input else block))"

section \<open>Recording\<close>

definition libspectrum_rzx_start_input :: "nat \<Rightarrow> libspectrum_rzx \<Rightarrow> dword \<Rightarrow> libspectrum_rzx" where
  "libspectrum_rzx_start_input n rzx tstates = rzx\<lparr>current_input := Some n,
     rzx_blocks := g_slist_append n (rzx_blocks rzx)
       (Input_block \<lparr>frames = [], allocated_frames = 0, input_tstates = ucast tstates, non_repeat = 0\<rparr>)\<rparr>"

definition libspectrum_rzx_stop_input :: "libspectrum_rzx \<Rightarrow> libspectrum_rzx" where
  "libspectrum_rzx_stop_input rzx = rzx\<lparr>current_input := None\<rparr>"

definition libspectrum_rzx_add_snap :: "nat \<Rightarrow> libspectrum_rzx \<Rightarrow> libspectrum_snap \<Rightarrow> int \<Rightarrow> libspectrum_rzx" where
  "libspectrum_rzx_add_snap n rzx snap automatic =
     (let rzx = libspectrum_rzx_stop_input rzx
      in rzx\<lparr>rzx_blocks := g_slist_append n (rzx_blocks rzx) (Snapshot_block snap automatic)\<rparr>)"

text \<open>The new allocation, and whether the array was moved.\<close>

definition input_block_resize :: "input_block_t \<Rightarrow> size_t \<Rightarrow> input_block_t \<times> bool" where
  "input_block_resize input new_count =
     (if new_count > allocated_frames input then
        let new_allocated = (if allocated_frames input \<ge> 25 then 2 * allocated_frames input else 50);
            new_allocated = (if new_allocated < new_count then new_count else new_allocated)
        in (input\<lparr>allocated_frames := new_allocated\<rparr>, True)
      else (input, False))"

text \<open>Pointers to the frames of blocks whose arrays were moved become invalid.\<close>

definition drop_pointers :: "nat set \<Rightarrow> libspectrum_rzx \<Rightarrow> libspectrum_rzx" where
  "drop_pointers moved rzx =
     (case data_frame rzx of
        Some (a, i) \<Rightarrow> if a \<in> moved then rzx\<lparr>data_frame := None\<rparr> else rzx
      | None \<Rightarrow> rzx)"

text \<open>Whether the bytes of the frame are those of the last frame that is not repeated.\<close>

definition frame_repeats :: "input_block_t \<Rightarrow> size_t \<Rightarrow> byte list \<Rightarrow> bool option" where
  "frame_repeats input count data =
     (if frames input \<noteq> [] \<and> count \<noteq> 0 then do {
        last_frame \<leftarrow> nget (frames input) (unat (non_repeat input));
        (if count = frame_count last_frame then do {
           old \<leftarrow> in_bytes last_frame;
           a \<leftarrow> copy_out data 0 (unat count);
           b \<leftarrow> copy_out old 0 (unat count);
           Some (a = b) }
         else Some False) }
      else Some False)"

definition libspectrum_rzx_store_frame ::
    "libspectrum_rzx \<Rightarrow> size_t \<Rightarrow> size_t \<Rightarrow> byte list \<Rightarrow> libspectrum_rzx c_result" where
  "libspectrum_rzx_store_frame rzx ins count data =
     (case current_input rzx of
        None \<Rightarrow> Some (ERROR_INVALID, rzx)
      | Some a \<Rightarrow> do {
          input \<leftarrow> input_at rzx (Some a);
          let used = of_nat (length (frames input));
          let (input, moved) =
            (if allocated_frames input = used then input_block_resize input (used + 1) else (input, False));
          repeats \<leftarrow> frame_repeats input count data;
          input \<leftarrow>
            (if repeats then
               Some (input\<lparr>frames := frames input @ [\<lparr>instructions = ins, frame_count = 0, in_bytes = None, repeat_last = True\<rparr>]\<rparr>)
             else do {
               copy \<leftarrow> (if count \<noteq> 0 then map_option Some (copy_out data 0 (unat count)) else Some None);
               Some (input\<lparr>non_repeat := used,
                 frames := frames input @ [\<lparr>instructions = ins, frame_count = count, in_bytes = copy, repeat_last = False\<rparr>]\<rparr>) });
          let rzx = (if moved then drop_pointers {a} rzx else rzx);
          Some (ERROR_NONE, rzx\<lparr>rzx_blocks := set_input a input (rzx_blocks rzx)\<rparr>) })"

section \<open>Rolling back to a snapshot\<close>

fun after_find :: "rzx_block_t gslist \<Rightarrow> rzx_block_t gslist" where
  "after_find [] = []"
| "after_find (x # xs) = xs"

text \<open>The loop that looks for the last snapshot, from \<open>list\<close> on.\<close>

lemma find_custom_length: "length (g_slist_find_custom list data func) \<le> length list"
  by (induction list) auto

function last_snapshot :: "rzx_block_t gslist \<Rightarrow> rzx_block_t gslist \<Rightarrow> rzx_block_t gslist" where
  "last_snapshot previous list =
     (case g_slist_find_custom list RZX_SNAPSHOT_BLOCK find_block of
        [] \<Rightarrow> previous
      | x # xs \<Rightarrow> last_snapshot (x # xs) xs)"
  by pat_completeness auto
termination
proof (relation "measure (\<lambda>(previous, list). length list)", goal_cases)
  case (2 previous list x xs)
  have "length (x # xs) \<le> length list"
    using find_custom_length [of list RZX_SNAPSHOT_BLOCK find_block] 2 by metis
  then show ?case by simp
qed simp

declare last_snapshot.simps [simp del]

text \<open>\<open>i\<close> counts down the snapshots to pass.\<close>

fun nth_snapshot :: "nat \<Rightarrow> rzx_block_t gslist \<Rightarrow> rzx_block_t gslist" where
  "nth_snapshot 0 list = g_slist_find_custom list RZX_SNAPSHOT_BLOCK find_block"
| "nth_snapshot (Suc i) list =
     (case g_slist_find_custom list RZX_SNAPSHOT_BLOCK find_block of
        [] \<Rightarrow> []
      | x # xs \<Rightarrow> nth_snapshot i xs)"

fun truncate_after :: "nat \<Rightarrow> 'a gslist \<Rightarrow> 'a gslist" where
  "truncate_after a [] = []"
| "truncate_after a (x # xs) = (if fst x = a then [x] else x # truncate_after a xs)"

text \<open>What both functions do with the node they have found.\<close>

definition rollback_at :: "libspectrum_rzx \<Rightarrow> rzx_block_t gslist \<Rightarrow> (libspectrum_rzx \<times> libspectrum_snap option) c_result" where
  "rollback_at rzx found =
     (case found of
        [] \<Rightarrow> Some (ERROR_CORRUPT, rzx, None)
      | x # _ \<Rightarrow>
          let rzx = (if current_input rzx \<noteq> None then libspectrum_rzx_stop_input rzx else rzx);
              rzx = rzx\<lparr>rzx_blocks := truncate_after (fst x) (rzx_blocks rzx)\<rparr>
          in do {
            snap \<leftarrow> block_snap (snd x);
            Some (ERROR_NONE, rzx, Some snap) })"

definition libspectrum_rzx_rollback :: "libspectrum_rzx \<Rightarrow> (libspectrum_rzx \<times> libspectrum_snap option) c_result" where
  "libspectrum_rzx_rollback rzx = rollback_at rzx (last_snapshot [] (rzx_blocks rzx))"

definition libspectrum_rzx_rollback_to ::
    "libspectrum_rzx \<Rightarrow> size_t \<Rightarrow> (libspectrum_rzx \<times> libspectrum_snap option) c_result" where
  "libspectrum_rzx_rollback_to rzx which = rollback_at rzx (nth_snapshot (unat which) (rzx_blocks rzx))"

section \<open>Playback\<close>

text \<open>
  The loop over the blocks, with the block before; \<open>i\<close> counts the input blocks to pass. The result
  is the address of the block and the snapshot before it.
\<close>

fun find_input :: "int \<Rightarrow> rzx_block_t option \<Rightarrow> rzx_block_t gslist \<Rightarrow> (nat \<times> libspectrum_snap option) option" where
  "find_input i previous [] = None"
| "find_input i previous ((a, block) # list) =
     (if rzx_block_type block \<noteq> RZX_INPUT_BLOCK then find_input i (Some block) list
      else if i \<noteq> 0 then find_input (i - 1) (Some block) list
      else Some (a, previous \<bind> block_snap))"

definition start_block_playback :: "nat \<Rightarrow> libspectrum_rzx \<Rightarrow> libspectrum_rzx" where
  "start_block_playback a rzx = rzx\<lparr>rzx_current_block := Some a, current_input := Some a, current_frame := 0,
     in_count := 0, data_frame := Some (a, 0)\<rparr>"

definition libspectrum_rzx_start_playback ::
    "libspectrum_rzx \<Rightarrow> int \<Rightarrow> (libspectrum_rzx \<times> libspectrum_snap option) c_result" where
  "libspectrum_rzx_start_playback rzx which = Some
     (case find_input which None (rzx_blocks rzx) of
        None \<Rightarrow> (ERROR_INVALID, rzx, None)
      | Some (a, snap) \<Rightarrow> (ERROR_NONE, start_block_playback a rzx, snap))"

text \<open>The next input block and the last snapshot before it.\<close>

fun following_input :: "libspectrum_snap option \<Rightarrow> rzx_block_t gslist \<Rightarrow> nat option \<times> libspectrum_snap option" where
  "following_input snap [] = (None, snap)"
| "following_input snap ((a, block) # list) =
     (if rzx_block_type block = RZX_INPUT_BLOCK then (Some a, snap)
      else following_input (if rzx_block_type block = RZX_SNAPSHOT_BLOCK then block_snap block else snap) list)"

text \<open>The state of the result holds whether playback is finished and the snapshot to go on from.\<close>

definition libspectrum_rzx_playback_frame ::
    "libspectrum_rzx \<Rightarrow> (libspectrum_rzx \<times> bool \<times> libspectrum_snap option) c_result" where
  "libspectrum_rzx_playback_frame rzx = do {
     frame \<leftarrow> frame_at rzx (data_frame rzx);
     (if in_count rzx \<noteq> frame_count frame then Some (ERROR_CORRUPT, rzx, False, None)
      else do {
        let rzx = rzx\<lparr>current_frame := current_frame rzx + 1\<rparr>;
        input \<leftarrow> input_at rzx (current_input rzx);
        (if current_frame rzx \<ge> of_nat (length (frames input)) then do {
           here \<leftarrow> rzx_current_block rzx;
           (case chain_at (rzx_blocks rzx) here of
              [] \<Rightarrow> None
            | _ # list \<Rightarrow>
                (case following_input None list of
                   (Some a, snap) \<Rightarrow> Some (ERROR_NONE, start_block_playback a rzx, False, snap)
                 | (None, snap) \<Rightarrow> Some (ERROR_NONE, rzx\<lparr>rzx_current_block := None\<rparr>, True, snap))) }
         else do {
           next \<leftarrow> aget (frames input) (current_frame rzx);
           let rzx = (if \<not> repeat_last next
             then rzx\<lparr>data_frame := map_option (\<lambda>a. (a, unat (current_frame rzx))) (current_input rzx)\<rparr> else rzx);
           Some (ERROR_NONE, rzx\<lparr>in_count := 0\<rparr>, False, None) }) }) }"

definition libspectrum_rzx_playback :: "libspectrum_rzx \<Rightarrow> (libspectrum_rzx \<times> byte option) c_result" where
  "libspectrum_rzx_playback rzx = do {
     frame \<leftarrow> frame_at rzx (data_frame rzx);
     (if in_count rzx \<ge> frame_count frame then Some (ERROR_CORRUPT, rzx, None)
      else do {
        data \<leftarrow> in_bytes frame;
        byte \<leftarrow> aget data (in_count rzx);
        Some (ERROR_NONE, rzx\<lparr>in_count := in_count rzx + 1\<rparr>, Some byte) }) }"

definition libspectrum_rzx_tstates :: "libspectrum_rzx \<Rightarrow> size_t option" where
  "libspectrum_rzx_tstates rzx = map_option input_tstates (input_at rzx (current_input rzx))"

definition libspectrum_rzx_instructions :: "libspectrum_rzx \<Rightarrow> size_t option" where
  "libspectrum_rzx_instructions rzx = do {
     input \<leftarrow> input_at rzx (current_input rzx);
     frame \<leftarrow> aget (frames input) (current_frame rzx);
     Some (instructions frame) }"

section \<open>Signatures\<close>

definition libspectrum_rzx_get_keyid :: "libspectrum_rzx \<Rightarrow> dword" where
  "libspectrum_rzx_get_keyid rzx =
     (case g_slist_find_custom (rzx_blocks rzx) RZX_SIGN_START_BLOCK find_block of
        (_, Sign_start_block keyid) # _ \<Rightarrow> keyid
      | _ \<Rightarrow> 0)"

text \<open>The start and the length of the signed data.\<close>

definition libspectrum_rzx_get_signature :: "libspectrum_rzx \<Rightarrow> libspectrum_error \<times> (nat option \<times> size_t) option" where
  "libspectrum_rzx_get_signature rzx =
     (case g_slist_find_custom (rzx_blocks rzx) RZX_SIGN_END_BLOCK find_block of
        (_, Sign_end_block len) # _ \<Rightarrow> (ERROR_NONE, Some (signed_start rzx, len))
      | _ \<Rightarrow> (ERROR_CORRUPT, None))"

section \<open>Editing and iterators\<close>

definition libspectrum_rzx_insert_snap :: "nat \<Rightarrow> libspectrum_rzx \<Rightarrow> libspectrum_snap \<Rightarrow> int \<Rightarrow> libspectrum_rzx" where
  "libspectrum_rzx_insert_snap n rzx snap where_pos =
     rzx\<lparr>rzx_blocks := g_slist_insert n (rzx_blocks rzx) (Snapshot_block snap 0) where_pos\<rparr>"

definition libspectrum_rzx_iterator_begin :: "libspectrum_rzx \<Rightarrow> nat option" where
  "libspectrum_rzx_iterator_begin rzx = head_address (rzx_blocks rzx)"

definition libspectrum_rzx_iterator_next :: "libspectrum_rzx \<Rightarrow> nat option \<Rightarrow> nat option option" where
  "libspectrum_rzx_iterator_next rzx it = it \<bind> node_next (rzx_blocks rzx)"

definition libspectrum_rzx_iterator_last :: "libspectrum_rzx \<Rightarrow> nat option" where
  "libspectrum_rzx_iterator_last rzx = head_address (g_slist_last (rzx_blocks rzx))"

definition libspectrum_rzx_iterator_get_type :: "libspectrum_rzx \<Rightarrow> nat option \<Rightarrow> int option" where
  "libspectrum_rzx_iterator_get_type rzx it = map_option rzx_block_type (it \<bind> node_data (rzx_blocks rzx))"

definition libspectrum_rzx_iterator_get_frames :: "libspectrum_rzx \<Rightarrow> nat option \<Rightarrow> size_t option" where
  "libspectrum_rzx_iterator_get_frames rzx it = do {
     block \<leftarrow> it \<bind> node_data (rzx_blocks rzx);
     Some (case block_input block of None \<Rightarrow> - 1 | Some input \<Rightarrow> of_nat (length (frames input))) }"

definition libspectrum_rzx_iterator_delete :: "libspectrum_rzx \<Rightarrow> nat option \<Rightarrow> libspectrum_rzx option" where
  "libspectrum_rzx_iterator_delete rzx it = do {
     a \<leftarrow> it;
     block \<leftarrow> node_data (rzx_blocks rzx) a;
     Some (rzx\<lparr>rzx_blocks := g_slist_delete_link (rzx_blocks rzx) a\<rparr>) }"

definition libspectrum_rzx_iterator_get_snap :: "libspectrum_rzx \<Rightarrow> nat option \<Rightarrow> libspectrum_snap option option" where
  "libspectrum_rzx_iterator_get_snap rzx it = map_option block_snap (it \<bind> node_data (rzx_blocks rzx))"

definition libspectrum_rzx_iterator_snap_is_automatic :: "libspectrum_rzx \<Rightarrow> nat option \<Rightarrow> int option" where
  "libspectrum_rzx_iterator_snap_is_automatic rzx it = do {
     block \<leftarrow> it \<bind> node_data (rzx_blocks rzx);
     Some (case block of Snapshot_block snap automatic \<Rightarrow> automatic | _ \<Rightarrow> 0) }"

section \<open>Joining the input blocks\<close>

text \<open>The merged block, and whether its array was moved.\<close>

definition input_block_merge :: "input_block_t \<Rightarrow> input_block_t \<Rightarrow> input_block_t \<times> bool" where
  "input_block_merge input next_input =
     (let count = of_nat (length (frames input)); next_count = of_nat (length (frames next_input));
          (input, moved) = (if allocated_frames input < count + next_count
            then input_block_resize input (count + next_count) else (input, False))
      in (input\<lparr>frames := frames input @ frames next_input, non_repeat := count + non_repeat next_input\<rparr>, moved))"

text \<open>The first loop of \<open>libspectrum_rzx_finalise\<close>: \<open>list\<close> runs over the nodes, \<open>blocks\<close> is the list of the recording.\<close>

fun delete_snapshots :: "bool \<Rightarrow> rzx_block_t gslist \<Rightarrow> rzx_block_t gslist \<Rightarrow> bool \<Rightarrow> rzx_block_t gslist \<times> bool" where
  "delete_snapshots first_snap [] blocks finalised = (blocks, finalised)"
| "delete_snapshots first_snap ((a, block) # list) blocks finalised =
     (if rzx_block_type block = RZX_SNAPSHOT_BLOCK then
        (if first_snap then delete_snapshots False list blocks finalised
         else delete_snapshots first_snap list (g_slist_delete_link blocks a) True)
      else delete_snapshots first_snap list blocks finalised)"

text \<open>
  The second loop, on the rest of the list from the block it is at; the result is this rest, the
  blocks whose arrays were moved and whether anything was merged.
\<close>

fun merge_inputs :: "rzx_block_t gslist \<Rightarrow> rzx_block_t gslist \<times> nat set \<times> bool" where
  "merge_inputs ((a, Input_block input) # (b, Input_block next_input) # list) =
     (let (input, moved) = input_block_merge input next_input;
          (list, all_moved, finalised) = merge_inputs ((a, Input_block input) # list)
      in (list, if moved then insert a all_moved else all_moved, True))"
| "merge_inputs (x # list) = (let (list, moved, finalised) = merge_inputs list in (x # list, moved, finalised))"
| "merge_inputs [] = ([], {}, False)"

definition libspectrum_rzx_finalise :: "libspectrum_rzx \<Rightarrow> libspectrum_error \<times> libspectrum_rzx" where
  "libspectrum_rzx_finalise rzx =
     (let (blocks, deleted) = delete_snapshots True (rzx_blocks rzx) (rzx_blocks rzx) False;
          (blocks, moved, merged) = merge_inputs blocks;
          rzx = drop_pointers moved (rzx\<lparr>rzx_blocks := blocks\<rparr>)
      in (if deleted \<or> merged then ERROR_NONE else ERROR_INVALID, rzx))"

end
