(* ===== verification/Rzx_Session.thy ===== *)
theory Rzx_Session
  imports Rzx
begin

text \<open>
  What a recording is: a sequence of frames and snapshots (\<open>rzx_items\<close>), whatever blocks it is
  kept in and whichever frames are stored as repetitions. The recording calls build this
  sequence, \<open>libspectrum_rzx_finalise\<close> keeps its frames, and playback delivers them in order.
\<close>

section \<open>The recording a list of blocks stands for\<close>

datatype rzx_item = Frame size_t "byte list" | Snap libspectrum_snap

definition frame_bytes :: "libspectrum_rzx_frame_t \<Rightarrow> byte list" where
  "frame_bytes f = (case in_bytes f of None \<Rightarrow> [] | Some data \<Rightarrow> data)"

text \<open>A repeated frame has the bytes of the last frame that is not repeated.\<close>

fun decode_frames :: "byte list \<Rightarrow> libspectrum_rzx_frame_t list \<Rightarrow> (size_t \<times> byte list) list" where
  "decode_frames prev [] = []"
| "decode_frames prev (f # fs) =
     (let data = (if repeat_last f then prev else frame_bytes f)
      in (instructions f, data) # decode_frames data fs)"

fun block_items :: "rzx_block_t \<Rightarrow> rzx_item list" where
  "block_items (Input_block input) = map (\<lambda>(n, data). Frame n data) (decode_frames [] (frames input))"
| "block_items (Snapshot_block snap automatic) = [Snap snap]"
| "block_items (Sign_start_block keyid) = []"
| "block_items (Sign_end_block len) = []"

definition blocks_items :: "rzx_block_t gslist \<Rightarrow> rzx_item list" where
  "blocks_items l = concat (map (\<lambda>x. block_items (snd x)) l)"

definition rzx_items :: "libspectrum_rzx \<Rightarrow> rzx_item list" where
  "rzx_items rzx = blocks_items (rzx_blocks rzx)"

lemma blocks_items_simps [simp]:
  "blocks_items [] = []"
  "blocks_items (x # l) = block_items (snd x) @ blocks_items l"
  "blocks_items (l @ m) = blocks_items l @ blocks_items m"
  by (simp_all add: blocks_items_def)

fun is_snap :: "rzx_item \<Rightarrow> bool" where
  "is_snap (Snap snap) = True"
| "is_snap (Frame n data) = False"

fun item_frame :: "rzx_item \<Rightarrow> (size_t \<times> byte list) option" where
  "item_frame (Snap snap) = None"
| "item_frame (Frame n data) = Some (n, data)"

definition items_frames :: "rzx_item list \<Rightarrow> (size_t \<times> byte list) list" where
  "items_frames is = List.map_filter item_frame is"

section \<open>Well-formed recordings\<close>

definition frame_ok :: "libspectrum_rzx_frame_t \<Rightarrow> bool" where
  "frame_ok f \<longleftrightarrow> repeat_last f \<or> frame_count f = of_nat (length (frame_bytes f)) \<and> length (frame_bytes f) < 2 ^ 64"

definition frames_ok :: "libspectrum_rzx_frame_t list \<Rightarrow> bool" where
  "frames_ok fs \<longleftrightarrow> (\<forall>f \<in> set fs. frame_ok f) \<and> (fs \<noteq> [] \<longrightarrow> \<not> repeat_last (hd fs)) \<and> length fs < 2 ^ 63"

text \<open>The frame \<open>store_frame\<close> compares with is the last one that is not repeated.\<close>

definition recording_ok :: "input_block_t \<Rightarrow> bool" where
  "recording_ok input \<longleftrightarrow> frames_ok (frames input) \<and>
     (frames input \<noteq> [] \<longrightarrow> unat (non_repeat input) < length (frames input) \<and>
        \<not> repeat_last (frames input ! unat (non_repeat input)) \<and>
        (\<forall>f \<in> set (drop (Suc (unat (non_repeat input))) (frames input)). repeat_last f))"

definition rzx_inv :: "libspectrum_rzx \<Rightarrow> bool" where
  "rzx_inv rzx \<longleftrightarrow> distinct (map fst (rzx_blocks rzx)) \<and>
     (\<forall>(a, block) \<in> set (rzx_blocks rzx). \<forall>input. block = Input_block input \<longrightarrow> frames_ok (frames input)) \<and>
     (case current_input rzx of
        None \<Rightarrow> True
      | Some a \<Rightarrow> \<exists>l input. rzx_blocks rzx = l @ [(a, Input_block input)] \<and> recording_ok input)"

lemma decode_append:
  "decode_frames prev (fs @ gs) = decode_frames prev fs @ decode_frames (foldl (\<lambda>p f. if repeat_last f then p else frame_bytes f) prev fs) gs"
  by (induction fs arbitrary: prev) (auto simp: Let_def)

abbreviation "last_bytes \<equiv> foldl (\<lambda>p f. if repeat_last f then p else frame_bytes f)"

lemma last_bytes_repeats: "\<forall>f \<in> set fs. repeat_last f \<Longrightarrow> last_bytes prev fs = prev"
  by (induction fs) auto

lemma last_bytes_recording:
  assumes "recording_ok input" "frames input \<noteq> []"
  shows "last_bytes prev (frames input) = frame_bytes (frames input ! unat (non_repeat input))"
proof -
  let ?i = "unat (non_repeat input)"
  have i: "?i < length (frames input)" "\<not> repeat_last (frames input ! ?i)"
    "\<forall>f \<in> set (drop (Suc ?i) (frames input)). repeat_last f"
    using assms by (auto simp: recording_ok_def)
  have "frames input = take ?i (frames input) @ frames input ! ?i # drop (Suc ?i) (frames input)"
    using id_take_nth_drop [OF i(1)] by simp
  then have "last_bytes prev (frames input) = last_bytes prev (take ?i (frames input) @ frames input ! ?i # drop (Suc ?i) (frames input))"
    by simp
  also have "\<dots> = frame_bytes (frames input ! ?i)"
    using i(2) last_bytes_repeats [OF i(3)] by simp
  finally show ?thesis .
qed

lemma node_data_last: "distinct (map fst (l @ [(a, x)])) \<Longrightarrow> node_data (l @ [(a, x)]) a = Some x"
proof -
  assume "distinct (map fst (l @ [(a, x)]))"
  then have "dropWhile (\<lambda>x. fst x \<noteq> a) (l @ [(a, x)]) = [(a, x)]"
    by (subst dropWhile_append2) force+
  then show ?thesis by (simp add: node_data_def chain_at_def)
qed

lemma set_input_last: "a \<notin> fst ` set l \<Longrightarrow> set_input a input (l @ [(a, x)]) = l @ [(a, Input_block input)]"
  by (induction l) (auto simp: set_input_def)

lemma resize_fields: "frames (fst (input_block_resize input n)) = frames input"
  "non_repeat (fst (input_block_resize input n)) = non_repeat input"
  by (simp_all add: input_block_resize_def Let_def)

lemma drop_pointers_fields [simp]:
  "rzx_blocks (drop_pointers m rzx) = rzx_blocks rzx" "current_input (drop_pointers m rzx) = current_input rzx"
  by (auto simp: drop_pointers_def split: option.splits)

lemma copy_out_all: "n = length data \<Longrightarrow> copy_out data 0 n = Some data"
  by (simp add: copy_out_def)

lemma unat_length: "length data < 2 ^ 64 \<Longrightarrow> unat (of_nat (length data) :: size_t) = length data"
  by (simp add: unat_of_nat take_bit_nat_eq_self)

lemma of_nat_length_eq:
  "length xs < 2 ^ 64 \<Longrightarrow> length ys < 2 ^ 64 \<Longrightarrow> (of_nat (length xs) = (of_nat (length ys) :: size_t)) = (length xs = length ys)"
  by (metis unat_length)

lemma frame_repeats_result:
  assumes "recording_ok input" "length data < 2 ^ 64"
  shows "frame_repeats input (of_nat (length data)) data =
    Some (frames input \<noteq> [] \<and> data \<noteq> [] \<and> data = last_bytes [] (frames input))"
proof (cases "frames input \<noteq> [] \<and> data \<noteq> []")
  case True
  let ?f = "frames input ! unat (non_repeat input)"
  have i: "unat (non_repeat input) < length (frames input)" "\<not> repeat_last ?f"
    using assms(1) True by (auto simp: recording_ok_def)
  then have "frame_ok ?f" using assms(1) by (simp add: recording_ok_def frames_ok_def)
  then have f: "frame_count ?f = of_nat (length (frame_bytes ?f))" "length (frame_bytes ?f) < 2 ^ 64"
    using i(2) by (simp_all add: frame_ok_def)
  have count: "(of_nat (length data) :: size_t) \<noteq> 0"
    using True assms(2) of_nat_length_eq [of data "[]"] by auto
  have last_data: "last_bytes [] (frames input) = frame_bytes ?f"
    using last_bytes_recording assms(1) True by blast
  show ?thesis
  proof (cases "length data = length (frame_bytes ?f)")
    case same: True
    then have "in_bytes ?f = Some (frame_bytes ?f)" using True by (auto simp: frame_bytes_def split: option.splits)
    then show ?thesis using True count i(1) f same assms(2) last_data
      by (simp add: frame_repeats_def nget_def copy_out_all unat_length)
  next
    case False
    then have "(of_nat (length data) :: size_t) \<noteq> frame_count ?f"
      using f of_nat_length_eq [OF assms(2) f(2)] by simp
    then show ?thesis using True count i(1) last_data False
      by (auto simp: frame_repeats_def nget_def)
  qed
next
  case False
  then show ?thesis by (auto simp: frame_repeats_def)
qed

lemma input_at_recording:
  assumes "rzx_inv rzx" "current_input rzx = Some a"
  obtains l input where "rzx_blocks rzx = l @ [(a, Input_block input)]" "recording_ok input"
    "input_at rzx (Some a) = Some input" "a \<notin> fst ` set l"
proof -
  obtain l input where l: "rzx_blocks rzx = l @ [(a, Input_block input)]" "recording_ok input"
    using assms by (auto simp: rzx_inv_def)
  moreover have "a \<notin> fst ` set l" using assms(1) l(1) by (auto simp: rzx_inv_def)
  moreover have "input_at rzx (Some a) = Some input"
    using node_data_last [of l a "Input_block input"] assms(1) l(1) by (simp add: input_at_def rzx_inv_def)
  ultimately show thesis using that by blast
qed

lemma length_decode [simp]: "length (decode_frames prev fs) = length fs"
  by (induction fs arbitrary: prev) (auto simp: Let_def)

lemma frames_in_items:
  "(a, Input_block input) \<in> set l \<Longrightarrow> length (frames input) \<le> length (blocks_items l)"
  by (induction l) auto

text \<open>The new frame of \<open>store_frame\<close>.\<close>

definition new_frame :: "input_block_t \<Rightarrow> size_t \<Rightarrow> byte list \<Rightarrow> libspectrum_rzx_frame_t" where
  "new_frame input ins data =
     (if frames input \<noteq> [] \<and> data \<noteq> [] \<and> data = last_bytes [] (frames input)
      then \<lparr>instructions = ins, frame_count = 0, in_bytes = None, repeat_last = True\<rparr>
      else \<lparr>instructions = ins, frame_count = of_nat (length data),
             in_bytes = (if data = [] then None else Some data), repeat_last = False\<rparr>)"

lemma decode_new_frame:
  "decode_frames (last_bytes [] (frames input)) [new_frame input ins data] = [(ins, data)]"
  by (auto simp: new_frame_def frame_bytes_def)

lemma recording_ok_cong:
  "frames x = frames y \<Longrightarrow> non_repeat x = non_repeat y \<Longrightarrow> recording_ok x = recording_ok y"
  by (simp add: recording_ok_def)

lemma new_frame_recording:
  assumes "recording_ok input" "length data < 2 ^ 64" "length (frames input) + 1 < 2 ^ 63"
  shows "recording_ok (input\<lparr>frames := frames input @ [new_frame input ins data], allocated_frames := m,
    non_repeat := (if repeat_last (new_frame input ins data) then non_repeat input else of_nat (length (frames input)))\<rparr>)"
proof -
  have n: "unat (of_nat (length (frames input)) :: size_t) = length (frames input)"
    using assms(3) by (intro unat_length) simp
  have ok: "frame_ok (new_frame input ins data)"
    using assms(2) by (auto simp: frame_ok_def new_frame_def frame_bytes_def)
  let ?f = "new_frame input ins data"
  have first: "frames input = [] \<Longrightarrow> \<not> repeat_last ?f" by (simp add: new_frame_def)
  have fs: "frames_ok (frames input)" using assms(1) by (simp add: recording_ok_def)
  then have frames: "frames_ok (frames input @ [?f])"
    using ok assms(3) first by (cases "frames input") (simp_all add: frames_ok_def)
  show ?thesis
  proof (cases "repeat_last ?f")
    case True
    then have "frames input \<noteq> []" using first by blast
    then have "unat (non_repeat input) < length (frames input)" "\<not> repeat_last (frames input ! unat (non_repeat input))"
        "\<forall>f \<in> set (drop (Suc (unat (non_repeat input))) (frames input)). repeat_last f"
      using assms(1) by (simp_all add: recording_ok_def)
    then show ?thesis using frames True by (simp add: recording_ok_def nth_append)
  next
    case False
    then show ?thesis using frames n by (simp add: recording_ok_def)
  qed
qed

lemma store_frame_recording:
  assumes inv: "rzx_inv rzx" and cur: "current_input rzx = Some a" and len: "length data < 2 ^ 64"
    and room: "length (rzx_items rzx) + 1 < 2 ^ 63"
  shows "\<exists>rzx'. libspectrum_rzx_store_frame rzx ins (of_nat (length data)) data = Some (ERROR_NONE, rzx') \<and>
    rzx_items rzx' = rzx_items rzx @ [Frame ins data] \<and> rzx_inv rzx' \<and> current_input rzx' = Some a \<and>
    map fst (rzx_blocks rzx') = map fst (rzx_blocks rzx)"
proof -
  obtain l input where l: "rzx_blocks rzx = l @ [(a, Input_block input)]" "recording_ok input"
    "input_at rzx (Some a) = Some input" "a \<notin> fst ` set l"
    by (rule input_at_recording [OF inv cur])
  let ?used = "of_nat (length (frames input)) :: size_t"
  define r where "r = (if allocated_frames input = ?used then input_block_resize input (?used + 1) else (input, False))"
  define new where "new = (if repeat_last (new_frame input ins data)
    then (fst r)\<lparr>frames := frames input @ [new_frame input ins data]\<rparr>
    else (fst r)\<lparr>non_repeat := ?used, frames := frames input @ [new_frame input ins data]\<rparr>)"
  have new: "frames new = frames input @ [new_frame input ins data]" by (simp add: new_def)
  have r: "frames (fst r) = frames input" "non_repeat (fst r) = non_repeat input"
    by (auto simp: r_def input_block_resize_def Let_def)
  have small: "length (frames input) + 1 < 2 ^ 63"
    using room frames_in_items [of a input "rzx_blocks rzx"] l(1) by (simp add: rzx_items_def)
  have same: "recording_ok (fst r)" using l(2) by (simp add: recording_ok_def r)
  have "recording_ok new = recording_ok (input\<lparr>frames := frames input @ [new_frame input ins data], allocated_frames := 0,
      non_repeat := (if repeat_last (new_frame input ins data) then non_repeat input else ?used)\<rparr>)"
    by (rule recording_ok_cong) (simp_all add: new_def r)
  then have "recording_ok new" using new_frame_recording [OF l(2) len small, of ins 0] by simp
  define rzx' where "rzx' = (if snd r then drop_pointers {a} rzx else rzx)\<lparr>rzx_blocks := l @ [(a, Input_block new)]\<rparr>"
  have "libspectrum_rzx_store_frame rzx ins (of_nat (length data)) data = Some (ERROR_NONE, rzx')"
  proof -
    have rep: "frame_repeats (fst r) (of_nat (length data)) data =
        Some (frames input \<noteq> [] \<and> data \<noteq> [] \<and> data = last_bytes [] (frames input))"
      using frame_repeats_result [OF same len] by (simp add: r)
    have copy: "copy_out data 0 (unat (of_nat (length data) :: size_t)) = Some data"
      using len by (simp add: copy_out_all unat_length)
    have zero: "(of_nat (length data) :: size_t) = 0 \<longleftrightarrow> data = []"
      using of_nat_length_eq [OF len, of "[]"] by simp
    have set_new: "set_input a x (rzx_blocks rzx) = l @ [(a, Input_block x)]" for x
      unfolding l(1) by (rule set_input_last [OF l(4)])
    have stored: "libspectrum_rzx_store_frame rzx ins (of_nat (length data)) data = (do {
        let (input, moved) = r;
        repeats \<leftarrow> frame_repeats input (of_nat (length data)) data;
        input \<leftarrow>
          (if repeats then
             Some (input\<lparr>frames := frames input @ [\<lparr>instructions = ins, frame_count = 0, in_bytes = None, repeat_last = True\<rparr>]\<rparr>)
           else do {
             copy \<leftarrow> (if (of_nat (length data) :: size_t) \<noteq> 0
               then map_option Some (copy_out data 0 (unat (of_nat (length data) :: size_t))) else Some None);
             Some (input\<lparr>non_repeat := ?used,
               frames := frames input @ [\<lparr>instructions = ins, frame_count = of_nat (length data), in_bytes = copy, repeat_last = False\<rparr>]\<rparr>) });
        let rzx = (if moved then drop_pointers {a} rzx else rzx);
        Some (ERROR_NONE, rzx\<lparr>rzx_blocks := set_input a input (rzx_blocks rzx)\<rparr>) })"
      using cur l(3) by (simp add: libspectrum_rzx_store_frame_def r_def Let_def)
    obtain input' moved where r': "r = (input', moved)" by force
    have fields: "frames input' = frames input" using r(1) by (simp add: r')
    show ?thesis
    proof (cases "frames input \<noteq> [] \<and> data \<noteq> [] \<and> data = last_bytes [] (frames input)")
      case True
      then have frame: "new_frame input ins data = \<lparr>instructions = ins, frame_count = 0, in_bytes = None, repeat_last = True\<rparr>"
        unfolding new_frame_def by (rule if_P)
      from True have "frame_repeats input' (of_nat (length data)) data = Some True"
        using rep by (simp only: r' fst_conv eqTrueI [OF True])
      then show ?thesis using set_new unfolding stored
        by (simp add: r' rzx'_def new_def frame fields)
    next
      case False
      then have frame: "new_frame input ins data = \<lparr>instructions = ins, frame_count = of_nat (length data),
          in_bytes = (if data = [] then None else Some data), repeat_last = False\<rparr>"
        unfolding new_frame_def by (rule if_not_P)
      from False have "frame_repeats input' (of_nat (length data)) data = Some False" using rep by (auto simp add: r')
      then show ?thesis using set_new unfolding stored
        by (simp add: r' rzx'_def new_def frame fields copy zero)
    qed
  qed
  moreover have "rzx_items rzx' = rzx_items rzx @ [Frame ins data]"
    using decode_append [of "[]" "frames input" "[new_frame input ins data]"]
    by (simp add: rzx_items_def rzx'_def l(1) new decode_new_frame del: decode_frames.simps)
  moreover have "rzx_inv rzx'"
  proof -
    have "frames_ok (frames new)" using \<open>recording_ok new\<close> by (simp add: recording_ok_def)
    then show ?thesis using inv cur \<open>recording_ok new\<close> by (auto simp: rzx_inv_def l(1) rzx'_def)
  qed
  moreover have "current_input rzx' = Some a" "map fst (rzx_blocks rzx') = map fst (rzx_blocks rzx)"
    using cur by (simp_all add: rzx'_def l(1))
  ultimately show ?thesis by blast
qed

section \<open>Sessions\<close>

lemma frames_ok_Nil [simp]: "frames_ok []"
  by (simp add: frames_ok_def)

lemma rzx_alloc_inv: "rzx_inv (libspectrum_rzx_alloc raw)" "rzx_items (libspectrum_rzx_alloc raw) = []"
  by (simp_all add: rzx_inv_def rzx_items_def libspectrum_rzx_alloc_def)

lemma start_input_inv:
  assumes "rzx_inv rzx" "n \<notin> fst ` set (rzx_blocks rzx)"
  shows "rzx_inv (libspectrum_rzx_start_input n rzx tstates)"
    "rzx_items (libspectrum_rzx_start_input n rzx tstates) = rzx_items rzx"
  using assms by (auto simp: rzx_inv_def rzx_items_def libspectrum_rzx_start_input_def recording_ok_def)

lemma stop_input_inv:
  "rzx_inv rzx \<Longrightarrow> rzx_inv (libspectrum_rzx_stop_input rzx)"
  "rzx_items (libspectrum_rzx_stop_input rzx) = rzx_items rzx"
  by (simp_all add: rzx_inv_def rzx_items_def libspectrum_rzx_stop_input_def)

lemma add_snap_inv:
  assumes "rzx_inv rzx" "n \<notin> fst ` set (rzx_blocks rzx)"
  shows "rzx_inv (libspectrum_rzx_add_snap n rzx snap automatic)"
    "rzx_items (libspectrum_rzx_add_snap n rzx snap automatic) = rzx_items rzx @ [Snap snap]"
  using assms by (auto simp: rzx_inv_def rzx_items_def libspectrum_rzx_add_snap_def libspectrum_rzx_stop_input_def)

text \<open>Where the searches for a snapshot end.\<close>

lemma find_snapshot:
  "case g_slist_find_custom l RZX_SNAPSHOT_BLOCK find_block of
     [] \<Rightarrow> \<forall>(a, block) \<in> set l. block_snap block = None
   | (a, block) # xs \<Rightarrow> \<exists>pre snap automatic. l = pre @ (a, block) # xs \<and> block = Snapshot_block snap automatic \<and>
       (\<forall>(a, block) \<in> set pre. block_snap block = None)"
proof (induction l)
  case (Cons x l)
  obtain b block where x: "x = (b, block)" by force
  show ?case
  proof (cases block)
    case (Snapshot_block snap automatic)
    then show ?thesis by (auto simp: x find_block_def intro!: exI [of _ "[]"])
  next
    case (Input_block input)
    then show ?thesis using Cons.IH
      by (auto simp: x find_block_def split: list.splits prod.splits intro!: exI [of _ "x # _"])
  next
    case (Sign_start_block keyid)
    then show ?thesis using Cons.IH
      by (auto simp: x find_block_def split: list.splits prod.splits intro!: exI [of _ "x # _"])
  next
    case (Sign_end_block len)
    then show ?thesis using Cons.IH
      by (auto simp: x find_block_def split: list.splits prod.splits intro!: exI [of _ "x # _"])
  qed
qed simp

lemma no_snap_items: "\<forall>(a, block) \<in> set l. block_snap block = None \<Longrightarrow> \<forall>i \<in> set (blocks_items l). \<not> is_snap i"
proof (induction l)
  case (Cons x l)
  then show ?case by (cases x; cases "snd x") auto
qed simp

text \<open>The last snapshot: the chain from it, and no snapshot after it.\<close>

lemma last_snapshot_result:
  assumes "previous = [] \<or> (\<exists>pre a snap automatic. previous = (a, Snapshot_block snap automatic) # list \<and> l = pre @ previous)"
    "previous = [] \<Longrightarrow> \<exists>pre. l = pre @ list \<and> (\<forall>(a, block) \<in> set pre. block_snap block = None)"
  shows "case last_snapshot previous list of
     [] \<Rightarrow> \<forall>(a, block) \<in> set l. block_snap block = None
   | (a, block) # xs \<Rightarrow> \<exists>pre snap automatic. l = pre @ (a, block) # xs \<and> block = Snapshot_block snap automatic \<and>
       (\<forall>(a, block) \<in> set xs. block_snap block = None)"
  using assms
proof (induction previous list rule: last_snapshot.induct)
  case (1 previous list)
  note find = find_snapshot [of list]
  show ?case
  proof (cases "g_slist_find_custom list RZX_SNAPSHOT_BLOCK find_block")
    case Nil
    have result: "last_snapshot previous list = previous" using Nil by (subst last_snapshot.simps) simp
    show ?thesis
    proof (cases "previous = []")
      case True
      then obtain pre where "l = pre @ list" "\<forall>(a, block) \<in> set pre. block_snap block = None" using "1.prems"(2) by blast
      then show ?thesis using find Nil True unfolding result by auto
    next
      case False
      then show ?thesis using "1.prems"(1) find Nil unfolding result by auto
    qed
  next
    case (Cons x xs)
    obtain a block where x: "x = (a, block)" by force
    obtain mid snap automatic where mid: "list = mid @ (a, block) # xs" "block = Snapshot_block snap automatic"
      using find by (auto simp: Cons x)
    have result: "last_snapshot previous list = last_snapshot (x # xs) xs" using Cons by (subst last_snapshot.simps) simp
    have "\<exists>pre. l = pre @ list" using "1.prems" by (cases "previous = []") auto
    then show ?thesis unfolding result
      by (intro "1.IH" [OF Cons]) (auto simp: x mid)
  qed
qed

fun last_snap_items :: "rzx_item list \<Rightarrow> rzx_item list option" where
  "last_snap_items [] = None"
| "last_snap_items (i # is) =
     (case last_snap_items is of
        Some js \<Rightarrow> Some (i # js)
      | None \<Rightarrow> if is_snap i then Some [i] else None)"

lemma last_snap_items_none: "(\<forall>i \<in> set is. \<not> is_snap i) \<Longrightarrow> last_snap_items is = None"
  by (induction "is") auto

lemma last_snap_items_append:
  "\<forall>i \<in> set js. \<not> is_snap i \<Longrightarrow> last_snap_items (is @ Snap s # js) = Some (is @ [Snap s])"
  by (induction "is") (auto simp: last_snap_items_none)

lemma truncate_at: "distinct (map fst (pre @ x # xs)) \<Longrightarrow> truncate_after (fst x) (pre @ x # xs) = pre @ [x]"
  by (induction pre) auto

lemma rollback_at_result:
  assumes "rzx_inv rzx" "rzx_blocks rzx = pre @ (a, Snapshot_block snap automatic) # xs"
  shows "\<exists>rzx'. rollback_at rzx ((a, Snapshot_block snap automatic) # ys) = Some (ERROR_NONE, rzx', Some snap) \<and>
    rzx_blocks rzx' = pre @ [(a, Snapshot_block snap automatic)] \<and> current_input rzx' = None \<and> rzx_inv rzx'"
proof -
  have "truncate_after a (rzx_blocks rzx) = pre @ [(a, Snapshot_block snap automatic)]"
    using truncate_at [of pre "(a, Snapshot_block snap automatic)" xs] assms by (simp add: rzx_inv_def)
  then show ?thesis using assms
    by (auto simp: rollback_at_def Let_def libspectrum_rzx_stop_input_def rzx_inv_def)
qed

lemma rollback_inv:
  assumes "rzx_inv rzx"
  shows "case last_snap_items (rzx_items rzx) of
      None \<Rightarrow> libspectrum_rzx_rollback rzx = Some (ERROR_CORRUPT, rzx, None)
    | Some is \<Rightarrow> \<exists>rzx' snap. libspectrum_rzx_rollback rzx = Some (ERROR_NONE, rzx', Some snap) \<and>
        rzx_items rzx' = is \<and> last is = Snap snap \<and> current_input rzx' = None \<and> rzx_inv rzx' \<and>
        set (rzx_blocks rzx') \<subseteq> set (rzx_blocks rzx)"
proof (cases "last_snapshot [] (rzx_blocks rzx)")
  case Nil
  then have "\<forall>(a, block) \<in> set (rzx_blocks rzx). block_snap block = None"
    using last_snapshot_result [of "[]" "rzx_blocks rzx" "rzx_blocks rzx"] by auto
  then have "last_snap_items (rzx_items rzx) = None"
    unfolding rzx_items_def by (intro last_snap_items_none no_snap_items)
  then show ?thesis using Nil by (simp add: libspectrum_rzx_rollback_def rollback_at_def)
next
  case (Cons x xs)
  obtain a block where x: "x = (a, block)" by force
  obtain pre snap automatic where pre: "rzx_blocks rzx = pre @ (a, Snapshot_block snap automatic) # xs"
    "block = Snapshot_block snap automatic" "\<forall>(a, block) \<in> set xs. block_snap block = None"
    using last_snapshot_result [of "[]" "rzx_blocks rzx" "rzx_blocks rzx"] by (auto simp: Cons x)
  have "last_snap_items (rzx_items rzx) = Some (blocks_items pre @ [Snap snap])"
    using last_snap_items_append [OF no_snap_items [OF pre(3)]] by (simp add: rzx_items_def pre(1))
  then show ?thesis using rollback_at_result [OF assms pre(1), of xs] Cons
    by (auto simp: libspectrum_rzx_rollback_def x pre(2) rzx_items_def pre(1))
qed

fun nth_snap_items :: "nat \<Rightarrow> rzx_item list \<Rightarrow> rzx_item list option" where
  "nth_snap_items i [] = None"
| "nth_snap_items i (x # xs) =
     (if is_snap x then (case i of 0 \<Rightarrow> Some [x] | Suc j \<Rightarrow> map_option ((#) x) (nth_snap_items j xs))
      else map_option ((#) x) (nth_snap_items i xs))"

lemma nth_snap_items_skip:
  "\<forall>x \<in> set pre. \<not> is_snap x \<Longrightarrow> nth_snap_items i (pre @ xs) = map_option ((@) pre) (nth_snap_items i xs)"
  by (cases "nth_snap_items i xs"; induction pre; auto)

lemma nth_snapshot_result:
  "case nth_snapshot i l of
     [] \<Rightarrow> nth_snap_items i (blocks_items l) = None
   | (a, block) # xs \<Rightarrow> \<exists>pre snap automatic. l = pre @ (a, block) # xs \<and> block = Snapshot_block snap automatic \<and>
       nth_snap_items i (blocks_items l) = Some (blocks_items pre @ [Snap snap])"
proof (induction i arbitrary: l)
  case 0
  show ?case
  proof (cases "g_slist_find_custom l RZX_SNAPSHOT_BLOCK find_block")
    case Nil
    then show ?thesis
      using find_snapshot [of l] nth_snap_items_skip [OF no_snap_items [of l], of 0 "[]"] by simp
  next
    case (Cons x xs)
    obtain a block where x: "x = (a, block)" by force
    obtain pre snap automatic where pre: "l = pre @ (a, block) # xs" "block = Snapshot_block snap automatic"
      "\<forall>(a, block) \<in> set pre. block_snap block = None"
      using find_snapshot [of l] by (auto simp: Cons x)
    then show ?thesis using Cons nth_snap_items_skip [OF no_snap_items [OF pre(3)]] by (simp add: x)
  qed
next
  case (Suc i)
  show ?case
  proof (cases "g_slist_find_custom l RZX_SNAPSHOT_BLOCK find_block")
    case Nil
    then show ?thesis
      using find_snapshot [of l] nth_snap_items_skip [OF no_snap_items [of l], of "Suc i" "[]"] by simp
  next
    case (Cons x xs)
    obtain a block where x: "x = (a, block)" by force
    obtain pre snap automatic where pre: "l = pre @ (a, block) # xs" "block = Snapshot_block snap automatic"
      "\<forall>(a, block) \<in> set pre. block_snap block = None"
      using find_snapshot [of l] by (auto simp: Cons x)
    have items: "nth_snap_items (Suc i) (blocks_items l) =
        map_option (\<lambda>is. blocks_items pre @ Snap snap # is) (nth_snap_items i (blocks_items xs))"
      using nth_snap_items_skip [OF no_snap_items [OF pre(3)]]
      by (simp add: pre(1,2) option.map_comp o_def)
    have result: "nth_snapshot (Suc i) l = nth_snapshot i xs" by (simp add: Cons)
    show ?thesis
    proof (cases "nth_snapshot i xs")
      case Nil
      then show ?thesis using Suc.IH [of xs] unfolding result by (simp add: items)
    next
      case (Cons y ys)
      obtain b other where y: "y = (b, other)" by force
      obtain mid s auto where mid: "xs = mid @ (b, other) # ys" "other = Snapshot_block s auto"
        "nth_snap_items i (blocks_items xs) = Some (blocks_items mid @ [Snap s])"
        using Suc.IH [of xs] by (auto simp: Cons y)
      have "l = (pre @ (a, block) # mid) @ (b, other) # ys" by (simp add: pre(1) mid(1))
      moreover have "nth_snap_items (Suc i) (blocks_items l) = Some (blocks_items (pre @ (a, block) # mid) @ [Snap s])"
        unfolding items mid(3) by (simp add: pre(2))
      ultimately show ?thesis unfolding result Cons y list.case prod.case using mid(2) by blast
    qed
  qed
qed

lemma rollback_to_inv:
  assumes "rzx_inv rzx"
  shows "case nth_snap_items (unat which) (rzx_items rzx) of
      None \<Rightarrow> libspectrum_rzx_rollback_to rzx which = Some (ERROR_CORRUPT, rzx, None)
    | Some is \<Rightarrow> \<exists>rzx' snap. libspectrum_rzx_rollback_to rzx which = Some (ERROR_NONE, rzx', Some snap) \<and>
        rzx_items rzx' = is \<and> last is = Snap snap \<and> current_input rzx' = None \<and> rzx_inv rzx' \<and>
        set (rzx_blocks rzx') \<subseteq> set (rzx_blocks rzx)"
proof (cases "nth_snapshot (unat which) (rzx_blocks rzx)")
  case Nil
  then show ?thesis using nth_snapshot_result [of "unat which" "rzx_blocks rzx"]
    by (simp add: libspectrum_rzx_rollback_to_def rollback_at_def rzx_items_def)
next
  case (Cons x xs)
  obtain a block where x: "x = (a, block)" by force
  obtain pre snap automatic where pre: "rzx_blocks rzx = pre @ (a, Snapshot_block snap automatic) # xs"
    "block = Snapshot_block snap automatic"
    "nth_snap_items (unat which) (rzx_items rzx) = Some (blocks_items pre @ [Snap snap])"
    using nth_snapshot_result [of "unat which" "rzx_blocks rzx"] by (auto simp: Cons x rzx_items_def)
  then show ?thesis using rollback_at_result [OF assms pre(1), of xs] Cons
    by (auto simp: libspectrum_rzx_rollback_to_def x rzx_items_def)
qed

text \<open>The calls of a recording session; those that make a block have its address.\<close>

datatype rzx_call =
    Start_input nat dword
  | Stop_input
  | Add_snap nat libspectrum_snap int
  | Store_frame size_t "byte list"
  | Rollback
  | Rollback_to size_t

fun rzx_step :: "libspectrum_rzx \<Rightarrow> rzx_call \<Rightarrow> libspectrum_rzx option" where
  "rzx_step rzx (Start_input n tstates) = Some (libspectrum_rzx_start_input n rzx tstates)"
| "rzx_step rzx Stop_input = Some (libspectrum_rzx_stop_input rzx)"
| "rzx_step rzx (Add_snap n snap automatic) = Some (libspectrum_rzx_add_snap n rzx snap automatic)"
| "rzx_step rzx (Store_frame ins data) = map_option snd (libspectrum_rzx_store_frame rzx ins (of_nat (length data)) data)"
| "rzx_step rzx Rollback = map_option (\<lambda>(e, r, s). r) (libspectrum_rzx_rollback rzx)"
| "rzx_step rzx (Rollback_to which) = map_option (\<lambda>(e, r, s). r) (libspectrum_rzx_rollback_to rzx which)"

fun rzx_session :: "libspectrum_rzx \<Rightarrow> rzx_call list \<Rightarrow> libspectrum_rzx option" where
  "rzx_session rzx [] = Some rzx"
| "rzx_session rzx (c # cs) = rzx_step rzx c \<bind> (\<lambda>rzx. rzx_session rzx cs)"

fun call_node :: "rzx_call \<Rightarrow> nat list" where
  "call_node (Start_input n tstates) = [n]"
| "call_node (Add_snap n snap automatic) = [n]"
| "call_node _ = []"

text \<open>The specification: a list of frames and snapshots, and whether frames are recorded.\<close>

fun spec_call :: "rzx_item list \<times> bool \<Rightarrow> rzx_call \<Rightarrow> rzx_item list \<times> bool" where
  "spec_call (is, on) (Start_input n tstates) = (is, True)"
| "spec_call (is, on) Stop_input = (is, False)"
| "spec_call (is, on) (Add_snap n snap automatic) = (is @ [Snap snap], False)"
| "spec_call (is, on) (Store_frame ins data) = (if on then is @ [Frame ins data] else is, on)"
| "spec_call (is, on) Rollback =
     (case last_snap_items is of None \<Rightarrow> (is, on) | Some js \<Rightarrow> (js, False))"
| "spec_call (is, on) (Rollback_to which) =
     (case nth_snap_items (unat which) is of None \<Rightarrow> (is, on) | Some js \<Rightarrow> (js, False))"

definition rzx_abs :: "libspectrum_rzx \<Rightarrow> rzx_item list \<times> bool" where
  "rzx_abs rzx = (rzx_items rzx, current_input rzx \<noteq> None)"

fun call_ok :: "rzx_call \<Rightarrow> bool" where
  "call_ok (Store_frame ins data) = (length data < 2 ^ 64)"
| "call_ok _ = True"

lemma rzx_step_refines:
  assumes "rzx_inv rzx" "call_ok c" "set (call_node c) \<inter> fst ` set (rzx_blocks rzx) = {}"
    "length (rzx_items rzx) + 1 < 2 ^ 63"
  shows "\<exists>rzx'. rzx_step rzx c = Some rzx' \<and> rzx_abs rzx' = spec_call (rzx_abs rzx) c \<and> rzx_inv rzx' \<and>
    fst ` set (rzx_blocks rzx') \<subseteq> set (call_node c) \<union> fst ` set (rzx_blocks rzx)"
proof (cases c)
  case (Start_input n tstates)
  then show ?thesis using start_input_inv [OF assms(1), of n tstates] assms(3)
    by (auto simp: rzx_abs_def libspectrum_rzx_start_input_def)
next
  case Stop_input
  then show ?thesis using stop_input_inv [of rzx] assms(1)
    by (auto simp: rzx_abs_def libspectrum_rzx_stop_input_def)
next
  case (Add_snap n snap automatic)
  then show ?thesis using add_snap_inv [OF assms(1), of n snap automatic] assms(3)
    by (auto simp: rzx_abs_def libspectrum_rzx_add_snap_def libspectrum_rzx_stop_input_def Let_def)
next
  case (Store_frame ins data)
  show ?thesis
  proof (cases "current_input rzx")
    case None
    then show ?thesis using Store_frame assms(1) by (simp add: libspectrum_rzx_store_frame_def rzx_abs_def)
  next
    case (Some a)
    obtain rzx' where "libspectrum_rzx_store_frame rzx ins (of_nat (length data)) data = Some (ERROR_NONE, rzx')"
      "rzx_items rzx' = rzx_items rzx @ [Frame ins data]" "rzx_inv rzx'" "current_input rzx' = Some a"
      "map fst (rzx_blocks rzx') = map fst (rzx_blocks rzx)"
      using store_frame_recording [OF assms(1) Some _ assms(4)] assms(2) Store_frame by auto
    moreover from this have "fst ` set (rzx_blocks rzx') = fst ` set (rzx_blocks rzx)" by (metis set_map)
    ultimately show ?thesis using Some by (simp add: Store_frame rzx_abs_def)
  qed
next
  case Rollback
  then show ?thesis using rollback_inv [OF assms(1)] assms(1)
    by (auto simp: rzx_abs_def split: option.splits)
next
  case (Rollback_to which)
  then show ?thesis using rollback_to_inv [OF assms(1), of which] assms(1)
    by (auto simp: rzx_abs_def split: option.splits)
qed

lemma last_snap_items_length: "last_snap_items is = Some js \<Longrightarrow> length js \<le> length is"
  by (induction "is" arbitrary: js) (auto split: option.splits if_splits)

lemma nth_snap_items_length: "nth_snap_items i is = Some js \<Longrightarrow> length js \<le> length is"
  by (induction i "is" arbitrary: js rule: nth_snap_items.induct) (auto split: option.splits if_splits nat.splits)

lemma spec_call_length: "length (fst (spec_call s c)) \<le> Suc (length (fst s))"
  by (cases s; cases c)
    (auto split: option.splits dest: last_snap_items_length nth_snap_items_length)

text \<open>
  C4: A recording session keeps exactly the frames and snapshots it is given: whatever sequence
  of the recording calls is made on a new recording, none has undefined behaviour, and the blocks
  hold the sequence the calls describe, with frames ignored when no input block is open and
  everything after a snapshot gone when it is rolled back to. Storing a frame as a repetition of
  the last one loses nothing.
\<close>

theorem recording_refines_sequence:
  assumes "distinct (concat (map call_node calls))" "\<forall>c \<in> set calls. call_ok c" "length calls < 2 ^ 63"
  shows "\<exists>rzx. rzx_session (libspectrum_rzx_alloc raw) calls = Some rzx \<and>
    rzx_abs rzx = foldl spec_call ([], False) calls \<and> rzx_inv rzx"
proof -
  have session: "\<exists>rzx'. rzx_session rzx calls = Some rzx' \<and> rzx_abs rzx' = foldl spec_call (rzx_abs rzx) calls \<and> rzx_inv rzx'"
    if "rzx_inv rzx" "distinct (concat (map call_node calls))" "\<forall>c \<in> set calls. call_ok c"
      "length (rzx_items rzx) + length calls < 2 ^ 63"
      "set (concat (map call_node calls)) \<inter> fst ` set (rzx_blocks rzx) = {}" for rzx calls
    using that
  proof (induction calls arbitrary: rzx)
    case (Cons c calls)
    obtain r where r: "rzx_step rzx c = Some r" "rzx_abs r = spec_call (rzx_abs rzx) c" "rzx_inv r"
      "fst ` set (rzx_blocks r) \<subseteq> set (call_node c) \<union> fst ` set (rzx_blocks rzx)"
      using rzx_step_refines [OF Cons.prems(1), of c] Cons.prems by auto
    have "length (rzx_items r) \<le> Suc (length (rzx_items rzx))"
      using spec_call_length [of "rzx_abs rzx" c] unfolding r(2) [symmetric] by (simp add: rzx_abs_def)
    moreover have "set (concat (map call_node calls)) \<inter> fst ` set (rzx_blocks r) = {}"
    proof -
      have "set (call_node c) \<inter> set (concat (map call_node calls)) = {}" using Cons.prems(2) by simp
      moreover have "set (concat (map call_node calls)) \<inter> fst ` set (rzx_blocks rzx) = {}" using Cons.prems(5) by auto
      ultimately show ?thesis using r(4) by blast
    qed
    ultimately obtain r' where "rzx_session r calls = Some r'" "rzx_abs r' = foldl spec_call (rzx_abs r) calls" "rzx_inv r'"
      using Cons.IH [OF r(3)] Cons.prems r(4) by auto
    then show ?case using r by auto
  qed simp
  show ?thesis
    using session [of "libspectrum_rzx_alloc raw" calls] rzx_alloc_inv [of raw] assms
    by (auto simp: rzx_abs_def libspectrum_rzx_alloc_def)
qed

lemma recording_refines_sequence_witness:
  "\<forall>raw snap. \<exists>rzx. rzx_session (libspectrum_rzx_alloc raw)
       [Start_input 1 0, Store_frame 5 [1, 2], Store_frame 6 [1, 2], Add_snap 2 snap 0, Store_frame 7 [3],
        Start_input 3 0, Store_frame 8 [4], Rollback] = Some rzx \<and>
     rzx_abs rzx = ([Frame 5 [1, 2], Frame 6 [1, 2], Snap snap], False)"
proof (intro allI)
  fix raw snap
  show "\<exists>rzx. rzx_session (libspectrum_rzx_alloc raw)
       [Start_input 1 0, Store_frame 5 [1, 2], Store_frame 6 [1, 2], Add_snap 2 snap 0, Store_frame 7 [3],
        Start_input 3 0, Store_frame 8 [4], Rollback] = Some rzx \<and>
     rzx_abs rzx = ([Frame 5 [1, 2], Frame 6 [1, 2], Snap snap], False)"
    using recording_refines_sequence [of "[Start_input 1 0, Store_frame 5 [1, 2], Store_frame 6 [1, 2],
      Add_snap 2 snap 0, Store_frame 7 [3], Start_input 3 0, Store_frame 8 [4], Rollback]" raw] by auto
qed

end
