(* ===== verification/Rzx_Playback.thy ===== *)
theory Rzx_Playback
  imports Rzx_Session
begin

text \<open>
  Playback of a recording: the frames an emulator sees are those of the recording, in their order.
\<close>

section \<open>Playback\<close>

text \<open>An emulator that plays a recording: it reads so many bytes in every frame until it is told to stop.\<close>

fun read_ins :: "nat \<Rightarrow> libspectrum_rzx \<Rightarrow> (byte list \<times> libspectrum_rzx) option" where
  "read_ins 0 rzx = Some ([], rzx)"
| "read_ins (Suc k) rzx = do {
     (error, rzx, byte) \<leftarrow> libspectrum_rzx_playback rzx;
     byte \<leftarrow> byte;
     (if error \<noteq> ERROR_NONE then None
      else do {
        (data, rzx) \<leftarrow> read_ins k rzx;
        Some (byte # data, rzx) }) }"

text \<open>The frames it has seen, and whether playback is finished with the last one.\<close>

fun replay :: "nat list \<Rightarrow> libspectrum_rzx \<Rightarrow> ((size_t \<times> byte list) list \<times> bool) option" where
  "replay [] rzx = Some ([], False)"
| "replay (c # cs) rzx = do {
     ins \<leftarrow> libspectrum_rzx_instructions rzx;
     (data, rzx) \<leftarrow> read_ins c rzx;
     (error, rzx, finished, snap) \<leftarrow> libspectrum_rzx_playback_frame rzx;
     (if error \<noteq> ERROR_NONE then None
      else if finished then (if cs = [] then Some ([(ins, data)], True) else None)
      else do {
        (seen, finished) \<leftarrow> replay cs rzx;
        Some ((ins, data) # seen, finished) }) }"

definition playable :: "rzx_block_t gslist \<Rightarrow> bool" where
  "playable l \<longleftrightarrow> distinct (map fst l) \<and>
     (\<forall>(a, block) \<in> set l. \<forall>input. block = Input_block input \<longrightarrow> frames input \<noteq> [] \<and> frames_ok (frames input))"

definition blocks_frames :: "rzx_block_t gslist \<Rightarrow> (size_t \<times> byte list) list" where
  "blocks_frames l = concat (map (\<lambda>(a, block). case block_input block of None \<Rightarrow> [] | Some i \<Rightarrow> decode_frames [] (frames i)) l)"

lemma blocks_frames_simps [simp]:
  "blocks_frames [] = []"
  "blocks_frames (x # l) = (case block_input (snd x) of None \<Rightarrow> [] | Some i \<Rightarrow> decode_frames [] (frames i)) @ blocks_frames l"
  "blocks_frames (l @ m) = blocks_frames l @ blocks_frames m"
  by (auto simp: blocks_frames_def split: prod.splits)

lemma items_frames_append: "items_frames (xs @ ys) = items_frames xs @ items_frames ys"
  by (simp add: items_frames_def List.map_filter_def)

lemma items_frames_block: "items_frames (block_items b) = (case block_input b of None \<Rightarrow> [] | Some i \<Rightarrow> decode_frames [] (frames i))"
  by (cases b) (simp_all add: items_frames_def List.map_filter_def o_def split_def)

lemma frames_of_items: "items_frames (blocks_items l) = blocks_frames l"
  by (induction l) (simp_all add: items_frames_append items_frames_block, simp add: items_frames_def List.map_filter_def)

text \<open>The state in frame \<open>i\<close> of the input block at \<open>a\<close>, with \<open>j\<close> of its bytes read.\<close>

definition playing_at :: "libspectrum_rzx \<Rightarrow> rzx_block_t gslist \<Rightarrow> nat \<Rightarrow> input_block_t \<Rightarrow> nat \<Rightarrow> nat \<Rightarrow> nat \<Rightarrow> bool" where
  "playing_at rzx l a input i d j \<longleftrightarrow> rzx_blocks rzx = l \<and> playable l \<and> (a, Input_block input) \<in> set l \<and>
     rzx_current_block rzx = Some a \<and> current_input rzx = Some a \<and> current_frame rzx = of_nat i \<and>
     data_frame rzx = Some (a, d) \<and> in_count rzx = of_nat j \<and> i < length (frames input) \<and> d \<le> i \<and>
     \<not> repeat_last (frames input ! d) \<and> (\<forall>k. d < k \<and> k \<le> i \<longrightarrow> repeat_last (frames input ! k))"

lemma node_data_entry: "distinct (map fst l) \<Longrightarrow> (a, x) \<in> set l \<Longrightarrow> node_data l a = Some x"
proof (induction l)
  case (Cons y l)
  then show ?case by (cases y; cases "fst y = a") (force simp: node_data_def chain_at_def)+
qed simp

lemma input_at_fields [simp]:
  "input_at (rzx\<lparr>current_frame := f\<rparr>) p = input_at rzx p"
  "input_at (rzx\<lparr>in_count := c\<rparr>) p = input_at rzx p"
  "input_at (rzx\<lparr>data_frame := q\<rparr>) p = input_at rzx p"
  by (simp_all add: input_at_def)

lemma playing_facts:
  assumes "playing_at rzx l a input i d j"
  shows "input_at rzx (Some a) = Some input" "frame_at rzx (Some (a, d)) = Some (frames input ! d)"
    "frames_ok (frames input)" "frame_count (frames input ! d) = of_nat (length (frame_bytes (frames input ! d)))"
    "length (frame_bytes (frames input ! d)) < 2 ^ 64" "length (frames input) < 2 ^ 63"
    "data_frame rzx = Some (a, d)"
proof -
  have p: "playable l" "(a, Input_block input) \<in> set l" "rzx_blocks rzx = l" "data_frame rzx = Some (a, d)" "d < length (frames input)"
    "\<not> repeat_last (frames input ! d)"
    using assms by (auto simp: playing_at_def)
  show input: "input_at rzx (Some a) = Some input"
    using p node_data_entry [of l a "Input_block input"] by (simp add: input_at_def playable_def)
  show "data_frame rzx = Some (a, d)" by (rule p)
  show "frame_at rzx (Some (a, d)) = Some (frames input ! d)"
    using p input by (simp add: frame_at_def nget_def)
  show ok: "frames_ok (frames input)" using p(1,2) by (auto simp: playable_def)
  then have "frame_ok (frames input ! d)" using p(5) by (simp add: frames_ok_def)
  then show "frame_count (frames input ! d) = of_nat (length (frame_bytes (frames input ! d)))"
    "length (frame_bytes (frames input ! d)) < 2 ^ 64"
    using p(6) by (simp_all add: frame_ok_def)
  show "length (frames input) < 2 ^ 63" using ok by (simp add: frames_ok_def)
qed

lemma read_ins_playing:
  assumes "playing_at rzx l a input i d j" "j + k = length (frame_bytes (frames input ! d))"
  shows "\<exists>rzx'. read_ins k rzx = Some (drop j (frame_bytes (frames input ! d)), rzx') \<and>
    playing_at rzx' l a input i d (j + k)"
  using assms
proof (induction k arbitrary: rzx j)
  case 0
  then show ?case by auto
next
  case (Suc k)
  note f = playing_facts [OF Suc.prems(1)]
  let ?data = "frame_bytes (frames input ! d)"
  have j: "j < length ?data" using Suc.prems(2) by simp
  have count: "in_count rzx = of_nat j" using Suc.prems(1) by (simp add: playing_at_def)
  have uj: "unat (of_nat j :: size_t) = j" "unat (of_nat (length ?data) :: size_t) = length ?data"
    using j f(5) by (simp_all add: unat_of_nat take_bit_nat_eq_self)
  have less: "\<not> (of_nat j :: size_t) \<ge> of_nat (length ?data)"
    using j by (simp add: word_le_nat_alt uj)
  have data: "in_bytes (frames input ! d) = Some ?data"
    using j by (auto simp: frame_bytes_def split: option.splits)
  define r where "r = rzx\<lparr>in_count := of_nat (Suc j)\<rparr>"
  have one: "libspectrum_rzx_playback rzx = Some (ERROR_NONE, r, Some (?data ! j))"
    using less j by (simp add: libspectrum_rzx_playback_def f(2,4,7) count data aget_def uj r_def add.commute)
  have "playing_at r l a input i d (Suc j)"
    using Suc.prems(1) unfolding playing_at_def r_def by simp
  then obtain rzx' where "read_ins k r = Some (drop (Suc j) ?data, rzx')" "playing_at rzx' l a input i d (Suc j + k)"
    using Suc.IH [of r "Suc j"] Suc.prems(2) by auto
  then show ?case using one j by (simp add: Cons_nth_drop_Suc)
qed

text \<open>The frames still to come in the block and after it.\<close>

lemma decode_take:
  "i < length fs \<Longrightarrow> decode_frames prev fs ! i = (instructions (fs ! i), last_bytes prev (take (Suc i) fs))"
  by (induction fs arbitrary: prev i) (auto simp: Let_def nth_Cons split: nat.splits)

lemma last_bytes_at:
  assumes "d \<le> i" "i < length fs" "\<not> repeat_last (fs ! d)" "\<forall>k. d < k \<and> k \<le> i \<longrightarrow> repeat_last (fs ! k)"
  shows "last_bytes prev (take (Suc i) fs) = frame_bytes (fs ! d)"
  using assms
proof (induction i)
  case 0
  then show ?case by (simp add: take_Suc_conv_app_nth)
next
  case (Suc i)
  show ?case
  proof (cases "d = Suc i")
    case True
    then show ?thesis using Suc.prems by (simp add: take_Suc_conv_app_nth)
  next
    case False
    then have "repeat_last (fs ! Suc i)" using Suc.prems by simp
    then show ?thesis using Suc False by (simp add: take_Suc_conv_app_nth)
  qed
qed

lemma frame_played:
  assumes "playing_at rzx l a input i d j"
  shows "decode_frames [] (frames input) ! i = (instructions (frames input ! i), frame_bytes (frames input ! d))"
    "libspectrum_rzx_instructions rzx = Some (instructions (frames input ! i))"
proof -
  note f = playing_facts [OF assms]
  have p: "i < length (frames input)" "d \<le> i" "\<not> repeat_last (frames input ! d)"
    "\<forall>k. d < k \<and> k \<le> i \<longrightarrow> repeat_last (frames input ! k)" "current_input rzx = Some a" "current_frame rzx = of_nat i"
    using assms by (simp_all add: playing_at_def)
  show "decode_frames [] (frames input) ! i = (instructions (frames input ! i), frame_bytes (frames input ! d))"
    using decode_take [OF p(1), of "[]"] last_bytes_at [OF p(2,1,3,4), of "[]"] by simp
  have "unat (of_nat i :: size_t) = i" using p(1) f(6) by (simp add: unat_of_nat take_bit_nat_eq_self)
  then show "libspectrum_rzx_instructions rzx = Some (instructions (frames input ! i))"
    using p f(1) by (simp add: libspectrum_rzx_instructions_def aget_def)
qed

lemma next_frame_playing:
  assumes "playing_at rzx l a input i d (length (frame_bytes (frames input ! d)))" "Suc i < length (frames input)"
  shows "\<exists>rzx' d'. libspectrum_rzx_playback_frame rzx = Some (ERROR_NONE, rzx', False, None) \<and>
    playing_at rzx' l a input (Suc i) d' 0"
proof -
  note f = playing_facts [OF assms(1)]
  have p: "current_input rzx = Some a" "current_frame rzx = of_nat i" "in_count rzx = of_nat (length (frame_bytes (frames input ! d)))"
    using assms(1) by (simp_all add: playing_at_def)
  have u: "unat (1 + of_nat i :: size_t) = Suc i" "unat (of_nat (length (frames input)) :: size_t) = length (frames input)"
  proof -
    have "(1 + of_nat i :: size_t) = of_nat (Suc i)" by simp
    then show "unat (1 + of_nat i :: size_t) = Suc i"
      using assms(2) f(6) by (simp only: unat_of_nat) (simp add: take_bit_nat_eq_self)
    show "unat (of_nat (length (frames input)) :: size_t) = length (frames input)"
      using f(6) by (simp add: unat_of_nat take_bit_nat_eq_self)
  qed
  have less: "\<not> (of_nat (length (frames input)) :: size_t) \<le> 1 + of_nat i"
    using assms(2) by (simp add: word_le_nat_alt u)
  define d' where "d' = (if repeat_last (frames input ! Suc i) then d else Suc i)"
  define rzx' where "rzx' = rzx\<lparr>current_frame := of_nat (Suc i), in_count := 0, data_frame := Some (a, d')\<rparr>"
  have "libspectrum_rzx_playback_frame rzx = Some (ERROR_NONE, rzx', False, None)"
    using less assms(2)
    by (simp add: libspectrum_rzx_playback_frame_def f p aget_def u Let_def add.commute [of "of_nat i"] rzx'_def d'_def)
  moreover have "playing_at rzx' l a input (Suc i) d' 0"
    using assms le_Suc_eq by (auto simp: playing_at_def rzx'_def d'_def)
  ultimately show ?thesis by blast
qed

lemma following_input_result:
  "case following_input snap xs of
     (None, s) \<Rightarrow> blocks_frames xs = []  \<and> (\<forall>(a, block) \<in> set xs. block_input block = None)
   | (Some b, s) \<Rightarrow> \<exists>pre input post. xs = pre @ (b, Input_block input) # post \<and> blocks_frames pre = []"
proof (induction xs arbitrary: snap)
  case (Cons x xs)
  obtain a block where x: "x = (a, block)" by force
  show ?case
  proof (cases "block_input block")
    case (Some input)
    then show ?thesis by (cases block) (auto simp: x intro!: exI [of _ "[]"])
  next
    case None
    define snap' where "snap' = (if rzx_block_type block = RZX_SNAPSHOT_BLOCK then block_snap block else snap)"
    have step: "following_input snap (x # xs) = following_input snap' xs"
      using None by (cases block) (simp_all add: x snap'_def)
    have skip: "blocks_frames (x # pre) = blocks_frames pre" for pre using None by (simp add: x)
    obtain p s where p: "following_input snap' xs = (p, s)" by force
    show ?thesis
    proof (cases p)
      case None
      then show ?thesis using Cons.IH [of snap'] \<open>block_input block = None\<close> unfolding step p by (simp add: x)
    next
      case (Some c)
      then obtain pre input post where "xs = pre @ (c, Input_block input) # post" "blocks_frames pre = []"
        using Cons.IH [of snap'] unfolding p by auto
      then have "x # xs = (x # pre) @ (c, Input_block input) # post" "blocks_frames (x # pre) = []"
        using skip by simp_all
      then show ?thesis unfolding step p Some option.case prod.case by blast
    qed
  qed
qed simp

lemma start_playing:
  assumes "playable l" "(a, Input_block input) \<in> set l" "rzx_blocks rzx = l"
  shows "playing_at (start_block_playback a rzx) l a input 0 0 0"
proof -
  have "frames input \<noteq> []" "frames_ok (frames input)" using assms by (auto simp: playable_def)
  then have "\<not> repeat_last (frames input ! 0)" by (simp add: frames_ok_def hd_conv_nth)
  then show ?thesis using assms \<open>frames input \<noteq> []\<close> by (auto simp: playing_at_def start_block_playback_def)
qed

lemma last_frame_playing:
  assumes "playing_at rzx l a input i d (length (frame_bytes (frames input ! d)))" "Suc i = length (frames input)"
    "l = pre @ (a, Input_block input) # list"
  shows "case following_input None list of
      (None, snap) \<Rightarrow> \<exists>rzx'. libspectrum_rzx_playback_frame rzx = Some (ERROR_NONE, rzx', True, snap)
    | (Some b, snap) \<Rightarrow> \<exists>rzx'. libspectrum_rzx_playback_frame rzx = Some (ERROR_NONE, start_block_playback b rzx', False, snap) \<and>
        rzx_blocks rzx' = l"
proof -
  note f = playing_facts [OF assms(1)]
  have p: "current_input rzx = Some a" "current_frame rzx = of_nat i" "in_count rzx = of_nat (length (frame_bytes (frames input ! d)))"
    "rzx_current_block rzx = Some a" "rzx_blocks rzx = l" "distinct (map fst l)"
    using assms(1) by (simp_all add: playing_at_def playable_def)
  have "(1 + of_nat i :: size_t) = of_nat (length (frames input))" by (simp add: assms(2) [symmetric])
  moreover have "chain_at l a = (a, Input_block input) # list"
    unfolding chain_at_def assms(3) using p(6) unfolding assms(3) by (subst dropWhile_append2) force+
  ultimately show ?thesis
    using assms(2)
    by (auto simp: libspectrum_rzx_playback_frame_def f p Let_def add.commute [of "of_nat i"] split: option.splits prod.splits
      intro!: exI [of _ "rzx\<lparr>current_frame := of_nat (length (frames input))\<rparr>"])
qed

lemma replay_from:
  assumes "playing_at rzx l a input i d 0" "l = pre @ (a, Input_block input) # list"
    "R = drop i (decode_frames [] (frames input)) @ blocks_frames list"
  shows "replay (map (\<lambda>x. length (snd x)) R) rzx = Some (R, True)"
  using assms
proof (induction R arbitrary: rzx a input i d pre list)
  case Nil
  then show ?case by (simp add: playing_at_def)
next
  case (Cons x R)
  have i: "i < length (frames input)" using Cons.prems(1) by (simp add: playing_at_def)
  let ?data = "frame_bytes (frames input ! d)"
  have "drop i (decode_frames [] (frames input)) = decode_frames [] (frames input) ! i # drop (Suc i) (decode_frames [] (frames input))"
    using i by (simp add: Cons_nth_drop_Suc)
  then have x: "x = (instructions (frames input ! i), ?data)"
    and R: "R = drop (Suc i) (decode_frames [] (frames input)) @ blocks_frames list"
    using Cons.prems(3) frame_played(1) [OF Cons.prems(1)] by auto
  obtain r where r: "read_ins (length ?data) rzx = Some (?data, r)" "playing_at r l a input i d (length ?data)"
    using read_ins_playing [OF Cons.prems(1), of "length ?data"] by auto
  note ins = frame_played(2) [OF Cons.prems(1)]
  show ?case
  proof (cases "Suc i < length (frames input)")
    case True
    obtain r' d' where r': "libspectrum_rzx_playback_frame r = Some (ERROR_NONE, r', False, None)"
      "playing_at r' l a input (Suc i) d' 0"
      using next_frame_playing [OF r(2) True] by blast
    then show ?thesis using Cons.IH [OF r'(2) Cons.prems(2) R] r(1) ins by (simp add: x)
  next
    case False
    then have last_i: "Suc i = length (frames input)" using i by simp
    then have R': "R = blocks_frames list" by (simp add: R)
    obtain b snap where n: "following_input None list = (b, snap)" by force
    note step = last_frame_playing [OF r(2) last_i Cons.prems(2), unfolded n prod.case]
    show ?thesis
    proof (cases b)
      case None
      then have "R = []" using following_input_result [of list None] by (simp add: n R')
      then show ?thesis using step r(1) ins None by (auto simp: x)
    next
      case (Some c)
      obtain pre' next_input post where l': "list = pre' @ (c, Input_block next_input) # post" "blocks_frames pre' = []"
        using following_input_result [of list None] by (auto simp: n Some)
      obtain r' where r': "libspectrum_rzx_playback_frame r = Some (ERROR_NONE, start_block_playback c r', False, snap)" "rzx_blocks r' = l"
        using step Some by auto
      have "playable l" using Cons.prems(1) by (simp add: playing_at_def)
      then have "playing_at (start_block_playback c r') l c next_input 0 0 0"
        by (rule start_playing) (simp_all add: Cons.prems(2) l' r'(2))
      moreover have "l = (pre @ (a, Input_block input) # pre') @ (c, Input_block next_input) # post"
        by (simp add: Cons.prems(2) l'(1))
      moreover have "R = drop 0 (decode_frames [] (frames next_input)) @ blocks_frames post"
        by (simp add: R' l')
      ultimately have "replay (map (\<lambda>x. length (snd x)) R) (start_block_playback c r') = Some (R, True)"
        by (rule Cons.IH)
      then show ?thesis using r'(1) r(1) ins by (simp add: x)
    qed
  qed
qed

lemma find_input_result:
  "case find_input 0 previous l of
     None \<Rightarrow> blocks_frames l = [] \<and> (\<forall>(a, block) \<in> set l. block_input block = None)
   | Some (a, snap) \<Rightarrow> \<exists>pre input post. l = pre @ (a, Input_block input) # post \<and> blocks_frames pre = []"
proof (induction l arbitrary: previous)
  case (Cons x l)
  obtain a block where x: "x = (a, block)" by force
  show ?case
  proof (cases "block_input block")
    case (Some input)
    then show ?thesis by (cases block) (auto simp: x intro!: exI [of _ "[]"])
  next
    case None
    have step: "find_input 0 previous (x # l) = find_input 0 (Some block) l"
      using None by (cases block) (simp_all add: x)
    show ?thesis
    proof (cases "find_input 0 (Some block) l")
      case Nil: None
      then show ?thesis using Cons.IH [of "Some block"] None unfolding step by (simp add: x)
    next
      case (Some r)
      obtain b snap where r: "r = (b, snap)" by force
      then obtain pre input post where "l = pre @ (b, Input_block input) # post" "blocks_frames pre = []"
        using Cons.IH [of "Some block"] unfolding Some by auto
      then have "x # l = (x # pre) @ (b, Input_block input) # post" "blocks_frames (x # pre) = []"
        using None by (simp_all add: x)
      then show ?thesis unfolding step Some r option.case prod.case by blast
    qed
  qed
qed simp

text \<open>
  C6: A recording is played back to its end: in any list of blocks whose input blocks are not
  empty and begin with a frame that is not a repetition, starting playback and reading in every
  frame as many bytes as it has gives the instruction counts and bytes of all frames in their
  order, through snapshots and from block to block, and playback is reported as finished exactly
  after the last one.
\<close>

theorem playback_plays_recording:
  assumes "playable (rzx_blocks rzx)" "items_frames (rzx_items rzx) \<noteq> []"
  shows "\<exists>rzx' snap. libspectrum_rzx_start_playback rzx 0 = Some (ERROR_NONE, rzx', snap) \<and>
    replay (map (\<lambda>x. length (snd x)) (items_frames (rzx_items rzx))) rzx' = Some (items_frames (rzx_items rzx), True)"
proof -
  let ?l = "rzx_blocks rzx"
  have frames: "items_frames (rzx_items rzx) = blocks_frames ?l" by (simp add: rzx_items_def frames_of_items)
  then obtain a snap where a: "find_input 0 None ?l = Some (a, snap)"
    using find_input_result [of ?l None] assms(2) by (cases "find_input 0 None ?l") auto
  obtain pre input post where l: "?l = pre @ (a, Input_block input) # post" "blocks_frames pre = []"
    using find_input_result [of ?l None] by (auto simp: a)
  have "playing_at (start_block_playback a rzx) ?l a input 0 0 0"
    by (rule start_playing [OF assms(1)]) (simp_all add: l)
  then have "replay (map (\<lambda>x. length (snd x)) (blocks_frames ?l)) (start_block_playback a rzx) = Some (blocks_frames ?l, True)"
    by (rule replay_from [OF _ l(1)]) (simp add: l)
  then show ?thesis by (simp add: frames libspectrum_rzx_start_playback_def a)
qed

text \<open>A recording of two blocks, with a repeated frame and a signature between them.\<close>

definition two_blocks :: "rzx_block_t gslist" where
  "two_blocks = [
     (1, Input_block \<lparr>frames = [\<lparr>instructions = 5, frame_count = 2, in_bytes = Some [1, 2], repeat_last = False\<rparr>,
                              \<lparr>instructions = 6, frame_count = 0, in_bytes = None, repeat_last = True\<rparr>],
                     allocated_frames = 50, input_tstates = 0, non_repeat = 0\<rparr>),
     (2, Input_block \<lparr>frames = [\<lparr>instructions = 7, frame_count = 1, in_bytes = Some [3], repeat_last = False\<rparr>],
                     allocated_frames = 50, input_tstates = 0, non_repeat = 0\<rparr>),
     (3, Sign_end_block 40)]"

definition two_blocks_rzx :: libspectrum_rzx where
  "two_blocks_rzx = \<lparr>rzx_blocks = two_blocks, rzx_current_block = None, current_input = None, current_frame = 0,
     data_frame = None, in_count = 0, signed_start = None\<rparr>"

lemma two_blocks_facts:
  "playable (rzx_blocks two_blocks_rzx)" "rzx_inv two_blocks_rzx"
  "rzx_items two_blocks_rzx = [Frame 5 [1, 2], Frame 6 [1, 2], Frame 7 [3]]"
  "items_frames [Frame 5 [1, 2], Frame 6 [1, 2], Frame 7 [3]] = [(5, [1, 2]), (6, [1, 2]), (7, [3])]"
proof -
  show "playable (rzx_blocks two_blocks_rzx)" "rzx_inv two_blocks_rzx"
    by (auto simp: two_blocks_rzx_def two_blocks_def playable_def rzx_inv_def frames_ok_def frame_ok_def frame_bytes_def)
  show "rzx_items two_blocks_rzx = [Frame 5 [1, 2], Frame 6 [1, 2], Frame 7 [3]]"
    by (simp add: two_blocks_rzx_def two_blocks_def rzx_items_def frame_bytes_def Let_def)
  show "items_frames [Frame 5 [1, 2], Frame 6 [1, 2], Frame 7 [3]] = [(5, [1, 2]), (6, [1, 2]), (7, [3])]"
    by (simp add: items_frames_def List.map_filter_def)
qed

lemma playback_plays_recording_witness:
  "\<exists>rzx' snap. libspectrum_rzx_start_playback two_blocks_rzx 0 = Some (ERROR_NONE, rzx', snap) \<and>
    replay [2, 2, 1] rzx' = Some ([(5, [1, 2]), (6, [1, 2]), (7, [3])], True)"
  using playback_plays_recording [of two_blocks_rzx] by (simp add: two_blocks_facts numeral_2_eq_2 del: replay.simps)

end
