(* ===== verification/Rzx_Finalise.thy ===== *)
theory Rzx_Finalise
  imports Rzx_Playback
begin

text \<open>
  Finalising a recording: what \<open>libspectrum_rzx_finalise\<close> does to the list of blocks, and that the
  recording it stands for only loses its later snapshots.
\<close>

section \<open>Joining the input blocks\<close>

fun keep_first_snap :: "bool \<Rightarrow> rzx_item list \<Rightarrow> rzx_item list" where
  "keep_first_snap first [] = []"
| "keep_first_snap first (x # xs) =
     (if is_snap x then (if first then x # keep_first_snap False xs else keep_first_snap first xs)
      else x # keep_first_snap first xs)"

fun keep_first_block :: "bool \<Rightarrow> rzx_block_t gslist \<Rightarrow> rzx_block_t gslist" where
  "keep_first_block first [] = []"
| "keep_first_block first (x # xs) =
     (if block_snap (snd x) \<noteq> None then (if first then x # keep_first_block False xs else keep_first_block first xs)
      else x # keep_first_block first xs)"

lemma delete_link_at: "distinct (map fst (pre @ x # xs)) \<Longrightarrow> g_slist_delete_link (pre @ x # xs) (fst x) = pre @ xs"
  by (induction pre) auto

lemma delete_snapshots_result:
  "distinct (map fst (pre @ list)) \<Longrightarrow>
     fst (delete_snapshots first list (pre @ list) finalised) = pre @ keep_first_block first list"
proof (induction first list "pre @ list" finalised arbitrary: pre rule: delete_snapshots.induct)
  case (2 first a block list finalised)
  have d: "distinct (map fst ((pre @ [(a, block)]) @ list))" "distinct (map fst (pre @ list))" using "2.prems" by auto
  show ?case
  proof (cases "block_snap block")
    case None
    then have "rzx_block_type block \<noteq> RZX_SNAPSHOT_BLOCK" by (cases block) auto
    then show ?thesis using "2.hyps"(3) [of "pre @ [(a, block)]"] d None by simp
  next
    case (Some s)
    then have type: "rzx_block_type block = RZX_SNAPSHOT_BLOCK" by (cases block) auto
    show ?thesis
    proof (cases first)
      case True
      then show ?thesis using "2.hyps"(1) [of "pre @ [(a, block)]"] d Some type by simp
    next
      case False
      have "g_slist_delete_link (pre @ (a, block) # list) a = pre @ list"
        using delete_link_at [of pre "(a, block)" list] "2.prems" by simp
      then show ?thesis using "2.hyps"(2) [of pre] d Some type False by simp
    qed
  qed
qed simp

lemma keep_first_snap_frames: "\<forall>x \<in> set xs. \<not> is_snap x \<Longrightarrow> keep_first_snap first (xs @ ys) = xs @ keep_first_snap first ys"
  by (induction xs) auto

lemma keep_first_items: "blocks_items (keep_first_block first l) = keep_first_snap first (blocks_items l)"
proof (induction l arbitrary: first)
  case (Cons x l)
  show ?case
  proof (cases "block_snap (snd x)")
    case None
    then have "\<forall>i \<in> set (block_items (snd x)). \<not> is_snap i" by (cases "snd x") auto
    then show ?thesis using Cons.IH None by (simp add: keep_first_snap_frames)
  next
    case (Some s)
    then show ?thesis using Cons.IH by (cases "snd x") auto
  qed
qed simp

lemma keep_first_subset: "set (keep_first_block first l) \<subseteq> set l"
  by (induction first l rule: keep_first_block.induct) auto

lemma keep_first_distinct: "distinct (map fst l) \<Longrightarrow> distinct (map fst (keep_first_block first l))"
proof (induction first l rule: keep_first_block.induct)
  case (2 first x xs)
  have "fst x \<notin> fst ` set (keep_first_block f xs)" for f
    using keep_first_subset [of f xs] "2.prems" by auto
  then show ?case using 2 by auto
qed simp

definition inputs_ok :: "rzx_block_t gslist \<Rightarrow> bool" where
  "inputs_ok l \<longleftrightarrow> (\<forall>(a, block) \<in> set l. \<forall>input. block = Input_block input \<longrightarrow> frames_ok (frames input))"

lemma decode_restart: "frames_ok gs \<Longrightarrow> decode_frames prev gs = decode_frames [] gs"
  by (cases gs) (auto simp: frames_ok_def)

lemma frames_ok_append:
  assumes "frames_ok fs" "frames_ok gs" "length fs + length gs < 2 ^ 63"
  shows "frames_ok (fs @ gs)" "decode_frames [] (fs @ gs) = decode_frames [] fs @ decode_frames [] gs"
proof -
  show "frames_ok (fs @ gs)" using assms by (cases fs) (auto simp: frames_ok_def)
  show "decode_frames [] (fs @ gs) = decode_frames [] fs @ decode_frames [] gs"
    using decode_restart [OF assms(2)] by (simp add: decode_append)
qed

lemma frames_merge [simp]: "frames (fst (input_block_merge x y)) = frames x @ frames y"
  by (simp add: input_block_merge_def Let_def split_def resize_fields)

lemma merge_inputs_skip:
  assumes "block_input (snd x) = None \<or> l = [] \<or> block_input (snd (hd l)) = None"
  shows "merge_inputs (x # l) = (case merge_inputs l of (m, moved, any) \<Rightarrow> (x # m, moved, any))"
  using assms by (cases "x # l" rule: merge_inputs.cases) (auto simp: split_def Let_def)

fun merged :: "rzx_block_t gslist \<Rightarrow> bool" where
  "merged ((a, x) # (b, y) # l) = ((block_input x = None \<or> block_input y = None) \<and> merged ((b, y) # l))"
| "merged l = True"

lemma merged_Cons:
  "merged (x # l) \<longleftrightarrow> merged l \<and> (block_input (snd x) = None \<or> l = [] \<or> block_input (snd (hd l)) = None)"
  by (cases x; cases l) auto

lemma merge_inputs_result:
  assumes "inputs_ok l" "length (blocks_items l) < 2 ^ 63" "distinct (map fst l)" "merge_inputs l = (m, moved, any)"
  shows "blocks_items m = blocks_items l" "inputs_ok m" "merged m" "distinct (map fst m)" "fst ` set m \<subseteq> fst ` set l"
    "(l = [] \<longleftrightarrow> m = []) \<and> (l \<noteq> [] \<longrightarrow> (block_input (snd (hd m)) = None) = (block_input (snd (hd l)) = None))"
proof -
  have "blocks_items m = blocks_items l \<and> inputs_ok m \<and> merged m \<and> distinct (map fst m) \<and> fst ` set m \<subseteq> fst ` set l \<and>
    (l = [] \<longleftrightarrow> m = []) \<and> (l \<noteq> [] \<longrightarrow> (block_input (snd (hd m)) = None) = (block_input (snd (hd l)) = None))"
    using assms
  proof (induction "length l" arbitrary: l m moved any)
    case (Suc n)
    obtain x l1 where l: "l = x # l1" using Suc.hyps(2) by (cases l) auto
    show ?case
    proof (cases "block_input (snd x) = None \<or> l1 = [] \<or> block_input (snd (hd l1)) = None")
      case True
      obtain m1 moved1 any1 where m1: "merge_inputs l1 = (m1, moved1, any1)" by (metis prod_cases3)
      then have m: "m = x # m1" using merge_inputs_skip [OF True] Suc.prems(4) by (simp add: l)
      have "inputs_ok l1" "length (blocks_items l1) < 2 ^ 63" "distinct (map fst l1)"
        using Suc.prems by (auto simp: l inputs_ok_def)
      note IH = Suc.hyps(1) [OF _ this m1]
      then show ?thesis using Suc.prems Suc.hyps(2) True
        by (auto simp: l m merged_Cons inputs_ok_def)
    next
      case False
      then obtain a input b next_input list where both: "l = (a, Input_block input) # (b, Input_block next_input) # list"
        by (cases x; cases "snd x"; cases l1; cases "snd (hd l1)") (auto simp: l)
      obtain i mv where i: "input_block_merge input next_input = (i, mv)" by force
      have f: "frames i = frames input @ frames next_input" using frames_merge [of input next_input] by (simp add: i)
      have ok: "frames_ok (frames input)" "frames_ok (frames next_input)" "inputs_ok list"
        using Suc.prems(1) by (auto simp: inputs_ok_def both)
      have len: "length (frames input) + length (frames next_input) < 2 ^ 63" using Suc.prems(2) by (simp add: both)
      note joined = frames_ok_append [OF ok(1,2) len]
      have items: "blocks_items ((a, Input_block i) # list) = blocks_items l"
        by (simp add: f joined(2) both)
      obtain m1 moved1 any1 where m1: "merge_inputs ((a, Input_block i) # list) = (m1, moved1, any1)" by (metis prod_cases3)
      then have m: "m = m1" using Suc.prems(4) by (simp add: i both)
      have "inputs_ok ((a, Input_block i) # list)" using ok(3) joined(1) by (auto simp: inputs_ok_def f)
      moreover have "length (blocks_items ((a, Input_block i) # list)) < 2 ^ 63" unfolding items by (rule Suc.prems)
      moreover have "distinct (map fst ((a, Input_block i) # list))" using Suc.prems(3) by (auto simp: both)
      ultimately show ?thesis using Suc.hyps(1) [OF _ _ _ _ m1] Suc.hyps(2) unfolding items m by (auto simp: both)
    qed
  qed (simp add: inputs_ok_def)
  then show "blocks_items m = blocks_items l" "inputs_ok m" "merged m" "distinct (map fst m)" "fst ` set m \<subseteq> fst ` set l"
    "(l = [] \<longleftrightarrow> m = []) \<and> (l \<noteq> [] \<longrightarrow> (block_input (snd (hd m)) = None) = (block_input (snd (hd l)) = None))"
    by blast+
qed

text \<open>
  C7: Finalising a recording changes how it is stored and not what it is: of the frames and
  snapshots exactly the snapshots after the first are gone, no two input blocks are left side by
  side, the nodes stay distinct, and what was ready for playback still is.
\<close>

theorem finalise_keeps_frames:
  assumes "rzx_inv rzx" "length (rzx_items rzx) < 2 ^ 63"
  shows "rzx_items (snd (libspectrum_rzx_finalise rzx)) = keep_first_snap True (rzx_items rzx) \<and>
    merged (rzx_blocks (snd (libspectrum_rzx_finalise rzx))) \<and>
    inputs_ok (rzx_blocks (snd (libspectrum_rzx_finalise rzx))) \<and>
    distinct (map fst (rzx_blocks (snd (libspectrum_rzx_finalise rzx))))"
proof -
  obtain l deleted where l: "delete_snapshots True (rzx_blocks rzx) (rzx_blocks rzx) False = (l, deleted)" by force
  obtain m moved any where m: "merge_inputs l = (m, moved, any)" by (metis prod_cases3)
  have d: "distinct (map fst (rzx_blocks rzx))" "inputs_ok (rzx_blocks rzx)"
    using assms(1) by (auto simp: rzx_inv_def inputs_ok_def)
  have l': "l = keep_first_block True (rzx_blocks rzx)"
    using delete_snapshots_result [of "[]" "rzx_blocks rzx" True False] d(1) l by simp
  have items: "blocks_items l = keep_first_snap True (rzx_items rzx)"
    by (simp add: l' keep_first_items rzx_items_def)
  have shorter: "length (keep_first_snap f xs) \<le> length xs" for f xs
    by (induction f xs rule: keep_first_snap.induct) auto
  have ok: "inputs_ok l"
    using keep_first_subset [of True "rzx_blocks rzx"] d(2) unfolding l' inputs_ok_def by blast
  have distinct: "distinct (map fst l)" unfolding l' by (rule keep_first_distinct [OF d(1)])
  have len: "length (blocks_items l) < 2 ^ 63"
    unfolding items by (rule le_less_trans [OF shorter assms(2)])
  have "rzx_blocks (snd (libspectrum_rzx_finalise rzx)) = m"
    by (simp add: libspectrum_rzx_finalise_def l m Let_def)
  then show ?thesis
    using merge_inputs_result(1-4) [OF ok len distinct m] items by (simp add: rzx_items_def)
qed

lemma finalise_keeps_frames_witness:
  "rzx_items (snd (libspectrum_rzx_finalise two_blocks_rzx)) = [Frame 5 [1, 2], Frame 6 [1, 2], Frame 7 [3]] \<and>
    merged (rzx_blocks (snd (libspectrum_rzx_finalise two_blocks_rzx)))"
  using finalise_keeps_frames [of two_blocks_rzx] by (simp add: two_blocks_facts)

end
