(* ===== verification/Creator.thy ===== *)
theory Creator
  imports LS_Prelude
begin

text \<open>
  The program that writes a file (\<open>creator.c\<close>). The fields that \<open>libspectrum_creator_alloc\<close> does
  not set have the values of \<open>raw\<close>. \<open>creator_program\<close> holds all 32 bytes of the array; the argument
  of \<open>set_program\<close> is the list of the bytes of the string before its null.
\<close>

record libspectrum_creator =
  creator_program :: "byte list"
  creator_major :: lword
  creator_minor :: lword
  creator_competition_code :: dword
  creator_custom :: "byte list option"
  creator_custom_length :: size_t

definition libspectrum_creator_alloc :: "libspectrum_creator \<Rightarrow> libspectrum_creator" where
  "libspectrum_creator_alloc raw = raw\<lparr>creator_custom := None, creator_custom_length := 0\<rparr>"

text \<open>\<open>snprintf\<close> keeps at most 31 characters of the string and ends them with a null.\<close>

definition libspectrum_creator_set_program :: "libspectrum_creator \<Rightarrow> byte list \<Rightarrow> libspectrum_creator" where
  "libspectrum_creator_set_program creator program =
     creator\<lparr>creator_program := take 31 program @ replicate (32 - length (take 31 program)) 0\<rparr>"

definition libspectrum_creator_program :: "libspectrum_creator \<Rightarrow> byte list" where
  "libspectrum_creator_program creator = creator_program creator"

definition libspectrum_creator_set_major :: "libspectrum_creator \<Rightarrow> lword \<Rightarrow> libspectrum_creator" where
  "libspectrum_creator_set_major creator major = creator\<lparr>creator_major := major\<rparr>"

definition libspectrum_creator_major :: "libspectrum_creator \<Rightarrow> lword" where
  "libspectrum_creator_major creator = creator_major creator"

definition libspectrum_creator_set_minor :: "libspectrum_creator \<Rightarrow> lword \<Rightarrow> libspectrum_creator" where
  "libspectrum_creator_set_minor creator minor = creator\<lparr>creator_minor := minor\<rparr>"

definition libspectrum_creator_minor :: "libspectrum_creator \<Rightarrow> lword" where
  "libspectrum_creator_minor creator = creator_minor creator"

definition libspectrum_creator_set_competition_code :: "libspectrum_creator \<Rightarrow> dword \<Rightarrow> libspectrum_creator" where
  "libspectrum_creator_set_competition_code creator competition_code =
     creator\<lparr>creator_competition_code := competition_code\<rparr>"

definition libspectrum_creator_competition_code :: "libspectrum_creator \<Rightarrow> dword" where
  "libspectrum_creator_competition_code creator = creator_competition_code creator"

definition libspectrum_creator_set_custom ::
    "libspectrum_creator \<Rightarrow> byte list option \<Rightarrow> size_t \<Rightarrow> libspectrum_creator" where
  "libspectrum_creator_set_custom creator data len = creator\<lparr>creator_custom := data, creator_custom_length := len\<rparr>"

definition libspectrum_creator_custom :: "libspectrum_creator \<Rightarrow> byte list option" where
  "libspectrum_creator_custom creator = creator_custom creator"

definition libspectrum_creator_custom_length :: "libspectrum_creator \<Rightarrow> size_t" where
  "libspectrum_creator_custom_length creator = creator_custom_length creator"

text \<open>A creator that the writers can use: its program name is whole and its custom data is as long as it says.\<close>

definition creator_ok :: "libspectrum_creator \<Rightarrow> bool" where
  "creator_ok creator \<longleftrightarrow> length (creator_program creator) = 32 \<and>
     (case creator_custom creator of
        None \<Rightarrow> creator_custom_length creator = 0
      | Some data \<Rightarrow> unat (creator_custom_length creator) \<le> length data)"

end
