(* ===== verification/Szx_Read.thy ===== *)
theory Szx_Read
  imports Snapshot Zlib
begin

text \<open>
  Reading .szx snapshots (\<open>szx.c\<close>). A file is a header and a sequence of chunks; \<open>buf\<close> is what is
  left of the file at the data of a chunk, which \<open>read_chunk\<close> has found to be at least as long as
  the chunk, and \<open>len\<close> the length of the data. The context is its member \<open>swap_af\<close>. A result holds
  the snapshot, the context and what is left of the file. The code is taken with zlib.
\<close>

section \<open>Machines and flags\<close>

definition szx_machines :: "(byte \<times> libspectrum_machine) list" where
  "szx_machines =
     [(0, MACHINE_16), (1, MACHINE_48), (2, MACHINE_128), (3, MACHINE_PLUS2), (4, MACHINE_PLUS2A),
      (5, MACHINE_PLUS3), (6, MACHINE_PLUS3E), (7, MACHINE_PENT), (8, MACHINE_TC2048), (9, MACHINE_TC2068),
      (10, MACHINE_SCORP), (11, MACHINE_SE), (12, MACHINE_TS2068), (13, MACHINE_PENT512),
      (14, MACHINE_PENT1024), (15, MACHINE_48_NTSC), (16, MACHINE_128E)]"

abbreviation (input) ZXSTMF_ALTERNATETIMINGS :: byte where "ZXSTMF_ALTERNATETIMINGS \<equiv> 1"
abbreviation (input) ZXSTZF_EILAST :: byte where "ZXSTZF_EILAST \<equiv> 1"
abbreviation (input) ZXSTZF_HALTED :: byte where "ZXSTZF_HALTED \<equiv> 2"
abbreviation (input) ZXSTZF_FSET :: byte where "ZXSTZF_FSET \<equiv> 4"
abbreviation (input) ZXSTRF_COMPRESSED :: lword where "ZXSTRF_COMPRESSED \<equiv> 1"
abbreviation (input) ZXSTAYF_FULLERBOX :: byte where "ZXSTAYF_FULLERBOX \<equiv> 1"
abbreviation (input) ZXSTAYF_128AY :: byte where "ZXSTAYF_128AY \<equiv> 2"
abbreviation (input) ZXSTMF_PAGEDIN :: byte where "ZXSTMF_PAGEDIN \<equiv> 1"
abbreviation (input) ZXSTMF_COMPRESSED :: byte where "ZXSTMF_COMPRESSED \<equiv> 2"
abbreviation (input) ZXSTMF_SOFTWARELOCKOUT :: byte where "ZXSTMF_SOFTWARELOCKOUT \<equiv> 4"
abbreviation (input) ZXSTMF_REDBUTTONDISABLED :: byte where "ZXSTMF_REDBUTTONDISABLED \<equiv> 8"
abbreviation (input) ZXSTMF_DISABLED :: byte where "ZXSTMF_DISABLED \<equiv> 16"
abbreviation (input) ZXSTMF_16KRAMMODE :: byte where "ZXSTMF_16KRAMMODE \<equiv> 32"
abbreviation (input) ZXSTMFM_1 :: byte where "ZXSTMFM_1 \<equiv> 0"
abbreviation (input) ZXSTMFM_128 :: byte where "ZXSTMFM_128 \<equiv> 1"
abbreviation (input) ZXSTKF_ISSUE2 :: dword where "ZXSTKF_ISSUE2 \<equiv> 1"
abbreviation (input) ZXSTJOYF_ALWAYSPORT31 :: dword where "ZXSTJOYF_ALWAYSPORT31 \<equiv> 1"
abbreviation (input) ZXSTPRF_ENABLED :: lword where "ZXSTPRF_ENABLED \<equiv> 1"
abbreviation (input) ZXSTIF1F_ENABLED :: lword where "ZXSTIF1F_ENABLED \<equiv> 1"
abbreviation (input) ZXSTIF1F_COMPRESSED :: lword where "ZXSTIF1F_COMPRESSED \<equiv> 2"
abbreviation (input) ZXSTIF1F_PAGED :: lword where "ZXSTIF1F_PAGED \<equiv> 4"
abbreviation (input) ZXSTBETAF_CONNECTED :: dword where "ZXSTBETAF_CONNECTED \<equiv> 1"
abbreviation (input) ZXSTBETAF_CUSTOMROM :: dword where "ZXSTBETAF_CUSTOMROM \<equiv> 2"
abbreviation (input) ZXSTBETAF_PAGED :: dword where "ZXSTBETAF_PAGED \<equiv> 4"
abbreviation (input) ZXSTBETAF_AUTOBOOT :: dword where "ZXSTBETAF_AUTOBOOT \<equiv> 8"
abbreviation (input) ZXSTBETAF_SEEKLOWER :: dword where "ZXSTBETAF_SEEKLOWER \<equiv> 16"
abbreviation (input) ZXSTBETAF_COMPRESSED :: dword where "ZXSTBETAF_COMPRESSED \<equiv> 32"
abbreviation (input) ZXSTDOCKF_RAM :: lword where "ZXSTDOCKF_RAM \<equiv> 2"
abbreviation (input) ZXSTDOCKF_EXROMDOCK :: lword where "ZXSTDOCKF_EXROMDOCK \<equiv> 4"
abbreviation (input) ZXSTZXATF_UPLOAD :: lword where "ZXSTZXATF_UPLOAD \<equiv> 1"
abbreviation (input) ZXSTZXATF_WRITEPROTECT :: lword where "ZXSTZXATF_WRITEPROTECT \<equiv> 2"
abbreviation (input) ZXSTZXCFF_UPLOAD :: lword where "ZXSTZXCFF_UPLOAD \<equiv> 1"
abbreviation (input) ZXSTPLUSDF_PAGED :: dword where "ZXSTPLUSDF_PAGED \<equiv> 1"
abbreviation (input) ZXSTPLUSDF_COMPRESSED :: dword where "ZXSTPLUSDF_COMPRESSED \<equiv> 2"
abbreviation (input) ZXSTPLUSDF_SEEKLOWER :: dword where "ZXSTPLUSDF_SEEKLOWER \<equiv> 4"
abbreviation (input) ZXSTPDRT_GDOS :: byte where "ZXSTPDRT_GDOS \<equiv> 0"
abbreviation (input) ZXSTPDRT_CUSTOM :: byte where "ZXSTPDRT_CUSTOM \<equiv> 2"
abbreviation (input) ZXSTOPUSF_PAGED :: dword where "ZXSTOPUSF_PAGED \<equiv> 1"
abbreviation (input) ZXSTOPUSF_COMPRESSED :: dword where "ZXSTOPUSF_COMPRESSED \<equiv> 2"
abbreviation (input) ZXSTOPUSF_SEEKLOWER :: dword where "ZXSTOPUSF_SEEKLOWER \<equiv> 4"
abbreviation (input) ZXSTOPUSF_CUSTOMROM :: dword where "ZXSTOPUSF_CUSTOMROM \<equiv> 8"
abbreviation (input) ZXSTDIVIDE_EPROM_WRITEPROTECT :: lword where "ZXSTDIVIDE_EPROM_WRITEPROTECT \<equiv> 1"
abbreviation (input) ZXSTDIVIDE_PAGED :: lword where "ZXSTDIVIDE_PAGED \<equiv> 2"
abbreviation (input) ZXSTDIVIDE_COMPRESSED :: lword where "ZXSTDIVIDE_COMPRESSED \<equiv> 4"
abbreviation (input) ZXSTDIVMMC_EPROM_WRITEPROTECT :: lword where "ZXSTDIVMMC_EPROM_WRITEPROTECT \<equiv> 1"
abbreviation (input) ZXSTDIVMMC_PAGED :: lword where "ZXSTDIVMMC_PAGED \<equiv> 2"
abbreviation (input) ZXSTDIVMMC_COMPRESSED :: lword where "ZXSTDIVMMC_COMPRESSED \<equiv> 4"
abbreviation (input) ZXSTSNET_PAGED :: lword where "ZXSTSNET_PAGED \<equiv> 1"
abbreviation (input) ZXSTSNET_PAGED_VIA_IO :: lword where "ZXSTSNET_PAGED_VIA_IO \<equiv> 2"
abbreviation (input) ZXSTSNET_PROGRAMMABLE_TRAP_ACTIVE :: lword where "ZXSTSNET_PROGRAMMABLE_TRAP_ACTIVE \<equiv> 4"
abbreviation (input) ZXSTSNET_PROGRAMMABLE_TRAP_MSB :: lword where "ZXSTSNET_PROGRAMMABLE_TRAP_MSB \<equiv> 8"
abbreviation (input) ZXSTSNET_ALL_DISABLED :: lword where "ZXSTSNET_ALL_DISABLED \<equiv> 16"
abbreviation (input) ZXSTSNET_RST8_DISABLED :: lword where "ZXSTSNET_RST8_DISABLED \<equiv> 32"
abbreviation (input) ZXSTSNET_DENY_DOWNSTREAM_A15 :: lword where "ZXSTSNET_DENY_DOWNSTREAM_A15 \<equiv> 64"
abbreviation (input) ZXSTSNET_NMI_FLIPFLOP :: lword where "ZXSTSNET_NMI_FLIPFLOP \<equiv> 128"
abbreviation (input) ZXSTSNEF_FLASH_COMPRESSED :: byte where "ZXSTSNEF_FLASH_COMPRESSED \<equiv> 1"
abbreviation (input) ZXSTSNER_RAM_COMPRESSED :: byte where "ZXSTSNER_RAM_COMPRESSED \<equiv> 1"
abbreviation (input) ZXSTPALETTE_ENABLED :: byte where "ZXSTPALETTE_ENABLED \<equiv> 1"

text \<open>The identifiers of the chunks.\<close>

definition chunk_id :: "string \<Rightarrow> byte list" where
  "chunk_id s = map of_char s @ replicate (4 - length s) 0"

text \<open>\<open>!!( flags & f )\<close>, and \<open>flags & f\<close> as an \<open>int\<close>.\<close>

definition flag_set :: "'a::len word \<Rightarrow> 'a word \<Rightarrow> int" where
  "flag_set flags f = (if flags AND f \<noteq> 0 then 1 else 0)"

definition flag_bits :: "'a::len word \<Rightarrow> 'a word \<Rightarrow> int" where
  "flag_bits flags f = uint (flags AND f)"

definition le32 :: "byte list \<Rightarrow> nat \<Rightarrow> dword" where
  "le32 buf i = paste4 (buf ! i) (buf ! (i + 1)) (buf ! (i + 2)) (buf ! (i + 3))"

type_synonym szx_result = "(libspectrum_snap \<times> bool \<times> byte list) c_result"
type_synonym szx_reader = "libspectrum_snap \<Rightarrow> lword \<Rightarrow> byte list \<Rightarrow> nat \<Rightarrow> bool \<Rightarrow> szx_result"

section \<open>Pages\<close>

text \<open>The data, the page, the flags and what is left of the file.\<close>

definition szx_read_ram_page ::
    "'s zlib \<Rightarrow> byte list \<Rightarrow> nat \<Rightarrow> nat \<Rightarrow> (byte list \<times> nat \<times> lword \<times> byte list) c_result" where
  "szx_read_ram_page z buf len uncompressed_length =
     (if len < 3 then Some (ERROR_UNKNOWN, [], 0, 0, buf)
      else
        let flags = le16 buf 0; page = unat (buf ! 2)
        in if flags AND ZXSTRF_COMPRESSED \<noteq> 0 then do {
             (error, data) \<leftarrow> libspectrum_zlib_inflate z (drop 3 buf) (of_nat (len - 3)) (of_nat uncompressed_length);
             Some (if error \<noteq> ERROR_NONE then (error, [], page, flags, drop 3 buf)
                   else (ERROR_NONE, data, page, flags, drop len buf)) }
           else if len < 3 + uncompressed_length then Some (ERROR_UNKNOWN, [], page, flags, drop 3 buf)
           else do {
             data \<leftarrow> copy_out buf 3 uncompressed_length;
             Some (ERROR_NONE, data, page, flags, drop (3 + uncompressed_length) buf) })"

text \<open>What the readers of pages do: \<open>pages\<close> is their bound, \<open>store\<close> stores a page.\<close>

definition store_page ::
    "'s zlib \<Rightarrow> nat \<Rightarrow> nat \<Rightarrow> (lword \<Rightarrow> nat \<Rightarrow> byte list \<Rightarrow> libspectrum_snap \<Rightarrow> libspectrum_snap option) \<Rightarrow> szx_reader" where
  "store_page z sz pages store snap version buf len swap_af = do {
     (error, data, page, flags, rest) \<leftarrow> szx_read_ram_page z buf len sz;
     (if error \<noteq> ERROR_NONE then Some (error, snap, swap_af, rest)
      else if page \<ge> pages then Some (ERROR_CORRUPT, snap, swap_af, rest)
      else do {
        snap \<leftarrow> store flags page data snap;
        Some (ERROR_NONE, snap, swap_af, rest) }) }"

definition read_ramp_chunk :: "'s zlib \<Rightarrow> szx_reader" where
  "read_ramp_chunk z = store_page z 0x4000 64 (\<lambda>flags page data snap. libspectrum_snap_set_pages snap page (Some data))"

definition read_atrp_chunk :: "'s zlib \<Rightarrow> szx_reader" where
  "read_atrp_chunk z = store_page z 0x4000 32 (\<lambda>flags page data snap.
     map_option (\<lambda>p. snap\<lparr>snap_zxatasp_ram := p\<rparr>) (nset (snap_zxatasp_ram snap) page (Some data)))"

definition read_cfrp_chunk :: "'s zlib \<Rightarrow> szx_reader" where
  "read_cfrp_chunk z = store_page z 0x4000 64 (\<lambda>flags page data snap.
     map_option (\<lambda>p. snap\<lparr>snap_zxcf_ram := p\<rparr>) (nset (snap_zxcf_ram snap) page (Some data)))"

definition read_dirp_chunk :: "'s zlib \<Rightarrow> szx_reader" where
  "read_dirp_chunk z = store_page z 0x2000 4 (\<lambda>flags page data snap.
     map_option (\<lambda>p. snap\<lparr>snap_divide_ram := p\<rparr>) (nset (snap_divide_ram snap) page (Some data)))"

definition read_dmrp_chunk :: "'s zlib \<Rightarrow> szx_reader" where
  "read_dmrp_chunk z = store_page z 0x2000 64 (\<lambda>flags page data snap.
     map_option (\<lambda>p. snap\<lparr>snap_divmmc_ram := p\<rparr>) (nset (snap_divmmc_ram snap) page (Some data)))"

definition read_dock_chunk :: "'s zlib \<Rightarrow> szx_reader" where
  "read_dock_chunk z = store_page z 0x2000 8 (\<lambda>flags page data snap.
     let snap = snap\<lparr>snap_dock_active := 1\<rparr>; writeable = ucast (flags AND ZXSTDOCKF_RAM)
     in if flags AND ZXSTDOCKF_EXROMDOCK \<noteq> 0 then do {
          r \<leftarrow> nset (snap_dock_ram snap) page writeable;
          c \<leftarrow> nset (snap_dock_cart snap) page (Some data);
          Some (snap\<lparr>snap_dock_ram := r, snap_dock_cart := c\<rparr>) }
        else do {
          r \<leftarrow> nset (snap_exrom_ram snap) page writeable;
          c \<leftarrow> nset (snap_exrom_cart snap) page (Some data);
          Some (snap\<lparr>snap_exrom_ram := r, snap_exrom_cart := c\<rparr>) })"

section \<open>Registers and ports\<close>

definition szx_swapped :: "byte list \<Rightarrow> nat \<Rightarrow> bool \<Rightarrow> byte \<times> byte" where
  "szx_swapped buf i swap_af = (if swap_af then (buf ! i, buf ! (i + 1)) else (buf ! (i + 1), buf ! i))"

definition read_z80r_chunk :: szx_reader where
  "read_z80r_chunk snap version buf len swap_af =
     (if len \<noteq> 37 then Some (ERROR_UNKNOWN, snap, swap_af, buf)
      else
        let (a, f) = szx_swapped buf 0 swap_af; (a', f') = szx_swapped buf 8 swap_af;
            snap = snap\<lparr>snap_a := a, snap_f := f, snap_bc := le16 buf 2, snap_de := le16 buf 4, snap_hl := le16 buf 6,
              snap_a' := a', snap_f' := f', snap_bc' := le16 buf 10, snap_de' := le16 buf 12, snap_hl' := le16 buf 14,
              snap_ix := le16 buf 16, snap_iy := le16 buf 18, snap_sp := le16 buf 20, snap_pc := le16 buf 22,
              snap_i := buf ! 24, snap_r := buf ! 25, snap_iff1 := buf ! 26, snap_iff2 := buf ! 27,
              snap_im := buf ! 28, snap_tstates := le32 buf 29\<rparr>;
            snap = (if version \<ge> 0x0101 then
                snap\<lparr>snap_last_instruction_ei := flag_set (buf ! 34) ZXSTZF_EILAST,
                  snap_halted := flag_set (buf ! 34) ZXSTZF_HALTED,
                  snap_last_instruction_set_f := flag_set (buf ! 34) ZXSTZF_FSET\<rparr>
              else snap);
            snap = (if version \<ge> 0x0104 then snap\<lparr>snap_memptr := le16 buf 35\<rparr> else snap)
        in Some (ERROR_NONE, snap, swap_af, drop 37 buf))"

definition read_spcr_chunk :: szx_reader where
  "read_spcr_chunk snap version buf len swap_af =
     (if len \<noteq> 8 then Some (ERROR_UNKNOWN, snap, swap_af, buf)
      else
        let capabilities = libspectrum_machine_capabilities (snap_machine snap);
            snap = snap\<lparr>snap_out_128_memoryport := buf ! 1\<rparr>;
            snap = (if capabilities AND MACHINE_CAPABILITY_PLUS3_MEMORY \<noteq> 0 \<or>
                capabilities AND MACHINE_CAPABILITY_SCORP_MEMORY \<noteq> 0 \<or>
                capabilities AND MACHINE_CAPABILITY_PENT1024_MEMORY \<noteq> 0
              then snap\<lparr>snap_out_plus3_memoryport := buf ! 2\<rparr> else snap);
            snap = snap\<lparr>snap_out_ula := (buf ! 0 AND 0x07) OR (if version \<ge> 0x0101 then buf ! 3 AND 0xf8 else 0)\<rparr>
        in Some (ERROR_NONE, snap, swap_af, drop 8 buf))"

definition read_ay_chunk :: szx_reader where
  "read_ay_chunk snap version buf len swap_af =
     (if len \<noteq> 18 then Some (ERROR_UNKNOWN, snap, swap_af, buf)
      else Some (ERROR_NONE, snap\<lparr>snap_fuller_box_active := flag_bits (buf ! 0) ZXSTAYF_FULLERBOX,
        snap_melodik_active := flag_set (buf ! 0) ZXSTAYF_128AY, snap_out_ay_registerport := buf ! 1,
        snap_ay_registers := map (\<lambda>i. buf ! (2 + i)) [0..<16]\<rparr>, swap_af, drop 18 buf))"

definition read_scld_chunk :: szx_reader where
  "read_scld_chunk snap version buf len swap_af =
     (if len \<noteq> 2 then Some (ERROR_UNKNOWN, snap, swap_af, buf)
      else Some (ERROR_NONE, snap\<lparr>snap_out_scld_hsr := buf ! 0, snap_out_scld_dec := buf ! 1\<rparr>, swap_af, drop 2 buf))"

definition read_covx_chunk :: szx_reader where
  "read_covx_chunk snap version buf len swap_af =
     (if len \<noteq> 4 then Some (ERROR_UNKNOWN, snap, swap_af, buf)
      else Some (ERROR_NONE, snap\<lparr>snap_covox_dac := buf ! 0, snap_covox_active := 1\<rparr>, swap_af, drop 4 buf))"

definition read_side_chunk :: szx_reader where
  "read_side_chunk snap version buf len swap_af =
     (if len \<noteq> 0 then Some (ERROR_UNKNOWN, snap, swap_af, buf)
      else Some (ERROR_NONE, snap\<lparr>snap_simpleide_active := 1\<rparr>, swap_af, buf))"

definition read_drum_chunk :: szx_reader where
  "read_drum_chunk snap version buf len swap_af =
     (if len \<noteq> 1 then Some (ERROR_UNKNOWN, snap, swap_af, buf)
      else Some (ERROR_NONE, snap\<lparr>snap_specdrum_dac := buf ! 0 - 128, snap_specdrum_active := 1\<rparr>, swap_af, drop 1 buf))"

definition read_zxat_chunk :: szx_reader where
  "read_zxat_chunk snap version buf len swap_af =
     (if len \<noteq> 8 then Some (ERROR_UNKNOWN, snap, swap_af, buf)
      else Some (ERROR_NONE, snap\<lparr>snap_zxatasp_active := 1, snap_zxatasp_upload := flag_bits (le16 buf 0) ZXSTZXATF_UPLOAD,
        snap_zxatasp_writeprotect := flag_set (le16 buf 0) ZXSTZXATF_WRITEPROTECT,
        snap_zxatasp_port_a := buf ! 2, snap_zxatasp_port_b := buf ! 3, snap_zxatasp_port_c := buf ! 4,
        snap_zxatasp_control := buf ! 5, snap_zxatasp_pages := ucast (buf ! 6),
        snap_zxatasp_current_page := ucast (buf ! 7)\<rparr>, swap_af, drop 8 buf))"

definition read_zxcf_chunk :: szx_reader where
  "read_zxcf_chunk snap version buf len swap_af =
     (if len \<noteq> 4 then Some (ERROR_UNKNOWN, snap, swap_af, buf)
      else Some (ERROR_NONE, snap\<lparr>snap_zxcf_active := 1, snap_zxcf_upload := flag_bits (le16 buf 0) ZXSTZXCFF_UPLOAD,
        snap_zxcf_memctl := buf ! 2, snap_zxcf_pages := ucast (buf ! 3)\<rparr>, swap_af, drop 4 buf))"

definition read_zxpr_chunk :: szx_reader where
  "read_zxpr_chunk snap version buf len swap_af =
     (if len \<noteq> 2 then Some (ERROR_UNKNOWN, snap, swap_af, buf)
      else Some (ERROR_NONE, snap\<lparr>snap_zx_printer_active := flag_bits (le16 buf 0) ZXSTPRF_ENABLED\<rparr>, swap_af, drop 2 buf))"

definition read_zmmc_chunk :: szx_reader where
  "read_zmmc_chunk snap version buf len swap_af =
     (if len \<noteq> 0 then Some (ERROR_UNKNOWN, snap, swap_af, buf)
      else Some (ERROR_NONE, snap\<lparr>snap_zxmmc_active := 1\<rparr>, swap_af, buf))"

definition read_amxm_chunk :: szx_reader where
  "read_amxm_chunk snap version buf len swap_af =
     (if len \<noteq> 7 then Some (ERROR_UNKNOWN, snap, swap_af, buf)
      else Some (ERROR_NONE, if buf ! 0 = 2 then snap\<lparr>snap_kempston_mouse_active := 1\<rparr> else snap, swap_af, drop 7 buf))"

definition read_pltt_chunk :: szx_reader where
  "read_pltt_chunk snap version buf len swap_af =
     (if len < 66 then Some (ERROR_UNKNOWN, snap, swap_af, buf)
      else
        let snap = snap\<lparr>snap_ulaplus_active := 1, snap_ulaplus_palette_enabled := flag_bits (buf ! 0) ZXSTPALETTE_ENABLED,
              snap_ulaplus_current_register := buf ! 1, snap_ulaplus_palette := Some (take 64 (drop 2 buf))\<rparr>
        in if len > 66 then Some (ERROR_NONE, snap\<lparr>snap_ulaplus_ff_register := buf ! 66\<rparr>, swap_af, drop 67 buf)
           else Some (ERROR_NONE, snap, swap_af, drop 66 buf))"

text \<open>A chunk that is not known.\<close>

definition szx_skip_chunk :: szx_reader where
  "szx_skip_chunk snap version buf len swap_af = Some (ERROR_NONE, snap, swap_af, drop len buf)"

section \<open>Joysticks\<close>

text \<open>The loop of \<open>add_joystick\<close> from index \<open>i\<close> on, with \<open>n\<close> joysticks left.\<close>

fun add_joystick_loop :: "libspectrum_snap \<Rightarrow> libspectrum_joystick \<Rightarrow> int \<Rightarrow> nat \<Rightarrow> nat \<Rightarrow> libspectrum_snap option option" where
  "add_joystick_loop snap type inputs i 0 = Some None"
| "add_joystick_loop snap type inputs i (Suc n) = do {
     t \<leftarrow> nget (snap_joystick_list snap) i;
     (if t = type then do {
        old \<leftarrow> nget (snap_joystick_inputs snap) i;
        new \<leftarrow> nset (snap_joystick_inputs snap) i (inputs OR old);
        Some (Some (snap\<lparr>snap_joystick_inputs := new\<rparr>)) }
      else add_joystick_loop snap type inputs (i + 1) n) }"

definition add_joystick :: "libspectrum_snap \<Rightarrow> libspectrum_joystick \<Rightarrow> int \<Rightarrow> libspectrum_snap option" where
  "add_joystick snap type inputs = do {
     let num_joysticks = unat (snap_joystick_active_count snap);
     found \<leftarrow> add_joystick_loop snap type inputs 0 num_joysticks;
     (case found of
        Some snap \<Rightarrow> Some snap
      | None \<Rightarrow> do {
          l \<leftarrow> nset (snap_joystick_list snap) num_joysticks type;
          j \<leftarrow> nset (snap_joystick_inputs snap) num_joysticks inputs;
          Some (snap\<lparr>snap_joystick_list := l, snap_joystick_inputs := j,
            snap_joystick_active_count := snap_joystick_active_count snap + 1\<rparr>) }) }"

definition szx_joysticks :: "(byte \<times> libspectrum_joystick) list" where
  "szx_joysticks = [(0, JOYSTICK_KEMPSTON), (1, JOYSTICK_FULLER), (2, JOYSTICK_CURSOR), (3, JOYSTICK_SINCLAIR_1),
     (4, JOYSTICK_SINCLAIR_2), (6, JOYSTICK_TIMEX_1), (7, JOYSTICK_TIMEX_2)]"

text \<open>The \<open>switch\<close> on the type of a joystick; the other types are none.\<close>

definition szx_add_joystick :: "libspectrum_snap \<Rightarrow> byte \<Rightarrow> int \<Rightarrow> libspectrum_snap option" where
  "szx_add_joystick snap type inputs =
     (case map_of szx_joysticks type of None \<Rightarrow> Some snap | Some j \<Rightarrow> add_joystick snap j inputs)"

definition read_joy_chunk :: szx_reader where
  "read_joy_chunk snap version buf len swap_af =
     (if len \<noteq> 6 then Some (ERROR_UNKNOWN, snap, swap_af, buf)
      else do {
        snap \<leftarrow> (if le32 buf 0 AND ZXSTJOYF_ALWAYSPORT31 \<noteq> 0
          then add_joystick snap JOYSTICK_KEMPSTON JOYSTICK_INPUT_NONE else Some snap);
        snap \<leftarrow> szx_add_joystick snap (buf ! 4) JOYSTICK_INPUT_JOYSTICK_1;
        snap \<leftarrow> szx_add_joystick snap (buf ! 5) JOYSTICK_INPUT_JOYSTICK_2;
        Some (ERROR_NONE, snap, swap_af, drop 6 buf) })"

definition read_keyb_chunk :: szx_reader where
  "read_keyb_chunk snap version buf len swap_af =
     (let expected_length = (if version \<ge> 0x0101 then 5 else 4)
      in if len \<noteq> expected_length then Some (ERROR_UNKNOWN, snap, swap_af, buf)
         else do {
           let snap = snap\<lparr>snap_issue2 := flag_set (le32 buf 0) ZXSTKF_ISSUE2\<rparr>;
           snap \<leftarrow> (if expected_length \<ge> 5 then szx_add_joystick snap (buf ! 4) JOYSTICK_INPUT_KEYBOARD else Some snap);
           Some (ERROR_NONE, snap, swap_af, drop expected_length buf) })"

section \<open>The creator\<close>

text \<open>\<open>strstr\<close>: what follows the first match.\<close>

fun after_match :: "byte list \<Rightarrow> byte list \<Rightarrow> byte list option" where
  "after_match pattern [] = (if pattern = [] then Some [] else None)"
| "after_match pattern (c # cs) =
     (if take (length pattern) (c # cs) = pattern then Some (drop (length pattern) (c # cs))
      else after_match pattern cs)"

definition is_digit :: "byte \<Rightarrow> bool" where
  "is_digit c \<longleftrightarrow> 0x30 \<le> c \<and> c \<le> 0x39"

definition is_space :: "byte \<Rightarrow> bool" where
  "is_space c \<longleftrightarrow> c = 0x20 \<or> (0x09 \<le> c \<and> c \<le> 0x0d)"

definition digits_value :: "byte list \<Rightarrow> int" where
  "digits_value ds = foldl (\<lambda>v d. 10 * v + uint (d - 0x30)) 0 ds"

text \<open>\<open>%d\<close>: white space, a sign and digits. Numbers that do not fit in an \<open>int\<close> are not cut off.\<close>

definition scan_int :: "byte list \<Rightarrow> (int \<times> byte list) option" where
  "scan_int s =
     (let s = dropWhile is_space s;
          (neg, s) = (case s of c # t \<Rightarrow> if c = 0x2d then (True, t) else if c = 0x2b then (False, t) else (False, s)
                      | [] \<Rightarrow> (False, s));
          ds = takeWhile is_digit s
      in if ds = [] then None else Some (if neg then - digits_value ds else digits_value ds, dropWhile is_digit s))"

definition scan_dot :: "byte list \<Rightarrow> byte list option" where
  "scan_dot s = (case s of c # t \<Rightarrow> if c = 0x2e then Some t else None | [] \<Rightarrow> None)"

definition scan_version :: "byte list \<Rightarrow> (int \<times> int \<times> int) option" where
  "scan_version s = do {
     (v1, s) \<leftarrow> scan_int s; s \<leftarrow> scan_dot s;
     (v2, s) \<leftarrow> scan_int s; s \<leftarrow> scan_dot s;
     (v3, s) \<leftarrow> scan_int s;
     Some (v1, v2, v3) }"

text \<open>Whether the file was written by a version of this library that swapped A and F.\<close>

definition written_by_old_version :: "byte list \<Rightarrow> bool" where
  "written_by_old_version custom =
     (case after_match (map of_char ''libspectrum: '') (takeWhile (\<lambda>c. c \<noteq> 0) custom) \<bind> scan_version of
        None \<Rightarrow> False
      | Some (v1, v2, v3) \<Rightarrow> v1 = 0 \<and> (v2 < 5 \<or> v2 = 5 \<and> v3 = 0))"

definition read_crtr_chunk :: szx_reader where
  "read_crtr_chunk snap version buf len swap_af =
     (if len < 36 then Some (ERROR_UNKNOWN, snap, swap_af, buf)
      else Some (ERROR_NONE, snap, swap_af \<or> written_by_old_version (take (len - 36) (drop 36 buf)), drop len buf))"

section \<open>Interfaces with memory\<close>

text \<open>Data that must have a given length when it is inflated.\<close>

definition szx_inflate :: "'s zlib \<Rightarrow> byte list \<Rightarrow> nat \<Rightarrow> nat \<Rightarrow> byte list c_result" where
  "szx_inflate z src len expected_length = do {
     (error, data) \<leftarrow> libspectrum_zlib_inflate z src (of_nat len) 0;
     Some (if error \<noteq> ERROR_NONE then (error, [])
           else if length data \<noteq> expected_length then (ERROR_UNKNOWN, [])
           else (ERROR_NONE, data)) }"

definition read_b128_chunk :: "'s zlib \<Rightarrow> szx_reader" where
  "read_b128_chunk z snap version buf len swap_af =
     (if len < 10 then Some (ERROR_UNKNOWN, snap, swap_af, buf)
      else do {
        let flags = le32 buf 0;
        let snap = snap\<lparr>snap_beta_active := 1, snap_beta_paged := flag_set flags ZXSTBETAF_PAGED,
          snap_beta_autoboot := flag_set flags ZXSTBETAF_AUTOBOOT,
          snap_beta_direction := (if flags AND ZXSTBETAF_SEEKLOWER \<noteq> 0 then 0 else 1),
          snap_beta_custom_rom := flag_set flags ZXSTBETAF_CUSTOMROM, snap_beta_drive_count := uint (buf ! 4),
          snap_beta_system := buf ! 5, snap_beta_track := buf ! 6, snap_beta_sector := buf ! 7,
          snap_beta_data := buf ! 8, snap_beta_status := buf ! 9\<rparr>;
        (error, rom_data) \<leftarrow>
          (if snap_beta_custom_rom snap = 0 then Some (ERROR_NONE, None)
           else if flags AND ZXSTBETAF_COMPRESSED \<noteq> 0 then
             map_option (apsnd Some) (szx_inflate z (drop 10 buf) (len - 10) 0x4000)
           else if len < 10 + 0x4000 then Some (ERROR_UNKNOWN, None)
           else map_option (\<lambda>d. (ERROR_NONE, Some d)) (copy_out buf 10 0x4000));
        Some (if error \<noteq> ERROR_NONE then (error, snap, swap_af, drop 10 buf)
              else (ERROR_NONE, snap\<lparr>snap_beta_rom := rom_data\<rparr>, swap_af, drop len buf)) })"

text \<open>
  The RAM and the ROM of the Opus Discovery and the +D: \<open>header\<close> is the length of what comes before
  them. The result is the RAM and the ROM and where they end.
\<close>

definition szx_read_disk_memory ::
    "'s zlib \<Rightarrow> nat \<Rightarrow> nat \<Rightarrow> nat \<Rightarrow> bool \<Rightarrow> bool \<Rightarrow> nat \<Rightarrow> nat \<Rightarrow> byte list \<Rightarrow> nat \<Rightarrow>
     (byte list option \<times> byte list option \<times> nat) c_result" where
  "szx_read_disk_memory z header ram_length rom_length compressed custom_rom disc_ram_length disc_rom_length buf len =
     (if compressed then
        (if (\<not> custom_rom \<and> disc_rom_length \<noteq> 0) \<or> (custom_rom \<and> disc_rom_length = 0)
         then Some (ERROR_UNKNOWN, None, None, header)
         else if len < header + disc_ram_length + disc_rom_length then Some (ERROR_UNKNOWN, None, None, header)
         else do {
           (error, ram) \<leftarrow> szx_inflate z (drop header buf) disc_ram_length ram_length;
           (if error \<noteq> ERROR_NONE then Some (error, None, None, header)
            else if \<not> custom_rom then Some (ERROR_NONE, Some ram, None, header + disc_ram_length)
            else do {
              (error, rom) \<leftarrow> szx_inflate z (drop (header + disc_ram_length) buf) disc_rom_length rom_length;
              Some (if error \<noteq> ERROR_NONE then (error, None, None, header + disc_ram_length)
                    else (ERROR_NONE, Some ram, Some rom, header + disc_ram_length + disc_rom_length)) }) })
      else
        (if disc_ram_length \<noteq> ram_length then Some (ERROR_UNKNOWN, None, None, header)
         else if (custom_rom \<and> disc_rom_length \<noteq> rom_length) \<or> (\<not> custom_rom \<and> disc_rom_length \<noteq> 0)
         then Some (ERROR_UNKNOWN, None, None, header)
         else if len < header + disc_ram_length + disc_rom_length then Some (ERROR_UNKNOWN, None, None, header)
         else do {
           ram \<leftarrow> copy_out buf header ram_length;
           (if \<not> custom_rom then Some (ERROR_NONE, Some ram, None, header + ram_length)
            else do {
              rom \<leftarrow> copy_out buf (header + ram_length) rom_length;
              Some (ERROR_NONE, Some ram, Some rom, header + ram_length + rom_length) }) }))"

definition read_opus_chunk :: "'s zlib \<Rightarrow> szx_reader" where
  "read_opus_chunk z snap version buf len swap_af =
     (if len < 23 then Some (ERROR_UNKNOWN, snap, swap_af, buf)
      else
        let flags = le32 buf 0; disc_ram_length = unat (le32 buf 4); disc_rom_length = unat (le32 buf 8);
            custom_rom = flags AND ZXSTOPUSF_CUSTOMROM \<noteq> 0;
            snap = snap\<lparr>snap_opus_active := 1, snap_opus_paged := flag_bits flags ZXSTOPUSF_PAGED,
              snap_opus_direction := (if flags AND ZXSTOPUSF_SEEKLOWER \<noteq> 0 then 0 else 1),
              snap_opus_custom_rom := flag_set flags ZXSTOPUSF_CUSTOMROM\<rparr>
        in if custom_rom \<and> disc_rom_length = 0 then Some (ERROR_UNKNOWN, snap, swap_af, drop 12 buf)
           else do {
             let snap = snap\<lparr>snap_opus_control_a := buf ! 12, snap_opus_data_reg_a := buf ! 13,
               snap_opus_data_dir_a := buf ! 14, snap_opus_control_b := buf ! 15, snap_opus_data_reg_b := buf ! 16,
               snap_opus_data_dir_b := buf ! 17, snap_opus_drive_count := uint (buf ! 18), snap_opus_track := buf ! 19,
               snap_opus_sector := buf ! 20, snap_opus_data := buf ! 21, snap_opus_status := buf ! 22\<rparr>;
             (error, ram, rom, i) \<leftarrow> szx_read_disk_memory z 23 0x800 0x2000 (flags AND ZXSTOPUSF_COMPRESSED \<noteq> 0)
               custom_rom disc_ram_length disc_rom_length buf len;
             Some (if error \<noteq> ERROR_NONE then (error, snap, swap_af, drop i buf)
                   else (ERROR_NONE, snap\<lparr>snap_opus_ram := ram, snap_opus_rom := rom\<rparr>, swap_af, drop i buf)) })"

definition read_plsd_chunk :: "'s zlib \<Rightarrow> szx_reader" where
  "read_plsd_chunk z snap version buf len swap_af =
     (if len < 19 then Some (ERROR_UNKNOWN, snap, swap_af, buf)
      else
        let flags = le32 buf 0; disc_ram_length = unat (le32 buf 4); disc_rom_length = unat (le32 buf 8);
            custom_rom = (buf ! 12 = ZXSTPDRT_CUSTOM);
            snap = snap\<lparr>snap_plusd_active := 1, snap_plusd_paged := flag_bits flags ZXSTPLUSDF_PAGED,
              snap_plusd_direction := (if flags AND ZXSTPLUSDF_SEEKLOWER \<noteq> 0 then 0 else 1),
              snap_plusd_custom_rom := (if custom_rom then 1 else 0)\<rparr>
        in if custom_rom \<and> disc_rom_length = 0 then Some (ERROR_UNKNOWN, snap, swap_af, drop 13 buf)
           else do {
             let snap = snap\<lparr>snap_plusd_control := buf ! 13, snap_plusd_drive_count := uint (buf ! 14),
               snap_plusd_track := buf ! 15, snap_plusd_sector := buf ! 16, snap_plusd_data := buf ! 17,
               snap_plusd_status := buf ! 18\<rparr>;
             (error, ram, rom, i) \<leftarrow> szx_read_disk_memory z 19 0x2000 0x2000 (flags AND ZXSTPLUSDF_COMPRESSED \<noteq> 0)
               custom_rom disc_ram_length disc_rom_length buf len;
             Some (if error \<noteq> ERROR_NONE then (error, snap, swap_af, drop i buf)
                   else (ERROR_NONE, snap\<lparr>snap_plusd_ram := ram, snap_plusd_rom := rom\<rparr>, swap_af, drop i buf)) })"

text \<open>A ROM that is not compressed is read, but not stored in the snapshot.\<close>

definition read_if1_chunk :: "'s zlib \<Rightarrow> szx_reader" where
  "read_if1_chunk z snap version buf len swap_af =
     (if len < 40 then Some (ERROR_UNKNOWN, snap, swap_af, buf)
      else
        let flags = le16 buf 0; expected_length = le16 buf 38; n = unat expected_length;
            snap = snap\<lparr>snap_interface1_drive_count := uint (buf ! 2),
              snap_interface1_active := flag_bits flags ZXSTIF1F_ENABLED,
              snap_interface1_paged := flag_set flags ZXSTIF1F_PAGED\<rparr>
        in if expected_length = 0 then Some (ERROR_NONE, snap, swap_af, drop 40 buf)
           else if expected_length \<noteq> 0x2000 \<and> expected_length \<noteq> 0x4000 then Some (ERROR_UNKNOWN, snap, swap_af, drop 40 buf)
           else
             let snap = snap\<lparr>snap_interface1_custom_rom := 1\<rparr>
             in if flags AND ZXSTIF1F_COMPRESSED \<noteq> 0 then do {
                  (error, rom_data) \<leftarrow> szx_inflate z (drop 40 buf) (len - 40) n;
                  Some (if error \<noteq> ERROR_NONE then (error, snap, swap_af, drop 40 buf)
                        else (ERROR_NONE, snap\<lparr>snap_interface1_rom := Some rom_data,
                          snap_interface1_rom_length := of_nat n\<rparr>, swap_af, drop len buf)) }
                else if len < 40 + n then Some (ERROR_UNKNOWN, snap, swap_af, drop 40 buf)
                else do {
                  rom_data \<leftarrow> copy_out buf 40 n;
                  Some (ERROR_NONE, snap\<lparr>snap_interface1_rom_length := of_nat n\<rparr>, swap_af, drop (40 + n) buf) })"

definition szx_set_custom_rom :: "libspectrum_snap \<Rightarrow> nat \<Rightarrow> byte list \<Rightarrow> nat \<Rightarrow> libspectrum_snap option" where
  "szx_set_custom_rom snap page_no rom_data len =
     (if len \<noteq> 0 then do {
        page \<leftarrow> copy_out rom_data 0 len;
        roms \<leftarrow> nset (snap_roms snap) page_no (Some page);
        lens \<leftarrow> nset (snap_rom_length snap) page_no (of_nat len);
        Some (snap\<lparr>snap_roms := roms, snap_rom_length := lens\<rparr>) }
      else Some snap)"

fun extract_rom_pages :: "libspectrum_snap \<Rightarrow> byte list \<Rightarrow> nat \<Rightarrow> nat \<Rightarrow> libspectrum_snap option" where
  "extract_rom_pages snap rom_data i 0 = Some snap"
| "extract_rom_pages snap rom_data i (Suc n) = do {
     snap \<leftarrow> szx_set_custom_rom snap i (drop (i * 0x4000) rom_data) 0x4000;
     extract_rom_pages snap rom_data (i + 1) n }"

definition szx_extract_roms :: "libspectrum_snap \<Rightarrow> byte list \<Rightarrow> nat \<Rightarrow> nat \<Rightarrow> libspectrum_snap c_result" where
  "szx_extract_roms snap rom_data len expected_length =
     (if len \<noteq> expected_length then Some (ERROR_UNKNOWN, snap)
      else do {
        let num_16k_roms = len div 0x4000;
        let additional_rom_length = len mod 0x4000;
        snap \<leftarrow> extract_rom_pages snap rom_data 0 num_16k_roms;
        snap \<leftarrow> szx_set_custom_rom snap num_16k_roms (drop (num_16k_roms * 0x4000) rom_data) additional_rom_length;
        Some (ERROR_NONE, snap\<lparr>snap_custom_rom_pages :=
          of_nat (num_16k_roms + (if additional_rom_length \<noteq> 0 then 1 else 0))\<rparr>) })"

text \<open>The length of the ROMs of a machine.\<close>

definition szx_rom_length :: "libspectrum_machine \<Rightarrow> nat option" where
  "szx_rom_length machine =
     (if machine \<in> set [MACHINE_16, MACHINE_48, MACHINE_TC2048] then Some 0x4000
      else if machine \<in> set [MACHINE_128, MACHINE_PLUS2, MACHINE_SE] then Some 0x8000
      else if machine \<in> set [MACHINE_PLUS2A, MACHINE_PLUS3, MACHINE_PLUS3E] then Some 0x10000
      else if machine = MACHINE_PENT then Some 0x8000
      else if machine \<in> set [MACHINE_TC2068, MACHINE_TS2068] then Some 0x6000
      else if machine \<in> set [MACHINE_SCORP, MACHINE_PENT512, MACHINE_PENT1024] then Some 0x10000
      else None)"

text \<open>The sum of the length check is computed in 32 bits.\<close>

definition read_rom_chunk :: "'s zlib \<Rightarrow> szx_reader" where
  "read_rom_chunk z snap version buf len swap_af =
     (if len < 6 then Some (ERROR_UNKNOWN, snap, swap_af, buf)
      else do {
        let flags = le16 buf 0;
        let expected_length = le32 buf 2;
        (error, rom_data, rest) \<leftarrow>
          (if flags AND ZXSTRF_COMPRESSED \<noteq> 0 then
             map_option (\<lambda>(error, data). (error, data, drop len buf)) (szx_inflate z (drop 6 buf) (len - 6) (unat expected_length))
           else if len < unat (6 + expected_length) then Some (ERROR_UNKNOWN, [], drop 6 buf)
           else map_option (\<lambda>d. (ERROR_NONE, d, drop (6 + unat expected_length) buf)) (copy_out buf 6 (unat expected_length)));
        (if error \<noteq> ERROR_NONE then Some (error, snap, swap_af, rest)
         else
           let snap = snap\<lparr>snap_custom_rom := 1\<rparr>
           in case szx_rom_length (snap_machine snap) of
                None \<Rightarrow> Some (ERROR_UNKNOWN, snap, swap_af, rest)
              | Some n \<Rightarrow> map_option (\<lambda>(error, snap). (error, snap, swap_af, rest))
                  (szx_extract_roms snap rom_data (unat expected_length) n)) })"

definition read_if2r_chunk :: "'s zlib \<Rightarrow> szx_reader" where
  "read_if2r_chunk z snap version buf len swap_af =
     (if len < 4 then Some (ERROR_UNKNOWN, snap, swap_af, buf)
      else do {
        (error, data) \<leftarrow> libspectrum_zlib_inflate z (drop 4 buf) (of_nat (len - 4)) 0x4000;
        Some (if error \<noteq> ERROR_NONE then (error, snap, swap_af, drop 4 buf)
              else (ERROR_NONE, snap\<lparr>snap_interface2_active := 1, snap_interface2_rom := Some data\<rparr>, swap_af, drop len buf)) })"

text \<open>\<open>store\<close> stores the write protection, the paging, the control port and the number of pages.\<close>

definition read_divxxx_chunk ::
    "'s zlib \<Rightarrow> (int \<Rightarrow> int \<Rightarrow> byte \<Rightarrow> size_t \<Rightarrow> libspectrum_snap \<Rightarrow> libspectrum_snap) \<Rightarrow> lword \<Rightarrow> lword \<Rightarrow> lword \<Rightarrow>
     (byte list option \<Rightarrow> libspectrum_snap \<Rightarrow> libspectrum_snap) \<Rightarrow> szx_reader" where
  "read_divxxx_chunk z store eprom_writeprotect_flag paged_flag compressed_flag set_eprom snap version buf len swap_af =
     (if len < 4 then Some (ERROR_UNKNOWN, snap, swap_af, buf)
      else do {
        let flags = le16 buf 0;
        let snap = store (flag_set flags eprom_writeprotect_flag) (flag_set flags paged_flag) (buf ! 2) (ucast (buf ! 3)) snap;
        (if flags AND compressed_flag \<noteq> 0 then do {
           (error, eprom_data) \<leftarrow> szx_inflate z (drop 4 buf) (len - 4) 0x2000;
           Some (if error \<noteq> ERROR_NONE then (error, snap, swap_af, drop 4 buf)
                 else (ERROR_NONE, set_eprom (Some eprom_data) snap, swap_af, drop len buf)) }
         else if len < 4 + 0x2000 then Some (ERROR_UNKNOWN, snap, swap_af, drop 4 buf)
         else do {
           eprom_data \<leftarrow> copy_out buf 4 0x2000;
           Some (ERROR_NONE, set_eprom (Some eprom_data) snap, swap_af, drop (4 + 0x2000) buf) }) })"

definition read_dide_chunk :: "'s zlib \<Rightarrow> szx_reader" where
  "read_dide_chunk z = read_divxxx_chunk z
     (\<lambda>wp paged control pages snap. snap\<lparr>snap_divide_active := 1, snap_divide_eprom_writeprotect := wp,
        snap_divide_paged := paged, snap_divide_control := control, snap_divide_pages := pages\<rparr>)
     ZXSTDIVIDE_EPROM_WRITEPROTECT ZXSTDIVIDE_PAGED ZXSTDIVIDE_COMPRESSED
     (\<lambda>eprom snap. snap\<lparr>snap_divide_eprom := eprom\<rparr>)"

definition read_dmmc_chunk :: "'s zlib \<Rightarrow> szx_reader" where
  "read_dmmc_chunk z = read_divxxx_chunk z
     (\<lambda>wp paged control pages snap. snap\<lparr>snap_divmmc_active := 1, snap_divmmc_eprom_writeprotect := wp,
        snap_divmmc_paged := paged, snap_divmmc_control := control, snap_divmmc_pages := pages\<rparr>)
     ZXSTDIVMMC_EPROM_WRITEPROTECT ZXSTDIVMMC_PAGED ZXSTDIVMMC_COMPRESSED
     (\<lambda>eprom snap. snap\<lparr>snap_divmmc_eprom := eprom\<rparr>)"

definition read_snet_chunk :: szx_reader where
  "read_snet_chunk snap version buf len swap_af =
     (if len < 54 then Some (ERROR_UNKNOWN, snap, swap_af, buf)
      else
        let flags = le16 buf 0
        in Some (ERROR_NONE, snap\<lparr>snap_spectranet_active := 1, snap_spectranet_paged := flag_set flags ZXSTSNET_PAGED,
          snap_spectranet_paged_via_io := flag_set flags ZXSTSNET_PAGED_VIA_IO,
          snap_spectranet_programmable_trap_active := flag_set flags ZXSTSNET_PROGRAMMABLE_TRAP_ACTIVE,
          snap_spectranet_programmable_trap_msb := flag_set flags ZXSTSNET_PROGRAMMABLE_TRAP_MSB,
          snap_spectranet_all_traps_disabled := flag_set flags ZXSTSNET_ALL_DISABLED,
          snap_spectranet_rst8_trap_disabled := flag_set flags ZXSTSNET_RST8_DISABLED,
          snap_spectranet_deny_downstream_a15 := flag_set flags ZXSTSNET_DENY_DOWNSTREAM_A15,
          snap_spectranet_nmi_flipflop := flag_set flags ZXSTSNET_NMI_FLIPFLOP,
          snap_spectranet_page_a := uint (buf ! 2), snap_spectranet_page_b := uint (buf ! 3),
          snap_spectranet_programmable_trap := le16 buf 4,
          snap_spectranet_w5100 := Some (take 0x30 (drop 6 buf))\<rparr>, swap_af, drop 54 buf))"

text \<open>
  \<open>buf\<close> is behind the flags and \<open>data_remaining\<close> what is left of the chunk. Data of the wrong length
  that is not compressed is neither an error nor skipped.
\<close>

definition read_snet_memory ::
    "'s zlib \<Rightarrow> libspectrum_snap \<Rightarrow> byte list \<Rightarrow> bool \<Rightarrow> nat \<Rightarrow>
     (byte list option \<Rightarrow> libspectrum_snap \<Rightarrow> libspectrum_snap) \<Rightarrow> (libspectrum_snap \<times> byte list) c_result" where
  "read_snet_memory z snap buf compressed data_remaining setter =
     (if data_remaining < 4 then Some (ERROR_UNKNOWN, snap, buf)
      else
        let data_length = unat (le32 buf 0)
        in if data_remaining - 4 < data_length then Some (ERROR_UNKNOWN, snap, drop 4 buf)
           else if compressed then do {
             (error, data) \<leftarrow> libspectrum_zlib_inflate z (drop 4 buf) (of_nat data_length) 0;
             Some (if error \<noteq> ERROR_NONE then (error, snap, drop 4 buf)
                   else if length data \<noteq> 0x20000 then (ERROR_UNKNOWN, snap, drop (4 + data_length) buf)
                   else (ERROR_NONE, setter (Some data) snap, drop (4 + data_length) buf)) }
           else if data_length \<noteq> 0x20000 then Some (ERROR_NONE, snap, drop 4 buf)
           else do {
             data \<leftarrow> copy_out buf 4 0x20000;
             Some (ERROR_NONE, setter (Some data) snap, drop (4 + data_length) buf) })"

definition read_snef_chunk :: "'s zlib \<Rightarrow> szx_reader" where
  "read_snef_chunk z snap version buf len swap_af =
     (if len < 5 then Some (ERROR_UNKNOWN, snap, swap_af, buf)
      else map_option (\<lambda>(error, snap, rest). (error, snap, swap_af, rest))
        (read_snet_memory z snap (drop 1 buf) (buf ! 0 AND ZXSTSNEF_FLASH_COMPRESSED \<noteq> 0) (len - 1)
           (\<lambda>data snap. snap\<lparr>snap_spectranet_flash := data\<rparr>)))"

definition read_sner_chunk :: "'s zlib \<Rightarrow> szx_reader" where
  "read_sner_chunk z snap version buf len swap_af =
     (if len < 5 then Some (ERROR_UNKNOWN, snap, swap_af, buf)
      else map_option (\<lambda>(error, snap, rest). (error, snap, swap_af, rest))
        (read_snet_memory z snap (drop 1 buf) (buf ! 0 AND ZXSTSNER_RAM_COMPRESSED \<noteq> 0) (len - 1)
           (\<lambda>data snap. snap\<lparr>snap_spectranet_ram := data\<rparr>)))"

definition read_mfce_chunk :: "'s zlib \<Rightarrow> szx_reader" where
  "read_mfce_chunk z snap version buf len swap_af =
     (if len < 2 then Some (ERROR_UNKNOWN, snap, swap_af, buf)
      else do {
        let snap = snap\<lparr>snap_multiface_active := 1\<rparr>;
        let snap = (if buf ! 0 = ZXSTMFM_1 then snap\<lparr>snap_multiface_model_one := 1\<rparr>
          else if buf ! 0 = ZXSTMFM_128 then
            (if libspectrum_machine_capabilities (snap_machine snap) AND MACHINE_CAPABILITY_PLUS3_MEMORY \<noteq> 0
             then snap\<lparr>snap_multiface_model_3 := 1\<rparr> else snap\<lparr>snap_multiface_model_128 := 1\<rparr>)
          else snap);
        let flags = buf ! 1;
        let snap = snap\<lparr>snap_multiface_paged := flag_set flags ZXSTMF_PAGEDIN,
          snap_multiface_software_lockout := flag_set flags ZXSTMF_SOFTWARELOCKOUT,
          snap_multiface_red_button_disabled := flag_set flags ZXSTMF_REDBUTTONDISABLED,
          snap_multiface_disabled := flag_set flags ZXSTMF_DISABLED\<rparr>;
        let expected_ram_length = (if flags AND ZXSTMF_16KRAMMODE \<noteq> 0 then 0x4000 else 0x2000);
        let disc_ram_length = len - 2;
        (error, ram_data, i) \<leftarrow>
          (if flags AND ZXSTMF_COMPRESSED \<noteq> 0 then
             map_option (\<lambda>(error, data). (error, data, len)) (szx_inflate z (drop 2 buf) disc_ram_length expected_ram_length)
           else if disc_ram_length \<noteq> expected_ram_length then Some (ERROR_UNKNOWN, [], 2)
           else map_option (\<lambda>d. (ERROR_NONE, d, 2 + expected_ram_length)) (copy_out buf 2 expected_ram_length));
        Some (if error \<noteq> ERROR_NONE then (error, snap, swap_af, drop 2 buf)
              else (ERROR_NONE, snap\<lparr>snap_multiface_ram := Some ram_data,
                snap_multiface_ram_length := of_nat expected_ram_length\<rparr>, swap_af, drop i buf)) })"

section \<open>Files\<close>

definition szx_chunks :: "'s zlib \<Rightarrow> (byte list \<times> szx_reader) list" where
  "szx_chunks z = map (apfst chunk_id)
     [(''AY'', read_ay_chunk), (''B128'', read_b128_chunk z), (''BDSK'', szx_skip_chunk), (''COVX'', read_covx_chunk),
      (''CRTR'', read_crtr_chunk), (''DIDE'', read_dide_chunk z), (''DIRP'', read_dirp_chunk z),
      (''DMMC'', read_dmmc_chunk z), (''DMRP'', read_dmrp_chunk z), (''DOCK'', read_dock_chunk z),
      (''DSK'', szx_skip_chunk), (''LEC'', szx_skip_chunk), (''LCRP'', szx_skip_chunk), (''GS'', szx_skip_chunk),
      (''GSRP'', szx_skip_chunk), (''IF1'', read_if1_chunk z), (''IF2R'', read_if2r_chunk z), (''JOY'', read_joy_chunk),
      (''KEYB'', read_keyb_chunk), (''MDRV'', szx_skip_chunk), (''AMXM'', read_amxm_chunk), (''MFCE'', read_mfce_chunk z),
      (''OPUS'', read_opus_chunk z), (''ODSK'', szx_skip_chunk), (''PLTT'', read_pltt_chunk), (''+3'', szx_skip_chunk),
      (''PLSD'', read_plsd_chunk z), (''PDSK'', szx_skip_chunk), (''RAMP'', read_ramp_chunk z), (''ROM'', read_rom_chunk z),
      (''SIDE'', read_side_chunk), (''DRUM'', read_drum_chunk), (''SPCR'', read_spcr_chunk), (''SNET'', read_snet_chunk),
      (''SNEF'', read_snef_chunk z), (''SNER'', read_sner_chunk z), (''SCLD'', read_scld_chunk), (''USPE'', szx_skip_chunk),
      (''Z80R'', read_z80r_chunk), (''ATRP'', read_atrp_chunk z), (''ZXAT'', read_zxat_chunk), (''ZXCF'', read_zxcf_chunk),
      (''CFRP'', read_cfrp_chunk z), (''ZMMC'', read_zmmc_chunk), (''ZXPR'', read_zxpr_chunk), (''TAPE'', szx_skip_chunk)]"

definition szx_read_chunk :: "'s zlib \<Rightarrow> libspectrum_snap \<Rightarrow> lword \<Rightarrow> byte list \<Rightarrow> bool \<Rightarrow> szx_result" where
  "szx_read_chunk z snap version buf swap_af =
     (if length buf < 8 then Some (ERROR_CORRUPT, snap, swap_af, buf)
      else
        let id = take 4 buf; data_length = unat (le32 buf 4); buf = drop 8 buf
        in if length buf < data_length then Some (ERROR_CORRUPT, snap, swap_af, buf)
           else case map_of (szx_chunks z) id of
                  Some f \<Rightarrow> f snap version buf data_length swap_af
                | None \<Rightarrow> szx_skip_chunk snap version buf data_length swap_af)"

text \<open>Every chunk takes at least eight bytes, so that as many chunks as there are bytes are enough.\<close>

fun szx_read_chunks :: "'s zlib \<Rightarrow> nat \<Rightarrow> libspectrum_snap \<Rightarrow> lword \<Rightarrow> byte list \<Rightarrow> bool \<Rightarrow> libspectrum_snap c_result" where
  "szx_read_chunks z k snap version [] swap_af = Some (ERROR_NONE, snap)"
| "szx_read_chunks z 0 snap version (b # buf) swap_af = None"
| "szx_read_chunks z (Suc k) snap version (b # buf) swap_af = do {
     (error, snap, swap_af, buf) \<leftarrow> szx_read_chunk z snap version (b # buf) swap_af;
     (if error \<noteq> ERROR_NONE then Some (error, snap)
      else szx_read_chunks z k snap version buf swap_af) }"

definition libspectrum_szx_read :: "'s zlib \<Rightarrow> libspectrum_snap \<Rightarrow> byte list \<Rightarrow> libspectrum_snap c_result" where
  "libspectrum_szx_read z snap buf =
     (if length buf < 8 then Some (ERROR_CORRUPT, snap)
      else if take 4 buf \<noteq> map of_char ''ZXST'' then Some (ERROR_SIGNATURE, snap)
      else
        let version = push_bit 8 (ucast (buf ! 4)) OR ucast (buf ! 5); machine = buf ! 6; flags = buf ! 7
        in case map_of szx_machines machine of
             None \<Rightarrow> Some (ERROR_UNKNOWN, snap)
           | Some m \<Rightarrow>
               let snap = snap\<lparr>snap_machine := m\<rparr>;
                   snap = (if m \<in> set [MACHINE_16, MACHINE_48, MACHINE_48_NTSC, MACHINE_128]
                     then snap\<lparr>snap_late_timings := flag_bits flags ZXSTMF_ALTERNATETIMINGS\<rparr> else snap)
               in szx_read_chunks z (length buf) snap version (drop 8 buf) False)"

end
