(* ===== verification/Szx_Write.thy ===== *)
theory Szx_Write
  imports Szx_Read Creator LS_Buffer
begin

text \<open>
  Writing .szx snapshots (\<open>szx.c\<close>), in the configuration with zlib. \<open>junk\<close> gives the indeterminate
  contents of new memory, as in the growable buffer. The writers of chunks have the buffer of the file
  and the buffer that collects the data of a chunk, which \<open>write_chunk\<close> empties.
\<close>

section \<open>Chunks\<close>

text \<open>A sequence of calls of the \<open>libspectrum_buffer_write\<close> functions.\<close>

datatype szx_item =
    Put_byte byte
  | Put_word lword
  | Put_dword dword
  | Put_data "byte list" size_t
  | Put_buffer lbuffer

fun put_item :: "(nat \<Rightarrow> byte) \<Rightarrow> szx_item \<Rightarrow> lbuffer \<Rightarrow> lbuffer option" where
  "put_item junk (Put_byte x) b = libspectrum_buffer_write_byte junk b x"
| "put_item junk (Put_word x) b = libspectrum_buffer_write_word junk b x"
| "put_item junk (Put_dword x) b = libspectrum_buffer_write_dword junk b x"
| "put_item junk (Put_data d n) b = libspectrum_buffer_write junk b d n"
| "put_item junk (Put_buffer m) b = libspectrum_buffer_write_buffer junk b (Some m)"

fun put_items :: "(nat \<Rightarrow> byte) \<Rightarrow> szx_item list \<Rightarrow> lbuffer \<Rightarrow> lbuffer option" where
  "put_items junk [] b = Some b"
| "put_items junk (x # xs) b = put_item junk x b \<bind> put_items junk xs"

type_synonym szx_out = "lbuffer \<times> lbuffer"

definition szx_write_chunk ::
    "(nat \<Rightarrow> byte) \<Rightarrow> string \<Rightarrow> lbuffer option \<Rightarrow> lbuffer \<Rightarrow> (lbuffer \<times> lbuffer option) option" where
  "szx_write_chunk junk cid block_data b = do {
     b \<leftarrow> libspectrum_buffer_write junk b (chunk_id cid) 4;
     b \<leftarrow> libspectrum_buffer_write_dword junk b (ucast (libspectrum_buffer_get_data_size block_data));
     b \<leftarrow> libspectrum_buffer_write_buffer junk b block_data;
     Some (b, libspectrum_buffer_clear block_data) }"

text \<open>The data of a chunk and the chunk.\<close>

definition szx_put_chunk :: "(nat \<Rightarrow> byte) \<Rightarrow> string \<Rightarrow> szx_item list \<Rightarrow> szx_out \<Rightarrow> szx_out option" where
  "szx_put_chunk junk cid items = (\<lambda>(b, data). do {
     data \<leftarrow> put_items junk items data;
     (b, data) \<leftarrow> szx_write_chunk junk cid (Some data) b;
     data \<leftarrow> data;
     Some (b, data) })"

text \<open>A chunk without data: \<open>write_chunk\<close> has no buffer for it.\<close>

definition szx_put_empty :: "(nat \<Rightarrow> byte) \<Rightarrow> string \<Rightarrow> szx_out \<Rightarrow> szx_out option" where
  "szx_put_empty junk cid = (\<lambda>(b, data). do {
     (b, _) \<leftarrow> szx_write_chunk junk cid None b;
     Some (b, data) })"

text \<open>A buffer with the data, deflated if asked for and not longer, and whether it is deflated.\<close>

definition compress_data ::
    "(nat \<Rightarrow> byte) \<Rightarrow> 's zlib \<Rightarrow> lbuffer \<Rightarrow> byte list option \<Rightarrow> size_t \<Rightarrow> int \<Rightarrow> (lbuffer \<times> bool) option" where
  "compress_data junk z dst src_data src_data_length compress = do {
     deflated \<leftarrow>
       (case src_data of
          Some src \<Rightarrow>
            if compress \<noteq> 0 then do {
              d \<leftarrow> copy_out src 0 (unat src_data_length);
              let (error, gz) = libspectrum_zlib_compress z d;
              Some (if error = ERROR_NONE \<and>
                       (compress AND FLAG_SNAPSHOT_ALWAYS_COMPRESS \<noteq> 0 \<or> of_nat (length gz) < src_data_length)
                    then Some gz else None) }
            else Some None
        | None \<Rightarrow> Some None);
     (case deflated of
        Some gz \<Rightarrow> map_option (\<lambda>b. (b, True)) (libspectrum_buffer_write junk dst gz (of_nat (length gz)))
      | None \<Rightarrow> map_option (\<lambda>b. (b, False))
          (libspectrum_buffer_write junk dst (case src_data of None \<Rightarrow> [] | Some src \<Rightarrow> src) src_data_length)) }"

definition flag_if :: "bool \<Rightarrow> 'a::len word \<Rightarrow> 'a word" where
  "flag_if c f = (if c then f else 0)"

section \<open>Registers, ports and small devices\<close>

definition szx_write_file_header ::
    "(nat \<Rightarrow> byte) \<Rightarrow> libspectrum_snap \<Rightarrow> lbuffer \<Rightarrow> lbuffer c_result" where
  "szx_write_file_header junk snap b = do {
     b \<leftarrow> put_items junk [Put_data (map of_char ''ZXST'') 4, Put_byte 1, Put_byte 5] b;
     (case find (\<lambda>(n, m). m = snap_machine snap) szx_machines of
        None \<Rightarrow> Some (ERROR_LOGIC, b)
      | Some (n, m) \<Rightarrow> do {
          b \<leftarrow> put_items junk [Put_byte n, Put_byte (flag_if (snap_late_timings snap \<noteq> 0) ZXSTMF_ALTERNATETIMINGS)] b;
          Some (ERROR_NONE, b) }) }"

definition write_crtr_chunk :: "(nat \<Rightarrow> byte) \<Rightarrow> libspectrum_creator \<Rightarrow> szx_out \<Rightarrow> szx_out option" where
  "write_crtr_chunk junk creator =
     szx_put_chunk junk ''CRTR''
       ([Put_data (libspectrum_creator_program creator) 32, Put_word (libspectrum_creator_major creator),
         Put_word (libspectrum_creator_minor creator)] @
        (if libspectrum_creator_custom_length creator \<noteq> 0
         then [Put_data (case libspectrum_creator_custom creator of None \<Rightarrow> [] | Some c \<Rightarrow> c)
                 (libspectrum_creator_custom_length creator)] else []))"

definition write_z80r_chunk :: "(nat \<Rightarrow> byte) \<Rightarrow> libspectrum_snap \<Rightarrow> szx_out \<Rightarrow> szx_out option" where
  "write_z80r_chunk junk snap =
     szx_put_chunk junk ''Z80R''
       [Put_byte (snap_f snap), Put_byte (snap_a snap), Put_word (snap_bc snap), Put_word (snap_de snap),
        Put_word (snap_hl snap), Put_byte (snap_f' snap), Put_byte (snap_a' snap), Put_word (snap_bc' snap),
        Put_word (snap_de' snap), Put_word (snap_hl' snap), Put_word (snap_ix snap), Put_word (snap_iy snap),
        Put_word (snap_sp snap), Put_word (snap_pc snap), Put_byte (snap_i snap), Put_byte (snap_r snap),
        Put_byte (snap_iff1 snap), Put_byte (snap_iff2 snap), Put_byte (snap_im snap), Put_dword (snap_tstates snap),
        Put_byte (if snap_tstates snap < 48 then ucast (48 - snap_tstates snap) else 0),
        Put_byte (flag_if (snap_last_instruction_ei snap \<noteq> 0) ZXSTZF_EILAST OR
          flag_if (snap_halted snap \<noteq> 0) ZXSTZF_HALTED OR flag_if (snap_last_instruction_set_f snap \<noteq> 0) ZXSTZF_FSET),
        Put_word (snap_memptr snap)]"

definition write_spcr_chunk :: "(nat \<Rightarrow> byte) \<Rightarrow> libspectrum_snap \<Rightarrow> szx_out \<Rightarrow> szx_out option" where
  "write_spcr_chunk junk snap =
     (let capabilities = libspectrum_machine_capabilities (snap_machine snap)
      in szx_put_chunk junk ''SPCR''
        [Put_byte (snap_out_ula snap AND 0x07),
         Put_byte (if capabilities AND MACHINE_CAPABILITY_128_MEMORY \<noteq> 0 then snap_out_128_memoryport snap else 0),
         Put_byte (if capabilities AND MACHINE_CAPABILITY_PLUS3_MEMORY \<noteq> 0 \<or>
             capabilities AND MACHINE_CAPABILITY_SCORP_MEMORY \<noteq> 0 \<or>
             capabilities AND MACHINE_CAPABILITY_PENT1024_MEMORY \<noteq> 0
           then snap_out_plus3_memoryport snap else 0),
         Put_byte (snap_out_ula snap), Put_dword 0])"

definition szx_joystick_type :: "libspectrum_joystick \<Rightarrow> byte option" where
  "szx_joystick_type j = map_option fst (find (\<lambda>(n, j'). j' = j) szx_joysticks)"

text \<open>The loop of \<open>write_joystick\<close> from index \<open>i\<close> on, with \<open>n\<close> joysticks left.\<close>

fun write_joystick_loop ::
    "libspectrum_snap \<Rightarrow> int \<Rightarrow> nat \<Rightarrow> nat \<Rightarrow> bool \<Rightarrow> byte \<Rightarrow> int \<Rightarrow> (byte \<times> int) option" where
  "write_joystick_loop snap connection i 0 found type out_flags = Some (type, out_flags)"
| "write_joystick_loop snap connection i (Suc n) found type out_flags = do {
     inputs \<leftarrow> nget (snap_joystick_inputs snap) i;
     (if inputs AND connection \<noteq> 0 then do {
        j \<leftarrow> nget (snap_joystick_list snap) i;
        (case szx_joystick_type j of
           None \<Rightarrow> write_joystick_loop snap connection (i + 1) n found 8 out_flags
         | Some t \<Rightarrow>
             if \<not> found then write_joystick_loop snap connection (i + 1) n True t out_flags
             else write_joystick_loop snap connection (i + 1) n found type (out_flags OR FLAG_SNAPSHOT_MINOR_INFO_LOSS)) }
      else write_joystick_loop snap connection (i + 1) n found type out_flags) }"

definition write_joystick :: "int \<Rightarrow> libspectrum_snap \<Rightarrow> int \<Rightarrow> (byte \<times> int) option" where
  "write_joystick out_flags snap connection =
     write_joystick_loop snap connection 0 (unat (snap_joystick_active_count snap)) False 8 out_flags"

definition write_joy_chunk :: "(nat \<Rightarrow> byte) \<Rightarrow> int \<Rightarrow> libspectrum_snap \<Rightarrow> szx_out \<Rightarrow> (int \<times> szx_out) option" where
  "write_joy_chunk junk out_flags snap out = do {
     list \<leftarrow> copy_out (snap_joystick_list snap) 0 (unat (snap_joystick_active_count snap));
     (type1, out_flags) \<leftarrow> write_joystick out_flags snap JOYSTICK_INPUT_JOYSTICK_1;
     (type2, out_flags) \<leftarrow> write_joystick out_flags snap JOYSTICK_INPUT_JOYSTICK_2;
     out \<leftarrow> szx_put_chunk junk ''JOY''
       [Put_dword (flag_if (JOYSTICK_KEMPSTON \<in> set list) ZXSTJOYF_ALWAYSPORT31), Put_byte type1, Put_byte type2] out;
     Some (out_flags, out) }"

definition write_amxm_chunk :: "(nat \<Rightarrow> byte) \<Rightarrow> libspectrum_snap \<Rightarrow> szx_out \<Rightarrow> szx_out option" where
  "write_amxm_chunk junk snap =
     szx_put_chunk junk ''AMXM''
       (Put_byte (if snap_kempston_mouse_active snap \<noteq> 0 then 2 else 0) # replicate 6 (Put_byte 0))"

definition write_keyb_chunk :: "(nat \<Rightarrow> byte) \<Rightarrow> int \<Rightarrow> libspectrum_snap \<Rightarrow> szx_out \<Rightarrow> (int \<times> szx_out) option" where
  "write_keyb_chunk junk out_flags snap out = do {
     (type, out_flags) \<leftarrow> write_joystick out_flags snap JOYSTICK_INPUT_KEYBOARD;
     out \<leftarrow> szx_put_chunk junk ''KEYB'' [Put_dword (flag_if (snap_issue2 snap \<noteq> 0) ZXSTKF_ISSUE2), Put_byte type] out;
     Some (out_flags, out) }"

definition write_zxpr_chunk :: "(nat \<Rightarrow> byte) \<Rightarrow> libspectrum_snap \<Rightarrow> szx_out \<Rightarrow> szx_out option" where
  "write_zxpr_chunk junk snap =
     szx_put_chunk junk ''ZXPR'' [Put_word (flag_if (snap_zx_printer_active snap \<noteq> 0) ZXSTPRF_ENABLED)]"

definition write_ay_chunk :: "(nat \<Rightarrow> byte) \<Rightarrow> libspectrum_snap \<Rightarrow> szx_out \<Rightarrow> szx_out option" where
  "write_ay_chunk junk snap out = do {
     regs \<leftarrow> copy_out (snap_ay_registers snap) 0 16;
     szx_put_chunk junk ''AY''
       ([Put_byte (flag_if (snap_fuller_box_active snap \<noteq> 0) ZXSTAYF_FULLERBOX OR
           flag_if (snap_melodik_active snap \<noteq> 0) ZXSTAYF_128AY),
         Put_byte (snap_out_ay_registerport snap)] @ map Put_byte regs) out }"

definition write_scld_chunk :: "(nat \<Rightarrow> byte) \<Rightarrow> libspectrum_snap \<Rightarrow> szx_out \<Rightarrow> szx_out option" where
  "write_scld_chunk junk snap =
     szx_put_chunk junk ''SCLD'' [Put_byte (snap_out_scld_hsr snap), Put_byte (snap_out_scld_dec snap)]"

definition write_zxat_chunk :: "(nat \<Rightarrow> byte) \<Rightarrow> libspectrum_snap \<Rightarrow> szx_out \<Rightarrow> szx_out option" where
  "write_zxat_chunk junk snap =
     szx_put_chunk junk ''ZXAT''
       [Put_word (flag_if (snap_zxatasp_upload snap \<noteq> 0) ZXSTZXATF_UPLOAD OR
          flag_if (snap_zxatasp_writeprotect snap \<noteq> 0) ZXSTZXATF_WRITEPROTECT),
        Put_byte (snap_zxatasp_port_a snap), Put_byte (snap_zxatasp_port_b snap), Put_byte (snap_zxatasp_port_c snap),
        Put_byte (snap_zxatasp_control snap), Put_byte (ucast (snap_zxatasp_pages snap)),
        Put_byte (ucast (snap_zxatasp_current_page snap))]"

definition write_zxcf_chunk :: "(nat \<Rightarrow> byte) \<Rightarrow> libspectrum_snap \<Rightarrow> szx_out \<Rightarrow> szx_out option" where
  "write_zxcf_chunk junk snap =
     szx_put_chunk junk ''ZXCF''
       [Put_word (flag_if (snap_zxcf_upload snap \<noteq> 0) ZXSTZXCFF_UPLOAD), Put_byte (snap_zxcf_memctl snap),
        Put_byte (ucast (snap_zxcf_pages snap))]"

definition write_side_chunk :: "(nat \<Rightarrow> byte) \<Rightarrow> szx_out \<Rightarrow> szx_out option" where
  "write_side_chunk junk = szx_put_empty junk ''SIDE''"

definition write_drum_chunk :: "(nat \<Rightarrow> byte) \<Rightarrow> libspectrum_snap \<Rightarrow> szx_out \<Rightarrow> szx_out option" where
  "write_drum_chunk junk snap = szx_put_chunk junk ''DRUM'' [Put_byte (snap_specdrum_dac snap + 128)]"

definition write_covx_chunk :: "(nat \<Rightarrow> byte) \<Rightarrow> libspectrum_snap \<Rightarrow> szx_out \<Rightarrow> szx_out option" where
  "write_covx_chunk junk snap =
     szx_put_chunk junk ''COVX'' [Put_byte (snap_covox_dac snap), Put_byte 0, Put_byte 0, Put_byte 0]"

definition write_pltt_chunk :: "(nat \<Rightarrow> byte) \<Rightarrow> libspectrum_snap \<Rightarrow> szx_out \<Rightarrow> szx_out option" where
  "write_pltt_chunk junk snap =
     szx_put_chunk junk ''PLTT''
       [Put_byte (flag_if (snap_ulaplus_palette_enabled snap \<noteq> 0) ZXSTPALETTE_ENABLED),
        Put_byte (snap_ulaplus_current_register snap),
        Put_data (case snap_ulaplus_palette snap of None \<Rightarrow> [] | Some p \<Rightarrow> p) 64,
        Put_byte (snap_ulaplus_ff_register snap)]"

definition write_zmmc_chunk :: "(nat \<Rightarrow> byte) \<Rightarrow> szx_out \<Rightarrow> szx_out option" where
  "write_zmmc_chunk junk = szx_put_empty junk ''ZMMC''"

definition write_snet_chunk :: "(nat \<Rightarrow> byte) \<Rightarrow> libspectrum_snap \<Rightarrow> szx_out \<Rightarrow> szx_out option" where
  "write_snet_chunk junk snap =
     szx_put_chunk junk ''SNET''
       [Put_word (flag_if (snap_spectranet_paged snap \<noteq> 0) ZXSTSNET_PAGED OR
          flag_if (snap_spectranet_paged_via_io snap \<noteq> 0) ZXSTSNET_PAGED_VIA_IO OR
          flag_if (snap_spectranet_programmable_trap_active snap \<noteq> 0) ZXSTSNET_PROGRAMMABLE_TRAP_ACTIVE OR
          flag_if (snap_spectranet_programmable_trap_msb snap \<noteq> 0) ZXSTSNET_PROGRAMMABLE_TRAP_MSB OR
          flag_if (snap_spectranet_all_traps_disabled snap \<noteq> 0) ZXSTSNET_ALL_DISABLED OR
          flag_if (snap_spectranet_rst8_trap_disabled snap \<noteq> 0) ZXSTSNET_RST8_DISABLED OR
          flag_if (snap_spectranet_deny_downstream_a15 snap \<noteq> 0) ZXSTSNET_DENY_DOWNSTREAM_A15 OR
          flag_if (snap_spectranet_nmi_flipflop snap \<noteq> 0) ZXSTSNET_NMI_FLIPFLOP),
        Put_byte (of_int (snap_spectranet_page_a snap)), Put_byte (of_int (snap_spectranet_page_b snap)),
        Put_word (snap_spectranet_programmable_trap snap),
        Put_data (case snap_spectranet_w5100 snap of None \<Rightarrow> [] | Some w \<Rightarrow> w) 0x30]"

section \<open>Memory\<close>

definition write_ram_page ::
    "(nat \<Rightarrow> byte) \<Rightarrow> 's zlib \<Rightarrow> string \<Rightarrow> byte list option \<Rightarrow> size_t \<Rightarrow> nat \<Rightarrow> int \<Rightarrow> lword \<Rightarrow> szx_out \<Rightarrow> szx_out option" where
  "write_ram_page junk z cid data data_length page compress extra_flags out =
     (case data of
        None \<Rightarrow> Some out
      | Some d \<Rightarrow> do {
          (data_buffer, use_compression) \<leftarrow> compress_data junk z (libspectrum_buffer_alloc junk) (Some d) data_length compress;
          szx_put_chunk junk cid
            [Put_word (extra_flags OR flag_if use_compression ZXSTRF_COMPRESSED), Put_byte (of_nat page),
             Put_buffer data_buffer] out })"

definition write_ramp_chunk :: "(nat \<Rightarrow> byte) \<Rightarrow> 's zlib \<Rightarrow> libspectrum_snap \<Rightarrow> int \<Rightarrow> nat \<Rightarrow> szx_out \<Rightarrow> szx_out option" where
  "write_ramp_chunk junk z snap compress page out = do {
     data \<leftarrow> libspectrum_snap_pages snap page;
     write_ram_page junk z ''RAMP'' data 0x4000 page compress 0 out }"

definition write_atrp_chunk :: "(nat \<Rightarrow> byte) \<Rightarrow> 's zlib \<Rightarrow> libspectrum_snap \<Rightarrow> int \<Rightarrow> nat \<Rightarrow> szx_out \<Rightarrow> szx_out option" where
  "write_atrp_chunk junk z snap compress page out = do {
     data \<leftarrow> nget (snap_zxatasp_ram snap) page;
     write_ram_page junk z ''ATRP'' data 0x4000 page compress 0 out }"

definition write_cfrp_chunk :: "(nat \<Rightarrow> byte) \<Rightarrow> 's zlib \<Rightarrow> libspectrum_snap \<Rightarrow> int \<Rightarrow> nat \<Rightarrow> szx_out \<Rightarrow> szx_out option" where
  "write_cfrp_chunk junk z snap compress page out = do {
     data \<leftarrow> nget (snap_zxcf_ram snap) page;
     write_ram_page junk z ''CFRP'' data 0x4000 page compress 0 out }"

definition write_dirp_chunk :: "(nat \<Rightarrow> byte) \<Rightarrow> 's zlib \<Rightarrow> libspectrum_snap \<Rightarrow> int \<Rightarrow> nat \<Rightarrow> szx_out \<Rightarrow> szx_out option" where
  "write_dirp_chunk junk z snap compress page out = do {
     data \<leftarrow> nget (snap_divide_ram snap) page;
     write_ram_page junk z ''DIRP'' data 0x2000 page compress 0 out }"

definition write_dmrp_chunk :: "(nat \<Rightarrow> byte) \<Rightarrow> 's zlib \<Rightarrow> libspectrum_snap \<Rightarrow> int \<Rightarrow> nat \<Rightarrow> szx_out \<Rightarrow> szx_out option" where
  "write_dmrp_chunk junk z snap compress page out = do {
     data \<leftarrow> nget (snap_divmmc_ram snap) page;
     write_ram_page junk z ''DMRP'' data 0x2000 page compress 0 out }"

definition write_dock_chunk ::
    "(nat \<Rightarrow> byte) \<Rightarrow> 's zlib \<Rightarrow> bool \<Rightarrow> byte list option \<Rightarrow> nat \<Rightarrow> byte \<Rightarrow> int \<Rightarrow> szx_out \<Rightarrow> szx_out option" where
  "write_dock_chunk junk z exrom_dock data page writeable compress out =
     write_ram_page junk z ''DOCK'' data 0x2000 page compress
       (flag_if (writeable \<noteq> 0) ZXSTDOCKF_RAM OR flag_if exrom_dock ZXSTDOCKF_EXROMDOCK) out"

text \<open>A loop that calls one of these writers.\<close>

fun write_each :: "(nat \<Rightarrow> szx_out \<Rightarrow> szx_out option) \<Rightarrow> nat list \<Rightarrow> szx_out \<Rightarrow> szx_out option" where
  "write_each f [] out = Some out"
| "write_each f (i # is) out = f i out \<bind> write_each f is"

definition szx_page_list :: "libspectrum_machine \<Rightarrow> nat list" where
  "szx_page_list machine =
     (let capabilities = libspectrum_machine_capabilities machine
      in [5] @ (if machine \<noteq> MACHINE_16 then [2, 0] else []) @
         (if capabilities AND MACHINE_CAPABILITY_128_MEMORY \<noteq> 0 then
            [1, 3, 4, 6, 7] @
            (if capabilities AND MACHINE_CAPABILITY_SCORP_MEMORY \<noteq> 0 then [8..<16]
             else if capabilities AND MACHINE_CAPABILITY_PENT512_MEMORY \<noteq> 0 then
               [8..<32] @ (if capabilities AND MACHINE_CAPABILITY_PENT1024_MEMORY \<noteq> 0 then [32..<64] else [])
             else [])
          else []) @
         (if capabilities AND MACHINE_CAPABILITY_SE_MEMORY \<noteq> 0 then [8] else []))"

definition write_ram_pages :: "(nat \<Rightarrow> byte) \<Rightarrow> 's zlib \<Rightarrow> libspectrum_snap \<Rightarrow> int \<Rightarrow> szx_out \<Rightarrow> szx_out option" where
  "write_ram_pages junk z snap compress = write_each (write_ramp_chunk junk z snap compress) (szx_page_list (snap_machine snap))"

text \<open>The number of ROMs of a machine and their length together.\<close>

definition szx_expected_roms :: "libspectrum_machine \<Rightarrow> (size_t \<times> nat) option" where
  "szx_expected_roms machine =
     (if machine \<in> set [MACHINE_16, MACHINE_48, MACHINE_48_NTSC, MACHINE_TC2048] then Some (1, 0x4000)
      else if machine \<in> set [MACHINE_128, MACHINE_128E, MACHINE_PENT, MACHINE_PLUS2, MACHINE_SE] then Some (2, 0x8000)
      else if machine \<in> set [MACHINE_PLUS2A, MACHINE_PLUS3, MACHINE_PLUS3E] then Some (4, 0x10000)
      else if machine \<in> set [MACHINE_PENT512, MACHINE_PENT1024] then Some (3, 0xc000)
      else if machine \<in> set [MACHINE_TC2068, MACHINE_TS2068] then Some (2, 0x6000)
      else if machine = MACHINE_SCORP then Some (4, 0x10000)
      else None)"

text \<open>The ROMs from \<open>i\<close> on, with \<open>n\<close> left.\<close>

fun write_roms :: "(nat \<Rightarrow> byte) \<Rightarrow> libspectrum_snap \<Rightarrow> nat \<Rightarrow> nat \<Rightarrow> lbuffer \<Rightarrow> lbuffer option" where
  "write_roms junk snap i 0 b = Some b"
| "write_roms junk snap i (Suc n) b = do {
     rom \<leftarrow> nget (snap_roms snap) i;
     len \<leftarrow> nget (snap_rom_length snap) i;
     b \<leftarrow> libspectrum_buffer_write junk b (case rom of None \<Rightarrow> [] | Some r \<Rightarrow> r) len;
     write_roms junk snap (i + 1) n b }"

definition write_rom_chunk ::
    "(nat \<Rightarrow> byte) \<Rightarrow> 's zlib \<Rightarrow> int \<Rightarrow> libspectrum_snap \<Rightarrow> int \<Rightarrow> szx_out \<Rightarrow> (int \<times> szx_out) c_result" where
  "write_rom_chunk junk z out_flags snap compress out = do {
     let pages = snap_custom_rom_pages snap;
     lens \<leftarrow> copy_out (snap_rom_length snap) 0 (unat pages);
     (case szx_expected_roms (snap_machine snap) of
        None \<Rightarrow> Some (ERROR_LOGIC, out_flags, out)
      | Some (n, all_length) \<Rightarrow>
          if pages \<noteq> n \<or> sum_list lens \<noteq> of_nat all_length
          then Some (ERROR_NONE, out_flags OR FLAG_SNAPSHOT_MAJOR_INFO_LOSS, out)
          else do {
            data \<leftarrow> write_roms junk snap 0 (unat pages) (libspectrum_buffer_alloc junk);
            (rom_buffer, use_compression) \<leftarrow> compress_data junk z (libspectrum_buffer_alloc junk)
              (libspectrum_buffer_get_data (Some data)) (libspectrum_buffer_get_data_size (Some data)) compress;
            out \<leftarrow> szx_put_chunk junk ''ROM''
              [Put_word (flag_if use_compression ZXSTRF_COMPRESSED),
               Put_dword (ucast (libspectrum_buffer_get_data_size (Some data))), Put_buffer rom_buffer] out;
            Some (ERROR_NONE, out_flags, out) }) }"

section \<open>Interfaces with memory\<close>

definition write_b128_chunk :: "(nat \<Rightarrow> byte) \<Rightarrow> 's zlib \<Rightarrow> libspectrum_snap \<Rightarrow> int \<Rightarrow> szx_out \<Rightarrow> szx_out option" where
  "write_b128_chunk junk z snap compress out = do {
     (rom_buffer, use_compression) \<leftarrow>
       (if snap_beta_custom_rom snap \<noteq> 0 then
          compress_data junk z (libspectrum_buffer_alloc junk) (snap_beta_rom snap) 0x4000 compress
        else Some (libspectrum_buffer_alloc junk, False));
     szx_put_chunk junk ''B128''
       ([Put_dword (ZXSTBETAF_CONNECTED OR flag_if (snap_beta_paged snap \<noteq> 0) ZXSTBETAF_PAGED OR
           flag_if (snap_beta_autoboot snap \<noteq> 0) ZXSTBETAF_AUTOBOOT OR
           flag_if (snap_beta_direction snap = 0) ZXSTBETAF_SEEKLOWER OR
           flag_if (snap_beta_custom_rom snap \<noteq> 0) ZXSTBETAF_CUSTOMROM OR
           flag_if use_compression ZXSTBETAF_COMPRESSED),
         Put_byte (of_int (snap_beta_drive_count snap)), Put_byte (snap_beta_system snap), Put_byte (snap_beta_track snap),
         Put_byte (snap_beta_sector snap), Put_byte (snap_beta_data snap), Put_byte (snap_beta_status snap)] @
        (if snap_beta_custom_rom snap \<noteq> 0 \<and> snap_beta_rom snap \<noteq> None then [Put_buffer rom_buffer] else [])) out }"

definition write_if1_chunk :: "(nat \<Rightarrow> byte) \<Rightarrow> 's zlib \<Rightarrow> libspectrum_snap \<Rightarrow> int \<Rightarrow> szx_out \<Rightarrow> szx_out c_result" where
  "write_if1_chunk junk z snap compress out =
     (let custom = snap_interface1_custom_rom snap \<noteq> 0;
          rom_data = (if custom then snap_interface1_rom snap else None);
          rom_length = (if custom then snap_interface1_rom_length snap else 0)
      in if custom \<and> rom_length \<noteq> 0x2000 \<and> rom_length \<noteq> 0x4000 then Some (ERROR_LOGIC, out)
         else if custom \<and> rom_data = None then Some (ERROR_LOGIC, out)
         else do {
           (rom_buffer, use_compression) \<leftarrow>
             compress_data junk z (libspectrum_buffer_alloc junk) rom_data rom_length compress;
           out \<leftarrow> szx_put_chunk junk ''IF1''
             ([Put_word (ZXSTIF1F_ENABLED OR flag_if (snap_interface1_paged snap \<noteq> 0) ZXSTIF1F_PAGED OR
                 flag_if use_compression ZXSTIF1F_COMPRESSED),
               Put_byte (if snap_interface1_drive_count snap \<noteq> 0 then of_int (snap_interface1_drive_count snap) else 8)] @
              replicate 3 (Put_byte 0) @ replicate 8 (Put_dword 0) @ [Put_word (ucast rom_length)] @
              (if custom \<and> libspectrum_buffer_is_not_empty rom_buffer then [Put_buffer rom_buffer] else [])) out;
           Some (ERROR_NONE, out) })"

text \<open>
  The ROM and the RAM of the Opus Discovery and the +D in buffers, and whether both are deflated,
  as there is only one flag for both.
\<close>

definition szx_disk_memory ::
    "(nat \<Rightarrow> byte) \<Rightarrow> 's zlib \<Rightarrow> byte list \<Rightarrow> size_t \<Rightarrow> byte list option \<Rightarrow> size_t \<Rightarrow> int \<Rightarrow> (lbuffer \<times> lbuffer \<times> bool) option" where
  "szx_disk_memory junk z rom_data disk_rom_length ram_data disk_ram_length compress = do {
     (rom_buffer, rom_compression) \<leftarrow>
       compress_data junk z (libspectrum_buffer_alloc junk) (Some rom_data) disk_rom_length compress;
     (ram_buffer, ram_compression) \<leftarrow>
       compress_data junk z (libspectrum_buffer_alloc junk) ram_data disk_ram_length compress;
     (if compress \<noteq> 0 \<and> \<not> (rom_compression \<and> ram_compression) then do {
        rom_buffer \<leftarrow> libspectrum_buffer_clear (Some rom_buffer);
        rom_buffer \<leftarrow> libspectrum_buffer_write junk rom_buffer rom_data disk_rom_length;
        ram_buffer \<leftarrow> libspectrum_buffer_clear (Some ram_buffer);
        ram_buffer \<leftarrow> libspectrum_buffer_write junk ram_buffer (case ram_data of None \<Rightarrow> [] | Some r \<Rightarrow> r) disk_ram_length;
        Some (rom_buffer, ram_buffer, False) }
      else Some (rom_buffer, ram_buffer, rom_compression \<and> ram_compression)) }"

definition write_opus_chunk :: "(nat \<Rightarrow> byte) \<Rightarrow> 's zlib \<Rightarrow> libspectrum_snap \<Rightarrow> int \<Rightarrow> szx_out \<Rightarrow> szx_out c_result" where
  "write_opus_chunk junk z snap compress out =
     (case snap_opus_rom snap of
        None \<Rightarrow> Some (ERROR_LOGIC, out)
      | Some rom_data \<Rightarrow> do {
          (rom_buffer, ram_buffer, both) \<leftarrow> szx_disk_memory junk z rom_data 0x2000 (snap_opus_ram snap) 0x800 compress;
          let custom = snap_opus_custom_rom snap \<noteq> 0;
          out \<leftarrow> szx_put_chunk junk ''OPUS''
            ([Put_dword (flag_if (snap_opus_paged snap \<noteq> 0) ZXSTOPUSF_PAGED OR flag_if both ZXSTOPUSF_COMPRESSED OR
                flag_if (snap_opus_direction snap = 0) ZXSTOPUSF_SEEKLOWER OR flag_if custom ZXSTOPUSF_CUSTOMROM),
              Put_dword (ucast (libspectrum_buffer_get_data_size (Some ram_buffer))),
              Put_dword (if custom then ucast (libspectrum_buffer_get_data_size (Some rom_buffer)) else 0),
              Put_byte (snap_opus_control_a snap), Put_byte (snap_opus_data_reg_a snap), Put_byte (snap_opus_data_dir_a snap),
              Put_byte (snap_opus_control_b snap), Put_byte (snap_opus_data_reg_b snap), Put_byte (snap_opus_data_dir_b snap),
              Put_byte (of_int (snap_opus_drive_count snap)), Put_byte (snap_opus_track snap),
              Put_byte (snap_opus_sector snap), Put_byte (snap_opus_data snap), Put_byte (snap_opus_status snap),
              Put_buffer ram_buffer] @ (if custom then [Put_buffer rom_buffer] else [])) out;
          Some (ERROR_NONE, out) })"

definition write_plsd_chunk :: "(nat \<Rightarrow> byte) \<Rightarrow> 's zlib \<Rightarrow> libspectrum_snap \<Rightarrow> int \<Rightarrow> szx_out \<Rightarrow> szx_out c_result" where
  "write_plsd_chunk junk z snap compress out =
     (case snap_plusd_rom snap of
        None \<Rightarrow> Some (ERROR_LOGIC, out)
      | Some rom_data \<Rightarrow> do {
          (rom_buffer, ram_buffer, both) \<leftarrow> szx_disk_memory junk z rom_data 0x2000 (snap_plusd_ram snap) 0x2000 compress;
          let custom = snap_plusd_custom_rom snap \<noteq> 0;
          out \<leftarrow> szx_put_chunk junk ''PLSD''
            ([Put_dword (flag_if (snap_plusd_paged snap \<noteq> 0) ZXSTPLUSDF_PAGED OR flag_if both ZXSTPLUSDF_COMPRESSED OR
                flag_if (snap_plusd_direction snap = 0) ZXSTPLUSDF_SEEKLOWER),
              Put_dword (ucast (libspectrum_buffer_get_data_size (Some ram_buffer))),
              Put_dword (if custom then ucast (libspectrum_buffer_get_data_size (Some rom_buffer)) else 0),
              Put_byte (if custom then ZXSTPDRT_CUSTOM else ZXSTPDRT_GDOS),
              Put_byte (snap_plusd_control snap), Put_byte (of_int (snap_plusd_drive_count snap)),
              Put_byte (snap_plusd_track snap), Put_byte (snap_plusd_sector snap), Put_byte (snap_plusd_data snap),
              Put_byte (snap_plusd_status snap), Put_buffer ram_buffer] @
             (if custom then [Put_buffer rom_buffer] else [])) out;
          Some (ERROR_NONE, out) })"

definition write_if2r_chunk :: "(nat \<Rightarrow> byte) \<Rightarrow> 's zlib \<Rightarrow> libspectrum_snap \<Rightarrow> szx_out \<Rightarrow> szx_out c_result" where
  "write_if2r_chunk junk z snap out = do {
     rom \<leftarrow> snap_interface2_rom snap;
     data \<leftarrow> copy_out rom 0 0x4000;
     let (error, compressed_data) = libspectrum_zlib_compress z data;
     (if error \<noteq> ERROR_NONE then Some (error, out)
      else do {
        out \<leftarrow> szx_put_chunk junk ''IF2R''
          [Put_dword (of_nat (length compressed_data)), Put_data compressed_data (of_nat (length compressed_data))] out;
        Some (ERROR_NONE, out) }) }"

definition write_divxxx_chunk ::
    "(nat \<Rightarrow> byte) \<Rightarrow> 's zlib \<Rightarrow> int \<Rightarrow> string \<Rightarrow> byte list option \<Rightarrow> int \<Rightarrow> lword \<Rightarrow> int \<Rightarrow> lword \<Rightarrow> lword \<Rightarrow> byte \<Rightarrow> size_t \<Rightarrow>
     szx_out \<Rightarrow> szx_out c_result" where
  "write_divxxx_chunk junk z compress cid eprom eprom_wp eprom_wp_flag paged paged_flag compressed_flag control page_count out =
     (case eprom of
        None \<Rightarrow> Some (ERROR_LOGIC, out)
      | Some eprom_data \<Rightarrow> do {
          (eprom_buffer, use_compression) \<leftarrow>
            compress_data junk z (libspectrum_buffer_alloc junk) (Some eprom_data) 0x2000 compress;
          out \<leftarrow> szx_put_chunk junk cid
            [Put_word (flag_if (eprom_wp \<noteq> 0) eprom_wp_flag OR flag_if (paged \<noteq> 0) paged_flag OR
               flag_if use_compression compressed_flag),
             Put_byte control, Put_byte (ucast page_count), Put_buffer eprom_buffer] out;
          Some (ERROR_NONE, out) })"

definition write_dide_chunk :: "(nat \<Rightarrow> byte) \<Rightarrow> 's zlib \<Rightarrow> libspectrum_snap \<Rightarrow> int \<Rightarrow> szx_out \<Rightarrow> szx_out c_result" where
  "write_dide_chunk junk z snap compress =
     write_divxxx_chunk junk z compress ''DIDE'' (snap_divide_eprom snap) (snap_divide_eprom_writeprotect snap)
       ZXSTDIVIDE_EPROM_WRITEPROTECT (snap_divide_paged snap) ZXSTDIVIDE_PAGED ZXSTDIVIDE_COMPRESSED
       (snap_divide_control snap) (snap_divide_pages snap)"

definition write_dmmc_chunk :: "(nat \<Rightarrow> byte) \<Rightarrow> 's zlib \<Rightarrow> libspectrum_snap \<Rightarrow> int \<Rightarrow> szx_out \<Rightarrow> szx_out c_result" where
  "write_dmmc_chunk junk z snap compress =
     write_divxxx_chunk junk z compress ''DMMC'' (snap_divmmc_eprom snap) (snap_divmmc_eprom_writeprotect snap)
       ZXSTDIVMMC_EPROM_WRITEPROTECT (snap_divmmc_paged snap) ZXSTDIVMMC_PAGED ZXSTDIVMMC_COMPRESSED
       (snap_divmmc_control snap) (snap_divmmc_pages snap)"

text \<open>The flash memory and the RAM of the Spectranet.\<close>

definition szx_write_snet_memory ::
    "(nat \<Rightarrow> byte) \<Rightarrow> 's zlib \<Rightarrow> string \<Rightarrow> byte list option \<Rightarrow> byte \<Rightarrow> int \<Rightarrow> szx_out \<Rightarrow> szx_out option" where
  "szx_write_snet_memory junk z cid memory compressed_flag compress out = do {
     (m, compressed) \<leftarrow> compress_data junk z (libspectrum_buffer_alloc junk) memory 0x20000 compress;
     szx_put_chunk junk cid
       [Put_byte (flag_if compressed compressed_flag), Put_dword (ucast (libspectrum_buffer_get_data_size (Some m))),
        Put_buffer m] out }"

definition write_snef_chunk :: "(nat \<Rightarrow> byte) \<Rightarrow> 's zlib \<Rightarrow> libspectrum_snap \<Rightarrow> int \<Rightarrow> szx_out \<Rightarrow> szx_out option" where
  "write_snef_chunk junk z snap =
     szx_write_snet_memory junk z ''SNEF'' (snap_spectranet_flash snap) ZXSTSNEF_FLASH_COMPRESSED"

definition write_sner_chunk :: "(nat \<Rightarrow> byte) \<Rightarrow> 's zlib \<Rightarrow> libspectrum_snap \<Rightarrow> int \<Rightarrow> szx_out \<Rightarrow> szx_out option" where
  "write_sner_chunk junk z snap =
     szx_write_snet_memory junk z ''SNER'' (snap_spectranet_ram snap) ZXSTSNER_RAM_COMPRESSED"

definition write_mfce_chunk :: "(nat \<Rightarrow> byte) \<Rightarrow> 's zlib \<Rightarrow> libspectrum_snap \<Rightarrow> int \<Rightarrow> szx_out \<Rightarrow> szx_out c_result" where
  "write_mfce_chunk junk z snap compress out =
     (let ram_length = snap_multiface_ram_length snap
      in if ram_length \<noteq> 0x2000 \<and> ram_length \<noteq> 0x4000 then Some (ERROR_LOGIC, out)
         else if snap_multiface_ram snap = None then Some (ERROR_LOGIC, out)
         else do {
           (ram_buffer, use_compression) \<leftarrow>
             compress_data junk z (libspectrum_buffer_alloc junk) (snap_multiface_ram snap) ram_length compress;
           out \<leftarrow> szx_put_chunk junk ''MFCE''
             [Put_byte (if snap_multiface_model_one snap \<noteq> 0 then ZXSTMFM_1 else ZXSTMFM_128),
              Put_byte (flag_if (snap_multiface_paged snap \<noteq> 0) ZXSTMF_PAGEDIN OR flag_if use_compression ZXSTMF_COMPRESSED OR
                flag_if (snap_multiface_software_lockout snap \<noteq> 0) ZXSTMF_SOFTWARELOCKOUT OR
                flag_if (snap_multiface_red_button_disabled snap \<noteq> 0) ZXSTMF_REDBUTTONDISABLED OR
                flag_if (snap_multiface_disabled snap \<noteq> 0) ZXSTMF_DISABLED OR
                flag_if (ram_length = 0x4000) ZXSTMF_16KRAMMODE),
              Put_buffer ram_buffer] out;
           Some (ERROR_NONE, out) })"

section \<open>Files\<close>

text \<open>A step that is taken if the condition holds.\<close>

definition write_if :: "bool \<Rightarrow> (szx_out \<Rightarrow> szx_out option) \<Rightarrow> szx_out \<Rightarrow> szx_out c_result" where
  "write_if c f out = (if c then map_option (Pair ERROR_NONE) (f out) else Some (ERROR_NONE, out))"

definition write_or_fail :: "bool \<Rightarrow> (szx_out \<Rightarrow> szx_out c_result) \<Rightarrow> szx_out \<Rightarrow> szx_out c_result" where
  "write_or_fail c f out = (if c then f out else Some (ERROR_NONE, out))"

text \<open>The steps, up to the first that fails.\<close>

fun write_steps :: "(szx_out \<Rightarrow> szx_out c_result) list \<Rightarrow> szx_out \<Rightarrow> szx_out c_result" where
  "write_steps [] out = Some (ERROR_NONE, out)"
| "write_steps (f # fs) out = on_ok (f out) (write_steps fs)"

definition write_dock_pages :: "(nat \<Rightarrow> byte) \<Rightarrow> 's zlib \<Rightarrow> libspectrum_snap \<Rightarrow> int \<Rightarrow> nat \<Rightarrow> szx_out \<Rightarrow> szx_out option" where
  "write_dock_pages junk z snap compress i out = do {
     exrom \<leftarrow> nget (snap_exrom_cart snap) i; exrom_ram \<leftarrow> nget (snap_exrom_ram snap) i;
     dock \<leftarrow> nget (snap_dock_cart snap) i; dock_ram \<leftarrow> nget (snap_dock_ram snap) i;
     out \<leftarrow> write_dock_chunk junk z False exrom i exrom_ram compress out;
     write_dock_chunk junk z True dock i dock_ram compress out }"

text \<open>All chunks after the ROM; the compiled configuration has zlib, so that the Interface 2 ROM is written.\<close>

definition szx_device_steps :: "(nat \<Rightarrow> byte) \<Rightarrow> 's zlib \<Rightarrow> libspectrum_snap \<Rightarrow> int \<Rightarrow> (szx_out \<Rightarrow> szx_out c_result) list" where
  "szx_device_steps junk z snap compress =
     (let capabilities = libspectrum_machine_capabilities (snap_machine snap)
      in [write_if True (write_ram_pages junk z snap compress),
          write_if (snap_fuller_box_active snap \<noteq> 0 \<or> snap_melodik_active snap \<noteq> 0 \<or>
              capabilities AND MACHINE_CAPABILITY_AY \<noteq> 0) (write_ay_chunk junk snap),
          write_if (capabilities AND (MACHINE_CAPABILITY_TIMEX_MEMORY OR MACHINE_CAPABILITY_SE_MEMORY) \<noteq> 0)
            (write_scld_chunk junk snap),
          write_if (snap_beta_active snap \<noteq> 0) (write_b128_chunk junk z snap compress),
          write_if (snap_zxatasp_active snap \<noteq> 0) (write_zxat_chunk junk snap),
          write_if (snap_zxatasp_active snap \<noteq> 0)
            (write_each (write_atrp_chunk junk z snap compress) [0..<unat (snap_zxatasp_pages snap)]),
          write_if (snap_zxcf_active snap \<noteq> 0) (write_zxcf_chunk junk snap),
          write_if (snap_zxcf_active snap \<noteq> 0)
            (write_each (write_cfrp_chunk junk z snap compress) [0..<unat (snap_zxcf_pages snap)]),
          write_or_fail (snap_interface2_active snap \<noteq> 0) (write_if2r_chunk junk z snap),
          write_if (snap_dock_active snap \<noteq> 0) (write_each (write_dock_pages junk z snap compress) [0..<8]),
          write_or_fail (snap_interface1_active snap \<noteq> 0) (write_if1_chunk junk z snap compress),
          write_or_fail (snap_opus_active snap \<noteq> 0) (write_opus_chunk junk z snap compress),
          write_or_fail (snap_plusd_active snap \<noteq> 0) (write_plsd_chunk junk z snap compress),
          write_if (snap_kempston_mouse_active snap \<noteq> 0) (write_amxm_chunk junk snap),
          write_if (snap_simpleide_active snap \<noteq> 0) (write_side_chunk junk),
          write_if (snap_specdrum_active snap \<noteq> 0) (write_drum_chunk junk snap),
          write_or_fail (snap_divide_active snap \<noteq> 0) (write_dide_chunk junk z snap compress),
          write_if (snap_divide_active snap \<noteq> 0)
            (write_each (write_dirp_chunk junk z snap compress) [0..<unat (snap_divide_pages snap)]),
          write_or_fail (snap_divmmc_active snap \<noteq> 0) (write_dmmc_chunk junk z snap compress),
          write_if (snap_divmmc_active snap \<noteq> 0)
            (write_each (write_dmrp_chunk junk z snap compress) [0..<unat (snap_divmmc_pages snap)]),
          write_if (snap_spectranet_active snap \<noteq> 0) (write_snet_chunk junk snap),
          write_if (snap_spectranet_active snap \<noteq> 0) (write_snef_chunk junk z snap compress),
          write_if (snap_spectranet_active snap \<noteq> 0) (write_sner_chunk junk z snap compress),
          write_if True (write_zxpr_chunk junk snap),
          write_if (snap_covox_active snap \<noteq> 0) (write_covx_chunk junk snap),
          write_or_fail (snap_multiface_active snap \<noteq> 0) (write_mfce_chunk junk z snap compress),
          write_if (snap_ulaplus_active snap \<noteq> 0) (write_pltt_chunk junk snap),
          write_if (snap_zxmmc_active snap \<noteq> 0) (write_zmmc_chunk junk)])"

definition libspectrum_szx_write ::
    "(nat \<Rightarrow> byte) \<Rightarrow> 's zlib \<Rightarrow> lbuffer \<Rightarrow> libspectrum_snap \<Rightarrow> libspectrum_creator option \<Rightarrow> int \<Rightarrow>
     (libspectrum_error \<times> int \<times> lbuffer) option" where
  "libspectrum_szx_write junk z b snap creator in_flags = do {
     let out_flags = info_loss FLAG_SNAPSHOT_MAJOR_INFO_LOSS
       [snap_usource_active snap \<noteq> 0, snap_disciple_active snap \<noteq> 0, snap_didaktik80_active snap \<noteq> 0] 0;
     let compress = (if in_flags AND FLAG_SNAPSHOT_NO_COMPRESSION \<noteq> 0 then 0 else 1);
     (error, b) \<leftarrow> szx_write_file_header junk snap b;
     (if error \<noteq> ERROR_NONE then Some (error, out_flags, b)
      else do {
        let out = (b, libspectrum_buffer_alloc junk);
        out \<leftarrow> (case creator of None \<Rightarrow> Some out | Some c \<Rightarrow> write_crtr_chunk junk c out);
        out \<leftarrow> write_z80r_chunk junk snap out;
        out \<leftarrow> write_spcr_chunk junk snap out;
        (out_flags, out) \<leftarrow> write_joy_chunk junk out_flags snap out;
        (out_flags, out) \<leftarrow> write_keyb_chunk junk out_flags snap out;
        (error, out_flags, out) \<leftarrow>
          (if snap_custom_rom snap \<noteq> 0 then write_rom_chunk junk z out_flags snap compress out
           else Some (ERROR_NONE, out_flags, out));
        (if error \<noteq> ERROR_NONE then Some (error, out_flags, fst out)
         else map_option (\<lambda>(error, out). (error, out_flags, fst out))
           (write_steps (szx_device_steps junk z snap compress) out)) }) }"

end
