(* ===== verification/Szx_Format.thy ===== *)
theory Szx_Format
  imports Szx_Write
begin

text \<open>
  What the writer of .szx files writes and what the reader makes of it, chunk by chunk: the bytes of
  the items of a chunk, the contract of zlib, and for every chunk the change of the snapshot that
  reading it causes.
\<close>

section \<open>Writing chunks\<close>

fun item_bytes :: "szx_item \<Rightarrow> byte list" where
  "item_bytes (Put_byte x) = [x]"
| "item_bytes (Put_word x) = word_bytes x"
| "item_bytes (Put_dword x) = dword_bytes x"
| "item_bytes (Put_data d n) = take (unat n) d"
| "item_bytes (Put_buffer m) = contents m"

fun item_ok :: "szx_item \<Rightarrow> bool" where
  "item_ok (Put_data d n) = (unat n \<le> length d)"
| "item_ok (Put_buffer m) = buffer_ok m"
| "item_ok _ = True"

abbreviation "items_bytes items \<equiv> concat (map item_bytes items)"

definition szx_chunk :: "string \<Rightarrow> byte list \<Rightarrow> byte list" where
  "szx_chunk cid data = chunk_id cid @ dword_bytes (of_nat (length data)) @ data"

lemma put_item_bytes: "item_ok x \<Longrightarrow> buf.puts (put_item junk x) (item_bytes x)"
proof -
  assume ok: "item_ok x"
  have "put_item junk x = (case x of
      Put_byte x \<Rightarrow> (\<lambda>b. libspectrum_buffer_write_byte junk b x)
    | Put_word x \<Rightarrow> (\<lambda>b. libspectrum_buffer_write_word junk b x)
    | Put_dword x \<Rightarrow> (\<lambda>b. libspectrum_buffer_write_dword junk b x)
    | Put_data d n \<Rightarrow> (\<lambda>b. libspectrum_buffer_write junk b d n)
    | Put_buffer m \<Rightarrow> (\<lambda>b. libspectrum_buffer_write_buffer junk b (Some m)))"
    by (rule ext) (cases x; simp)
  then show ?thesis
    using ok by (cases x) (simp_all add: puts_byte puts_word puts_dword puts_data puts_buffer)
qed

lemma put_items_bytes: "\<forall>x \<in> set items. item_ok x \<Longrightarrow> buf.puts (put_items junk items) (items_bytes items)"
proof (induction items)
  case Nil
  have "put_items junk [] = Some" by (rule ext) simp
  then show ?case by (simp add: buf.puts_nothing)
next
  case (Cons x items)
  have "put_items junk (x # items) = (\<lambda>b. put_item junk x b \<bind> put_items junk items)" by (rule ext) simp
  then show ?case using Cons by (simp add: buf.puts_seq put_item_bytes)
qed

definition szx_written :: "szx_out \<Rightarrow> byte list" where
  "szx_written out = contents (fst out)"

definition szx_room :: "szx_out \<Rightarrow> nat \<Rightarrow> bool" where
  "szx_room out n \<longleftrightarrow> has_room (fst out) n \<and> buffer_ok (snd out) \<and> contents (snd out) = []"

interpretation szx: byte_sink "\<lambda>out data. map_option (\<lambda>b. (b, snd out)) (libspectrum_buffer_write junk (fst out) data (of_nat (length data)))"
    szx_written szx_room
proof unfold_locales
  fix out n and data :: "byte list"
  assume room: "szx_room out n" and le: "length data \<le> n"
  obtain b' where "libspectrum_buffer_write junk (fst out) data (of_nat (length data)) = Some b'"
    "contents b' = contents (fst out) @ data" "has_room b' (n - length data)"
    using buf.puts_result [OF buf.puts_emit, of "fst out" n data junk] room le by (auto simp: szx_room_def)
  then show "\<exists>out'. map_option (\<lambda>b. (b, snd out)) (libspectrum_buffer_write junk (fst out) data (of_nat (length data))) = Some out' \<and>
      szx_written out' = szx_written out @ data \<and> szx_room out' (n - length data)"
    using room by (auto simp: szx_written_def szx_room_def)
qed

lemma empty_has_room:
  assumes "buffer_ok b" "contents b = []" "n < 2 ^ 63"
  shows "has_room b n"
  using length_contents [OF assms(1)] assms by (simp add: has_room_def)

lemma chunk_id_length: "length s \<le> 4 \<Longrightarrow> length (chunk_id s) = 4"
  by (simp add: chunk_id_def)

lemma length_szx_chunk: "length cid \<le> 4 \<Longrightarrow> length (szx_chunk cid data) = 8 + length data"
  by (simp add: szx_chunk_def chunk_id_length)

lemma cleared_ok: "buffer_ok b \<Longrightarrow> buffer_ok (b\<lparr>bytes_used := 0\<rparr>) \<and> contents (b\<lparr>bytes_used := 0\<rparr>) = []"
  by (auto simp: buffer_ok_def contents_def)

lemma put_chunk_bytes:
  assumes ok: "\<forall>x \<in> set items. item_ok x" and cid: "length cid \<le> 4" and small: "length (items_bytes items) < 2 ^ 32"
  shows "szx.puts (szx_put_chunk junk cid items) (szx_chunk cid (items_bytes items))"
  unfolding szx.puts_def
proof (intro allI impI)
  fix out n
  let ?d = "items_bytes items"
  assume room: "szx_room out n" and le: "length (szx_chunk cid ?d) \<le> n"
  obtain b data where out: "out = (b, data)" by force
  have b: "has_room b n" "buffer_ok data" "contents data = []" using room by (auto simp: szx_room_def out)
  have "has_room data (2 ^ 32)" by (rule empty_has_room [OF b(2,3)]) simp
  then obtain data' where data': "put_items junk items data = Some data'" "contents data' = ?d"
    "has_room data' (2 ^ 32 - length ?d)"
    using buf.puts_result [OF put_items_bytes [OF ok], of data "2 ^ 32" junk] small b(3) by auto
  have ok': "buffer_ok data'" using data'(3) by (simp add: has_room_def)
  have size: "libspectrum_buffer_get_data_size (Some data') = of_nat (length ?d)"
    using length_contents [OF ok'] data'(2) by (simp add: libspectrum_buffer_get_data_size_def)
  have four: "libspectrum_buffer_write junk b (chunk_id cid) 4 = libspectrum_buffer_write junk b (chunk_id cid) (of_nat (length (chunk_id cid)))"
    for b by (simp add: chunk_id_length [OF cid])
  have dw: "(ucast (of_nat (length ?d) :: size_t) :: dword) = of_nat (length ?d)"
    using ucast_low [of "int (length ?d)"] by simp
  have "buf.puts (\<lambda>b. (libspectrum_buffer_write junk b (chunk_id cid) 4 \<bind>
      (\<lambda>b. libspectrum_buffer_write_dword junk b (ucast (libspectrum_buffer_get_data_size (Some data'))))) \<bind>
      (\<lambda>b. libspectrum_buffer_write_buffer junk b (Some data')))
    ((chunk_id cid @ dword_bytes (ucast (libspectrum_buffer_get_data_size (Some data')))) @ ?d)"
    by (intro buf.puts_seq) (simp_all only: four buf.puts_emit puts_dword puts_buffer [OF data'(2) ok'])
  then have "buf.puts (\<lambda>b. (libspectrum_buffer_write junk b (chunk_id cid) 4 \<bind>
      (\<lambda>b. libspectrum_buffer_write_dword junk b (ucast (libspectrum_buffer_get_data_size (Some data'))))) \<bind>
      (\<lambda>b. libspectrum_buffer_write_buffer junk b (Some data'))) (szx_chunk cid ?d)"
    by (simp add: szx_chunk_def size dw)
  from buf.puts_result [OF this b(1) le] obtain b' where
    b': "libspectrum_buffer_write junk b (chunk_id cid) 4 \<bind>
      (\<lambda>b. libspectrum_buffer_write_dword junk b (ucast (libspectrum_buffer_get_data_size (Some data'))) \<bind>
      (\<lambda>b. libspectrum_buffer_write_buffer junk b (Some data'))) = Some b'"
    "contents b' = contents b @ szx_chunk cid ?d" "has_room b' (n - length (szx_chunk cid ?d))"
    by (auto simp: bind_assoc)
  have w: "szx_write_chunk junk cid (Some data') b = Some (b', Some (data'\<lparr>bytes_used := 0\<rparr>))"
    using bind_then [OF b'(1), of "\<lambda>b. Some (b, libspectrum_buffer_clear (Some data'))"]
    by (simp add: szx_write_chunk_def libspectrum_buffer_clear_def bind_assoc)
  show "\<exists>out'. szx_put_chunk junk cid items out = Some out' \<and> szx_written out' = szx_written out @ szx_chunk cid ?d \<and>
      szx_room out' (n - length (szx_chunk cid ?d))"
    using b' cleared_ok [OF ok'] by (simp add: szx_put_chunk_def out data'(1) w szx_written_def szx_room_def)
qed

lemma put_empty_bytes:
  assumes cid: "length cid \<le> 4"
  shows "szx.puts (szx_put_empty junk cid) (szx_chunk cid [])"
  unfolding szx.puts_def
proof (intro allI impI)
  fix out n
  assume room: "szx_room out n" and le: "length (szx_chunk cid []) \<le> n"
  obtain b data where out: "out = (b, data)" by force
  have four: "libspectrum_buffer_write junk b (chunk_id cid) 4 = libspectrum_buffer_write junk b (chunk_id cid) (of_nat (length (chunk_id cid)))"
    for b by (simp add: chunk_id_length [OF cid])
  have "buf.puts (\<lambda>b. libspectrum_buffer_write junk b (chunk_id cid) 4 \<bind>
      (\<lambda>b. libspectrum_buffer_write_dword junk b 0)) (chunk_id cid @ dword_bytes 0)"
    by (intro buf.puts_seq) (simp_all only: four buf.puts_emit puts_dword)
  from buf.puts_result [OF this, of b n] room le obtain b' where
    b': "libspectrum_buffer_write junk b (chunk_id cid) 4 \<bind> (\<lambda>b. libspectrum_buffer_write_dword junk b 0) = Some b'"
    "contents b' = contents b @ szx_chunk cid []" "has_room b' (n - length (szx_chunk cid []))"
    by (auto simp: szx_room_def out szx_chunk_def)
  have "szx_write_chunk junk cid None b = Some (b', None)"
    using bind_then [OF b'(1), of "\<lambda>b. Some (b, None)"]
    by (simp add: szx_write_chunk_def libspectrum_buffer_clear_def libspectrum_buffer_get_data_size_def
        libspectrum_buffer_write_buffer_def)
  then show "\<exists>out'. szx_put_empty junk cid out = Some out' \<and> szx_written out' = szx_written out @ szx_chunk cid [] \<and>
      szx_room out' (n - length (szx_chunk cid []))"
    using b' room by (simp add: szx_put_empty_def out szx_written_def szx_room_def)
qed

section \<open>Reading chunks\<close>

lemma le32_at: "length pre = i \<Longrightarrow> le32 (pre @ dword_bytes d @ post) i = d"
proof -
  assume "length pre = i"
  then have "libspectrum_read_dword (pre @ dword_bytes d @ post) i = Some (d, i + 4)" using read_dword_at [of pre d post] by simp
  then show ?thesis
    by (auto simp: libspectrum_read_dword_def le32_def nget_def bind_eq_Some_conv split: if_splits)
qed

lemma read_szx_chunk:
  assumes "length cid \<le> 4" "length data < 2 ^ 32"
  shows "szx_read_chunk z s v (szx_chunk cid data @ rest) swap =
    (case map_of (szx_chunks z) (chunk_id cid) of
       Some f \<Rightarrow> f s v (data @ rest) (length data) swap
     | None \<Rightarrow> szx_skip_chunk s v (data @ rest) (length data) swap)"
proof -
  have "le32 (szx_chunk cid data @ rest) 4 = of_nat (length data)"
    using le32_at [of "chunk_id cid" 4 "of_nat (length data)" "data @ rest"] by (simp add: szx_chunk_def chunk_id_length assms(1))
  moreover have "unat (of_nat (length data) :: dword) = length data"
    using assms(2) by (simp add: unat_of_nat take_bit_nat_eq_self)
  moreover have "take 4 (szx_chunk cid data @ rest) = chunk_id cid" "drop 8 (szx_chunk cid data @ rest) = data @ rest"
    by (simp_all add: szx_chunk_def chunk_id_length assms(1))
  ultimately show ?thesis
    by (simp add: szx_read_chunk_def length_szx_chunk [OF assms(1)] Let_def del: add.commute)
qed

lemma read_chunks_mono: "szx_read_chunks z k s v buf swap = Some r \<Longrightarrow> k \<le> k' \<Longrightarrow> szx_read_chunks z k' s v buf swap = Some r"
proof (induction z k s v buf swap arbitrary: k' rule: szx_read_chunks.induct)
  case (3 z k s v b buf swap)
  obtain k'' where k': "k' = Suc k''" "k \<le> k''" using "3.prems"(2) by (cases k') auto
  obtain e s' sw rest where step: "szx_read_chunk z s v (b # buf) swap = Some (e, s', sw, rest)"
    using "3.prems"(1) by (cases "szx_read_chunk z s v (b # buf) swap") auto
  show ?case
  proof (cases "e = ERROR_NONE")
    case True
    then show ?thesis using "3.IH" [OF step refl refl refl, of k''] "3.prems" k' step by (simp add: k')
  next
    case False
    then show ?thesis using "3.prems" step by (simp add: k')
  qed
qed simp_all

text \<open>Reading \<open>bytes\<close> changes the snapshot \<open>s\<close> to \<open>s'\<close>.\<close>

definition reads_to :: "'s zlib \<Rightarrow> byte list \<Rightarrow> libspectrum_snap \<Rightarrow> libspectrum_snap \<Rightarrow> bool" where
  "reads_to z bytes s s' \<longleftrightarrow> (\<forall>rest k r. szx_read_chunks z k s' 0x0105 rest False = Some r \<longrightarrow>
     szx_read_chunks z (k + length bytes) s 0x0105 (bytes @ rest) False = Some r)"

lemma reads_nothing: "reads_to z [] s s"
  by (simp add: reads_to_def)

lemma reads_append: "reads_to z a s s' \<Longrightarrow> reads_to z b s' s'' \<Longrightarrow> reads_to z (a @ b) s s''"
  unfolding reads_to_def
proof (intro allI impI)
  fix rest k r
  assume a: "\<forall>rest k r. szx_read_chunks z k s' 0x0105 rest False = Some r \<longrightarrow> szx_read_chunks z (k + length a) s 0x0105 (a @ rest) False = Some r"
    and b: "\<forall>rest k r. szx_read_chunks z k s'' 0x0105 rest False = Some r \<longrightarrow> szx_read_chunks z (k + length b) s' 0x0105 (b @ rest) False = Some r"
    and r: "szx_read_chunks z k s'' 0x0105 rest False = Some r"
  from b r have "szx_read_chunks z (k + length b) s' 0x0105 (b @ rest) False = Some r" by blast
  with a have "szx_read_chunks z (k + length b + length a) s 0x0105 (a @ b @ rest) False = Some r" by blast
  then show "szx_read_chunks z (k + length (a @ b)) s 0x0105 ((a @ b) @ rest) False = Some r" by (simp add: ac_simps)
qed

lemma reads_chunk:
  assumes "length cid \<le> 4" "length data < 2 ^ 32" "map_of (szx_chunks z) (chunk_id cid) = Some f"
    "\<And>rest. f s 0x0105 (data @ rest) (length data) False = Some (ERROR_NONE, s', False, rest)"
  shows "reads_to z (szx_chunk cid data) s s'"
  unfolding reads_to_def
proof (intro allI impI)
  fix rest k r
  assume r: "szx_read_chunks z k s' 0x0105 rest False = Some r"
  have step: "szx_read_chunk z s 0x0105 (szx_chunk cid data @ rest) False = Some (ERROR_NONE, s', False, rest)"
    using assms by (simp add: read_szx_chunk)
  define j where "j = k + 7 + length data"
  have "szx_read_chunks z j s' 0x0105 rest False = Some r" by (rule read_chunks_mono [OF r]) (simp add: j_def)
  moreover have k: "k + length (szx_chunk cid data) = Suc j" by (simp add: length_szx_chunk assms(1) j_def)
  moreover obtain b buf where buf: "szx_chunk cid data @ rest = b # buf"
    using length_szx_chunk [OF assms(1), of data] by (cases "szx_chunk cid data") auto
  ultimately show "szx_read_chunks z (k + length (szx_chunk cid data)) s 0x0105 (szx_chunk cid data @ rest) False = Some r"
    using step unfolding k buf by simp
qed

end
