(* ===== verification/Szx_Parts.thy ===== *)
theory Szx_Parts
  imports Szx_Format
begin

text \<open>
  What a .szx file holds of a snapshot, in parts: the values of each part, the parts that the writer
  writes, and the notion of a step of the writer that one or more parts survive.
\<close>

section \<open>The parts of a snapshot\<close>

text \<open>A flag of the snapshot is an \<open>int\<close> of which only the truth is kept.\<close>

datatype szx_value =
  Truth bool | Byte byte | Word lword | Dword dword | Number int | Size size_t | Memory "byte list option" | Bytes "byte list"

datatype szx_part =
    LATE_part | Z80R_part | SPCR_part | KEYB_part | RAM_page nat | AY_part | SCLD_part | B128_part | ZXAT_part
  | ATRP_page nat | ZXCF_part | CFRP_page nat | IF2R_part | DOCK_part | DOCK_page nat | EXROM_page nat | IF1_part
  | OPUS_part | PLSD_part | AMXM_part | SIDE_part | DRUM_part | DIDE_part | DIRP_page nat | DMMC_part | DMRP_page nat
  | SNET_part | SNEF_part | SNER_part | ZXPR_part | COVX_part | MFCE_part | PLTT_part | ZMMC_part

definition szx_third_port :: "libspectrum_machine \<Rightarrow> bool" where
  "szx_third_port m \<longleftrightarrow> libspectrum_machine_capabilities m AND MACHINE_CAPABILITY_PLUS3_MEMORY \<noteq> 0 \<or>
     libspectrum_machine_capabilities m AND MACHINE_CAPABILITY_SCORP_MEMORY \<noteq> 0 \<or>
     libspectrum_machine_capabilities m AND MACHINE_CAPABILITY_PENT1024_MEMORY \<noteq> 0"

fun szx_values :: "szx_part \<Rightarrow> libspectrum_snap \<Rightarrow> szx_value list" where
  "szx_values LATE_part s = [Truth (snap_late_timings s \<noteq> 0)]"
| "szx_values Z80R_part s =
     [Byte (snap_a s), Byte (snap_f s), Word (snap_bc s), Word (snap_de s), Word (snap_hl s), Byte (snap_a' s),
      Byte (snap_f' s), Word (snap_bc' s), Word (snap_de' s), Word (snap_hl' s), Word (snap_ix s), Word (snap_iy s),
      Word (snap_sp s), Word (snap_pc s), Byte (snap_i s), Byte (snap_r s), Byte (snap_iff1 s), Byte (snap_iff2 s),
      Byte (snap_im s), Dword (snap_tstates s), Word (snap_memptr s), Truth (snap_last_instruction_ei s \<noteq> 0),
      Truth (snap_halted s \<noteq> 0), Truth (snap_last_instruction_set_f s \<noteq> 0)]"
| "szx_values SPCR_part s =
     [Byte (snap_out_ula s)] @
     (if libspectrum_machine_capabilities (snap_machine s) AND MACHINE_CAPABILITY_128_MEMORY \<noteq> 0
      then [Byte (snap_out_128_memoryport s)] else []) @
     (if szx_third_port (snap_machine s) then [Byte (snap_out_plus3_memoryport s)] else [])"
| "szx_values KEYB_part s = [Truth (snap_issue2 s \<noteq> 0)]"
| "szx_values (RAM_page i) s = [Memory (snap_pages s ! i)]"
| "szx_values AY_part s =
     [Truth (snap_fuller_box_active s \<noteq> 0), Truth (snap_melodik_active s \<noteq> 0), Byte (snap_out_ay_registerport s),
      Bytes (snap_ay_registers s)]"
| "szx_values SCLD_part s = [Byte (snap_out_scld_hsr s), Byte (snap_out_scld_dec s)]"
| "szx_values B128_part s =
     [Truth (snap_beta_active s \<noteq> 0), Truth (snap_beta_paged s \<noteq> 0), Truth (snap_beta_autoboot s \<noteq> 0),
      Truth (snap_beta_direction s \<noteq> 0), Truth (snap_beta_custom_rom s \<noteq> 0), Number (snap_beta_drive_count s),
      Byte (snap_beta_system s), Byte (snap_beta_track s), Byte (snap_beta_sector s), Byte (snap_beta_data s),
      Byte (snap_beta_status s)] @
     (if snap_beta_custom_rom s \<noteq> 0 then [Memory (snap_beta_rom s)] else [])"
| "szx_values ZXAT_part s =
     [Truth (snap_zxatasp_active s \<noteq> 0), Truth (snap_zxatasp_upload s \<noteq> 0), Truth (snap_zxatasp_writeprotect s \<noteq> 0),
      Byte (snap_zxatasp_port_a s), Byte (snap_zxatasp_port_b s), Byte (snap_zxatasp_port_c s),
      Byte (snap_zxatasp_control s), Size (snap_zxatasp_pages s), Size (snap_zxatasp_current_page s)]"
| "szx_values (ATRP_page i) s = [Memory (snap_zxatasp_ram s ! i)]"
| "szx_values ZXCF_part s =
     [Truth (snap_zxcf_active s \<noteq> 0), Truth (snap_zxcf_upload s \<noteq> 0), Byte (snap_zxcf_memctl s), Size (snap_zxcf_pages s)]"
| "szx_values (CFRP_page i) s = [Memory (snap_zxcf_ram s ! i)]"
| "szx_values IF2R_part s = [Truth (snap_interface2_active s \<noteq> 0), Memory (snap_interface2_rom s)]"
| "szx_values DOCK_part s = [Truth (snap_dock_active s \<noteq> 0)]"
| "szx_values (DOCK_page i) s = [Truth (snap_dock_ram s ! i \<noteq> 0), Memory (snap_dock_cart s ! i)]"
| "szx_values (EXROM_page i) s = [Truth (snap_exrom_ram s ! i \<noteq> 0), Memory (snap_exrom_cart s ! i)]"
| "szx_values IF1_part s =
     [Truth (snap_interface1_active s \<noteq> 0), Truth (snap_interface1_paged s \<noteq> 0),
      Number (if snap_interface1_drive_count s = 0 then 8 else snap_interface1_drive_count s),
      Truth (snap_interface1_custom_rom s \<noteq> 0)] @
     (if snap_interface1_custom_rom s \<noteq> 0 then [Size (snap_interface1_rom_length s)] else [])"
| "szx_values OPUS_part s =
     [Truth (snap_opus_active s \<noteq> 0), Truth (snap_opus_paged s \<noteq> 0), Truth (snap_opus_direction s \<noteq> 0),
      Truth (snap_opus_custom_rom s \<noteq> 0), Byte (snap_opus_control_a s), Byte (snap_opus_data_reg_a s),
      Byte (snap_opus_data_dir_a s), Byte (snap_opus_control_b s), Byte (snap_opus_data_reg_b s),
      Byte (snap_opus_data_dir_b s), Number (snap_opus_drive_count s), Byte (snap_opus_track s), Byte (snap_opus_sector s),
      Byte (snap_opus_data s), Byte (snap_opus_status s), Memory (snap_opus_ram s)] @
     (if snap_opus_custom_rom s \<noteq> 0 then [Memory (snap_opus_rom s)] else [])"
| "szx_values PLSD_part s =
     [Truth (snap_plusd_active s \<noteq> 0), Truth (snap_plusd_paged s \<noteq> 0), Truth (snap_plusd_direction s \<noteq> 0),
      Truth (snap_plusd_custom_rom s \<noteq> 0), Byte (snap_plusd_control s), Number (snap_plusd_drive_count s),
      Byte (snap_plusd_track s), Byte (snap_plusd_sector s), Byte (snap_plusd_data s), Byte (snap_plusd_status s),
      Memory (snap_plusd_ram s)] @
     (if snap_plusd_custom_rom s \<noteq> 0 then [Memory (snap_plusd_rom s)] else [])"
| "szx_values AMXM_part s = [Truth (snap_kempston_mouse_active s \<noteq> 0)]"
| "szx_values SIDE_part s = [Truth (snap_simpleide_active s \<noteq> 0)]"
| "szx_values DRUM_part s = [Truth (snap_specdrum_active s \<noteq> 0), Byte (snap_specdrum_dac s)]"
| "szx_values DIDE_part s =
     [Truth (snap_divide_active s \<noteq> 0), Truth (snap_divide_eprom_writeprotect s \<noteq> 0), Truth (snap_divide_paged s \<noteq> 0),
      Byte (snap_divide_control s), Size (snap_divide_pages s), Memory (snap_divide_eprom s)]"
| "szx_values (DIRP_page i) s = [Memory (snap_divide_ram s ! i)]"
| "szx_values DMMC_part s =
     [Truth (snap_divmmc_active s \<noteq> 0), Truth (snap_divmmc_eprom_writeprotect s \<noteq> 0), Truth (snap_divmmc_paged s \<noteq> 0),
      Byte (snap_divmmc_control s), Size (snap_divmmc_pages s), Memory (snap_divmmc_eprom s)]"
| "szx_values (DMRP_page i) s = [Memory (snap_divmmc_ram s ! i)]"
| "szx_values SNET_part s =
     [Truth (snap_spectranet_active s \<noteq> 0), Truth (snap_spectranet_paged s \<noteq> 0),
      Truth (snap_spectranet_paged_via_io s \<noteq> 0), Truth (snap_spectranet_programmable_trap_active s \<noteq> 0),
      Truth (snap_spectranet_programmable_trap_msb s \<noteq> 0), Truth (snap_spectranet_all_traps_disabled s \<noteq> 0),
      Truth (snap_spectranet_rst8_trap_disabled s \<noteq> 0), Truth (snap_spectranet_deny_downstream_a15 s \<noteq> 0),
      Truth (snap_spectranet_nmi_flipflop s \<noteq> 0), Number (snap_spectranet_page_a s), Number (snap_spectranet_page_b s),
      Word (snap_spectranet_programmable_trap s), Memory (snap_spectranet_w5100 s)]"
| "szx_values SNEF_part s = [Memory (snap_spectranet_flash s)]"
| "szx_values SNER_part s = [Memory (snap_spectranet_ram s)]"
| "szx_values ZXPR_part s = [Truth (snap_zx_printer_active s \<noteq> 0)]"
| "szx_values COVX_part s = [Truth (snap_covox_active s \<noteq> 0), Byte (snap_covox_dac s)]"
| "szx_values MFCE_part s =
     [Truth (snap_multiface_active s \<noteq> 0), Truth (snap_multiface_paged s \<noteq> 0), Truth (snap_multiface_model_one s \<noteq> 0),
      Truth (snap_multiface_software_lockout s \<noteq> 0), Truth (snap_multiface_red_button_disabled s \<noteq> 0),
      Truth (snap_multiface_disabled s \<noteq> 0), Size (snap_multiface_ram_length s), Memory (snap_multiface_ram s)]"
| "szx_values PLTT_part s =
     [Truth (snap_ulaplus_active s \<noteq> 0), Truth (snap_ulaplus_palette_enabled s \<noteq> 0), Byte (snap_ulaplus_current_register s),
      Memory (snap_ulaplus_palette s), Byte (snap_ulaplus_ff_register s)]"
| "szx_values ZMMC_part s = [Truth (snap_zxmmc_active s \<noteq> 0)]"

text \<open>The parts that are written. A page is written if it is there, and the dock if one of its pages is.\<close>

abbreviation szx_page :: "'a option list \<Rightarrow> nat \<Rightarrow> nat \<Rightarrow> bool" where
  "szx_page pages n i \<equiv> i < n \<and> pages ! i \<noteq> None"

fun szx_holds :: "libspectrum_snap \<Rightarrow> szx_part \<Rightarrow> bool" where
  "szx_holds s LATE_part = (snap_machine s \<in> set [MACHINE_16, MACHINE_48, MACHINE_48_NTSC, MACHINE_128])"
| "szx_holds s Z80R_part = True"
| "szx_holds s SPCR_part = True"
| "szx_holds s KEYB_part = True"
| "szx_holds s (RAM_page i) = (i \<in> set (szx_page_list (snap_machine s)) \<and> snap_pages s ! i \<noteq> None)"
| "szx_holds s AY_part = (snap_fuller_box_active s \<noteq> 0 \<or> snap_melodik_active s \<noteq> 0 \<or>
     libspectrum_machine_capabilities (snap_machine s) AND MACHINE_CAPABILITY_AY \<noteq> 0)"
| "szx_holds s SCLD_part = (libspectrum_machine_capabilities (snap_machine s) AND
     (MACHINE_CAPABILITY_TIMEX_MEMORY OR MACHINE_CAPABILITY_SE_MEMORY) \<noteq> 0)"
| "szx_holds s B128_part = (snap_beta_active s \<noteq> 0)"
| "szx_holds s ZXAT_part = (snap_zxatasp_active s \<noteq> 0)"
| "szx_holds s (ATRP_page i) = (snap_zxatasp_active s \<noteq> 0 \<and> szx_page (snap_zxatasp_ram s) (unat (snap_zxatasp_pages s)) i)"
| "szx_holds s ZXCF_part = (snap_zxcf_active s \<noteq> 0)"
| "szx_holds s (CFRP_page i) = (snap_zxcf_active s \<noteq> 0 \<and> szx_page (snap_zxcf_ram s) (unat (snap_zxcf_pages s)) i)"
| "szx_holds s IF2R_part = (snap_interface2_active s \<noteq> 0)"
| "szx_holds s DOCK_part = (snap_dock_active s \<noteq> 0 \<and>
     list_ex (\<lambda>i. szx_page (snap_exrom_cart s) 8 i \<or> szx_page (snap_dock_cart s) 8 i) [0..<8])"
| "szx_holds s (DOCK_page i) = (snap_dock_active s \<noteq> 0 \<and> szx_page (snap_dock_cart s) 8 i)"
| "szx_holds s (EXROM_page i) = (snap_dock_active s \<noteq> 0 \<and> szx_page (snap_exrom_cart s) 8 i)"
| "szx_holds s IF1_part = (snap_interface1_active s \<noteq> 0)"
| "szx_holds s OPUS_part = (snap_opus_active s \<noteq> 0)"
| "szx_holds s PLSD_part = (snap_plusd_active s \<noteq> 0)"
| "szx_holds s AMXM_part = (snap_kempston_mouse_active s \<noteq> 0)"
| "szx_holds s SIDE_part = (snap_simpleide_active s \<noteq> 0)"
| "szx_holds s DRUM_part = (snap_specdrum_active s \<noteq> 0)"
| "szx_holds s DIDE_part = (snap_divide_active s \<noteq> 0)"
| "szx_holds s (DIRP_page i) = (snap_divide_active s \<noteq> 0 \<and> szx_page (snap_divide_ram s) (unat (snap_divide_pages s)) i)"
| "szx_holds s DMMC_part = (snap_divmmc_active s \<noteq> 0)"
| "szx_holds s (DMRP_page i) = (snap_divmmc_active s \<noteq> 0 \<and> szx_page (snap_divmmc_ram s) (unat (snap_divmmc_pages s)) i)"
| "szx_holds s SNET_part = (snap_spectranet_active s \<noteq> 0)"
| "szx_holds s SNEF_part = (snap_spectranet_active s \<noteq> 0)"
| "szx_holds s SNER_part = (snap_spectranet_active s \<noteq> 0)"
| "szx_holds s ZXPR_part = True"
| "szx_holds s COVX_part = (snap_covox_active s \<noteq> 0)"
| "szx_holds s MFCE_part = (snap_multiface_active s \<noteq> 0)"
| "szx_holds s PLTT_part = (snap_ulaplus_active s \<noteq> 0)"
| "szx_holds s ZMMC_part = (snap_zxmmc_active s \<noteq> 0)"

section \<open>Steps\<close>

text \<open>The joysticks that have been read are different ones of those the format has.\<close>

definition joysticks_ok :: "libspectrum_snap \<Rightarrow> bool" where
  "joysticks_ok s \<longleftrightarrow> length (snap_joystick_list s) = 7 \<and> length (snap_joystick_inputs s) = 7 \<and>
     unat (snap_joystick_active_count s) \<le> 7 \<and> distinct (take (unat (snap_joystick_active_count s)) (snap_joystick_list s)) \<and>
     set (take (unat (snap_joystick_active_count s)) (snap_joystick_list s)) \<subseteq> snd ` set szx_joysticks"

text \<open>
  A snapshot that the reader can fill with \<open>T\<close>: two flags are only ever set by the reader, so that
  they may not be set if they are not set in \<open>T\<close>.
\<close>

definition szx_ready :: "libspectrum_snap \<Rightarrow> libspectrum_snap \<Rightarrow> bool" where
  "szx_ready T s \<longleftrightarrow> snap_machine s = snap_machine T \<and> length (snap_pages s) = 16 \<and> length (snap_zxatasp_ram s) = 32 \<and>
     length (snap_zxcf_ram s) = 64 \<and> length (snap_exrom_ram s) = 8 \<and> length (snap_exrom_cart s) = 8 \<and>
     length (snap_dock_ram s) = 8 \<and> length (snap_dock_cart s) = 8 \<and> length (snap_divide_ram s) = 4 \<and>
     length (snap_divmmc_ram s) = 64 \<and> joysticks_ok s \<and>
     (snap_interface1_custom_rom s \<noteq> 0 \<longrightarrow> snap_interface1_custom_rom T \<noteq> 0) \<and>
     (snap_multiface_model_one s \<noteq> 0 \<longrightarrow> snap_multiface_model_one T \<noteq> 0)"

text \<open>Reading \<open>bytes\<close> gives the parts \<open>P\<close> the values they have in \<open>T\<close> and leaves the others.\<close>

definition szx_reads :: "'s zlib \<Rightarrow> libspectrum_snap \<Rightarrow> (szx_part \<Rightarrow> bool) \<Rightarrow> byte list \<Rightarrow> bool" where
  "szx_reads z T P bytes \<longleftrightarrow> (\<forall>s. szx_ready T s \<longrightarrow>
     (\<exists>s'. szx_ready T s' \<and> reads_to z bytes s s' \<and>
        (\<forall>p. szx_values p s' = szx_values p (if P p then T else s))))"

text \<open>A step of the writer, of at most \<open>L\<close> bytes, that the parts \<open>P\<close> of \<open>T\<close> survive.\<close>

definition szx_step ::
    "'s zlib \<Rightarrow> libspectrum_snap \<Rightarrow> nat \<Rightarrow> (szx_part \<Rightarrow> bool) \<Rightarrow> (szx_out \<Rightarrow> szx_out c_result) \<Rightarrow> bool" where
  "szx_step z T L P f \<longleftrightarrow> (\<exists>bytes. length bytes \<le> L \<and>
     (\<forall>out n. szx_room out n \<longrightarrow> length bytes \<le> n \<longrightarrow>
        (\<exists>out'. f out = Some (ERROR_NONE, out') \<and> szx_written out' = szx_written out @ bytes \<and>
           szx_room out' (n - length bytes))) \<and> szx_reads z T P bytes)"

abbreviation put_step :: "(szx_out \<Rightarrow> szx_out option) \<Rightarrow> szx_out \<Rightarrow> szx_out c_result" where
  "put_step f \<equiv> (\<lambda>out. map_option (Pair ERROR_NONE) (f out))"

lemma stepI:
  assumes "szx.puts f bytes" "length bytes \<le> L" "szx_reads z T P bytes"
  shows "szx_step z T L P (put_step f)"
  unfolding szx_step_def using assms(2,3) szx.puts_result [OF assms(1)] by (intro exI [of _ bytes]) fastforce

lemma reads_none: "szx_reads z T (\<lambda>p. False) []"
  unfolding szx_reads_def using reads_nothing by fastforce

lemma step_skip: "szx_step z T 0 (\<lambda>p. False) (\<lambda>out. Some (ERROR_NONE, out))"
  unfolding szx_step_def by (intro exI [of _ "[]"]) (simp add: reads_none)

lemma step_chunk:
  assumes items: "\<forall>x \<in> set items. item_ok x" and cid: "length cid \<le> 4"
    and L: "length (items_bytes items) < 2 ^ 31"
    and reader: "map_of (szx_chunks z) (chunk_id cid) = Some g"
    and read: "\<And>s rest. szx_ready T s \<Longrightarrow>
      \<exists>s'. szx_ready T s' \<and> (\<forall>p. szx_values p s' = szx_values p (if P p then T else s)) \<and>
        (\<forall>rest. g s 0x0105 (items_bytes items @ rest) (length (items_bytes items)) False = Some (ERROR_NONE, s', False, rest))"
  shows "szx_step z T (2 ^ 32) P (put_step (szx_put_chunk junk cid items))"
proof (rule stepI)
  have small: "length (items_bytes items) < 2 ^ 32" using L by simp
  show "szx.puts (szx_put_chunk junk cid items) (szx_chunk cid (items_bytes items))"
    by (rule put_chunk_bytes [OF items cid small])
  show "length (szx_chunk cid (items_bytes items)) \<le> 2 ^ 32" using L by (simp add: length_szx_chunk [OF cid])
  show "szx_reads z T P (szx_chunk cid (items_bytes items))"
    unfolding szx_reads_def
  proof (intro allI impI)
    fix s assume s: "szx_ready T s"
    obtain s' where s': "szx_ready T s'" "\<forall>p. szx_values p s' = szx_values p (if P p then T else s)"
      "\<forall>rest. g s 0x0105 (items_bytes items @ rest) (length (items_bytes items)) False = Some (ERROR_NONE, s', False, rest)"
      using read [OF s] by blast
    have "reads_to z (szx_chunk cid (items_bytes items)) s s'"
      by (rule reads_chunk [OF cid small reader]) (use s'(3) in blast)
    then show "\<exists>s'. szx_ready T s' \<and> reads_to z (szx_chunk cid (items_bytes items)) s s' \<and>
        (\<forall>p. szx_values p s' = szx_values p (if P p then T else s))"
      using s' by blast
  qed
qed

lemma step_empty_chunk:
  assumes cid: "length cid \<le> 4" and reader: "map_of (szx_chunks z) (chunk_id cid) = Some g"
    and read: "\<And>s. szx_ready T s \<Longrightarrow>
      \<exists>s'. szx_ready T s' \<and> (\<forall>p. szx_values p s' = szx_values p (if P p then T else s)) \<and>
        (\<forall>rest. g s 0x0105 rest 0 False = Some (ERROR_NONE, s', False, rest))"
  shows "szx_step z T (2 ^ 32) P (put_step (szx_put_empty junk cid))"
proof (rule stepI)
  show "szx.puts (szx_put_empty junk cid) (szx_chunk cid [])" by (rule put_empty_bytes [OF cid])
  show "length (szx_chunk cid []) \<le> 2 ^ 32" by (simp add: length_szx_chunk [OF cid])
  show "szx_reads z T P (szx_chunk cid [])"
    unfolding szx_reads_def
  proof (intro allI impI)
    fix s assume s: "szx_ready T s"
    obtain s' where s': "szx_ready T s'" "\<forall>p. szx_values p s' = szx_values p (if P p then T else s)"
      "\<forall>rest. g s 0x0105 rest 0 False = Some (ERROR_NONE, s', False, rest)"
      using read [OF s] by blast
    have "reads_to z (szx_chunk cid []) s s'"
      by (rule reads_chunk [OF cid _ reader]) (use s'(3) in simp_all)
    then show "\<exists>s'. szx_ready T s' \<and> reads_to z (szx_chunk cid []) s s' \<and>
        (\<forall>p. szx_values p s' = szx_values p (if P p then T else s))"
      using s' by blast
  qed
qed

lemma reads_both:
  assumes "szx_reads z T P a" "szx_reads z T Q b"
  shows "szx_reads z T (\<lambda>p. P p \<or> Q p) (a @ b)"
  unfolding szx_reads_def
proof (intro allI impI)
  fix s assume "szx_ready T s"
  then obtain s1 where s1: "szx_ready T s1" "reads_to z a s s1"
    "\<forall>p. szx_values p s1 = szx_values p (if P p then T else s)"
    using assms(1) unfolding szx_reads_def by blast
  then obtain s2 where s2: "szx_ready T s2" "reads_to z b s1 s2"
    "\<forall>p. szx_values p s2 = szx_values p (if Q p then T else s1)"
    using assms(2) unfolding szx_reads_def by blast
  have "szx_values p s2 = szx_values p (if P p \<or> Q p then T else s)" for p
    using s1(3) s2(3) by (cases "Q p") auto
  then show "\<exists>s'. szx_ready T s' \<and> reads_to z (a @ b) s s' \<and>
      (\<forall>p. szx_values p s' = szx_values p (if P p \<or> Q p then T else s))"
    using s2(1) reads_append [OF s1(2) s2(2)] by blast
qed

lemma step_seq:
  assumes "szx_step z T L P f" "szx_step z T L' Q g"
  shows "szx_step z T (L + L') (\<lambda>p. P p \<or> Q p) (\<lambda>out. on_ok (f out) g)"
proof -
  obtain a where a: "length a \<le> L"
    "\<And>out n. szx_room out n \<Longrightarrow> length a \<le> n \<Longrightarrow>
        (\<exists>out'. f out = Some (ERROR_NONE, out') \<and> szx_written out' = szx_written out @ a \<and> szx_room out' (n - length a))"
    "szx_reads z T P a"
    using assms(1) unfolding szx_step_def by blast
  obtain b where b: "length b \<le> L'"
    "\<And>out n. szx_room out n \<Longrightarrow> length b \<le> n \<Longrightarrow>
        (\<exists>out'. g out = Some (ERROR_NONE, out') \<and> szx_written out' = szx_written out @ b \<and> szx_room out' (n - length b))"
    "szx_reads z T Q b"
    using assms(2) unfolding szx_step_def by blast
  have "\<exists>out'. on_ok (f out) g = Some (ERROR_NONE, out') \<and> szx_written out' = szx_written out @ (a @ b) \<and>
      szx_room out' (n - length (a @ b))" if room: "szx_room out n" and le: "length (a @ b) \<le> n" for out n
  proof -
    obtain o1 where o1: "f out = Some (ERROR_NONE, o1)" "szx_written o1 = szx_written out @ a" "szx_room o1 (n - length a)"
      using a(2) [OF room] le by auto
    obtain o2 where "g o1 = Some (ERROR_NONE, o2)" "szx_written o2 = szx_written o1 @ b" "szx_room o2 (n - length a - length b)"
      using b(2) [OF o1(3)] le by fastforce
    then show ?thesis using o1 by (simp add: diff_diff_left)
  qed
  then show ?thesis unfolding szx_step_def using a(1) b(1) reads_both [OF a(3) b(3)] by (intro exI [of _ "a @ b"]) auto
qed

lemma step_weaken:
  assumes "szx_step z T L P f" "L \<le> L'" "\<And>p. P p = Q p"
  shows "szx_step z T L' Q f"
proof -
  have "P = Q" using assms(3) by (rule ext)
  then show ?thesis using assms(1) le_trans [OF _ assms(2)] unfolding szx_step_def by blast
qed

lemma step_none: "szx_step z T L (\<lambda>p. False) (\<lambda>out. Some (ERROR_NONE, out))"
  by (rule step_weaken [OF step_skip]) simp_all

lemma step_if:
  assumes "c \<Longrightarrow> szx_step z T L P (put_step f)"
  shows "szx_step z T L (\<lambda>p. c \<and> P p) (write_if c f)"
proof (cases c)
  case True
  have "write_if c f = put_step f" by (rule ext) (simp add: write_if_def True)
  then show ?thesis using assms True by simp
next
  case False
  have "write_if c f = (\<lambda>out. Some (ERROR_NONE, out))" by (rule ext) (simp add: write_if_def False)
  then show ?thesis using False step_none by simp
qed

lemma step_or_fail:
  assumes "c \<Longrightarrow> szx_step z T L P f"
  shows "szx_step z T L (\<lambda>p. c \<and> P p) (write_or_fail c f)"
proof (cases c)
  case True
  have "write_or_fail c f = f" by (rule ext) (simp add: write_or_fail_def True)
  then show ?thesis using assms True by simp
next
  case False
  have "write_or_fail c f = (\<lambda>out. Some (ERROR_NONE, out))" by (rule ext) (simp add: write_or_fail_def False)
  then show ?thesis using False step_none by simp
qed

lemma steps_Nil: "szx_step z T 0 (\<lambda>p. False) (write_steps [])"
proof -
  have "write_steps [] = (\<lambda>out. Some (ERROR_NONE, out))" by (rule ext) simp
  then show ?thesis by (simp add: step_skip)
qed

lemma steps_Cons:
  assumes "szx_step z T L P f" "szx_step z T L' Q (write_steps fs)"
  shows "szx_step z T (L + L') (\<lambda>p. P p \<or> Q p) (write_steps (f # fs))"
proof -
  have "write_steps (f # fs) = (\<lambda>out. on_ok (f out) (write_steps fs))" by (rule ext) simp
  then show ?thesis using step_seq [OF assms] by simp
qed

lemma put_seq:
  assumes "szx_step z T L P (put_step f)" "szx_step z T L' Q (put_step g)"
  shows "szx_step z T (L + L') (\<lambda>p. P p \<or> Q p) (put_step (\<lambda>out. f out \<bind> g))"
proof -
  have "put_step (\<lambda>out. f out \<bind> g) out = on_ok (put_step f out) (put_step g)" for out
    by (cases "f out") auto
  then have "put_step (\<lambda>out. f out \<bind> g) = (\<lambda>out. on_ok (put_step f out) (put_step g))" by (rule ext)
  then show ?thesis using step_seq [OF assms] by simp
qed

lemma each_step:
  assumes "\<And>i. i \<in> set is \<Longrightarrow> szx_step z T L (P i) (put_step (f i))"
  shows "szx_step z T (length is * L) (\<lambda>p. \<exists>i \<in> set is. P i p) (put_step (write_each f is))"
  using assms
proof (induction "is")
  case Nil
  have "put_step (write_each f []) = (\<lambda>out. Some (ERROR_NONE, out))" by (rule ext) simp
  then show ?case using step_skip by simp
next
  case (Cons i "is")
  have w: "write_each f (i # is) = (\<lambda>out. f i out \<bind> write_each f is)" by (rule ext) simp
  have "szx_step z T (L + length is * L) (\<lambda>p. P i p \<or> (\<exists>i \<in> set is. P i p)) (put_step (\<lambda>out. f i out \<bind> write_each f is))"
    by (rule put_seq) (use Cons in auto)
  then show ?case unfolding w by simp
qed

section \<open>The identifiers\<close>

lemma szx_chunk_readers:
  "map_of (szx_chunks z) (chunk_id ''AY'') = Some read_ay_chunk"
  "map_of (szx_chunks z) (chunk_id ''B128'') = Some (read_b128_chunk z)"
  "map_of (szx_chunks z) (chunk_id ''COVX'') = Some read_covx_chunk"
  "map_of (szx_chunks z) (chunk_id ''CRTR'') = Some read_crtr_chunk"
  "map_of (szx_chunks z) (chunk_id ''DIDE'') = Some (read_dide_chunk z)"
  "map_of (szx_chunks z) (chunk_id ''DIRP'') = Some (read_dirp_chunk z)"
  "map_of (szx_chunks z) (chunk_id ''DMMC'') = Some (read_dmmc_chunk z)"
  "map_of (szx_chunks z) (chunk_id ''DMRP'') = Some (read_dmrp_chunk z)"
  "map_of (szx_chunks z) (chunk_id ''DOCK'') = Some (read_dock_chunk z)"
  "map_of (szx_chunks z) (chunk_id ''IF1'') = Some (read_if1_chunk z)"
  "map_of (szx_chunks z) (chunk_id ''IF2R'') = Some (read_if2r_chunk z)"
  "map_of (szx_chunks z) (chunk_id ''JOY'') = Some read_joy_chunk"
  "map_of (szx_chunks z) (chunk_id ''KEYB'') = Some read_keyb_chunk"
  "map_of (szx_chunks z) (chunk_id ''AMXM'') = Some read_amxm_chunk"
  "map_of (szx_chunks z) (chunk_id ''MFCE'') = Some (read_mfce_chunk z)"
  "map_of (szx_chunks z) (chunk_id ''OPUS'') = Some (read_opus_chunk z)"
  "map_of (szx_chunks z) (chunk_id ''PLTT'') = Some read_pltt_chunk"
  "map_of (szx_chunks z) (chunk_id ''PLSD'') = Some (read_plsd_chunk z)"
  "map_of (szx_chunks z) (chunk_id ''RAMP'') = Some (read_ramp_chunk z)"
  "map_of (szx_chunks z) (chunk_id ''ROM'') = Some (read_rom_chunk z)"
  "map_of (szx_chunks z) (chunk_id ''SIDE'') = Some read_side_chunk"
  "map_of (szx_chunks z) (chunk_id ''DRUM'') = Some read_drum_chunk"
  "map_of (szx_chunks z) (chunk_id ''SPCR'') = Some read_spcr_chunk"
  "map_of (szx_chunks z) (chunk_id ''SNET'') = Some read_snet_chunk"
  "map_of (szx_chunks z) (chunk_id ''SNEF'') = Some (read_snef_chunk z)"
  "map_of (szx_chunks z) (chunk_id ''SNER'') = Some (read_sner_chunk z)"
  "map_of (szx_chunks z) (chunk_id ''SCLD'') = Some read_scld_chunk"
  "map_of (szx_chunks z) (chunk_id ''Z80R'') = Some read_z80r_chunk"
  "map_of (szx_chunks z) (chunk_id ''ATRP'') = Some (read_atrp_chunk z)"
  "map_of (szx_chunks z) (chunk_id ''ZXAT'') = Some read_zxat_chunk"
  "map_of (szx_chunks z) (chunk_id ''ZXCF'') = Some read_zxcf_chunk"
  "map_of (szx_chunks z) (chunk_id ''CFRP'') = Some (read_cfrp_chunk z)"
  "map_of (szx_chunks z) (chunk_id ''ZMMC'') = Some read_zmmc_chunk"
  "map_of (szx_chunks z) (chunk_id ''ZXPR'') = Some read_zxpr_chunk"
  by (simp_all add: szx_chunks_def chunk_id_def of_char_def)

end
