(* ===== verification/Zip.thy ===== *)
theory Zip
  imports Zlib
begin

text \<open>
  Reading zip archives (\<open>zip.c\<close>). A pointer into the archive is its offset from \<open>input_data\<close>, and
  \<open>end\<close> is the length of the archive. The file names are strings; an entry of the array
  \<open>file_name\<close> that is before the first one is outside of it.
\<close>

section \<open>Headers\<close>

definition ZIP_DIRECTORY_INFO_SIZE :: nat where "ZIP_DIRECTORY_INFO_SIZE = 22"
definition ZIP_FILE_HEADER_SIZE :: nat where "ZIP_FILE_HEADER_SIZE = 46"
definition ZIP_LOCAL_HEADER_SIZE :: nat where "ZIP_LOCAL_HEADER_SIZE = 30"
definition ZIP_FILE_HEADER_SIG :: dword where "ZIP_FILE_HEADER_SIG = 0x02014b50"
definition ZIP_LOCAL_HEADER_SIG :: dword where "ZIP_LOCAL_HEADER_SIG = 0x04034b50"
definition ZIP_SUPPORTED_VERSION :: lword where "ZIP_SUPPORTED_VERSION = 20"

abbreviation (input) ZIPFLAG_NODIR :: int where "ZIPFLAG_NODIR \<equiv> 1"
abbreviation (input) ZIPFLAG_NOCASE :: int where "ZIPFLAG_NOCASE \<equiv> 2"
abbreviation (input) ZIPFLAG_AUTOCASE :: int where "ZIPFLAG_AUTOCASE \<equiv> 4"

record zip_local_header =
  local_magic :: dword
  local_required_version :: lword
  local_flags :: lword
  local_compression :: lword
  local_mod_time :: lword
  local_mod_date :: lword
  local_crc :: dword
  local_compressed_size :: dword
  local_uncompressed_size :: dword
  local_name_size :: lword
  local_extra_field_size :: lword

record zip_file_header =
  zf_magic :: dword
  zf_creator_version :: lword
  zf_required_version :: lword
  zf_flags :: lword
  zf_compression :: lword
  zf_mod_time :: lword
  zf_mod_date :: lword
  zf_crc :: dword
  zf_compressed_size :: dword
  zf_uncompressed_size :: dword
  zf_name_size :: lword
  zf_extra_field_size :: lword
  zf_comment_size :: lword
  zf_disk_index :: lword
  zf_internal_flags :: lword
  zf_external_flags :: dword
  zf_file_offset :: dword

record zip_directory_info =
  zd_magic :: dword
  zd_disk_index :: lword
  zd_directory_disk_index :: lword
  zd_disk_file_count :: lword
  zd_file_count :: lword
  zd_directory_size :: dword
  zd_directory_offset :: dword
  zd_comment_size :: lword

record zip_stat =
  stat_name :: string
  stat_filename :: string
  stat_size :: dword
  stat_is_dir :: bool
  stat_index :: lword

record libspectrum_zip =
  zip_open :: bool
  zip_input_data :: "byte list"
  zip_ptr :: nat
  zip_directory_offset :: dword
  zip_file_count :: dword
  zip_file_index :: dword
  zip_file_info :: zip_file_header
  zip_file_name :: string
  zip_file_ignore_case :: bool

definition read_directory_info :: "byte list \<Rightarrow> nat \<Rightarrow> zip_directory_info option" where
  "read_directory_info buf p = do {
     (magic, p) \<leftarrow> libspectrum_read_dword buf p; (disk, p) \<leftarrow> libspectrum_read_word buf p;
     (directory_disk, p) \<leftarrow> libspectrum_read_word buf p; (disk_count, p) \<leftarrow> libspectrum_read_word buf p;
     (count, p) \<leftarrow> libspectrum_read_word buf p; (sz, p) \<leftarrow> libspectrum_read_dword buf p;
     (off, p) \<leftarrow> libspectrum_read_dword buf p; (comment, p) \<leftarrow> libspectrum_read_word buf p;
     Some \<lparr>zd_magic = magic, zd_disk_index = disk, zd_directory_disk_index = directory_disk,
       zd_disk_file_count = disk_count, zd_file_count = count, zd_directory_size = sz,
       zd_directory_offset = off, zd_comment_size = comment\<rparr> }"

text \<open>A header that is not inside the archive is not read.\<close>

definition read_file_header :: "byte list \<Rightarrow> nat \<Rightarrow> zip_file_header option" where
  "read_file_header buf p =
     (if p + ZIP_FILE_HEADER_SIZE > length buf then None
      else do {
        (magic, p) \<leftarrow> libspectrum_read_dword buf p; (creator, p) \<leftarrow> libspectrum_read_word buf p;
        (required, p) \<leftarrow> libspectrum_read_word buf p; (flags, p) \<leftarrow> libspectrum_read_word buf p;
        (method, p) \<leftarrow> libspectrum_read_word buf p; (mtime, p) \<leftarrow> libspectrum_read_word buf p;
        (mdate, p) \<leftarrow> libspectrum_read_word buf p; (crc, p) \<leftarrow> libspectrum_read_dword buf p;
        (csize, p) \<leftarrow> libspectrum_read_dword buf p; (usize, p) \<leftarrow> libspectrum_read_dword buf p;
        (nsize, p) \<leftarrow> libspectrum_read_word buf p; (xsize, p) \<leftarrow> libspectrum_read_word buf p;
        (comment, p) \<leftarrow> libspectrum_read_word buf p; (disk, p) \<leftarrow> libspectrum_read_word buf p;
        (internal, p) \<leftarrow> libspectrum_read_word buf p; (external, p) \<leftarrow> libspectrum_read_dword buf p;
        (off, p) \<leftarrow> libspectrum_read_dword buf p;
        Some \<lparr>zf_magic = magic, zf_creator_version = creator, zf_required_version = required, zf_flags = flags,
          zf_compression = method, zf_mod_time = mtime, zf_mod_date = mdate, zf_crc = crc, zf_compressed_size = csize,
          zf_uncompressed_size = usize, zf_name_size = nsize, zf_extra_field_size = xsize, zf_comment_size = comment,
          zf_disk_index = disk, zf_internal_flags = internal, zf_external_flags = external, zf_file_offset = off\<rparr> })"

definition read_local_header :: "byte list \<Rightarrow> nat \<Rightarrow> zip_local_header option" where
  "read_local_header buf p =
     (if p + ZIP_LOCAL_HEADER_SIZE > length buf then None
      else do {
        (magic, p) \<leftarrow> libspectrum_read_dword buf p; (required, p) \<leftarrow> libspectrum_read_word buf p;
        (flags, p) \<leftarrow> libspectrum_read_word buf p; (method, p) \<leftarrow> libspectrum_read_word buf p;
        (mtime, p) \<leftarrow> libspectrum_read_word buf p; (mdate, p) \<leftarrow> libspectrum_read_word buf p;
        (crc, p) \<leftarrow> libspectrum_read_dword buf p; (csize, p) \<leftarrow> libspectrum_read_dword buf p;
        (usize, p) \<leftarrow> libspectrum_read_dword buf p; (nsize, p) \<leftarrow> libspectrum_read_word buf p;
        (xsize, p) \<leftarrow> libspectrum_read_word buf p;
        Some \<lparr>local_magic = magic, local_required_version = required, local_flags = flags, local_compression = method,
          local_mod_time = mtime, local_mod_date = mdate, local_crc = crc, local_compressed_size = csize,
          local_uncompressed_size = usize, local_name_size = nsize, local_extra_field_size = xsize\<rparr> })"

section \<open>Moving in the archive\<close>

text \<open>\<open>seek\<close> to a place: from the start, from the current position or from the end.\<close>

datatype whence = SEEK_SET | SEEK_CUR | SEEK_END

definition zip_seek :: "libspectrum_zip \<Rightarrow> int \<Rightarrow> whence \<Rightarrow> libspectrum_error \<times> libspectrum_zip" where
  "zip_seek z off whence =
     (let ptr = (case whence of SEEK_SET \<Rightarrow> off | SEEK_CUR \<Rightarrow> int (zip_ptr z) + off
                 | SEEK_END \<Rightarrow> int (length (zip_input_data z)) + off)
      in if ptr < 0 \<or> ptr > int (length (zip_input_data z)) then (ERROR_CORRUPT, z)
         else (ERROR_NONE, z\<lparr>zip_ptr := nat ptr\<rparr>))"

text \<open>The string in an array of bytes, up to its null.\<close>

definition c_string :: "byte list \<Rightarrow> string" where
  "c_string bytes = map (\<lambda>b. char_of (unat b)) (takeWhile (\<lambda>b. b \<noteq> 0) bytes)"

text \<open>\<open>strrchr\<close>: what follows the last slash, or the whole name.\<close>

fun after_last_slash :: "string \<Rightarrow> string option" where
  "after_last_slash [] = None"
| "after_last_slash (c # cs) =
     (case after_last_slash cs of Some e \<Rightarrow> Some e | None \<Rightarrow> (if c = CHR ''/'' then Some cs else None))"

definition base_name :: "string \<Rightarrow> string" where
  "base_name s = (case after_last_slash s of Some e \<Rightarrow> e | None \<Rightarrow> s)"

definition match_file_names :: "string \<Rightarrow> string \<Rightarrow> bool \<Rightarrow> bool" where
  "match_file_names a b ignore_case = (if ignore_case then strcaseeq a b else a = b)"

section \<open>The central directory\<close>

text \<open>The search for the signature, from \<open>p\<close> on backwards.\<close>

fun locate_directory_loop :: "byte list \<Rightarrow> nat \<Rightarrow> zip_directory_info option" where
  "locate_directory_loop buf p =
     (if take 4 (drop p buf) = [0x50, 0x4b, 5, 6] \<and> p + ZIP_DIRECTORY_INFO_SIZE \<le> length buf
      then read_directory_info buf p
      else case p of 0 \<Rightarrow> None | Suc q \<Rightarrow> locate_directory_loop buf q)"

declare locate_directory_loop.simps [simp del]

definition locate_directory :: "libspectrum_zip \<Rightarrow> libspectrum_error \<times> libspectrum_zip" where
  "locate_directory z =
     (if zip_directory_offset z \<noteq> 0 then (ERROR_NONE, z)
      else
        let (error, z) = zip_seek z (- int ZIP_DIRECTORY_INFO_SIZE) SEEK_END
        in if error \<noteq> ERROR_NONE then (error, z)
           else case locate_directory_loop (zip_input_data z) (zip_ptr z) of
                  None \<Rightarrow> (ERROR_CORRUPT, z)
                | Some info \<Rightarrow>
                    if zd_disk_index info \<noteq> zd_directory_disk_index info then (ERROR_CORRUPT, z)
                    else (ERROR_NONE, z\<lparr>zip_directory_offset := zd_directory_offset info,
                      zip_file_count := ucast (min (zd_disk_file_count info) (zd_file_count info))\<rparr>))"

definition libspectrum_zip_num_entries :: "libspectrum_zip option \<Rightarrow> dword" where
  "libspectrum_zip_num_entries z = (case z of None \<Rightarrow> 0 | Some z \<Rightarrow> zip_file_count z)"

definition libspectrum_zip_rewind :: "libspectrum_zip \<Rightarrow> libspectrum_error \<times> libspectrum_zip" where
  "libspectrum_zip_rewind z =
     (if \<not> zip_open z then (ERROR_INVALID, z)
      else
        let (error, z) = zip_seek z (uint (zip_directory_offset z)) SEEK_SET
        in if error \<noteq> ERROR_NONE then (error, z)
           else (ERROR_NONE, z\<lparr>zip_file_index := 0, zip_open := True\<rparr>))"

text \<open>
  The loop of \<open>read_directory\<close> with at most \<open>n\<close> entries left: it goes on after a name that is too
  long. The first component says whether it returned 0.
\<close>

fun read_directory_loop :: "nat \<Rightarrow> libspectrum_zip \<Rightarrow> bool \<times> libspectrum_zip" where
  "read_directory_loop 0 z = (False, z)"
| "read_directory_loop (Suc n) z =
     (let z = z\<lparr>zip_file_index := zip_file_index z + 1\<rparr>
      in case read_file_header (zip_input_data z) (zip_ptr z) of
           None \<Rightarrow> (False, z)
         | Some info \<Rightarrow>
             let z = z\<lparr>zip_file_info := info, zip_ptr := zip_ptr z + ZIP_FILE_HEADER_SIZE\<rparr>
             in if zf_magic info \<noteq> ZIP_FILE_HEADER_SIG then (False, z)
                else
                  let z = z\<lparr>zip_file_ignore_case := drop_bit 8 (zf_creator_version info) \<noteq> 3\<rparr>;
                      name_size = unat (zf_name_size info);
                      skip = (ucast (zf_comment_size info) + ucast (zf_extra_field_size info) + ucast (zf_name_size info) :: dword)
                  in if zip_ptr z + name_size > length (zip_input_data z) then (False, z)
                     else
                       let retry = name_size \<ge> 1024;
                           z = (if retry then z
                             else z\<lparr>zip_file_name := c_string (take name_size (drop (zip_ptr z) (zip_input_data z)))\<rparr>);
                           (error, z) = (if skip > 0 then zip_seek z (uint skip) SEEK_CUR else (ERROR_NONE, z))
                       in if error \<noteq> ERROR_NONE then (False, z)
                          else if retry then read_directory_loop n z
                          else (True, z))"

definition entries_left :: "libspectrum_zip \<Rightarrow> nat" where
  "entries_left z = unat (zip_file_count z) - unat (zip_file_index z)"

definition read_directory :: "libspectrum_zip \<Rightarrow> bool \<times> libspectrum_zip" where
  "read_directory z = read_directory_loop (entries_left z) z"

section \<open>Archives\<close>

text \<open>\<open>close_zip\<close>; the pointers of a closed archive are not used any more.\<close>

definition close_zip :: "libspectrum_zip \<Rightarrow> libspectrum_zip" where
  "close_zip z = z\<lparr>zip_open := False, zip_input_data := [], zip_ptr := 0\<rparr>"

text \<open>\<open>libspectrum_new0\<close>.\<close>

definition zip_new0 :: "byte list \<Rightarrow> libspectrum_zip" where
  "zip_new0 buf = \<lparr>zip_open = True, zip_input_data = buf, zip_ptr = 0, zip_directory_offset = 0, zip_file_count = 0,
     zip_file_index = 0, zip_file_info = \<lparr>zf_magic = 0, zf_creator_version = 0, zf_required_version = 0, zf_flags = 0,
       zf_compression = 0, zf_mod_time = 0, zf_mod_date = 0, zf_crc = 0, zf_compressed_size = 0,
       zf_uncompressed_size = 0, zf_name_size = 0, zf_extra_field_size = 0, zf_comment_size = 0,
       zf_disk_index = 0, zf_internal_flags = 0, zf_external_flags = 0, zf_file_offset = 0\<rparr>,
     zip_file_name = [], zip_file_ignore_case = False\<rparr>"

text \<open>A null pointer is the result \<open>None\<close>.\<close>

definition libspectrum_zip_open :: "byte list option \<Rightarrow> libspectrum_zip option" where
  "libspectrum_zip_open buffer =
     (case buffer of
        None \<Rightarrow> None
      | Some buf \<Rightarrow>
          if buf = [] then None
          else
            let (error, z) = locate_directory (zip_new0 buf)
            in if error \<noteq> ERROR_NONE then None
               else
                 let (error, z) = libspectrum_zip_rewind z
                 in if error \<noteq> ERROR_NONE then None else Some z)"

text \<open>The character before the first one of an empty name is outside of the array.\<close>

definition dump_entry_stat :: "libspectrum_zip \<Rightarrow> zip_stat option" where
  "dump_entry_stat z =
     (if zip_file_name z = [] then None
      else Some \<lparr>stat_name = zip_file_name z, stat_filename = base_name (zip_file_name z),
        stat_size = zf_uncompressed_size (zip_file_info z), stat_is_dir = (last (zip_file_name z) = CHR ''/''),
        stat_index = ucast (zip_file_index z - 1)\<rparr>)"

text \<open>The return value is whether there is an entry.\<close>

definition libspectrum_zip_next :: "libspectrum_zip \<Rightarrow> (zip_stat option \<times> libspectrum_zip) option" where
  "libspectrum_zip_next z =
     (if \<not> zip_open z then Some (None, z)
      else
        let (found, z) = read_directory z
        in if \<not> found then Some (None, z)
           else do {
             info \<leftarrow> dump_entry_stat z;
             Some (Some info, z) })"

text \<open>
  The loop of \<open>libspectrum_zip_locate\<close>: every round reads at least one entry, and without entries
  that are left \<open>read_directory\<close> fails.
\<close>

fun zip_locate_loop ::
    "nat \<Rightarrow> string \<Rightarrow> bool \<Rightarrow> bool \<Rightarrow> libspectrum_zip \<Rightarrow> (int \<times> zip_stat option \<times> libspectrum_zip) option" where
  "zip_locate_loop 0 filename ignore_dir ignore_case z = Some (-1, None, z)"
| "zip_locate_loop (Suc n) filename ignore_dir ignore_case z =
     (let (found, z) = read_directory z
      in if \<not> found then Some (-1, None, z)
         else
           let fname = (if ignore_dir then base_name (zip_file_name z) else zip_file_name z)
           in if fname = [] \<or> last fname = CHR ''/'' then zip_locate_loop n filename ignore_dir ignore_case z
              else if match_file_names filename fname ignore_case then do {
                info \<leftarrow> dump_entry_stat z;
                Some (uint (stat_index info), Some info, z) }
              else zip_locate_loop n filename ignore_dir ignore_case z)"

definition libspectrum_zip_locate ::
    "libspectrum_zip \<Rightarrow> string \<Rightarrow> int \<Rightarrow> (int \<times> zip_stat option \<times> libspectrum_zip) option" where
  "libspectrum_zip_locate z filename flags =
     (if \<not> zip_open z then Some (-1, None, z)
      else if filename = [] then Some (-1, None, z)
      else
        let (error, z) = libspectrum_zip_rewind z
        in if error \<noteq> ERROR_NONE then Some (-1, None, close_zip z)
           else zip_locate_loop (entries_left z) filename (flags AND ZIPFLAG_NODIR \<noteq> 0)
             (if flags AND ZIPFLAG_AUTOCASE \<noteq> 0 then zip_file_ignore_case z else flags AND ZIPFLAG_NOCASE \<noteq> 0) z)"

section \<open>Reading files\<close>

text \<open>The offset of the local header is signed.\<close>

definition prepare_stream :: "libspectrum_zip \<Rightarrow> libspectrum_error \<times> libspectrum_zip" where
  "prepare_stream z =
     (let (error, z) = zip_seek z (sint (zf_file_offset (zip_file_info z))) SEEK_SET
      in if error \<noteq> ERROR_NONE then (error, z)
         else case read_local_header (zip_input_data z) (zip_ptr z) of
                None \<Rightarrow> (ERROR_CORRUPT, z)
              | Some header \<Rightarrow>
                  let z = z\<lparr>zip_ptr := zip_ptr z + ZIP_LOCAL_HEADER_SIZE\<rparr>
                  in if local_magic header \<noteq> ZIP_LOCAL_HEADER_SIG then (ERROR_SIGNATURE, z)
                     else if local_required_version header AND 0xff > ZIP_SUPPORTED_VERSION then (ERROR_SIGNATURE, z)
                     else zip_seek z (int (unat (local_name_size header) + unat (local_extra_field_size header))) SEEK_CUR)"

definition decompress_stream ::
    "'s zlib \<Rightarrow> libspectrum_zip \<Rightarrow> size_t \<Rightarrow> (byte list \<times> libspectrum_zip) c_result" where
  "decompress_stream zl z buffer_size =
     (let left = unat (zf_compressed_size (zip_file_info z))
      in if left = 0 then Some (ERROR_CORRUPT, [], z)
         else if zip_ptr z + left > length (zip_input_data z) then Some (ERROR_CORRUPT, [], z)
         else do {
           (error, data) \<leftarrow> libspectrum_zip_inflate zl (drop (zip_ptr z) (zip_input_data z)) (of_nat left) buffer_size;
           Some (if error \<noteq> ERROR_NONE then (error, [], z)
                 else (ERROR_NONE, data, z\<lparr>zip_ptr := zip_ptr z + left\<rparr>)) })"

text \<open>
  The data has no meaning after an error. A stored file that goes past the end of the archive gives the code 1, which
  is \<open>LIBSPECTRUM_ERROR_WARNING\<close>.
\<close>

definition libspectrum_zip_read :: "'s zlib \<Rightarrow> libspectrum_zip \<Rightarrow> (byte list \<times> libspectrum_zip) c_result" where
  "libspectrum_zip_read zl z =
     (let last = zip_ptr z; (error, z) = prepare_stream z
      in if error \<noteq> ERROR_NONE then Some (error, [], z\<lparr>zip_ptr := last\<rparr>)
         else
           let sz = unat (zf_uncompressed_size (zip_file_info z)); method = zf_compression (zip_file_info z)
           in if sz = 0 then Some (ERROR_UNKNOWN, [], z)
              else do {
                (error, data, z) \<leftarrow>
                  (if method = 0 then
                     (if zip_ptr z + sz > length (zip_input_data z) then Some (ERROR_WARNING, [], z)
                      else map_option (\<lambda>d. (ERROR_NONE, d, z)) (copy_out (zip_input_data z) (zip_ptr z) sz))
                   else if method = 8 then
                     map_option (\<lambda>(error, d, z').
                         if error \<noteq> ERROR_NONE then (ERROR_CORRUPT, [], z'\<lparr>zip_ptr := last\<rparr>) else (ERROR_NONE, d, z'))
                       (decompress_stream zl z (of_nat sz))
                   else Some (ERROR_INVALID, [], z\<lparr>zip_ptr := last\<rparr>));
                Some (if error \<noteq> ERROR_NONE then (error, [], z)
                      else if zlib_crc32 zl data \<noteq> zf_crc (zip_file_info z) then (ERROR_CORRUPT, [], z\<lparr>zip_ptr := last\<rparr>)
                      else (ERROR_NONE, data, z\<lparr>zip_ptr := last\<rparr>)) })"

text \<open>Whether the name of an entry promises a file that emulators load.\<close>

definition likely_file :: "zip_stat \<Rightarrow> bool" where
  "likely_file info \<longleftrightarrow> stat_size info \<noteq> 0 \<and>
     libspectrum_identify_class (libspectrum_identify_file_raw (Some (stat_filename info)) []) \<notin>
       set [CLASS_UNKNOWN, CLASS_COMPRESSED, CLASS_AUXILIARY]"

text \<open>The loop over the entries, of which at most \<open>n\<close> are left.\<close>

fun zip_blind_read_loop :: "'s zlib \<Rightarrow> nat \<Rightarrow> libspectrum_zip \<Rightarrow> byte list c_result" where
  "zip_blind_read_loop zl 0 z = Some (ERROR_UNKNOWN, [])"
| "zip_blind_read_loop zl (Suc n) z = do {
     (info, z) \<leftarrow> libspectrum_zip_next z;
     (case info of
        None \<Rightarrow> Some (ERROR_UNKNOWN, [])
      | Some info \<Rightarrow>
          if likely_file info then map_option (apsnd fst) (libspectrum_zip_read zl z)
          else zip_blind_read_loop zl n z) }"

definition libspectrum_zip_blind_read :: "'s zlib \<Rightarrow> byte list \<Rightarrow> byte list c_result" where
  "libspectrum_zip_blind_read zl zipptr =
     (case libspectrum_zip_open (Some zipptr) of
        None \<Rightarrow> Some (ERROR_INVALID, [])
      | Some z \<Rightarrow> zip_blind_read_loop zl (entries_left z) z)"

end
