(* ===== verification/Snap_Files.thy ===== *)
theory Snap_Files
  imports Zip Sna Z80_Read Z80_Write Snap_Small Zxs Szx_Read Szx_Write
begin

text \<open>
  Compressed files (the second half of \<open>libspectrum.c\<close>) and the readers and writers of snapshots
  of any format (\<open>snapshot.c\<close>), in the configuration with zlib and libbz2. \<open>None\<close> is
  also the result of a call that does not return.
\<close>

section \<open>Compressed files\<close>

definition without_suffix :: "string \<Rightarrow> string \<Rightarrow> string" where
  "without_suffix suffix name =
     (if length name \<ge> length suffix \<and> strcaseeq (drop (length name - length suffix) name) suffix
      then take (length name - length suffix) name else name)"

text \<open>\<open>want_name\<close>: the caller passes a pointer for the new name. The result is the data and the new name.\<close>

definition libspectrum_uncompress_file ::
    "'s zlib \<Rightarrow> 'b bzip2 \<Rightarrow> bool \<Rightarrow> libspectrum_id_t \<Rightarrow> byte list \<Rightarrow> string option \<Rightarrow> (byte list \<times> string option) c_result" where
  "libspectrum_uncompress_file z bz want_name type old_buffer old_filename =
     (if libspectrum_identify_class type \<noteq> CLASS_COMPRESSED then Some (ERROR_LOGIC, [], None)
      else
        let new_filename = (if want_name then old_filename else None)
        in case type of
             ID_COMPRESSED_BZ2 \<Rightarrow>
               map_option (\<lambda>(error, data). if error \<noteq> ERROR_NONE then (error, [], None)
                   else (ERROR_NONE, data, map_option (without_suffix ''.bz2'') new_filename))
                 (libspectrum_bzip2_inflate bz old_buffer 0)
           | ID_COMPRESSED_GZ \<Rightarrow>
               map_option (\<lambda>(error, data). if error \<noteq> ERROR_NONE then (error, [], None)
                   else (ERROR_NONE, data, map_option (without_suffix ''.gz'') new_filename))
                 (libspectrum_gzip_inflate z old_buffer 0)
           | ID_COMPRESSED_ZIP \<Rightarrow>
               map_option (\<lambda>(error, data). if error \<noteq> ERROR_NONE then (error, [], None)
                   else (ERROR_NONE, data, map_option (without_suffix ''.zip'') new_filename))
                 (libspectrum_zip_blind_read z old_buffer)
           | _ \<Rightarrow> Some (ERROR_LOGIC, [], None))"

text \<open>The recursion ends when the data is not compressed (any more).\<close>

partial_function (option) libspectrum_identify_file_with_class ::
    "'s zlib \<Rightarrow> 'b bzip2 \<Rightarrow> string option \<Rightarrow> byte list \<Rightarrow> (libspectrum_id_t \<times> libspectrum_class_t) c_result" where
  "libspectrum_identify_file_with_class z bz filename buf =
     (let type = libspectrum_identify_file_raw filename buf; cls = libspectrum_identify_class type
      in if cls \<noteq> CLASS_COMPRESSED then Some (ERROR_NONE, type, cls)
         else do {
           (error, new_buffer, new_filename) \<leftarrow> libspectrum_uncompress_file z bz True type buf filename;
           (if error \<noteq> ERROR_NONE then Some (error, type, cls)
            else libspectrum_identify_file_with_class z bz new_filename new_buffer) })"

definition libspectrum_identify_file ::
    "'s zlib \<Rightarrow> 'b bzip2 \<Rightarrow> string option \<Rightarrow> byte list \<Rightarrow> libspectrum_id_t c_result" where
  "libspectrum_identify_file z bz filename buf =
     map_option (\<lambda>(error, type, cls). (error, type)) (libspectrum_identify_file_with_class z bz filename buf)"

text \<open>
  What the readers of snapshots and of tapes do first: the type of the file, if the caller does not
  know it, and the data of a compressed file, which is uncompressed once.
\<close>

definition guess_type ::
    "'s zlib \<Rightarrow> 'b bzip2 \<Rightarrow> byte list \<Rightarrow> libspectrum_id_t \<Rightarrow> string option \<Rightarrow> libspectrum_id_t c_result" where
  "guess_type z bz buf type filename =
     (if type = ID_UNKNOWN then do {
        (error, type) \<leftarrow> libspectrum_identify_file z bz filename buf;
        Some (if error \<noteq> ERROR_NONE then (error, type)
              else if type = ID_UNKNOWN then (ERROR_UNKNOWN, type) else (ERROR_NONE, type)) }
      else Some (ERROR_NONE, type))"

definition plain_data ::
    "'s zlib \<Rightarrow> 'b bzip2 \<Rightarrow> byte list \<Rightarrow> string option \<Rightarrow> byte list c_result" where
  "plain_data z bz buf filename =
     (let raw_type = libspectrum_identify_file_raw filename buf
      in if libspectrum_identify_class raw_type = CLASS_COMPRESSED
         then map_option (\<lambda>(error, data, _). (error, data)) (libspectrum_uncompress_file z bz False raw_type buf None)
         else Some (ERROR_NONE, buf))"

section \<open>Snapshots\<close>

definition libspectrum_snap_read ::
    "(nat \<Rightarrow> byte) \<Rightarrow> int \<Rightarrow> 's zlib \<Rightarrow> 'b bzip2 \<Rightarrow> libspectrum_snap \<Rightarrow> byte list \<Rightarrow> libspectrum_id_t \<Rightarrow> string option \<Rightarrow>
     libspectrum_snap c_result" where
  "libspectrum_snap_read junk junk_int z bz snap buf type filename = do {
     (error, type) \<leftarrow> guess_type z bz buf type filename;
     (if error \<noteq> ERROR_NONE then Some (error, snap)
      else if libspectrum_identify_class type \<noteq> CLASS_SNAPSHOT then Some (ERROR_CORRUPT, snap)
      else do {
        (error, buf) \<leftarrow> plain_data z bz buf filename;
        (if error \<noteq> ERROR_NONE then Some (error, snap)
         else case type of
             ID_SNAPSHOT_PLUSD \<Rightarrow> libspectrum_plusd_read snap buf
           | ID_SNAPSHOT_SNA \<Rightarrow> internal_sna_read junk snap buf
           | ID_SNAPSHOT_SNP \<Rightarrow> libspectrum_snp_read snap buf
           | ID_SNAPSHOT_SP \<Rightarrow> libspectrum_sp_read snap buf
           | ID_SNAPSHOT_SZX \<Rightarrow> libspectrum_szx_read z snap buf
           | ID_SNAPSHOT_Z80 \<Rightarrow> internal_z80_read junk snap buf
           | ID_SNAPSHOT_ZXS \<Rightarrow> libspectrum_zxs_read z junk_int snap buf
           | _ \<Rightarrow> Some (ERROR_LOGIC, snap)) }) }"

text \<open>\<open>out_flags\<close> is what the caller has in \<open>*out_flags\<close>.\<close>

definition libspectrum_snap_write_buffer ::
    "(nat \<Rightarrow> byte) \<Rightarrow> 's zlib \<Rightarrow> lbuffer \<Rightarrow> int \<Rightarrow> libspectrum_snap \<Rightarrow> libspectrum_id_t \<Rightarrow> libspectrum_creator option \<Rightarrow>
     int \<Rightarrow> (libspectrum_error \<times> int \<times> lbuffer) option" where
  "libspectrum_snap_write_buffer junk z b out_flags snap type creator in_flags =
     (if libspectrum_identify_class type \<noteq> CLASS_SNAPSHOT then Some (ERROR_INVALID, out_flags, b)
      else case type of
          ID_SNAPSHOT_SNA \<Rightarrow> libspectrum_sna_write junk b snap
        | ID_SNAPSHOT_SZX \<Rightarrow> libspectrum_szx_write junk z b snap creator in_flags
        | ID_SNAPSHOT_Z80 \<Rightarrow> libspectrum_z80_write2 junk b snap in_flags
        | _ \<Rightarrow> Some (ERROR_UNKNOWN, out_flags, b))"

definition libspectrum_snap_write ::
    "(nat \<Rightarrow> byte) \<Rightarrow> 's zlib \<Rightarrow> room \<Rightarrow> int \<Rightarrow> libspectrum_snap \<Rightarrow> libspectrum_id_t \<Rightarrow> libspectrum_creator option \<Rightarrow>
     int \<Rightarrow> (libspectrum_error \<times> int \<times> room) option" where
  "libspectrum_snap_write junk z r out_flags snap type creator in_flags = do {
     (error, out_flags, b) \<leftarrow>
       libspectrum_snap_write_buffer junk z (libspectrum_buffer_alloc junk) out_flags snap type creator in_flags;
     r \<leftarrow> libspectrum_buffer_append junk (r\<lparr>ptr := 0\<rparr>) b;
     Some (error, out_flags, r) }"

end
