(* ===== verification/Tape_Formats.thy ===== *)
theory Tape_Formats
  imports Tzx_Write Tzx_Read Tap Zlib
begin

text \<open>
  The smaller tape formats: .pzx files (\<open>pzx_read.c\<close>), .csw files (\<open>csw.c\<close>, with zlib) and the raw
  samples of z80 emulators (\<open>z80em.c\<close>). As in the .tzx reader the position is the list of the bytes
  that are left, and a reader is given the address of the node that it may append.
\<close>

section \<open>pzx files\<close>

definition pzx_info_ids :: "(string \<times> int) list" where
  "pzx_info_ids =
     [(''Author'', 0x02), (''Comment'', 0xff), (''Language'', 0x04), (''Origin'', 0x08), (''Price'', 0x06),
      (''Protection'', 0x07), (''Publisher'', 0x01), (''Type'', 0x05), (''Year'', 0x03)]"

definition get_id_byte :: "byte list \<Rightarrow> int" where
  "get_id_byte info_tag =
     (case map_of pzx_info_ids (map (\<lambda>b. char_of (unat b)) info_tag) of None \<Rightarrow> -1 | Some i \<Rightarrow> i)"

definition pzx_read_data :: "byte list \<Rightarrow> nat \<Rightarrow> nat \<Rightarrow> (byte list \<times> byte list) c_result" where
  "pzx_read_data rest left len =
     (if left < len then Some (ERROR_CORRUPT, [], rest)
      else map_option (\<lambda>d. (ERROR_NONE, d, drop len rest)) (copy_out rest 0 len))"

text \<open>
  The characters up to a null or the end of the block, of which \<open>left\<close> bytes are left; the byte after
  the block is looked at before the end is noticed.
\<close>

fun pzx_chars :: "nat \<Rightarrow> byte list \<Rightarrow> byte list option" where
  "pzx_chars left [] = None"
| "pzx_chars left (b # rest) =
     (if b = 0 \<or> left = 0 then Some [] else map_option ((#) (if b = 0x0d then 0x0a else b)) (pzx_chars (left - 1) rest))"

text \<open>The string without its null. Whatever follows it in the block is skipped.\<close>

definition pzx_read_string :: "nat \<Rightarrow> byte list \<Rightarrow> (byte list \<times> byte list) option" where
  "pzx_read_string left rest = map_option (\<lambda>s. (s, drop left rest)) (pzx_chars left rest)"

text \<open>The loop over the pairs of a tag and a string; each of them is read up to the end of the block.\<close>

definition pzx_info_loop ::
    "int list \<Rightarrow> byte list list \<Rightarrow> nat \<Rightarrow> byte list \<Rightarrow> (int list \<times> byte list list \<times> byte list) option" where
  "pzx_info_loop ids strings left rest =
     (if left = 0 then Some (ids, strings, rest)
      else do {
        (info_tag, rest) \<leftarrow> pzx_read_string left rest;
        (string, rest) \<leftarrow> pzx_read_string 0 rest;
        Some (if get_id_byte info_tag = -1
              then (ids @ [0xff], strings @ [info_tag @ [0x3a, 0x20] @ string @ [0]], rest)
              else (ids @ [get_id_byte info_tag], strings @ [string @ [0]], rest)) })"

definition read_pzxt_block :: "nat \<Rightarrow> libspectrum_tape \<Rightarrow> byte list \<Rightarrow> nat \<Rightarrow> tzx_result" where
  "read_pzxt_block n tape rest len =
     (if len < 2 then Some (ERROR_CORRUPT, tape, rest)
      else do {
        b0 \<leftarrow> nget rest 0; b1 \<leftarrow> nget rest 1;
        let version = (push_bit 8 (ucast b0) OR ucast b1 :: lword);
        let rest = drop 2 rest;
        let left = len - 2;
        (if version < 0x0100 \<or> version \<ge> 0x0200 then Some (ERROR_UNKNOWN, tape, rest)
         else if left = 0 then Some (ERROR_NONE, tape, rest)
         else do {
           (title, rest) \<leftarrow> pzx_read_string left rest;
           (ids, strings, rest) \<leftarrow> pzx_info_loop [0] [title @ [0]] 0 rest;
           tzx_append n tape (ARCHIVE_INFO
             \<lparr>ai_count = of_nat (length ids), ai_ids = ids, ai_strings = strings\<rparr>) rest }) })"

text \<open>The pulses are copied as bytes into an array of words, on a little-endian machine.\<close>

fun pzx_words :: "byte list \<Rightarrow> lword list" where
  "pzx_words (a # b # bytes) = (ucast a + ucast b * 0x100) # pzx_words bytes"
| "pzx_words _ = []"

definition read_data_block :: "nat \<Rightarrow> libspectrum_tape \<Rightarrow> byte list \<Rightarrow> nat \<Rightarrow> tzx_result" where
  "read_data_block n tape rest len =
     (if len < 8 then Some (ERROR_CORRUPT, tape, rest)
      else do {
        (count, _) \<leftarrow> libspectrum_read_dword rest 0;
        (tail, _) \<leftarrow> libspectrum_read_word rest 4;
        p0_count \<leftarrow> nget rest 6; p1_count \<leftarrow> nget rest 7;
        let initial_level = (if count AND 0x80000000 \<noteq> 0 then 1 else 0);
        let count = count AND 0x7fffffff;
        let count_bytes = libspectrum_bits_to_bytes (ucast count);
        let bits_in_last_byte = (if count mod 8 \<noteq> 0 then ucast (count mod 8) else 8);
        let rest = drop 8 rest;
        let p0_bytes = unat p0_count * 2;
        let p1_bytes = unat p1_count * 2;
        (if len < 8 + p0_bytes + p1_bytes then Some (ERROR_CORRUPT, tape, rest)
         else
           tzx_then (pzx_read_data rest (len - 8) p0_bytes) (tape, rest) (\<lambda>(p0_pulses, rest).
           tzx_then (pzx_read_data rest (len - 8 - p0_bytes) p1_bytes) (tape, rest) (\<lambda>(p1_pulses, rest).
           tzx_then (pzx_read_data rest (len - 8 - p0_bytes - p1_bytes) (unat count_bytes)) (tape, rest) (\<lambda>(data, rest).
             tzx_append n tape (DATA_BLOCK
               \<lparr>db_count = ucast count, db_initial_level = initial_level, db_data = data, db_tail_length = ucast tail,
                db_bit0_pulse_count = ucast p0_count, db_bit1_pulse_count = ucast p1_count,
                db_bit0_pulses = pzx_words p0_pulses, db_bit1_pulses = pzx_words p1_pulses,
                db_length = count_bytes, db_bits_in_last_byte = bits_in_last_byte\<rparr>) rest)))) })"

text \<open>The number of repeats and the length of a pulse, and what is left of the block.\<close>

definition read_next_pulse :: "byte list \<Rightarrow> (size_t \<times> dword \<times> byte list) c_result" where
  "read_next_pulse left =
     (if length left < 2 then Some (ERROR_CORRUPT, 0, 0, left)
      else do {
        (w, _) \<leftarrow> libspectrum_read_word left 0;
        (error, repeats, len, left) \<leftarrow>
          (if w > 0x8000 then
             (if length left < 4 then Some (ERROR_CORRUPT, 0, 0, left)
              else map_option (\<lambda>(v, _). (ERROR_NONE, ucast (w AND 0x7fff), ucast v :: dword, drop 4 left))
                (libspectrum_read_word left 2))
           else Some (ERROR_NONE, 1 :: size_t, ucast w, drop 2 left));
        (if error \<noteq> ERROR_NONE then Some (error, 0, 0, left)
         else if len \<ge> 0x8000 then
           (if length left < 2 then Some (ERROR_CORRUPT, 0, 0, left)
            else map_option (\<lambda>(v, _). (ERROR_NONE, repeats, push_bit 16 (len AND 0x7fff) OR ucast v, drop 2 left))
              (libspectrum_read_word left 0))
         else Some (ERROR_NONE, repeats, len, left)) })"

text \<open>Every pulse takes at least two bytes.\<close>

fun pzx_pulses :: "nat \<Rightarrow> byte list \<Rightarrow> (size_t list \<times> dword list) c_result" where
  "pzx_pulses k [] = Some (ERROR_NONE, [], [])"
| "pzx_pulses 0 (b # left) = None"
| "pzx_pulses (Suc k) (b # left) = do {
     (error, repeats, len, left) \<leftarrow> read_next_pulse (b # left);
     (if error \<noteq> ERROR_NONE then Some (error, [], [])
      else map_option (\<lambda>(error, rs, ls). (error, repeats # rs, len # ls)) (pzx_pulses k left)) }"

definition read_puls_block :: "nat \<Rightarrow> libspectrum_tape \<Rightarrow> byte list \<Rightarrow> nat \<Rightarrow> tzx_result" where
  "read_puls_block n tape rest len = do {
     left \<leftarrow> copy_out rest 0 len;
     tzx_then (pzx_pulses len left) (tape, rest) (\<lambda>(repeats, lengths).
       if repeats = [] then Some (ERROR_CORRUPT, tape, drop len rest)
       else tzx_append n tape (PULSE_SEQUENCE
         \<lparr>ps_count = of_nat (length repeats), ps_lengths = lengths, ps_pulse_repeats = repeats\<rparr>) (drop len rest)) }"

definition read_paus_block :: "nat \<Rightarrow> libspectrum_tape \<Rightarrow> byte list \<Rightarrow> nat \<Rightarrow> tzx_result" where
  "read_paus_block n tape rest len =
     (if len < 2 then Some (ERROR_CORRUPT, tape, rest)
      else do {
        (pause, _) \<leftarrow> libspectrum_read_dword rest 0;
        let level = (if pause AND 0x80000000 \<noteq> 0 then 1 else 0);
        tzx_append n tape (libspectrum_set_pause_tstates
          (PAUSE \<lparr>pause_length = 0, pause_length_tstates = 0, pause_level = level\<rparr>) (pause AND 0x7fffffff)) (drop 4 rest) })"

definition read_brws_block :: "nat \<Rightarrow> libspectrum_tape \<Rightarrow> byte list \<Rightarrow> nat \<Rightarrow> tzx_result" where
  "read_brws_block n tape rest len = do {
     (text, rest) \<leftarrow> pzx_read_string len rest;
     tzx_append n tape (COMMENT (text @ [0])) rest }"

text \<open>Of the pause of a stop block only the length in milliseconds is set; the rest of \<open>junk\<close> is indeterminate.\<close>

definition read_stop_block :: "pause_block \<Rightarrow> nat \<Rightarrow> libspectrum_tape \<Rightarrow> byte list \<Rightarrow> nat \<Rightarrow> tzx_result" where
  "read_stop_block junk n tape rest len =
     (if len < 2 then Some (ERROR_CORRUPT, tape, rest)
      else do {
        (flags, _) \<leftarrow> libspectrum_read_word rest 0;
        tzx_append n tape (if flags = 1 then STOP48 else PAUSE (junk\<lparr>pause_length := 0\<rparr>)) (drop 2 rest) })"

definition pzx_skip_block :: "libspectrum_tape \<Rightarrow> byte list \<Rightarrow> nat \<Rightarrow> tzx_result" where
  "pzx_skip_block tape rest len = Some (ERROR_NONE, tape, drop len rest)"

definition read_pzx_blocks ::
    "pause_block \<Rightarrow> (byte list \<times> (nat \<Rightarrow> libspectrum_tape \<Rightarrow> byte list \<Rightarrow> nat \<Rightarrow> tzx_result)) list" where
  "read_pzx_blocks junk =
     [(map of_char ''PZXT'', read_pzxt_block), (map of_char ''PULS'', read_puls_block),
      (map of_char ''DATA'', read_data_block), (map of_char ''PAUS'', read_paus_block),
      (map of_char ''BRWS'', read_brws_block), (map of_char ''STOP'', read_stop_block junk),
      (map of_char ''inly'', \<lambda>n. pzx_skip_block)]"

definition pzx_read_block :: "pause_block \<Rightarrow> nat \<Rightarrow> libspectrum_tape \<Rightarrow> byte list \<Rightarrow> tzx_result" where
  "pzx_read_block junk n tape rest =
     (if length rest < 8 then Some (ERROR_CORRUPT, tape, rest)
      else do {
        (len, _) \<leftarrow> libspectrum_read_dword rest 4;
        let id = take 4 rest;
        let rest = drop 8 rest;
        (if length rest < unat len then Some (ERROR_CORRUPT, tape, rest)
         else case map_of (read_pzx_blocks junk) id of
                Some f \<Rightarrow> f n tape rest (unat len)
              | None \<Rightarrow> Some (ERROR_NONE, tape, drop (unat len) rest)) })"

text \<open>Every block takes at least the eight bytes of its header.\<close>

fun pzx_read_loop :: "pause_block \<Rightarrow> nat \<Rightarrow> nat \<Rightarrow> libspectrum_tape \<Rightarrow> byte list \<Rightarrow> libspectrum_tape c_result" where
  "pzx_read_loop junk k n tape [] = Some (ERROR_NONE, tape)"
| "pzx_read_loop junk 0 n tape (b # rest) = None"
| "pzx_read_loop junk (Suc k) n tape (b # rest) = do {
     (error, tape, rest) \<leftarrow> pzx_read_block junk n tape (b # rest);
     (if error \<noteq> ERROR_NONE then Some (error, tape) else pzx_read_loop junk k (n + 1) tape rest) }"

definition internal_pzx_read :: "pause_block \<Rightarrow> nat \<Rightarrow> libspectrum_tape \<Rightarrow> byte list \<Rightarrow> libspectrum_tape c_result" where
  "internal_pzx_read junk n tape input =
     (if length input < 8 then Some (ERROR_CORRUPT, tape)
      else if take 4 input \<noteq> map of_char ''PZXT'' then Some (ERROR_SIGNATURE, tape)
      else pzx_read_loop junk (length input) n tape input)"

section \<open>Raw samples\<close>

definition z80em_id :: "byte list" where
  "z80em_id = replicate 48 0 @ map of_char ''Raw tape sample'' @ [0]"

definition libspectrum_z80em_read :: "nat \<Rightarrow> libspectrum_tape \<Rightarrow> byte list \<Rightarrow> libspectrum_tape c_result" where
  "libspectrum_z80em_read n tape input =
     (if length input < length z80em_id then Some (ERROR_CORRUPT, tape)
      else if take (length z80em_id) input \<noteq> z80em_id then Some (ERROR_SIGNATURE, tape)
      else do {
        let data = drop (length z80em_id) input;
        tape \<leftarrow> libspectrum_tape_append_block n tape
          (RLE_PULSE \<lparr>rle_length = of_nat (length data), rle_data = data, rle_scale = 7\<rparr>);
        Some (ERROR_NONE, tape) })"

section \<open>csw files\<close>

definition csw_signature :: "byte list" where
  "csw_signature = map of_char ''Compressed Square Wave'' @ [0x1a]"

text \<open>
  The header behind the signature: the sample rate, whether the data is compressed, the length the
  code counts and where the data starts, which is behind the fixed header and its extension
  although only the length of the fixed header less that of the extension is checked.
\<close>

definition csw_header :: "byte list \<Rightarrow> (int \<times> int \<times> size_t \<times> nat) c_result" where
  "csw_header buf = do {
     version \<leftarrow> nget buf 0;
     let len = (of_nat (length buf) :: size_t);
     (if version = 1 then
        if length buf < 9 then Some (ERROR_CORRUPT, 0, 0, 0, 0)
        else do {
          (rate, _) \<leftarrow> libspectrum_read_word buf 2;
          kind \<leftarrow> nget buf 4;
          Some (if kind \<noteq> 1 then (ERROR_CORRUPT, 0, 0, 0, 0)
                else (ERROR_NONE, uint rate, 0, len - 9, 9)) }
      else if version = 2 then
        if length buf < 29 then Some (ERROR_CORRUPT, 0, 0, 0, 0)
        else do {
          (rate, _) \<leftarrow> libspectrum_read_dword buf 2;
          kind \<leftarrow> nget buf 10; extension \<leftarrow> nget buf 12;
          let compressed = uint kind - 1;
          Some (if compressed \<noteq> 0 \<and> compressed \<noteq> 1 then (ERROR_CORRUPT, 0, 0, 0, 0)
                else if len < word_of_int (29 - uint extension) then (ERROR_CORRUPT, 0, 0, 0, 0)
                else (ERROR_NONE, sint rate, compressed, len - word_of_int (29 - uint extension), 29 + unat extension)) }
      else Some (ERROR_SIGNATURE, 0, 0, 0, 0)) }"

text \<open>Integer division in C rounds to zero.\<close>

definition csw_scale :: "int \<Rightarrow> int" where
  "csw_scale rate = (if rate < 0 then - (3500000 div (- rate)) else if rate = 0 then 0 else 3500000 div rate)"

definition libspectrum_csw_read :: "'s zlib \<Rightarrow> nat \<Rightarrow> libspectrum_tape \<Rightarrow> byte list \<Rightarrow> libspectrum_tape c_result" where
  "libspectrum_csw_read z n tape input =
     (if length input < length csw_signature + 2 then Some (ERROR_CORRUPT, tape)
      else if take (length csw_signature) input \<noteq> csw_signature then Some (ERROR_SIGNATURE, tape)
      else do {
        let buf = drop (length csw_signature) input;
        (error, rate, compressed, len, start) \<leftarrow> csw_header buf;
        let scale = csw_scale rate;
        (if error \<noteq> ERROR_NONE then Some (error, tape)
         else if scale < 0 \<or> scale \<ge> 0x80000 then Some (ERROR_UNKNOWN, tape)
         else if len = 0 then Some (ERROR_NONE, tape)
         else do {
           (error, data) \<leftarrow>
             (if compressed \<noteq> 0 then
                (if start > length buf then None else libspectrum_zlib_inflate z (drop start buf) len 0)
              else map_option (Pair ERROR_NONE) (copy_out buf start (unat len)));
           (if error \<noteq> ERROR_NONE then Some (error, tape)
            else do {
              tape \<leftarrow> libspectrum_tape_append_block n tape
                (RLE_PULSE \<lparr>rle_length = of_nat (length data), rle_data = data, rle_scale = scale\<rparr>);
              Some (ERROR_NONE, tape) }) }) })"

text \<open>
  The loop of \<open>find_sample_rate\<close> over the blocks. The rate of a tape is that of its last block of
  samples; a bit length of 0 divides by zero. A block of pulses has no bit length, so that the
  accessor gives its default, \<open>-1\<close>.
\<close>

fun find_sample_rate_loop :: "libspectrum_tape_block list \<Rightarrow> dword \<Rightarrow> dword option" where
  "find_sample_rate_loop [] sample_rate = Some sample_rate"
| "find_sample_rate_loop (RAW_DATA b # blocks) sample_rate =
     (if rd_bit_length b = 0 then None else find_sample_rate_loop blocks (3500000 div rd_bit_length b))"
| "find_sample_rate_loop (RLE_PULSE b # blocks) sample_rate =
     find_sample_rate_loop blocks (3500000 div 0xffffffff)"
| "find_sample_rate_loop (b # blocks) sample_rate = find_sample_rate_loop blocks sample_rate"

definition find_sample_rate :: "libspectrum_tape \<Rightarrow> dword option" where
  "find_sample_rate tape = find_sample_rate_loop (map snd (tape_blocks tape)) 44100"

text \<open>The loop of \<open>csw_write_body\<close> over the edges; \<open>scale\<close> is not zero in it.\<close>

partial_function (option) csw_edges ::
    "(nat \<Rightarrow> byte) \<Rightarrow> dword \<Rightarrow> libspectrum_tape \<Rightarrow> tape_block_state \<Rightarrow> dword \<Rightarrow> dword \<Rightarrow> dword \<Rightarrow> lbuffer \<Rightarrow> lbuffer c_result" where
  "csw_edges junk scale tape it last_flags pulse_tstates balance_tstates b =
     (if last_flags AND FLAGS_STOP \<noteq> 0 then Some (ERROR_NONE, b)
      else do {
        (e, tape, it, io) \<leftarrow> libspectrum_tape_get_next_edge_internal pulse_tstates tape (Some it);
        it \<leftarrow> it;
        (if e \<noteq> ERROR_NONE then Some (e, b)
         else
           let balance = balance_tstates + tstates io
           in if flags io AND FLAGS_NO_EDGE \<noteq> 0 then csw_edges junk scale tape it (flags io) (tstates io) balance b
              else if scale = 0 then None
              else do {
                let pulse_length = balance div scale;
                b \<leftarrow> (if pulse_length = 0 then Some b
                  else if pulse_length \<le> 0xff then libspectrum_buffer_write_byte junk b (ucast pulse_length)
                  else do {
                    b \<leftarrow> libspectrum_buffer_write_byte junk b 0;
                    libspectrum_buffer_write_dword junk b pulse_length });
                csw_edges junk scale tape it (flags io) (tstates io) (balance mod scale) b }) })"

text \<open>\<open>it\<close> is the uninitialised state of the caller. The result has the length before the compression.\<close>

definition csw_write_body ::
    "(nat \<Rightarrow> byte) \<Rightarrow> 's zlib \<Rightarrow> tape_block_state \<Rightarrow> lbuffer \<Rightarrow> libspectrum_tape \<Rightarrow> dword \<Rightarrow> (lbuffer \<times> size_t) c_result" where
  "csw_write_body junk z it b tape sample_rate =
     (if sample_rate = 0 then None
      else do {
        let scale = 3500000 div sample_rate;
        (block, it) \<leftarrow> libspectrum_tape_block_internal_init it (Some tape);
        (error, b) \<leftarrow> (case block of None \<Rightarrow> Some (ERROR_NONE, b) | Some _ \<Rightarrow> csw_edges junk scale tape it 0 0 0 b);
        (if error \<noteq> ERROR_NONE then Some (error, b, 0)
         else
           let body_length = libspectrum_buffer_get_data_size (Some b)
           in if body_length = 0 then Some (ERROR_NONE, b, body_length)
              else do {
                data \<leftarrow> libspectrum_buffer_get_data (Some b);
                data \<leftarrow> copy_out data 0 (unat body_length);
                let (error, gz) = libspectrum_zlib_compress z data;
                (if error \<noteq> ERROR_NONE then Some (error, b, body_length)
                 else do {
                   b \<leftarrow> libspectrum_buffer_clear (Some b);
                   b \<leftarrow> libspectrum_buffer_write junk b gz (of_nat (length gz));
                   Some (ERROR_NONE, b, body_length) }) }) })"

fun csw_write_bytes :: "(nat \<Rightarrow> byte) \<Rightarrow> byte list \<Rightarrow> lbuffer \<Rightarrow> lbuffer option" where
  "csw_write_bytes junk [] b = Some b"
| "csw_write_bytes junk (x # xs) b = libspectrum_buffer_write_byte junk b x \<bind> csw_write_bytes junk xs"

definition libspectrum_csw_write ::
    "(nat \<Rightarrow> byte) \<Rightarrow> 's zlib \<Rightarrow> tape_block_state \<Rightarrow> lbuffer \<Rightarrow> libspectrum_tape \<Rightarrow> lbuffer c_result" where
  "libspectrum_csw_write junk z it b tape = do {
     sample_rate \<leftarrow> find_sample_rate tape;
     (error, body, body_length) \<leftarrow> csw_write_body junk z it (libspectrum_buffer_alloc junk) tape sample_rate;
     (if error \<noteq> ERROR_NONE then Some (error, b)
      else do {
        b \<leftarrow> libspectrum_buffer_write junk b csw_signature (of_nat (length csw_signature));
        b \<leftarrow> csw_write_bytes junk [2, 0] b;
        b \<leftarrow> libspectrum_buffer_write_dword junk b sample_rate;
        b \<leftarrow> libspectrum_buffer_write_dword junk b (ucast body_length);
        b \<leftarrow> csw_write_bytes junk ([2, 0, 0] @ replicate 16 0) b;
        b \<leftarrow> libspectrum_buffer_write_buffer junk b (Some body);
        Some (ERROR_NONE, b) }) }"

section \<open>Writing samples again\<close>

fun sample_block :: "libspectrum_tape_block \<Rightarrow> bool" where
  "sample_block (RAW_DATA b) = True"
| "sample_block (RLE_PULSE b) = True"
| "sample_block _ = False"

lemma sample_rate_after_pulses:
  "filter sample_block blocks \<noteq> [] \<Longrightarrow> last (filter sample_block blocks) = RLE_PULSE p \<Longrightarrow>
     find_sample_rate_loop blocks rate \<in> {None, Some 0}"
proof (induction blocks arbitrary: rate)
  case (Cons x blocks)
  show ?case
  proof (cases "filter sample_block blocks = []")
    case True
    have "find_sample_rate_loop blocks r = Some r" for r
      using True by (induction blocks) (auto elim!: sample_block.elims split: if_splits)
    then show ?thesis using Cons.prems True by (cases x) auto
  next
    case False
    then have last: "last (filter sample_block blocks) = RLE_PULSE p" using Cons.prems by (auto split: if_splits)
    show ?thesis using Cons.IH [OF False last] by (cases x) auto
  qed
qed simp

lemma csw_write_pulses:
  assumes "filter sample_block (map snd (tape_blocks tape)) \<noteq> []"
    "last (filter sample_block (map snd (tape_blocks tape))) = RLE_PULSE p"
  shows "libspectrum_csw_write junk z it b tape = None"
  using sample_rate_after_pulses [OF assms, of 44100]
  by (auto simp: libspectrum_csw_write_def find_sample_rate_def csw_write_body_def)

lemma append_block_last:
  assumes "libspectrum_tape_append_block n tape block = Some tape'" "tape_blocks tape = []"
  shows "map snd (tape_blocks tape') = [block]"
  using assms by (cases "current_block (tape_state tape)") (auto simp: libspectrum_tape_append_block_def Let_def bind_eq_Some_conv)

text \<open>
  C23: a new tape that was read from a .csw file cannot be written as a .csw file: its block of
  pulses has no bit length, the rate becomes 0 and the writer divides by it.
\<close>

theorem csw_rewrite_divides_by_zero:
  assumes "tape_blocks tape = []" "libspectrum_csw_read z n tape input = Some (ERROR_NONE, tape')" "tape_blocks tape' \<noteq> []"
  shows "libspectrum_csw_write junk z' it b tape' = None"
proof -
  obtain data scale where
    "libspectrum_tape_append_block n tape (RLE_PULSE \<lparr>rle_length = of_nat (length data), rle_data = data, rle_scale = scale\<rparr>) = Some tape'"
    using assms by (auto simp: libspectrum_csw_read_def Let_def bind_eq_Some_conv split: if_splits)
  from append_block_last [OF this assms(1)] show ?thesis by (intro csw_write_pulses) auto
qed

theorem csw_rewrite_divides_by_zero_witness:
  "\<forall>st z junk it b. \<exists>tape'. libspectrum_csw_read (z :: unit zlib) 0 (libspectrum_tape_alloc 0 st)
      (csw_signature @ [1, 1, 0x44, 0xac, 1, 0, 0, 0, 0, 20, 20, 20]) = Some (ERROR_NONE, tape') \<and>
    libspectrum_csw_write junk z it b tape' = None"
proof (intro allI)
  fix st :: block_states and z :: "unit zlib" and junk it b
  let ?t = "libspectrum_tape_alloc 0 st" and ?f = "csw_signature @ [1, 1, 0x44, 0xac, 1, 0, 0, 0, 0, 20, 20, 20]"
  have "\<exists>tape'. libspectrum_csw_read z 0 ?t ?f = Some (ERROR_NONE, tape') \<and> tape_blocks tape' \<noteq> []"
    by (simp add: libspectrum_csw_read_def csw_signature_def csw_header_def nget_def libspectrum_read_word_def csw_scale_def
        copy_out_def libspectrum_tape_append_block_def libspectrum_tape_alloc_def Let_def)
  then obtain tape' where "libspectrum_csw_read z 0 ?t ?f = Some (ERROR_NONE, tape')" "tape_blocks tape' \<noteq> []" by blast
  then show "\<exists>tape'. libspectrum_csw_read z 0 ?t ?f = Some (ERROR_NONE, tape') \<and> libspectrum_csw_write junk z it b tape' = None"
    using csw_rewrite_divides_by_zero [of ?t z 0 ?f tape' junk z it b] by (auto simp: libspectrum_tape_alloc_def)
qed

end
