(* ===== verification/Warajevo.thy ===== *)
theory Warajevo
  imports Tzx_Read LS_Buffer
begin

text \<open>
  The tape files of the Warajevo emulator (\<open>warajevo_read.c\<close>): a chain of blocks in the file, and a
  decompressor driven bit by bit. Positions are offsets in the file. Indeterminate memory is
  \<open>junk\<close>; a read past the end of the file and a copy of overlapping objects have no result.
\<close>

section \<open>The copy command\<close>

datatype warajevo_state_type = s_b | s_b0 | s_b1 | s_b01 | s_b10 | s_b11 | s_b110 | s_b111
datatype warajevo_vstate_type = s_v | s_v0 | s_v01 | s_v00 | s_v000 | s_v001 | s_v0010 | s_v0011

record copy_command =
  cmd_mode :: nat
  cmd_state :: warajevo_state_type
  cmd_vstate :: warajevo_vstate_type
  cmd_offset :: int
  cmd_size :: dword
  cmd_pattern :: byte
  cmd_pattern_depth :: nat

definition reset_copy_command :: copy_command where
  "reset_copy_command = \<lparr>cmd_mode = 0, cmd_state = s_b, cmd_vstate = s_v, cmd_offset = 0, cmd_size = 0,
     cmd_pattern = 0, cmd_pattern_depth = 0\<rparr>"

text \<open>
  The data that is made, the position behind the input of the commands, the number of bytes that
  have been made, and the static variable \<open>command\<close>.
\<close>

record warajevo_output =
  wj_dest :: "byte list"
  wj_sp :: nat
  wj_written :: nat
  wj_command :: copy_command

text \<open>
  The source of the copy is checked to be inside the object, up to \<open>to_write\<close>; its target is not,
  and \<open>memcpy\<close> requires that they do not overlap. An offset below \<open>0\<close> is a huge number.
\<close>

definition execute_copy_command :: "nat \<Rightarrow> warajevo_output \<Rightarrow> warajevo_output c_result" where
  "execute_copy_command to_write w =
     (let cmd = wj_command w; sz = unat (cmd_size cmd); source = int (wj_written w) - cmd_offset cmd + 1
      in if cmd_offset cmd < 0 \<or> int (wj_written w) + 1 < cmd_offset cmd \<or> source + int sz > int to_write
         then Some (ERROR_CORRUPT, w)
         else if \<bar>source - int (wj_written w)\<bar> < int sz then None
         else do {
           out \<leftarrow> memcpy_at (wj_dest w) (wj_written w) (drop (nat source) (wj_dest w)) sz;
           Some (ERROR_NONE, w\<lparr>wj_dest := out, wj_written := wj_written w + sz, wj_command := reset_copy_command\<rparr>) })"

definition command_size :: "dword \<Rightarrow> copy_command \<Rightarrow> copy_command" where
  "command_size n cmd = cmd\<lparr>cmd_size := n, cmd_mode := 2\<rparr>"

definition command_offset :: "int \<Rightarrow> copy_command \<Rightarrow> copy_command" where
  "command_offset n cmd = cmd\<lparr>cmd_offset := cmd_offset cmd + n * 256, cmd_mode := 3\<rparr>"

text \<open>\<open>src[ (*sp)++ ]\<close>.\<close>

definition next_source :: "byte list \<Rightarrow> warajevo_output \<Rightarrow> (byte \<times> warajevo_output) option" where
  "next_source src w = map_option (\<lambda>x. (x, w\<lparr>wj_sp := wj_sp w + 1\<rparr>)) (nget src (wj_sp w))"

text \<open>The state machine of the size; \<open>bt\<close> is the next bit.\<close>

definition add_size_bit :: "byte list \<Rightarrow> nat \<Rightarrow> bool \<Rightarrow> warajevo_output \<Rightarrow> warajevo_output c_result" where
  "add_size_bit src to_write bt w =
     (let cmd = wj_command w;
          goto = (\<lambda>s. Some (ERROR_NONE, w\<lparr>wj_command := cmd\<lparr>cmd_state := s\<rparr>\<rparr>));
          size_is = (\<lambda>n. Some (ERROR_NONE, w\<lparr>wj_command := command_size n cmd\<rparr>))
      in case cmd_state cmd of
           s_b \<Rightarrow> goto (if bt then s_b1 else s_b0)
         | s_b0 \<Rightarrow> if bt then goto s_b01 else size_is 3
         | s_b1 \<Rightarrow> goto (if bt then s_b11 else s_b10)
         | s_b01 \<Rightarrow> do {
             (x, w) \<leftarrow> next_source src w;
             (if bt then Some (ERROR_NONE, w\<lparr>wj_command := command_size (10 + ucast x) cmd\<rparr>)
              else execute_copy_command to_write
                (w\<lparr>wj_command := cmd\<lparr>cmd_size := 2, cmd_mode := 3, cmd_offset := uint x\<rparr>\<rparr>)) }
         | s_b10 \<Rightarrow> size_is (if bt then 5 else 4)
         | s_b11 \<Rightarrow> goto (if bt then s_b111 else s_b110)
         | s_b110 \<Rightarrow> size_is (if bt then 7 else 6)
         | s_b111 \<Rightarrow> size_is (if bt then 9 else 8))"

text \<open>The state machine of the offset.\<close>

definition add_offset_bit :: "byte list \<Rightarrow> bool \<Rightarrow> warajevo_output \<Rightarrow> warajevo_output option" where
  "add_offset_bit src bt w =
     (let cmd = wj_command w;
          goto = (\<lambda>s. Some (w\<lparr>wj_command := cmd\<lparr>cmd_vstate := s\<rparr>\<rparr>));
          add = (\<lambda>n. Some (w\<lparr>wj_command := command_offset n cmd\<rparr>))
      in case cmd_vstate cmd of
           s_v \<Rightarrow> do {
             (x, w) \<leftarrow> next_source src w;
             let cmd = cmd\<lparr>cmd_offset := uint x\<rparr>;
             Some (w\<lparr>wj_command := (if bt then cmd\<lparr>cmd_mode := 3\<rparr> else cmd\<lparr>cmd_vstate := s_v0\<rparr>)\<rparr>) }
         | s_v0 \<Rightarrow> goto (if bt then s_v01 else s_v00)
         | s_v01 \<Rightarrow>
             let pattern = push_bit 1 (cmd_pattern cmd) OR (if bt then 1 else 0); depth = cmd_pattern_depth cmd + 1;
                 cmd = cmd\<lparr>cmd_pattern := pattern, cmd_pattern_depth := depth\<rparr>
             in Some (w\<lparr>wj_command := (if depth = 4 then command_offset (uint pattern + 7) cmd else cmd)\<rparr>)
         | s_v00 \<Rightarrow> goto (if bt then s_v001 else s_v000)
         | s_v000 \<Rightarrow> add (if bt then 2 else 1)
         | s_v001 \<Rightarrow> goto (if bt then s_v0011 else s_v0010)
         | s_v0010 \<Rightarrow> add (if bt then 4 else 3)
         | s_v0011 \<Rightarrow> add (if bt then 6 else 5))"

text \<open>A literal byte does not leave the copy mode, and the same bit is not used again.\<close>

definition add_bit_to_copy_command :: "byte list \<Rightarrow> nat \<Rightarrow> bool \<Rightarrow> warajevo_output \<Rightarrow> warajevo_output c_result" where
  "add_bit_to_copy_command src to_write bt w =
     (let mode = cmd_mode (wj_command w)
      in if mode = 0 then
           (if bt then Some (ERROR_NONE, w\<lparr>wj_command := (wj_command w)\<lparr>cmd_mode := 1\<rparr>\<rparr>)
            else do {
              (x, w) \<leftarrow> next_source src w;
              out \<leftarrow> nset (wj_dest w) (wj_written w) x;
              Some (ERROR_NONE, w\<lparr>wj_dest := out, wj_written := wj_written w + 1\<rparr>) })
         else if mode = 1 then add_size_bit src to_write bt w
         else do {
           w \<leftarrow> (if mode = 2 then add_offset_bit src bt w else Some w);
           (if cmd_mode (wj_command w) = 3 then execute_copy_command to_write w else Some (ERROR_NONE, w)) })"

text \<open>The bits of a command byte, most significant first.\<close>

fun exec_bits :: "byte list \<Rightarrow> nat \<Rightarrow> bool list \<Rightarrow> warajevo_output \<Rightarrow> warajevo_output c_result" where
  "exec_bits src to_write [] w = Some (ERROR_NONE, w)"
| "exec_bits src to_write (bt # bits) w = do {
     (error, w) \<leftarrow> add_bit_to_copy_command src to_write bt w;
     (if error \<noteq> ERROR_NONE then Some (error, w)
      else if wj_written w \<ge> to_write then Some (ERROR_NONE, w)
      else exec_bits src to_write bits w) }"

definition exec_command :: "byte list \<Rightarrow> nat \<Rightarrow> nat \<Rightarrow> warajevo_output \<Rightarrow> warajevo_output c_result" where
  "exec_command src pc to_write w = do {
     command_byte \<leftarrow> nget src pc;
     exec_bits src to_write (top_bits 8 command_byte) w }"

text \<open>The loop over the command bytes, of which \<open>n\<close> are left, from \<open>pc\<close> on.\<close>

fun decompress_loop :: "byte list \<Rightarrow> nat \<Rightarrow> nat \<Rightarrow> nat \<Rightarrow> warajevo_output \<Rightarrow> warajevo_output c_result" where
  "decompress_loop src len pc 0 w = Some (ERROR_NONE, w)"
| "decompress_loop src len pc (Suc n) w =
     (if wj_written w = len then Some (ERROR_NONE, w)
      else on_ok (exec_command src pc len w) (decompress_loop src len (pc + 1) n))"

text \<open>\<open>src\<close> is the file from the data on, \<open>out\<close> the object from \<open>dest\<close> on.\<close>

definition decompress_block :: "byte list \<Rightarrow> byte list \<Rightarrow> nat \<Rightarrow> nat \<Rightarrow> byte list c_result" where
  "decompress_block out src sig len =
     map_option (\<lambda>(error, w). (error, wj_dest w))
       (decompress_loop src len 0 (sig + 1)
          \<lparr>wj_dest = out, wj_sp = sig + 1, wj_written = 0, wj_command = reset_copy_command\<rparr>)"

section \<open>Blocks\<close>

definition lsb2dword :: "byte list \<Rightarrow> nat \<Rightarrow> dword option" where
  "lsb2dword mem i = do {
     a \<leftarrow> nget mem i; b \<leftarrow> nget mem (i + 1); c \<leftarrow> nget mem (i + 2); d \<leftarrow> nget mem (i + 3);
     Some (ucast a OR push_bit 8 (ucast b) OR push_bit 16 (ucast c) OR push_bit 24 (ucast d)) }"

definition lsb2word :: "byte list \<Rightarrow> nat \<Rightarrow> lword option" where
  "lsb2word mem i = do {
     a \<leftarrow> nget mem i; b \<leftarrow> nget mem (i + 1);
     Some (ucast a OR push_bit 8 (ucast b)) }"

definition warajevo_signature :: dword where "warajevo_signature = 0xffffffff"
definition RECORD_SAMPLES :: lword where "RECORD_SAMPLES = 0xfffe"
definition COMPRESSED_BLOCK :: lword where "COMPRESSED_BLOCK = 0xffff"

definition xor_bytes :: "byte list \<Rightarrow> byte" where
  "xor_bytes bytes = foldl (XOR) 0 bytes"

definition read_rom_block :: "(nat \<Rightarrow> byte) \<Rightarrow> nat \<Rightarrow> libspectrum_tape \<Rightarrow> byte list \<Rightarrow> nat \<Rightarrow> libspectrum_tape c_result" where
  "read_rom_block junk n tape file off = do {
     sz \<leftarrow> lsb2word file (off + 8);
     (len, block_size, data) \<leftarrow>
       (if sz = COMPRESSED_BLOCK then do {
          l \<leftarrow> lsb2word file (off + 11);
          s \<leftarrow> lsb2word file (off + 13);
          Some (unat l + 2, unat s, off + 17) }
        else Some (unat sz + 2, unat sz, off + 11));
     (if int (length file) - int data < int block_size then Some (ERROR_CORRUPT, tape)
      else do {
        flag \<leftarrow> nget file (off + 10);
        (error, payload) \<leftarrow>
          (if sz = COMPRESSED_BLOCK then do {
             sig \<leftarrow> lsb2word file (off + 15);
             decompress_block (renew junk [] (len - 1)) (drop data file) (unat sig) (len - 2) }
           else do {
             d \<leftarrow> copy_out file data (len - 2);
             Some (ERROR_NONE, d @ [0]) });
        (if error \<noteq> ERROR_NONE then Some (error, tape)
         else do {
           let bytes = flag # take (len - 2) payload;
           let block = libspectrum_set_pause_ms (ROM \<lparr>rom_length = of_nat len,
             rom_data = bytes @ [xor_bytes bytes], rom_pause = 0, rom_pause_tstates = 0\<rparr>) 1000;
           tape \<leftarrow> libspectrum_tape_append_block n tape block;
           Some (ERROR_NONE, tape) }) }) }"

text \<open>The bit length of each of the four frequencies.\<close>

definition warajevo_bit_length :: "byte \<Rightarrow> dword" where
  "warajevo_bit_length status = [233, 158, 115, 79] ! unat (drop_bit 3 status AND 3)"

text \<open>The two blocks are made one, whose data is new and whose node is the last one of the tape.\<close>

definition extend_last_block :: "libspectrum_tape \<Rightarrow> raw_data_block \<Rightarrow> raw_data_block \<Rightarrow> libspectrum_tape" where
  "extend_last_block tape prev new =
     (let combined = RAW_DATA (prev\<lparr>rd_length := rd_length prev + rd_length new,
            rd_data := Some (take (unat (rd_length prev)) (data_of (rd_data prev)) @ data_of (rd_data new)),
            rd_bits_in_last_byte := rd_bits_in_last_byte new\<rparr>)
      in tape\<lparr>tape_blocks := map (\<lambda>(a, x). (a, if Some a = last_block tape then combined else x)) (tape_blocks tape)\<rparr>)"

definition warajevo_read_raw_data ::
    "(nat \<Rightarrow> byte) \<Rightarrow> nat \<Rightarrow> libspectrum_tape \<Rightarrow> byte list \<Rightarrow> nat \<Rightarrow> libspectrum_tape c_result" where
  "warajevo_read_raw_data junk n tape file off = do {
     decompressed_size \<leftarrow> lsb2word file (off + 11);
     compressed_size \<leftarrow> lsb2word file (off + 13);
     let len = unat decompressed_size;
     (if int (length file) - int (off + 17) < int (unat compressed_size) then Some (ERROR_CORRUPT, tape)
      else do {
        (error, bytes) \<leftarrow>
          (if compressed_size \<noteq> decompressed_size then do {
             sig \<leftarrow> lsb2word file (off + 15);
             decompress_block (renew junk [] len) (drop (off + 17) file) (unat sig) len }
           else map_option (Pair ERROR_NONE) (copy_out file (off + 17) len));
        (if error \<noteq> ERROR_NONE then Some (error, tape)
         else do {
           status \<leftarrow> nget file (off + 10);
           let new = \<lparr>rd_length = of_nat len, rd_bits_in_last_byte = ucast (status AND 7) + 1, rd_data = Some bytes,
             rd_pause = 0, rd_pause_tstates = 0, rd_bit_length = warajevo_bit_length status\<rparr>;
           prev \<leftarrow> libspectrum_tape_peek_last_block tape;
           (case prev of
              Some (RAW_DATA prev) \<Rightarrow>
                if rd_bit_length prev = rd_bit_length new \<and> rd_bits_in_last_byte prev = 8
                then Some (ERROR_NONE, extend_last_block tape prev new)
                else map_option (Pair ERROR_NONE) (libspectrum_tape_append_block n tape (RAW_DATA new))
            | _ \<Rightarrow> map_option (Pair ERROR_NONE) (libspectrum_tape_append_block n tape (RAW_DATA new))) }) }) }"

text \<open>
  The result has the next off and the tape. When a block cannot be read the tape of the caller is
  freed: \<open>None\<close>.
\<close>

definition warajevo_next_block ::
    "(nat \<Rightarrow> byte) \<Rightarrow> nat \<Rightarrow> libspectrum_tape \<Rightarrow> byte list \<Rightarrow> dword \<Rightarrow> (dword \<times> libspectrum_tape option) c_result" where
  "warajevo_next_block junk n tape file off =
     (let i = unat off
      in if length file < i \<or> length file - i < 8 then Some (ERROR_CORRUPT, off, Some tape)
         else do {
           next_block \<leftarrow> lsb2dword file (i + 4);
           (if next_block = warajevo_signature then Some (ERROR_NONE, warajevo_signature, Some tape)
            else do {
              kind \<leftarrow> lsb2word file (i + 8);
              (error, tape) \<leftarrow>
                (if kind = RECORD_SAMPLES then warajevo_read_raw_data junk n tape file i
                 else read_rom_block junk n tape file i);
              Some (if error \<noteq> ERROR_NONE then (error, off, None) else (ERROR_NONE, next_block, Some tape)) }) })"

text \<open>The loop along the chain, which need not end.\<close>

partial_function (option) warajevo_loop ::
    "(nat \<Rightarrow> byte) \<Rightarrow> nat \<Rightarrow> libspectrum_tape \<Rightarrow> byte list \<Rightarrow> dword \<Rightarrow> libspectrum_tape option c_result" where
  "warajevo_loop junk n tape file off =
     (if off = warajevo_signature then Some (ERROR_NONE, Some tape)
      else do {
        (error, off, tape) \<leftarrow> warajevo_next_block junk n tape file off;
        (if error \<noteq> ERROR_NONE then Some (error, tape)
         else do {
           tape \<leftarrow> tape;
           warajevo_loop junk (n + 1) tape file off }) })"

definition internal_warajevo_read ::
    "(nat \<Rightarrow> byte) \<Rightarrow> nat \<Rightarrow> libspectrum_tape \<Rightarrow> byte list \<Rightarrow> libspectrum_tape option c_result" where
  "internal_warajevo_read junk n tape file =
     (if length file < 12 then Some (ERROR_CORRUPT, Some tape)
      else do {
        sig \<leftarrow> lsb2dword file 8;
        (if sig \<noteq> warajevo_signature then Some (ERROR_SIGNATURE, Some tape)
         else do {
           off \<leftarrow> lsb2dword file 0;
           warajevo_loop junk n tape file off }) })"

end
