(* ===== verification/Dck.thy ===== *)
theory Dck
  imports Snap_Files
begin

text \<open>
  Timex dock cartridges (\<open>dck.c\<close>). A page that is not there is \<open>None\<close>. \<open>libspectrum_dck\<close> is the list of
  its blocks; the pointers behind the last one are null.
\<close>

datatype libspectrum_dck_bank = DCK_BANK_DOCK | DCK_BANK_EXROM | DCK_BANK_HOME
datatype libspectrum_dck_page_type = DCK_PAGE_NULL | DCK_PAGE_RAM_EMPTY | DCK_PAGE_ROM | DCK_PAGE_RAM

record libspectrum_dck_block =
  dck_bank :: libspectrum_dck_bank
  dck_access :: "libspectrum_dck_page_type list"
  dck_pages :: "byte list option list"

type_synonym libspectrum_dck = "libspectrum_dck_block list"

definition DCK_PAGE_SIZE :: nat where "DCK_PAGE_SIZE = 0x2000"

definition libspectrum_dck_block_alloc :: libspectrum_dck_block where
  "libspectrum_dck_block_alloc =
     \<lparr>dck_bank = DCK_BANK_DOCK, dck_access = replicate 8 DCK_PAGE_NULL, dck_pages = replicate 8 None\<rparr>"

definition libspectrum_dck_alloc :: libspectrum_dck where
  "libspectrum_dck_alloc = []"

text \<open>The two \<open>switch\<close>es of the checks.\<close>

definition dck_bank_of :: "byte \<Rightarrow> libspectrum_dck_bank option" where
  "dck_bank_of x =
     (if x = 0 then Some DCK_BANK_DOCK else if x = 254 then Some DCK_BANK_EXROM
      else if x = 255 then Some DCK_BANK_HOME else None)"

definition dck_page_type_of :: "byte \<Rightarrow> libspectrum_dck_page_type option" where
  "dck_page_type_of x =
     (if x = 0 then Some DCK_PAGE_NULL else if x = 1 then Some DCK_PAGE_RAM_EMPTY
      else if x = 2 then Some DCK_PAGE_ROM else if x = 3 then Some DCK_PAGE_RAM else None)"

fun dck_page_types :: "byte list \<Rightarrow> libspectrum_dck_page_type list option" where
  "dck_page_types [] = Some []"
| "dck_page_types (x # xs) = do {
     t \<leftarrow> dck_page_type_of x;
     ts \<leftarrow> dck_page_types xs;
     Some (t # ts) }"

definition dck_stored :: "libspectrum_dck_page_type \<Rightarrow> bool" where
  "dck_stored t \<longleftrightarrow> t = DCK_PAGE_ROM \<or> t = DCK_PAGE_RAM"

text \<open>The loop that allocates the pages: the pages and what is left of the file.\<close>

fun dck_read_pages :: "libspectrum_dck_page_type list \<Rightarrow> byte list \<Rightarrow> (byte list option list \<times> byte list) option" where
  "dck_read_pages [] buf = Some ([], buf)"
| "dck_read_pages (t # ts) buf = do {
     (page, buf) \<leftarrow>
       (case t of
          DCK_PAGE_NULL \<Rightarrow> Some (None, buf)
        | DCK_PAGE_RAM_EMPTY \<Rightarrow> Some (Some (replicate DCK_PAGE_SIZE 0), buf)
        | _ \<Rightarrow> map_option (\<lambda>d. (Some d, drop DCK_PAGE_SIZE buf)) (copy_out buf 0 DCK_PAGE_SIZE));
     (pages, buf) \<leftarrow> dck_read_pages ts buf;
     Some (page # pages, buf) }"

text \<open>One round of the loop over the blocks.\<close>

definition dck_read_block :: "byte list \<Rightarrow> (libspectrum_dck_block option \<times> byte list) c_result" where
  "dck_read_block buf =
     (if length buf < 9 then Some (ERROR_CORRUPT, None, buf)
      else case (dck_bank_of (buf ! 0), dck_page_types (take 8 (drop 1 buf))) of
          (Some bank, Some ts) \<Rightarrow>
            if length buf < 9 + DCK_PAGE_SIZE * length (filter dck_stored ts) then Some (ERROR_CORRUPT, None, buf)
            else do {
              (pages, rest) \<leftarrow> dck_read_pages ts (drop 9 buf);
              Some (ERROR_NONE, Some (libspectrum_dck_block_alloc\<lparr>dck_bank := bank, dck_access := ts, dck_pages := pages\<rparr>), rest) }
        | _ \<Rightarrow> Some (ERROR_UNKNOWN, None, buf))"

text \<open>The loop with \<open>k\<close> places left: when the last one is taken there are too many blocks.\<close>

fun dck_read_loop :: "nat \<Rightarrow> libspectrum_dck \<Rightarrow> byte list \<Rightarrow> libspectrum_dck c_result" where
  "dck_read_loop 0 dck buf = Some (ERROR_MEMORY, dck)"
| "dck_read_loop (Suc k) dck buf =
     (if buf = [] then Some (ERROR_NONE, dck)
      else do {
        (error, block, rest) \<leftarrow> dck_read_block buf;
        (case block of
           None \<Rightarrow> Some (error, dck)
         | Some b \<Rightarrow> dck_read_loop k (dck @ [b]) rest) })"

definition libspectrum_dck_read2 ::
    "'s zlib \<Rightarrow> 'b bzip2 \<Rightarrow> libspectrum_dck \<Rightarrow> byte list \<Rightarrow> string option \<Rightarrow> libspectrum_dck c_result" where
  "libspectrum_dck_read2 z bz dck buf filename = do {
     let raw_type = libspectrum_identify_file_raw filename buf;
     (error, buf) \<leftarrow>
       (if libspectrum_identify_class raw_type = CLASS_COMPRESSED
        then map_option (\<lambda>(error, data, _). (error, data)) (libspectrum_uncompress_file z bz False raw_type buf None)
        else Some (ERROR_NONE, buf));
     (if error \<noteq> ERROR_NONE then Some (error, dck) else dck_read_loop 256 [] buf) }"

definition libspectrum_dck_read :: "'s zlib \<Rightarrow> 'b bzip2 \<Rightarrow> libspectrum_dck \<Rightarrow> byte list \<Rightarrow> libspectrum_dck c_result" where
  "libspectrum_dck_read z bz dck buf = libspectrum_dck_read2 z bz dck buf None"

end
