(* ===== verification/Tape_Files.thy ===== *)
theory Tape_Files
  imports Snap_Files Tape_Formats Warajevo
begin

text \<open>
  The readers and writers of tapes of any format (\<open>tape.c\<close>), without the library libaudiofile, that
  is without .wav files. A tape that a reader has freed is \<open>None\<close>.
\<close>

definition libspectrum_tape_read ::
    "(nat \<Rightarrow> byte) \<Rightarrow> pause_block \<Rightarrow> 's zlib \<Rightarrow> 'b bzip2 \<Rightarrow> nat \<Rightarrow> libspectrum_tape \<Rightarrow> byte list \<Rightarrow> libspectrum_id_t \<Rightarrow>
     string option \<Rightarrow> libspectrum_tape option c_result" where
  "libspectrum_tape_read junk junk_pause z bz n tape buf type filename = do {
     (error, type) \<leftarrow> guess_type z bz buf type filename;
     (if error \<noteq> ERROR_NONE then Some (error, Some tape)
      else do {
        (error, buf) \<leftarrow> plain_data z bz buf filename;
        (if error \<noteq> ERROR_NONE then Some (error, Some tape)
         else if type \<in> set [ID_TAPE_TAP, ID_TAPE_SPC, ID_TAPE_STA, ID_TAPE_LTP] then
           map_option (apsnd Some) (internal_tap_read junk n tape buf type)
         else if type = ID_TAPE_TZX then map_option (apsnd Some) (internal_tzx_read n tape buf)
         else if type = ID_TAPE_WARAJEVO then internal_warajevo_read junk n tape buf
         else if type = ID_TAPE_Z80EM then map_option (apsnd Some) (libspectrum_z80em_read n tape buf)
         else if type = ID_TAPE_CSW then map_option (apsnd Some) (libspectrum_csw_read z n tape buf)
         else if type = ID_TAPE_PZX then map_option (apsnd Some) (internal_pzx_read junk_pause n tape buf)
         else if type = ID_TAPE_WAV then Some (ERROR_LOGIC, Some tape)
         else Some (ERROR_CORRUPT, Some tape)) }) }"

text \<open>\<open>it\<close> is the uninitialised iterator state of the writers. An object of length 0 is null at first.\<close>

definition libspectrum_tape_write ::
    "(nat \<Rightarrow> byte) \<Rightarrow> 's zlib \<Rightarrow> tape_block_state \<Rightarrow> room \<Rightarrow> libspectrum_tape \<Rightarrow> libspectrum_id_t \<Rightarrow> room c_result" where
  "libspectrum_tape_write junk z it r tape type =
     (if libspectrum_identify_class type \<noteq> CLASS_TAPE then Some (ERROR_INVALID, r)
      else do {
        let r = (if allocated r = 0 then r\<lparr>dest := []\<rparr> else r);
        let b = libspectrum_buffer_alloc junk;
        (error, b) \<leftarrow>
          (if type \<in> set [ID_TAPE_TAP, ID_TAPE_SPC, ID_TAPE_STA, ID_TAPE_LTP] then internal_tap_write junk b tape type
           else if type = ID_TAPE_TZX then internal_tzx_write junk it b tape
           else if type = ID_TAPE_CSW then libspectrum_csw_write junk z it b tape
           else Some (ERROR_UNKNOWN, b));
        r \<leftarrow> libspectrum_buffer_append junk (r\<lparr>ptr := 0\<rparr>) b;
        Some (error, r) })"

end
