(* ===== verification/Rzx_Files.thy ===== *)
theory Rzx_Files
  imports Rzx Snap_Files
begin

text \<open>
  The files of input recordings (the reader and the writer of \<open>rzx.c\<close>), with zlib and without
  libgcrypt, so that nothing is signed and the key is not used. A position is the offset of the
  pointer in the data; it can go backwards. \<open>Rzx\<close> has the recordings themselves. The nodes of the
  list that a reader appends are \<open>n\<close>, \<open>n + 1\<close> and so on.

  \<open>rzx_junk\<close> is what the memory holds that the reader does not set: the flag of a frame that was
  not read, the field \<open>non_repeat\<close> of a block, a new snapshot, and what the readers of snapshots need.
\<close>

record rzx_junk =
  junk_repeat :: bool
  junk_non_repeat :: size_t
  junk_snap :: libspectrum_snap
  junk_byte :: "nat \<Rightarrow> byte"
  junk_int :: int

definition rzx_signature :: "byte list" where
  "rzx_signature = map of_char ''RZX!''"

definition snapshot_strings :: "(libspectrum_id_t \<times> string) list" where
  "snapshot_strings = [(ID_SNAPSHOT_SNA, ''SNA''), (ID_SNAPSHOT_SZX, ''SZX''), (ID_SNAPSHOT_Z80, ''Z80'')]"

section \<open>Reading\<close>

definition rzx_read_header :: "byte list \<Rightarrow> nat \<Rightarrow> nat c_result" where
  "rzx_read_header buf p =
     (if length buf < p + 10 then Some (ERROR_CORRUPT, p)
      else if take 4 (drop p buf) \<noteq> rzx_signature then Some (ERROR_SIGNATURE, p)
      else Some (ERROR_NONE, p + 10))"

text \<open>The pointer after \<open>(*ptr) += n\<close>, where \<open>n\<close> is a \<open>size_t\<close>, which may stand for a negative number.\<close>

definition ptr_plus :: "nat \<Rightarrow> size_t \<Rightarrow> nat option" where
  "ptr_plus p n = (if int p + sint n < 0 then None else Some (nat (int p + sint n)))"

text \<open>\<open>end - (*ptr) < (ptrdiff_t)n\<close>.\<close>

definition too_short :: "byte list \<Rightarrow> nat \<Rightarrow> size_t \<Rightarrow> bool" where
  "too_short buf p n \<longleftrightarrow> int (length buf) - int p < sint n"

definition rzx_read_creator :: "byte list \<Rightarrow> nat \<Rightarrow> nat c_result" where
  "rzx_read_creator buf p =
     (if length buf < p + 28 then Some (ERROR_CORRUPT, p)
      else do {
        (len, p) \<leftarrow> libspectrum_read_dword buf p;
        (if too_short buf p (ucast len - 5) then Some (ERROR_CORRUPT, p)
         else map_option (Pair ERROR_NONE) (ptr_plus p (ucast len - 5))) })"

text \<open>The format of the first four characters, without regard to case.\<close>

definition snapshot_format :: "byte list \<Rightarrow> libspectrum_id_t option" where
  "snapshot_format name = map_option fst
     (find (\<lambda>(_, s). strcaseeq (map (\<lambda>b. char_of (unat b)) name) (s @ [CHR 0x00])) snapshot_strings)"

text \<open>The data of a snapshot; \<open>p\<close> is the position of the four characters.\<close>

definition rzx_snapshot_data :: "'s zlib \<Rightarrow> byte list \<Rightarrow> nat \<Rightarrow> bool \<Rightarrow> size_t \<Rightarrow> size_t \<Rightarrow> byte list c_result" where
  "rzx_snapshot_data z buf p compressed blocklength snaplength =
     (if compressed then do {
        (error, data) \<leftarrow> libspectrum_zlib_inflate z (drop (p + 8) buf) (blocklength - 17) 0;
        Some (if error \<noteq> ERROR_NONE then (error, [])
              else if of_nat (length data) \<noteq> snaplength then (ERROR_CORRUPT, []) else (ERROR_NONE, data)) }
      else if blocklength \<noteq> snaplength + 17 then Some (ERROR_CORRUPT, [])
      else map_option (Pair ERROR_NONE) (copy_out buf (p + 8) (unat snaplength)))"

definition rzx_read_snapshot ::
    "rzx_junk \<Rightarrow> 's zlib \<Rightarrow> 'b bzip2 \<Rightarrow> nat \<Rightarrow> libspectrum_rzx \<Rightarrow> byte list \<Rightarrow> nat \<Rightarrow> (libspectrum_rzx \<times> nat) c_result" where
  "rzx_read_snapshot junk z bz n rzx buf p =
     (if length buf < p + 16 then Some (ERROR_CORRUPT, rzx, p)
      else do {
        (blocklength, p) \<leftarrow> libspectrum_read_dword buf p;
        let blocklength = (ucast blocklength :: size_t);
        (if too_short buf p (blocklength - 5) then Some (ERROR_CORRUPT, rzx, p)
         else do {
           (flags, p) \<leftarrow> libspectrum_read_dword buf p;
           (if flags AND 0x01 \<noteq> 0 then map_option (\<lambda>p. (ERROR_NONE, rzx, p)) (ptr_plus p (blocklength - 9))
            else do {
              (snaplength, _) \<leftarrow> libspectrum_read_dword buf (p + 4);
              (error, data) \<leftarrow> rzx_snapshot_data z buf p (flags AND 0x02 \<noteq> 0) blocklength (ucast snaplength);
              (if error \<noteq> ERROR_NONE then Some (error, rzx, p)
               else do {
                 name \<leftarrow> copy_out buf p 4;
                 (case snapshot_format name of
                    None \<Rightarrow> Some (ERROR_UNKNOWN, rzx, p)
                  | Some format \<Rightarrow> do {
                      (error, snap) \<leftarrow> libspectrum_snap_read (junk_byte junk) (junk_int junk) z bz
                        (libspectrum_snap_alloc (junk_snap junk)) data format None;
                      (if error \<noteq> ERROR_NONE then Some (error, rzx, p)
                       else do {
                         p \<leftarrow> ptr_plus p (blocklength - 9);
                         Some (ERROR_NONE, rzx\<lparr>rzx_blocks := g_slist_append n (rzx_blocks rzx) (Snapshot_block snap 0)\<rparr>, p) }) }) }) }) }) })"

text \<open>
  What an error in frame \<open>i\<close> frees: the flag of this frame decides about the arrays of all the
  frames before it, which were never set for the repeated ones.
\<close>

definition free_frames :: "bool \<Rightarrow> libspectrum_rzx_frame_t list \<Rightarrow> unit option" where
  "free_frames repeats done =
     (if \<not> repeats \<and> (\<exists>f\<in>set done. repeat_last f) then None else Some ())"

text \<open>The loop over the frames: \<open>k\<close> of them are left, \<open>done\<close> have been read.\<close>

fun rzx_read_frames ::
    "bool \<Rightarrow> nat \<Rightarrow> libspectrum_rzx_frame_t list \<Rightarrow> byte list \<Rightarrow> nat \<Rightarrow> (libspectrum_rzx_frame_t list \<times> nat) c_result" where
  "rzx_read_frames junk 0 done buf p = Some (ERROR_NONE, done, p)"
| "rzx_read_frames junk (Suc k) done buf p =
     (if length buf < p + 4 then map_option (\<lambda>_. (ERROR_CORRUPT, done, p)) (free_frames junk done)
      else do {
        (ins, p) \<leftarrow> libspectrum_read_word buf p;
        (count, p) \<leftarrow> libspectrum_read_word buf p;
        (if count = 0xffff
         then rzx_read_frames junk k
           (done @ [\<lparr>instructions = ucast ins, frame_count = ucast count, in_bytes = None, repeat_last = True\<rparr>]) buf p
         else if length buf < p + unat count then map_option (\<lambda>_. (ERROR_CORRUPT, done, p)) (free_frames False done)
         else do {
           data \<leftarrow> (if count \<noteq> 0 then map_option Some (copy_out buf p (unat count)) else Some None);
           rzx_read_frames junk k
             (done @ [\<lparr>instructions = ucast ins, frame_count = ucast count, in_bytes = data, repeat_last = False\<rparr>])
             buf (p + unat count) }) })"

text \<open>
  If inflating fails the block is freed with all its frames, none of which has been set: the
  pointers of those whose flag happens to be 0 are freed. The length of a block that is not
  compressed is not used.
\<close>

definition rzx_read_input ::
    "rzx_junk \<Rightarrow> 's zlib \<Rightarrow> nat \<Rightarrow> libspectrum_rzx \<Rightarrow> byte list \<Rightarrow> nat \<Rightarrow> (libspectrum_rzx \<times> nat) c_result" where
  "rzx_read_input junk z n rzx buf p =
     (if length buf < p + 18 then Some (ERROR_CORRUPT, rzx, p)
      else do {
        (blocklength, p) \<leftarrow> libspectrum_read_dword buf p;
        (count, p) \<leftarrow> libspectrum_read_dword buf p;
        (tst, p) \<leftarrow> libspectrum_read_dword buf (p + 1);
        (flags, p) \<leftarrow> libspectrum_read_dword buf p;
        let blocklength = (ucast blocklength - 18 :: size_t);
        let append = (\<lambda>fs. rzx\<lparr>rzx_blocks := g_slist_append n (rzx_blocks rzx)
          (Input_block \<lparr>frames = fs, allocated_frames = ucast count, input_tstates = ucast tst,
            non_repeat = junk_non_repeat junk\<rparr>)\<rparr>);
        (if flags AND 0x02 \<noteq> 0 then
           (if too_short buf p blocklength then Some (ERROR_CORRUPT, rzx, p)
            else do {
              (error, data) \<leftarrow> libspectrum_zlib_inflate z (drop p buf) blocklength 0;
              (if error \<noteq> ERROR_NONE
               then (if count \<noteq> 0 \<and> \<not> junk_repeat junk then None else Some (error, rzx, p))
               else do {
                 p \<leftarrow> ptr_plus p blocklength;
                 (error, fs, _) \<leftarrow> rzx_read_frames (junk_repeat junk) (unat count) [] data 0;
                 Some (if error \<noteq> ERROR_NONE then (error, rzx, p) else (ERROR_NONE, append fs, p)) }) })
         else do {
           (error, fs, p) \<leftarrow> rzx_read_frames (junk_repeat junk) (unat count) [] buf p;
           Some (if error \<noteq> ERROR_NONE then (error, rzx, p) else (ERROR_NONE, append fs, p)) }) })"

definition rzx_read_sign_start ::
    "nat \<Rightarrow> libspectrum_rzx \<Rightarrow> byte list \<Rightarrow> nat \<Rightarrow> (libspectrum_rzx \<times> nat) c_result" where
  "rzx_read_sign_start n rzx buf p =
     (if length buf < p + 4 then Some (ERROR_CORRUPT, rzx, p)
      else do {
        (len, p) \<leftarrow> libspectrum_read_dword buf p;
        (if len < 13 then Some (ERROR_CORRUPT, rzx, p)
         else if too_short buf p (ucast len - 5) then Some (ERROR_CORRUPT, rzx, p)
         else do {
           (keyid, p) \<leftarrow> libspectrum_read_dword buf p;
           let p = p + 4 + unat (len - 13);
           Some (ERROR_NONE, rzx\<lparr>rzx_blocks := g_slist_append n (rzx_blocks rzx) (Sign_start_block keyid)\<rparr>, p) }) })"

text \<open>The length is a 32-bit difference here, so a length below 5 is a huge one.\<close>

definition rzx_read_sign_end ::
    "nat \<Rightarrow> libspectrum_rzx \<Rightarrow> byte list \<Rightarrow> nat \<Rightarrow> (libspectrum_rzx \<times> nat) c_result" where
  "rzx_read_sign_end n rzx buf p =
     (if length buf < p + 4 then Some (ERROR_CORRUPT, rzx, p)
      else do {
        (d, p) \<leftarrow> libspectrum_read_dword buf p;
        let len = (ucast (d - 5) :: size_t);
        (if too_short buf p len then Some (ERROR_CORRUPT, rzx, p)
         else do {
           start \<leftarrow> signed_start rzx;
           let block = Sign_end_block (of_nat p - of_nat start - 5);
           p \<leftarrow> ptr_plus p len;
           Some (ERROR_NONE, rzx\<lparr>rzx_blocks := g_slist_append n (rzx_blocks rzx) block\<rparr>, p) }) })"

definition rzx_read_block ::
    "rzx_junk \<Rightarrow> 's zlib \<Rightarrow> 'b bzip2 \<Rightarrow> nat \<Rightarrow> libspectrum_rzx \<Rightarrow> byte list \<Rightarrow> nat \<Rightarrow> byte \<Rightarrow> (libspectrum_rzx \<times> nat) c_result" where
  "rzx_read_block junk z bz n rzx buf p block_id =
     (if block_id = 0x10 then map_option (\<lambda>(error, p). (error, rzx, p)) (rzx_read_creator buf p)
      else if block_id = 0x30 then rzx_read_snapshot junk z bz n rzx buf p
      else if block_id = 0x80 then rzx_read_input junk z n rzx buf p
      else if block_id = 0x20 then rzx_read_sign_start n rzx buf p
      else if block_id = 0x21 then rzx_read_sign_end n rzx buf p
      else Some (ERROR_UNKNOWN, rzx, p))"

text \<open>The loop over the blocks, which does not end if a block leads back to itself.\<close>

partial_function (option) rzx_read_loop ::
    "rzx_junk \<Rightarrow> 's zlib \<Rightarrow> 'b bzip2 \<Rightarrow> nat \<Rightarrow> libspectrum_rzx \<Rightarrow> byte list \<Rightarrow> nat \<Rightarrow> libspectrum_rzx c_result" where
  "rzx_read_loop junk z bz n rzx buf p =
     (if p < length buf then do {
        block_id \<leftarrow> nget buf p;
        (error, rzx, p) \<leftarrow> rzx_read_block junk z bz n rzx buf (p + 1) block_id;
        (if error \<noteq> ERROR_NONE then Some (error, rzx) else rzx_read_loop junk z bz (n + 1) rzx buf p) }
      else Some (ERROR_NONE, rzx))"

text \<open>\<open>signed_start\<close> is an offset in the uncompressed data, which is freed at the end if it is not the file itself.\<close>

definition libspectrum_rzx_read ::
    "rzx_junk \<Rightarrow> 's zlib \<Rightarrow> 'b bzip2 \<Rightarrow> nat \<Rightarrow> libspectrum_rzx \<Rightarrow> byte list \<Rightarrow> libspectrum_rzx c_result" where
  "libspectrum_rzx_read junk z bz n rzx buf = do {
     (error, buf) \<leftarrow> plain_data z bz buf None;
     (if error \<noteq> ERROR_NONE then Some (error, rzx)
      else do {
        (error, p) \<leftarrow> rzx_read_header buf 0;
        (if error \<noteq> ERROR_NONE then Some (error, rzx)
         else rzx_read_loop junk z bz n (rzx\<lparr>signed_start := Some p\<rparr>) buf p) }) }"

section \<open>Writing\<close>

text \<open>Without libgcrypt the flag \<open>sign\<close> makes no difference.\<close>

definition rzx_write_header :: "(nat \<Rightarrow> byte) \<Rightarrow> lbuffer \<Rightarrow> lbuffer option" where
  "rzx_write_header junk b = do {
     b \<leftarrow> libspectrum_buffer_write junk b rzx_signature 4;
     b \<leftarrow> libspectrum_buffer_write_byte junk b 0;
     b \<leftarrow> libspectrum_buffer_write_byte junk b 12;
     libspectrum_buffer_write_dword junk b 0 }"

text \<open>The buffers after the call: the file, and the block, which is empty again.\<close>

definition rzx_write_block_header :: "(nat \<Rightarrow> byte) \<Rightarrow> lbuffer \<Rightarrow> lbuffer \<Rightarrow> byte \<Rightarrow> (lbuffer \<times> lbuffer) option" where
  "rzx_write_block_header junk dst src type = do {
     let block_length = libspectrum_buffer_get_data_size (Some src) + 4 + 1;
     dst \<leftarrow> libspectrum_buffer_write_byte junk dst type;
     dst \<leftarrow> libspectrum_buffer_write_dword junk dst (ucast block_length);
     dst \<leftarrow> libspectrum_buffer_write_buffer junk dst (Some src);
     src \<leftarrow> libspectrum_buffer_clear (Some src);
     Some (dst, src) }"

definition rzx_write_creator ::
    "(nat \<Rightarrow> byte) \<Rightarrow> lbuffer \<Rightarrow> lbuffer \<Rightarrow> libspectrum_creator \<Rightarrow> (lbuffer \<times> lbuffer) option" where
  "rzx_write_creator junk out block_data creator = do {
     let custom_length = libspectrum_creator_custom_length creator;
     block_data \<leftarrow> libspectrum_buffer_write junk block_data (libspectrum_creator_program creator) 20;
     block_data \<leftarrow> libspectrum_buffer_write_word junk block_data (libspectrum_creator_major creator);
     block_data \<leftarrow> libspectrum_buffer_write_word junk block_data (libspectrum_creator_minor creator);
     block_data \<leftarrow>
       (if custom_length \<noteq> 0 then do {
          custom \<leftarrow> libspectrum_creator_custom creator;
          libspectrum_buffer_write junk block_data custom custom_length }
        else Some block_data);
     rzx_write_block_header junk out block_data 0x10 }"

text \<open>The buffer after the call, and \<open>*compress\<close>.\<close>

definition rzx_compress :: "(nat \<Rightarrow> byte) \<Rightarrow> 's zlib \<Rightarrow> lbuffer \<Rightarrow> lbuffer \<Rightarrow> bool \<Rightarrow> (lbuffer \<times> bool) option" where
  "rzx_compress junk z dst src compress =
     (if \<not> compress then map_option (\<lambda>b. (b, compress)) (libspectrum_buffer_write_buffer junk dst (Some src))
      else do {
        data \<leftarrow> copy_out (buffer src) 0 (unat (bytes_used src));
        let (error, gz) = libspectrum_zlib_compress z data;
        (if error \<noteq> ERROR_NONE \<or> of_nat (length gz) \<ge> libspectrum_buffer_get_data_size (Some src)
         then map_option (\<lambda>b. (b, False)) (libspectrum_buffer_write_buffer junk dst (Some src))
         else map_option (\<lambda>b. (b, compress)) (libspectrum_buffer_write junk dst gz (of_nat (length gz)))) })"

text \<open>The snapshot in the format asked for, or in one that fits: the result has the format that was written.\<close>

definition rzx_snapshot_bytes ::
    "rzx_junk \<Rightarrow> 's zlib \<Rightarrow> lbuffer \<Rightarrow> libspectrum_snap \<Rightarrow> libspectrum_id_t \<Rightarrow> libspectrum_creator option \<Rightarrow>
     (libspectrum_error \<times> lbuffer \<times> libspectrum_id_t) option" where
  "rzx_snapshot_bytes junk z block_data snap snap_format creator =
     (let write = (\<lambda>b flags format. libspectrum_snap_write_buffer (junk_byte junk) z b flags snap format creator 0)
      in if snap_format = ID_UNKNOWN then do {
           (error, flags, block_data) \<leftarrow> write block_data (junk_int junk) ID_SNAPSHOT_Z80;
           (if error \<noteq> ERROR_NONE then Some (error, block_data, ID_SNAPSHOT_Z80)
            else if flags AND FLAG_SNAPSHOT_MAJOR_INFO_LOSS \<noteq> 0 then do {
              block_data \<leftarrow> libspectrum_buffer_clear (Some block_data);
              (error, flags, block_data) \<leftarrow> write block_data flags ID_SNAPSHOT_SZX;
              Some (error, block_data, ID_SNAPSHOT_SZX) }
            else Some (ERROR_NONE, block_data, ID_SNAPSHOT_Z80)) }
         else map_option (\<lambda>(error, flags, b). (error, b, snap_format)) (write block_data (junk_int junk) snap_format))"

text \<open>
  No error is returned: a snapshot that cannot be written is left out, and what has been written to
  \<open>block_data\<close> stays there.
\<close>

definition rzx_write_snapshot ::
    "rzx_junk \<Rightarrow> 's zlib \<Rightarrow> lbuffer \<Rightarrow> lbuffer \<Rightarrow> libspectrum_snap \<Rightarrow> libspectrum_id_t \<Rightarrow> libspectrum_creator option \<Rightarrow>
     bool \<Rightarrow> (libspectrum_error \<times> lbuffer \<times> lbuffer) option" where
  "rzx_write_snapshot rj z out block_data snap snap_format creator compress = do {
     let junk = junk_byte rj;
     let snap_data = libspectrum_buffer_alloc junk;
     (error, block_data, snap_format) \<leftarrow> rzx_snapshot_bytes rj z block_data snap snap_format creator;
     (if error \<noteq> ERROR_NONE then Some (ERROR_NONE, out, block_data)
      else do {
        let uncompressed_data_size = libspectrum_buffer_get_data_size (Some block_data);
        (snap_data, compress) \<leftarrow> rzx_compress junk z snap_data block_data compress;
        block_data \<leftarrow> libspectrum_buffer_clear (Some block_data);
        block_data \<leftarrow> libspectrum_buffer_write_dword junk block_data (if compress then 2 else 0);
        (case map_of snapshot_strings snap_format of
           None \<Rightarrow> Some (ERROR_NONE, out, block_data)
         | Some s \<Rightarrow> do {
             block_data \<leftarrow> libspectrum_buffer_write junk block_data (map of_char s @ [0]) 4;
             block_data \<leftarrow> libspectrum_buffer_write_dword junk block_data (ucast uncompressed_data_size);
             block_data \<leftarrow> libspectrum_buffer_write_buffer junk block_data (Some snap_data);
             (out, block_data) \<leftarrow> rzx_write_block_header junk out block_data 0x30;
             Some (ERROR_NONE, out, block_data) }) }) }"

text \<open>The bytes of a frame are not looked at if there are none.\<close>

fun rzx_write_frames :: "(nat \<Rightarrow> byte) \<Rightarrow> libspectrum_rzx_frame_t list \<Rightarrow> lbuffer \<Rightarrow> lbuffer option" where
  "rzx_write_frames junk [] b = Some b"
| "rzx_write_frames junk (frame # fs) b = do {
     b \<leftarrow> libspectrum_buffer_write_word junk b (ucast (instructions frame));
     b \<leftarrow>
       (if repeat_last frame then libspectrum_buffer_write_word junk b 0xffff
        else do {
          b \<leftarrow> libspectrum_buffer_write_word junk b (ucast (frame_count frame));
          data \<leftarrow> (if frame_count frame = 0 then Some [] else in_bytes frame);
          libspectrum_buffer_write junk b data (frame_count frame) });
     rzx_write_frames junk fs b }"

definition rzx_write_input ::
    "(nat \<Rightarrow> byte) \<Rightarrow> 's zlib \<Rightarrow> input_block_t \<Rightarrow> lbuffer \<Rightarrow> lbuffer \<Rightarrow> bool \<Rightarrow> (lbuffer \<times> lbuffer) option" where
  "rzx_write_input junk z block out block_data compress = do {
     let frame_data = libspectrum_buffer_alloc junk;
     block_data \<leftarrow> rzx_write_frames junk (frames block) block_data;
     (frame_data, compress) \<leftarrow> rzx_compress junk z frame_data block_data compress;
     block_data \<leftarrow> libspectrum_buffer_clear (Some block_data);
     block_data \<leftarrow> libspectrum_buffer_write_dword junk block_data (of_nat (length (frames block)));
     block_data \<leftarrow> libspectrum_buffer_write_byte junk block_data 0;
     block_data \<leftarrow> libspectrum_buffer_write_dword junk block_data (ucast (input_tstates block));
     block_data \<leftarrow> libspectrum_buffer_write_dword junk block_data (if compress then 2 else 0);
     block_data \<leftarrow> libspectrum_buffer_write_buffer junk block_data (Some frame_data);
     (out, block_data) \<leftarrow> rzx_write_block_header junk out block_data 0x80;
     block_data \<leftarrow> libspectrum_buffer_clear (Some block_data);
     Some (out, block_data) }"

text \<open>The loop over the blocks: snapshots behind an input block are .szx snapshots.\<close>

fun rzx_write_blocks ::
    "rzx_junk \<Rightarrow> 's zlib \<Rightarrow> libspectrum_creator option \<Rightarrow> bool \<Rightarrow> libspectrum_id_t \<Rightarrow> rzx_block_t list \<Rightarrow>
     lbuffer \<times> lbuffer \<Rightarrow> (lbuffer \<times> lbuffer) c_result" where
  "rzx_write_blocks junk z creator compress snap_format [] s = Some (ERROR_NONE, s)"
| "rzx_write_blocks junk z creator compress snap_format (Snapshot_block snap automatic # blocks) (out, block_data) = do {
     (error, s) \<leftarrow> rzx_write_snapshot junk z out block_data snap snap_format creator compress;
     (if error \<noteq> ERROR_NONE then Some (error, s)
      else rzx_write_blocks junk z creator compress snap_format blocks s) }"
| "rzx_write_blocks junk z creator compress snap_format (Input_block input # blocks) (out, block_data) = do {
     s \<leftarrow> rzx_write_input (junk_byte junk) z input out block_data compress;
     rzx_write_blocks junk z creator compress ID_SNAPSHOT_SZX blocks s }"
| "rzx_write_blocks junk z creator compress snap_format (_ # blocks) s =
     rzx_write_blocks junk z creator compress snap_format blocks s"

definition libspectrum_rzx_write ::
    "rzx_junk \<Rightarrow> 's zlib \<Rightarrow> room \<Rightarrow> libspectrum_rzx \<Rightarrow> libspectrum_id_t \<Rightarrow> libspectrum_creator option \<Rightarrow> bool \<Rightarrow>
     room c_result" where
  "libspectrum_rzx_write rj z r rzx snap_format creator compress = do {
     let junk = junk_byte rj;
     let new_buffer = libspectrum_buffer_alloc junk;
     let block_data = libspectrum_buffer_alloc junk;
     (new_buffer, block_data) \<leftarrow>
       (case creator of None \<Rightarrow> Some (new_buffer, block_data)
        | Some c \<Rightarrow> rzx_write_creator junk new_buffer block_data c);
     (error, new_buffer, block_data) \<leftarrow>
       rzx_write_blocks rj z creator compress snap_format (map snd (rzx_blocks rzx)) (new_buffer, block_data);
     (if error \<noteq> ERROR_NONE then Some (error, r)
      else do {
        block_data \<leftarrow> rzx_write_header junk block_data;
        r \<leftarrow> libspectrum_buffer_append junk (r\<lparr>ptr := 0\<rparr>) block_data;
        r \<leftarrow> libspectrum_buffer_append junk r new_buffer;
        Some (ERROR_NONE, r) }) }"

end
