(* ===== verification/Run_Zlib.thy ===== *)
theory Run_Zlib
  imports Szx_Format
begin

text \<open>
  A compressor of runs that keeps the contract of zlib, so that the properties that assume the contract
  can be applied.
\<close>

text \<open>The data of zlib is never empty: it begins with a header.\<close>

definition zlib_header :: "'s zlib \<Rightarrow> bool" where
  "zlib_header z \<longleftrightarrow> (\<forall>data. zlib_compress2 z data \<noteq> (Z_OK, []))"

text \<open>A compressor of runs, to have a library that keeps the contract of zlib.\<close>

definition run_decode :: "byte list \<Rightarrow> byte list" where
  "run_decode src =
     (case src of
        h # x # gz \<Rightarrow> if h = 0x79 then replicate (unat (le32 gz 0)) x else x # gz
      | _ \<Rightarrow> [])"

definition run_zlib :: "byte list zlib" where
  "run_zlib = \<lparr>zlib_uncompress = (\<lambda>src n. (Z_OTHER, [])),
     zlib_compress2 = (\<lambda>data. if length data \<ge> 2 ^ 30 then (Z_MEM_ERROR, [])
       else if data \<noteq> [] \<and> data = replicate (length data) (hd data)
       then (Z_OK, 0x79 # hd data # dword_bytes (of_nat (length data))) else (Z_OK, 0x78 # data)),
     zlib_crc32 = (\<lambda>data. 0), zlib_inflate_init = (\<lambda>raw src. (Z_OK, run_decode src)),
     zlib_inflate_call = (\<lambda>st finish n. if length st < n \<or> finish \<and> length st = n then (Z_STREAM_END, [], st)
       else (Z_OK, drop n st, take n st)),
     zlib_inflate_end = (\<lambda>st. Z_OK)\<rparr>"

lemma run_zlib_decodes:
  assumes "zlib_compress2 run_zlib data = (Z_OK, gz)"
  shows "length gz < 2 ^ 31 \<and> run_decode gz = data"
proof (cases "data \<noteq> [] \<and> replicate (length data) (hd data) = data")
  case True
  then have gz: "gz = 0x79 # hd data # dword_bytes (of_nat (length data))" "length data < 2 ^ 30"
    using assms by (auto simp: run_zlib_def eq_commute [of data] split: if_splits)
  have "le32 (dword_bytes d) 0 = d" for d using le32_at [of "[]" 0 d "[]"] by simp
  then have "run_decode gz = replicate (length data) (hd data)"
    using gz(2) by (simp add: gz(1) run_decode_def unat_of_nat take_bit_nat_eq_self)
  then show ?thesis using True gz by simp
next
  case False
  then have "gz = 0x78 # data" "length data < 2 ^ 30"
    using assms by (auto simp: run_zlib_def eq_commute [of data] split: if_splits)
  then show ?thesis by (simp add: run_decode_def split: list.split)
qed

lemma run_zlib_delivers: "zlib_delivers run_zlib (\<lambda>st data. st = data)"
  using run_zlib_decodes by (auto simp: zlib_delivers_def run_zlib_def [THEN arg_cong [of _ _ zlib_inflate_call]]
    run_zlib_def [THEN arg_cong [of _ _ zlib_inflate_init]] run_zlib_def [THEN arg_cong [of _ _ zlib_inflate_end]])

lemma run_zlib_ok: "zlib_lossless run_zlib" "zlib_header run_zlib"
  using run_zlib_delivers by (auto simp: zlib_lossless_def zlib_header_def run_zlib_def)

end
