(* ===== verification/Rzx_Format.thy ===== *)
theory Rzx_Format
  imports Rzx_Files Run_Zlib Tzx_Format
begin

text \<open>
  The bytes of a recording of input blocks, what the writer of \<open>rzx.c\<close> puts into its two buffers,
  what the reader makes of these bytes, and the round trip of a whole file. The pair of the file and
  the block is the sink that the .szx writer uses too (\<open>Szx_Format\<close>).
\<close>

section \<open>The bytes of a file\<close>

definition frame_data :: "libspectrum_rzx_frame_t \<Rightarrow> byte list" where
  "frame_data f = (case in_bytes f of None \<Rightarrow> [] | Some d \<Rightarrow> d)"

definition frame_bytes :: "libspectrum_rzx_frame_t \<Rightarrow> byte list" where
  "frame_bytes f = word_bytes (ucast (instructions f)) @
     (if repeat_last f then word_bytes 0xffff else word_bytes (ucast (frame_count f)) @ frame_data f)"

abbreviation "frames_bytes fs \<equiv> concat (map frame_bytes fs)"

text \<open>A frame that the format can hold: \<open>0xffff\<close> bytes would be a repeated frame.\<close>

definition frame_writable :: "libspectrum_rzx_frame_t \<Rightarrow> bool" where
  "frame_writable f \<longleftrightarrow> instructions f < 0x10000 \<and>
     (repeat_last f \<or> frame_count f < 0xffff \<and> unat (frame_count f) = length (frame_data f) \<and>
        (in_bytes f = None \<longleftrightarrow> frame_count f = 0))"

definition input_writable :: "input_block_t \<Rightarrow> bool" where
  "input_writable i \<longleftrightarrow> (\<forall>f \<in> set (frames i). frame_writable f) \<and> length (frames_bytes (frames i)) < 2 ^ 31 \<and>
     input_tstates i < 2 ^ 32"

text \<open>The data of a block, and whether it is compressed.\<close>

definition packed :: "'s zlib \<Rightarrow> bool \<Rightarrow> byte list \<Rightarrow> bool \<times> byte list" where
  "packed z compress d =
     (let (error, gz) = libspectrum_zlib_compress z d
      in if compress \<and> error = ERROR_NONE \<and> length gz < length d then (True, gz) else (False, d))"

definition rzx_block :: "byte \<Rightarrow> byte list \<Rightarrow> byte list" where
  "rzx_block type body = type # dword_bytes (of_nat (length body + 5)) @ body"

definition input_body :: "'s zlib \<Rightarrow> bool \<Rightarrow> input_block_t \<Rightarrow> byte list" where
  "input_body z compress i =
     (let (squeezed, d) = packed z compress (frames_bytes (frames i))
      in dword_bytes (of_nat (length (frames i))) @ [0] @ dword_bytes (ucast (input_tstates i)) @
         dword_bytes (if squeezed then 2 else 0) @ d)"

definition creator_body :: "libspectrum_creator \<Rightarrow> byte list" where
  "creator_body c = take 20 (creator_program c) @ word_bytes (creator_major c) @ word_bytes (creator_minor c) @
     (case creator_custom c of None \<Rightarrow> [] | Some d \<Rightarrow> take (unat (creator_custom_length c)) d)"

definition creator_block :: "libspectrum_creator option \<Rightarrow> byte list" where
  "creator_block creator = (case creator of None \<Rightarrow> [] | Some c \<Rightarrow> rzx_block 0x10 (creator_body c))"

definition rzx_header :: "byte list" where
  "rzx_header = rzx_signature @ [0, 12] @ dword_bytes 0"

section \<open>Writing\<close>

lemma frame_length: "frame_writable f \<Longrightarrow> 4 \<le> length (frame_bytes f)"
  by (simp add: frame_bytes_def)

lemma frames_count: "(\<forall>f \<in> set fs. frame_writable f) \<Longrightarrow> 4 * length fs \<le> length (frames_bytes fs)"
  using frame_length by (induction fs) fastforce+

lemma put_frame_bytes:
  assumes "frame_writable f"
  shows "buf.puts (\<lambda>b. libspectrum_buffer_write_word junk b (ucast (instructions f)) \<bind> (\<lambda>b.
      if repeat_last f then libspectrum_buffer_write_word junk b 0xffff
      else libspectrum_buffer_write_word junk b (ucast (frame_count f)) \<bind> (\<lambda>b.
        (if frame_count f = 0 then Some [] else in_bytes f) \<bind> (\<lambda>data.
          libspectrum_buffer_write junk b data (frame_count f))))) (frame_bytes f)"
proof (cases "repeat_last f")
  case True
  then show ?thesis by (simp add: frame_bytes_def buf.puts_seq puts_word)
next
  case False
  have data: "(if frame_count f = 0 then Some [] else in_bytes f) = Some (frame_data f)"
    and n: "unat (frame_count f) = length (frame_data f)"
    using assms False by (auto simp: frame_writable_def frame_data_def)
  have "buf.puts (\<lambda>b. libspectrum_buffer_write junk b (frame_data f) (frame_count f)) (frame_data f)"
    using puts_data [of "frame_count f" "frame_data f" junk] n by simp
  then show ?thesis using False data by (simp add: frame_bytes_def buf.puts_seq puts_word)
qed

lemma put_frames_bytes: "(\<forall>f \<in> set fs. frame_writable f) \<Longrightarrow> buf.puts (rzx_write_frames junk fs) (frames_bytes fs)"
proof (induction fs)
  case Nil
  have "rzx_write_frames junk [] = Some" by (rule ext) simp
  then show ?case by (simp add: buf.puts_nothing)
next
  case (Cons f fs)
  then have f: "frame_writable f" and fs: "buf.puts (rzx_write_frames junk fs) (frames_bytes fs)" by auto
  have "rzx_write_frames junk (f # fs) = (\<lambda>b. (libspectrum_buffer_write_word junk b (ucast (instructions f)) \<bind> (\<lambda>b.
      if repeat_last f then libspectrum_buffer_write_word junk b 0xffff
      else libspectrum_buffer_write_word junk b (ucast (frame_count f)) \<bind> (\<lambda>b.
        (if frame_count f = 0 then Some [] else in_bytes f) \<bind> (\<lambda>data.
          libspectrum_buffer_write junk b data (frame_count f))))) \<bind> rzx_write_frames junk fs)"
    by (rule ext) (simp add: bind_assoc)
  then show ?case using buf.puts_seq [OF put_frame_bytes [OF f] fs] by simp
qed

lemma ucast_of_nat_dword: "(ucast (of_nat k :: size_t) :: dword) = of_nat k"
  using ucast_low [of "int k"] by simp

lemma put_block_bytes:
  assumes room: "szx_room (out, data) n" and body: "buffer_ok body" "contents body = d"
    and small: "length d < 2 ^ 32 - 5" and le: "length (rzx_block type d) \<le> n"
  shows "\<exists>out'. rzx_write_block_header junk out body type = Some (out', body\<lparr>bytes_used := 0\<rparr>) \<and>
    contents out' = contents out @ rzx_block type d \<and> has_room out' (n - length (rzx_block type d))"
proof -
  have dw: "(ucast (5 + libspectrum_buffer_get_data_size (Some body)) :: dword) = of_nat (length d + 5)"
  proof -
    have "5 + libspectrum_buffer_get_data_size (Some body) = (of_nat (length d + 5) :: size_t)"
      using length_contents [OF body(1)] body(2) by (simp add: libspectrum_buffer_get_data_size_def)
    then show ?thesis by (simp only: ucast_of_nat_dword)
  qed
  have "buf.puts (\<lambda>b. libspectrum_buffer_write_byte junk b type \<bind> (\<lambda>b.
      libspectrum_buffer_write_dword junk b (of_nat (length d + 5)) \<bind> (\<lambda>b.
        libspectrum_buffer_write_buffer junk b (Some body)))) ([type] @ dword_bytes (of_nat (length d + 5)) @ d)"
    by (intro buf.puts_seq puts_byte puts_dword puts_buffer [OF body(2,1)])
  from buf.puts_result [OF this, of out n] room le obtain out' where out':
    "libspectrum_buffer_write_byte junk out type \<bind> (\<lambda>b.
      libspectrum_buffer_write_dword junk b (of_nat (length d + 5)) \<bind> (\<lambda>b.
        libspectrum_buffer_write_buffer junk b (Some body))) = Some out'"
    "contents out' = contents out @ rzx_block type d" "has_room out' (n - length (rzx_block type d))"
    by (auto simp: szx_room_def rzx_block_def)
  show ?thesis
    using bind_then [OF out'(1), of "\<lambda>b. Some (b, body\<lparr>bytes_used := 0\<rparr>)"] out'(2,3)
    by (simp add: rzx_write_block_header_def dw libspectrum_buffer_clear_def bind_assoc)
qed

lemma compress_result:
  assumes z: "zlib_lossless z" and src: "buffer_ok src" "contents src = d" "length d < 2 ^ 31"
  shows "\<exists>m. rzx_compress junk z (libspectrum_buffer_alloc junk) src compress = Some (m, fst (packed z compress d)) \<and>
    buffer_ok m \<and> contents m = snd (packed z compress d)"
proof -
  let ?m = "libspectrum_buffer_alloc junk"
  have put: "\<exists>m. f ?m = Some m \<and> buffer_ok m \<and> contents m = e" if "buf.puts f e" "length e < 2 ^ 62" for f e
    using buf.puts_result [OF that(1) alloc_has_room [OF that(2)] order_refl] by (auto simp: alloc_contents has_room_def)
  obtain error gz where gz: "libspectrum_zlib_compress z d = (error, gz)" by force
  have used: "bytes_used src = of_nat (length d)" "copy_out (buffer src) 0 (unat (bytes_used src)) = Some d"
    using length_contents [OF src(1)] src by (auto simp: copy_out_def contents_def buffer_ok_def word_le_nat_alt)
  have plain: "\<exists>m. libspectrum_buffer_write_buffer junk ?m (Some src) = Some m \<and> buffer_ok m \<and> contents m = d"
    by (rule put [OF puts_buffer [OF src(2,1)]]) (use src(3) in simp)
  have short: "(of_nat (length gz) :: size_t) \<ge> bytes_used src \<longleftrightarrow> length gz \<ge> length d" "length gz < 2 ^ 62" if "error = ERROR_NONE"
  proof -
    have "length gz < 2 ^ 31" using inflate_deflated(2) [OF z, of d gz 0] gz that src(3) by simp
    then show "(of_nat (length gz) :: size_t) \<ge> bytes_used src \<longleftrightarrow> length gz \<ge> length d" "length gz < 2 ^ 62"
      using src(3) by (simp_all add: used word_le_nat_alt unat_of_nat take_bit_nat_eq_self)
  qed
  show ?thesis
  proof (cases "compress \<and> error = ERROR_NONE \<and> length gz < length d")
    case True
    then show ?thesis using short put [OF buf.puts_emit [of junk gz]]
      by (simp add: rzx_compress_def used(2) gz packed_def libspectrum_buffer_get_data_size_def)
  next
    case False
    then show ?thesis using short plain
      by (auto simp: rzx_compress_def used(2) gz packed_def libspectrum_buffer_get_data_size_def)
  qed
qed

lemma packed_length: "length (snd (packed z compress d)) \<le> length d"
  by (simp add: packed_def split: prod.split)

lemma input_body_length: "length (input_body z compress i) \<le> 13 + length (frames_bytes (frames i))"
  using packed_length [of z compress "frames_bytes (frames i)"] by (simp add: input_body_def case_prod_unfold Let_def)

lemma put_input_bytes:
  assumes z: "zlib_lossless z" and i: "input_writable i"
  shows "szx.puts (\<lambda>(out, data). rzx_write_input junk z i out data compress) (rzx_block 0x80 (input_body z compress i))"
  unfolding szx.puts_def
proof (intro allI impI)
  fix s n
  assume room: "szx_room s n" and le: "length (rzx_block 0x80 (input_body z compress i)) \<le> n"
  obtain out data where s: "s = (out, data)" by force
  let ?fs = "frames_bytes (frames i)" and ?body = "input_body z compress i"
  have ok: "\<forall>f \<in> set (frames i). frame_writable f" and small: "length ?fs < 2 ^ 31"
    using i by (auto simp: input_writable_def)
  have data: "buffer_ok data" "contents data = []" using room by (auto simp: szx_room_def s)
  have "has_room data (2 ^ 31)" by (rule empty_has_room [OF data]) simp
  then obtain d1 where d1: "rzx_write_frames junk (frames i) data = Some d1" "contents d1 = ?fs" "buffer_ok d1"
    using buf.puts_result [OF put_frames_bytes [OF ok], of data "2 ^ 31" junk] small data(2) by (auto simp: has_room_def)
  obtain m where m: "rzx_compress junk z (libspectrum_buffer_alloc junk) d1 compress = Some (m, fst (packed z compress ?fs))"
    "buffer_ok m" "contents m = snd (packed z compress ?fs)"
    using compress_result [OF z d1(3,2) small] by blast
  let ?d = "d1\<lparr>bytes_used := 0\<rparr>"
  have d: "buffer_ok ?d" "contents ?d = []" using cleared_ok [OF d1(3)] by auto
  have "buf.puts (\<lambda>b. libspectrum_buffer_write_dword junk b (of_nat (length (frames i))) \<bind> (\<lambda>b.
      libspectrum_buffer_write_byte junk b 0 \<bind> (\<lambda>b.
      libspectrum_buffer_write_dword junk b (ucast (input_tstates i)) \<bind> (\<lambda>b.
      libspectrum_buffer_write_dword junk b (if fst (packed z compress ?fs) then 2 else 0) \<bind> (\<lambda>b.
      libspectrum_buffer_write_buffer junk b (Some m))))))
    (dword_bytes (of_nat (length (frames i))) @ [0] @ dword_bytes (ucast (input_tstates i)) @
      dword_bytes (if fst (packed z compress ?fs) then 2 else 0) @ snd (packed z compress ?fs))"
    by (intro buf.puts_seq puts_byte puts_dword puts_buffer [OF m(3,2)])
  then have "buf.puts (\<lambda>b. libspectrum_buffer_write_dword junk b (of_nat (length (frames i))) \<bind> (\<lambda>b.
      libspectrum_buffer_write_byte junk b 0 \<bind> (\<lambda>b.
      libspectrum_buffer_write_dword junk b (ucast (input_tstates i)) \<bind> (\<lambda>b.
      libspectrum_buffer_write_dword junk b (if fst (packed z compress ?fs) then 2 else 0) \<bind> (\<lambda>b.
      libspectrum_buffer_write_buffer junk b (Some m)))))) ?body"
    by (simp add: input_body_def case_prod_unfold Let_def)
  from buf.puts_result [OF this empty_has_room [OF d, of "2 ^ 32"]] input_body_length [of z compress i] small d(2)
  obtain d2 where d2: "libspectrum_buffer_write_dword junk ?d (of_nat (length (frames i))) \<bind> (\<lambda>b.
      libspectrum_buffer_write_byte junk b 0 \<bind> (\<lambda>b.
      libspectrum_buffer_write_dword junk b (ucast (input_tstates i)) \<bind> (\<lambda>b.
      libspectrum_buffer_write_dword junk b (if fst (packed z compress ?fs) then 2 else 0) \<bind> (\<lambda>b.
      libspectrum_buffer_write_buffer junk b (Some m))))) = Some d2"
    "contents d2 = ?body" "buffer_ok d2"
    by (auto simp: has_room_def)
  have "length ?body < 2 ^ 32 - 5" using input_body_length [of z compress i] small by simp
  from put_block_bytes [OF room [unfolded s] d2(3,2) this le] obtain out' where out':
    "rzx_write_block_header junk out d2 0x80 = Some (out', d2\<lparr>bytes_used := 0\<rparr>)"
    "contents out' = contents out @ rzx_block 0x80 ?body" "has_room out' (n - length (rzx_block 0x80 ?body))"
    by blast
  have "rzx_write_input junk z i out data compress = Some (out', d2\<lparr>bytes_used := 0\<rparr>)"
    using bind_then [OF d2(1), of "\<lambda>b. rzx_write_block_header junk out b 0x80 \<bind>
      (\<lambda>(out, b). libspectrum_buffer_clear (Some b) \<bind> (\<lambda>b. Some (out, b)))"] out'(1)
    by (simp add: rzx_write_input_def d1(1) m(1) libspectrum_buffer_clear_def bind_assoc)
  then show "\<exists>s'. (case s of (out, data) \<Rightarrow> rzx_write_input junk z i out data compress) = Some s' \<and>
      szx_written s' = szx_written s @ rzx_block 0x80 ?body \<and> szx_room s' (n - length (rzx_block 0x80 ?body))"
    using out' cleared_ok [OF d2(3)] by (simp add: s szx_written_def szx_room_def)
qed

lemma put_creator_bytes:
  assumes c: "creator_ok c" "unat (creator_custom_length c) < 2 ^ 31"
  shows "szx.puts (\<lambda>(out, data). rzx_write_creator junk out data c) (rzx_block 0x10 (creator_body c))"
  unfolding szx.puts_def
proof (intro allI impI)
  fix s n
  assume room: "szx_room s n" and le: "length (rzx_block 0x10 (creator_body c)) \<le> n"
  obtain out data where s: "s = (out, data)" by force
  have data: "buffer_ok data" "contents data = []" using room by (auto simp: szx_room_def s)
  have prog: "length (creator_program c) = 32" using c by (simp add: creator_ok_def)
  have custom: "buf.puts (\<lambda>b. if creator_custom_length c \<noteq> 0
        then creator_custom c \<bind> (\<lambda>d. libspectrum_buffer_write junk b d (creator_custom_length c)) else Some b)
      (case creator_custom c of None \<Rightarrow> [] | Some d \<Rightarrow> take (unat (creator_custom_length c)) d)"
  proof (cases "creator_custom_length c = 0")
    case True
    then show ?thesis by (simp add: buf.puts_nothing split: option.split)
  next
    case False
    then obtain d where d: "creator_custom c = Some d" "unat (creator_custom_length c) \<le> length d"
      using c(1) by (auto simp: creator_ok_def split: option.splits)
    then show ?thesis using False puts_data [OF d(2), of junk] by simp
  qed
  have program: "buf.puts (\<lambda>b. libspectrum_buffer_write junk b (creator_program c) 20) (take 20 (creator_program c))"
    using puts_data [of 20 "creator_program c" junk] prog by simp
  have "buf.puts (\<lambda>b. libspectrum_buffer_write junk b (creator_program c) 20 \<bind> (\<lambda>b.
      libspectrum_buffer_write_word junk b (creator_major c) \<bind> (\<lambda>b.
      libspectrum_buffer_write_word junk b (creator_minor c) \<bind> (\<lambda>b.
      if creator_custom_length c \<noteq> 0
      then creator_custom c \<bind> (\<lambda>d. libspectrum_buffer_write junk b d (creator_custom_length c)) else Some b)))) (creator_body c)"
    unfolding creator_body_def by (intro buf.puts_seq puts_word program custom)
  moreover have small: "length (creator_body c) \<le> 2 ^ 31 + 24"
    using c(2) prog by (simp add: creator_body_def min_def split: option.split)
  ultimately obtain d1 where d1: "libspectrum_buffer_write junk data (creator_program c) 20 \<bind> (\<lambda>b.
      libspectrum_buffer_write_word junk b (creator_major c) \<bind> (\<lambda>b.
      libspectrum_buffer_write_word junk b (creator_minor c) \<bind> (\<lambda>b.
      if creator_custom_length c \<noteq> 0
      then creator_custom c \<bind> (\<lambda>d. libspectrum_buffer_write junk b d (creator_custom_length c)) else Some b))) = Some d1"
    "contents d1 = creator_body c" "buffer_ok d1"
    using buf.puts_result [OF _ empty_has_room [OF data, of "2 ^ 32"]] data(2)
    by (fastforce simp: has_room_def)
  from put_block_bytes [OF room [unfolded s] d1(3,2) _ le] small obtain out' where out':
    "rzx_write_block_header junk out d1 0x10 = Some (out', d1\<lparr>bytes_used := 0\<rparr>)"
    "contents out' = contents out @ rzx_block 0x10 (creator_body c)" "has_room out' (n - length (rzx_block 0x10 (creator_body c)))"
    by auto
  have "rzx_write_creator junk out data c = Some (out', d1\<lparr>bytes_used := 0\<rparr>)"
    using bind_then [OF d1(1), of "\<lambda>b. rzx_write_block_header junk out b 0x10"] out'(1)
    by (simp add: rzx_write_creator_def libspectrum_creator_program_def libspectrum_creator_major_def
        libspectrum_creator_minor_def libspectrum_creator_custom_def libspectrum_creator_custom_length_def bind_assoc
        cong: if_cong)
  then show "\<exists>s'. (case s of (out, data) \<Rightarrow> rzx_write_creator junk out data c) = Some s' \<and>
      szx_written s' = szx_written s @ rzx_block 0x10 (creator_body c) \<and>
      szx_room s' (n - length (rzx_block 0x10 (creator_body c)))"
    using out' cleared_ok [OF d1(3)] by (simp add: s szx_written_def szx_room_def)
qed

text \<open>The bytes of the input blocks.\<close>

abbreviation "inputs_bytes z compress is \<equiv> concat (map (\<lambda>i. rzx_block 0x80 (input_body z compress i)) is)"

lemma put_inputs_bytes:
  assumes z: "zlib_lossless z"
  shows "\<lbrakk>\<forall>i \<in> set is. input_writable i; szx_room s n; length (inputs_bytes z compress is) \<le> n\<rbrakk> \<Longrightarrow>
    \<exists>s'. rzx_write_blocks rj z creator compress fmt (map Input_block is) s = Some (ERROR_NONE, s') \<and>
      szx_written s' = szx_written s @ inputs_bytes z compress is \<and> szx_room s' (n - length (inputs_bytes z compress is))"
proof (induction "is" arbitrary: fmt s n)
  case (Cons i "is")
  obtain out data where s: "s = (out, data)" by force
  have le: "length (rzx_block 0x80 (input_body z compress i)) \<le> n" using Cons.prems(3) by simp
  obtain s1 where s1: "rzx_write_input (junk_byte rj) z i out data compress = Some s1"
    "szx_written s1 = szx_written s @ rzx_block 0x80 (input_body z compress i)"
    "szx_room s1 (n - length (rzx_block 0x80 (input_body z compress i)))"
    using szx.puts_result [OF put_input_bytes [OF z] Cons.prems(2) le] Cons.prems(1) by (fastforce simp: s)
  show ?case
    using Cons.IH [OF _ s1(3)] Cons.prems s1 by (fastforce simp: s diff_diff_left)
qed simp

lemma block_length: "length (rzx_block type d) = length d + 5"
  by (simp add: rzx_block_def)

text \<open>Appending a buffer to the array of the caller.\<close>

definition room_ok :: "room \<Rightarrow> bool" where
  "room_ok r \<longleftrightarrow> length (dest r) = unat (allocated r) \<and> ptr r \<le> length (dest r) \<and> length (dest r) < 2 ^ 62"

lemma room_append:
  assumes r: "room_ok r" and b: "buffer_ok b" "contents b = d" and small: "ptr r + length d < 2 ^ 61"
  shows "\<exists>r'. libspectrum_buffer_append junk r b = Some r' \<and> take (ptr r') (dest r') = take (ptr r) (dest r) @ d \<and>
    ptr r' = ptr r + length d \<and> room_ok r'"
proof (cases "d = []")
  case True
  then have "bytes_used b = 0" using length_contents [OF b(1)] b(2) by (simp add: unat_eq_0)
  then show ?thesis using True r by (simp add: libspectrum_buffer_append_def)
next
  case False
  have n: "unat (bytes_used b) = length d" using length_contents [OF b(1)] b(2) by simp
  then have pos: "bytes_used b \<noteq> 0" using False by auto
  define r1 where "r1 = libspectrum_make_room junk (bytes_used b) r"
  have grow: "length (dest r1) = unat (allocated r1)" "ptr r1 = ptr r" "ptr r + length d \<le> length (dest r1)"
    "take (ptr r) (dest r1) = take (ptr r) (dest r)" "length (dest r1) < 2 ^ 62"
  proof -
    have p: "unat (of_nat (ptr r) :: size_t) = ptr r" using small by (simp add: unat_of_nat take_bit_nat_eq_self)
    have sum: "unat (of_nat (ptr r) + bytes_used b :: size_t) = ptr r + length d"
      using small p n by (simp add: unat_word_ariths)
    have dbl: "unat (2 * allocated r) = 2 * unat (allocated r)" using r by (simp add: room_ok_def unat_word_ariths)
    have all: "length (dest r1) = unat (allocated r1) \<and> ptr r1 = ptr r \<and> ptr r + length d \<le> length (dest r1) \<and>
      take (ptr r) (dest r1) = take (ptr r) (dest r) \<and> length (dest r1) < 2 ^ 62"
      using r small n sum dbl
      by (auto simp: r1_def libspectrum_make_room_def room_ok_def Let_def take_renew word_le_nat_alt word_less_nat_alt)
    then show "length (dest r1) = unat (allocated r1)" "ptr r1 = ptr r" "ptr r + length d \<le> length (dest r1)"
      "take (ptr r) (dest r1) = take (ptr r) (dest r)" "length (dest r1) < 2 ^ 62" by blast+
  qed
  have src: "length d \<le> length (buffer b)" "take (length d) (buffer b) = d"
    using b n by (auto simp: contents_def buffer_ok_def word_le_nat_alt)
  have "libspectrum_buffer_append junk r b =
      Some (r1\<lparr>dest := take (ptr r) (dest r1) @ d @ drop (ptr r + length d) (dest r1), ptr := ptr r + length d\<rparr>)"
    using pos grow src n by (simp add: libspectrum_buffer_append_def r1_def [symmetric] Let_def memcpy_at_def)
  moreover have "length (take (ptr r) (dest r)) = ptr r" using r by (simp add: room_ok_def)
  ultimately show ?thesis using grow by (simp add: room_ok_def)
qed

section \<open>Reading\<close>

lemma read_word_drop: "drop p buf = word_bytes w @ rest \<Longrightarrow> libspectrum_read_word buf p = Some (w, p + 2)"
  using read_word_at [of "take p buf" w rest] append_take_drop_id [of p buf]
  by (cases "p \<le> length buf") (auto simp: word_bytes_def)

lemma read_dword_drop: "drop p buf = dword_bytes d @ rest \<Longrightarrow> libspectrum_read_dword buf p = Some (d, p + 4)"
  using read_dword_at [of "take p buf" d rest] append_take_drop_id [of p buf]
  by (cases "p \<le> length buf") (auto simp: dword_bytes_def)

lemma drop_further: "drop p buf = a @ rest \<Longrightarrow> length a = n \<Longrightarrow> drop (p + n) buf = rest"
  by (metis add.commute append_eq_conv_conj drop_drop)

lemma drop_length:
  assumes "drop p buf = a @ rest" "a \<noteq> []"
  shows "p + length a + length rest = length buf"
proof -
  have "length buf - p = length a + length rest" using arg_cong [OF assms(1), of length] by simp
  moreover have "0 < length a" using assms(2) by simp
  ultimately show ?thesis by linarith
qed

text \<open>A frame as it is read: a repeated frame has the count that marks it.\<close>

definition reread_frame :: "libspectrum_rzx_frame_t \<Rightarrow> libspectrum_rzx_frame_t" where
  "reread_frame f = (if repeat_last f then f\<lparr>frame_count := 0xffff, in_bytes := None\<rparr> else f)"

lemma ucast_64_16: "x < 0x10000 \<Longrightarrow> (ucast (ucast (x :: size_t) :: lword) :: size_t) = x"
  by (simp add: word_unat_eq_iff unat_ucast_small word_less_nat_alt)

lemma ucast_64_32: "x < 2 ^ 32 \<Longrightarrow> (ucast (ucast (x :: size_t) :: dword) :: size_t) = x"
  by (simp add: word_unat_eq_iff unat_ucast_small word_less_nat_alt)

lemma unat_64_16: "x < 0x10000 \<Longrightarrow> unat (ucast (x :: size_t) :: lword) = unat x"
  by (simp add: unat_ucast_small word_less_nat_alt)

lemma frame_head:
  assumes "frame_writable f"
  shows "(ucast (ucast (instructions f) :: lword) :: size_t) = instructions f"
    and "\<not> repeat_last f \<Longrightarrow> (ucast (ucast (frame_count f) :: lword) :: size_t) = frame_count f"
    and "\<not> repeat_last f \<Longrightarrow> unat (ucast (frame_count f) :: lword) = length (frame_data f)"
    and "\<not> repeat_last f \<Longrightarrow> length (frame_data f) < 0xffff"
proof -
  show "(ucast (ucast (instructions f) :: lword) :: size_t) = instructions f"
    using assms by (simp add: frame_writable_def ucast_64_16)
  assume "\<not> repeat_last f"
  then have c: "frame_count f < 0xffff" "unat (frame_count f) = length (frame_data f)" using assms by (auto simp: frame_writable_def)
  have big: "frame_count f < 0x10000" using c(1) by (simp add: word_less_nat_alt)
  show "(ucast (ucast (frame_count f) :: lword) :: size_t) = frame_count f" using big by (rule ucast_64_16)
  show "unat (ucast (frame_count f) :: lword) = length (frame_data f)" using unat_64_16 [OF big] c(2) by simp
  show "length (frame_data f) < 0xffff" using c by (simp add: word_less_nat_alt)
qed

lemma read_frame_back:
  assumes f: "frame_writable f" and buf: "drop p buf = frame_bytes f @ rest"
  shows "rzx_read_frames j (Suc k) fs buf p = rzx_read_frames j k (fs @ [reread_frame f]) buf (p + length (frame_bytes f))"
proof -
  have len: "p + length (frame_bytes f) + length rest = length buf"
    by (rule drop_length [OF buf]) (use frame_length [OF f] in auto)
  have four: "p + 4 = Suc (Suc (Suc (Suc p)))" by simp
  show ?thesis
  proof (cases "repeat_last f")
    case True
    have b: "drop p buf = word_bytes (ucast (instructions f)) @ word_bytes 0xffff @ rest"
      using buf True by (simp add: frame_bytes_def)
    note c = drop_further [OF b length_word_bytes]
    have "reread_frame f = \<lparr>instructions = instructions f, frame_count = 0xffff, in_bytes = None, repeat_last = True\<rparr>"
      using True by (simp add: reread_frame_def)
    then show ?thesis
      using len True read_word_drop [OF b] read_word_drop [OF c] frame_head(1) [OF f] by (simp add: frame_bytes_def four)
  next
    case False
    have b: "drop p buf = word_bytes (ucast (instructions f)) @ word_bytes (ucast (frame_count f)) @ frame_data f @ rest"
      using buf False by (simp add: frame_bytes_def)
    note c = drop_further [OF b length_word_bytes]
    note d = drop_further [OF c length_word_bytes]
    note h = frame_head [OF f] frame_head(2-4) [OF f False]
    have n: "(ucast (frame_count f) :: lword) \<noteq> 0xffff" using h(6,7) by auto
    have zero: "(ucast (frame_count f) :: lword) = 0 \<longleftrightarrow> in_bytes f = None"
      using f False h(5,6) by (auto simp: frame_writable_def)
    have copy: "copy_out buf (p + 2 + 2) (length (frame_data f)) = Some (frame_data f)"
      using d len False by (simp add: copy_out_def frame_bytes_def)
    have data: "in_bytes f = Some (frame_data f)" if "in_bytes f \<noteq> None" using that by (auto simp: frame_data_def)
    have "reread_frame f = \<lparr>instructions = instructions f, frame_count = frame_count f, in_bytes = in_bytes f, repeat_last = False\<rparr>"
      using False by (simp add: reread_frame_def)
    then show ?thesis
      using len False read_word_drop [OF b] read_word_drop [OF c] h n zero copy data by (auto simp: frame_bytes_def)
  qed
qed

lemma read_frames_back:
  "\<lbrakk>\<forall>f \<in> set fs. frame_writable f; drop p buf = frames_bytes fs @ rest\<rbrakk> \<Longrightarrow>
    rzx_read_frames j (length fs) rd buf p = Some (ERROR_NONE, rd @ map reread_frame fs, p + length (frames_bytes fs))"
proof (induction fs arbitrary: rd p)
  case (Cons f fs)
  have f: "frame_writable f" and b: "drop p buf = frame_bytes f @ frames_bytes fs @ rest" using Cons.prems by auto
  note c = drop_further [OF b refl]
  show ?case using read_frame_back [OF f b] Cons.IH [OF _ c] Cons.prems(1) by (simp del: rzx_read_frames.simps)
qed simp

lemma size_of_dword:
  assumes "k < 2 ^ 32"
  shows "(ucast (of_nat k :: dword) :: size_t) = of_nat k"
proof -
  have d: "unat (of_nat k :: dword) = k" using assms by (simp add: unat_of_nat take_bit_nat_eq_self)
  then have "unat (ucast (of_nat k :: dword) :: size_t) = k"
    using unat_ucast_small [of "of_nat k :: dword", where 'b = 64] assms by simp
  moreover have "unat (of_nat k :: size_t) = k" using assms by (simp add: unat_of_nat take_bit_nat_eq_self)
  ultimately show ?thesis by (simp add: word_unat_eq_iff)
qed

lemma sint_size: "k < 2 ^ 32 \<Longrightarrow> sint (of_nat k :: size_t) = int k"
  by (simp add: signed_of_nat signed_take_bit_int_eq_self)

lemma ptr_plus_int: "k < 2 ^ 32 \<Longrightarrow> ptr_plus p (of_nat k) = (if int (p + k) < 0 then None else Some (nat (int (p + k))))"
  by (simp only: ptr_plus_def sint_size of_nat_add)

lemma ptr_plus_size: "k < 2 ^ 32 \<Longrightarrow> ptr_plus p (of_nat k) = Some (p + k)"
  by (simp only: ptr_plus_int) simp

lemma not_too_short: "k < 2 ^ 32 \<Longrightarrow> p + k \<le> length buf \<Longrightarrow> \<not> too_short buf p (of_nat k)"
  by (simp add: too_short_def sint_size)

lemma block_size:
  assumes "length body < 2 ^ 32 - 5"
  shows "(ucast (of_nat (length body + 5) :: dword) :: size_t) = of_nat (length body + 5)"
  using assms by (intro size_of_dword) simp

definition reread_input :: "rzx_junk \<Rightarrow> input_block_t \<Rightarrow> input_block_t" where
  "reread_input junk i = \<lparr>frames = map reread_frame (frames i), allocated_frames = of_nat (length (frames i)),
     input_tstates = input_tstates i, non_repeat = junk_non_repeat junk\<rparr>"

lemma packed_not_empty:
  assumes "zlib_header z" "d \<noteq> []"
  shows "snd (packed z compress d) \<noteq> []"
  using assms compress_ok_iff [of z d] by (auto simp: packed_def zlib_header_def split: prod.split)

lemma input_frames_not_empty:
  assumes "input_writable i" "frames i \<noteq> []"
  shows "frames_bytes (frames i) \<noteq> []"
proof -
  have "0 < length (frames i)" using assms(2) by simp
  then have "0 < length (frames_bytes (frames i))"
    using frames_count [of "frames i"] assms(1) by (simp only: input_writable_def) linarith
  then show ?thesis by (rule length_greater_0_conv [THEN iffD1])
qed

lemma read_creator_back:
  assumes small: "length (creator_body c) < 2 ^ 32 - 5" and c: "creator_ok c"
    and buf: "drop p buf = rzx_block 0x10 (creator_body c) @ rest"
  shows "rzx_read_block junk z bz n rzx buf (p + 1) 0x10 = Some (ERROR_NONE, rzx, p + length (rzx_block 0x10 (creator_body c)))"
proof -
  let ?d = "creator_body c"
  have b: "drop (p + 1) buf = dword_bytes (of_nat (length ?d + 5)) @ ?d @ rest"
    by (rule drop_further [of _ _ "[0x10]"]) (simp_all add: buf rzx_block_def)
  have long: "24 \<le> length ?d" using c by (auto simp: creator_body_def creator_ok_def)
  have len: "p + 1 + (4 + length ?d) + length rest = length buf"
    using drop_length [OF b [folded append_assoc]] by (simp add: dword_bytes_def)
  have "(ucast (of_nat (length ?d + 5) :: dword) :: size_t) - 5 = of_nat (length ?d)"
    using block_size [OF small] by simp
  then show ?thesis
    using len long small read_dword_drop [OF b]
    by (simp add: rzx_read_block_def rzx_read_creator_def not_too_short ptr_plus_size block_length)
qed

lemma read_input_back:
  assumes z: "zlib_lossless z" and i: "input_writable i"
    and some: "rest \<noteq> [] \<or> zlib_header z \<and> frames i \<noteq> []"
    and buf: "drop p buf = rzx_block 0x80 (input_body z compress i) @ rest"
  shows "rzx_read_block junk z bz n rzx buf (p + 1) 0x80 =
    Some (ERROR_NONE, rzx\<lparr>rzx_blocks := rzx_blocks rzx @ [(n, Input_block (reread_input junk i))]\<rparr>,
      p + length (rzx_block 0x80 (input_body z compress i)))"
proof -
  let ?d = "input_body z compress i" and ?fs = "frames_bytes (frames i)"
  obtain sq d where p: "packed z compress ?fs = (sq, d)" by force
  have ok: "\<forall>f \<in> set (frames i). frame_writable f" and small: "length ?fs < 2 ^ 31" and t: "input_tstates i < 2 ^ 32"
    using i by (auto simp: input_writable_def)
  have dl: "length d \<le> length ?fs" using packed_length [of z compress ?fs] p by simp
  have body: "?d = dword_bytes (of_nat (length (frames i))) @ [0] @ dword_bytes (ucast (input_tstates i)) @
      dword_bytes (if sq then 2 else 0) @ d"
    by (simp add: input_body_def p)
  have bl: "length ?d = 13 + length d" by (simp add: body)
  have some': "0 < length d + length rest"
    using some packed_not_empty [of z ?fs compress] input_frames_not_empty [OF i] p by auto
  have b0: "drop (p + 1) buf = dword_bytes (of_nat (length ?d + 5)) @ dword_bytes (of_nat (length (frames i))) @ [0] @
      dword_bytes (ucast (input_tstates i)) @ dword_bytes (if sq then 2 else 0) @ d @ rest"
    by (rule drop_further [of _ _ "[0x80]"]) (simp_all add: buf rzx_block_def body)
  have len: "p + 1 + (17 + length d) + length rest = length buf"
    using drop_length [OF b0] by (simp add: dword_bytes_def)
  note b1 = drop_further [OF b0 length_dword_bytes]
  have b2: "drop (p + 10) buf = dword_bytes (ucast (input_tstates i)) @ dword_bytes (if sq then 2 else 0) @ d @ rest"
    using drop_further [OF drop_further [OF b1 length_dword_bytes], of 1] by (simp add: add.commute)
  have b3: "drop (p + 14) buf = dword_bytes (if sq then 2 else 0) @ d @ rest"
    using drop_further [OF b2 length_dword_bytes] by (simp add: add.commute)
  have b4: "drop (p + 18) buf = d @ rest" using drop_further [OF b3 length_dword_bytes] by (simp add: add.commute)
  have r: "libspectrum_read_dword buf (p + 1) = Some (of_nat (length ?d + 5), p + 5)"
    "libspectrum_read_dword buf (p + 5) = Some (of_nat (length (frames i)), p + 9)"
    "libspectrum_read_dword buf (10 + p) = Some (ucast (input_tstates i), p + 14)"
    "libspectrum_read_dword buf (p + 14) = Some (if sq then 2 else 0, p + 18)"
    using read_dword_drop [OF b0] read_dword_drop [OF b1] read_dword_drop [OF b2] read_dword_drop [OF b3]
    by (simp_all add: add.commute)
  have count: "4 * length (frames i) < 2 ^ 31" using frames_count [OF ok] small by linarith
  have n: "unat (of_nat (length (frames i)) :: dword) = length (frames i)"
    "(ucast (of_nat (length (frames i)) :: dword) :: size_t) = of_nat (length (frames i))"
    using count by (simp_all add: unat_of_nat take_bit_nat_eq_self size_of_dword)
  have size: "(ucast (of_nat (length ?d + 5) :: dword) :: size_t) - 18 = of_nat (length d)"
    using block_size [of ?d] bl dl small by simp
  have frames: "rzx_read_frames j (length (frames i)) [] fb q = Some (ERROR_NONE, map reread_frame (frames i), q + length ?fs)"
    if "drop q fb = ?fs @ tl" for q fb tl j
    using read_frames_back [OF ok that, of j "[]"] by simp
  have room: "\<not> length buf < 19 + p" using len some' by linarith
  note facts = room r n size ucast_64_32 [OF t] reread_input_def block_length bl
  show ?thesis
  proof (cases sq)
    case True
    then obtain gz where gz: "libspectrum_zlib_compress z ?fs = (ERROR_NONE, d)" "length d < length ?fs"
      using p by (auto simp: packed_def split: prod.splits if_splits)
    have "libspectrum_zlib_inflate z (d @ rest) (of_nat (length d)) 0 = Some (ERROR_NONE, ?fs)"
      using inflate_deflated(1) [OF z gz(1), of 0 rest] small by simp
    then show ?thesis
      using True len some' dl small frames [of 0 ?fs "[]"] facts b4
      by (simp add: rzx_read_block_def rzx_read_input_def not_too_short ptr_plus_size)
  next
    case False
    then have "d = ?fs" using p by (auto simp: packed_def split: prod.splits if_splits)
    then show ?thesis
      using False len some' frames [of "p + 18" buf rest] facts b4
      by (simp add: rzx_read_block_def rzx_read_input_def)
  qed
qed

section \<open>Files\<close>

text \<open>A file that begins like a recording is not taken for a compressed file.\<close>

lemma recording_not_compressed:
  assumes "take 4 buf = rzx_signature"
  shows "libspectrum_identify_class (libspectrum_identify_file_raw None buf) \<noteq> CLASS_COMPRESSED"
proof -
  obtain rest where buf: "buf = [82, 90, 88, 33] @ rest"
  proof
    show "buf = [82, 90, 88, 33] @ drop 4 buf"
      using assms append_take_drop_id [of 4 buf] by (simp add: rzx_signature_def of_char_def)
  qed
  obtain g best dup where f: "fold (identify_step None buf) types (ID_UNKNOWN, 0, False) = (g, best, dup)"
    by (metis prod_cases3)
  note inv = fold_identify_step [OF f]
  have "ft (ID_RECORDING_RZX, ''rzx'', 3, Some [82, 90, 88, 33], 0, 4) \<in> set types" by (simp add: types_def)
  from best_score_of_upper [OF this, of None buf] have best: "4 \<le> best" using inv by (simp add: buf file_score_def ft_def)
  have "g \<noteq> t" if t: "libspectrum_identify_class t = CLASS_COMPRESSED" for t
  proof
    assume "g = t"
    then have "\<exists>e \<in> set types. ft_type e = t \<and> file_score None buf e = best"
      using inv best by (auto simp: winners_def)
    then show False using t best by (auto simp: types_def ft_def file_score_def buf split: if_splits)
  qed
  then show ?thesis by (auto simp: libspectrum_identify_file_raw_def f)
qed

lemma read_inputs_back:
  assumes z: "zlib_lossless z" "zlib_header z"
  shows "\<lbrakk>\<forall>i \<in> set is. input_writable i; is \<noteq> [] \<Longrightarrow> frames (last is) \<noteq> [];
      drop p buf = inputs_bytes z compress is; p \<le> length buf\<rbrakk> \<Longrightarrow>
    rzx_read_loop junk z bz n rzx buf p = Some (ERROR_NONE, rzx\<lparr>rzx_blocks := rzx_blocks rzx @
      zip [n..<n + length is] (map (\<lambda>i. Input_block (reread_input junk i)) is)\<rparr>)"
proof (induction "is" arbitrary: n rzx p)
  case Nil
  then show ?case by (subst rzx_read_loop.simps) simp
next
  case (Cons i "is")
  let ?b = "rzx_block 0x80 (input_body z compress i)"
  have i: "input_writable i" and rest: "\<forall>i \<in> set is. input_writable i" using Cons.prems(1) by auto
  have buf: "drop p buf = ?b @ inputs_bytes z compress is" using Cons.prems(3) by simp
  have some: "inputs_bytes z compress is \<noteq> [] \<or> zlib_header z \<and> frames i \<noteq> []"
    using z(2) Cons.prems(2) by (cases "is") (auto simp: rzx_block_def)
  note read = read_input_back [OF z(1) i some buf, of junk bz n rzx]
  note further = drop_further [OF buf refl]
  have len: "p + length ?b + length (inputs_bytes z compress is) = length buf"
    by (rule drop_length [OF buf]) (simp add: rzx_block_def)
  have at: "nget buf p = Some 0x80" "p < length buf"
    using buf len by (auto simp: nget_nth_drop rzx_block_def nget_Cons)
  have last: "is \<noteq> [] \<Longrightarrow> frames (last is) \<noteq> []" using Cons.prems(2) by auto
  have "[n..<n + length (i # is)] = n # [n + 1..<n + 1 + length is]" by (simp add: upt_rec)
  then show ?case
    using Cons.IH [OF rest last further, of "n + 1"] len at read
    by (subst rzx_read_loop.simps) simp
qed

text \<open>An input block without frames is a byte too short for the reader if nothing follows it.\<close>

lemma read_empty_input:
  assumes buf: "drop p buf = rzx_block 0x80 (input_body z compress i)" and none: "frames i = []"
  shows "rzx_read_loop junk z bz n rzx buf p = Some (ERROR_CORRUPT, rzx)"
proof -
  have body: "length (input_body z compress i) = 13"
    using packed_length [of z compress "[]"] none by (simp add: input_body_def case_prod_unfold Let_def)
  have b: "drop p buf = rzx_block 0x80 (input_body z compress i) @ []" using buf by simp
  have len: "p + 18 = length buf" using drop_length [OF b] body by (simp add: rzx_block_def)
  have "nget buf p = Some 0x80" using buf len by (auto simp: nget_nth_drop rzx_block_def nget_Cons)
  moreover have "rzx_read_block junk z bz n rzx buf (p + 1) 0x80 = Some (ERROR_CORRUPT, rzx, p + 1)"
    using len by (simp add: rzx_read_block_def rzx_read_input_def)
  ultimately show ?thesis using len by (subst rzx_read_loop.simps) simp
qed

lemma inputs_length: "\<forall>i \<in> set is. input_writable i \<Longrightarrow> length (inputs_bytes z compress is) \<le> length is * 2 ^ 32"
proof (induction "is")
  case (Cons i "is")
  then show ?case using input_body_length [of z compress i] by (auto simp: input_writable_def block_length)
qed simp

definition creator_writable :: "libspectrum_creator option \<Rightarrow> bool" where
  "creator_writable creator \<longleftrightarrow>
     (case creator of None \<Rightarrow> True | Some c \<Rightarrow> creator_ok c \<and> unat (creator_custom_length c) < 2 ^ 31)"

lemma creator_body_length: "creator_ok c \<Longrightarrow> length (creator_body c) \<le> 24 + unat (creator_custom_length c)"
  by (auto simp: creator_body_def creator_ok_def split: option.splits)

lemma header_length: "length rzx_header = 10"
  by (simp add: rzx_header_def rzx_signature_def)

lemma put_header_bytes: "buf.puts (rzx_write_header junk) rzx_header"
proof -
  have "buf.puts (\<lambda>b. libspectrum_buffer_write junk b rzx_signature 4) rzx_signature"
    using buf.puts_emit [of junk rzx_signature] by (simp add: rzx_signature_def)
  then have "buf.puts (\<lambda>b. libspectrum_buffer_write junk b rzx_signature 4 \<bind> (\<lambda>b. libspectrum_buffer_write_byte junk b 0 \<bind>
      (\<lambda>b. libspectrum_buffer_write_byte junk b 12 \<bind> (\<lambda>b. libspectrum_buffer_write_dword junk b 0))))
      (rzx_signature @ [0] @ [12] @ dword_bytes 0)"
    by (intro buf.puts_seq puts_byte puts_dword)
  then show ?thesis by (simp add: rzx_header_def rzx_write_header_def [abs_def])
qed

text \<open>The file that a recording of input blocks is written to.\<close>

lemma written_file:
  assumes z: "zlib_lossless z" and r: "room_ok r" and blocks: "map snd (rzx_blocks rzx) = map Input_block is"
    and ok: "\<forall>i \<in> set is. input_writable i" and few: "length is < 2 ^ 20" and c: "creator_writable creator"
  shows "\<exists>r'. libspectrum_rzx_write rj z r rzx fmt creator compress = Some (ERROR_NONE, r') \<and>
    take (ptr r') (dest r') = rzx_header @ creator_block creator @ inputs_bytes z compress is"
proof -
  let ?junk = "junk_byte rj" and ?is = "inputs_bytes z compress is"
  let ?new = "libspectrum_buffer_alloc ?junk"
  have small: "length (creator_block creator) \<le> 2 ^ 32" "length ?is \<le> 2 ^ 52"
  proof -
    show "length (creator_block creator) \<le> 2 ^ 32"
      using c creator_body_length by (fastforce simp: creator_writable_def creator_block_def block_length split: option.splits)
    have "length is * 2 ^ 32 \<le> 2 ^ 20 * 2 ^ 32" using few by (intro mult_right_mono) simp_all
    then show "length ?is \<le> 2 ^ 52" using inputs_length [OF ok, of z compress] by simp
  qed
  have start: "szx_room (?new, ?new) (2 ^ 60)" "szx_written (?new, ?new) = []"
    using alloc_has_room [of "2 ^ 60" ?junk] by (simp_all add: szx_room_def szx_written_def has_room_def alloc_contents)
  obtain s1 where s1: "(case creator of None \<Rightarrow> Some (?new, ?new) | Some c \<Rightarrow> rzx_write_creator ?junk ?new ?new c) = Some s1"
    "szx_written s1 = creator_block creator" "szx_room s1 (2 ^ 60 - length (creator_block creator))"
  proof (cases creator)
    case None
    then show ?thesis using that start by (simp add: creator_block_def)
  next
    case (Some cr)
    then have cr: "creator_ok cr" "unat (creator_custom_length cr) < 2 ^ 31" using c by (auto simp: creator_writable_def)
    show ?thesis
      using szx.puts_result [OF put_creator_bytes [OF cr, of ?junk] start(1)] small(1) start(2) that
      by (auto simp: Some creator_block_def)
  qed
  have "length ?is \<le> 2 ^ 60 - length (creator_block creator)" using small by simp
  then obtain s2 where s2: "rzx_write_blocks rj z creator compress fmt (map Input_block is) s1 = Some (ERROR_NONE, s2)"
    "szx_written s2 = creator_block creator @ ?is" "szx_room s2 (2 ^ 60 - length (creator_block creator) - length ?is)"
    using put_inputs_bytes [OF z ok s1(3), of compress rj creator fmt] s1(2) by auto
  obtain out data where s2_eq: "s2 = (out, data)" by force
  have out: "buffer_ok out" "contents out = creator_block creator @ ?is" "buffer_ok data" "contents data = []"
    using s2 by (auto simp: s2_eq szx_room_def szx_written_def has_room_def)
  obtain h where h: "rzx_write_header ?junk data = Some h" "contents h = rzx_header" "buffer_ok h"
    using buf.puts_result [OF put_header_bytes empty_has_room [OF out(3,4)], of 10 ?junk] out(4) header_length
    by (auto simp: has_room_def)
  have r0: "room_ok (r\<lparr>ptr := 0\<rparr>)" using r by (simp add: room_ok_def)
  obtain r1 where r1: "libspectrum_buffer_append ?junk (r\<lparr>ptr := 0\<rparr>) h = Some r1" "take (ptr r1) (dest r1) = rzx_header"
    "ptr r1 = 10" "room_ok r1"
    using room_append [OF r0 h(3,2), of ?junk] header_length by auto
  obtain r2 where r2: "libspectrum_buffer_append ?junk r1 out = Some r2"
    "take (ptr r2) (dest r2) = rzx_header @ creator_block creator @ ?is"
    using room_append [OF r1(4) out(1,2), of ?junk] r1(2,3) small by auto
  have "libspectrum_rzx_write rj z r rzx fmt creator compress = Some (ERROR_NONE, r2)"
    using s1(1) s2(1) h(1) r1(1) r2(1) by (simp add: libspectrum_rzx_write_def blocks s2_eq Let_def case_prod_unfold)
  then show ?thesis using r2(2) by blast
qed

lemma read_file:
  assumes c: "creator_writable creator" and fl: "file = rzx_header @ creator_block creator @ rest"
  shows "\<exists>m. libspectrum_rzx_read junk z bz n rzx file =
      rzx_read_loop junk z bz m (rzx\<lparr>signed_start := Some 10\<rparr>) file (10 + length (creator_block creator)) \<and>
    drop (10 + length (creator_block creator)) file = rest \<and> 10 + length (creator_block creator) \<le> length file"
proof -
  have sig: "take 4 file = rzx_signature" by (simp add: fl rzx_header_def rzx_signature_def)
  have "libspectrum_rzx_read junk z bz n rzx file = rzx_read_loop junk z bz n (rzx\<lparr>signed_start := Some 10\<rparr>) file 10"
    using recording_not_compressed [OF sig] sig header_length
    by (simp add: libspectrum_rzx_read_def plain_data_def Let_def rzx_read_header_def fl)
  moreover have "\<exists>m. rzx_read_loop junk z bz n rzx' file 10 = rzx_read_loop junk z bz m rzx' file (10 + length (creator_block creator))" for rzx'
  proof (cases creator)
    case None
    then show ?thesis by (auto simp: creator_block_def)
  next
    case (Some cr)
    then have cr: "creator_ok cr" "length (creator_body cr) < 2 ^ 32 - 5"
      using c creator_body_length [of cr] by (auto simp: creator_writable_def)
    have buf: "drop 10 file = rzx_block 0x10 (creator_body cr) @ rest" by (simp add: fl header_length Some creator_block_def)
    have "nget file 10 = Some 0x10" "10 < length file"
      using buf by (auto simp: nget_nth_drop rzx_block_def nget_Cons fl header_length Some creator_block_def)
    then show ?thesis
      using read_creator_back [OF cr(2,1) buf, of junk z bz n rzx']
      by (subst rzx_read_loop.simps) (auto simp: Some creator_block_def)
  qed
  ultimately show ?thesis by (simp add: fl header_length)
qed

text \<open>
  C5: a recording of input blocks, written with or without a creator and compressed or not, is read
  back with the same frames, instruction counts and T-states, if its last block has a frame.
\<close>

theorem rzx_roundtrip:
  assumes "zlib_lossless z" "zlib_header z" "room_ok r" "creator_writable creator"
    "map snd (rzx_blocks rzx) = map Input_block is" "\<forall>i \<in> set is. input_writable i" "length is < 2 ^ 20"
    "is \<noteq> [] \<longrightarrow> frames (last is) \<noteq> []"
  shows "\<exists>r' rzx'. libspectrum_rzx_write rj z r rzx fmt creator compress = Some (ERROR_NONE, r') \<and>
    libspectrum_rzx_read rj z bz n (libspectrum_rzx_alloc raw) (take (ptr r') (dest r')) = Some (ERROR_NONE, rzx') \<and>
    map snd (rzx_blocks rzx') = map (\<lambda>i. Input_block (reread_input rj i)) is"
proof -
  obtain r' where r': "libspectrum_rzx_write rj z r rzx fmt creator compress = Some (ERROR_NONE, r')"
    "take (ptr r') (dest r') = rzx_header @ creator_block creator @ inputs_bytes z compress is"
    using written_file [OF assms(1,3,5,6,7,4)] by blast
  obtain m where m: "libspectrum_rzx_read rj z bz n (libspectrum_rzx_alloc raw) (take (ptr r') (dest r')) =
      rzx_read_loop rj z bz m ((libspectrum_rzx_alloc raw)\<lparr>signed_start := Some 10\<rparr>) (take (ptr r') (dest r'))
        (10 + length (creator_block creator))"
    "drop (10 + length (creator_block creator)) (take (ptr r') (dest r')) = inputs_bytes z compress is"
    "10 + length (creator_block creator) \<le> length (take (ptr r') (dest r'))"
    using read_file [OF assms(4) r'(2)] by blast
  show ?thesis
    using r'(1) m(1) read_inputs_back [OF assms(1,2,6) _ m(2,3), of rj bz m] assms(8)
    by (simp add: libspectrum_rzx_alloc_def)
qed

text \<open>
  C8: a recording whose last input block has no frames is written without an error, but its file is
  rejected: the reader wants 18 bytes of the block behind its identifier, of which the writer needs only 17.
\<close>

theorem empty_recording_rejected:
  assumes "zlib_lossless z" "room_ok r" "creator_writable creator"
    "map snd (rzx_blocks rzx) = [Input_block i]" "frames i = []" "input_tstates i < 2 ^ 32"
  shows "\<exists>r' rzx'. libspectrum_rzx_write rj z r rzx fmt creator compress = Some (ERROR_NONE, r') \<and>
    libspectrum_rzx_read rj z bz n rzx0 (take (ptr r') (dest r')) = Some (ERROR_CORRUPT, rzx')"
proof -
  have i: "\<forall>i \<in> set [i]. input_writable i" using assms(5,6) by (simp add: input_writable_def)
  obtain r' where r': "libspectrum_rzx_write rj z r rzx fmt creator compress = Some (ERROR_NONE, r')"
    "take (ptr r') (dest r') = rzx_header @ creator_block creator @ inputs_bytes z compress [i]"
    using written_file [OF assms(1,2) _ i _ assms(3), of rzx rj fmt compress] assms(4) by auto
  obtain m where m: "libspectrum_rzx_read rj z bz n rzx0 (take (ptr r') (dest r')) =
      rzx_read_loop rj z bz m (rzx0\<lparr>signed_start := Some 10\<rparr>) (take (ptr r') (dest r')) (10 + length (creator_block creator))"
    "drop (10 + length (creator_block creator)) (take (ptr r') (dest r')) = inputs_bytes z compress [i]"
    using read_file [OF assms(3) r'(2)] by blast
  have "drop (10 + length (creator_block creator)) (take (ptr r') (dest r')) = rzx_block 0x80 (input_body z compress i)"
    using m(2) by simp
  note read_empty_input [OF this assms(5)]
  then show ?thesis using r'(1) m(1) by metis
qed

section \<open>An example\<close>

definition two_inputs :: "input_block_t list" where
  "two_inputs = [\<lparr>frames = [\<lparr>instructions = 1000, frame_count = 2, in_bytes = Some [0xbf, 0xff], repeat_last = False\<rparr>,
       \<lparr>instructions = 1001, frame_count = 0, in_bytes = None, repeat_last = True\<rparr>], allocated_frames = 50,
     input_tstates = 17, non_repeat = 0\<rparr>,
     \<lparr>frames = [\<lparr>instructions = 900, frame_count = 0, in_bytes = None, repeat_last = False\<rparr>], allocated_frames = 50,
     input_tstates = 99, non_repeat = 0\<rparr>]"

lemma two_inputs_writable: "\<forall>i \<in> set two_inputs. input_writable i"
  by (simp add: two_inputs_def input_writable_def frame_writable_def frame_data_def frame_bytes_def)

theorem rzx_roundtrip_witness:
  "\<forall>rj raw bz. \<exists>r' rzx'. libspectrum_rzx_write rj run_zlib \<lparr>dest = [], ptr = 0, allocated = 0\<rparr>
      ((libspectrum_rzx_alloc raw)\<lparr>rzx_blocks := zip [0..<2] (map Input_block two_inputs)\<rparr>) ID_UNKNOWN None True =
      Some (ERROR_NONE, r') \<and>
    libspectrum_rzx_read rj run_zlib (bz :: unit bzip2) 7 (libspectrum_rzx_alloc raw) (take (ptr r') (dest r')) =
      Some (ERROR_NONE, rzx') \<and>
    map snd (rzx_blocks rzx') = map (\<lambda>i. Input_block (reread_input rj i)) two_inputs"
proof (intro allI, rule rzx_roundtrip [OF run_zlib_ok _ _ _ two_inputs_writable])
qed (simp_all add: room_ok_def creator_writable_def two_inputs_def upt_rec)

theorem empty_recording_rejected_witness:
  "\<forall>rj rzx0 raw bz. \<exists>r' rzx'. libspectrum_rzx_write rj run_zlib \<lparr>dest = [], ptr = 0, allocated = 0\<rparr>
      (libspectrum_rzx_start_input 0 (libspectrum_rzx_alloc raw) 17) ID_UNKNOWN None True = Some (ERROR_NONE, r') \<and>
    libspectrum_rzx_read rj run_zlib (bz :: unit bzip2) 7 rzx0 (take (ptr r') (dest r')) = Some (ERROR_CORRUPT, rzx')"
  by (intro allI empty_recording_rejected [OF run_zlib_ok(1), where i =
      "\<lparr>frames = [], allocated_frames = 0, input_tstates = 17, non_repeat = 0\<rparr>"])
    (simp_all add: room_ok_def creator_writable_def libspectrum_rzx_start_input_def libspectrum_rzx_alloc_def)

section \<open>A file that is never read to its end\<close>

text \<open>A creator block of length 0.\<close>

definition endless_file :: "byte list \<Rightarrow> byte list" where
  "endless_file rest = rzx_header @ [0x10] @ dword_bytes 0 @ rest"

lemma endless_creator:
  assumes "24 \<le> length rest"
  shows "rzx_read_creator (endless_file rest) 11 = Some (ERROR_NONE, 10)"
proof -
  have "drop 11 (endless_file rest) = dword_bytes 0 @ rest" by (simp add: endless_file_def header_length)
  from read_dword_drop [OF this] have "libspectrum_read_dword (endless_file rest) 11 = Some (0, 15)" by simp
  moreover have "sint (- 5 :: size_t) = - 5" by simp
  moreover have "length (endless_file rest) = 15 + length rest" by (simp add: endless_file_def header_length)
  ultimately show ?thesis using assms by (simp add: rzx_read_creator_def too_short_def ptr_plus_def)
qed

lemma endless_loop:
  assumes rest: "24 \<le> length rest"
  shows "rzx_read_loop junk z bz n rzx (endless_file rest) 10 = None"
proof -
  have "nget (endless_file rest) 10 = Some 0x10" "10 < length (endless_file rest)"
    using header_length by (simp_all add: endless_file_def nget_def nth_append)
  note at = this endless_creator [OF rest]
  have "\<not> (buf = endless_file rest \<and> p = 10)" if "rzx_read_loop junk z bz n rzx buf p = Some r" for junk z bz n rzx buf p r
  proof (rule rzx_read_loop.raw_induct [where P = "\<lambda>junk z bz n rzx buf p r. \<not> (buf = endless_file rest \<and> p = 10)", OF _ that])
    fix f junk z bz n rzx buf p y
    assume IH: "\<And>junk z bz n rzx buf p y. f junk z bz n rzx buf p = Some y \<Longrightarrow> \<not> (buf = endless_file rest \<and> p = 10)"
      and step: "(if p < length buf then nget buf p \<bind> (\<lambda>block_id. rzx_read_block junk z bz n rzx buf (p + 1) block_id \<bind>
          (\<lambda>(error, rzx, p). if error \<noteq> ERROR_NONE then Some (error, rzx) else f junk z bz (n + 1) rzx buf p))
        else Some (ERROR_NONE, rzx)) = Some y"
    show "\<not> (buf = endless_file rest \<and> p = 10)"
    proof
      assume "buf = endless_file rest \<and> p = 10"
      then have "f junk z bz (n + 1) rzx (endless_file rest) 10 = Some y" using step at by (simp add: rzx_read_block_def)
      then show False using IH by blast
    qed
  qed
  then show ?thesis by (cases "rzx_read_loop junk z bz n rzx (endless_file rest) 10") blast+
qed

text \<open>
  C9: the reader does not check that the length of a creator block counts the block itself: with the
  length 0 it goes back to the start of the block and reads it for ever, whatever follows.
\<close>

theorem creator_block_never_ends:
  assumes "24 \<le> length rest"
  shows "libspectrum_rzx_read junk z bz n rzx (endless_file rest) = None"
proof -
  have sig: "take 4 (endless_file rest) = rzx_signature" by (simp add: endless_file_def rzx_header_def rzx_signature_def)
  have "10 \<le> length (endless_file rest)" using header_length by (simp add: endless_file_def)
  then show ?thesis
    using recording_not_compressed [OF sig] sig endless_loop [OF assms]
    by (simp add: libspectrum_rzx_read_def plain_data_def Let_def rzx_read_header_def)
qed

theorem creator_block_never_ends_witness:
  "\<forall>junk z bz rzx. libspectrum_rzx_read junk (z :: unit zlib) (bz :: unit bzip2) 0 rzx (endless_file (replicate 24 0x2a)) = None"
  by (intro allI creator_block_never_ends) simp

end
