(* ===== verification/Szx_Chunks.thy ===== *)
theory Szx_Chunks
  imports Szx_Parts Tzx_Format
begin

text \<open>
  The steps of the .szx writer that write registers, ports and small devices: what the reader makes
  of each chunk.
\<close>

section \<open>Reading a chunk\<close>

lemma le16_word: "le16 (word_bytes w @ rest) 0 = w"
  using le16_word_bytes [of "[]" w rest] by simp

lemma le32_dword: "le32 (dword_bytes d @ rest) 0 = d"
  using le32_at [of "[]" 0 d rest] by simp

lemma le16_drop: "numeral k \<le> length xs \<Longrightarrow> le16 xs (numeral k) = le16 (drop (numeral k) xs) 0"
  by (simp add: le16_def nth_drop)

lemma le32_drop: "numeral k \<le> length xs \<Longrightarrow> le32 xs (numeral k) = le32 (drop (numeral k) xs) 0"
  by (simp add: le32_def nth_drop ac_simps)

lemmas szx_field_simps = le16_word le32_dword le16_drop le32_drop nth_append

lemma flags_or: "((x OR y) AND f) = (x AND f) OR (y AND f)" for x :: "'a::len word"
  by (rule bit_word_eqI) (auto simp: bit_simps)

lemma or_is_0: "x OR y = 0 \<longleftrightarrow> x = 0 \<and> y = 0" for x :: "'a::len word"
  by (auto simp: bit_eq_iff bit_simps)

lemma szx_flag:
  "flag_set (x OR y) f = 0 \<longleftrightarrow> flag_set x f = 0 \<and> flag_set y f = 0"
  "flag_bits (x OR y) f = 0 \<longleftrightarrow> flag_bits x f = 0 \<and> flag_bits y f = 0"
  "flag_set (flag_if c g) f = 0 \<longleftrightarrow> \<not> c \<or> g AND f = 0"
  "flag_bits (flag_if c g) f = 0 \<longleftrightarrow> \<not> c \<or> g AND f = 0"
  by (auto simp: flag_set_def flag_bits_def flag_if_def flags_or or_is_0 unsigned_eq_0_iff)

text \<open>A chunk whose reader changes the snapshot as \<open>f\<close> does.\<close>

lemma chunk_step:
  assumes reader: "map_of (szx_chunks z) (chunk_id cid) = Some g"
    and shape: "length cid \<le> 4 \<and> (\<forall>x \<in> set items. item_ok x) \<and> length (items_bytes items) < 2 ^ 31"
    and read: "\<And>s rest. szx_ready T s \<Longrightarrow> szx_ready T (f s) \<and>
      g s 0x0105 (items_bytes items @ rest) (length (items_bytes items)) False = Some (ERROR_NONE, f s, False, rest)"
    and vals: "\<And>s p. szx_ready T s \<Longrightarrow> szx_values p (f s) = szx_values p (if P p then T else s)"
  shows "szx_step z T (2 ^ 32) P (put_step (szx_put_chunk junk cid items))"
proof (rule step_chunk [OF _ _ _ reader])
  fix s assume "szx_ready T s"
  then show "\<exists>s'. szx_ready T s' \<and> (\<forall>p. szx_values p s' = szx_values p (if P p then T else s)) \<and>
      (\<forall>rest. g s 0x0105 (items_bytes items @ rest) (length (items_bytes items)) False = Some (ERROR_NONE, s', False, rest))"
    using read vals by blast
qed (use shape in blast)+

lemmas szx_read_simps = Let_def szx_field_simps szx_ready_def joysticks_ok_def

section \<open>Registers and ports\<close>

definition z80r_flags :: "libspectrum_snap \<Rightarrow> byte" where
  "z80r_flags T = (flag_if (snap_last_instruction_ei T \<noteq> 0) ZXSTZF_EILAST OR
     flag_if (snap_halted T \<noteq> 0) ZXSTZF_HALTED OR flag_if (snap_last_instruction_set_f T \<noteq> 0) ZXSTZF_FSET)"

lemma z80r_step: "szx_step z T (2 ^ 32) (\<lambda>p. p = Z80R_part) (put_step (write_z80r_chunk junk T))"
  unfolding write_z80r_chunk_def
  apply (rule chunk_step [where f = "\<lambda>s. s\<lparr>snap_a := snap_a T, snap_f := snap_f T, snap_bc := snap_bc T, snap_de := snap_de T,
    snap_hl := snap_hl T, snap_a' := snap_a' T, snap_f' := snap_f' T, snap_bc' := snap_bc' T, snap_de' := snap_de' T,
    snap_hl' := snap_hl' T, snap_ix := snap_ix T, snap_iy := snap_iy T, snap_sp := snap_sp T, snap_pc := snap_pc T,
    snap_i := snap_i T, snap_r := snap_r T, snap_iff1 := snap_iff1 T, snap_iff2 := snap_iff2 T, snap_im := snap_im T,
    snap_tstates := snap_tstates T, snap_last_instruction_ei := flag_set (z80r_flags T) ZXSTZF_EILAST,
    snap_halted := flag_set (z80r_flags T) ZXSTZF_HALTED, snap_last_instruction_set_f := flag_set (z80r_flags T) ZXSTZF_FSET,
    snap_memptr := snap_memptr T\<rparr>", OF szx_chunk_readers(28)])
  subgoal by simp
  subgoal by (simp add: read_z80r_chunk_def szx_swapped_def szx_read_simps z80r_flags_def)
  subgoal for s p by (cases p) (simp_all add: z80r_flags_def szx_flag)
  done

definition szx_out_128 :: "libspectrum_snap \<Rightarrow> byte" where
  "szx_out_128 T = (if libspectrum_machine_capabilities (snap_machine T) AND MACHINE_CAPABILITY_128_MEMORY \<noteq> 0
     then snap_out_128_memoryport T else 0)"

lemma ula_bits: "(ula AND 7) OR (ula AND 0xf8) = (ula :: byte)"
proof -
  have "(ula AND a) OR (ula AND b) = ula AND (a OR b)" for a b by (rule bit_word_eqI) (auto simp: bit_simps)
  then have "(ula AND 7) OR (ula AND 0xf8) = ula AND (7 OR 0xf8)" .
  also have "(7 OR 0xf8 :: byte) = - 1" by simp
  finally show ?thesis by simp
qed

lemma spcr_step: "szx_step z T (2 ^ 32) (\<lambda>p. p = SPCR_part) (put_step (write_spcr_chunk junk T))"
  unfolding write_spcr_chunk_def Let_def
  apply (rule chunk_step [where f = "\<lambda>s. s\<lparr>snap_out_128_memoryport := szx_out_128 T,
      snap_out_plus3_memoryport := (if szx_third_port (snap_machine T) then snap_out_plus3_memoryport T
        else snap_out_plus3_memoryport s), snap_out_ula := snap_out_ula T\<rparr>", OF szx_chunk_readers(23)])
  subgoal by simp
  subgoal by (simp add: read_spcr_chunk_def szx_read_simps Let_def szx_third_port_def szx_out_128_def ula_bits)
  subgoal for s p by (cases p) (simp_all add: szx_ready_def szx_out_128_def)
  done

lemma concat_bytes: "concat (map (item_bytes \<circ> Put_byte) xs) = xs"
  by (induction xs) simp_all

definition ay_flags :: "libspectrum_snap \<Rightarrow> byte" where
  "ay_flags T = (flag_if (snap_fuller_box_active T \<noteq> 0) ZXSTAYF_FULLERBOX OR
     flag_if (snap_melodik_active T \<noteq> 0) ZXSTAYF_128AY)"

lemma ay_step:
  assumes "length (snap_ay_registers T) = 16"
  shows "szx_step z T (2 ^ 32) (\<lambda>p. p = AY_part) (put_step (write_ay_chunk junk T))"
proof -
  have "copy_out (snap_ay_registers T) 0 16 = Some (snap_ay_registers T)" using assms by (simp add: copy_out_def)
  then have w: "write_ay_chunk junk T = szx_put_chunk junk ''AY''
      ([Put_byte (ay_flags T), Put_byte (snap_out_ay_registerport T)] @ map Put_byte (snap_ay_registers T))"
    by (intro ext) (simp add: write_ay_chunk_def ay_flags_def)
  have nth: "map (\<lambda>i. (snap_ay_registers T @ rest) ! i) [0..<16] = snap_ay_registers T" for rest
    using assms by (intro nth_equalityI) (simp_all add: nth_append)
  show ?thesis
    unfolding w
    apply (rule chunk_step [where f = "\<lambda>s. s\<lparr>snap_fuller_box_active := flag_bits (ay_flags T) ZXSTAYF_FULLERBOX,
        snap_melodik_active := flag_set (ay_flags T) ZXSTAYF_128AY, snap_out_ay_registerport := snap_out_ay_registerport T,
        snap_ay_registers := snap_ay_registers T\<rparr>", OF szx_chunk_readers(1)])
    subgoal using assms by (auto simp: concat_bytes)
    subgoal for s rest using assms nth by (simp add: concat_bytes read_ay_chunk_def szx_ready_def joysticks_ok_def)
    subgoal for s p by (cases p) (simp_all add: szx_flag ay_flags_def)
    done
qed

lemma scld_step: "szx_step z T (2 ^ 32) (\<lambda>p. p = SCLD_part) (put_step (write_scld_chunk junk T))"
  unfolding write_scld_chunk_def
  apply (rule chunk_step [where f = "\<lambda>s. s\<lparr>snap_out_scld_hsr := snap_out_scld_hsr T, snap_out_scld_dec := snap_out_scld_dec T\<rparr>",
      OF szx_chunk_readers(27)])
  subgoal by simp
  subgoal by (simp add: read_scld_chunk_def szx_read_simps)
  subgoal for s p by (cases p) simp_all
  done

section \<open>Small devices\<close>

definition zxat_flags :: "libspectrum_snap \<Rightarrow> lword" where
  "zxat_flags T = (flag_if (snap_zxatasp_upload T \<noteq> 0) ZXSTZXATF_UPLOAD OR
     flag_if (snap_zxatasp_writeprotect T \<noteq> 0) ZXSTZXATF_WRITEPROTECT)"

lemma size_of_byte: "n < 256 \<Longrightarrow> (ucast (ucast (n :: size_t) :: byte) :: size_t) = n"
  by (simp add: word_unat_eq_iff unat_ucast_small word_less_nat_alt)

lemma zxat_step:
  assumes "snap_zxatasp_active T \<noteq> 0" "snap_zxatasp_pages T < 256" "snap_zxatasp_current_page T < 256"
  shows "szx_step z T (2 ^ 32) (\<lambda>p. p = ZXAT_part) (put_step (write_zxat_chunk junk T))"
  unfolding write_zxat_chunk_def
  apply (rule chunk_step [where f = "\<lambda>s. s\<lparr>snap_zxatasp_active := 1, snap_zxatasp_upload := flag_bits (zxat_flags T) ZXSTZXATF_UPLOAD,
      snap_zxatasp_writeprotect := flag_set (zxat_flags T) ZXSTZXATF_WRITEPROTECT, snap_zxatasp_port_a := snap_zxatasp_port_a T,
      snap_zxatasp_port_b := snap_zxatasp_port_b T, snap_zxatasp_port_c := snap_zxatasp_port_c T,
      snap_zxatasp_control := snap_zxatasp_control T, snap_zxatasp_pages := snap_zxatasp_pages T,
      snap_zxatasp_current_page := snap_zxatasp_current_page T\<rparr>", OF szx_chunk_readers(30)])
  subgoal by simp
  subgoal using assms by (simp add: read_zxat_chunk_def szx_read_simps zxat_flags_def size_of_byte)
  subgoal for s p using assms by (cases p) (simp_all add: szx_flag zxat_flags_def)
  done

lemma zxcf_step:
  assumes "snap_zxcf_active T \<noteq> 0" "snap_zxcf_pages T < 256"
  shows "szx_step z T (2 ^ 32) (\<lambda>p. p = ZXCF_part) (put_step (write_zxcf_chunk junk T))"
  unfolding write_zxcf_chunk_def
  apply (rule chunk_step [where f = "\<lambda>s. s\<lparr>snap_zxcf_active := 1,
      snap_zxcf_upload := flag_bits (flag_if (snap_zxcf_upload T \<noteq> 0) ZXSTZXCFF_UPLOAD) ZXSTZXCFF_UPLOAD,
      snap_zxcf_memctl := snap_zxcf_memctl T, snap_zxcf_pages := snap_zxcf_pages T\<rparr>", OF szx_chunk_readers(31)])
  subgoal by simp
  subgoal using assms by (simp add: read_zxcf_chunk_def szx_read_simps size_of_byte)
  subgoal for s p using assms by (cases p) (simp_all add: szx_flag)
  done

lemma zxpr_step: "szx_step z T (2 ^ 32) (\<lambda>p. p = ZXPR_part) (put_step (write_zxpr_chunk junk T))"
  unfolding write_zxpr_chunk_def
  apply (rule chunk_step [where f = "\<lambda>s. s\<lparr>snap_zx_printer_active :=
      flag_bits (flag_if (snap_zx_printer_active T \<noteq> 0) ZXSTPRF_ENABLED) ZXSTPRF_ENABLED\<rparr>", OF szx_chunk_readers(34)])
  subgoal by simp
  subgoal by (simp add: read_zxpr_chunk_def szx_read_simps)
  subgoal for s p by (cases p) (simp_all add: szx_flag)
  done

lemma six_zeros: "replicate 6 (Put_byte 0) = [Put_byte 0, Put_byte 0, Put_byte 0, Put_byte 0, Put_byte 0, Put_byte 0]"
  by (simp add: eval_nat_numeral)

lemma amxm_step:
  assumes "snap_kempston_mouse_active T \<noteq> 0"
  shows "szx_step z T (2 ^ 32) (\<lambda>p. p = AMXM_part) (put_step (write_amxm_chunk junk T))"
  unfolding write_amxm_chunk_def six_zeros
  apply (rule chunk_step [where f = "\<lambda>s. s\<lparr>snap_kempston_mouse_active := 1\<rparr>", OF szx_chunk_readers(14)])
  subgoal by simp
  subgoal using assms by (simp add: read_amxm_chunk_def szx_read_simps)
  subgoal for s p using assms by (cases p) simp_all
  done

lemma drum_step:
  assumes "snap_specdrum_active T \<noteq> 0"
  shows "szx_step z T (2 ^ 32) (\<lambda>p. p = DRUM_part) (put_step (write_drum_chunk junk T))"
  unfolding write_drum_chunk_def
  apply (rule chunk_step [where f = "\<lambda>s. s\<lparr>snap_specdrum_dac := snap_specdrum_dac T, snap_specdrum_active := 1\<rparr>", OF szx_chunk_readers(22)])
  subgoal by simp
  subgoal by (simp add: read_drum_chunk_def szx_read_simps)
  subgoal for s p using assms by (cases p) simp_all
  done

lemma covx_step:
  assumes "snap_covox_active T \<noteq> 0"
  shows "szx_step z T (2 ^ 32) (\<lambda>p. p = COVX_part) (put_step (write_covx_chunk junk T))"
  unfolding write_covx_chunk_def
  apply (rule chunk_step [where f = "\<lambda>s. s\<lparr>snap_covox_dac := snap_covox_dac T, snap_covox_active := 1\<rparr>", OF szx_chunk_readers(3)])
  subgoal by simp
  subgoal by (simp add: read_covx_chunk_def szx_read_simps)
  subgoal for s p using assms by (cases p) simp_all
  done

lemma pltt_step:
  assumes "snap_ulaplus_active T \<noteq> 0" "snap_ulaplus_palette T = Some palette" "length palette = 64"
  shows "szx_step z T (2 ^ 32) (\<lambda>p. p = PLTT_part) (put_step (write_pltt_chunk junk T))"
  unfolding write_pltt_chunk_def
  apply (rule chunk_step [where f = "\<lambda>s. s\<lparr>snap_ulaplus_active := 1, snap_ulaplus_palette_enabled :=
        flag_bits (flag_if (snap_ulaplus_palette_enabled T \<noteq> 0) ZXSTPALETTE_ENABLED) ZXSTPALETTE_ENABLED,
      snap_ulaplus_current_register := snap_ulaplus_current_register T, snap_ulaplus_palette := Some palette,
      snap_ulaplus_ff_register := snap_ulaplus_ff_register T\<rparr>", OF szx_chunk_readers(17)])
  subgoal using assms by simp
  subgoal using assms by (simp add: read_pltt_chunk_def szx_read_simps)
  subgoal for s p using assms by (cases p) (simp_all add: szx_flag)
  done

definition snet_flags :: "libspectrum_snap \<Rightarrow> lword" where
  "snet_flags T =
     (flag_if (snap_spectranet_paged T \<noteq> 0) ZXSTSNET_PAGED OR
      flag_if (snap_spectranet_paged_via_io T \<noteq> 0) ZXSTSNET_PAGED_VIA_IO OR
      flag_if (snap_spectranet_programmable_trap_active T \<noteq> 0) ZXSTSNET_PROGRAMMABLE_TRAP_ACTIVE OR
      flag_if (snap_spectranet_programmable_trap_msb T \<noteq> 0) ZXSTSNET_PROGRAMMABLE_TRAP_MSB OR
      flag_if (snap_spectranet_all_traps_disabled T \<noteq> 0) ZXSTSNET_ALL_DISABLED OR
      flag_if (snap_spectranet_rst8_trap_disabled T \<noteq> 0) ZXSTSNET_RST8_DISABLED OR
      flag_if (snap_spectranet_deny_downstream_a15 T \<noteq> 0) ZXSTSNET_DENY_DOWNSTREAM_A15 OR
      flag_if (snap_spectranet_nmi_flipflop T \<noteq> 0) ZXSTSNET_NMI_FLIPFLOP)"

lemma uint_of_byte: "0 \<le> i \<Longrightarrow> i < 256 \<Longrightarrow> uint (word_of_int i :: byte) = i"
  by (simp add: uint_word_of_int)

lemma snet_step:
  assumes "snap_spectranet_active T \<noteq> 0" "snap_spectranet_w5100 T = Some w" "length w = 0x30"
    "0 \<le> snap_spectranet_page_a T" "snap_spectranet_page_a T < 256" "0 \<le> snap_spectranet_page_b T" "snap_spectranet_page_b T < 256"
  shows "szx_step z T (2 ^ 32) (\<lambda>p. p = SNET_part) (put_step (write_snet_chunk junk T))"
  unfolding write_snet_chunk_def snet_flags_def [symmetric]
  apply (rule chunk_step [where f = "\<lambda>s. s\<lparr>snap_spectranet_active := 1, snap_spectranet_paged := flag_set (snet_flags T) ZXSTSNET_PAGED,
      snap_spectranet_paged_via_io := flag_set (snet_flags T) ZXSTSNET_PAGED_VIA_IO,
      snap_spectranet_programmable_trap_active := flag_set (snet_flags T) ZXSTSNET_PROGRAMMABLE_TRAP_ACTIVE,
      snap_spectranet_programmable_trap_msb := flag_set (snet_flags T) ZXSTSNET_PROGRAMMABLE_TRAP_MSB,
      snap_spectranet_all_traps_disabled := flag_set (snet_flags T) ZXSTSNET_ALL_DISABLED,
      snap_spectranet_rst8_trap_disabled := flag_set (snet_flags T) ZXSTSNET_RST8_DISABLED,
      snap_spectranet_deny_downstream_a15 := flag_set (snet_flags T) ZXSTSNET_DENY_DOWNSTREAM_A15,
      snap_spectranet_nmi_flipflop := flag_set (snet_flags T) ZXSTSNET_NMI_FLIPFLOP,
      snap_spectranet_page_a := snap_spectranet_page_a T, snap_spectranet_page_b := snap_spectranet_page_b T,
      snap_spectranet_programmable_trap := snap_spectranet_programmable_trap T, snap_spectranet_w5100 := Some w\<rparr>",
      OF szx_chunk_readers(24)])
  subgoal using assms by simp
  subgoal using assms by (simp add: read_snet_chunk_def szx_read_simps uint_of_byte)
  subgoal for s p using assms by (cases p) (simp_all add: szx_flag snet_flags_def)
  done

text \<open>Chunks without data.\<close>

lemma side_step:
  assumes "snap_simpleide_active T \<noteq> 0"
  shows "szx_step z T (2 ^ 32) (\<lambda>p. p = SIDE_part) (put_step (write_side_chunk junk))"
  unfolding write_side_chunk_def
proof (rule step_empty_chunk [OF _ szx_chunk_readers(21)])
  fix s assume s: "szx_ready T s"
  have "szx_values p (s\<lparr>snap_simpleide_active := 1\<rparr>) = szx_values p (if p = SIDE_part then T else s)" for p
    using assms by (cases p) simp_all
  then show "\<exists>s'. szx_ready T s' \<and> (\<forall>p. szx_values p s' = szx_values p (if p = SIDE_part then T else s)) \<and>
      (\<forall>rest. read_side_chunk s 0x0105 rest 0 False = Some (ERROR_NONE, s', False, rest))"
    using s by (intro exI [of _ "s\<lparr>snap_simpleide_active := 1\<rparr>"]) (simp add: read_side_chunk_def szx_read_simps)
qed simp

lemma zmmc_step:
  assumes "snap_zxmmc_active T \<noteq> 0"
  shows "szx_step z T (2 ^ 32) (\<lambda>p. p = ZMMC_part) (put_step (write_zmmc_chunk junk))"
  unfolding write_zmmc_chunk_def
proof (rule step_empty_chunk [OF _ szx_chunk_readers(33)])
  fix s assume s: "szx_ready T s"
  have "szx_values p (s\<lparr>snap_zxmmc_active := 1\<rparr>) = szx_values p (if p = ZMMC_part then T else s)" for p
    using assms by (cases p) simp_all
  then show "\<exists>s'. szx_ready T s' \<and> (\<forall>p. szx_values p s' = szx_values p (if p = ZMMC_part then T else s)) \<and>
      (\<forall>rest. read_zmmc_chunk s 0x0105 rest 0 False = Some (ERROR_NONE, s', False, rest))"
    using s by (intro exI [of _ "s\<lparr>snap_zxmmc_active := 1\<rparr>"]) (simp add: read_zmmc_chunk_def szx_read_simps)
qed simp

end
