(* ===== verification/Szx_Pages.thy ===== *)
theory Szx_Pages
  imports Szx_Chunks
begin

text \<open>
  The steps of the .szx writer that write pages of memory, deflated or not.
\<close>

section \<open>Deflated data\<close>

text \<open>The buffer \<open>m\<close> holds \<open>d\<close>, deflated if \<open>c\<close> holds.\<close>

definition szx_packed :: "'s zlib \<Rightarrow> byte list \<Rightarrow> lbuffer \<Rightarrow> bool \<Rightarrow> bool" where
  "szx_packed z d m c \<longleftrightarrow> buffer_ok m \<and> length (contents m) \<le> length d \<and>
     (if c then libspectrum_zlib_compress z d = (ERROR_NONE, contents m) else contents m = d)"

lemma put_new_buffer:
  assumes "buf.puts f e" "length e < 2 ^ 62"
  shows "\<exists>m. f (libspectrum_buffer_alloc junk) = Some m \<and> buffer_ok m \<and> contents m = e"
  using buf.puts_result [OF assms(1) alloc_has_room [OF assms(2)] order_refl] by (auto simp: alloc_contents has_room_def)

lemma compress_packed:
  assumes z: "zlib_lossless z" and d: "length d < 2 ^ 31" "n = of_nat (length d)" and c: "compress = 0 \<or> compress = 1"
  shows "\<exists>m c. compress_data junk z (libspectrum_buffer_alloc junk) (Some d) n compress = Some (m, c) \<and> szx_packed z d m c \<and>
    (c \<longrightarrow> compress \<noteq> 0)"
proof -
  have n: "unat n = length d" using d by (simp add: unat_of_nat take_bit_nat_eq_self)
  obtain error gz where gz: "libspectrum_zlib_compress z d = (error, gz)" by force
  obtain m where m: "libspectrum_buffer_write junk (libspectrum_buffer_alloc junk) d n = Some m" "buffer_ok m" "contents m = d"
    using put_new_buffer [OF buf.puts_emit [of junk d], of junk] d by auto
  have plain: "szx_packed z d m False" using m by (simp add: szx_packed_def)
  have always: "compress AND FLAG_SNAPSHOT_ALWAYS_COMPRESS = 0" using c by (auto simp: FLAG_SNAPSHOT_ALWAYS_COMPRESS_def)
  have copy: "copy_out d 0 (unat n) = Some d" by (simp add: copy_out_def n)
  show ?thesis
  proof (cases "compress \<noteq> 0 \<and> error = ERROR_NONE \<and> of_nat (length gz) < n")
    case True
    then have small: "length gz < 2 ^ 31" using inflate_deflated(2) [OF z, of d gz 0] gz d by simp
    obtain k where k: "libspectrum_buffer_write junk (libspectrum_buffer_alloc junk) gz (of_nat (length gz)) = Some k"
      "buffer_ok k" "contents k = gz"
      using put_new_buffer [OF buf.puts_emit [of junk gz], of junk] small by auto
    have "length gz < length d"
      using True small d n by (simp add: word_less_nat_alt unat_of_nat take_bit_nat_eq_self)
    then have "szx_packed z d k True" using k gz True by (simp add: szx_packed_def)
    then show ?thesis using True k(1) copy gz by (auto simp: compress_data_def)
  next
    case False
    then show ?thesis using m(1) plain copy gz always by (auto simp: compress_data_def)
  qed
qed

lemma packed_inflates:
  assumes "zlib_lossless z" "szx_packed z d m True" "length d < 2 ^ 31"
  shows "n = 0 \<or> n = of_nat (length d) \<Longrightarrow>
      libspectrum_zlib_inflate z (contents m @ rest) (of_nat (length (contents m))) n = Some (ERROR_NONE, d)"
    and "szx_inflate z (contents m @ rest) (length (contents m)) (length d) = Some (ERROR_NONE, d)"
  using inflate_deflated(1) [OF assms(1), of d "contents m" _ rest] assms(2,3) by (auto simp: szx_packed_def szx_inflate_def)

section \<open>Pages\<close>

lemma page_items: "items_bytes [Put_word w, Put_byte x, Put_buffer m] @ rest = word_bytes w @ x # contents m @ rest"
  by simp

lemma read_page_back:
  assumes z: "zlib_lossless z" and m: "szx_packed z d m c" and d: "length d = sz" "sz < 2 ^ 31"
    and page: "page < 256" and flags: "extra AND 1 = 0"
  shows "szx_read_ram_page z (word_bytes (extra OR flag_if c 1) @ of_nat page # contents m @ rest) (3 + length (contents m)) sz =
    Some (ERROR_NONE, d, page, extra OR flag_if c 1, rest)"
proof -
  have n: "unat (of_nat page :: byte) = page" using page by (simp add: unat_of_nat take_bit_nat_eq_self)
  have bit: "(extra OR flag_if c 1) AND 1 \<noteq> 0 \<longleftrightarrow> c" using flags by (simp add: flags_or or_is_0 flag_if_def)
  show ?thesis
  proof (cases c)
    case True
    then show ?thesis
      using bit n packed_inflates(1) [OF z, of d m "of_nat sz" rest] m d
      by (simp add: szx_read_ram_page_def Let_def le16_word nth_append)
  next
    case False
    then have "contents m = d" using m by (simp add: szx_packed_def)
    then show ?thesis
      using bit n False d by (simp add: szx_read_ram_page_def Let_def le16_word nth_append copy_out_def)
  qed
qed

lemma page_step:
  assumes z: "zlib_lossless z" "compress = 0 \<or> compress = 1" and cid: "length cid \<le> 4"
    and reader: "map_of (szx_chunks z) (chunk_id cid) = Some (store_page z sz pages store)"
    and d: "\<And>d. data = Some d \<Longrightarrow> length d = sz" "sz < 2 ^ 30" "n = of_nat sz" and page: "page < pages" "pages \<le> 256"
    and flags: "extra AND 1 = 0"
    and store: "\<And>s c d. data = Some d \<Longrightarrow> szx_ready T s \<Longrightarrow>
      store (extra OR flag_if c 1) page d s = Some (f s) \<and> szx_ready T (f s)"
    and vals: "\<And>s p. szx_ready T s \<Longrightarrow> szx_values p (f s) = szx_values p (if Q p then T else s)"
  shows "szx_step z T (2 ^ 32) (\<lambda>p. Q p \<and> data \<noteq> None) (put_step (write_ram_page junk z cid data n page compress extra))"
proof (cases data)
  case None
  have "put_step (write_ram_page junk z cid data n page compress extra) = (\<lambda>out. Some (ERROR_NONE, out))"
    by (rule ext) (simp add: write_ram_page_def None)
  then show ?thesis using step_none None by simp
next
  case (Some d)
  obtain m c where m: "compress_data junk z (libspectrum_buffer_alloc junk) (Some d) n compress = Some (m, c)" "szx_packed z d m c"
    using compress_packed [OF z(1) _ _ z(2), of d n junk] d Some by auto
  let ?items = "[Put_word (extra OR flag_if c 1), Put_byte (of_nat page), Put_buffer m]"
  have w: "write_ram_page junk z cid (Some d) n page compress extra = szx_put_chunk junk cid ?items"
    by (rule ext) (simp add: write_ram_page_def m(1))
  have len: "length (items_bytes ?items) = 3 + length (contents m)" by simp
  have "szx_step z T (2 ^ 32) Q (put_step (szx_put_chunk junk cid ?items))"
  proof (rule chunk_step [where f = f, OF reader])
    show "length cid \<le> 4 \<and> (\<forall>x \<in> set ?items. item_ok x) \<and> length (items_bytes ?items) < 2 ^ 31"
      using m(2) d Some cid by (auto simp: szx_packed_def)
    show "szx_ready T (f s) \<and> store_page z sz pages store s 0x0105 (items_bytes ?items @ rest) (length (items_bytes ?items)) False =
        Some (ERROR_NONE, f s, False, rest)" if "szx_ready T s" for s rest
      unfolding page_items len
      using read_page_back [OF z(1) m(2) d(1) [OF Some] _ _ flags, of page rest] d(2) page store [OF Some that]
      by (simp add: store_page_def)
    show "szx_values p (f s) = szx_values p (if Q p then T else s)" if "szx_ready T s" for s p by (rule vals [OF that])
  qed
  then show ?thesis by (simp add: w Some)
qed

section \<open>The pages of the memories\<close>

text \<open>The pages of a list that have been stored have \<open>n\<close> bytes.\<close>

abbreviation pages_of :: "nat \<Rightarrow> byte list option list \<Rightarrow> bool" where
  "pages_of n pages \<equiv> \<forall>i < length pages. \<forall>d. pages ! i = Some d \<longrightarrow> length d = n"

lemma ramp_step:
  assumes z: "zlib_lossless z" "compress = 0 \<or> compress = 1" and page: "page < 16" "length (snap_pages T) = 16"
    and pages: "pages_of 0x4000 (snap_pages T)"
  shows "szx_step z T (2 ^ 32) (\<lambda>p. p = RAM_page page \<and> snap_pages T ! page \<noteq> None) (put_step (write_ramp_chunk junk z T compress page))"
proof -
  have w: "write_ramp_chunk junk z T compress page = write_ram_page junk z ''RAMP'' (snap_pages T ! page) 0x4000 page compress 0"
    using page by (intro ext) (simp add: write_ramp_chunk_def libspectrum_snap_pages_def nget_def)
  have "szx_values p (s\<lparr>snap_pages := (snap_pages s)[page := snap_pages T ! page]\<rparr>) =
      szx_values p (if p = RAM_page page then T else s)" if "szx_ready T s" for s p
    using page that by (cases p) (auto simp: szx_ready_def nth_list_update)
  then show ?thesis
    unfolding w
    by (intro page_step [OF z _ szx_chunk_readers(19) [unfolded read_ramp_chunk_def], where
        f = "\<lambda>s. s\<lparr>snap_pages := (snap_pages s)[page := snap_pages T ! page]\<rparr>"])
      (use page pages in \<open>auto simp: libspectrum_snap_set_pages_def nset_def szx_ready_def joysticks_ok_def\<close>)
qed

lemma atrp_step:
  assumes z: "zlib_lossless z" "compress = 0 \<or> compress = 1" and page: "page < 32" "length (snap_zxatasp_ram T) = 32"
    and pages: "pages_of 0x4000 (snap_zxatasp_ram T)"
  shows "szx_step z T (2 ^ 32) (\<lambda>p. p = ATRP_page page \<and> snap_zxatasp_ram T ! page \<noteq> None) (put_step (write_atrp_chunk junk z T compress page))"
proof -
  have w: "write_atrp_chunk junk z T compress page = write_ram_page junk z ''ATRP'' (snap_zxatasp_ram T ! page) 0x4000 page compress 0"
    using page by (intro ext) (simp add: write_atrp_chunk_def nget_def)
  have "szx_values p (s\<lparr>snap_zxatasp_ram := (snap_zxatasp_ram s)[page := snap_zxatasp_ram T ! page]\<rparr>) =
      szx_values p (if p = ATRP_page page then T else s)" if "szx_ready T s" for s p
    using page that by (cases p) (auto simp: szx_ready_def nth_list_update)
  then show ?thesis
    unfolding w
    by (intro page_step [OF z _ szx_chunk_readers(29) [unfolded read_atrp_chunk_def], where
        f = "\<lambda>s. s\<lparr>snap_zxatasp_ram := (snap_zxatasp_ram s)[page := snap_zxatasp_ram T ! page]\<rparr>"])
      (use page pages in \<open>auto simp: nset_def szx_ready_def joysticks_ok_def\<close>)
qed

lemma cfrp_step:
  assumes z: "zlib_lossless z" "compress = 0 \<or> compress = 1" and page: "page < 64" "length (snap_zxcf_ram T) = 64"
    and pages: "pages_of 0x4000 (snap_zxcf_ram T)"
  shows "szx_step z T (2 ^ 32) (\<lambda>p. p = CFRP_page page \<and> snap_zxcf_ram T ! page \<noteq> None) (put_step (write_cfrp_chunk junk z T compress page))"
proof -
  have w: "write_cfrp_chunk junk z T compress page = write_ram_page junk z ''CFRP'' (snap_zxcf_ram T ! page) 0x4000 page compress 0"
    using page by (intro ext) (simp add: write_cfrp_chunk_def nget_def)
  have "szx_values p (s\<lparr>snap_zxcf_ram := (snap_zxcf_ram s)[page := snap_zxcf_ram T ! page]\<rparr>) =
      szx_values p (if p = CFRP_page page then T else s)" if "szx_ready T s" for s p
    using page that by (cases p) (auto simp: szx_ready_def nth_list_update)
  then show ?thesis
    unfolding w
    by (intro page_step [OF z _ szx_chunk_readers(32) [unfolded read_cfrp_chunk_def], where
        f = "\<lambda>s. s\<lparr>snap_zxcf_ram := (snap_zxcf_ram s)[page := snap_zxcf_ram T ! page]\<rparr>"])
      (use page pages in \<open>auto simp: nset_def szx_ready_def joysticks_ok_def\<close>)
qed

lemma dirp_step:
  assumes z: "zlib_lossless z" "compress = 0 \<or> compress = 1" and page: "page < 4" "length (snap_divide_ram T) = 4"
    and pages: "pages_of 0x2000 (snap_divide_ram T)"
  shows "szx_step z T (2 ^ 32) (\<lambda>p. p = DIRP_page page \<and> snap_divide_ram T ! page \<noteq> None) (put_step (write_dirp_chunk junk z T compress page))"
proof -
  have w: "write_dirp_chunk junk z T compress page = write_ram_page junk z ''DIRP'' (snap_divide_ram T ! page) 0x2000 page compress 0"
    using page by (intro ext) (simp add: write_dirp_chunk_def nget_def)
  have "szx_values p (s\<lparr>snap_divide_ram := (snap_divide_ram s)[page := snap_divide_ram T ! page]\<rparr>) =
      szx_values p (if p = DIRP_page page then T else s)" if "szx_ready T s" for s p
    using page that by (cases p) (auto simp: szx_ready_def nth_list_update)
  then show ?thesis
    unfolding w
    by (intro page_step [OF z _ szx_chunk_readers(6) [unfolded read_dirp_chunk_def], where
        f = "\<lambda>s. s\<lparr>snap_divide_ram := (snap_divide_ram s)[page := snap_divide_ram T ! page]\<rparr>"])
      (use page pages in \<open>auto simp: nset_def szx_ready_def joysticks_ok_def\<close>)
qed

lemma dmrp_step:
  assumes z: "zlib_lossless z" "compress = 0 \<or> compress = 1" and page: "page < 64" "length (snap_divmmc_ram T) = 64"
    and pages: "pages_of 0x2000 (snap_divmmc_ram T)"
  shows "szx_step z T (2 ^ 32) (\<lambda>p. p = DMRP_page page \<and> snap_divmmc_ram T ! page \<noteq> None) (put_step (write_dmrp_chunk junk z T compress page))"
proof -
  have w: "write_dmrp_chunk junk z T compress page = write_ram_page junk z ''DMRP'' (snap_divmmc_ram T ! page) 0x2000 page compress 0"
    using page by (intro ext) (simp add: write_dmrp_chunk_def nget_def)
  have "szx_values p (s\<lparr>snap_divmmc_ram := (snap_divmmc_ram s)[page := snap_divmmc_ram T ! page]\<rparr>) =
      szx_values p (if p = DMRP_page page then T else s)" if "szx_ready T s" for s p
    using page that by (cases p) (auto simp: szx_ready_def nth_list_update)
  then show ?thesis
    unfolding w
    by (intro page_step [OF z _ szx_chunk_readers(8) [unfolded read_dmrp_chunk_def], where
        f = "\<lambda>s. s\<lparr>snap_divmmc_ram := (snap_divmmc_ram s)[page := snap_divmmc_ram T ! page]\<rparr>"])
      (use page pages in \<open>auto simp: nset_def szx_ready_def joysticks_ok_def\<close>)
qed

definition dock_flags :: "bool \<Rightarrow> byte \<Rightarrow> lword" where
  "dock_flags dock writeable = (flag_if (writeable \<noteq> 0) ZXSTDOCKF_RAM OR flag_if dock ZXSTDOCKF_EXROMDOCK)"

lemma dock_flags_read:
  "(dock_flags dock w OR flag_if c 1) AND 4 \<noteq> 0 \<longleftrightarrow> dock"
  "(ucast ((dock_flags dock w OR flag_if c 1) AND 2) :: byte) = (if w \<noteq> 0 then 2 else 0)"
  "dock_flags dock w AND 1 = 0"
  by (auto simp: dock_flags_def flags_or or_is_0 flag_if_def)

lemma exrom_step:
  assumes z: "zlib_lossless z" "compress = 0 \<or> compress = 1" and page: "page < 8" "length (snap_exrom_cart T) = 8"
    and pages: "pages_of 0x2000 (snap_exrom_cart T)" and active: "snap_dock_active T \<noteq> 0"
  shows "szx_step z T (2 ^ 32) (\<lambda>p. (p = EXROM_page page \<or> p = DOCK_part) \<and> snap_exrom_cart T ! page \<noteq> None)
    (put_step (write_dock_chunk junk z False (snap_exrom_cart T ! page) page (snap_exrom_ram T ! page) compress))"
proof -
  let ?w = "if snap_exrom_ram T ! page \<noteq> 0 then 2 else 0"
  have w: "write_dock_chunk junk z False (snap_exrom_cart T ! page) page (snap_exrom_ram T ! page) compress =
      write_ram_page junk z ''DOCK'' (snap_exrom_cart T ! page) 0x2000 page compress (dock_flags False (snap_exrom_ram T ! page))"
    by (intro ext) (simp add: write_dock_chunk_def dock_flags_def)
  have "szx_values p (s\<lparr>snap_dock_active := 1, snap_exrom_ram := (snap_exrom_ram s)[page := ?w],
        snap_exrom_cart := (snap_exrom_cart s)[page := snap_exrom_cart T ! page]\<rparr>) =
      szx_values p (if p = EXROM_page page \<or> p = DOCK_part then T else s)" if "szx_ready T s" for s p
    using page that active by (cases p) (auto simp: szx_ready_def nth_list_update)
  then show ?thesis
    unfolding w
    by (intro page_step [OF z _ szx_chunk_readers(9) [unfolded read_dock_chunk_def], where
        f = "\<lambda>s. s\<lparr>snap_dock_active := 1, snap_exrom_ram := (snap_exrom_ram s)[page := ?w],
          snap_exrom_cart := (snap_exrom_cart s)[page := snap_exrom_cart T ! page]\<rparr>"])
      (use page pages dock_flags_read [of False "snap_exrom_ram T ! page"] in
        \<open>auto simp: nset_def szx_ready_def joysticks_ok_def Let_def\<close>)
qed

lemma dock_step:
  assumes z: "zlib_lossless z" "compress = 0 \<or> compress = 1" and page: "page < 8" "length (snap_dock_cart T) = 8"
    and pages: "pages_of 0x2000 (snap_dock_cart T)" and active: "snap_dock_active T \<noteq> 0"
  shows "szx_step z T (2 ^ 32) (\<lambda>p. (p = DOCK_page page \<or> p = DOCK_part) \<and> snap_dock_cart T ! page \<noteq> None)
    (put_step (write_dock_chunk junk z True (snap_dock_cart T ! page) page (snap_dock_ram T ! page) compress))"
proof -
  let ?w = "if snap_dock_ram T ! page \<noteq> 0 then 2 else 0"
  have w: "write_dock_chunk junk z True (snap_dock_cart T ! page) page (snap_dock_ram T ! page) compress =
      write_ram_page junk z ''DOCK'' (snap_dock_cart T ! page) 0x2000 page compress (dock_flags True (snap_dock_ram T ! page))"
    by (intro ext) (simp add: write_dock_chunk_def dock_flags_def)
  have "szx_values p (s\<lparr>snap_dock_active := 1, snap_dock_ram := (snap_dock_ram s)[page := ?w],
        snap_dock_cart := (snap_dock_cart s)[page := snap_dock_cart T ! page]\<rparr>) =
      szx_values p (if p = DOCK_page page \<or> p = DOCK_part then T else s)" if "szx_ready T s" for s p
    using page that active by (cases p) (auto simp: szx_ready_def nth_list_update)
  then show ?thesis
    unfolding w
    by (intro page_step [OF z _ szx_chunk_readers(9) [unfolded read_dock_chunk_def], where
        f = "\<lambda>s. s\<lparr>snap_dock_active := 1, snap_dock_ram := (snap_dock_ram s)[page := ?w],
          snap_dock_cart := (snap_dock_cart s)[page := snap_dock_cart T ! page]\<rparr>"])
      (use page pages dock_flags_read [of True "snap_dock_ram T ! page"] in
        \<open>auto simp: nset_def szx_ready_def joysticks_ok_def Let_def\<close>)
qed

lemma dock_pages_step:
  assumes z: "zlib_lossless z" "compress = 0 \<or> compress = 1" and page: "page < 8"
    and sizes: "length (snap_exrom_cart T) = 8" "length (snap_exrom_ram T) = 8" "length (snap_dock_cart T) = 8" "length (snap_dock_ram T) = 8"
    and pages: "pages_of 0x2000 (snap_exrom_cart T)" "pages_of 0x2000 (snap_dock_cart T)" and active: "snap_dock_active T \<noteq> 0"
  shows "szx_step z T (2 ^ 33) (\<lambda>p. (p = EXROM_page page \<or> p = DOCK_part) \<and> snap_exrom_cart T ! page \<noteq> None \<or>
      (p = DOCK_page page \<or> p = DOCK_part) \<and> snap_dock_cart T ! page \<noteq> None)
    (put_step (write_dock_pages junk z T compress page))"
proof -
  have w: "write_dock_pages junk z T compress page = (\<lambda>out.
      write_dock_chunk junk z False (snap_exrom_cart T ! page) page (snap_exrom_ram T ! page) compress out \<bind>
      write_dock_chunk junk z True (snap_dock_cart T ! page) page (snap_dock_ram T ! page) compress)"
    using page sizes by (intro ext) (simp add: write_dock_pages_def nget_def)
  show ?thesis
    unfolding w
    by (rule step_weaken [OF put_seq [OF exrom_step [OF z page sizes(1) pages(1) active] dock_step [OF z page sizes(3) pages(2) active]]])
      simp_all
qed

end
