(* ===== verification/Szx_Devices.thy ===== *)
theory Szx_Devices
  imports Szx_Pages
begin

text \<open>
  The steps of the .szx writer that write interfaces with memory of their own.
\<close>

section \<open>Beta 128\<close>

definition b128_flags :: "libspectrum_snap \<Rightarrow> bool \<Rightarrow> dword" where
  "b128_flags T c =
     (ZXSTBETAF_CONNECTED OR flag_if (snap_beta_paged T \<noteq> 0) ZXSTBETAF_PAGED OR
      flag_if (snap_beta_autoboot T \<noteq> 0) ZXSTBETAF_AUTOBOOT OR flag_if (snap_beta_direction T = 0) ZXSTBETAF_SEEKLOWER OR
      flag_if (snap_beta_custom_rom T \<noteq> 0) ZXSTBETAF_CUSTOMROM OR flag_if c ZXSTBETAF_COMPRESSED)"

lemma flag_bit: "flag_set x f \<noteq> 0 \<longleftrightarrow> x AND f \<noteq> 0" "flag_set x f = 0 \<longleftrightarrow> x AND f = 0"
  by (simp_all add: flag_set_def)

lemma drop_cell: "drop (numeral k + n) (x # xs) = drop (pred_numeral k + n) xs"
  by (simp add: numeral_eq_Suc)

lemma b128_step:
  assumes z: "zlib_lossless z" "compress = 0 \<or> compress = 1" and active: "snap_beta_active T \<noteq> 0"
    and drives: "0 \<le> snap_beta_drive_count T" "snap_beta_drive_count T < 256"
    and rom: "snap_beta_custom_rom T \<noteq> 0 \<Longrightarrow> \<exists>d. snap_beta_rom T = Some d \<and> length d = 0x4000"
  shows "szx_step z T (2 ^ 32) (\<lambda>p. p = B128_part) (put_step (write_b128_chunk junk z T compress))"
proof -
  let ?custom = "snap_beta_custom_rom T \<noteq> 0"
  obtain m c where m: "(if ?custom then compress_data junk z (libspectrum_buffer_alloc junk) (snap_beta_rom T) 0x4000 compress
      else Some (libspectrum_buffer_alloc junk, False)) = Some (m, c)"
    "?custom \<Longrightarrow> szx_packed z (the (snap_beta_rom T)) m c" "\<not> ?custom \<Longrightarrow> \<not> c"
  proof (cases ?custom)
    case True
    then obtain d where d: "snap_beta_rom T = Some d" "length d = 0x4000" using rom by blast
    then show ?thesis using compress_packed [OF z(1) _ _ z(2), of d "0x4000" junk] True that by auto
  next
    case False
    then show ?thesis using that [of "libspectrum_buffer_alloc junk" False] by simp
  qed
  let ?items = "[Put_dword (b128_flags T c), Put_byte (of_int (snap_beta_drive_count T)), Put_byte (snap_beta_system T),
    Put_byte (snap_beta_track T), Put_byte (snap_beta_sector T), Put_byte (snap_beta_data T), Put_byte (snap_beta_status T)] @
    (if ?custom then [Put_buffer m] else [])"
  have w: "write_b128_chunk junk z T compress = szx_put_chunk junk ''B128'' ?items"
    using rom by (intro ext) (auto simp: write_b128_chunk_def m(1) b128_flags_def)
  let ?f = "\<lambda>s. s\<lparr>snap_beta_active := 1, snap_beta_paged := flag_set (b128_flags T c) ZXSTBETAF_PAGED,
    snap_beta_autoboot := flag_set (b128_flags T c) ZXSTBETAF_AUTOBOOT,
    snap_beta_direction := (if b128_flags T c AND ZXSTBETAF_SEEKLOWER \<noteq> 0 then 0 else 1),
    snap_beta_custom_rom := flag_set (b128_flags T c) ZXSTBETAF_CUSTOMROM, snap_beta_drive_count := snap_beta_drive_count T,
    snap_beta_system := snap_beta_system T, snap_beta_track := snap_beta_track T, snap_beta_sector := snap_beta_sector T,
    snap_beta_data := snap_beta_data T, snap_beta_status := snap_beta_status T,
    snap_beta_rom := (if ?custom then snap_beta_rom T else None)\<rparr>"
  have bits: "b128_flags T c AND ZXSTBETAF_CUSTOMROM \<noteq> 0 \<longleftrightarrow> ?custom" "b128_flags T c AND ZXSTBETAF_COMPRESSED \<noteq> 0 \<longleftrightarrow> c"
    by (simp_all add: b128_flags_def flags_or or_is_0 flag_if_def)
  show ?thesis
    unfolding w
  proof (rule chunk_step [where f = ?f, OF szx_chunk_readers(2)])
    show "length ''B128'' \<le> 4 \<and> (\<forall>x \<in> set ?items. item_ok x) \<and> length (items_bytes ?items) < 2 ^ 31"
      using m(2) rom by (auto simp: szx_packed_def)
    show "szx_ready T (?f s) \<and> read_b128_chunk z s 0x0105 (items_bytes ?items @ rest) (length (items_bytes ?items)) False =
        Some (ERROR_NONE, ?f s, False, rest)" if "szx_ready T s" for s rest
    proof (cases ?custom)
      case True
      then obtain d where d: "snap_beta_rom T = Some d" "length d = 0x4000" using rom by blast
      then have packed: "szx_packed z d m c" using m(2) True by simp
      show ?thesis
      proof (cases c)
        case c: True
        then show ?thesis
          using True that packed_inflates(2) [OF z(1), of d m rest] packed d drives bits
          by (simp add: read_b128_chunk_def szx_read_simps flag_bit uint_of_byte drop_cell)
      next
        case c: False
        then have "contents m = d" using packed by (simp add: szx_packed_def)
        then show ?thesis
          using True that c d drives bits
          by (simp add: read_b128_chunk_def szx_read_simps flag_bit uint_of_byte copy_out_def)
      qed
    next
      case False
      then show ?thesis
        using that drives bits by (simp add: read_b128_chunk_def szx_read_simps flag_bit uint_of_byte)
    qed
    show "szx_values p (?f s) = szx_values p (if p = B128_part then T else s)" if "szx_ready T s" for s p
      using active by (cases p) (auto simp: b128_flags_def szx_flag flag_bit flags_or or_is_0 flag_if_def)
  qed
qed

section \<open>Interface 2, the DivIDE and the DivMMC\<close>

lemma if2r_step:
  assumes z: "zlib_lossless z" and active: "snap_interface2_active T \<noteq> 0"
    and rom: "snap_interface2_rom T = Some d" "length d = 0x4000" "libspectrum_zlib_compress z d = (ERROR_NONE, gz)" "length gz < 2 ^ 30"
  shows "szx_step z T (2 ^ 32) (\<lambda>p. p = IF2R_part) (write_if2r_chunk junk z T)"
proof -
  let ?items = "[Put_dword (of_nat (length gz)), Put_data gz (of_nat (length gz))]"
  let ?f = "\<lambda>s. s\<lparr>snap_interface2_active := 1, snap_interface2_rom := Some d\<rparr>"
  have n: "unat (of_nat (length gz) :: size_t) = length gz" using rom(4) by (simp add: unat_of_nat take_bit_nat_eq_self)
  have w: "write_if2r_chunk junk z T = put_step (szx_put_chunk junk ''IF2R'' ?items)"
    by (intro ext) (simp add: write_if2r_chunk_def rom copy_out_def map_conv_bind_option comp_def)
  show ?thesis
    unfolding w
  proof (rule chunk_step [where f = ?f, OF szx_chunk_readers(11)])
    show "length ''IF2R'' \<le> 4 \<and> (\<forall>x \<in> set ?items. item_ok x) \<and> length (items_bytes ?items) < 2 ^ 31"
      using rom(4) n by simp
    show "szx_ready T (?f s) \<and> read_if2r_chunk z s 0x0105 (items_bytes ?items @ rest) (length (items_bytes ?items)) False =
        Some (ERROR_NONE, ?f s, False, rest)" if "szx_ready T s" for s rest
      using that n inflate_deflated(1) [OF z rom(3), of "0x4000" rest] rom(2)
      by (simp add: read_if2r_chunk_def szx_ready_def joysticks_ok_def)
    show "szx_values p (?f s) = szx_values p (if p = IF2R_part then T else s)" if "szx_ready T s" for s p
      using active rom(1) by (cases p) simp_all
  qed
qed

definition divxxx_flags :: "int \<Rightarrow> int \<Rightarrow> bool \<Rightarrow> lword" where
  "divxxx_flags wp paged c = (flag_if (wp \<noteq> 0) 1 OR flag_if (paged \<noteq> 0) 2 OR flag_if c 4)"

lemma divxxx_bits:
  "divxxx_flags wp paged c AND 4 \<noteq> 0 \<longleftrightarrow> c" "flag_set (divxxx_flags wp paged c) 1 = 0 \<longleftrightarrow> wp = 0"
  "flag_set (divxxx_flags wp paged c) 2 = 0 \<longleftrightarrow> paged = 0"
  by (simp_all add: divxxx_flags_def flags_or or_is_0 flag_if_def flag_bit)

lemma divxxx_back:
  assumes z: "zlib_lossless z" and m: "szx_packed z d m c" "length d = 0x2000" and pages: "pages < 256"
  shows "read_divxxx_chunk z store 1 2 4 set_eprom s 0x0105
      (word_bytes (divxxx_flags wp paged c) @ control # ucast pages # contents m @ rest) (4 + length (contents m)) False =
    Some (ERROR_NONE, set_eprom (Some d) (store (flag_set (divxxx_flags wp paged c) 1) (flag_set (divxxx_flags wp paged c) 2)
      control pages s), False, rest)"
proof (cases c)
  case True
  then show ?thesis
    using packed_inflates(2) [OF z, of d m rest] m pages divxxx_bits(1) [of wp paged c]
    by (simp add: read_divxxx_chunk_def szx_field_simps Let_def size_of_byte)
next
  case False
  then have "contents m = d" using m by (simp add: szx_packed_def)
  then show ?thesis
    using False m pages divxxx_bits(1) [of wp paged c]
    by (simp add: read_divxxx_chunk_def szx_field_simps Let_def size_of_byte copy_out_def)
qed

lemma divxxx_step:
  assumes z: "zlib_lossless z" "compress = 0 \<or> compress = 1" and eprom: "eprom = Some d" "length d = 0x2000" and pages: "pages < 256"
    and cid: "length cid \<le> 4" "map_of (szx_chunks z) (chunk_id cid) = Some (read_divxxx_chunk z store 1 2 4 set_eprom)"
    and ready: "\<And>s wp paged. szx_ready T s \<Longrightarrow> szx_ready T (set_eprom eprom (store wp paged control pages s))"
    and vals: "\<And>s p w q. szx_ready T s \<Longrightarrow> (w = 0 \<longleftrightarrow> wp = 0) \<Longrightarrow> (q = 0 \<longleftrightarrow> paged = 0) \<Longrightarrow>
      szx_values p (set_eprom eprom (store w q control pages s)) = szx_values p (if P p then T else s)"
  shows "szx_step z T (2 ^ 32) P (write_divxxx_chunk junk z compress cid eprom wp 1 paged 2 4 control pages)"
proof -
  obtain m c where m: "compress_data junk z (libspectrum_buffer_alloc junk) (Some d) 0x2000 compress = Some (m, c)" "szx_packed z d m c"
    using compress_packed [OF z(1) _ _ z(2), of d "0x2000" junk] eprom by auto
  let ?items = "[Put_word (divxxx_flags wp paged c), Put_byte control, Put_byte (ucast pages), Put_buffer m]"
  let ?f = "\<lambda>s. set_eprom eprom (store (flag_set (divxxx_flags wp paged c) 1) (flag_set (divxxx_flags wp paged c) 2) control pages s)"
  have w: "write_divxxx_chunk junk z compress cid eprom wp 1 paged 2 4 control pages = put_step (szx_put_chunk junk cid ?items)"
    by (intro ext) (simp add: write_divxxx_chunk_def eprom(1) m(1) divxxx_flags_def map_conv_bind_option comp_def)
  have bytes: "items_bytes ?items @ rest = word_bytes (divxxx_flags wp paged c) @ control # ucast pages # contents m @ rest" for rest
    by simp
  have len: "length (items_bytes ?items) = 4 + length (contents m)" by simp
  show ?thesis
    unfolding w
  proof (rule chunk_step [where f = ?f, OF cid(2)])
    show "length cid \<le> 4 \<and> (\<forall>x \<in> set ?items. item_ok x) \<and> length (items_bytes ?items) < 2 ^ 31"
      using m(2) eprom(2) cid(1) by (auto simp: szx_packed_def)
    show "szx_ready T (?f s) \<and> read_divxxx_chunk z store 1 2 4 set_eprom s 0x0105 (items_bytes ?items @ rest)
        (length (items_bytes ?items)) False = Some (ERROR_NONE, ?f s, False, rest)" if "szx_ready T s" for s rest
      unfolding bytes len using divxxx_back [OF z(1) m(2) eprom(2) pages] ready [OF that] eprom(1) by simp
    show "szx_values p (?f s) = szx_values p (if P p then T else s)" if "szx_ready T s" for s p
      by (rule vals [OF that divxxx_bits(2,3)])
  qed
qed

lemma dide_step:
  assumes z: "zlib_lossless z" "compress = 0 \<or> compress = 1" and active: "snap_divide_active T \<noteq> 0"
    and eprom: "snap_divide_eprom T = Some d" "length d = 0x2000" and pages: "snap_divide_pages T < 256"
  shows "szx_step z T (2 ^ 32) (\<lambda>p. p = DIDE_part) (write_dide_chunk junk z T compress)"
  unfolding write_dide_chunk_def
proof (rule divxxx_step [OF z eprom pages _ szx_chunk_readers(5) [unfolded read_dide_chunk_def]])
  fix s p and w q :: int
  assume "szx_ready T s" "w = 0 \<longleftrightarrow> snap_divide_eprom_writeprotect T = 0" "q = 0 \<longleftrightarrow> snap_divide_paged T = 0"
  then show "szx_values p (s\<lparr>snap_divide_active := 1, snap_divide_eprom_writeprotect := w, snap_divide_paged := q,
      snap_divide_control := snap_divide_control T, snap_divide_pages := snap_divide_pages T\<rparr>
      \<lparr>snap_divide_eprom := snap_divide_eprom T\<rparr>) = szx_values p (if p = DIDE_part then T else s)"
    using active by (cases p) simp_all
qed (simp_all add: szx_ready_def joysticks_ok_def)

lemma dmmc_step:
  assumes z: "zlib_lossless z" "compress = 0 \<or> compress = 1" and active: "snap_divmmc_active T \<noteq> 0"
    and eprom: "snap_divmmc_eprom T = Some d" "length d = 0x2000" and pages: "snap_divmmc_pages T < 256"
  shows "szx_step z T (2 ^ 32) (\<lambda>p. p = DMMC_part) (write_dmmc_chunk junk z T compress)"
  unfolding write_dmmc_chunk_def
proof (rule divxxx_step [OF z eprom pages _ szx_chunk_readers(7) [unfolded read_dmmc_chunk_def]])
  fix s p and w q :: int
  assume "szx_ready T s" "w = 0 \<longleftrightarrow> snap_divmmc_eprom_writeprotect T = 0" "q = 0 \<longleftrightarrow> snap_divmmc_paged T = 0"
  then show "szx_values p (s\<lparr>snap_divmmc_active := 1, snap_divmmc_eprom_writeprotect := w, snap_divmmc_paged := q,
      snap_divmmc_control := snap_divmmc_control T, snap_divmmc_pages := snap_divmmc_pages T\<rparr>
      \<lparr>snap_divmmc_eprom := snap_divmmc_eprom T\<rparr>) = szx_values p (if p = DMMC_part then T else s)"
    using active by (cases p) simp_all
qed (simp_all add: szx_ready_def joysticks_ok_def)

section \<open>Spectranet\<close>

lemma size_as_dword:
  assumes "buffer_ok m" "length (contents m) < 2 ^ 32"
  shows "(ucast (libspectrum_buffer_get_data_size (Some m)) :: dword) = of_nat (length (contents m))"
    "unat (of_nat (length (contents m)) :: dword) = length (contents m)"
proof -
  have "bytes_used m = of_nat (length (contents m))" using length_contents [OF assms(1)] by simp
  then show "(ucast (libspectrum_buffer_get_data_size (Some m)) :: dword) = of_nat (length (contents m))"
    using ucast_low [of "int (length (contents m))"] by (simp add: libspectrum_buffer_get_data_size_def)
  show "unat (of_nat (length (contents m)) :: dword) = length (contents m)"
    using assms(2) by (simp add: unat_of_nat take_bit_nat_eq_self)
qed

lemma snet_memory_back:
  assumes z: "zlib_lossless z" and m: "szx_packed z d m c" "length d = 0x20000"
  shows "read_snet_memory z s (dword_bytes (of_nat (length (contents m))) @ contents m @ rest) c (4 + length (contents m)) setter =
    Some (ERROR_NONE, setter (Some d) s, rest)"
proof -
  have small: "length (contents m) \<le> 0x20000" "buffer_ok m" using m by (auto simp: szx_packed_def)
  have n: "unat (of_nat (length (contents m)) :: dword) = length (contents m)"
    using size_as_dword(2) [OF small(2)] small(1) by simp
  show ?thesis
  proof (cases c)
    case True
    then show ?thesis
      using packed_inflates(1) [OF z, of d m 0 rest] m n by (simp add: read_snet_memory_def szx_field_simps Let_def)
  next
    case False
    then have "contents m = d" using m by (simp add: szx_packed_def)
    then show ?thesis using False m n by (simp add: read_snet_memory_def szx_field_simps Let_def copy_out_def)
  qed
qed

lemma snet_memory_step:
  assumes z: "zlib_lossless z" "compress = 0 \<or> compress = 1" and memory: "memory = Some d" "length d = 0x20000"
    and cid: "length cid \<le> 4" "map_of (szx_chunks z) (chunk_id cid) = Some g"
    and g: "\<And>s version buf len swap. 5 \<le> len \<Longrightarrow> g s version buf len swap = map_option (\<lambda>(error, snap, rest). (error, snap, swap, rest))
        (read_snet_memory z s (drop 1 buf) (buf ! 0 AND 1 \<noteq> 0) (len - 1) setter)"
    and ready: "\<And>s. szx_ready T s \<Longrightarrow> szx_ready T (setter memory s)"
    and vals: "\<And>s p. szx_ready T s \<Longrightarrow> szx_values p (setter memory s) = szx_values p (if P p then T else s)"
  shows "szx_step z T (2 ^ 32) P (put_step (szx_write_snet_memory junk z cid memory 1 compress))"
proof -
  obtain m c where m: "compress_data junk z (libspectrum_buffer_alloc junk) (Some d) 0x20000 compress = Some (m, c)" "szx_packed z d m c"
    using compress_packed [OF z(1) _ _ z(2), of d "0x20000" junk] memory by auto
  have small: "length (contents m) \<le> 0x20000" "buffer_ok m" using m(2) memory by (auto simp: szx_packed_def)
  let ?items = "[Put_byte (flag_if c 1), Put_dword (of_nat (length (contents m))), Put_buffer m]"
  have w: "szx_write_snet_memory junk z cid memory 1 compress = szx_put_chunk junk cid ?items"
    using size_as_dword(1) [OF small(2)] small(1) by (intro ext) (simp add: szx_write_snet_memory_def memory(1) m(1))
  have bytes: "items_bytes ?items @ rest = flag_if c 1 # dword_bytes (of_nat (length (contents m))) @ contents m @ rest" for rest by simp
  have len: "length (items_bytes ?items) = 5 + length (contents m)" by simp
  have bit: "(flag_if c 1 :: byte) AND 1 \<noteq> 0 \<longleftrightarrow> c" by (simp add: flag_if_def)
  show ?thesis
    unfolding w
  proof (rule chunk_step [where f = "setter memory", OF cid(2)])
    show "length cid \<le> 4 \<and> (\<forall>x \<in> set ?items. item_ok x) \<and> length (items_bytes ?items) < 2 ^ 31" using small cid(1) by auto
    show "szx_ready T (setter memory s) \<and> g s 0x0105 (items_bytes ?items @ rest) (length (items_bytes ?items)) False =
        Some (ERROR_NONE, setter memory s, False, rest)" if "szx_ready T s" for s rest
      unfolding bytes len
      using snet_memory_back [OF z(1) m(2) memory(2), of s rest setter] ready [OF that] bit by (simp add: g memory(1))
    show "szx_values p (setter memory s) = szx_values p (if P p then T else s)" if "szx_ready T s" for s p by (rule vals [OF that])
  qed
qed

lemma snef_step:
  assumes z: "zlib_lossless z" "compress = 0 \<or> compress = 1" and memory: "snap_spectranet_flash T = Some d" "length d = 0x20000"
  shows "szx_step z T (2 ^ 32) (\<lambda>p. p = SNEF_part) (put_step (write_snef_chunk junk z T compress))"
  unfolding write_snef_chunk_def
proof (rule snet_memory_step [OF z memory _ szx_chunk_readers(25)])
  show "szx_values p (s\<lparr>snap_spectranet_flash := snap_spectranet_flash T\<rparr>) = szx_values p (if p = SNEF_part then T else s)" for s p
    by (cases p) simp_all
qed (simp_all add: read_snef_chunk_def szx_ready_def joysticks_ok_def)

lemma sner_step:
  assumes z: "zlib_lossless z" "compress = 0 \<or> compress = 1" and memory: "snap_spectranet_ram T = Some d" "length d = 0x20000"
  shows "szx_step z T (2 ^ 32) (\<lambda>p. p = SNER_part) (put_step (write_sner_chunk junk z T compress))"
  unfolding write_sner_chunk_def
proof (rule snet_memory_step [OF z memory _ szx_chunk_readers(26)])
  show "szx_values p (s\<lparr>snap_spectranet_ram := snap_spectranet_ram T\<rparr>) = szx_values p (if p = SNER_part then T else s)" for s p
    by (cases p) simp_all
qed (simp_all add: read_sner_chunk_def szx_ready_def joysticks_ok_def)

end
