(* ===== verification/Szx_Disks.thy ===== *)
theory Szx_Disks
  imports Szx_Devices Run_Zlib
begin

text \<open>
  The steps of the .szx writer that write the Multiface, the Interface 1 and the disk interfaces that
  deflate a ROM and a RAM together.
\<close>

section \<open>Multiface\<close>

definition mfce_flags :: "libspectrum_snap \<Rightarrow> bool \<Rightarrow> byte" where
  "mfce_flags T c =
     (flag_if (snap_multiface_paged T \<noteq> 0) ZXSTMF_PAGEDIN OR flag_if c ZXSTMF_COMPRESSED OR
      flag_if (snap_multiface_software_lockout T \<noteq> 0) ZXSTMF_SOFTWARELOCKOUT OR
      flag_if (snap_multiface_red_button_disabled T \<noteq> 0) ZXSTMF_REDBUTTONDISABLED OR
      flag_if (snap_multiface_disabled T \<noteq> 0) ZXSTMF_DISABLED OR
      flag_if (snap_multiface_ram_length T = 0x4000) ZXSTMF_16KRAMMODE)"

lemma mfce_bits:
  "mfce_flags T c AND 2 \<noteq> 0 \<longleftrightarrow> c" "mfce_flags T c AND 32 \<noteq> 0 \<longleftrightarrow> snap_multiface_ram_length T = 0x4000"
  by (simp_all add: mfce_flags_def flags_or or_is_0 flag_if_def)

lemma mfce_step:
  assumes z: "zlib_lossless z" "compress = 0 \<or> compress = 1" and active: "snap_multiface_active T \<noteq> 0"
    and ram: "snap_multiface_ram T = Some d" "snap_multiface_ram_length T = of_nat (length d)" "length d = 0x2000 \<or> length d = 0x4000"
  shows "szx_step z T (2 ^ 32) (\<lambda>p. p = MFCE_part) (write_mfce_chunk junk z T compress)"
proof -
  let ?one = "snap_multiface_model_one T \<noteq> 0"
  let ?n = "length d"
  obtain m c where m: "compress_data junk z (libspectrum_buffer_alloc junk) (Some d) (of_nat ?n) compress = Some (m, c)" "szx_packed z d m c"
    using compress_packed [OF z(1) _ refl z(2), of d junk] ram(3) by auto
  let ?items = "[Put_byte (if ?one then ZXSTMFM_1 else ZXSTMFM_128), Put_byte (mfce_flags T c), Put_buffer m]"
  let ?f = "\<lambda>s. (if ?one then s\<lparr>snap_multiface_model_one := 1\<rparr>
      else if libspectrum_machine_capabilities (snap_machine s) AND MACHINE_CAPABILITY_PLUS3_MEMORY \<noteq> 0
      then s\<lparr>snap_multiface_model_3 := 1\<rparr> else s\<lparr>snap_multiface_model_128 := 1\<rparr>)
    \<lparr>snap_multiface_active := 1, snap_multiface_paged := flag_set (mfce_flags T c) ZXSTMF_PAGEDIN,
      snap_multiface_software_lockout := flag_set (mfce_flags T c) ZXSTMF_SOFTWARELOCKOUT,
      snap_multiface_red_button_disabled := flag_set (mfce_flags T c) ZXSTMF_REDBUTTONDISABLED,
      snap_multiface_disabled := flag_set (mfce_flags T c) ZXSTMF_DISABLED, snap_multiface_ram := Some d,
      snap_multiface_ram_length := of_nat ?n\<rparr>"
  have lens: "((of_nat ?n :: size_t) \<noteq> 0x2000 \<and> (of_nat ?n :: size_t) \<noteq> 0x4000) = False" using ram(3) by auto
  have w: "write_mfce_chunk junk z T compress = put_step (szx_put_chunk junk ''MFCE'' ?items)"
    by (intro ext) (simp add: write_mfce_chunk_def ram(1,2) m(1) lens mfce_flags_def map_conv_bind_option comp_def)
  have long: "mfce_flags T c AND 32 \<noteq> 0 \<longleftrightarrow> length d = 0x4000" using ram(2,3) by (auto simp: mfce_bits)
  show ?thesis
    unfolding w
  proof (rule chunk_step [where f = ?f, OF szx_chunk_readers(15)])
    show "length ''MFCE'' \<le> 4 \<and> (\<forall>x \<in> set ?items. item_ok x) \<and> length (items_bytes ?items) < 2 ^ 31"
      using m(2) ram(3) by (auto simp: szx_packed_def)
    show "szx_ready T (?f s) \<and> read_mfce_chunk z s 0x0105 (items_bytes ?items @ rest) (length (items_bytes ?items)) False =
        Some (ERROR_NONE, ?f s, False, rest)" if "szx_ready T s" for s rest
    proof (cases c)
      case True
      then have "mfce_flags T c AND 2 \<noteq> 0" by (simp add: mfce_bits)
      moreover have "szx_inflate z (contents m @ rest) (length (contents m)) (length d) = Some (ERROR_NONE, d)"
        using packed_inflates(2) [OF z(1), of d m rest] m(2) True ram(3) by auto
      ultimately show ?thesis
        using that ram(3) long by (elim disjE) (auto simp: read_mfce_chunk_def Let_def szx_ready_def joysticks_ok_def)
    next
      case False
      then have "contents m = d" "\<not> mfce_flags T c AND 2 \<noteq> 0" using m(2) by (simp_all add: szx_packed_def mfce_bits)
      then show ?thesis
        using that ram(3) long
        by (elim disjE) (auto simp: read_mfce_chunk_def Let_def szx_ready_def joysticks_ok_def copy_out_def)
    qed
    show "szx_values p (?f s) = szx_values p (if p = MFCE_part then T else s)" if "szx_ready T s" for s p
      using active ram(1,2) that by (cases p) (auto simp: mfce_flags_def szx_flag szx_ready_def)
  qed
qed

section \<open>Interface 1\<close>

definition if1_flags :: "libspectrum_snap \<Rightarrow> bool \<Rightarrow> lword" where
  "if1_flags T c = (ZXSTIF1F_ENABLED OR flag_if (snap_interface1_paged T \<noteq> 0) ZXSTIF1F_PAGED OR flag_if c ZXSTIF1F_COMPRESSED)"

definition if1_drives :: "libspectrum_snap \<Rightarrow> byte" where
  "if1_drives T = (if snap_interface1_drive_count T \<noteq> 0 then of_int (snap_interface1_drive_count T) else 8)"

lemma if1_padding: "replicate 3 x = [x, x, x]" "replicate 8 x = [x, x, x, x, x, x, x, x]"
  by (simp_all add: eval_nat_numeral)

lemma if1_bits: "if1_flags T c AND 2 \<noteq> 0 \<longleftrightarrow> c" "if1_flags T c AND 1 = 1"
  by (simp_all add: if1_flags_def flags_or or_is_0 flag_if_def)

lemma if1_drives_back:
  assumes "0 \<le> snap_interface1_drive_count T" "snap_interface1_drive_count T < 256"
  shows "uint (if1_drives T) = (if snap_interface1_drive_count T = 0 then 8 else snap_interface1_drive_count T)"
  using assms by (simp add: if1_drives_def uint_of_byte)

lemma packed_nonempty:
  assumes "zlib_header z" "szx_packed z d m c" "d \<noteq> []"
  shows "contents m \<noteq> []"
  using assms compress_ok_iff [of z d] by (cases c) (auto simp: szx_packed_def zlib_header_def)

lemma if1_step:
  assumes z: "zlib_lossless z" "compress = 0 \<or> compress = 1" "zlib_header z" and active: "snap_interface1_active T \<noteq> 0"
    and drives: "0 \<le> snap_interface1_drive_count T" "snap_interface1_drive_count T < 256"
    and rom: "snap_interface1_custom_rom T \<noteq> 0 \<Longrightarrow> \<exists>d. snap_interface1_rom T = Some d \<and>
      snap_interface1_rom_length T = of_nat (length d) \<and> (length d = 0x2000 \<or> length d = 0x4000)"
  shows "szx_step z T (2 ^ 32) (\<lambda>p. p = IF1_part) (write_if1_chunk junk z T compress)"
proof (cases "snap_interface1_custom_rom T \<noteq> 0")
  case False
  obtain m c where m: "compress_data junk z (libspectrum_buffer_alloc junk) None 0 compress = Some (m, c)" "\<not> c"
    using put_new_buffer [OF buf.puts_emit [of junk "[]"], of junk] by (auto simp: compress_data_def)
  let ?items = "[Put_word (if1_flags T False), Put_byte (if1_drives T)] @ replicate 3 (Put_byte 0) @ replicate 8 (Put_dword 0) @ [Put_word 0]"
  let ?f = "\<lambda>s. s\<lparr>snap_interface1_drive_count := uint (if1_drives T), snap_interface1_active := 1,
    snap_interface1_paged := flag_set (if1_flags T False) ZXSTIF1F_PAGED\<rparr>"
  have w: "write_if1_chunk junk z T compress = put_step (szx_put_chunk junk ''IF1'' ?items)"
    using False m by (intro ext) (simp add: write_if1_chunk_def if1_flags_def if1_drives_def map_conv_bind_option comp_def)
  show ?thesis
    unfolding w
  proof (rule chunk_step [where f = ?f, OF szx_chunk_readers(10)])
    show "length ''IF1'' \<le> 4 \<and> (\<forall>x \<in> set ?items. item_ok x) \<and> length (items_bytes ?items) < 2 ^ 31"
      by (simp add: if1_padding)
    show "szx_ready T (?f s) \<and> read_if1_chunk z s 0x0105 (items_bytes ?items @ rest) (length (items_bytes ?items)) False =
        Some (ERROR_NONE, ?f s, False, rest)" if "szx_ready T s" for s rest
      using that if1_bits(2) [of T False]
      by (simp add: read_if1_chunk_def szx_read_simps flag_bits_def if1_padding)
    show "szx_values p (?f s) = szx_values p (if p = IF1_part then T else s)" if "szx_ready T s" for s p
      using active False drives that by (cases p) (auto simp: if1_flags_def flag_set_def flags_or or_is_0 flag_if_def szx_ready_def if1_drives_back)
  qed
next
  case custom: True
  then obtain d where d: "snap_interface1_rom T = Some d" "snap_interface1_rom_length T = of_nat (length d)"
    "length d = 0x2000 \<or> length d = 0x4000" using rom by blast
  obtain m c where m: "compress_data junk z (libspectrum_buffer_alloc junk) (Some d) (of_nat (length d)) compress = Some (m, c)"
    "szx_packed z d m c"
    using compress_packed [OF z(1) _ refl z(2), of d junk] d(3) by auto
  have "d \<noteq> []" using d(3) by auto
  then have some: "contents m \<noteq> []" using packed_nonempty [OF z(3) m(2)] by blast
  have "length (contents m) = unat (bytes_used m)" using m(2) length_contents by (simp add: szx_packed_def)
  then have "bytes_used m \<noteq> 0" using some by auto
  then have used: "libspectrum_buffer_is_not_empty m" by (simp add: libspectrum_buffer_is_not_empty_def word_gt_0)
  let ?items = "[Put_word (if1_flags T c), Put_byte (if1_drives T)] @ replicate 3 (Put_byte 0) @ replicate 8 (Put_dword 0) @
    [Put_word (of_nat (length d)), Put_buffer m]"
  let ?f = "\<lambda>s. s\<lparr>snap_interface1_drive_count := uint (if1_drives T), snap_interface1_active := 1,
    snap_interface1_paged := flag_set (if1_flags T c) ZXSTIF1F_PAGED, snap_interface1_custom_rom := 1,
    snap_interface1_rom_length := of_nat (length d), snap_interface1_rom := (if c then Some d else snap_interface1_rom s)\<rparr>"
  have lens: "((of_nat (length d) :: size_t) \<noteq> 0x2000 \<and> (of_nat (length d) :: size_t) \<noteq> 0x4000) = False"
    "((of_nat (length d) :: lword) \<noteq> 0x2000 \<and> (of_nat (length d) :: lword) \<noteq> 0x4000) = False"
    "(ucast (of_nat (length d) :: size_t) :: lword) = of_nat (length d)" "(of_nat (length d) :: lword) \<noteq> 0"
    "unat (of_nat (length d) :: lword) = length d" using d(3) by auto
  have w: "write_if1_chunk junk z T compress = put_step (szx_put_chunk junk ''IF1'' ?items)"
    using custom used
    by (intro ext) (simp add: write_if1_chunk_def d(1,2) m(1) lens(1,3) if1_flags_def if1_drives_def map_conv_bind_option comp_def)
  show ?thesis
    unfolding w
  proof (rule chunk_step [where f = ?f, OF szx_chunk_readers(10)])
    show "length ''IF1'' \<le> 4 \<and> (\<forall>x \<in> set ?items. item_ok x) \<and> length (items_bytes ?items) < 2 ^ 31"
      using m(2) d(3) by (auto simp: szx_packed_def if1_padding)
    show "szx_ready T (?f s) \<and> read_if1_chunk z s 0x0105 (items_bytes ?items @ rest) (length (items_bytes ?items)) False =
        Some (ERROR_NONE, ?f s, False, rest)" if "szx_ready T s" for s rest
    proof -
      obtain buf where buf: "buf = items_bytes ?items @ rest" by simp
      have fields: "le16 buf 0 = if1_flags T c" "buf ! 2 = if1_drives T" "le16 buf 38 = of_nat (length d)"
        "drop 40 buf = contents m @ rest" "drop (40 + length (contents m)) buf = rest"
        by (simp_all add: buf szx_field_simps if1_padding drop_cell)
      have "szx_inflate z (contents m @ rest) (length (contents m)) (length d) = Some (ERROR_NONE, d)" if c
        using packed_inflates(2) [OF z(1), of d m rest] m(2) that d(3) by auto
      moreover have "copy_out buf 40 (length d) = Some d" "contents m = d" if "\<not> c"
        using m(2) that by (simp_all add: buf szx_packed_def if1_padding copy_out_def szx_field_simps)
      moreover have "drop (40 + length d) buf = rest" if "\<not> c" using fields(5) m(2) that by (simp add: szx_packed_def)
      ultimately have "read_if1_chunk z s 0x0105 buf (40 + length (contents m)) False = Some (ERROR_NONE, ?f s, False, rest)"
        using custom lens if1_bits [of T c] by (simp add: read_if1_chunk_def fields Let_def flag_bits_def)
      moreover have "length (items_bytes ?items) = 40 + length (contents m)" by (simp add: if1_padding)
      ultimately show ?thesis
        unfolding buf [symmetric] using that custom by (simp add: szx_ready_def joysticks_ok_def)
    qed
    show "szx_values p (?f s) = szx_values p (if p = IF1_part then T else s)" if "szx_ready T s" for s p
      using active custom drives d that by (cases p) (auto simp: if1_flags_def flag_set_def flags_or or_is_0 flag_if_def if1_drives_back)
  qed
qed

section \<open>Opus Discovery and +D\<close>

lemma flag_zero: "flag_bits x f = 0 \<longleftrightarrow> x AND f = 0" "flag_set x f = 0 \<longleftrightarrow> x AND f = 0"
  by (simp_all add: flag_bits_def flag_set_def unsigned_eq_0_iff)

text \<open>The ROM and the RAM are both deflated, or neither is.\<close>

lemma disk_packed:
  assumes z: "zlib_lossless z" "compress = 0 \<or> compress = 1"
    and rom: "length rom < 2 ^ 31" "n = of_nat (length rom)" and ram: "length ram < 2 ^ 31" "k = of_nat (length ram)"
  shows "\<exists>mo ma c. szx_disk_memory junk z rom n (Some ram) k compress = Some (mo, ma, c) \<and>
    szx_packed z rom mo c \<and> szx_packed z ram ma c"
proof -
  obtain mo co where mo: "compress_data junk z (libspectrum_buffer_alloc junk) (Some rom) n compress = Some (mo, co)"
    "szx_packed z rom mo co" "co \<longrightarrow> compress \<noteq> 0"
    using compress_packed [OF z(1) rom z(2)] by blast
  obtain ma ca where ma: "compress_data junk z (libspectrum_buffer_alloc junk) (Some ram) k compress = Some (ma, ca)"
    "szx_packed z ram ma ca" "ca \<longrightarrow> compress \<noteq> 0"
    using compress_packed [OF z(1) ram z(2)] by blast
  have again: "\<exists>m'. libspectrum_buffer_write junk (m\<lparr>bytes_used := 0\<rparr>) d (of_nat (length d)) = Some m' \<and> szx_packed z d m' False"
    if m: "szx_packed z d m c" and d: "length d < 2 ^ 31" for m d c
  proof -
    have b: "buffer_ok (m\<lparr>bytes_used := 0\<rparr>)" "contents (m\<lparr>bytes_used := 0\<rparr>) = []"
      using cleared_ok [of m] m by (auto simp: szx_packed_def)
    obtain m' where "libspectrum_buffer_write junk (m\<lparr>bytes_used := 0\<rparr>) d (of_nat (length d)) = Some m'"
      "contents m' = contents (m\<lparr>bytes_used := 0\<rparr>) @ d" "has_room m' (2 ^ 32 - length d)"
      using buf.puts_result [OF buf.puts_emit empty_has_room [OF b, of "2 ^ 32"], of d junk] d by auto
    then show ?thesis using b(2) by (auto simp: szx_packed_def has_room_def)
  qed
  show ?thesis
  proof (cases "compress \<noteq> 0 \<and> \<not> (co \<and> ca)")
    case True
    then show ?thesis
      using again [OF mo(2) rom(1)] again [OF ma(2) ram(1)] mo(1) ma(1) rom(2) ram(2)
      by (auto simp: szx_disk_memory_def libspectrum_buffer_clear_def)
  next
    case False
    then have "co = ca" using mo(3) ma(3) by blast
    then show ?thesis using False mo ma by (auto simp: szx_disk_memory_def)
  qed
qed

lemma disk_memory_back:
  assumes z: "zlib_lossless z" and rom: "szx_packed z rom mo c" "length rom < 2 ^ 31" "contents mo \<noteq> []"
    and ram: "szx_packed z ram ma c" "length ram < 2 ^ 31" and pre: "length pre = header"
  shows "szx_read_disk_memory z header (length ram) (length rom) c custom (length (contents ma))
      (if custom then length (contents mo) else 0) (pre @ contents ma @ (if custom then contents mo else []) @ rest)
      (header + length (contents ma) + (if custom then length (contents mo) else 0)) =
    Some (ERROR_NONE, Some ram, if custom then Some rom else None,
      header + length (contents ma) + (if custom then length (contents mo) else 0))"
proof (cases c)
  case True
  have "szx_inflate z (contents ma @ r) (length (contents ma)) (length ram) = Some (ERROR_NONE, ram)"
    "szx_inflate z (contents mo @ r) (length (contents mo)) (length rom) = Some (ERROR_NONE, rom)" for r
    using packed_inflates(2) [OF z, of ram ma r] packed_inflates(2) [OF z, of rom mo r] rom ram True by auto
  then show ?thesis using True pre rom(3) by (cases custom) (simp_all add: szx_read_disk_memory_def)
next
  case False
  then have "contents ma = ram" "contents mo = rom" using rom(1) ram(1) by (simp_all add: szx_packed_def)
  then show ?thesis using False pre by (cases custom) (simp_all add: szx_read_disk_memory_def copy_out_def)
qed

lemma data_size_as_dword:
  assumes "szx_packed z d m c" "length d < 2 ^ 31"
  shows "(ucast (libspectrum_buffer_get_data_size (Some m)) :: dword) = of_nat (length (contents m))"
    "unat (of_nat (length (contents m)) :: dword) = length (contents m)"
  using size_as_dword [of m] assms by (simp_all add: szx_packed_def)

definition opus_flags :: "libspectrum_snap \<Rightarrow> bool \<Rightarrow> dword" where
  "opus_flags T c =
     (flag_if (snap_opus_paged T \<noteq> 0) ZXSTOPUSF_PAGED OR flag_if c ZXSTOPUSF_COMPRESSED OR
      flag_if (snap_opus_direction T = 0) ZXSTOPUSF_SEEKLOWER OR flag_if (snap_opus_custom_rom T \<noteq> 0) ZXSTOPUSF_CUSTOMROM)"

lemma opus_bits: "opus_flags T c AND ZXSTOPUSF_COMPRESSED \<noteq> 0 \<longleftrightarrow> c"
  "opus_flags T c AND ZXSTOPUSF_CUSTOMROM \<noteq> 0 \<longleftrightarrow> snap_opus_custom_rom T \<noteq> 0"
  by (simp_all add: opus_flags_def flags_or or_is_0 flag_if_def)

lemma opus_step:
  assumes z: "zlib_lossless z" "compress = 0 \<or> compress = 1" "zlib_header z" and active: "snap_opus_active T \<noteq> 0"
    and drives: "0 \<le> snap_opus_drive_count T" "snap_opus_drive_count T < 256"
    and rom: "snap_opus_rom T = Some rom" "length rom = 0x2000" and ram: "snap_opus_ram T = Some ram" "length ram = 0x800"
  shows "szx_step z T (2 ^ 32) (\<lambda>p. p = OPUS_part) (write_opus_chunk junk z T compress)"
proof -
  let ?custom = "snap_opus_custom_rom T \<noteq> 0"
  have "\<exists>mo ma c. szx_disk_memory junk z rom 0x2000 (Some ram) 0x800 compress = Some (mo, ma, c) \<and>
      szx_packed z rom mo c \<and> szx_packed z ram ma c"
    by (rule disk_packed [OF z(1,2)]) (simp_all add: rom(2) ram(2))
  then obtain mo ma c where m: "szx_disk_memory junk z rom 0x2000 (Some ram) 0x800 compress = Some (mo, ma, c)"
    "szx_packed z rom mo c" "szx_packed z ram ma c"
    by blast
  have "rom \<noteq> []" using rom(2) by auto
  then have some: "contents mo \<noteq> []" using packed_nonempty [OF z(3) m(2)] by blast
  have dw: "(ucast (libspectrum_buffer_get_data_size (Some ma)) :: dword) = of_nat (length (contents ma))"
    "unat (of_nat (length (contents ma)) :: dword) = length (contents ma)"
    "(ucast (libspectrum_buffer_get_data_size (Some mo)) :: dword) = of_nat (length (contents mo))"
    "unat (of_nat (length (contents mo)) :: dword) = length (contents mo)"
    using data_size_as_dword [OF m(2)] data_size_as_dword [OF m(3)] rom(2) ram(2) by simp_all
  let ?n = "if ?custom then length (contents mo) else 0"
  let ?items = "[Put_dword (opus_flags T c), Put_dword (of_nat (length (contents ma))), Put_dword (of_nat ?n),
    Put_byte (snap_opus_control_a T), Put_byte (snap_opus_data_reg_a T), Put_byte (snap_opus_data_dir_a T),
    Put_byte (snap_opus_control_b T), Put_byte (snap_opus_data_reg_b T), Put_byte (snap_opus_data_dir_b T),
    Put_byte (of_int (snap_opus_drive_count T)), Put_byte (snap_opus_track T),
    Put_byte (snap_opus_sector T), Put_byte (snap_opus_data T), Put_byte (snap_opus_status T),
    Put_buffer ma] @ (if ?custom then [Put_buffer mo] else [])"
  let ?pre = "dword_bytes (opus_flags T c) @ dword_bytes (of_nat (length (contents ma))) @ dword_bytes (of_nat ?n) @
    [snap_opus_control_a T, snap_opus_data_reg_a T, snap_opus_data_dir_a T, snap_opus_control_b T, snap_opus_data_reg_b T,
     snap_opus_data_dir_b T, of_int (snap_opus_drive_count T), snap_opus_track T, snap_opus_sector T, snap_opus_data T,
     snap_opus_status T]"
  let ?f = "\<lambda>s. s\<lparr>snap_opus_active := 1, snap_opus_paged := flag_bits (opus_flags T c) ZXSTOPUSF_PAGED,
    snap_opus_direction := (if opus_flags T c AND ZXSTOPUSF_SEEKLOWER \<noteq> 0 then 0 else 1),
    snap_opus_custom_rom := flag_set (opus_flags T c) ZXSTOPUSF_CUSTOMROM,
    snap_opus_control_a := snap_opus_control_a T, snap_opus_data_reg_a := snap_opus_data_reg_a T,
    snap_opus_data_dir_a := snap_opus_data_dir_a T, snap_opus_control_b := snap_opus_control_b T,
    snap_opus_data_reg_b := snap_opus_data_reg_b T, snap_opus_data_dir_b := snap_opus_data_dir_b T,
    snap_opus_drive_count := snap_opus_drive_count T, snap_opus_track := snap_opus_track T,
    snap_opus_sector := snap_opus_sector T, snap_opus_data := snap_opus_data T, snap_opus_status := snap_opus_status T,
    snap_opus_ram := Some ram, snap_opus_rom := (if ?custom then Some rom else None)\<rparr>"
  have w: "write_opus_chunk junk z T compress = put_step (szx_put_chunk junk ''OPUS'' ?items)"
    by (intro ext) (simp add: write_opus_chunk_def rom(1) ram(1) m(1) dw opus_flags_def map_conv_bind_option comp_def)
  have bytes: "items_bytes ?items @ rest = ?pre @ contents ma @ (if ?custom then contents mo else []) @ rest" for rest by simp
  have len: "length (items_bytes ?items) = 23 + length (contents ma) + ?n" by simp
  have size: "unat (of_nat ?n :: dword) = ?n" using dw(4) by simp
  show ?thesis
    unfolding w
  proof (rule chunk_step [where f = ?f, OF szx_chunk_readers(16)])
    show "length ''OPUS'' \<le> 4 \<and> (\<forall>x \<in> set ?items. item_ok x) \<and> length (items_bytes ?items) < 2 ^ 31"
      using m(2,3) rom(2) ram(2) by (auto simp: szx_packed_def)
    show "szx_ready T (?f s) \<and> read_opus_chunk z s 0x0105 (items_bytes ?items @ rest) (length (items_bytes ?items)) False =
        Some (ERROR_NONE, ?f s, False, rest)" if "szx_ready T s" for s rest
    proof -
      obtain buf where buf: "buf = ?pre @ contents ma @ (if ?custom then contents mo else []) @ rest" by simp
      obtain n where n: "n = ?n" by simp
      have mem: "szx_read_disk_memory z 23 0x800 0x2000 c ?custom (length (contents ma)) n buf (23 + length (contents ma) + n) =
          Some (ERROR_NONE, Some ram, if ?custom then Some rom else None, 23 + length (contents ma) + n)"
        using disk_memory_back [OF z(1) m(2) _ some m(3), of ?pre 23 ?custom rest] rom(2) ram(2) by (simp add: buf n)
      have fields: "le32 buf 0 = opus_flags T c" "le32 buf 4 = of_nat (length (contents ma))" "le32 buf 8 = of_nat n"
        "drop (23 + length (contents ma) + n) buf = rest"
        by (simp_all add: buf n szx_field_simps drop_cell)
      have enough: "snap_opus_custom_rom T = 0 \<or> 0 < n" using some n by simp
      have nths: "map (\<lambda>i. buf ! i) [12..<23] = drop 12 ?pre" by (simp add: buf upt_rec nth_append)
      have "read_opus_chunk z s 0x0105 buf (23 + length (contents ma) + n) False = Some (ERROR_NONE, ?f s, False, rest)"
        using drives nths size
        by (simp add: read_opus_chunk_def enough fields mem dw(2) opus_bits n [symmetric] Let_def flag_bit uint_of_byte upt_rec)
      then show ?thesis
        unfolding bytes len unfolding buf [symmetric] unfolding n [symmetric] using that by (simp add: szx_ready_def joysticks_ok_def)
    qed
    show "szx_values p (?f s) = szx_values p (if p = OPUS_part then T else s)" if "szx_ready T s" for s p
      using active rom(1) ram(1) by (cases p) (auto simp: opus_flags_def flag_zero flags_or or_is_0 flag_if_def)
  qed
qed

definition plsd_flags :: "libspectrum_snap \<Rightarrow> bool \<Rightarrow> dword" where
  "plsd_flags T c =
     (flag_if (snap_plusd_paged T \<noteq> 0) ZXSTPLUSDF_PAGED OR flag_if c ZXSTPLUSDF_COMPRESSED OR
      flag_if (snap_plusd_direction T = 0) ZXSTPLUSDF_SEEKLOWER)"

lemma plsd_bits: "plsd_flags T c AND ZXSTPLUSDF_COMPRESSED \<noteq> 0 \<longleftrightarrow> c"
  by (simp_all add: plsd_flags_def flags_or or_is_0 flag_if_def)

lemma plsd_step:
  assumes z: "zlib_lossless z" "compress = 0 \<or> compress = 1" "zlib_header z" and active: "snap_plusd_active T \<noteq> 0"
    and drives: "0 \<le> snap_plusd_drive_count T" "snap_plusd_drive_count T < 256"
    and rom: "snap_plusd_rom T = Some rom" "length rom = 0x2000" and ram: "snap_plusd_ram T = Some ram" "length ram = 0x2000"
  shows "szx_step z T (2 ^ 32) (\<lambda>p. p = PLSD_part) (write_plsd_chunk junk z T compress)"
proof -
  let ?custom = "snap_plusd_custom_rom T \<noteq> 0"
  have "\<exists>mo ma c. szx_disk_memory junk z rom 0x2000 (Some ram) 0x2000 compress = Some (mo, ma, c) \<and>
      szx_packed z rom mo c \<and> szx_packed z ram ma c"
    by (rule disk_packed [OF z(1,2)]) (simp_all add: rom(2) ram(2))
  then obtain mo ma c where m: "szx_disk_memory junk z rom 0x2000 (Some ram) 0x2000 compress = Some (mo, ma, c)"
    "szx_packed z rom mo c" "szx_packed z ram ma c"
    by blast
  have "rom \<noteq> []" using rom(2) by auto
  then have some: "contents mo \<noteq> []" using packed_nonempty [OF z(3) m(2)] by blast
  have dw: "(ucast (libspectrum_buffer_get_data_size (Some ma)) :: dword) = of_nat (length (contents ma))"
    "unat (of_nat (length (contents ma)) :: dword) = length (contents ma)"
    "(ucast (libspectrum_buffer_get_data_size (Some mo)) :: dword) = of_nat (length (contents mo))"
    "unat (of_nat (length (contents mo)) :: dword) = length (contents mo)"
    using data_size_as_dword [OF m(2)] data_size_as_dword [OF m(3)] rom(2) ram(2) by simp_all
  let ?rom_type = "if ?custom then ZXSTPDRT_CUSTOM else ZXSTPDRT_GDOS"
  let ?n = "if ?custom then length (contents mo) else 0"
  let ?items = "[Put_dword (plsd_flags T c), Put_dword (of_nat (length (contents ma))), Put_dword (of_nat ?n),
    Put_byte ?rom_type, Put_byte (snap_plusd_control T),
    Put_byte (of_int (snap_plusd_drive_count T)), Put_byte (snap_plusd_track T),
    Put_byte (snap_plusd_sector T), Put_byte (snap_plusd_data T), Put_byte (snap_plusd_status T),
    Put_buffer ma] @ (if ?custom then [Put_buffer mo] else [])"
  let ?pre = "dword_bytes (plsd_flags T c) @ dword_bytes (of_nat (length (contents ma))) @ dword_bytes (of_nat ?n) @
    [?rom_type, snap_plusd_control T, of_int (snap_plusd_drive_count T), snap_plusd_track T, snap_plusd_sector T, snap_plusd_data T,
     snap_plusd_status T]"
  let ?f = "\<lambda>s. s\<lparr>snap_plusd_active := 1, snap_plusd_paged := flag_bits (plsd_flags T c) ZXSTPLUSDF_PAGED,
    snap_plusd_direction := (if plsd_flags T c AND ZXSTPLUSDF_SEEKLOWER \<noteq> 0 then 0 else 1),
    snap_plusd_custom_rom := (if ?custom then 1 else 0),
    snap_plusd_control := snap_plusd_control T,
    snap_plusd_drive_count := snap_plusd_drive_count T, snap_plusd_track := snap_plusd_track T,
    snap_plusd_sector := snap_plusd_sector T, snap_plusd_data := snap_plusd_data T, snap_plusd_status := snap_plusd_status T,
    snap_plusd_ram := Some ram, snap_plusd_rom := (if ?custom then Some rom else None)\<rparr>"
  have w: "write_plsd_chunk junk z T compress = put_step (szx_put_chunk junk ''PLSD'' ?items)"
    by (intro ext) (simp add: write_plsd_chunk_def rom(1) ram(1) m(1) dw plsd_flags_def map_conv_bind_option comp_def)
  have bytes: "items_bytes ?items @ rest = ?pre @ contents ma @ (if ?custom then contents mo else []) @ rest" for rest by simp
  have len: "length (items_bytes ?items) = 19 + length (contents ma) + ?n" by simp
  have size: "unat (of_nat ?n :: dword) = ?n" using dw(4) by simp
  show ?thesis
    unfolding w
  proof (rule chunk_step [where f = ?f, OF szx_chunk_readers(18)])
    show "length ''PLSD'' \<le> 4 \<and> (\<forall>x \<in> set ?items. item_ok x) \<and> length (items_bytes ?items) < 2 ^ 31"
      using m(2,3) rom(2) ram(2) by (auto simp: szx_packed_def)
    show "szx_ready T (?f s) \<and> read_plsd_chunk z s 0x0105 (items_bytes ?items @ rest) (length (items_bytes ?items)) False =
        Some (ERROR_NONE, ?f s, False, rest)" if "szx_ready T s" for s rest
    proof -
      obtain buf where buf: "buf = ?pre @ contents ma @ (if ?custom then contents mo else []) @ rest" by simp
      obtain n where n: "n = ?n" by simp
      have mem: "szx_read_disk_memory z 19 0x2000 0x2000 c ?custom (length (contents ma)) n buf (19 + length (contents ma) + n) =
          Some (ERROR_NONE, Some ram, if ?custom then Some rom else None, 19 + length (contents ma) + n)"
        using disk_memory_back [OF z(1) m(2) _ some m(3), of ?pre 19 ?custom rest] rom(2) ram(2) by (simp add: buf n)
      have fields: "le32 buf 0 = plsd_flags T c" "le32 buf 4 = of_nat (length (contents ma))" "le32 buf 8 = of_nat n"
        "drop (19 + length (contents ma) + n) buf = rest"
        by (simp_all add: buf n szx_field_simps drop_cell)
      have enough: "snap_plusd_custom_rom T = 0 \<or> 0 < n" using some n by simp
      have nths: "map (\<lambda>i. buf ! i) [13..<19] = drop 13 ?pre" by (simp add: buf upt_rec nth_append)
      have kind: "buf ! 12 = ZXSTPDRT_CUSTOM \<longleftrightarrow> ?custom" by (simp add: buf nth_append)
      have "read_plsd_chunk z s 0x0105 buf (19 + length (contents ma) + n) False = Some (ERROR_NONE, ?f s, False, rest)"
        using drives nths size
        by (simp add: read_plsd_chunk_def kind enough fields mem dw(2) plsd_bits n [symmetric] Let_def flag_bit uint_of_byte upt_rec)
      then show ?thesis
        unfolding bytes len unfolding buf [symmetric] unfolding n [symmetric] using that by (simp add: szx_ready_def joysticks_ok_def)
    qed
    show "szx_values p (?f s) = szx_values p (if p = PLSD_part then T else s)" if "szx_ready T s" for s p
      using active rom(1) ram(1) by (cases p) (auto simp: plsd_flags_def flag_zero flags_or or_is_0 flag_if_def)
  qed
qed


end
