(* ===== verification/Szx_Joysticks.thy ===== *)
theory Szx_Joysticks
  imports Szx_Disks
begin

text \<open>
  The steps of the .szx writer that write the joysticks and the keyboard. The format has a joystick
  for each of two connectors and one for the keyboard, so that the list of joysticks is not a part
  that survives; what survives is that it is a list of different joysticks that fits its array.
\<close>

section \<open>Reading joysticks\<close>

definition joysticks_added :: "libspectrum_snap \<Rightarrow> libspectrum_snap \<Rightarrow> bool" where
  "joysticks_added s s' \<longleftrightarrow> joysticks_ok s' \<and>
     (\<exists>l i n. s' = s\<lparr>snap_joystick_list := l, snap_joystick_inputs := i, snap_joystick_active_count := n\<rparr>)"

lemma joysticks_added_ok: "joysticks_added s s' \<Longrightarrow> joysticks_ok s'"
  by (simp add: joysticks_added_def)

lemma joysticks_addedI:
  "joysticks_ok (s\<lparr>snap_joystick_list := l, snap_joystick_inputs := i, snap_joystick_active_count := n\<rparr>) \<Longrightarrow>
   joysticks_added s (s\<lparr>snap_joystick_list := l, snap_joystick_inputs := i, snap_joystick_active_count := n\<rparr>)"
  unfolding joysticks_added_def by blast

lemma joysticks_added_refl: "joysticks_ok s \<Longrightarrow> joysticks_added s s"
  using joysticks_addedI [where s = s and l = "snap_joystick_list s" and i = "snap_joystick_inputs s" and
    n = "snap_joystick_active_count s"] by simp

lemma joysticks_added_trans:
  assumes "joysticks_added a b" "joysticks_added b c"
  shows "joysticks_added a c"
proof -
  obtain l i n where b: "b = a\<lparr>snap_joystick_list := l, snap_joystick_inputs := i, snap_joystick_active_count := n\<rparr>"
    using assms(1) unfolding joysticks_added_def by blast
  obtain l' i' n' where c: "c = b\<lparr>snap_joystick_list := l', snap_joystick_inputs := i', snap_joystick_active_count := n'\<rparr>" "joysticks_ok c"
    using assms(2) unfolding joysticks_added_def by blast
  then have "c = a\<lparr>snap_joystick_list := l', snap_joystick_inputs := i', snap_joystick_active_count := n'\<rparr>" using b by simp
  then show ?thesis using c(2) unfolding joysticks_added_def by blast
qed

lemma joysticks_added_keeps:
  assumes "joysticks_added s s'" "szx_ready T s"
  shows "szx_ready T s'" "szx_values p s' = szx_values p s"
proof -
  obtain l i n where s': "s' = s\<lparr>snap_joystick_list := l, snap_joystick_inputs := i, snap_joystick_active_count := n\<rparr>" "joysticks_ok s'"
    using assms(1) unfolding joysticks_added_def by blast
  show "szx_ready T s'" using assms(2) s' by (simp add: szx_ready_def)
  show "szx_values p s' = szx_values p s" unfolding s'(1) by (cases p) simp_all
qed

lemma add_joystick_loop_result:
  assumes "i + n \<le> length (snap_joystick_list s)" "length (snap_joystick_inputs s) = length (snap_joystick_list s)"
  shows "\<exists>found. add_joystick_loop s t inputs i n = Some found \<and>
    (found = None \<longrightarrow> t \<notin> set (take n (drop i (snap_joystick_list s)))) \<and>
    (\<forall>s'. found = Some s' \<longrightarrow> (\<exists>new. length new = length (snap_joystick_inputs s) \<and> s' = s\<lparr>snap_joystick_inputs := new\<rparr>))"
  using assms
proof (induction n arbitrary: i)
  case 0
  then show ?case by simp
next
  case (Suc n)
  have i: "i < length (snap_joystick_list s)" using Suc.prems by simp
  show ?case
  proof (cases "snap_joystick_list s ! i = t")
    case True
    let ?new = "(snap_joystick_inputs s)[i := inputs OR snap_joystick_inputs s ! i]"
    have "add_joystick_loop s t inputs i (Suc n) = Some (Some (s\<lparr>snap_joystick_inputs := ?new\<rparr>))"
      using True i Suc.prems by (simp add: nget_def nset_def)
    moreover have "length ?new = length (snap_joystick_inputs s)" by simp
    ultimately show ?thesis by blast
  next
    case False
    have "take (Suc n) (drop i (snap_joystick_list s)) = snap_joystick_list s ! i # take n (drop (i + 1) (snap_joystick_list s))"
      using i by (simp add: Cons_nth_drop_Suc [symmetric])
    then have tail: "t \<notin> set (take n (drop (i + 1) (snap_joystick_list s))) \<Longrightarrow> t \<notin> set (take (Suc n) (drop i (snap_joystick_list s)))"
      using False by auto
    have next_i: "(i + 1) + n \<le> length (snap_joystick_list s)" using Suc.prems(1) by simp
    obtain found where found: "add_joystick_loop s t inputs (i + 1) n = Some found"
      "found = None \<longrightarrow> t \<notin> set (take n (drop (i + 1) (snap_joystick_list s)))"
      "\<forall>s'. found = Some s' \<longrightarrow> (\<exists>new. length new = length (snap_joystick_inputs s) \<and> s' = s\<lparr>snap_joystick_inputs := new\<rparr>)"
      using Suc.IH [OF next_i Suc.prems(2)] by blast
    have "add_joystick_loop s t inputs i (Suc n) = Some found" using found(1) False i by (simp add: nget_def)
    then show ?thesis using found(2,3) tail by blast
  qed
qed

lemma szx_joysticks_seven: "card (snd ` set szx_joysticks) = 7"
  by (simp add: szx_joysticks_def)

lemma add_joystick_ok:
  assumes ok: "joysticks_ok s" and j: "j \<in> snd ` set szx_joysticks"
  shows "\<exists>s'. add_joystick s j inputs = Some s' \<and> joysticks_added s s'"
proof -
  let ?k = "unat (snap_joystick_active_count s)"
  let ?l = "snap_joystick_list s"
  have lens: "length ?l = 7" "length (snap_joystick_inputs s) = 7" "?k \<le> 7" "distinct (take ?k ?l)"
    "set (take ?k ?l) \<subseteq> snd ` set szx_joysticks"
    using ok by (simp_all add: joysticks_ok_def)
  obtain found where found: "add_joystick_loop s j inputs 0 ?k = Some found" "found = None \<longrightarrow> j \<notin> set (take ?k ?l)"
    "\<forall>s'. found = Some s' \<longrightarrow> (\<exists>new. length new = length (snap_joystick_inputs s) \<and> s' = s\<lparr>snap_joystick_inputs := new\<rparr>)"
    using add_joystick_loop_result [of 0 ?k s j inputs] lens by auto
  show ?thesis
  proof (cases found)
    case (Some s')
    then obtain new where new: "length new = 7" "s' = s\<lparr>snap_joystick_inputs := new\<rparr>" using found(3) lens by auto
    have "joysticks_added s s'"
      using joysticks_addedI [where s = s and l = ?l and i = new and n = "snap_joystick_active_count s"] ok new by (simp add: joysticks_ok_def)
    then show ?thesis using found(1) Some by (simp add: add_joystick_def)
  next
    case None
    then have new: "j \<notin> set (take ?k ?l)" using found(2) by simp
    have "card (set (take ?k ?l)) = ?k" using lens by (simp add: distinct_card)
    moreover have "card (set (take ?k ?l)) < 7"
      using psubset_card_mono [of "snd ` set szx_joysticks" "set (take ?k ?l)"] lens(5) j new szx_joysticks_seven by auto
    ultimately have k: "?k < 7" by simp
    then have next_k: "unat (snap_joystick_active_count s + 1) = ?k + 1"
      by (simp add: unat_word_ariths)
    have "take (?k + 1) (?l[?k := j]) = take ?k ?l @ [j]" using k lens(1) by (simp add: take_Suc_conv_app_nth)
    then have "joysticks_ok (s\<lparr>snap_joystick_list := ?l[?k := j], snap_joystick_inputs := (snap_joystick_inputs s)[?k := inputs],
        snap_joystick_active_count := snap_joystick_active_count s + 1\<rparr>)"
      unfolding joysticks_ok_def using k lens j new next_k by simp
    from joysticks_addedI [OF this] show ?thesis
      using found(1) None k lens by (simp add: add_joystick_def nset_def Let_def)
  qed
qed

lemma szx_add_joystick_ok:
  assumes "joysticks_ok s"
  shows "\<exists>s'. szx_add_joystick s t inputs = Some s' \<and> joysticks_added s s'"
proof (cases "map_of szx_joysticks t")
  case None
  then show ?thesis using joysticks_added_refl [OF assms] by (simp add: szx_add_joystick_def)
next
  case (Some j)
  then have "j \<in> snd ` set szx_joysticks" by (force dest: map_of_SomeD)
  then show ?thesis using add_joystick_ok [OF assms] Some by (simp add: szx_add_joystick_def)
qed

section \<open>Writing them\<close>

lemma write_joystick_loop_result:
  "i + n \<le> length (snap_joystick_list T) \<Longrightarrow> i + n \<le> length (snap_joystick_inputs T) \<Longrightarrow>
   \<exists>type fl'. write_joystick_loop T connection i n found t fl = Some (type, fl')"
  by (induction n arbitrary: i found t fl) (auto simp: nget_def split: option.splits)

definition joysticks_fit :: "libspectrum_snap \<Rightarrow> bool" where
  "joysticks_fit T \<longleftrightarrow> unat (snap_joystick_active_count T) \<le> length (snap_joystick_list T) \<and>
     unat (snap_joystick_active_count T) \<le> length (snap_joystick_inputs T)"

lemma write_joystick_result:
  "joysticks_fit T \<Longrightarrow> \<exists>type fl'. write_joystick fl T connection = Some (type, fl')"
  unfolding write_joystick_def by (rule write_joystick_loop_result) (simp_all add: joysticks_fit_def)

lemma joy_written:
  assumes "joysticks_fit T"
  shows "\<exists>fl' d a b. write_joy_chunk junk fl T =
    (\<lambda>out. map_option (Pair fl') (szx_put_chunk junk ''JOY'' [Put_dword d, Put_byte a, Put_byte b] out))"
proof -
  obtain a f1 where a: "write_joystick fl T JOYSTICK_INPUT_JOYSTICK_1 = Some (a, f1)" using write_joystick_result [OF assms] by blast
  obtain b f2 where b: "write_joystick f1 T JOYSTICK_INPUT_JOYSTICK_2 = Some (b, f2)" using write_joystick_result [OF assms] by blast
  have "write_joy_chunk junk fl T = (\<lambda>out. map_option (Pair f2) (szx_put_chunk junk ''JOY'' [Put_dword (flag_if (JOYSTICK_KEMPSTON \<in>
      set (take (unat (snap_joystick_active_count T)) (snap_joystick_list T))) ZXSTJOYF_ALWAYSPORT31), Put_byte a, Put_byte b] out))"
    using assms by (intro ext) (simp add: write_joy_chunk_def a b copy_out_def joysticks_fit_def map_conv_bind_option comp_def)
  then show ?thesis by blast
qed

lemma keyb_written:
  assumes "joysticks_fit T"
  shows "\<exists>fl' a. write_keyb_chunk junk fl T = (\<lambda>out. map_option (Pair fl')
    (szx_put_chunk junk ''KEYB'' [Put_dword (flag_if (snap_issue2 T \<noteq> 0) ZXSTKF_ISSUE2), Put_byte a] out))"
proof -
  obtain a f1 where a: "write_joystick fl T JOYSTICK_INPUT_KEYBOARD = Some (a, f1)" using write_joystick_result [OF assms] by blast
  then show ?thesis by (intro exI ext) (simp add: write_keyb_chunk_def a map_conv_bind_option comp_def)
qed

section \<open>The steps\<close>

lemma joy_step: "szx_step z T (2 ^ 32) (\<lambda>p. False) (put_step (szx_put_chunk junk ''JOY'' [Put_dword d, Put_byte a, Put_byte b]))"
proof (rule step_chunk [OF _ _ _ szx_chunk_readers(12)])
  fix s assume s: "szx_ready T s"
  then have ok: "joysticks_ok s" by (simp add: szx_ready_def)
  obtain s1 where s1: "(if d AND ZXSTJOYF_ALWAYSPORT31 \<noteq> 0 then add_joystick s JOYSTICK_KEMPSTON JOYSTICK_INPUT_NONE else Some s) = Some s1"
    "joysticks_added s s1"
  proof (cases "d AND ZXSTJOYF_ALWAYSPORT31 \<noteq> 0")
    case True
    have "JOYSTICK_KEMPSTON \<in> snd ` set szx_joysticks" by (simp add: szx_joysticks_def)
    then show ?thesis using add_joystick_ok [OF ok] that True by auto
  next
    case False
    then show ?thesis using joysticks_added_refl [OF ok] that by simp
  qed
  obtain s2 where s2: "szx_add_joystick s1 a JOYSTICK_INPUT_JOYSTICK_1 = Some s2" "joysticks_added s1 s2"
    using szx_add_joystick_ok [OF joysticks_added_ok [OF s1(2)]] by blast
  obtain s3 where s3: "szx_add_joystick s2 b JOYSTICK_INPUT_JOYSTICK_2 = Some s3" "joysticks_added s2 s3"
    using szx_add_joystick_ok [OF joysticks_added_ok [OF s2(2)]] by blast
  have "joysticks_added s s3" using s1(2) s2(2) s3(2) joysticks_added_trans by blast
  then show "\<exists>s'. szx_ready T s' \<and> (\<forall>p. szx_values p s' = szx_values p (if False then T else s)) \<and>
      (\<forall>rest. read_joy_chunk s 0x0105 (items_bytes [Put_dword d, Put_byte a, Put_byte b] @ rest)
        (length (items_bytes [Put_dword d, Put_byte a, Put_byte b])) False = Some (ERROR_NONE, s', False, rest))"
    using joysticks_added_keeps [OF _ s] s1(1) s2(1) s3(1)
    by (intro exI [of _ s3]) (simp add: read_joy_chunk_def szx_field_simps)
qed simp_all

lemma keyb_step:
  "szx_step z T (2 ^ 32) (\<lambda>p. p = KEYB_part) (put_step (szx_put_chunk junk ''KEYB''
    [Put_dword (flag_if (snap_issue2 T \<noteq> 0) ZXSTKF_ISSUE2), Put_byte a]))"
proof (rule step_chunk [OF _ _ _ szx_chunk_readers(13)])
  fix s assume s: "szx_ready T s"
  let ?d = "flag_if (snap_issue2 T \<noteq> 0) ZXSTKF_ISSUE2"
  let ?s = "s\<lparr>snap_issue2 := flag_set ?d ZXSTKF_ISSUE2\<rparr>"
  have ready: "szx_ready T ?s" using s by (simp add: szx_ready_def joysticks_ok_def)
  obtain s1 where s1: "szx_add_joystick ?s a JOYSTICK_INPUT_KEYBOARD = Some s1" "joysticks_added ?s s1"
    using szx_add_joystick_ok [of ?s] ready by (auto simp: szx_ready_def)
  have "szx_values p ?s = szx_values p (if p = KEYB_part then T else s)" for p
    by (cases p) (simp_all add: flag_set_def flag_if_def)
  then show "\<exists>s'. szx_ready T s' \<and> (\<forall>p. szx_values p s' = szx_values p (if p = KEYB_part then T else s)) \<and>
      (\<forall>rest. read_keyb_chunk s 0x0105 (items_bytes [Put_dword ?d, Put_byte a] @ rest)
        (length (items_bytes [Put_dword ?d, Put_byte a])) False = Some (ERROR_NONE, s', False, rest))"
    using joysticks_added_keeps [OF s1(2) ready] s1(1)
    by (intro exI [of _ s1]) (simp add: read_keyb_chunk_def szx_field_simps Let_def)
qed simp_all

end
