(* ===== verification/Szx_Roundtrip.thy ===== *)
theory Szx_Roundtrip
  imports Szx_Joysticks
begin

text \<open>
  Writing a snapshot to a .szx file and reading it back: the steps of the writer composed, the header
  and the theorem.
\<close>

section \<open>The snapshots that can be written\<close>

definition memory_of :: "nat \<Rightarrow> byte list option \<Rightarrow> bool" where
  "memory_of n m = (case m of None \<Rightarrow> False | Some d \<Rightarrow> length d = n)"

lemma memory_ofD: "memory_of n m \<Longrightarrow> \<exists>d. m = Some d \<and> length d = n"
  by (simp add: memory_of_def split: option.splits)

definition byte_sized :: "int \<Rightarrow> bool" where
  "byte_sized i \<longleftrightarrow> 0 \<le> i \<and> i < 256"

text \<open>
  The arrays have the sizes they have in the \<open>struct\<close>, memory that is written has the size that is
  written, and numbers that are written to a byte fit in one. There is no custom ROM: the reader only
  takes the ROMs of some machines.
\<close>

definition szx_arrays_ok :: "libspectrum_snap \<Rightarrow> bool" where
  "szx_arrays_ok T \<longleftrightarrow> length (snap_pages T) = 16 \<and> length (snap_ay_registers T) = 16 \<and> length (snap_zxatasp_ram T) = 32 \<and>
     length (snap_zxcf_ram T) = 64 \<and> length (snap_exrom_cart T) = 8 \<and> length (snap_exrom_ram T) = 8 \<and>
     length (snap_dock_cart T) = 8 \<and> length (snap_dock_ram T) = 8 \<and> length (snap_divide_ram T) = 4 \<and>
     length (snap_divmmc_ram T) = 64 \<and> joysticks_fit T \<and>
     pages_of 0x4000 (snap_pages T) \<and> pages_of 0x4000 (snap_zxatasp_ram T) \<and> pages_of 0x4000 (snap_zxcf_ram T) \<and>
     pages_of 0x2000 (snap_exrom_cart T) \<and> pages_of 0x2000 (snap_dock_cart T) \<and> pages_of 0x2000 (snap_divide_ram T) \<and>
     pages_of 0x2000 (snap_divmmc_ram T)"

definition szx_disks_ok :: "libspectrum_snap \<Rightarrow> bool" where
  "szx_disks_ok T \<longleftrightarrow>
     (snap_beta_active T \<noteq> 0 \<longrightarrow> byte_sized (snap_beta_drive_count T) \<and>
        (snap_beta_custom_rom T \<noteq> 0 \<longrightarrow> memory_of 0x4000 (snap_beta_rom T))) \<and>
     (snap_interface1_active T \<noteq> 0 \<longrightarrow> byte_sized (snap_interface1_drive_count T) \<and>
        (snap_interface1_custom_rom T \<noteq> 0 \<longrightarrow> snap_interface1_rom_length T \<in> set [0x2000, 0x4000] \<and>
           memory_of (unat (snap_interface1_rom_length T)) (snap_interface1_rom T))) \<and>
     (snap_opus_active T \<noteq> 0 \<longrightarrow> byte_sized (snap_opus_drive_count T) \<and> memory_of 0x2000 (snap_opus_rom T) \<and>
        memory_of 0x800 (snap_opus_ram T)) \<and>
     (snap_plusd_active T \<noteq> 0 \<longrightarrow> byte_sized (snap_plusd_drive_count T) \<and> memory_of 0x2000 (snap_plusd_rom T) \<and>
        memory_of 0x2000 (snap_plusd_ram T))"

definition szx_devices_ok :: "'s zlib \<Rightarrow> libspectrum_snap \<Rightarrow> bool" where
  "szx_devices_ok z T \<longleftrightarrow>
     (snap_zxatasp_active T \<noteq> 0 \<longrightarrow> snap_zxatasp_pages T \<le> 32 \<and> snap_zxatasp_current_page T < 256) \<and>
     (snap_zxcf_active T \<noteq> 0 \<longrightarrow> snap_zxcf_pages T \<le> 64) \<and>
     (snap_interface2_active T \<noteq> 0 \<longrightarrow> memory_of 0x4000 (snap_interface2_rom T) \<and>
        (case libspectrum_zlib_compress z (the (snap_interface2_rom T)) of (error, gz) \<Rightarrow> error = ERROR_NONE \<and> length gz < 2 ^ 30)) \<and>
     (snap_divide_active T \<noteq> 0 \<longrightarrow> memory_of 0x2000 (snap_divide_eprom T) \<and> snap_divide_pages T \<le> 4) \<and>
     (snap_divmmc_active T \<noteq> 0 \<longrightarrow> memory_of 0x2000 (snap_divmmc_eprom T) \<and> snap_divmmc_pages T \<le> 64) \<and>
     (snap_spectranet_active T \<noteq> 0 \<longrightarrow> byte_sized (snap_spectranet_page_a T) \<and> byte_sized (snap_spectranet_page_b T) \<and>
        memory_of 0x30 (snap_spectranet_w5100 T) \<and> memory_of 0x20000 (snap_spectranet_flash T) \<and>
        memory_of 0x20000 (snap_spectranet_ram T)) \<and>
     (snap_multiface_active T \<noteq> 0 \<longrightarrow> snap_multiface_ram_length T \<in> set [0x2000, 0x4000] \<and>
        memory_of (unat (snap_multiface_ram_length T)) (snap_multiface_ram T)) \<and>
     (snap_ulaplus_active T \<noteq> 0 \<longrightarrow> memory_of 64 (snap_ulaplus_palette T))"

definition szx_writable :: "'s zlib \<Rightarrow> libspectrum_snap \<Rightarrow> bool" where
  "szx_writable z T \<longleftrightarrow> list_ex (\<lambda>(n, m). m = snap_machine T) szx_machines \<and>
     snap_machine T \<notin> set [MACHINE_PENT512, MACHINE_PENT1024] \<and> snap_custom_rom T = 0 \<and>
     szx_arrays_ok T \<and> szx_disks_ok T \<and> szx_devices_ok z T"

section \<open>The devices\<close>

lemma steps_all:
  "list_all2 (szx_step z T L) Ps fs \<Longrightarrow> szx_step z T (length fs * L) (\<lambda>p. \<exists>P \<in> set Ps. P p) (write_steps fs)"
proof (induction Ps fs rule: list_all2_induct)
  case Nil
  then show ?case using steps_Nil by (simp del: write_steps.simps)
next
  case (Cons P Ps f fs)
  then show ?case using steps_Cons [OF Cons(1,3)] by (simp del: write_steps.simps)
qed

lemma step_always: "szx_step z T (2 ^ 32) P (put_step f) \<Longrightarrow> szx_step z T (2 ^ 40) P (put_step f)"
  by (erule step_weaken) simp_all

lemma device_step:
  assumes "c \<Longrightarrow> szx_step z T (2 ^ 32) P (put_step f)"
  shows "szx_step z T (2 ^ 40) (\<lambda>p. c \<and> P p) (write_if c f)"
  by (rule step_weaken [OF step_if [OF assms]]) simp_all

lemma failing_step:
  assumes "c \<Longrightarrow> szx_step z T (2 ^ 32) P f"
  shows "szx_step z T (2 ^ 40) (\<lambda>p. c \<and> P p) (write_or_fail c f)"
  by (rule step_weaken [OF step_or_fail [OF assms]]) simp_all

lemma pages_step:
  assumes "\<And>i. c \<Longrightarrow> i \<in> set is \<Longrightarrow> szx_step z T (2 ^ 33) (P i) (put_step (f i))" "c \<Longrightarrow> length is \<le> 100"
  shows "szx_step z T (2 ^ 40) (\<lambda>p. c \<and> (\<exists>i \<in> set is. P i p)) (write_if c (write_each f is))"
proof (rule step_if)
  assume c
  then have "szx_step z T (length is * 2 ^ 33) (\<lambda>p. \<exists>i \<in> set is. P i p) (put_step (write_each f is))"
    by (intro each_step assms(1))
  moreover have "length is * 2 ^ 33 \<le> 2 ^ 40" using assms(2) [OF \<open>c\<close>] by simp
  ultimately show "szx_step z T (2 ^ 40) (\<lambda>p. \<exists>i \<in> set is. P i p) (put_step (write_each f is))"
    by (rule step_weaken) simp
qed

lemma wider: "szx_step z T (2 ^ 32) P f \<Longrightarrow> szx_step z T (2 ^ 33) P f"
  by (erule step_weaken) simp_all

text \<open>The parts that each of the steps writes.\<close>

definition szx_device_parts :: "libspectrum_snap \<Rightarrow> (szx_part \<Rightarrow> bool) list" where
  "szx_device_parts T =
     [\<lambda>p. True \<and> (\<exists>i \<in> set (szx_page_list (snap_machine T)). p = RAM_page i \<and> snap_pages T ! i \<noteq> None),
      \<lambda>p. (snap_fuller_box_active T \<noteq> 0 \<or> snap_melodik_active T \<noteq> 0 \<or>
        libspectrum_machine_capabilities (snap_machine T) AND MACHINE_CAPABILITY_AY \<noteq> 0) \<and> p = AY_part,
      \<lambda>p. libspectrum_machine_capabilities (snap_machine T) AND (MACHINE_CAPABILITY_TIMEX_MEMORY OR MACHINE_CAPABILITY_SE_MEMORY) \<noteq> 0 \<and>
        p = SCLD_part,
      \<lambda>p. snap_beta_active T \<noteq> 0 \<and> p = B128_part,
      \<lambda>p. snap_zxatasp_active T \<noteq> 0 \<and> p = ZXAT_part,
      \<lambda>p. snap_zxatasp_active T \<noteq> 0 \<and> (\<exists>i \<in> set [0..<unat (snap_zxatasp_pages T)]. p = ATRP_page i \<and> snap_zxatasp_ram T ! i \<noteq> None),
      \<lambda>p. snap_zxcf_active T \<noteq> 0 \<and> p = ZXCF_part,
      \<lambda>p. snap_zxcf_active T \<noteq> 0 \<and> (\<exists>i \<in> set [0..<unat (snap_zxcf_pages T)]. p = CFRP_page i \<and> snap_zxcf_ram T ! i \<noteq> None),
      \<lambda>p. snap_interface2_active T \<noteq> 0 \<and> p = IF2R_part,
      \<lambda>p. snap_dock_active T \<noteq> 0 \<and> (\<exists>i \<in> set [0..<8]. (p = EXROM_page i \<or> p = DOCK_part) \<and> snap_exrom_cart T ! i \<noteq> None \<or>
        (p = DOCK_page i \<or> p = DOCK_part) \<and> snap_dock_cart T ! i \<noteq> None),
      \<lambda>p. snap_interface1_active T \<noteq> 0 \<and> p = IF1_part,
      \<lambda>p. snap_opus_active T \<noteq> 0 \<and> p = OPUS_part,
      \<lambda>p. snap_plusd_active T \<noteq> 0 \<and> p = PLSD_part,
      \<lambda>p. snap_kempston_mouse_active T \<noteq> 0 \<and> p = AMXM_part,
      \<lambda>p. snap_simpleide_active T \<noteq> 0 \<and> p = SIDE_part,
      \<lambda>p. snap_specdrum_active T \<noteq> 0 \<and> p = DRUM_part,
      \<lambda>p. snap_divide_active T \<noteq> 0 \<and> p = DIDE_part,
      \<lambda>p. snap_divide_active T \<noteq> 0 \<and> (\<exists>i \<in> set [0..<unat (snap_divide_pages T)]. p = DIRP_page i \<and> snap_divide_ram T ! i \<noteq> None),
      \<lambda>p. snap_divmmc_active T \<noteq> 0 \<and> p = DMMC_part,
      \<lambda>p. snap_divmmc_active T \<noteq> 0 \<and> (\<exists>i \<in> set [0..<unat (snap_divmmc_pages T)]. p = DMRP_page i \<and> snap_divmmc_ram T ! i \<noteq> None),
      \<lambda>p. snap_spectranet_active T \<noteq> 0 \<and> p = SNET_part,
      \<lambda>p. snap_spectranet_active T \<noteq> 0 \<and> p = SNEF_part,
      \<lambda>p. snap_spectranet_active T \<noteq> 0 \<and> p = SNER_part,
      \<lambda>p. True \<and> p = ZXPR_part,
      \<lambda>p. snap_covox_active T \<noteq> 0 \<and> p = COVX_part,
      \<lambda>p. snap_multiface_active T \<noteq> 0 \<and> p = MFCE_part,
      \<lambda>p. snap_ulaplus_active T \<noteq> 0 \<and> p = PLTT_part,
      \<lambda>p. snap_zxmmc_active T \<noteq> 0 \<and> p = ZMMC_part]"

lemma szx_page_list_small:
  assumes "snap_machine T \<notin> set [MACHINE_PENT512, MACHINE_PENT1024]"
  shows "i \<in> set (szx_page_list (snap_machine T)) \<Longrightarrow> i < 16" "length (szx_page_list (snap_machine T)) \<le> 100"
  using assms
  by (cases "snap_machine T"; simp add: szx_page_list_def libspectrum_machine_capabilities_def Let_def; auto)+

lemma device_steps:
  assumes z: "zlib_lossless z" "zlib_header z" and c: "compress = 0 \<or> compress = 1" and T: "szx_writable z T"
  shows "list_all2 (szx_step z T (2 ^ 40)) (szx_device_parts T) (szx_device_steps junk z T compress)"
proof -
  have T': "snap_machine T \<notin> set [MACHINE_PENT512, MACHINE_PENT1024]" "szx_arrays_ok T" "szx_disks_ok T" "szx_devices_ok z T"
    using T by (simp_all add: szx_writable_def)
  note arrays = T'(2) [unfolded szx_arrays_ok_def]
  note disks = T'(3) [unfolded szx_disks_ok_def byte_sized_def]
  note devices = T'(4) [unfolded szx_devices_ok_def byte_sized_def]
  have counts: "snap_zxatasp_active T \<noteq> 0 \<Longrightarrow> unat (snap_zxatasp_pages T) \<le> 32" "snap_zxcf_active T \<noteq> 0 \<Longrightarrow> unat (snap_zxcf_pages T) \<le> 64"
    "snap_divide_active T \<noteq> 0 \<Longrightarrow> unat (snap_divide_pages T) \<le> 4" "snap_divmmc_active T \<noteq> 0 \<Longrightarrow> unat (snap_divmmc_pages T) \<le> 64"
    using devices by (simp_all add: word_le_nat_alt)
  have small: "snap_zxatasp_active T \<noteq> 0 \<Longrightarrow> snap_zxatasp_pages T < 256" "snap_zxcf_active T \<noteq> 0 \<Longrightarrow> snap_zxcf_pages T < 256"
    "snap_divide_active T \<noteq> 0 \<Longrightarrow> snap_divide_pages T < 256" "snap_divmmc_active T \<noteq> 0 \<Longrightarrow> snap_divmmc_pages T < 256"
    using counts by (simp_all add: word_less_nat_alt)
  have ram: "szx_step z T (2 ^ 40) (\<lambda>p. True \<and> (\<exists>i \<in> set (szx_page_list (snap_machine T)). p = RAM_page i \<and> snap_pages T ! i \<noteq> None))
      (write_if True (write_each (write_ramp_chunk junk z T compress) (szx_page_list (snap_machine T))))"
    using szx_page_list_small [OF T'(1)] arrays by (intro pages_step wider ramp_step z c) auto
  have atrp: "szx_step z T (2 ^ 40) (\<lambda>p. snap_zxatasp_active T \<noteq> 0 \<and>
      (\<exists>i \<in> set [0..<unat (snap_zxatasp_pages T)]. p = ATRP_page i \<and> snap_zxatasp_ram T ! i \<noteq> None))
      (write_if (snap_zxatasp_active T \<noteq> 0) (write_each (write_atrp_chunk junk z T compress) [0..<unat (snap_zxatasp_pages T)]))"
    using counts(1) arrays by (intro pages_step wider atrp_step z c) auto
  have cfrp: "szx_step z T (2 ^ 40) (\<lambda>p. snap_zxcf_active T \<noteq> 0 \<and>
      (\<exists>i \<in> set [0..<unat (snap_zxcf_pages T)]. p = CFRP_page i \<and> snap_zxcf_ram T ! i \<noteq> None))
      (write_if (snap_zxcf_active T \<noteq> 0) (write_each (write_cfrp_chunk junk z T compress) [0..<unat (snap_zxcf_pages T)]))"
    using counts(2) arrays by (intro pages_step wider cfrp_step z c) auto
  have dirp: "szx_step z T (2 ^ 40) (\<lambda>p. snap_divide_active T \<noteq> 0 \<and>
      (\<exists>i \<in> set [0..<unat (snap_divide_pages T)]. p = DIRP_page i \<and> snap_divide_ram T ! i \<noteq> None))
      (write_if (snap_divide_active T \<noteq> 0) (write_each (write_dirp_chunk junk z T compress) [0..<unat (snap_divide_pages T)]))"
    using counts(3) arrays by (intro pages_step wider dirp_step z c) auto
  have dmrp: "szx_step z T (2 ^ 40) (\<lambda>p. snap_divmmc_active T \<noteq> 0 \<and>
      (\<exists>i \<in> set [0..<unat (snap_divmmc_pages T)]. p = DMRP_page i \<and> snap_divmmc_ram T ! i \<noteq> None))
      (write_if (snap_divmmc_active T \<noteq> 0) (write_each (write_dmrp_chunk junk z T compress) [0..<unat (snap_divmmc_pages T)]))"
    using counts(4) arrays by (intro pages_step wider dmrp_step z c) auto
  have dock: "szx_step z T (2 ^ 40) (\<lambda>p. snap_dock_active T \<noteq> 0 \<and> (\<exists>i \<in> set [0..<8].
        (p = EXROM_page i \<or> p = DOCK_part) \<and> snap_exrom_cart T ! i \<noteq> None \<or>
        (p = DOCK_page i \<or> p = DOCK_part) \<and> snap_dock_cart T ! i \<noteq> None))
      (write_if (snap_dock_active T \<noteq> 0) (write_each (write_dock_pages junk z T compress) [0..<8]))"
    using arrays by (intro pages_step dock_pages_step z c) auto
  have b128: "szx_step z T (2 ^ 32) (\<lambda>p. p = B128_part) (put_step (write_b128_chunk junk z T compress))" if "snap_beta_active T \<noteq> 0"
    using that disks memory_ofD [of "0x4000" "snap_beta_rom T"] by (intro b128_step z c that) simp_all
  have zxat: "szx_step z T (2 ^ 32) (\<lambda>p. p = ZXAT_part) (put_step (write_zxat_chunk junk T))" if "snap_zxatasp_active T \<noteq> 0"
    using that devices small(1) by (intro zxat_step) auto
  have if2r: "szx_step z T (2 ^ 32) (\<lambda>p. p = IF2R_part) (write_if2r_chunk junk z T)" if active: "snap_interface2_active T \<noteq> 0"
  proof -
    have mem: "memory_of 0x4000 (snap_interface2_rom T)"
      using active devices by simp
    obtain d where d: "snap_interface2_rom T = Some d" "length d = 0x4000"
      using memory_ofD [OF mem] by blast
    obtain gz where "libspectrum_zlib_compress z d = (ERROR_NONE, gz)" "length gz < 2 ^ 30" using devices active d by auto
    then show ?thesis by (intro if2r_step [OF z(1) active d])
  qed
  have if1: "szx_step z T (2 ^ 32) (\<lambda>p. p = IF1_part) (write_if1_chunk junk z T compress)" if "snap_interface1_active T \<noteq> 0"
    using that disks memory_ofD [of "unat (snap_interface1_rom_length T)" "snap_interface1_rom T"]
    by (intro if1_step z c that) auto
  have opus: "szx_step z T (2 ^ 32) (\<lambda>p. p = OPUS_part) (write_opus_chunk junk z T compress)" if active: "snap_opus_active T \<noteq> 0"
  proof -
    have mem: "memory_of 0x2000 (snap_opus_rom T)" "memory_of 0x800 (snap_opus_ram T)"
      using active disks by simp_all
    obtain rom ram where m: "snap_opus_rom T = Some rom" "length rom = 0x2000" "snap_opus_ram T = Some ram" "length ram = 0x800"
      using memory_ofD [OF mem(1)] memory_ofD [OF mem(2)] by blast
    show ?thesis by (rule opus_step [OF z(1) c z(2) active _ _ m]) (use active disks in simp_all)
  qed
  have plsd: "szx_step z T (2 ^ 32) (\<lambda>p. p = PLSD_part) (write_plsd_chunk junk z T compress)" if active: "snap_plusd_active T \<noteq> 0"
  proof -
    have mem: "memory_of 0x2000 (snap_plusd_rom T)" "memory_of 0x2000 (snap_plusd_ram T)"
      using active disks by simp_all
    obtain rom ram where m: "snap_plusd_rom T = Some rom" "length rom = 0x2000" "snap_plusd_ram T = Some ram" "length ram = 0x2000"
      using memory_ofD [OF mem(1)] memory_ofD [OF mem(2)] by blast
    show ?thesis by (rule plsd_step [OF z(1) c z(2) active _ _ m]) (use active disks in simp_all)
  qed
  have dide: "szx_step z T (2 ^ 32) (\<lambda>p. p = DIDE_part) (write_dide_chunk junk z T compress)" if active: "snap_divide_active T \<noteq> 0"
  proof -
    have mem: "memory_of 0x2000 (snap_divide_eprom T)"
      using active devices by simp
    obtain d where "snap_divide_eprom T = Some d" "length d = 0x2000"
      using memory_ofD [OF mem] by blast
    then show ?thesis by (rule dide_step [OF z(1) c active _ _ small(3) [OF active]])
  qed
  have dmmc: "szx_step z T (2 ^ 32) (\<lambda>p. p = DMMC_part) (write_dmmc_chunk junk z T compress)" if active: "snap_divmmc_active T \<noteq> 0"
  proof -
    have mem: "memory_of 0x2000 (snap_divmmc_eprom T)"
      using active devices by simp
    obtain d where "snap_divmmc_eprom T = Some d" "length d = 0x2000"
      using memory_ofD [OF mem] by blast
    then show ?thesis by (rule dmmc_step [OF z(1) c active _ _ small(4) [OF active]])
  qed
  have snet: "szx_step z T (2 ^ 32) (\<lambda>p. p = SNET_part) (put_step (write_snet_chunk junk T))"
    "szx_step z T (2 ^ 32) (\<lambda>p. p = SNEF_part) (put_step (write_snef_chunk junk z T compress))"
    "szx_step z T (2 ^ 32) (\<lambda>p. p = SNER_part) (put_step (write_sner_chunk junk z T compress))" if active: "snap_spectranet_active T \<noteq> 0"
  proof -
    have mem: "memory_of 0x30 (snap_spectranet_w5100 T)" "memory_of 0x20000 (snap_spectranet_flash T)" "memory_of 0x20000 (snap_spectranet_ram T)"
      using active devices by simp_all
    obtain w d e where m: "snap_spectranet_w5100 T = Some w" "length w = 0x30" "snap_spectranet_flash T = Some d" "length d = 0x20000"
      "snap_spectranet_ram T = Some e" "length e = 0x20000"
      using memory_ofD [OF mem(1)] memory_ofD [OF mem(2)] memory_ofD [OF mem(3)] by blast
    show "szx_step z T (2 ^ 32) (\<lambda>p. p = SNET_part) (put_step (write_snet_chunk junk T))"
      using active devices by (intro snet_step [OF active m(1,2)]) auto
    show "szx_step z T (2 ^ 32) (\<lambda>p. p = SNEF_part) (put_step (write_snef_chunk junk z T compress))"
      by (rule snef_step [OF z(1) c m(3,4)])
    show "szx_step z T (2 ^ 32) (\<lambda>p. p = SNER_part) (put_step (write_sner_chunk junk z T compress))"
      by (rule sner_step [OF z(1) c m(5,6)])
  qed
  have mfce: "szx_step z T (2 ^ 32) (\<lambda>p. p = MFCE_part) (write_mfce_chunk junk z T compress)" if active: "snap_multiface_active T \<noteq> 0"
  proof -
    have mem: "memory_of (unat (snap_multiface_ram_length T)) (snap_multiface_ram T)"
      using active devices by simp
    obtain d where d: "snap_multiface_ram T = Some d" "length d = unat (snap_multiface_ram_length T)"
      using memory_ofD [OF mem] by blast
    moreover have "unat (snap_multiface_ram_length T) = 0x2000 \<or> unat (snap_multiface_ram_length T) = 0x4000"
      using active devices by auto
    ultimately show ?thesis by (intro mfce_step [OF z(1) c active d(1)]) simp_all
  qed
  have pltt: "szx_step z T (2 ^ 32) (\<lambda>p. p = PLTT_part) (put_step (write_pltt_chunk junk T))" if active: "snap_ulaplus_active T \<noteq> 0"
  proof -
    have mem: "memory_of 64 (snap_ulaplus_palette T)"
      using active devices by simp
    obtain d where "snap_ulaplus_palette T = Some d" "length d = 64"
      using memory_ofD [OF mem] by blast
    then show ?thesis by (rule pltt_step [OF active])
  qed
  have ay: "szx_step z T (2 ^ 32) (\<lambda>p. p = AY_part) (put_step (write_ay_chunk junk T))" using arrays by (intro ay_step) simp
  show ?thesis
    unfolding szx_device_parts_def szx_device_steps_def Let_def write_ram_pages_def list_all2_Cons
    using ram atrp cfrp dirp dmrp dock
    by (intro conjI) (assumption | intro device_step failing_step ay scld_step b128 zxat zxcf_step small if2r if1 opus plsd amxm_step
      side_step drum_step dide dmmc snet zxpr_step covx_step mfce pltt zmmc_step | simp)+
qed

lemma device_parts: "(\<exists>P \<in> set (szx_device_parts T). P p) \<longleftrightarrow> szx_holds T p \<and> p \<notin> {LATE_part, Z80R_part, SPCR_part, KEYB_part}"
  by (cases p) (auto simp: szx_device_parts_def list_ex_iff)

section \<open>The creator and the header\<close>

text \<open>The custom data do not name a version of this library that swapped A and F.\<close>

definition szx_creator_ok :: "libspectrum_creator \<Rightarrow> bool" where
  "szx_creator_ok c \<longleftrightarrow> length (libspectrum_creator_program c) = 32 \<and> unat (libspectrum_creator_custom_length c) < 2 ^ 30 \<and>
     (libspectrum_creator_custom_length c \<noteq> 0 \<longrightarrow>
        (case libspectrum_creator_custom c of None \<Rightarrow> False
         | Some d \<Rightarrow> length d = unat (libspectrum_creator_custom_length c) \<and> \<not> written_by_old_version d))"

lemma creator_step:
  assumes "szx_creator_ok c"
  shows "szx_step z T (2 ^ 32) (\<lambda>p. False) (put_step (write_crtr_chunk junk c))"
proof -
  let ?n = "libspectrum_creator_custom_length c"
  have empty: "\<not> written_by_old_version []" by (simp add: written_by_old_version_def)
  obtain d where d: "length d = unat ?n" "\<not> written_by_old_version d" "?n \<noteq> 0 \<Longrightarrow> libspectrum_creator_custom c = Some d"
  proof (cases "?n = 0")
    case True
    then show ?thesis using that [of "[]"] empty by simp
  next
    case False
    then show ?thesis using that assms by (auto simp: szx_creator_ok_def split: option.splits)
  qed
  let ?items = "[Put_data (libspectrum_creator_program c) 32, Put_word (libspectrum_creator_major c),
    Put_word (libspectrum_creator_minor c)] @ (if ?n \<noteq> 0 then [Put_data d ?n] else [])"
  have w: "write_crtr_chunk junk c = szx_put_chunk junk ''CRTR'' ?items"
    using d(3) by (intro ext) (simp add: write_crtr_chunk_def)
  have bytes: "items_bytes ?items @ rest = (libspectrum_creator_program c @ word_bytes (libspectrum_creator_major c) @
      word_bytes (libspectrum_creator_minor c)) @ d @ rest" "length (items_bytes ?items) = 36 + length d" for rest
    using assms d(1) by (auto simp: szx_creator_ok_def)
  show ?thesis
    unfolding w
  proof (rule chunk_step [where f = "\<lambda>s. s", OF szx_chunk_readers(4)])
    show "length ''CRTR'' \<le> 4 \<and> (\<forall>x \<in> set ?items. item_ok x) \<and> length (items_bytes ?items) < 2 ^ 31"
      using assms d(1) by (auto simp: szx_creator_ok_def)
    show "szx_ready T s \<and> read_crtr_chunk s 0x0105 (items_bytes ?items @ rest) (length (items_bytes ?items)) False =
        Some (ERROR_NONE, s, False, rest)" if "szx_ready T s" for s rest
      unfolding bytes using that d(2) assms by (simp add: read_crtr_chunk_def szx_creator_ok_def)
  qed simp
qed

definition szx_header :: "byte \<Rightarrow> libspectrum_snap \<Rightarrow> byte list" where
  "szx_header n T = map of_char ''ZXST'' @ [1, 5, n, flag_if (snap_late_timings T \<noteq> 0) ZXSTMF_ALTERNATETIMINGS]"

lemma szx_machine_number:
  assumes "list_ex (\<lambda>(n, m). m = snap_machine T) szx_machines"
  shows "\<exists>n. find (\<lambda>(n, m). m = snap_machine T) szx_machines = Some (n, snap_machine T) \<and>
    map_of szx_machines n = Some (snap_machine T)"
  using assms by (cases "snap_machine T") (simp_all add: szx_machines_def)

lemma header_written:
  assumes n: "find (\<lambda>(n, m). m = snap_machine T) szx_machines = Some (n, snap_machine T)"
  shows "\<exists>b. szx_write_file_header junk T (libspectrum_buffer_alloc junk') = Some (ERROR_NONE, b) \<and> contents b = szx_header n T \<and>
    has_room b (2 ^ 60)"
proof -
  let ?start = "[Put_data (map of_char ''ZXST'') 4, Put_byte 1, Put_byte 5]"
  let ?rest = "[Put_byte n, Put_byte (flag_if (snap_late_timings T \<noteq> 0) ZXSTMF_ALTERNATETIMINGS)]"
  have room: "has_room (libspectrum_buffer_alloc junk') (2 ^ 61)" by (rule alloc_has_room) simp
  have puts: "buf.puts (\<lambda>b. put_items junk ?start b \<bind> put_items junk ?rest) (items_bytes ?start @ items_bytes ?rest)"
    by (rule buf.puts_seq) (rule put_items_bytes, simp)+
  obtain b where b: "put_items junk ?start (libspectrum_buffer_alloc junk') \<bind> put_items junk ?rest = Some b"
    "contents b = items_bytes ?start @ items_bytes ?rest" "has_room b (2 ^ 61 - length (items_bytes ?start @ items_bytes ?rest))"
    using buf.puts_result [OF puts room] by (auto simp: alloc_contents)
  have "szx_write_file_header junk T (libspectrum_buffer_alloc junk') = Some (ERROR_NONE, b)"
    using b(1) n by (auto simp: szx_write_file_header_def bind_eq_Some_conv)
  moreover have "has_room b (2 ^ 60)" using b(3) by (simp add: has_room_def)
  ultimately show ?thesis using b(2) by (auto simp: szx_header_def)
qed

section \<open>The file\<close>

lemma on_ok_put: "on_ok (map_option (Pair ERROR_NONE) x) g = x \<bind> g"
  by (cases x) simp_all

lemma map_then: "map_option h (x \<bind> g) = x \<bind> (\<lambda>y. map_option h (g y))"
  by (cases x) simp_all

lemma pair_then: "map_option (Pair a) x \<bind> g = x \<bind> (\<lambda>y. g (a, y))"
  by (cases x) simp_all

text \<open>The steps of the writer after the header, with the joysticks that are written.\<close>

definition szx_steps ::
    "(nat \<Rightarrow> byte) \<Rightarrow> 's zlib \<Rightarrow> libspectrum_snap \<Rightarrow> libspectrum_creator option \<Rightarrow> int \<Rightarrow> dword \<Rightarrow> byte \<Rightarrow> byte \<Rightarrow> byte \<Rightarrow>
     (szx_out \<Rightarrow> szx_out c_result) list" where
  "szx_steps junk z T creator compress d a b k =
     (case creator of None \<Rightarrow> [] | Some c \<Rightarrow> [put_step (write_crtr_chunk junk c)]) @
     [put_step (write_z80r_chunk junk T), put_step (write_spcr_chunk junk T),
      put_step (szx_put_chunk junk ''JOY'' [Put_dword d, Put_byte a, Put_byte b]),
      put_step (szx_put_chunk junk ''KEYB'' [Put_dword (flag_if (snap_issue2 T \<noteq> 0) ZXSTKF_ISSUE2), Put_byte k])] @
     szx_device_steps junk z T compress"

definition szx_parts :: "libspectrum_snap \<Rightarrow> libspectrum_creator option \<Rightarrow> (szx_part \<Rightarrow> bool) list" where
  "szx_parts T creator = (case creator of None \<Rightarrow> [] | Some c \<Rightarrow> [\<lambda>p. False]) @
     [\<lambda>p. p = Z80R_part, \<lambda>p. p = SPCR_part, \<lambda>p. False, \<lambda>p. p = KEYB_part] @ szx_device_parts T"

lemma write_as_steps:
  assumes header: "szx_write_file_header junk T b0 = Some (ERROR_NONE, b1)" and rom: "snap_custom_rom T = 0"
    and joysticks: "joysticks_fit T"
  shows "\<exists>fl d a b k. libspectrum_szx_write junk z b0 T creator in_flags =
    map_option (\<lambda>(error, out). (error, fl, fst out)) (write_steps (szx_steps junk z T creator
      (if in_flags AND FLAG_SNAPSHOT_NO_COMPRESSION \<noteq> 0 then 0 else 1) d a b k) (b1, libspectrum_buffer_alloc junk))"
proof -
  define f0 where "f0 = info_loss FLAG_SNAPSHOT_MAJOR_INFO_LOSS
       [snap_usource_active T \<noteq> 0, snap_disciple_active T \<noteq> 0, snap_didaktik80_active T \<noteq> 0] 0"
  obtain f1 d a b where joy: "write_joy_chunk junk f0 T =
      (\<lambda>out. map_option (Pair f1) (szx_put_chunk junk ''JOY'' [Put_dword d, Put_byte a, Put_byte b] out))"
    using joy_written [OF joysticks] by blast
  obtain f2 k where keyb: "write_keyb_chunk junk f1 T = (\<lambda>out. map_option (Pair f2)
      (szx_put_chunk junk ''KEYB'' [Put_dword (flag_if (snap_issue2 T \<noteq> 0) ZXSTKF_ISSUE2), Put_byte k] out))"
    using keyb_written [OF joysticks] by blast
  show ?thesis
    by (intro exI [of _ f2] exI [of _ d] exI [of _ a] exI [of _ b] exI [of _ k])
      (simp add: libspectrum_szx_write_def header rom Let_def f0_def [symmetric] joy keyb szx_steps_def on_ok_put map_then pair_then
        bind_assoc split: option.split)
qed

lemma all_steps:
  assumes z: "zlib_lossless z" "zlib_header z" and c: "compress = 0 \<or> compress = 1" and T: "szx_writable z T"
    and creator: "case creator of None \<Rightarrow> True | Some c \<Rightarrow> szx_creator_ok c"
  shows "szx_step z T (2 ^ 50) (\<lambda>p. p \<noteq> LATE_part \<and> szx_holds T p) (write_steps (szx_steps junk z T creator compress d a b k))"
proof -
  have "list_all2 (szx_step z T (2 ^ 40)) (szx_parts T creator) (szx_steps junk z T creator compress d a b k)"
    unfolding szx_parts_def szx_steps_def
  proof (intro list_all2_appendI device_steps [OF z c T])
    show "list_all2 (szx_step z T (2 ^ 40)) (case creator of None \<Rightarrow> [] | Some c \<Rightarrow> [\<lambda>p. False])
        (case creator of None \<Rightarrow> [] | Some c \<Rightarrow> [put_step (write_crtr_chunk junk c)])"
      using creator step_always [OF creator_step] by (auto split: option.splits)
    show "list_all2 (szx_step z T (2 ^ 40)) [\<lambda>p. p = Z80R_part, \<lambda>p. p = SPCR_part, \<lambda>p. False, \<lambda>p. p = KEYB_part]
       [put_step (write_z80r_chunk junk T), put_step (write_spcr_chunk junk T),
        put_step (szx_put_chunk junk ''JOY'' [Put_dword d, Put_byte a, Put_byte b]),
        put_step (szx_put_chunk junk ''KEYB'' [Put_dword (flag_if (snap_issue2 T \<noteq> 0) ZXSTKF_ISSUE2), Put_byte k])]"
      unfolding list_all2_Cons
      by (intro conjI step_always z80r_step spcr_step joy_step keyb_step list_all2_Nil [THEN iffD2]) simp
  qed
  from steps_all [OF this] have step: "szx_step z T (length (szx_steps junk z T creator compress d a b k) * 2 ^ 40)
      (\<lambda>p. \<exists>P \<in> set (szx_parts T creator). P p) (write_steps (szx_steps junk z T creator compress d a b k))" .
  have "length (szx_steps junk z T creator compress d a b k) * 2 ^ 40 \<le> 2 ^ 50"
    by (simp add: szx_steps_def szx_device_steps_def Let_def split: option.split)
  moreover have "(\<exists>P \<in> set (szx_parts T creator). P p) = (p \<noteq> LATE_part \<and> szx_holds T p)" for p
    using device_parts [of T p] by (cases p) (auto simp: szx_parts_def split: option.split)
  ultimately show ?thesis by (rule step_weaken [OF step])
qed

text \<open>The snapshot that is read into, when the header has been read.\<close>

definition szx_fresh :: "libspectrum_snap \<Rightarrow> libspectrum_snap \<Rightarrow> libspectrum_snap" where
  "szx_fresh raw T = (libspectrum_snap_alloc raw)\<lparr>snap_machine := snap_machine T\<rparr>"

definition szx_started :: "libspectrum_snap \<Rightarrow> libspectrum_snap \<Rightarrow> libspectrum_snap" where
  "szx_started raw T =
     (if snap_machine T \<in> set [MACHINE_16, MACHINE_48, MACHINE_48_NTSC, MACHINE_128]
      then (szx_fresh raw T)\<lparr>snap_late_timings := flag_bits (flag_if (snap_late_timings T \<noteq> 0) ZXSTMF_ALTERNATETIMINGS :: byte)
        ZXSTMF_ALTERNATETIMINGS\<rparr>
      else szx_fresh raw T)"

lemma started_ready: "szx_ready T (szx_started raw T)"
  by (simp add: szx_started_def szx_fresh_def szx_ready_def joysticks_ok_def libspectrum_snap_alloc_def)

lemma started_values: "szx_values p (szx_started raw T) = szx_values p (if p = LATE_part \<and> szx_holds T p then T else szx_fresh raw T)"
  by (cases p) (auto simp: szx_started_def flag_bits_def flag_if_def)

lemma read_written_szx:
  assumes "map_of szx_machines n = Some (snap_machine T)"
  shows "libspectrum_szx_read z (libspectrum_snap_alloc raw) (szx_header n T @ bytes) =
    szx_read_chunks z (length (szx_header n T @ bytes)) (szx_started raw T) 0x0105 bytes False"
  using assms by (simp add: libspectrum_szx_read_def szx_header_def szx_started_def szx_fresh_def Let_def)


section \<open>An example\<close>

text \<open>A Spectrum 128 with a page of memory, a Beta 128 with a ROM of its own and a +D.\<close>

definition example_128 :: "libspectrum_snap \<Rightarrow> libspectrum_snap" where
  "example_128 raw = (libspectrum_snap_alloc raw)\<lparr>snap_machine := MACHINE_128, snap_a := 0x12, snap_pc := 0x8000,
     snap_pages := (replicate 16 None)[5 := Some (replicate 0x4000 7)], snap_beta_active := 1, snap_beta_custom_rom := 1,
     snap_beta_drive_count := 4, snap_beta_rom := Some (replicate 0x4000 0xc9), snap_plusd_active := 1,
     snap_plusd_drive_count := 2, snap_plusd_rom := Some (replicate 0x2000 1), snap_plusd_ram := Some (replicate 0x2000 2)\<rparr>"

lemma example_128_writable: "szx_writable run_zlib (example_128 raw)"
proof -
  have "szx_arrays_ok (example_128 raw)"
    unfolding szx_arrays_ok_def
    by (simp add: example_128_def libspectrum_snap_alloc_def joysticks_fit_def nth_list_update)
  moreover have "szx_disks_ok (example_128 raw)"
    by (simp add: szx_disks_ok_def example_128_def libspectrum_snap_alloc_def byte_sized_def memory_of_def)
  moreover have "szx_devices_ok run_zlib (example_128 raw)"
    by (simp add: szx_devices_ok_def example_128_def libspectrum_snap_alloc_def)
  ultimately show ?thesis
    by (simp add: szx_writable_def) (simp add: example_128_def libspectrum_snap_alloc_def szx_machines_def)
qed


end
