(* ===== verification/Spec2Isabelle.thy ===== *)
theory Spec2Isabelle
  imports LS_Prelude LS_Core GSList GHash LS_Buffer Tape_Block Tape_Edge Tape_Init Tape_Play
    Tape_Signals Tape Tape_Ready Tape_Safe Tape_Sound Tape_Access Tap Tzx_Read Tzx_Write
    Tzx_Format Tzx_Roundtrip Hdf Ide Mmc Microdrive Timings Snapshot Sna Z80_Block Z80_Read
    Z80_Write Z80_Format Z80_Roundtrip Snap_Small Zxs Rzx Rzx_Session Rzx_Playback Rzx_Finalise
    Zlib Creator Szx_Read Szx_Write Szx_Format Szx_Parts Zip Snap_Files Tape_Formats Warajevo
    Dck Tape_Files Rzx_Files Rzx_Format Szx_Roundtrip Run_Zlib
begin

text \<open>
  libspectrum is the library with which ZX Spectrum emulators read and write snapshots, tapes,
  recordings, disk and cartridge images. This development models the library's C code and proves
  what its parts promise. Paths are relative to \<open>src/\<close>.

  \<^bold>\<open>Conventions.\<close> A C function is the definition of the same name (some have a suffix or a prefix
  where the name clashes); a structure is a record, an enumeration a datatype, \<open>libspectrum_byte\<close>,
  \<open>_word\<close>, \<open>_dword\<close> and \<open>size_t\<close> are words of 8, 16, 32 and 64 bits that wrap around. An \<open>int\<close> is
  an integer; where it can overflow the overflow is a check. A function that can read or write outside
  an object, use a dangling pointer or divide by zero returns an \<open>option\<close>, and \<open>None\<close> is that
  undefined behaviour: a theorem that says the result is \<open>Some\<close> also says that the execution
  stays inside its objects. An error code is the first component of a \<open>c_result\<close>; the second is the
  state, also after an error. Memory with indeterminate contents is a parameter (\<open>junk\<close>, \<open>raw\<close>).
  Allocation does not fail, and releasing memory has no counterpart except where a pointer is kept.
  Messages are not modelled. The text being read is a list of bytes; the \<open>buffer\<close> and \<open>end\<close>
  pointers of a reader are the list that is left, or an index into it.

  \<^bold>\<open>Containers.\<close> \<open>GSList\<close> (myglib/gslist.c) models lists as HOL lists and proves the index
  functions; \<open>GHash\<close> (myglib/ghash.c) models the chained buckets and proves that they are a
  map (\<open>hash_table_is_map\<close>); \<open>LS_Buffer\<close> (buffer.c) models the growable buffer, states the locale
  \<open>byte_sink\<close> of things that can be written to, with the notion \<open>puts f bytes\<close> of a writer \<open>f\<close> that
  appends \<open>bytes\<close>, and interprets it for the growable buffer; every writer of a file format is
  proved over it.
  \<open>LS_Core\<close> (libspectrum.c, utilities.c) has the byte order accessors, the identification of files,
  the capabilities of the machines and the conversion of times; \<open>Timings\<close> is timings.c.

  \<^bold>\<open>Tapes.\<close> \<open>Tape_Block\<close> (tape_block.c, tape_block.h, symbol_table.c) has the blocks,
  \<open>Tape_Edge\<close>, \<open>Tape_Init\<close>, \<open>Tape_Play\<close>, \<open>Tape_Signals\<close> the edge generators of tape.c, one per
  block type, and the signal that each block stands for; \<open>Tape\<close> the tape with its list of blocks,
  iterators, loops, jumps and editing. The blocks live at addresses, the iterators point to them, so
  that a removed block leaves dangling pointers as it does in the code. \<open>Tape_Ready\<close> and \<open>Tape_Safe\<close>
  prove that no sequence of calls leaves the blocks or the buffers; \<open>Tape_Sound\<close> that a tape plays
  the signals of its blocks; \<open>Tape_Access\<close> has the accessors of blocks. \<open>Tap\<close> (tap.c), \<open>Tzx_Read\<close>,
  \<open>Tzx_Write\<close> (tzx_read.c, tzx_write.c) have the files, \<open>Tzx_Format\<close> and \<open>Tzx_Roundtrip\<close> the
  proof that what is written is read back.

  \<^bold>\<open>Disks and cartridges.\<close> \<open>Hdf\<close> and \<open>Ide\<close> (ide.c) model the hard disk images with their write
  cache and the IDE channel as a state machine of register accesses; \<open>Mmc\<close> (mmc.c) the SD card on
  the same images; \<open>Microdrive\<close> (microdrive.c) the cartridges, their checksums and files.

  \<^bold>\<open>Snapshots.\<close> \<open>Snapshot\<close> (snapshot.c, snap_accessors.txt) has the state of a machine; the formats are
  \<open>Sna\<close> (sna.c), \<open>Z80_Block\<close>, \<open>Z80_Read\<close>, \<open>Z80_Write\<close>, \<open>Z80_Format\<close>, \<open>Z80_Roundtrip\<close> (z80.c),
  \<open>Snap_Small\<close> (snp.c, sp.c, plusd.c), \<open>Zxs\<close> (zxs.c) and \<open>Szx_Read\<close>, \<open>Szx_Write\<close>, \<open>Szx_Format\<close>,
  \<open>Szx_Parts\<close> (szx.c). \<open>Creator\<close> is creator.c. \<open>Zlib\<close> (zlib.c, bzip2.c) has the code around the
  libraries zlib and libbz2, which are records of functions, parameters of everything that uses
  them; \<open>zlib_lossless\<close> is the documented contract of zlib that the round trips assume.

  \<^bold>\<open>Recordings.\<close> \<open>Rzx\<close> (rzx.c) has the blocks of a recording and the operations of recording,
  rollback, playback and finalising; \<open>Rzx_Session\<close> proves that they implement a sequence of
  frames and snapshots, \<open>Rzx_Playback\<close> that playback delivers what was recorded, \<open>Rzx_Finalise\<close>
  that finalising keeps the frames.

  \<^bold>\<open>Bounds and fuel.\<close> Loops over counted data are structural. The reader of the chunks of a .szx
  file and the loops of the tape readers take as fuel the number of bytes that are left, and every
  step consumes one. Loops of the code that may not end (seeking for the next edge, inflating,
  doubling a buffer) are partial functions of which termination is proved where the theorems
  need it. The blocks of writers are assumed to fit into \<open>2 ^ 62\<close> bytes, as \<open>size_t\<close> counts them.
\<close>

end
